(* ===== verification/Prelude.thy ===== *)
theory Prelude imports Main "HOL-Library.AList" "HOL-Library.Multiset" "HOL-Library.Product_Lexorder" begin

text \<open>
  The vocabulary every component of the development shares.

  Python raises, so an operation that can fail returns \<open>err + 'a\<close>: \<open>Inl\<close> carries the
  exception, \<open>Inr\<close> the result. \<open>bindE\<close> sequences two such operations, \<open>foldE\<close> is a
  \<^theory_text>\<open>for\<close> loop whose body may raise. A Python dict keeps its insertion order, so it
  is an association list \<open>('k, 'v) dict\<close>: storing under a present key keeps the key's place and
  storing under a new key appends (\<open>AList.update\<close>). The locale \<open>dict_store\<close> is the contract
  the components use of a dict; it is interpreted on the association lists below.
\<close>

section \<open>Exceptions\<close>

datatype err =
    AssertionError
  | TypeError
  | KeyError
  | IndexError
  | ValueError
  | AttributeError
  | InvalidConfigError
  | FakeOFTableException
  | RecursionError
  | StructError
  | TooSmallException
  | NotImplementedError
  | UnboundLocalError
  | ZeroDivisionError

named_theorems err_simps \<open>evaluation of operations that may raise\<close>
named_theorems dict_simps \<open>laws of Python dicts\<close>

definition bindE :: "'e + 'a \<Rightarrow> ('a \<Rightarrow> 'e + 'b) \<Rightarrow> 'e + 'b" where
  "bindE m f = (case m of Inl e \<Rightarrow> Inl e | Inr x \<Rightarrow> f x)"

lemma bindE_simps [simp, err_simps]:
  "bindE (Inl e) f = Inl e"
  "bindE (Inr x) f = f x"
  by (simp_all add: bindE_def)

lemma bindE_Inr [err_simps]: "bindE m f = Inr y \<longleftrightarrow> (\<exists>x. m = Inr x \<and> f x = Inr y)"
  by (cases m) auto

lemma bindE_Inl: "bindE m f = Inl e \<longleftrightarrow> m = Inl e \<or> (\<exists>x. m = Inr x \<and> f x = Inl e)"
  by (cases m) auto

definition assertE :: "bool \<Rightarrow> err + unit" where
  "assertE b = (if b then Inr () else Inl AssertionError)"

lemma assertE_Inr [simp, err_simps]: "assertE b = Inr u \<longleftrightarrow> b"
  by (simp add: assertE_def)

lemma assertE_True [simp]: "assertE True = Inr ()" and assertE_False [simp]: "assertE False = Inl AssertionError"
  by (simp_all add: assertE_def)

definition test_config_condition :: "bool \<Rightarrow> err + unit" where
  "test_config_condition cond = (if cond then Inl InvalidConfigError else Inr ())"

lemma test_config_condition_Inr [simp, err_simps]: "test_config_condition c = Inr u \<longleftrightarrow> \<not> c"
  by (simp add: test_config_condition_def)

fun foldE :: "('a \<Rightarrow> 's \<Rightarrow> 'e + 's) \<Rightarrow> 'a list \<Rightarrow> 's \<Rightarrow> 'e + 's" where
  "foldE f [] s = Inr s"
| "foldE f (x # xs) s = bindE (f x s) (foldE f xs)"

lemma foldE_append [simp]: "foldE f (xs @ ys) s = bindE (foldE f xs s) (foldE f ys)"
proof (induction xs arbitrary: s)
  case Nil
  then show ?case by simp
next
  case (Cons x xs)
  then show ?case by (cases "f x s") simp_all
qed

lemma foldE_invariant:
  assumes "foldE f xs s = Inr t" and "P s"
    and "\<And>x s t. x \<in> set xs \<Longrightarrow> P s \<Longrightarrow> f x s = Inr t \<Longrightarrow> P t"
  shows "P t"
  using assms
proof (induction xs arbitrary: s)
  case Nil
  then show ?case by simp
next
  case (Cons x xs)
  from Cons.prems(1) obtain u where u: "f x s = Inr u" and rest: "foldE f xs u = Inr t"
    by (auto simp: bindE_Inr)
  from u Cons.prems(2,3) have "P u" by (meson list.set_intros(1))
  with rest show ?case using Cons.IH Cons.prems(3) by (meson list.set_intros(2))
qed

lemma foldE_total:
  assumes "P s" and "\<And>x s. x \<in> set xs \<Longrightarrow> P s \<Longrightarrow> \<exists>t. f x s = Inr t \<and> P t"
  shows "\<exists>t. foldE f xs s = Inr t \<and> P t"
  using assms
proof (induction xs arbitrary: s)
  case Nil
  then show ?case by simp
next
  case (Cons x xs)
  from Cons.prems obtain u where "f x s = Inr u" "P u" by (meson list.set_intros(1))
  with Cons.IH [of u] Cons.prems(2) show ?case by (auto simp: bindE_def)
qed

fun mapE :: "('a \<Rightarrow> 'e + 'b) \<Rightarrow> 'a list \<Rightarrow> 'e + 'b list" where
  "mapE f [] = Inr []"
| "mapE f (x # xs) = bindE (f x) (\<lambda>y. bindE (mapE f xs) (\<lambda>ys. Inr (y # ys)))"

lemma mapE_Inr_length: "mapE f xs = Inr ys \<Longrightarrow> length ys = length xs"
  by (induction xs arbitrary: ys) (auto simp: bindE_Inr)

lemma mapE_Inr_list_all2: "mapE f xs = Inr ys \<longleftrightarrow> list_all2 (\<lambda>x y. f x = Inr y) xs ys"
proof (induction xs arbitrary: ys)
  case Nil
  then show ?case by auto
next
  case (Cons x xs)
  then show ?case by (cases ys) (auto simp: bindE_Inr)
qed

section \<open>Python dicts\<close>

type_synonym ('k, 'v) dict = "('k \<times> 'v) list"

definition dict_get :: "('k, 'v) dict \<Rightarrow> 'k \<Rightarrow> 'v option" where
  "dict_get d k = map_of d k"

definition dict_set :: "'k \<Rightarrow> 'v \<Rightarrow> ('k, 'v) dict \<Rightarrow> ('k, 'v) dict" where
  "dict_set k v d = AList.update k v d"

definition dict_del :: "'k \<Rightarrow> ('k, 'v) dict \<Rightarrow> ('k, 'v) dict" where
  "dict_del k d = AList.delete k d"

definition dict_keys :: "('k, 'v) dict \<Rightarrow> 'k list" where
  "dict_keys d = map fst d"

definition dict_values :: "('k, 'v) dict \<Rightarrow> 'v list" where
  "dict_values d = map snd d"

definition dict_ok :: "('k, 'v) dict \<Rightarrow> bool" where
  "dict_ok d = distinct (map fst d)"

text \<open>\<open>d[k]\<close> on a missing key raises.\<close>

definition dict_getE :: "('k, 'v) dict \<Rightarrow> 'k \<Rightarrow> err + 'v" where
  "dict_getE d k = (case dict_get d k of None \<Rightarrow> Inl KeyError | Some v \<Rightarrow> Inr v)"

definition dict_delE :: "'k \<Rightarrow> ('k, 'v) dict \<Rightarrow> err + ('k, 'v) dict" where
  "dict_delE k d = (case dict_get d k of None \<Rightarrow> Inl KeyError | Some v \<Rightarrow> Inr (dict_del k d))"

text \<open>\<open>d == e\<close> compares the contents and not the order.\<close>

definition dict_eq :: "('k, 'v) dict \<Rightarrow> ('k, 'v) dict \<Rightarrow> bool" where
  "dict_eq d e = (\<forall>k \<in> set (map fst d @ map fst e). dict_get d k = dict_get e k)"

lemma dict_get_set [simp, dict_simps]: "dict_get (dict_set k v d) k' = (if k' = k then Some v else dict_get d k')"
  by (simp add: dict_get_def dict_set_def update_conv)

lemma dict_get_del [simp, dict_simps]: "dict_get (dict_del k d) k' = (if k' = k then None else dict_get d k')"
  by (simp add: dict_get_def dict_del_def delete_conv)

lemma dict_get_Nil [simp, dict_simps]: "dict_get [] k = None"
  by (simp add: dict_get_def)

lemma dict_get_Cons [dict_simps]: "dict_get ((k, v) # d) k' = (if k' = k then Some v else dict_get d k')"
  by (auto simp: dict_get_def)

lemma dict_ok_Nil [simp, dict_simps]: "dict_ok []"
  by (simp add: dict_ok_def)

lemma dict_ok_set [simp, dict_simps]: "dict_ok d \<Longrightarrow> dict_ok (dict_set k v d)"
  by (simp add: dict_ok_def dict_set_def distinct_update)

lemma dict_ok_del [simp, dict_simps]: "dict_ok d \<Longrightarrow> dict_ok (dict_del k d)"
  by (simp add: dict_ok_def dict_del_def distinct_delete)

lemma dict_get_None: "dict_get d k = None \<longleftrightarrow> k \<notin> set (dict_keys d)"
  by (simp add: dict_get_def dict_keys_def map_of_eq_None_iff)

lemma dict_get_Some_in: "dict_get d k = Some v \<Longrightarrow> (k, v) \<in> set d"
  by (simp add: dict_get_def map_of_SomeD)

lemma dict_ok_in: "dict_ok d \<Longrightarrow> (k, v) \<in> set d \<longleftrightarrow> dict_get d k = Some v"
  by (simp add: dict_get_def dict_ok_def map_of_eq_Some_iff)

lemma dict_values_get: "dict_ok d \<Longrightarrow> v \<in> set (dict_values d) \<longleftrightarrow> (\<exists>k. dict_get d k = Some v)"
  by (force simp: dict_values_def dict_ok_in [symmetric])

lemma dict_keys_get: "k \<in> set (dict_keys d) \<longleftrightarrow> (\<exists>v. dict_get d k = Some v)"
  using dict_get_None [of d k] by auto

lemma dict_keys_set: "set (dict_keys (dict_set k v d)) = insert k (set (dict_keys d))"
  by (auto simp: dict_keys_get split: if_splits)

lemma dict_getE_Inr [simp, err_simps]: "dict_getE d k = Inr v \<longleftrightarrow> dict_get d k = Some v"
  by (auto simp: dict_getE_def split: option.splits)

lemma dict_delE_Inr [simp, err_simps]:
  "dict_delE k d = Inr d' \<longleftrightarrow> (\<exists>v. dict_get d k = Some v) \<and> d' = dict_del k d"
  by (auto simp: dict_delE_def split: option.splits)

lemma dict_eq_get: "dict_eq d e \<longleftrightarrow> dict_get d = dict_get e"
proof
  assume eq: "dict_eq d e"
  show "dict_get d = dict_get e"
  proof
    fix k
    show "dict_get d k = dict_get e k"
    proof (cases "k \<in> set (dict_keys d) \<union> set (dict_keys e)")
      case True
      with eq show ?thesis by (auto simp: dict_eq_def dict_keys_def)
    next
      case False
      then show ?thesis using dict_get_None [of d k] dict_get_None [of e k] by auto
    qed
  qed
qed (auto simp: dict_eq_def)

lemma dict_eq_refl [simp]: "dict_eq d d" and dict_eq_sym: "dict_eq d e \<Longrightarrow> dict_eq e d"
  and dict_eq_trans: "dict_eq d e \<Longrightarrow> dict_eq e f \<Longrightarrow> dict_eq d f"
  by (simp_all add: dict_eq_get)

text \<open>The contract of a dict, as its users rely on it.\<close>

locale dict_store =
  fixes empty :: 'm
    and get :: "'m \<Rightarrow> 'k \<Rightarrow> 'v option"
    and put :: "'k \<Rightarrow> 'v \<Rightarrow> 'm \<Rightarrow> 'm"
    and del :: "'k \<Rightarrow> 'm \<Rightarrow> 'm"
    and ok :: "'m \<Rightarrow> bool"
  assumes get_empty: "get empty k = None"
    and get_put: "get (put k v m) k' = (if k' = k then Some v else get m k')"
    and get_del: "get (del k m) k' = (if k' = k then None else get m k')"
    and ok_empty: "ok empty"
    and ok_put: "ok m \<Longrightarrow> ok (put k v m)"
    and ok_del: "ok m \<Longrightarrow> ok (del k m)"
begin

lemma put_put_get: "get (put k v (put k w m)) = get (put k v m)"
  by (rule ext) (simp add: get_put)

lemma del_put_get: "get m k = None \<Longrightarrow> get (del k (put k v m)) = get m"
  by (rule ext) (simp add: get_put get_del)

lemma foldl_put_get:
  "get (foldl (\<lambda>m x. put (key x) (val x) m) m xs) k =
     (case find (\<lambda>x. key x = k) (rev xs) of Some x \<Rightarrow> Some (val x) | None \<Rightarrow> get m k)"
proof (induction xs rule: rev_induct)
  case Nil
  then show ?case by simp
next
  case (snoc x xs)
  then show ?case by (auto simp: get_put split: option.splits)
qed

lemma foldl_put_ok: "ok m \<Longrightarrow> ok (foldl (\<lambda>m x. put (key x) (val x) m) m xs)"
  by (induction xs arbitrary: m) (simp_all add: ok_put)

text \<open>A loop that updates the entry of each element's key from its old value.\<close>

lemma foldl_upd_get:
  "get (foldl (\<lambda>m x. put (key x) (upd (get m (key x)) x) m) m xs) k =
     foldl (\<lambda>v x. Some (upd v x)) (get m k) (filter (\<lambda>x. key x = k) xs)"
  by (induction xs arbitrary: m) (simp_all add: get_put)

end

interpretation py_dict: dict_store "[]" dict_get dict_set dict_del dict_ok
  by unfold_locales simp_all

text \<open>\<open>d.setdefault(k, []).append(v)\<close>.\<close>

definition dict_append :: "'k \<Rightarrow> 'v \<Rightarrow> ('k, 'v list) dict \<Rightarrow> ('k, 'v list) dict" where
  "dict_append k v d = dict_set k ((case dict_get d k of None \<Rightarrow> [] | Some xs \<Rightarrow> xs) @ [v]) d"

lemma foldl_append_Some:
  "foldl (\<lambda>v x. Some ((case v of None \<Rightarrow> [] | Some xs \<Rightarrow> xs) @ [x])) v xs =
     (if xs = [] then v else Some ((case v of None \<Rightarrow> [] | Some ys \<Rightarrow> ys) @ xs))"
  by (induction xs arbitrary: v) (auto split: option.splits)

lemma group_get:
  "dict_get (foldl (\<lambda>d x. dict_append (key x) x d) [] xs) k =
     (if filter (\<lambda>x. key x = k) xs = [] then None else Some (filter (\<lambda>x. key x = k) xs))"
  by (simp add: dict_append_def foldl_append_Some
      py_dict.foldl_upd_get [where upd = "\<lambda>v x. (case v of None \<Rightarrow> [] | Some xs \<Rightarrow> xs) @ [x]"])

lemma group_ok: "dict_ok d \<Longrightarrow> dict_ok (foldl (\<lambda>d x. dict_append (key x) x d) d xs)"
  by (induction xs arbitrary: d) (simp_all add: dict_append_def)

text \<open>Grouping only rearranges: the groups hold exactly the elements grouped, each in its key's group.\<close>

lemma update_new: "map_of d k = None \<Longrightarrow> AList.update k w d = d @ [(k, w)]"
  by (induction d) (auto split: if_splits)

lemma mset_update_append:
  "map_of d k = Some xs \<Longrightarrow> mset (concat (map snd (AList.update k (xs @ [v]) d))) = add_mset v (mset (concat (map snd d)))"
  by (induction d) (auto split: if_splits)

lemma mset_dict_append: "mset (concat (dict_values (dict_append k v d))) = add_mset v (mset (concat (dict_values d)))"
  by (auto simp: dict_append_def dict_set_def dict_get_def dict_values_def mset_update_append update_new
      split: option.splits)

lemma group_mset:
  "mset (concat (dict_values (foldl (\<lambda>d x. dict_append (key x) x d) d xs))) = mset (concat (dict_values d)) + mset xs"
  by (induction xs arbitrary: d) (simp_all add: mset_dict_append)

lemma group_item:
  assumes "(k, ms) \<in> set (foldl (\<lambda>d x. dict_append (key x) x d) [] xs)"
  shows "ms = filter (\<lambda>x. key x = k) xs" and "ms \<noteq> []"
proof -
  have "dict_get (foldl (\<lambda>d x. dict_append (key x) x d) [] xs) k = Some ms"
    using assms group_ok [OF dict_ok_Nil, of key xs] by (simp add: dict_ok_in)
  then show "ms = filter (\<lambda>x. key x = k) xs" and "ms \<noteq> []"
    by (auto simp: group_get split: if_splits)
qed

section \<open>Lists\<close>

lemma sorted_filter_map: "sorted (map f xs) \<Longrightarrow> sorted (map f (filter P xs))"
  by (induction xs) auto

text \<open>\<open>find P (rev xs)\<close> is the last element with \<open>P\<close>.\<close>

lemma find_rev_last: "P x \<Longrightarrow> \<forall>z \<in> set zs. \<not> P z \<Longrightarrow> find P (rev (ys @ x # zs)) = Some x"
  by (induction zs rule: rev_induct) (auto simp del: append_assoc simp: append_assoc [symmetric])

lemma find_rev_SomeD:
  "find P (rev xs) = Some x \<Longrightarrow> \<exists>ys zs. xs = ys @ x # zs \<and> P x \<and> (\<forall>z \<in> set zs. \<not> P z)"
proof (induction xs rule: rev_induct)
  case Nil
  then show ?case by simp
next
  case (snoc a xs)
  show ?case
  proof (cases "P a")
    case True
    with snoc.prems show ?thesis by (intro exI [of _ xs] exI [of _ "[]"]) auto
  next
    case False
    with snoc.prems snoc.IH obtain ys zs where "xs = ys @ x # zs" "P x" "\<forall>z \<in> set zs. \<not> P z" by auto
    with False show ?thesis by (intro exI [of _ ys] exI [of _ "zs @ [a]"]) auto
  qed
qed

lemma find_rev_None: "find P (rev xs) = None \<longleftrightarrow> (\<forall>x \<in> set xs. \<not> P x)"
  by (auto simp: find_None_iff)

text \<open>A list put together from segments that are each constant under a key.\<close>

lemma sorted_map_concat:
  assumes "\<And>p x. p \<in> set ps \<Longrightarrow> x \<in> set (g p) \<Longrightarrow> f x = r p" and "sorted (map r ps)"
  shows "sorted (map f (concat (map g ps)))"
  using assms
proof (induction ps)
  case Nil
  then show ?case by simp
next
  case (Cons p ps)
  have const: "map f (g p) = map (\<lambda>_. r p) (g p)" using Cons.prems(1) [of p] by simp
  have "sorted (map f (g p))" unfolding const by (induction "g p") (auto simp: map_replicate_const)
  moreover have "\<forall>x \<in> set (g p). \<forall>y \<in> set (concat (map g ps)). f x \<le> f y"
    using Cons.prems by fastforce
  ultimately show ?case using Cons by (auto simp: sorted_append)
qed

lemma find_rev_filter: "find P (rev (filter Q xs)) = find (\<lambda>x. Q x \<and> P x) (rev xs)"
  by (induction xs rule: rev_induct) auto

lemma bindE_Inr2: "bindE m (\<lambda>(a, b). f a b) = Inr y \<Longrightarrow> \<exists>a b. m = Inr (a, b) \<and> f a b = Inr y"
  by (auto simp: bindE_Inr)

lemma bindE_Inr4:
  "bindE m (\<lambda>(a, b, c, d). f a b c d) = Inr y \<Longrightarrow> \<exists>a b c d. m = Inr (a, b, c, d) \<and> f a b c d = Inr y"
  by (auto simp: bindE_Inr)

lemma length_dict_set: "length (dict_set k x d) = (if dict_get d k = None then Suc (length d) else length d)"
  by (induction d) (auto simp: dict_set_def dict_get_def)

lemma length_dict_del: "length (dict_del k d) \<le> length d"
  by (simp add: dict_del_def length_delete_le)

lemma mapE_ConsI: "f x = Inr y \<Longrightarrow> mapE f xs = Inr ys \<Longrightarrow> mapE f (x # xs) = Inr (y # ys)"
  by simp

lemma mapE_all: "mapE f xs = Inr ys \<Longrightarrow> (\<And>x y. x \<in> set xs \<Longrightarrow> f x = Inr y \<Longrightarrow> P y) \<Longrightarrow> \<forall>y \<in> set ys. P y"
  by (fastforce simp: mapE_Inr_list_all2 list_all2_conv_all_nth in_set_conv_nth)

end
