(* ===== verification/OFMsg.thy ===== *)
theory OFMsg imports Prelude begin

text \<open>
  The OpenFlow messages FAUCET composes and the functions of \<^verbatim>\<open>faucet/valve_of.py\<close> that build and
  classify them.

  The message classes belong to the \<open>c65of\<close> library, which is not part of the repository. The
  model keeps the attributes the repository reads: a message is a constructor of \<open>ofmsg\<close> (its
  Python class) over a record of its fields. The numeric constants of the OpenFlow 1.3 protocol
  also live in that library, so they are the fields of a record \<open>ofp\<close> that every function using
  one takes as its first argument; the protocol's symbolic enumerations (commands, instruction
  and action kinds) are datatypes.

  A match is the list of (field, value) pairs that \<open>OFPMatch.items()\<close> yields; a value is an
  integer, a text (an Ethernet or IP address), or a (value, mask) pair of either.
\<close>

section \<open>Protocol constants\<close>

record ofp =
  OFPTT_ALL :: int
  OFPP_ANY :: int
  OFPP_CONTROLLER :: int
  OFPP_IN_PORT :: int
  OFPP_LOCAL :: int
  OFPG_ANY :: int
  OFPG_ALL :: int
  OFPM_ALL :: int
  OFPVID_NONE :: int
  OFPVID_PRESENT :: int
  OFPFF_SEND_FLOW_REM :: int
  ETH_TYPE_IP :: int
  ETH_TYPE_ARP :: int
  ETH_TYPE_IPV6 :: int
  ETH_TYPE_8021Q :: int
  ETH_TYPE_LLDP :: int
  ETH_TYPE_SLOW :: int
  IPPROTO_ICMP :: int
  IPPROTO_TCP :: int
  IPPROTO_UDP :: int
  IPPROTO_ICMPV6 :: int
  OFPR_ACTION :: int
  OFPR_INVALID_TTL :: int
  ICMPV6_ECHO_REQUEST :: int
  ND_ROUTER_SOLICIT :: int
  ND_NEIGHBOR_SOLICIT :: int
  ND_NEIGHBOR_ADVERT :: int
  OFPPR_ADD :: int
  OFPPR_DELETE :: int
  OFPPR_MODIFY :: int
  OFPPS_LINK_DOWN :: int
  OFPPS_BLOCKED :: int
  OFPPS_LIVE :: int

text \<open>The values OpenFlow 1.3.5 and IEEE 802 publish, for witnesses.\<close>

definition of13 :: ofp where
  "of13 = \<lparr>OFPTT_ALL = 255, OFPP_ANY = 4294967295, OFPP_CONTROLLER = 4294967293,
     OFPP_IN_PORT = 4294967288, OFPP_LOCAL = 4294967294, OFPG_ANY = 4294967295,
     OFPG_ALL = 4294967292, OFPM_ALL = 4294967295, OFPVID_NONE = 0, OFPVID_PRESENT = 4096,
     OFPFF_SEND_FLOW_REM = 1, ETH_TYPE_IP = 2048, ETH_TYPE_ARP = 2054, ETH_TYPE_IPV6 = 34525,
     ETH_TYPE_8021Q = 33024, ETH_TYPE_LLDP = 35020, ETH_TYPE_SLOW = 34825, IPPROTO_ICMP = 1, IPPROTO_TCP = 6,
     IPPROTO_UDP = 17, IPPROTO_ICMPV6 = 58, OFPR_ACTION = 1, OFPR_INVALID_TTL = 2, ICMPV6_ECHO_REQUEST = 128,
     ND_ROUTER_SOLICIT = 133, ND_NEIGHBOR_SOLICIT = 135, ND_NEIGHBOR_ADVERT = 136, OFPPR_ADD = 0, OFPPR_DELETE = 1,
     OFPPR_MODIFY = 2, OFPPS_LINK_DOWN = 1, OFPPS_BLOCKED = 2, OFPPS_LIVE = 4\<rparr>"

lemma of13_sel [simp]:
  "OFPTT_ALL of13 = 255" "OFPP_ANY of13 = 4294967295" "OFPP_CONTROLLER of13 = 4294967293"
  "OFPP_IN_PORT of13 = 4294967288" "OFPP_LOCAL of13 = 4294967294" "OFPG_ANY of13 = 4294967295"
  "OFPG_ALL of13 = 4294967292" "OFPM_ALL of13 = 4294967295" "OFPVID_NONE of13 = 0"
  "OFPVID_PRESENT of13 = 4096" "OFPFF_SEND_FLOW_REM of13 = 1" "ETH_TYPE_IP of13 = 2048"
  "ETH_TYPE_ARP of13 = 2054" "ETH_TYPE_IPV6 of13 = 34525"
  "ETH_TYPE_8021Q of13 = 33024" "ETH_TYPE_LLDP of13 = 35020" "ETH_TYPE_SLOW of13 = 34825" "IPPROTO_ICMP of13 = 1"
  "IPPROTO_TCP of13 = 6" "IPPROTO_UDP of13 = 17" "IPPROTO_ICMPV6 of13 = 58" "OFPR_ACTION of13 = 1"
  "OFPR_INVALID_TTL of13 = 2" "ICMPV6_ECHO_REQUEST of13 = 128" "ND_ROUTER_SOLICIT of13 = 133"
  "ND_NEIGHBOR_SOLICIT of13 = 135" "ND_NEIGHBOR_ADVERT of13 = 136"
  "OFPPR_ADD of13 = 0" "OFPPR_DELETE of13 = 1" "OFPPR_MODIFY of13 = 2" "OFPPS_LINK_DOWN of13 = 1" "OFPPS_BLOCKED of13 = 2"
  "OFPPS_LIVE of13 = 4"
  by (simp_all add: of13_def)

definition MIN_VID :: int where "MIN_VID = 1"
definition MAX_VID :: int where "MAX_VID = 4095"
definition VLAN_GROUP_OFFSET :: int where "VLAN_GROUP_OFFSET = MAX_VID + 1"
definition ROUTE_GROUP_OFFSET :: int where "ROUTE_GROUP_OFFSET = VLAN_GROUP_OFFSET * 2"
definition MAX_PACKET_IN_BYTES :: int where "MAX_PACKET_IN_BYTES = 194"
definition PCP_EXT_PORT_FLAG :: int where "PCP_EXT_PORT_FLAG = 2"
definition PCP_NONEXT_PORT_FLAG :: int where "PCP_NONEXT_PORT_FLAG = 0"
definition EXTERNAL_FORWARDING_FIELD :: string where "EXTERNAL_FORWARDING_FIELD = ''vlan_pcp''"

section \<open>Matches, actions, instructions, messages\<close>

datatype mval = MInt int | MText string | MIntMask int int | MTextMask string string

type_synonym ofmatch = "(string \<times> mval) list"

datatype action =
    AOutput (out_port_num: int) (out_max_len: int)
  | AGroup int
  | ASetField string mval
  | APushVlan int
  | APopVlan
  | ADecNwTtl
  | ACT "(string \<times> mval) list" "action list"
  | ACTClear
  | ANAT "(string \<times> mval) list"

datatype instruction =
    IApplyActions "action list"
  | IGotoTable int
  | IWriteMetadata int int
  | IMeter int

datatype flow_command = OFPFC_ADD | OFPFC_MODIFY | OFPFC_MODIFY_STRICT | OFPFC_DELETE | OFPFC_DELETE_STRICT
datatype group_command = OFPGC_ADD | OFPGC_MODIFY | OFPGC_DELETE
datatype meter_command = OFPMC_ADD | OFPMC_MODIFY | OFPMC_DELETE
datatype group_type = OFPGT_ALL | OFPGT_FF

record flow_mod =
  fm_cookie :: int
  fm_command :: flow_command
  fm_table_id :: int
  fm_priority :: int
  fm_out_port :: int
  fm_out_group :: int
  fm_match :: ofmatch
  fm_instructions :: "instruction list"
  fm_hard_timeout :: int
  fm_idle_timeout :: int
  fm_flags :: int

record bucket =
  b_weight :: int
  b_watch_port :: int
  b_watch_group :: int
  b_actions :: "action list"

record group_mod =
  gm_command :: group_command
  gm_type :: group_type
  gm_group_id :: int
  gm_buckets :: "bucket list"

record meter_mod =
  mm_command :: meter_command
  mm_flags :: int
  mm_meter_id :: int
  mm_rates :: "int list"

text \<open>The body of a table features request, as far as the repository reads it.\<close>

record tfm_body =
  tfm_table_id :: int
  tfm_name :: string
  tfm_max_entries :: int

datatype ofmsg =
    FlowModMsg flow_mod
  | GroupModMsg group_mod
  | MeterModMsg meter_mod
  | PacketOutMsg "action list" "int list"
  | TableFeaturesMsg "tfm_body list"
  | SetConfigMsg
  | SetAsyncMsg bool bool bool
  | DescStatsMsg
  | BarrierMsg
  | OtherMsg int

text \<open>The Python class of a message.\<close>

datatype msg_type = TFlowMod | TGroupMod | TMeterMod | TPacketOut | TTableFeatures | TSetConfig
  | TSetAsync | TDescStats | TBarrier | TOther

fun msg_type_of :: "ofmsg \<Rightarrow> msg_type" where
  "msg_type_of (FlowModMsg _) = TFlowMod"
| "msg_type_of (GroupModMsg _) = TGroupMod"
| "msg_type_of (MeterModMsg _) = TMeterMod"
| "msg_type_of (PacketOutMsg _ _) = TPacketOut"
| "msg_type_of (TableFeaturesMsg _) = TTableFeatures"
| "msg_type_of SetConfigMsg = TSetConfig"
| "msg_type_of (SetAsyncMsg _ _ _) = TSetAsync"
| "msg_type_of DescStatsMsg = TDescStats"
| "msg_type_of BarrierMsg = TBarrier"
| "msg_type_of (OtherMsg _) = TOther"

section \<open>Predicates on messages\<close>

definition ignore_port :: "ofp \<Rightarrow> int \<Rightarrow> bool" where
  "ignore_port K port_num =
     (if port_num = OFPP_LOCAL K \<or> port_num = OFPP_IN_PORT K then False
      else port_num > 0xF0000000)"

fun is_table_features_req :: "ofmsg \<Rightarrow> bool" where
  "is_table_features_req (TableFeaturesMsg _) = True"
| "is_table_features_req _ = False"

fun is_flowmod :: "ofmsg \<Rightarrow> bool" where
  "is_flowmod (FlowModMsg _) = True"
| "is_flowmod _ = False"

fun is_flowaddmod :: "ofmsg \<Rightarrow> bool" where
  "is_flowaddmod (FlowModMsg m) = (fm_command m \<in> {OFPFC_ADD, OFPFC_MODIFY, OFPFC_MODIFY_STRICT})"
| "is_flowaddmod _ = False"

fun is_groupmod :: "ofmsg \<Rightarrow> bool" where
  "is_groupmod (GroupModMsg _) = True"
| "is_groupmod _ = False"

fun is_metermod :: "ofmsg \<Rightarrow> bool" where
  "is_metermod (MeterModMsg _) = True"
| "is_metermod _ = False"

fun is_packetout :: "ofmsg \<Rightarrow> bool" where
  "is_packetout (PacketOutMsg _ _) = True"
| "is_packetout _ = False"

fun is_output :: "action \<Rightarrow> bool" where
  "is_output (AOutput _ _) = True"
| "is_output _ = False"

fun is_flowdel :: "ofmsg \<Rightarrow> bool" where
  "is_flowdel (FlowModMsg m) = (fm_command m \<in> {OFPFC_DELETE, OFPFC_DELETE_STRICT})"
| "is_flowdel _ = False"

fun is_groupdel :: "ofmsg \<Rightarrow> bool" where
  "is_groupdel (GroupModMsg g) = (gm_command g = OFPGC_DELETE)"
| "is_groupdel _ = False"

fun is_meterdel :: "ofmsg \<Rightarrow> bool" where
  "is_meterdel (MeterModMsg g) = (mm_command g = OFPMC_DELETE)"
| "is_meterdel _ = False"

fun is_groupadd :: "ofmsg \<Rightarrow> bool" where
  "is_groupadd (GroupModMsg g) = (gm_command g = OFPGC_ADD)"
| "is_groupadd _ = False"

fun is_meteradd :: "ofmsg \<Rightarrow> bool" where
  "is_meteradd (MeterModMsg g) = (mm_command g = OFPMC_ADD)"
| "is_meteradd _ = False"

fun is_apply_actions :: "instruction \<Rightarrow> bool" where
  "is_apply_actions (IApplyActions _) = True"
| "is_apply_actions _ = False"

fun is_meter :: "instruction \<Rightarrow> bool" where
  "is_meter (IMeter _) = True"
| "is_meter _ = False"

fun is_set_field :: "action \<Rightarrow> bool" where
  "is_set_field (ASetField _ _) = True"
| "is_set_field _ = False"

fun is_ct :: "action \<Rightarrow> bool" where
  "is_ct (ACT _ _) = True"
| "is_ct _ = False"

fun is_global_flowdel :: "ofp \<Rightarrow> ofmsg \<Rightarrow> bool" where
  "is_global_flowdel K (FlowModMsg m) =
     (is_flowdel (FlowModMsg m) \<and> fm_table_id m = OFPTT_ALL K \<and> fm_match m = [])"
| "is_global_flowdel K _ = False"

fun is_global_groupdel :: "ofp \<Rightarrow> ofmsg \<Rightarrow> bool" where
  "is_global_groupdel K (GroupModMsg g) = (is_groupdel (GroupModMsg g) \<and> gm_group_id g = OFPG_ALL K)"
| "is_global_groupdel K _ = False"

fun is_global_meterdel :: "ofp \<Rightarrow> ofmsg \<Rightarrow> bool" where
  "is_global_meterdel K (MeterModMsg g) = (is_meterdel (MeterModMsg g) \<and> mm_meter_id g = OFPM_ALL K)"
| "is_global_meterdel K _ = False"

section \<open>Composing instructions and actions\<close>

definition apply_meter :: "int \<Rightarrow> instruction" where
  "apply_meter meter_id = IMeter meter_id"

definition apply_actions :: "action list \<Rightarrow> instruction" where
  "apply_actions actions = IApplyActions actions"

definition goto_table_id :: "int \<Rightarrow> instruction" where
  "goto_table_id table_id = IGotoTable table_id"

definition metadata_goto_table_id :: "int \<Rightarrow> int \<Rightarrow> int \<Rightarrow> instruction list" where
  "metadata_goto_table_id metadata mmask table_id = [IWriteMetadata metadata mmask, IGotoTable table_id]"

definition set_field :: "string \<Rightarrow> mval \<Rightarrow> action" where
  "set_field field val = ASetField field val"

definition vid_present :: "ofp \<Rightarrow> int \<Rightarrow> int" where
  "vid_present K vid = or vid (OFPVID_PRESENT K)"

definition devid_present :: "ofp \<Rightarrow> int \<Rightarrow> int" where
  "devid_present K vid = xor vid (OFPVID_PRESENT K)"

definition set_vlan_vid :: "ofp \<Rightarrow> int \<Rightarrow> action" where
  "set_vlan_vid K vlan_vid = set_field ''vlan_vid'' (MInt (vid_present K vlan_vid))"

definition push_vlan_act :: "ofp \<Rightarrow> int \<Rightarrow> int \<Rightarrow> action list" where
  "push_vlan_act K vlan_vid eth_type = [APushVlan eth_type, set_vlan_vid K vlan_vid]"

definition dec_ip_ttl :: action where "dec_ip_ttl = ADecNwTtl"
definition pop_vlan :: action where "pop_vlan = APopVlan"
definition ct :: "(string \<times> mval) list \<Rightarrow> action list \<Rightarrow> action" where "ct kwds acts = ACT kwds acts"
definition ct_clear :: action where "ct_clear = ACTClear"
definition ct_nat :: "(string \<times> mval) list \<Rightarrow> action" where "ct_nat kwds = ANAT kwds"

definition output_port_len :: "int \<Rightarrow> int \<Rightarrow> action" where
  "output_port_len port_num max_len = AOutput port_num max_len"

definition output_port :: "int \<Rightarrow> action" where
  "output_port port_num = output_port_len port_num 0"

definition output_in_port :: "ofp \<Rightarrow> action" where
  "output_in_port K = output_port (OFPP_IN_PORT K)"

definition output_controller :: "ofp \<Rightarrow> int \<Rightarrow> action" where
  "output_controller K max_len = output_port_len (OFPP_CONTROLLER K) max_len"

text \<open>
  \<open>act.port\<close> of a list of output actions; the source only passes output actions, for another
  action the attribute does not exist.
\<close>

fun act_port :: "action \<Rightarrow> err + int" where
  "act_port (AOutput p _) = Inr p"
| "act_port _ = Inl AttributeError"

definition ports_from_output_port_acts :: "action list \<Rightarrow> err + int set" where
  "ports_from_output_port_acts acts = bindE (mapE act_port acts) (\<lambda>ps. Inr (set ps))"

definition dedupe_output_port_acts :: "action list \<Rightarrow> err + action list" where
  "dedupe_output_port_acts acts =
     bindE (mapE act_port acts) (\<lambda>ps. Inr (map output_port (sort (remdups ps))))"

text \<open>
  \<open>output_non_output_actions\<close>: the actions without repeats, the ports output to, and the other
  actions but for \<open>pop_vlan\<close>. Non-output actions are compared by their text; \<open>str_act\<close> is the
  library's \<open>__str__\<close>.
\<close>

fun output_non_output_loop ::
    "(action \<Rightarrow> 's) \<Rightarrow> action list \<Rightarrow> int set \<Rightarrow> 's set \<Rightarrow> action list \<Rightarrow> action list \<times> int set \<times> 's set" where
  "output_non_output_loop str_act [] ports nonout deduped = (deduped, ports, nonout)"
| "output_non_output_loop str_act (act # acts) ports nonout deduped =
     (case act of
        AOutput p _ \<Rightarrow>
          if p \<in> ports then output_non_output_loop str_act acts ports nonout deduped
          else output_non_output_loop str_act acts (insert p ports) nonout (deduped @ [act])
      | _ \<Rightarrow>
          if str_act act \<in> nonout then output_non_output_loop str_act acts ports nonout deduped
          else output_non_output_loop str_act acts ports (insert (str_act act) nonout) (deduped @ [act]))"

definition output_non_output_actions ::
    "(action \<Rightarrow> 's) \<Rightarrow> action list \<Rightarrow> action list \<times> int set \<times> 's set" where
  "output_non_output_actions str_act flood_acts =
     (case output_non_output_loop str_act flood_acts {} {} [] of
        (deduped, ports, nonout) \<Rightarrow> (deduped, ports, nonout - {str_act pop_vlan}))"

text \<open>\<open>random.shuffle\<close> is the parameter \<open>shuffle\<close>.\<close>

definition packetouts :: "(int list \<Rightarrow> int list) \<Rightarrow> int list \<Rightarrow> int list \<Rightarrow> ofmsg" where
  "packetouts shuffle port_nums data = PacketOutMsg (map output_port (shuffle port_nums)) data"

definition packetout :: "(int list \<Rightarrow> int list) \<Rightarrow> int \<Rightarrow> int list \<Rightarrow> ofmsg" where
  "packetout shuffle port_num data = packetouts shuffle [port_num] data"

definition barrier :: ofmsg where "barrier = BarrierMsg"

definition group_act :: "int \<Rightarrow> action" where "group_act group_id = AGroup group_id"

definition mk_bucket :: "ofp \<Rightarrow> action list \<Rightarrow> bucket" where
  "mk_bucket K actions = \<lparr>b_weight = 0, b_watch_port = OFPP_ANY K, b_watch_group = OFPG_ANY K, b_actions = actions\<rparr>"

fun group_flood_buckets_loop :: "ofp \<Rightarrow> action list \<Rightarrow> action list \<Rightarrow> bucket list" where
  "group_flood_buckets_loop K [] non_outputs = []"
| "group_flood_buckets_loop K (act # acts) non_outputs =
     (if is_output act then mk_bucket K (non_outputs @ [act]) # group_flood_buckets_loop K acts non_outputs
      else group_flood_buckets_loop K acts (non_outputs @ [act]))"

definition build_group_flood_buckets :: "ofp \<Rightarrow> action list \<Rightarrow> bucket list" where
  "build_group_flood_buckets K vlan_flood_acts = group_flood_buckets_loop K vlan_flood_acts []"

definition groupdel :: "int \<Rightarrow> ofmsg" where
  "groupdel group_id =
     GroupModMsg \<lparr>gm_command = OFPGC_DELETE, gm_type = OFPGT_ALL, gm_group_id = group_id, gm_buckets = []\<rparr>"

definition groupadd_type :: "group_type \<Rightarrow> int \<Rightarrow> bucket list \<Rightarrow> ofmsg list" where
  "groupadd_type ty group_id buckets =
     [groupdel group_id,
      GroupModMsg \<lparr>gm_command = OFPGC_ADD, gm_type = ty, gm_group_id = group_id, gm_buckets = buckets\<rparr>]"

definition groupadd :: "int \<Rightarrow> bucket list \<Rightarrow> ofmsg list" where
  "groupadd group_id buckets = groupadd_type OFPGT_ALL group_id buckets"

definition groupadd_ff :: "int \<Rightarrow> bucket list \<Rightarrow> ofmsg list" where
  "groupadd_ff group_id buckets = groupadd_type OFPGT_FF group_id buckets"

section \<open>Match dictionaries\<close>

text \<open>
  \<open>build_match_dict\<close>. The keyword arguments are a record with \<open>None\<close> for an absent one. A VLAN
  argument is a VID or an object with one; only the VID is read. An IP argument is an interface or
  network: its address and mask as text, and for an interface the address alone (\<open>nw_dst.ip\<close>, which
  a network does not have).
\<close>

datatype ipmatch =
    IPNetworkM string string
  | IPInterfaceM string string

fun match_ip_masked :: "ipmatch \<Rightarrow> string \<times> string" where
  "match_ip_masked (IPNetworkM addr netmask) = (addr, netmask)"
| "match_ip_masked (IPInterfaceM ip netmask) = (ip, netmask)"

fun ip_attr :: "ipmatch \<Rightarrow> err + string" where
  "ip_attr (IPInterfaceM ip netmask) = Inr ip"
| "ip_attr (IPNetworkM addr netmask) = Inl AttributeError"

record match_args =
  ma_in_port :: "int option"
  ma_vlan :: "int option"
  ma_eth_type :: "int option"
  ma_eth_src :: "string option"
  ma_eth_dst :: "string option"
  ma_eth_dst_mask :: "string option"
  ma_icmpv6_type :: "int option"
  ma_nw_proto :: "int option"
  ma_nw_dst :: "ipmatch option"
  ma_metadata :: "int option"
  ma_metadata_mask :: "int option"
  ma_vlan_pcp :: "int option"
  ma_udp_src :: "int option"
  ma_udp_dst :: "int option"

definition no_match_args :: match_args where
  "no_match_args = \<lparr>ma_in_port = None, ma_vlan = None, ma_eth_type = None, ma_eth_src = None,
     ma_eth_dst = None, ma_eth_dst_mask = None, ma_icmpv6_type = None, ma_nw_proto = None,
     ma_nw_dst = None, ma_metadata = None, ma_metadata_mask = None, ma_vlan_pcp = None,
     ma_udp_src = None, ma_udp_dst = None\<rparr>"

text \<open>One assignment \<open>if arg is not None: match_dict[key] = arg\<close>.\<close>

definition set_if :: "string \<Rightarrow> ('a \<Rightarrow> mval) \<Rightarrow> 'a option \<Rightarrow> (string, mval) dict \<Rightarrow> (string, mval) dict" where
  "set_if key enc arg d = (case arg of None \<Rightarrow> d | Some x \<Rightarrow> dict_set key (enc x) d)"

definition match_vlan_value :: "ofp \<Rightarrow> int \<Rightarrow> mval" where
  "match_vlan_value K vid =
     (if vid = OFPVID_NONE K then MInt (OFPVID_NONE K)
      else if vid = OFPVID_PRESENT K then MIntMask (OFPVID_PRESENT K) (OFPVID_PRESENT K)
      else MInt (vid_present K vid))"

definition match_eth_dst_value :: "string option \<Rightarrow> string \<Rightarrow> mval" where
  "match_eth_dst_value dmask dst = (case dmask of Some m \<Rightarrow> MTextMask dst m | None \<Rightarrow> MText dst)"

definition match_metadata_value :: "int option \<Rightarrow> int \<Rightarrow> mval" where
  "match_metadata_value mmask md = (case mmask of Some m \<Rightarrow> MIntMask md m | None \<Rightarrow> MInt md)"

definition set_nw_dst :: "ofp \<Rightarrow> int option \<Rightarrow> ipmatch option \<Rightarrow> (string, mval) dict \<Rightarrow> err + (string, mval) dict" where
  "set_nw_dst K eth_type nw_dst d =
     (case nw_dst of
        None \<Rightarrow> Inr d
      | Some nw \<Rightarrow>
          if eth_type = Some (ETH_TYPE_ARP K)
          then bindE (ip_attr nw) (\<lambda>ip. Inr (dict_set ''arp_tpa'' (MText ip) d))
          else if eth_type = Some (ETH_TYPE_IP K)
          then Inr (dict_set ''ipv4_dst'' (case match_ip_masked nw of (a, m) \<Rightarrow> MTextMask a m) d)
          else Inr (dict_set ''ipv6_dst'' (case match_ip_masked nw of (a, m) \<Rightarrow> MTextMask a m) d))"

definition build_match_dict :: "ofp \<Rightarrow> match_args \<Rightarrow> err + (string, mval) dict" where
  "build_match_dict K a =
     (let d = [];
          d = set_if ''in_port'' MInt (ma_in_port a) d;
          d = set_if ''vlan_vid'' (match_vlan_value K) (ma_vlan a) d;
          d = set_if ''eth_src'' MText (ma_eth_src a) d;
          d = set_if ''eth_dst'' (match_eth_dst_value (ma_eth_dst_mask a)) (ma_eth_dst a) d;
          d = set_if ''ip_proto'' MInt (ma_nw_proto a) d;
          d = set_if ''udp_dst'' MInt (ma_udp_dst a) d;
          d = set_if ''udp_src'' MInt (ma_udp_src a) d;
          d = set_if ''icmpv6_type'' MInt (ma_icmpv6_type a) d
      in bindE (set_nw_dst K (ma_eth_type a) (ma_nw_dst a) d) (\<lambda>d.
           let d = set_if ''eth_type'' MInt (ma_eth_type a) d;
               d = set_if ''metadata'' (match_metadata_value (ma_metadata_mask a)) (ma_metadata a) d;
               d = set_if ''vlan_pcp'' MInt (ma_vlan_pcp a) d
           in Inr d))"

text \<open>
  \<open>match_from_dict\<close> turns a configured match (ACL rules, set fields) into an OpenFlow match: old
  field names are renamed, an unknown field is a configuration error, and each value goes through
  the field's converter. The converters belong to the library (\<open>conv\<close>); a \<open>TypeError\<close> of one is
  reported as a configuration error, any other exception passes through.
\<close>

definition OLD_MATCH_FIELDS :: "(string, string) dict" where
  "OLD_MATCH_FIELDS =
     [(''dl_dst'', ''eth_dst''), (''dl_src'', ''eth_src''), (''dl_type'', ''eth_type''),
      (''dl_vlan'', ''vlan_vid''), (''nw_proto'', ''ip_proto''), (''nw_src'', ''ipv4_src''),
      (''nw_dst'', ''ipv4_dst'')]"

definition MATCH_FIELDS :: "string list" where
  "MATCH_FIELDS =
     [''in_port'', ''in_phy_port'', ''metadata'', ''eth_dst'', ''eth_src'', ''eth_type'',
      ''vlan_vid'', ''vlan_pcp'', ''ip_dscp'', ''ip_ecn'', ''ip_proto'', ''ipv4_src'',
      ''ipv4_dst'', ''tcp_src'', ''tcp_dst'', ''udp_src'', ''udp_dst'', ''sctp_src'',
      ''sctp_dst'', ''icmpv4_type'', ''icmpv4_code'', ''arp_op'', ''arp_spa'', ''arp_tpa'',
      ''arp_sha'', ''arp_tha'', ''ipv6_src'', ''ipv6_dst'', ''ipv6_flabel'', ''icmpv6_type'',
      ''icmpv6_code'', ''ipv6_nd_target'', ''ipv6_nd_sll'', ''ipv6_nd_tll'', ''mpls_label'',
      ''mpls_tc'', ''mpls_bos'', ''pbb_isid'', ''tunnel_id'', ''ipv6_exthdr'', ''eth_type_nxm'',
      ''ip_proto_nxm'', ''nw_ttl'', ''ct_state'', ''ct_zone'', ''ct_mark'', ''ct_label'']"

definition new_match_field :: "string \<Rightarrow> string" where
  "new_match_field of_match = (case dict_get OLD_MATCH_FIELDS of_match of None \<Rightarrow> of_match | Some f \<Rightarrow> f)"

definition match_from_dict ::
    "(string \<Rightarrow> 'v \<Rightarrow> err + mval) \<Rightarrow> ((string, mval) dict \<Rightarrow> ofmatch) \<Rightarrow> (string, 'v) dict \<Rightarrow> err + ofmatch" where
  "match_from_dict conv ofpmatch match_dict =
     bindE (foldE (\<lambda>(of_match, field) kwargs.
         let of_match = new_match_field of_match
         in bindE (test_config_condition (of_match \<notin> set MATCH_FIELDS)) (\<lambda>_.
              case conv of_match field of
                Inl TypeError \<Rightarrow> Inl InvalidConfigError
              | Inl e \<Rightarrow> Inl e
              | Inr encoded_field \<Rightarrow> Inr (dict_set of_match encoded_field kwargs)))
       match_dict [])
     (\<lambda>kwargs. Inr (ofpmatch kwargs))"

definition flowmod :: "int \<Rightarrow> flow_command \<Rightarrow> int \<Rightarrow> int \<Rightarrow> int \<Rightarrow> int \<Rightarrow> ofmatch \<Rightarrow> instruction list \<Rightarrow>
    int \<Rightarrow> int \<Rightarrow> int \<Rightarrow> flow_mod" where
  "flowmod cookie command table_id priority out_port out_group match_fields inst hard_timeout idle_timeout flags =
     \<lparr>fm_cookie = cookie, fm_command = command, fm_table_id = table_id, fm_priority = priority,
      fm_out_port = out_port, fm_out_group = out_group, fm_match = match_fields,
      fm_instructions = inst, fm_hard_timeout = hard_timeout, fm_idle_timeout = idle_timeout,
      fm_flags = flags\<rparr>"

section \<open>The libraries\<close>

text \<open>
  What the components take from the libraries: the protocol constants, the field converters, the
  test for a recirculating action, the text of an action and of a MAC address, and the shuffle of
  \<^verbatim>\<open>random\<close> and the number of a MAC address (\<open>EUI\<close>).
\<close>

record lib =
  lib_ofp :: ofp
  lib_conv :: "string \<Rightarrow> mval \<Rightarrow> err + mval"
  lib_recirc :: "action \<Rightarrow> bool"
  lib_str_act :: "action \<Rightarrow> string"
  lib_mac_text :: "int \<Rightarrow> string"
  lib_shuffle :: "int list \<Rightarrow> int list"
  lib_eui :: "string \<Rightarrow> int"

end
