(* ===== verification/FlowReorder.thy ===== *)
theory FlowReorder imports OFMsg begin

text \<open>
  Ordering and deduplicating the messages of one update, \<^verbatim>\<open>valve_flowreorder\<close> of
  \<^verbatim>\<open>faucet/valve_of.py\<close> and its helpers.

  The messages are partitioned by kind, each kind is deduplicated by a key (the text of the
  message, or its match, cookie, priority and table for flow additions), deletes made redundant by
  a global delete, by an all-table delete or by an addition of the same flow are dropped, and the
  kinds are emitted in a fixed order with a barrier after some of them. \<open>str_of\<close> is the
  library's \<open>__str__\<close>, \<open>shuffle\<close> is \<open>random.shuffle\<close>.
\<close>

section \<open>The code\<close>

datatype msg_kind = KConfig | KDeleteglobal | KDelete | KTfm | KGroupadd | KMeteradd | KFlowaddmod
  | KOther | KPacketout

fun msg_kind_of :: "ofp \<Rightarrow> ofmsg \<Rightarrow> msg_kind" where
  "msg_kind_of K (PacketOutMsg _ _) = KPacketout"
| "msg_kind_of K (TableFeaturesMsg _) = KTfm"
| "msg_kind_of K SetConfigMsg = KConfig"
| "msg_kind_of K (SetAsyncMsg _ _ _) = KConfig"
| "msg_kind_of K DescStatsMsg = KConfig"
| "msg_kind_of K (FlowModMsg m) =
     (if is_global_flowdel K (FlowModMsg m) then KDeleteglobal
      else if is_flowdel (FlowModMsg m) then KDelete
      else if is_flowaddmod (FlowModMsg m) then KFlowaddmod
      else KOther)"
| "msg_kind_of K (GroupModMsg g) =
     (if is_global_groupdel K (GroupModMsg g) then KDeleteglobal
      else if is_groupdel (GroupModMsg g) then KDelete
      else if is_groupadd (GroupModMsg g) then KGroupadd
      else KOther)"
| "msg_kind_of K (MeterModMsg g) =
     (if is_global_meterdel K (MeterModMsg g) then KDeleteglobal
      else if is_meterdel (MeterModMsg g) then KDelete
      else if is_meteradd (MeterModMsg g) then KMeteradd
      else KOther)"
| "msg_kind_of K BarrierMsg = KOther"
| "msg_kind_of K (OtherMsg _) = KOther"

definition partition_ofmsgs :: "ofp \<Rightarrow> ofmsg list \<Rightarrow> (msg_kind, ofmsg list) dict" where
  "partition_ofmsgs K input_ofmsgs =
     foldl (\<lambda>by_kind ofmsg. dict_append (msg_kind_of K ofmsg) ofmsg by_kind) [] input_ofmsgs"

type_synonym flowkey = "ofmatch \<times> int \<times> int \<times> int"

definition flowmodkey :: "flow_mod \<Rightarrow> flowkey" where
  "flowmodkey m = (fm_match m, fm_cookie m, fm_priority m, fm_table_id m)"

fun none_flowmodkey :: "ofmsg \<Rightarrow> flowkey option" where
  "none_flowmodkey (FlowModMsg m) = Some (flowmodkey m)"
| "none_flowmodkey _ = None"

text \<open>\<open>getattr(ofmsg, "table_id", default)\<close>: only flow messages have a table and a priority.\<close>

fun msg_table_id :: "ofmsg \<Rightarrow> int option" where
  "msg_table_id (FlowModMsg m) = Some (fm_table_id m)"
| "msg_table_id _ = None"

fun msg_priority :: "ofmsg \<Rightarrow> int option" where
  "msg_priority (FlowModMsg m) = Some (fm_priority m)"
| "msg_priority _ = None"

definition flow_sort_key :: "ofp \<Rightarrow> ofmsg \<Rightarrow> int \<times> int" where
  "flow_sort_key K ofmsg =
     ((case msg_table_id ofmsg of Some t \<Rightarrow> t | None \<Rightarrow> OFPTT_ALL K),
      (case msg_priority ofmsg of Some p \<Rightarrow> p | None \<Rightarrow> 2 ^ 16 + 1))"

text \<open>
  Python's sort is stable and keeps the order of equal elements with \<open>reverse=True\<close> too, so a
  descending sort is the stable ascending sort by the negated key.
\<close>

definition sort_flows :: "ofp \<Rightarrow> ofmsg list \<Rightarrow> ofmsg list" where
  "sort_flows K input_ofmsgs =
     sort_key (\<lambda>m. (- fst (flow_sort_key K m), - snd (flow_sort_key K m))) input_ofmsgs"

datatype 's okey = StrKey 's | FlowKey "flowkey option"
datatype flowkey_fn = ByStr | ByFlowmodkey

fun flowkey_of :: "(ofmsg \<Rightarrow> 's) \<Rightarrow> flowkey_fn \<Rightarrow> ofmsg \<Rightarrow> 's okey" where
  "flowkey_of str_of ByStr m = StrKey (str_of m)"
| "flowkey_of str_of ByFlowmodkey m = FlowKey (none_flowmodkey m)"

definition dedupe_ofmsgs ::
    "ofp \<Rightarrow> (ofmsg list \<Rightarrow> ofmsg list) \<Rightarrow> ofmsg list \<Rightarrow> bool \<Rightarrow> (ofmsg \<Rightarrow> 'k) \<Rightarrow> ofmsg list" where
  "dedupe_ofmsgs K shuffle input_ofmsgs random_order flowkey =
     (let deduped = dict_values (foldl (\<lambda>d m. dict_set (flowkey m) m d) [] input_ofmsgs)
      in if random_order then shuffle deduped else sort_flows K deduped)"

text \<open>
  \<open>sorted(d.items(), reverse=True)\<close> over distinct keys that are table ids or \<open>None\<close>: comparing
  \<open>None\<close> with an integer raises \<open>TypeError\<close>.
\<close>

definition sorted_tables_desc :: "(int option, 'v) dict \<Rightarrow> err + (int option \<times> 'v) list" where
  "sorted_tables_desc d =
     (if length d > 1 \<and> None \<in> set (dict_keys d) then Inl TypeError
      else Inr (sort_key (\<lambda>(k, _). case k of Some t \<Rightarrow> - t | None \<Rightarrow> 0) d))"

fun msg_match :: "ofmsg \<Rightarrow> ofmatch" where
  "msg_match (FlowModMsg m) = fm_match m"
| "msg_match _ = []"

text \<open>The priority-less messages to all tables, by their matches.\<close>

definition overlap_matches :: "ofmsg list \<Rightarrow> ofmatch list" where
  "overlap_matches ofmsgs = map msg_match (filter (\<lambda>m. msg_priority m = Some 0) ofmsgs)"

definition drop_overlapped :: "ofmatch list \<Rightarrow> ofmsg list \<Rightarrow> ofmsg list" where
  "drop_overlapped ms ofmsgs = filter (\<lambda>m. \<not> (\<exists>om \<in> set ms. set om \<subseteq> set (msg_match m))) ofmsgs"

definition group_by_table :: "ofmsg list \<Rightarrow> (int option, ofmsg list) dict" where
  "group_by_table ofmsgs = foldl (\<lambda>d m. dict_append (msg_table_id m) m d) [] ofmsgs"

definition dedupe_overlaps_ofmsgs ::
    "ofp \<Rightarrow> (ofmsg list \<Rightarrow> ofmsg list) \<Rightarrow> ofmsg list \<Rightarrow> bool \<Rightarrow> (ofmsg \<Rightarrow> 'k) \<Rightarrow> err + ofmsg list" where
  "dedupe_overlaps_ofmsgs K shuffle input_ofmsgs random_order flowkey =
     (let deduped = dedupe_ofmsgs K shuffle input_ofmsgs random_order flowkey;
          by_table = group_by_table deduped
      in case dict_get by_table (Some (OFPTT_ALL K)) of
           None \<Rightarrow> Inr deduped
         | Some all_ofmsgs \<Rightarrow>
             let oms = overlap_matches all_ofmsgs
             in if oms \<noteq> [] \<and> (\<exists>t \<in> set (dict_keys by_table). t \<noteq> None \<and> t \<noteq> Some (OFPTT_ALL K))
                then bindE (sorted_tables_desc
                       (map (\<lambda>(t, ms). (t, if t \<noteq> None \<and> t \<noteq> Some (OFPTT_ALL K)
                                           then drop_overlapped oms ms else ms)) by_table))
                     (\<lambda>items. Inr (concat (map snd items)))
                else Inr deduped)"

definition remove_overlap_ofmsgs :: "ofmsg list \<Rightarrow> ofmsg list \<Rightarrow> ofmsg list" where
  "remove_overlap_ofmsgs input_ofmsgs overlap_input_ofmsgs =
     (let overlap_keys = set (map none_flowmodkey overlap_input_ofmsgs) - {None}
      in filter (\<lambda>m. \<not> (none_flowmodkey m \<noteq> None \<and> none_flowmodkey m \<in> overlap_keys)) input_ofmsgs)"

datatype dedupe_fn = DedupePlain | DedupeOverlaps

record ofmsg_phase =
  ph_kind :: msg_kind
  ph_random_order :: bool
  ph_suggest_barrier :: bool
  ph_flowkey :: flowkey_fn
  ph_dedupe :: dedupe_fn

definition phase :: "msg_kind \<Rightarrow> bool \<Rightarrow> bool \<Rightarrow> flowkey_fn \<Rightarrow> dedupe_fn \<Rightarrow> ofmsg_phase" where
  "phase k r b f d = \<lparr>ph_kind = k, ph_random_order = r, ph_suggest_barrier = b, ph_flowkey = f, ph_dedupe = d\<rparr>"

definition OFMSG_ORDER :: "ofmsg_phase list" where
  "OFMSG_ORDER =
     [phase KConfig False True ByStr DedupePlain,
      phase KDeleteglobal False True ByStr DedupePlain,
      phase KDelete False True ByStr DedupeOverlaps,
      phase KTfm False True ByStr DedupePlain,
      phase KGroupadd False True ByStr DedupePlain,
      phase KMeteradd False True ByStr DedupePlain,
      phase KFlowaddmod False False ByFlowmodkey DedupePlain,
      phase KOther False False ByStr DedupePlain,
      phase KPacketout True False ByStr DedupePlain]"

definition get_kind :: "(msg_kind, ofmsg list) dict \<Rightarrow> msg_kind \<Rightarrow> ofmsg list" where
  "get_kind by_kind k = (case dict_get by_kind k of None \<Rightarrow> [] | Some ms \<Rightarrow> ms)"

definition dedupe_func ::
    "ofp \<Rightarrow> (ofmsg \<Rightarrow> 's) \<Rightarrow> (ofmsg list \<Rightarrow> ofmsg list) \<Rightarrow> ofmsg_phase \<Rightarrow> ofmsg list \<Rightarrow> err + ofmsg list" where
  "dedupe_func K str_of shuffle ph ofmsgs =
     (case ph_dedupe ph of
        DedupePlain \<Rightarrow> Inr (dedupe_ofmsgs K shuffle ofmsgs (ph_random_order ph) (flowkey_of str_of (ph_flowkey ph)))
      | DedupeOverlaps \<Rightarrow>
          dedupe_overlaps_ofmsgs K shuffle ofmsgs (ph_random_order ph) (flowkey_of str_of (ph_flowkey ph)))"

definition suppress_deletes :: "(msg_kind, ofmsg list) dict \<Rightarrow> (msg_kind, ofmsg list) dict" where
  "suppress_deletes by_kind =
     (let delete_global_ofmsgs = get_kind by_kind KDeleteglobal
      in if delete_global_ofmsgs \<noteq> []
         then dict_set KDelete
                (filter (\<lambda>m. msg_type_of m \<notin> set (map msg_type_of delete_global_ofmsgs)) (get_kind by_kind KDelete))
                by_kind
         else by_kind)"

definition dedupe_phase ::
    "ofp \<Rightarrow> (ofmsg \<Rightarrow> 's) \<Rightarrow> (ofmsg list \<Rightarrow> ofmsg list) \<Rightarrow> ofmsg_phase \<Rightarrow>
     (msg_kind, ofmsg list) dict \<Rightarrow> err + (msg_kind, ofmsg list) dict" where
  "dedupe_phase K str_of shuffle ph by_kind =
     bindE (dedupe_func K str_of shuffle ph (get_kind by_kind (ph_kind ph)))
       (\<lambda>ofmsgs. Inr (if ofmsgs \<noteq> [] then dict_set (ph_kind ph) ofmsgs by_kind else by_kind))"

definition remove_overlapped_deletes :: "(msg_kind, ofmsg list) dict \<Rightarrow> (msg_kind, ofmsg list) dict" where
  "remove_overlapped_deletes by_kind =
     (let deletes = get_kind by_kind KDelete; addmod = get_kind by_kind KFlowaddmod
      in if deletes \<noteq> [] \<and> addmod \<noteq> [] then dict_set KDelete (remove_overlap_ofmsgs deletes addmod) by_kind
         else by_kind)"

fun emit_phases :: "bool \<Rightarrow> (msg_kind, ofmsg list) dict \<Rightarrow> ofmsg_phase list \<Rightarrow> ofmsg list" where
  "emit_phases use_barriers by_kind [] = []"
| "emit_phases use_barriers by_kind (ph # phs) =
     (let ofmsgs = get_kind by_kind (ph_kind ph)
      in if ofmsgs \<noteq> []
         then ofmsgs @ (if use_barriers \<and> ph_suggest_barrier ph then [barrier] else [])
                @ emit_phases use_barriers by_kind phs
         else emit_phases use_barriers by_kind phs)"

definition valve_flowreorder ::
    "ofp \<Rightarrow> (ofmsg \<Rightarrow> 's) \<Rightarrow> (ofmsg list \<Rightarrow> ofmsg list) \<Rightarrow> bool \<Rightarrow> ofmsg list \<Rightarrow> err + ofmsg list" where
  "valve_flowreorder K str_of shuffle use_barriers input_ofmsgs =
     bindE (foldE (dedupe_phase K str_of shuffle) OFMSG_ORDER (suppress_deletes (partition_ofmsgs K input_ofmsgs)))
       (\<lambda>by_kind. Inr (emit_phases use_barriers (remove_overlapped_deletes by_kind) OFMSG_ORDER))"

section \<open>Deduplication\<close>

text \<open>
  What a dedupe function promises: its result holds only messages of the input, no two of them with
  one key. The two functions of the source are instances; the ordering of a whole update is
  proved from the contract.
\<close>

locale deduper =
  fixes dedupe :: "ofmsg list \<Rightarrow> err + ofmsg list"
    and key :: "ofmsg \<Rightarrow> 'k"
  assumes subset: "dedupe xs = Inr ys \<Longrightarrow> set ys \<subseteq> set xs"
    and distinct_keys: "dedupe xs = Inr ys \<Longrightarrow> distinct (map key ys)"
begin

lemma distinct_result: "dedupe xs = Inr ys \<Longrightarrow> distinct ys"
  using distinct_keys by (meson distinct_map)

lemma length_le_keys: "dedupe xs = Inr ys \<Longrightarrow> length ys \<le> card (key ` set xs)"
proof -
  assume ys: "dedupe xs = Inr ys"
  have "length ys = card (set (map key ys))"
    using distinct_keys [OF ys] distinct_card by fastforce
  also have "\<dots> \<le> card (key ` set xs)"
    using subset [OF ys] by (intro card_mono) auto
  finally show ?thesis .
qed

lemma result_unique: "dedupe xs = Inr ys \<Longrightarrow> a \<in> set ys \<Longrightarrow> b \<in> set ys \<Longrightarrow> key a = key b \<Longrightarrow> a = b"
  using distinct_keys by (metis distinct_map inj_on_def)

end

text \<open>A deduper that keeps, of every key, the last message that has it.\<close>

locale last_deduper = deduper +
  assumes keeps_last: "dedupe xs = Inr ys \<Longrightarrow> m \<in> set ys \<longleftrightarrow> find (\<lambda>x. key x = key m) (rev xs) = Some m"
begin

lemma every_key: "dedupe xs = Inr ys \<Longrightarrow> key ` set ys = key ` set xs"
proof
  assume ys: "dedupe xs = Inr ys"
  show "key ` set ys \<subseteq> key ` set xs" using subset [OF ys] by blast
  show "key ` set xs \<subseteq> key ` set ys"
  proof
    fix k assume "k \<in> key ` set xs"
    then obtain m where m: "find (\<lambda>x. key x = k) (rev xs) = Some m"
      using find_rev_None [of "\<lambda>x. key x = k" xs] by (cases "find (\<lambda>x. key x = k) (rev xs)") auto
    then have "key m = k" using find_rev_SomeD by fastforce
    with m have "m \<in> set ys" using keeps_last [OF ys, of m] by simp
    with \<open>key m = k\<close> show "k \<in> key ` set ys" by blast
  qed
qed

end

definition shuffles :: "(ofmsg list \<Rightarrow> ofmsg list) \<Rightarrow> bool" where
  "shuffles shuffle = (\<forall>xs. mset (shuffle xs) = mset xs)"

lemma dedupe_dict_get:
  "dict_get (foldl (\<lambda>d m. dict_set (key m) m d) [] xs) k = find (\<lambda>x. key x = k) (rev xs)"
  using py_dict.foldl_put_get [of key "\<lambda>m. m" "[]" xs k] by (simp split: option.splits)

lemma dedupe_dict_ok: "dict_ok (foldl (\<lambda>d m. dict_set (key m) m d) [] xs)"
  using py_dict.foldl_put_ok [of "[]" key "\<lambda>m. m" xs] by simp

lemma dedupe_dict_keyed: "(k, v) \<in> set (foldl (\<lambda>d m. dict_set (key m) m d) [] xs) \<Longrightarrow> key v = k"
  using dedupe_dict_ok [of key xs] dedupe_dict_get [of key xs k] find_rev_SomeD [of "\<lambda>x. key x = k" xs v]
  by (auto simp: dict_ok_in)

lemma mset_dedupe:
  assumes "shuffles shuffle"
  shows "mset (dedupe_ofmsgs K shuffle xs r key) = mset (dict_values (foldl (\<lambda>d m. dict_set (key m) m d) [] xs))"
  using assms by (simp add: dedupe_ofmsgs_def Let_def sort_flows_def shuffles_def)

lemma set_dedupe:
  assumes "shuffles shuffle"
  shows "m \<in> set (dedupe_ofmsgs K shuffle xs r key) \<longleftrightarrow> find (\<lambda>x. key x = key m) (rev xs) = Some m"
proof -
  let ?d = "foldl (\<lambda>d m. dict_set (key m) m d) [] xs"
  have "m \<in> set (dedupe_ofmsgs K shuffle xs r key) \<longleftrightarrow> m \<in> set (dict_values ?d)"
    using mset_dedupe [OF assms, of K xs r key] by (metis set_mset_mset)
  also have "\<dots> \<longleftrightarrow> (\<exists>k. dict_get ?d k = Some m)"
    by (rule dict_values_get [OF dedupe_dict_ok])
  also have "\<dots> \<longleftrightarrow> dict_get ?d (key m) = Some m"
    using dedupe_dict_keyed dict_get_Some_in by fast
  finally show ?thesis by (simp add: dedupe_dict_get)
qed

lemma distinct_keys_dedupe:
  assumes "shuffles shuffle"
  shows "distinct (map key (dedupe_ofmsgs K shuffle xs r key))"
proof -
  let ?d = "foldl (\<lambda>d m. dict_set (key m) m d) [] xs"
  have "map key (dict_values ?d) = map fst ?d"
    using dedupe_dict_keyed [of _ _ key xs] by (auto simp: dict_values_def)
  then have "distinct (map key (dict_values ?d))"
    using dedupe_dict_ok [of key xs] by (simp add: dict_ok_def)
  moreover have "mset (map key (dedupe_ofmsgs K shuffle xs r key)) = mset (map key (dict_values ?d))"
    using mset_dedupe [OF assms, of K xs r key] by simp
  ultimately show ?thesis by (metis mset_eq_imp_distinct_iff)
qed

lemma dedupe_subset: "shuffles shuffle \<Longrightarrow> set (dedupe_ofmsgs K shuffle xs r key) \<subseteq> set xs"
  using find_rev_SomeD by (fastforce simp: set_dedupe)

text \<open>
  The phases whose order is not random (all but the packet-outs) do not look at \<open>shuffle\<close>.
\<close>

lemma dedupe_ordered: "dedupe_ofmsgs K shuffle xs False key = dedupe_ofmsgs K (\<lambda>xs. xs) xs False key"
  by (simp add: dedupe_ofmsgs_def)

lemma shuffles_id [simp]: "shuffles (\<lambda>xs. xs)"
  by (simp add: shuffles_def)

lemma set_dedupe_ordered:
  "m \<in> set (dedupe_ofmsgs K shuffle xs False key) \<longleftrightarrow> find (\<lambda>x. key x = key m) (rev xs) = Some m"
  by (subst dedupe_ordered) (rule set_dedupe [OF shuffles_id])

interpretation plain_dedupe: last_deduper "\<lambda>xs. Inr (dedupe_ofmsgs K shuffle xs False key)" key for K shuffle key
proof
  fix xs ys m
  assume "Inr (dedupe_ofmsgs K shuffle xs False key) = (Inr ys :: err + ofmsg list)"
  then have ys: "ys = dedupe_ofmsgs K (\<lambda>xs. xs) xs False key" using dedupe_ordered by blast
  show "set ys \<subseteq> set xs" unfolding ys by (rule dedupe_subset [OF shuffles_id])
  show "distinct (map key ys)" unfolding ys by (rule distinct_keys_dedupe [OF shuffles_id])
  show "m \<in> set ys \<longleftrightarrow> find (\<lambda>x. key x = key m) (rev xs) = Some m"
    unfolding ys by (rule set_dedupe [OF shuffles_id])
qed

lemma sort_flows_set [simp]: "set (sort_flows K xs) = set xs" and sort_flows_mset [simp]: "mset (sort_flows K xs) = mset xs"
  by (simp_all add: sort_flows_def)

section \<open>Overlapping deletes\<close>

text \<open>A delete that no priority-less delete of all tables makes redundant.\<close>

definition kept_delete :: "ofp \<Rightarrow> ofmsg list \<Rightarrow> ofmsg \<Rightarrow> bool" where
  "kept_delete K D m =
     (msg_table_id m = None \<or> msg_table_id m = Some (OFPTT_ALL K) \<or>
      \<not> (\<exists>om \<in> set D. msg_table_id om = Some (OFPTT_ALL K) \<and> msg_priority om = Some 0 \<and>
           set (msg_match om) \<subseteq> set (msg_match m)))"

lemma group_by_table_get:
  "dict_get (group_by_table D) t =
     (if filter (\<lambda>m. msg_table_id m = t) D = [] then None else Some (filter (\<lambda>m. msg_table_id m = t) D))"
  by (simp add: group_by_table_def group_get)

lemma group_by_table_keys: "t \<in> set (dict_keys (group_by_table D)) \<longleftrightarrow> (\<exists>m \<in> set D. msg_table_id m = t)"
  by (auto simp: dict_keys_get group_by_table_get filter_empty_conv)

lemma group_by_table_mset: "mset (concat (dict_values (group_by_table D))) = mset D"
  unfolding group_by_table_def by (subst group_mset) (simp add: dict_values_def)

lemma drop_overlapped_kept:
  assumes "\<forall>m \<in> set ms. msg_table_id m = t" and "t \<noteq> None" "t \<noteq> Some (OFPTT_ALL K)"
  shows "drop_overlapped (overlap_matches (filter (\<lambda>m. msg_table_id m = Some (OFPTT_ALL K)) D)) ms
     = filter (kept_delete K D) ms"
  using assms by (auto simp: drop_overlapped_def overlap_matches_def kept_delete_def intro!: filter_cong)

lemma kept_same_table:
  "\<forall>m \<in> set ms. msg_table_id m = t \<Longrightarrow> t = None \<or> t = Some (OFPTT_ALL K) \<Longrightarrow> filter (kept_delete K D) ms = ms"
  by (auto simp: kept_delete_def filter_id_conv)

lemma sorted_tables_desc_mset:
  "sorted_tables_desc d = Inr items \<Longrightarrow> mset items = mset d"
  by (auto simp: sorted_tables_desc_def split: if_splits)

lemma mset_concat_map_snd: "mset xs = mset ys \<Longrightarrow> mset (concat (map snd xs)) = mset (concat (map snd ys))"
  by (simp add: mset_concat) (metis mset_map sum_mset_sum_list)

definition all_table_msgs :: "ofp \<Rightarrow> ofmsg list \<Rightarrow> ofmsg list" where
  "all_table_msgs K D = filter (\<lambda>m. msg_table_id m = Some (OFPTT_ALL K)) D"

text \<open>The overlap check runs: a priority-less delete of all tables, and a delete of some table.\<close>

definition overlap_check :: "ofp \<Rightarrow> ofmsg list \<Rightarrow> bool" where
  "overlap_check K D \<longleftrightarrow>
     (\<exists>m \<in> set D. msg_table_id m = Some (OFPTT_ALL K) \<and> msg_priority m = Some 0) \<and>
     (\<exists>m \<in> set D. \<exists>t. msg_table_id m = Some t \<and> t \<noteq> OFPTT_ALL K)"

definition checked_tables :: "ofp \<Rightarrow> ofmsg list \<Rightarrow> (int option, ofmsg list) dict" where
  "checked_tables K D =
     map (\<lambda>(t, ms). (t, if t \<noteq> None \<and> t \<noteq> Some (OFPTT_ALL K)
                        then drop_overlapped (overlap_matches (all_table_msgs K D)) ms else ms)) (group_by_table D)"

lemma overlap_check_alt:
  "overlap_check K D \<longleftrightarrow> all_table_msgs K D \<noteq> [] \<and> overlap_matches (all_table_msgs K D) \<noteq> [] \<and>
     (\<exists>t \<in> set (dict_keys (group_by_table D)). t \<noteq> None \<and> t \<noteq> Some (OFPTT_ALL K))"
proof -
  have "(\<exists>t \<in> set (dict_keys (group_by_table D)). t \<noteq> None \<and> t \<noteq> Some (OFPTT_ALL K)) \<longleftrightarrow>
      (\<exists>m \<in> set D. \<exists>t. msg_table_id m = Some t \<and> t \<noteq> OFPTT_ALL K)"
    unfolding Bex_def group_by_table_keys by fastforce
  then show ?thesis
    by (auto simp: overlap_check_def all_table_msgs_def overlap_matches_def filter_empty_conv)
qed

lemma dedupe_overlaps_eq:
  assumes "D = dedupe_ofmsgs K shuffle xs r key"
  shows "dedupe_overlaps_ofmsgs K shuffle xs r key =
     (if overlap_check K D then bindE (sorted_tables_desc (checked_tables K D)) (\<lambda>items. Inr (concat (map snd items)))
      else Inr D)"
proof (cases "all_table_msgs K D = []")
  case True
  then show ?thesis unfolding overlap_check_alt
    by (simp add: dedupe_overlaps_ofmsgs_def Let_def assms [symmetric] group_by_table_get all_table_msgs_def)
next
  case False
  then have get: "dict_get (group_by_table D) (Some (OFPTT_ALL K)) = Some (all_table_msgs K D)"
    by (simp add: group_by_table_get all_table_msgs_def)
  have nonempty: "(all_table_msgs K D \<noteq> []) = True" using False by simp
  show ?thesis
    unfolding overlap_check_alt dedupe_overlaps_ofmsgs_def Let_def assms [symmetric] get checked_tables_def
      option.case nonempty
    by (simp only: simp_thms)
qed

lemma checked_tables_keys: "dict_keys (checked_tables K D) = dict_keys (group_by_table D)"
  by (auto simp: checked_tables_def dict_keys_def)

lemma checked_tables_values: "dict_values (checked_tables K D) = map (filter (kept_delete K D)) (dict_values (group_by_table D))"
proof -
  have "(if t \<noteq> None \<and> t \<noteq> Some (OFPTT_ALL K) then drop_overlapped (overlap_matches (all_table_msgs K D)) ms else ms)
      = filter (kept_delete K D) ms" if "(t, ms) \<in> set (group_by_table D)" for t ms
  proof -
    have "\<forall>m \<in> set ms. msg_table_id m = t"
      using group_item(1) [of t ms msg_table_id D] that by (auto simp: group_by_table_def)
    then show ?thesis using drop_overlapped_kept [of ms t K D] kept_same_table [of ms t K D]
      by (auto simp: all_table_msgs_def)
  qed
  then show ?thesis by (auto simp: checked_tables_def dict_values_def)
qed

lemma kept_without_check: "\<not> overlap_check K D \<Longrightarrow> filter (kept_delete K D) D = D"
  by (auto simp: overlap_check_def kept_delete_def filter_id_conv)

lemma overlaps_mset:
  assumes "dedupe_overlaps_ofmsgs K shuffle xs r key = Inr ys"
  shows "mset ys = mset (filter (kept_delete K (dedupe_ofmsgs K shuffle xs r key)) (dedupe_ofmsgs K shuffle xs r key))"
proof -
  define D where D: "D = dedupe_ofmsgs K shuffle xs r key"
  show ?thesis
  proof (cases "overlap_check K D")
    case True
    with assms obtain items where items: "sorted_tables_desc (checked_tables K D) = Inr items"
        and ys: "ys = concat (map snd items)"
      by (auto simp: dedupe_overlaps_eq [OF D] bindE_Inr)
    have "mset ys = mset (concat (dict_values (checked_tables K D)))"
      unfolding ys dict_values_def by (rule mset_concat_map_snd [OF sorted_tables_desc_mset [OF items]])
    also have "\<dots> = mset (filter (kept_delete K D) (concat (dict_values (group_by_table D))))"
      by (simp only: checked_tables_values filter_concat)
    finally show ?thesis by (simp add: group_by_table_mset D)
  next
    case False
    with assms have "ys = D" by (simp add: dedupe_overlaps_eq [OF D])
    with False kept_without_check [of K D] show ?thesis by (simp add: D)
  qed
qed

text \<open>The only exception: deletes of groups or meters, which have no table, among the deletes to sort.\<close>

lemma overlaps_error:
  "dedupe_overlaps_ofmsgs K shuffle xs r key = Inl e \<longleftrightarrow>
     e = TypeError \<and> overlap_check K (dedupe_ofmsgs K shuffle xs r key) \<and>
     (\<exists>m \<in> set (dedupe_ofmsgs K shuffle xs r key). msg_table_id m = None)"
proof -
  define D where D: "D = dedupe_ofmsgs K shuffle xs r key"
  have two: "length (checked_tables K D) > 1" if "m \<in> set D" "msg_table_id m = None" and "overlap_check K D" for m
  proof -
    have "None \<in> set (dict_keys (group_by_table D))" using that by (auto simp: group_by_table_keys)
    moreover have "Some (OFPTT_ALL K) \<in> set (dict_keys (group_by_table D))"
      using that by (auto simp: group_by_table_keys overlap_check_def)
    ultimately have "card {None, Some (OFPTT_ALL K)} \<le> card (set (dict_keys (group_by_table D)))"
      by (intro card_mono) auto
    also have "\<dots> \<le> length (dict_keys (group_by_table D))" by (rule card_length)
    finally show ?thesis by (simp add: dict_keys_def checked_tables_def)
  qed
  show ?thesis unfolding D [symmetric] dedupe_overlaps_eq [OF D] sorted_tables_desc_def checked_tables_keys
    using two group_by_table_keys [of None D] by auto
qed

lemma overlaps_subset: "dedupe_overlaps_ofmsgs K shuffle xs False key = Inr ys \<Longrightarrow> set ys \<subseteq> set xs"
  using overlaps_mset [of K shuffle xs False key ys] plain_dedupe.subset [of K shuffle xs key]
  by (metis filter_is_subset mset_eq_setD order_trans)

lemma overlaps_distinct:
  assumes "dedupe_overlaps_ofmsgs K shuffle xs False key = Inr ys"
  shows "distinct (map key ys)"
proof -
  let ?D = "dedupe_ofmsgs K shuffle xs False key"
  have "distinct (map key ?D)" using plain_dedupe.distinct_keys by blast
  then have "distinct (map key (filter (kept_delete K ?D) ?D))" by (rule distinct_map_filter)
  moreover have "mset (map key ys) = mset (map key (filter (kept_delete K ?D) ?D))"
    using overlaps_mset [OF assms] by simp
  ultimately show ?thesis by (metis mset_eq_imp_distinct_iff)
qed

interpretation overlap_dedupe: deduper "\<lambda>xs. dedupe_overlaps_ofmsgs K shuffle xs False key" key for K shuffle key
  by unfold_locales (fact overlaps_subset, fact overlaps_distinct)

section \<open>The whole update\<close>

definition phase_msgs :: "bool \<Rightarrow> (msg_kind \<Rightarrow> ofmsg list) \<Rightarrow> ofmsg_phase \<Rightarrow> ofmsg list" where
  "phase_msgs use_barriers F ph =
     (if F (ph_kind ph) = [] then []
      else F (ph_kind ph) @ (if use_barriers \<and> ph_suggest_barrier ph then [barrier] else []))"

lemma emit_phases_concat:
  "emit_phases use_barriers d phs = concat (map (phase_msgs use_barriers (get_kind d)) phs)"
  by (induction phs) (auto simp: phase_msgs_def Let_def)

lemma get_kind_partition: "get_kind (partition_ofmsgs K xs) k = filter (\<lambda>m. msg_kind_of K m = k) xs"
  by (simp add: get_kind_def partition_ofmsgs_def group_get)

lemma get_kind_set [simp]: "get_kind (dict_set k ms d) k' = (if k' = k then ms else get_kind d k')"
  by (simp add: get_kind_def)

text \<open>A delete that no global delete of its class makes redundant.\<close>

definition not_suppressed :: "ofp \<Rightarrow> ofmsg list \<Rightarrow> ofmsg \<Rightarrow> bool" where
  "not_suppressed K xs m \<longleftrightarrow> \<not> (\<exists>g \<in> set xs. msg_kind_of K g = KDeleteglobal \<and> msg_type_of g = msg_type_of m)"

lemma get_kind_suppress:
  "get_kind (suppress_deletes (partition_ofmsgs K xs)) k =
     (if k = KDelete then filter (\<lambda>m. msg_kind_of K m = KDelete \<and> not_suppressed K xs m) xs
      else filter (\<lambda>m. msg_kind_of K m = k) xs)"
proof -
  have "not_suppressed K xs m \<longleftrightarrow> msg_type_of m \<notin> set (map msg_type_of (filter (\<lambda>m. msg_kind_of K m = KDeleteglobal) xs))" for m
    unfolding not_suppressed_def by (auto simp: image_iff)
  then show ?thesis
    by (auto simp: suppress_deletes_def Let_def get_kind_partition filter_empty_conv conj_commute intro!: filter_cong)
qed

lemma dedupe_ofmsgs_Nil:
  assumes "shuffles shuffle" shows "dedupe_ofmsgs K shuffle xs r key = [] \<longleftrightarrow> xs = []"
proof
  assume nil: "dedupe_ofmsgs K shuffle xs r key = []"
  show "xs = []"
  proof (cases xs)
    case (Cons m ms)
    then obtain m' where m': "find (\<lambda>x. key x = key m) (rev xs) = Some m'"
      using find_rev_None [of "\<lambda>x. key x = key m" xs] by (cases "find (\<lambda>x. key x = key m) (rev xs)") auto
    then have "key m' = key m" using find_rev_SomeD by fastforce
    with m' have "m' \<in> set (dedupe_ofmsgs K shuffle xs r key)" by (simp add: set_dedupe [OF assms])
    with nil show ?thesis by simp
  qed simp
next
  assume "xs = []"
  then show "dedupe_ofmsgs K shuffle xs r key = []"
    using dedupe_subset [OF assms, of K xs r key] by simp
qed

lemma overlaps_Nil:
  assumes "shuffles shuffle" and "dedupe_overlaps_ofmsgs K shuffle xs r key = Inr []"
  shows "xs = []"
proof (rule ccontr)
  let ?D = "dedupe_ofmsgs K shuffle xs r key"
  assume "xs \<noteq> []"
  then obtain m where m: "m \<in> set ?D" using dedupe_ofmsgs_Nil [OF assms(1)] by (metis list.set_sel(1))
  have none: "\<forall>m \<in> set ?D. \<not> kept_delete K ?D m"
    using overlaps_mset [OF assms(2)] by (simp add: filter_mset_eq_conv)
  with m obtain om where "om \<in> set ?D" "msg_table_id om = Some (OFPTT_ALL K)"
    unfolding kept_delete_def by blast
  with none show False unfolding kept_delete_def by blast
qed

lemma dedupe_func_Nil:
  "shuffles shuffle \<Longrightarrow> dedupe_func K str_of shuffle ph xs = Inr [] \<Longrightarrow> xs = []"
  by (auto simp: dedupe_func_def dedupe_ofmsgs_Nil split: dedupe_fn.splits dest: overlaps_Nil)

lemma dedupe_phases:
  assumes "shuffles shuffle" and "foldE (dedupe_phase K str_of shuffle) phs d = Inr d'" and "distinct (map ph_kind phs)"
  shows "(\<forall>ph \<in> set phs. dedupe_func K str_of shuffle ph (get_kind d (ph_kind ph)) = Inr (get_kind d' (ph_kind ph))) \<and>
    (\<forall>k. k \<notin> ph_kind ` set phs \<longrightarrow> get_kind d' k = get_kind d k)"
  using assms(2,3)
proof (induction phs arbitrary: d)
  case Nil
  then show ?case by simp
next
  case (Cons ph phs)
  from Cons.prems(1) obtain ms where ms: "dedupe_func K str_of shuffle ph (get_kind d (ph_kind ph)) = Inr ms"
    and rest: "foldE (dedupe_phase K str_of shuffle) phs (if ms \<noteq> [] then dict_set (ph_kind ph) ms d else d) = Inr d'"
    by (auto simp: bindE_Inr dedupe_phase_def [of K str_of shuffle ph d])
  let ?d1 = "if ms \<noteq> [] then dict_set (ph_kind ph) ms d else d"
  have d1: "get_kind ?d1 k = (if k = ph_kind ph then ms else get_kind d k)" for k
    using dedupe_func_Nil [OF assms(1), of K str_of ph] ms by auto
  from Cons.IH [OF rest] Cons.prems(2)
  have IH: "\<forall>ph \<in> set phs. dedupe_func K str_of shuffle ph (get_kind ?d1 (ph_kind ph)) = Inr (get_kind d' (ph_kind ph))"
      "\<forall>k. k \<notin> ph_kind ` set phs \<longrightarrow> get_kind d' k = get_kind ?d1 k" by simp_all
  from Cons.prems(2) have notin: "ph_kind ph \<notin> ph_kind ` set phs" by simp
  with IH(2) d1 have "get_kind d' (ph_kind ph) = ms" by simp
  moreover have "\<forall>p \<in> set phs. dedupe_func K str_of shuffle p (get_kind d (ph_kind p)) = Inr (get_kind d' (ph_kind p))"
  proof
    fix p assume p: "p \<in> set phs"
    then have "ph_kind p \<noteq> ph_kind ph" using notin by (metis imageI)
    then have "get_kind ?d1 (ph_kind p) = get_kind d (ph_kind p)" by (simp only: d1 if_False)
    with IH(1) p show "dedupe_func K str_of shuffle p (get_kind d (ph_kind p)) = Inr (get_kind d' (ph_kind p))"
      by metis
  qed
  moreover have "get_kind d' k = get_kind d k" if "k \<notin> ph_kind ` set (ph # phs)" for k
  proof -
    from that have "k \<notin> ph_kind ` set phs" "k \<noteq> ph_kind ph" by auto
    then show ?thesis using IH(2) d1 [of k] by metis
  qed
  ultimately show ?case using ms by simp
qed

text \<open>The messages each kind contributes to the result.\<close>

definition final_msgs ::
    "ofp \<Rightarrow> (ofmsg \<Rightarrow> 's) \<Rightarrow> (ofmsg list \<Rightarrow> ofmsg list) \<Rightarrow> ofmsg list \<Rightarrow> ofmsg list \<Rightarrow> msg_kind \<Rightarrow> ofmsg list" where
  "final_msgs K str_of shuffle xs deletes k =
     (if k = KDelete
      then remove_overlap_ofmsgs deletes
             (dedupe_ofmsgs K shuffle (filter (\<lambda>m. msg_kind_of K m = KFlowaddmod) xs) False (flowkey_of str_of ByFlowmodkey))
      else dedupe_ofmsgs K shuffle (filter (\<lambda>m. msg_kind_of K m = k) xs) (k = KPacketout)
             (flowkey_of str_of (if k = KFlowaddmod then ByFlowmodkey else ByStr)))"

abbreviation update_deletes :: "ofp \<Rightarrow> (ofmsg \<Rightarrow> 's) \<Rightarrow> (ofmsg list \<Rightarrow> ofmsg list) \<Rightarrow> ofmsg list \<Rightarrow> err + ofmsg list" where
  "update_deletes K str_of shuffle xs \<equiv>
     dedupe_overlaps_ofmsgs K shuffle (filter (\<lambda>m. msg_kind_of K m = KDelete \<and> not_suppressed K xs m) xs) False
       (flowkey_of str_of ByStr)"

lemma OFMSG_ORDER_kinds: "distinct (map ph_kind OFMSG_ORDER)" "set (map ph_kind OFMSG_ORDER) = UNIV"
proof -
  show "distinct (map ph_kind OFMSG_ORDER)" by (simp add: OFMSG_ORDER_def phase_def)
  show "set (map ph_kind OFMSG_ORDER) = UNIV"
  proof (rule UNIV_eq_I [symmetric])
    fix k show "k \<in> set (map ph_kind OFMSG_ORDER)" by (cases k) (simp_all add: OFMSG_ORDER_def phase_def)
  qed
qed

lemma remove_overlap_Nil [simp]: "remove_overlap_ofmsgs xs [] = xs"
  by (simp add: remove_overlap_ofmsgs_def)

lemma reorder_Inr:
  assumes sh: "shuffles shuffle" and out: "valve_flowreorder K str_of shuffle ub xs = Inr out"
  obtains deletes where "update_deletes K str_of shuffle xs = Inr deletes"
    and "out = concat (map (phase_msgs ub (final_msgs K str_of shuffle xs deletes)) OFMSG_ORDER)"
proof -
  let ?d = "suppress_deletes (partition_ofmsgs K xs)"
  from out obtain d' where d': "foldE (dedupe_phase K str_of shuffle) OFMSG_ORDER ?d = Inr d'"
      and outd: "out = emit_phases ub (remove_overlapped_deletes d') OFMSG_ORDER"
    by (auto simp: valve_flowreorder_def bindE_Inr)
  have ph: "dedupe_func K str_of shuffle p (get_kind ?d (ph_kind p)) = Inr (get_kind d' (ph_kind p))"
    if "p \<in> set OFMSG_ORDER" for p
    using dedupe_phases [OF sh d' OFMSG_ORDER_kinds(1)] that by blast
  have del: "update_deletes K str_of shuffle xs = Inr (get_kind d' KDelete)"
    using ph [of "phase KDelete False True ByStr DedupeOverlaps"]
    by (simp add: OFMSG_ORDER_def phase_def dedupe_func_def get_kind_suppress)
  have other: "get_kind d' k = final_msgs K str_of shuffle xs (get_kind d' KDelete) k" if "k \<noteq> KDelete" for k
    using ph [of "phase KConfig False True ByStr DedupePlain"]
      ph [of "phase KDeleteglobal False True ByStr DedupePlain"]
      ph [of "phase KTfm False True ByStr DedupePlain"]
      ph [of "phase KGroupadd False True ByStr DedupePlain"]
      ph [of "phase KMeteradd False True ByStr DedupePlain"]
      ph [of "phase KFlowaddmod False False ByFlowmodkey DedupePlain"]
      ph [of "phase KOther False False ByStr DedupePlain"]
      ph [of "phase KPacketout True False ByStr DedupePlain"] that
    by (cases k) (simp_all add: OFMSG_ORDER_def phase_def dedupe_func_def get_kind_suppress final_msgs_def)
  have addmod: "get_kind d' KFlowaddmod =
      dedupe_ofmsgs K shuffle (filter (\<lambda>m. msg_kind_of K m = KFlowaddmod) xs) False (flowkey_of str_of ByFlowmodkey)"
    by (simp add: other final_msgs_def)
  have "get_kind (remove_overlapped_deletes d') k = final_msgs K str_of shuffle xs (get_kind d' KDelete) k" for k
  proof (cases "k = KDelete")
    case True
    then show ?thesis
      by (simp add: remove_overlapped_deletes_def Let_def final_msgs_def addmod [symmetric])
        (auto simp: remove_overlap_ofmsgs_def)
  next
    case False
    then show ?thesis by (simp add: remove_overlapped_deletes_def Let_def other)
  qed
  then have "get_kind (remove_overlapped_deletes d') = final_msgs K str_of shuffle xs (get_kind d' KDelete)"
    by (rule ext)
  with outd have "out = concat (map (phase_msgs ub (final_msgs K str_of shuffle xs (get_kind d' KDelete))) OFMSG_ORDER)"
    by (simp add: emit_phases_concat)
  with del show thesis by (rule that)
qed

section \<open>What an update keeps, and in which order\<close>

text \<open>The position of a kind in the order messages are sent.\<close>

fun kind_rank :: "msg_kind \<Rightarrow> nat" where
  "kind_rank KConfig = 0"
| "kind_rank KDeleteglobal = 1"
| "kind_rank KDelete = 2"
| "kind_rank KTfm = 3"
| "kind_rank KGroupadd = 4"
| "kind_rank KMeteradd = 5"
| "kind_rank KFlowaddmod = 6"
| "kind_rank KOther = 7"
| "kind_rank KPacketout = 8"

lemma update_deletes_subset:
  "update_deletes K str_of shuffle xs = Inr deletes \<Longrightarrow>
   m \<in> set deletes \<Longrightarrow> m \<in> set xs \<and> msg_kind_of K m = KDelete \<and> not_suppressed K xs m"
  using overlap_dedupe.subset [of K shuffle _ "flowkey_of str_of ByStr" deletes] by fastforce

lemma final_msgs_subset:
  assumes "shuffles shuffle" and "update_deletes K str_of shuffle xs = Inr deletes"
    and "m \<in> set (final_msgs K str_of shuffle xs deletes k)"
  shows "m \<in> set xs" and "msg_kind_of K m = k"
proof -
  have "m \<in> set xs \<and> msg_kind_of K m = k"
  proof (cases "k = KDelete")
    case True
    then show ?thesis using assms(3) update_deletes_subset [OF assms(2), of m]
      by (simp add: final_msgs_def remove_overlap_ofmsgs_def)
  next
    case False
    then have "m \<in> set (filter (\<lambda>m. msg_kind_of K m = k) xs)"
      using assms(3) by (auto simp: final_msgs_def dest: subsetD [OF dedupe_subset [OF assms(1)]])
    then show ?thesis by simp
  qed
  then show "m \<in> set xs" and "msg_kind_of K m = k" by simp_all
qed

lemma OFMSG_ORDER_rank: "map (\<lambda>ph. kind_rank (ph_kind ph)) OFMSG_ORDER = [0, 1, 2, 3, 4, 5, 6, 7, 8]"
  by (simp add: OFMSG_ORDER_def phase_def)

lemma OFMSG_ORDER_barrier: "ph \<in> set OFMSG_ORDER \<Longrightarrow> ph_suggest_barrier ph \<longleftrightarrow> kind_rank (ph_kind ph) < 6"
  by (auto simp: OFMSG_ORDER_def phase_def)

lemma set_phases:
  "m \<in> set (concat (map (phase_msgs ub F) OFMSG_ORDER)) \<longleftrightarrow>
     (\<exists>k. m \<in> set (F k)) \<or>
     (m = barrier \<and> ub \<and> (\<exists>ph \<in> set OFMSG_ORDER. F (ph_kind ph) \<noteq> [] \<and> ph_suggest_barrier ph))"
proof -
  have "(\<exists>k. m \<in> set (F k)) \<longleftrightarrow> (\<exists>ph \<in> set OFMSG_ORDER. m \<in> set (F (ph_kind ph)))"
  proof
    assume "\<exists>k. m \<in> set (F k)"
    then obtain k where k: "m \<in> set (F k)" by blast
    have "k \<in> set (map ph_kind OFMSG_ORDER)" using OFMSG_ORDER_kinds(2) by simp
    with k show "\<exists>ph \<in> set OFMSG_ORDER. m \<in> set (F (ph_kind ph))" by auto
  qed blast
  then show ?thesis by (auto simp: phase_msgs_def)
qed

lemma set_reorder:
  assumes "out = concat (map (phase_msgs ub (final_msgs K str_of shuffle xs deletes)) OFMSG_ORDER)"
  shows "m \<noteq> BarrierMsg \<Longrightarrow> m \<in> set out \<longleftrightarrow> (\<exists>k. m \<in> set (final_msgs K str_of shuffle xs deletes k))"
    and "m \<in> set out \<Longrightarrow> m = BarrierMsg \<or> (\<exists>k. m \<in> set (final_msgs K str_of shuffle xs deletes k))"
  unfolding assms set_phases by (auto simp: barrier_def)

text \<open>The messages of one kind in the update.\<close>

lemma reorder_kind_iff:
  assumes "shuffles shuffle" and "update_deletes K str_of shuffle xs = Inr deletes"
    and "out = concat (map (phase_msgs ub (final_msgs K str_of shuffle xs deletes)) OFMSG_ORDER)"
    and "msg_kind_of K m = k" "m \<noteq> BarrierMsg"
  shows "m \<in> set out \<longleftrightarrow> m \<in> set (final_msgs K str_of shuffle xs deletes k)"
  using set_reorder(1) [OF assms(3,5)] final_msgs_subset(2) [OF assms(1,2)] assms(4) by metis

lemma reorder_rank_sorted:
  assumes sh: "shuffles shuffle" and out: "valve_flowreorder K str_of shuffle ub xs = Inr out"
  shows "sorted (map (\<lambda>m. kind_rank (msg_kind_of K m)) (filter (\<lambda>m. m \<noteq> BarrierMsg) out))"
proof -
  obtain deletes where deletes: "update_deletes K str_of shuffle xs = Inr deletes"
    and o: "out = concat (map (phase_msgs ub (final_msgs K str_of shuffle xs deletes)) OFMSG_ORDER)"
    using reorder_Inr [OF sh out] by blast
  let ?g = "\<lambda>ph. filter (\<lambda>m. m \<noteq> BarrierMsg) (phase_msgs ub (final_msgs K str_of shuffle xs deletes) ph)"
  have "sorted (map (\<lambda>m. kind_rank (msg_kind_of K m)) (concat (map ?g OFMSG_ORDER)))"
  proof (rule sorted_map_concat)
    fix ph m assume "m \<in> set (?g ph)"
    then have "m \<in> set (final_msgs K str_of shuffle xs deletes (ph_kind ph))"
      by (auto simp: phase_msgs_def barrier_def split: if_splits)
    then show "kind_rank (msg_kind_of K m) = kind_rank (ph_kind ph)"
      by (simp add: final_msgs_subset(2) [OF sh deletes])
  next
    show "sorted (map (\<lambda>ph. kind_rank (ph_kind ph)) OFMSG_ORDER)" unfolding OFMSG_ORDER_rank by simp
  qed
  then show ?thesis unfolding o by (simp add: filter_concat comp_def)
qed

lemma barrier_between:
  assumes "concat (map (phase_msgs True F) phs) = xs @ d # ys @ a # zs"
    and kinds: "\<And>k m. m \<in> set (F k) \<Longrightarrow> kind m = k"
    and suggest: "\<And>ph. ph \<in> set phs \<Longrightarrow> ph_kind ph = kind d \<Longrightarrow> ph_suggest_barrier ph"
    and "d \<noteq> barrier" "a \<noteq> barrier" "kind d \<noteq> kind a" "distinct (map ph_kind phs)"
  shows "barrier \<in> set ys"
  using assms(1,3,7)
proof (induction phs arbitrary: xs)
  case Nil
  then show ?case by simp
next
  case (Cons ph phs)
  let ?seg = "phase_msgs True F ph" and ?rest = "concat (map (phase_msgs True F) phs)"
  have seg: "kind m = ph_kind ph" if "m \<in> set ?seg" "m \<noteq> barrier" for m
    using that kinds by (auto simp: phase_msgs_def split: if_splits)
  have eq: "?seg @ ?rest = xs @ d # ys @ a # zs" using Cons.prems(1) by simp
  consider us where "?rest = us @ d # ys @ a # zs" | us where "?seg = xs @ d # us" "us @ ?rest = ys @ a # zs"
    using eq by (auto simp: append_eq_append_conv2 append_eq_Cons_conv Cons_eq_append_conv)
  then show ?case
  proof cases
    case 1
    then show ?thesis using Cons.IH [OF 1] Cons.prems(2,3) by simp
  next
    case 2
    have kd: "kind d = ph_kind ph" using seg [of d] 2(1) assms(4) by simp
    then have "ph_suggest_barrier ph" using Cons.prems(2) by simp
    moreover have "?seg \<noteq> []" using 2(1) by simp
    ultimately have "last ?seg = barrier" by (auto simp: phase_msgs_def split: if_splits)
    then have "us \<noteq> [] \<and> last us = barrier" using 2(1) assms(4) by (auto split: if_splits)
    moreover have "a \<notin> set us" using seg [of a] 2(1) assms(5,6) kd by auto
    ultimately have "barrier \<in> set us" "a \<notin> set us" by (metis last_in_set)+
    then show ?thesis using 2(2) by (auto simp: append_eq_append_conv2 append_eq_Cons_conv)
  qed
qed
section \<open>Properties\<close>

text \<open>Flow, group and meter deletes of an update that no global delete of their class makes redundant.\<close>

definition pending_delete :: "ofp \<Rightarrow> ofmsg list \<Rightarrow> ofmsg \<Rightarrow> bool" where
  "pending_delete K xs m \<longleftrightarrow> m \<in> set xs \<and> msg_kind_of K m = KDelete \<and> not_suppressed K xs m"

text \<open>The messages that come out are in the order of their kinds: configuration, global deletes,
  deletes, table features, groups, meters, flow additions, others, packet-outs.\<close>

lemma reorder_order:
  assumes "shuffles shuffle" and "valve_flowreorder K str_of shuffle ub xs = Inr out"
  shows "sorted (map (\<lambda>m. kind_rank (msg_kind_of K m)) (filter (\<lambda>m. m \<noteq> BarrierMsg) out))"
  by (rule reorder_rank_sorted [OF assms])

text \<open>C26. With barriers on, a barrier separates every message of a kind that asks for one from every
  later message of another kind: no flow addition can overtake a delete.\<close>

lemma reorder_barriers:
  assumes "shuffles shuffle" and "valve_flowreorder K str_of shuffle True xs = Inr out"
    and "out = pre @ d # ys @ a # zs" and "d \<noteq> BarrierMsg" "a \<noteq> BarrierMsg"
    and "kind_rank (msg_kind_of K d) < 6" and "msg_kind_of K d \<noteq> msg_kind_of K a"
  shows "BarrierMsg \<in> set ys"
proof -
  obtain deletes where deletes: "update_deletes K str_of shuffle xs = Inr deletes"
    and o: "out = concat (map (phase_msgs True (final_msgs K str_of shuffle xs deletes)) OFMSG_ORDER)"
    using reorder_Inr [OF assms(1,2)] by blast
  show ?thesis
    using barrier_between [OF trans [OF o [symmetric] assms(3)], of "msg_kind_of K"]
      final_msgs_subset(2) [OF assms(1) deletes] OFMSG_ORDER_barrier OFMSG_ORDER_kinds(1) assms(4-7)
    by (metis barrier_def)
qed

lemma reorder_addmods:
  assumes "shuffles shuffle" and "valve_flowreorder K str_of shuffle ub xs = Inr out"
    and "is_flowaddmod m"
  shows "m \<in> set out \<longleftrightarrow>
    find (\<lambda>x. is_flowaddmod x \<and> none_flowmodkey x = none_flowmodkey m) (rev xs) = Some m"
proof -
  obtain deletes where deletes: "update_deletes K str_of shuffle xs = Inr deletes"
    and o: "out = concat (map (phase_msgs ub (final_msgs K str_of shuffle xs deletes)) OFMSG_ORDER)"
    using reorder_Inr [OF assms(1,2)] by blast
  have kind: "msg_kind_of K x = KFlowaddmod \<longleftrightarrow> is_flowaddmod x" for x by (cases x) auto
  have "m \<noteq> BarrierMsg" using assms(3) by auto
  then have "m \<in> set out \<longleftrightarrow> m \<in> set (final_msgs K str_of shuffle xs deletes KFlowaddmod)"
    using reorder_kind_iff [OF assms(1) deletes o] kind assms(3) by blast
  also have "\<dots> \<longleftrightarrow> find (\<lambda>x. is_flowaddmod x \<and> none_flowmodkey x = none_flowmodkey m) (rev xs) = Some m"
    by (simp add: final_msgs_def set_dedupe_ordered find_rev_filter kind)
  finally show ?thesis .
qed

lemma reorder_mem:
  assumes "shuffles shuffle" and "valve_flowreorder K str_of shuffle ub xs = Inr out"
  shows "set out \<subseteq> insert BarrierMsg (set xs)"
proof
  fix m assume m: "m \<in> set out"
  obtain deletes where deletes: "update_deletes K str_of shuffle xs = Inr deletes"
    and o: "out = concat (map (phase_msgs ub (final_msgs K str_of shuffle xs deletes)) OFMSG_ORDER)"
    using reorder_Inr [OF assms] by blast
  show "m \<in> insert BarrierMsg (set xs)"
    using set_reorder(2) [OF o m] final_msgs_subset(1) [OF assms(1) deletes] by blast
qed

text \<open>A flow addition comes out exactly when it is the last one of its key (match, cookie,
  priority, table) that went in.\<close>

lemma reorder_flows:
  assumes "shuffles shuffle" and "valve_flowreorder K str_of shuffle ub xs = Inr out"
    and "is_flowaddmod m"
  shows "m \<in> set out \<longleftrightarrow>
    find (\<lambda>x. is_flowaddmod x \<and> none_flowmodkey x = none_flowmodkey m) (rev xs) = Some m"
  by (rule reorder_addmods [OF assms])

lemma reorder_subset:
  assumes "shuffles shuffle" and "valve_flowreorder K str_of shuffle ub xs = Inr out"
  shows "set out \<subseteq> insert BarrierMsg (set xs)"
  by (rule reorder_mem [OF assms])

text \<open>Every delete that an update drops has one of five reasons.\<close>

text \<open>A delete is left out only for a reason: a global delete of its type, a message of the same
  text, a wildcard delete that covers it, or an addition of the same flow.\<close>

lemma reorder_dropped_delete:
  assumes "shuffles shuffle" and "valve_flowreorder K str_of shuffle ub xs = Inr out"
    and "m \<in> set xs" "msg_kind_of K m = KDelete" "m \<notin> set out"
  shows "(\<exists>g \<in> set xs. msg_kind_of K g = KDeleteglobal \<and> msg_type_of g = msg_type_of m) \<or>
     (\<exists>d \<in> set xs. d \<noteq> m \<and> str_of d = str_of m) \<or>
     (\<exists>om \<in> set xs. is_flowdel om \<and> msg_table_id om = Some (OFPTT_ALL K) \<and> msg_priority om = Some 0 \<and>
        set (msg_match om) \<subseteq> set (msg_match m)) \<or>
     (\<exists>a \<in> set xs. is_flowaddmod a \<and> none_flowmodkey a = none_flowmodkey m \<and> none_flowmodkey m \<noteq> None)"
proof (rule ccontr)
  assume no: "\<not> ?thesis"
  let ?D = "filter (\<lambda>m. msg_kind_of K m = KDelete \<and> not_suppressed K xs m) xs"
  let ?key = "flowkey_of str_of ByStr"
  obtain deletes where deletes: "update_deletes K str_of shuffle xs = Inr deletes"
    and o: "out = concat (map (phase_msgs ub (final_msgs K str_of shuffle xs deletes)) OFMSG_ORDER)"
    using reorder_Inr [OF assms(1,2)] by blast
  have "m \<in> set ?D" using assms(3,4) no by (auto simp: not_suppressed_def)
  moreover have "\<forall>x \<in> set xs. str_of x = str_of m \<longrightarrow> x = m" using no by blast
  ultimately have "find (\<lambda>x. ?key x = ?key m) (rev ?D) = Some m"
    using find_rev_None [of "\<lambda>x. ?key x = ?key m" ?D] find_rev_SomeD [of "\<lambda>x. ?key x = ?key m" ?D]
    by (cases "find (\<lambda>x. ?key x = ?key m) (rev ?D)") (fastforce dest!: arg_cong [of _ _ set])+
  then have inD: "m \<in> set (dedupe_ofmsgs K shuffle ?D False ?key)" by (simp add: set_dedupe_ordered)
  have sub: "set (dedupe_ofmsgs K shuffle ?D False ?key) \<subseteq> set ?D" by (rule dedupe_subset [OF assms(1)])
  have flowdel: "is_flowdel om" if "msg_kind_of K om = KDelete" "msg_table_id om = Some t" for om t
    using that by (cases om) (auto split: if_splits)
  have "kept_delete K (dedupe_ofmsgs K shuffle ?D False ?key) m"
    unfolding kept_delete_def using sub no flowdel by fastforce
  then have "m \<in> set deletes"
    using mset_eq_setD [OF overlaps_mset [OF deletes]] inD by simp
  moreover have "none_flowmodkey m \<notin> none_flowmodkey ` {a \<in> set xs. msg_kind_of K a = KFlowaddmod} \<or> none_flowmodkey m = None"
  proof -
    have "is_flowaddmod a" if "msg_kind_of K a = KFlowaddmod" for a using that by (cases a) (auto split: if_splits)
    with no show ?thesis by fastforce
  qed
  ultimately have "m \<in> set (final_msgs K str_of shuffle xs deletes KDelete)"
    using dedupe_subset [OF assms(1)] by (fastforce simp: final_msgs_def remove_overlap_ofmsgs_def)
  moreover have "m \<noteq> BarrierMsg" using assms(4) by auto
  ultimately have "m \<in> set out" using reorder_kind_iff [OF assms(1) deletes o assms(4)] by blast
  with assms(5) show False by simp
qed

text \<open>Reordering raises exactly when a wildcard flow delete without priority, a flow delete of one
  table and a delete without a table (a group or meter delete) are pending together: the sort of the
  table ids then compares None with an integer.\<close>

lemma reorder_error:
  assumes "shuffles shuffle" and "inj str_of"
  shows "valve_flowreorder K str_of shuffle ub xs = Inl e \<longleftrightarrow>
    e = TypeError \<and>
    (\<exists>m. pending_delete K xs m \<and> msg_table_id m = Some (OFPTT_ALL K) \<and> msg_priority m = Some 0) \<and>
    (\<exists>m t. pending_delete K xs m \<and> msg_table_id m = Some t \<and> t \<noteq> OFPTT_ALL K) \<and>
    (\<exists>m. pending_delete K xs m \<and> msg_table_id m = None)"
proof -
  let ?X = "filter (\<lambda>m. msg_kind_of K m = KDelete \<and> not_suppressed K xs m) xs"
  let ?key = "flowkey_of str_of ByStr"
  let ?D = "dedupe_ofmsgs K shuffle ?X False ?key"
  have inj: "?key a = ?key b \<longleftrightarrow> a = b" for a b using assms(2) by (simp add: inj_eq)
  have "m \<in> set ?D \<longleftrightarrow> m \<in> set ?X" for m
  proof -
    have "find (\<lambda>x. x = m) (rev ?X) = Some m \<longleftrightarrow> m \<in> set ?X"
      using find_rev_None [of "\<lambda>x. x = m" ?X] find_rev_SomeD [of "\<lambda>x. x = m" ?X]
      by (cases "find (\<lambda>x. x = m) (rev ?X)") auto
    then show ?thesis by (simp only: set_dedupe_ordered inj)
  qed
  then have D: "m \<in> set ?D \<longleftrightarrow> pending_delete K xs m" for m by (auto simp: pending_delete_def)
  have "valve_flowreorder K str_of shuffle ub xs = Inl e \<longleftrightarrow> update_deletes K str_of shuffle xs = Inl e"
    by (simp add: valve_flowreorder_def OFMSG_ORDER_def phase_def dedupe_phase_def dedupe_func_def bindE_Inl
        get_kind_suppress)
  also have "\<dots> \<longleftrightarrow> e = TypeError \<and> overlap_check K ?D \<and> (\<exists>m \<in> set ?D. msg_table_id m = None)"
    by (rule overlaps_error)
  finally show ?thesis by (auto simp: overlap_check_def D Bex_def)
qed

subsection \<open>Witnesses\<close>

definition flow_msg :: "flow_command \<Rightarrow> int \<Rightarrow> int \<Rightarrow> ofmatch \<Rightarrow> ofmsg" where
  "flow_msg cmd table priority mt = FlowModMsg (flowmod 1 cmd table priority 4294967295 4294967295 mt [] 0 0 0)"

text \<open>An update that deletes and adds, and one that mixes group and overlapping flow deletes.\<close>

definition update_example :: "ofmsg list" where
  "update_example =
     [flow_msg OFPFC_ADD 2 20480 [(''in_port'', MInt 1)],
      flow_msg OFPFC_ADD 3 20480 [],
      flow_msg OFPFC_DELETE 2 0 [(''in_port'', MInt 2)],
      flow_msg OFPFC_ADD 2 20480 [(''in_port'', MInt 1)]]"

definition mixed_deletes_example :: "ofmsg list" where
  "mixed_deletes_example =
     [flow_msg OFPFC_DELETE 255 0 [(''vlan_vid'', MInt 4196)],
      flow_msg OFPFC_DELETE 2 0 [(''vlan_vid'', MInt 4196)],
      groupdel 7]"

definition reordered_example :: "ofmsg list" where
  "reordered_example =
     [flow_msg OFPFC_DELETE 2 0 [(''in_port'', MInt 2)], BarrierMsg,
      flow_msg OFPFC_ADD 3 20480 [], flow_msg OFPFC_ADD 2 20480 [(''in_port'', MInt 1)]]"

lemma update_example_reordered:
  "valve_flowreorder of13 (\<lambda>m. m) (\<lambda>ms. ms) True update_example = Inr reordered_example"
  by code_simp

lemma reorder_order_witness:
  "sorted (map (\<lambda>m. kind_rank (msg_kind_of of13 m)) (filter (\<lambda>m. m \<noteq> BarrierMsg) reordered_example))"
  by (rule reorder_order [OF shuffles_id update_example_reordered])

lemma reorder_barriers_witness: "BarrierMsg \<in> set [BarrierMsg, flow_msg OFPFC_ADD 3 20480 []]"
  by (rule reorder_barriers [OF shuffles_id update_example_reordered, where pre = "[]" and zs = "[]"
        and d = "flow_msg OFPFC_DELETE 2 0 [(''in_port'', MInt 2)]"
        and a = "flow_msg OFPFC_ADD 2 20480 [(''in_port'', MInt 1)]"])
    (simp_all add: reordered_example_def flow_msg_def flowmod_def)

lemma reorder_flows_witness: "flow_msg OFPFC_ADD 3 20480 [] \<in> set reordered_example"
proof -
  have "is_flowaddmod (flow_msg OFPFC_ADD 3 20480 [])" by (simp add: flow_msg_def flowmod_def)
  from reorder_flows [OF shuffles_id update_example_reordered this] show ?thesis
    by (simp add: update_example_def flow_msg_def flowmod_def flowmodkey_def)
qed

lemma reorder_subset_witness: "set reordered_example \<subseteq> insert BarrierMsg (set update_example)"
  by (rule reorder_subset [OF shuffles_id update_example_reordered])

lemma reorder_dropped_delete_witness:
  "\<exists>out. valve_flowreorder of13 (\<lambda>m. m) (\<lambda>ms. ms) True
      [flow_msg OFPFC_DELETE 2 0 [], flow_msg OFPFC_ADD 2 0 []] = Inr out \<and>
    flow_msg OFPFC_DELETE 2 0 [] \<notin> set out \<and>
    (\<exists>a \<in> {flow_msg OFPFC_DELETE 2 0 [], flow_msg OFPFC_ADD 2 0 []}.
       is_flowaddmod a \<and> none_flowmodkey a = none_flowmodkey (flow_msg OFPFC_DELETE 2 0 []))"
proof -
  let ?xs = "[flow_msg OFPFC_DELETE 2 0 [], flow_msg OFPFC_ADD 2 0 []]"
  have out: "valve_flowreorder of13 (\<lambda>m. m) (\<lambda>ms. ms) True ?xs = Inr [flow_msg OFPFC_ADD 2 0 []]"
    by code_simp
  have "flow_msg OFPFC_DELETE 2 0 [] \<notin> set [flow_msg OFPFC_ADD 2 0 []]"
    by (simp add: flow_msg_def flowmod_def)
  moreover from reorder_dropped_delete [OF shuffles_id out _ _ this]
  have "\<exists>a \<in> set ?xs. is_flowaddmod a \<and> none_flowmodkey a = none_flowmodkey (flow_msg OFPFC_DELETE 2 0 [])"
    by (simp add: flow_msg_def flowmod_def)
  ultimately show ?thesis using out by auto
qed

lemma reorder_error_witness:
  "valve_flowreorder of13 (\<lambda>m. m) (\<lambda>ms. ms) True mixed_deletes_example = Inl TypeError"
proof -
  let ?d = "flow_msg OFPFC_DELETE 255 0 [(''vlan_vid'', MInt 4196)]"
  let ?e = "flow_msg OFPFC_DELETE 2 0 [(''vlan_vid'', MInt 4196)]"
  have "pending_delete of13 mixed_deletes_example m" if "m \<in> {?d, ?e, groupdel 7}" for m
    using that by (auto simp: pending_delete_def not_suppressed_def mixed_deletes_example_def flow_msg_def
        flowmod_def groupdel_def)
  then have "pending_delete of13 mixed_deletes_example ?d" "pending_delete of13 mixed_deletes_example ?e"
      "pending_delete of13 mixed_deletes_example (groupdel 7)" by simp_all
  moreover have "msg_table_id ?d = Some (OFPTT_ALL of13)" "msg_priority ?d = Some 0" "msg_table_id ?e = Some 2"
      "(2::int) \<noteq> OFPTT_ALL of13" "msg_table_id (groupdel 7) = None"
    by (simp_all add: flow_msg_def flowmod_def groupdel_def)
  ultimately show ?thesis
    using reorder_error [OF shuffles_id inj_on_id [unfolded id_def], of of13 True mixed_deletes_example TypeError]
    by blast
qed

end
