(* ===== verification/Switch.thy ===== *)
theory Switch imports OFMsg begin

text \<open>
  The switch the repository tests FAUCET against: \<^verbatim>\<open>FakeOFTable\<close> and \<^verbatim>\<open>FlowMod\<close> of
  \<^verbatim>\<open>clib/fakeoftable.py\<close>, a multi-table OpenFlow pipeline with flow, group and table feature
  messages, packet lookup and action processing.

  A bit vector (\<open>bitstring.Bits\<close>) is a non-negative integer below two to its length; the length is
  fixed by the field. \<open>conv\<close> is the address conversion of the library (\<open>addrconv\<close>, and \<open>int\<close> of a
  text): the number a textual value of a field stands for. An operation that raises may leave the
  tables changed, so it returns the exception, if any, together with the state. Recursion through
  groups is bounded by the interpreter's recursion limit, the argument \<open>fuel\<close>.
\<close>

section \<open>Flow table entries\<close>

record fte =
  fte_priority :: int
  fte_cookie :: int
  fte_instructions :: "instruction list"
  fte_match :: "(string, int \<times> int) dict"
  fte_out_port :: "int option"

definition MAC_MATCH_FIELDS :: "string list" where
  "MAC_MATCH_FIELDS = [''eth_src'', ''eth_dst'', ''arp_sha'', ''arp_tha'', ''ipv6_nd_sll'', ''ipv6_nd_tll'']"

definition IPV4_MATCH_FIELDS :: "string list" where
  "IPV4_MATCH_FIELDS = [''ipv4_src'', ''ipv4_dst'', ''arp_spa'', ''arp_tpa'']"

definition IPV6_MATCH_FIELDS :: "string list" where
  "IPV6_MATCH_FIELDS = [''ipv6_src'', ''ipv6_dst'', ''ipv6_nd_target'']"

definition address_field :: "string \<Rightarrow> bool" where
  "address_field key \<longleftrightarrow> key \<in> set (MAC_MATCH_FIELDS @ IPV4_MATCH_FIELDS @ IPV6_MATCH_FIELDS)"

definition field_length :: "string \<Rightarrow> nat" where
  "field_length key =
     (if key \<in> set MAC_MATCH_FIELDS then 48
      else if key \<in> set IPV4_MATCH_FIELDS then 32
      else if key \<in> set IPV6_MATCH_FIELDS then 128
      else 64)"

type_synonym addrconv = "string \<Rightarrow> mval \<Rightarrow> err + int"

definition match_to_bits :: "addrconv \<Rightarrow> string \<Rightarrow> mval \<Rightarrow> err + int" where
  "match_to_bits conv key val =
     (if address_field key then
        (if val = MInt (-1) then Inr (take_bit (field_length key) (-1))
         else bindE (conv key val) (\<lambda>n. Inr (take_bit (field_length key) n)))
      else
        bindE (case val of MInt n \<Rightarrow> Inr n | _ \<Rightarrow> conv key val) (\<lambda>n.
          if - (2 ^ 63) \<le> n \<and> n < 2 ^ 63 then Inr (take_bit 64 n) else Inl ValueError))"

text \<open>A tuple is a (value, mask) pair, anything else has the mask -1.\<close>

fun split_mask :: "mval \<Rightarrow> mval \<times> mval" where
  "split_mask (MIntMask v m) = (MInt v, MInt m)"
| "split_mask (MTextMask v m) = (MText v, MText m)"
| "split_mask v = (v, MInt (-1))"

datatype inst_type = OFPIT_APPLY_ACTIONS | OFPIT_GOTO_TABLE | OFPIT_WRITE_METADATA | OFPIT_METER

fun inst_type_of :: "instruction \<Rightarrow> inst_type" where
  "inst_type_of (IApplyActions _) = OFPIT_APPLY_ACTIONS"
| "inst_type_of (IGotoTable _) = OFPIT_GOTO_TABLE"
| "inst_type_of (IWriteMetadata _ _) = OFPIT_WRITE_METADATA"
| "inst_type_of (IMeter _) = OFPIT_METER"

definition validate_instructions :: "instruction list \<Rightarrow> err + unit" where
  "validate_instructions insts =
     (if distinct (map inst_type_of insts) then Inr () else Inl FakeOFTableException)"

definition match_bits :: "addrconv \<Rightarrow> ofmatch \<Rightarrow> err + (string, int \<times> int) dict" where
  "match_bits conv items =
     foldE (\<lambda>(key, val) d.
         case split_mask val of (v, m) \<Rightarrow>
           bindE (match_to_bits conv key m) (\<lambda>mb.
           bindE (match_to_bits conv key v) (\<lambda>vb.
           Inr (dict_set key (and vb mb, mb) d))))
       items []"

definition fte_of_flowmod :: "ofp \<Rightarrow> addrconv \<Rightarrow> flow_mod \<Rightarrow> err + fte" where
  "fte_of_flowmod K conv m =
     bindE (validate_instructions (fm_instructions m)) (\<lambda>_.
     bindE (match_bits conv (fm_match m)) (\<lambda>mt.
     Inr \<lparr>fte_priority = fm_priority m, fte_cookie = fm_cookie m,
          fte_instructions = fm_instructions m, fte_match = mt,
          fte_out_port = (if fm_command m \<in> {OFPFC_DELETE, OFPFC_DELETE_STRICT} \<and> fm_out_port m \<noteq> OFPP_ANY K
                          then Some (fm_out_port m) else None)\<rparr>))"

definition out_port_matches :: "ofp \<Rightarrow> fte \<Rightarrow> fte \<Rightarrow> bool" where
  "out_port_matches K f other =
     (case fte_out_port f of
        None \<Rightarrow> True
      | Some p \<Rightarrow> p = OFPP_ANY K \<or>
          (\<exists>i \<in> set (fte_instructions other). case i of
             IApplyActions acts \<Rightarrow> (\<exists>a \<in> set acts. case a of AOutput q _ \<Rightarrow> q = p | _ \<Rightarrow> False)
           | _ \<Rightarrow> False))"

fun pkt_matches_items :: "addrconv \<Rightarrow> (string, int \<times> int) dict \<Rightarrow> (string, mval) dict \<Rightarrow> err + bool" where
  "pkt_matches_items conv [] pkt = Inr True"
| "pkt_matches_items conv ((key, val, m) # items) pkt =
     (case dict_get pkt key of
        None \<Rightarrow> Inr False
      | Some v \<Rightarrow> bindE (match_to_bits conv key v) (\<lambda>val_bits.
          if and val_bits m \<noteq> and val m then Inr False else pkt_matches_items conv items pkt))"

definition pkt_matches :: "addrconv \<Rightarrow> fte \<Rightarrow> (string, mval) dict \<Rightarrow> err + bool" where
  "pkt_matches conv f pkt = pkt_matches_items conv (fte_match f) pkt"

definition matches_match :: "fte \<Rightarrow> fte \<Rightarrow> bool" where
  "matches_match f other \<longleftrightarrow> fte_priority f = fte_priority other \<and> dict_eq (fte_match f) (fte_match other)"

definition fte_matches :: "ofp \<Rightarrow> fte \<Rightarrow> fte \<Rightarrow> bool \<Rightarrow> bool" where
  "fte_matches K f other strict =
     (if \<not> out_port_matches K f other then False
      else if strict then matches_match f other
      else \<forall>(key, val, m) \<in> set (fte_match f).
             case dict_get (fte_match other) key of None \<Rightarrow> False | Some (oval, _) \<Rightarrow> and oval m = val)"

definition fte_overlaps :: "fte \<Rightarrow> fte \<Rightarrow> bool" where
  "fte_overlaps f other =
     (if fte_priority other \<noteq> fte_priority f then False
      else \<forall>(key, val, m) \<in> set (fte_match f).
             case dict_get (fte_match other) key of
               None \<Rightarrow> True
             | Some (oval, om) \<Rightarrow> and val om = oval \<and> and oval m = val)"

text \<open>\<open>FlowMod.__eq__\<close>; \<open>list.remove\<close> takes out the first equal entry.\<close>

definition fte_eq :: "fte \<Rightarrow> fte \<Rightarrow> bool" where
  "fte_eq f other \<longleftrightarrow> matches_match f other \<and> fte_out_port f = fte_out_port other \<and>
     fte_instructions f = fte_instructions other"

fun remove_fte :: "fte \<Rightarrow> fte list \<Rightarrow> fte list" where
  "remove_fte f [] = []"
| "remove_fte f (x # xs) = (if fte_eq x f then xs else x # remove_fte f xs)"

section \<open>Flow table operations\<close>

type_synonym table = "fte list"

fun add_scan :: "ofp \<Rightarrow> fte \<Rightarrow> table \<Rightarrow> table \<Rightarrow> err + table" where
  "add_scan K fm [] table = Inr table"
| "add_scan K fm (e # rest) table =
     (if fte_matches K fm e True then Inr (remove_fte e table)
      else if fte_overlaps fm e then Inl FakeOFTableException
      else add_scan K fm rest table)"

definition table_add :: "ofp \<Rightarrow> table \<Rightarrow> fte \<Rightarrow> err + table" where
  "table_add K table fm = bindE (add_scan K fm table table) (\<lambda>t. Inr (t @ [fm]))"

definition table_del :: "ofp \<Rightarrow> table \<Rightarrow> fte \<Rightarrow> table" where
  "table_del K table fm =
     foldl (\<lambda>t e. remove_fte e t) table (filter (\<lambda>e. fte_matches K fm e False) table)"

fun del_strict_scan :: "ofp \<Rightarrow> fte \<Rightarrow> table \<Rightarrow> table \<Rightarrow> table" where
  "del_strict_scan K fm [] table = table"
| "del_strict_scan K fm (e # rest) table =
     (if fte_matches K fm e True then remove_fte e table else del_strict_scan K fm rest table)"

definition table_del_strict :: "ofp \<Rightarrow> table \<Rightarrow> fte \<Rightarrow> table" where
  "table_del_strict K table fm = del_strict_scan K fm table table"

definition table_modify :: "ofp \<Rightarrow> table \<Rightarrow> fte \<Rightarrow> table" where
  "table_modify K table fm =
     map (\<lambda>e. if fte_matches K fm e False then e\<lparr>fte_instructions := fte_instructions fm\<rparr> else e) table"

fun table_modify_strict :: "ofp \<Rightarrow> table \<Rightarrow> fte \<Rightarrow> table" where
  "table_modify_strict K [] fm = []"
| "table_modify_strict K (e # rest) fm =
     (if fte_matches K fm e True then e\<lparr>fte_instructions := fte_instructions fm\<rparr> # rest
      else e # table_modify_strict K rest fm)"

definition flowmod_handler :: "ofp \<Rightarrow> flow_command \<Rightarrow> table \<Rightarrow> fte \<Rightarrow> err + table" where
  "flowmod_handler K cmd table fm =
     (case cmd of
        OFPFC_ADD \<Rightarrow> table_add K table fm
      | OFPFC_DELETE \<Rightarrow> Inr (table_del K table fm)
      | OFPFC_DELETE_STRICT \<Rightarrow> Inr (table_del_strict K table fm)
      | OFPFC_MODIFY \<Rightarrow> Inr (table_modify K table fm)
      | OFPFC_MODIFY_STRICT \<Rightarrow> Inr (table_modify_strict K table fm))"

section \<open>The switch\<close>

record switch =
  sw_tables :: "table list"
  sw_groups :: "(int, group_mod) dict"
  sw_requires_tfm :: bool
  sw_tfm :: "(int, tfm_body) dict"

definition new_switch :: "nat \<Rightarrow> bool \<Rightarrow> switch" where
  "new_switch num_tables requires_tfm =
     \<lparr>sw_tables = replicate num_tables [], sw_groups = [], sw_requires_tfm = requires_tfm, sw_tfm = []\<rparr>"

type_synonym outcome = "err option \<times> switch"

definition apply_groupmod :: "ofp \<Rightarrow> group_mod \<Rightarrow> switch \<Rightarrow> outcome" where
  "apply_groupmod K g s =
     (let gid = gm_group_id g in
      case gm_command g of
        OFPGC_DELETE \<Rightarrow>
          (None, if gid = OFPG_ALL K then s\<lparr>sw_groups := []\<rparr> else s\<lparr>sw_groups := dict_del gid (sw_groups s)\<rparr>)
      | OFPGC_ADD \<Rightarrow>
          if dict_get (sw_groups s) gid \<noteq> None then (Some FakeOFTableException, s)
          else (None, s\<lparr>sw_groups := dict_set gid g (sw_groups s)\<rparr>)
      | OFPGC_MODIFY \<Rightarrow>
          if dict_get (sw_groups s) gid = None then (Some FakeOFTableException, s)
          else (None, s\<lparr>sw_groups := dict_set gid g (sw_groups s)\<rparr>))"

definition validate_flowmod_tfm :: "ofp \<Rightarrow> switch \<Rightarrow> flow_mod \<Rightarrow> err + unit" where
  "validate_flowmod_tfm K s m =
     (if \<not> sw_requires_tfm s then Inr ()
      else if fm_table_id m = OFPTT_ALL K then
        (if fm_match m \<noteq> [] \<and> sw_tfm s = [] then Inl FakeOFTableException else Inr ())
      else if dict_get (sw_tfm s) (fm_table_id m) = None then Inl FakeOFTableException
      else Inr ())"

text \<open>The handler on the tables with the given numbers, in order; it stops at the first exception.\<close>

fun handle_tables :: "ofp \<Rightarrow> flow_command \<Rightarrow> fte \<Rightarrow> nat list \<Rightarrow> table list \<Rightarrow> err option \<times> table list" where
  "handle_tables K cmd f [] tables = (None, tables)"
| "handle_tables K cmd f (i # is) tables =
     (case flowmod_handler K cmd (tables ! i) f of
        Inl e \<Rightarrow> (Some e, tables)
      | Inr t \<Rightarrow> handle_tables K cmd f is (tables[i := t]))"

text \<open>The numbers of the tables a message addresses; an index out of range raises.\<close>

definition addressed_tables :: "ofp \<Rightarrow> int \<Rightarrow> switch \<Rightarrow> err + nat list" where
  "addressed_tables K table_id s =
     (let n = length (sw_tables s)
      in if table_id = OFPTT_ALL K then Inr [0..<n]
         else if 0 \<le> table_id \<and> table_id < int n then Inr [nat table_id]
         else if table_id < 0 \<and> 0 \<le> int n + table_id then Inr [nat (int n + table_id)]
         else Inl IndexError)"

definition apply_flowmod :: "ofp \<Rightarrow> addrconv \<Rightarrow> flow_mod \<Rightarrow> switch \<Rightarrow> outcome" where
  "apply_flowmod K conv m s =
     (case addressed_tables K (fm_table_id m) s of
        Inl e \<Rightarrow> (Some e, s)
      | Inr is \<Rightarrow>
          (case validate_flowmod_tfm K s m of
             Inl e \<Rightarrow> (Some e, s)
           | Inr _ \<Rightarrow>
               (case fte_of_flowmod K conv m of
                  Inl e \<Rightarrow> (Some e, s)
                | Inr f \<Rightarrow>
                    (case handle_tables K (fm_command m) f is (sw_tables s) of
                       (Some e, tables) \<Rightarrow> (Some e, s\<lparr>sw_tables := tables\<rparr>)
                     | (None, tables) \<Rightarrow>
                         (case dict_get (sw_tfm s) (fm_table_id m) of
                            None \<Rightarrow> (None, s\<lparr>sw_tables := tables\<rparr>)
                          | Some body \<Rightarrow>
                              (if \<exists>i \<in> set is. tfm_max_entries body < int (length (tables ! i))
                               then Some FakeOFTableException else None,
                               s\<lparr>sw_tables := tables\<rparr>))))))"

definition sort_table :: "table \<Rightarrow> table" where
  "sort_table t = sort_key (\<lambda>f. - fte_priority f) t"

definition sort_tables :: "switch \<Rightarrow> switch" where
  "sort_tables s = s\<lparr>sw_tables := map sort_table (sw_tables s)\<rparr>"

definition apply_tfm :: "tfm_body list \<Rightarrow> switch \<Rightarrow> switch" where
  "apply_tfm body s = s\<lparr>sw_tfm := foldl (\<lambda>d b. dict_set (tfm_table_id b) b d) [] body\<rparr>"

text \<open>One message; an unsupported one raises unless errors are ignored.\<close>

definition apply_ofmsg :: "ofp \<Rightarrow> addrconv \<Rightarrow> ofmsg \<Rightarrow> switch \<Rightarrow> outcome" where
  "apply_ofmsg K conv ofmsg s =
     (case ofmsg of
        BarrierMsg \<Rightarrow> (None, s)
      | PacketOutMsg _ _ \<Rightarrow> (None, s)
      | SetConfigMsg \<Rightarrow> (None, s)
      | SetAsyncMsg _ _ _ \<Rightarrow> (None, s)
      | DescStatsMsg \<Rightarrow> (None, s)
      | MeterModMsg _ \<Rightarrow> (None, s)
      | TableFeaturesMsg body \<Rightarrow> (None, apply_tfm body s)
      | GroupModMsg g \<Rightarrow> apply_groupmod K g s
      | FlowModMsg m \<Rightarrow>
          (case apply_flowmod K conv m s of
             (None, s') \<Rightarrow> (None, sort_tables s')
           | (Some e, s') \<Rightarrow> (Some e, s'))
      | OtherMsg _ \<Rightarrow> (Some FakeOFTableException, s))"

fun apply_ofmsgs :: "ofp \<Rightarrow> addrconv \<Rightarrow> bool \<Rightarrow> ofmsg list \<Rightarrow> switch \<Rightarrow> outcome" where
  "apply_ofmsgs K conv ignore_errors [] s = (None, s)"
| "apply_ofmsgs K conv ignore_errors (m # ms) s =
     (case apply_ofmsg K conv m s of
        (None, s') \<Rightarrow> apply_ofmsgs K conv ignore_errors ms s'
      | (Some e, s') \<Rightarrow>
          if ignore_errors \<and> e = FakeOFTableException then apply_ofmsgs K conv ignore_errors ms s'
          else (Some e, s'))"

section \<open>Packets through the pipeline\<close>

type_synonym packet = "(string, mval) dict"
type_synonym outputs = "(int, packet list) dict"

fun table_lookup :: "addrconv \<Rightarrow> packet \<Rightarrow> table \<Rightarrow> err + fte option" where
  "table_lookup conv pkt [] = Inr None"
| "table_lookup conv pkt (e # rest) =
     bindE (pkt_matches conv e pkt) (\<lambda>b. if b then Inr (Some e) else table_lookup conv pkt rest)"

definition single_table_lookup :: "addrconv \<Rightarrow> switch \<Rightarrow> packet \<Rightarrow> nat \<Rightarrow> err + fte option" where
  "single_table_lookup conv s pkt table_id =
     (if table_id < length (sw_tables s) then table_lookup conv pkt (sw_tables s ! table_id)
      else Inl IndexError)"

definition outputs_extend :: "int \<Rightarrow> packet list \<Rightarrow> outputs \<Rightarrow> outputs" where
  "outputs_extend port pkts outs =
     dict_set port ((case dict_get outs port of None \<Rightarrow> [] | Some ps \<Rightarrow> ps) @ pkts) outs"

definition push_vlan_pkt :: "ofp \<Rightarrow> packet \<Rightarrow> err + packet" where
  "push_vlan_pkt K pkt =
     (case dict_get pkt ''vlan_vid'' of
        None \<Rightarrow> Inr (dict_set ''vlan_vid'' (MInt (OFPVID_PRESENT K)) pkt)
      | Some (MInt v) \<Rightarrow>
          Inr (dict_set ''vlan_vid'' (MInt (OFPVID_PRESENT K))
                 (if and v (OFPVID_PRESENT K) \<noteq> 0 then dict_set ''encap_vid'' (MInt v) pkt else pkt))
      | Some _ \<Rightarrow> Inl TypeError)"

definition pop_vlan_pkt :: "packet \<Rightarrow> err + packet" where
  "pop_vlan_pkt pkt =
     bindE (dict_delE ''vlan_vid'' pkt) (\<lambda>pkt.
       let pkt = dict_del ''vlan_pcp'' pkt
       in case dict_get pkt ''encap_vid'' of
            Some v \<Rightarrow> Inr (dict_del ''encap_vid'' (dict_set ''vlan_vid'' v pkt))
          | None \<Rightarrow> Inr (dict_set ''vlan_vid'' (MInt 0) pkt))"

text \<open>
  \<open>_process_instruction\<close>: the outputs, the packet after the actions and the actions since the last
  output. The buckets of a group are processed by the same method, each on a copy of the packet; the
  argument \<open>run_group\<close> gives their outputs, bucket by bucket.
\<close>

definition merge_outputs :: "outputs \<Rightarrow> outputs \<Rightarrow> outputs" where
  "merge_outputs outs new = foldl (\<lambda>o' (port, pkts). outputs_extend port pkts o') outs new"

fun process_actions ::
    "ofp \<Rightarrow> (int \<Rightarrow> packet \<Rightarrow> err + outputs list) \<Rightarrow> packet \<Rightarrow> outputs \<Rightarrow> action list \<Rightarrow> action list \<Rightarrow>
     err + outputs \<times> packet \<times> action list" where
  "process_actions K run_group pkt outs pending [] = Inr (outs, pkt, pending)"
| "process_actions K run_group pkt outs pending (AOutput port l # acts) =
     process_actions K run_group pkt (outputs_extend port [pkt] outs) [] acts"
| "process_actions K run_group pkt outs pending (ASetField key val # acts) =
     process_actions K run_group (dict_set key val pkt) outs (pending @ [ASetField key val]) acts"
| "process_actions K run_group pkt outs pending (APushVlan t # acts) =
     bindE (push_vlan_pkt K pkt) (\<lambda>pkt. process_actions K run_group pkt outs (pending @ [APushVlan t]) acts)"
| "process_actions K run_group pkt outs pending (APopVlan # acts) =
     bindE (pop_vlan_pkt pkt) (\<lambda>pkt. process_actions K run_group pkt outs (pending @ [APopVlan]) acts)"
| "process_actions K run_group pkt outs pending (AGroup gid # acts) =
     bindE (run_group gid pkt) (\<lambda>bucket_outs.
       process_actions K run_group pkt (foldl merge_outputs outs bucket_outs)
         (if \<exists>b \<in> set bucket_outs. b \<noteq> [] then [] else pending @ [AGroup gid]) acts)"
| "process_actions K run_group pkt outs pending (act # acts) =
     process_actions K run_group pkt outs (pending @ [act]) acts"

fun group_outputs :: "ofp \<Rightarrow> nat \<Rightarrow> (int, group_mod) dict \<Rightarrow> int \<Rightarrow> packet \<Rightarrow> err + outputs list" where
  "group_outputs K 0 groups gid pkt = Inl RecursionError"
| "group_outputs K (Suc fuel) groups gid pkt =
     (case dict_get groups gid of
        None \<Rightarrow> Inl FakeOFTableException
      | Some g \<Rightarrow>
          mapE (\<lambda>b. bindE (process_actions K (group_outputs K fuel groups) pkt [] [] (b_actions b))
                      (\<lambda>(outs, _, _). Inr outs))
            (gm_buckets g))"

definition process_instruction ::
    "ofp \<Rightarrow> nat \<Rightarrow> switch \<Rightarrow> packet \<Rightarrow> action list \<Rightarrow> err + outputs \<times> packet \<times> action list" where
  "process_instruction K fuel s pkt acts =
     process_actions K (group_outputs K fuel (sw_groups s)) pkt [] [] acts"

definition write_metadata_pkt :: "int \<Rightarrow> int \<Rightarrow> packet \<Rightarrow> err + packet" where
  "write_metadata_pkt metadata mmask pkt =
     (case dict_get pkt ''metadata'' of
        None \<Rightarrow> Inr (dict_set ''metadata'' (MInt (or (and 0 (xor mmask 0xFFFFFFFFFFFFFFFF)) (and metadata mmask))) pkt)
      | Some (MInt md) \<Rightarrow>
          Inr (dict_set ''metadata'' (MInt (or (and md (xor mmask 0xFFFFFFFFFFFFFFFF)) (and metadata mmask))) pkt)
      | Some _ \<Rightarrow> Inl TypeError)"

text \<open>The state of the loop over the instructions of the matched entry.\<close>

record table_run =
  tr_outputs :: outputs
  tr_packet :: packet
  tr_next :: "nat option"
  tr_pending :: "action list"

definition run_instruction :: "ofp \<Rightarrow> nat \<Rightarrow> switch \<Rightarrow> nat \<Rightarrow> instruction \<Rightarrow> table_run \<Rightarrow> err + table_run" where
  "run_instruction K fuel s table_id inst r =
     (case inst of
        IGotoTable t \<Rightarrow>
          if int table_id < t then Inr (r\<lparr>tr_next := Some (nat t)\<rparr>) else Inl FakeOFTableException
      | IApplyActions acts \<Rightarrow>
          if acts = [] then Inl FakeOFTableException
          else bindE (process_instruction K fuel s (tr_packet r) acts) (\<lambda>(outs, pkt, pending).
                 Inr (r\<lparr>tr_outputs := merge_outputs (tr_outputs r) outs, tr_packet := pkt, tr_pending := pending\<rparr>))
      | IWriteMetadata md mm \<Rightarrow>
          bindE (write_metadata_pkt md mm (tr_packet r)) (\<lambda>pkt. Inr (r\<lparr>tr_packet := pkt\<rparr>))
      | IMeter _ \<Rightarrow> Inr r)"

definition get_table_output ::
    "ofp \<Rightarrow> addrconv \<Rightarrow> nat \<Rightarrow> switch \<Rightarrow> packet \<Rightarrow> nat \<Rightarrow> err + outputs \<times> packet \<times> nat option" where
  "get_table_output K conv fuel s pkt table_id =
     bindE (single_table_lookup conv s pkt table_id) (\<lambda>entry.
     bindE (foldE (run_instruction K fuel s table_id)
              (case entry of None \<Rightarrow> [] | Some f \<Rightarrow> fte_instructions f)
              \<lparr>tr_outputs = [], tr_packet = pkt, tr_next = None, tr_pending = []\<rparr>) (\<lambda>r.
     if tr_pending r \<noteq> [] \<and> tr_next r = None then Inl FakeOFTableException
     else Inr (tr_outputs r, tr_packet r, tr_next r)))"

text \<open>A goto only leads to a later table, and a table that is not there raises.\<close>

lemma run_instruction_next:
  "run_instruction K fuel s table_id inst r = Inr r' \<Longrightarrow> tr_next r' = Some t \<Longrightarrow> tr_next r = Some t \<or> table_id < t"
  by (cases inst) (auto simp: run_instruction_def bindE_Inr split: if_splits)

lemma get_table_output_run:
  assumes "get_table_output K conv fuel s pkt table_id = Inr (outs, pkt', nt)"
  shows "\<exists>insts r. foldE (run_instruction K fuel s table_id) insts
      \<lparr>tr_outputs = [], tr_packet = pkt, tr_next = None, tr_pending = []\<rparr> = Inr r \<and> tr_next r = nt"
proof -
  from assms obtain entry :: "fte option" and r where
    r: "foldE (run_instruction K fuel s table_id) (case entry of None \<Rightarrow> [] | Some f \<Rightarrow> fte_instructions f)
      \<lparr>tr_outputs = [], tr_packet = pkt, tr_next = None, tr_pending = []\<rparr> = Inr r"
    and tail: "(if tr_pending r \<noteq> [] \<and> tr_next r = None then Inl FakeOFTableException
      else Inr (tr_outputs r, tr_packet r, tr_next r)) = Inr (outs, pkt', nt)"
    unfolding get_table_output_def bindE_Inr by blast
  from tail have "tr_next r = nt" by (cases "tr_pending r \<noteq> [] \<and> tr_next r = None") simp_all
  with r show ?thesis by blast
qed

lemma get_table_output_next:
  assumes "get_table_output K conv fuel s pkt table_id = Inr (outs, pkt', Some t)"
  shows "table_id < t"
proof -
  from get_table_output_run [OF assms] obtain insts r where
    r: "foldE (run_instruction K fuel s table_id) insts
          \<lparr>tr_outputs = [], tr_packet = pkt, tr_next = None, tr_pending = []\<rparr> = Inr r" and next': "tr_next r = Some t"
    by blast
  have "\<forall>t. tr_next r = Some t \<longrightarrow> table_id < t"
    by (rule foldE_invariant [OF r, where P = "\<lambda>r. \<forall>t. tr_next r = Some t \<longrightarrow> table_id < t"])
      (use run_instruction_next in fastforce)+
  with next' show ?thesis by blast
qed

lemma get_table_output_bound:
  "get_table_output K conv fuel s pkt table_id = Inr r \<Longrightarrow> table_id < length (sw_tables s)"
  by (auto simp: get_table_output_def single_table_lookup_def bindE_Inr split: if_splits)

lemma get_table_output_later:
  "get_table_output K conv fuel s pkt table_id = Inr (outs, pkt', Some t) \<Longrightarrow> table_id < t \<and> table_id < length (sw_tables s)"
  using get_table_output_next get_table_output_bound by blast

text \<open>\<open>get_output\<close>: from table 0, follow the goto instructions.\<close>

function pipeline_run ::
    "ofp \<Rightarrow> addrconv \<Rightarrow> nat \<Rightarrow> switch \<Rightarrow> packet \<Rightarrow> nat \<Rightarrow> (nat, outputs) dict \<Rightarrow> err + (nat, outputs) dict" where
  "pipeline_run K conv fuel s pkt table_id table_outputs =
     (case get_table_output K conv fuel s pkt table_id of
        Inl e \<Rightarrow> Inl e
      | Inr (outs, pkt', next_table) \<Rightarrow>
          (case next_table of
             None \<Rightarrow> Inr (dict_set table_id outs table_outputs)
           | Some t \<Rightarrow> pipeline_run K conv fuel s pkt' t (dict_set table_id outs table_outputs)))"
  by pat_completeness auto
termination
  by (relation "measure (\<lambda>(K, conv, fuel, s, pkt, table_id, outs). length (sw_tables s) - table_id)")
    (auto dest: get_table_output_later)

declare pipeline_run.simps [simp del]

definition get_output :: "ofp \<Rightarrow> addrconv \<Rightarrow> nat \<Rightarrow> switch \<Rightarrow> packet \<Rightarrow> err + (nat, outputs) dict" where
  "get_output K conv fuel s pkt = pipeline_run K conv fuel s pkt 0 []"

text \<open>\<open>get_port_outputs\<close>: the distinct packets output to each port, over all tables.\<close>

definition add_unique_pkts :: "int \<Rightarrow> packet list \<Rightarrow> outputs \<Rightarrow> outputs" where
  "add_unique_pkts port pkts outs =
     foldl (\<lambda>o' p. if \<exists>q \<in> set (case dict_get o' port of None \<Rightarrow> [] | Some ps \<Rightarrow> ps). dict_eq p q then o'
                   else outputs_extend port [p] o')
       (dict_set port (case dict_get outs port of None \<Rightarrow> [] | Some ps \<Rightarrow> ps) outs) pkts"

definition get_port_outputs :: "ofp \<Rightarrow> addrconv \<Rightarrow> nat \<Rightarrow> switch \<Rightarrow> packet \<Rightarrow> err + outputs" where
  "get_port_outputs K conv fuel s pkt =
     bindE (get_output K conv fuel s pkt) (\<lambda>tables.
       Inr (foldl (\<lambda>po outs. foldl (\<lambda>po (port, pkts). add_unique_pkts port pkts po) po outs) [] (dict_values tables)))"

text \<open>
  \<open>is_full_output\<close>: the loop over the output packets; \<open>Some b\<close> is a return from inside the loop,
  \<open>None\<close> goes on to the next packet.
\<close>

definition pkt_int :: "packet \<Rightarrow> string \<Rightarrow> err + int" where
  "pkt_int pkt key =
     (case dict_get pkt key of None \<Rightarrow> Inl KeyError | Some (MInt n) \<Rightarrow> Inr n | Some _ \<Rightarrow> Inl TypeError)"

definition full_output_pkt ::
    "ofp \<Rightarrow> int option \<Rightarrow> int option \<Rightarrow> mval option \<Rightarrow> int \<Rightarrow> packet \<Rightarrow> err + bool option" where
  "full_output_pkt K port vid in_port out_port out_pkt =
     bindE (if port = Some out_port then bindE (dict_getE out_pkt ''in_port'') (\<lambda>v. Inr (v = MInt out_port))
            else Inr False) (\<lambda>hairpin.
     if hairpin then Inr None
     else case port of
       None \<Rightarrow> Inr (Some True)
     | Some p \<Rightarrow>
         let here = (p = out_port);
             by_in_port = (out_port = OFPP_IN_PORT K \<and> in_port = Some (MInt p))
         in case vid of
              None \<Rightarrow> Inr (if here \<or> by_in_port then Some True else None)
            | Some v \<Rightarrow>
                if here \<or> by_in_port then
                  (if and v (OFPVID_PRESENT K) = 0 then
                     (if dict_get out_pkt ''vlan_vid'' = None then Inr (Some True)
                      else bindE (pkt_int out_pkt ''vlan_vid'') (\<lambda>w. Inr (Some (and w (OFPVID_PRESENT K) = 0))))
                   else Inr (Some (dict_get out_pkt ''vlan_vid'' = Some (MInt v))))
                else Inr None)"

fun full_output_pkts ::
    "ofp \<Rightarrow> int option \<Rightarrow> int option \<Rightarrow> mval option \<Rightarrow> (int \<times> packet) list \<Rightarrow> err + bool" where
  "full_output_pkts K port vid in_port [] = Inr False"
| "full_output_pkts K port vid in_port ((out_port, out_pkt) # rest) =
     bindE (full_output_pkt K port vid in_port out_port out_pkt) (\<lambda>r.
       case r of Some b \<Rightarrow> Inr b | None \<Rightarrow> full_output_pkts K port vid in_port rest)"

definition is_full_output ::
    "ofp \<Rightarrow> addrconv \<Rightarrow> nat \<Rightarrow> switch \<Rightarrow> packet \<Rightarrow> int option \<Rightarrow> int option \<Rightarrow> err + bool" where
  "is_full_output K conv fuel s pkt port vid =
     bindE (get_output K conv fuel s pkt) (\<lambda>tables.
       full_output_pkts K port vid (dict_get pkt ''in_port'')
         (concat (map (\<lambda>outs. concat (map (\<lambda>(p, pkts). map (Pair p) pkts) outs)) (dict_values tables))))"

section \<open>Entries: keys, well-formed tables\<close>

text \<open>
  The identity of an entry within its table: its priority and its match as a map. A table never
  holds two entries with one identity (\<open>table_ok\<close>).
\<close>

definition fte_key :: "fte \<Rightarrow> int \<times> (string \<Rightarrow> (int \<times> int) option)" where
  "fte_key f = (fte_priority f, dict_get (fte_match f))"

definition table_ok :: "table \<Rightarrow> bool" where
  "table_ok t \<longleftrightarrow> distinct (map fte_key t)"

definition table_entry :: "table \<Rightarrow> int \<times> (string \<Rightarrow> (int \<times> int) option) \<Rightarrow> fte option" where
  "table_entry t k = find (\<lambda>e. fte_key e = k) t"

lemma matches_match_key: "matches_match f e \<longleftrightarrow> fte_key f = fte_key e"
  by (auto simp: matches_match_def fte_key_def dict_eq_get)

lemma fte_eq_key: "fte_eq f e \<Longrightarrow> fte_key f = fte_key e"
  by (simp add: fte_eq_def matches_match_key)

lemma fte_eq_refl [simp]: "fte_eq f f"
  by (simp add: fte_eq_def matches_match_key)

lemma remove_fte_filter:
  "table_ok t \<Longrightarrow> e \<in> set t \<Longrightarrow> remove_fte e t = filter (\<lambda>x. fte_key x \<noteq> fte_key e) t"
proof (induction t)
  case Nil
  then show ?case by simp
next
  case (Cons x t)
  show ?case
  proof (cases "fte_eq x e")
    case True
    then have "fte_key x = fte_key e" by (rule fte_eq_key)
    moreover from this Cons.prems(1) have "\<forall>y \<in> set t. fte_key y \<noteq> fte_key e" by (auto simp: table_ok_def image_iff)
    ultimately show ?thesis using True by (auto simp: filter_id_conv)
  next
    case False
    then have "e \<in> set t" using Cons.prems(2) by auto
    moreover from this Cons.prems(1) have "fte_key x \<noteq> fte_key e" by (auto simp: table_ok_def image_iff)
    ultimately show ?thesis using False Cons by (auto simp: table_ok_def)
  qed
qed

lemma table_ok_filter: "table_ok t \<Longrightarrow> table_ok (filter P t)"
  by (simp add: table_ok_def distinct_map_filter)

lemma table_ok_subset_key:
  "table_ok t \<Longrightarrow> e \<in> set t \<Longrightarrow> e' \<in> set t \<Longrightarrow> fte_key e = fte_key e' \<Longrightarrow> e = e'"
  by (auto simp: table_ok_def distinct_map dest: inj_onD)

lemma table_entry_Some:
  "table_ok t \<Longrightarrow> table_entry t k = Some e \<longleftrightarrow> e \<in> set t \<and> fte_key e = k"
proof
  assume ok: "table_ok t" and "table_entry t k = Some e"
  then show "e \<in> set t \<and> fte_key e = k"
    by (auto simp: table_entry_def find_Some_iff)
next
  assume ok: "table_ok t" and e: "e \<in> set t \<and> fte_key e = k"
  then obtain e' where e': "table_entry t k = Some e'"
    using find_None_iff [of "\<lambda>x. fte_key x = k" t] by (cases "table_entry t k") (auto simp: table_entry_def)
  then have "e' \<in> set t" "fte_key e' = k" by (auto simp: table_entry_def find_Some_iff)
  with e' e ok show "table_entry t k = Some e" using table_ok_subset_key by blast
qed

lemma table_entry_None: "table_entry t k = None \<longleftrightarrow> k \<notin> fte_key ` set t"
  by (auto simp: table_entry_def find_None_iff)

lemma table_entry_set_cong:
  assumes "table_ok t" "table_ok u" "set t = set u" shows "table_entry t k = table_entry u k"
proof (cases "table_entry u k")
  case None
  then show ?thesis using assms(3) table_entry_None [of u k] table_entry_None [of t k] by simp
next
  case (Some e)
  then have "e \<in> set t \<and> fte_key e = k" using table_entry_Some [OF assms(2)] assms(3) by simp
  then have "table_entry t k = Some e" using table_entry_Some [OF assms(1)] by simp
  with Some show ?thesis by simp
qed

section \<open>What each operation does to the entries\<close>

lemma add_scan_out_port: "fte_out_port f = None \<Longrightarrow> fte_matches K f e True \<longleftrightarrow> fte_key f = fte_key e"
  by (simp add: fte_matches_def out_port_matches_def matches_match_key)

lemma add_scan_result:
  assumes "fte_out_port f = None" and "table_ok table" and "set rest \<subseteq> set table"
    and "add_scan K f rest table = Inr t"
  shows "t = (if fte_key f \<in> fte_key ` set rest then filter (\<lambda>x. fte_key x \<noteq> fte_key f) table else table)"
  using assms(3,4)
proof (induction rest)
  case Nil
  then show ?case by simp
next
  case (Cons e rest)
  show ?case
  proof (cases "fte_key f = fte_key e")
    case True
    then show ?thesis using Cons.prems remove_fte_filter [OF assms(2), of e] assms(1)
      by (auto simp: add_scan_out_port)
  next
    case False
    then show ?thesis using Cons assms(1) by (auto simp: add_scan_out_port split: if_splits)
  qed
qed

lemma table_add_result:
  assumes "fte_out_port f = None" and "table_ok table" and "table_add K table f = Inr t"
  shows "t = filter (\<lambda>x. fte_key x \<noteq> fte_key f) table @ [f]"
proof -
  from assms(3) obtain u where u: "add_scan K f table table = Inr u" and t: "t = u @ [f]"
    by (auto simp: table_add_def bindE_Inr)
  have "filter (\<lambda>x. fte_key x \<noteq> fte_key f) table = table" if "fte_key f \<notin> fte_key ` set table"
    using that by (intro filter_True) (metis imageI)
  with add_scan_result [OF assms(1,2) order_refl u]
  have "u = filter (\<lambda>x. fte_key x \<noteq> fte_key f) table" by (metis (no_types, lifting))
  with t show ?thesis by simp
qed

lemma foldl_remove_filter:
  assumes "table_ok t" and "set es \<subseteq> set t" and "distinct (map fte_key es)"
  shows "foldl (\<lambda>t e. remove_fte e t) t es = filter (\<lambda>x. fte_key x \<notin> fte_key ` set es) t"
  using assms
proof (induction es arbitrary: t)
  case Nil
  then show ?case by simp
next
  case (Cons e es)
  have r: "remove_fte e t = filter (\<lambda>x. fte_key x \<noteq> fte_key e) t"
    using Cons.prems by (intro remove_fte_filter) auto
  have "\<forall>x \<in> set es. fte_key x \<noteq> fte_key e" using Cons.prems(3) by (auto simp: image_iff)
  then have "set es \<subseteq> set (remove_fte e t)" using Cons.prems unfolding r by auto
  then have "foldl (\<lambda>t e. remove_fte e t) (remove_fte e t) es =
      filter (\<lambda>x. fte_key x \<notin> fte_key ` set es) (remove_fte e t)"
    using Cons.prems table_ok_filter unfolding r by (intro Cons.IH) auto
  then show ?case by (simp add: r conj_commute)
qed

lemma table_del_result:
  assumes "table_ok t"
  shows "table_del K t f = filter (\<lambda>e. \<not> fte_matches K f e False) t"
proof -
  let ?R = "filter (\<lambda>e. fte_matches K f e False) t"
  have "table_del K t f = filter (\<lambda>x. fte_key x \<notin> fte_key ` set ?R) t"
    unfolding table_del_def using table_ok_filter [OF assms]
    by (intro foldl_remove_filter [OF assms]) (auto simp: table_ok_def)
  also have "\<dots> = filter (\<lambda>e. \<not> fte_matches K f e False) t"
    using table_ok_subset_key [OF assms] by (intro filter_cong refl) (auto simp: image_iff)
  finally show ?thesis .
qed

lemma del_strict_scan_result:
  assumes "table_ok table" and "set rest \<subseteq> set table"
  shows "del_strict_scan K f rest table =
     filter (\<lambda>e. \<not> (e \<in> set rest \<and> fte_matches K f e True)) table"
  using assms(2)
proof (induction rest)
  case Nil
  then show ?case by simp
next
  case (Cons e rest)
  show ?case
  proof (cases "fte_matches K f e True")
    case True
    have key: "fte_key x = fte_key e" if "fte_matches K f x True" for x
      using True that by (simp add: fte_matches_def matches_match_key split: if_splits)
    have "fte_key x \<noteq> fte_key e \<longleftrightarrow> \<not> (x \<in> set (e # rest) \<and> fte_matches K f x True)" if x: "x \<in> set table" for x
    proof
      show "fte_key x \<noteq> fte_key e \<Longrightarrow> \<not> (x \<in> set (e # rest) \<and> fte_matches K f x True)" using key by blast
      assume no: "\<not> (x \<in> set (e # rest) \<and> fte_matches K f x True)"
      show "fte_key x \<noteq> fte_key e"
      proof
        assume "fte_key x = fte_key e"
        then have "x = e" using table_ok_subset_key [OF assms(1) x] Cons.prems by auto
        with no True show False by simp
      qed
    qed
    then show ?thesis using True Cons.prems remove_fte_filter [OF assms(1), of e]
      by (auto intro!: filter_cong)
  next
    case False
    then have "x \<in> set (e # rest) \<and> fte_matches K f x True \<longleftrightarrow> x \<in> set rest \<and> fte_matches K f x True" for x by auto
    with False Cons show ?thesis by simp
  qed
qed

lemma table_del_strict_result:
  "table_ok t \<Longrightarrow> table_del_strict K t f = filter (\<lambda>e. \<not> fte_matches K f e True) t"
  unfolding table_del_strict_def by (subst del_strict_scan_result) (auto intro!: filter_cong)

lemma table_modify_strict_result:
  "table_ok t \<Longrightarrow> table_modify_strict K t f =
     map (\<lambda>e. if fte_matches K f e True then e\<lparr>fte_instructions := fte_instructions f\<rparr> else e) t"
proof (induction t)
  case Nil
  then show ?case by simp
next
  case (Cons e t)
  show ?case
  proof (cases "fte_matches K f e True")
    case True
    then have "fte_key f = fte_key e" by (auto simp: fte_matches_def matches_match_key split: if_splits)
    then have "\<forall>x \<in> set t. \<not> fte_matches K f x True"
      using Cons.prems by (auto simp: fte_matches_def matches_match_key table_ok_def image_iff)
    with True show ?thesis by (simp cong: map_cong)
  next
    case False
    with Cons show ?thesis by (simp add: table_ok_def)
  qed
qed

lemma fte_key_modified [simp]: "fte_key (e\<lparr>fte_instructions := i\<rparr>) = fte_key e"
  by (simp add: fte_key_def)

section \<open>The flow table as a map\<close>

text \<open>
  The abstract table maps an entry's identity to the entry. An addition overwrites the entry with
  its identity, a delete clears the entries it matches, a modify changes the instructions of those.
\<close>

type_synonym abs_table = "int \<times> (string \<Rightarrow> (int \<times> int) option) \<Rightarrow> fte option"

fun abs_handler :: "ofp \<Rightarrow> flow_command \<Rightarrow> fte \<Rightarrow> abs_table \<Rightarrow> abs_table" where
  "abs_handler K OFPFC_ADD f m = m(fte_key f \<mapsto> f)"
| "abs_handler K OFPFC_DELETE f m =
     (\<lambda>k. case m k of None \<Rightarrow> None | Some e \<Rightarrow> if fte_matches K f e False then None else Some e)"
| "abs_handler K OFPFC_DELETE_STRICT f m =
     (\<lambda>k. case m k of None \<Rightarrow> None | Some e \<Rightarrow> if fte_matches K f e True then None else Some e)"
| "abs_handler K OFPFC_MODIFY f m =
     (\<lambda>k. case m k of None \<Rightarrow> None
        | Some e \<Rightarrow> Some (if fte_matches K f e False then e\<lparr>fte_instructions := fte_instructions f\<rparr> else e))"
| "abs_handler K OFPFC_MODIFY_STRICT f m =
     (\<lambda>k. case m k of None \<Rightarrow> None
        | Some e \<Rightarrow> Some (if fte_matches K f e True then e\<lparr>fte_instructions := fte_instructions f\<rparr> else e))"

lemma table_entry_filter:
  assumes "table_ok t"
  shows "table_entry (filter P t) k = (case table_entry t k of None \<Rightarrow> None | Some e \<Rightarrow> if P e then Some e else None)"
proof (cases "table_entry t k")
  case None
  then have "table_entry (filter P t) k = None" by (auto simp: table_entry_None)
  with None show ?thesis by simp
next
  case (Some e)
  then have e: "e \<in> set t" "fte_key e = k" using table_entry_Some [OF assms] by auto
  show ?thesis
  proof (cases "P e")
    case True
    then have "table_entry (filter P t) k = Some e" using e table_entry_Some [OF table_ok_filter [OF assms]] by simp
    with Some True show ?thesis by simp
  next
    case False
    then have "k \<notin> fte_key ` set (filter P t)" using e table_ok_subset_key [OF assms] by auto
    then have "table_entry (filter P t) k = None" using table_entry_None by blast
    with Some False show ?thesis by simp
  qed
qed

lemma table_entry_map:
  assumes "table_ok t" and "\<And>e. fte_key (g e) = fte_key e"
  shows "table_ok (map g t)" and "table_entry (map g t) k = map_option g (table_entry t k)"
proof -
  have "map fte_key (map g t) = map fte_key t" by (simp add: assms(2))
  then show ok: "table_ok (map g t)" using assms(1) by (simp only: table_ok_def)
  show "table_entry (map g t) k = map_option g (table_entry t k)"
  proof (cases "table_entry t k")
    case None
    then have "table_entry (map g t) k = None" by (auto simp: table_entry_None assms(2))
    with None show ?thesis by simp
  next
    case (Some e)
    then have "e \<in> set t" "fte_key e = k" using table_entry_Some [OF assms(1)] by auto
    then have "table_entry (map g t) k = Some (g e)" using table_entry_Some [OF ok] assms(2) by auto
    with Some show ?thesis by simp
  qed
qed

lemma table_entry_snoc:
  assumes "table_ok t" and "fte_key f \<notin> fte_key ` set t"
  shows "table_ok (t @ [f])" and "table_entry (t @ [f]) = (table_entry t)(fte_key f \<mapsto> f)"
proof -
  show ok: "table_ok (t @ [f])" using assms by (auto simp: table_ok_def)
  show "table_entry (t @ [f]) = (table_entry t)(fte_key f \<mapsto> f)"
  proof
    fix k
    have "find P (xs @ [x]) = (case find P xs of None \<Rightarrow> if P x then Some x else None | Some y \<Rightarrow> Some y)"
      for P :: "fte \<Rightarrow> bool" and xs x by (induction xs) auto
    moreover have "table_entry t (fte_key f) = None" using assms(2) table_entry_None by blast
    ultimately show "table_entry (t @ [f]) k = ((table_entry t)(fte_key f \<mapsto> f)) k"
      by (auto simp: table_entry_def split: option.splits)
  qed
qed

lemma handler_refines:
  assumes "table_ok t" and "cmd = OFPFC_ADD \<Longrightarrow> fte_out_port f = None"
    and "flowmod_handler K cmd t f = Inr t'"
  shows "table_ok t' \<and> table_entry t' = abs_handler K cmd f (table_entry t)"
proof (cases cmd)
  case OFPFC_ADD
  with assms have t': "t' = filter (\<lambda>x. fte_key x \<noteq> fte_key f) t @ [f]"
    by (intro table_add_result) (auto simp: flowmod_handler_def)
  have ok: "table_ok (filter (\<lambda>x. fte_key x \<noteq> fte_key f) t)" by (rule table_ok_filter [OF assms(1)])
  have "fte_key f \<notin> fte_key ` set (filter (\<lambda>x. fte_key x \<noteq> fte_key f) t)" by auto
  note snoc = table_entry_snoc [OF ok this]
  have "(table_entry (filter (\<lambda>x. fte_key x \<noteq> fte_key f) t))(fte_key f \<mapsto> f) = (table_entry t)(fte_key f \<mapsto> f)"
  proof
    fix k
    show "((table_entry (filter (\<lambda>x. fte_key x \<noteq> fte_key f) t))(fte_key f \<mapsto> f)) k = ((table_entry t)(fte_key f \<mapsto> f)) k"
      using table_entry_Some [OF assms(1), of k "the (table_entry t k)"]
      by (cases "k = fte_key f"; cases "table_entry t k") (auto simp: table_entry_filter [OF assms(1)])
  qed
  with snoc OFPFC_ADD t' show ?thesis by simp
next
  case OFPFC_DELETE
  with assms(3) have "t' = filter (\<lambda>e. \<not> fte_matches K f e False) t"
    by (simp add: flowmod_handler_def table_del_result [OF assms(1)])
  with OFPFC_DELETE show ?thesis
    by (auto simp: table_ok_filter [OF assms(1)] table_entry_filter [OF assms(1)] fun_eq_iff split: option.splits)
next
  case OFPFC_DELETE_STRICT
  with assms(3) have "t' = filter (\<lambda>e. \<not> fte_matches K f e True) t"
    by (simp add: flowmod_handler_def table_del_strict_result [OF assms(1)])
  with OFPFC_DELETE_STRICT show ?thesis
    by (auto simp: table_ok_filter [OF assms(1)] table_entry_filter [OF assms(1)] fun_eq_iff split: option.splits)
next
  case OFPFC_MODIFY
  with assms(3) have "t' = map (\<lambda>e. if fte_matches K f e False then e\<lparr>fte_instructions := fte_instructions f\<rparr> else e) t"
    by (simp add: flowmod_handler_def table_modify_def)
  with OFPFC_MODIFY show ?thesis
    by (auto simp: table_entry_map [OF assms(1)] fun_eq_iff split: option.splits)
next
  case OFPFC_MODIFY_STRICT
  with assms(3) have "t' = map (\<lambda>e. if fte_matches K f e True then e\<lparr>fte_instructions := fte_instructions f\<rparr> else e) t"
    by (simp add: flowmod_handler_def table_modify_strict_result [OF assms(1)])
  with OFPFC_MODIFY_STRICT show ?thesis
    by (auto simp: table_entry_map [OF assms(1)] fun_eq_iff split: option.splits)
qed

section \<open>The interface of a flow table\<close>

text \<open>
  What the rest of the development relies on: the operations on a table act on its entries as the
  abstract handler says and keep it well-formed. The lemmas say what a sequence of additions, or a
  delete, leaves behind.
\<close>

locale flow_store =
  fixes K :: ofp
    and handle :: "flow_command \<Rightarrow> 't \<Rightarrow> fte \<Rightarrow> err + 't"
    and entry :: "'t \<Rightarrow> abs_table"
    and ok :: "'t \<Rightarrow> bool"
  assumes handle_ok: "ok t \<Longrightarrow> (cmd = OFPFC_ADD \<Longrightarrow> fte_out_port f = None) \<Longrightarrow> handle cmd t f = Inr t' \<Longrightarrow> ok t'"
    and handle_entry: "ok t \<Longrightarrow> (cmd = OFPFC_ADD \<Longrightarrow> fte_out_port f = None) \<Longrightarrow> handle cmd t f = Inr t' \<Longrightarrow>
      entry t' = abs_handler K cmd f (entry t)"
begin

lemma add_then_entry:
  "ok t \<Longrightarrow> fte_out_port f = None \<Longrightarrow> handle OFPFC_ADD t f = Inr t' \<Longrightarrow> entry t' (fte_key f) = Some f"
  using handle_entry [of t OFPFC_ADD f t'] by simp

lemma add_other_entry:
  "ok t \<Longrightarrow> fte_out_port f = None \<Longrightarrow> handle OFPFC_ADD t f = Inr t' \<Longrightarrow> k \<noteq> fte_key f \<Longrightarrow> entry t' k = entry t k"
  using handle_entry [of t OFPFC_ADD f t'] by simp

lemma deleted_no_match:
  "ok t \<Longrightarrow> handle OFPFC_DELETE t f = Inr t' \<Longrightarrow> entry t' k = Some e \<Longrightarrow> \<not> fte_matches K f e False"
  using handle_entry [of t OFPFC_DELETE f t'] by (auto split: option.splits if_splits)

lemma deleted_keeps:
  "ok t \<Longrightarrow> handle OFPFC_DELETE t f = Inr t' \<Longrightarrow> entry t k = Some e \<Longrightarrow> \<not> fte_matches K f e False \<Longrightarrow> entry t' k = Some e"
  using handle_entry [of t OFPFC_DELETE f t'] by simp

lemma delete_shrinks: "ok t \<Longrightarrow> handle OFPFC_DELETE t f = Inr t' \<Longrightarrow> entry t' k = Some e \<Longrightarrow> entry t k = Some e"
  using handle_entry [of t OFPFC_DELETE f t'] by (auto split: option.splits if_splits)

lemma adds_entry:
  assumes "ok t" and "\<forall>f \<in> set fs. fte_out_port f = None"
    and "foldE (\<lambda>f t. handle OFPFC_ADD t f) fs t = Inr t'"
  shows "ok t' \<and> entry t' k = (case find (\<lambda>f. fte_key f = k) (rev fs) of None \<Rightarrow> entry t k | Some f \<Rightarrow> Some f)"
  using assms
proof (induction fs arbitrary: t' rule: rev_induct)
  case Nil
  then show ?case by simp
next
  case (snoc f fs)
  from snoc.prems(3) obtain u where u: "foldE (\<lambda>f t. handle OFPFC_ADD t f) fs t = Inr u"
    and t': "handle OFPFC_ADD u f = Inr t'" by (auto simp: bindE_Inr)
  from snoc.IH [OF snoc.prems(1) _ u] snoc.prems(2)
  have IH: "ok u" "entry u k = (case find (\<lambda>f. fte_key f = k) (rev fs) of None \<Rightarrow> entry t k | Some f \<Rightarrow> Some f)"
    by simp_all
  have f: "fte_out_port f = None" using snoc.prems(2) by simp
  then have "ok t'" using handle_ok [OF IH(1) _ t'] by simp
  moreover have "entry t' k = (if k = fte_key f then Some f else entry u k)"
    using add_then_entry [OF IH(1) f t'] add_other_entry [OF IH(1) f t'] by auto
  ultimately show ?case using IH(2) by auto
qed

end

interpretation flow_table: flow_store K "flowmod_handler K" table_entry table_ok for K
  by unfold_locales (use handler_refines in blast)+

section \<open>Well-formed switches\<close>

text \<open>Every table is well-formed, and sorted by descending priority.\<close>

definition switch_ok :: "switch \<Rightarrow> bool" where
  "switch_ok s \<longleftrightarrow> (\<forall>t \<in> set (sw_tables s). table_ok t)"

definition switch_sorted :: "switch \<Rightarrow> bool" where
  "switch_sorted s \<longleftrightarrow> (\<forall>t \<in> set (sw_tables s). sorted_wrt (\<lambda>e f. fte_priority f \<le> fte_priority e) t)"

lemma sort_table_ok [simp]: "table_ok (sort_table t) = table_ok t"
proof -
  have "mset (map fte_key (sort_table t)) = mset (map fte_key t)" by (simp add: sort_table_def)
  then show ?thesis unfolding table_ok_def by (metis mset_eq_imp_distinct_iff)
qed

lemma sort_table_set [simp]: "set (sort_table t) = set t"
  by (simp add: sort_table_def)

lemma sort_table_entry [simp]: "table_ok t \<Longrightarrow> table_entry (sort_table t) = table_entry t"
  by (rule ext) (rule table_entry_set_cong; simp)

lemma sort_table_sorted: "sorted_wrt (\<lambda>e f. fte_priority f \<le> fte_priority e) (sort_table t)"
proof -
  have "sorted (map (\<lambda>f. - fte_priority f) (sort_table t))" by (simp add: sort_table_def)
  then show ?thesis by (simp add: sorted_map)
qed

lemma fte_of_flowmod_out_port:
  "fte_of_flowmod K conv m = Inr f \<Longrightarrow> fm_command m = OFPFC_ADD \<Longrightarrow> fte_out_port f = None"
  by (auto simp: fte_of_flowmod_def bindE_Inr)

lemma addressed_tables_bound: "addressed_tables K t s = Inr is \<Longrightarrow> i \<in> set is \<Longrightarrow> i < length (sw_tables s)"
  by (auto simp: addressed_tables_def Let_def split: if_splits)

lemma addressed_tables_distinct: "addressed_tables K t s = Inr is \<Longrightarrow> distinct is"
  by (auto simp: addressed_tables_def Let_def split: if_splits)

lemma handle_tables_ok:
  assumes "cmd = OFPFC_ADD \<Longrightarrow> fte_out_port f = None" and "\<forall>t \<in> set tables. table_ok t"
    and "\<forall>i \<in> set is. i < length tables"
  shows "(\<forall>t \<in> set (snd (handle_tables K cmd f is tables)). table_ok t) \<and>
    length (snd (handle_tables K cmd f is tables)) = length tables"
  using assms(2,3)
proof (induction "is" arbitrary: tables)
  case Nil
  then show ?case by simp
next
  case (Cons i "is")
  show ?case
  proof (cases "flowmod_handler K cmd (tables ! i) f")
    case (Inl e)
    with Cons.prems show ?thesis by simp
  next
    case (Inr t)
    have "table_ok (tables ! i)" using Cons.prems by simp
    then have "table_ok t" using handler_refines [OF _ assms(1) Inr] by blast
    then have "\<forall>t \<in> set (tables[i := t]). table_ok t"
      using Cons.prems(1) set_update_subset_insert by fastforce
    with Cons.IH [of "tables[i := t]"] Cons.prems(2) Inr show ?thesis by simp
  qed
qed

lemma apply_flowmod_ok:
  assumes "switch_ok s" shows "switch_ok (snd (apply_flowmod K conv m s))"
proof (cases "\<exists>is f. addressed_tables K (fm_table_id m) s = Inr is \<and> fte_of_flowmod K conv m = Inr f")
  case True
  then obtain "is" f where i: "addressed_tables K (fm_table_id m) s = Inr is" and f: "fte_of_flowmod K conv m = Inr f"
    by blast
  have "\<forall>t \<in> set (snd (handle_tables K (fm_command m) f is (sw_tables s))). table_ok t"
    using handle_tables_ok [of "fm_command m" f "sw_tables s" "is" K] fte_of_flowmod_out_port [OF f]
      addressed_tables_bound [OF i] assms
    unfolding switch_ok_def by blast
  then show ?thesis using assms i f
    by (auto simp: apply_flowmod_def switch_ok_def split: sum.splits prod.splits option.splits)
next
  case False
  then show ?thesis using assms by (auto simp: apply_flowmod_def split: sum.splits)
qed

lemma apply_groupmod_tables [simp]: "sw_tables (snd (apply_groupmod K g s)) = sw_tables s"
  by (auto simp: apply_groupmod_def Let_def split: group_command.splits)

lemma sort_tables_ok: "switch_ok s \<Longrightarrow> switch_ok (sort_tables s)"
  by (auto simp: switch_ok_def sort_tables_def)

lemma sort_tables_sorted: "switch_sorted (sort_tables s)"
  by (auto simp: switch_sorted_def sort_tables_def sort_table_sorted)

lemma apply_ofmsg_ok: "switch_ok s \<Longrightarrow> switch_ok (snd (apply_ofmsg K conv m s))"
proof (cases m)
  case (FlowModMsg fm)
  assume "switch_ok s"
  then have "switch_ok (snd (apply_flowmod K conv fm s))" by (rule apply_flowmod_ok)
  with FlowModMsg show ?thesis
    by (auto simp: apply_ofmsg_def sort_tables_ok split: prod.splits option.splits)
qed (auto simp: apply_ofmsg_def switch_ok_def apply_tfm_def)

lemma apply_ofmsg_sorted:
  "apply_ofmsg K conv m s = (None, s') \<Longrightarrow> switch_sorted s \<Longrightarrow> switch_sorted s'"
proof (cases m)
  case (GroupModMsg g)
  assume "apply_ofmsg K conv m s = (None, s')" "switch_sorted s"
  then show ?thesis using GroupModMsg apply_groupmod_tables [of K g s]
    by (simp add: apply_ofmsg_def switch_sorted_def)
qed (auto simp: apply_ofmsg_def switch_sorted_def apply_tfm_def sort_tables_sorted [unfolded switch_sorted_def]
      split: prod.splits option.splits)

lemma switch_ok_run:
  "switch_ok s \<Longrightarrow> switch_ok (snd (apply_ofmsgs K conv ign ms s))"
proof (induction ms arbitrary: s)
  case Nil
  then show ?case by simp
next
  case (Cons m ms)
  have ok: "switch_ok (snd (apply_ofmsg K conv m s))" by (rule apply_ofmsg_ok [OF Cons.prems])
  obtain r s' where r: "apply_ofmsg K conv m s = (r, s')" by (cases "apply_ofmsg K conv m s")
  with ok Cons.IH show ?case by (cases r) auto
qed

lemma switch_sorted_run:
  "switch_sorted s \<Longrightarrow> apply_ofmsgs K conv False ms s = (None, s') \<Longrightarrow> switch_sorted s'"
proof (induction ms arbitrary: s)
  case Nil
  then show ?case by simp
next
  case (Cons m ms)
  obtain r u where u: "apply_ofmsg K conv m s = (r, u)" by (cases "apply_ofmsg K conv m s")
  with Cons.prems(2) have "r = None" by (cases r) auto
  with u have "switch_sorted u" using apply_ofmsg_sorted Cons.prems(1) by blast
  moreover have "apply_ofmsgs K conv False ms u = (None, s')" using Cons.prems(2) u \<open>r = None\<close> by simp
  ultimately show ?case by (rule Cons.IH)
qed

lemma new_switch_ok [simp]: "switch_ok (new_switch n tfm)" "switch_sorted (new_switch n tfm)"
  by (auto simp: switch_ok_def switch_sorted_def new_switch_def table_ok_def)

section \<open>Lookups\<close>

lemma pkt_matches_items_True:
  "pkt_matches_items conv items pkt = Inr True \<longleftrightarrow>
     (\<forall>(key, val, m) \<in> set items. \<exists>v b. dict_get pkt key = Some v \<and> match_to_bits conv key v = Inr b \<and> and b m = and val m)"
proof (induction items)
  case Nil
  then show ?case by simp
next
  case (Cons item items)
  obtain key val m where item: "item = (key, val, m)" by (metis surj_pair)
  show ?case
  proof (cases "dict_get pkt key")
    case None
    then show ?thesis by (simp add: item)
  next
    case (Some v)
    then show ?thesis using Cons by (cases "match_to_bits conv key v") (auto simp: item)
  qed
qed

lemma table_lookup_sound:
  "table_lookup conv pkt t = Inr (Some e) \<Longrightarrow>
     \<exists>pre post. t = pre @ e # post \<and> pkt_matches conv e pkt = Inr True \<and> (\<forall>x \<in> set pre. pkt_matches conv x pkt = Inr False)"
proof (induction t)
  case Nil
  then show ?case by simp
next
  case (Cons x t)
  then obtain b where b: "pkt_matches conv x pkt = Inr b" by (auto simp: bindE_Inr)
  show ?case
  proof (cases b)
    case True
    with Cons.prems b show ?thesis by (intro exI [of _ "[]"] exI [of _ t]) simp
  next
    case False
    with Cons.prems b obtain pre post where "t = pre @ e # post" "pkt_matches conv e pkt = Inr True"
        "\<forall>x \<in> set pre. pkt_matches conv x pkt = Inr False"
      using Cons.IH by auto
    with False b show ?thesis by (intro exI [of _ "x # pre"] exI [of _ post]) auto
  qed
qed

lemma table_lookup_miss:
  "table_lookup conv pkt t = Inr None \<Longrightarrow> x \<in> set t \<Longrightarrow> pkt_matches conv x pkt = Inr False"
  by (induction t) (auto simp: bindE_Inr split: if_splits)

text \<open>The entry a packet matches in a table is one of the highest priority among those that match
  it.\<close>

lemma lookup_highest:
  assumes "switch_sorted s" and "i < length (sw_tables s)"
    and "single_table_lookup conv s pkt i = Inr (Some e)"
  shows "e \<in> set (sw_tables s ! i) \<and> pkt_matches conv e pkt = Inr True \<and>
    (\<forall>x \<in> set (sw_tables s ! i). pkt_matches conv x pkt = Inr True \<longrightarrow> fte_priority x \<le> fte_priority e)"
proof -
  let ?t = "sw_tables s ! i"
  have "table_lookup conv pkt ?t = Inr (Some e)" using assms(2,3) by (simp add: single_table_lookup_def)
  from table_lookup_sound [OF this] obtain pre post where t: "?t = pre @ e # post"
      and e: "pkt_matches conv e pkt = Inr True" and pre: "\<forall>x \<in> set pre. pkt_matches conv x pkt = Inr False"
    by blast
  have "sorted_wrt (\<lambda>e f. fte_priority f \<le> fte_priority e) ?t"
    using assms(1,2) by (simp add: switch_sorted_def)
  then have "\<forall>x \<in> set post. fte_priority x \<le> fte_priority e" by (simp add: t sorted_wrt_append)
  with t e pre show ?thesis by auto
qed

section \<open>The pipeline\<close>

lemma pipeline_run_loop:
  "pipeline_run K conv fuel s pkt table_id acc =
     bindE (get_table_output K conv fuel s pkt table_id) (\<lambda>(outs, pkt', next_table).
       case next_table of
         None \<Rightarrow> Inr (dict_set table_id outs acc)
       | Some t \<Rightarrow> pipeline_run K conv fuel s pkt' t (dict_set table_id outs acc))"
  by (subst pipeline_run.simps) (simp add: bindE_def split: sum.splits option.splits prod.splits)

lemma dict_keys_snoc: "k \<notin> set (dict_keys d) \<Longrightarrow> dict_keys (dict_set k v d) = dict_keys d @ [k]"
  using update_new [of d k v] by (simp add: dict_keys_def dict_set_def map_of_eq_None_iff)

lemma pipeline_run_tables:
  assumes "pipeline_run K conv fuel s pkt table_id acc = Inr r"
    and "sorted_wrt (<) (dict_keys acc)" and "\<forall>k \<in> set (dict_keys acc). k < table_id"
  shows "sorted_wrt (<) (dict_keys r) \<and> (\<exists>ks. dict_keys r = dict_keys acc @ table_id # ks) \<and>
    (\<forall>k \<in> set (dict_keys r) - set (dict_keys acc). k < length (sw_tables s))"
  using assms
proof (induction K conv fuel s pkt table_id acc rule: pipeline_run.induct)
  case (1 K conv fuel s pkt table_id acc)
  from "1.prems"(1) obtain outs pkt' nt where g: "get_table_output K conv fuel s pkt table_id = Inr (outs, pkt', nt)"
    by (subst (asm) pipeline_run_loop) (auto simp: bindE_Inr)
  have notin: "table_id \<notin> set (dict_keys acc)" using "1.prems"(3) by auto
  note keys = dict_keys_snoc [OF notin, of outs]
  have bound: "table_id < length (sw_tables s)" by (rule get_table_output_bound [OF g])
  show ?case
  proof (cases nt)
    case None
    with "1.prems"(1) g have "r = dict_set table_id outs acc" by (subst (asm) pipeline_run_loop) simp
    with keys bound "1.prems" show ?thesis by (auto simp: sorted_wrt_append)
  next
    case (Some t)
    with g have t: "table_id < t" using get_table_output_next by blast
    from Some "1.prems"(1) g have run: "pipeline_run K conv fuel s pkt' t (dict_set table_id outs acc) = Inr r"
      by (subst (asm) pipeline_run_loop) simp
    have "sorted_wrt (<) (dict_keys (dict_set table_id outs acc))" and "\<forall>k \<in> set (dict_keys (dict_set table_id outs acc)). k < t"
      using keys "1.prems"(2,3) t by (auto simp: sorted_wrt_append)
    from "1.IH" [OF g refl refl Some run this] t bound keys show ?thesis by auto
  qed
qed

lemma sorted_below: "sorted_wrt (<) ns \<Longrightarrow> \<forall>k \<in> set ns. k < n \<Longrightarrow> length ns \<le> (n :: nat)"
  using card_mono [of "{..<n}" "set ns"] by (auto simp: distinct_card strict_sorted_iff)

text \<open>C36. A packet that no error stops goes through the tables of the switch from table 0 in strictly
  increasing order, so through each at most once and through at most as many as there are: the loop
  that follows its goto instructions ends.\<close>

lemma pipeline_tables:
  assumes "get_output K conv fuel s pkt = Inr r"
  shows "sorted_wrt (<) (dict_keys r) \<and> (\<exists>ks. dict_keys r = 0 # ks) \<and> (\<forall>k \<in> set (dict_keys r). k < length (sw_tables s)) \<and>
    length (dict_keys r) \<le> length (sw_tables s)"
  using pipeline_run_tables [of K conv fuel s pkt 0 "[]" r] sorted_below [of "dict_keys r" "length (sw_tables s)"] assms
  by (simp add: get_output_def dict_keys_def)

section \<open>Overlap\<close>

lemma and_and_self: "and (and a m) m = and a (m :: int)"
  by (simp add: and.assoc)

lemma match_bits_masked:
  assumes "match_bits conv items = Inr d" shows "dict_ok d \<and> (\<forall>(key, val, m) \<in> set d. and val m = val)"
proof -
  have "dict_ok d \<and> (\<forall>key val m. dict_get d key = Some (val, m) \<longrightarrow> and val m = val)"
    by (rule foldE_invariant [OF assms [unfolded match_bits_def],
          where P = "\<lambda>d. dict_ok d \<and> (\<forall>key val m. dict_get d key = Some (val, m) \<longrightarrow> and val m = val)"])
      (auto simp: bindE_Inr and_and_self split: prod.splits if_splits)
  then show ?thesis by (auto simp: dict_ok_in)
qed

lemma fte_masked:
  assumes "fte_of_flowmod K conv m = Inr f"
  shows "dict_ok (fte_match f) \<and> (\<forall>(key, val, m) \<in> set (fte_match f). and val m = val)"
proof -
  from assms obtain d where "match_bits conv (fm_match m) = Inr d" and "fte_match f = d"
    by (auto simp: fte_of_flowmod_def bindE_Inr)
  then show ?thesis using match_bits_masked by simp
qed

lemma overlap_equal_masks:
  assumes "fte_of_flowmod K conv m1 = Inr f" and "fte_of_flowmod K conv m2 = Inr e"
    and "fte_priority f = fte_priority e"
    and "\<forall>key v v' m m'. dict_get (fte_match f) key = Some (v, m) \<and> dict_get (fte_match e) key = Some (v', m') \<longrightarrow> m = m'"
    and "pkt_matches conv f pkt = Inr True" and "pkt_matches conv e pkt = Inr True"
  shows "fte_overlaps f e"
proof -
  note wf = fte_masked [OF assms(1)] fte_masked [OF assms(2)]
  have "case dict_get (fte_match e) key of None \<Rightarrow> True | Some (oval, om) \<Rightarrow> and val om = oval \<and> and oval m = val"
    if f: "(key, val, m) \<in> set (fte_match f)" for key val m
  proof (cases "dict_get (fte_match e) key")
    case None
    then show ?thesis by simp
  next
    case (Some vm)
    obtain oval om where vm: "vm = (oval, om)" by (metis surj_pair)
    from Some vm have e: "(key, oval, om) \<in> set (fte_match e)" by (simp add: dict_get_Some_in)
    from f wf(1) have "dict_get (fte_match f) key = Some (val, m)" by (simp add: dict_ok_in)
    with assms(4) Some vm have "m = om" by blast
    moreover from assms(5) f have "\<exists>v b. dict_get pkt key = Some v \<and> match_to_bits conv key v = Inr b \<and> and b m = and val m"
      unfolding pkt_matches_def pkt_matches_items_True by fast
    moreover from assms(6) e have "\<exists>v b. dict_get pkt key = Some v \<and> match_to_bits conv key v = Inr b \<and> and b om = and oval om"
      unfolding pkt_matches_def pkt_matches_items_True by fast
    ultimately have "and val m = and oval om" by auto
    with wf f e have "val = oval" by fastforce
    with wf f e \<open>m = om\<close> Some vm show ?thesis by fastforce
  qed
  then show ?thesis using assms(3) by (auto simp: fte_overlaps_def)
qed

text \<open>Two entries that match different bits of one field: \<open>overlaps\<close> does not see the packet that matches both.\<close>

definition overlap_left :: fte where
  "overlap_left = \<lparr>fte_priority = 1, fte_cookie = 0, fte_instructions = [], fte_match = [(''metadata'', (2, 2))], fte_out_port = None\<rparr>"

definition overlap_right :: fte where
  "overlap_right = \<lparr>fte_priority = 1, fte_cookie = 0, fte_instructions = [], fte_match = [(''metadata'', (1, 1))], fte_out_port = None\<rparr>"

lemma overlaps_misses:
  "\<exists>pkt. pkt_matches conv overlap_left pkt = Inr True \<and> pkt_matches conv overlap_right pkt = Inr True \<and>
     fte_priority overlap_left = fte_priority overlap_right \<and> \<not> fte_overlaps overlap_left overlap_right"
  by (intro exI [of _ "[(''metadata'', MInt 3)]"])
    (simp add: overlap_left_def overlap_right_def pkt_matches_def match_to_bits_def address_field_def
      MAC_MATCH_FIELDS_def IPV4_MATCH_FIELDS_def IPV6_MATCH_FIELDS_def fte_overlaps_def dict_get_def take_bit_eq_mod)

section \<open>Messages on the whole switch\<close>

lemma handle_tables_entries:
  assumes "cmd = OFPFC_ADD \<Longrightarrow> fte_out_port f = None"
  shows "handle_tables K cmd f is tables = (None, tables') \<Longrightarrow> distinct is \<Longrightarrow> \<forall>t \<in> set tables. table_ok t \<Longrightarrow>
    \<forall>i \<in> set is. i < length tables \<Longrightarrow>
    length tables' = length tables \<and> (\<forall>t \<in> set tables'. table_ok t) \<and>
    (\<forall>i < length tables. table_entry (tables' ! i) =
       (if i \<in> set is then abs_handler K cmd f (table_entry (tables ! i)) else table_entry (tables ! i)))"
proof (induction "is" arbitrary: tables)
  case Nil
  then show ?case by simp
next
  case (Cons j "is")
  then obtain t where t: "flowmod_handler K cmd (tables ! j) f = Inr t"
    and rest: "handle_tables K cmd f is (tables[j := t]) = (None, tables')"
    by (auto split: sum.splits)
  have j: "j < length tables" "table_ok (tables ! j)" using Cons.prems by auto
  from handler_refines [OF j(2) assms t] have ok: "table_ok t"
    and e: "table_entry t = abs_handler K cmd f (table_entry (tables ! j))" by simp_all
  have "\<forall>t \<in> set (tables[j := t]). table_ok t"
    using ok Cons.prems(3) set_update_subset_insert by fastforce
  from Cons.IH [OF rest _ this] Cons.prems e j show ?case by (auto simp: nth_list_update)
qed

lemma sort_tables_entry: "switch_ok s \<Longrightarrow> i < length (sw_tables s) \<Longrightarrow>
    table_entry (sw_tables (sort_tables s) ! i) = table_entry (sw_tables s ! i)"
  by (simp add: sort_tables_def switch_ok_def)

lemma apply_flowmod_entries:
  assumes "switch_ok s" and "apply_ofmsg K conv (FlowModMsg m) s = (None, s')"
  obtains f "is" where "fte_of_flowmod K conv m = Inr f" and "addressed_tables K (fm_table_id m) s = Inr is"
    and "length (sw_tables s') = length (sw_tables s)"
    and "\<And>i. i < length (sw_tables s) \<Longrightarrow> table_entry (sw_tables s' ! i) =
       (if i \<in> set is then abs_handler K (fm_command m) f (table_entry (sw_tables s ! i)) else table_entry (sw_tables s ! i))"
proof -
  from assms(2) obtain u where u: "apply_flowmod K conv m s = (None, u)" and s': "s' = sort_tables u"
    by (auto simp: apply_ofmsg_def split: prod.splits option.splits)
  from u obtain f "is" tables where f: "fte_of_flowmod K conv m = Inr f"
    and i: "addressed_tables K (fm_table_id m) s = Inr is"
    and h: "handle_tables K (fm_command m) f is (sw_tables s) = (None, tables)"
    and tables: "sw_tables u = tables"
    by (auto simp: apply_flowmod_def split: sum.splits prod.splits option.splits if_splits)
  from handle_tables_entries [OF _ h addressed_tables_distinct [OF i]] fte_of_flowmod_out_port [OF f]
    addressed_tables_bound [OF i] assms(1)
  have "length tables = length (sw_tables s) \<and> (\<forall>t \<in> set tables. table_ok t) \<and> (\<forall>i < length (sw_tables s).
      table_entry (tables ! i) = (if i \<in> set is then abs_handler K (fm_command m) f (table_entry (sw_tables s ! i))
        else table_entry (sw_tables s ! i)))" by (simp add: switch_ok_def)
  moreover from this have "switch_ok u" by (simp add: switch_ok_def tables)
  ultimately show thesis using sort_tables_entry [of u] tables
    by (intro that [OF f i]) (simp_all add: s' sort_tables_def)
qed

text \<open>Other messages leave the tables alone.\<close>

lemma apply_other_tables: "msg_type_of m \<noteq> TFlowMod \<Longrightarrow> sw_tables (snd (apply_ofmsg K conv m s)) = sw_tables s"
  by (cases m) (auto simp: apply_ofmsg_def apply_tfm_def)

lemma apply_ofmsgs_Cons:
  "apply_ofmsgs K conv False (m # ms) s = (None, s') \<longleftrightarrow>
     (\<exists>u. apply_ofmsg K conv m s = (None, u) \<and> apply_ofmsgs K conv False ms u = (None, s'))"
  by (cases "apply_ofmsg K conv m s"; cases "fst (apply_ofmsg K conv m s)") auto

lemma apply_ofmsgs_append:
  "apply_ofmsgs K conv False (xs @ ys) s = (None, s') \<longleftrightarrow>
     (\<exists>u. apply_ofmsgs K conv False xs s = (None, u) \<and> apply_ofmsgs K conv False ys u = (None, s'))"
  by (induction xs arbitrary: s) (auto split: prod.splits option.splits)

lemma apply_ofmsgs_invariant:
  assumes "\<And>m s s'. m \<in> set ms \<Longrightarrow> P s \<Longrightarrow> apply_ofmsg K conv m s = (None, s') \<Longrightarrow> P s'"
    and "P s" and "apply_ofmsgs K conv False ms s = (None, s')"
  shows "P s'"
  using assms
proof (induction ms arbitrary: s)
  case Nil
  then show ?case by simp
next
  case (Cons m ms)
  from Cons.prems(3) obtain u where u: "apply_ofmsg K conv m s = (None, u)" "apply_ofmsgs K conv False ms u = (None, s')"
    by (auto split: prod.splits option.splits)
  have "P u" using Cons.prems(1) [OF _ Cons.prems(2) u(1)] by simp
  show ?case by (rule Cons.IH [OF _ \<open>P u\<close> u(2)]) (use Cons.prems(1) in auto)
qed

lemma handle_tables_length: "length (snd (handle_tables K cmd f is tables)) = length tables"
  by (induction "is" arbitrary: tables) (auto split: sum.splits)

lemma apply_flowmod_length: "length (sw_tables (snd (apply_flowmod K conv m s))) = length (sw_tables s)"
  using handle_tables_length [of K "fm_command m" _ _ "sw_tables s"]
  by (auto simp: apply_flowmod_def split: sum.splits prod.splits option.splits) (metis snd_conv)+

lemma apply_ofmsgs_length: "apply_ofmsgs K conv False ms s = (None, s') \<Longrightarrow> length (sw_tables s') = length (sw_tables s)"
proof (induction ms arbitrary: s)
  case Nil
  then show ?case by simp
next
  case (Cons m ms)
  then obtain u where u: "apply_ofmsg K conv m s = (None, u)" and rest: "apply_ofmsgs K conv False ms u = (None, s')"
    by (auto split: prod.splits option.splits)
  have "length (sw_tables u) = length (sw_tables s)"
  proof (cases m)
    case (FlowModMsg fm)
    with u show ?thesis using apply_flowmod_length [of K conv fm s]
      by (auto simp: apply_ofmsg_def sort_tables_def split: prod.splits option.splits)
  qed (use u apply_other_tables [of m K conv s] in auto)
  with Cons.IH [OF rest] show ?case by simp
qed

section \<open>Correctness of the switch\<close>

text \<open>C2. A flow table is a map from (priority, match) to entries: each OpenFlow flow command of the
  switch, on the list of entries it keeps, does to that map what the specification of the command
  says (add binds the key, delete and modify act on exactly the matching keys), and keeps the keys
  distinct.\<close>

lemma flow_table_refines:
  assumes "table_ok t" and "cmd = OFPFC_ADD \<longrightarrow> fte_out_port f = None"
    and "flowmod_handler K cmd t f = Inr t'"
  shows "table_ok t' \<and> table_entry t' = abs_handler K cmd f (table_entry t)"
  using handler_refines assms by blast

text \<open>After any run of messages without an error on a new switch, no table has two entries of one
  priority and match, every table is sorted by priority, and the number of tables is unchanged.\<close>

lemma switch_run_ok:
  assumes "apply_ofmsgs K conv False ms (new_switch n tfm) = (None, s')"
  shows "switch_ok s' \<and> switch_sorted s' \<and> length (sw_tables s') = n"
proof -
  have "switch_ok (snd (apply_ofmsgs K conv False ms (new_switch n tfm)))" by (rule switch_ok_run [OF new_switch_ok(1)])
  moreover have "length (sw_tables s') = n" using apply_ofmsgs_length [OF assms] by (simp add: new_switch_def)
  ultimately show ?thesis using switch_sorted_run [OF new_switch_ok(2) assms] assms by simp
qed

subsection \<open>Witnesses\<close>

text \<open>Two tables: untagged packets of port 1 get VLAN 5 and go to table 1, which outputs them to port 2.\<close>

definition example_flows :: "ofmsg list" where
  "example_flows =
     [FlowModMsg (flowmod 1 OFPFC_ADD 0 100 4294967295 4294967295 [(''in_port'', MInt 1)]
        [IApplyActions [APushVlan 33024, ASetField ''vlan_vid'' (MInt 4101)], IGotoTable 1] 0 0 0),
      FlowModMsg (flowmod 1 OFPFC_ADD 1 0 4294967295 4294967295 [] [] 0 0 0),
      FlowModMsg (flowmod 1 OFPFC_ADD 1 200 4294967295 4294967295 [(''vlan_vid'', MInt 4101)]
        [IApplyActions [AOutput 2 0]] 0 0 0)]"

definition no_text :: addrconv where
  "no_text = (\<lambda>k v. Inl ValueError)"

definition full_mask :: int where
  "full_mask = 2 ^ 64 - 1"

definition example_entry :: "int \<Rightarrow> (string \<times> int) list \<Rightarrow> instruction list \<Rightarrow> fte" where
  "example_entry priority mt insts = \<lparr>fte_priority = priority, fte_cookie = 1, fte_instructions = insts,
     fte_match = map (\<lambda>(k, v). (k, (v, full_mask))) mt, fte_out_port = None\<rparr>"

definition example_switch :: switch where
  "example_switch = (new_switch 2 False)\<lparr>sw_tables :=
     [[example_entry 100 [(''in_port'', 1)] [IApplyActions [APushVlan 33024, ASetField ''vlan_vid'' (MInt 4101)], IGotoTable 1]],
      [example_entry 200 [(''vlan_vid'', 4101)] [IApplyActions [AOutput 2 0]], example_entry 0 [] []]]\<rparr>"

definition example_pkt :: packet where
  "example_pkt = [(''in_port'', MInt 1), (''vlan_vid'', MInt 4101)]"

lemma example_run: "apply_ofmsgs of13 no_text False example_flows (new_switch 2 False) = (None, example_switch)"
  by code_simp

lemma flow_table_refines_witness:
  "table_entry [example_entry 0 [] []] = (Map.empty)(fte_key (example_entry 0 [] []) \<mapsto> example_entry 0 [] [])"
proof -
  have "flowmod_handler of13 OFPFC_ADD [] (example_entry 0 [] []) = Inr [example_entry 0 [] []]" by code_simp
  moreover have "table_entry [] = Map.empty" by (rule ext) (simp add: table_entry_def)
  ultimately show ?thesis using flow_table_refines [of "[]" OFPFC_ADD "example_entry 0 [] []" of13]
    by (simp add: table_ok_def example_entry_def)
qed

lemma switch_run_ok_witness: "switch_ok example_switch \<and> switch_sorted example_switch \<and> length (sw_tables example_switch) = 2"
  by (rule switch_run_ok [OF example_run])

lemma lookup_highest_witness:
  "pkt_matches no_text (example_entry 0 [] []) example_pkt = Inr True \<and>
   fte_priority (example_entry 0 [] []) \<le> fte_priority (example_entry 200 [(''vlan_vid'', 4101)] [IApplyActions [AOutput 2 0]])"
proof -
  have l: "single_table_lookup no_text example_switch example_pkt 1 =
      Inr (Some (example_entry 200 [(''vlan_vid'', 4101)] [IApplyActions [AOutput 2 0]]))" by code_simp
  have m: "pkt_matches no_text (example_entry 0 [] []) example_pkt = Inr True" by code_simp
  have "switch_sorted example_switch" "1 < length (sw_tables example_switch)" "example_entry 0 [] [] \<in> set (sw_tables example_switch ! 1)"
    by (simp_all add: switch_sorted_def example_switch_def example_entry_def)
  with lookup_highest [OF _ _ l] m show ?thesis by blast
qed

definition example_outputs :: "(nat, outputs) dict" where
  "example_outputs = [(0, []), (1, [(2, [[(''in_port'', MInt 1), (''vlan_vid'', MInt 4101)]])])]"

lemma pipeline_tables_witness: "sorted_wrt (<) (dict_keys example_outputs) \<and> (\<exists>ks. dict_keys example_outputs = 0 # ks)"
proof -
  have "get_output of13 no_text 1 example_switch [(''in_port'', MInt 1)] = Inr example_outputs"
    by (simp add: get_output_def pipeline_run_loop, code_simp)
  from pipeline_tables [OF this] show ?thesis by blast
qed

lemma overlap_equal_masks_witness:
  "fte_overlaps (example_entry 5 [(''in_port'', 1)] []) (example_entry 5 [(''vlan_vid'', 4101)] [])"
proof (rule overlap_equal_masks [of of13 no_text "flowmod 1 OFPFC_ADD 0 5 0 0 [(''in_port'', MInt 1)] [] 0 0 0" _
        "flowmod 1 OFPFC_ADD 0 5 0 0 [(''vlan_vid'', MInt 4101)] [] 0 0 0" _ example_pkt])
  show "fte_of_flowmod of13 no_text (flowmod 1 OFPFC_ADD 0 5 0 0 [(''in_port'', MInt 1)] [] 0 0 0) =
      Inr (example_entry 5 [(''in_port'', 1)] [])" by code_simp
  show "fte_of_flowmod of13 no_text (flowmod 1 OFPFC_ADD 0 5 0 0 [(''vlan_vid'', MInt 4101)] [] 0 0 0) =
      Inr (example_entry 5 [(''vlan_vid'', 4101)] [])" by code_simp
  show "pkt_matches no_text (example_entry 5 [(''in_port'', 1)] []) example_pkt = Inr True" by code_simp
  show "pkt_matches no_text (example_entry 5 [(''vlan_vid'', 4101)] []) example_pkt = Inr True" by code_simp
qed (simp_all add: example_entry_def dict_get_def)

end
