(* ===== verification/Update.thy ===== *)
theory Update imports FlowReorder Switch begin

text \<open>
  An update and the switch it is sent to: the messages that \<^verbatim>\<open>valve_flowreorder\<close>
  (\<^verbatim>\<open>faucet/valve_of.py\<close>) makes of an update, applied to the tables of
  \<^verbatim>\<open>clib/fakeoftable.py\<close>. Whatever the order of the original list, the last addition of a flow is in
  its table afterwards: no delete of the update removes it.
\<close>

section \<open>The flows of an update\<close>

text \<open>Two flow additions write one entry of a switch: same table, same priority and match.\<close>

definition same_entry :: "ofp \<Rightarrow> addrconv \<Rightarrow> switch \<Rightarrow> flow_mod \<Rightarrow> flow_mod \<Rightarrow> bool" where
  "same_entry K conv s m m' =
     (case (addressed_tables K (fm_table_id m) s, addressed_tables K (fm_table_id m') s) of
        (Inr is, Inr js) \<Rightarrow>
          set is \<inter> set js \<noteq> {} \<and>
          (case (fte_of_flowmod K conv m, fte_of_flowmod K conv m') of
             (Inr f, Inr f') \<Rightarrow> fte_key f = fte_key f'
           | _ \<Rightarrow> False)
      | _ \<Rightarrow> False)"

text \<open>Only the additions follow an addition in an update.\<close>

lemma after_addition:
  assumes "shuffles shuffle" and "valve_flowreorder K str_of shuffle ub xs = Inr out"
    and "out = pre @ m # post" and "is_flowaddmod m" and "FlowModMsg d \<in> set post"
  shows "\<not> is_flowdel (FlowModMsg d)"
proof -
  let ?r = "\<lambda>m. kind_rank (msg_kind_of K m)"
  have "m \<noteq> BarrierMsg" using assms(4) by auto
  with reorder_rank_sorted [OF assms(1,2)] assms(3,5) have "?r m \<le> ?r (FlowModMsg d)" by (auto simp: sorted_append)
  moreover have "?r m = 6" using assms(4) by (cases m) auto
  ultimately show ?thesis by (auto split: if_splits)
qed

lemma addressed_tables_cong:
  "length (sw_tables s') = length (sw_tables s) \<Longrightarrow> addressed_tables K t s' = addressed_tables K t s"
  by (simp add: addressed_tables_def Let_def)

lemma entry_kept:
  assumes ok: "switch_ok u" and len: "length (sw_tables u) = length (sw_tables s)" and t: "t < length (sw_tables s)"
    and entry: "table_entry (sw_tables u ! t) (fte_key f) = Some f"
    and step: "apply_ofmsg K conv x u = (None, u')"
    and f: "fte_of_flowmod K conv m = Inr f" and tm: "addressed_tables K (fm_table_id m) s = Inr is" "t \<in> set is"
    and add: "\<And>m'. x = FlowModMsg m' \<Longrightarrow> fm_command m' = OFPFC_ADD"
    and same: "\<And>m'. x = FlowModMsg m' \<Longrightarrow> same_entry K conv s m m' \<Longrightarrow> m' = m"
  shows "length (sw_tables u') = length (sw_tables s) \<and> table_entry (sw_tables u' ! t) (fte_key f) = Some f"
proof (cases "msg_type_of x = TFlowMod")
  case False
  then have "sw_tables u' = sw_tables u" using apply_other_tables [of x K conv u] step by simp
  with len entry show ?thesis by simp
next
  case True
  then obtain m' where x: "x = FlowModMsg m'" by (cases x) auto
  from apply_flowmod_entries [OF ok step [unfolded x]] obtain f' "js" where f': "fte_of_flowmod K conv m' = Inr f'"
    and js: "addressed_tables K (fm_table_id m') u = Inr js" and len': "length (sw_tables u') = length (sw_tables u)"
    and e: "\<And>i. i < length (sw_tables u) \<Longrightarrow> table_entry (sw_tables u' ! i) =
       (if i \<in> set js then abs_handler K (fm_command m') f' (table_entry (sw_tables u ! i)) else table_entry (sw_tables u ! i))"
    by metis
  from js len have js': "addressed_tables K (fm_table_id m') s = Inr js" by (metis addressed_tables_cong)
  have "table_entry (sw_tables u' ! t) (fte_key f) = Some f"
  proof (cases "t \<in> set js \<and> fte_key f' = fte_key f")
    case True
    then have "same_entry K conv s m m'" using tm js' f f' by (auto simp: same_entry_def)
    with same x f f' have "f' = f" by auto
    with True e [of t] t len add [OF x] show ?thesis by simp
  next
    case False
    with e [of t] t len add [OF x] entry show ?thesis by auto
  qed
  with len len' show ?thesis by simp
qed

text \<open>C1. For a run of flow additions and deletions in which no other addition writes the same table
  entry, after the reordered messages run on a switch without an error, the last addition of every
  flow is the entry its tables hold under its priority and match: the reordering never lets a delete
  of the same update remove a flow the update adds.\<close>

lemma reorder_installs:
  assumes sh: "shuffles shuffle" and out: "valve_flowreorder K str_of shuffle ub xs = Inr out"
    and ok: "switch_ok s" and run: "apply_ofmsgs K conv False out s = (None, s')"
    and last: "find (\<lambda>x. is_flowaddmod x \<and> none_flowmodkey x = Some (flowmodkey m)) (rev xs) = Some (FlowModMsg m)"
    and adds: "\<forall>m'. FlowModMsg m' \<in> set xs \<and> is_flowaddmod (FlowModMsg m') \<longrightarrow>
      fm_command m' = OFPFC_ADD \<and> (same_entry K conv s m m' \<longrightarrow> flowmodkey m' = flowmodkey m)"
    and t: "addressed_tables K (fm_table_id m) s = Inr is" "t \<in> set is" and f: "fte_of_flowmod K conv m = Inr f"
  shows "table_entry (sw_tables s' ! t) (fte_key f) = Some f"
proof -
  have m: "is_flowaddmod (FlowModMsg m)" "FlowModMsg m \<in> set xs" using find_rev_SomeD [OF last] by auto
  have unique: "m' = m" if "FlowModMsg m' \<in> set out" "is_flowaddmod (FlowModMsg m')" "same_entry K conv s m m'" for m'
  proof -
    have "FlowModMsg m' \<in> set xs" using reorder_mem [OF sh out] that(1) by auto
    with adds that(2,3) have "none_flowmodkey (FlowModMsg m') = Some (flowmodkey m)" by auto
    moreover from reorder_addmods [OF sh out that(2)] that(1)
    have "find (\<lambda>x. is_flowaddmod x \<and> none_flowmodkey x = none_flowmodkey (FlowModMsg m')) (rev xs) = Some (FlowModMsg m')"
      by blast
    ultimately show ?thesis using last by (metis ofmsg.inject(1) option.inject)
  qed
  have "FlowModMsg m \<in> set out" using reorder_addmods [OF sh out m(1)] last by simp
  then obtain pre post where split: "out = pre @ FlowModMsg m # post" by (meson split_list)
  from run obtain u v where u: "apply_ofmsgs K conv False pre s = (None, u)" and
      v: "apply_ofmsg K conv (FlowModMsg m) u = (None, v)" and post: "apply_ofmsgs K conv False post v = (None, s')"
    unfolding split apply_ofmsgs_append apply_ofmsgs_Cons by blast
  have u_ok: "switch_ok u" using switch_ok_run [OF ok, of K conv False pre] u by simp
  have u_len: "length (sw_tables u) = length (sw_tables s)"
    using apply_ofmsgs_length u by metis
  have t_s: "t < length (sw_tables s)" by (rule addressed_tables_bound [OF t])
  have cmd: "fm_command m = OFPFC_ADD" using adds m by blast
  let ?P = "\<lambda>w. switch_ok w \<and> length (sw_tables w) = length (sw_tables s) \<and> table_entry (sw_tables w ! t) (fte_key f) = Some f"
  have "?P v"
  proof -
    from apply_flowmod_entries [OF u_ok v] obtain f' "js" where f': "fte_of_flowmod K conv m = Inr f'"
      and js: "addressed_tables K (fm_table_id m) u = Inr js" and len: "length (sw_tables v) = length (sw_tables u)"
      and e: "\<And>i. i < length (sw_tables u) \<Longrightarrow> table_entry (sw_tables v ! i) =
        (if i \<in> set js then abs_handler K (fm_command m) f' (table_entry (sw_tables u ! i)) else table_entry (sw_tables u ! i))"
      by metis
    have "t \<in> set js" using js t addressed_tables_cong [OF u_len, of K "fm_table_id m"] by simp
    moreover have "f' = f" using f f' by simp
    moreover have "switch_ok v" using apply_ofmsg_ok [OF u_ok, of K conv "FlowModMsg m"] v by simp
    ultimately show ?thesis using e [of t] t_s u_len len cmd by simp
  qed
  moreover have "?P w'" if x: "x \<in> set post" and w: "?P w" and step: "apply_ofmsg K conv x w = (None, w')" for x w w'
  proof -
    have add: "is_flowaddmod x" if "x = FlowModMsg m'" for m'
      using after_addition [OF sh out split m(1)] x that by (cases "fm_command m'") auto
    have mem: "x = BarrierMsg \<or> x \<in> set xs" using reorder_mem [OF sh out] x split by auto
    have "length (sw_tables w') = length (sw_tables s) \<and> table_entry (sw_tables w' ! t) (fte_key f) = Some f"
    proof (rule entry_kept [OF _ _ t_s _ step f t])
      show "fm_command m' = OFPFC_ADD" if "x = FlowModMsg m'" for m' using adds add that mem by blast
      show "m' = m" if "x = FlowModMsg m'" "same_entry K conv s m m'" for m' using unique add that x split by auto
    qed (use w in auto)
    moreover have "switch_ok w'" using apply_ofmsg_ok [of w K conv x] w step by simp
    ultimately show ?thesis by blast
  qed
  ultimately have "?P s'" using apply_ofmsgs_invariant [of post ?P K conv v s'] post by blast
  then show ?thesis by blast
qed

section \<open>A concrete update\<close>

definition update_flow :: "int \<Rightarrow> ofmatch \<Rightarrow> flow_mod" where
  "update_flow table_id mt = flowmod 1 OFPFC_ADD table_id 20480 4294967295 4294967295 mt [] 0 0 0"

definition update_entry :: "ofmatch \<Rightarrow> fte" where
  "update_entry mt = \<lparr>fte_priority = 20480, fte_cookie = 1, fte_instructions = [],
     fte_match = map (\<lambda>(k, v). (k, (case v of MInt n \<Rightarrow> n | _ \<Rightarrow> 0, 2 ^ 64 - 1))) mt, fte_out_port = None\<rparr>"

definition updated_switch :: switch where
  "updated_switch = (new_switch 4 False)\<lparr>sw_tables := [[], [], [update_entry [(''in_port'', MInt 1)]], [update_entry []]]\<rparr>"

lemma update_example_run:
  "apply_ofmsgs of13 (\<lambda>k v. Inl ValueError) False reordered_example (new_switch 4 False) = (None, updated_switch)"
  by code_simp

lemma update_flow_entry:
  "fte_of_flowmod of13 (\<lambda>k v. Inl ValueError) (update_flow 2 [(''in_port'', MInt 1)]) = Inr (update_entry [(''in_port'', MInt 1)])"
  by code_simp

lemma reorder_installs_witness:
  "table_entry (sw_tables updated_switch ! 2) (fte_key (update_entry [(''in_port'', MInt 1)])) =
     Some (update_entry [(''in_port'', MInt 1)])"
proof (rule reorder_installs [OF shuffles_id update_example_reordered _ update_example_run _ _ _ _ update_flow_entry])
  show "switch_ok (new_switch 4 False)" by simp
  show "find (\<lambda>x. is_flowaddmod x \<and> none_flowmodkey x = Some (flowmodkey (update_flow 2 [(''in_port'', MInt 1)])))
      (rev update_example) = Some (FlowModMsg (update_flow 2 [(''in_port'', MInt 1)]))"
    by code_simp
  show "\<forall>m'. FlowModMsg m' \<in> set update_example \<and> is_flowaddmod (FlowModMsg m') \<longrightarrow>
      fm_command m' = OFPFC_ADD \<and> (same_entry of13 (\<lambda>k v. Inl ValueError) (new_switch 4 False)
        (update_flow 2 [(''in_port'', MInt 1)]) m' \<longrightarrow> flowmodkey m' = flowmodkey (update_flow 2 [(''in_port'', MInt 1)]))"
    by (auto simp: update_example_def flow_msg_def flowmod_def update_flow_def flowmodkey_def same_entry_def
        addressed_tables_def Let_def new_switch_def)
  show "addressed_tables of13 (fm_table_id (update_flow 2 [(''in_port'', MInt 1)])) (new_switch 4 False) = Inr [2]"
    by code_simp
qed simp

end
