(* ===== verification/TableConfig.thy ===== *)
theory TableConfig imports OFMsg begin

text \<open>
  The configuration of a flow table and the tables of the standard pipeline:
  \<^verbatim>\<open>faucet/faucet_pipeline.py\<close>, and the metadata layout of \<^verbatim>\<open>faucet/faucet_metadata.py\<close>. An
  attribute that is only tested for truth is a bool; the two scale attributes, which are
  floating point numbers, are left out.
\<close>

section \<open>Table configurations\<close>

record table_config =
  tc_name :: string
  tc_table_id :: int
  tc_exact_match :: bool
  tc_meter :: bool
  tc_output :: bool
  tc_miss_goto :: "string option"
  tc_size :: "int option"
  tc_match_types :: "(string \<times> bool) list option"
  tc_set_fields :: "string list option"
  tc_dec_ttl :: bool
  tc_next_tables :: "string list"
  tc_metadata_match :: int
  tc_metadata_write :: int

text \<open>\<open>ValveTableConfig(name, table_id)\<close> with every other argument at its default.\<close>

definition ValveTableConfig :: "string \<Rightarrow> int \<Rightarrow> table_config" where
  "ValveTableConfig name table_id =
     \<lparr>tc_name = name, tc_table_id = table_id, tc_exact_match = False, tc_meter = False, tc_output = True,
      tc_miss_goto = None, tc_size = None, tc_match_types = None, tc_set_fields = None, tc_dec_ttl = False,
      tc_next_tables = [], tc_metadata_match = 0, tc_metadata_write = 0\<rparr>"

section \<open>Metadata\<close>

definition PORT_METADATA_MASK :: int where "PORT_METADATA_MASK = 0xFFF"
definition VLAN_METADATA_MASK :: int where "VLAN_METADATA_MASK = 0xFFF000"
definition EGRESS_METADATA_MASK :: int where "EGRESS_METADATA_MASK = or PORT_METADATA_MASK VLAN_METADATA_MASK"

definition get_egress_metadata :: "int \<Rightarrow> int \<Rightarrow> int \<times> int" where
  "get_egress_metadata port_num vid =
     (or (push_bit 12 vid) (and port_num PORT_METADATA_MASK), EGRESS_METADATA_MASK)"

section \<open>The standard pipeline\<close>

definition NEXT_ETH :: "string list" where
  "NEXT_ETH = [''eth_dst_hairpin'', ''eth_dst'', ''flood'']"

definition NEXT_VIP :: "string list" where
  "NEXT_VIP = ''vip'' # NEXT_ETH"

definition fib_table :: "string \<Rightarrow> string \<Rightarrow> int \<Rightarrow> table_config" where
  "fib_table name dst table_id =
     (ValveTableConfig name table_id)
       \<lparr>tc_match_types := Some [(''eth_type'', False), (dst, True), (''vlan_vid'', False)],
        tc_set_fields := Some [''eth_dst'', ''eth_src'', ''vlan_vid''],
        tc_dec_ttl := True,
        tc_next_tables := NEXT_VIP\<rparr>"

definition PORT_ACL_DEFAULT_CONFIG :: table_config where
  "PORT_ACL_DEFAULT_CONFIG =
     (ValveTableConfig ''port_acl'' 0)
       \<lparr>tc_match_types := Some [(''in_port'', False)],
        tc_next_tables := ''vlan'' # NEXT_VIP\<rparr>"

definition VLAN_DEFAULT_CONFIG :: table_config where
  "VLAN_DEFAULT_CONFIG =
     (ValveTableConfig ''vlan'' (tc_table_id PORT_ACL_DEFAULT_CONFIG + 1))
       \<lparr>tc_match_types := Some [(''eth_dst'', True), (''eth_type'', False), (''in_port'', False), (''vlan_vid'', False)],
        tc_set_fields := Some [''vlan_vid''],
        tc_next_tables := [''copro'', ''vlan_acl'', ''classification'', ''eth_src'']\<rparr>"

definition COPRO_DEFAULT_CONFIG :: table_config where
  "COPRO_DEFAULT_CONFIG =
     (ValveTableConfig ''copro'' (tc_table_id VLAN_DEFAULT_CONFIG + 1))
       \<lparr>tc_match_types := Some [(''in_port'', False), (''eth_type'', False), (''vlan_vid'', False)],
        tc_miss_goto := Some ''eth_dst'',
        tc_next_tables := [''eth_dst'']\<rparr>"

definition VLAN_ACL_DEFAULT_CONFIG :: table_config where
  "VLAN_ACL_DEFAULT_CONFIG =
     (ValveTableConfig ''vlan_acl'' (tc_table_id VLAN_DEFAULT_CONFIG + 1))
       \<lparr>tc_next_tables := ''classification'' # ''eth_src'' # NEXT_ETH\<rparr>"

definition CLASSIFICATION_DEFAULT_CONFIG :: table_config where
  "CLASSIFICATION_DEFAULT_CONFIG =
     (ValveTableConfig ''classification'' (tc_table_id VLAN_ACL_DEFAULT_CONFIG + 1))
       \<lparr>tc_miss_goto := Some ''eth_src'',
        tc_next_tables := ''eth_src'' # ''ipv4_fib'' # ''ipv6_fib'' # NEXT_VIP\<rparr>"

definition ETH_SRC_DEFAULT_CONFIG :: table_config where
  "ETH_SRC_DEFAULT_CONFIG =
     (ValveTableConfig ''eth_src'' (tc_table_id CLASSIFICATION_DEFAULT_CONFIG + 1))
       \<lparr>tc_miss_goto := Some ''eth_dst'',
        tc_next_tables := ''ipv4_fib'' # ''ipv6_fib'' # NEXT_VIP,
        tc_match_types := Some [(''eth_dst'', True), (''eth_src'', False), (''eth_type'', False),
          (''in_port'', False), (''vlan_vid'', False)],
        tc_set_fields := Some [''vlan_vid'', ''eth_dst'']\<rparr>"

definition IPV4_FIB_DEFAULT_CONFIG :: table_config where
  "IPV4_FIB_DEFAULT_CONFIG = fib_table ''ipv4_fib'' ''ipv4_dst'' (tc_table_id ETH_SRC_DEFAULT_CONFIG + 1)"

definition IPV6_FIB_DEFAULT_CONFIG :: table_config where
  "IPV6_FIB_DEFAULT_CONFIG = fib_table ''ipv6_fib'' ''ipv6_dst'' (tc_table_id IPV4_FIB_DEFAULT_CONFIG + 1)"

definition VIP_DEFAULT_CONFIG :: table_config where
  "VIP_DEFAULT_CONFIG =
     (ValveTableConfig ''vip'' (tc_table_id IPV6_FIB_DEFAULT_CONFIG + 1))
       \<lparr>tc_match_types := Some [(''arp_tpa'', False), (''eth_dst'', False), (''eth_type'', False),
          (''icmpv6_type'', False), (''ip_proto'', False)],
        tc_next_tables := NEXT_ETH\<rparr>"

definition ETH_DST_HAIRPIN_DEFAULT_CONFIG :: table_config where
  "ETH_DST_HAIRPIN_DEFAULT_CONFIG =
     (ValveTableConfig ''eth_dst_hairpin'' (tc_table_id VIP_DEFAULT_CONFIG + 1))
       \<lparr>tc_match_types := Some [(''in_port'', False), (''eth_dst'', False), (''vlan_vid'', False)],
        tc_miss_goto := Some ''eth_dst'',
        tc_exact_match := True\<rparr>"

definition ETH_DST_DEFAULT_CONFIG :: table_config where
  "ETH_DST_DEFAULT_CONFIG =
     (ValveTableConfig ''eth_dst'' (tc_table_id ETH_DST_HAIRPIN_DEFAULT_CONFIG + 1))
       \<lparr>tc_exact_match := True,
        tc_miss_goto := Some ''flood'',
        tc_match_types := Some [(''eth_dst'', False), (''vlan_vid'', False)],
        tc_next_tables := [''egress'', ''egress_acl''],
        tc_metadata_write := EGRESS_METADATA_MASK\<rparr>"

definition EGRESS_ACL_DEFAULT_CONFIG :: table_config where
  "EGRESS_ACL_DEFAULT_CONFIG =
     (ValveTableConfig ''egress_acl'' (tc_table_id ETH_DST_DEFAULT_CONFIG + 1))
       \<lparr>tc_next_tables := [''egress'']\<rparr>"

definition EGRESS_DEFAULT_CONFIG :: table_config where
  "EGRESS_DEFAULT_CONFIG =
     (ValveTableConfig ''egress'' (tc_table_id EGRESS_ACL_DEFAULT_CONFIG + 1))
       \<lparr>tc_match_types := Some [(''metadata'', True), (''vlan_vid'', False)],
        tc_next_tables := [''flood''],
        tc_miss_goto := Some ''flood'',
        tc_metadata_match := EGRESS_METADATA_MASK\<rparr>"

definition FLOOD_DEFAULT_CONFIG :: table_config where
  "FLOOD_DEFAULT_CONFIG =
     (ValveTableConfig ''flood'' (tc_table_id EGRESS_DEFAULT_CONFIG + 1))
       \<lparr>tc_match_types := Some [(''eth_dst'', True), (''in_port'', False), (''vlan_vid'', False)]\<rparr>"

definition MINIMUM_FAUCET_PIPELINE_TABLES :: "string set" where
  "MINIMUM_FAUCET_PIPELINE_TABLES = {''vlan'', ''eth_src'', ''eth_dst'', ''flood''}"

definition FAUCET_PIPELINE :: "table_config list" where
  "FAUCET_PIPELINE =
     [PORT_ACL_DEFAULT_CONFIG, VLAN_DEFAULT_CONFIG, COPRO_DEFAULT_CONFIG, VLAN_ACL_DEFAULT_CONFIG,
      CLASSIFICATION_DEFAULT_CONFIG, ETH_SRC_DEFAULT_CONFIG, IPV4_FIB_DEFAULT_CONFIG,
      IPV6_FIB_DEFAULT_CONFIG, VIP_DEFAULT_CONFIG, ETH_DST_HAIRPIN_DEFAULT_CONFIG,
      ETH_DST_DEFAULT_CONFIG, EGRESS_ACL_DEFAULT_CONFIG, EGRESS_DEFAULT_CONFIG, FLOOD_DEFAULT_CONFIG]"

text \<open>\<open>DEFAULT_CONFIGS\<close> holds every table but the classification table, by name.\<close>

definition DEFAULT_CONFIGS :: "(string, table_config) dict" where
  "DEFAULT_CONFIGS =
     [(''port_acl'', PORT_ACL_DEFAULT_CONFIG), (''vlan'', VLAN_DEFAULT_CONFIG), (''copro'', COPRO_DEFAULT_CONFIG),
      (''vlan_acl'', VLAN_ACL_DEFAULT_CONFIG), (''eth_src'', ETH_SRC_DEFAULT_CONFIG),
      (''ipv4_fib'', IPV4_FIB_DEFAULT_CONFIG), (''ipv6_fib'', IPV6_FIB_DEFAULT_CONFIG), (''vip'', VIP_DEFAULT_CONFIG),
      (''eth_dst_hairpin'', ETH_DST_HAIRPIN_DEFAULT_CONFIG), (''eth_dst'', ETH_DST_DEFAULT_CONFIG),
      (''egress_acl'', EGRESS_ACL_DEFAULT_CONFIG), (''egress'', EGRESS_DEFAULT_CONFIG), (''flood'', FLOOD_DEFAULT_CONFIG)]"

named_theorems pipeline_defs \<open>the tables of the standard pipeline\<close>

lemmas [pipeline_defs] = ValveTableConfig_def NEXT_ETH_def NEXT_VIP_def fib_table_def PORT_ACL_DEFAULT_CONFIG_def
  VLAN_DEFAULT_CONFIG_def COPRO_DEFAULT_CONFIG_def VLAN_ACL_DEFAULT_CONFIG_def CLASSIFICATION_DEFAULT_CONFIG_def
  ETH_SRC_DEFAULT_CONFIG_def IPV4_FIB_DEFAULT_CONFIG_def IPV6_FIB_DEFAULT_CONFIG_def VIP_DEFAULT_CONFIG_def
  ETH_DST_HAIRPIN_DEFAULT_CONFIG_def ETH_DST_DEFAULT_CONFIG_def EGRESS_ACL_DEFAULT_CONFIG_def
  EGRESS_DEFAULT_CONFIG_def FLOOD_DEFAULT_CONFIG_def FAUCET_PIPELINE_def

section \<open>Reading the metadata back\<close>

lemma PORT_METADATA_MASK_alt: "PORT_METADATA_MASK = mask 12"
  by (simp add: PORT_METADATA_MASK_def mask_eq_exp_minus_1)

lemma VLAN_METADATA_MASK_alt: "VLAN_METADATA_MASK = push_bit 12 (mask 12)"
  by (simp add: VLAN_METADATA_MASK_def mask_eq_exp_minus_1 push_bit_eq_mult)

lemma bit_PORT_METADATA_MASK: "bit PORT_METADATA_MASK n \<longleftrightarrow> n < 12"
  unfolding PORT_METADATA_MASK_alt by (simp add: bit_mask_iff)

lemma bit_VLAN_METADATA_MASK: "bit VLAN_METADATA_MASK n \<longleftrightarrow> 12 \<le> n \<and> n < 24"
  unfolding VLAN_METADATA_MASK_alt by (auto simp: bit_push_bit_iff bit_mask_iff)

lemma bit_small: "0 \<le> (v :: int) \<Longrightarrow> v < 2 ^ k \<Longrightarrow> bit v n \<Longrightarrow> n < k"
  by (metis bit_take_bit_iff take_bit_int_eq_self)

lemma egress_metadata_port:
  "and (fst (get_egress_metadata port_num vid)) PORT_METADATA_MASK = port_num mod 4096"
proof -
  have "and (fst (get_egress_metadata port_num vid)) PORT_METADATA_MASK = take_bit 12 port_num"
    by (rule bit_eqI) (auto simp: get_egress_metadata_def bit_simps bit_PORT_METADATA_MASK)
  then show ?thesis by (simp add: take_bit_eq_mod)
qed

lemma egress_metadata_vid:
  assumes "0 \<le> vid" "vid < 4096"
  shows "drop_bit 12 (and (fst (get_egress_metadata port_num vid)) VLAN_METADATA_MASK) = vid"
proof (rule bit_eqI)
  fix n :: nat
  have "bit vid n \<Longrightarrow> n < 12" using bit_small [of vid 12 n] assms by simp
  then show "bit (drop_bit 12 (and (fst (get_egress_metadata port_num vid)) VLAN_METADATA_MASK)) n \<longleftrightarrow> bit vid n"
    by (auto simp: get_egress_metadata_def bit_simps bit_PORT_METADATA_MASK bit_VLAN_METADATA_MASK)
qed

text \<open>The mask keeps the whole value: an exact match on it is a match on (port, VLAN).\<close>

lemma egress_metadata_masked:
  assumes "0 \<le> vid" "vid < 4096"
  shows "and (fst (get_egress_metadata port_num vid)) EGRESS_METADATA_MASK = fst (get_egress_metadata port_num vid)"
proof (rule bit_eqI)
  fix n :: nat
  have "bit vid (n - 12) \<Longrightarrow> n - 12 < 12" using bit_small [of vid 12 "n - 12"] assms by simp
  then show "bit (and (fst (get_egress_metadata port_num vid)) EGRESS_METADATA_MASK) n \<longleftrightarrow>
      bit (fst (get_egress_metadata port_num vid)) n"
    by (auto simp: get_egress_metadata_def EGRESS_METADATA_MASK_def bit_simps bit_PORT_METADATA_MASK bit_VLAN_METADATA_MASK)
qed

text \<open>Two ports share the egress metadata of a VLAN exactly when their numbers are equal modulo
  4096, and metadata of different VLANs differ.\<close>

lemma egress_metadata_inj:
  assumes "0 \<le> vid" "vid < 4096" "0 \<le> vid'" "vid' < 4096"
  shows "get_egress_metadata p vid = get_egress_metadata p' vid' \<longleftrightarrow> p mod 4096 = p' mod 4096 \<and> vid = vid'"
proof
  assume eq: "get_egress_metadata p vid = get_egress_metadata p' vid'"
  with egress_metadata_port [of p vid] egress_metadata_port [of p' vid'] have "p mod 4096 = p' mod 4096" by simp
  moreover from eq egress_metadata_vid [OF assms(1,2), of p] egress_metadata_vid [OF assms(3,4), of p'] have "vid = vid'"
    by simp
  ultimately show "p mod 4096 = p' mod 4096 \<and> vid = vid'" by simp
next
  assume eq: "p mod 4096 = p' mod 4096 \<and> vid = vid'"
  have "and q PORT_METADATA_MASK = q mod 4096" for q
    by (rule trans [OF _ take_bit_eq_mod [of 12 q, simplified]]) (rule bit_eqI, auto simp: bit_simps bit_PORT_METADATA_MASK)
  with eq show "get_egress_metadata p vid = get_egress_metadata p' vid'" by (simp add: get_egress_metadata_def)
qed

lemma egress_metadata_inj_witness:
  "get_egress_metadata 4097 100 = get_egress_metadata 1 100 \<and> get_egress_metadata 2 100 \<noteq> get_egress_metadata 1 100"
  using egress_metadata_inj [of 100 100 4097 1] egress_metadata_inj [of 100 100 2 1] by simp

end
