(* ===== verification/ValveTable.thy ===== *)
theory ValveTable imports TableConfig Switch begin

text \<open>
  The wrapper FAUCET composes every flow of a table with: \<^verbatim>\<open>faucet/valve_table.py\<close>. It trims the
  actions that cannot have an effect and asserts that a flow fits the table's configuration.

  \<open>recirc\<close> is \<open>hasattr(action, "recirc_table")\<close> on an action of the library. \<open>_trim_inst\<close> replaces the
  actions of an instruction object in place and is memoised; the model returns the new instructions.
\<close>

section \<open>Tables\<close>

record valve_table =
  vt_name :: string
  vt_config :: table_config
  vt_table_id :: int
  vt_set_fields :: "string list option"
  vt_exact_match :: bool
  vt_match_types :: "(string, bool) dict option"
  vt_metadata_match :: int
  vt_metadata_write :: int
  vt_next_tables :: "int list"
  vt_flow_cookie :: int
  vt_notify_flow_removed :: bool

definition mk_valve_table :: "string \<Rightarrow> table_config \<Rightarrow> int \<Rightarrow> bool \<Rightarrow> int list \<Rightarrow> valve_table" where
  "mk_valve_table name config flow_cookie notify_flow_removed next_tables =
     \<lparr>vt_name = name, vt_config = config, vt_table_id = tc_table_id config, vt_set_fields = tc_set_fields config,
      vt_exact_match = tc_exact_match config,
      vt_match_types =
        (case tc_match_types config of
           None \<Rightarrow> None
         | Some mts \<Rightarrow> if mts = [] then None else Some (foldl (\<lambda>d (field, has_mask). dict_set field has_mask d) [] mts)),
      vt_metadata_match = tc_metadata_match config, vt_metadata_write = tc_metadata_write config,
      vt_next_tables = next_tables, vt_flow_cookie = flow_cookie, vt_notify_flow_removed = notify_flow_removed\<rparr>"

definition wildcard_table :: "ofp \<Rightarrow> valve_table" where
  "wildcard_table K = mk_valve_table ''all'' (ValveTableConfig ''all'' (OFPTT_ALL K)) 0 False []"

definition vt_goto :: "valve_table \<Rightarrow> valve_table \<Rightarrow> err + instruction" where
  "vt_goto t next_table =
     bindE (assertE (vt_name next_table \<in> set (tc_next_tables (vt_config t)))) (\<lambda>_.
     Inr (goto_table_id (vt_table_id next_table)))"

definition goto_this :: "valve_table \<Rightarrow> instruction" where
  "goto_this t = goto_table_id (vt_table_id t)"

definition goto_miss :: "valve_table \<Rightarrow> valve_table \<Rightarrow> err + instruction" where
  "goto_miss t next_table =
     bindE (assertE (Some (vt_name next_table) = tc_miss_goto (vt_config t))) (\<lambda>_.
     Inr (goto_table_id (vt_table_id next_table)))"

text \<open>\<open>set_field\<close> of one keyword; an unknown field raises. \<open>conv\<close> are the library's field converters.\<close>

definition vt_set_field :: "(string \<Rightarrow> mval \<Rightarrow> err + mval) \<Rightarrow> string \<Rightarrow> mval \<Rightarrow> err + action" where
  "vt_set_field conv field val =
     bindE (match_from_dict conv (\<lambda>kw. kw) [(field, val)]) (\<lambda>_. Inr (set_field field val))"

definition set_external_forwarding_requested :: "(string \<Rightarrow> mval \<Rightarrow> err + mval) \<Rightarrow> err + action" where
  "set_external_forwarding_requested conv = vt_set_field conv EXTERNAL_FORWARDING_FIELD (MInt PCP_EXT_PORT_FLAG)"

definition set_no_external_forwarding_requested :: "(string \<Rightarrow> mval \<Rightarrow> err + mval) \<Rightarrow> err + action" where
  "set_no_external_forwarding_requested conv = vt_set_field conv EXTERNAL_FORWARDING_FIELD (MInt PCP_NONEXT_PORT_FLAG)"

definition vt_set_vlan_vid :: "ofp \<Rightarrow> (string \<Rightarrow> mval \<Rightarrow> err + mval) \<Rightarrow> int \<Rightarrow> err + action" where
  "vt_set_vlan_vid K conv vlan_vid = vt_set_field conv ''vlan_vid'' (MInt (vid_present K vlan_vid))"

definition vt_match :: "ofp \<Rightarrow> match_args \<Rightarrow> err + ofmatch" where
  "vt_match K a = build_match_dict K a"

section \<open>Verifying a flow\<close>

fun is_masked :: "mval \<Rightarrow> bool" where
  "is_masked (MIntMask _ _) = True"
| "is_masked (MTextMask _ _) = True"
| "is_masked _ = False"

definition verify_del_field :: "valve_table \<Rightarrow> string \<times> mval \<Rightarrow> unit \<Rightarrow> err + unit" where
  "verify_del_field t item _ =
     (case vt_match_types t of
        None \<Rightarrow> Inl TypeError
      | Some mts \<Rightarrow> assertE (dict_get mts (fst item) \<noteq> None))"

definition verify_add_field :: "valve_table \<Rightarrow> nat \<Rightarrow> string \<times> mval \<Rightarrow> unit \<Rightarrow> err + unit" where
  "verify_add_field t num_fields item _ =
     (case vt_match_types t of
        None \<Rightarrow> Inl TypeError
      | Some mts \<Rightarrow>
          (case dict_get mts (fst item) of
             None \<Rightarrow> Inl AssertionError
           | Some config_mask \<Rightarrow>
               bindE (assertE (config_mask \<or> (\<not> config_mask \<and> \<not> is_masked (snd item)))) (\<lambda>_.
               if vt_exact_match t \<and> num_fields \<noteq> 0 then assertE (length mts = num_fields) else Inr ())))"

definition verify_flowmod :: "ofp \<Rightarrow> valve_table \<Rightarrow> flow_mod \<Rightarrow> err + unit" where
  "verify_flowmod K t fm =
     (if is_flowdel (FlowModMsg fm) then
        (if vt_table_id t \<noteq> OFPTT_ALL K then foldE (verify_del_field t) (fm_match fm) () else Inr ())
      else if vt_table_id t = OFPTT_ALL K then Inr ()
      else
        bindE (assertE (\<not> (fm_priority fm = 0 \<and> fm_match fm \<noteq> []))) (\<lambda>_.
        foldE (verify_add_field t (length (fm_match fm))) (fm_match fm) ()))"

section \<open>Trimming\<close>

fun keeps_pending :: "action \<Rightarrow> bool" where
  "keeps_pending (AGroup _) = True"
| "keeps_pending (AOutput _ _) = True"
| "keeps_pending _ = False"

fun trim_loop :: "action list \<Rightarrow> action list \<Rightarrow> action list \<Rightarrow> action list" where
  "trim_loop [] new_actions pending = new_actions"
| "trim_loop (act # acts) new_actions pending =
     (if keeps_pending act then trim_loop acts (new_actions @ pending @ [act]) []
      else trim_loop acts new_actions (pending @ [act]))"

definition set_field_keys :: "action list \<Rightarrow> string list" where
  "set_field_keys acts = concat (map (\<lambda>a. case a of ASetField key _ \<Rightarrow> [key] | _ \<Rightarrow> []) acts)"

definition trim_actions :: "ofp \<Rightarrow> valve_table \<Rightarrow> action list \<Rightarrow> err + action list" where
  "trim_actions K t actions =
     (let new_actions = trim_loop actions [] []
      in if vt_table_id t \<noteq> OFPTT_ALL K \<and> set_field_keys new_actions \<noteq> [] then
           (case vt_set_fields t of
              None \<Rightarrow> Inl TypeError
            | Some allowed \<Rightarrow> bindE (assertE (set (set_field_keys new_actions) \<subseteq> set allowed)) (\<lambda>_. Inr new_actions))
         else Inr new_actions)"

fun is_goto_table :: "instruction \<Rightarrow> bool" where
  "is_goto_table (IGotoTable _) = True"
| "is_goto_table _ = False"

fun trim_inst_loop ::
    "ofp \<Rightarrow> (action \<Rightarrow> bool) \<Rightarrow> valve_table \<Rightarrow> bool \<Rightarrow> instruction list \<Rightarrow> err + instruction list" where
  "trim_inst_loop K recirc t goto_present [] = Inr []"
| "trim_inst_loop K recirc t goto_present (i # is) =
     (case i of
        IApplyActions acts \<Rightarrow>
          bindE (if \<not> goto_present \<and> \<not> (\<exists>a \<in> set acts. is_ct a \<and> recirc a) then trim_actions K t acts else Inr acts)
            (\<lambda>acts'. bindE (trim_inst_loop K recirc t goto_present is) (\<lambda>is'.
               Inr (if acts' = [] then is' else IApplyActions acts' # is')))
      | _ \<Rightarrow> bindE (trim_inst_loop K recirc t goto_present is) (\<lambda>is'. Inr (i # is')))"

definition trim_inst :: "ofp \<Rightarrow> (action \<Rightarrow> bool) \<Rightarrow> valve_table \<Rightarrow> instruction list \<Rightarrow> err + instruction list" where
  "trim_inst K recirc t inst =
     (if \<exists>i \<in> set inst. is_apply_actions i
      then trim_inst_loop K recirc t (\<exists>i \<in> set inst. is_goto_table i) inst
      else Inr inst)"

section \<open>Composing flows\<close>

text \<open>The keyword arguments of \<open>flowmod\<close>.\<close>

record flow_args =
  fa_match :: ofmatch
  fa_priority :: "int option"
  fa_inst :: "instruction list"
  fa_command :: flow_command
  fa_out_port :: int
  fa_out_group :: int
  fa_hard_timeout :: int
  fa_idle_timeout :: int
  fa_cookie :: "int option"

definition flow_defaults :: flow_args where
  "flow_defaults = \<lparr>fa_match = [], fa_priority = None, fa_inst = [], fa_command = OFPFC_ADD, fa_out_port = 0,
     fa_out_group = 0, fa_hard_timeout = 0, fa_idle_timeout = 0, fa_cookie = None\<rparr>"

definition vt_flowmod :: "ofp \<Rightarrow> (action \<Rightarrow> bool) \<Rightarrow> valve_table \<Rightarrow> flow_args \<Rightarrow> err + ofmsg" where
  "vt_flowmod K recirc t a =
     bindE (if fa_inst a \<noteq> [] then trim_inst K recirc t (fa_inst a) else Inr []) (\<lambda>inst.
     let fm = flowmod (case fa_cookie a of None \<Rightarrow> vt_flow_cookie t | Some c \<Rightarrow> c) (fa_command a) (vt_table_id t)
                (case fa_priority a of None \<Rightarrow> 0 | Some p \<Rightarrow> p) (fa_out_port a) (fa_out_group a) (fa_match a) inst
                (fa_hard_timeout a) (fa_idle_timeout a)
                (if vt_notify_flow_removed t then OFPFF_SEND_FLOW_REM K else 0)
     in bindE (verify_flowmod K t fm) (\<lambda>_. Inr (FlowModMsg fm)))"

definition vt_flowdel :: "ofp \<Rightarrow> (action \<Rightarrow> bool) \<Rightarrow> valve_table \<Rightarrow> ofmatch \<Rightarrow> int option \<Rightarrow> int \<Rightarrow> bool \<Rightarrow> err + ofmsg" where
  "vt_flowdel K recirc t mt priority out_port strict =
     vt_flowmod K recirc t (flow_defaults\<lparr>fa_match := mt, fa_priority := priority,
       fa_command := (if strict then OFPFC_DELETE_STRICT else OFPFC_DELETE), fa_out_port := out_port,
       fa_out_group := OFPG_ANY K\<rparr>)"

definition vt_flowdrop :: "ofp \<Rightarrow> (action \<Rightarrow> bool) \<Rightarrow> valve_table \<Rightarrow> ofmatch \<Rightarrow> int option \<Rightarrow> int \<Rightarrow> err + ofmsg" where
  "vt_flowdrop K recirc t mt priority hard_timeout =
     vt_flowmod K recirc t (flow_defaults\<lparr>fa_match := mt, fa_priority := priority, fa_hard_timeout := hard_timeout\<rparr>)"

definition vt_flowcontroller ::
    "ofp \<Rightarrow> (action \<Rightarrow> bool) \<Rightarrow> valve_table \<Rightarrow> ofmatch \<Rightarrow> int option \<Rightarrow> instruction list \<Rightarrow> int \<Rightarrow> err + ofmsg" where
  "vt_flowcontroller K recirc t mt priority inst max_len =
     vt_flowmod K recirc t (flow_defaults\<lparr>fa_match := mt, fa_priority := priority,
       fa_inst := apply_actions [output_controller K max_len] # inst\<rparr>)"

section \<open>Groups\<close>

text \<open>An entry is its id and its buckets; the table maps the ids in use to their entries.\<close>

record group_entry =
  ge_group_id :: int
  ge_buckets :: "bucket list"

type_synonym group_table = "(int, group_entry) dict"

definition group_entry_add :: "group_entry \<Rightarrow> group_table \<Rightarrow> ofmsg list \<times> group_table" where
  "group_entry_add e table = (groupadd (ge_group_id e) (ge_buckets e), dict_set (ge_group_id e) e table)"

definition group_entry_delete :: "group_entry \<Rightarrow> group_table \<Rightarrow> ofmsg \<times> group_table" where
  "group_entry_delete e table = (groupdel (ge_group_id e), dict_del (ge_group_id e) table)"

text \<open>\<open>hashlib.sha256\<close> is the parameter \<open>sha256\<close>; the id is the first four bytes, little endian.\<close>

definition group_id_from_str :: "(string \<Rightarrow> int list) \<Rightarrow> string \<Rightarrow> int" where
  "group_id_from_str sha256 key_str =
     (let d = sha256 key_str in d ! 0 + 256 * d ! 1 + 65536 * d ! 2 + 16777216 * d ! 3)"

definition get_entry :: "int \<Rightarrow> bucket list \<Rightarrow> group_table \<Rightarrow> group_entry \<times> group_table" where
  "get_entry group_id buckets table =
     (let e = \<lparr>ge_group_id = group_id, ge_buckets = buckets\<rparr> in (e, dict_set group_id e table))"

definition delete_all_groups :: "ofp \<Rightarrow> ofmsg \<times> group_table" where
  "delete_all_groups K = (groupdel (OFPG_ALL K), [])"

section \<open>What a composed flow satisfies\<close>

lemma foldE_unit: "foldE f xs () = Inr () \<longleftrightarrow> (\<forall>x \<in> set xs. f x () = Inr ())"
proof (induction xs)
  case Nil
  then show ?case by simp
next
  case (Cons x xs)
  then show ?case by (cases "f x ()") auto
qed

definition fits_table :: "ofp \<Rightarrow> valve_table \<Rightarrow> flow_mod \<Rightarrow> bool" where
  "fits_table K t fm \<longleftrightarrow>
     (\<forall>(field, val) \<in> set (fm_match fm). \<exists>mts. vt_match_types t = Some mts \<and>
        (case dict_get mts field of None \<Rightarrow> False | Some has_mask \<Rightarrow> is_masked val \<longrightarrow> has_mask) \<and>
        (vt_exact_match t \<longrightarrow> length (fm_match fm) = length mts)) \<and>
     (fm_priority fm = 0 \<longrightarrow> fm_match fm = [])"

lemma verify_add_field_Inr:
  "verify_add_field t n item () = Inr () \<longleftrightarrow>
     (\<exists>mts has_mask. vt_match_types t = Some mts \<and> dict_get mts (fst item) = Some has_mask \<and>
        (is_masked (snd item) \<longrightarrow> has_mask) \<and> (vt_exact_match t \<and> n \<noteq> 0 \<longrightarrow> length mts = n))"
  by (auto simp: verify_add_field_def bindE_Inr split: option.splits)

lemma verify_flowmod_fits:
  assumes "\<not> is_flowdel (FlowModMsg fm)" and "vt_table_id t \<noteq> OFPTT_ALL K"
  shows "verify_flowmod K t fm = Inr () \<longleftrightarrow> fits_table K t fm"
proof -
  let ?n = "length (fm_match fm)"
  have "verify_add_field t ?n item () = Inr () \<longleftrightarrow>
      (\<exists>mts. vt_match_types t = Some mts \<and>
        (case dict_get mts (fst item) of None \<Rightarrow> False | Some has_mask \<Rightarrow> is_masked (snd item) \<longrightarrow> has_mask) \<and>
        (vt_exact_match t \<longrightarrow> ?n = length mts))" if "item \<in> set (fm_match fm)" for item
    using that unfolding verify_add_field_Inr by (auto split: option.splits)
  then show ?thesis
    using assms unfolding verify_flowmod_def fits_table_def by (auto simp: bindE_Inr foldE_unit split_beta)
qed

lemma trim_inst_nonempty:
  "trim_inst_loop K recirc t b is = Inr is' \<Longrightarrow> IApplyActions [] \<notin> set is'"
  by (induction "is" arbitrary: is') (auto simp: bindE_Inr split: instruction.splits if_splits)

lemma trim_inst_no_empty:
  assumes "trim_inst K recirc t inst = Inr is'" shows "IApplyActions [] \<notin> set is'"
proof (cases "\<exists>i \<in> set inst. is_apply_actions i")
  case True
  with assms show ?thesis by (auto simp: trim_inst_def dest: trim_inst_nonempty)
next
  case False
  with assms show ?thesis by (force simp: trim_inst_def)
qed

lemma vt_flowmod_Inr:
  assumes "vt_flowmod K recirc t a = Inr m"
  obtains fm where "m = FlowModMsg fm" and "verify_flowmod K t fm = Inr ()" and "fm_table_id fm = vt_table_id t"
    and "fm_command fm = fa_command a" and "fm_match fm = fa_match a" and "IApplyActions [] \<notin> set (fm_instructions fm)"
proof -
  from assms obtain inst where i: "(if fa_inst a \<noteq> [] then trim_inst K recirc t (fa_inst a) else Inr []) = Inr inst"
    unfolding vt_flowmod_def bindE_Inr by blast
  have "IApplyActions [] \<notin> set inst" using i by (auto split: if_splits dest: trim_inst_no_empty)
  with assms i show thesis by (auto simp: vt_flowmod_def Let_def bindE_Inr flowmod_def intro: that)
qed

text \<open>C38. Every flow a table other than the wildcard table composes, other than a delete, goes to that
  table, matches only the fields the table is configured to match, masks only those it may mask, and
  applies no empty list of actions.\<close>

lemma composed_flow_fits:
  assumes "vt_flowmod K recirc t a = Inr m" and "vt_table_id t \<noteq> OFPTT_ALL K"
    and "fa_command a \<noteq> OFPFC_DELETE" "fa_command a \<noteq> OFPFC_DELETE_STRICT"
  shows "\<exists>fm. m = FlowModMsg fm \<and> fm_table_id fm = vt_table_id t \<and> fits_table K t fm \<and>
    IApplyActions [] \<notin> set (fm_instructions fm)"
proof -
  from vt_flowmod_Inr [OF assms(1)] obtain fm where fm: "m = FlowModMsg fm" "verify_flowmod K t fm = Inr ()"
      "fm_table_id fm = vt_table_id t" "fm_command fm = fa_command a" "IApplyActions [] \<notin> set (fm_instructions fm)"
    by metis
  then have "\<not> is_flowdel (FlowModMsg fm)" using assms(3,4) by simp
  with fm show ?thesis using verify_flowmod_fits [OF _ assms(2)] by blast
qed

section \<open>Trimming keeps the outputs\<close>

lemma process_actions_append:
  "process_actions K rg pkt outs pending (xs @ ys) =
     bindE (process_actions K rg pkt outs pending xs) (\<lambda>(outs, pkt, pending). process_actions K rg pkt outs pending ys)"
proof (induction xs arbitrary: pkt outs pending)
  case Nil
  then show ?case by simp
next
  case (Cons a xs)
  then show ?case by (cases a) (auto simp: bindE_def split: sum.splits)
qed

lemma process_actions_ConsD:
  assumes "process_actions K rg pkt outs pending (a # acts) = Inr r"
  obtains o1 p1 q1 where "process_actions K rg pkt outs pending [a] = Inr (o1, p1, q1)"
    and "process_actions K rg p1 o1 q1 acts = Inr r"
proof -
  have "bindE (process_actions K rg pkt outs pending [a]) (\<lambda>(outs, pkt, pending). process_actions K rg pkt outs pending acts) = Inr r"
    using assms process_actions_append [of K rg pkt outs pending "[a]" acts] by (metis append_Cons append_Nil)
  then obtain x where "process_actions K rg pkt outs pending [a] = Inr x"
      and "(case x of (outs, pkt, pending) \<Rightarrow> process_actions K rg pkt outs pending acts) = Inr r"
    unfolding bindE_Inr by blast
  then show thesis by (cases x) (simp add: that)
qed

lemma process_actions_pending:
  "process_actions K rg pkt outs pending acts = Inr (o', p, q) \<Longrightarrow>
     \<exists>q'. process_actions K rg pkt outs pending' acts = Inr (o', p, q')"
proof (induction acts arbitrary: pkt outs pending pending')
  case Nil
  then show ?case by simp
next
  case (Cons a acts)
  show ?case
  proof (cases a)
    case (AGroup g)
    with Cons.prems obtain bs where bs: "rg g pkt = Inr bs" and rest: "process_actions K rg pkt (foldl merge_outputs outs bs)
        (if \<exists>b \<in> set bs. b \<noteq> [] then [] else pending @ [AGroup g]) acts = Inr (o', p, q)"
      by (auto simp: bindE_Inr)
    from Cons.IH [OF rest, of "if \<exists>b \<in> set bs. b \<noteq> [] then [] else pending' @ [AGroup g]"] bs AGroup
    show ?thesis by simp
  qed (use Cons in \<open>auto simp: bindE_Inr\<close>)
qed

lemma trim_loop_append: "trim_loop acts new pending = new @ trim_loop acts [] pending"
proof (induction acts arbitrary: new pending)
  case Nil
  then show ?case by simp
next
  case (Cons a acts)
  show ?case
    using Cons.IH [of "new @ pending @ [a]" "[]"] Cons.IH [of "pending @ [a]" "[]"] Cons.IH [of new "pending @ [a]"]
    by simp
qed

lemma process_other: "\<not> keeps_pending a \<Longrightarrow> process_actions K rg pkt outs pending [a] = Inr (o', p, q) \<Longrightarrow> o' = outs"
  by (cases a) (auto simp: bindE_Inr)

lemma trim_loop_outputs:
  assumes "process_actions K rg pkt0 outs pd0 pending = Inr (outs, pkt, pd1)"
    and "process_actions K rg pkt outs pd acts = Inr (o', p, q)"
  shows "\<exists>p' q'. process_actions K rg pkt0 outs pd0 (trim_loop acts [] pending) = Inr (o', p', q')"
  using assms
proof (induction acts arbitrary: pkt0 outs pd0 pending pkt pd pd1)
  case Nil
  then show ?case by simp
next
  case (Cons a acts)
  from Cons.prems(2) obtain o1 p1 q1 where a: "process_actions K rg pkt outs pd [a] = Inr (o1, p1, q1)"
      and rest: "process_actions K rg p1 o1 q1 acts = Inr (o', p, q)"
    by (rule process_actions_ConsD)
  from process_actions_pending [OF a] obtain q2 where a2: "process_actions K rg pkt outs pd1 [a] = Inr (o1, p1, q2)"
    by blast
  have run: "process_actions K rg pkt0 outs pd0 (pending @ [a]) = Inr (o1, p1, q2)"
    using Cons.prems(1) a2 by (simp add: process_actions_append)
  show ?case
  proof (cases "keeps_pending a")
    case True
    have "trim_loop (a # acts) [] pending = (pending @ [a]) @ trim_loop acts [] []"
      using True trim_loop_append [of acts "pending @ [a]" "[]"] by simp
    moreover have "\<exists>p' q'. process_actions K rg p1 o1 q2 (trim_loop acts [] []) = Inr (o', p', q')"
      by (rule Cons.IH [OF _ rest]) simp
    ultimately show ?thesis using run by (auto simp: process_actions_append simp del: append_assoc)
  next
    case False
    with process_other [OF False a] run have "process_actions K rg pkt0 outs pd0 (pending @ [a]) = Inr (outs, p1, q2)"
      by simp
    from Cons.IH [OF this, of q1] rest process_other [OF False a] False show ?thesis by simp
  qed
qed

text \<open>C37. Trimming the actions that come after the last output or group keeps every packet output: the
  trimmed actions send the same packets to the same ports.\<close>

lemma trim_keeps_outputs:
  assumes "trim_actions K t acts = Inr acts'"
    and "process_instruction K fuel s pkt acts = Inr (outs, pkt1, pend)"
  shows "\<exists>pkt2 pend2. process_instruction K fuel s pkt acts' = Inr (outs, pkt2, pend2)"
proof -
  from assms(1) have "acts' = trim_loop acts [] []"
    by (auto simp: trim_actions_def Let_def bindE_Inr split: if_splits option.splits)
  with trim_loop_outputs [of K _ pkt "[]" "[]" "[]" pkt "[]" "[]"] assms(2) show ?thesis
    unfolding process_instruction_def by fastforce
qed

section \<open>Exact match tables\<close>

lemma match_bits_keys: "match_bits conv items = Inr d \<Longrightarrow> set (dict_keys d) = fst ` set items"
proof -
  have "foldE (\<lambda>(key, val) d. case split_mask val of (v, m) \<Rightarrow>
           bindE (match_to_bits conv key m) (\<lambda>mb. bindE (match_to_bits conv key v) (\<lambda>vb.
           Inr (dict_set key (and vb mb, mb) d)))) items d0 = Inr d \<Longrightarrow>
      set (dict_keys d) = set (dict_keys d0) \<union> fst ` set items" for d0
    by (induction items arbitrary: d0) (auto simp: bindE_Inr dict_keys_set split: prod.splits)
  then show "match_bits conv items = Inr d \<Longrightarrow> set (dict_keys d) = fst ` set items"
    unfolding match_bits_def by (auto simp: dict_keys_def)
qed

definition plain_mask :: "string \<Rightarrow> int" where
  "plain_mask key = take_bit (if address_field key then field_length key else 64) (-1)"

lemma match_bits_plain:
  assumes "match_bits conv items = Inr d" and "\<forall>(key, val) \<in> set items. \<not> is_masked val"
  shows "dict_get d key = Some (v, m) \<Longrightarrow> m = plain_mask key"
proof -
  have "\<forall>key v m. dict_get d key = Some (v, m) \<longrightarrow> m = plain_mask key"
  proof (rule foldE_invariant [OF assms(1) [unfolded match_bits_def],
        where P = "\<lambda>d. \<forall>key v m. dict_get d key = Some (v, m) \<longrightarrow> m = plain_mask key"])
    fix x and d d' :: "(string, int \<times> int) dict"
    assume x: "x \<in> set items" and P: "\<forall>key v m. dict_get d key = Some (v, m) \<longrightarrow> m = plain_mask key"
      and step: "(case x of (key, val) \<Rightarrow> \<lambda>d. case split_mask val of (v, m) \<Rightarrow>
           bindE (match_to_bits conv key m) (\<lambda>mb. bindE (match_to_bits conv key v) (\<lambda>vb.
           Inr (dict_set key (and vb mb, mb) d)))) d = Inr d'"
    obtain key val where k: "x = (key, val)" by (metis surj_pair)
    have "split_mask val = (val, MInt (-1))" using assms(2) x k by (cases val) auto
    moreover have "match_to_bits conv key (MInt (-1)) = Inr (plain_mask key)"
      by (simp add: match_to_bits_def plain_mask_def)
    ultimately show "\<forall>key v m. dict_get d' key = Some (v, m) \<longrightarrow> m = plain_mask key"
      using step P k by (auto simp: bindE_Inr split: if_splits)
  qed simp
  then show "dict_get d key = Some (v, m) \<Longrightarrow> m = plain_mask key" by blast
qed

text \<open>A flow of an exact match table whose fields take no mask names all the fields of the table.\<close>

lemma exact_fields:
  assumes "fits_table K t fm" and "vt_exact_match t" and "vt_match_types t = Some mts" and "dict_ok mts"
    and "\<forall>has_mask \<in> set (dict_values mts). \<not> has_mask" and "dict_ok (fm_match fm)" and "fm_match fm \<noteq> []"
    and "fte_of_flowmod K conv fm = Inr f"
  shows "set (dict_keys (fte_match f)) = set (dict_keys mts)"
    and "dict_get (fte_match f) key = Some (v, m) \<Longrightarrow> m = plain_mask key"
proof -
  have fit: "dict_get mts field = Some has_mask \<Longrightarrow> (field, val) \<in> set (fm_match fm) \<Longrightarrow> is_masked val \<longrightarrow> has_mask"
    and mem: "(field, val) \<in> set (fm_match fm) \<Longrightarrow> field \<in> set (dict_keys mts)" for field val has_mask
    using assms(1,3) by (auto simp: fits_table_def dict_keys_get split: option.splits)
  have len: "length (fm_match fm) = length mts"
    using assms(1,2,3,7) by (cases "fm_match fm") (auto simp: fits_table_def)
  have "card (fst ` set (fm_match fm)) = length mts" and "card (set (dict_keys mts)) = length mts"
    using assms(4,6) len distinct_card [of "map fst (fm_match fm)"] distinct_card [of "map fst mts"]
    by (simp_all add: dict_ok_def dict_keys_def)
  moreover have "fst ` set (fm_match fm) \<subseteq> set (dict_keys mts)" using mem by auto
  ultimately have keys: "fst ` set (fm_match fm) = set (dict_keys mts)"
    by (metis List.finite_set card_subset_eq)
  from assms(8) obtain d where d: "match_bits conv (fm_match fm) = Inr d" and f: "fte_match f = d"
    by (auto simp: fte_of_flowmod_def bindE_Inr)
  show "set (dict_keys (fte_match f)) = set (dict_keys mts)" using match_bits_keys [OF d] keys f by simp
  have "\<not> is_masked val" if "(field, val) \<in> set (fm_match fm)" for field val
  proof -
    from mem [OF that] obtain has_mask where h: "dict_get mts field = Some has_mask" by (auto simp: dict_keys_get)
    then have "has_mask \<in> set (dict_values mts)" using assms(4) by (auto simp: dict_values_get)
    then show ?thesis using fit [OF h that] assms(5) by auto
  qed
  then have "\<forall>(key, val) \<in> set (fm_match fm). \<not> is_masked val" by auto
  from match_bits_plain [OF d this] f
  show "dict_get (fte_match f) key = Some (v, m) \<Longrightarrow> m = plain_mask key" by simp
qed

lemma exact_table_no_overlap:
  assumes t: "vt_exact_match t" "vt_match_types t = Some mts" "dict_ok mts" "\<forall>has_mask \<in> set (dict_values mts). \<not> has_mask"
    and 1: "fits_table K t fm1" "dict_ok (fm_match fm1)" "fm_match fm1 \<noteq> []" "fte_of_flowmod K conv fm1 = Inr f"
    and 2: "fits_table K t fm2" "dict_ok (fm_match fm2)" "fm_match fm2 \<noteq> []" "fte_of_flowmod K conv fm2 = Inr e"
    and overlap: "fte_overlaps f e"
  shows "matches_match f e"
proof -
  note x1 = exact_fields [OF 1(1) t 1(2,3,4)] and x2 = exact_fields [OF 2(1) t 2(2,3,4)]
  have "dict_get (fte_match f) key = dict_get (fte_match e) key" for key
  proof (cases "key \<in> set (dict_keys mts)")
    case False
    then show ?thesis using x1(1) x2(1) dict_get_None [of "fte_match f" key] dict_get_None [of "fte_match e" key] by simp
  next
    case True
    with x1(1) x2(1) obtain v m v' m' where f: "dict_get (fte_match f) key = Some (v, m)"
      and e: "dict_get (fte_match e) key = Some (v', m')" by (metis dict_keys_get surj_pair)
    have ok: "dict_ok (fte_match f)" "and v m = v" "and v' m' = v'"
      using fte_masked [OF 1(4)] fte_masked [OF 2(4)] dict_get_Some_in [OF f] dict_get_Some_in [OF e] by auto
    have "m = m'" using x1(2) [OF f] x2(2) [OF e] by simp
    moreover have "and v m' = v' \<and> and v' m = v"
      using overlap dict_get_Some_in [OF f] e by (fastforce simp: fte_overlaps_def split: if_splits)
    ultimately show ?thesis using f e ok by simp
  qed
  then show ?thesis using overlap by (auto simp: matches_match_def dict_eq_get fte_overlaps_def split: if_splits)
qed

text \<open>So the switch never refuses a flow of such a table for an overlap.\<close>

lemma add_scan_total:
  "(\<And>e. e \<in> set rest \<Longrightarrow> fte_overlaps f e \<Longrightarrow> matches_match f e) \<Longrightarrow> fte_out_port f = None \<Longrightarrow>
     \<exists>t'. add_scan K f rest t = Inr t'"
  by (induction rest) (auto simp: fte_matches_def out_port_matches_def)

text \<open>In a table that matches all its fields exactly, holding only flows composed for it and misses
  of other priorities, the switch never refuses a composed flow as overlapping.\<close>

lemma exact_table_accepts:
  assumes t: "vt_exact_match t" "vt_match_types t = Some mts" "dict_ok mts" "\<forall>has_mask \<in> set (dict_values mts). \<not> has_mask"
    and fm: "fits_table K t fm" "dict_ok (fm_match fm)" "fm_match fm \<noteq> []" "fte_of_flowmod K conv fm = Inr f"
      "fm_command fm = OFPFC_ADD"
    and others: "\<forall>e \<in> set table. fte_match e \<noteq> [] \<longrightarrow> (\<exists>fm'. fits_table K t fm' \<and> dict_ok (fm_match fm') \<and>
        fm_match fm' \<noteq> [] \<and> fte_of_flowmod K conv fm' = Inr e)"
    and miss: "\<forall>e \<in> set table. fte_match e = [] \<longrightarrow> fte_priority e \<noteq> fte_priority f"
  shows "\<exists>table'. flowmod_handler K OFPFC_ADD table f = Inr table'"
proof -
  have "fte_out_port f = None" using fte_of_flowmod_out_port [OF fm(4,5)] .
  moreover have "matches_match f e" if e: "e \<in> set table" and o: "fte_overlaps f e" for e
  proof (cases "fte_match e = []")
    case True
    with miss e o show ?thesis by (auto simp: fte_overlaps_def split: if_splits)
  next
    case False
    with others e obtain fm' where "fits_table K t fm'" "dict_ok (fm_match fm')" "fm_match fm' \<noteq> []"
        "fte_of_flowmod K conv fm' = Inr e" by blast
    from exact_table_no_overlap [OF t fm(1-4) this o] show ?thesis .
  qed
  ultimately obtain u where "add_scan K f table table = Inr u" using add_scan_total by blast
  then show ?thesis by (simp add: flowmod_handler_def table_add_def)
qed
subsection \<open>Witnesses\<close>

definition eth_dst_table :: valve_table where
  "eth_dst_table = mk_valve_table ''eth_dst'' ETH_DST_DEFAULT_CONFIG 1524372928 False []"

definition eth_dst_match :: "int \<Rightarrow> ofmatch" where
  "eth_dst_match vid = [(''eth_dst'', MText ''0e:00:00:00:00:01''), (''vlan_vid'', MInt vid)]"

definition mac_conv :: addrconv where
  "mac_conv = (\<lambda>key v. case v of MInt n \<Rightarrow> Inr n | MText t \<Rightarrow> (if key = ''eth_dst'' then Inr 15393162788865 else Inl ValueError)
     | _ \<Rightarrow> Inl ValueError)"

definition eth_dst_flow :: "int \<Rightarrow> flow_mod" where
  "eth_dst_flow vid = flowmod 1524372928 OFPFC_ADD 9 8192 0 0 (eth_dst_match vid) [IApplyActions [APopVlan, AOutput 1 0]] 0 0 0"

definition eth_dst_entry :: "int \<Rightarrow> fte" where
  "eth_dst_entry vid = \<lparr>fte_priority = 8192, fte_cookie = 1524372928, fte_instructions = [IApplyActions [APopVlan, AOutput 1 0]],
     fte_match = [(''eth_dst'', (15393162788865, 2 ^ 48 - 1)), (''vlan_vid'', (vid, full_mask))], fte_out_port = None\<rparr>"

lemma eth_dst_composed:
  "vt_flowmod of13 (\<lambda>_. False) eth_dst_table (flow_defaults\<lparr>fa_match := eth_dst_match 4196, fa_priority := Some 8192,
     fa_inst := [IApplyActions [APopVlan, AOutput 1 0, APopVlan]]\<rparr>) = Inr (FlowModMsg (eth_dst_flow 4196))"
  by code_simp

lemma composed_flow_fits_witness: "fits_table of13 eth_dst_table (eth_dst_flow 4196)"
proof -
  have "vt_table_id eth_dst_table \<noteq> OFPTT_ALL of13" by code_simp
  from composed_flow_fits [OF eth_dst_composed this] show ?thesis by (simp add: flow_defaults_def)
qed

lemma trim_keeps_outputs_witness:
  "\<exists>pkt2 pend2. process_instruction of13 1 (new_switch 1 False) [] [AOutput 1 0] = Inr ([(1, [[]])], pkt2, pend2)"
proof -
  have "trim_actions of13 eth_dst_table [AOutput 1 0, ASetField ''vlan_vid'' (MInt 4097)] = Inr [AOutput 1 0]" by code_simp
  moreover have "process_instruction of13 1 (new_switch 1 False) [] [AOutput 1 0, ASetField ''vlan_vid'' (MInt 4097)] =
      Inr ([(1, [[]])], [(''vlan_vid'', MInt 4097)], [ASetField ''vlan_vid'' (MInt 4097)])" by code_simp
  ultimately show ?thesis by (rule trim_keeps_outputs)
qed

lemma eth_dst_flow_entry:
  "fte_of_flowmod of13 mac_conv (eth_dst_flow 4196) = Inr (eth_dst_entry 4196)"
  "fte_of_flowmod of13 mac_conv (eth_dst_flow 4296) = Inr (eth_dst_entry 4296)"
  by code_simp+

lemma eth_dst_flow_fits: "fits_table of13 eth_dst_table (eth_dst_flow vid)" "dict_ok (fm_match (eth_dst_flow vid))"
  "fm_match (eth_dst_flow vid) \<noteq> []" "fm_command (eth_dst_flow vid) = OFPFC_ADD"
  by (simp_all add: fits_table_def eth_dst_flow_def flowmod_def eth_dst_match_def eth_dst_table_def mk_valve_table_def
      pipeline_defs dict_ok_def dict_get_Cons dict_set_def)

lemma exact_table_accepts_witness:
  "\<exists>table'. flowmod_handler of13 OFPFC_ADD [eth_dst_entry 4196] (eth_dst_entry 4296) = Inr table'"
proof (rule exact_table_accepts [OF _ _ _ _ eth_dst_flow_fits(1-3) eth_dst_flow_entry(2) eth_dst_flow_fits(4)])
  show "vt_exact_match eth_dst_table" by code_simp
  show "vt_match_types eth_dst_table = Some [(''eth_dst'', False), (''vlan_vid'', False)]" by code_simp
  show "\<forall>e \<in> set [eth_dst_entry 4196]. fte_match e \<noteq> [] \<longrightarrow> (\<exists>fm'. fits_table of13 eth_dst_table fm' \<and>
      dict_ok (fm_match fm') \<and> fm_match fm' \<noteq> [] \<and> fte_of_flowmod of13 mac_conv fm' = Inr e)"
    using eth_dst_flow_fits eth_dst_flow_entry(1) by auto
qed (simp_all add: dict_ok_def dict_values_def eth_dst_entry_def)

end
