(* ===== verification/Port.thy ===== *)
theory Port imports OFMsg Complex_Main begin

text \<open>
  A port and its state machines: \<^verbatim>\<open>faucet/port.py\<close>. The record holds the configured attributes the
  controller reads and the dynamic state (\<open>dyn_*\<close>). A VLAN is its VID. Times are numbers of seconds.
  Two ports of one datapath are equal when their configurations are, which their numbers decide.
\<close>

section \<open>States\<close>

datatype stack_state = STACK_STATE_ADMIN_DOWN | STACK_STATE_INIT | STACK_STATE_BAD | STACK_STATE_UP
  | STACK_STATE_GONE | STACK_STATE_NONE

datatype lacp_actor = LACP_ACTOR_NOTCONFIGURED | LACP_ACTOR_NONE | LACP_ACTOR_INIT | LACP_ACTOR_UP | LACP_ACTOR_NOSYNC

datatype lacp_role = LACP_PORT_NOTCONFIGURED | LACP_PORT_UNSELECTED | LACP_PORT_SELECTED | LACP_PORT_STANDBY

fun stack_state_name :: "stack_state \<Rightarrow> string" where
  "stack_state_name STACK_STATE_ADMIN_DOWN = ''ADMIN_DOWN''"
| "stack_state_name STACK_STATE_INIT = ''INITIALIZING''"
| "stack_state_name STACK_STATE_BAD = ''BAD''"
| "stack_state_name STACK_STATE_UP = ''UP''"
| "stack_state_name STACK_STATE_GONE = ''GONE''"
| "stack_state_name STACK_STATE_NONE = ''NONE''"

fun actor_state_name :: "lacp_actor \<Rightarrow> string" where
  "actor_state_name LACP_ACTOR_NOTCONFIGURED = ''NOT_CONFIGURED''"
| "actor_state_name LACP_ACTOR_NONE = ''NONE''"
| "actor_state_name LACP_ACTOR_INIT = ''INITIALIZING''"
| "actor_state_name LACP_ACTOR_UP = ''UP''"
| "actor_state_name LACP_ACTOR_NOSYNC = ''NO_SYNC''"

fun port_role_name :: "lacp_role \<Rightarrow> string" where
  "port_role_name LACP_PORT_NOTCONFIGURED = ''NOT_CONFIGURED''"
| "port_role_name LACP_PORT_UNSELECTED = ''UNSELECTED''"
| "port_role_name LACP_PORT_SELECTED = ''SELECTED''"
| "port_role_name LACP_PORT_STANDBY = ''STANDBY''"

section \<open>Ports\<close>

text \<open>What the controller reads of a received LACP packet.\<close>

record lacp_pkt =
  lp_actor_system :: string
  lp_actor_state_synchronization :: bool
  lp_actor_key :: int
  lp_actor_port :: int
  lp_actor_system_priority :: int
  lp_actor_port_priority :: int
  lp_actor_state_defaulted :: int
  lp_actor_state_expired :: int
  lp_actor_state_timeout :: int
  lp_actor_state_collecting :: int
  lp_actor_state_distributing :: int
  lp_actor_state_aggregation :: int
  lp_actor_state_activity :: int
  lp_text :: string

text \<open>The peer of a stack port: its datapath, its port and the interval it sends beacons at.\<close>

record stack_peer =
  sp_dp :: string
  sp_port :: int
  sp_send_interval :: int

record port =
  p_number :: int
  p_name :: string
  p_enabled :: bool
  p_permanent_learn :: bool
  p_unicast_flood :: bool
  p_mirror :: "int list option"
  p_native_vlan :: "int option"
  p_tagged_vlans :: "int list"
  p_stack :: "stack_peer option"
  p_max_hosts :: int
  p_hairpin :: bool
  p_hairpin_unicast :: bool
  p_lacp :: int
  p_lacp_active :: bool
  p_lacp_port_id :: int
  p_lacp_port_priority :: int
  p_lacp_collect_and_distribute :: bool
  p_lacp_unselected :: bool
  p_lacp_selected :: bool
  p_lacp_standby :: bool
  p_lacp_passthrough :: "int list"
  p_lacp_resp_interval :: int
  p_loop_protect :: bool
  p_loop_protect_external :: bool
  p_output_only :: bool
  p_max_lldp_lost :: int
  p_restricted_bcast_arpnd :: bool
  p_count_untag_vlan_miss :: bool
  p_dyn_dot1x_native_vlan :: "int option"
  p_dyn_lacp_up :: "int option"
  p_dyn_lacp_updated_time :: "int option"
  p_dyn_lacp_last_resp_time :: "int option"
  p_dyn_last_lacp_pkt :: "lacp_pkt option"
  p_dyn_last_ban_time :: "int option"
  p_dyn_learn_ban_count :: int
  p_dyn_phys_up :: bool
  p_dyn_update_time :: "int option"
  p_dyn_stack_current_state :: stack_state
  p_dyn_lacp_port_selected :: lacp_role
  p_dyn_lacp_actor_state :: lacp_actor
  p_dyn_last_seen_lldp_time :: "int option"
  p_dyn_stack_correct :: "bool option"

text \<open>The defaults of the configuration, with a number; the name is the number's text.\<close>

fun nat_str :: "nat \<Rightarrow> string" where
  "nat_str n = (if n < 10 then [char_of (48 + n)] else nat_str (n div 10) @ [char_of (48 + n mod 10)])"

declare nat_str.simps [simp del]

definition int_str :: "int \<Rightarrow> string" where
  "int_str i = (if i < 0 then CHR ''-'' # nat_str (nat (- i)) else nat_str (nat i))"

definition default_port :: "int \<Rightarrow> port" where
  "default_port number =
     \<lparr>p_number = number, p_name = int_str number, p_enabled = True, p_permanent_learn = False, p_unicast_flood = True, p_mirror = None,
      p_native_vlan = None, p_tagged_vlans = [], p_stack = None, p_max_hosts = 255, p_hairpin = False,
      p_hairpin_unicast = False, p_lacp = 0, p_lacp_active = False, p_lacp_port_id = -1, p_lacp_port_priority = 255, p_lacp_collect_and_distribute = False,
      p_lacp_unselected = False, p_lacp_selected = False, p_lacp_standby = False, p_lacp_passthrough = [],
      p_lacp_resp_interval = 1, p_loop_protect = False, p_loop_protect_external = False, p_output_only = False,
      p_max_lldp_lost = 3, p_restricted_bcast_arpnd = False, p_count_untag_vlan_miss = False,
      p_dyn_dot1x_native_vlan = None, p_dyn_lacp_up = None, p_dyn_lacp_updated_time = None,
      p_dyn_lacp_last_resp_time = None, p_dyn_last_lacp_pkt = None, p_dyn_last_ban_time = None,
      p_dyn_learn_ban_count = 0, p_dyn_phys_up = False, p_dyn_update_time = None,
      p_dyn_stack_current_state = STACK_STATE_NONE, p_dyn_lacp_port_selected = LACP_PORT_NOTCONFIGURED,
      p_dyn_lacp_actor_state = LACP_ACTOR_NOTCONFIGURED, p_dyn_last_seen_lldp_time = None, p_dyn_stack_correct = None\<rparr>"

definition port_eq :: "port \<Rightarrow> port \<Rightarrow> bool" where
  "port_eq p q \<longleftrightarrow> p_number p = p_number q"

definition running :: "port \<Rightarrow> bool" where
  "running p \<longleftrightarrow> p_enabled p \<and> p_dyn_phys_up p"

definition port_vlans :: "port \<Rightarrow> int list" where
  "port_vlans p =
     (case (p_native_vlan p, p_dyn_dot1x_native_vlan p) of
        (Some n, Some d) \<Rightarrow> n # d # p_tagged_vlans p
      | (None, Some d) \<Rightarrow> d # p_tagged_vlans p
      | (Some n, None) \<Rightarrow> n # p_tagged_vlans p
      | (None, None) \<Rightarrow> p_tagged_vlans p)"

definition mirror_actions :: "port \<Rightarrow> action list" where
  "mirror_actions p = (case p_mirror p of None \<Rightarrow> [] | Some ps \<Rightarrow> map output_port ps)"

definition non_stack_forwarding :: "port \<Rightarrow> bool" where
  "non_stack_forwarding p =
     (if p_stack p \<noteq> None then False
      else if \<not> p_dyn_phys_up p then False
      else if p_lacp p \<noteq> 0 \<and> p_dyn_lacp_up p \<in> {None, Some 0} then False
      else True)"

text \<open>\<open>clone_dyn_state\<close> copies the state a restarted port keeps; LLDP beacon times are left out.\<close>

definition clone_dyn_state :: "port option \<Rightarrow> port \<Rightarrow> port" where
  "clone_dyn_state prev p =
     (case prev of
        None \<Rightarrow> p
      | Some q \<Rightarrow> p\<lparr>p_dyn_stack_current_state := p_dyn_stack_current_state q, p_dyn_phys_up := p_dyn_phys_up q,
          p_dyn_last_seen_lldp_time := p_dyn_last_seen_lldp_time q, p_dyn_stack_correct := p_dyn_stack_correct q,
          p_dyn_update_time := p_dyn_update_time q\<rparr>)"

section \<open>LACP\<close>

definition is_actor_up :: "port \<Rightarrow> bool" where "is_actor_up p \<longleftrightarrow> p_dyn_lacp_actor_state p = LACP_ACTOR_UP"
definition is_actor_nosync :: "port \<Rightarrow> bool" where "is_actor_nosync p \<longleftrightarrow> p_dyn_lacp_actor_state p = LACP_ACTOR_NOSYNC"
definition is_actor_init :: "port \<Rightarrow> bool" where "is_actor_init p \<longleftrightarrow> p_dyn_lacp_actor_state p = LACP_ACTOR_INIT"
definition is_actor_none :: "port \<Rightarrow> bool" where "is_actor_none p \<longleftrightarrow> p_dyn_lacp_actor_state p = LACP_ACTOR_NONE"
definition is_port_selected :: "port \<Rightarrow> bool" where "is_port_selected p \<longleftrightarrow> p_dyn_lacp_port_selected p = LACP_PORT_SELECTED"
definition is_port_unselected :: "port \<Rightarrow> bool" where "is_port_unselected p \<longleftrightarrow> p_dyn_lacp_port_selected p = LACP_PORT_UNSELECTED"
definition is_port_standby :: "port \<Rightarrow> bool" where "is_port_standby p \<longleftrightarrow> p_dyn_lacp_port_selected p = LACP_PORT_STANDBY"

lemmas lacp_state_defs = is_actor_up_def is_actor_nosync_def is_actor_init_def is_actor_none_def
  is_port_selected_def is_port_unselected_def is_port_standby_def

definition set_actor :: "lacp_actor \<Rightarrow> port \<Rightarrow> port" where
  "set_actor st p = p\<lparr>p_dyn_lacp_actor_state := st\<rparr>"

definition set_role :: "lacp_role \<Rightarrow> port \<Rightarrow> port" where
  "set_role st p = p\<lparr>p_dyn_lacp_port_selected := st\<rparr>"

definition lacp_actor_update :: "bool \<Rightarrow> int option \<Rightarrow> lacp_pkt option \<Rightarrow> bool \<Rightarrow> port \<Rightarrow> port" where
  "lacp_actor_update lacp_up now pkt cold_start p =
     (let p = p\<lparr>p_dyn_lacp_up := Some (if lacp_up then 1 else 0), p_dyn_lacp_updated_time := now, p_dyn_last_lacp_pkt := pkt\<rparr>
      in if cold_start then set_actor LACP_ACTOR_NOTCONFIGURED p
         else if \<not> running p then set_actor LACP_ACTOR_NONE p
         else if pkt = None then set_actor LACP_ACTOR_INIT p
         else if lacp_up then set_actor LACP_ACTOR_UP p
         else set_actor LACP_ACTOR_NOSYNC p)"

definition lacp_port_update :: "bool \<Rightarrow> bool \<Rightarrow> port \<Rightarrow> port" where
  "lacp_port_update selected cold_start p =
     (if cold_start then set_role LACP_PORT_NOTCONFIGURED p
      else if p_lacp_selected p then set_role LACP_PORT_SELECTED p
      else if p_lacp_unselected p then set_role LACP_PORT_UNSELECTED p
      else if selected then set_role LACP_PORT_SELECTED p
      else if p_lacp_standby p then set_role LACP_PORT_STANDBY p
      else set_role LACP_PORT_UNSELECTED p)"

text \<open>The sync, collecting and distributing flags.\<close>

definition get_lacp_flags :: "port \<Rightarrow> bool \<times> bool \<times> bool" where
  "get_lacp_flags p =
     (if p_lacp_collect_and_distribute p then (True, True, True)
      else if is_port_standby p then (True, False, False)
      else if is_port_selected p then (True, True, True)
      else (False, False, False))"

section \<open>The stack link\<close>

definition is_stack_admin_down :: "port \<Rightarrow> bool" where "is_stack_admin_down p \<longleftrightarrow> p_dyn_stack_current_state p = STACK_STATE_ADMIN_DOWN"
definition is_stack_none :: "port \<Rightarrow> bool" where "is_stack_none p \<longleftrightarrow> p_dyn_stack_current_state p = STACK_STATE_NONE"
definition is_stack_init :: "port \<Rightarrow> bool" where "is_stack_init p \<longleftrightarrow> p_dyn_stack_current_state p = STACK_STATE_INIT"
definition is_stack_bad :: "port \<Rightarrow> bool" where "is_stack_bad p \<longleftrightarrow> p_dyn_stack_current_state p = STACK_STATE_BAD"
definition is_stack_up :: "port \<Rightarrow> bool" where "is_stack_up p \<longleftrightarrow> p_dyn_stack_current_state p = STACK_STATE_UP"
definition is_stack_gone :: "port \<Rightarrow> bool" where "is_stack_gone p \<longleftrightarrow> p_dyn_stack_current_state p = STACK_STATE_GONE"

definition set_stack :: "stack_state \<Rightarrow> port \<Rightarrow> port" where
  "set_stack st p = p\<lparr>p_dyn_stack_current_state := st\<rparr>"

text \<open>
  \<open>stack_port_update\<close>: the port and the reason for its new state. A port that is ADMIN_DOWN returns
  its state alone, the reason is then \<open>None\<close>; a port with beacon state and no peer raises.
\<close>

datatype stack_reason = NoReason | ReasonNew | ReasonLost | ReasonCabling | ReasonUp

definition stack_port_update :: "int \<Rightarrow> port \<Rightarrow> err + port \<times> stack_reason option" where
  "stack_port_update now p =
     (if is_stack_admin_down p then Inr (p, None)
      else case p_dyn_last_seen_lldp_time p of
        None \<Rightarrow> if is_stack_none p then Inr (set_stack STACK_STATE_INIT p, Some ReasonNew) else Inr (p, Some NoReason)
      | Some last_seen \<Rightarrow>
          (case p_stack p of
             None \<Rightarrow> Inl TypeError
           | Some peer \<Rightarrow>
               let stack_correct = p_dyn_stack_correct p;
                   time_since_lldp_seen = now - last_seen;
                   num_lost_lldp = rat_of_int time_since_lldp_seen / rat_of_int (sp_send_interval peer);
                   stack_timed_out = \<not> num_lost_lldp < rat_of_int (p_max_lldp_lost p)
               in if stack_timed_out then Inr (set_stack STACK_STATE_GONE p, Some ReasonLost)
                  else if stack_correct \<noteq> Some True then Inr (set_stack STACK_STATE_BAD p, Some ReasonCabling)
                  else if \<not> is_stack_up p then Inr (set_stack STACK_STATE_UP p, Some ReasonUp)
                  else Inr (p, Some NoReason)))"

section \<open>The LACP state machine\<close>

lemma actor_update_frame [simp]:
  "p_dyn_lacp_port_selected (lacp_actor_update u now pkt c p) = p_dyn_lacp_port_selected p"
  "p_lacp_selected (lacp_actor_update u now pkt c p) = p_lacp_selected p"
  "p_lacp_unselected (lacp_actor_update u now pkt c p) = p_lacp_unselected p"
  "p_lacp_standby (lacp_actor_update u now pkt c p) = p_lacp_standby p"
  "p_number (lacp_actor_update u now pkt c p) = p_number p"
  "running (lacp_actor_update u now pkt c p) = running p"
  by (simp_all add: lacp_actor_update_def Let_def set_actor_def running_def)

lemma port_update_frame [simp]:
  "p_dyn_lacp_actor_state (lacp_port_update s c p) = p_dyn_lacp_actor_state p"
  "p_dyn_lacp_up (lacp_port_update s c p) = p_dyn_lacp_up p"
  "p_dyn_last_lacp_pkt (lacp_port_update s c p) = p_dyn_last_lacp_pkt p"
  "p_number (lacp_port_update s c p) = p_number p"
  "p_lacp_selected (lacp_port_update s c p) = p_lacp_selected p"
  "p_lacp_unselected (lacp_port_update s c p) = p_lacp_unselected p"
  "p_lacp_standby (lacp_port_update s c p) = p_lacp_standby p"
  "running (lacp_port_update s c p) = running p"
  by (simp_all add: lacp_port_update_def set_role_def running_def)

text \<open>After a LACP update a port forwards (actor UP and role SELECTED) exactly when it is running,
  the packet synchronises, and it is forced or chosen to be selected.\<close>

lemma lacp_update_forwards:
  "is_actor_up (lacp_port_update selected False (lacp_actor_update lacp_up now pkt False p)) \<and>
   is_port_selected (lacp_port_update selected False (lacp_actor_update lacp_up now pkt False p)) \<longleftrightarrow>
   running p \<and> pkt \<noteq> None \<and> lacp_up \<and> (p_lacp_selected p \<or> (\<not> p_lacp_unselected p \<and> selected))"
proof -
  have "is_actor_up (lacp_actor_update lacp_up now pkt False p) \<longleftrightarrow> running p \<and> pkt \<noteq> None \<and> lacp_up"
    by (auto simp: lacp_actor_update_def Let_def lacp_state_defs set_actor_def running_def)
  moreover have "is_port_selected (lacp_port_update selected False q) \<longleftrightarrow>
      p_lacp_selected q \<or> (\<not> p_lacp_unselected q \<and> selected)" for q
    by (auto simp: lacp_port_update_def lacp_state_defs set_role_def)
  ultimately show ?thesis by (auto simp: is_actor_up_def)
qed

section \<open>The stack link state machine\<close>

text \<open>A stack port that has heard a peer is GONE when the lost beacons reach the limit, else UP or
  BAD by its cabling; the division of the code is the comparison limit * interval <= time since the
  last beacon.\<close>

lemma stack_port_update_spec:
  assumes "\<not> is_stack_admin_down p" and "p_stack p = Some peer" and "0 < sp_send_interval peer"
    and "p_dyn_last_seen_lldp_time p = Some seen"
  shows "\<exists>q r. stack_port_update now p = Inr (q, Some r) \<and>
    p_dyn_stack_current_state q =
      (if p_max_lldp_lost p * sp_send_interval peer \<le> now - seen then STACK_STATE_GONE
       else if p_dyn_stack_correct p = Some True then STACK_STATE_UP else STACK_STATE_BAD)"
proof -
  have "rat_of_int (now - seen) / rat_of_int (sp_send_interval peer) < rat_of_int (p_max_lldp_lost p) \<longleftrightarrow>
      rat_of_int (now - seen) < rat_of_int (p_max_lldp_lost p * sp_send_interval peer)"
    using assms(3) by (simp add: divide_less_eq)
  then have "rat_of_int (now - seen) / rat_of_int (sp_send_interval peer) < rat_of_int (p_max_lldp_lost p) \<longleftrightarrow>
      \<not> p_max_lldp_lost p * sp_send_interval peer \<le> now - seen" by linarith
  then show ?thesis
    using assms by (auto simp: stack_port_update_def Let_def set_stack_def is_stack_up_def)
qed

text \<open>What happens to a stack port: a beacon arrives, or the state is updated.\<close>

inductive stack_step :: "port \<Rightarrow> port \<Rightarrow> bool" where
  beacon: "stack_step p (p\<lparr>p_dyn_last_seen_lldp_time := Some t, p_dyn_stack_correct := Some correct\<rparr>)"
| update: "stack_port_update now p = Inr (q, r) \<Longrightarrow> stack_step p q"

inductive_cases stack_stepE: "stack_step p q"

text \<open>A state is left only along these edges.\<close>

inductive stack_edge :: "stack_state \<Rightarrow> stack_state \<Rightarrow> bool" where
  stay: "stack_edge a a"
| first: "stack_edge STACK_STATE_NONE STACK_STATE_INIT"
| lost: "a \<noteq> STACK_STATE_ADMIN_DOWN \<Longrightarrow> stack_edge a STACK_STATE_GONE"
| cabling: "a \<noteq> STACK_STATE_ADMIN_DOWN \<Longrightarrow> stack_edge a STACK_STATE_BAD"
| recovered: "a \<noteq> STACK_STATE_ADMIN_DOWN \<Longrightarrow> stack_edge a STACK_STATE_UP"

inductive_simps stack_edge_simps: "stack_edge a b"

lemma stack_update_edge:
  "stack_port_update now p = Inr (q, r) \<Longrightarrow> stack_edge (p_dyn_stack_current_state p) (p_dyn_stack_current_state q)"
  by (auto simp: stack_port_update_def Let_def set_stack_def is_stack_admin_down_def is_stack_none_def is_stack_up_def
      stack_edge_simps split: option.splits if_splits)

lemma stack_update_frame:
  "stack_port_update now p = Inr (q, r) \<Longrightarrow> p_stack q = p_stack p \<and> (r = None \<longleftrightarrow> is_stack_admin_down p)"
  by (auto simp: stack_port_update_def Let_def set_stack_def split: option.splits if_splits)

lemma stack_step_edge:
  "stack_step p q \<Longrightarrow> stack_edge (p_dyn_stack_current_state p) (p_dyn_stack_current_state q) \<and> p_stack q = p_stack p"
  by (erule stack_stepE) (auto simp: stack_edge_simps dest: stack_update_edge stack_update_frame)

text \<open>A stack port that starts with no state never becomes administratively down and its update
  never raises, whatever beacons it hears.\<close>

lemma stack_run_total:
  assumes "stack_step\<^sup>*\<^sup>* p q" and "p_dyn_stack_current_state p = STACK_STATE_NONE" and "p_stack p \<noteq> None"
  shows "p_dyn_stack_current_state q \<noteq> STACK_STATE_ADMIN_DOWN \<and> (\<exists>q' r. stack_port_update now q = Inr (q', Some r))"
proof -
  from assms(1) have "p_dyn_stack_current_state q \<noteq> STACK_STATE_ADMIN_DOWN \<and> p_stack q \<noteq> None"
  proof induction
    case base
    then show ?case using assms(2,3) by simp
  next
    case (step q r)
    then show ?case using stack_step_edge [OF step.hyps(2)] by (auto simp: stack_edge_simps)
  qed
  moreover from this have "\<exists>q' r. stack_port_update now q = Inr (q', Some r)"
    by (auto simp: stack_port_update_def Let_def is_stack_admin_down_def split: option.splits)
  ultimately show ?thesis by blast
qed

subsection \<open>Witnesses\<close>

definition example_lacp_pkt :: lacp_pkt where
  "example_lacp_pkt = \<lparr>lp_actor_system = ''0e:00:00:00:00:02'', lp_actor_state_synchronization = True, lp_actor_key = 1, lp_actor_port = 1,
     lp_actor_system_priority = 65535, lp_actor_port_priority = 255, lp_actor_state_defaulted = 0, lp_actor_state_expired = 0,
     lp_actor_state_timeout = 1, lp_actor_state_collecting = 1, lp_actor_state_distributing = 1,
     lp_actor_state_aggregation = 1, lp_actor_state_activity = 1, lp_text = ''lacp''\<rparr>"

definition example_stack_port :: port where
  "example_stack_port = (default_port 5)\<lparr>p_stack := Some \<lparr>sp_dp = ''sw2'', sp_port = 5, sp_send_interval = 5\<rparr>\<rparr>"

lemma stack_port_update_spec_witness:
  "\<exists>q r. stack_port_update 115 (example_stack_port\<lparr>p_dyn_last_seen_lldp_time := Some 100, p_dyn_stack_correct := Some True\<rparr>) =
     Inr (q, Some r) \<and> p_dyn_stack_current_state q = STACK_STATE_GONE"
  using stack_port_update_spec [of "example_stack_port\<lparr>p_dyn_last_seen_lldp_time := Some 100, p_dyn_stack_correct := Some True\<rparr>"
      "\<lparr>sp_dp = ''sw2'', sp_port = 5, sp_send_interval = 5\<rparr>" 100 115]
  by (simp add: example_stack_port_def default_port_def is_stack_admin_down_def)

lemma stack_run_total_witness:
  "\<exists>q' r. stack_port_update 7 (example_stack_port\<lparr>p_dyn_last_seen_lldp_time := Some 5, p_dyn_stack_correct := Some False\<rparr>) = Inr (q', Some r)"
proof -
  have "stack_step\<^sup>*\<^sup>* example_stack_port (example_stack_port\<lparr>p_dyn_last_seen_lldp_time := Some 5, p_dyn_stack_correct := Some False\<rparr>)"
    by (intro r_into_rtranclp beacon)
  from stack_run_total [OF this] show ?thesis by (simp add: example_stack_port_def default_port_def)
qed

end
