(* ===== verification/NextHop.thy ===== *)
theory NextHop imports Port begin

text \<open>
  A next hop of a router, the class \<^verbatim>\<open>NextHop\<close> of \<^verbatim>\<open>faucet/valve_route.py\<close>: what is known of the neighbour
  with an IP address, and when to ask for it again.

  \<open>randint\<close> is \<^verbatim>\<open>random.randint\<close>, a number between its arguments, both included.
\<close>

record nexthop =
  nh_cache_time :: int
  nh_eth_src :: "int option"
  nh_last_retry_time :: "int option"
  nh_next_retry_time :: "int option"
  nh_resolve_retries :: nat
  nh_port :: "port option"

definition new_nexthop :: "int option \<Rightarrow> port option \<Rightarrow> int \<Rightarrow> nexthop" where
  "new_nexthop eth_src port now =
     \<lparr>nh_cache_time = now, nh_eth_src = eth_src, nh_last_retry_time = None,
      nh_next_retry_time = (if eth_src = None then Some now else None), nh_resolve_retries = 0, nh_port = port\<rparr>"

definition age :: "nexthop \<Rightarrow> int \<Rightarrow> int" where
  "age nh now = now - nh_cache_time nh"

definition dead :: "nexthop \<Rightarrow> int \<Rightarrow> bool" where
  "dead nh max_fib_retries \<longleftrightarrow> int (nh_resolve_retries nh) \<ge> max_fib_retries"

definition next_retry :: "(int \<Rightarrow> int \<Rightarrow> int) \<Rightarrow> nexthop \<Rightarrow> int \<Rightarrow> int \<Rightarrow> nexthop" where
  "next_retry randint nh now max_resolve_backoff_time =
     (let retries = nh_resolve_retries nh + 1
      in nh\<lparr>nh_resolve_retries := retries, nh_last_retry_time := Some now,
            nh_next_retry_time := Some (now + min (2 ^ retries + randint 0 (int retries)) max_resolve_backoff_time)\<rparr>)"

definition resolution_due :: "nexthop \<Rightarrow> int \<Rightarrow> int \<Rightarrow> bool" where
  "resolution_due nh now max_age =
     (if nh_eth_src nh \<noteq> None \<and> age nh now < max_age then False
      else case nh_next_retry_time nh of None \<Rightarrow> True | Some t \<Rightarrow> t < now)"

section \<open>Backing off\<close>

definition randint_ok :: "(int \<Rightarrow> int \<Rightarrow> int) \<Rightarrow> bool" where
  "randint_ok randint \<longleftrightarrow> (\<forall>a b. a \<le> b \<longrightarrow> a \<le> randint a b \<and> randint a b \<le> b)"

lemma randint_okD: "randint_ok r \<Longrightarrow> a \<le> b \<Longrightarrow> a \<le> r a b \<and> r a b \<le> b"
  by (simp add: randint_ok_def)

lemma next_retry_sel [simp]:
  "nh_resolve_retries (next_retry r nh now B) = nh_resolve_retries nh + 1"
  "nh_eth_src (next_retry r nh now B) = nh_eth_src nh"
  "nh_port (next_retry r nh now B) = nh_port nh"
  "nh_cache_time (next_retry r nh now B) = nh_cache_time nh"
  "nh_last_retry_time (next_retry r nh now B) = Some now"
  by (simp_all add: next_retry_def Let_def)

lemma next_retry_time_bounds:
  assumes "randint_ok r"
  shows "\<exists>t. nh_next_retry_time (next_retry r nh now B) = Some t \<and>
    now + min (2 ^ (nh_resolve_retries nh + 1)) B \<le> t \<and> t \<le> now + B"
  using randint_okD [OF assms, of 0 "int (nh_resolve_retries nh + 1)"] by (auto simp: next_retry_def Let_def)

text \<open>A new next hop that is not resolved is not due at the moment it is made, only later.\<close>

lemma new_nexthop_due: "resolution_due (new_nexthop None p now) t max_age \<longleftrightarrow> now < t"
  by (simp add: resolution_due_def new_nexthop_def)

text \<open>A run of retries: each time the next hop is due it is asked for again.\<close>

definition visit :: "(int \<Rightarrow> int \<Rightarrow> int) \<Rightarrow> int \<Rightarrow> int \<Rightarrow> int \<Rightarrow> nexthop \<Rightarrow> nexthop" where
  "visit r B max_age now nh = (if resolution_due nh now max_age then next_retry r nh now B else nh)"

end
