(* ===== verification/Vlan.thy ===== *)
theory Vlan imports NextHop begin

text \<open>
  A VLAN: its ports, the hosts learned on it, its routes and the ports it floods to
  (\<^verbatim>\<open>faucet/vlan.py\<close>).

  A MAC address is the number its canonical text denotes. A set of host entries is a list without
  repeated keys; entries are equal when MAC address and port number are. The values of
  \<^verbatim>\<open>ipaddress\<close> are records: an address, a network and an interface (an address with a prefix length).
\<close>

section \<open>IP addresses\<close>

record ipaddr =
  ip_version :: int
  ip_value :: int

record ipnet =
  net_version :: int
  net_address :: int
  net_prefixlen :: nat

record ipinterface =
  if_ip :: ipaddr
  if_prefixlen :: nat

definition max_prefixlen :: "int \<Rightarrow> nat" where
  "max_prefixlen ipv = (if ipv = 4 then 32 else 128)"

definition if_network :: "ipinterface \<Rightarrow> ipnet" where
  "if_network i =
     (let v = ip_version (if_ip i); host = max_prefixlen v - if_prefixlen i
      in \<lparr>net_version = v, net_address = push_bit host (drop_bit host (ip_value (if_ip i))), net_prefixlen = if_prefixlen i\<rparr>)"

definition ip_in_net :: "ipaddr \<Rightarrow> ipnet \<Rightarrow> bool" where
  "ip_in_net ip n \<longleftrightarrow> ip_version ip = net_version n \<and>
     (let host = max_prefixlen (net_version n) - net_prefixlen n
      in drop_bit host (ip_value ip) = drop_bit host (net_address n))"

definition network_addr :: "ipnet \<Rightarrow> ipaddr" where
  "network_addr n = \<lparr>ip_version = net_version n, ip_value = net_address n\<rparr>"

definition broadcast_addr :: "ipnet \<Rightarrow> ipaddr" where
  "broadcast_addr n =
     \<lparr>ip_version = net_version n,
      ip_value = or (net_address n) (2 ^ (max_prefixlen (net_version n) - net_prefixlen n) - 1)\<rparr>"

section \<open>State\<close>

record host_entry =
  he_eth_src :: int
  he_port :: port
  he_cache_time :: int

record vlan =
  v_vid :: int
  v_tagged :: "port list"
  v_untagged :: "port list"
  v_dot1x_untagged :: "port list"
  v_unicast_flood :: bool
  v_max_hosts :: int
  v_faucet_vips :: "ipinterface list"
  v_edge_learn_stack_root :: bool
  v_acls_in :: "string list"
  v_faucet_mac :: string
  v_minimum_ip_size_check :: bool
  v_dyn_last_time_hosts_expired :: "int option"
  v_dyn_host_cache :: "(int, host_entry) dict"
  v_dyn_host_cache_by_port :: "(int, host_entry list) dict"
  v_dyn_host_cache_stats_stale :: "(int, bool) dict"
  v_dyn_oldest_host_time :: "int option"
  v_dyn_learn_ban_count :: int
  v_dyn_routes :: "(int, (ipnet, ipaddr) dict) dict"
  v_dyn_gws :: "(int, (ipaddr, ipnet list) dict) dict"
  v_dyn_host_gws :: "(int, ipaddr list) dict"
  v_dyn_route_gws :: "(int, ipaddr list) dict"
  v_proactive_arp_limit :: int
  v_proactive_nd_limit :: int
  v_targeted_gw_resolution :: bool
  v_dyn_neigh_cache :: "(int, (ipaddr, nexthop) dict) dict"
  v_dyn_unresolved_route_ip_gws :: "(int, ipaddr list) dict"
  v_dyn_unresolved_host_ip_gws :: "(int, ipaddr list) dict"

definition new_vlan :: "int \<Rightarrow> vlan" where
  "new_vlan vid =
     \<lparr>v_vid = vid, v_tagged = [], v_untagged = [], v_dot1x_untagged = [], v_unicast_flood = True, v_max_hosts = 256,
      v_faucet_vips = [], v_edge_learn_stack_root = True, v_acls_in = [], v_faucet_mac = ''0e:00:00:00:00:01'',
      v_minimum_ip_size_check = True, v_dyn_last_time_hosts_expired = None, v_dyn_host_cache = [], v_dyn_host_cache_by_port = [],
      v_dyn_host_cache_stats_stale = [], v_dyn_oldest_host_time = None, v_dyn_learn_ban_count = 0,
      v_dyn_routes = [], v_dyn_gws = [], v_dyn_host_gws = [], v_dyn_route_gws = [],
      v_proactive_arp_limit = 512, v_proactive_nd_limit = 512, v_targeted_gw_resolution = True,
      v_dyn_neigh_cache = [], v_dyn_unresolved_route_ip_gws = [], v_dyn_unresolved_host_ip_gws = []\<rparr>"

definition vid_valid :: "int \<Rightarrow> bool" where
  "vid_valid vid \<longleftrightarrow> MIN_VID \<le> vid \<and> vid \<le> MAX_VID"

definition reset_caches :: "vlan \<Rightarrow> vlan" where
  "reset_caches v = v\<lparr>v_dyn_host_cache := [], v_dyn_host_cache_by_port := [], v_dyn_host_cache_stats_stale := [],
     v_dyn_neigh_cache := [], v_dyn_unresolved_route_ip_gws := [], v_dyn_unresolved_host_ip_gws := []\<rparr>"

text \<open>\<open>reset_ports\<close>: the VLAN's ports by their configuration, in order of port number.\<close>

definition reset_ports :: "port list \<Rightarrow> vlan \<Rightarrow> vlan" where
  "reset_ports ports v =
     (let sorted_ports = sort_key p_number ports
      in v\<lparr>v_tagged := filter (\<lambda>p. v_vid v \<in> set (p_tagged_vlans p)) sorted_ports,
          v_untagged := filter (\<lambda>p. p_native_vlan p = Some (v_vid v) \<and> p_dyn_dot1x_native_vlan p = None) sorted_ports,
          v_dot1x_untagged := filter (\<lambda>p. p_dyn_dot1x_native_vlan p = Some (v_vid v)) sorted_ports\<rparr>)"

section \<open>The host cache\<close>

text \<open>A set of host entries: a list with one entry per key; \<open>set.remove\<close> raises on a missing entry.\<close>

definition entry_key :: "host_entry \<Rightarrow> int \<times> int" where
  "entry_key e = (he_eth_src e, p_number (he_port e))"

definition set_add :: "host_entry \<Rightarrow> host_entry list \<Rightarrow> host_entry list" where
  "set_add e es = (if entry_key e \<in> entry_key ` set es then es else es @ [e])"

definition set_remove :: "host_entry \<Rightarrow> host_entry list \<Rightarrow> err + host_entry list" where
  "set_remove e es =
     (if entry_key e \<in> entry_key ` set es then Inr (filter (\<lambda>x. entry_key x \<noteq> entry_key e) es) else Inl KeyError)"

definition cached_host :: "int \<Rightarrow> vlan \<Rightarrow> host_entry option" where
  "cached_host eth_src v = dict_get (v_dyn_host_cache v) eth_src"

definition remove_from_port :: "host_entry \<Rightarrow> vlan \<Rightarrow> err + vlan" where
  "remove_from_port e v =
     bindE (dict_getE (v_dyn_host_cache_by_port v) (p_number (he_port e))) (\<lambda>es.
     bindE (set_remove e es) (\<lambda>es'.
     Inr (v\<lparr>v_dyn_host_cache_by_port := dict_set (p_number (he_port e)) es' (v_dyn_host_cache_by_port v)\<rparr>)))"

definition set_stats_stale :: "int \<Rightarrow> vlan \<Rightarrow> vlan" where
  "set_stats_stale port_no v = v\<lparr>v_dyn_host_cache_stats_stale := dict_set port_no True (v_dyn_host_cache_stats_stale v)\<rparr>"

definition add_cache_host :: "int \<Rightarrow> port \<Rightarrow> int \<Rightarrow> vlan \<Rightarrow> err + vlan" where
  "add_cache_host eth_src port cache_time v =
     bindE (case cached_host eth_src v of
              None \<Rightarrow> Inr (set_stats_stale (p_number port) v)
            | Some existing_entry \<Rightarrow> remove_from_port existing_entry v) (\<lambda>v.
     let entry = \<lparr>he_eth_src = eth_src, he_port = port, he_cache_time = cache_time\<rparr>;
         by_port = v_dyn_host_cache_by_port v;
         by_port = (if dict_get by_port (p_number port) = None then dict_set (p_number port) [] by_port else by_port);
         es = (case dict_get by_port (p_number port) of None \<Rightarrow> [] | Some es \<Rightarrow> es)
     in Inr (v\<lparr>v_dyn_host_cache_by_port := dict_set (p_number port) (set_add entry es) by_port,
              v_dyn_host_cache := dict_set eth_src entry (v_dyn_host_cache v)\<rparr>))"

definition expire_cache_host :: "int \<Rightarrow> vlan \<Rightarrow> err + vlan" where
  "expire_cache_host eth_src v =
     (case cached_host eth_src v of
        None \<Rightarrow> Inr v
      | Some entry \<Rightarrow>
          bindE (remove_from_port entry (set_stats_stale (p_number (he_port entry)) v)) (\<lambda>v.
          Inr (v\<lparr>v_dyn_host_cache := dict_del eth_src (v_dyn_host_cache v)\<rparr>)))"

definition cached_hosts_on_port :: "port \<Rightarrow> vlan \<Rightarrow> host_entry list" where
  "cached_hosts_on_port port v = (case dict_get (v_dyn_host_cache_by_port v) (p_number port) of None \<Rightarrow> [] | Some es \<Rightarrow> es)"

definition cached_hosts_count_on_port :: "port \<Rightarrow> vlan \<Rightarrow> nat" where
  "cached_hosts_count_on_port port v = length (cached_hosts_on_port port v)"

definition cached_host_on_port :: "int \<Rightarrow> port \<Rightarrow> vlan \<Rightarrow> host_entry option" where
  "cached_host_on_port eth_src port v =
     (case cached_host eth_src v of Some entry \<Rightarrow> if port_eq port (he_port entry) then Some entry else None | None \<Rightarrow> None)"

definition clear_cache_hosts_on_port :: "port \<Rightarrow> vlan \<Rightarrow> err + vlan" where
  "clear_cache_hosts_on_port port v = foldE (\<lambda>e v. expire_cache_host (he_eth_src e) v) (cached_hosts_on_port port v) v"

definition expire_cache_hosts :: "int \<Rightarrow> int \<Rightarrow> vlan \<Rightarrow> err + host_entry list \<times> vlan" where
  "expire_cache_hosts now learn_timeout v =
     (let min_cache_time = now - learn_timeout
      in if (case v_dyn_oldest_host_time v of None \<Rightarrow> True | Some t \<Rightarrow> t < min_cache_time) then
           let expired_hosts = filter (\<lambda>e. he_cache_time e < min_cache_time \<and> \<not> p_permanent_learn (he_port e))
                                 (dict_values (v_dyn_host_cache v))
           in bindE (foldE (\<lambda>e v. expire_cache_host (he_eth_src e) v) expired_hosts v) (\<lambda>v.
              let times = map he_cache_time (dict_values (v_dyn_host_cache v))
              in Inr (expired_hosts, v\<lparr>v_dyn_oldest_host_time := Some (if times = [] then now else Min (set times))\<rparr>))
         else Inr ([], v))"

definition hosts_count :: "vlan \<Rightarrow> nat" where
  "hosts_count v = length (v_dyn_host_cache v)"

section \<open>Routes\<close>

definition by_ipv :: "(int, 'a list) dict \<Rightarrow> int \<Rightarrow> 'a list" where
  "by_ipv d ipv = (case dict_get d ipv of None \<Rightarrow> [] | Some x \<Rightarrow> x)"

definition routes_by_ipv :: "vlan \<Rightarrow> int \<Rightarrow> (ipnet, ipaddr) dict" where
  "routes_by_ipv v ipv = by_ipv (v_dyn_routes v) ipv"

definition neigh_cache_by_ipv :: "vlan \<Rightarrow> int \<Rightarrow> (ipaddr, nexthop) dict" where
  "neigh_cache_by_ipv v ipv = by_ipv (v_dyn_neigh_cache v) ipv"

definition neigh_cache_count_by_ipv :: "vlan \<Rightarrow> int \<Rightarrow> nat" where
  "neigh_cache_count_by_ipv v ipv = length (neigh_cache_by_ipv v ipv)"

definition route_count_by_ipv :: "vlan \<Rightarrow> int \<Rightarrow> nat" where
  "route_count_by_ipv v ipv = length (routes_by_ipv v ipv)"

definition ip_dsts_for_ip_gw :: "vlan \<Rightarrow> ipaddr \<Rightarrow> ipnet list" where
  "ip_dsts_for_ip_gw v ip_gw =
     (case dict_get (by_ipv (v_dyn_gws v) (ip_version ip_gw)) ip_gw of None \<Rightarrow> [] | Some dsts \<Rightarrow> dsts)"

definition all_ip_gws :: "vlan \<Rightarrow> int \<Rightarrow> ipaddr set" where
  "all_ip_gws v ipv = set (dict_keys (by_ipv (v_dyn_gws v) ipv))"

definition is_host_fib_route :: "vlan \<Rightarrow> ipaddr \<Rightarrow> bool" where
  "is_host_fib_route v host_ip =
     (case ip_dsts_for_ip_gw v host_ip of
        [d] \<Rightarrow> net_prefixlen d = max_prefixlen (net_version d) \<and> network_addr d = host_ip
      | _ \<Rightarrow> False)"

definition list_insert :: "'a \<Rightarrow> 'a list \<Rightarrow> 'a list" where
  "list_insert x xs = (if x \<in> set xs then xs else xs @ [x])"

definition update_gw_types :: "ipaddr \<Rightarrow> vlan \<Rightarrow> vlan" where
  "update_gw_types ip_gw v =
     (let ipv = ip_version ip_gw; host = by_ipv (v_dyn_host_gws v) ipv; route = by_ipv (v_dyn_route_gws v) ipv
      in if is_host_fib_route v ip_gw
         then v\<lparr>v_dyn_host_gws := dict_set ipv (list_insert ip_gw host) (v_dyn_host_gws v),
                v_dyn_route_gws := dict_set ipv (removeAll ip_gw route) (v_dyn_route_gws v)\<rparr>
         else v\<lparr>v_dyn_route_gws := dict_set ipv (list_insert ip_gw route) (v_dyn_route_gws v),
                v_dyn_host_gws := dict_set ipv (removeAll ip_gw host) (v_dyn_host_gws v)\<rparr>)"

definition add_route :: "ipnet \<Rightarrow> ipaddr \<Rightarrow> vlan \<Rightarrow> vlan" where
  "add_route ip_dst ip_gw v =
     (let ipv = ip_version ip_gw;
          v = v\<lparr>v_dyn_routes := dict_set ipv (dict_set ip_dst ip_gw (routes_by_ipv v ipv)) (v_dyn_routes v)\<rparr>;
          gws = by_ipv (v_dyn_gws v) ipv;
          dsts = (case dict_get gws ip_gw of None \<Rightarrow> [] | Some dsts \<Rightarrow> dsts);
          v = v\<lparr>v_dyn_gws := dict_set ipv (dict_set ip_gw (list_insert ip_dst dsts) gws) (v_dyn_gws v)\<rparr>
      in update_gw_types ip_gw v)"

definition del_route :: "ipnet \<Rightarrow> vlan \<Rightarrow> err + vlan" where
  "del_route ip_dst v =
     (let ipv = net_version ip_dst
      in bindE (dict_getE (routes_by_ipv v ipv) ip_dst) (\<lambda>ip_gw.
         let v = v\<lparr>v_dyn_routes := dict_set ipv (dict_del ip_dst (routes_by_ipv v ipv)) (v_dyn_routes v)\<rparr>;
             gws = by_ipv (v_dyn_gws v) (ip_version ip_gw)
         in bindE (dict_getE gws ip_gw) (\<lambda>dsts.
            if ip_dst \<notin> set dsts then Inl KeyError
            else
              let dsts' = removeAll ip_dst dsts;
                  gws' = (if dsts' = [] then dict_del ip_gw gws else dict_set ip_gw dsts' gws);
                  v = v\<lparr>v_dyn_gws := dict_set (ip_version ip_gw) gws' (v_dyn_gws v)\<rparr>
              in Inr (update_gw_types ip_gw v))))"

section \<open>VIPs\<close>

definition faucet_vips_by_ipv :: "vlan \<Rightarrow> int \<Rightarrow> ipinterface list" where
  "faucet_vips_by_ipv v ipv = filter (\<lambda>i. ip_version (if_ip i) = ipv) (v_faucet_vips v)"

definition vlan_ipvs :: "vlan \<Rightarrow> int set" where
  "vlan_ipvs v = set (map (\<lambda>i. ip_version (if_ip i)) (v_faucet_vips v))"

definition vip_map :: "vlan \<Rightarrow> ipaddr \<Rightarrow> ipinterface option" where
  "vip_map v ipa = find (\<lambda>vip. ip_in_net ipa (if_network vip)) (v_faucet_vips v)"

definition is_faucet_vip :: "vlan \<Rightarrow> ipaddr \<Rightarrow> bool" where
  "is_faucet_vip v ipa = (case vip_map v ipa of None \<Rightarrow> False | Some vip \<Rightarrow> ipa = if_ip vip)"

definition ip_in_vip_subnet :: "vlan \<Rightarrow> ipaddr \<Rightarrow> ipinterface option" where
  "ip_in_vip_subnet v ipa =
     (case vip_map v ipa of
        None \<Rightarrow> None
      | Some vip \<Rightarrow> if ipa \<noteq> network_addr (if_network vip) \<and> ipa \<noteq> broadcast_addr (if_network vip) then Some vip else None)"

text \<open>\<open>ip_in_vip_subnet\<close> with the VIP given.\<close>

definition ip_in_subnet_of_vip :: "ipaddr \<Rightarrow> ipinterface \<Rightarrow> bool" where
  "ip_in_subnet_of_vip ipa vip \<longleftrightarrow>
     ipa \<noteq> network_addr (if_network vip) \<and> ipa \<noteq> broadcast_addr (if_network vip)"

definition is_link_local :: "ipaddr \<Rightarrow> bool" where
  "is_link_local ipa =
     (if ip_version ipa = 4
      then ip_in_net ipa \<lparr>net_version = 4, net_address = 0xA9FE0000, net_prefixlen = 16\<rparr>
      else ip_in_net ipa \<lparr>net_version = 6, net_address = 0xFE800000000000000000000000000000, net_prefixlen = 10\<rparr>)"

definition link_and_other_vips :: "vlan \<Rightarrow> int \<Rightarrow> ipinterface list \<times> ipinterface list" where
  "link_and_other_vips v ipv =
     (let vips = faucet_vips_by_ipv v ipv
      in (filter (\<lambda>vip. is_link_local (if_ip vip)) vips, filter (\<lambda>vip. \<not> is_link_local (if_ip vip)) vips))"

definition from_connected_to_vip :: "vlan \<Rightarrow> ipaddr \<Rightarrow> ipaddr \<Rightarrow> bool" where
  "from_connected_to_vip v src_ip dst_ip \<longleftrightarrow> is_faucet_vip v dst_ip \<and> ip_in_vip_subnet v src_ip \<noteq> None"

section \<open>Ports, flooding and output\<close>

definition get_ports :: "vlan \<Rightarrow> port list" where
  "get_ports v = v_tagged v @ v_untagged v @ v_dot1x_untagged v"

definition port_in :: "port \<Rightarrow> port list \<Rightarrow> bool" where
  "port_in p ps \<longleftrightarrow> (\<exists>q \<in> set ps. port_eq p q)"

definition restricted_bcast_arpnd_ports :: "vlan \<Rightarrow> port list" where
  "restricted_bcast_arpnd_ports v = filter p_restricted_bcast_arpnd (get_ports v)"

definition hairpin_ports :: "vlan \<Rightarrow> port list" where
  "hairpin_ports v = filter p_hairpin (get_ports v)"

definition mirrored_ports :: "vlan \<Rightarrow> port list" where
  "mirrored_ports v = filter (\<lambda>p. p_mirror p \<notin> {None, Some []}) (get_ports v)"

definition loop_protect_external_ports :: "vlan \<Rightarrow> port list" where
  "loop_protect_external_ports v = filter p_loop_protect_external (get_ports v)"

definition loop_protect_external_ports_up :: "vlan \<Rightarrow> port list" where
  "loop_protect_external_ports_up v = filter p_dyn_phys_up (loop_protect_external_ports v)"

definition vlan_lacp_ports :: "vlan \<Rightarrow> port list" where
  "vlan_lacp_ports v = filter (\<lambda>p. p_lacp p \<noteq> 0) (get_ports v)"

definition lacp_up_selected_ports :: "vlan \<Rightarrow> port list" where
  "lacp_up_selected_ports v = filter (\<lambda>p. is_port_selected p \<and> is_actor_up p) (vlan_lacp_ports v)"

definition group_by_lag :: "port list \<Rightarrow> (int, port list) dict" where
  "group_by_lag ports = foldl (\<lambda>d p. dict_append (p_lacp p) p d) [] ports"

definition lags :: "vlan \<Rightarrow> (int, port list) dict" where
  "lags v = group_by_lag (vlan_lacp_ports v)"

definition selected_up_lags :: "vlan \<Rightarrow> (int, port list) dict" where
  "selected_up_lags v = group_by_lag (lacp_up_selected_ports v)"

fun remove_port :: "port \<Rightarrow> port list \<Rightarrow> err + port list" where
  "remove_port p [] = Inl ValueError"
| "remove_port p (q # qs) = (if port_eq q p then Inr qs else bindE (remove_port p qs) (\<lambda>qs'. Inr (q # qs')))"

text \<open>The ports of all LAGs but for one selected member of each LAG other than the incoming one.\<close>

definition lag_excludes :: "(int, port list) dict \<Rightarrow> int \<times> port list \<Rightarrow> port list \<Rightarrow> err + port list" where
  "lag_excludes selected_ports item exclude_ports =
     (case item of (lag, ports) \<Rightarrow>
        bindE (case dict_get selected_ports lag of
                 Some (p # _) \<Rightarrow> remove_port p ports
               | _ \<Rightarrow> Inr ports) (\<lambda>ports. Inr (exclude_ports @ ports)))"

definition excluded_lag_ports :: "port option \<Rightarrow> vlan \<Rightarrow> err + port list" where
  "excluded_lag_ports in_port v =
     (let ls = lags v
      in if ls = [] then Inr []
         else
           let exclude_ports = (case in_port of
                 Some p \<Rightarrow> if p_lacp p \<noteq> 0 then (case dict_get ls (p_lacp p) of None \<Rightarrow> [] | Some ports \<Rightarrow> ports) else []
               | None \<Rightarrow> [])
           in foldE (lag_excludes (selected_up_lags v)) ls exclude_ports)"

definition exclude_native_if_dot1x :: "vlan \<Rightarrow> port list" where
  "exclude_native_if_dot1x v =
     filter (\<lambda>p. case p_dyn_dot1x_native_vlan p of None \<Rightarrow> False | Some d \<Rightarrow> d \<noteq> v_vid v) (v_untagged v)"

definition flood_ports :: "port list \<Rightarrow> bool \<Rightarrow> port list" where
  "flood_ports configured_ports exclude_unicast =
     (if exclude_unicast then filter p_unicast_flood configured_ports else configured_ports)"

definition tagged_flood_ports :: "bool \<Rightarrow> vlan \<Rightarrow> port list" where
  "tagged_flood_ports exclude_unicast v = flood_ports (v_tagged v) exclude_unicast"

definition untagged_flood_ports :: "bool \<Rightarrow> vlan \<Rightarrow> port list" where
  "untagged_flood_ports exclude_unicast v = flood_ports (v_untagged v @ v_dot1x_untagged v) exclude_unicast"

definition port_is_tagged :: "port \<Rightarrow> vlan \<Rightarrow> bool" where
  "port_is_tagged p v \<longleftrightarrow> port_in p (v_tagged v)"

definition port_is_untagged :: "port \<Rightarrow> vlan \<Rightarrow> bool" where
  "port_is_untagged p v \<longleftrightarrow> port_in p (v_untagged v) \<or> port_in p (v_dot1x_untagged v)"

text \<open>\<open>VLAN.output_port\<close>; \<open>set_external\<close> is \<open>output_table.set_(no_)external_forwarding_requested\<close>.\<close>

definition vlan_output_port ::
    "ofp \<Rightarrow> port \<Rightarrow> bool \<Rightarrow> bool option \<Rightarrow> (bool \<Rightarrow> err + action) \<Rightarrow> vlan \<Rightarrow> err + action list" where
  "vlan_output_port K port hairpin external_forwarding_requested set_external v =
     bindE (if port_is_untagged port v then Inr (pop_vlan # mirror_actions port)
            else case external_forwarding_requested of
                   None \<Rightarrow> Inr (mirror_actions port)
                 | Some b \<Rightarrow> bindE (set_external b) (\<lambda>a. Inr (mirror_actions port @ [a]))) (\<lambda>acts.
     Inr (acts @ [if hairpin then output_port (OFPP_IN_PORT K) else output_port (p_number port)]))"

text \<open>Packet-outs; \<open>packet_builder\<close> gives the bytes of the packet for a VID or none.\<close>

definition pkt_out_port :: "(int list \<Rightarrow> int list) \<Rightarrow> (int option \<Rightarrow> int list) \<Rightarrow> port \<Rightarrow> vlan \<Rightarrow> ofmsg" where
  "pkt_out_port shuffle packet_builder port v =
     packetout shuffle (p_number port) (packet_builder (if port_is_tagged port v then Some (v_vid v) else None))"

definition flood_pkt_ports ::
    "(int list \<Rightarrow> int list) \<Rightarrow> (int option \<Rightarrow> int list) \<Rightarrow> bool \<Rightarrow> vlan \<Rightarrow> int option \<times> port list \<Rightarrow> err + ofmsg list" where
  "flood_pkt_ports shuffle packet_builder multi_out v item =
     (case item of (vid, ports) \<Rightarrow>
        if ports = [] then Inr []
        else bindE (excluded_lag_ports None v) (\<lambda>exclude_ports.
          let running_port_nos = map p_number (filter (\<lambda>p. running p \<and> \<not> port_in p exclude_ports) ports)
          in Inr (if running_port_nos = [] then []
                  else if multi_out then [packetouts shuffle (shuffle running_port_nos) (packet_builder vid)]
                  else map (\<lambda>port_no. packetout shuffle port_no (packet_builder vid)) (shuffle running_port_nos))))"

definition flood_pkt ::
    "(int list \<Rightarrow> int list) \<Rightarrow> (int option \<Rightarrow> int list) \<Rightarrow> bool \<Rightarrow> vlan \<Rightarrow> err + ofmsg list" where
  "flood_pkt shuffle packet_builder multi_out v =
     bindE (mapE (flood_pkt_ports shuffle packet_builder multi_out v)
              [(Some (v_vid v), tagged_flood_ports False v), (None, untagged_flood_ports False v)]) (\<lambda>msgs.
     Inr (concat msgs))"

section \<open>The interface of the host cache\<close>

text \<open>What learning and expiry rely on: both are total, and change the entry of one host.\<close>

locale host_store =
  fixes get :: "int \<Rightarrow> 'v \<Rightarrow> host_entry option"
    and add :: "int \<Rightarrow> port \<Rightarrow> int \<Rightarrow> 'v \<Rightarrow> err + 'v"
    and expire :: "int \<Rightarrow> 'v \<Rightarrow> err + 'v"
    and ok :: "'v \<Rightarrow> bool"
  assumes add_total: "ok v \<Longrightarrow> \<exists>v'. add m p t v = Inr v' \<and> ok v' \<and>
      (\<forall>m'. get m' v' = (if m' = m then Some \<lparr>he_eth_src = m, he_port = p, he_cache_time = t\<rparr> else get m' v))"
    and expire_total: "ok v \<Longrightarrow> \<exists>v'. expire m v = Inr v' \<and> ok v' \<and> (\<forall>m'. get m' v' = (if m' = m then None else get m' v))"
begin

lemma add_Inr: "ok v \<Longrightarrow> add m p t v = Inr v' \<Longrightarrow> ok v' \<and>
    (\<forall>m'. get m' v' = (if m' = m then Some \<lparr>he_eth_src = m, he_port = p, he_cache_time = t\<rparr> else get m' v))"
  using add_total [of v m p t] by auto

lemma expire_Inr: "ok v \<Longrightarrow> expire m v = Inr v' \<Longrightarrow> ok v' \<and> (\<forall>m'. get m' v' = (if m' = m then None else get m' v))"
  using expire_total [of v m] by auto

lemma expire_all:
  "ok v \<Longrightarrow> \<exists>v'. foldE (\<lambda>e. expire (he_eth_src e)) es v = Inr v' \<and> ok v' \<and>
     (\<forall>m. get m v' = (if m \<in> he_eth_src ` set es then None else get m v))"
proof (induction es arbitrary: v)
  case Nil
  then show ?case by simp
next
  case (Cons e es)
  from expire_total [OF Cons.prems, of "he_eth_src e"] obtain u where u: "expire (he_eth_src e) v = Inr u" "ok u"
      "\<forall>m. get m u = (if m = he_eth_src e then None else get m v)" by blast
  from Cons.IH [OF u(2)] obtain w where "foldE (\<lambda>e. expire (he_eth_src e)) es u = Inr w" "ok w"
      "\<forall>m. get m w = (if m \<in> he_eth_src ` set es then None else get m u)" by blast
  with u show ?case by (intro exI [of _ w]) auto
qed

end

section \<open>The two indexes of the host cache agree\<close>

definition hosts_ok :: "vlan \<Rightarrow> bool" where
  "hosts_ok v \<longleftrightarrow>
     dict_ok (v_dyn_host_cache v) \<and> dict_ok (v_dyn_host_cache_by_port v) \<and>
     (\<forall>m e. dict_get (v_dyn_host_cache v) m = Some e \<longrightarrow> he_eth_src e = m \<and>
        (\<exists>es. dict_get (v_dyn_host_cache_by_port v) (p_number (he_port e)) = Some es \<and> e \<in> set es)) \<and>
     (\<forall>n es. dict_get (v_dyn_host_cache_by_port v) n = Some es \<longrightarrow> distinct es \<and>
        (\<forall>e \<in> set es. p_number (he_port e) = n \<and> dict_get (v_dyn_host_cache v) (he_eth_src e) = Some e))"

lemma hosts_ok_cache: "hosts_ok v \<Longrightarrow> dict_get (v_dyn_host_cache v) m = Some e \<Longrightarrow> he_eth_src e = m \<and>
    (\<exists>es. dict_get (v_dyn_host_cache_by_port v) (p_number (he_port e)) = Some es \<and> e \<in> set es)"
  by (simp add: hosts_ok_def)

lemma hosts_ok_by_port: "hosts_ok v \<Longrightarrow> dict_get (v_dyn_host_cache_by_port v) n = Some es \<Longrightarrow> e \<in> set es \<Longrightarrow>
    p_number (he_port e) = n \<and> dict_get (v_dyn_host_cache v) (he_eth_src e) = Some e"
  by (simp add: hosts_ok_def)

lemma hosts_ok_dicts: "hosts_ok v \<Longrightarrow> dict_ok (v_dyn_host_cache v)" "hosts_ok v \<Longrightarrow> dict_ok (v_dyn_host_cache_by_port v)"
  "hosts_ok v \<Longrightarrow> dict_get (v_dyn_host_cache_by_port v) n = Some es \<Longrightarrow> distinct es"
  by (simp_all add: hosts_ok_def)

text \<open>Under the invariant a key identifies an entry of a port's set.\<close>

lemma hosts_ok_key:
  assumes "hosts_ok v" and "dict_get (v_dyn_host_cache_by_port v) n = Some es" and "e \<in> set es" "x \<in> set es"
    and "entry_key x = entry_key e"
  shows "x = e"
proof -
  have "he_eth_src x = he_eth_src e" using assms(5) by (simp add: entry_key_def)
  with hosts_ok_by_port [OF assms(1,2,3)] hosts_ok_by_port [OF assms(1,2,4)] show ?thesis by simp
qed

lemma hosts_ok_reset [simp]: "hosts_ok (reset_caches v)"
  by (simp add: hosts_ok_def reset_caches_def)

lemma set_stats_stale_simps [simp]:
  "v_dyn_host_cache (set_stats_stale n v) = v_dyn_host_cache v"
  "v_dyn_host_cache_by_port (set_stats_stale n v) = v_dyn_host_cache_by_port v"
  "v_dyn_oldest_host_time (set_stats_stale n v) = v_dyn_oldest_host_time v"
  "hosts_ok (set_stats_stale n v) = hosts_ok v"
  "cached_host m (set_stats_stale n v) = cached_host m v"
  by (simp_all add: set_stats_stale_def hosts_ok_def cached_host_def)

text \<open>Taking an entry off its port's set.\<close>

lemma remove_from_port_result:
  assumes ok: "hosts_ok v" and e: "cached_host m v = Some e"
  shows "\<exists>es. dict_get (v_dyn_host_cache_by_port v) (p_number (he_port e)) = Some es \<and> e \<in> set es \<and>
    remove_from_port e v = Inr (v\<lparr>v_dyn_host_cache_by_port :=
      dict_set (p_number (he_port e)) (filter (\<lambda>x. x \<noteq> e) es) (v_dyn_host_cache_by_port v)\<rparr>)"
proof -
  from ok e obtain es where es: "dict_get (v_dyn_host_cache_by_port v) (p_number (he_port e)) = Some es" "e \<in> set es"
    using hosts_ok_cache unfolding cached_host_def by blast
  have "filter (\<lambda>x. entry_key x \<noteq> entry_key e) es = filter (\<lambda>x. x \<noteq> e) es"
    using hosts_ok_key [OF ok es(1) es(2)] by (intro filter_cong) auto
  then have "set_remove e es = Inr (filter (\<lambda>x. x \<noteq> e) es)"
    using es(2) by (simp add: set_remove_def)
  with es show ?thesis by (simp add: remove_from_port_def dict_getE_def)
qed

lemma expire_cache_host_result:
  assumes ok: "hosts_ok v"
  shows "\<exists>v'. expire_cache_host m v = Inr v' \<and> hosts_ok v' \<and>
    (\<forall>m'. cached_host m' v' = (if m' = m then None else cached_host m' v)) \<and>
    v_dyn_oldest_host_time v' = v_dyn_oldest_host_time v"
proof (cases "cached_host m v")
  case None
  then show ?thesis using ok by (auto simp: expire_cache_host_def)
next
  case (Some e)
  let ?n = "p_number (he_port e)" and ?v = "set_stats_stale (p_number (he_port e)) v"
  from remove_from_port_result [of ?v m e] ok Some obtain es where
    es: "dict_get (v_dyn_host_cache_by_port v) ?n = Some es" "e \<in> set es" and
    r: "remove_from_port e ?v = Inr (?v\<lparr>v_dyn_host_cache_by_port := dict_set ?n (filter (\<lambda>x. x \<noteq> e) es) (v_dyn_host_cache_by_port v)\<rparr>)"
    by auto
  let ?v' = "?v\<lparr>v_dyn_host_cache_by_port := dict_set ?n (filter (\<lambda>x. x \<noteq> e) es) (v_dyn_host_cache_by_port v),
    v_dyn_host_cache := dict_del m (v_dyn_host_cache v)\<rparr>"
  have m: "he_eth_src e = m" using hosts_ok_cache [OF ok] Some by (simp add: cached_host_def)
  have "expire_cache_host m v = Inr ?v'" using Some r by (simp add: expire_cache_host_def set_stats_stale_def)
  moreover have "hosts_ok ?v'"
    unfolding hosts_ok_def
  proof (intro conjI allI impI)
    show "dict_ok (v_dyn_host_cache ?v')" "dict_ok (v_dyn_host_cache_by_port ?v')"
      using hosts_ok_dicts(1,2) [OF ok] by simp_all
  next
    fix m' x assume x: "dict_get (v_dyn_host_cache ?v') m' = Some x"
    then have old: "dict_get (v_dyn_host_cache v) m' = Some x" "m' \<noteq> m" by (simp_all split: if_splits)
    from hosts_ok_cache [OF ok old(1)] obtain fs where fs: "he_eth_src x = m'"
      "dict_get (v_dyn_host_cache_by_port v) (p_number (he_port x)) = Some fs" "x \<in> set fs" by blast
    show "he_eth_src x = m'" by (rule fs(1))
    have "x \<noteq> e" using fs(1) m old(2) by auto
    with fs es show "\<exists>es. dict_get (v_dyn_host_cache_by_port ?v') (p_number (he_port x)) = Some es \<and> x \<in> set es" by auto
  next
    fix n fs assume fs: "dict_get (v_dyn_host_cache_by_port ?v') n = Some fs"
    have sub: "\<exists>gs. dict_get (v_dyn_host_cache_by_port v) n = Some gs \<and> set fs \<subseteq> set gs - {e} \<and> distinct fs"
      if ne: "n \<noteq> ?n \<longrightarrow> e \<notin> set fs"
      using fs es(1) ne hosts_ok_dicts(3) [OF ok] by (auto split: if_splits)
    moreover have "e \<notin> set fs" if "n \<noteq> ?n" using fs that hosts_ok_by_port [OF ok, of n fs e] by auto
    ultimately obtain gs where gs: "dict_get (v_dyn_host_cache_by_port v) n = Some gs" "set fs \<subseteq> set gs - {e}" "distinct fs"
      by blast
    show "distinct fs" by (rule gs(3))
    show "\<forall>x \<in> set fs. p_number (he_port x) = n \<and> dict_get (v_dyn_host_cache ?v') (he_eth_src x) = Some x"
    proof
      fix x assume x: "x \<in> set fs"
      with gs(2) have "x \<in> set gs" "x \<noteq> e" by auto
      from hosts_ok_by_port [OF ok gs(1) this(1)] \<open>x \<noteq> e\<close> Some
      show "p_number (he_port x) = n \<and> dict_get (v_dyn_host_cache ?v') (he_eth_src x) = Some x"
        by (auto simp: cached_host_def)
    qed
  qed
  ultimately show ?thesis by (intro exI [of _ ?v']) (simp add: cached_host_def)
qed

text \<open>What adding a host does to the sets of the ports before the new entry is stored.\<close>

definition forgotten :: "int \<Rightarrow> vlan \<Rightarrow> vlan \<Rightarrow> bool" where
  "forgotten m v u \<longleftrightarrow>
     v_dyn_host_cache u = v_dyn_host_cache v \<and> v_dyn_oldest_host_time u = v_dyn_oldest_host_time v \<and>
     dict_ok (v_dyn_host_cache_by_port u) \<and>
     (\<forall>n es. dict_get (v_dyn_host_cache_by_port u) n = Some es \<longrightarrow> distinct es \<and>
        (\<forall>e \<in> set es. p_number (he_port e) = n \<and> he_eth_src e \<noteq> m \<and> dict_get (v_dyn_host_cache v) (he_eth_src e) = Some e)) \<and>
     (\<forall>m' e. m' \<noteq> m \<longrightarrow> dict_get (v_dyn_host_cache v) m' = Some e \<longrightarrow>
        (\<exists>es. dict_get (v_dyn_host_cache_by_port u) (p_number (he_port e)) = Some es \<and> e \<in> set es))"

lemma forgotten_new:
  assumes "hosts_ok v" and "cached_host m v = None"
  shows "forgotten m v (set_stats_stale n v)"
  unfolding forgotten_def
proof (intro conjI allI impI)
  fix k es assume es: "dict_get (v_dyn_host_cache_by_port (set_stats_stale n v)) k = Some es"
  then show "distinct es" using hosts_ok_dicts(3) [OF assms(1)] by simp
  show "\<forall>e \<in> set es. p_number (he_port e) = k \<and> he_eth_src e \<noteq> m \<and> dict_get (v_dyn_host_cache v) (he_eth_src e) = Some e"
    using hosts_ok_by_port [OF assms(1)] es assms(2) by (fastforce simp: cached_host_def)
next
  fix m' e assume "dict_get (v_dyn_host_cache v) m' = Some e"
  then show "\<exists>es. dict_get (v_dyn_host_cache_by_port (set_stats_stale n v)) (p_number (he_port e)) = Some es \<and> e \<in> set es"
    using hosts_ok_cache [OF assms(1)] by simp
qed (use hosts_ok_dicts [OF assms(1)] in simp_all)

lemma forgotten_moved:
  assumes ok: "hosts_ok v" and e: "cached_host m v = Some e"
  shows "\<exists>u. remove_from_port e v = Inr u \<and> forgotten m v u"
proof -
  from remove_from_port_result [OF ok e] obtain es where
    es: "dict_get (v_dyn_host_cache_by_port v) (p_number (he_port e)) = Some es" "e \<in> set es" and
    r: "remove_from_port e v = Inr (v\<lparr>v_dyn_host_cache_by_port :=
      dict_set (p_number (he_port e)) (filter (\<lambda>x. x \<noteq> e) es) (v_dyn_host_cache_by_port v)\<rparr>)" (is "_ = Inr ?u") by blast
  have m: "he_eth_src e = m" using hosts_ok_cache [OF ok] e by (simp add: cached_host_def)
  have other: "he_eth_src x = m \<Longrightarrow> dict_get (v_dyn_host_cache v) (he_eth_src x) = Some x \<Longrightarrow> x = e" for x
    using e by (simp add: cached_host_def)
  have "forgotten m v ?u"
    unfolding forgotten_def
  proof (intro conjI allI impI)
    fix n fs assume fs: "dict_get (v_dyn_host_cache_by_port ?u) n = Some fs"
    show "distinct fs" using fs es hosts_ok_dicts(3) [OF ok] by (auto split: if_splits)
    show "\<forall>x \<in> set fs. p_number (he_port x) = n \<and> he_eth_src x \<noteq> m \<and> dict_get (v_dyn_host_cache v) (he_eth_src x) = Some x"
    proof
      fix x assume x: "x \<in> set fs"
      have "p_number (he_port x) = n \<and> dict_get (v_dyn_host_cache v) (he_eth_src x) = Some x \<and> x \<noteq> e"
      proof (cases "n = p_number (he_port e)")
        case True
        with fs x es hosts_ok_by_port [OF ok es(1), of x] show ?thesis by auto
      next
        case False
        with fs x hosts_ok_by_port [OF ok, of n fs x] show ?thesis by auto
      qed
      with other show "p_number (he_port x) = n \<and> he_eth_src x \<noteq> m \<and> dict_get (v_dyn_host_cache v) (he_eth_src x) = Some x"
        by blast
    qed
  next
    fix m' x assume x: "m' \<noteq> m" "dict_get (v_dyn_host_cache v) m' = Some x"
    from hosts_ok_cache [OF ok x(2)] x(1) m es
    show "\<exists>es'. dict_get (v_dyn_host_cache_by_port ?u) (p_number (he_port x)) = Some es' \<and> x \<in> set es'" by auto
  qed (use hosts_ok_dicts [OF ok] in simp_all)
  with r show ?thesis by blast
qed

lemma add_cache_host_result:
  assumes ok: "hosts_ok v"
  shows "\<exists>v'. add_cache_host m p t v = Inr v' \<and> hosts_ok v' \<and>
    (\<forall>m'. cached_host m' v' = (if m' = m then Some \<lparr>he_eth_src = m, he_port = p, he_cache_time = t\<rparr> else cached_host m' v)) \<and>
    v_dyn_oldest_host_time v' = v_dyn_oldest_host_time v"
proof -
  let ?e = "\<lparr>he_eth_src = m, he_port = p, he_cache_time = t\<rparr>"
  obtain u where u: "(case cached_host m v of None \<Rightarrow> Inr (set_stats_stale (p_number p) v)
        | Some existing_entry \<Rightarrow> remove_from_port existing_entry v) = Inr u" and f: "forgotten m v u"
    using forgotten_new [OF ok] forgotten_moved [OF ok] by (cases "cached_host m v") fastforce+
  let ?by = "v_dyn_host_cache_by_port u"
  obtain old where old: "old = (case dict_get ?by (p_number p) of None \<Rightarrow> [] | Some es \<Rightarrow> es)" by blast
  have o: "distinct old" "\<forall>e \<in> set old. p_number (he_port e) = p_number p \<and> he_eth_src e \<noteq> m \<and>
      dict_get (v_dyn_host_cache v) (he_eth_src e) = Some e"
    using f old by (auto simp: forgotten_def split: option.splits)
  then have new: "entry_key ?e \<notin> entry_key ` set old" "?e \<notin> set old" by (auto simp: entry_key_def)
  let ?by' = "dict_set (p_number p) (old @ [?e]) (if dict_get ?by (p_number p) = None then dict_set (p_number p) [] ?by else ?by)"
  let ?v' = "u\<lparr>v_dyn_host_cache_by_port := ?by', v_dyn_host_cache := dict_set m ?e (v_dyn_host_cache v)\<rparr>"
  have cache: "v_dyn_host_cache u = v_dyn_host_cache v" "v_dyn_oldest_host_time u = v_dyn_oldest_host_time v"
    using f by (simp_all add: forgotten_def)
  have add: "add_cache_host m p t v = Inr ?v'"
    using u new(1) cache(1) by (auto simp: add_cache_host_def Let_def set_add_def old split: option.splits)
  have get_by: "dict_get ?by' n = (if n = p_number p then Some (old @ [?e]) else dict_get ?by n)" for n by auto
  have "hosts_ok ?v'"
    unfolding hosts_ok_def
  proof (intro conjI allI impI)
    show "dict_ok (v_dyn_host_cache ?v')" "dict_ok (v_dyn_host_cache_by_port ?v')"
      using hosts_ok_dicts(1) [OF ok] f by (simp_all add: forgotten_def)
  next
    fix m' x assume x: "dict_get (v_dyn_host_cache ?v') m' = Some x"
    show "he_eth_src x = m'" using x hosts_ok_cache [OF ok, of m' x] by (auto split: if_splits)
    show "\<exists>es. dict_get (v_dyn_host_cache_by_port ?v') (p_number (he_port x)) = Some es \<and> x \<in> set es"
    proof (cases "m' = m")
      case True
      with x show ?thesis by auto
    next
      case False
      with x have "dict_get (v_dyn_host_cache v) m' = Some x" by simp
      with f False obtain es where "dict_get ?by (p_number (he_port x)) = Some es" "x \<in> set es"
        unfolding forgotten_def by blast
      then show ?thesis using old by auto
    qed
  next
    fix n fs assume fs: "dict_get (v_dyn_host_cache_by_port ?v') n = Some fs"
    have cases: "(n = p_number p \<and> fs = old @ [?e]) \<or> dict_get ?by n = Some fs" using fs get_by [of n] by (auto split: if_splits)
    then show "distinct fs" using o(1) new(2) f by (auto simp: forgotten_def)
    show "\<forall>x \<in> set fs. p_number (he_port x) = n \<and> dict_get (v_dyn_host_cache ?v') (he_eth_src x) = Some x"
      using cases o(2) f by (fastforce simp: forgotten_def)
  qed
  with add cache show ?thesis by (intro exI [of _ ?v']) (auto simp: cached_host_def)
qed

interpretation host_cache: host_store cached_host add_cache_host expire_cache_host hosts_ok
  by unfold_locales (use add_cache_host_result expire_cache_host_result in blast)+

section \<open>Learning and expiry on a VLAN\<close>

lemma cached_host_values: "hosts_ok v \<Longrightarrow> e \<in> set (dict_values (v_dyn_host_cache v)) \<longleftrightarrow> cached_host (he_eth_src e) v = Some e"
proof
  assume ok: "hosts_ok v" and "e \<in> set (dict_values (v_dyn_host_cache v))"
  then obtain m where "dict_get (v_dyn_host_cache v) m = Some e" by (auto simp: dict_values_get hosts_ok_dicts(1))
  with hosts_ok_cache [OF ok this] show "cached_host (he_eth_src e) v = Some e" by (simp add: cached_host_def)
qed (auto simp: dict_values_get hosts_ok_dicts(1) cached_host_def)

lemma clear_hosts_result:
  assumes ok: "hosts_ok v"
  shows "\<exists>v'. clear_cache_hosts_on_port p v = Inr v' \<and> hosts_ok v' \<and>
    (\<forall>m. cached_host m v' = (case cached_host m v of None \<Rightarrow> None | Some e \<Rightarrow> if port_eq p (he_port e) then None else Some e))"
proof -
  from host_cache.expire_all [OF ok, of "cached_hosts_on_port p v"] obtain v' where
    v': "clear_cache_hosts_on_port p v = Inr v'" "hosts_ok v'"
    "\<forall>m. cached_host m v' = (if m \<in> he_eth_src ` set (cached_hosts_on_port p v) then None else cached_host m v)"
    unfolding clear_cache_hosts_on_port_def by blast
  have "m \<in> he_eth_src ` set (cached_hosts_on_port p v) \<longleftrightarrow> (\<exists>e. cached_host m v = Some e \<and> port_eq p (he_port e))" for m
  proof
    assume "m \<in> he_eth_src ` set (cached_hosts_on_port p v)"
    then obtain e es where "dict_get (v_dyn_host_cache_by_port v) (p_number p) = Some es" "e \<in> set es" "m = he_eth_src e"
      by (cases "dict_get (v_dyn_host_cache_by_port v) (p_number p)") (auto simp: cached_hosts_on_port_def)
    with hosts_ok_by_port [OF ok, of "p_number p" es e] show "\<exists>e. cached_host m v = Some e \<and> port_eq p (he_port e)"
      by (auto simp: cached_host_def port_eq_def)
  next
    assume "\<exists>e. cached_host m v = Some e \<and> port_eq p (he_port e)"
    then obtain e where e: "dict_get (v_dyn_host_cache v) m = Some e" "p_number p = p_number (he_port e)"
      by (auto simp: cached_host_def port_eq_def)
    from hosts_ok_cache [OF ok e(1)] e(2) show "m \<in> he_eth_src ` set (cached_hosts_on_port p v)"
      by (force simp: cached_hosts_on_port_def)
  qed
  with v' show ?thesis by (intro exI [of _ v']) (auto split: option.splits)
qed

text \<open>No cached host is older than the recorded oldest time.\<close>

definition oldest_ok :: "vlan \<Rightarrow> bool" where
  "oldest_ok v \<longleftrightarrow> (\<forall>t m e. v_dyn_oldest_host_time v = Some t \<longrightarrow> cached_host m v = Some e \<longrightarrow> t \<le> he_cache_time e)"

lemma expire_hosts_result:
  assumes ok: "hosts_ok v" and old: "oldest_ok v"
  shows "\<exists>expired v'. expire_cache_hosts now timeout v = Inr (expired, v') \<and> hosts_ok v' \<and> oldest_ok v' \<and>
    set expired = {e. cached_host (he_eth_src e) v = Some e \<and> he_cache_time e < now - timeout \<and> \<not> p_permanent_learn (he_port e)} \<and>
    (\<forall>m. cached_host m v' = (case cached_host m v of None \<Rightarrow> None
       | Some e \<Rightarrow> if he_cache_time e < now - timeout \<and> \<not> p_permanent_learn (he_port e) then None else Some e))"
proof (cases "case v_dyn_oldest_host_time v of None \<Rightarrow> True | Some t \<Rightarrow> t < now - timeout")
  case False
  then obtain t where "v_dyn_oldest_host_time v = Some t" "now - timeout \<le> t" by (auto split: option.splits)
  then have fresh: "cached_host m v = Some e \<Longrightarrow> now - timeout \<le> he_cache_time e" for m e
    using old unfolding oldest_ok_def by force
  have "expire_cache_hosts now timeout v = Inr ([], v)" using False by (simp add: expire_cache_hosts_def)
  moreover have "{e. cached_host (he_eth_src e) v = Some e \<and> he_cache_time e < now - timeout \<and> \<not> p_permanent_learn (he_port e)} = {}"
    using fresh by force
  moreover have "\<not> he_cache_time e < now - timeout" if "cached_host m v = Some e" for m e using fresh [OF that] by simp
  ultimately show ?thesis using ok old by (auto split: option.splits)
next
  case True
  let ?P = "\<lambda>e. he_cache_time e < now - timeout \<and> \<not> p_permanent_learn (he_port e)"
  let ?expired = "filter ?P (dict_values (v_dyn_host_cache v))"
  from host_cache.expire_all [OF ok, of ?expired] obtain u where
    u: "foldE (\<lambda>e. expire_cache_host (he_eth_src e)) ?expired v = Inr u" "hosts_ok u"
    "\<forall>m. cached_host m u = (if m \<in> he_eth_src ` set ?expired then None else cached_host m v)" by blast
  let ?times = "map he_cache_time (dict_values (v_dyn_host_cache u))"
  let ?v' = "u\<lparr>v_dyn_oldest_host_time := Some (if ?times = [] then now else Min (set ?times))\<rparr>"
  have run: "expire_cache_hosts now timeout v = Inr (?expired, ?v')"
    using True u(1) by (simp add: expire_cache_hosts_def Let_def)
  have ok': "hosts_ok ?v'" using u(2) by (simp add: hosts_ok_def)
  have "oldest_ok ?v'"
    unfolding oldest_ok_def
  proof (intro allI impI)
    fix t m e assume t: "v_dyn_oldest_host_time ?v' = Some t" and e: "cached_host m ?v' = Some e"
    then have "cached_host m u = Some e" by (simp add: cached_host_def)
    then have "e \<in> set (dict_values (v_dyn_host_cache u))"
      using cached_host_values [OF u(2)] hosts_ok_cache [OF u(2)] by (auto simp: cached_host_def)
    then have "he_cache_time e \<in> set ?times" by simp
    then have "?times \<noteq> []" "Min (set ?times) \<le> he_cache_time e" by (auto intro: Min_le)
    with t show "t \<le> he_cache_time e" by simp
  qed
  have set_e: "set ?expired = {e. cached_host (he_eth_src e) v = Some e \<and> ?P e}"
    using cached_host_values [OF ok] by auto
  have "m \<in> he_eth_src ` set ?expired \<longleftrightarrow> (\<exists>e. cached_host m v = Some e \<and> ?P e)" for m
  proof
    assume "m \<in> he_eth_src ` set ?expired"
    then show "\<exists>e. cached_host m v = Some e \<and> ?P e" unfolding set_e by blast
  next
    assume "\<exists>e. cached_host m v = Some e \<and> ?P e"
    then obtain e where e: "cached_host m v = Some e" "?P e" by blast
    then have "he_eth_src e = m" using hosts_ok_cache [OF ok] by (simp add: cached_host_def)
    with e show "m \<in> he_eth_src ` set ?expired" unfolding set_e by blast
  qed
  then have "\<forall>m. cached_host m ?v' = (case cached_host m v of None \<Rightarrow> None | Some e \<Rightarrow> if ?P e then None else Some e)"
    using u(3) by (auto simp: cached_host_def split: option.splits)
  with run ok' \<open>oldest_ok ?v'\<close> set_e show ?thesis by blast
qed

text \<open>The two caches count the same hosts.\<close>

lemma hosts_count_by_port:
  assumes ok: "hosts_ok v"
  shows "hosts_count v = sum_list (map length (dict_values (v_dyn_host_cache_by_port v)))"
proof -
  let ?by = "v_dyn_host_cache_by_port v" and ?cache = "v_dyn_host_cache v"
  have cached: "e \<in> set (concat (dict_values ?by)) \<longleftrightarrow> e \<in> set (dict_values ?cache)" for e
  proof -
    have "e \<in> set (concat (dict_values ?by)) \<longleftrightarrow> (\<exists>n es. dict_get ?by n = Some es \<and> e \<in> set es)"
      using dict_values_get [OF hosts_ok_dicts(2) [OF ok]] by (auto simp: Bex_def)
    also have "\<dots> \<longleftrightarrow> cached_host (he_eth_src e) v = Some e"
      using hosts_ok_by_port [OF ok] hosts_ok_cache [OF ok] by (fastforce simp: cached_host_def)
    finally show ?thesis using cached_host_values [OF ok] by simp
  qed
  have "distinct (concat (dict_values ?by))"
  proof -
    have "distinct (concat (map snd d))"
      if "distinct (map fst d)" "\<forall>(n, es) \<in> set d. distinct es \<and> (\<forall>e \<in> set es. p_number (he_port e) = n)" for d
      using that
    proof (induction d)
      case Nil
      then show ?case by simp
    next
      case (Cons x d)
      then show ?case by (cases x) (force simp: image_iff)
    qed
    moreover have "\<forall>(n, es) \<in> set ?by. distinct es \<and> (\<forall>e \<in> set es. p_number (he_port e) = n)"
    proof (intro ballI, clarify)
      fix n es assume "(n, es) \<in> set ?by"
      then have "dict_get ?by n = Some es" using hosts_ok_dicts(2) [OF ok] by (simp add: dict_ok_in)
      with hosts_ok_dicts(3) [OF ok this] hosts_ok_by_port [OF ok this]
      show "distinct es \<and> (\<forall>e \<in> set es. p_number (he_port e) = n)" by blast
    qed
    ultimately show ?thesis using hosts_ok_dicts(2) [OF ok] by (simp add: dict_values_def dict_ok_def)
  qed
  moreover have "distinct (dict_values ?cache)"
  proof -
    have "inj_on snd (set ?cache)"
    proof (rule inj_onI)
      fix x y assume x: "x \<in> set ?cache" and y: "y \<in> set ?cache" and eq: "snd x = snd y"
      have "he_eth_src (snd x) = fst x" "he_eth_src (snd y) = fst y"
        using hosts_ok_cache [OF ok] x y hosts_ok_dicts(1) [OF ok] by (metis dict_ok_in prod.collapse)+
      with eq show "x = y" by (simp add: prod_eq_iff)
    qed
    moreover have "distinct ?cache" using hosts_ok_dicts(1) [OF ok] by (simp add: dict_ok_def distinct_map)
    ultimately show ?thesis by (simp add: dict_values_def distinct_map)
  qed
  ultimately have "length (concat (dict_values ?by)) = length (dict_values ?cache)"
    using cached by (metis (no_types, lifting) distinct_card subsetI subset_antisym)
  then show ?thesis by (simp add: hosts_count_def dict_values_def length_concat)
qed

text \<open>Everything that happens to the host cache of a VLAN.\<close>

inductive host_step :: "vlan \<Rightarrow> vlan \<Rightarrow> bool" where
  learn: "(case v_dyn_oldest_host_time v of None \<Rightarrow> True | Some t0 \<Rightarrow> t0 \<le> t) \<Longrightarrow> add_cache_host m p t v = Inr v' \<Longrightarrow> host_step v v'"
| forget: "expire_cache_host m v = Inr v' \<Longrightarrow> host_step v v'"
| clear: "clear_cache_hosts_on_port p v = Inr v' \<Longrightarrow> host_step v v'"
| expire: "expire_cache_hosts now timeout v = Inr (expired, v') \<Longrightarrow> host_step v v'"
| reset: "host_step v (reset_caches v)"

inductive_cases host_stepE: "host_step v v'"

lemma oldest_kept:
  "oldest_ok v \<Longrightarrow> v_dyn_oldest_host_time v' = v_dyn_oldest_host_time v \<Longrightarrow>
     (\<And>m e. cached_host m v' = Some e \<Longrightarrow> cached_host m v = Some e) \<Longrightarrow> oldest_ok v'"
  unfolding oldest_ok_def by metis

lemma expire_oldest: "expire_cache_host m v = Inr v' \<Longrightarrow> v_dyn_oldest_host_time v' = v_dyn_oldest_host_time v"
  by (auto simp: expire_cache_host_def remove_from_port_def bindE_Inr set_stats_stale_def split: option.splits)

lemma host_step_ok:
  assumes "host_step v v'" and ok: "hosts_ok v" "oldest_ok v"
  shows "hosts_ok v' \<and> oldest_ok v'"
  using assms(1)
proof cases
  case (learn t m p)
  from add_cache_host_result [OF ok(1), of m p t] learn(2) have
    a: "hosts_ok v'" "v_dyn_oldest_host_time v' = v_dyn_oldest_host_time v"
      "\<forall>m'. cached_host m' v' = (if m' = m then Some \<lparr>he_eth_src = m, he_port = p, he_cache_time = t\<rparr> else cached_host m' v)"
    by auto
  have "oldest_ok v'"
    using ok(2) learn(1) a(2,3) unfolding oldest_ok_def by (auto split: option.splits if_splits)
  with a show ?thesis by blast
next
  case (forget m)
  from host_cache.expire_Inr [OF ok(1) forget] have "hosts_ok v'" "\<forall>m'. cached_host m' v' = (if m' = m then None else cached_host m' v)"
    by simp_all
  moreover from this have "cached_host m' v' = Some e \<Longrightarrow> cached_host m' v = Some e" for m' e by (auto split: if_splits)
  ultimately show ?thesis using oldest_kept [OF ok(2) expire_oldest [OF forget]] by blast
next
  case (clear p)
  from clear_hosts_result [OF ok(1), of p] clear have c: "hosts_ok v'"
    "\<forall>m. cached_host m v' = (case cached_host m v of None \<Rightarrow> None | Some e \<Rightarrow> if port_eq p (he_port e) then None else Some e)"
    by auto
  have "v_dyn_oldest_host_time v' = v_dyn_oldest_host_time v"
    by (rule foldE_invariant [OF clear [unfolded clear_cache_hosts_on_port_def],
          where P = "\<lambda>u. v_dyn_oldest_host_time u = v_dyn_oldest_host_time v"]) (auto dest: expire_oldest)
  moreover have "cached_host m v' = Some e \<Longrightarrow> cached_host m v = Some e" for m e
    using c(2) by (auto split: option.splits if_splits)
  ultimately show ?thesis using oldest_kept [OF ok(2)] c(1) by blast
next
  case (expire now timeout expired)
  with expire_hosts_result [OF ok, of now timeout] show ?thesis by auto
next
  case reset
  then show ?thesis by (simp add: hosts_ok_def reset_caches_def oldest_ok_def cached_host_def)
qed

lemma host_run_ok: "host_step\<^sup>*\<^sup>* v v' \<Longrightarrow> hosts_ok v \<Longrightarrow> oldest_ok v \<Longrightarrow> hosts_ok v' \<and> oldest_ok v'"
  by (induction rule: rtranclp_induct) (auto dest: host_step_ok)

lemma new_vlan_ok [simp]: "hosts_ok (new_vlan vid)" "oldest_ok (new_vlan vid)"
  by (simp_all add: hosts_ok_def oldest_ok_def new_vlan_def)

text \<open>C22. Whatever hosts a VLAN learns, moves between ports, expires and clears, starting from an empty
  one, its two caches describe the same hosts, the host count is the sum of the counts by port, and
  no later learning, expiry or clearing of a port can raise.\<close>

lemma host_cache_consistent:
  assumes "host_step\<^sup>*\<^sup>* (new_vlan vid) v"
  shows "hosts_ok v \<and> hosts_count v = sum_list (map length (dict_values (v_dyn_host_cache_by_port v))) \<and>
    (\<exists>v'. add_cache_host m p t v = Inr v') \<and> (\<exists>v'. expire_cache_host m v = Inr v') \<and>
    (\<exists>v'. clear_cache_hosts_on_port p v = Inr v') \<and> (\<exists>r. expire_cache_hosts now timeout v = Inr r)"
proof -
  from host_run_ok [OF assms] have ok: "hosts_ok v" "oldest_ok v" by simp_all
  with hosts_count_by_port [OF ok(1)] host_cache.add_total [OF ok(1), of m p t] host_cache.expire_total [OF ok(1), of m]
    clear_hosts_result [OF ok(1), of p] expire_hosts_result [OF ok, of now timeout]
  show ?thesis by blast
qed

text \<open>Expiry is complete: exactly the stale hosts of ports that may forget leave the cache.\<close>

text \<open>Expiry removes exactly the hosts older than the timeout that are not permanently learned, and
  reports them: the cached oldest time never makes it miss one.\<close>

lemma expiry_complete:
  assumes "host_step\<^sup>*\<^sup>* (new_vlan vid) v" and "expire_cache_hosts now timeout v = Inr (expired, v')"
  shows "set expired = {e. cached_host (he_eth_src e) v = Some e \<and> he_cache_time e < now - timeout \<and> \<not> p_permanent_learn (he_port e)} \<and>
    (\<forall>m. cached_host m v' = (case cached_host m v of None \<Rightarrow> None
       | Some e \<Rightarrow> if he_cache_time e < now - timeout \<and> \<not> p_permanent_learn (he_port e) then None else Some e))"
proof -
  from host_run_ok [OF assms(1)] have ok: "hosts_ok v" "oldest_ok v" by simp_all
  from expire_hosts_result [OF ok, of now timeout] assms(2) show ?thesis by auto
qed

lemma learn_then_find:
  assumes "hosts_ok v" and "add_cache_host m p t v = Inr v'"
  shows "cached_host_on_port m p v' = Some \<lparr>he_eth_src = m, he_port = p, he_cache_time = t\<rparr> \<and>
    (\<forall>q. \<not> port_eq q p \<longrightarrow> cached_host_on_port m q v' = None) \<and>
    (\<forall>m'. m' \<noteq> m \<longrightarrow> cached_host m' v' = cached_host m' v)"
  using host_cache.add_Inr [OF assms] by (simp add: cached_host_on_port_def port_eq_def)

subsection \<open>Witnesses\<close>

definition learned_vlan :: vlan where
  "learned_vlan = (case add_cache_host 17 (default_port 2) 130 (new_vlan 100) of Inl _ \<Rightarrow> new_vlan 100 | Inr v \<Rightarrow>
     (case add_cache_host 16 (default_port 1) 100 v of Inl _ \<Rightarrow> v | Inr v' \<Rightarrow> v'))"

lemma learned_vlan_run: "host_step\<^sup>*\<^sup>* (new_vlan 100) learned_vlan"
proof -
  from host_cache.add_total [OF new_vlan_ok(1) [of 100], of 17 "default_port 2" 130] obtain v where
    v: "add_cache_host 17 (default_port 2) 130 (new_vlan 100) = Inr v" "hosts_ok v" by blast
  from host_cache.add_total [OF v(2), of 16 "default_port 1" 100] obtain w where
    w: "add_cache_host 16 (default_port 1) 100 v = Inr w" by blast
  have "v_dyn_oldest_host_time v = None"
    using add_cache_host_result [OF new_vlan_ok(1) [of 100], of 17 "default_port 2" 130] v(1) by (auto simp: new_vlan_def)
  then have "host_step v w" by (intro host_step.learn [OF _ w]) simp
  moreover have "host_step (new_vlan 100) v" by (intro host_step.learn [OF _ v(1)]) (simp add: new_vlan_def)
  moreover have "learned_vlan = w" by (simp add: learned_vlan_def v w)
  ultimately show ?thesis by (metis converse_rtranclp_into_rtranclp rtranclp.rtrancl_refl)
qed

lemma host_cache_consistent_witness: "hosts_count learned_vlan = 2"
proof -
  have "sum_list (map length (dict_values (v_dyn_host_cache_by_port learned_vlan))) = 2" by code_simp
  with host_cache_consistent [OF learned_vlan_run] show ?thesis by metis
qed

lemma expiry_complete_witness:
  "\<exists>expired v'. expire_cache_hosts 401 300 learned_vlan = Inr (expired, v') \<and> cached_host 16 v' = None \<and> cached_host 17 v' \<noteq> None"
proof -
  from host_run_ok [OF learned_vlan_run] have ok: "hosts_ok learned_vlan" "oldest_ok learned_vlan" by simp_all
  from expire_hosts_result [OF ok, of 401 300] obtain expired v' where
    run: "expire_cache_hosts 401 300 learned_vlan = Inr (expired, v')" by blast
  have "cached_host 16 learned_vlan = Some \<lparr>he_eth_src = 16, he_port = default_port 1, he_cache_time = 100\<rparr>"
    "cached_host 17 learned_vlan = Some \<lparr>he_eth_src = 17, he_port = default_port 2, he_cache_time = 130\<rparr>" by code_simp+
  with expiry_complete [OF learned_vlan_run run] run show ?thesis by (simp add: default_port_def)
qed

lemma learn_then_find_witness:
  "\<exists>v'. add_cache_host 16 (default_port 3) 140 learned_vlan = Inr v' \<and> cached_host_on_port 16 (default_port 1) v' = None \<and>
     cached_host_on_port 16 (default_port 3) v' \<noteq> None"
proof -
  from host_run_ok [OF learned_vlan_run] have ok: "hosts_ok learned_vlan" by simp_all
  from host_cache.add_total [OF ok] obtain v' where "add_cache_host 16 (default_port 3) 140 learned_vlan = Inr v'" by blast
  with learn_then_find [OF ok this] show ?thesis by (auto simp: port_eq_def default_port_def)
qed

section \<open>Flooding to LAGs\<close>

text \<open>The member of a LAG that floods leave on: its first port that is selected and up.\<close>

definition flood_member :: "vlan \<Rightarrow> int \<Rightarrow> port option" where
  "flood_member v lag = find (\<lambda>p. p_lacp p = lag) (lacp_up_selected_ports v)"

lemma find_filter: "find P xs = (case filter P xs of [] \<Rightarrow> None | x # _ \<Rightarrow> Some x)"
  by (induction xs) auto

lemma remove_port_filter:
  "p \<in> set ps \<Longrightarrow> distinct (map p_number ps) \<Longrightarrow> remove_port p ps = Inr (filter (\<lambda>q. \<not> port_eq q p) ps)"
proof (induction ps)
  case Nil
  then show ?case by simp
next
  case (Cons q ps)
  show ?case
  proof (cases "port_eq q p")
    case True
    then have "\<forall>x \<in> set ps. \<not> port_eq x p" using Cons.prems(2) by (auto simp: port_eq_def image_iff)
    then have "filter (\<lambda>q. \<not> port_eq q p) ps = ps" by (simp add: filter_True)
    with True show ?thesis by simp
  next
    case False
    then have "p \<in> set ps" using Cons.prems(1) by (auto simp: port_eq_def)
    with Cons False show ?thesis by simp
  qed
qed

definition lag_rest :: "vlan \<Rightarrow> int \<times> port list \<Rightarrow> port list" where
  "lag_rest v item = (case flood_member v (fst item) of None \<Rightarrow> snd item | Some p \<Rightarrow> filter (\<lambda>q. \<not> port_eq q p) (snd item))"

lemma selected_get: "dict_get (selected_up_lags v) lag =
    (let ps = filter (\<lambda>p. p_lacp p = lag) (lacp_up_selected_ports v) in if ps = [] then None else Some ps)"
  by (simp add: selected_up_lags_def group_by_lag_def group_get Let_def)

lemma lags_item:
  assumes "(lag, ps) \<in> set (lags v)"
  shows "ps = filter (\<lambda>p. p_lacp p = lag) (vlan_lacp_ports v)" and "ps \<noteq> []"
  using group_item [of lag ps p_lacp "vlan_lacp_ports v"] assms by (simp_all add: lags_def group_by_lag_def)

lemma flood_member_mem:
  assumes "flood_member v lag = Some p"
  shows "p \<in> set (vlan_lacp_ports v) \<and> p_lacp p = lag \<and> is_port_selected p \<and> is_actor_up p"
proof -
  from assms have "p \<in> set (lacp_up_selected_ports v)" "p_lacp p = lag" by (auto simp: flood_member_def find_Some_iff)
  then show ?thesis by (simp add: lacp_up_selected_ports_def)
qed

lemma distinct_filter_numbers: "distinct (map p_number ps) \<Longrightarrow> distinct (map p_number (filter P ps))"
  by (rule distinct_map_filter)

lemma lag_excludes_result:
  assumes dist: "distinct (map p_number (vlan_lacp_ports v))" and item: "item \<in> set (lags v)"
  shows "lag_excludes (selected_up_lags v) item ex = Inr (ex @ lag_rest v item)"
proof -
  obtain lag ps where i: "item = (lag, ps)" by (metis surj_pair)
  note ps = lags_item [of lag ps v]
  let ?sel = "filter (\<lambda>p. p_lacp p = lag) (lacp_up_selected_ports v)"
  have fm: "flood_member v lag = (case ?sel of [] \<Rightarrow> None | p # _ \<Rightarrow> Some p)"
    by (simp add: flood_member_def find_filter)
  show ?thesis
  proof (cases ?sel)
    case Nil
    then show ?thesis using fm by (simp add: i lag_excludes_def lag_rest_def selected_get)
  next
    case (Cons p rest)
    then have f: "flood_member v lag = Some p" using fm by simp
    from flood_member_mem [OF f] item i ps have "p \<in> set ps" by simp
    moreover have "distinct (map p_number ps)" using distinct_filter_numbers [OF dist] ps item i by simp
    ultimately have "remove_port p ps = Inr (filter (\<lambda>q. \<not> port_eq q p) ps)" by (rule remove_port_filter)
    with Cons f show ?thesis by (simp add: i lag_excludes_def lag_rest_def selected_get)
  qed
qed

lemma excluded_lag_ports_result:
  assumes dist: "distinct (map p_number (vlan_lacp_ports v))"
  shows "excluded_lag_ports in_port v = Inr
    ((if lags v = [] then [] else case in_port of
        Some p \<Rightarrow> if p_lacp p \<noteq> 0 then (case dict_get (lags v) (p_lacp p) of None \<Rightarrow> [] | Some ports \<Rightarrow> ports) else []
      | None \<Rightarrow> []) @ concat (map (lag_rest v) (lags v)))"
proof -
  have "set items \<subseteq> set (lags v) \<Longrightarrow> foldE (lag_excludes (selected_up_lags v)) items ex = Inr (ex @ concat (map (lag_rest v) items))"
    for items ex
    by (induction items arbitrary: ex) (auto simp: lag_excludes_result [OF dist])
  then show ?thesis by (auto simp: excluded_lag_ports_def Let_def split: option.splits)
qed

lemma lags_get: "dict_get (lags v) lag =
    (let ps = filter (\<lambda>p. p_lacp p = lag) (vlan_lacp_ports v) in if ps = [] then None else Some ps)"
  by (simp add: lags_def group_by_lag_def group_get Let_def)

lemma lags_ok: "dict_ok (lags v)"
  by (simp add: lags_def group_by_lag_def group_ok)

text \<open>What is left to flood to: of each LAG at most the selected member, of the incoming LAG nothing.\<close>

lemma excluded_lag_members:
  assumes dist: "distinct (map p_number (get_ports v))" and p: "p \<in> set (get_ports v)"
    and r: "excluded_lag_ports in_port v = Inr ex"
  shows "port_in p ex \<longleftrightarrow> p_lacp p \<noteq> 0 \<and>
    (flood_member v (p_lacp p) \<noteq> Some p \<or> (\<exists>q. in_port = Some q \<and> p_lacp q = p_lacp p))"
proof -
  have dist': "distinct (map p_number (vlan_lacp_ports v))"
    using distinct_filter_numbers [OF dist] by (simp add: vlan_lacp_ports_def)
  have same: "port_eq a b \<longleftrightarrow> a = b" if "a \<in> set (get_ports v)" "b \<in> set (get_ports v)" for a b
    using dist that by (auto simp: port_eq_def distinct_map inj_on_def)
  note ex = excluded_lag_ports_result [OF dist', of in_port]
  have item_sub: "set (lag_rest v i) \<subseteq> set (vlan_lacp_ports v)" if "i \<in> set (lags v)" for i
    using lags_item(1) [of "fst i" "snd i" v] that by (auto simp: lag_rest_def split: option.splits)
  have "set ps \<subseteq> set (vlan_lacp_ports v)" if "dict_get (lags v) l = Some ps" for l ps
    using that by (auto simp: lags_get Let_def split: if_splits)
  with item_sub r have sub: "set ex \<subseteq> set (vlan_lacp_ports v)"
    unfolding ex by (fastforce split: option.splits if_splits)
  then have port_in: "port_in p ex \<longleftrightarrow> p \<in> set ex"
    using same [OF p] by (auto simp: port_in_def vlan_lacp_ports_def)
  show ?thesis
  proof (cases "p_lacp p = 0")
    case True
    then show ?thesis using sub port_in by (auto simp: vlan_lacp_ports_def)
  next
    case False
    with p have lp: "p \<in> set (vlan_lacp_ports v)" by (simp add: vlan_lacp_ports_def)
    let ?ps = "filter (\<lambda>q. p_lacp q = p_lacp p) (vlan_lacp_ports v)"
    have "?ps \<noteq> []" using lp by (auto simp: filter_empty_conv)
    then have get: "dict_get (lags v) (p_lacp p) = Some ?ps" by (simp add: lags_get)
    then have ne: "lags v \<noteq> []" by auto
    have "p \<in> set (concat (map (lag_rest v) (lags v))) \<longleftrightarrow> p \<in> set (lag_rest v (p_lacp p, ?ps))"
    proof
      assume "p \<in> set (concat (map (lag_rest v) (lags v)))"
      then obtain lag ps where i: "(lag, ps) \<in> set (lags v)" "p \<in> set (lag_rest v (lag, ps))" by auto
      then have "p \<in> set ps" by (auto simp: lag_rest_def split: option.splits)
      with lags_item(1) [OF i(1)] have "lag = p_lacp p" "ps = ?ps" by auto
      with i show "p \<in> set (lag_rest v (p_lacp p, ?ps))" by simp
    next
      assume "p \<in> set (lag_rest v (p_lacp p, ?ps))"
      then show "p \<in> set (concat (map (lag_rest v) (lags v)))" using dict_get_Some_in [OF get] by force
    qed
    also have "\<dots> \<longleftrightarrow> flood_member v (p_lacp p) \<noteq> Some p"
    proof (cases "flood_member v (p_lacp p)")
      case None
      then show ?thesis using lp by (simp add: lag_rest_def)
    next
      case (Some q)
      then have "q \<in> set (get_ports v)" using flood_member_mem [OF Some] by (simp add: vlan_lacp_ports_def)
      with Some lp same [OF p this] show ?thesis by (auto simp: lag_rest_def)
    qed
    finally have rest: "p \<in> set (concat (map (lag_rest v) (lags v))) \<longleftrightarrow> flood_member v (p_lacp p) \<noteq> Some p" .
    have "p \<in> set (case in_port of
        Some p \<Rightarrow> if p_lacp p \<noteq> 0 then (case dict_get (lags v) (p_lacp p) of None \<Rightarrow> [] | Some ports \<Rightarrow> ports) else []
      | None \<Rightarrow> []) \<longleftrightarrow> (\<exists>q. in_port = Some q \<and> p_lacp q = p_lacp p)"
    proof (cases in_port)
      case None
      then show ?thesis by simp
    next
      case (Some q)
      show ?thesis
      proof (cases "p_lacp q = p_lacp p")
        case True
        then show ?thesis using Some lp False get by simp
      next
        case ne: False
        have "p \<notin> set ps" if "dict_get (lags v) (p_lacp q) = Some ps" for ps
          using that ne by (auto simp: lags_get Let_def split: if_splits)
        then have "p \<notin> set (case dict_get (lags v) (p_lacp q) of None \<Rightarrow> [] | Some ports \<Rightarrow> ports)"
          by (simp split: option.split)
        then have "p \<notin> set (if p_lacp q \<noteq> 0 then (case dict_get (lags v) (p_lacp q) of None \<Rightarrow> [] | Some ports \<Rightarrow> ports) else [])"
          by (cases "p_lacp q = 0") simp_all
        with ne show ?thesis unfolding Some option.case option.inject by blast
      qed
    qed
    moreover have "ex = (case in_port of
        Some p \<Rightarrow> if p_lacp p \<noteq> 0 then (case dict_get (lags v) (p_lacp p) of None \<Rightarrow> [] | Some ports \<Rightarrow> ports) else []
      | None \<Rightarrow> []) @ concat (map (lag_rest v) (lags v))" using r ne by (simp only: ex sum.inject if_False)
    ultimately have "p \<in> set ex \<longleftrightarrow> (\<exists>q. in_port = Some q \<and> p_lacp q = p_lacp p) \<or> flood_member v (p_lacp p) \<noteq> Some p"
      using rest by (simp only: set_append Un_iff)
    with port_in False show ?thesis by blast
  qed
qed

text \<open>C31. Of the ports of one link aggregation group at most one is left to flood to; it is selected,
  its actor is up, and it is not in the group the packet came in on.\<close>

lemma flood_one_per_lag:
  assumes "distinct (map p_number (get_ports v))" and "excluded_lag_ports in_port v = Inr ex"
    and "p \<in> set (get_ports v)" "q \<in> set (get_ports v)" and "p_lacp p = p_lacp q" "p_lacp p \<noteq> 0"
    and "\<not> port_in p ex" "\<not> port_in q ex"
  shows "p = q \<and> is_port_selected p \<and> is_actor_up p \<and> (\<forall>i. in_port = Some i \<longrightarrow> p_lacp i \<noteq> p_lacp p)"
  using excluded_lag_members [OF assms(1,3,2)] excluded_lag_members [OF assms(1,4,2)] assms(5-8) flood_member_mem by auto

lemma excluded_lag_total:
  assumes "distinct (map p_number (get_ports v))"
  shows "\<exists>ex. excluded_lag_ports in_port v = Inr ex"
  using excluded_lag_ports_result distinct_filter_numbers [OF assms] by (auto simp: vlan_lacp_ports_def)

section \<open>The route tables agree\<close>

definition route_of :: "vlan \<Rightarrow> ipnet \<Rightarrow> ipaddr option" where
  "route_of v d = dict_get (routes_by_ipv v (net_version d)) d"

definition routes_ok :: "vlan \<Rightarrow> bool" where
  "routes_ok v \<longleftrightarrow>
     (\<forall>d g. route_of v d = Some g \<longrightarrow> ip_version g = net_version d) \<and>
     (\<forall>g. distinct (ip_dsts_for_ip_gw v g)) \<and>
     (\<forall>g d. d \<in> set (ip_dsts_for_ip_gw v g) \<longleftrightarrow> route_of v d = Some g) \<and>
     (\<forall>g. dict_get (by_ipv (v_dyn_gws v) (ip_version g)) g \<noteq> Some [])"

definition gw_types_ok :: "vlan \<Rightarrow> bool" where
  "gw_types_ok v \<longleftrightarrow>
     (\<forall>g. (g \<in> set (by_ipv (v_dyn_host_gws v) (ip_version g)) \<longleftrightarrow> is_host_fib_route v g) \<and>
        (g \<in> set (by_ipv (v_dyn_route_gws v) (ip_version g)) \<longrightarrow> \<not> is_host_fib_route v g) \<and>
        (ip_dsts_for_ip_gw v g \<noteq> [] \<longrightarrow> \<not> is_host_fib_route v g \<longrightarrow> g \<in> set (by_ipv (v_dyn_route_gws v) (ip_version g))))"

lemma by_ipv_set [simp]: "by_ipv (dict_set k x d) k' = (if k' = k then x else by_ipv d k')"
  by (simp add: by_ipv_def)

lemma update_gw_types_simps [simp]:
  "v_dyn_routes (update_gw_types g v) = v_dyn_routes v" "v_dyn_gws (update_gw_types g v) = v_dyn_gws v"
  "route_of (update_gw_types g v) d = route_of v d" "ip_dsts_for_ip_gw (update_gw_types g v) g' = ip_dsts_for_ip_gw v g'"
  "is_host_fib_route (update_gw_types g v) g' = is_host_fib_route v g'"
  by (simp_all add: update_gw_types_def Let_def route_of_def routes_by_ipv_def ip_dsts_for_ip_gw_def is_host_fib_route_def)

lemma gw_types_update:
  "g \<in> set (by_ipv (v_dyn_host_gws (update_gw_types g' v)) ipv) \<longleftrightarrow>
     (if g = g' \<and> ipv = ip_version g' then is_host_fib_route v g else g \<in> set (by_ipv (v_dyn_host_gws v) ipv))"
  "g \<in> set (by_ipv (v_dyn_route_gws (update_gw_types g' v)) ipv) \<longleftrightarrow>
     (if g = g' \<and> ipv = ip_version g' then \<not> is_host_fib_route v g else g \<in> set (by_ipv (v_dyn_route_gws v) ipv))"
  by (auto simp: update_gw_types_def Let_def list_insert_def)

lemma add_route_get:
  assumes "net_version d = ip_version g"
  shows "route_of (add_route d g v) d' = (if d' = d then Some g else route_of v d')"
    and "ip_dsts_for_ip_gw (add_route d g v) g' = (if g' = g then list_insert d (ip_dsts_for_ip_gw v g) else ip_dsts_for_ip_gw v g')"
  using assms by (auto simp: add_route_def Let_def route_of_def routes_by_ipv_def ip_dsts_for_ip_gw_def)

lemma host_route_cong: "ip_dsts_for_ip_gw v g = ip_dsts_for_ip_gw w g \<Longrightarrow> is_host_fib_route v g = is_host_fib_route w g"
  by (simp add: is_host_fib_route_def)

lemma add_route_ok:
  assumes ok: "routes_ok v" "gw_types_ok v" and d: "net_version d = ip_version g" and new: "route_of v d \<in> {None, Some g}"
  shows "routes_ok (add_route d g v) \<and> gw_types_ok (add_route d g v) \<and>
    route_of (add_route d g v) = (route_of v)(d := Some g)"
proof -
  note get = add_route_get [OF d, of v]
  have "routes_ok (add_route d g v)"
    unfolding routes_ok_def
  proof (intro conjI allI impI)
    fix g'
    have "dict_get (by_ipv (v_dyn_gws (add_route d g v)) (ip_version g')) g' =
      (if g' = g then Some (list_insert d (ip_dsts_for_ip_gw v g)) else dict_get (by_ipv (v_dyn_gws v) (ip_version g')) g')"
      by (auto simp: add_route_def Let_def ip_dsts_for_ip_gw_def routes_by_ipv_def)
    moreover have "list_insert d (ip_dsts_for_ip_gw v g) \<noteq> []" by (auto simp: list_insert_def)
    ultimately show "dict_get (by_ipv (v_dyn_gws (add_route d g v)) (ip_version g')) g' \<noteq> Some []"
      using ok(1) unfolding routes_ok_def by auto
  next
    fix d' g' show "d' \<in> set (ip_dsts_for_ip_gw (add_route d g v) g') \<longleftrightarrow> route_of (add_route d g v) d' = Some g'"
      using ok(1) new unfolding get routes_ok_def by (auto simp: list_insert_def)
  next
    fix d' g' assume "route_of (add_route d g v) d' = Some g'"
    then show "ip_version g' = net_version d'" using ok(1) d unfolding get routes_ok_def by (metis option.inject)
  next
    fix g' show "distinct (ip_dsts_for_ip_gw (add_route d g v) g')" using ok(1) by (simp add: get routes_ok_def list_insert_def)
  qed
  moreover have "gw_types_ok (add_route d g v)"
    unfolding gw_types_ok_def
  proof
    fix g'
    obtain w where w: "add_route d g v = update_gw_types g w" "v_dyn_host_gws w = v_dyn_host_gws v" "v_dyn_route_gws w = v_dyn_route_gws v"
      by (auto simp: add_route_def Let_def)
    have old: "is_host_fib_route w g' = is_host_fib_route v g'" "ip_dsts_for_ip_gw w g' = ip_dsts_for_ip_gw v g'" if "g' \<noteq> g"
      using host_route_cong [of w g' v] get(2) [of g'] that by (simp_all add: w(1))
    show "(g' \<in> set (by_ipv (v_dyn_host_gws (add_route d g v)) (ip_version g')) \<longleftrightarrow> is_host_fib_route (add_route d g v) g') \<and>
        (g' \<in> set (by_ipv (v_dyn_route_gws (add_route d g v)) (ip_version g')) \<longrightarrow> \<not> is_host_fib_route (add_route d g v) g') \<and>
        (ip_dsts_for_ip_gw (add_route d g v) g' \<noteq> [] \<longrightarrow> \<not> is_host_fib_route (add_route d g v) g' \<longrightarrow>
           g' \<in> set (by_ipv (v_dyn_route_gws (add_route d g v)) (ip_version g')))"
    proof (cases "g' = g")
      case False
      with old ok(2) show ?thesis by (simp add: w gw_types_update gw_types_ok_def)
    qed (simp add: w(1) gw_types_update)
  qed
  ultimately show ?thesis using get(1) by auto
qed

lemma del_route_result:
  assumes ok: "routes_ok v" and r: "route_of v d = Some g"
  obtains w where "del_route d v = Inr (update_gw_types g w)" and "v_dyn_host_gws w = v_dyn_host_gws v"
    and "v_dyn_route_gws w = v_dyn_route_gws v"
    and "\<And>d'. route_of w d' = (if d' = d then None else route_of v d')"
    and "\<And>g'. ip_dsts_for_ip_gw w g' = (if g' = g then removeAll d (ip_dsts_for_ip_gw v g) else ip_dsts_for_ip_gw v g')"
    and "\<And>g'. dict_get (by_ipv (v_dyn_gws w) (ip_version g')) g' =
      (if g' = g then (if removeAll d (ip_dsts_for_ip_gw v g) = [] then None else Some (removeAll d (ip_dsts_for_ip_gw v g)))
       else dict_get (by_ipv (v_dyn_gws v) (ip_version g')) g')"
proof -
  have gv: "ip_version g = net_version d" and mem: "d \<in> set (ip_dsts_for_ip_gw v g)"
    using ok r by (simp_all add: routes_ok_def)
  then obtain dsts where dsts: "dict_get (by_ipv (v_dyn_gws v) (ip_version g)) g = Some dsts" "ip_dsts_for_ip_gw v g = dsts"
    by (cases "dict_get (by_ipv (v_dyn_gws v) (ip_version g)) g") (auto simp: ip_dsts_for_ip_gw_def)
  let ?gws = "by_ipv (v_dyn_gws v) (ip_version g)"
  let ?gws' = "if removeAll d dsts = [] then dict_del g ?gws else dict_set g (removeAll d dsts) ?gws"
  let ?w = "v\<lparr>v_dyn_routes := dict_set (net_version d) (dict_del d (routes_by_ipv v (net_version d))) (v_dyn_routes v),
    v_dyn_gws := dict_set (ip_version g) ?gws' (v_dyn_gws v)\<rparr>"
  show thesis
  proof (rule that [of ?w])
    show "del_route d v = Inr (update_gw_types g ?w)"
      using r dsts mem by (simp add: del_route_def Let_def route_of_def dict_getE_def routes_by_ipv_def)
  qed (use r dsts gv in \<open>auto simp: route_of_def routes_by_ipv_def ip_dsts_for_ip_gw_def\<close>)
qed

lemma del_route_ok:
  assumes ok: "routes_ok v" "gw_types_ok v" and r: "route_of v d = Some g"
  shows "\<exists>v'. del_route d v = Inr v' \<and> routes_ok v' \<and> gw_types_ok v' \<and> route_of v' = (route_of v)(d := None)"
proof -
  obtain w where w: "del_route d v = Inr (update_gw_types g w)" "v_dyn_host_gws w = v_dyn_host_gws v"
      "v_dyn_route_gws w = v_dyn_route_gws v"
    and routes: "\<And>d'. route_of w d' = (if d' = d then None else route_of v d')"
    and dsts: "\<And>g'. ip_dsts_for_ip_gw w g' = (if g' = g then removeAll d (ip_dsts_for_ip_gw v g) else ip_dsts_for_ip_gw v g')"
    and gws: "\<And>g'. dict_get (by_ipv (v_dyn_gws w) (ip_version g')) g' =
      (if g' = g then (if removeAll d (ip_dsts_for_ip_gw v g) = [] then None else Some (removeAll d (ip_dsts_for_ip_gw v g)))
       else dict_get (by_ipv (v_dyn_gws v) (ip_version g')) g')"
    using del_route_result [OF ok(1) r] by blast
  let ?v' = "update_gw_types g w"
  have "routes_ok ?v'"
    unfolding routes_ok_def
  proof (intro conjI allI impI)
    fix d' g' show "d' \<in> set (ip_dsts_for_ip_gw ?v' g') \<longleftrightarrow> route_of ?v' d' = Some g'"
      using ok(1) r by (auto simp: routes dsts routes_ok_def)
  next
    fix g' show "dict_get (by_ipv (v_dyn_gws ?v') (ip_version g')) g' \<noteq> Some []"
      using ok(1) by (auto simp: gws routes_ok_def)
  qed (use ok(1) in \<open>auto simp: routes dsts routes_ok_def distinct_removeAll split: if_splits\<close>)
  moreover have "gw_types_ok ?v'"
    unfolding gw_types_ok_def
  proof
    fix g'
    have old: "is_host_fib_route w g' = is_host_fib_route v g'" "ip_dsts_for_ip_gw w g' = ip_dsts_for_ip_gw v g'" if "g' \<noteq> g"
      using host_route_cong [of w g' v] dsts [of g'] that by simp_all
    show "(g' \<in> set (by_ipv (v_dyn_host_gws ?v') (ip_version g')) \<longleftrightarrow> is_host_fib_route ?v' g') \<and>
        (g' \<in> set (by_ipv (v_dyn_route_gws ?v') (ip_version g')) \<longrightarrow> \<not> is_host_fib_route ?v' g') \<and>
        (ip_dsts_for_ip_gw ?v' g' \<noteq> [] \<longrightarrow> \<not> is_host_fib_route ?v' g' \<longrightarrow> g' \<in> set (by_ipv (v_dyn_route_gws ?v') (ip_version g')))"
    proof (cases "g' = g")
      case False
      with old ok(2) show ?thesis by (simp add: w gw_types_update gw_types_ok_def)
    qed (simp add: gw_types_update)
  qed
  ultimately show ?thesis using w(1) routes by (intro exI [of _ ?v']) auto
qed

text \<open>A route given a new gateway stays listed under its old one.\<close>

lemma add_route_stale_gw:
  assumes "routes_ok v" and "route_of v d = Some g" and "net_version d = ip_version g'" and "g' \<noteq> g"
  shows "route_of (add_route d g' v) d = Some g' \<and> d \<in> set (ip_dsts_for_ip_gw (add_route d g' v) g) \<and>
    \<not> routes_ok (add_route d g' v)"
proof -
  have "d \<in> set (ip_dsts_for_ip_gw v g)" using assms(1,2) by (simp add: routes_ok_def)
  with add_route_get [OF assms(3), of v] assms(4)
  have "route_of (add_route d g' v) d = Some g'" "d \<in> set (ip_dsts_for_ip_gw (add_route d g' v) g)" by simp_all
  with assms(4) show ?thesis unfolding routes_ok_def by (metis option.inject)
qed

text \<open>A gateway that has lost its last route is still a route gateway to resolve.\<close>

lemma del_route_keeps_gw:
  assumes "routes_ok v" and "ip_dsts_for_ip_gw v g = [d]" and "del_route d v = Inr v'"
  shows "g \<notin> all_ip_gws v' (ip_version g) \<and> g \<in> set (by_ipv (v_dyn_route_gws v') (ip_version g))"
proof -
  have r: "route_of v d = Some g" using assms(1,2) unfolding routes_ok_def by (metis list.set_intros(1))
  obtain w where w: "del_route d v = Inr (update_gw_types g w)" and "v_dyn_host_gws w = v_dyn_host_gws v"
      "v_dyn_route_gws w = v_dyn_route_gws v" and "\<And>d'. route_of w d' = (if d' = d then None else route_of v d')"
    and dsts: "\<And>g'. ip_dsts_for_ip_gw w g' = (if g' = g then removeAll d (ip_dsts_for_ip_gw v g) else ip_dsts_for_ip_gw v g')"
    and gws: "\<And>g'. dict_get (by_ipv (v_dyn_gws w) (ip_version g')) g' =
      (if g' = g then (if removeAll d (ip_dsts_for_ip_gw v g) = [] then None else Some (removeAll d (ip_dsts_for_ip_gw v g)))
       else dict_get (by_ipv (v_dyn_gws v) (ip_version g')) g')"
    using del_route_result [OF assms(1) r] by blast
  have "\<not> is_host_fib_route w g" using dsts [of g] assms(2) by (simp add: is_host_fib_route_def)
  moreover have "g \<notin> all_ip_gws w (ip_version g)"
  proof -
    have "dict_get (by_ipv (v_dyn_gws w) (ip_version g)) g = None" unfolding gws assms(2) by simp
    then show ?thesis unfolding all_ip_gws_def dict_get_None .
  qed
  ultimately show ?thesis using w assms(3) by (auto simp: gw_types_update all_ip_gws_def)
qed

text \<open>What happens to the routes: routes to new destinations are added, routes are deleted.\<close>

inductive route_step :: "vlan \<Rightarrow> vlan \<Rightarrow> bool" where
  add: "net_version d = ip_version g \<Longrightarrow> route_of v d \<in> {None, Some g} \<Longrightarrow> route_step v (add_route d g v)"
| del: "del_route d v = Inr v' \<Longrightarrow> route_step v v'"

inductive_cases route_stepE: "route_step v v'"

lemma del_route_present: "del_route d v = Inr v' \<Longrightarrow> \<exists>g. route_of v d = Some g"
  by (auto simp: del_route_def Let_def bindE_Inr route_of_def)

lemma route_step_ok: "route_step v v' \<Longrightarrow> routes_ok v \<Longrightarrow> gw_types_ok v \<Longrightarrow> routes_ok v' \<and> gw_types_ok v'"
proof (induction rule: route_step.induct)
  case (add d g v)
  then show ?case using add_route_ok by blast
next
  case (del d v v')
  from del_route_present [OF del.hyps] obtain g where "route_of v d = Some g" by blast
  from del_route_ok [OF del.prems this] del.hyps show ?case by auto
qed

lemma new_vlan_routes [simp]: "routes_ok (new_vlan vid)" "gw_types_ok (new_vlan vid)"
  by (simp_all add: routes_ok_def gw_types_ok_def new_vlan_def route_of_def routes_by_ipv_def by_ipv_def ip_dsts_for_ip_gw_def
      is_host_fib_route_def)

lemma route_run_ok: "route_step\<^sup>*\<^sup>* v v' \<Longrightarrow> routes_ok v \<Longrightarrow> gw_types_ok v \<Longrightarrow> routes_ok v' \<and> gw_types_ok v'"
  by (induction rule: rtranclp_induct) (auto dest: route_step_ok)

text \<open>C39. While routes are added to new destinations, or again with the gateway they have, and deleted,
  the tables of gateways of a VLAN agree with its routing table: the gateways with destinations are
  exactly those of routes, the host gateways exactly the gateways of host routes only, the route
  gateways hold all others that have a destination and no host gateway (one whose routes are all
  deleted may stay, vlan.py:452). Every route that is there can be deleted, which removes that route
  only.\<close>

lemma routes_consistent:
  assumes "route_step\<^sup>*\<^sup>* (new_vlan vid) v"
  shows "routes_ok v \<and> gw_types_ok v \<and>
    (\<forall>d g. route_of v d = Some g \<longrightarrow> (\<exists>v'. del_route d v = Inr v' \<and> route_of v' = (route_of v)(d := None)))"
proof -
  from route_run_ok [OF assms] have ok: "routes_ok v" "gw_types_ok v" by simp_all
  with del_route_ok [OF ok] show ?thesis by blast
qed

subsection \<open>Witnesses\<close>

definition lag_port :: "int \<Rightarrow> bool \<Rightarrow> port" where
  "lag_port n up = (default_port n)\<lparr>p_lacp := 7, p_native_vlan := Some 100,
     p_dyn_lacp_actor_state := (if up then LACP_ACTOR_UP else LACP_ACTOR_INIT), p_dyn_lacp_port_selected := LACP_PORT_SELECTED\<rparr>"

definition lag_vlan :: vlan where
  "lag_vlan = (new_vlan 100)\<lparr>v_untagged := [lag_port 1 False, lag_port 2 True, lag_port 3 True, default_port 4]\<rparr>"

definition unflooded :: "port list" where
  "unflooded = (case excluded_lag_ports None lag_vlan of Inl _ \<Rightarrow> [] | Inr ex \<Rightarrow> ex)"

lemma flood_one_per_lag_witness:
  "excluded_lag_ports None lag_vlan = Inr unflooded \<and> map p_number unflooded = [1, 3] \<and> is_actor_up (lag_port 2 True)"
proof -
  have d: "distinct (map p_number (get_ports lag_vlan))" by code_simp
  from excluded_lag_total [OF d, of None] obtain ex where "excluded_lag_ports None lag_vlan = Inr ex" by blast
  then have r: "excluded_lag_ports None lag_vlan = Inr unflooded" by (simp add: unflooded_def)
  have n: "map p_number unflooded = [1, 3]" by code_simp
  have p: "lag_port 2 True \<in> set (get_ports lag_vlan)" by (simp add: lag_vlan_def get_ports_def)
  have "p_number ` set unflooded = {1, 3}" using arg_cong [OF n, of set] by simp
  then have q: "p_number q = 1 \<or> p_number q = 3" if "q \<in> set unflooded" for q using that by blast
  have "\<not> port_in (lag_port 2 True) unflooded"
    using q by (fastforce simp: port_in_def port_eq_def lag_port_def default_port_def)
  with flood_one_per_lag [OF d r p p refl _ this this] r n show ?thesis by (simp add: lag_port_def)
qed

definition net_a :: ipnet where "net_a = \<lparr>net_version = 4, net_address = 0x0A640000, net_prefixlen = 16\<rparr>"
definition gw_a :: ipaddr where "gw_a = \<lparr>ip_version = 4, ip_value = 0x0A000001\<rparr>"
definition gw_b :: ipaddr where "gw_b = \<lparr>ip_version = 4, ip_value = 0x0A000002\<rparr>"

lemma one_route_step: "route_step (new_vlan 100) (add_route net_a gw_a (new_vlan 100))"
  by (rule add) (simp_all add: net_a_def gw_a_def new_vlan_def route_of_def routes_by_ipv_def by_ipv_def)

lemma one_route: "routes_ok (add_route net_a gw_a (new_vlan 100))" "route_of (add_route net_a gw_a (new_vlan 100)) net_a = Some gw_a"
  using route_run_ok [OF r_into_rtranclp [of route_step, OF one_route_step]] add_route_get(1) [of net_a gw_a]
  by (simp_all add: net_a_def gw_a_def)

lemma routes_consistent_witness: "\<exists>v'. del_route net_a (add_route net_a gw_a (new_vlan 100)) = Inr v' \<and> route_of v' net_a = None"
  using routes_consistent [OF r_into_rtranclp [of route_step, OF one_route_step]] one_route(2) by (metis fun_upd_same)

lemma add_route_stale_gw_witness:
  "net_a \<in> set (ip_dsts_for_ip_gw (add_route net_a gw_b (add_route net_a gw_a (new_vlan 100))) gw_a)"
  using add_route_stale_gw [OF one_route, of gw_b] by (simp add: net_a_def gw_a_def gw_b_def)

lemma del_route_keeps_gw_witness:
  "\<exists>v'. del_route net_a (add_route net_a gw_a (new_vlan 100)) = Inr v' \<and> gw_a \<in> set (by_ipv (v_dyn_route_gws v') 4)"
proof -
  have dsts: "ip_dsts_for_ip_gw (add_route net_a gw_a (new_vlan 100)) gw_a = [net_a]" by code_simp
  from del_route_result [OF one_route] obtain v' where "del_route net_a (add_route net_a gw_a (new_vlan 100)) = Inr v'" by metis
  with del_route_keeps_gw [OF one_route(1) dsts this] show ?thesis by (auto simp: gw_a_def)
qed

end
