(* ===== verification/Packet.thy ===== *)
theory Packet imports Vlan begin

text \<open>
  Packets: \<^verbatim>\<open>faucet/valve_packet.py\<close>, the functions that build and read the packets of the
  controller, and \<open>PacketMeta\<close>, a received packet with what is known of it.

  A packet is the list of its protocol headers in order; the headers are the classes of the packet
  library with the attributes given to them. Serialising and parsing are the library's, fields of the
  record \<open>pktlib\<close>. Bytes are integers, a MAC address given to the library is its text.
\<close>

section \<open>Text and bytes\<close>

text \<open>\<open>str(n)\<close>, \<open>"%x" % n\<close> (of a number that is not negative) and \<open>int(s, base)\<close> of Python.\<close>

definition bytes_of :: "string \<Rightarrow> int list" where
  "bytes_of s = map (\<lambda>c. int (of_char c)) s"

definition digit_char :: "nat \<Rightarrow> char" where
  "digit_char d = (if d < 10 then char_of (48 + d) else char_of (87 + d))"

fun nat_text :: "nat \<Rightarrow> nat \<Rightarrow> string" where
  "nat_text b n = (if n < b \<or> b < 2 then [digit_char n] else nat_text b (n div b) @ [digit_char (n mod b)])"

declare nat_text.simps [simp del]

definition decimal :: "int \<Rightarrow> string" where
  "decimal n = (if n < 0 then CHR ''-'' # nat_text 10 (nat (- n)) else nat_text 10 (nat n))"

definition hex :: "int \<Rightarrow> string" where
  "hex n = nat_text 16 (nat n)"

definition is_space :: "int \<Rightarrow> bool" where
  "is_space c \<longleftrightarrow> 9 \<le> c \<and> c \<le> 13 \<or> c = 32"

definition digit_val :: "int \<Rightarrow> int option" where
  "digit_val c =
     (if 48 \<le> c \<and> c \<le> 57 then Some (c - 48)
      else if 97 \<le> c \<and> c \<le> 122 then Some (c - 87)
      else if 65 \<le> c \<and> c \<le> 90 then Some (c - 55) else None)"

text \<open>Digits with single underscores between them; \<open>pd\<close>: a digit (or the prefix) came just before.\<close>

fun parse_digits :: "int \<Rightarrow> int \<Rightarrow> bool \<Rightarrow> int list \<Rightarrow> err + int" where
  "parse_digits b acc pd [] = (if pd then Inr acc else Inl ValueError)"
| "parse_digits b acc pd (c # cs) =
     (case digit_val c of
        Some d \<Rightarrow> if d < b then parse_digits b (b * acc + d) True cs else Inl ValueError
      | None \<Rightarrow> if c = 95 \<and> pd then parse_digits b acc False cs else Inl ValueError)"

definition strip :: "int list \<Rightarrow> int list" where
  "strip cs = rev (dropWhile is_space (rev (dropWhile is_space cs)))"

definition parse_unsigned :: "int \<Rightarrow> int list \<Rightarrow> err + int" where
  "parse_unsigned b cs =
     (if b = 16 \<and> take 1 cs = [48] \<and> take 1 (drop 1 cs) \<in> {[120], [88]}
      then (case drop 2 cs of
              [] \<Rightarrow> Inl ValueError
            | c # ds \<Rightarrow> if c = 95 then parse_digits b 0 False ds else parse_digits b 0 False (c # ds))
      else parse_digits b 0 False cs)"

definition py_int :: "int \<Rightarrow> int list \<Rightarrow> err + int" where
  "py_int b cs =
     (case strip cs of
        [] \<Rightarrow> Inl ValueError
      | c # ds \<Rightarrow>
          if c = 45 then bindE (parse_unsigned b ds) (\<lambda>n. Inr (- n))
          else if c = 43 then parse_unsigned b ds
          else parse_unsigned b (c # ds))"

fun split_on :: "char \<Rightarrow> string \<Rightarrow> string list" where
  "split_on c [] = [[]]"
| "split_on c (x # xs) =
     (if x = c then [] # split_on c xs
      else case split_on c xs of [] \<Rightarrow> [[x]] | w # ws \<Rightarrow> (x # w) # ws)"

fun join_with :: "char \<Rightarrow> string list \<Rightarrow> string" where
  "join_with c [] = []"
| "join_with c [w] = w"
| "join_with c (w # v # ws) = w @ [c] @ join_with c (v # ws)"

section \<open>Headers\<close>

datatype arp_opcode = ARP_REQUEST | ARP_REPLY

datatype lldp_tlv =
    ChassisIDMac "int list"
  | PortIDName "int list"
  | TTLTlv int
  | SystemNameTlv "int list"
  | PortDescriptionTlv "int list"
  | OrgSpecific "int list" int "int list"
  | EndTlv
  | OtherTlv int

record lacp_fields =
  lf_actor_system :: string
  lf_actor_port :: int
  lf_partner_system :: string
  lf_partner_port :: int
  lf_actor_key :: int
  lf_partner_key :: int
  lf_actor_system_priority :: int
  lf_partner_system_priority :: int
  lf_actor_port_priority :: int
  lf_partner_port_priority :: int
  lf_actor_state_defaulted :: int
  lf_partner_state_defaulted :: int
  lf_actor_state_expired :: int
  lf_partner_state_expired :: int
  lf_actor_state_timeout :: int
  lf_partner_state_timeout :: int
  lf_actor_state_collecting :: int
  lf_partner_state_collecting :: int
  lf_actor_state_distributing :: int
  lf_partner_state_distributing :: int
  lf_actor_state_aggregation :: int
  lf_partner_state_aggregation :: int
  lf_actor_state_synchronization :: int
  lf_partner_state_synchronization :: int
  lf_actor_state_activity :: int
  lf_partner_state_activity :: int

datatype icmpv6_option =
    OptPrefix ipaddr nat int int int
  | OptSourceLL string
  | OptTargetLL string

datatype icmpv6_data =
    NeighborSolicit ipaddr string
  | NeighborAdvert ipaddr string int
  | RouterAdvert int int "icmpv6_option list"
  | EchoReplyV6 int int "int list"
  | TimeExceededV6 "int list"
  | EchoRequestV6 int int "int list"
  | RouterSolicit
  | UnparsedV6 int

datatype icmp_data = EchoReply "int list" | TimeExceeded "int list" | EchoRequest "int list" | OtherIcmp int

datatype header =
    EthernetH string string int
  | VlanH int int
  | ArpH arp_opcode string ipaddr string ipaddr
  | Ipv4H ipaddr ipaddr int
  | IcmpH icmp_data
  | Ipv6H ipaddr ipaddr int "int option" "int list"
  | Icmpv6H icmpv6_data
  | LldpH "lldp_tlv list"
  | LacpH lacp_fields
  | RawH "int list"

record pktlib =
  pl_parse :: "int list \<Rightarrow> err + header list"
  pl_serialize :: "header list \<Rightarrow> int list"
  pl_mac_bin :: "string \<Rightarrow> int list"
  pl_utf8 :: "string \<Rightarrow> int list"
  pl_utf8_decode :: "int list \<Rightarrow> err + string"

section \<open>MAC addresses\<close>

definition FAUCET_MAC :: string where "FAUCET_MAC = ''0e:00:00:00:00:01''"
definition ETH_HEADER_SIZE :: nat where "ETH_HEADER_SIZE = 14"
definition ETH_VLAN_HEADER_SIZE :: nat where "ETH_VLAN_HEADER_SIZE = ETH_HEADER_SIZE + 4"
definition IPV4_HEADER_SIZE :: nat where "IPV4_HEADER_SIZE = 20"
definition ICMP_ECHO_REQ_SIZE :: nat where "ICMP_ECHO_REQ_SIZE = 8 + 128"
definition IPV6_HEADER_SIZE :: nat where "IPV6_HEADER_SIZE = 40"
definition ARP_REQ_PKT_SIZE :: nat where "ARP_REQ_PKT_SIZE = 28"
definition ARP_PKT_SIZE :: nat where "ARP_PKT_SIZE = 46"
definition VLAN_ARP_REQ_PKT_SIZE :: nat where "VLAN_ARP_REQ_PKT_SIZE = ETH_VLAN_HEADER_SIZE + ARP_REQ_PKT_SIZE"
definition VLAN_ARP_PKT_SIZE :: nat where "VLAN_ARP_PKT_SIZE = ETH_VLAN_HEADER_SIZE + ARP_PKT_SIZE"
definition VLAN_ICMP_ECHO_REQ_SIZE :: nat where
  "VLAN_ICMP_ECHO_REQ_SIZE = ETH_VLAN_HEADER_SIZE + IPV4_HEADER_SIZE + ICMP_ECHO_REQ_SIZE"

definition SLOW_PROTOCOL_MULTICAST :: string where "SLOW_PROTOCOL_MULTICAST = ''01:80:c2:00:00:02''"
definition BRIDGE_GROUP_ADDRESS :: string where "BRIDGE_GROUP_ADDRESS = ''01:80:c2:00:00:00''"
definition BRIDGE_GROUP_MASK :: string where "BRIDGE_GROUP_MASK = ''ff:ff:ff:ff:ff:f0''"
definition LLDP_MAC_NEAREST_BRIDGE :: string where "LLDP_MAC_NEAREST_BRIDGE = ''01:80:c2:00:00:0e''"
definition CISCO_CDP_VTP_UDLD_ADDRESS :: string where "CISCO_CDP_VTP_UDLD_ADDRESS = ''01:00:0c:cc:cc:cc''"
definition CISCO_SPANNING_GROUP_ADDRESS :: string where "CISCO_SPANNING_GROUP_ADDRESS = ''01:00:0c:cc:cc:cd''"
definition IPV6_ALL_NODES_MCAST :: string where "IPV6_ALL_NODES_MCAST = ''33:33:00:00:00:01''"
definition IPV6_ALL_ROUTERS_MCAST :: string where "IPV6_ALL_ROUTERS_MCAST = ''33:33:00:00:00:02''"
definition IPV6_MAX_HOP_LIM :: int where "IPV6_MAX_HOP_LIM = 255"
definition IPV6_RA_HOP_LIM :: int where "IPV6_RA_HOP_LIM = 64"
definition LLDP_FAUCET_DP_ID :: int where "LLDP_FAUCET_DP_ID = 1"
definition LLDP_FAUCET_STACK_STATE :: int where "LLDP_FAUCET_STACK_STATE = 2"
definition LACP_SIZE :: int where "LACP_SIZE = 124"
definition EUI_BITS :: nat where "EUI_BITS = 48"

definition MAC_MASK_BITMAP :: "(int, nat) dict" where
  "MAC_MASK_BITMAP = map (\<lambda>i. (2 ^ EUI_BITS - 2 ^ i, EUI_BITS - i)) [0..<EUI_BITS + 1]"

definition mac_mask_bits :: "(string \<Rightarrow> int) \<Rightarrow> string option \<Rightarrow> nat" where
  "mac_mask_bits eui mac_mask =
     (case mac_mask of
        None \<Rightarrow> 0
      | Some m \<Rightarrow> (case dict_get MAC_MASK_BITMAP (eui m) of None \<Rightarrow> 0 | Some bits \<Rightarrow> bits))"

definition mac_byte_mask :: "nat \<Rightarrow> err + string" where
  "mac_byte_mask mask_bytes =
     bindE (assertE (mask_bytes \<le> 6)) (\<lambda>_.
     Inr (join_with (CHR '':'') (replicate mask_bytes ''ff'' @ replicate (6 - mask_bytes) ''00'')))"

definition int_from_mac :: "string \<Rightarrow> err + int" where
  "int_from_mac mac =
     (let parts = split_on (CHR '':'') mac
      in bindE (mapE (\<lambda>i. py_int 16 (bytes_of i)) (drop (length parts - 2) parts)) (\<lambda>ns.
         case ns of [int_hi, int_lo] \<Rightarrow> Inr (push_bit 8 int_hi + int_lo) | _ \<Rightarrow> Inl ValueError))"

definition int_in_mac :: "string \<Rightarrow> int \<Rightarrow> string" where
  "int_in_mac mac to_int =
     join_with (CHR '':'') (take 4 (split_on (CHR '':'') mac) @ [hex (drop_bit 8 to_int), hex (and to_int 0xFF)])"

definition mac_addr_all_zeros :: "pktlib \<Rightarrow> string \<Rightarrow> bool" where
  "mac_addr_all_zeros P mac_addr \<longleftrightarrow> pl_mac_bin P mac_addr = replicate 6 0"

text \<open>\<open>is_multicast\<close> of the library is the lowest bit of the first byte.\<close>

definition mac_addr_is_unicast :: "pktlib \<Rightarrow> string \<Rightarrow> bool" where
  "mac_addr_is_unicast P mac_addr =
     (let mac_bin = pl_mac_bin P mac_addr
      in if mac_bin = replicate 6 255 then False else \<not> odd (hd mac_bin))"

section \<open>Parsing\<close>

text \<open>
  \<open>struct.unpack\<close> of a header needs all its bytes. The fields read are the header length, the flags
  and fragment offset, and the protocol.
\<close>

definition ipv4_parseable :: "ofp \<Rightarrow> int list \<Rightarrow> err + bool" where
  "ipv4_parseable K ip_header_data =
     (let h = take IPV4_HEADER_SIZE ip_header_data
      in if length h < IPV4_HEADER_SIZE then Inl StructError
         else
           let header_size = (and (h ! 0) 0xF * 32) div 8;
               word4 = 256 * h ! 6 + h ! 7;
               flags = drop_bit 12 word4;
               ip_off = and word4 0xFFF;
               protocol = h ! 9
           in Inr (\<not> header_size < int IPV4_HEADER_SIZE \<and> and flags 0x2 = 0 \<and> ip_off = 0 \<and>
                   protocol \<in> {IPPROTO_ICMP K, IPPROTO_UDP K, IPPROTO_TCP K}))"

fun parse_eth_pkt :: "header list \<Rightarrow> (string \<times> string \<times> int) option" where
  "parse_eth_pkt [] = None"
| "parse_eth_pkt (EthernetH dst src ethertype # hs) = Some (dst, src, ethertype)"
| "parse_eth_pkt (h # hs) = parse_eth_pkt hs"

fun parse_lacp_pkt :: "header list \<Rightarrow> lacp_fields option" where
  "parse_lacp_pkt [] = None"
| "parse_lacp_pkt (LacpH l # hs) = Some l"
| "parse_lacp_pkt (h # hs) = parse_lacp_pkt hs"

fun parse_lldp :: "header list \<Rightarrow> lldp_tlv list option" where
  "parse_lldp [] = None"
| "parse_lldp (LldpH tlvs # hs) = Some tlvs"
| "parse_lldp (h # hs) = parse_lldp hs"

text \<open>
  \<open>parse_packet_in_pkt\<close> keeps what was assigned before an exception it catches. A parsed packet of
  the library is a sequence of its headers: unpacking it into two names takes exactly two.
\<close>

record parsed =
  pi_pkt :: "header list option"
  pi_pkt_data :: "int list"
  pi_eth_pkt :: "(string \<times> string \<times> int) option"
  pi_eth_type :: "int option"
  pi_vlan_pkt :: "header option"
  pi_vlan_vid :: "int option"

definition caught :: "err \<Rightarrow> bool" where
  "caught e \<longleftrightarrow> e \<in> {AttributeError, AssertionError, TooSmallException}"

definition parse_eth_step :: "pktlib \<Rightarrow> int list \<Rightarrow> parsed \<Rightarrow> err option \<times> parsed" where
  "parse_eth_step P data st =
     (case pi_eth_pkt st of
        Some _ \<Rightarrow> (None, st)
      | None \<Rightarrow>
          (case pl_parse P (take ETH_HEADER_SIZE data) of
             Inl e \<Rightarrow> (Some e, st)
           | Inr pkt \<Rightarrow> (None, st\<lparr>pi_pkt := Some pkt, pi_pkt_data := take ETH_HEADER_SIZE data, pi_eth_pkt := parse_eth_pkt pkt\<rparr>)))"

definition parse_vlan_step :: "ofp \<Rightarrow> pktlib \<Rightarrow> int list \<Rightarrow> parsed \<Rightarrow> err option \<times> parsed" where
  "parse_vlan_step K P data st =
     (case pi_eth_pkt st of
        None \<Rightarrow> (Some AttributeError, st)
      | Some (_, _, ethertype) \<Rightarrow>
          let st = st\<lparr>pi_eth_type := Some ethertype\<rparr>
          in if ethertype \<noteq> ETH_TYPE_8021Q K then (None, st)
             else case pl_parse P (take ETH_VLAN_HEADER_SIZE data) of
               Inl e \<Rightarrow> (Some e, st)
             | Inr [h, v] \<Rightarrow> (None, st\<lparr>pi_pkt := Some [h], pi_vlan_pkt := Some v\<rparr>)
             | Inr _ \<Rightarrow> (Some ValueError, st))"

definition parse_rest_step :: "pktlib \<Rightarrow> int list \<Rightarrow> parsed \<Rightarrow> err option \<times> parsed" where
  "parse_rest_step P data st =
     (let parse = (\<lambda>st. if length data > ETH_VLAN_HEADER_SIZE then
                         (case pl_parse P data of Inl e \<Rightarrow> (Some e, st) | Inr pkt \<Rightarrow> (None, st\<lparr>pi_pkt := Some pkt, pi_pkt_data := data\<rparr>))
                       else (None, st))
      in case pi_vlan_pkt st of
           None \<Rightarrow> parse st
         | Some (VlanH vid ethertype) \<Rightarrow> parse (st\<lparr>pi_vlan_vid := Some vid, pi_eth_type := Some ethertype\<rparr>)
         | Some _ \<Rightarrow> (Some AttributeError, st))"

definition then_step :: "err option \<times> parsed \<Rightarrow> (parsed \<Rightarrow> err option \<times> parsed) \<Rightarrow> err option \<times> parsed" where
  "then_step r f = (case r of (None, st) \<Rightarrow> f st | (Some e, st) \<Rightarrow> (Some e, st))"

definition parse_packet_in_pkt ::
    "ofp \<Rightarrow> pktlib \<Rightarrow> int list \<Rightarrow> nat \<Rightarrow> (string \<times> string \<times> int) option \<Rightarrow> header option \<Rightarrow> err + parsed" where
  "parse_packet_in_pkt K P data max_len eth_pkt vlan_pkt =
     (let data = (if max_len \<noteq> 0 then take max_len data else data);
          st = \<lparr>pi_pkt = None, pi_pkt_data = [], pi_eth_pkt = eth_pkt, pi_eth_type = None, pi_vlan_pkt = vlan_pkt, pi_vlan_vid = None\<rparr>;
          r = (if vlan_pkt = None then then_step (parse_eth_step P data st) (parse_vlan_step K P data) else (None, st))
      in case then_step r (parse_rest_step P data) of
           (None, st) \<Rightarrow> Inr st
         | (Some e, st) \<Rightarrow> if caught e then Inr st else Inl e)"

section \<open>Building packets\<close>

definition build_pkt_header :: "ofp \<Rightarrow> int option \<Rightarrow> string \<Rightarrow> string \<Rightarrow> int \<Rightarrow> header list" where
  "build_pkt_header K vid eth_src eth_dst dl_type =
     (case vid of
        None \<Rightarrow> [EthernetH eth_dst eth_src dl_type]
      | Some v \<Rightarrow> [EthernetH eth_dst eth_src (ETH_TYPE_8021Q K), VlanH v dl_type])"

type_synonym org_tlv = "int list \<times> int \<times> int list"

definition lldp_tlvs ::
    "pktlib \<Rightarrow> string \<Rightarrow> int \<Rightarrow> int \<Rightarrow> org_tlv list option \<Rightarrow> string option \<Rightarrow> string option \<Rightarrow> lldp_tlv list" where
  "lldp_tlvs P chassis_id port_id ttl org_tlvs system_name port_descr =
     [ChassisIDMac (pl_mac_bin P chassis_id), PortIDName (bytes_of (decimal port_id)), TTLTlv ttl] @
     (case system_name of None \<Rightarrow> [] | Some info \<Rightarrow> [SystemNameTlv (pl_utf8 P info)]) @
     (case port_descr of None \<Rightarrow> [] | Some info \<Rightarrow> [PortDescriptionTlv (pl_utf8 P info)]) @
     (case org_tlvs of None \<Rightarrow> [] | Some ts \<Rightarrow> map (\<lambda>(oui, subtype, info). OrgSpecific oui subtype info) ts) @
     [EndTlv]"

definition lldp_beacon ::
    "ofp \<Rightarrow> pktlib \<Rightarrow> string \<Rightarrow> string \<Rightarrow> int \<Rightarrow> int \<Rightarrow> org_tlv list option \<Rightarrow> string option \<Rightarrow> string option \<Rightarrow> header list" where
  "lldp_beacon K P eth_src chassis_id port_id ttl org_tlvs system_name port_descr =
     build_pkt_header K None eth_src LLDP_MAC_NEAREST_BRIDGE (ETH_TYPE_LLDP K) @
     [LldpH (lldp_tlvs P chassis_id port_id ttl org_tlvs system_name port_descr)]"

definition faucet_oui :: "pktlib \<Rightarrow> string \<Rightarrow> int list" where
  "faucet_oui P mac = take 3 (pl_mac_bin P mac)"

definition faucet_lldp_tlvs :: "pktlib \<Rightarrow> string \<Rightarrow> int \<Rightarrow> org_tlv list" where
  "faucet_lldp_tlvs P faucet_dp_mac dp_id = [(faucet_oui P faucet_dp_mac, LLDP_FAUCET_DP_ID, bytes_of (decimal dp_id))]"

text \<open>The number of a stack state.\<close>

fun stack_state_num :: "stack_state \<Rightarrow> int" where
  "stack_state_num STACK_STATE_ADMIN_DOWN = 0"
| "stack_state_num STACK_STATE_INIT = 1"
| "stack_state_num STACK_STATE_BAD = 2"
| "stack_state_num STACK_STATE_UP = 3"
| "stack_state_num STACK_STATE_GONE = 4"
| "stack_state_num STACK_STATE_NONE = - 1"

definition faucet_lldp_stack_state_tlvs :: "pktlib \<Rightarrow> string \<Rightarrow> port \<Rightarrow> org_tlv list" where
  "faucet_lldp_stack_state_tlvs P faucet_dp_mac port =
     (if p_stack port = None then []
      else [(faucet_oui P faucet_dp_mac, LLDP_FAUCET_STACK_STATE,
             bytes_of (decimal (stack_state_num (p_dyn_stack_current_state port))))])"

text \<open>
  Reading TLVs. An organisation's TLVs are those with an \<open>oui\<close> and a \<open>subtype\<close>; \<open>tlv_cast\<close> gives the
  attribute of the first TLV, cast, or \<open>None\<close> when there is none or the cast raises.
\<close>

fun org_tlv :: "lldp_tlv \<Rightarrow> org_tlv option" where
  "org_tlv (OrgSpecific oui subtype info) = Some (oui, subtype, info)"
| "org_tlv _ = None"

definition faucet_tlvs :: "pktlib \<Rightarrow> lldp_tlv list \<Rightarrow> string \<Rightarrow> org_tlv list" where
  "faucet_tlvs P tlvs faucet_dp_mac =
     filter (\<lambda>(oui, _, _). oui = faucet_oui P faucet_dp_mac) (List.map_filter org_tlv tlvs)"

definition tlvs_by_subtype :: "org_tlv list \<Rightarrow> int \<Rightarrow> org_tlv list" where
  "tlvs_by_subtype tlvs subtype = filter (\<lambda>(_, st, _). st = subtype) tlvs"

fun port_id_tlv :: "lldp_tlv \<Rightarrow> int list option" where
  "port_id_tlv (PortIDName b) = Some b"
| "port_id_tlv _ = None"

fun system_name_tlv :: "lldp_tlv \<Rightarrow> int list option" where
  "system_name_tlv (SystemNameTlv b) = Some b"
| "system_name_tlv _ = None"

definition tlv_cast :: "'a list \<Rightarrow> ('a \<Rightarrow> err + 'b) \<Rightarrow> err + 'b option" where
  "tlv_cast tlvs cast_func =
     (case tlvs of
        [] \<Rightarrow> Inr None
      | t # _ \<Rightarrow>
          (case cast_func t of
             Inr v \<Rightarrow> Inr (Some v)
           | Inl e \<Rightarrow> if e \<in> {AttributeError, ValueError, TypeError} then Inr None else Inl e))"

definition parse_faucet_lldp ::
    "pktlib \<Rightarrow> lldp_tlv list \<Rightarrow> string \<Rightarrow> err + int option \<times> string option \<times> int option \<times> int option" where
  "parse_faucet_lldp P lldp_pkt faucet_dp_mac =
     (let tlvs = faucet_tlvs P lldp_pkt faucet_dp_mac
      in if tlvs = [] then Inr (None, None, None, None)
         else
           bindE (tlv_cast (tlvs_by_subtype tlvs LLDP_FAUCET_DP_ID) (\<lambda>(_, _, info). py_int 10 info)) (\<lambda>remote_dp_id.
           bindE (tlv_cast (List.map_filter port_id_tlv lldp_pkt) (py_int 10)) (\<lambda>remote_port_id.
           bindE (tlv_cast (tlvs_by_subtype tlvs LLDP_FAUCET_STACK_STATE) (\<lambda>(_, _, info). py_int 10 info)) (\<lambda>remote_port_state.
           bindE (tlv_cast (List.map_filter system_name_tlv lldp_pkt) (pl_utf8_decode P)) (\<lambda>remote_dp_name.
           Inr (remote_dp_id, remote_dp_name, remote_port_id, remote_port_state))))))"

text \<open>LACP.\<close>

definition lacp_actor_up :: "lacp_fields \<Rightarrow> int" where
  "lacp_actor_up l =
     (if lf_actor_state_synchronization l \<noteq> 0 \<and> lf_actor_state_collecting l \<noteq> 0 \<and> lf_actor_state_distributing l \<noteq> 0
      then 1 else 0)"

text \<open>The partner arguments of \<open>lacp_reqreply\<close>: those of a received packet, or the defaults.\<close>

definition lacp_reqreply ::
    "ofp \<Rightarrow> string \<Rightarrow> string \<Rightarrow> int \<Rightarrow> int \<Rightarrow> int \<Rightarrow> int \<Rightarrow> int \<Rightarrow> int \<Rightarrow> int \<Rightarrow> lacp_pkt option \<Rightarrow> header list" where
  "lacp_reqreply K eth_src actor_system actor_key actor_port actor_port_priority sync activity collecting distributing partner =
     build_pkt_header K None eth_src SLOW_PROTOCOL_MULTICAST (ETH_TYPE_SLOW K) @
     [LacpH
       (let of_partner = (\<lambda>f. case partner of None \<Rightarrow> 0 | Some l \<Rightarrow> f l)
        in \<lparr>lf_actor_system = actor_system, lf_actor_port = actor_port,
            lf_partner_system = (case partner of None \<Rightarrow> ''00:00:00:00:00:00'' | Some l \<Rightarrow> lp_actor_system l),
            lf_partner_port = of_partner lp_actor_port, lf_actor_key = actor_key, lf_partner_key = of_partner lp_actor_key,
            lf_actor_system_priority = 65535, lf_partner_system_priority = of_partner lp_actor_system_priority,
            lf_actor_port_priority = actor_port_priority, lf_partner_port_priority = of_partner lp_actor_port_priority,
            lf_actor_state_defaulted = 0, lf_partner_state_defaulted = of_partner lp_actor_state_defaulted,
            lf_actor_state_expired = 0, lf_partner_state_expired = of_partner lp_actor_state_expired,
            lf_actor_state_timeout = 1, lf_partner_state_timeout = of_partner lp_actor_state_timeout,
            lf_actor_state_collecting = collecting, lf_partner_state_collecting = of_partner lp_actor_state_collecting,
            lf_actor_state_distributing = distributing, lf_partner_state_distributing = of_partner lp_actor_state_distributing,
            lf_actor_state_aggregation = 1, lf_partner_state_aggregation = of_partner lp_actor_state_aggregation,
            lf_actor_state_synchronization = sync,
            lf_partner_state_synchronization = of_partner (\<lambda>l. if lp_actor_state_synchronization l then 1 else 0),
            lf_actor_state_activity = activity, lf_partner_state_activity = of_partner lp_actor_state_activity\<rparr>)]"

text \<open>ARP, ICMP and neighbour discovery. An address is given to the library as it is or as its text.\<close>

definition arp_request :: "ofp \<Rightarrow> int option \<Rightarrow> string \<Rightarrow> string \<Rightarrow> ipaddr \<Rightarrow> ipaddr \<Rightarrow> header list" where
  "arp_request K vid eth_src eth_dst src_ip dst_ip =
     build_pkt_header K vid eth_src eth_dst (ETH_TYPE_ARP K) @
     [ArpH ARP_REQUEST eth_src src_ip ''00:00:00:00:00:00'' dst_ip]"

definition arp_reply :: "ofp \<Rightarrow> int option \<Rightarrow> string \<Rightarrow> string \<Rightarrow> ipaddr \<Rightarrow> ipaddr \<Rightarrow> header list" where
  "arp_reply K vid eth_src eth_dst src_ip dst_ip =
     build_pkt_header K vid eth_src eth_dst (ETH_TYPE_ARP K) @ [ArpH ARP_REPLY eth_src src_ip eth_dst dst_ip]"

definition echo_reply :: "ofp \<Rightarrow> int option \<Rightarrow> string \<Rightarrow> string \<Rightarrow> ipaddr \<Rightarrow> ipaddr \<Rightarrow> int list \<Rightarrow> header list" where
  "echo_reply K vid eth_src eth_dst src_ip dst_ip data =
     build_pkt_header K vid eth_src eth_dst (ETH_TYPE_IP K) @ [Ipv4H dst_ip src_ip (IPPROTO_ICMP K), IcmpH (EchoReply data)]"

definition time_exceeded :: "ofp \<Rightarrow> int option \<Rightarrow> string \<Rightarrow> string \<Rightarrow> ipaddr \<Rightarrow> ipaddr \<Rightarrow> int list \<Rightarrow> header list" where
  "time_exceeded K vid eth_src eth_dst src_ip dst_ip data =
     build_pkt_header K vid eth_src eth_dst (ETH_TYPE_IP K) @ [Ipv4H dst_ip src_ip (IPPROTO_ICMP K), IcmpH (TimeExceeded data)]"

text \<open>\<open>packed\<close>: the bytes of an address, most significant first.\<close>

definition packed :: "nat \<Rightarrow> int \<Rightarrow> int list" where
  "packed n v = map (\<lambda>i. take_bit 8 (drop_bit (8 * i) v)) (rev [0..<n])"

definition unpacked :: "int list \<Rightarrow> int" where
  "unpacked bs = foldl (\<lambda>n b. 256 * n + b) 0 bs"

definition upper_digit :: "nat \<Rightarrow> char" where
  "upper_digit d = (if d < 10 then char_of (48 + d) else char_of (55 + d))"

definition hex2_upper :: "int \<Rightarrow> string" where
  "hex2_upper b = [upper_digit (nat (b div 16)), upper_digit (nat (b mod 16))]"

definition ipv6_link_eth_mcast :: "ipaddr \<Rightarrow> string" where
  "ipv6_link_eth_mcast dst_ip =
     (let mcast_mac_bytes = [0x33, 0x33, 0xff] @ drop 13 (packed 16 (ip_value dst_ip))
      in join_with (CHR '':'') (map hex2_upper mcast_mac_bytes))"

definition ipv6_solicited_node_from_ucast :: "ipaddr \<Rightarrow> ipaddr" where
  "ipv6_solicited_node_from_ucast ucast =
     (let link_mcast_prefix = 0xff0200000000000000000001ff000000;
          mcast_bytes = take 13 (packed 16 link_mcast_prefix) @ drop 13 (packed 16 (ip_value ucast))
      in \<lparr>ip_version = 6, ip_value = unpacked mcast_bytes\<rparr>)"

definition nd_request :: "ofp \<Rightarrow> pktlib \<Rightarrow> int option \<Rightarrow> string \<Rightarrow> string \<Rightarrow> ipaddr \<Rightarrow> ipaddr \<Rightarrow> header list" where
  "nd_request K P vid eth_src eth_dst src_ip dst_ip =
     (let (nd_mac, nd_ip) =
            (if mac_addr_is_unicast P eth_dst then (eth_dst, dst_ip)
             else (ipv6_link_eth_mcast dst_ip, ipv6_solicited_node_from_ucast dst_ip))
      in build_pkt_header K vid eth_src nd_mac (ETH_TYPE_IPV6 K) @
         [Ipv6H src_ip nd_ip (IPPROTO_ICMPV6 K) None [], Icmpv6H (NeighborSolicit dst_ip eth_src)])"

definition nd_advert :: "ofp \<Rightarrow> int option \<Rightarrow> string \<Rightarrow> string \<Rightarrow> ipaddr \<Rightarrow> ipaddr \<Rightarrow> header list" where
  "nd_advert K vid eth_src eth_dst src_ip dst_ip =
     build_pkt_header K vid eth_src eth_dst (ETH_TYPE_IPV6 K) @
     [Ipv6H src_ip dst_ip (IPPROTO_ICMPV6 K) (Some IPV6_MAX_HOP_LIM) [], Icmpv6H (NeighborAdvert src_ip eth_src 7)]"

definition icmpv6_echo_reply ::
    "ofp \<Rightarrow> int option \<Rightarrow> string \<Rightarrow> string \<Rightarrow> ipaddr \<Rightarrow> ipaddr \<Rightarrow> int \<Rightarrow> int \<Rightarrow> int \<Rightarrow> int list \<Rightarrow> header list" where
  "icmpv6_echo_reply K vid eth_src eth_dst src_ip dst_ip hop_limit ident seq data =
     build_pkt_header K vid eth_src eth_dst (ETH_TYPE_IPV6 K) @
     [Ipv6H src_ip dst_ip (IPPROTO_ICMPV6 K) (Some hop_limit) [], Icmpv6H (EchoReplyV6 ident seq data)]"

definition icmpv6_time_exceeded :: "ofp \<Rightarrow> int option \<Rightarrow> string \<Rightarrow> string \<Rightarrow> ipaddr \<Rightarrow> ipaddr \<Rightarrow> int list \<Rightarrow> header list" where
  "icmpv6_time_exceeded K vid eth_src eth_dst src_ip dst_ip data =
     build_pkt_header K vid eth_src eth_dst (ETH_TYPE_IPV6 K) @
     [Ipv6H src_ip dst_ip (IPPROTO_ICMPV6 K) None [], Icmpv6H (TimeExceededV6 data)]"

definition router_advert ::
    "ofp \<Rightarrow> int option \<Rightarrow> string \<Rightarrow> string \<Rightarrow> ipaddr \<Rightarrow> ipaddr \<Rightarrow> ipinterface list \<Rightarrow> int \<Rightarrow> header list" where
  "router_advert K vid eth_src eth_dst src_ip dst_ip vips pi_flags =
     (let options = map (\<lambda>vip. OptPrefix (network_addr (if_network vip)) (net_prefixlen (if_network vip)) pi_flags 86400 14400) vips
                    @ [OptSourceLL eth_src]
      in build_pkt_header K vid eth_src eth_dst (ETH_TYPE_IPV6 K) @
         [Ipv6H src_ip dst_ip (IPPROTO_ICMPV6 K) (Some IPV6_MAX_HOP_LIM) [], Icmpv6H (RouterAdvert 1800 IPV6_RA_HOP_LIM options)])"

section \<open>Received packets\<close>

record pkt_meta =
  pm_reason :: int
  pm_data :: "int list"
  pm_orig_len :: nat
  pm_pkt :: "header list option"
  pm_pkt_data :: "int list"
  pm_eth_pkt :: "(string \<times> string \<times> int) option"
  pm_vlan_pkt :: "header option"
  pm_port :: port
  pm_vlan :: "vlan option"
  pm_eth_src :: int
  pm_eth_dst :: string
  pm_eth_type :: int
  pm_l3_pkt :: "header option"
  pm_l3_src :: "ipaddr option"
  pm_l3_dst :: "ipaddr option"

definition MIN_ETH_TYPE_PKT_SIZE :: "ofp \<Rightarrow> (int, nat) dict" where
  "MIN_ETH_TYPE_PKT_SIZE K =
     [(ETH_TYPE_ARP K, VLAN_ARP_REQ_PKT_SIZE), (ETH_TYPE_IP K, ETH_VLAN_HEADER_SIZE + IPV4_HEADER_SIZE),
      (ETH_TYPE_IPV6 K, ETH_VLAN_HEADER_SIZE + IPV6_HEADER_SIZE)]"

definition MAX_ETH_TYPE_PKT_SIZE :: "ofp \<Rightarrow> (int, nat) dict" where
  "MAX_ETH_TYPE_PKT_SIZE K = [(ETH_TYPE_ARP K, VLAN_ARP_PKT_SIZE), (ETH_TYPE_IP K, VLAN_ICMP_ECHO_REQ_SIZE)]"

definition reparse :: "ofp \<Rightarrow> pktlib \<Rightarrow> nat \<Rightarrow> pkt_meta \<Rightarrow> err + pkt_meta" where
  "reparse K P max_len m =
     bindE (parse_packet_in_pkt K P (pm_data m) max_len (pm_eth_pkt m) (pm_vlan_pkt m)) (\<lambda>r.
     case (pi_pkt r, pi_eth_type r) of
       (Some pkt, Some eth_type) \<Rightarrow>
         let right_size = (case dict_get (MAX_ETH_TYPE_PKT_SIZE K) eth_type of None \<Rightarrow> length (pm_data m) | Some n \<Rightarrow> n)
         in Inr (m\<lparr>pm_data := (if length (pm_data m) > right_size then take right_size (pm_data m) else pm_data m),
                   pm_pkt := Some pkt, pm_pkt_data := pi_pkt_data r, pm_eth_pkt := pi_eth_pkt r, pm_vlan_pkt := pi_vlan_pkt r\<rparr>)
     | _ \<Rightarrow> Inr m)"

definition reparse_all :: "ofp \<Rightarrow> pktlib \<Rightarrow> pkt_meta \<Rightarrow> err + pkt_meta" where
  "reparse_all K P m = reparse K P 0 m"

definition ip_ver :: "pkt_meta \<Rightarrow> int option" where
  "ip_ver m =
     (if length (pm_data m) > ETH_VLAN_HEADER_SIZE then Some (drop_bit 4 (pm_data m ! ETH_VLAN_HEADER_SIZE)) else None)"

text \<open>The layer 3 header of an Ethernet type: its IP version, if it has one, and the class of the header.\<close>

definition ETH_TYPES_PARSERS :: "ofp \<Rightarrow> (int, int option \<times> (header \<Rightarrow> bool)) dict" where
  "ETH_TYPES_PARSERS K =
     [(ETH_TYPE_IP K, (Some 4, \<lambda>h. case h of Ipv4H _ _ _ \<Rightarrow> True | _ \<Rightarrow> False)),
      (ETH_TYPE_ARP K, (None, \<lambda>h. case h of ArpH _ _ _ _ _ \<Rightarrow> True | _ \<Rightarrow> False)),
      (ETH_TYPE_IPV6 K, (Some 6, \<lambda>h. case h of Ipv6H _ _ _ _ _ \<Rightarrow> True | _ \<Rightarrow> False))]"

fun l3_addresses :: "header \<Rightarrow> (ipaddr \<times> ipaddr) option" where
  "l3_addresses (Ipv4H dst src _) = Some (src, dst)"
| "l3_addresses (Ipv6H src dst _ _ _) = Some (src, dst)"
| "l3_addresses (ArpH _ _ src_ip _ dst_ip) = Some (src_ip, dst_ip)"
| "l3_addresses _ = None"

text \<open>Whether the header of the data is fit to be parsed; \<open>Inr False\<close> is an early return.\<close>

definition ip_header_ok :: "ofp \<Rightarrow> pkt_meta \<Rightarrow> nat \<Rightarrow> int option \<Rightarrow> err + bool" where
  "ip_header_ok K m header_size ver =
     (case ver of
        None \<Rightarrow> Inr True
      | Some v \<Rightarrow>
          if ip_ver m \<noteq> Some v then Inr False
          else if (case pm_vlan m of None \<Rightarrow> False | Some vl \<Rightarrow> v_minimum_ip_size_check vl) \<and> length (pm_data m) < header_size
          then Inr False
          else if v = 4 then ipv4_parseable K (drop ETH_VLAN_HEADER_SIZE (pm_data m))
          else Inr True)"

definition reparse_ip :: "ofp \<Rightarrow> pktlib \<Rightarrow> nat \<Rightarrow> pkt_meta \<Rightarrow> err + pkt_meta" where
  "reparse_ip K P payload m =
     (case dict_get (ETH_TYPES_PARSERS K) (pm_eth_type m) of
        None \<Rightarrow> Inr m
      | Some (ver, is_l3) \<Rightarrow>
          bindE (dict_getE (MIN_ETH_TYPE_PKT_SIZE K) (pm_eth_type m)) (\<lambda>header_size.
          bindE (ip_header_ok K m header_size ver) (\<lambda>go.
          if \<not> go then Inr m
          else
            bindE (reparse K P (header_size + payload) m) (\<lambda>m.
            case pm_pkt m of
              None \<Rightarrow> Inl AttributeError
            | Some pkt \<Rightarrow>
                (case find is_l3 pkt of
                   None \<Rightarrow> Inr (m\<lparr>pm_l3_pkt := None\<rparr>)
                 | Some h \<Rightarrow> Inr (m\<lparr>pm_l3_pkt := Some h, pm_l3_src := map_option fst (l3_addresses h),
                                    pm_l3_dst := map_option snd (l3_addresses h)\<rparr>))))))"

definition packet_complete :: "pkt_meta \<Rightarrow> bool" where
  "packet_complete m \<longleftrightarrow> length (pm_data m) = pm_orig_len m"

definition l3_offset :: "pkt_meta \<Rightarrow> nat option" where
  "l3_offset m =
     (if pm_vlan_pkt m \<noteq> None then Some ETH_VLAN_HEADER_SIZE
      else if pm_eth_pkt m \<noteq> None then Some ETH_HEADER_SIZE else None)"

section \<open>Numbers and their text\<close>

lemma digit_char_val: "d < 16 \<Longrightarrow> of_char (digit_char d) = (if d < 10 then 48 + d else 87 + d)"
  by (simp add: digit_char_def)

lemma digit_val_char: "d < 16 \<Longrightarrow> digit_val (int (of_char (digit_char d))) = Some (int d)"
  by (auto simp: digit_char_val digit_val_def)

lemma nat_text_parse:
  assumes "2 \<le> b" "b \<le> 16"
  shows "parse_digits (int b) acc pd (bytes_of (nat_text b n) @ cs) =
    parse_digits (int b) (acc * int b ^ length (nat_text b n) + int n) True cs"
  using assms
proof (induction b n arbitrary: acc pd cs rule: nat_text.induct)
  case (1 b n)
  show ?case
  proof (cases "n < b")
    case True
    with 1 show ?thesis by (simp add: nat_text.simps [of b n] bytes_of_def digit_val_char mult.commute)
  next
    case False
    have m: "n mod b < b" "int (n mod b) < int b" using 1 by simp_all
    have d: "int n = int b * int (n div b) + int (n mod b)" by (metis mult_div_mod_eq of_nat_add of_nat_mult)
    from False 1 have "nat_text b n = nat_text b (n div b) @ [digit_char (n mod b)]" by (simp add: nat_text.simps [of b n])
    moreover from False 1 m have "digit_val (int (of_char (digit_char (n mod b)))) = Some (int (n mod b))"
      by (intro digit_val_char less_le_trans [OF m(1)]) simp
    ultimately show ?thesis using 1(1) [of acc pd "bytes_of [digit_char (n mod b)] @ cs"] False 1(2,3) m(2)
      by (simp add: bytes_of_def algebra_simps) (simp add: d algebra_simps)
  qed
qed

lemma nat_text_digits: "2 \<le> b \<Longrightarrow> b \<le> 16 \<Longrightarrow> c \<in> set (nat_text b n) \<Longrightarrow> \<exists>d < b. c = digit_char d"
proof (induction b n rule: nat_text.induct)
  case (1 b n)
  show ?case
  proof (cases "n < b")
    case True
    with 1 show ?thesis by (auto simp: nat_text.simps [of b n])
  next
    case False
    then have "c = digit_char (n mod b) \<or> c \<in> set (nat_text b (n div b))" using 1 by (auto simp: nat_text.simps [of b n])
    then show ?thesis using 1(1) [OF _ 1(2,3)] False 1(2) by (metis mod_less_divisor not_less not_numeral_le_zero zero_less_iff_neq_zero)
  qed
qed

lemma nat_text_bytes: "2 \<le> b \<Longrightarrow> b \<le> 16 \<Longrightarrow> c \<in> set (bytes_of (nat_text b n)) \<Longrightarrow> 48 \<le> c \<and> c \<le> 57 \<or> 97 \<le> c \<and> c \<le> 102"
  by (auto simp: bytes_of_def digit_char_val dest!: nat_text_digits split: if_splits)

lemma nat_text_nonempty [simp]: "nat_text b n \<noteq> []"
  by (subst nat_text.simps) simp

lemma strip_id: "\<forall>c \<in> set cs. \<not> is_space c \<Longrightarrow> strip cs = cs"
  by (simp add: strip_def dropWhile_eq_self_iff) (metis dropWhile_eq_self_iff hd_in_set rev_rev_ident set_rev)

lemma parse_unsigned_text:
  assumes "b = 10 \<or> b = 16"
  shows "parse_unsigned (int b) (bytes_of (nat_text b n)) = Inr (int n)"
proof -
  have b: "2 \<le> b" "b \<le> 16" using assms by auto
  have "take 1 (drop 1 (bytes_of (nat_text b n))) \<notin> {[120], [88]}"
  proof
    assume "take 1 (drop 1 (bytes_of (nat_text b n))) \<in> {[120], [88]}"
    then have "120 \<in> set (bytes_of (nat_text b n)) \<or> 88 \<in> set (bytes_of (nat_text b n))"
      by (metis in_set_dropD in_set_takeD insertE list.set_intros(1) singletonD)
    then show False using nat_text_bytes [OF b] by fastforce
  qed
  then show ?thesis using nat_text_parse [OF b, of 0 False n "[]"] by (simp add: parse_unsigned_def)
qed

lemma nat_text_hd: "b = 10 \<or> b = 16 \<Longrightarrow> \<exists>c cs. bytes_of (nat_text b n) = c # cs \<and> c \<noteq> 45 \<and> c \<noteq> 43"
  using nat_text_bytes [of b _ n] by (cases "bytes_of (nat_text b n)") (fastforce simp: bytes_of_def)+

lemma py_int_text:
  assumes "b = 10 \<or> b = 16"
  shows "py_int (int b) (bytes_of (nat_text b n)) = Inr (int n)"
proof -
  have "strip (bytes_of (nat_text b n)) = bytes_of (nat_text b n)"
    using nat_text_bytes [of b _ n] assms by (intro strip_id) (fastforce simp: is_space_def)
  with nat_text_hd [OF assms, of n] parse_unsigned_text [OF assms, of n] show ?thesis by (auto simp: py_int_def)
qed

lemma py_int_decimal: "py_int 10 (bytes_of (decimal n)) = Inr n"
proof (cases "n < 0")
  case True
  have "strip (45 # bytes_of (nat_text 10 (nat (- n)))) = 45 # bytes_of (nat_text 10 (nat (- n)))"
    using nat_text_bytes [of 10 _ "nat (- n)"] by (intro strip_id) (fastforce simp: is_space_def)
  moreover have "bytes_of (decimal n) = 45 # bytes_of (nat_text 10 (nat (- n)))"
    using True by (simp add: decimal_def bytes_of_def of_char_def)
  ultimately show ?thesis using parse_unsigned_text [of 10 "nat (- n)"] True by (simp add: py_int_def)
next
  case False
  then show ?thesis using py_int_text [of 10 "nat n"] by (simp add: decimal_def)
qed

lemma py_int_hex: "0 \<le> n \<Longrightarrow> py_int 16 (bytes_of (hex n)) = Inr n"
  using py_int_text [of 16 "nat n"] by (simp add: hex_def)

lemma colon_hex: "CHR '':'' \<notin> set (hex n)"
proof
  assume "CHR '':'' \<in> set (hex n)"
  then have "58 \<in> set (bytes_of (nat_text 16 (nat n)))" by (force simp: hex_def bytes_of_def of_char_def)
  then show False using nat_text_bytes [of 16 58 "nat n"] by simp
qed

lemma split_on_nonempty [simp]: "split_on c xs \<noteq> []"
  by (cases xs) (auto split: list.splits)

lemma split_on_word: "c \<notin> set w \<Longrightarrow> split_on c w = [w]"
  by (induction w) auto

lemma split_on_append: "c \<notin> set w \<Longrightarrow> split_on c (w @ c # xs) = w # split_on c xs"
  by (induction w) auto

lemma split_join: "ws \<noteq> [] \<Longrightarrow> \<forall>w \<in> set ws. c \<notin> set w \<Longrightarrow> split_on c (join_with c ws) = ws"
  by (induction c ws rule: join_with.induct) (auto simp: split_on_word split_on_append)

lemma split_on_words: "w \<in> set (split_on c xs) \<Longrightarrow> c \<notin> set w"
  by (induction xs arbitrary: w) (fastforce split: if_splits list.splits)+

text \<open>A number written into the last bytes of a MAC address is read back from it.\<close>

lemma int_mac_roundtrip:
  assumes "0 \<le> n"
  shows "int_from_mac (int_in_mac mac n) = Inr n"
proof -
  let ?ws = "take 4 (split_on (CHR '':'') mac) @ [hex (drop_bit 8 n), hex (and n 0xFF)]"
  have "\<forall>w \<in> set ?ws. CHR '':'' \<notin> set w" using colon_hex split_on_words by (auto dest!: in_set_takeD)
  then have s: "split_on (CHR '':'') (int_in_mac mac n) = ?ws" unfolding int_in_mac_def by (intro split_join) simp_all
  have "push_bit 8 (drop_bit 8 n) + and n 0xFF = n"
    using bits_ident [of 8 n] by (simp add: take_bit_eq_mask mask_eq_exp_minus_1)
  then show ?thesis using assms
    by (simp add: int_from_mac_def s Let_def py_int_hex)
qed

section \<open>LLDP\<close>

abbreviation org_tlvs_of :: "org_tlv list \<Rightarrow> lldp_tlv list" where
  "org_tlvs_of ts \<equiv> map (\<lambda>(oui, subtype, info). OrgSpecific oui subtype info) ts"

lemma map_filter_append: "List.map_filter f (xs @ ys) = List.map_filter f xs @ List.map_filter f ys"
  by (simp add: List.map_filter_def)

lemma org_tlvs_filter [simp]:
  "List.map_filter org_tlv (org_tlvs_of ts) = ts"
  "List.map_filter port_id_tlv (org_tlvs_of ts) = []"
  "List.map_filter system_name_tlv (org_tlvs_of ts) = []"
  by (induction ts) (auto simp: List.map_filter_simps)

lemma lldp_tlvs_filter:
  "List.map_filter org_tlv (lldp_tlvs P chassis port_id ttl (Some ts) name descr) = ts"
  "List.map_filter port_id_tlv (lldp_tlvs P chassis port_id ttl (Some ts) name descr) = [bytes_of (decimal port_id)]"
  "List.map_filter system_name_tlv (lldp_tlvs P chassis port_id ttl (Some ts) (Some n) descr) = [pl_utf8 P n]"
  by (cases name; cases descr; simp add: lldp_tlvs_def map_filter_append List.map_filter_simps)+

lemma faucet_tlvs_of:
  assumes "\<forall>t \<in> set other. fst t \<noteq> faucet_oui P mac"
  shows "faucet_tlvs P (lldp_tlvs P chassis port_id ttl
      (Some (other @ faucet_lldp_tlvs P mac dp_id @ faucet_lldp_stack_state_tlvs P mac port)) name descr) mac =
    faucet_lldp_tlvs P mac dp_id @ faucet_lldp_stack_state_tlvs P mac port"
  using assms by (auto simp: faucet_tlvs_def lldp_tlvs_filter faucet_lldp_tlvs_def faucet_lldp_stack_state_tlvs_def
      filter_empty_conv split: prod.splits)

text \<open>C33. What a FAUCET LLDP beacon carries is what parsing it reads: the datapath id, the datapath
  name, the port and the stack state.\<close>

lemma lldp_roundtrip:
  assumes "\<forall>t \<in> set other. fst t \<noteq> faucet_oui P mac" and "pl_utf8_decode P (pl_utf8 P name) = Inr name"
  shows "parse_faucet_lldp P (lldp_tlvs P chassis port_id ttl
      (Some (other @ faucet_lldp_tlvs P mac dp_id @ faucet_lldp_stack_state_tlvs P mac port)) (Some name) descr) mac =
    Inr (Some dp_id, Some name, Some port_id,
         if p_stack port = None then None else Some (stack_state_num (p_dyn_stack_current_state port)))"
  unfolding parse_faucet_lldp_def Let_def faucet_tlvs_of [OF assms(1)] lldp_tlvs_filter
  using assms(2)
  by (simp add: faucet_lldp_tlvs_def faucet_lldp_stack_state_tlvs_def tlvs_by_subtype_def tlv_cast_def py_int_decimal
       LLDP_FAUCET_DP_ID_def LLDP_FAUCET_STACK_STATE_def)

section \<open>Solicited-node addresses\<close>

lemma unpacked_append: "unpacked (xs @ ys) = foldl (\<lambda>n b. 256 * n + b) (unpacked xs) ys"
  by (simp add: unpacked_def)

lemma foldl_bytes: "foldl (\<lambda>n b. 256 * n + b) a (packed n v) = a * 2 ^ (8 * n) + take_bit (8 * n) v"
proof (induction n arbitrary: a)
  case 0
  then show ?case by (simp add: packed_def)
next
  case (Suc n)
  have p: "packed (Suc n) v = take_bit 8 (drop_bit (8 * n) v) # packed n v" by (simp add: packed_def)
  have "take_bit (8 * Suc n) v = take_bit 8 (drop_bit (8 * n) v) * 2 ^ (8 * n) + take_bit (8 * n) v"
    using bits_ident [of "8 * n" "take_bit (8 * Suc n) v"]
    by (simp add: push_bit_eq_mult drop_bit_take_bit take_bit_take_bit min_def)
  then show ?case unfolding p foldl.simps Suc by (simp add: algebra_simps power_add)
qed

lemma packed_drop: "k \<le> n \<Longrightarrow> drop (n - k) (packed n v) = packed k v"
proof -
  assume "k \<le> n"
  then have "rev [0..<n] = rev [k..<n] @ rev [0..<k]" using upt_add_eq_append [of 0 k "n - k"] by simp
  then show ?thesis using \<open>k \<le> n\<close> by (simp add: packed_def)
qed

lemma solicited_prefix: "take 13 (packed 16 0xff0200000000000000000001ff000000) = [0xff, 2, 0, 0, 0, 0, 0, 0, 0, 0, 0, 1, 0xff]"
  by code_simp

lemma solicited_node_value:
  "ip_value (ipv6_solicited_node_from_ucast ucast) = 0xff0200000000000000000001ff000000 + ip_value ucast mod 2 ^ 24"
proof -
  have d: "drop 13 (packed 16 (ip_value ucast)) = packed 3 (ip_value ucast)" using packed_drop [of 3 16] by simp
  show ?thesis
    by (simp add: ipv6_solicited_node_from_ucast_def Let_def solicited_prefix d unpacked_append foldl_bytes take_bit_eq_mod)
       (simp add: unpacked_def)
qed

section \<open>Masks and headers\<close>

text \<open>What \<open>EUI\<close> says of a byte mask: it is the number of the six bytes.\<close>

definition eui_ok :: "(string \<Rightarrow> int) \<Rightarrow> bool" where
  "eui_ok eui \<longleftrightarrow> (\<forall>n m. mac_byte_mask n = Inr m \<longrightarrow> eui m = 2 ^ 48 - 2 ^ (48 - 8 * n))"

lemma mask_bitmap_get: "i \<le> 48 \<Longrightarrow> dict_get MAC_MASK_BITMAP (2 ^ 48 - 2 ^ i) = Some (48 - i)"
proof -
  assume i: "i \<le> 48"
  have "inj_on (\<lambda>i. (2 :: int) ^ EUI_BITS - 2 ^ i) (set [0..<EUI_BITS + 1])" by (auto simp: inj_on_def)
  then have "dict_ok MAC_MASK_BITMAP" by (simp add: dict_ok_def MAC_MASK_BITMAP_def distinct_map o_def)
  moreover have "(2 ^ 48 - 2 ^ i, 48 - i) \<in> set MAC_MASK_BITMAP" using i by (auto simp: MAC_MASK_BITMAP_def EUI_BITS_def)
  ultimately show ?thesis by (simp add: dict_ok_in)
qed

lemma mask_bits_bytes:
  assumes "eui_ok eui" and "mac_byte_mask n = Inr m"
  shows "mac_mask_bits eui (Some m) = 8 * n"
proof -
  have n: "n \<le> 6" using assms(2) by (auto simp: mac_byte_mask_def bindE_Inr)
  then have "mac_mask_bits eui (Some m) = 48 - (48 - 8 * n)"
    using assms mask_bitmap_get [of "48 - 8 * n"] by (simp add: mac_mask_bits_def eui_ok_def)
  with n show ?thesis by simp
qed

definition short_ipv4 :: "ofp \<Rightarrow> pkt_meta \<Rightarrow> bool" where
  "short_ipv4 K m \<longleftrightarrow> pm_eth_type m = ETH_TYPE_IP K \<and> ip_ver m = Some 4 \<and> length (pm_data m) < 38 \<and>
     (case pm_vlan m of None \<Rightarrow> True | Some vl \<Rightarrow> \<not> v_minimum_ip_size_check vl)"

lemma step_no_struct:
  assumes "\<And>d. pl_parse P d \<noteq> Inl StructError"
  shows "fst (parse_eth_step P d st) \<noteq> Some StructError" and "fst (parse_vlan_step K P d st) \<noteq> Some StructError"
    and "fst (parse_rest_step P d st) \<noteq> Some StructError"
proof -
  show "fst (parse_eth_step P d st) \<noteq> Some StructError"
    using assms [of "take ETH_HEADER_SIZE d"] by (auto simp: parse_eth_step_def split: option.splits sum.splits)
  show "fst (parse_vlan_step K P d st) \<noteq> Some StructError"
    using assms [of "take ETH_VLAN_HEADER_SIZE d"]
    by (auto simp: parse_vlan_step_def Let_def split: option.split sum.split list.split)
  show "fst (parse_rest_step P d st) \<noteq> Some StructError"
    by (cases "pl_parse P d") (use assms [of d] in \<open>auto simp: parse_rest_step_def Let_def split: option.split header.split\<close>)
qed

lemma then_no_struct:
  "fst r \<noteq> Some StructError \<Longrightarrow> (\<And>st. fst (f st) \<noteq> Some StructError) \<Longrightarrow> fst (then_step r f) \<noteq> Some StructError"
  by (auto simp: then_step_def split: option.splits prod.splits)

lemma parse_no_struct:
  assumes "\<And>d. pl_parse P d \<noteq> Inl StructError"
  shows "parse_packet_in_pkt K P data n eth_pkt vlan_pkt \<noteq> Inl StructError"
proof -
  define d where "d = (if n \<noteq> 0 then take n data else data)"
  define st where "st = \<lparr>pi_pkt = None, pi_pkt_data = [], pi_eth_pkt = eth_pkt, pi_eth_type = None, pi_vlan_pkt = vlan_pkt, pi_vlan_vid = None\<rparr>"
  define r where "r = (if vlan_pkt = None then then_step (parse_eth_step P d st) (parse_vlan_step K P d) else (None, st))"
  have "fst r \<noteq> Some StructError"
    unfolding r_def by (simp add: then_no_struct step_no_struct [OF assms])
  then have f: "fst (then_step r (parse_rest_step P d)) \<noteq> Some StructError"
    using step_no_struct(3) [OF assms] then_no_struct by blast
  have "parse_packet_in_pkt K P data n eth_pkt vlan_pkt = (case then_step r (parse_rest_step P d) of
      (None, st) \<Rightarrow> Inr st | (Some e, st) \<Rightarrow> if caught e then Inr st else Inl e)"
    by (simp add: parse_packet_in_pkt_def Let_def r_def st_def d_def)
  with f show ?thesis by (auto split: prod.splits option.splits)
qed

text \<open>C34. Reparsing the IP header of a packet raises a struct.error exactly when the packet is IPv4 by
  its Ethernet type and first byte, shorter than an IPv4 header, and no VLAN checks the minimum
  size.\<close>

lemma reparse_ip_raises:
  assumes "distinct [ETH_TYPE_IP K, ETH_TYPE_ARP K, ETH_TYPE_IPV6 K]" and "\<forall>d. pl_parse P d \<noteq> Inl StructError"
  shows "reparse_ip K P payload m = Inl StructError \<longleftrightarrow> short_ipv4 K m"
proof -
  have r: "reparse K P n m' \<noteq> Inl StructError" for n m'
    using parse_no_struct [of P] assms(2) by (auto simp: reparse_def bindE_Inl split: option.splits)
  have ok: "ip_header_ok K m header_size ver = Inl StructError \<longleftrightarrow>
      ver = Some 4 \<and> ip_ver m = Some 4 \<and> length (pm_data m) < 38 \<and>
      \<not> ((case pm_vlan m of None \<Rightarrow> False | Some vl \<Rightarrow> v_minimum_ip_size_check vl) \<and> length (pm_data m) < header_size)"
    for header_size ver
    by (auto simp: ip_header_ok_def ipv4_parseable_def Let_def IPV4_HEADER_SIZE_def ETH_VLAN_HEADER_SIZE_def
        ETH_HEADER_SIZE_def split: option.splits if_splits)
  show ?thesis
  proof (cases "dict_get (ETH_TYPES_PARSERS K) (pm_eth_type m)")
    case None
    then show ?thesis using assms(1) by (auto simp: reparse_ip_def short_ipv4_def ETH_TYPES_PARSERS_def dict_get_Cons split: if_splits)
  next
    case (Some v)
    then obtain ver is_l3 where v: "dict_get (ETH_TYPES_PARSERS K) (pm_eth_type m) = Some (ver, is_l3)" by (cases v) auto
    then have "\<exists>hs. dict_get (MIN_ETH_TYPE_PKT_SIZE K) (pm_eth_type m) = Some hs"
      by (auto simp: ETH_TYPES_PARSERS_def MIN_ETH_TYPE_PKT_SIZE_def dict_get_Cons split: if_splits)
    then obtain hs where hs: "dict_get (MIN_ETH_TYPE_PKT_SIZE K) (pm_eth_type m) = Some hs" by blast
    have "reparse_ip K P payload m = Inl StructError \<longleftrightarrow> ip_header_ok K m hs ver = Inl StructError"
      using r by (auto simp: reparse_ip_def v hs dict_getE_def bindE_Inl split: option.splits if_splits)
    also have "\<dots> \<longleftrightarrow> short_ipv4 K m"
      using assms(1) v hs
      by (auto simp: ok short_ipv4_def ETH_TYPES_PARSERS_def MIN_ETH_TYPE_PKT_SIZE_def dict_get_Cons IPV4_HEADER_SIZE_def
          ETH_VLAN_HEADER_SIZE_def ETH_HEADER_SIZE_def split: if_splits option.splits)
    finally show ?thesis .
  qed
qed

subsection \<open>Witnesses\<close>

definition example_pktlib :: pktlib where
  "example_pktlib = \<lparr>pl_parse = (\<lambda>d. Inr [EthernetH ''ff:ff:ff:ff:ff:ff'' ''0e:00:00:00:00:09'' 2048]),
     pl_serialize = (\<lambda>_. []), pl_mac_bin = (\<lambda>_. [14, 0, 0, 0, 0, 1]), pl_utf8 = bytes_of,
     pl_utf8_decode = (\<lambda>b. Inr (map (\<lambda>n. char_of (nat n)) b))\<rparr>"

lemma lldp_roundtrip_witness:
  "parse_faucet_lldp example_pktlib (lldp_tlvs example_pktlib FAUCET_MAC 3 5
      (Some ([([0, 18, 15], 1, [2])] @ faucet_lldp_tlvs example_pktlib FAUCET_MAC 17 @
        faucet_lldp_stack_state_tlvs example_pktlib FAUCET_MAC (default_port 3))) (Some ''sw1'') None) FAUCET_MAC =
    Inr (Some 17, Some ''sw1'', Some 3, None)"
proof -
  have h1: "\<forall>t \<in> set [([0, 18, 15], 1, [2])]. fst t \<noteq> faucet_oui example_pktlib FAUCET_MAC"
    by (simp add: example_pktlib_def faucet_oui_def)
  have h2: "pl_utf8_decode example_pktlib (pl_utf8 example_pktlib ''sw1'') = Inr ''sw1''" by code_simp
  have d: "p_stack (default_port 3) = None" by (simp add: default_port_def)
  show ?thesis using lldp_roundtrip [OF h1 h2, of FAUCET_MAC 3 5 17 "default_port 3" None] d by simp
qed

lemma int_mac_roundtrip_witness: "int_from_mac (int_in_mac FAUCET_MAC 4095) = Inr 4095"
  by (rule int_mac_roundtrip) simp

definition example_short_pkt :: pkt_meta where
  "example_short_pkt = \<lparr>pm_reason = 1, pm_data = replicate 18 0 @ [69, 0], pm_orig_len = 20, pm_pkt = None, pm_pkt_data = [], pm_eth_pkt = None,
     pm_vlan_pkt = None, pm_port = default_port 1, pm_vlan = None, pm_eth_src = 1, pm_eth_dst = ''ff:ff:ff:ff:ff:ff'',
     pm_eth_type = 2048, pm_l3_pkt = None, pm_l3_src = None, pm_l3_dst = None\<rparr>"

lemma reparse_ip_raises_witness: "reparse_ip of13 example_pktlib 0 example_short_pkt = Inl StructError"
proof -
  have "short_ipv4 of13 example_short_pkt"
    by (simp add: short_ipv4_def example_short_pkt_def ip_ver_def ETH_VLAN_HEADER_SIZE_def ETH_HEADER_SIZE_def nth_append)
  then show ?thesis using reparse_ip_raises [of of13 example_pktlib 0 example_short_pkt] by (simp add: example_pktlib_def)
qed


text \<open>The fragment offset has 13 bits and \<open>ipv4_parseable\<close> tests 12: a late fragment passes.\<close>

definition late_fragment :: "int list" where
  "late_fragment = [0x45, 0, 0, 40, 0, 1, 0x10, 0, 64, 17, 0, 0, 10, 0, 0, 1, 10, 0, 0, 2]"

lemma late_fragment_parsed:
  "ipv4_parseable of13 late_fragment = Inr True \<and> and (256 * late_fragment ! 6 + late_fragment ! 7) 0x1FFF = 0x1000"
  by code_simp

end
