(* ===== verification/Flood.thy ===== *)
theory Flood imports ValveTable Packet begin

text \<open>
  Flooding: the flood actions of \<^verbatim>\<open>faucet/valve_of.py\<close> and the flood rules of the switch manager
  of a datapath without a stack, \<^verbatim>\<open>faucet/valve_switch_standalone.py\<close>.

  The record \<open>switch_mgr\<close> holds the attributes of the manager, \<open>lib\<close> what comes from the libraries.
  A set of ports is a list of ports compared by number.
\<close>

section \<open>Flood actions\<close>

definition flood_to_port :: "ofp \<Rightarrow> port option \<Rightarrow> port list \<Rightarrow> port \<Rightarrow> err + action list" where
  "flood_to_port K in_port exclude_ports p =
     (case in_port of
        Some i \<Rightarrow>
          if port_eq p i then Inr (if p_hairpin i then [output_in_port K] else [])
          else if port_in p exclude_ports then Inr []
          else bindE (ports_from_output_port_acts (mirror_actions i)) (\<lambda>in_mirrors.
               bindE (ports_from_output_port_acts (mirror_actions p)) (\<lambda>mirrors.
               Inr (output_port (p_number p) # (if in_mirrors \<noteq> mirrors then mirror_actions p else []))))
      | None \<Rightarrow>
          if port_in p exclude_ports then Inr []
          else bindE (ports_from_output_port_acts (mirror_actions p)) (\<lambda>_.
               Inr (output_port (p_number p) # mirror_actions p)))"

definition flood_tagged_port_outputs :: "ofp \<Rightarrow> port list \<Rightarrow> port option \<Rightarrow> port list \<Rightarrow> err + action list" where
  "flood_tagged_port_outputs K ports in_port exclude_ports =
     bindE (mapE (flood_to_port K in_port exclude_ports) ports) (\<lambda>acts. dedupe_output_port_acts (concat acts))"

definition flood_untagged_port_outputs :: "ofp \<Rightarrow> port list \<Rightarrow> port option \<Rightarrow> port list \<Rightarrow> err + action list" where
  "flood_untagged_port_outputs K ports in_port exclude_ports =
     bindE (flood_tagged_port_outputs K ports in_port exclude_ports) (\<lambda>acts.
     Inr (if acts \<noteq> [] then pop_vlan # acts else acts))"

definition flood_port_outputs :: "ofp \<Rightarrow> port list \<Rightarrow> port list \<Rightarrow> port option \<Rightarrow> port list \<Rightarrow> err + action list" where
  "flood_port_outputs K tagged_ports untagged_ports in_port exclude_ports =
     bindE (flood_tagged_port_outputs K tagged_ports in_port exclude_ports) (\<lambda>t.
     bindE (flood_untagged_port_outputs K untagged_ports in_port exclude_ports) (\<lambda>u. Inr (t @ u)))"

section \<open>The switch manager\<close>

record switch_mgr =
  sm_ports :: "(int, port) dict"
  sm_vlans :: "(int, vlan) dict"
  sm_vlan_table :: valve_table
  sm_vlan_acl_table :: "valve_table option"
  sm_eth_src_table :: valve_table
  sm_eth_dst_table :: valve_table
  sm_eth_dst_hairpin_table :: "valve_table option"
  sm_flood_table :: valve_table
  sm_classification_table :: valve_table
  sm_use_group_table :: bool
  sm_combinatorial_port_flood :: bool
  sm_restricted_bcast_arpnd :: bool
  sm_has_externals :: bool
  sm_learn_ban_timeout :: int
  sm_learn_timeout :: int
  sm_learn_jitter :: int
  sm_cache_update_guard_time :: int
  sm_idle_dst :: bool
  sm_dp_high_priority :: int
  sm_dp_highest_priority :: int
  sm_faucet_dp_mac :: string
  sm_drop_spoofed_faucet_mac :: bool

definition MISS_PRIORITY :: int where "MISS_PRIORITY = 0"
definition LOW_PRIORITY :: int where "LOW_PRIORITY = 0x1000"
definition MATCH_PRIORITY :: int where "MATCH_PRIORITY = 0x2000"
definition LPM_PRIORITY :: int where "LPM_PRIORITY = 0x3000"
definition HIGH_PRIORITY :: int where "HIGH_PRIORITY = 0x4000"
definition FILTER_PRIORITY :: int where "FILTER_PRIORITY = 0x5000"

definition sm_output_table :: "switch_mgr \<Rightarrow> valve_table" where
  "sm_output_table sm = (case sm_eth_dst_hairpin_table sm of Some t \<Rightarrow> t | None \<Rightarrow> sm_eth_dst_table sm)"

text \<open>Flood destinations: unicast or not, Ethernet type, address and mask.\<close>

type_synonym flood_dst = "bool \<times> int option \<times> string option \<times> string option"

definition byte_mask :: "nat \<Rightarrow> string option" where
  "byte_mask n = (case mac_byte_mask n of Inr m \<Rightarrow> Some m | Inl _ \<Rightarrow> None)"

definition BROADCAST_STR :: string where "BROADCAST_STR = ''ff:ff:ff:ff:ff:ff''"

definition FLOOD_DSTS :: "flood_dst list" where
  "FLOOD_DSTS =
     [(True, None, None, None),
      (False, None, Some BRIDGE_GROUP_ADDRESS, byte_mask 3),
      (False, None, Some ''01:00:5E:00:00:00'', byte_mask 3),
      (False, None, Some ''33:33:00:00:00:00'', byte_mask 2),
      (False, None, Some BROADCAST_STR, byte_mask 6)]"

definition RESTRICTED_FLOOD_DISTS :: "ofp \<Rightarrow> flood_dst list" where
  "RESTRICTED_FLOOD_DISTS K =
     [(False, Some (ETH_TYPE_ARP K), Some BROADCAST_STR, byte_mask 6),
      (False, Some (ETH_TYPE_IPV6 K), Some ''33:33:FF:00:00:00'', byte_mask 3),
      (False, Some (ETH_TYPE_IPV6 K), Some IPV6_ALL_ROUTERS_MCAST, byte_mask 6),
      (False, Some (ETH_TYPE_IPV6 K), Some IPV6_ALL_NODES_MCAST, byte_mask 6)]"

definition flood_dsts :: "lib \<Rightarrow> switch_mgr \<Rightarrow> flood_dst list" where
  "flood_dsts L sm = (if sm_restricted_bcast_arpnd sm then FLOOD_DSTS @ RESTRICTED_FLOOD_DISTS (lib_ofp L) else FLOOD_DSTS)"

abbreviation no_match :: match_args where "no_match \<equiv> no_match_args"

text \<open>Composing a flow of a table: the match first, then the flow.\<close>

definition tbl_flowmod :: "lib \<Rightarrow> valve_table \<Rightarrow> match_args \<Rightarrow> flow_args \<Rightarrow> err + ofmsg" where
  "tbl_flowmod L t ma a =
     bindE (vt_match (lib_ofp L) ma) (\<lambda>mt. vt_flowmod (lib_ofp L) (lib_recirc L) t (a\<lparr>fa_match := mt\<rparr>))"

definition tbl_flowdel :: "lib \<Rightarrow> valve_table \<Rightarrow> match_args \<Rightarrow> int option \<Rightarrow> int \<Rightarrow> bool \<Rightarrow> err + ofmsg" where
  "tbl_flowdel L t ma priority out_port strict =
     bindE (vt_match (lib_ofp L) ma) (\<lambda>mt. vt_flowdel (lib_ofp L) (lib_recirc L) t mt priority out_port strict)"

definition tbl_flowdrop :: "lib \<Rightarrow> valve_table \<Rightarrow> match_args \<Rightarrow> int \<Rightarrow> int \<Rightarrow> err + ofmsg" where
  "tbl_flowdrop L t ma priority hard_timeout =
     bindE (vt_match (lib_ofp L) ma) (\<lambda>mt. vt_flowdrop (lib_ofp L) (lib_recirc L) t mt (Some priority) hard_timeout)"

definition tbl_flowcontroller :: "lib \<Rightarrow> valve_table \<Rightarrow> match_args \<Rightarrow> int \<Rightarrow> instruction list \<Rightarrow> int \<Rightarrow> err + ofmsg" where
  "tbl_flowcontroller L t ma priority inst max_len =
     bindE (vt_match (lib_ofp L) ma) (\<lambda>mt. vt_flowcontroller (lib_ofp L) (lib_recirc L) t mt (Some priority) inst max_len)"

section \<open>Flood rules\<close>

definition mask_flood_priority :: "lib \<Rightarrow> string option \<Rightarrow> int" where
  "mask_flood_priority L eth_dst_mask = MATCH_PRIORITY + int (mac_mask_bits (lib_eui L) eth_dst_mask)"

definition initialise_flood_table :: "lib \<Rightarrow> switch_mgr \<Rightarrow> err + ofmsg list" where
  "initialise_flood_table L sm =
     mapE (\<lambda>(eth_dst, eth_dst_mask).
         tbl_flowdrop L (sm_flood_table sm) (no_match\<lparr>ma_eth_dst := Some eth_dst, ma_eth_dst_mask := eth_dst_mask\<rparr>)
           (mask_flood_priority L eth_dst_mask) 0)
       [(CISCO_CDP_VTP_UDLD_ADDRESS, byte_mask 6), (CISCO_SPANNING_GROUP_ADDRESS, byte_mask 6),
        (BRIDGE_GROUP_ADDRESS, Some BRIDGE_GROUP_MASK)]"

definition vlan_all_ports :: "vlan \<Rightarrow> bool \<Rightarrow> port list" where
  "vlan_all_ports v exclude_unicast = flood_ports (get_ports v) exclude_unicast"

definition canonical_port_order :: "port list \<Rightarrow> port list" where
  "canonical_port_order ports = sort_key p_number ports"

text \<open>The ports a flood leaves out.\<close>

definition flood_exclude_ports :: "vlan \<Rightarrow> port option \<Rightarrow> bool \<Rightarrow> bool \<Rightarrow> err + port list" where
  "flood_exclude_ports v in_port exclude_all_external exclude_restricted_bcast_arpnd =
     (let external_ports = canonical_port_order (loop_protect_external_ports_up v)
      in bindE (excluded_lag_ports in_port v) (\<lambda>exclude_ports.
         Inr (exclude_ports @ exclude_native_if_dot1x v @
              (if exclude_all_external \<or> (case in_port of None \<Rightarrow> False | Some p \<Rightarrow> p_loop_protect_external p)
               then external_ports else drop 1 external_ports) @
              (if exclude_restricted_bcast_arpnd then restricted_bcast_arpnd_ports v else []))))"

definition build_flood_local_rule_actions ::
    "lib \<Rightarrow> vlan \<Rightarrow> bool \<Rightarrow> port option \<Rightarrow> bool \<Rightarrow> bool \<Rightarrow> err + action list" where
  "build_flood_local_rule_actions L v exclude_unicast in_port exclude_all_external exclude_restricted_bcast_arpnd =
     bindE (flood_exclude_ports v in_port exclude_all_external exclude_restricted_bcast_arpnd) (\<lambda>exclude_ports.
     flood_port_outputs (lib_ofp L) (tagged_flood_ports exclude_unicast v) (untagged_flood_ports exclude_unicast v)
       in_port exclude_ports)"

definition build_flood_rule_actions ::
    "lib \<Rightarrow> vlan \<Rightarrow> bool \<Rightarrow> port option \<Rightarrow> bool \<Rightarrow> bool \<Rightarrow> err + action list" where
  "build_flood_rule_actions L v exclude_unicast in_port exclude_all_external exclude_restricted_bcast_arpnd =
     bindE (if loop_protect_external_ports v \<noteq> [] \<and> tagged_flood_ports exclude_unicast v \<noteq> []
            then bindE (set_external_forwarding_requested (lib_conv L)) (\<lambda>a. Inr [a]) else Inr []) (\<lambda>acts.
     bindE (build_flood_local_rule_actions L v exclude_unicast in_port exclude_all_external exclude_restricted_bcast_arpnd)
       (\<lambda>local_acts. Inr (acts @ local_acts)))"

definition build_flood_rule :: "lib \<Rightarrow> switch_mgr \<Rightarrow> match_args \<Rightarrow> flow_command \<Rightarrow> action list \<Rightarrow> int \<Rightarrow> err + ofmsg" where
  "build_flood_rule L sm ma command flood_acts flood_priority =
     tbl_flowmod L (sm_flood_table sm) ma
       (flow_defaults\<lparr>fa_command := command, fa_inst := [apply_actions flood_acts], fa_priority := Some flood_priority\<rparr>)"

definition vlan_flood_priority :: "lib \<Rightarrow> int option \<Rightarrow> string option \<Rightarrow> int" where
  "vlan_flood_priority L eth_type eth_dst_mask =
     mask_flood_priority L eth_dst_mask + (case eth_type of None \<Rightarrow> 0 | Some t \<Rightarrow> t)"

definition flood_match :: "vlan \<Rightarrow> int option \<Rightarrow> string option \<Rightarrow> string option \<Rightarrow> match_args" where
  "flood_match v eth_type eth_dst eth_dst_mask =
     no_match\<lparr>ma_vlan := Some (v_vid v), ma_eth_type := eth_type, ma_eth_dst := eth_dst, ma_eth_dst_mask := eth_dst_mask\<rparr>"

text \<open>
  A subclass of the manager may override how the actions of a rule, the actions of a port's rule and the rules of a
  mask are built: the methods that call these take them as arguments, and a \<open>flood_class\<close> holds those of a class.
\<close>

type_synonym rule_actions = "vlan \<Rightarrow> bool \<Rightarrow> port option \<Rightarrow> bool \<Rightarrow> bool \<Rightarrow> err + action list"
type_synonym port_acts = "vlan \<Rightarrow> bool \<Rightarrow> port \<Rightarrow> bool \<Rightarrow> bool \<Rightarrow> err + action list \<times> int set \<times> string set"
type_synonym mask_rules =
  "vlan \<Rightarrow> int option \<Rightarrow> string option \<Rightarrow> string option \<Rightarrow> bool \<Rightarrow> bool \<Rightarrow> flow_command \<Rightarrow> bool \<Rightarrow> err + ofmsg list"

record flood_class =
  fc_rule_actions :: rule_actions
  fc_port_acts :: port_acts
  fc_mask_rules :: mask_rules

definition build_flood_rule_for_vlan ::
    "rule_actions \<Rightarrow> lib \<Rightarrow> switch_mgr \<Rightarrow> vlan \<Rightarrow> int option \<Rightarrow> string option \<Rightarrow> string option \<Rightarrow> bool \<Rightarrow> flow_command \<Rightarrow> err + ofmsg \<times> action list" where
  "build_flood_rule_for_vlan rule_actions L sm v eth_type eth_dst eth_dst_mask exclude_unicast command =
     bindE (rule_actions v exclude_unicast None False True) (\<lambda>flood_acts.
     bindE (build_flood_rule L sm (flood_match v eth_type eth_dst eth_dst_mask) command flood_acts
              (vlan_flood_priority L eth_type eth_dst_mask)) (\<lambda>m.
     Inr (m, flood_acts)))"

definition build_flood_acts_for_port ::
    "rule_actions \<Rightarrow> lib \<Rightarrow> port_acts" where
  "build_flood_acts_for_port rule_actions L v exclude_unicast p exclude_all_external exclude_restricted_bcast_arpnd =
     (if p_dyn_phys_up p then
        bindE (rule_actions v exclude_unicast (Some p) exclude_all_external
                 (if exclude_restricted_bcast_arpnd then p_restricted_bcast_arpnd p else False)) (\<lambda>acts.
        let (flood_acts, port_output_ports, port_non_output_acts) = output_non_output_actions (lib_str_act L) acts
        in Inr (if port_output_ports = {} then ([], port_output_ports, {})
                else (flood_acts, port_output_ports, port_non_output_acts)))
      else Inr ([], {}, {}))"

definition port_flood_match :: "port \<Rightarrow> vlan \<Rightarrow> int option \<Rightarrow> string option \<Rightarrow> string option \<Rightarrow> match_args" where
  "port_flood_match p v eth_type eth_dst eth_dst_mask =
     (flood_match v eth_type eth_dst eth_dst_mask)\<lparr>ma_in_port := Some (p_number p)\<rparr>"

definition build_flood_rule_for_port ::
    "lib \<Rightarrow> switch_mgr \<Rightarrow> vlan \<Rightarrow> int option \<Rightarrow> string option \<Rightarrow> string option \<Rightarrow> flow_command \<Rightarrow> port \<Rightarrow> action list \<Rightarrow> err + ofmsg" where
  "build_flood_rule_for_port L sm v eth_type eth_dst eth_dst_mask command p flood_acts =
     build_flood_rule L sm (port_flood_match p v eth_type eth_dst eth_dst_mask) command flood_acts
       (vlan_flood_priority L eth_type eth_dst_mask + 1)"

text \<open>The rule of one port: a rule of its own when its outputs are not those of the VLAN's rule without it.\<close>

definition mask_port_rule ::
    "port_acts \<Rightarrow> lib \<Rightarrow> switch_mgr \<Rightarrow> vlan \<Rightarrow> int option \<Rightarrow> string option \<Rightarrow> string option \<Rightarrow> bool \<Rightarrow> bool \<Rightarrow> flow_command \<Rightarrow> bool \<Rightarrow>
     (int set \<times> string set) option \<Rightarrow> port \<Rightarrow> err + ofmsg list" where
  "mask_port_rule port_acts L sm v eth_type eth_dst eth_dst_mask exclude_unicast exclude_restricted command cold_start vlan_outputs p =
     bindE (port_acts v exclude_unicast p False exclude_restricted) (\<lambda>(flood_acts, outs, nonouts).
     if flood_acts = [] then Inr []
     else if (case vlan_outputs of None \<Rightarrow> False | Some (vlan_outs, vlan_nonouts) \<Rightarrow>
                vlan_outs - {p_number p} = outs \<and> vlan_nonouts = nonouts)
     then (if cold_start then Inr []
           else bindE (tbl_flowdel L (sm_flood_table sm) (port_flood_match p v eth_type eth_dst eth_dst_mask)
                         (Some (vlan_flood_priority L eth_type eth_dst_mask + 1)) (OFPP_ANY (lib_ofp L)) False) (\<lambda>m. Inr [m]))
     else bindE (build_flood_rule_for_port L sm v eth_type eth_dst eth_dst_mask command p flood_acts) (\<lambda>m. Inr [m]))"

definition build_mask_flood_rules :: "rule_actions \<Rightarrow> port_acts \<Rightarrow> lib \<Rightarrow> switch_mgr \<Rightarrow> mask_rules" where
  "build_mask_flood_rules rule_actions port_acts L sm v eth_type eth_dst eth_dst_mask exclude_unicast exclude_restricted command cold_start =
     (if sm_combinatorial_port_flood sm then
        bindE (mapE (mask_port_rule port_acts L sm v eth_type eth_dst eth_dst_mask exclude_unicast exclude_restricted command cold_start None)
                 (vlan_all_ports v exclude_unicast)) (\<lambda>msgs. Inr (concat msgs))
      else
        bindE (build_flood_rule_for_vlan rule_actions L sm v eth_type eth_dst eth_dst_mask exclude_unicast command)
          (\<lambda>(vlan_flood_ofmsg, vlan_flood_acts).
        let (_, vlan_outs, vlan_nonouts) = output_non_output_actions (lib_str_act L) vlan_flood_acts
        in bindE (mapE (mask_port_rule port_acts L sm v eth_type eth_dst eth_dst_mask exclude_unicast exclude_restricted command cold_start
                          (Some (vlan_outs, vlan_nonouts))) (vlan_all_ports v exclude_unicast)) (\<lambda>msgs.
           Inr ((if sm_use_group_table sm then [] else [vlan_flood_ofmsg]) @ concat msgs))))"

definition build_multiout_flood_rules :: "flood_class \<Rightarrow> lib \<Rightarrow> switch_mgr \<Rightarrow> vlan \<Rightarrow> flow_command \<Rightarrow> bool \<Rightarrow> err + ofmsg list" where
  "build_multiout_flood_rules C L sm v command cold_start =
     bindE (mapE (\<lambda>(unicast_eth_dst, eth_type, eth_dst, eth_dst_mask).
              if unicast_eth_dst \<and> \<not> v_unicast_flood v then Inr []
              else fc_mask_rules C v eth_type eth_dst eth_dst_mask unicast_eth_dst (eth_type = None) command cold_start)
            (flood_dsts L sm)) (\<lambda>msgs. Inr (concat msgs))"

text \<open>With groups: a group of the VLAN, and one for unicast when its outputs differ.\<close>

definition group_flood_rule :: "lib \<Rightarrow> switch_mgr \<Rightarrow> vlan \<Rightarrow> flow_command \<Rightarrow> (bool \<Rightarrow> group_entry) \<Rightarrow> flood_dst \<Rightarrow> err + ofmsg list" where
  "group_flood_rule L sm v command groups_by_unicast_eth dst =
     (case dst of (unicast_eth_dst, eth_type, eth_dst, eth_dst_mask) \<Rightarrow>
        if unicast_eth_dst \<and> \<not> v_unicast_flood v then Inr []
        else
          bindE (tbl_flowmod L (sm_flood_table sm) (flood_match v eth_type eth_dst eth_dst_mask)
                   (flow_defaults\<lparr>fa_command := command,
                      fa_inst := [apply_actions [group_act (ge_group_id (groups_by_unicast_eth unicast_eth_dst))]],
                      fa_priority := Some (vlan_flood_priority L eth_type eth_dst_mask)\<rparr>)) (\<lambda>m. Inr [m]))"

definition build_group_flood_rules ::
    "rule_actions \<Rightarrow> lib \<Rightarrow> switch_mgr \<Rightarrow> vlan \<Rightarrow> flow_command \<Rightarrow> group_table \<Rightarrow> err + ofmsg list \<times> group_table" where
  "build_group_flood_rules rule_actions L sm v command groups =
     bindE (build_flood_rule_for_vlan rule_actions L sm v None None None False command) (\<lambda>(_, vlan_flood_acts).
     let group_id = v_vid v;
         (group, groups) = get_entry group_id (build_group_flood_buckets (lib_ofp L) vlan_flood_acts) groups
     in bindE (build_flood_rule_for_vlan rule_actions L sm v None None None True command) (\<lambda>(_, unicast_acts).
        let (unicast_deduped, unicast_output_ports, _) = output_non_output_actions (lib_str_act L) unicast_acts;
            (_, vlan_output_ports, _) = output_non_output_actions (lib_str_act L) vlan_flood_acts;
            (unicast_group, groups) =
              (if unicast_output_ports \<noteq> vlan_output_ports
               then get_entry (group_id + VLAN_GROUP_OFFSET) (build_group_flood_buckets (lib_ofp L) unicast_deduped) groups
               else (group, groups));
            (msgs1, groups) = group_entry_add group groups;
            (msgs2, groups) = group_entry_add unicast_group groups
        in bindE (mapE (group_flood_rule L sm v command (\<lambda>u. if u then unicast_group else group)) (flood_dsts L sm)) (\<lambda>msgs3.
           Inr (msgs1 @ msgs2 @ concat msgs3, groups))))"

definition build_flood_rules ::
    "flood_class \<Rightarrow> lib \<Rightarrow> switch_mgr \<Rightarrow> vlan \<Rightarrow> bool \<Rightarrow> bool \<Rightarrow> group_table \<Rightarrow> err + ofmsg list \<times> group_table" where
  "build_flood_rules C L sm v cold_start modify groups =
     (let command = (if modify then OFPFC_MODIFY_STRICT else OFPFC_ADD)
      in bindE (build_multiout_flood_rules C L sm v command cold_start) (\<lambda>ofmsgs.
         if sm_use_group_table sm
         then bindE (build_group_flood_rules (fc_rule_actions C) L sm v command groups) (\<lambda>(msgs, groups). Inr (ofmsgs @ msgs, groups))
         else Inr (ofmsgs, groups)))"

text \<open>The manager of a datapath without a stack.\<close>

definition standalone :: "lib \<Rightarrow> switch_mgr \<Rightarrow> flood_class" where
  "standalone L sm =
     \<lparr>fc_rule_actions = build_flood_rule_actions L,
      fc_port_acts = build_flood_acts_for_port (build_flood_rule_actions L) L,
      fc_mask_rules = build_mask_flood_rules (build_flood_rule_actions L)
        (build_flood_acts_for_port (build_flood_rule_actions L) L) L sm\<rparr>"


section \<open>Flooding through a group is flooding\<close>

definition plain_action :: "action \<Rightarrow> bool" where
  "plain_action a \<longleftrightarrow> (\<forall>g. a \<noteq> AGroup g)"

lemma plain_run_group: "\<forall>a \<in> set acts. plain_action a \<Longrightarrow>
    process_actions K rg pkt outs pd acts = process_actions K rg' pkt outs pd acts"
proof (induction acts arbitrary: pkt outs pd)
  case Nil
  then show ?case by simp
next
  case (Cons a acts)
  then show ?case by (cases a) (auto simp: plain_action_def intro!: arg_cong2 [where f = bindE])
qed

lemma process_other_outs:
  "\<not> keeps_pending a \<Longrightarrow> process_actions K rg pkt outs pd [a] = Inr (o', p, q) \<Longrightarrow>
   process_actions K rg pkt outs2 pd2 [a] = Inr (outs2, p, pd2 @ [a])"
  by (cases a) (auto simp: bindE_Inr)

lemma merge_one: "o1 = outputs_extend port [pkt] outs \<Longrightarrow> merge_outputs outs [(port, [pkt])] = o1"
  by (simp add: merge_outputs_def)

lemma flood_buckets:
  assumes "process_actions K rg pkt0 [] [] nonout = Inr ([], pkt, pd1)"
    and "process_actions K rg pkt outs pd acts = Inr (o', p', q')" and "\<forall>a \<in> set acts. plain_action a"
  shows "\<exists>bs. mapE (\<lambda>b. bindE (process_actions K rg pkt0 [] [] (b_actions b)) (\<lambda>(outs, _, _). Inr outs))
      (group_flood_buckets_loop K acts nonout) = Inr bs \<and> foldl merge_outputs outs bs = o'"
  using assms
proof (induction acts arbitrary: nonout pkt pd1 outs pd)
  case Nil
  then show ?case by simp
next
  case (Cons a acts)
  from Cons.prems(2) obtain o1 p1 q1 where a: "process_actions K rg pkt outs pd [a] = Inr (o1, p1, q1)"
      and rest: "process_actions K rg p1 o1 q1 acts = Inr (o', p', q')"
    by (rule process_actions_ConsD)
  have plain: "\<forall>a \<in> set acts. plain_action a" "plain_action a" using Cons.prems(3) by simp_all
  show ?case
  proof (cases "is_output a")
    case True
    then obtain port len where out: "a = AOutput port len" by (cases a) simp_all
    with a have o1: "o1 = outputs_extend port [pkt] outs" "p1 = pkt" by auto
    from Cons.IH [OF Cons.prems(1) rest [unfolded o1(2)] plain(1)] obtain bs where
      bs: "mapE (\<lambda>b. bindE (process_actions K rg pkt0 [] [] (b_actions b)) (\<lambda>(outs, _, _). Inr outs))
        (group_flood_buckets_loop K acts nonout) = Inr bs" "foldl merge_outputs o1 bs = o'" by blast
    have "process_actions K rg pkt0 [] [] (nonout @ [a]) = Inr ([(port, [pkt])], pkt, [])"
      using Cons.prems(1) by (simp add: process_actions_append out outputs_extend_def dict_set_def)
    then have run: "bindE (process_actions K rg pkt0 [] [] (b_actions (mk_bucket K (nonout @ [a])))) (\<lambda>(outs, _, _). Inr outs) =
        Inr [(port, [pkt])]" by (simp add: mk_bucket_def)
    show ?thesis
    proof (intro exI [of _ "[(port, [pkt])] # bs"] conjI)
      show "mapE (\<lambda>b. bindE (process_actions K rg pkt0 [] [] (b_actions b)) (\<lambda>(outs, _, _). Inr outs))
          (group_flood_buckets_loop K (a # acts) nonout) = Inr ([(port, [pkt])] # bs)"
        using mapE_ConsI [where f = "\<lambda>b. bindE (process_actions K rg pkt0 [] [] (b_actions b)) (\<lambda>(outs, _, _). Inr outs)",
            OF run bs(1)] True by (simp only: group_flood_buckets_loop.simps if_True)
      show "foldl merge_outputs outs ([(port, [pkt])] # bs) = o'"
        using bs(2) by (simp add: merge_one [OF o1(1)])
    qed
  next
    case False
    with plain(2) have other: "\<not> keeps_pending a" by (cases a) (simp_all add: plain_action_def)
    from process_other [OF other a] have "o1 = outs" by simp
    have "process_actions K rg pkt0 [] [] (nonout @ [a]) = Inr ([], p1, pd1 @ [a])"
      using Cons.prems(1) process_other_outs [OF other a, of "[]" pd1] by (simp add: process_actions_append)
    from Cons.IH [OF this rest [unfolded \<open>o1 = outs\<close>] plain(1)] False show ?thesis by simp
  qed
qed

text \<open>C27. Flooding through a group of buckets built from a list of actions outputs exactly what
  applying the actions outputs.\<close>

lemma group_flood_equiv:
  assumes "process_instruction K fuel s pkt acts = Inr (outs, pkt', pend)" and "\<forall>a \<in> set acts. plain_action a"
    and "dict_get (sw_groups s) gid = Some g" and "gm_buckets g = build_group_flood_buckets K acts"
  shows "\<exists>pkt2 pend2. process_instruction K (Suc fuel) s pkt [group_act gid] = Inr (outs, pkt2, pend2)"
proof -
  let ?rg = "group_outputs K fuel (sw_groups s)"
  have "process_actions K ?rg pkt [] [] acts = Inr (outs, pkt', pend)"
    using assms(1) by (simp add: process_instruction_def)
  from flood_buckets [OF _ this assms(2), of pkt "[]" "[]"] obtain bs where
    bs: "mapE (\<lambda>b. bindE (process_actions K ?rg pkt [] [] (b_actions b)) (\<lambda>(outs, _, _). Inr outs)) (gm_buckets g) = Inr bs"
      "foldl merge_outputs [] bs = outs"
    by (auto simp: assms(4) build_group_flood_buckets_def)
  then show ?thesis using assms(3) by (simp add: process_instruction_def group_act_def)
qed

section \<open>What is flooded to\<close>

definition mirrors :: "port \<Rightarrow> int set" where
  "mirrors p = set (case p_mirror p of None \<Rightarrow> [] | Some ps \<Rightarrow> ps)"

text \<open>The ports a flood of the given ports outputs to.\<close>

definition flood_targets :: "ofp \<Rightarrow> port option \<Rightarrow> port list \<Rightarrow> port \<Rightarrow> int set" where
  "flood_targets K in_port exclude_ports p =
     (case in_port of
        Some i \<Rightarrow>
          if port_eq p i then (if p_hairpin i then {OFPP_IN_PORT K} else {})
          else if port_in p exclude_ports then {}
          else insert (p_number p) (if mirrors i \<noteq> mirrors p then mirrors p else {})
      | None \<Rightarrow> if port_in p exclude_ports then {} else insert (p_number p) (mirrors p))"

definition outputs_to :: "int list \<Rightarrow> action list" where
  "outputs_to ns = map output_port ns"

lemma outputs_ports [simp]: "mapE act_port (outputs_to ns) = Inr ns"
  by (induction ns) (simp_all add: outputs_to_def output_port_def output_port_len_def)

lemma outputs_to_Nil: "outputs_to [] = []" "outputs_to ns \<noteq> [] \<longleftrightarrow> ns \<noteq> []"
  by (simp_all add: outputs_to_def)

lemma mirror_outputs: "\<exists>ms. mirror_actions p = outputs_to ms \<and> mirrors p = set ms"
  by (cases "p_mirror p") (auto simp: mirror_actions_def outputs_to_def mirrors_def)

lemma flood_to_port_result:
  "\<exists>ns. flood_to_port K in_port ex p = Inr (outputs_to ns) \<and> set ns = flood_targets K in_port ex p"
proof -
  obtain ms where m: "mirror_actions p = outputs_to ms" "mirrors p = set ms" using mirror_outputs by blast
  show ?thesis
  proof (cases in_port)
    case None
    then show ?thesis
      by (intro exI [of _ "if port_in p ex then [] else p_number p # ms"])
        (simp add: flood_to_port_def flood_targets_def m ports_from_output_port_acts_def, simp add: outputs_to_def)
  next
    case (Some i)
    obtain ims where i: "mirror_actions i = outputs_to ims" "mirrors i = set ims" using mirror_outputs by blast
    from Some show ?thesis
      by (intro exI [of _ "if port_eq p i then (if p_hairpin i then [OFPP_IN_PORT K] else [])
            else if port_in p ex then [] else p_number p # (if set ims \<noteq> set ms then ms else [])"])
        (simp add: flood_to_port_def flood_targets_def m i ports_from_output_port_acts_def,
         simp add: outputs_to_def output_in_port_def)
  qed
qed

lemma dedupe_outputs: "dedupe_output_port_acts (outputs_to ns) = Inr (outputs_to (sort (remdups ns)))"
  by (simp add: dedupe_output_port_acts_def) (simp add: outputs_to_def)

lemma flood_tagged_result:
  "flood_tagged_port_outputs K ports in_port ex =
     Inr (outputs_to (sorted_list_of_set (\<Union>p \<in> set ports. flood_targets K in_port ex p)))"
proof -
  have "\<exists>nss. mapE (flood_to_port K in_port ex) ports = Inr (map outputs_to nss) \<and>
      set (concat nss) = (\<Union>p \<in> set ports. flood_targets K in_port ex p)"
  proof (induction ports)
    case Nil
    then show ?case by simp
  next
    case (Cons p ports)
    then obtain nss where nss: "mapE (flood_to_port K in_port ex) ports = Inr (map outputs_to nss)"
      "set (concat nss) = (\<Union>p \<in> set ports. flood_targets K in_port ex p)" by blast
    from flood_to_port_result obtain ns where
      "flood_to_port K in_port ex p = Inr (outputs_to ns)" "set ns = flood_targets K in_port ex p" by blast
    with nss show ?case by (intro exI [of _ "ns # nss"]) simp
  qed
  then obtain nss where nss: "mapE (flood_to_port K in_port ex) ports = Inr (map outputs_to nss)"
    "set (concat nss) = (\<Union>p \<in> set ports. flood_targets K in_port ex p)" by blast
  have "concat (map outputs_to nss) = outputs_to (concat nss)" by (simp add: outputs_to_def [abs_def] map_concat)
  with nss(1) have "flood_tagged_port_outputs K ports in_port ex = Inr (outputs_to (sort (remdups (concat nss))))"
    by (simp add: flood_tagged_port_outputs_def dedupe_outputs)
  moreover have "sort (remdups (concat nss)) = sorted_list_of_set (\<Union>p \<in> set ports. flood_targets K in_port ex p)"
    unfolding nss(2) [symmetric] by (rule sorted_list_of_set_sort_remdups [symmetric])
  ultimately show ?thesis by simp
qed

text \<open>Nothing here raises but for the test of the LAG ports; the actions name the tagged and then the untagged targets.\<close>

lemma flood_port_outputs_result:
  "\<exists>t u. flood_port_outputs K tagged untagged in_port ex =
      Inr (outputs_to t @ (if u = [] then [] else pop_vlan # outputs_to u)) \<and>
    set t = (\<Union>p \<in> set tagged. flood_targets K in_port ex p) \<and> set u = (\<Union>p \<in> set untagged. flood_targets K in_port ex p)"
proof -
  have "finite (mirrors p)" for p unfolding mirrors_def by (rule finite_set)
  then have "finite (flood_targets K in_port ex p)" for p by (cases in_port) (simp_all add: flood_targets_def)
  then have fin: "finite (\<Union>p \<in> set ps. flood_targets K in_port ex p)" for ps by simp
  let ?t = "sorted_list_of_set (\<Union>p \<in> set tagged. flood_targets K in_port ex p)"
  let ?u = "sorted_list_of_set (\<Union>p \<in> set untagged. flood_targets K in_port ex p)"
  have "flood_port_outputs K tagged untagged in_port ex = Inr (outputs_to ?t @ (if ?u = [] then [] else pop_vlan # outputs_to ?u))"
    by (simp only: flood_port_outputs_def flood_untagged_port_outputs_def flood_tagged_result bindE_simps outputs_to_Nil) (simp add: outputs_to_Nil)
  with fin show ?thesis by (intro exI [of _ ?t] exI [of _ ?u]) (simp only: set_sorted_list_of_set simp_thms)
qed

lemma output_in_outputs [simp]: "output_port n \<in> set (outputs_to ns) \<longleftrightarrow> n \<in> set ns"
  by (auto simp: outputs_to_def output_port_def output_port_len_def)

lemma output_in_flood:
  assumes "flood_port_outputs K tagged untagged in_port ex = Inr acts"
  shows "output_port n \<in> set acts \<longleftrightarrow> (\<exists>p \<in> set (tagged @ untagged). n \<in> flood_targets K in_port ex p)"
proof -
  from flood_port_outputs_result [of K tagged untagged in_port ex] assms obtain t u where
    "acts = outputs_to t @ (if u = [] then [] else pop_vlan # outputs_to u)"
    "set t = (\<Union>p \<in> set tagged. flood_targets K in_port ex p)" "set u = (\<Union>p \<in> set untagged. flood_targets K in_port ex p)" by auto
  moreover have "output_port n \<noteq> pop_vlan" by (simp add: output_port_def output_port_len_def pop_vlan_def)
  ultimately show ?thesis by auto
qed

text \<open>Whether a port may be flooded to, for a packet that came in on \<open>in_port\<close>.\<close>

definition if_arrived :: "(port \<Rightarrow> bool) \<Rightarrow> port option \<Rightarrow> bool" where
  "if_arrived P in_port = (case in_port of None \<Rightarrow> True | Some i \<Rightarrow> P i)"

definition flood_allowed :: "vlan \<Rightarrow> bool \<Rightarrow> port option \<Rightarrow> bool \<Rightarrow> bool \<Rightarrow> port \<Rightarrow> bool" where
  "flood_allowed v exclude_unicast in_port exclude_all_external restricted p \<longleftrightarrow>
     (exclude_unicast \<longrightarrow> p_unicast_flood p) \<and>
     if_arrived (\<lambda>i. p_number i \<noteq> p_number p) in_port \<and>
     (p_lacp p \<noteq> 0 \<longrightarrow> flood_member v (p_lacp p) = Some p \<and> if_arrived (\<lambda>i. p_lacp i \<noteq> p_lacp p) in_port) \<and>
     \<not> port_in p (exclude_native_if_dot1x v) \<and>
     (p_loop_protect_external p \<and> p_dyn_phys_up p \<longrightarrow>
        \<not> exclude_all_external \<and> if_arrived (\<lambda>i. \<not> p_loop_protect_external i) in_port \<and>
        (\<forall>q \<in> set (get_ports v). p_loop_protect_external q \<and> p_dyn_phys_up q \<longrightarrow> p_number p \<le> p_number q)) \<and>
     (restricted \<longrightarrow> \<not> p_restricted_bcast_arpnd p)"

lemma if_arrived_iff: "if_arrived P in_port \<longleftrightarrow> (\<forall>i. in_port = Some i \<longrightarrow> P i)"
  by (cases in_port) (simp_all add: if_arrived_def)

lemma arrived_iff: "(case in_port of None \<Rightarrow> False | Some i \<Rightarrow> P i) \<longleftrightarrow> (\<exists>i. in_port = Some i \<and> P i)"
  by (cases in_port) simp_all

lemma port_in_append [simp]: "port_in p (xs @ ys) \<longleftrightarrow> port_in p xs \<or> port_in p ys"
  by (auto simp: port_in_def)

lemma port_in_Nil [simp]: "\<not> port_in p []"
  by (simp add: port_in_def)

lemma port_in_filter:
  assumes "distinct (map p_number ps)" and "p \<in> set ps"
  shows "port_in p (filter P ps) \<longleftrightarrow> P p"
proof -
  have "q = p" if "q \<in> set ps" "p_number q = p_number p" for q
    using assms that by (metis distinct_map inj_onD)
  then show ?thesis using assms(2) unfolding port_in_def port_eq_def
    by (simp add: list_ex_iff Bex_def) metis
qed

text \<open>Of the external ports that are up, all but the one with the lowest number are left out.\<close>

lemma external_excluded:
  assumes "distinct (map p_number (get_ports v))" and "p \<in> set (get_ports v)"
  shows "port_in p (canonical_port_order (loop_protect_external_ports_up v)) \<longleftrightarrow> p_loop_protect_external p \<and> p_dyn_phys_up p"
    and "port_in p (drop 1 (canonical_port_order (loop_protect_external_ports_up v))) \<longleftrightarrow>
      p_loop_protect_external p \<and> p_dyn_phys_up p \<and>
      \<not> (\<forall>q \<in> set (get_ports v). p_loop_protect_external q \<and> p_dyn_phys_up q \<longrightarrow> p_number p \<le> p_number q)"
proof -
  let ?E = "loop_protect_external_ports_up v" and ?S = "canonical_port_order (loop_protect_external_ports_up v)"
  have E: "?E = filter (\<lambda>p. p_loop_protect_external p \<and> p_dyn_phys_up p) (get_ports v)"
    by (simp add: loop_protect_external_ports_up_def loop_protect_external_ports_def conj_commute)
  have mem: "port_in p ?S \<longleftrightarrow> port_in p ?E" by (simp add: port_in_def canonical_port_order_def)
  show all: "port_in p ?S \<longleftrightarrow> p_loop_protect_external p \<and> p_dyn_phys_up p"
    unfolding mem unfolding E by (rule port_in_filter [OF assms])
  have setS: "set ?S = {q \<in> set (get_ports v). p_loop_protect_external q \<and> p_dyn_phys_up q}"
    by (simp add: canonical_port_order_def E)
  have "distinct (map p_number ?E)" unfolding E by (rule distinct_filter_numbers [OF assms(1)])
  then have d: "distinct (map p_number ?S)" by (simp add: canonical_port_order_def distinct_map)
  have s: "sorted (map p_number ?S)" by (simp add: canonical_port_order_def)
  show "port_in p (drop 1 ?S) \<longleftrightarrow> p_loop_protect_external p \<and> p_dyn_phys_up p \<and>
      \<not> (\<forall>q \<in> set (get_ports v). p_loop_protect_external q \<and> p_dyn_phys_up q \<longrightarrow> p_number p \<le> p_number q)"
  proof (cases ?S)
    case Nil
    then have "\<not> port_in p ?S" by (simp add: port_in_def)
    with all have "\<not> (p_loop_protect_external p \<and> p_dyn_phys_up p)" by simp
    then show ?thesis using Nil by (simp only: drop_Nil port_in_Nil) blast
  next
    case (Cons q S)
    have less: "p_number q < p_number r" if "r \<in> set S" for r using d s that Cons by (auto simp: less_le)
    have q: "q \<in> set ?S" using Cons by simp
    have uniq: "r = p" if "r \<in> set ?S" "p_number r = p_number p" for r
      using that setS assms by (metis (mono_tags, lifting) distinct_map inj_onD mem_Collect_eq)
    have "port_in p S \<longleftrightarrow> p \<in> set S"
      using uniq Cons unfolding port_in_def port_eq_def by (metis list.set_intros(2))
    also have "\<dots> \<longleftrightarrow> p \<in> set ?S \<and> p \<noteq> q" using Cons less by auto
    also have "\<dots> \<longleftrightarrow> p \<in> set ?S \<and> \<not> (\<forall>r \<in> set ?S. p_number p \<le> p_number r)"
      using Cons less q uniq by (metis (no_types, opaque_lifting) leD linorder_le_cases order_refl set_ConsD less_imp_le)
    finally show ?thesis using Cons setS assms(2) by auto
  qed
qed

text \<open>Where a flood to a port is copied to by mirroring: not where the port it came in on is mirrored to as well.\<close>

definition mirrored_to :: "port option \<Rightarrow> port \<Rightarrow> int set" where
  "mirrored_to in_port p =
     (case in_port of None \<Rightarrow> mirrors p | Some i \<Rightarrow> if mirrors i \<noteq> mirrors p then mirrors p else {})"

lemma not_excluded_allowed:
  assumes dist: "distinct (map p_number (get_ports v))" and p: "p \<in> set (get_ports v)"
    and ex: "flood_exclude_ports v in_port exclude_all_external restricted = Inr ex"
  shows "(exclude_unicast \<longrightarrow> p_unicast_flood p) \<and> if_arrived (\<lambda>i. p_number i \<noteq> p_number p) in_port \<and> \<not> port_in p ex \<longleftrightarrow>
    flood_allowed v exclude_unicast in_port exclude_all_external restricted p"
proof -
  from ex obtain lag where lag: "excluded_lag_ports in_port v = Inr lag"
    and ex: "ex = lag @ exclude_native_if_dot1x v @
      (if exclude_all_external \<or> (\<exists>p. in_port = Some p \<and> p_loop_protect_external p)
       then canonical_port_order (loop_protect_external_ports_up v)
       else drop 1 (canonical_port_order (loop_protect_external_ports_up v))) @
      (if restricted then restricted_bcast_arpnd_ports v else [])"
    by (auto simp: flood_exclude_ports_def Let_def bindE_Inr arrived_iff)
  have "port_in p ex \<longleftrightarrow>
      p_lacp p \<noteq> 0 \<and> (flood_member v (p_lacp p) \<noteq> Some p \<or> (\<exists>q. in_port = Some q \<and> p_lacp q = p_lacp p)) \<or>
      port_in p (exclude_native_if_dot1x v) \<or>
      p_loop_protect_external p \<and> p_dyn_phys_up p \<and>
        ((exclude_all_external \<or> (\<exists>i. in_port = Some i \<and> p_loop_protect_external i)) \<or>
         \<not> (\<forall>q \<in> set (get_ports v). p_loop_protect_external q \<and> p_dyn_phys_up q \<longrightarrow> p_number p \<le> p_number q)) \<or>
      restricted \<and> port_in p (restricted_bcast_arpnd_ports v)"
    unfolding ex port_in_append excluded_lag_members [OF dist p lag]
    by (cases "exclude_all_external \<or> (\<exists>i. in_port = Some i \<and> p_loop_protect_external i)"; cases restricted)
      (simp_all only: if_True if_False simp_thms external_excluded [OF dist p] port_in_Nil)
  moreover have "port_in p (restricted_bcast_arpnd_ports v) \<longleftrightarrow> p_restricted_bcast_arpnd p"
    unfolding restricted_bcast_arpnd_ports_def by (rule port_in_filter [OF dist p])
  ultimately show ?thesis
    unfolding flood_allowed_def if_arrived_iff by (cases restricted) blast+
qed


subsection \<open>Witnesses\<close>

definition example_lib :: lib where
  "example_lib = \<lparr>lib_ofp = of13, lib_conv = (\<lambda>_ v. Inr v), lib_recirc = (\<lambda>_. False), lib_str_act = (\<lambda>_. ''action''),
     lib_mac_text = (\<lambda>_. ''0e:00:00:00:00:01''), lib_shuffle = (\<lambda>xs. xs), lib_eui = (\<lambda>_. 0)\<rparr>"

definition example_flood_acts :: "action list" where
  "example_flood_acts = [output_port 1, output_port 2, pop_vlan, output_port 3]"

definition example_group_switch :: switch where
  "example_group_switch = (new_switch 1 False)\<lparr>sw_groups := [(100, \<lparr>gm_command = OFPGC_ADD, gm_type = OFPGT_ALL,
     gm_group_id = 100, gm_buckets = build_group_flood_buckets of13 example_flood_acts\<rparr>)]\<rparr>"

definition example_tagged_packet :: packet where
  "example_tagged_packet = [(''vlan_vid'', MInt 0x1064), (''eth_dst'', MText BROADCAST_STR)]"

definition example_untagged_packet :: packet where
  "example_untagged_packet = [(''vlan_vid'', MInt 0), (''eth_dst'', MText BROADCAST_STR)]"

lemma example_flood_run: "\<exists>pkt. process_instruction of13 0 example_group_switch example_tagged_packet example_flood_acts =
    Inr ([(1, [example_tagged_packet]), (2, [example_tagged_packet]), (3, [pkt])], pkt, [])"
  by (simp add: example_flood_acts_def process_instruction_def example_group_switch_def example_tagged_packet_def
      output_port_def output_port_len_def pop_vlan_def pop_vlan_pkt_def outputs_extend_def dict_delE_def dict_set_def
      dict_get_def dict_del_def)

lemma group_flood_equiv_witness:
  "\<exists>pkt pkt2 pend. process_instruction of13 1 example_group_switch example_tagged_packet [group_act 100] =
     Inr ([(1, [example_tagged_packet]), (2, [example_tagged_packet]), (3, [pkt])], pkt2, pend)"
proof -
  from example_flood_run obtain pkt where
    run: "process_instruction of13 0 example_group_switch example_tagged_packet example_flood_acts =
      Inr ([(1, [example_tagged_packet]), (2, [example_tagged_packet]), (3, [pkt])], pkt, [])" by blast
  have plain: "\<forall>a \<in> set example_flood_acts. plain_action a"
    by (simp add: example_flood_acts_def plain_action_def output_port_def output_port_len_def pop_vlan_def)
  have g: "dict_get (sw_groups example_group_switch) 100 =
      Some \<lparr>gm_command = OFPGC_ADD, gm_type = OFPGT_ALL, gm_group_id = 100,
        gm_buckets = build_group_flood_buckets of13 example_flood_acts\<rparr>"
    by (simp add: example_group_switch_def dict_get_def)
  from group_flood_equiv [OF run plain g] show ?thesis by simp blast
qed

definition flooded_acts :: "action list" where
  "flooded_acts = (case build_flood_local_rule_actions example_lib lag_vlan False (Some (default_port 4)) False False of
     Inl _ \<Rightarrow> [] | Inr acts \<Rightarrow> acts)"


end
