(* ===== verification/Output.thy ===== *)
theory Output imports Flood begin

text \<open>
  The pipeline manager, \<^verbatim>\<open>faucet/valve_pipeline.py\<close>: the instructions that pass a packet on to a stage of
  the pipeline or output it, the rules of the egress table and the filters of the classification table.

  The record \<open>pipeline\<close> holds the attributes of \<open>ValvePipeline\<close> and what it reads of its datapath. The
  memoisation of the \<open>accept_to\<close> functions is left out: they depend on nothing but their arguments.
\<close>

section \<open>The manager\<close>

record pipeline =
  pi_vlan_table :: valve_table
  pi_classification_table :: valve_table
  pi_output_table :: valve_table
  pi_egress_table :: "valve_table option"
  pi_egress_acl_table :: "valve_table option"
  pi_dp_high_priority :: int
  pi_drop_broadcast_source_address :: bool

text \<open>The constructor: \<open>tables\<close> are the tables of the datapath by name.\<close>

definition new_pipeline ::
    "(string, valve_table) dict \<Rightarrow> valve_table \<Rightarrow> valve_table \<Rightarrow> bool \<Rightarrow> int \<Rightarrow> bool \<Rightarrow> err + pipeline" where
  "new_pipeline tables classification_table output_table egress_pipeline high_priority drop_broadcast =
     bindE (dict_getE tables ''vlan'') (\<lambda>vlan_table.
     bindE (if egress_pipeline then bindE (dict_getE tables ''egress'') (\<lambda>t. Inr (Some t)) else Inr None) (\<lambda>egress.
     Inr \<lparr>pi_vlan_table = vlan_table, pi_classification_table = classification_table, pi_output_table = output_table,
          pi_egress_table = egress,
          pi_egress_acl_table = (if egress_pipeline then dict_get tables ''egress_acl'' else None),
          pi_dp_high_priority = high_priority, pi_drop_broadcast_source_address = drop_broadcast\<rparr>))"

definition ECTP_ETH_TYPE :: int where "ECTP_ETH_TYPE = 0x9000"

definition accept_to_table :: "valve_table \<Rightarrow> action list \<Rightarrow> instruction list" where
  "accept_to_table t actions = goto_this t # (if actions \<noteq> [] then [apply_actions actions] else [])"

definition accept_to_vlan :: "pipeline \<Rightarrow> action list \<Rightarrow> instruction list" where
  "accept_to_vlan pl actions = accept_to_table (pi_vlan_table pl) actions"

definition accept_to_classification :: "pipeline \<Rightarrow> action list \<Rightarrow> instruction list" where
  "accept_to_classification pl actions = accept_to_table (pi_classification_table pl) actions"

definition accept_to_l2_forwarding :: "pipeline \<Rightarrow> action list \<Rightarrow> instruction list" where
  "accept_to_l2_forwarding pl actions = accept_to_table (pi_output_table pl) actions"

definition accept_to_egress :: "pipeline \<Rightarrow> action list \<Rightarrow> err + instruction list" where
  "accept_to_egress pl actions =
     (case pi_egress_table pl of None \<Rightarrow> Inl AssertionError | Some t \<Rightarrow> Inr (accept_to_table t actions))"

definition set_external :: "lib \<Rightarrow> bool \<Rightarrow> err + action" where
  "set_external L requested =
     (if requested then set_external_forwarding_requested (lib_conv L) else set_no_external_forwarding_requested (lib_conv L))"

text \<open>Without an egress table a packet is output here; with one, its port and VLAN are left in the metadata.\<close>

definition pipeline_output :: "lib \<Rightarrow> pipeline \<Rightarrow> port \<Rightarrow> vlan \<Rightarrow> bool \<Rightarrow> bool option \<Rightarrow> err + instruction list" where
  "pipeline_output L pl p v hairpin external_forwarding_requested =
     (case pi_egress_table pl of
        Some egress \<Rightarrow>
          let (metadata, metadata_mask) = get_egress_metadata (p_number p) (v_vid v);
              t = (case pi_egress_acl_table pl of Some acl \<Rightarrow> acl | None \<Rightarrow> egress)
          in Inr (metadata_goto_table_id metadata metadata_mask (vt_table_id t))
      | None \<Rightarrow>
          bindE (vlan_output_port (lib_ofp L) p hairpin external_forwarding_requested (set_external L) v) (\<lambda>acts.
          Inr [apply_actions acts]))"

definition filter_packets :: "lib \<Rightarrow> pipeline \<Rightarrow> match_args \<Rightarrow> int \<Rightarrow> err + ofmsg list" where
  "filter_packets L pl ma priority_offset =
     bindE (tbl_flowdrop L (pi_classification_table pl) ma (FILTER_PRIORITY + priority_offset) 0) (\<lambda>m. Inr [m])"

definition select_packets :: "lib \<Rightarrow> pipeline \<Rightarrow> valve_table \<Rightarrow> match_args \<Rightarrow> action list option \<Rightarrow> int \<Rightarrow> err + ofmsg list" where
  "select_packets L pl target_table ma actions priority_offset =
     (let inst = goto_this target_table # (case actions of Some acts \<Rightarrow> [apply_actions acts] | None \<Rightarrow> [])
      in bindE (tbl_flowmod L (pi_classification_table pl) ma
                  (flow_defaults\<lparr>fa_priority := Some (HIGH_PRIORITY + priority_offset), fa_inst := inst\<rparr>)) (\<lambda>m. Inr [m]))"

definition remove_filter :: "lib \<Rightarrow> pipeline \<Rightarrow> match_args \<Rightarrow> bool \<Rightarrow> int \<Rightarrow> err + ofmsg list" where
  "remove_filter L pl ma strict priority_offset =
     bindE (tbl_flowdel L (pi_classification_table pl) ma
              (if strict then Some (FILTER_PRIORITY + priority_offset) else None) (OFPP_ANY (lib_ofp L)) strict) (\<lambda>m. Inr [m])"

definition pipeline_initialise_tables :: "lib \<Rightarrow> pipeline \<Rightarrow> err + ofmsg list" where
  "pipeline_initialise_tables L pl =
     bindE (if pi_drop_broadcast_source_address pl
            then filter_packets L pl (no_match\<lparr>ma_eth_src := Some BROADCAST_STR\<rparr>) 0 else Inr []) (\<lambda>msgs1.
     bindE (filter_packets L pl (no_match\<lparr>ma_eth_type := Some ECTP_ETH_TYPE\<rparr>) 10) (\<lambda>msgs2. Inr (msgs1 @ msgs2)))"

text \<open>A VLAN is its VID; \<open>priority\<close> is the datapath's high priority.\<close>

definition add_egress_table_rule :: "lib \<Rightarrow> pipeline \<Rightarrow> valve_table \<Rightarrow> port \<Rightarrow> bool \<Rightarrow> int \<Rightarrow> err + ofmsg" where
  "add_egress_table_rule L pl egress p popping vid =
     (let (metadata, metadata_mask) = get_egress_metadata (p_number p) vid;
          actions = mirror_actions p @ (if popping then [pop_vlan] else []) @ [output_port (p_number p)]
      in tbl_flowmod L egress
           (no_match\<lparr>ma_vlan := Some vid, ma_metadata := Some metadata, ma_metadata_mask := Some metadata_mask\<rparr>)
           (flow_defaults\<lparr>fa_priority := Some (pi_dp_high_priority pl), fa_inst := [apply_actions actions]\<rparr>))"

definition pipeline_add_port :: "lib \<Rightarrow> pipeline \<Rightarrow> port \<Rightarrow> err + ofmsg list" where
  "pipeline_add_port L pl p =
     (case pi_egress_table pl of
        None \<Rightarrow> Inr []
      | Some egress \<Rightarrow>
          bindE (mapE (add_egress_table_rule L pl egress p False) (p_tagged_vlans p)) (\<lambda>tagged.
          bindE (case p_native_vlan p of
                   None \<Rightarrow> Inr []
                 | Some vid \<Rightarrow> bindE (add_egress_table_rule L pl egress p True vid) (\<lambda>m. Inr [m])) (\<lambda>native.
          Inr (tagged @ native))))"

definition pipeline_del_port :: "lib \<Rightarrow> pipeline \<Rightarrow> port \<Rightarrow> err + ofmsg list" where
  "pipeline_del_port L pl p =
     (case pi_egress_table pl of
        None \<Rightarrow> Inr []
      | Some egress \<Rightarrow>
          bindE (tbl_flowdel L egress
                   (no_match\<lparr>ma_metadata := Some (and (p_number p) PORT_METADATA_MASK),
                     ma_metadata_mask := Some PORT_METADATA_MASK\<rparr>) None (OFPP_ANY (lib_ofp L)) False) (\<lambda>m. Inr [m]))"

end
