(* ===== verification/Learning.thy ===== *)
theory Learning imports Output begin

text \<open>
  The rest of the switch manager of a datapath without a stack, \<^verbatim>\<open>faucet/valve_switch_standalone.py\<close>:
  the rules of a VLAN and of a port, learning and banning hosts, expiring them, and LACP; with the
  manager that relearns on flow removed notifications and the handlers of \<^verbatim>\<open>faucet/valve.py\<close> that call it.

  The ports and the VLANs the Python code shares by reference are the stores \<open>sm_ports\<close> and \<open>sm_vlans\<close>,
  by number and by VID; an operation that writes to one returns it updated. \<open>sm_learn_jitter\<close> is not 0 once
  the datapath's configuration is checked. \<^verbatim>\<open>hash\<close> of a MAC address is the parameter \<open>hash_mac\<close>. Metrics and
  notifications are left out.
\<close>

section \<open>VLANs\<close>

definition add_drop_spoofed_faucet_mac_rules :: "lib \<Rightarrow> switch_mgr \<Rightarrow> pipeline \<Rightarrow> vlan \<Rightarrow> err + ofmsg list" where
  "add_drop_spoofed_faucet_mac_rules L sm pl v =
     (if sm_drop_spoofed_faucet_mac sm
      then filter_packets L pl (no_match\<lparr>ma_eth_src := Some (v_faucet_mac v)\<rparr>) 0 else Inr [])"

definition del_drop_spoofed_faucet_mac_rules :: "lib \<Rightarrow> switch_mgr \<Rightarrow> pipeline \<Rightarrow> vlan \<Rightarrow> vlan list \<Rightarrow> err + ofmsg list" where
  "del_drop_spoofed_faucet_mac_rules L sm pl v dp_vlans =
     (if sm_drop_spoofed_faucet_mac sm \<and> v_faucet_mac v \<notin> v_faucet_mac ` set dp_vlans
      then remove_filter L pl (no_match\<lparr>ma_eth_src := Some (v_faucet_mac v)\<rparr>) True 0 else Inr [])"

text \<open>The methods a subclass overrides are arguments: how to flood, and the rules that drop spoofed packets of FAUCET's address.\<close>

definition switch_add_vlan ::
    "flood_class \<Rightarrow> (vlan \<Rightarrow> err + ofmsg list) \<Rightarrow> lib \<Rightarrow> switch_mgr \<Rightarrow> vlan \<Rightarrow> bool \<Rightarrow> group_table \<Rightarrow> err + ofmsg list \<times> group_table" where
  "switch_add_vlan C spoofed_rules L sm v cold_start groups =
     bindE (spoofed_rules v) (\<lambda>spoofed.
     bindE (vt_goto (sm_eth_src_table sm) (sm_output_table sm)) (\<lambda>goto.
     bindE (tbl_flowcontroller L (sm_eth_src_table sm) (no_match\<lparr>ma_vlan := Some (v_vid v)\<rparr>) LOW_PRIORITY [goto]
              MAX_PACKET_IN_BYTES) (\<lambda>to_controller.
     bindE (build_flood_rules C L sm v cold_start False groups) (\<lambda>(flood, groups).
     Inr (spoofed @ [to_controller] @ flood, groups)))))"

definition switch_del_vlan :: "lib \<Rightarrow> switch_mgr \<Rightarrow> pipeline \<Rightarrow> vlan \<Rightarrow> vlan list \<Rightarrow> err + ofmsg list" where
  "switch_del_vlan L sm pl v dp_vlans =
     bindE (tbl_flowdel L (sm_flood_table sm) (no_match\<lparr>ma_vlan := Some (v_vid v)\<rparr>) None (OFPP_ANY (lib_ofp L)) False) (\<lambda>m1.
     bindE (tbl_flowdel L (sm_eth_src_table sm) (no_match\<lparr>ma_vlan := Some (v_vid v)\<rparr>) None (OFPP_ANY (lib_ofp L)) False) (\<lambda>m2.
     bindE (del_drop_spoofed_faucet_mac_rules L sm pl v dp_vlans) (\<lambda>spoofed. Inr ([m1, m2] @ spoofed))))"

definition switch_update_vlan :: "flood_class \<Rightarrow> lib \<Rightarrow> switch_mgr \<Rightarrow> vlan \<Rightarrow> group_table \<Rightarrow> err + ofmsg list \<times> group_table" where
  "switch_update_vlan C L sm v groups = build_flood_rules C L sm v False True groups"

definition find_forwarding_table :: "switch_mgr \<Rightarrow> vlan \<Rightarrow> err + valve_table" where
  "find_forwarding_table sm v =
     (if v_acls_in v \<noteq> [] then (case sm_vlan_acl_table sm of Some t \<Rightarrow> Inr t | None \<Rightarrow> Inl AttributeError)
      else Inr (sm_classification_table sm))"

section \<open>Ports\<close>

definition port_add_vlan_rules :: "lib \<Rightarrow> switch_mgr \<Rightarrow> port \<Rightarrow> vlan \<Rightarrow> action list \<Rightarrow> bool \<Rightarrow> err + ofmsg" where
  "port_add_vlan_rules L sm p v mirror_act push_vlan =
     (let K = lib_ofp L;
          tagging = (if push_vlan then push_vlan_act K (v_vid v) (ETH_TYPE_8021Q K) else []);
          match_vlan = (if push_vlan then OFPVID_NONE K else v_vid v)
      in bindE (if sm_has_externals sm
                then bindE (set_external L (\<not> p_loop_protect_external p)) (\<lambda>a. Inr [a]) else Inr []) (\<lambda>external.
         bindE (find_forwarding_table sm v) (\<lambda>table.
         bindE (vt_goto (sm_vlan_table sm) table) (\<lambda>goto.
         tbl_flowmod L (sm_vlan_table sm) (no_match\<lparr>ma_in_port := Some (p_number p), ma_vlan := Some match_vlan\<rparr>)
           (flow_defaults\<lparr>fa_priority := Some LOW_PRIORITY,
              fa_inst := [apply_actions (mirror_act @ tagging @ external), goto]\<rparr>)))))"

definition native_vlan_of :: "port \<Rightarrow> int option" where
  "native_vlan_of p = (case p_dyn_dot1x_native_vlan p of Some vid \<Rightarrow> Some vid | None \<Rightarrow> p_native_vlan p)"

text \<open>An LACP packet of the port's actor, in reply to the last one received, if any.\<close>

definition flag :: "bool \<Rightarrow> int" where "flag b = (if b then 1 else 0)"

definition passthrough_up :: "switch_mgr \<Rightarrow> int list \<Rightarrow> err + bool" where
  "passthrough_up sm peers =
     foldE (\<lambda>peer_num up. if \<not> up then Inr False
        else case dict_get (sm_ports sm) peer_num of
               None \<Rightarrow> Inl AttributeError
             | Some peer \<Rightarrow> Inr (p_dyn_lacp_up peer \<notin> {None, Some 0})) peers True"

definition lacp_req_reply :: "lib \<Rightarrow> pktlib \<Rightarrow> switch_mgr \<Rightarrow> lacp_pkt option \<Rightarrow> port \<Rightarrow> err + ofmsg list" where
  "lacp_req_reply L P sm lacp p =
     bindE (passthrough_up sm (p_lacp_passthrough p)) (\<lambda>up.
     if \<not> up then Inr []
     else
       let (actor_state_sync, actor_state_col, actor_state_dist) = get_lacp_flags p;
           pkt = lacp_reqreply (lib_ofp L) (sm_faucet_dp_mac sm) (sm_faucet_dp_mac sm) (p_lacp p) (p_lacp_port_id p)
                   (p_lacp_port_priority p) (flag actor_state_sync) (flag (p_lacp_active p)) (flag actor_state_col)
                   (flag actor_state_dist) lacp
       in Inr [packetout (lib_shuffle L) (p_number p) (pl_serialize P pkt)])"

definition lacp_advertise :: "lib \<Rightarrow> pktlib \<Rightarrow> switch_mgr \<Rightarrow> port \<Rightarrow> err + ofmsg list" where
  "lacp_advertise L P sm p =
     (if running p \<and> p_lacp_active p then lacp_req_reply L P sm (p_dyn_last_lacp_pkt p) p else Inr [])"

definition lacp_match :: "lib \<Rightarrow> port \<Rightarrow> match_args" where
  "lacp_match L p =
     no_match\<lparr>ma_in_port := Some (p_number p), ma_eth_type := Some (ETH_TYPE_SLOW (lib_ofp L)),
       ma_eth_dst := Some SLOW_PROTOCOL_MULTICAST\<rparr>"

definition untagged_match :: "lib \<Rightarrow> port \<Rightarrow> match_args" where
  "untagged_match L p = no_match\<lparr>ma_in_port := Some (p_number p), ma_vlan := Some (OFPVID_NONE (lib_ofp L))\<rparr>"

definition switch_add_port :: "lib \<Rightarrow> pktlib \<Rightarrow> switch_mgr \<Rightarrow> port \<Rightarrow> err + ofmsg list" where
  "switch_add_port L P sm p =
     (if port_vlans p = [] then Inr []
      else
        bindE (mapE (\<lambda>vid. bindE (dict_getE (sm_vlans sm) vid) (\<lambda>v.
                 port_add_vlan_rules L sm p v (mirror_actions p) False)) (p_tagged_vlans p)) (\<lambda>tagged.
        bindE (case native_vlan_of p of
                 Some vid \<Rightarrow> bindE (dict_getE (sm_vlans sm) vid) (\<lambda>v.
                   bindE (port_add_vlan_rules L sm p v (mirror_actions p) True) (\<lambda>m. Inr [m]))
               | None \<Rightarrow>
                   if p_count_untag_vlan_miss p
                   then bindE (tbl_flowdrop L (sm_vlan_table sm) (untagged_match L p) LOW_PRIORITY 0) (\<lambda>m. Inr [m])
                   else Inr []) (\<lambda>native.
        bindE (if p_lacp p \<noteq> 0
               then bindE (tbl_flowcontroller L (sm_vlan_table sm) (lacp_match L p) (sm_dp_highest_priority sm) [] LACP_SIZE) (\<lambda>m.
                    bindE (lacp_advertise L P sm p) (\<lambda>advert. Inr (m # advert)))
               else Inr []) (\<lambda>lacp.
        Inr (tagged @ native @ lacp)))))"

definition eth_dst_tables :: "switch_mgr \<Rightarrow> valve_table list" where
  "eth_dst_tables sm = sm_eth_dst_table sm # (case sm_eth_dst_hairpin_table sm of None \<Rightarrow> [] | Some t \<Rightarrow> [t])"

definition del_host_flows :: "lib \<Rightarrow> switch_mgr \<Rightarrow> port \<Rightarrow> err + ofmsg list" where
  "del_host_flows L sm p =
     bindE (tbl_flowdel L (sm_eth_src_table sm) (no_match\<lparr>ma_in_port := Some (p_number p)\<rparr>) None (OFPP_ANY (lib_ofp L)) False) (\<lambda>m.
     bindE (mapE (\<lambda>t. vt_flowdel (lib_ofp L) (lib_recirc L) t [] None (p_number p) False) (eth_dst_tables sm)) (\<lambda>ms.
     Inr (m # ms)))"

definition switch_del_port :: "lib \<Rightarrow> switch_mgr \<Rightarrow> port \<Rightarrow> err + ofmsg list" where
  "switch_del_port L sm p =
     (let ANY = OFPP_ANY (lib_ofp L); table = sm_vlan_table sm
      in if port_vlans p = [] then Inr []
         else
           bindE (del_host_flows L sm p) (\<lambda>hosts.
           bindE (if native_vlan_of p \<noteq> None \<or> p_count_untag_vlan_miss p
                  then bindE (tbl_flowdel L table (untagged_match L p) (Some LOW_PRIORITY) ANY False) (\<lambda>m. Inr [m])
                  else Inr []) (\<lambda>native.
           bindE (mapE (\<lambda>vid. tbl_flowdel L table (no_match\<lparr>ma_in_port := Some (p_number p), ma_vlan := Some vid\<rparr>)
                    (Some LOW_PRIORITY) ANY False) (p_tagged_vlans p)) (\<lambda>tagged.
           bindE (if p_lacp p \<noteq> 0
                  then bindE (tbl_flowdel L table (lacp_match L p) (Some (sm_dp_highest_priority sm)) ANY False) (\<lambda>m. Inr [m])
                  else Inr []) (\<lambda>lacp.
           Inr (hosts @ native @ tagged @ lacp))))))"

definition enable_forwarding :: "lib \<Rightarrow> switch_mgr \<Rightarrow> port \<Rightarrow> err + ofmsg list" where
  "enable_forwarding L sm p =
     bindE (tbl_flowdel L (sm_vlan_table sm) (no_match\<lparr>ma_in_port := Some (p_number p)\<rparr>) (Some (sm_dp_high_priority sm))
              (OFPP_ANY (lib_ofp L)) True) (\<lambda>m. Inr [m])"

definition disable_forwarding :: "lib \<Rightarrow> switch_mgr \<Rightarrow> port \<Rightarrow> err + ofmsg list" where
  "disable_forwarding L sm p =
     bindE (tbl_flowdrop L (sm_vlan_table sm) (no_match\<lparr>ma_in_port := Some (p_number p)\<rparr>) (sm_dp_high_priority sm) 0) (\<lambda>m. Inr [m])"

section \<open>Learning\<close>

text \<open>Limits on the hosts of a port and of a VLAN. The result: the messages, the port and the VLAN.\<close>

definition port_hosts_count :: "(int, vlan) dict \<Rightarrow> port \<Rightarrow> err + int" where
  "port_hosts_count vlans p =
     foldE (\<lambda>vid n. bindE (dict_getE vlans vid) (\<lambda>v. Inr (n + int (cached_hosts_count_on_port p v)))) (port_vlans p) 0"

definition temp_ban_host_learning :: "lib \<Rightarrow> switch_mgr \<Rightarrow> match_args \<Rightarrow> err + ofmsg" where
  "temp_ban_host_learning L sm ma = tbl_flowdrop L (sm_eth_src_table sm) ma (LOW_PRIORITY + 1) (sm_learn_ban_timeout sm)"

definition ban_port :: "lib \<Rightarrow> switch_mgr \<Rightarrow> port \<Rightarrow> err + ofmsg list \<times> port" where
  "ban_port L sm p =
     (if p_max_hosts p = 0 then Inr ([], p)
      else bindE (port_hosts_count (sm_vlans sm) p) (\<lambda>n.
        if n \<noteq> p_max_hosts p then Inr ([], p)
        else bindE (temp_ban_host_learning L sm (no_match\<lparr>ma_in_port := Some (p_number p)\<rparr>)) (\<lambda>m.
          Inr ([m], p\<lparr>p_dyn_learn_ban_count := p_dyn_learn_ban_count p + 1\<rparr>))))"

definition ban_vlan :: "lib \<Rightarrow> switch_mgr \<Rightarrow> vlan \<Rightarrow> err + ofmsg list \<times> vlan" where
  "ban_vlan L sm v =
     (if v_max_hosts v = 0 \<or> int (hosts_count v) \<noteq> v_max_hosts v then Inr ([], v)
      else bindE (temp_ban_host_learning L sm (no_match\<lparr>ma_vlan := Some (v_vid v)\<rparr>)) (\<lambda>m.
        Inr ([m], v\<lparr>v_dyn_learn_ban_count := v_dyn_learn_ban_count v + 1\<rparr>)))"

definition ban_rules :: "lib \<Rightarrow> switch_mgr \<Rightarrow> int \<Rightarrow> port \<Rightarrow> vlan \<Rightarrow> err + ofmsg list \<times> port \<times> vlan" where
  "ban_rules L sm eth_src p v =
     (case cached_host eth_src v of
        Some _ \<Rightarrow> Inr ([], p, v)
      | None \<Rightarrow>
          bindE (ban_port L sm p) (\<lambda>(ms1, p).
          bindE (ban_vlan L sm v) (\<lambda>(ms2, v). Inr (ms1 @ ms2, p, v))))"

definition mac_text_match :: "lib \<Rightarrow> int \<Rightarrow> string option" where
  "mac_text_match L eth = Some (lib_mac_text L eth)"

definition delete_host_from_vlan :: "lib \<Rightarrow> switch_mgr \<Rightarrow> int \<Rightarrow> vlan \<Rightarrow> err + ofmsg list" where
  "delete_host_from_vlan L sm eth_src v =
     (let ANY = OFPP_ANY (lib_ofp L)
      in bindE (tbl_flowdel L (sm_eth_src_table sm)
                  (no_match\<lparr>ma_vlan := Some (v_vid v), ma_eth_src := mac_text_match L eth_src\<rparr>) None ANY False) (\<lambda>m.
         bindE (mapE (\<lambda>t. tbl_flowdel L t (no_match\<lparr>ma_vlan := Some (v_vid v), ma_eth_dst := mac_text_match L eth_src\<rparr>)
                            None ANY False) (eth_dst_tables sm)) (\<lambda>ms. Inr (m # ms))))"

definition expire_hosts_from_vlan :: "switch_mgr \<Rightarrow> vlan \<Rightarrow> int \<Rightarrow> err + host_entry list \<times> vlan" where
  "expire_hosts_from_vlan sm v now =
     bindE (expire_cache_hosts now (sm_learn_timeout sm) v) (\<lambda>(expired_hosts, v).
     Inr (expired_hosts, if expired_hosts \<noteq> [] then v\<lparr>v_dyn_last_time_hosts_expired := Some now\<rparr> else v))"

definition jitter_learn_timeout :: "(int \<Rightarrow> int) \<Rightarrow> switch_mgr \<Rightarrow> int \<Rightarrow> port \<Rightarrow> int \<Rightarrow> err + int" where
  "jitter_learn_timeout hash_mac sm base_learn_timeout p eth_dst =
     (if p_permanent_learn p \<or> base_learn_timeout = 0 then Inr 0
      else if sm_learn_jitter sm = 0 then Inl ZeroDivisionError
      else
        let jitter = hash_mac eth_dst mod sm_learn_jitter sm;
            min_learn_timeout = base_learn_timeout - sm_learn_jitter sm
        in Inr (max (abs (min_learn_timeout + jitter)) (sm_cache_update_guard_time sm)))"

text \<open>The timeouts of a host's flows: the source rule's idle and hard timeout, the destination rule's idle timeout.\<close>

type_synonym timeouts = "switch_mgr \<Rightarrow> port \<Rightarrow> int \<Rightarrow> err + int \<times> int \<times> int"

definition learn_host_timeouts :: "(int \<Rightarrow> int) \<Rightarrow> timeouts" where
  "learn_host_timeouts hash_mac sm p eth_src =
     bindE (jitter_learn_timeout hash_mac sm (sm_learn_timeout sm) p eth_src) (\<lambda>learn_timeout.
     Inr (0, learn_timeout, if sm_idle_dst sm then learn_timeout + sm_cache_update_guard_time sm else 0))"

text \<open>\<open>ValveSwitchFlowRemovedManager\<close>: the source rule idles out, before the destination rule.\<close>

definition learn_host_timeouts_removed :: "(int \<Rightarrow> int) \<Rightarrow> timeouts" where
  "learn_host_timeouts_removed hash_mac sm p eth_src =
     bindE (jitter_learn_timeout hash_mac sm (sm_learn_timeout sm) p eth_src) (\<lambda>learn_timeout.
     Inr (learn_timeout, 0, learn_timeout + sm_cache_update_guard_time sm))"

definition dst_match :: "lib \<Rightarrow> vlan \<Rightarrow> int \<Rightarrow> int option \<Rightarrow> match_args" where
  "dst_match L v eth_src external =
     no_match\<lparr>ma_vlan := Some (v_vid v), ma_eth_dst := mac_text_match L eth_src, ma_vlan_pcp := external\<rparr>"

definition src_flow :: "lib \<Rightarrow> switch_mgr \<Rightarrow> port \<Rightarrow> vlan \<Rightarrow> int \<Rightarrow> int \<Rightarrow> int \<Rightarrow> err + ofmsg" where
  "src_flow L sm p v eth_src idle_timeout hard_timeout =
     bindE (vt_goto (sm_eth_src_table sm) (sm_output_table sm)) (\<lambda>goto.
     tbl_flowmod L (sm_eth_src_table sm)
       (no_match\<lparr>ma_in_port := Some (p_number p), ma_vlan := Some (v_vid v), ma_eth_src := mac_text_match L eth_src\<rparr>)
       (flow_defaults\<lparr>fa_priority := Some (MATCH_PRIORITY - 1), fa_inst := [goto],
          fa_hard_timeout := hard_timeout, fa_idle_timeout := idle_timeout\<rparr>))"

definition dst_flow :: "lib \<Rightarrow> valve_table \<Rightarrow> match_args \<Rightarrow> instruction list \<Rightarrow> int \<Rightarrow> err + ofmsg" where
  "dst_flow L t ma inst idle_timeout =
     tbl_flowmod L t ma (flow_defaults\<lparr>fa_priority := Some MATCH_PRIORITY, fa_inst := inst, fa_idle_timeout := idle_timeout\<rparr>)"

definition external_forwarding_requested :: "switch_mgr \<Rightarrow> port \<Rightarrow> bool option" where
  "external_forwarding_requested sm p = (if sm_has_externals sm then Some True else None)"

text \<open>\<open>external\<close> is the method above, which a subclass overrides.\<close>

definition learn_host_on_vlan_port_flows ::
    "(port \<Rightarrow> bool option) \<Rightarrow> lib \<Rightarrow> switch_mgr \<Rightarrow> pipeline \<Rightarrow> port \<Rightarrow> vlan \<Rightarrow> int \<Rightarrow> bool \<Rightarrow> bool \<Rightarrow> int \<Rightarrow> int \<Rightarrow> int \<Rightarrow> err + ofmsg list" where
  "learn_host_on_vlan_port_flows external L sm pl p v eth_src delete_existing refresh_rules
       src_rule_idle_timeout src_rule_hard_timeout dst_rule_idle_timeout =
     bindE (if delete_existing then delete_host_from_vlan L sm eth_src v else Inr []) (\<lambda>deleted.
     bindE (src_flow L sm p v eth_src src_rule_idle_timeout src_rule_hard_timeout) (\<lambda>src.
     let hairpinning = p_hairpin p \<or> p_hairpin_unicast p
     in if refresh_rules \<and> \<not> hairpinning then Inr (deleted @ [src])
        else
          bindE (pipeline_output L pl p v False (external p)) (\<lambda>inst.
          bindE (dst_flow L (sm_eth_dst_table sm)
                   (dst_match L v eth_src (if sm_has_externals sm then Some PCP_EXT_PORT_FLAG else None))
                   inst dst_rule_idle_timeout) (\<lambda>dst.
          bindE (if sm_has_externals sm \<and> \<not> p_loop_protect_external p
                 then bindE (dst_flow L (sm_eth_dst_table sm) (dst_match L v eth_src (Some PCP_NONEXT_PORT_FLAG))
                               inst dst_rule_idle_timeout) (\<lambda>m. Inr [m]) else Inr []) (\<lambda>nonext.
          bindE (if hairpinning
                 then (case sm_eth_dst_hairpin_table sm of
                         None \<Rightarrow> Inl AttributeError
                       | Some t \<Rightarrow>
                           bindE (pipeline_output L pl p v True None) (\<lambda>inst.
                           bindE (dst_flow L t ((dst_match L v eth_src None)\<lparr>ma_in_port := Some (p_number p)\<rparr>)
                                    inst dst_rule_idle_timeout) (\<lambda>m. Inr [m])))
                 else Inr []) (\<lambda>hairpin.
          Inr (deleted @ [src, dst] @ nonext @ hairpin)))))))"

text \<open>
  Learning is a chain of checks, each of which may end it. The state they thread: the messages, whether
  the host cache is to be updated, whether the host's old flows are deleted, whether its rules are only
  refreshed, and the port. What they read: the host's cache entry, the VLAN, the time, the host, the age of the entry.
\<close>

record learn_state =
  ls_ofmsgs :: "ofmsg list"
  ls_update_cache :: bool
  ls_delete_existing :: bool
  ls_refresh_rules :: bool
  ls_port :: port

record learn_env =
  le_entry :: "host_entry option"
  le_vlan :: vlan
  le_now :: int
  le_eth_src :: int

type_synonym learn_func = "learn_env \<Rightarrow> learn_state \<Rightarrow> err + bool \<times> learn_state"

definition perm_learn_check :: "lib \<Rightarrow> pipeline \<Rightarrow> learn_func" where
  "perm_learn_check L pl env s =
     (case le_entry env of
        Some entry \<Rightarrow>
          if p_permanent_learn (he_port entry) then
            bindE (if \<not> port_eq (he_port entry) (ls_port s)
                   then filter_packets L pl (no_match\<lparr>ma_eth_src := mac_text_match L (le_eth_src env),
                                                      ma_in_port := Some (p_number (ls_port s))\<rparr>) 0
                   else Inr []) (\<lambda>ms.
            Inr (True, s\<lparr>ls_ofmsgs := ls_ofmsgs s @ ms, ls_update_cache := False\<rparr>))
          else Inr (False, s\<lparr>ls_update_cache := True\<rparr>)
      | None \<Rightarrow> Inr (False, s\<lparr>ls_update_cache := True\<rparr>))"

definition learn_cache_check :: "switch_mgr \<Rightarrow> learn_func" where
  "learn_cache_check sm env s =
     (let s = s\<lparr>ls_update_cache := True\<rparr>
      in case le_entry env of
           None \<Rightarrow> Inr (False, s)
         | Some entry \<Rightarrow>
             let p = ls_port s;
                 same_lag = (p_lacp p \<noteq> 0 \<and> p_lacp p = p_lacp (he_port entry));
                 here = port_eq (he_port entry) p \<or> same_lag;
                 port_cache_valid =
                   (case p_dyn_update_time p of None \<Rightarrow> False | Some t \<Rightarrow> t \<le> he_cache_time entry);
                 guard_time = (if same_lag then 2 else sm_cache_update_guard_time sm)
             in if \<not> here then Inr (False, s)
                else if le_now env - he_cache_time entry < guard_time \<and> port_cache_valid
                then Inr (True, s\<lparr>ls_update_cache := False\<rparr>)
                else Inr (False, s\<lparr>ls_delete_existing := False,
                            ls_refresh_rules := (if port_cache_valid then True else ls_refresh_rules s)\<rparr>))"

definition loop_protect_check :: "lib \<Rightarrow> switch_mgr \<Rightarrow> learn_func" where
  "loop_protect_check L sm env s =
     (let s = s\<lparr>ls_update_cache := True\<rparr>; p = ls_port s; now = le_now env
      in if \<not> p_loop_protect p then Inr (False, s)
         else
           let banned = (case p_dyn_last_ban_time p of
                           None \<Rightarrow> False
                         | Some t \<Rightarrow> t \<noteq> 0 \<and> now - t < sm_cache_update_guard_time sm);
               moved = (\<not> banned \<and>
                 (case le_entry env of
                    None \<Rightarrow> False
                  | Some entry \<Rightarrow> \<not> port_eq p (he_port entry) \<and> now - he_cache_time entry < sm_cache_update_guard_time sm));
               p = (if moved then p\<lparr>p_dyn_learn_ban_count := p_dyn_learn_ban_count p + 1\<rparr> else p)
           in if \<not> (banned \<or> moved) then Inr (False, s)
              else
                bindE (temp_ban_host_learning L sm (no_match\<lparr>ma_in_port := Some (p_number p)\<rparr>)) (\<lambda>m.
                Inr (True, s\<lparr>ls_ofmsgs := ls_ofmsgs s @ [m], ls_port := p\<lparr>p_dyn_last_ban_time := Some now\<rparr>\<rparr>)))"

text \<open>The methods that a subclass overrides: the check of the cache, and whether external forwarding is requested.\<close>

record learn_class =
  lc_cache_check :: learn_func
  lc_external :: "port \<Rightarrow> bool option"

definition standalone_learning :: "switch_mgr \<Rightarrow> learn_class" where
  "standalone_learning sm = \<lparr>lc_cache_check = learn_cache_check sm, lc_external = external_forwarding_requested sm\<rparr>"

definition learn_check :: "(port \<Rightarrow> bool option) \<Rightarrow> lib \<Rightarrow> timeouts \<Rightarrow> switch_mgr \<Rightarrow> pipeline \<Rightarrow> learn_func" where
  "learn_check external L timeouts sm pl env s =
     bindE (timeouts sm (ls_port s) (le_eth_src env)) (\<lambda>(src_idle, src_hard, dst_idle).
     bindE (learn_host_on_vlan_port_flows external L sm pl (ls_port s) (le_vlan env) (le_eth_src env)
              (ls_delete_existing s) (ls_refresh_rules s) src_idle src_hard dst_idle) (\<lambda>ms.
     Inr (True, s\<lparr>ls_ofmsgs := ls_ofmsgs s @ ms, ls_update_cache := True\<rparr>)))"

fun run_checks :: "learn_func list \<Rightarrow> learn_func" where
  "run_checks [] env s = Inr (False, s)"
| "run_checks (check # checks) env s =
     bindE (check env s) (\<lambda>(learn_exit, s). if learn_exit then Inr (True, s) else run_checks checks env s)"

definition learn_checks :: "learn_class \<Rightarrow> lib \<Rightarrow> timeouts \<Rightarrow> switch_mgr \<Rightarrow> pipeline \<Rightarrow> learn_func list" where
  "learn_checks C L timeouts sm pl =
     [perm_learn_check L pl, lc_cache_check C, loop_protect_check L sm, learn_check (lc_external C) L timeouts sm pl]"

text \<open>
  The result: the messages, the port the host was cached on, whether to update the cache, and the port.
\<close>

definition learn_host_on_vlan_ports ::
    "learn_class \<Rightarrow> lib \<Rightarrow> timeouts \<Rightarrow> switch_mgr \<Rightarrow> pipeline \<Rightarrow> int \<Rightarrow> port \<Rightarrow> vlan \<Rightarrow> int \<Rightarrow> bool \<Rightarrow> int option \<Rightarrow>
     err + ofmsg list \<times> port option \<times> bool \<times> port" where
  "learn_host_on_vlan_ports C L timeouts sm pl now p v eth_src delete_existing last_dp_coldstart_time =
     (let entry = cached_host eth_src v;
          no_old_host = (entry = None \<and>
            (case last_dp_coldstart_time of
               None \<Rightarrow> False
             | Some cold \<Rightarrow> cold \<noteq> 0 \<and>
                 (case v_dyn_last_time_hosts_expired v of None \<Rightarrow> True | Some t \<Rightarrow> t < cold)));
          env = \<lparr>le_entry = entry, le_vlan = v, le_now = now, le_eth_src = eth_src\<rparr>
      in bindE (run_checks (learn_checks C L timeouts sm pl) env
                  \<lparr>ls_ofmsgs = [], ls_update_cache = True,
                   ls_delete_existing = (if no_old_host then False else delete_existing),
                   ls_refresh_rules = False, ls_port = p\<rparr>) (\<lambda>(_, s).
         Inr (ls_ofmsgs s, map_option he_port entry, ls_update_cache s, ls_port s)))"

section \<open>Packets from the datapath\<close>

text \<open>\<open>Valve.learn_host\<close> of a valve without a stack: the port to learn on is the packet's.\<close>

definition learn_host ::
    "lib \<Rightarrow> timeouts \<Rightarrow> pipeline \<Rightarrow> int option \<Rightarrow> int \<Rightarrow> int \<Rightarrow> int \<Rightarrow> int \<Rightarrow> switch_mgr \<Rightarrow> err + ofmsg list \<times> switch_mgr" where
  "learn_host L timeouts pl coldstart now port_no vid eth_src sm =
     bindE (dict_getE (sm_ports sm) port_no) (\<lambda>p.
     bindE (dict_getE (sm_vlans sm) vid) (\<lambda>v.
     bindE (learn_host_on_vlan_ports (standalone_learning sm) L timeouts sm pl now p v eth_src True coldstart) (\<lambda>(ms, _, update_cache, p).
     bindE (if update_cache then add_cache_host eth_src p now v else Inr v) (\<lambda>v.
     Inr (ms, sm\<lparr>sm_ports := dict_set port_no p (sm_ports sm), sm_vlans := dict_set vid v (sm_vlans sm)\<rparr>)))))"

text \<open>
  \<open>_vlan_rcv_packet\<close> with \<open>learn_host_from_pkt\<close>, for a VLAN that is not routed: nothing is learned when
  a rule to ban learning is installed, or when the packet was not sent up for learning.
\<close>

definition vlan_rcv_packet ::
    "lib \<Rightarrow> timeouts \<Rightarrow> pipeline \<Rightarrow> int option \<Rightarrow> int \<Rightarrow> int \<Rightarrow> int \<Rightarrow> int \<Rightarrow> int \<Rightarrow> switch_mgr \<Rightarrow> err + ofmsg list \<times> switch_mgr" where
  "vlan_rcv_packet L timeouts pl coldstart now reason port_no vid eth_src sm =
     bindE (dict_getE (sm_ports sm) port_no) (\<lambda>p.
     bindE (dict_getE (sm_vlans sm) vid) (\<lambda>v.
     bindE (ban_rules L sm eth_src p v) (\<lambda>(ms, p, v).
     let sm = sm\<lparr>sm_ports := dict_set port_no p (sm_ports sm), sm_vlans := dict_set vid v (sm_vlans sm)\<rparr>
     in if ms \<noteq> [] then Inr (ms, sm)
        else if reason = OFPR_ACTION (lib_ofp L) then learn_host L timeouts pl coldstart now port_no vid eth_src sm
        else Inr ([], sm))))"

text \<open>The part of \<open>state_expire\<close> that expires the hosts of a VLAN.\<close>

definition expire_vlan :: "lib \<Rightarrow> int \<Rightarrow> int \<Rightarrow> switch_mgr \<Rightarrow> err + ofmsg list \<times> switch_mgr" where
  "expire_vlan L now vid sm =
     bindE (dict_getE (sm_vlans sm) vid) (\<lambda>v.
     bindE (expire_hosts_from_vlan sm v now) (\<lambda>(expired_hosts, v).
     bindE (if sm_idle_dst sm then Inr []
            else mapE (\<lambda>e. delete_host_from_vlan L sm (he_eth_src e) v) expired_hosts) (\<lambda>mss.
     Inr (concat mss, sm\<lparr>sm_vlans := dict_set vid v (sm_vlans sm)\<rparr>))))"

section \<open>Relearning on flow removed notifications\<close>

definition src_rule_expire :: "vlan \<Rightarrow> port \<Rightarrow> int \<Rightarrow> err + ofmsg list \<times> vlan" where
  "src_rule_expire v p eth_src =
     (case cached_host_on_port eth_src p v of
        None \<Rightarrow> Inr ([], v)
      | Some _ \<Rightarrow> bindE (expire_cache_host eth_src v) (\<lambda>v. Inr ([], v)))"

definition dst_rule_expire ::
    "lib \<Rightarrow> timeouts \<Rightarrow> pipeline \<Rightarrow> int \<Rightarrow> vlan \<Rightarrow> int \<Rightarrow> switch_mgr \<Rightarrow> err + ofmsg list \<times> switch_mgr" where
  "dst_rule_expire L timeouts pl now v eth_dst sm =
     (case cached_host eth_dst v of
        None \<Rightarrow> Inr ([], sm)
      | Some entry \<Rightarrow>
          let port_no = p_number (he_port entry)
          in bindE (dict_getE (sm_ports sm) port_no) (\<lambda>p.
             bindE (learn_host_on_vlan_ports (standalone_learning sm) L timeouts sm pl now p v eth_dst False None) (\<lambda>(ms, _, _, p).
             Inr (ms, sm\<lparr>sm_ports := dict_set port_no p (sm_ports sm)\<rparr>))))"

text \<open>The fields of the removed flow's match; a MAC address is its number, 0 for none.\<close>

definition src_rule_of :: "int option \<Rightarrow> int option \<Rightarrow> (int \<times> int) option" where
  "src_rule_of eth_src in_port =
     (case (eth_src, in_port) of (Some src, Some n) \<Rightarrow> if n \<noteq> 0 then Some (src, n) else None | _ \<Rightarrow> None)"

definition expire_rule ::
    "lib \<Rightarrow> timeouts \<Rightarrow> pipeline \<Rightarrow> int \<Rightarrow> int \<Rightarrow> vlan \<Rightarrow> (int \<times> int) option \<Rightarrow> int option \<Rightarrow> switch_mgr \<Rightarrow>
     err + ofmsg list \<times> switch_mgr" where
  "expire_rule L timeouts pl now vid v src_rule eth_dst sm =
     (case src_rule of
        Some (src, n) \<Rightarrow>
          bindE (dict_getE (sm_ports sm) n) (\<lambda>p.
          bindE (src_rule_expire v p src) (\<lambda>(ms, v).
          Inr (ms, sm\<lparr>sm_vlans := dict_set vid v (sm_vlans sm)\<rparr>)))
      | None \<Rightarrow> (case eth_dst of None \<Rightarrow> Inr ([], sm) | Some dst \<Rightarrow> dst_rule_expire L timeouts pl now v dst sm))"

definition flow_timeout ::
    "lib \<Rightarrow> timeouts \<Rightarrow> pipeline \<Rightarrow> int \<Rightarrow> int \<Rightarrow> int option \<Rightarrow> int option \<Rightarrow> int option \<Rightarrow> int option \<Rightarrow> switch_mgr \<Rightarrow>
     err + ofmsg list \<times> switch_mgr" where
  "flow_timeout L timeouts pl now table_id vlan_vid in_port eth_src eth_dst sm =
     (if table_id \<notin> {vt_table_id (sm_eth_src_table sm), vt_table_id (sm_eth_dst_table sm)} then Inr ([], sm)
      else case vlan_vid of
        None \<Rightarrow> Inr ([], sm)
      | Some vlan_vid \<Rightarrow>
          bindE (dict_getE (sm_vlans sm) (devid_present (lib_ofp L) vlan_vid)) (\<lambda>v.
          expire_rule L timeouts pl now (devid_present (lib_ofp L) vlan_vid) v (src_rule_of eth_src in_port) eth_dst sm))"

section \<open>The limit on the hosts of a VLAN\<close>

lemma remove_from_port_keeps:
  "remove_from_port e v = Inr v' \<Longrightarrow> v_dyn_host_cache v' = v_dyn_host_cache v \<and> v_max_hosts v' = v_max_hosts v"
  by (auto simp: remove_from_port_def bindE_Inr)

lemma add_cache_host_count:
  assumes "add_cache_host m p t v = Inr v'"
  shows "hosts_count v' = (if cached_host m v = None then Suc (hosts_count v) else hosts_count v)"
    and "v_max_hosts v' = v_max_hosts v"
proof -
  from assms obtain w where w: "(case cached_host m v of
        None \<Rightarrow> Inr (set_stats_stale (p_number p) v)
      | Some existing_entry \<Rightarrow> remove_from_port existing_entry v) = Inr w"
    and v': "v_dyn_host_cache v' = dict_set m \<lparr>he_eth_src = m, he_port = p, he_cache_time = t\<rparr> (v_dyn_host_cache w)"
      "v_max_hosts v' = v_max_hosts w"
    unfolding add_cache_host_def bindE_Inr Let_def by fastforce
  have "v_dyn_host_cache w = v_dyn_host_cache v" "v_max_hosts w = v_max_hosts v"
    using w remove_from_port_keeps by (auto simp: set_stats_stale_def split: option.splits)
  then show "hosts_count v' = (if cached_host m v = None then Suc (hosts_count v) else hosts_count v)"
    "v_max_hosts v' = v_max_hosts v"
    using v' by (simp_all add: hosts_count_def cached_host_def length_dict_set)
qed

lemma expire_cache_host_count:
  "expire_cache_host m v = Inr v' \<Longrightarrow> hosts_count v' \<le> hosts_count v \<and> v_max_hosts v' = v_max_hosts v"
  by (auto simp: expire_cache_host_def bindE_Inr hosts_count_def set_stats_stale_def split: option.splits
      dest!: remove_from_port_keeps intro: order_trans [OF length_dict_del])

lemma expire_cache_hosts_count:
  assumes "expire_cache_hosts now timeout v = Inr (expired, v')"
  shows "hosts_count v' \<le> hosts_count v \<and> v_max_hosts v' = v_max_hosts v"
proof -
  have "hosts_count u \<le> hosts_count v \<and> v_max_hosts u = v_max_hosts v"
    if "foldE (\<lambda>e v. expire_cache_host (he_eth_src e) v) es v = Inr u" for es u
    by (rule foldE_invariant [OF that, where P = "\<lambda>u. hosts_count u \<le> hosts_count v \<and> v_max_hosts u = v_max_hosts v"])
      (auto dest: expire_cache_host_count)
  note count = this
  show ?thesis
  proof (cases "case v_dyn_oldest_host_time v of None \<Rightarrow> True | Some t \<Rightarrow> t < now - timeout")
    case False
    with assms show ?thesis by (simp add: expire_cache_hosts_def)
  next
    case True
    with assms obtain u where u: "foldE (\<lambda>e v. expire_cache_host (he_eth_src e) v) expired v = Inr u"
      "hosts_count v' = hosts_count u" "v_max_hosts v' = v_max_hosts u"
      by (fastforce simp: expire_cache_hosts_def Let_def bindE_Inr hosts_count_def)
    from count [OF u(1)] show ?thesis unfolding u(2,3) .
  qed
qed

definition within_limit :: "vlan \<Rightarrow> bool" where
  "within_limit v \<longleftrightarrow> (0 < v_max_hosts v \<longrightarrow> int (hosts_count v) \<le> v_max_hosts v)"

lemma within_limit_le:
  "within_limit v \<Longrightarrow> hosts_count v' \<le> hosts_count v \<and> v_max_hosts v' = v_max_hosts v \<Longrightarrow> within_limit v'"
  by (auto simp: within_limit_def)

definition limits_ok :: "switch_mgr \<Rightarrow> bool" where
  "limits_ok sm \<longleftrightarrow> (\<forall>vid v. dict_get (sm_vlans sm) vid = Some v \<longrightarrow> within_limit v)"

lemma limits_okD: "limits_ok sm \<Longrightarrow> dict_get (sm_vlans sm) vid = Some v \<Longrightarrow> within_limit v"
  by (simp add: limits_ok_def)

lemma limits_ok_set: "limits_ok sm \<Longrightarrow> within_limit v \<Longrightarrow>
    limits_ok (sm\<lparr>sm_ports := ps, sm_vlans := dict_set vid v (sm_vlans sm)\<rparr>)"
  "limits_ok sm \<Longrightarrow> within_limit v \<Longrightarrow> limits_ok (sm\<lparr>sm_vlans := dict_set vid v (sm_vlans sm)\<rparr>)"
  "limits_ok (sm\<lparr>sm_ports := ps\<rparr>) \<longleftrightarrow> limits_ok sm"
  by (auto simp: limits_ok_def)

text \<open>No rule to ban learning is installed only when the host is cached or the VLAN has room.\<close>

lemma ban_vlan_result:
  assumes "ban_vlan L sm v = Inr (ms, v')"
  shows "hosts_count v' = hosts_count v" and "v_max_hosts v' = v_max_hosts v" and "cached_host m v' = cached_host m v"
    and "ms = [] \<longleftrightarrow> v_max_hosts v = 0 \<or> int (hosts_count v) \<noteq> v_max_hosts v"
  using assms by (auto simp: ban_vlan_def bindE_Inr hosts_count_def cached_host_def split: if_splits)

lemma ban_rules_result:
  assumes "ban_rules L sm eth_src p v = Inr (ms, p', v')"
  shows "hosts_count v' = hosts_count v" and "v_max_hosts v' = v_max_hosts v" and "cached_host m v' = cached_host m v"
    and "ms = [] \<Longrightarrow> cached_host eth_src v = None \<Longrightarrow> v_max_hosts v = 0 \<or> int (hosts_count v) \<noteq> v_max_hosts v"
proof -
  have "(hosts_count v' = hosts_count v \<and> v_max_hosts v' = v_max_hosts v \<and> cached_host m v' = cached_host m v) \<and>
      (ms = [] \<longrightarrow> cached_host eth_src v = None \<longrightarrow> v_max_hosts v = 0 \<or> int (hosts_count v) \<noteq> v_max_hosts v)"
  proof (cases "cached_host eth_src v")
    case (Some e)
    with assms have "v' = v" by (simp add: ban_rules_def)
    with Some show ?thesis by simp
  next
    case None
    with assms obtain ms1 ms2 where "ban_vlan L sm v = Inr (ms2, v')" and ms: "ms = ms1 @ ms2"
      by (auto simp: ban_rules_def bindE_Inr)
    from ban_vlan_result [OF this(1)] ms
    show ?thesis by simp
  qed
  then show "hosts_count v' = hosts_count v" "v_max_hosts v' = v_max_hosts v" "cached_host m v' = cached_host m v"
    "ms = [] \<Longrightarrow> cached_host eth_src v = None \<Longrightarrow> v_max_hosts v = 0 \<or> int (hosts_count v) \<noteq> v_max_hosts v" by simp_all
qed

lemma learn_host_split:
  assumes "learn_host L timeouts pl cold now port_no vid eth_src sm = Inr (ms, sm')"
  obtains p v old update_cache p' v' where "dict_get (sm_ports sm) port_no = Some p" and "dict_get (sm_vlans sm) vid = Some v"
    and "learn_host_on_vlan_ports (standalone_learning sm) L timeouts sm pl now p v eth_src True cold = Inr (ms, old, update_cache, p')"
    and "(if update_cache then add_cache_host eth_src p' now v else Inr v) = Inr v'"
    and "sm' = sm\<lparr>sm_ports := dict_set port_no p' (sm_ports sm), sm_vlans := dict_set vid v' (sm_vlans sm)\<rparr>"
proof -
  from assms obtain p where p: "dict_get (sm_ports sm) port_no = Some p"
    by (cases "dict_get (sm_ports sm) port_no") (simp_all add: learn_host_def dict_getE_def)
  from assms p obtain v where v: "dict_get (sm_vlans sm) vid = Some v"
    by (cases "dict_get (sm_vlans sm) vid") (simp_all add: learn_host_def dict_getE_def)
  have "bindE (learn_host_on_vlan_ports (standalone_learning sm) L timeouts sm pl now p v eth_src True cold) (\<lambda>(ms, _, update_cache, p).
     bindE (if update_cache then add_cache_host eth_src p now v else Inr v) (\<lambda>v.
     Inr (ms, sm\<lparr>sm_ports := dict_set port_no p (sm_ports sm), sm_vlans := dict_set vid v (sm_vlans sm)\<rparr>))) = Inr (ms, sm')"
    using assms by (simp only: learn_host_def dict_getE_def p v option.case bindE_simps)
  from bindE_Inr4 [OF this] obtain ms1 old update_cache p' where
    l: "learn_host_on_vlan_ports (standalone_learning sm) L timeouts sm pl now p v eth_src True cold = Inr (ms1, old, update_cache, p')"
    and r: "bindE (if update_cache then add_cache_host eth_src p' now v else Inr v) (\<lambda>v.
     Inr (ms1, sm\<lparr>sm_ports := dict_set port_no p' (sm_ports sm), sm_vlans := dict_set vid v (sm_vlans sm)\<rparr>)) = Inr (ms, sm')"
    by blast
  from r obtain v' where v': "(if update_cache then add_cache_host eth_src p' now v else Inr v) = Inr v'"
    and e: "Inr (ms1, sm\<lparr>sm_ports := dict_set port_no p' (sm_ports sm), sm_vlans := dict_set vid v' (sm_vlans sm)\<rparr>) = (Inr (ms, sm') :: err + ofmsg list \<times> switch_mgr)"
    unfolding bindE_Inr by blast
  from e have "ms1 = ms" and sm': "sm' = sm\<lparr>sm_ports := dict_set port_no p' (sm_ports sm), sm_vlans := dict_set vid v' (sm_vlans sm)\<rparr>"
    by simp_all
  with l have l: "learn_host_on_vlan_ports (standalone_learning sm) L timeouts sm pl now p v eth_src True cold = Inr (ms, old, update_cache, p')" by simp
  show thesis by (rule that [OF p v l v' sm'])
qed

lemma learn_host_vlans:
  assumes "learn_host L timeouts pl cold now port_no vid eth_src sm = Inr (ms, sm')"
  shows "\<exists>p v v'. dict_get (sm_vlans sm) vid = Some v \<and>
    sm' = sm\<lparr>sm_ports := dict_set port_no p (sm_ports sm), sm_vlans := dict_set vid v' (sm_vlans sm)\<rparr> \<and>
    (v' = v \<or> add_cache_host eth_src p now v = Inr v')"
proof -
  from assms obtain p v old update_cache p' v' where "dict_get (sm_ports sm) port_no = Some p" and v: "dict_get (sm_vlans sm) vid = Some v"
    and "learn_host_on_vlan_ports (standalone_learning sm) L timeouts sm pl now p v eth_src True cold = Inr (ms, old, update_cache, p')"
    and v': "(if update_cache then add_cache_host eth_src p' now v else Inr v) = Inr v'"
    and sm': "sm' = sm\<lparr>sm_ports := dict_set port_no p' (sm_ports sm), sm_vlans := dict_set vid v' (sm_vlans sm)\<rparr>"
    by (rule learn_host_split)
  from v' have "v' = v \<or> add_cache_host eth_src p' now v = Inr v'" by (auto split: if_splits)
  with v sm' show ?thesis by blast
qed

lemma vlan_rcv_packet_limits:
  assumes "vlan_rcv_packet L timeouts pl cold now reason port_no vid eth_src sm = Inr (ms, sm')" and ok: "limits_ok sm"
  shows "limits_ok sm'"
proof -
  from assms(1) obtain p v ms1 p1 v1 where v: "dict_get (sm_vlans sm) vid = Some v"
    and ban: "ban_rules L sm eth_src p v = Inr (ms1, p1, v1)"
    and rest: "(let sm = sm\<lparr>sm_ports := dict_set port_no p1 (sm_ports sm), sm_vlans := dict_set vid v1 (sm_vlans sm)\<rparr>
       in if ms1 \<noteq> [] then Inr (ms1, sm)
        else if reason = OFPR_ACTION (lib_ofp L) then learn_host L timeouts pl cold now port_no vid eth_src sm
        else Inr ([], sm)) = Inr (ms, sm')"
    by (auto simp: vlan_rcv_packet_def bindE_Inr)
  let ?sm = "sm\<lparr>sm_ports := dict_set port_no p1 (sm_ports sm), sm_vlans := dict_set vid v1 (sm_vlans sm)\<rparr>"
  note b = ban_rules_result [OF ban]
  have w: "within_limit v1" using limits_okD [OF ok v] b(1,2) by (simp add: within_limit_def)
  have ok1: "limits_ok ?sm" using limits_ok_set(1) [OF ok w] .
  show ?thesis
  proof (cases "ms1 = [] \<and> reason = OFPR_ACTION (lib_ofp L)")
    case False
    with rest ok1 show ?thesis by (auto simp: Let_def split: if_splits)
  next
    case True
    with rest have "learn_host L timeouts pl cold now port_no vid eth_src ?sm = Inr (ms, sm')" by (simp add: Let_def)
    then obtain p2 v0 v2 where l: "dict_get (sm_vlans ?sm) vid = Some v0"
      "sm' = ?sm\<lparr>sm_ports := dict_set port_no p2 (sm_ports ?sm), sm_vlans := dict_set vid v2 (sm_vlans ?sm)\<rparr>"
      "v2 = v0 \<or> add_cache_host eth_src p2 now v0 = Inr v2"
      using learn_host_vlans by blast
    from l(1) have v0: "v0 = v1" by simp
    have "within_limit v2"
    proof (cases "cached_host eth_src v1")
      case (Some e)
      then have "hosts_count v2 \<le> hosts_count v1 \<and> v_max_hosts v2 = v_max_hosts v1"
        using l(3) add_cache_host_count unfolding v0 by (metis option.distinct(1) order_refl)
      with within_limit_le [OF w] show ?thesis .
    next
      case None
      then have "v_max_hosts v = 0 \<or> int (hosts_count v) \<noteq> v_max_hosts v" using b(3,4) True by simp
      moreover have "hosts_count v2 \<le> Suc (hosts_count v1)" "v_max_hosts v2 = v_max_hosts v1"
        using l(3) add_cache_host_count unfolding v0 by (metis le_SucI order_refl)+
      ultimately show ?thesis using w b(1,2) by (auto simp: within_limit_def)
    qed
    then show ?thesis unfolding l(2) by (rule limits_ok_set(1) [OF ok1])
  qed
qed

lemma expire_vlan_limits:
  assumes "expire_vlan L now vid sm = Inr (ms, sm')" and ok: "limits_ok sm"
  shows "limits_ok sm'"
proof -
  from assms(1) obtain v expired v1 where v: "dict_get (sm_vlans sm) vid = Some v"
    and e: "expire_cache_hosts now (sm_learn_timeout sm) v = Inr (expired, v1)"
    and sm': "sm' = sm\<lparr>sm_vlans := dict_set vid
      (if expired \<noteq> [] then v1\<lparr>v_dyn_last_time_hosts_expired := Some now\<rparr> else v1) (sm_vlans sm)\<rparr>"
    by (auto simp: expire_vlan_def expire_hosts_from_vlan_def bindE_Inr)
  have "within_limit v1" using within_limit_le [OF limits_okD [OF ok v] expire_cache_hosts_count [OF e]] .
  then have "within_limit (if expired \<noteq> [] then v1\<lparr>v_dyn_last_time_hosts_expired := Some now\<rparr> else v1)"
    by (simp add: within_limit_def hosts_count_def)
  then show ?thesis unfolding sm' by (rule limits_ok_set(2) [OF ok])
qed

lemma dst_rule_expire_limits: "dst_rule_expire L timeouts pl now v dst sm = Inr (ms, sm') \<Longrightarrow> limits_ok sm' = limits_ok sm"
  by (auto simp: dst_rule_expire_def Let_def bindE_Inr limits_ok_set split: option.splits)

lemma src_rule_expire_limits: "src_rule_expire v p src = Inr (ms, v') \<Longrightarrow> within_limit v \<Longrightarrow> within_limit v'"
  by (auto simp: src_rule_expire_def bindE_Inr split: option.splits dest!: expire_cache_host_count elim: within_limit_le)

lemma expire_rule_limits:
  assumes "expire_rule L timeouts pl now vid v src_rule eth_dst sm = Inr (ms, sm')" and ok: "limits_ok sm" "within_limit v"
  shows "limits_ok sm'"
proof (cases src_rule)
  case None
  with assms(1) ok(1) dst_rule_expire_limits show ?thesis
    by (cases eth_dst) (auto simp: expire_rule_def)
next
  case (Some r)
  obtain src n where r: "r = (src, n)" by fastforce
  from assms(1) Some obtain p v' where "src_rule_expire v p src = Inr (ms, v')"
    "sm' = sm\<lparr>sm_vlans := dict_set vid v' (sm_vlans sm)\<rparr>"
    by (simp add: expire_rule_def r bindE_Inr) blast
  with src_rule_expire_limits [OF _ ok(2)] limits_ok_set(2) [OF ok(1)] show ?thesis by simp
qed

lemma flow_timeout_limits:
  assumes "flow_timeout L timeouts pl now table_id vlan_vid in_port eth_src eth_dst sm = Inr (ms, sm')" and ok: "limits_ok sm"
  shows "limits_ok sm'"
proof (cases "sm' = sm")
  case False
  with assms(1) obtain vid v where "dict_get (sm_vlans sm) vid = Some v"
    "expire_rule L timeouts pl now vid v (src_rule_of eth_src in_port) eth_dst sm = Inr (ms, sm')"
    by (auto simp: flow_timeout_def bindE_Inr split: if_splits option.split_asm)
  with expire_rule_limits ok limits_okD [OF ok] show ?thesis by blast
qed (simp add: ok)

text \<open>The events a manager handles: a packet to learn from, the expiry of a VLAN, a removed flow.\<close>

inductive learn_step :: "lib \<Rightarrow> timeouts \<Rightarrow> pipeline \<Rightarrow> switch_mgr \<Rightarrow> switch_mgr \<Rightarrow> bool" for L timeouts pl where
  packet: "vlan_rcv_packet L timeouts pl cold now reason port_no vid eth_src sm = Inr (ms, sm') \<Longrightarrow>
    learn_step L timeouts pl sm sm'"
| expiry: "expire_vlan L now vid sm = Inr (ms, sm') \<Longrightarrow> learn_step L timeouts pl sm sm'"
| removed: "flow_timeout L timeouts pl now table_id vlan_vid in_port eth_src eth_dst sm = Inr (ms, sm') \<Longrightarrow>
    learn_step L timeouts pl sm sm'"

inductive_cases learn_stepE: "learn_step L timeouts pl sm sm'"

lemma learn_step_limits: "learn_step L timeouts pl sm sm' \<Longrightarrow> limits_ok sm \<Longrightarrow> limits_ok sm'"
  by (elim learn_stepE) (blast intro: vlan_rcv_packet_limits expire_vlan_limits flow_timeout_limits)+

definition no_hosts :: "switch_mgr \<Rightarrow> bool" where
  "no_hosts sm \<longleftrightarrow> (\<forall>v \<in> set (dict_values (sm_vlans sm)). v_dyn_host_cache v = [])"

lemma no_hosts_limits: "no_hosts sm \<Longrightarrow> limits_ok sm"
  by (auto simp: no_hosts_def limits_ok_def within_limit_def hosts_count_def dict_values_def dest!: dict_get_Some_in)

text \<open>C19. However packets, expiry and removed flows interleave, a VLAN with a limit never has more
  hosts learned than its limit.\<close>

lemma vlan_host_limit:
  assumes "(learn_step L timeouts pl)\<^sup>*\<^sup>* sm sm'" and "no_hosts sm"
    and "dict_get (sm_vlans sm') vid = Some v" and "0 < v_max_hosts v"
  shows "int (hosts_count v) \<le> v_max_hosts v"
proof -
  have "limits_ok sm'" using assms(1) no_hosts_limits [OF assms(2)] by induction (auto dest: learn_step_limits)
  with assms(3,4) show ?thesis by (auto simp: limits_ok_def within_limit_def)
qed

subsection \<open>Witnesses\<close>

definition example_table :: "string \<Rightarrow> valve_table" where
  "example_table name =
     (case dict_get DEFAULT_CONFIGS name of
        Some c \<Rightarrow> mk_valve_table name c 0 False [] | None \<Rightarrow> wildcard_table of13)"

definition edge_port :: "int \<Rightarrow> port" where
  "edge_port n = (default_port n)\<lparr>p_native_vlan := Some 100, p_max_hosts := 1, p_dyn_phys_up := True, p_dyn_update_time := Some 0\<rparr>"

definition edge_vlan :: vlan where
  "edge_vlan = (new_vlan 100)\<lparr>v_untagged := [edge_port 1, edge_port 2]\<rparr>"

definition example_mgr :: switch_mgr where
  "example_mgr =
     \<lparr>sm_ports = [(1, edge_port 1), (2, edge_port 2)], sm_vlans = [(100, edge_vlan)],
      sm_vlan_table = example_table ''vlan'', sm_vlan_acl_table = None, sm_eth_src_table = example_table ''eth_src'',
      sm_eth_dst_table = example_table ''eth_dst'', sm_eth_dst_hairpin_table = None,
      sm_flood_table = example_table ''flood'', sm_classification_table = example_table ''eth_src'',
      sm_use_group_table = False, sm_combinatorial_port_flood = False, sm_restricted_bcast_arpnd = False,
      sm_has_externals = False, sm_learn_ban_timeout = 51, sm_learn_timeout = 300, sm_learn_jitter = 51,
      sm_cache_update_guard_time = 150, sm_idle_dst = True, sm_dp_high_priority = 0x9000, sm_dp_highest_priority = 0x9001,
      sm_faucet_dp_mac = ''0e:00:00:00:00:01'', sm_drop_spoofed_faucet_mac = True\<rparr>"

definition example_pipeline :: pipeline where
  "example_pipeline =
     \<lparr>pi_vlan_table = example_table ''vlan'', pi_classification_table = example_table ''eth_src'',
      pi_output_table = example_table ''eth_dst'', pi_egress_table = None, pi_egress_acl_table = None,
      pi_dp_high_priority = 0x9000, pi_drop_broadcast_source_address = True\<rparr>"

definition example_timeouts :: timeouts where
  "example_timeouts = learn_host_timeouts (\<lambda>m. m)"

definition rcv_from :: "int \<Rightarrow> int \<Rightarrow> int \<Rightarrow> switch_mgr \<Rightarrow> err + ofmsg list \<times> switch_mgr" where
  "rcv_from now port_no eth_src sm =
     vlan_rcv_packet example_lib example_timeouts example_pipeline None now (OFPR_ACTION of13) port_no 100 eth_src sm"

definition example_run :: "(int \<times> int \<times> int) list \<Rightarrow> err + switch_mgr" where
  "example_run pkts = foldE (\<lambda>(now, port_no, eth_src) sm. bindE (rcv_from now port_no eth_src sm) (\<lambda>(_, sm). Inr sm)) pkts example_mgr"

definition count_on :: "int \<Rightarrow> switch_mgr \<Rightarrow> err + int" where
  "count_on port_no sm = bindE (dict_getE (sm_ports sm) port_no) (port_hosts_count (sm_vlans sm))"

text \<open>The limit of a port is only tested for equality, and not for a host that is cached: moves exceed it.\<close>

lemma example_run_steps:
  "foldE (\<lambda>(now, port_no, eth_src) sm. bindE (rcv_from now port_no eth_src sm) (\<lambda>(_, sm). Inr sm)) pkts sm = Inr sm' \<Longrightarrow>
     (learn_step example_lib example_timeouts example_pipeline)\<^sup>*\<^sup>* sm sm'"
proof (induction pkts arbitrary: sm)
  case Nil
  then show ?case by simp
next
  case (Cons x pkts)
  obtain now port_no eth_src where x: "x = (now, port_no, eth_src)" by (cases x)
  with Cons.prems obtain ms sm1 where one: "rcv_from now port_no eth_src sm = Inr (ms, sm1)"
    and rest: "foldE (\<lambda>(now, port_no, eth_src) sm. bindE (rcv_from now port_no eth_src sm) (\<lambda>(_, sm). Inr sm)) pkts sm1 = Inr sm'"
    by (auto simp: bindE_Inr)
  have "learn_step example_lib example_timeouts example_pipeline sm sm1"
    by (rule learn_step.packet [OF one [unfolded rcv_from_def]])
  then show ?case using Cons.IH [OF rest] by (rule converse_rtranclp_into_rtranclp)
qed

text \<open>The limit on the hosts of a port is no bound: hosts that move to a port are learned past its
  limit, and then so are new ones (four on a port limited to one), as the limit is only tested for
  equality.\<close>

lemma port_limit_bypassed:
  "\<exists>L timeouts pl sm sm' p n. no_hosts sm \<and> (learn_step L timeouts pl)\<^sup>*\<^sup>* sm sm' \<and>
     dict_get (sm_ports sm') 2 = Some p \<and> port_hosts_count (sm_vlans sm') p = Inr n \<and> p_max_hosts p = 1 \<and> n = 4"
proof -
  let ?pkts = "[(10, 1, 7), (11, 2, 8), (12, 2, 7), (13, 2, 9), (14, 2, 10)]"
  have count: "bindE (example_run ?pkts) (count_on 2) = Inr 4" by code_simp
  then obtain sm' p where sm': "example_run ?pkts = Inr sm'" and p: "dict_get (sm_ports sm') 2 = Some p"
    "port_hosts_count (sm_vlans sm') p = Inr 4" by (auto simp: bindE_Inr count_on_def)
  have "bindE (example_run ?pkts) (\<lambda>sm. bindE (dict_getE (sm_ports sm) 2) (\<lambda>p. Inr (p_max_hosts p))) = Inr 1" by code_simp
  then have "p_max_hosts p = 1" using sm' p(1) by (simp add: dict_getE_def)
  moreover have "no_hosts example_mgr" by code_simp
  moreover have "(learn_step example_lib example_timeouts example_pipeline)\<^sup>*\<^sup>* example_mgr sm'"
    by (rule example_run_steps [OF sm' [unfolded example_run_def]])
  ultimately show ?thesis using p by blast
qed

lemma vlan_host_limit_witness:
  "\<exists>sm v. example_run [(10, 1, 7), (11, 2, 8), (12, 2, 7)] = Inr sm \<and> dict_get (sm_vlans sm) 100 = Some v \<and>
     int (hosts_count v) \<le> 256"
proof -
  let ?pkts = "[(10, 1, 7), (11, 2, 8), (12, 2, 7)] :: (int \<times> int \<times> int) list"
  have m: "bindE (example_run ?pkts) (\<lambda>sm. bindE (dict_getE (sm_vlans sm) 100) (\<lambda>v. Inr (v_max_hosts v))) = Inr 256" by code_simp
  then obtain sm v where sm: "example_run ?pkts = Inr sm" and v: "dict_get (sm_vlans sm) 100 = Some v" "v_max_hosts v = 256"
    by (auto simp: bindE_Inr)
  have "no_hosts example_mgr" by code_simp
  from vlan_host_limit [OF example_run_steps [OF sm [unfolded example_run_def]] this v(1)] sm v show ?thesis by simp
qed

section \<open>Timeouts\<close>

text \<open>What the flows of a learned host rely on: the source rule is gone before the destination rule.\<close>

locale learning_timeouts =
  fixes timeouts :: timeouts
  assumes never: "p_permanent_learn p \<Longrightarrow> timeouts sm p m = Inr (si, sh, di) \<Longrightarrow> si = 0 \<and> sh = 0"
    and src_first: "timeouts sm p m = Inr (si, sh, di) \<Longrightarrow> \<not> p_permanent_learn p \<Longrightarrow> 0 < sm_learn_timeout sm \<Longrightarrow>
      0 < sm_cache_update_guard_time sm \<Longrightarrow> 0 < max si sh \<and> (di = 0 \<or> max si sh < di)"
    and min_src: "timeouts sm p m = Inr (si, sh, di) \<Longrightarrow> \<not> p_permanent_learn p \<Longrightarrow> 0 < sm_learn_timeout sm \<Longrightarrow>
      0 < sm_cache_update_guard_time sm \<Longrightarrow> sm_cache_update_guard_time sm \<le> max si sh"
    and total: "0 < sm_learn_jitter sm \<Longrightarrow> \<exists>r. timeouts sm p m = Inr r"
begin

lemma src_rule_expires_first:
  assumes "0 < sm_learn_jitter sm" "\<not> p_permanent_learn p" "0 < sm_learn_timeout sm" "0 < sm_cache_update_guard_time sm"
  shows "\<exists>si sh di. timeouts sm p m = Inr (si, sh, di) \<and> sm_cache_update_guard_time sm \<le> max si sh \<and> (di = 0 \<or> max si sh < di)"
proof -
  from total [OF assms(1)] obtain si sh di where "timeouts sm p m = Inr (si, sh, di)" by (metis prod_cases3)
  with src_first min_src assms(2-4) show ?thesis by blast
qed

end

lemma jitter_result:
  assumes "0 < sm_learn_jitter sm"
  shows "jitter_learn_timeout h sm t p m =
    Inr (if p_permanent_learn p \<or> t = 0 then 0
         else max (abs (t - sm_learn_jitter sm + h m mod sm_learn_jitter sm)) (sm_cache_update_guard_time sm))"
  using assms by (simp add: jitter_learn_timeout_def Let_def)

interpretation hard: learning_timeouts "learn_host_timeouts h" for h
  by unfold_locales
    (auto simp: learn_host_timeouts_def bindE_Inr jitter_learn_timeout_def Let_def split: if_splits)

interpretation idle: learning_timeouts "learn_host_timeouts_removed h" for h
  by unfold_locales
    (auto simp: learn_host_timeouts_removed_def bindE_Inr jitter_learn_timeout_def Let_def split: if_splits)

text \<open>With a jitter no greater than the timeout, a learned host is dropped from the source table no
  earlier than the timeout less the jitter or the guard time, no later than the timeout or the guard
  time, and before its destination rule can go.\<close>

lemma learn_timeout_bounds:
  assumes "0 < sm_learn_jitter sm" and "sm_learn_jitter sm \<le> sm_learn_timeout sm"
    and "\<not> p_permanent_learn p" and "0 < sm_cache_update_guard_time sm" and "sm_idle_dst sm"
  shows "\<exists>hard idle. learn_host_timeouts h sm p m = Inr (0, hard, idle) \<and>
    max (sm_learn_timeout sm - sm_learn_jitter sm) (sm_cache_update_guard_time sm) \<le> hard \<and>
    hard \<le> max (sm_learn_timeout sm - 1) (sm_cache_update_guard_time sm) \<and> hard < idle"
proof -
  have "0 < sm_learn_timeout sm" using assms(1,2) by simp
  from hard.src_rule_expires_first [OF assms(1,3) this assms(4), of h m] obtain si sh di where
    "learn_host_timeouts h sm p m = Inr (si, sh, di)" "di = 0 \<or> max si sh < di" by blast
  moreover define j where "j = h m mod sm_learn_jitter sm"
  have j: "0 \<le> j" "j < sm_learn_jitter sm" using assms(1) by (simp_all add: j_def)
  let ?hard = "max (sm_learn_timeout sm - sm_learn_jitter sm + j) (sm_cache_update_guard_time sm)"
  have run: "learn_host_timeouts h sm p m = Inr (0, ?hard, ?hard + sm_cache_update_guard_time sm)"
    using assms j \<open>0 < sm_learn_timeout sm\<close> by (simp add: learn_host_timeouts_def jitter_result flip: j_def)
  ultimately have "?hard < ?hard + sm_cache_update_guard_time sm" using assms(4) by simp
  moreover have "max (sm_learn_timeout sm - sm_learn_jitter sm) (sm_cache_update_guard_time sm) \<le> ?hard"
    using j(1) by (intro max.mono) simp_all
  moreover have "?hard \<le> max (sm_learn_timeout sm - 1) (sm_cache_update_guard_time sm)"
    using j(2) by (intro max.mono) simp_all
  ultimately show ?thesis using run by blast
qed

lemma learn_timeout_bounds_witness:
  "\<exists>hard idle. learn_host_timeouts (\<lambda>m. m) example_mgr (edge_port 1) 7 = Inr (0, hard, idle) \<and>
     249 \<le> hard \<and> hard \<le> 299 \<and> hard < idle"
proof -
  have "0 < sm_learn_jitter example_mgr" "sm_learn_jitter example_mgr \<le> sm_learn_timeout example_mgr"
    "\<not> p_permanent_learn (edge_port 1)" "0 < sm_cache_update_guard_time example_mgr" "sm_idle_dst example_mgr"
    by (simp_all add: example_mgr_def edge_port_def default_port_def)
  from learn_timeout_bounds [OF this, of "\<lambda>m. m" 7] show ?thesis by (simp add: example_mgr_def)
qed

text \<open>A port that learns permanently: the source rule stays for ever, the destination rule idles out.\<close>

lemma permanent_dst_expires:
  "\<exists>sm p h. p_permanent_learn p \<and> learn_host_timeouts h sm p m = Inr (0, 0, 150)"
  by (intro exI [of _ example_mgr] exI [of _ "(edge_port 1)\<lparr>p_permanent_learn := True\<rparr>"])
    (simp add: learn_host_timeouts_def jitter_learn_timeout_def example_mgr_def)

section \<open>Where a learned host goes\<close>

lemma vt_flowmod_fields:
  assumes "vt_flowmod K recirc t a = Inr m"
  obtains fm where "m = FlowModMsg fm" and "fm_table_id fm = vt_table_id t" and "fm_command fm = fa_command a"
    and "fm_match fm = fa_match a" and "fm_priority fm = (case fa_priority a of None \<Rightarrow> 0 | Some p \<Rightarrow> p)"
    and "fa_inst a = [] \<Longrightarrow> fm_instructions fm = []"
proof -
  from assms obtain inst where "(if fa_inst a \<noteq> [] then trim_inst K recirc t (fa_inst a) else Inr []) = Inr inst"
    unfolding vt_flowmod_def bindE_Inr by blast
  with assms show thesis by (auto simp: vt_flowmod_def Let_def bindE_Inr flowmod_def intro: that)
qed

text \<open>The flow a message modifies: its table, command, match, priority and whether it has instructions.\<close>

definition is_flow :: "ofmsg \<Rightarrow> int \<Rightarrow> flow_command \<Rightarrow> ofmatch \<Rightarrow> int \<Rightarrow> bool" where
  "is_flow m table_id command mt priority \<longleftrightarrow>
     (case m of
        FlowModMsg fm \<Rightarrow> fm_table_id fm = table_id \<and> fm_command fm = command \<and> fm_match fm = mt \<and> fm_priority fm = priority
      | _ \<Rightarrow> False)"

definition drops :: "ofmsg \<Rightarrow> bool" where
  "drops m \<longleftrightarrow> (case m of FlowModMsg fm \<Rightarrow> fm_instructions fm = [] | _ \<Rightarrow> False)"

definition match_of :: "lib \<Rightarrow> match_args \<Rightarrow> ofmatch" where
  "match_of L ma = (case vt_match (lib_ofp L) ma of Inl _ \<Rightarrow> [] | Inr mt \<Rightarrow> mt)"

lemma tbl_flowmod_is:
  assumes "tbl_flowmod L t ma a = Inr m"
  shows "is_flow m (vt_table_id t) (fa_command a) (match_of L ma) (case fa_priority a of None \<Rightarrow> 0 | Some p \<Rightarrow> p)"
proof -
  from assms obtain mt where "vt_match (lib_ofp L) ma = Inr mt" "vt_flowmod (lib_ofp L) (lib_recirc L) t (a\<lparr>fa_match := mt\<rparr>) = Inr m"
    by (auto simp: tbl_flowmod_def bindE_Inr)
  then show ?thesis by (auto simp: is_flow_def match_of_def elim: vt_flowmod_fields)
qed

lemma tbl_flowdrop_is:
  assumes "tbl_flowdrop L t ma priority timeout = Inr m"
  shows "is_flow m (vt_table_id t) OFPFC_ADD (match_of L ma) priority \<and> drops m"
proof -
  from assms obtain mt where "vt_match (lib_ofp L) ma = Inr mt"
    "vt_flowmod (lib_ofp L) (lib_recirc L) t (flow_defaults\<lparr>fa_match := mt, fa_priority := Some priority, fa_hard_timeout := timeout\<rparr>) = Inr m"
    by (auto simp: tbl_flowdrop_def vt_flowdrop_def bindE_Inr)
  then show ?thesis by (auto simp: is_flow_def drops_def match_of_def flow_defaults_def elim: vt_flowmod_fields)
qed

lemma tbl_flowdel_is:
  assumes "tbl_flowdel L t ma priority out_port strict = Inr m"
  shows "is_flow m (vt_table_id t) (if strict then OFPFC_DELETE_STRICT else OFPFC_DELETE) (match_of L ma)
    (case priority of None \<Rightarrow> 0 | Some p \<Rightarrow> p)"
  using assms
  by (auto simp: tbl_flowdel_def vt_flowdel_def bindE_Inr is_flow_def match_of_def elim!: vt_flowmod_fields)

lemma tbl_flowcontroller_is:
  assumes "tbl_flowcontroller L t ma priority inst max_len = Inr m"
  shows "is_flow m (vt_table_id t) OFPFC_ADD (match_of L ma) priority"
  using assms
  by (auto simp: tbl_flowcontroller_def vt_flowcontroller_def bindE_Inr is_flow_def match_of_def flow_defaults_def
      elim!: vt_flowmod_fields)

lemma learn_permanent:
  assumes "cached_host eth_src v = Some e" and "p_permanent_learn (he_port e)"
    and "learn_host_on_vlan_ports (standalone_learning sm) L timeouts sm pl now p v eth_src delete_existing cold = Inr (ms, old, update_cache, p')"
  shows "\<not> update_cache \<and> p' = p \<and>
    (if port_eq (he_port e) p then ms = []
     else \<exists>m. ms = [m] \<and> drops m \<and> is_flow m (vt_table_id (pi_classification_table pl)) OFPFC_ADD
            (match_of L (no_match\<lparr>ma_eth_src := mac_text_match L eth_src, ma_in_port := Some (p_number p)\<rparr>)) FILTER_PRIORITY)"
  using assms
  by (auto simp: learn_host_on_vlan_ports_def Let_def learn_checks_def standalone_learning_def perm_learn_check_def bindE_Inr filter_packets_def
      split: if_splits dest!: tbl_flowdrop_is)

text \<open>C30. A host learned on a port for ever is not moved by a packet from another port: no cache
  changes, and the one message drops the host on that other port before it is switched.\<close>

lemma permanent_host_stays:
  assumes "dict_get (sm_vlans sm) vid = Some v" and "cached_host eth_src v = Some e" and "p_permanent_learn (he_port e)"
    and "p_number (he_port e) \<noteq> port_no" and "dict_get (sm_ports sm) port_no = Some p" and "p_number p = port_no"
    and "learn_host L timeouts pl cold now port_no vid eth_src sm = Inr (ms, sm')"
  shows "dict_get (sm_vlans sm') = dict_get (sm_vlans sm) \<and> dict_get (sm_ports sm') = dict_get (sm_ports sm) \<and>
    (\<exists>m. ms = [m] \<and> drops m \<and> is_flow m (vt_table_id (pi_classification_table pl)) OFPFC_ADD
       (match_of L (no_match\<lparr>ma_eth_src := mac_text_match L eth_src, ma_in_port := Some port_no\<rparr>)) FILTER_PRIORITY)"
proof -
  from assms(7) obtain p0 v0 old update_cache p' v' where "dict_get (sm_ports sm) port_no = Some p0" "dict_get (sm_vlans sm) vid = Some v0"
    "learn_host_on_vlan_ports (standalone_learning sm) L timeouts sm pl now p0 v0 eth_src True cold = Inr (ms, old, update_cache, p')"
    and s: "(if update_cache then add_cache_host eth_src p' now v0 else Inr v0) = Inr v'"
      "sm' = sm\<lparr>sm_ports := dict_set port_no p' (sm_ports sm), sm_vlans := dict_set vid v' (sm_vlans sm)\<rparr>"
    by (rule learn_host_split)
  with assms(1,5) have l: "learn_host_on_vlan_ports (standalone_learning sm) L timeouts sm pl now p v eth_src True cold = Inr (ms, old, update_cache, p')"
    and "v0 = v" by simp_all
  have "\<not> port_eq (he_port e) p" using assms(4,6) by (simp add: port_eq_def)
  with learn_permanent [OF assms(2,3) l] s assms(1,5,6) \<open>v0 = v\<close> show ?thesis by (auto simp: fun_eq_iff)
qed

text \<open>
  A port where the host may be learned: it is not cached or cached elsewhere, not for ever, and not on
  another port of the same LAG; a port with loop protection was not banned and the host has not moved of late.
\<close>

definition may_learn :: "switch_mgr \<Rightarrow> int \<Rightarrow> host_entry option \<Rightarrow> port \<Rightarrow> bool" where
  "may_learn sm now entry p \<longleftrightarrow>
     (case entry of None \<Rightarrow> True
      | Some e \<Rightarrow> \<not> p_permanent_learn (he_port e) \<and> \<not> port_eq (he_port e) p \<and>
          (p_lacp p = 0 \<or> p_lacp p \<noteq> p_lacp (he_port e)) \<and>
          (p_loop_protect p \<longrightarrow> sm_cache_update_guard_time sm \<le> now - he_cache_time e)) \<and>
     (p_loop_protect p \<longrightarrow>
        (case p_dyn_last_ban_time p of None \<Rightarrow> True | Some t \<Rightarrow> t = 0 \<or> sm_cache_update_guard_time sm \<le> now - t))"

lemma learn_new:
  assumes "may_learn sm now (cached_host eth_src v) p"
    and "learn_host_on_vlan_ports (standalone_learning sm) L timeouts sm pl now p v eth_src delete_existing cold = Inr (ms, old, update_cache, p')"
  shows "update_cache \<and> p' = p"
  using assms
  by (cases "cached_host eth_src v")
    (auto simp: learn_host_on_vlan_ports_def Let_def learn_checks_def standalone_learning_def perm_learn_check_def learn_cache_check_def
      loop_protect_check_def learn_check_def may_learn_def bindE_Inr port_eq_def split: if_splits option.splits)

lemma add_cache_host_cached:
  assumes "add_cache_host m p t v = Inr v'"
  shows "cached_host m' v' = (if m' = m then Some \<lparr>he_eth_src = m, he_port = p, he_cache_time = t\<rparr> else cached_host m' v)"
proof -
  from assms obtain w where w: "(case cached_host m v of
        None \<Rightarrow> Inr (set_stats_stale (p_number p) v)
      | Some existing_entry \<Rightarrow> remove_from_port existing_entry v) = Inr w"
    and v': "v_dyn_host_cache v' = dict_set m \<lparr>he_eth_src = m, he_port = p, he_cache_time = t\<rparr> (v_dyn_host_cache w)"
    unfolding add_cache_host_def bindE_Inr Let_def by fastforce
  have "v_dyn_host_cache w = v_dyn_host_cache v"
    using w remove_from_port_keeps by (auto simp: set_stats_stale_def split: option.splits)
  with v' show ?thesis by (simp add: cached_host_def)
qed

text \<open>C29. A packet from a host that may be learned on the port it came in on makes the VLAN find the
  host there, at that time, and changes no other host; a port under loop protection learns again
  once its ban is over.\<close>

lemma host_follows:
  assumes "dict_get (sm_vlans sm) vid = Some v" and "dict_get (sm_ports sm) port_no = Some p"
    and "may_learn sm now (cached_host eth_src v) p"
    and "learn_host L timeouts pl cold now port_no vid eth_src sm = Inr (ms, sm')"
  shows "\<exists>v'. dict_get (sm_vlans sm') vid = Some v' \<and>
    cached_host eth_src v' = Some \<lparr>he_eth_src = eth_src, he_port = p, he_cache_time = now\<rparr> \<and>
    (\<forall>m. m \<noteq> eth_src \<longrightarrow> cached_host m v' = cached_host m v)"
proof -
  from assms(4) obtain p0 v0 old update_cache p' v' where "dict_get (sm_ports sm) port_no = Some p0" "dict_get (sm_vlans sm) vid = Some v0"
    "learn_host_on_vlan_ports (standalone_learning sm) L timeouts sm pl now p0 v0 eth_src True cold = Inr (ms, old, update_cache, p')"
    and s: "(if update_cache then add_cache_host eth_src p' now v0 else Inr v0) = Inr v'"
      "sm' = sm\<lparr>sm_ports := dict_set port_no p' (sm_ports sm), sm_vlans := dict_set vid v' (sm_vlans sm)\<rparr>"
    by (rule learn_host_split)
  with assms(1,2) have l: "learn_host_on_vlan_ports (standalone_learning sm) L timeouts sm pl now p v eth_src True cold = Inr (ms, old, update_cache, p')"
    and v0: "v0 = v" by simp_all
  from learn_new [OF assms(3) l] s v0 have "add_cache_host eth_src p now v = Inr v'" by simp
  from add_cache_host_cached [OF this] s(2) show ?thesis by simp
qed

subsection \<open>Witnesses\<close>

definition permanent_vlan :: vlan where
  "permanent_vlan = (case add_cache_host 7 ((edge_port 1)\<lparr>p_permanent_learn := True\<rparr>) 5 edge_vlan of Inl _ \<Rightarrow> edge_vlan | Inr v \<Rightarrow> v)"

definition permanent_mgr :: switch_mgr where
  "permanent_mgr = example_mgr\<lparr>sm_vlans := [(100, permanent_vlan)]\<rparr>"

definition learn_example :: "int \<Rightarrow> int \<Rightarrow> switch_mgr \<Rightarrow> err + ofmsg list \<times> switch_mgr" where
  "learn_example port_no eth_src sm = learn_host example_lib example_timeouts example_pipeline None 10 port_no 100 eth_src sm"

lemma is_Inr: "(case r of Inl _ \<Rightarrow> False | Inr _ \<Rightarrow> True) \<Longrightarrow> \<exists>x y. r = Inr (x, y)"
  by (cases r) auto

lemma permanent_host_stays_witness:
  "\<exists>ms sm. learn_example 2 7 permanent_mgr = Inr (ms, sm) \<and> dict_get (sm_vlans sm) = dict_get (sm_vlans permanent_mgr)"
proof -
  have "case learn_example 2 7 permanent_mgr of Inl _ \<Rightarrow> False | Inr _ \<Rightarrow> True" by code_simp
  from is_Inr [OF this] obtain ms sm where r: "learn_example 2 7 permanent_mgr = Inr (ms, sm)" by blast
  have v: "dict_get (sm_vlans permanent_mgr) 100 = Some permanent_vlan" by (simp add: permanent_mgr_def dict_get_def)
  have "(case cached_host 7 permanent_vlan of None \<Rightarrow> False | Some e \<Rightarrow> p_permanent_learn (he_port e) \<and> p_number (he_port e) \<noteq> 2)"
    by code_simp
  then obtain e where e: "cached_host 7 permanent_vlan = Some e" "p_permanent_learn (he_port e)" "p_number (he_port e) \<noteq> 2"
    by (auto split: option.splits)
  have p: "dict_get (sm_ports permanent_mgr) 2 = Some (edge_port 2)" "p_number (edge_port 2) = 2"
    by (simp_all add: permanent_mgr_def example_mgr_def dict_get_def edge_port_def default_port_def)
  from permanent_host_stays [OF v e p r [unfolded learn_example_def]] r show ?thesis by blast
qed

lemma host_follows_witness:
  "\<exists>ms sm v e. learn_example 2 7 example_mgr = Inr (ms, sm) \<and> dict_get (sm_vlans sm) 100 = Some v \<and>
     cached_host 7 v = Some e \<and> p_number (he_port e) = 2"
proof -
  have "case learn_example 2 7 example_mgr of Inl _ \<Rightarrow> False | Inr _ \<Rightarrow> True" by code_simp
  from is_Inr [OF this] obtain ms sm where r: "learn_example 2 7 example_mgr = Inr (ms, sm)" by blast
  have v: "dict_get (sm_vlans example_mgr) 100 = Some edge_vlan" "dict_get (sm_ports example_mgr) 2 = Some (edge_port 2)"
    by (simp_all add: example_mgr_def dict_get_def)
  have m: "may_learn example_mgr 10 (cached_host 7 edge_vlan) (edge_port 2)" by code_simp
  from host_follows [OF v m r [unfolded learn_example_def]] r show ?thesis
    by (auto simp: edge_port_def default_port_def)
qed

end
