(* ===== verification/Lacp.thy ===== *)
theory Lacp imports Learning begin

text \<open>
  LACP in the switch manager of a datapath without a stack (\<^verbatim>\<open>faucet/valve_switch_standalone.py\<close>) and
  \<open>Valve.lacp_update\<close> (\<^verbatim>\<open>faucet/valve.py\<close>): the states of a port of a LAG and the rule that blocks it. Then
  that the rules of a port are taken back when it is deleted.
\<close>

section \<open>LACP\<close>

text \<open>Each update returns whether the state changed; a standalone datapath nominates itself.\<close>

definition lacp_update_actor_state :: "bool \<Rightarrow> int option \<Rightarrow> lacp_pkt option \<Rightarrow> bool \<Rightarrow> port \<Rightarrow> bool \<times> port" where
  "lacp_update_actor_state lacp_up now lacp cold_start p =
     (let q = lacp_actor_update lacp_up now lacp cold_start p
      in (p_dyn_lacp_actor_state p \<noteq> p_dyn_lacp_actor_state q, q))"

text \<open>What is nominated: a datapath id; on a stack, also nothing or a list of ids.\<close>

datatype nominee = Dpid int | Dpids "int list" | NoDpid

definition get_lacp_dpid_nomination :: "int \<Rightarrow> nominee \<times> string" where
  "get_lacp_dpid_nomination dp_id = (Dpid dp_id, ''standalone'')"

definition lacp_update_port_selection_state :: "(nominee \<times> string) \<Rightarrow> int \<Rightarrow> bool \<Rightarrow> port \<Rightarrow> bool \<times> port" where
  "lacp_update_port_selection_state nomination dp_id cold_start p =
     (let q = lacp_port_update (fst nomination = Dpid dp_id) cold_start p
      in (p_dyn_lacp_port_selected p \<noteq> p_dyn_lacp_port_selected q, q))"

text \<open>
  \<open>Valve.lacp_update\<close>: \<open>add_vlans\<close> is the method of the valve, which installs the rules of VLANs again
  (with the port's new state).
\<close>

definition store_port :: "port \<Rightarrow> switch_mgr \<Rightarrow> switch_mgr" where
  "store_port p sm = sm\<lparr>sm_ports := dict_set (p_number p) p (sm_ports sm)\<rparr>"

definition lacp_states ::
    "(nominee \<times> string) \<Rightarrow> int \<Rightarrow> bool \<Rightarrow> int option \<Rightarrow> lacp_pkt option \<Rightarrow> bool \<Rightarrow> port \<Rightarrow> bool \<times> port" where
  "lacp_states nomination dp_id lacp_up now lacp cold_start p =
     (let p = (if cold_start
               then snd (lacp_update_port_selection_state nomination dp_id True
                           (snd (lacp_update_actor_state lacp_up now lacp True p)))
               else p);
          (updated, p) = lacp_update_actor_state lacp_up now lacp False p;
          (select_updated, p) = lacp_update_port_selection_state nomination dp_id False p
      in (updated \<or> select_updated, p))"

definition lacp_update ::
    "lib \<Rightarrow> pktlib \<Rightarrow> (int list \<Rightarrow> switch_mgr \<Rightarrow> err + ofmsg list) \<Rightarrow> nominee \<times> string \<Rightarrow> int \<Rightarrow>
     bool \<Rightarrow> int option \<Rightarrow> lacp_pkt option \<Rightarrow> bool \<Rightarrow> port \<Rightarrow> switch_mgr \<Rightarrow> err + ofmsg list \<times> port" where
  "lacp_update L P add_vlans nomination dp_id lacp_up now lacp cold_start p sm =
     (let (changed, p) = lacp_states nomination dp_id lacp_up now lacp cold_start p;
          sm = store_port p sm
      in if \<not> changed then Inr ([], p)
         else if is_port_selected p \<and> is_actor_up p
         then bindE (enable_forwarding L sm p) (\<lambda>ms1.
              bindE (add_vlans (port_vlans p) sm) (\<lambda>ms2. Inr (ms1 @ ms2, p)))
         else
           bindE (disable_forwarding L sm p) (\<lambda>ms1.
           if cold_start then Inr (ms1, p)
           else
             bindE (switch_del_port L sm p) (\<lambda>ms2.
             bindE (switch_add_port L P sm p) (\<lambda>ms3.
             bindE (add_vlans (port_vlans p) sm) (\<lambda>ms4. Inr (ms1 @ ms2 @ ms3 @ ms4, p))))))"

text \<open>
  A received LACP packet (\<open>valve_lacp_handler\<close> in \<open>Valve\<close> is the handler). \<open>lacp_str\<close> is its text, which the
  library gives.
\<close>

definition lacp_of_fields :: "(lacp_fields \<Rightarrow> string) \<Rightarrow> lacp_fields \<Rightarrow> lacp_pkt" where
  "lacp_of_fields lacp_str l =
     \<lparr>lp_actor_system = lf_actor_system l, lp_actor_state_synchronization = lf_actor_state_synchronization l \<noteq> 0,
      lp_actor_key = lf_actor_key l, lp_actor_port = lf_actor_port l, lp_actor_system_priority = lf_actor_system_priority l,
      lp_actor_port_priority = lf_actor_port_priority l, lp_actor_state_defaulted = lf_actor_state_defaulted l,
      lp_actor_state_expired = lf_actor_state_expired l, lp_actor_state_timeout = lf_actor_state_timeout l,
      lp_actor_state_collecting = lf_actor_state_collecting l, lp_actor_state_distributing = lf_actor_state_distributing l,
      lp_actor_state_aggregation = lf_actor_state_aggregation l, lp_actor_state_activity = lf_actor_state_activity l,
      lp_text = lacp_str l\<rparr>"

definition lacp_answer ::
    "lib \<Rightarrow> pktlib \<Rightarrow> switch_mgr \<Rightarrow> int \<Rightarrow> lacp_pkt \<Rightarrow> port \<Rightarrow> err + ofmsg list \<times> port" where
  "lacp_answer L P sm now lacp p =
     (let age = (case p_dyn_lacp_last_resp_time p of None \<Rightarrow> None | Some t \<Rightarrow> if t = 0 then None else Some (now - t));
          lacp_pkt_change = (case p_dyn_last_lacp_pkt p of None \<Rightarrow> True | Some old \<Rightarrow> lp_text lacp \<noteq> lp_text old)
      in if lacp_pkt_change \<or> (case age of None \<Rightarrow> False | Some a \<Rightarrow> p_lacp_resp_interval p < a)
         then bindE (lacp_req_reply L P sm (Some lacp) p) (\<lambda>ms. Inr (ms, p\<lparr>p_dyn_lacp_last_resp_time := Some now\<rparr>))
         else Inr ([], p))"

section \<open>LACP and forwarding\<close>

text \<open>
  A port of a LAG is blocked by a drop rule of the VLAN table that matches nothing but the port. Whether
  a message bears on that rule, and whether the rule is there after a sequence of messages: a delete
  that is not strict removes every flow its match includes.
\<close>

definition port_match :: "lib \<Rightarrow> int \<Rightarrow> ofmatch" where
  "port_match L n = match_of L (no_match\<lparr>ma_in_port := Some n\<rparr>)"

definition bears_on :: "lib \<Rightarrow> switch_mgr \<Rightarrow> int \<Rightarrow> ofmsg \<Rightarrow> bool" where
  "bears_on L sm n m \<longleftrightarrow>
     (case m of
        FlowModMsg fm \<Rightarrow> fm_table_id fm = vt_table_id (sm_vlan_table sm) \<and>
          (if fm_command fm = OFPFC_DELETE then set (fm_match fm) \<subseteq> set (port_match L n)
           else fm_match fm = port_match L n \<and> fm_priority fm = sm_dp_high_priority sm)
      | _ \<Rightarrow> False)"

definition installs_drop :: "ofmsg \<Rightarrow> bool" where
  "installs_drop m \<longleftrightarrow> (case m of FlowModMsg fm \<Rightarrow> fm_command fm = OFPFC_ADD \<and> fm_instructions fm = [] | _ \<Rightarrow> False)"

definition blocked_after :: "lib \<Rightarrow> switch_mgr \<Rightarrow> int \<Rightarrow> ofmsg list \<Rightarrow> bool \<Rightarrow> bool" where
  "blocked_after L sm n ms blocked = foldl (\<lambda>b m. if bears_on L sm n m then installs_drop m else b) blocked ms"

lemma blocked_neutral: "\<forall>m \<in> set ms. \<not> bears_on L sm n m \<Longrightarrow> blocked_after L sm n ms b = b"
  by (induction ms arbitrary: b) (auto simp: blocked_after_def)

lemma blocked_append: "blocked_after L sm n (ms @ ms') b = blocked_after L sm n ms' (blocked_after L sm n ms b)"
  by (simp add: blocked_after_def)

text \<open>The VLAN table is not the other tables, and its priorities differ.\<close>

definition tables_ok :: "switch_mgr \<Rightarrow> bool" where
  "tables_ok sm \<longleftrightarrow>
     vt_table_id (sm_vlan_table sm) \<notin> vt_table_id ` ({sm_eth_src_table sm, sm_flood_table sm} \<union> set (eth_dst_tables sm)) \<and>
     sm_dp_high_priority sm \<notin> {LOW_PRIORITY, sm_dp_highest_priority sm}"

lemma match_simps:
  "port_match L n = [(''in_port'', MInt n)]"
  "match_of L (no_match\<lparr>ma_in_port := Some n, ma_vlan := Some vid\<rparr>) = [(''in_port'', MInt n), (''vlan_vid'', match_vlan_value (lib_ofp L) vid)]"
  "match_of L (lacp_match L p) = [(''in_port'', MInt (p_number p)), (''eth_dst'', MText SLOW_PROTOCOL_MULTICAST), (''eth_type'', MInt (ETH_TYPE_SLOW (lib_ofp L)))]"
  by (simp_all add: port_match_def match_of_def vt_match_def build_match_dict_def set_nw_dst_def set_if_def no_match_args_def
      lacp_match_def match_eth_dst_value_def dict_set_def Let_def)

lemma not_bears_table: "is_flow m t c mt pr \<Longrightarrow> t \<noteq> vt_table_id (sm_vlan_table sm) \<Longrightarrow> \<not> bears_on L sm n m"
  by (auto simp: is_flow_def bears_on_def split: ofmsg.splits)

lemma not_bears_match: "is_flow m t c mt pr \<Longrightarrow> \<not> set mt \<subseteq> set (port_match L n) \<Longrightarrow> \<not> bears_on L sm n m"
  by (auto simp: is_flow_def bears_on_def split: ofmsg.splits if_splits)

lemma not_bears_two: "is_flow m t c ((k, v) # (k', v') # mt) pr \<Longrightarrow> k' \<noteq> ''in_port'' \<Longrightarrow> \<not> bears_on L sm n m"
  by (erule not_bears_match) (simp add: match_simps(1))

lemma not_bears_priority: "is_flow m t OFPFC_ADD mt pr \<Longrightarrow> pr \<noteq> sm_dp_high_priority sm \<Longrightarrow> \<not> bears_on L sm n m"
  by (auto simp: is_flow_def bears_on_def split: ofmsg.splits if_splits)

lemma enable_forwarding_unblocks:
  assumes "enable_forwarding L sm p = Inr ms"
  shows "\<not> blocked_after L sm (p_number p) ms b"
proof -
  from assms obtain m where "ms = [m]" and
    "tbl_flowdel L (sm_vlan_table sm) (no_match\<lparr>ma_in_port := Some (p_number p)\<rparr>) (Some (sm_dp_high_priority sm)) (OFPP_ANY (lib_ofp L)) True = Inr m"
    by (auto simp: enable_forwarding_def bindE_Inr)
  with tbl_flowdel_is [OF this(2)] show ?thesis
    by (auto simp: blocked_after_def bears_on_def installs_drop_def is_flow_def port_match_def split: ofmsg.splits)
qed

lemma disable_forwarding_blocks:
  assumes "disable_forwarding L sm p = Inr ms"
  shows "blocked_after L sm (p_number p) ms b"
proof -
  from assms obtain m where "ms = [m]" and
    "tbl_flowdrop L (sm_vlan_table sm) (no_match\<lparr>ma_in_port := Some (p_number p)\<rparr>) (sm_dp_high_priority sm) 0 = Inr m"
    by (auto simp: disable_forwarding_def bindE_Inr)
  with tbl_flowdrop_is [OF this(2)] show ?thesis
    by (auto simp: blocked_after_def bears_on_def installs_drop_def drops_def is_flow_def port_match_def split: ofmsg.splits)
qed

lemma del_port_neutral:
  assumes "tables_ok sm" and "switch_del_port L sm p = Inr ms"
  shows "\<forall>m \<in> set ms. \<not> bears_on L sm (p_number p) m"
proof (cases "port_vlans p = []")
  case True
  with assms(2) show ?thesis by (simp add: switch_del_port_def)
next
  case False
  with assms(2) obtain hosts native tagged lacp where
    h: "del_host_flows L sm p = Inr hosts"
    and n: "(if native_vlan_of p \<noteq> None \<or> p_count_untag_vlan_miss p
       then bindE (tbl_flowdel L (sm_vlan_table sm) (untagged_match L p) (Some LOW_PRIORITY) (OFPP_ANY (lib_ofp L)) False) (\<lambda>m. Inr [m])
       else Inr []) = Inr native"
    and t: "mapE (\<lambda>vid. tbl_flowdel L (sm_vlan_table sm) (no_match\<lparr>ma_in_port := Some (p_number p), ma_vlan := Some vid\<rparr>)
       (Some LOW_PRIORITY) (OFPP_ANY (lib_ofp L)) False) (p_tagged_vlans p) = Inr tagged"
    and l: "(if p_lacp p \<noteq> 0
       then bindE (tbl_flowdel L (sm_vlan_table sm) (lacp_match L p) (Some (sm_dp_highest_priority sm)) (OFPP_ANY (lib_ofp L)) False) (\<lambda>m. Inr [m])
       else Inr []) = Inr lacp" and ms: "ms = hosts @ native @ tagged @ lacp"
    unfolding switch_del_port_def Let_def by (simp only: if_False bindE_Inr) blast
  from h obtain m1 ms1 where "hosts = m1 # ms1"
    and m1: "tbl_flowdel L (sm_eth_src_table sm) (no_match\<lparr>ma_in_port := Some (p_number p)\<rparr>) None (OFPP_ANY (lib_ofp L)) False = Inr m1"
    and ms1: "mapE (\<lambda>t. vt_flowdel (lib_ofp L) (lib_recirc L) t [] None (p_number p) False) (eth_dst_tables sm) = Inr ms1"
    by (auto simp: del_host_flows_def bindE_Inr)
  moreover have "\<not> bears_on L sm (p_number p) m1"
    using assms(1) by (intro not_bears_table [OF tbl_flowdel_is [OF m1]]) (auto simp: tables_ok_def)
  moreover have "\<forall>m \<in> set ms1. \<not> bears_on L sm (p_number p) m"
    using ms1
  proof (rule mapE_all)
    fix t m assume "t \<in> set (eth_dst_tables sm)" "vt_flowdel (lib_ofp L) (lib_recirc L) t [] None (p_number p) False = Inr m"
    moreover from this(1) have "vt_table_id t \<noteq> vt_table_id (sm_vlan_table sm)"
      using assms(1) by (metis UnI2 image_eqI tables_ok_def)
    ultimately show "\<not> bears_on L sm (p_number p) m"
      by (auto simp: vt_flowdel_def bears_on_def elim!: vt_flowmod_fields)
  qed
  moreover have "\<forall>m \<in> set native. \<not> bears_on L sm (p_number p) m"
    using n by (auto simp: bindE_Inr untagged_match_def match_simps split: if_splits dest!: tbl_flowdel_is
        dest: not_bears_two [where L = L and sm = sm and n = "p_number p"])
  moreover have "\<forall>m \<in> set tagged. \<not> bears_on L sm (p_number p) m"
    using t by (rule mapE_all) (auto simp: match_simps dest!: tbl_flowdel_is dest: not_bears_two [where L = L and sm = sm and n = "p_number p"])
  moreover have "\<forall>m \<in> set lacp. \<not> bears_on L sm (p_number p) m"
    using l by (auto simp: bindE_Inr match_simps split: if_splits dest!: tbl_flowdel_is
        dest: not_bears_two [where L = L and sm = sm and n = "p_number p"])
  ultimately show ?thesis unfolding ms by auto
qed

lemma lacp_advertise_neutral: "lacp_advertise L P sm p = Inr ms \<Longrightarrow> \<forall>m \<in> set ms. \<not> bears_on L sm n m"
  by (auto simp: lacp_advertise_def lacp_req_reply_def bindE_Inr Let_def packetout_def packetouts_def bears_on_def
      split: if_splits prod.splits)

lemma add_port_neutral:
  assumes "tables_ok sm" and "switch_add_port L P sm p = Inr ms"
  shows "\<forall>m \<in> set ms. \<not> bears_on L sm (p_number p) m"
proof (cases "port_vlans p = []")
  case True
  with assms(2) show ?thesis by (simp add: switch_add_port_def)
next
  case False
  have vlan_rule: "\<not> bears_on L sm (p_number p) m" if "port_add_vlan_rules L sm p v acts push = Inr m" for v acts push m
  proof -
    from that obtain ma a where "tbl_flowmod L (sm_vlan_table sm) ma (flow_defaults\<lparr>fa_priority := Some LOW_PRIORITY, fa_inst := a\<rparr>) = Inr m"
      by (auto simp: port_add_vlan_rules_def Let_def bindE_Inr)
    from tbl_flowmod_is [OF this] assms(1) show ?thesis
      by (intro not_bears_priority [where pr = LOW_PRIORITY]) (auto simp: flow_defaults_def tables_ok_def)
  qed
  have rule: "\<not> bears_on L sm (p_number p) m" if "is_flow m t OFPFC_ADD mt LOW_PRIORITY" for m t mt
    by (rule not_bears_priority [OF that]) (use assms(1) in \<open>simp add: tables_ok_def\<close>)
  have lacp_rule: "\<not> bears_on L sm (p_number p) m" if "is_flow m t OFPFC_ADD mt (sm_dp_highest_priority sm)" for m t mt
    by (rule not_bears_priority [OF that]) (use assms(1) in \<open>simp add: tables_ok_def\<close>)
  from False assms(2) obtain tagged native lacp where
    t: "mapE (\<lambda>vid. bindE (dict_getE (sm_vlans sm) vid) (\<lambda>v.
           port_add_vlan_rules L sm p v (mirror_actions p) False)) (p_tagged_vlans p) = Inr tagged"
    and n: "(case native_vlan_of p of
         Some vid \<Rightarrow> bindE (dict_getE (sm_vlans sm) vid) (\<lambda>v.
           bindE (port_add_vlan_rules L sm p v (mirror_actions p) True) (\<lambda>m. Inr [m]))
       | None \<Rightarrow>
           if p_count_untag_vlan_miss p
           then bindE (tbl_flowdrop L (sm_vlan_table sm) (untagged_match L p) LOW_PRIORITY 0) (\<lambda>m. Inr [m])
           else Inr []) = Inr native"
    and l: "(if p_lacp p \<noteq> 0
       then bindE (tbl_flowcontroller L (sm_vlan_table sm) (lacp_match L p) (sm_dp_highest_priority sm) [] LACP_SIZE) (\<lambda>m.
            bindE (lacp_advertise L P sm p) (\<lambda>advert. Inr (m # advert)))
       else Inr []) = Inr lacp" and ms: "ms = tagged @ native @ lacp"
    unfolding switch_add_port_def by (simp only: if_False bindE_Inr) blast
  have "\<forall>m \<in> set tagged. \<not> bears_on L sm (p_number p) m"
    using t by (rule mapE_all) (auto simp: bindE_Inr dest: vlan_rule)
  moreover have "\<forall>m \<in> set native. \<not> bears_on L sm (p_number p) m"
    using n by (auto simp: bindE_Inr dest: rule vlan_rule dest!: tbl_flowdrop_is split: option.splits if_splits)
  moreover have "\<forall>m \<in> set lacp. \<not> bears_on L sm (p_number p) m"
  proof (cases "p_lacp p = 0")
    case True
    with l show ?thesis by simp
  next
    case False
    with l obtain m advert where
      m: "tbl_flowcontroller L (sm_vlan_table sm) (lacp_match L p) (sm_dp_highest_priority sm) [] LACP_SIZE = Inr m"
      and "lacp_advertise L P sm p = Inr advert" "lacp = m # advert" by (auto simp: bindE_Inr)
    then show ?thesis using lacp_rule [OF tbl_flowcontroller_is [OF m]] lacp_advertise_neutral by simp
  qed
  ultimately show ?thesis unfolding ms by auto
qed

text \<open>What LACP asks of whoever installs the rules of VLANs again.\<close>

locale vlan_installer =
  fixes L :: lib and add_vlans :: "int list \<Rightarrow> switch_mgr \<Rightarrow> err + ofmsg list"
  assumes neutral: "tables_ok sm \<Longrightarrow> add_vlans vids sm = Inr ms \<Longrightarrow> m \<in> set ms \<Longrightarrow> \<not> bears_on L sm n m"
begin

lemma lacp_update_blocks:
  assumes "tables_ok sm" and "lacp_update L P add_vlans nomination dp_id lacp_up now lacp cold_start p sm = Inr (ms, q)"
    and "fst (lacp_states nomination dp_id lacp_up now lacp cold_start p)"
  shows "blocked_after L sm (p_number q) ms b \<longleftrightarrow> \<not> (is_port_selected q \<and> is_actor_up q)"
proof -
  have q: "q = snd (lacp_states nomination dp_id lacp_up now lacp cold_start p)"
    using assms(2) by (auto simp: lacp_update_def Let_def bindE_Inr split: prod.splits if_splits)
  let ?sm = "store_port q sm"
  have ok: "tables_ok ?sm" using assms(1) by (simp add: tables_ok_def store_port_def eth_dst_tables_def)
  have bears: "bears_on L ?sm n m = bears_on L sm n m" for n m
    by (simp add: bears_on_def store_port_def split: ofmsg.split)
  then have blocked: "blocked_after L ?sm n ms b = blocked_after L sm n ms b" for n ms b by (simp add: blocked_after_def)
  show ?thesis
  proof (cases "is_port_selected q \<and> is_actor_up q")
    case True
    then obtain ms1 ms2 where "enable_forwarding L ?sm q = Inr ms1" and v: "add_vlans (port_vlans q) ?sm = Inr ms2" and "ms = ms1 @ ms2"
      using assms(2,3) q by (auto simp: lacp_update_def Let_def bindE_Inr split: prod.splits)
    moreover have "\<forall>m \<in> set ms2. \<not> bears_on L sm (p_number q) m" using neutral [OF ok v] bears by blast
    ultimately show ?thesis
      using True enable_forwarding_unblocks blocked by (simp add: blocked_append blocked_neutral) metis
  next
    case False
    with assms(2,3) q obtain ms1 ms2 where d: "disable_forwarding L ?sm q = Inr ms1" and ms: "ms = ms1 @ ms2"
      and rest: "ms2 = [] \<or> (\<exists>ms3 ms4 ms5. switch_del_port L ?sm q = Inr ms3 \<and> switch_add_port L P ?sm q = Inr ms4 \<and>
        add_vlans (port_vlans q) ?sm = Inr ms5 \<and> ms2 = ms3 @ ms4 @ ms5)"
      by (auto simp: lacp_update_def Let_def bindE_Inr split: prod.splits if_splits)
    have "\<forall>m \<in> set ms2. \<not> bears_on L sm (p_number q) m"
      using rest del_port_neutral [OF ok, of L q] add_port_neutral [OF ok, of L P q] neutral [OF ok, of "port_vlans q"] bears
      by auto
    with d ms False show ?thesis using disable_forwarding_blocks blocked by (simp add: blocked_append blocked_neutral) metis
  qed
qed

end

text \<open>The rules of the switch manager for the VLANs of a port.\<close>

definition switch_add_vlans :: "lib \<Rightarrow> pipeline \<Rightarrow> group_table \<Rightarrow> int list \<Rightarrow> switch_mgr \<Rightarrow> err + ofmsg list" where
  "switch_add_vlans L pl groups vids sm =
     bindE (mapE (\<lambda>vid. bindE (dict_getE (sm_vlans sm) vid) (\<lambda>v.
              bindE (switch_add_vlan (standalone L sm) (add_drop_spoofed_faucet_mac_rules L sm pl) L sm v False groups) (\<lambda>(ms, _). Inr ms))) vids) (\<lambda>mss. Inr (concat mss))"

lemma not_bears_other: "is_flow m t OFPFC_ADD mt pr \<Longrightarrow> mt \<noteq> port_match L n \<Longrightarrow> \<not> bears_on L sm n m"
  by (auto simp: is_flow_def bears_on_def split: ofmsg.splits if_splits)

text \<open>The rules to flood go to the flood table or to the groups.\<close>

definition in_table :: "int \<Rightarrow> ofmsg \<Rightarrow> bool" where
  "in_table t m \<longleftrightarrow> (case m of FlowModMsg fm \<Rightarrow> fm_table_id fm = t | GroupModMsg _ \<Rightarrow> True | _ \<Rightarrow> False)"

lemma is_flow_in_table: "is_flow m t c mt pr \<Longrightarrow> in_table t m"
  by (auto simp: is_flow_def in_table_def split: ofmsg.splits)

lemma not_bears_in_table: "in_table t m \<Longrightarrow> t \<noteq> vt_table_id (sm_vlan_table sm) \<Longrightarrow> \<not> bears_on L sm n m"
  by (auto simp: in_table_def bears_on_def split: ofmsg.splits)

lemma mask_port_rule_table:
  assumes "mask_port_rule port_acts L sm v eth_type eth_dst dmask u r command cold_start outs p = Inr ms" and "m \<in> set ms"
  shows "in_table (vt_table_id (sm_flood_table sm)) m"
proof -
  from assms(1) obtain acts o1 o2 where
    "(if acts = [] then Inr []
     else if (case outs of None \<Rightarrow> False | Some (vlan_outs, vlan_nonouts) \<Rightarrow> vlan_outs - {p_number p} = o1 \<and> vlan_nonouts = o2)
     then (if cold_start then Inr []
           else bindE (tbl_flowdel L (sm_flood_table sm) (port_flood_match p v eth_type eth_dst dmask)
                         (Some (vlan_flood_priority L eth_type dmask + 1)) (OFPP_ANY (lib_ofp L)) False) (\<lambda>m. Inr [m]))
     else bindE (build_flood_rule_for_port L sm v eth_type eth_dst dmask command p acts) (\<lambda>m. Inr [m])) = Inr ms"
    unfolding mask_port_rule_def bindE_Inr by fastforce
  with assms(2) show ?thesis
    by (auto simp: build_flood_rule_for_port_def build_flood_rule_def bindE_Inr split: if_splits
        dest!: tbl_flowdel_is tbl_flowmod_is dest: is_flow_in_table)
qed

lemma vlan_rule_table:
  "build_flood_rule_for_vlan rule_actions L sm v t d dm u c = Inr (m, acts) \<Longrightarrow> in_table (vt_table_id (sm_flood_table sm)) m"
  by (auto simp: build_flood_rule_for_vlan_def build_flood_rule_def bindE_Inr dest!: tbl_flowmod_is dest: is_flow_in_table)

lemma mask_flood_table:
  assumes "build_mask_flood_rules rule_actions port_acts L sm v t d dm u r c cold = Inr ms" and "m \<in> set ms"
  shows "in_table (vt_table_id (sm_flood_table sm)) m"
proof -
  have ports: "\<forall>ms \<in> set mss. \<forall>m \<in> set ms. in_table (vt_table_id (sm_flood_table sm)) m"
    if "mapE (mask_port_rule port_acts L sm v t d dm u r c cold outs) ps = Inr mss" for outs ps mss
    using that by (rule mapE_all) (blast dest: mask_port_rule_table)
  show ?thesis
  proof (cases "sm_combinatorial_port_flood sm")
    case True
    with assms ports show ?thesis by (fastforce simp: build_mask_flood_rules_def bindE_Inr)
  next
    case False
    with assms(1) have "bindE (build_flood_rule_for_vlan rule_actions L sm v t d dm u c) (\<lambda>(fl, acts).
        let (_, o2, o3) = output_non_output_actions (lib_str_act L) acts
        in bindE (mapE (mask_port_rule port_acts L sm v t d dm u r c cold (Some (o2, o3))) (vlan_all_ports v u)) (\<lambda>msgs.
           Inr ((if sm_use_group_table sm then [] else [fl]) @ concat msgs))) = Inr ms"
      by (simp add: build_mask_flood_rules_def)
    from bindE_Inr2 [OF this] obtain fl acts where fl: "build_flood_rule_for_vlan rule_actions L sm v t d dm u c = Inr (fl, acts)"
      and "(let (_, o2, o3) = output_non_output_actions (lib_str_act L) acts
        in bindE (mapE (mask_port_rule port_acts L sm v t d dm u r c cold (Some (o2, o3))) (vlan_all_ports v u)) (\<lambda>msgs.
           Inr ((if sm_use_group_table sm then [] else [fl]) @ concat msgs))) = Inr ms" by blast
    moreover obtain o1 o2 o3 where "output_non_output_actions (lib_str_act L) acts = (o1, o2, o3)" by (rule prod_cases3)
    ultimately obtain mss where
      "mapE (mask_port_rule port_acts L sm v t d dm u r c cold (Some (o2, o3))) (vlan_all_ports v u) = Inr mss"
      "ms = (if sm_use_group_table sm then [] else [fl]) @ concat mss"
      by (auto simp: bindE_Inr)
    with ports assms(2) vlan_rule_table [OF fl] show ?thesis by (fastforce split: if_splits)
  qed
qed

lemma groupadd_table: "m \<in> set (groupadd gid bs) \<Longrightarrow> in_table t m"
  by (auto simp: groupadd_def groupadd_type_def groupdel_def in_table_def)

lemma group_rules_table:
  assumes "build_group_flood_rules rule_actions L sm v c groups = Inr (ms, groups')" and "m \<in> set ms"
  shows "in_table (vt_table_id (sm_flood_table sm)) m"
proof -
  from bindE_Inr2 [OF assms(1) [unfolded build_group_flood_rules_def]] obtain r1 acts where
    "(let group_id = v_vid v;
         (group, groups) = get_entry group_id (build_group_flood_buckets (lib_ofp L) acts) groups
     in bindE (build_flood_rule_for_vlan rule_actions L sm v None None None True c) (\<lambda>(_, unicast_acts).
        let (unicast_deduped, unicast_output_ports, _) = output_non_output_actions (lib_str_act L) unicast_acts;
            (_, vlan_output_ports, _) = output_non_output_actions (lib_str_act L) acts;
            (unicast_group, groups) =
              (if unicast_output_ports \<noteq> vlan_output_ports
               then get_entry (group_id + VLAN_GROUP_OFFSET) (build_group_flood_buckets (lib_ofp L) unicast_deduped) groups
               else (group, groups));
            (msgs1, groups) = group_entry_add group groups;
            (msgs2, groups) = group_entry_add unicast_group groups
        in bindE (mapE (group_flood_rule L sm v c (\<lambda>u. if u then unicast_group else group)) (flood_dsts L sm)) (\<lambda>msgs3.
           Inr (msgs1 @ msgs2 @ concat msgs3, groups)))) = Inr (ms, groups')" by blast
  moreover obtain group groups1 where "get_entry (v_vid v) (build_group_flood_buckets (lib_ofp L) acts) groups = (group, groups1)"
    by fastforce
  ultimately obtain unicast_acts where
    "(let (unicast_deduped, unicast_output_ports, _) = output_non_output_actions (lib_str_act L) unicast_acts;
            (_, vlan_output_ports, _) = output_non_output_actions (lib_str_act L) acts;
            (unicast_group, groups) =
              (if unicast_output_ports \<noteq> vlan_output_ports
               then get_entry (v_vid v + VLAN_GROUP_OFFSET) (build_group_flood_buckets (lib_ofp L) unicast_deduped) groups1
               else (group, groups1));
            (msgs1, groups) = group_entry_add group groups;
            (msgs2, groups) = group_entry_add unicast_group groups
        in bindE (mapE (group_flood_rule L sm v c (\<lambda>u. if u then unicast_group else group)) (flood_dsts L sm)) (\<lambda>msgs3.
           Inr (msgs1 @ msgs2 @ concat msgs3, groups))) = Inr (ms, groups')"
    by (simp add: Let_def del: prod.case_distrib) (drule bindE_Inr2, blast)
  moreover have "\<forall>ms \<in> set mss. \<forall>m \<in> set ms. in_table (vt_table_id (sm_flood_table sm)) m"
    if "mapE (group_flood_rule L sm v c f) (flood_dsts L sm) = Inr mss" for f mss
    using that by (rule mapE_all) (auto simp: group_flood_rule_def bindE_Inr split: if_splits prod.splits
        dest!: tbl_flowmod_is dest: is_flow_in_table)
  ultimately show ?thesis
    using assms(2) by (fastforce simp: Let_def group_entry_add_def bindE_Inr split: prod.split_asm dest: groupadd_table)
qed

text \<open>What holds of messages to the flood table and of the rules of masks holds of all rules to flood.\<close>

lemma flood_rules_all:
  assumes "build_flood_rules C L sm v cold modify groups = Inr (ms, groups')" and "m \<in> set ms"
    and "\<And>t d dm u r c cold ms m. fc_mask_rules C v t d dm u r c cold = Inr ms \<Longrightarrow> m \<in> set ms \<Longrightarrow> P m"
    and "\<And>m. in_table (vt_table_id (sm_flood_table sm)) m \<Longrightarrow> P m"
  shows "P m"
proof -
  have multi: "P m"
    if run: "build_multiout_flood_rules C L sm v c cold = Inr ms'" and m: "m \<in> set ms'" for c ms' m
  proof -
    from run obtain mss where mss: "ms' = concat mss" "mapE (\<lambda>(unicast_eth_dst, eth_type, eth_dst, eth_dst_mask).
        if unicast_eth_dst \<and> \<not> v_unicast_flood v then Inr []
        else fc_mask_rules C v eth_type eth_dst eth_dst_mask unicast_eth_dst (eth_type = None) c cold)
      (flood_dsts L sm) = Inr mss"
      by (auto simp: build_multiout_flood_rules_def bindE_Inr)
    from mss(2) have "\<forall>ms \<in> set mss. \<forall>m \<in> set ms. P m"
      by (rule mapE_all) (auto split: prod.splits if_splits dest: assms(3))
    with m mss(1) show ?thesis by auto
  qed
  from assms(1,2) show ?thesis
    by (auto simp: build_flood_rules_def Let_def bindE_Inr split: if_splits dest: multi assms(4) [OF group_rules_table])
qed

lemma flood_rules_table:
  assumes "build_flood_rules (standalone L sm) L sm v cold modify groups = Inr (ms, groups')" and "m \<in> set ms"
  shows "in_table (vt_table_id (sm_flood_table sm)) m"
  using assms by (rule flood_rules_all) (auto simp: standalone_def dest: mask_flood_table)

lemma switch_add_vlan_neutral:
  assumes "tables_ok sm" and "switch_add_vlan (standalone L sm) (add_drop_spoofed_faucet_mac_rules L sm pl) L sm v cold_start groups = Inr (ms, groups')" and "m \<in> set ms"
  shows "\<not> bears_on L sm n m"
proof -
  from assms(2) obtain spoofed fl flood where s: "add_drop_spoofed_faucet_mac_rules L sm pl v = Inr spoofed"
    and c: "\<exists>inst. tbl_flowcontroller L (sm_eth_src_table sm) (no_match\<lparr>ma_vlan := Some (v_vid v)\<rparr>) LOW_PRIORITY inst MAX_PACKET_IN_BYTES = Inr fl"
    and f: "build_flood_rules (standalone L sm) L sm v cold_start False groups = Inr (flood, groups')" and ms: "ms = spoofed @ [fl] @ flood"
    by (auto simp: switch_add_vlan_def bindE_Inr)
  consider "m \<in> set spoofed" | "m = fl" | "m \<in> set flood" using assms(3) ms by auto
  then show ?thesis
  proof cases
    case 1
    then have "tbl_flowdrop L (pi_classification_table pl) (no_match\<lparr>ma_eth_src := Some (v_faucet_mac v)\<rparr>) (FILTER_PRIORITY + 0) 0 = Inr m"
      using s by (auto simp: add_drop_spoofed_faucet_mac_rules_def filter_packets_def bindE_Inr split: if_splits)
    from conjunct1 [OF tbl_flowdrop_is [OF this]] show ?thesis
      by (rule not_bears_other) (simp add: match_simps(1) match_of_def vt_match_def build_match_dict_def
          set_nw_dst_def set_if_def no_match_args_def dict_set_def Let_def)
  next
    case 2
    from c obtain inst where
      "tbl_flowcontroller L (sm_eth_src_table sm) (no_match\<lparr>ma_vlan := Some (v_vid v)\<rparr>) LOW_PRIORITY inst MAX_PACKET_IN_BYTES = Inr fl" ..
    from not_bears_table [OF tbl_flowcontroller_is [OF this]] assms(1) 2 show ?thesis by (auto simp: tables_ok_def)
  next
    case 3
    from not_bears_in_table [OF flood_rules_table [OF f this]] assms(1) show ?thesis by (auto simp: tables_ok_def)
  qed
qed

interpretation switch_installer: vlan_installer L "switch_add_vlans L pl groups" for L pl groups
proof
  fix sm vids ms m n
  assume ok: "tables_ok sm" and run: "switch_add_vlans L pl groups vids sm = Inr ms" and m: "m \<in> set ms"
  from run obtain mss where "mapE (\<lambda>vid. bindE (dict_getE (sm_vlans sm) vid) (\<lambda>v.
      bindE (switch_add_vlan (standalone L sm) (add_drop_spoofed_faucet_mac_rules L sm pl) L sm v False groups) (\<lambda>(ms, _). Inr ms))) vids = Inr mss" and ms: "ms = concat mss"
    by (auto simp: switch_add_vlans_def bindE_Inr)
  from this(1) have "\<forall>ms \<in> set mss. \<forall>m \<in> set ms. \<not> bears_on L sm n m"
    by (rule mapE_all) (auto simp: bindE_Inr dest: switch_add_vlan_neutral [OF ok])
  with m ms show "\<not> bears_on L sm n m" by auto
qed

text \<open>The port and whether it is blocked, as LACP and its link run.\<close>

inductive lacp_runs :: "lib \<Rightarrow> pktlib \<Rightarrow> pipeline \<Rightarrow> group_table \<Rightarrow> switch_mgr \<Rightarrow> port \<times> bool \<Rightarrow> port \<times> bool \<Rightarrow> bool"
  for L P pl groups sm where
  update: "lacp_update L P (switch_add_vlans L pl groups) nomination dp_id lacp_up now lacp cold_start p sm = Inr (ms, q) \<Longrightarrow>
    lacp_runs L P pl groups sm (p, b) (q, blocked_after L sm (p_number q) ms b)"
| link: "lacp_runs L P pl groups sm (p, b) (p\<lparr>p_dyn_phys_up := up\<rparr>, b)"

definition forwarding_agrees :: "port \<times> bool \<Rightarrow> bool" where
  "forwarding_agrees s \<longleftrightarrow> p_dyn_lacp_actor_state (fst s) = LACP_ACTOR_NOTCONFIGURED \<or>
     snd s = (\<not> (is_port_selected (fst s) \<and> is_actor_up (fst s)))"

lemma actor_configured: "p_dyn_lacp_actor_state (lacp_actor_update up now lacp False p) \<noteq> LACP_ACTOR_NOTCONFIGURED"
  by (simp add: lacp_actor_update_def set_actor_def Let_def)

lemma lacp_states_unchanged:
  assumes "lacp_states nomination dp_id lacp_up now lacp cold_start p = (False, q)"
  shows "p_dyn_lacp_actor_state q = p_dyn_lacp_actor_state p \<and> p_dyn_lacp_port_selected q = p_dyn_lacp_port_selected p"
proof (cases cold_start)
  case True
  let ?p = "lacp_port_update (fst nomination = Dpid dp_id) True (lacp_actor_update lacp_up now lacp True p)"
  have "p_dyn_lacp_actor_state ?p = LACP_ACTOR_NOTCONFIGURED"
    by (simp add: lacp_port_update_def lacp_actor_update_def set_actor_def set_role_def Let_def)
  moreover have "p_dyn_lacp_actor_state ?p = p_dyn_lacp_actor_state (lacp_actor_update lacp_up now lacp False ?p)"
    using assms True by (simp add: lacp_states_def lacp_update_actor_state_def lacp_update_port_selection_state_def Let_def)
  ultimately show ?thesis using actor_configured by metis
next
  case False
  have "p_dyn_lacp_actor_state (lacp_port_update s c r) = p_dyn_lacp_actor_state r" for s c r
    by (simp add: lacp_port_update_def set_role_def)
  moreover have "p_dyn_lacp_port_selected (lacp_actor_update u n l c r) = p_dyn_lacp_port_selected r" for u n l c r
    by (simp add: lacp_actor_update_def set_actor_def Let_def)
  ultimately show ?thesis using assms False
    by (auto simp: lacp_states_def lacp_update_actor_state_def lacp_update_port_selection_state_def Let_def)
qed

lemma lacp_runs_agree:
  assumes "lacp_runs L P pl groups sm s s'" and ok: "tables_ok sm" and "forwarding_agrees s"
  shows "forwarding_agrees s'"
  using assms(1)
proof cases
  case (update nomination dp_id lacp_up now lacp cold_start p ms q b)
  obtain changed q' where st: "lacp_states nomination dp_id lacp_up now lacp cold_start p = (changed, q')" by fastforce
  with update(3) have q: "q' = q" by (auto simp: lacp_update_def Let_def bindE_Inr split: if_splits)
  show ?thesis
  proof (cases changed)
    case True
    with switch_installer.lacp_update_blocks [OF ok update(3), of b] st update(2) show ?thesis
      by (simp add: forwarding_agrees_def)
  next
    case False
    with update(3) st have "ms = []" by (simp add: lacp_update_def)
    with lacp_states_unchanged [of nomination dp_id lacp_up now lacp cold_start p q] st q False update(1,2) assms(3) show ?thesis
      by (simp add: forwarding_agrees_def blocked_after_def lacp_state_defs)
  qed
next
  case (link p b up)
  with assms(3) show ?thesis by (simp add: forwarding_agrees_def lacp_state_defs)
qed

text \<open>C20. Once LACP has updated a port, whatever packets, timeouts and link changes follow, the drop
  rule that blocks the port is installed exactly when the port is not both selected and up.\<close>

lemma lacp_forwarding:
  assumes "(lacp_runs L P pl groups sm)\<^sup>*\<^sup>* (p, b) (q, b')" and "tables_ok sm"
    and "p_dyn_lacp_actor_state p = LACP_ACTOR_NOTCONFIGURED" and "p_dyn_lacp_actor_state q \<noteq> LACP_ACTOR_NOTCONFIGURED"
  shows "b' \<longleftrightarrow> \<not> (is_port_selected q \<and> is_actor_up q)"
proof -
  have "forwarding_agrees (p, b)" using assms(3) by (simp add: forwarding_agrees_def)
  with assms(1) have "forwarding_agrees (q, b')" by induction (auto intro: lacp_runs_agree [OF _ assms(2)])
  with assms(4) show ?thesis by (simp add: forwarding_agrees_def)
qed

section \<open>A port's rules are taken back\<close>

lemma port_add_vlan_rules_is:
  assumes "port_add_vlan_rules L sm p v acts push = Inr m"
  shows "is_flow m (vt_table_id (sm_vlan_table sm)) OFPFC_ADD
    (match_of L (if push then untagged_match L p else no_match\<lparr>ma_in_port := Some (p_number p), ma_vlan := Some (v_vid v)\<rparr>)) LOW_PRIORITY"
proof -
  from assms obtain inst where "tbl_flowmod L (sm_vlan_table sm)
      (no_match\<lparr>ma_in_port := Some (p_number p), ma_vlan := Some (if push then OFPVID_NONE (lib_ofp L) else v_vid v)\<rparr>)
      (flow_defaults\<lparr>fa_priority := Some LOW_PRIORITY, fa_inst := inst\<rparr>) = Inr m"
    by (auto simp: port_add_vlan_rules_def Let_def bindE_Inr)
  from tbl_flowmod_is [OF this] show ?thesis by (cases push) (simp_all add: flow_defaults_def untagged_match_def)
qed

definition deleted_by :: "int \<Rightarrow> ofmatch \<Rightarrow> ofmsg list \<Rightarrow> bool" where
  "deleted_by t mt ms \<longleftrightarrow> (\<exists>m \<in> set ms. \<exists>pr. is_flow m t OFPFC_DELETE mt pr)"

lemma deleted_by_append [simp]: "deleted_by t mt (ms @ ms') \<longleftrightarrow> deleted_by t mt ms \<or> deleted_by t mt ms'"
  by (auto simp: deleted_by_def)

lemma del_one: "bindE (tbl_flowdel L t ma pr out False) (\<lambda>m. Inr [m]) = Inr ms \<Longrightarrow> deleted_by (vt_table_id t) (match_of L ma) ms"
  by (fastforce simp: bindE_Inr deleted_by_def dest: tbl_flowdel_is)

lemma advertise_no_flow: "lacp_advertise L P sm p = Inr ms \<Longrightarrow> FlowModMsg fm \<notin> set ms"
  by (auto simp: lacp_advertise_def lacp_req_reply_def bindE_Inr Let_def packetout_def packetouts_def
      split: if_splits prod.splits)

text \<open>Every flow that adding a port installs has a delete of the same table and match among the
  messages that delete the port.\<close>

lemma del_port_covers:
  assumes "switch_add_port L P sm p = Inr adds" and "switch_del_port L sm p = Inr dels"
    and "FlowModMsg fm \<in> set adds" and "\<forall>vid v. dict_get (sm_vlans sm) vid = Some v \<longrightarrow> v_vid v = vid"
  shows "fm_table_id fm = vt_table_id (sm_vlan_table sm) \<and> deleted_by (fm_table_id fm) (fm_match fm) dels"
proof (cases "port_vlans p = []")
  case True
  with assms(1,3) show ?thesis by (simp add: switch_add_port_def)
next
  case False
  let ?t = "vt_table_id (sm_vlan_table sm)"
  from False assms(2) obtain hosts native tagged lacp where
    n: "(if native_vlan_of p \<noteq> None \<or> p_count_untag_vlan_miss p
       then bindE (tbl_flowdel L (sm_vlan_table sm) (untagged_match L p) (Some LOW_PRIORITY) (OFPP_ANY (lib_ofp L)) False) (\<lambda>m. Inr [m])
       else Inr []) = Inr native"
    and t: "mapE (\<lambda>vid. tbl_flowdel L (sm_vlan_table sm) (no_match\<lparr>ma_in_port := Some (p_number p), ma_vlan := Some vid\<rparr>)
       (Some LOW_PRIORITY) (OFPP_ANY (lib_ofp L)) False) (p_tagged_vlans p) = Inr tagged"
    and l: "(if p_lacp p \<noteq> 0
       then bindE (tbl_flowdel L (sm_vlan_table sm) (lacp_match L p) (Some (sm_dp_highest_priority sm)) (OFPP_ANY (lib_ofp L)) False) (\<lambda>m. Inr [m])
       else Inr []) = Inr lacp" and dels: "dels = hosts @ native @ tagged @ lacp"
    unfolding switch_del_port_def Let_def by (simp only: if_False bindE_Inr) blast
  from False assms(1) obtain tagged' native' lacp' where
    t': "mapE (\<lambda>vid. bindE (dict_getE (sm_vlans sm) vid) (\<lambda>v.
           port_add_vlan_rules L sm p v (mirror_actions p) False)) (p_tagged_vlans p) = Inr tagged'"
    and n': "(case native_vlan_of p of
         Some vid \<Rightarrow> bindE (dict_getE (sm_vlans sm) vid) (\<lambda>v.
           bindE (port_add_vlan_rules L sm p v (mirror_actions p) True) (\<lambda>m. Inr [m]))
       | None \<Rightarrow>
           if p_count_untag_vlan_miss p
           then bindE (tbl_flowdrop L (sm_vlan_table sm) (untagged_match L p) LOW_PRIORITY 0) (\<lambda>m. Inr [m])
           else Inr []) = Inr native'"
    and l': "(if p_lacp p \<noteq> 0
       then bindE (tbl_flowcontroller L (sm_vlan_table sm) (lacp_match L p) (sm_dp_highest_priority sm) [] LACP_SIZE) (\<lambda>m.
            bindE (lacp_advertise L P sm p) (\<lambda>advert. Inr (m # advert)))
       else Inr []) = Inr lacp'" and adds: "adds = tagged' @ native' @ lacp'"
    unfolding switch_add_port_def by (simp only: if_False bindE_Inr) blast
  consider "FlowModMsg fm \<in> set tagged'" | "FlowModMsg fm \<in> set native'" | "FlowModMsg fm \<in> set lacp'"
    using assms(3) adds by auto
  then show ?thesis
  proof cases
    case 1
    then obtain i where i: "i < length tagged'" "FlowModMsg fm = tagged' ! i" by (auto simp: in_set_conv_nth)
    with t' obtain v where v: "dict_get (sm_vlans sm) (p_tagged_vlans p ! i) = Some v"
      "port_add_vlan_rules L sm p v (mirror_actions p) False = Inr (tagged' ! i)" and len: "i < length (p_tagged_vlans p)"
      by (auto simp: mapE_Inr_list_all2 list_all2_conv_all_nth bindE_Inr)
    have "v_vid v = p_tagged_vlans p ! i" using v(1) assms(4) by blast
    with port_add_vlan_rules_is [OF v(2)] i(2) have fm: "fm_table_id fm = ?t"
      "fm_match fm = match_of L (no_match\<lparr>ma_in_port := Some (p_number p), ma_vlan := Some (p_tagged_vlans p ! i)\<rparr>)"
      by (simp_all add: is_flow_def split: ofmsg.splits)
    from t len have "tbl_flowdel L (sm_vlan_table sm) (no_match\<lparr>ma_in_port := Some (p_number p), ma_vlan := Some (p_tagged_vlans p ! i)\<rparr>)
        (Some LOW_PRIORITY) (OFPP_ANY (lib_ofp L)) False = Inr (tagged ! i)" "i < length tagged"
      by (auto simp: mapE_Inr_list_all2 list_all2_conv_all_nth)
    then have "deleted_by ?t (fm_match fm) tagged"
      unfolding deleted_by_def fm(2) by (metis tbl_flowdel_is nth_mem)
    with fm(1) dels show ?thesis by simp
  next
    case 2
    then have "fm_table_id fm = ?t \<and> fm_match fm = match_of L (untagged_match L p)"
      using n' by (auto simp: bindE_Inr is_flow_def split: option.splits if_splits dest!: port_add_vlan_rules_is tbl_flowdrop_is)
    moreover have "native_vlan_of p \<noteq> None \<or> p_count_untag_vlan_miss p" using 2 n' by (auto split: option.splits if_splits)
    ultimately show ?thesis using n del_one dels by fastforce
  next
    case 3
    then have lag: "p_lacp p \<noteq> 0" using l' by (auto split: if_splits)
    with l' 3 have "fm_table_id fm = ?t \<and> fm_match fm = match_of L (lacp_match L p)"
      by (auto simp: bindE_Inr is_flow_def dest: advertise_no_flow dest!: tbl_flowcontroller_is split: ofmsg.splits)
    with lag l del_one dels show ?thesis by fastforce
  qed
qed

subsection \<open>Witnesses\<close>

definition lag_mgr :: switch_mgr where
  "lag_mgr = example_mgr\<lparr>sm_vlan_table := (example_table ''vlan'')\<lparr>vt_table_id := 20\<rparr>\<rparr>"

definition lag_edge :: port where
  "lag_edge = (edge_port 1)\<lparr>p_lacp := 1, p_lacp_active := True\<rparr>"

definition no_pktlib :: pktlib where
  "no_pktlib = \<lparr>pl_parse = (\<lambda>_. Inr []), pl_serialize = (\<lambda>_. [0]), pl_mac_bin = (\<lambda>_. []), pl_utf8 = (\<lambda>_. []), pl_utf8_decode = (\<lambda>_. Inr [])\<rparr>"

definition lag_update :: "bool \<Rightarrow> lacp_pkt option \<Rightarrow> port \<Rightarrow> err + ofmsg list \<times> port" where
  "lag_update up lacp p = lacp_update example_lib no_pktlib (switch_add_vlans example_lib example_pipeline []) (Dpid 1, ''standalone'') 1
     up (Some 10) lacp False p lag_mgr"

lemma lacp_forwarding_witness:
  "\<exists>ms p. lag_update True (Some example_lacp_pkt) lag_edge = Inr (ms, p) \<and> is_port_selected p \<and> is_actor_up p \<and>
     \<not> blocked_after example_lib lag_mgr (p_number p) ms True"
proof -
  have "case lag_update True (Some example_lacp_pkt) lag_edge of Inl _ \<Rightarrow> False | Inr _ \<Rightarrow> True" by code_simp
  from is_Inr [OF this] obtain ms p where r: "lag_update True (Some example_lacp_pkt) lag_edge = Inr (ms, p)" by blast
  have "case lag_update True (Some example_lacp_pkt) lag_edge of Inl _ \<Rightarrow> False
      | Inr (_, p) \<Rightarrow> is_port_selected p \<and> is_actor_up p" by code_simp
  with r have up: "is_port_selected p" "is_actor_up p" by auto
  have "tables_ok lag_mgr" by code_simp
  moreover have "p_dyn_lacp_actor_state lag_edge = LACP_ACTOR_NOTCONFIGURED" by (simp add: lag_edge_def edge_port_def default_port_def)
  moreover have "p_dyn_lacp_actor_state p \<noteq> LACP_ACTOR_NOTCONFIGURED" using up by (simp add: is_actor_up_def)
  moreover have "(lacp_runs example_lib no_pktlib example_pipeline [] lag_mgr)\<^sup>*\<^sup>* (lag_edge, True)
      (p, blocked_after example_lib lag_mgr (p_number p) ms True)"
    by (rule r_into_rtranclp, rule lacp_runs.update [OF r [unfolded lag_update_def]])
  ultimately have "\<not> blocked_after example_lib lag_mgr (p_number p) ms True" using lacp_forwarding up by blast
  with r up show ?thesis by blast
qed

lemma del_port_covers_witness:
  "\<exists>fm adds dels. switch_add_port example_lib no_pktlib lag_mgr (edge_port 1) = Inr adds \<and> FlowModMsg fm \<in> set adds \<and>
     switch_del_port example_lib lag_mgr (edge_port 1) = Inr dels \<and> deleted_by (fm_table_id fm) (fm_match fm) dels"
proof -
  have "case switch_add_port example_lib no_pktlib lag_mgr (edge_port 1) of Inl _ \<Rightarrow> False
      | Inr ms \<Rightarrow> (case ms of FlowModMsg fm # _ \<Rightarrow> True | _ \<Rightarrow> False)" by code_simp
  then obtain adds fm where a: "switch_add_port example_lib no_pktlib lag_mgr (edge_port 1) = Inr adds" "FlowModMsg fm \<in> set adds"
    by (auto split: sum.splits list.splits ofmsg.splits) (metis list.set_intros(1))
  have "case switch_del_port example_lib lag_mgr (edge_port 1) of Inl _ \<Rightarrow> False | Inr _ \<Rightarrow> True" by code_simp
  then obtain dels where d: "switch_del_port example_lib lag_mgr (edge_port 1) = Inr dels" by (auto split: sum.splits)
  have "v_vid v = vid" if "dict_get (sm_vlans lag_mgr) vid = Some v" for vid v
    using that by (auto simp: lag_mgr_def example_mgr_def dict_get_def edge_vlan_def new_vlan_def split: if_splits)
  then have "deleted_by (fm_table_id fm) (fm_match fm) dels" using del_port_covers [OF a(1) d a(2)] by blast
  with a d show ?thesis by blast
qed

end
