(* ===== verification/IPText.thy ===== *)
theory IPText imports Packet begin

text \<open>
  The text of an IP address, \<open>str\<close> of the addresses of Python's \<^verbatim>\<open>ipaddress\<close>: dotted decimal for IPv4; for
  IPv6 eight hexadecimal groups, of which the first longest run of two or more zeros is left out.
\<close>

definition ipv4_groups :: "int \<Rightarrow> int list" where
  "ipv4_groups v = map (\<lambda>i. take_bit 8 (drop_bit (8 * i) v)) [3, 2, 1, 0]"

definition ipv6_groups :: "int \<Rightarrow> int list" where
  "ipv6_groups v = map (\<lambda>i. take_bit 16 (drop_bit (16 * i) v)) [7, 6, 5, 4, 3, 2, 1, 0]"

definition zero_run :: "string list \<Rightarrow> nat \<Rightarrow> nat" where
  "zero_run hextets i = length (takeWhile (\<lambda>h. h = ''0'') (drop i hextets))"

definition best_run :: "string list \<Rightarrow> nat \<times> nat" where
  "best_run hextets =
     foldl (\<lambda>(i, n) j. if zero_run hextets j > n then (j, zero_run hextets j) else (i, n)) (0, 0) [0..<length hextets]"

definition compress_hextets :: "string list \<Rightarrow> string" where
  "compress_hextets hextets =
     (let (i, n) = best_run hextets
      in if n \<le> 1 then join_with (CHR '':'') hextets
         else join_with (CHR '':'') (take i hextets) @ ''::'' @ join_with (CHR '':'') (drop (i + n) hextets))"

definition ip_text :: "ipaddr \<Rightarrow> string" where
  "ip_text ipa =
     (if ip_version ipa = 4 then join_with (CHR ''.'') (map decimal (ipv4_groups (ip_value ipa)))
      else compress_hextets (map hex (ipv6_groups (ip_value ipa))))"

definition netmask :: "int \<Rightarrow> nat \<Rightarrow> ipaddr" where
  "netmask v prefixlen =
     \<lparr>ip_version = v, ip_value = 2 ^ max_prefixlen v - 2 ^ (max_prefixlen v - prefixlen)\<rparr>"

text \<open>What a match takes of a network and of an interface.\<close>

definition net_match :: "ipnet \<Rightarrow> ipmatch" where
  "net_match n = IPNetworkM (ip_text (network_addr n)) (ip_text (netmask (net_version n) (net_prefixlen n)))"

definition interface_match :: "ipinterface \<Rightarrow> ipmatch" where
  "interface_match i = IPInterfaceM (ip_text (if_ip i)) (ip_text (netmask (ip_version (if_ip i)) (if_prefixlen i)))"



section \<open>The text determines the address\<close>

definition ip_ok :: "ipaddr \<Rightarrow> bool" where
  "ip_ok ipa \<longleftrightarrow> ip_version ipa \<in> {4, 6} \<and> 0 \<le> ip_value ipa \<and> ip_value ipa < 2 ^ max_prefixlen (ip_version ipa)"

definition net_ok :: "ipnet \<Rightarrow> bool" where
  "net_ok n \<longleftrightarrow> ip_ok (network_addr n) \<and> net_prefixlen n \<le> max_prefixlen (net_version n)"

lemma split_on_sep: "split_on c (xs @ c # ys) = split_on c xs @ split_on c ys"
  by (induction xs) (auto split: list.splits simp: neq_Nil_conv)

lemma split_on_join: "\<forall>w \<in> set ws. c \<notin> set w \<Longrightarrow> split_on c (join_with c ws) = (if ws = [] then [[]] else ws)"
  using split_join [of ws c] by (cases ws) auto

definition expand_hextets :: "string \<Rightarrow> string list" where
  "expand_hextets t =
     (let S = split_on (CHR '':'') t; b = takeWhile (\<lambda>h. h \<noteq> []) S; a = rev (takeWhile (\<lambda>h. h \<noteq> []) (rev S))
      in if [] \<notin> set S then S else b @ replicate (8 - length b - length a) ''0'' @ a)"

lemma best_run_fold:
  "foldl (\<lambda>(i, n) j. if zero_run hs j > n then (j, zero_run hs j) else (i, n)) (i0, n0) js = (i, n) \<Longrightarrow>
   n0 \<le> zero_run hs i0 \<Longrightarrow> n \<le> zero_run hs i"
  by (induction js arbitrary: i0 n0) (auto split: if_splits)

lemma best_run_zeros:
  assumes "best_run hs = (i, n)"
  shows "hs = take i hs @ replicate n ''0'' @ drop (i + n) hs"
proof -
  have n: "n \<le> zero_run hs i" using best_run_fold [OF assms [unfolded best_run_def]] by simp
  have "take n (drop i hs) = replicate n ''0''"
  proof (rule replicate_eqI)
    show "length (take n (drop i hs)) = n"
      using n length_takeWhile_le [of "\<lambda>h. h = ''0''" "drop i hs"] by (simp add: zero_run_def)
    fix y assume "y \<in> set (take n (drop i hs))"
    then have "y \<in> set (take (zero_run hs i) (drop i hs))"
      using set_take_subset_set_take [OF n, of "drop i hs"] by (rule rev_subsetD)
    then have "y \<in> set (takeWhile (\<lambda>h. h = ''0'') (drop i hs))"
      unfolding zero_run_def takeWhile_eq_take [symmetric] .
    then show "y = ''0''" by (rule conjunct2 [OF set_takeWhileD])
  qed
  then have "drop i hs = replicate n ''0'' @ drop (i + n) hs"
    using append_take_drop_id [of n "drop i hs"] by (simp add: add.commute)
  then show ?thesis using append_take_drop_id [of i hs] by simp
qed

lemma takeWhile_nonempty: "[] \<notin> set b \<Longrightarrow> takeWhile (\<lambda>h. h \<noteq> []) (b @ [] # xs) = b"
  by (subst takeWhile_append2) auto

lemma expand_compress:
  assumes len: "length hs = 8" and w: "\<forall>h \<in> set hs. h \<noteq> [] \<and> CHR '':'' \<notin> set h"
  shows "expand_hextets (compress_hextets hs) = hs"
proof -
  obtain i n where best: "best_run hs = (i, n)" by (cases "best_run hs")
  show ?thesis
  proof (cases "n \<le> 1")
    case True
    have "split_on (CHR '':'') (join_with (CHR '':'') hs) = hs" using w len by (intro split_join) auto
    with True best w show ?thesis by (auto simp: expand_hextets_def compress_hextets_def)
  next
    case False
    let ?b = "take i hs" and ?a = "drop (i + n) hs"
    have b: "\<forall>h \<in> set ?b. h \<noteq> [] \<and> CHR '':'' \<notin> set h" and a: "\<forall>h \<in> set ?a. h \<noteq> [] \<and> CHR '':'' \<notin> set h"
      using w by (auto dest: in_set_takeD in_set_dropD)
    have hs: "hs = ?b @ replicate n ''0'' @ ?a" by (rule best_run_zeros [OF best])
    have n: "n = 8 - length ?b - length ?a" using arg_cong [OF hs, of length] len by simp
    let ?S = "(if ?b = [] then [[]] else ?b) @ [] # (if ?a = [] then [[]] else ?a)"
    have "split_on (CHR '':'') (compress_hextets hs) = ?S"
      using False best b a split_on_join [of ?b "CHR '':''"] split_on_join [of ?a "CHR '':''"]
      by (simp add: compress_hextets_def split_on_sep)
    moreover have "takeWhile (\<lambda>h. h \<noteq> []) ?S = ?b"
      using b takeWhile_nonempty [of ?b] by auto
    moreover have "takeWhile (\<lambda>h. h \<noteq> []) (rev ?S) = rev ?a"
      using a takeWhile_nonempty [of "rev ?a"] by auto
    ultimately have "expand_hextets (compress_hextets hs) = ?b @ replicate n ''0'' @ ?a"
      using n unfolding expand_hextets_def Let_def by simp
    with hs show ?thesis by simp
  qed
qed

lemma digits_eq:
  fixes v w :: int
  assumes "0 \<le> v" "v < 2 ^ (k * m)" "0 \<le> w" "w < 2 ^ (k * m)" and k: "0 < k"
    and "\<forall>i < m. take_bit k (drop_bit (k * i) v) = take_bit k (drop_bit (k * i) w)"
  shows "v = w"
proof (rule bit_eqI)
  fix n
  have v: "take_bit (k * m) v = v" and w: "take_bit (k * m) w = w" using assms(1-4) by (simp_all add: take_bit_int_eq_self)
  show "bit v n = bit w n"
  proof (cases "n < k * m")
    case True
    then have i: "n div k < m" by (simp add: less_mult_imp_div_less mult.commute)
    have b: "bit x n = bit (take_bit k (drop_bit (k * (n div k)) x)) (n mod k)" for x :: int
      using k by (simp add: bit_take_bit_iff bit_drop_bit_eq)
    show ?thesis unfolding b [of v] b [of w] using assms(6) i by simp
  next
    case False
    then show ?thesis using v w bit_take_bit_iff [of "k * m" v n] bit_take_bit_iff [of "k * m" w n] by simp
  qed
qed

lemma hex_inj: "0 \<le> m \<Longrightarrow> 0 \<le> n \<Longrightarrow> hex m = hex n \<Longrightarrow> m = n"
  by (metis py_int_hex sum.inject(2))

lemma decimal_inj: "decimal m = decimal n \<Longrightarrow> m = n"
  by (metis py_int_decimal sum.inject(2))

lemma dot_decimal: "0 \<le> n \<Longrightarrow> CHR ''.'' \<notin> set (decimal n)"
proof
  assume "0 \<le> n" "CHR ''.'' \<in> set (decimal n)"
  then obtain d where "d < 10" "CHR ''.'' = digit_char d" using nat_text_digits [of 10 "CHR ''.''" "nat n"] by (auto simp: decimal_def)
  then have "of_char (CHR ''.'') = (48 + d :: nat)" using digit_char_val [of d] by simp
  then show False by simp
qed

lemma ipv4_groups_eq:
  assumes "ipv4_groups v = ipv4_groups w" and "0 \<le> v" "v < 2 ^ 32" "0 \<le> w" "w < 2 ^ 32"
  shows "v = w"
proof (rule digits_eq [where k = 8 and m = 4])
  show "\<forall>i < 4. take_bit 8 (drop_bit (8 * i) v) = take_bit 8 (drop_bit (8 * i) w)"
    using assms(1) by (auto simp: ipv4_groups_def eval_nat_numeral less_Suc_eq)
qed (use assms in auto)

lemma ipv6_groups_eq:
  assumes "ipv6_groups v = ipv6_groups w" and "0 \<le> v" "v < 2 ^ 128" "0 \<le> w" "w < 2 ^ 128"
  shows "v = w"
proof (rule digits_eq [where k = 16 and m = 8])
  have "i < 8 \<Longrightarrow> i \<in> {0, 1, 2, 3, 4, 5, 6, 7}" for i :: nat by auto
  then show "\<forall>i < 8. take_bit 16 (drop_bit (16 * i) v) = take_bit 16 (drop_bit (16 * i) w)"
    using assms(1) by (fastforce simp: ipv6_groups_def)
qed (use assms in auto)

lemma map_inj_eq: "map f xs = map f ys \<Longrightarrow> \<forall>x \<in> set xs. \<forall>y \<in> set ys. f x = f y \<longrightarrow> x = y \<Longrightarrow> xs = ys"
  by (induction xs arbitrary: ys) auto

text \<open>Two addresses of one version have the same text only if they are the same.\<close>

lemma ip_text_inj:
  assumes "ip_ok a" "ip_ok b" "ip_version a = ip_version b" and t: "ip_text a = ip_text b"
  shows "a = b"
proof -
  have "ip_value a = ip_value b"
  proof (cases "ip_version a = 4")
    case True
    have no_dot: "\<forall>w \<in> set (map decimal (ipv4_groups v)). CHR ''.'' \<notin> set w" for v
      by (auto simp: ipv4_groups_def dot_decimal)
    have "map decimal (ipv4_groups v) \<noteq> []" for v by (simp add: ipv4_groups_def)
    then have s: "split_on (CHR ''.'') (join_with (CHR ''.'') (map decimal (ipv4_groups v))) = map decimal (ipv4_groups v)" for v
      using no_dot by (rule split_join)
    have "join_with (CHR ''.'') (map decimal (ipv4_groups (ip_value a))) =
        join_with (CHR ''.'') (map decimal (ipv4_groups (ip_value b)))"
      using t True assms(3) by (simp add: ip_text_def)
    then have "map decimal (ipv4_groups (ip_value a)) = map decimal (ipv4_groups (ip_value b))"
      using s by metis
    then have "ipv4_groups (ip_value a) = ipv4_groups (ip_value b)" using map_inj_eq decimal_inj by blast
    then show ?thesis using ipv4_groups_eq True assms(1-3) by (simp add: ip_ok_def max_prefixlen_def)
  next
    case False
    have ok: "\<forall>h \<in> set (map hex (ipv6_groups v)). h \<noteq> [] \<and> CHR '':'' \<notin> set h" for v
      by (auto simp: ipv6_groups_def hex_def colon_hex [unfolded hex_def])
    have "length (map hex (ipv6_groups v)) = 8" for v by (simp add: ipv6_groups_def)
    then have e: "expand_hextets (compress_hextets (map hex (ipv6_groups v))) = map hex (ipv6_groups v)" for v
      using ok by (rule expand_compress)
    have "compress_hextets (map hex (ipv6_groups (ip_value a))) = compress_hextets (map hex (ipv6_groups (ip_value b)))"
      using t False assms(3) by (simp add: ip_text_def)
    then have "map hex (ipv6_groups (ip_value a)) = map hex (ipv6_groups (ip_value b))" using e by metis
    moreover have "\<forall>x \<in> set (ipv6_groups v). 0 \<le> x" for v by (auto simp: ipv6_groups_def)
    ultimately have "ipv6_groups (ip_value a) = ipv6_groups (ip_value b)" using map_inj_eq [of hex] hex_inj by blast
    then show ?thesis using ipv6_groups_eq False assms(1-3) by (auto simp: ip_ok_def max_prefixlen_def)
  qed
  then show ?thesis using assms(3) by (cases a; cases b) simp
qed

lemma netmask_inj:
  assumes "ip_text (netmask v p) = ip_text (netmask v q)" and "v \<in> {4, 6}" "p \<le> max_prefixlen v" "q \<le> max_prefixlen v"
  shows "p = q"
proof -
  have ok: "ip_ok (netmask v r)" for r
  proof -
    have "(2 :: int) ^ (max_prefixlen v - r) \<le> 2 ^ max_prefixlen v" by (rule power_increasing) simp_all
    then show ?thesis using assms(2) by (simp add: ip_ok_def netmask_def)
  qed
  have "netmask v p = netmask v q" by (rule ip_text_inj [OF ok ok _ assms(1)]) (simp add: netmask_def)
  then have "(2 :: int) ^ (max_prefixlen v - p) = 2 ^ (max_prefixlen v - q)" by (simp add: netmask_def)
  then have "max_prefixlen v - p = max_prefixlen v - q" by (simp add: power_inject_exp)
  with assms(3,4) show ?thesis by simp
qed

lemma net_match_inj:
  assumes "net_ok m" "net_ok n" "net_version m = net_version n"
    and "match_ip_masked (net_match m) = match_ip_masked (net_match n)"
  shows "m = n"
proof -
  have "network_addr m = network_addr n"
    using assms by (intro ip_text_inj) (auto simp: net_ok_def net_match_def network_addr_def)
  moreover have "net_prefixlen m = net_prefixlen n"
    using assms by (intro netmask_inj [of "net_version m"]) (auto simp: net_ok_def net_match_def ip_ok_def network_addr_def)
  ultimately show ?thesis by (cases m; cases n) (simp add: network_addr_def)
qed

end
