(* ===== verification/Route.thy ===== *)
theory Route imports Output IPText begin

text \<open>
  The route managers of \<^verbatim>\<open>faucet/valve_route.py\<close>: the rules for the controller's addresses (VIPs), the
  routes of the VLANs and the flows of the FIB, the resolution of next hops, and the packets the
  controller answers. A router is the class of \<^verbatim>\<open>faucet/router.py\<close>.

  One record \<open>route_mgr\<close> stands for both subclasses, \<open>rm_ipv\<close> tells which. A VLAN is an object
  that several components share: \<open>vlan_heap\<close> maps the VID to the VLAN, and a reference to a VLAN is its VID
  (the anonymous VLAN of global routing is only its VID). A set of VLANs is a list without repeats.
\<close>

section \<open>The manager\<close>

record router =
  rt_vlans :: "int list"
  rt_vip_map_by_ipv :: "(int, (ipnet, int \<times> ipinterface) dict) dict"

text \<open>
  What comes from the libraries: \<^verbatim>\<open>random\<close>, and the longest prefix match of \<^verbatim>\<open>pytricia\<close>: the value of
  the longest of the networks that hold an address.
\<close>

record routelib =
  rl_randint :: "int \<Rightarrow> int \<Rightarrow> int"
  rl_shuffle :: "ipaddr list \<Rightarrow> ipaddr list"
  rl_lpm :: "(ipnet, int \<times> ipinterface) dict \<Rightarrow> ipaddr \<Rightarrow> (int \<times> ipinterface) option"

text \<open>What the manager reads of the stack manager.\<close>

record stack_view =
  sk_is_root :: bool
  sk_away_ports :: "port list"
  sk_inactive_away_ports :: "port list"
  sk_pruned_away_ports :: "port list"
  sk_chosen_towards_port :: "port option"

record route_mgr =
  rm_ipv :: int
  rm_active :: bool
  rm_global_vlan :: int
  rm_neighbor_timeout :: int
  rm_max_hosts_per_resolve_cycle :: int
  rm_max_host_fib_retry_count :: int
  rm_max_resolve_backoff_time :: int
  rm_proactive_learn :: bool
  rm_dec_ttl :: bool
  rm_multi_out :: bool
  rm_fib_table :: valve_table
  rm_vip_table :: valve_table
  rm_pipeline :: pipeline
  rm_route_priority :: int
  rm_routers :: "(string, router) dict"
  rm_stack :: "stack_view option"

type_synonym vlan_heap = "int \<Rightarrow> vlan"

definition ETH_TYPE :: "lib \<Rightarrow> route_mgr \<Rightarrow> int" where
  "ETH_TYPE L rm = (if rm_ipv rm = 4 then ETH_TYPE_IP (lib_ofp L) else ETH_TYPE_IPV6 (lib_ofp L))"

definition ICMP_TYPE :: "lib \<Rightarrow> route_mgr \<Rightarrow> int" where
  "ICMP_TYPE L rm = (if rm_ipv rm = 4 then IPPROTO_ICMP (lib_ofp L) else IPPROTO_ICMPV6 (lib_ofp L))"

definition ICMP6_ECHO_REQ_SIZE :: nat where "ICMP6_ECHO_REQ_SIZE = 8 + 128"

definition VLAN_ICMP6_ECHO_REQ_SIZE :: nat where
  "VLAN_ICMP6_ECHO_REQ_SIZE = ETH_VLAN_HEADER_SIZE + IPV6_HEADER_SIZE + ICMP6_ECHO_REQ_SIZE"

definition ICMP_SIZE :: "route_mgr \<Rightarrow> int" where
  "ICMP_SIZE rm = int (if rm_ipv rm = 4 then VLAN_ICMP_ECHO_REQ_SIZE else VLAN_ICMP6_ECHO_REQ_SIZE)"

definition CONTROL_ETH_TYPES :: "lib \<Rightarrow> route_mgr \<Rightarrow> int list" where
  "CONTROL_ETH_TYPES L rm =
     (if rm_ipv rm = 4 then [ETH_TYPE_IP (lib_ofp L), ETH_TYPE_ARP (lib_ofp L)] else [ETH_TYPE_IPV6 (lib_ofp L)])"

definition router_vip_map :: "routelib \<Rightarrow> router \<Rightarrow> ipaddr \<Rightarrow> (int \<times> ipinterface) option" where
  "router_vip_map R r ipa =
     (case dict_get (rt_vip_map_by_ipv r) (ip_version ipa) of None \<Rightarrow> None | Some d \<Rightarrow> rl_lpm R d ipa)"

definition add_router_vip :: "int \<Rightarrow> ipinterface \<Rightarrow> router \<Rightarrow> router" where
  "add_router_vip vid vip r =
     (let ipv = ip_version (if_ip vip);
          d = (case dict_get (rt_vip_map_by_ipv r) ipv of None \<Rightarrow> [] | Some d \<Rightarrow> d)
      in r\<lparr>rt_vip_map_by_ipv := dict_set ipv (dict_set (if_network vip) (vid, vip) d) (rt_vip_map_by_ipv r)\<rparr>)"

definition router_finalize :: "vlan_heap \<Rightarrow> router \<Rightarrow> router" where
  "router_finalize h r =
     foldl (\<lambda>r vid. foldl (\<lambda>r vip. add_router_vip vid vip r) r (v_faucet_vips (h vid))) r (rt_vlans r)"

definition global_routing :: "route_mgr \<Rightarrow> bool" where
  "global_routing rm \<longleftrightarrow> rm_global_vlan rm \<noteq> 0 \<and> length (rm_routers rm) = 1"

definition router_for_vlan :: "route_mgr \<Rightarrow> int \<Rightarrow> router option" where
  "router_for_vlan rm vid = find (\<lambda>r. vid \<in> set (rt_vlans r)) (dict_values (rm_routers rm))"

definition routed_vlans :: "route_mgr \<Rightarrow> int \<Rightarrow> int list" where
  "routed_vlans rm vid =
     (if global_routing rm then [rm_global_vlan rm]
      else foldl (\<lambda>vlans r. if vid \<in> set (rt_vlans r) then foldl (\<lambda>vs x. list_insert x vs) vlans (rt_vlans r) else vlans)
             [vid] (dict_values (rm_routers rm)))"

section \<open>Matches, priorities and actions\<close>

definition host_net :: "ipaddr \<Rightarrow> ipnet" where
  "host_net ipa =
     \<lparr>net_version = ip_version ipa, net_address = ip_value ipa, net_prefixlen = max_prefixlen (ip_version ipa)\<rparr>"

definition host_ip_to_host_int :: "ipaddr \<Rightarrow> ipinterface" where
  "host_ip_to_host_int ipa = \<lparr>if_ip = ipa, if_prefixlen = max_prefixlen (ip_version ipa)\<rparr>"

definition host_from_faucet_vip :: "ipinterface \<Rightarrow> ipinterface" where
  "host_from_faucet_vip vip = host_ip_to_host_int (if_ip vip)"

definition route_match :: "lib \<Rightarrow> route_mgr \<Rightarrow> int \<Rightarrow> ipmatch \<Rightarrow> match_args" where
  "route_match L rm vid ip_dst =
     no_match\<lparr>ma_vlan := Some vid, ma_eth_type := Some (ETH_TYPE L rm), ma_nw_dst := Some ip_dst\<rparr>"

definition route_priority :: "route_mgr \<Rightarrow> ipnet \<Rightarrow> int" where
  "route_priority rm ip_dst = rm_route_priority rm + int (net_prefixlen ip_dst)"

definition nexthop_actions :: "lib \<Rightarrow> route_mgr \<Rightarrow> int \<Rightarrow> vlan \<Rightarrow> err + action list" where
  "nexthop_actions L rm eth_dst v =
     bindE (if rm_routers rm \<noteq> [] then bindE (vt_set_vlan_vid (lib_ofp L) (lib_conv L) (v_vid v)) (\<lambda>a. Inr [a]) else Inr []) (\<lambda>vid_acts.
     bindE (vt_set_field (lib_conv L) ''eth_src'' (MText (v_faucet_mac v))) (\<lambda>set_src.
     bindE (vt_set_field (lib_conv L) ''eth_dst'' (MText (lib_mac_text L eth_dst))) (\<lambda>set_dst.
     Inr ((if rm_dec_ttl rm then [dec_ip_ttl] else []) @ vid_acts @ [set_src, set_dst]))))"

definition goto_vip :: "route_mgr \<Rightarrow> err + instruction" where
  "goto_vip rm = vt_goto (rm_fib_table rm) (rm_vip_table rm)"

text \<open>A flow of the FIB that passes packets on to the VIP table.\<close>

definition fib_to_vip :: "lib \<Rightarrow> route_mgr \<Rightarrow> int \<Rightarrow> ipmatch \<Rightarrow> int \<Rightarrow> err + ofmsg" where
  "fib_to_vip L rm vid ip_dst priority =
     bindE (goto_vip rm) (\<lambda>goto.
     tbl_flowmod L (rm_fib_table rm) (route_match L rm vid ip_dst)
       (flow_defaults\<lparr>fa_priority := Some priority, fa_inst := [goto]\<rparr>))"

definition fib_flowdel :: "lib \<Rightarrow> route_mgr \<Rightarrow> match_args \<Rightarrow> int option \<Rightarrow> bool \<Rightarrow> err + ofmsg" where
  "fib_flowdel L rm ma priority strict = tbl_flowdel L (rm_fib_table rm) ma priority (OFPP_ANY (lib_ofp L)) strict"

definition vip_flowdel :: "lib \<Rightarrow> route_mgr \<Rightarrow> match_args \<Rightarrow> int option \<Rightarrow> bool \<Rightarrow> err + ofmsg" where
  "vip_flowdel L rm ma priority strict = tbl_flowdel L (rm_vip_table rm) ma priority (OFPP_ANY (lib_ofp L)) strict"

definition vip_to_controller :: "lib \<Rightarrow> route_mgr \<Rightarrow> match_args \<Rightarrow> int \<Rightarrow> int \<Rightarrow> err + ofmsg" where
  "vip_to_controller L rm ma priority max_len = tbl_flowcontroller L (rm_vip_table rm) ma priority [] max_len"

definition vip_flowmod :: "lib \<Rightarrow> route_mgr \<Rightarrow> match_args \<Rightarrow> int \<Rightarrow> instruction list \<Rightarrow> err + ofmsg" where
  "vip_flowmod L rm ma priority inst =
     tbl_flowmod L (rm_vip_table rm) ma (flow_defaults\<lparr>fa_priority := Some priority, fa_inst := inst\<rparr>)"

definition controller_and_flood :: "lib \<Rightarrow> route_mgr \<Rightarrow> instruction list" where
  "controller_and_flood L rm = accept_to_l2_forwarding (rm_pipeline rm) [output_controller (lib_ofp L) MAX_PACKET_IN_BYTES]"

section \<open>The rules for the VIPs of a VLAN\<close>

definition icmp_match :: "lib \<Rightarrow> route_mgr \<Rightarrow> match_args" where
  "icmp_match L rm = no_match\<lparr>ma_eth_type := Some (ETH_TYPE L rm), ma_nw_proto := Some (ICMP_TYPE L rm)\<rparr>"

definition ip_match :: "lib \<Rightarrow> route_mgr \<Rightarrow> match_args" where
  "ip_match L rm = no_match\<lparr>ma_eth_type := Some (ETH_TYPE L rm)\<rparr>"

text \<open>The rules that learn hosts from their packets.\<close>

definition add_learn_rules :: "lib \<Rightarrow> route_mgr \<Rightarrow> int \<Rightarrow> string \<Rightarrow> int \<Rightarrow> ipinterface \<Rightarrow> err + ofmsg list" where
  "add_learn_rules L rm vid faucet_mac priority faucet_vip =
     bindE (mapE (\<lambda>routed_vlan. fib_to_vip L rm routed_vlan (interface_match faucet_vip)
                    (rm_route_priority rm + int (if_prefixlen faucet_vip))) (routed_vlans rm vid)) (\<lambda>connected.
     bindE (vip_to_controller L rm ((icmp_match L rm)\<lparr>ma_eth_dst := Some faucet_mac\<rparr>) (priority - 1) (ICMP_SIZE rm)) (\<lambda>m1.
     bindE (vip_flowmod L rm (icmp_match L rm) (priority - 2) (controller_and_flood L rm)) (\<lambda>m2.
     bindE (vip_to_controller L rm ((ip_match L rm)\<lparr>ma_eth_dst := Some faucet_mac\<rparr>) (priority - 3) MAX_PACKET_IN_BYTES) (\<lambda>m3.
     bindE (vip_flowmod L rm (ip_match L rm) (priority - 4) (controller_and_flood L rm)) (\<lambda>m4.
     Inr (connected @ [m1, m2, m3, m4]))))))"

definition global_vlan_actions :: "lib \<Rightarrow> route_mgr \<Rightarrow> vlan \<Rightarrow> err + action list option" where
  "global_vlan_actions L rm v =
     (if global_routing rm then
        bindE (vt_set_field (lib_conv L) ''eth_dst'' (MText (int_in_mac (v_faucet_mac v) (v_vid v)))) (\<lambda>set_dst.
        bindE (vt_set_vlan_vid (lib_ofp L) (lib_conv L) (rm_global_vlan rm)) (\<lambda>set_vid. Inr (Some [set_dst, set_vid])))
      else Inr None)"

definition fib_vid :: "route_mgr \<Rightarrow> vlan \<Rightarrow> int" where
  "fib_vid rm v = (if global_routing rm then rm_global_vlan rm else v_vid v)"

definition add_faucet_fib_to_vip ::
    "lib \<Rightarrow> route_mgr \<Rightarrow> vlan \<Rightarrow> int \<Rightarrow> ipinterface \<Rightarrow> ipinterface \<Rightarrow> err + ofmsg list" where
  "add_faucet_fib_to_vip L rm v priority faucet_vip faucet_vip_host =
     bindE (global_vlan_actions L rm v) (\<lambda>actions.
     bindE (select_packets L (rm_pipeline rm) (rm_fib_table rm)
              (no_match\<lparr>ma_eth_type := Some (ETH_TYPE L rm), ma_eth_dst := Some (v_faucet_mac v), ma_vlan := Some (v_vid v)\<rparr>)
              actions 0) (\<lambda>sel.
     bindE (fib_to_vip L rm (fib_vid rm v) (interface_match faucet_vip_host) priority) (\<lambda>host.
     bindE (if rm_proactive_learn rm \<and> \<not> is_link_local (if_ip faucet_vip)
            then add_learn_rules L rm (fib_vid rm v) (v_faucet_mac v) priority faucet_vip else Inr []) (\<lambda>learn.
     Inr (sel @ [host] @ learn)))))"

text \<open>IPv6 adds the flow of the broadcast address of the VIP's network.\<close>

definition vip_broadcast :: "ipinterface \<Rightarrow> ipinterface" where
  "vip_broadcast faucet_vip = host_ip_to_host_int (broadcast_addr (if_network faucet_vip))"

definition add_faucet_fib_to_vip_v6 ::
    "lib \<Rightarrow> route_mgr \<Rightarrow> vlan \<Rightarrow> int \<Rightarrow> ipinterface \<Rightarrow> ipinterface \<Rightarrow> err + ofmsg list" where
  "add_faucet_fib_to_vip_v6 L rm v priority faucet_vip faucet_vip_host =
     bindE (add_faucet_fib_to_vip L rm v priority faucet_vip faucet_vip_host) (\<lambda>ofmsgs.
     bindE (fib_to_vip L rm (fib_vid rm v) (interface_match (vip_broadcast faucet_vip)) priority) (\<lambda>m.
     Inr (ofmsgs @ [m])))"

text \<open>The rules for ARP.\<close>

definition arp_vip_match :: "lib \<Rightarrow> ipinterface \<Rightarrow> match_args" where
  "arp_vip_match L faucet_vip_host =
     no_match\<lparr>ma_eth_type := Some (ETH_TYPE_ARP (lib_ofp L)), ma_eth_dst := Some BROADCAST_STR,
              ma_nw_dst := Some (interface_match faucet_vip_host)\<rparr>"

definition add_faucet_vip_nd_v4 :: "lib \<Rightarrow> route_mgr \<Rightarrow> vlan \<Rightarrow> int \<Rightarrow> ipinterface \<Rightarrow> ipinterface \<Rightarrow> err + ofmsg list" where
  "add_faucet_vip_nd_v4 L rm v priority faucet_vip faucet_vip_host =
     (let arp = no_match\<lparr>ma_eth_type := Some (ETH_TYPE_ARP (lib_ofp L))\<rparr>
      in bindE (select_packets L (rm_pipeline rm) (rm_vip_table rm) (arp\<lparr>ma_vlan := Some (v_vid v)\<rparr>) None 0) (\<lambda>sel.
         bindE (vip_to_controller L rm (arp_vip_match L faucet_vip_host) priority (int VLAN_ARP_PKT_SIZE)) (\<lambda>m1.
         bindE (vip_to_controller L rm (arp\<lparr>ma_eth_dst := Some (v_faucet_mac v)\<rparr>) priority (int VLAN_ARP_PKT_SIZE)) (\<lambda>m2.
         bindE (vip_flowmod L rm arp (priority - 1) (accept_to_l2_forwarding (rm_pipeline rm) [])) (\<lambda>m3.
         Inr (sel @ [m1, m2, m3]))))))"

text \<open>The rules for neighbour discovery.\<close>

definition nd_mcast :: "ipinterface \<Rightarrow> string" where
  "nd_mcast faucet_vip = ipv6_link_eth_mcast (ipv6_solicited_node_from_ucast (if_ip faucet_vip))"

definition icmpv6_match :: "lib \<Rightarrow> string \<Rightarrow> int \<Rightarrow> match_args" where
  "icmpv6_match L eth_dst icmpv6_type =
     no_match\<lparr>ma_eth_type := Some (ETH_TYPE_IPV6 (lib_ofp L)), ma_eth_dst := Some eth_dst,
              ma_nw_proto := Some (IPPROTO_ICMPV6 (lib_ofp L)), ma_icmpv6_type := Some icmpv6_type\<rparr>"

definition add_faucet_vip_nd_v6 :: "lib \<Rightarrow> route_mgr \<Rightarrow> vlan \<Rightarrow> int \<Rightarrow> ipinterface \<Rightarrow> ipinterface \<Rightarrow> err + ofmsg list" where
  "add_faucet_vip_nd_v6 L rm v priority faucet_vip faucet_vip_host =
     (let K = lib_ofp L;
          select = (\<lambda>eth_dst. select_packets L (rm_pipeline rm) (rm_vip_table rm)
            (no_match\<lparr>ma_eth_type := Some (ETH_TYPE L rm), ma_eth_dst := Some eth_dst, ma_vlan := Some (v_vid v)\<rparr>) None 0)
      in bindE (if is_link_local (if_ip faucet_vip) then
                  bindE (select IPV6_ALL_ROUTERS_MCAST) (\<lambda>sel.
                  bindE (vip_flowmod L rm (icmpv6_match L IPV6_ALL_ROUTERS_MCAST (ND_ROUTER_SOLICIT K)) priority
                           (controller_and_flood L rm)) (\<lambda>m. Inr (sel @ [m])))
                else Inr []) (\<lambda>ra.
         bindE (vip_to_controller L rm (icmpv6_match L (v_faucet_mac v) (ICMPV6_ECHO_REQUEST K)) priority (ICMP_SIZE rm)) (\<lambda>m1.
         bindE (vip_to_controller L rm (icmpv6_match L (v_faucet_mac v) (ND_NEIGHBOR_ADVERT K)) priority (ICMP_SIZE rm)) (\<lambda>m2.
         bindE (select (nd_mcast faucet_vip)) (\<lambda>sel.
         bindE (vip_flowmod L rm (icmpv6_match L (nd_mcast faucet_vip) (ND_NEIGHBOR_SOLICIT K)) priority
                  (controller_and_flood L rm)) (\<lambda>m3.
         Inr (ra @ [m1, m2] @ sel @ [m3])))))))"

definition add_vip :: "lib \<Rightarrow> route_mgr \<Rightarrow> vlan \<Rightarrow> ipinterface \<Rightarrow> err + ofmsg list" where
  "add_vip L rm v faucet_vip =
     (let faucet_vip_host = host_from_faucet_vip faucet_vip;
          priority = rm_route_priority rm + int (max_prefixlen (ip_version (if_ip faucet_vip)))
      in bindE (if rm_ipv rm = 4 then add_faucet_vip_nd_v4 L rm v priority faucet_vip faucet_vip_host
                else add_faucet_vip_nd_v6 L rm v priority faucet_vip faucet_vip_host) (\<lambda>nd.
         bindE (if rm_ipv rm = 4 then add_faucet_fib_to_vip L rm v priority faucet_vip faucet_vip_host
                else add_faucet_fib_to_vip_v6 L rm v priority faucet_vip faucet_vip_host) (\<lambda>fib.
         Inr (nd @ fib))))"

text \<open>A warm start reinstalls the VIP networks of the other VLANs of the router.\<close>

definition connected_route :: "lib \<Rightarrow> route_mgr \<Rightarrow> vlan \<Rightarrow> ipinterface \<Rightarrow> err + ofmsg list" where
  "connected_route L rm v faucet_vip =
     (if rm_proactive_learn rm \<and> \<not> is_link_local (if_ip faucet_vip)
      then bindE (fib_to_vip L rm (v_vid v) (interface_match faucet_vip)
                    (rm_route_priority rm + int (if_prefixlen faucet_vip))) (\<lambda>m. Inr [m])
      else Inr [])"

definition route_add_vlan :: "lib \<Rightarrow> route_mgr \<Rightarrow> vlan_heap \<Rightarrow> int \<Rightarrow> bool \<Rightarrow> err + ofmsg list" where
  "route_add_vlan L rm h vid cold_start =
     bindE (mapE (add_vip L rm (h vid)) (faucet_vips_by_ipv (h vid) (rm_ipv rm))) (\<lambda>vips.
     bindE (if \<not> cold_start \<and> \<not> global_routing rm
            then mapE (\<lambda>u. bindE (mapE (connected_route L rm (h vid)) (faucet_vips_by_ipv (h u) (rm_ipv rm))) (\<lambda>ms. Inr (concat ms)))
                   (filter (\<lambda>u. u \<noteq> vid) (routed_vlans rm vid))
            else Inr []) (\<lambda>connected.
     Inr (concat vips @ concat connected)))"

section \<open>Removing a VLAN\<close>

text \<open>Whether a MAC address of the datapath serves a VIP that is not link local.\<close>

definition mac_global_vip_present :: "route_mgr \<Rightarrow> vlan list \<Rightarrow> (string, bool) dict" where
  "mac_global_vip_present rm dp_vlans =
     foldl (\<lambda>d u. let vips = faucet_vips_by_ipv u (rm_ipv rm); mac = v_faucet_mac u
                 in if vips = [] then d
                    else if \<exists>vip \<in> set vips. \<not> is_link_local (if_ip vip) then dict_set mac True d
                    else if dict_get d mac = None then dict_set mac False d else d)
       [] dp_vlans"

definition del_faucet_mac :: "lib \<Rightarrow> route_mgr \<Rightarrow> string \<Rightarrow> vlan list \<Rightarrow> err + ofmsg list" where
  "del_faucet_mac L rm faucet_mac dp_vlans =
     (let top = rm_route_priority rm + int (max_prefixlen (rm_ipv rm)); present = mac_global_vip_present rm dp_vlans
      in bindE (case dict_get present faucet_mac of
                  None \<Rightarrow> mapE (\<lambda>eth_type. vip_flowdel L rm
                            (no_match\<lparr>ma_eth_dst := Some faucet_mac, ma_eth_type := Some eth_type\<rparr>) None False)
                            (CONTROL_ETH_TYPES L rm)
                | Some True \<Rightarrow> Inr []
                | Some False \<Rightarrow>
                    bindE (vip_flowdel L rm ((icmp_match L rm)\<lparr>ma_eth_dst := Some faucet_mac\<rparr>) (Some (top - 1)) True) (\<lambda>m1.
                    bindE (vip_flowdel L rm ((ip_match L rm)\<lparr>ma_eth_dst := Some faucet_mac\<rparr>) (Some (top - 3)) True) (\<lambda>m2.
                    Inr [m1, m2]))) (\<lambda>msgs1.
         bindE (if True \<notin> set (dict_values present) then
                  bindE (vip_flowdel L rm (icmp_match L rm) (Some (top - 2)) True) (\<lambda>m3.
                  bindE (vip_flowdel L rm (ip_match L rm) (Some (top - 4)) True) (\<lambda>m4. Inr [m3, m4]))
                else Inr []) (\<lambda>msgs2. Inr (msgs1 @ msgs2))))"

text \<open>The VIPs of the datapath, their host routes, and the VIPs of the other VLANs of the router.\<close>

definition dp_faucet_vips :: "route_mgr \<Rightarrow> vlan list \<Rightarrow> ipinterface list" where
  "dp_faucet_vips rm dp_vlans = concat (map (\<lambda>u. faucet_vips_by_ipv u (rm_ipv rm)) dp_vlans)"

definition del_faucet_vip :: "lib \<Rightarrow> route_mgr \<Rightarrow> vlan_heap \<Rightarrow> vlan \<Rightarrow> ipinterface \<Rightarrow> vlan list \<Rightarrow> err + ofmsg list" where
  "del_faucet_vip L rm h v faucet_vip dp_vlans =
     (let vips = dp_faucet_vips rm dp_vlans; host = host_from_faucet_vip faucet_vip;
          proactive = rm_proactive_learn rm \<and> \<not> is_link_local (if_ip faucet_vip);
          del = (\<lambda>vid ip_dst. fib_flowdel L rm (route_match L rm vid (interface_match ip_dst)) None False)
      in if global_routing rm then
           bindE (if host \<notin> set (map host_from_faucet_vip vips)
                  then bindE (del (rm_global_vlan rm) host) (\<lambda>m. Inr [m]) else Inr []) (\<lambda>msgs1.
           bindE (if proactive \<and> faucet_vip \<notin> set vips
                  then bindE (del (rm_global_vlan rm) faucet_vip) (\<lambda>m. Inr [m]) else Inr []) (\<lambda>msgs2.
           Inr (msgs1 @ msgs2)))
         else if proactive \<and> (\<forall>u \<in> set (routed_vlans rm (v_vid v)). u \<noteq> v_vid v \<longrightarrow> faucet_vip \<notin> set (v_faucet_vips (h u)))
         then mapE (\<lambda>u. del u faucet_vip) (routed_vlans rm (v_vid v))
         else Inr [])"

section \<open>The cache of next hops\<close>

definition vlan_nexthop_cache :: "route_mgr \<Rightarrow> vlan \<Rightarrow> (ipaddr, nexthop) dict" where
  "vlan_nexthop_cache rm v = neigh_cache_by_ipv v (rm_ipv rm)"

definition vlan_nexthop_cache_entry :: "route_mgr \<Rightarrow> vlan \<Rightarrow> ipaddr \<Rightarrow> nexthop option" where
  "vlan_nexthop_cache_entry rm v ip_gw = dict_get (vlan_nexthop_cache rm v) ip_gw"

definition set_nexthop_cache :: "route_mgr \<Rightarrow> (ipaddr, nexthop) dict \<Rightarrow> vlan \<Rightarrow> vlan" where
  "set_nexthop_cache rm d v = v\<lparr>v_dyn_neigh_cache := dict_set (rm_ipv rm) d (v_dyn_neigh_cache v)\<rparr>"

definition put_nexthop :: "route_mgr \<Rightarrow> ipaddr \<Rightarrow> nexthop \<Rightarrow> vlan \<Rightarrow> vlan" where
  "put_nexthop rm ip_gw nh v = set_nexthop_cache rm (dict_set ip_gw nh (vlan_nexthop_cache rm v)) v"

definition update_nexthop_cache :: "route_mgr \<Rightarrow> int \<Rightarrow> int option \<Rightarrow> port option \<Rightarrow> ipaddr \<Rightarrow> vlan \<Rightarrow> vlan" where
  "update_nexthop_cache rm now eth_src port ip_gw v = put_nexthop rm ip_gw (new_nexthop eth_src port now) v"

definition del_vlan_nexthop_cache_entry :: "route_mgr \<Rightarrow> ipaddr \<Rightarrow> vlan \<Rightarrow> err + vlan" where
  "del_vlan_nexthop_cache_entry rm ip_gw v =
     bindE (dict_delE ip_gw (vlan_nexthop_cache rm v)) (\<lambda>d. Inr (set_nexthop_cache rm d v))"

definition cached_nexthop_eth_dst :: "route_mgr \<Rightarrow> vlan \<Rightarrow> ipaddr \<Rightarrow> int option" where
  "cached_nexthop_eth_dst rm v ip_gw =
     (case vlan_nexthop_cache_entry rm v ip_gw of None \<Rightarrow> None | Some nh \<Rightarrow> nh_eth_src nh)"

definition nexthop_dead :: "route_mgr \<Rightarrow> nexthop \<Rightarrow> bool" where
  "nexthop_dead rm nh = dead nh (rm_max_host_fib_retry_count rm)"

definition stateful_gw :: "vlan \<Rightarrow> ipaddr \<Rightarrow> bool" where
  "stateful_gw v dst_ip \<longleftrightarrow> \<not> is_link_local dst_ip \<or> ip_dsts_for_ip_gw v dst_ip \<noteq> []"

section \<open>Routes\<close>

text \<open>
  \<open>is_faucet_vip\<close> of a network: \<^verbatim>\<open>ipaddress\<close> defines that no network is in a network, so it finds no VIP.
\<close>

definition net_in_net :: "ipnet \<Rightarrow> ipnet \<Rightarrow> bool" where
  "net_in_net other n = False"

definition is_faucet_vip_net :: "vlan \<Rightarrow> ipnet \<Rightarrow> bool" where
  "is_faucet_vip_net v n = (find (\<lambda>vip. net_in_net n (if_network vip)) (v_faucet_vips v) \<noteq> None)"

definition del_route_flows :: "lib \<Rightarrow> route_mgr \<Rightarrow> vlan \<Rightarrow> ipnet \<Rightarrow> err + ofmsg list" where
  "del_route_flows L rm v ip_dst =
     mapE (\<lambda>routed_vlan. fib_flowdel L rm (route_match L rm routed_vlan (net_match ip_dst))
             (Some (route_priority rm ip_dst)) True) (routed_vlans rm (v_vid v))"

definition add_resolved_route :: "lib \<Rightarrow> route_mgr \<Rightarrow> vlan \<Rightarrow> int \<Rightarrow> bool \<Rightarrow> ipnet \<Rightarrow> err + ofmsg list" where
  "add_resolved_route L rm v eth_dst is_updated ip_dst =
     bindE (if is_updated then del_route_flows L rm v ip_dst else Inr []) (\<lambda>dels.
     bindE (nexthop_actions L rm eth_dst v) (\<lambda>actions.
     bindE (mapE (\<lambda>routed_vlan. tbl_flowmod L (rm_fib_table rm) (route_match L rm routed_vlan (net_match ip_dst))
                    (flow_defaults\<lparr>fa_priority := Some (route_priority rm ip_dst),
                       fa_inst := accept_to_l2_forwarding (rm_pipeline rm) actions\<rparr>))
              (routed_vlans rm (v_vid v))) (\<lambda>adds. Inr (dels @ adds))))"

definition update_nexthop ::
    "lib \<Rightarrow> route_mgr \<Rightarrow> int \<Rightarrow> port \<Rightarrow> int \<Rightarrow> ipaddr \<Rightarrow> vlan \<Rightarrow> err + ofmsg list \<times> vlan" where
  "update_nexthop L rm now port eth_src resolved_ip_gw v =
     (let cached_eth_dst = cached_nexthop_eth_dst rm v resolved_ip_gw
      in bindE (if cached_eth_dst \<noteq> Some eth_src
                then mapE (add_resolved_route L rm v eth_src (cached_eth_dst \<noteq> None)) (ip_dsts_for_ip_gw v resolved_ip_gw)
                else Inr []) (\<lambda>msgs.
         Inr (concat msgs, update_nexthop_cache rm now (Some eth_src) (Some port) resolved_ip_gw v)))"

definition route_del_route :: "lib \<Rightarrow> route_mgr \<Rightarrow> ipnet \<Rightarrow> vlan \<Rightarrow> err + ofmsg list \<times> vlan" where
  "route_del_route L rm ip_dst v =
     (if is_faucet_vip_net v ip_dst then Inr ([], v)
      else if dict_get (routes_by_ipv v (rm_ipv rm)) ip_dst = None then Inr ([], v)
      else bindE (del_route ip_dst v) (\<lambda>v. bindE (del_route_flows L rm v ip_dst) (\<lambda>msgs. Inr (msgs, v))))"

definition del_host_fib_route :: "lib \<Rightarrow> route_mgr \<Rightarrow> ipaddr \<Rightarrow> vlan \<Rightarrow> err + ofmsg list \<times> vlan" where
  "del_host_fib_route L rm host_ip v = route_del_route L rm (host_net host_ip) v"

definition expire_gateway_flows :: "lib \<Rightarrow> route_mgr \<Rightarrow> ipaddr \<Rightarrow> nexthop \<Rightarrow> vlan \<Rightarrow> err + ofmsg list \<times> vlan" where
  "expire_gateway_flows L rm ip_gw nh v =
     bindE (del_vlan_nexthop_cache_entry rm ip_gw v) (\<lambda>v.
     bindE (del_host_fib_route L rm ip_gw v) (\<lambda>(expire_flows, v).
     bindE (mapE (del_route_flows L rm v) (ip_dsts_for_ip_gw v ip_gw)) (\<lambda>msgs.
     Inr (if nh_port nh = None then [] else expire_flows @ concat msgs, v))))"

definition expire_nexthops :: "lib \<Rightarrow> route_mgr \<Rightarrow> (ipaddr \<times> nexthop) list \<Rightarrow> vlan \<Rightarrow> err + ofmsg list \<times> vlan" where
  "expire_nexthops L rm dead_nexthops v =
     foldE (\<lambda>(ip_gw, nh) (ofmsgs, v). bindE (expire_gateway_flows L rm ip_gw nh v) (\<lambda>(msgs, v). Inr (ofmsgs @ msgs, v)))
       dead_nexthops ([], v)"

definition expire_vlan_nexthops :: "lib \<Rightarrow> route_mgr \<Rightarrow> vlan \<Rightarrow> err + ofmsg list \<times> vlan" where
  "expire_vlan_nexthops L rm v = expire_nexthops L rm (vlan_nexthop_cache rm v) v"

definition expire_port_nexthops :: "lib \<Rightarrow> route_mgr \<Rightarrow> port \<Rightarrow> vlan_heap \<Rightarrow> err + ofmsg list \<times> vlan_heap" where
  "expire_port_nexthops L rm port h =
     foldE (\<lambda>vid (ofmsgs, h).
         let dead_nexthops = filter (\<lambda>(_, nh). case nh_port nh of None \<Rightarrow> False | Some p \<Rightarrow> p_number port = p_number p)
                               (vlan_nexthop_cache rm (h vid))
         in bindE (expire_nexthops L rm dead_nexthops (h vid)) (\<lambda>(msgs, v). Inr (ofmsgs @ msgs, h(vid := v))))
       (port_vlans port) ([], h)"

text \<open>
  \<open>del_vlan\<close>. The messages of expiring the next hops are dropped by the code; its effect on the VLAN is kept.
\<close>

definition route_del_vlan_base :: "lib \<Rightarrow> route_mgr \<Rightarrow> vlan_heap \<Rightarrow> vlan list \<Rightarrow> vlan \<Rightarrow> err + ofmsg list \<times> vlan" where
  "route_del_vlan_base L rm h dp_vlans v =
     (let vips = faucet_vips_by_ipv v (rm_ipv rm)
      in if vips = [] then Inr ([], v)
         else
           bindE (fib_flowdel L rm (no_match\<lparr>ma_vlan := Some (v_vid v)\<rparr>) None False) (\<lambda>m.
           bindE (del_faucet_mac L rm (v_faucet_mac v) dp_vlans) (\<lambda>mac_msgs.
           bindE (expire_vlan_nexthops L rm v) (\<lambda>(_, v).
           bindE (mapE (\<lambda>vip. del_faucet_vip L rm h v vip dp_vlans) vips) (\<lambda>vip_msgs.
           Inr (m # mac_msgs @ concat vip_msgs, v))))))"

definition del_arp_vip :: "lib \<Rightarrow> route_mgr \<Rightarrow> vlan list \<Rightarrow> ipinterface \<Rightarrow> err + ofmsg list" where
  "del_arp_vip L rm dp_vlans faucet_vip =
     (let host = host_from_faucet_vip faucet_vip
      in if host \<notin> set (map host_from_faucet_vip (dp_faucet_vips rm dp_vlans))
         then bindE (vip_flowdel L rm (arp_vip_match L host) None False) (\<lambda>m. Inr [m]) else Inr [])"

definition del_nd_vip :: "lib \<Rightarrow> route_mgr \<Rightarrow> vlan list \<Rightarrow> ipinterface \<Rightarrow> err + ofmsg list" where
  "del_nd_vip L rm dp_vlans faucet_vip =
     (let vips = dp_faucet_vips rm dp_vlans
      in bindE (if nd_mcast faucet_vip \<notin> set (map nd_mcast vips)
                then bindE (vip_flowdel L rm (icmpv6_match L (nd_mcast faucet_vip) (ND_NEIGHBOR_SOLICIT (lib_ofp L))) None False)
                       (\<lambda>m. Inr [m]) else Inr []) (\<lambda>msgs1.
         bindE (if global_routing rm \<and> vip_broadcast faucet_vip \<notin> set (map vip_broadcast vips)
                then bindE (fib_flowdel L rm (route_match L rm (rm_global_vlan rm) (interface_match (vip_broadcast faucet_vip)))
                              None False) (\<lambda>m. Inr [m]) else Inr []) (\<lambda>msgs2.
         Inr (msgs1 @ msgs2))))"

definition route_del_vlan :: "lib \<Rightarrow> route_mgr \<Rightarrow> vlan_heap \<Rightarrow> vlan list \<Rightarrow> vlan \<Rightarrow> err + ofmsg list \<times> vlan" where
  "route_del_vlan L rm h dp_vlans v =
     bindE (route_del_vlan_base L rm h dp_vlans v) (\<lambda>(ofmsgs, v).
     let vips = faucet_vips_by_ipv v (rm_ipv rm)
     in if vips = [] then Inr (ofmsgs, v)
        else if rm_ipv rm = 4 then bindE (mapE (del_arp_vip L rm dp_vlans) vips) (\<lambda>ms. Inr (ofmsgs @ concat ms, v))
        else
          bindE (if \<exists>vip \<in> set (dp_faucet_vips rm dp_vlans). is_link_local (if_ip vip) then Inr []
                 else bindE (vip_flowdel L rm (icmpv6_match L IPV6_ALL_ROUTERS_MCAST (ND_ROUTER_SOLICIT (lib_ofp L))) None False)
                        (\<lambda>m. Inr [m])) (\<lambda>ra.
          bindE (mapE (del_nd_vip L rm dp_vlans) vips) (\<lambda>ms. Inr (ofmsgs @ ra @ concat ms, v))))"

section \<open>Resolving next hops\<close>

definition gw_resolve_pkt :: "lib \<Rightarrow> pktlib \<Rightarrow> route_mgr \<Rightarrow> int option \<Rightarrow> string \<Rightarrow> string \<Rightarrow> ipaddr \<Rightarrow> ipaddr \<Rightarrow> int list" where
  "gw_resolve_pkt L P rm vid eth_src eth_dst src_ip dst_ip =
     pl_serialize P (if rm_ipv rm = 4 then arp_request (lib_ofp L) vid eth_src eth_dst src_ip dst_ip
                     else nd_request (lib_ofp L) P vid eth_src eth_dst src_ip dst_ip)"

definition gw_respond_pkt :: "lib \<Rightarrow> pktlib \<Rightarrow> route_mgr \<Rightarrow> int option \<Rightarrow> string \<Rightarrow> string \<Rightarrow> ipaddr \<Rightarrow> ipaddr \<Rightarrow> int list" where
  "gw_respond_pkt L P rm vid eth_src eth_dst src_ip dst_ip =
     pl_serialize P (if rm_ipv rm = 4 then arp_reply (lib_ofp L) vid eth_src eth_dst src_ip dst_ip
                     else nd_advert (lib_ofp L) vid eth_src eth_dst src_ip dst_ip)"

definition flood_stack_links :: "lib \<Rightarrow> route_mgr \<Rightarrow> (int option \<Rightarrow> int list) \<Rightarrow> vlan \<Rightarrow> bool \<Rightarrow> ofmsg list" where
  "flood_stack_links L rm pkt_builder v multi_out =
     (case rm_stack rm of
        None \<Rightarrow> []
      | Some sk \<Rightarrow>
          let ports = (if sk_is_root sk
                       then filter (\<lambda>p. \<not> port_in p (sk_inactive_away_ports sk) \<and> \<not> port_in p (sk_pruned_away_ports sk))
                              (sk_away_ports sk)
                       else case sk_chosen_towards_port sk of None \<Rightarrow> [] | Some p \<Rightarrow> [p]);
              running_port_nos = map p_number (filter running ports);
              pkt = pkt_builder (Some (v_vid v));
              shuffled = lib_shuffle L running_port_nos
          in if running_port_nos = [] then []
             else if multi_out then [packetouts (lib_shuffle L) shuffled pkt]
             else map (\<lambda>port_no. packetout (lib_shuffle L) port_no pkt) shuffled)"

definition resolve_gw_on_vlan :: "lib \<Rightarrow> pktlib \<Rightarrow> route_mgr \<Rightarrow> vlan \<Rightarrow> ipinterface \<Rightarrow> ipaddr \<Rightarrow> err + ofmsg list" where
  "resolve_gw_on_vlan L P rm v faucet_vip ip_gw =
     (let builder = (\<lambda>vid. gw_resolve_pkt L P rm vid (v_faucet_mac v) BROADCAST_STR (if_ip faucet_vip) ip_gw);
          stack_ofmsgs = flood_stack_links L rm builder v (rm_multi_out rm)
      in bindE (flood_pkt (lib_shuffle L) builder (rm_multi_out rm) v) (\<lambda>vlan_ofmsgs. Inr (stack_ofmsgs @ vlan_ofmsgs)))"

definition resolve_gw_on_port :: "lib \<Rightarrow> pktlib \<Rightarrow> route_mgr \<Rightarrow> vlan \<Rightarrow> port \<Rightarrow> ipinterface \<Rightarrow> ipaddr \<Rightarrow> string \<Rightarrow> ofmsg" where
  "resolve_gw_on_port L P rm v port faucet_vip ip_gw eth_dst =
     pkt_out_port (lib_shuffle L)
       (\<lambda>vid. gw_resolve_pkt L P rm vid (v_faucet_mac v) eth_dst (if_ip faucet_vip) ip_gw) port v"

text \<open>A next hop with a port has a MAC address; the packet library raises on a missing one.\<close>

definition resolve_gateway_flows ::
    "lib \<Rightarrow> pktlib \<Rightarrow> routelib \<Rightarrow> route_mgr \<Rightarrow> int \<Rightarrow> ipaddr \<Rightarrow> nexthop \<Rightarrow> vlan \<Rightarrow> err + ofmsg list \<times> vlan" where
  "resolve_gateway_flows L P R rm now ip_gw nh v =
     (case vip_map v ip_gw of
        None \<Rightarrow> Inr ([], v)
      | Some faucet_vip \<Rightarrow>
          let v = put_nexthop rm ip_gw (next_retry (rl_randint R) nh now (rm_max_resolve_backoff_time rm)) v
          in if v_targeted_gw_resolution v \<and> nh_last_retry_time nh = None \<and> nh_port nh \<noteq> None
             then (case (nh_port nh, nh_eth_src nh) of
                     (Some port, Some eth_dst) \<Rightarrow>
                       Inr ([resolve_gw_on_port L P rm v port faucet_vip ip_gw (lib_mac_text L eth_dst)], v)
                   | _ \<Rightarrow> Inl TypeError)
             else bindE (resolve_gw_on_vlan L P rm v faucet_vip ip_gw) (\<lambda>msgs. Inr (msgs, v)))"

definition resolve_expire_gateway_flows ::
    "lib \<Rightarrow> pktlib \<Rightarrow> routelib \<Rightarrow> route_mgr \<Rightarrow> int \<Rightarrow> ipaddr \<Rightarrow> nexthop \<Rightarrow> vlan \<Rightarrow> err + ofmsg list \<times> vlan" where
  "resolve_expire_gateway_flows L P R rm now ip_gw nh v =
     (if nexthop_dead rm nh then expire_gateway_flows L rm ip_gw nh v else resolve_gateway_flows L P R rm now ip_gw nh v)"

text \<open>The gateways that are due, those tried least first.\<close>

definition group_unresolved ::
    "route_mgr \<Rightarrow> int \<Rightarrow> (ipaddr \<times> nexthop option) list \<Rightarrow> (nat, ipaddr list) dict \<times> vlan \<Rightarrow> (nat, ipaddr list) dict \<times> vlan" where
  "group_unresolved rm now not_fresh_nexthops st =
     foldl (\<lambda>(d, v) (ip_gw, entry).
         case entry of
           None \<Rightarrow> (dict_append (nh_resolve_retries (new_nexthop None None now)) ip_gw d,
                    update_nexthop_cache rm now None None ip_gw v)
         | Some nh \<Rightarrow> (dict_append (nh_resolve_retries nh) ip_gw d, v))
       st not_fresh_nexthops"

definition vlan_unresolved_nexthops ::
    "routelib \<Rightarrow> route_mgr \<Rightarrow> int \<Rightarrow> ipaddr list \<Rightarrow> vlan \<Rightarrow> ipaddr list \<times> vlan" where
  "vlan_unresolved_nexthops R rm now ip_gws v =
     (let nexthop_entries = map (\<lambda>ip_gw. (ip_gw, vlan_nexthop_cache_entry rm v ip_gw)) ip_gws;
          not_fresh_nexthops = filter (\<lambda>(_, entry).
            case entry of None \<Rightarrow> True | Some nh \<Rightarrow> resolution_due nh now (rm_neighbor_timeout rm)) nexthop_entries;
          (by_retries, v) = group_unresolved rm now not_fresh_nexthops ([], v)
      in (concat (map (\<lambda>(_, nexthops). rl_shuffle R nexthops) (sort_key fst by_retries)), v))"

text \<open>The loop stops when its attempts are used up; only a gateway that takes messages uses one.\<close>

type_synonym resolve_handler = "ipaddr \<Rightarrow> nexthop \<Rightarrow> vlan \<Rightarrow> err + ofmsg list \<times> vlan"

fun resolve_gateways_flows ::
    "route_mgr \<Rightarrow> resolve_handler \<Rightarrow> int \<Rightarrow> ipaddr list \<Rightarrow> int \<Rightarrow> vlan \<Rightarrow> err + ofmsg list \<times> vlan" where
  "resolve_gateways_flows rm handler now [] remaining v = Inr ([], v)"
| "resolve_gateways_flows rm handler now (ip_gw # ip_gws) remaining v =
     (if remaining = 0 then Inr ([], v)
      else case vlan_nexthop_cache_entry rm v ip_gw of
        None \<Rightarrow> resolve_gateways_flows rm handler now ip_gws remaining v
      | Some nh \<Rightarrow>
          if \<not> resolution_due nh now (rm_neighbor_timeout rm)
          then resolve_gateways_flows rm handler now ip_gws remaining v
          else
            bindE (handler ip_gw nh v) (\<lambda>(flows, v).
            bindE (resolve_gateways_flows rm handler now ip_gws (if flows \<noteq> [] then remaining - 1 else remaining) v)
              (\<lambda>(msgs, v). Inr (flows @ msgs, v))))"

text \<open>The queue of the gateways a cycle found; a call that does not resolve all takes one from it.\<close>

definition resolve_gateways ::
    "lib \<Rightarrow> pktlib \<Rightarrow> routelib \<Rightarrow> route_mgr \<Rightarrow> int \<Rightarrow> bool \<Rightarrow> vlan \<Rightarrow> err + ofmsg list \<times> vlan" where
  "resolve_gateways L P R rm now resolve_all v =
     (let ipv = rm_ipv rm;
          set_queue = (\<lambda>q v. v\<lparr>v_dyn_unresolved_route_ip_gws := dict_set ipv q (v_dyn_unresolved_route_ip_gws v)\<rparr>);
          (unresolved_gateways, v) =
            (if resolve_all
             then let (q, v) = vlan_unresolved_nexthops R rm now (by_ipv (v_dyn_route_gws v) ipv) v in (q, set_queue q v)
             else case by_ipv (v_dyn_unresolved_route_ip_gws v) ipv of [] \<Rightarrow> ([], v) | g # q \<Rightarrow> ([g], set_queue q v))
      in resolve_gateways_flows rm (resolve_gateway_flows L P R rm now) now unresolved_gateways
           (rm_max_hosts_per_resolve_cycle rm) v)"

definition resolve_expire_hosts ::
    "lib \<Rightarrow> pktlib \<Rightarrow> routelib \<Rightarrow> route_mgr \<Rightarrow> int \<Rightarrow> bool \<Rightarrow> vlan \<Rightarrow> err + ofmsg list \<times> vlan" where
  "resolve_expire_hosts L P R rm now resolve_all v =
     (let ipv = rm_ipv rm;
          set_queue = (\<lambda>q v. v\<lparr>v_dyn_unresolved_host_ip_gws := dict_set ipv q (v_dyn_unresolved_host_ip_gws v)\<rparr>);
          (unresolved_gateways, v) =
            (if resolve_all
             then let (q, v) = vlan_unresolved_nexthops R rm now (by_ipv (v_dyn_host_gws v) ipv) v in (q, set_queue q v)
             else case by_ipv (v_dyn_unresolved_host_ip_gws v) ipv of [] \<Rightarrow> ([], v) | g # q \<Rightarrow> ([g], set_queue q v))
      in resolve_gateways_flows rm (resolve_expire_gateway_flows L P R rm now) now unresolved_gateways
           (rm_max_hosts_per_resolve_cycle rm) v)"

section \<open>Adding routes\<close>

definition router_vlan_for_ip_gw :: "routelib \<Rightarrow> route_mgr \<Rightarrow> vlan_heap \<Rightarrow> int \<Rightarrow> ipaddr \<Rightarrow> int option" where
  "router_vlan_for_ip_gw R rm h vid ip_gw =
     (case router_for_vlan rm vid of
        Some r \<Rightarrow> map_option fst (router_vip_map R r ip_gw)
      | None \<Rightarrow> if vip_map (h vid) ip_gw \<noteq> None then Some vid else None)"

text \<open>On the VLAN of the gateway.\<close>

definition add_route_on_vlan :: "lib \<Rightarrow> route_mgr \<Rightarrow> ipaddr \<Rightarrow> ipnet \<Rightarrow> vlan \<Rightarrow> err + ofmsg list \<times> vlan" where
  "add_route_on_vlan L rm ip_gw ip_dst v =
     (if is_faucet_vip_net v ip_dst then Inr ([], v)
      else if dict_get (routes_by_ipv v (rm_ipv rm)) ip_dst = Some ip_gw then Inr ([], v)
      else
        let v = add_route ip_dst ip_gw v
        in case cached_nexthop_eth_dst rm v ip_gw of
             None \<Rightarrow> Inr ([], v)
           | Some eth_dst \<Rightarrow> bindE (add_resolved_route L rm v eth_dst False ip_dst) (\<lambda>msgs. Inr (msgs, v)))"

definition route_add_route ::
    "lib \<Rightarrow> routelib \<Rightarrow> route_mgr \<Rightarrow> int \<Rightarrow> ipaddr \<Rightarrow> ipnet \<Rightarrow> vlan_heap \<Rightarrow> err + ofmsg list \<times> vlan_heap" where
  "route_add_route L R rm vid ip_gw ip_dst h =
     (case router_vlan_for_ip_gw R rm h vid ip_gw of
        None \<Rightarrow> Inr ([], h)
      | Some u \<Rightarrow> bindE (add_route_on_vlan L rm ip_gw ip_dst (h u)) (\<lambda>(msgs, v). Inr (msgs, h(u := v))))"

definition blackhole_flows :: "lib \<Rightarrow> routelib \<Rightarrow> route_mgr \<Rightarrow> int \<Rightarrow> ipaddr \<Rightarrow> err + ofmsg list" where
  "blackhole_flows L R rm vid host_ip =
     (let timeout = rm_max_resolve_backoff_time rm * rm_max_host_fib_retry_count rm +
                    rl_randint R 0 (rm_max_resolve_backoff_time rm * 2)
      in mapE (\<lambda>routed_vlan. tbl_flowmod L (rm_fib_table rm)
                 (route_match L rm routed_vlan (interface_match (host_ip_to_host_int host_ip)))
                 (flow_defaults\<lparr>fa_priority := Some (route_priority rm (host_net host_ip)), fa_hard_timeout := timeout\<rparr>))
           (routed_vlans rm vid))"

definition add_host_fib_route ::
    "lib \<Rightarrow> routelib \<Rightarrow> route_mgr \<Rightarrow> int \<Rightarrow> ipaddr \<Rightarrow> bool \<Rightarrow> vlan_heap \<Rightarrow> err + ofmsg list \<times> vlan_heap" where
  "add_host_fib_route L R rm vid host_ip blackhole h =
     bindE (if blackhole then blackhole_flows L R rm vid host_ip else Inr []) (\<lambda>msgs1.
     bindE (route_add_route L R rm vid host_ip (host_net host_ip) h) (\<lambda>(msgs2, h). Inr (msgs1 @ msgs2, h)))"

section \<open>Packets\<close>

text \<open>What is asked of an address a packet may not have: a missing address has no version.\<close>

definition needE :: "'a option \<Rightarrow> err + 'a" where
  "needE x = (case x of None \<Rightarrow> Inl AttributeError | Some a \<Rightarrow> Inr a)"

definition vip_map_opt :: "vlan \<Rightarrow> ipaddr option \<Rightarrow> err + ipinterface option" where
  "vip_map_opt v ipa =
     (case ipa of Some a \<Rightarrow> Inr (vip_map v a) | None \<Rightarrow> if v_faucet_vips v = [] then Inr None else Inl AttributeError)"

definition is_faucet_vip_opt :: "vlan \<Rightarrow> ipaddr option \<Rightarrow> err + bool" where
  "is_faucet_vip_opt v ipa =
     bindE (vip_map_opt v ipa) (\<lambda>vip. Inr (case vip of None \<Rightarrow> False | Some i \<Rightarrow> ipa = Some (if_ip i)))"

definition ip_in_vip_subnet_opt :: "vlan \<Rightarrow> ipaddr option \<Rightarrow> err + ipinterface option" where
  "ip_in_vip_subnet_opt v ipa =
     bindE (vip_map_opt v ipa) (\<lambda>vip.
     Inr (case (vip, ipa) of (Some i, Some a) \<Rightarrow> if ip_in_subnet_of_vip a i then Some i else None | _ \<Rightarrow> None))"

definition from_connected_to_vip_opt :: "vlan \<Rightarrow> ipaddr option \<Rightarrow> ipaddr option \<Rightarrow> err + bool" where
  "from_connected_to_vip_opt v src_ip dst_ip =
     bindE (is_faucet_vip_opt v dst_ip) (\<lambda>to_vip.
     if to_vip then bindE (ip_in_vip_subnet_opt v src_ip) (\<lambda>vip. Inr (vip \<noteq> None)) else Inr False)"

definition pm_vid :: "pkt_meta \<Rightarrow> err + int" where
  "pm_vid m = (case pm_vlan m of None \<Rightarrow> Inl AttributeError | Some v \<Rightarrow> Inr (v_vid v))"

definition unicast_to_vip :: "vlan \<Rightarrow> pkt_meta \<Rightarrow> err + bool" where
  "unicast_to_vip v m =
     (if pm_eth_dst m = v_faucet_mac v then from_connected_to_vip_opt v (pm_l3_src m) (pm_l3_dst m) else Inr False)"

definition pm_headers :: "pkt_meta \<Rightarrow> err + header list" where
  "pm_headers m = needE (pm_pkt m)"

definition ip_pkt :: "route_mgr \<Rightarrow> pkt_meta \<Rightarrow> err + header option" where
  "ip_pkt rm m =
     bindE (pm_headers m) (\<lambda>hs.
     Inr (find (\<lambda>h. case h of Ipv4H _ _ _ \<Rightarrow> rm_ipv rm = 4 | Ipv6H _ _ _ _ _ \<Rightarrow> rm_ipv rm \<noteq> 4 | _ \<Rightarrow> False) hs))"

definition packet_to :: "lib \<Rightarrow> pkt_meta \<Rightarrow> vlan \<Rightarrow> (int option \<Rightarrow> int list) \<Rightarrow> ofmsg" where
  "packet_to L m v builder = pkt_out_port (lib_shuffle L) builder (pm_port m) v"

definition add_host_fib_route_from_pkt ::
    "lib \<Rightarrow> routelib \<Rightarrow> route_mgr \<Rightarrow> int \<Rightarrow> pkt_meta \<Rightarrow> vlan_heap \<Rightarrow> err + ofmsg list \<times> vlan_heap" where
  "add_host_fib_route_from_pkt L R rm now m h =
     (case pm_l3_src m of
        None \<Rightarrow> Inr ([], h)
      | Some src_ip \<Rightarrow>
          bindE (pm_vid m) (\<lambda>vid.
          if ip_in_vip_subnet (h vid) src_ip = None \<or> \<not> stateful_gw (h vid) src_ip then Inr ([], h)
          else
            bindE (ip_pkt rm m) (\<lambda>pkt.
            if pkt = None then Inr ([], h)
            else
              bindE (add_host_fib_route L R rm vid src_ip False h) (\<lambda>(msgs1, h).
              bindE (update_nexthop L rm now (pm_port m) (pm_eth_src m) src_ip (h vid)) (\<lambda>(msgs2, v).
              Inr (msgs1 @ msgs2, h(vid := v)))))))"

text \<open>A request for a VIP: the host that asks is learned, and answered.\<close>

definition resolve_vip_response ::
    "lib \<Rightarrow> pktlib \<Rightarrow> routelib \<Rightarrow> route_mgr \<Rightarrow> int \<Rightarrow> pkt_meta \<Rightarrow> ipaddr option \<Rightarrow> vlan_heap \<Rightarrow> err + ofmsg list \<times> vlan_heap" where
  "resolve_vip_response L P R rm now m solicited_ip h =
     bindE (pm_vid m) (\<lambda>vid.
     bindE (is_faucet_vip_opt (h vid) solicited_ip) (\<lambda>for_vip.
     if \<not> for_vip then Inr ([], h)
     else
       bindE (ip_in_vip_subnet_opt (h vid) (pm_l3_src m)) (\<lambda>connected.
       case (connected, pm_l3_src m, solicited_ip) of
         (Some _, Some src_ip, Some vip_ip) \<Rightarrow>
           bindE (if stateful_gw (h vid) src_ip then
                    bindE (add_host_fib_route L R rm vid src_ip False h) (\<lambda>(msgs1, h).
                    bindE (update_nexthop L rm now (pm_port m) (pm_eth_src m) src_ip (h vid)) (\<lambda>(msgs2, v).
                    Inr (msgs1 @ msgs2, h(vid := v))))
                  else Inr ([], h)) (\<lambda>(msgs, h).
           Inr (msgs @ [packet_to L m (h vid) (\<lambda>tag. gw_respond_pkt L P rm tag (v_faucet_mac (h vid))
                          (lib_mac_text L (pm_eth_src m)) vip_ip src_ip)], h))
       | _ \<Rightarrow> Inr ([], h))))"

definition gw_advert ::
    "lib \<Rightarrow> route_mgr \<Rightarrow> int \<Rightarrow> pkt_meta \<Rightarrow> ipaddr option \<Rightarrow> vlan_heap \<Rightarrow> err + ofmsg list \<times> vlan_heap" where
  "gw_advert L rm now m target_ip h =
     bindE (pm_vid m) (\<lambda>vid.
     bindE (ip_in_vip_subnet_opt (h vid) target_ip) (\<lambda>connected.
     case (connected, target_ip) of
       (Some _, Some target) \<Rightarrow>
         if stateful_gw (h vid) target
         then bindE (update_nexthop L rm now (pm_port m) (pm_eth_src m) target (h vid)) (\<lambda>(msgs, v). Inr (msgs, h(vid := v)))
         else Inr ([], h)
     | _ \<Rightarrow> Inr ([], h)))"

definition vlan_nexthop_cache_limit :: "route_mgr \<Rightarrow> vlan \<Rightarrow> int" where
  "vlan_nexthop_cache_limit rm v = (if rm_ipv rm = 4 then v_proactive_arp_limit v else v_proactive_nd_limit v)"

text \<open>The VLAN and the VIP of the network a packet goes to.\<close>

definition neighbor_vip :: "routelib \<Rightarrow> route_mgr \<Rightarrow> vlan_heap \<Rightarrow> int \<Rightarrow> ipaddr option \<Rightarrow> err + (int \<times> ipinterface) option" where
  "neighbor_vip R rm h vid dst_ip =
     (case router_for_vlan rm vid of
        None \<Rightarrow> bindE (vip_map_opt (h vid) dst_ip) (\<lambda>vip. Inr (map_option (Pair vid) vip))
      | Some r \<Rightarrow> bindE (needE dst_ip) (\<lambda>dst. Inr (router_vip_map R r dst)))"

definition proactive_resolve_neighbor ::
    "lib \<Rightarrow> pktlib \<Rightarrow> routelib \<Rightarrow> route_mgr \<Rightarrow> int \<Rightarrow> pkt_meta \<Rightarrow> vlan_heap \<Rightarrow> err + ofmsg list \<times> vlan_heap" where
  "proactive_resolve_neighbor L P R rm now m h =
     (if \<not> rm_proactive_learn rm then Inr ([], h)
      else
        bindE (pm_vid m) (\<lambda>vid.
        bindE (neighbor_vip R rm h vid (pm_l3_dst m)) (\<lambda>found.
        case (found, pm_l3_dst m) of
          (Some (u, faucet_vip), Some dst_ip) \<Rightarrow>
            if ip_in_subnet_of_vip dst_ip faucet_vip \<and> if_ip faucet_vip \<noteq> dst_ip \<and> stateful_gw (h u) dst_ip \<and>
               int (length (vlan_nexthop_cache rm (h u))) < vlan_nexthop_cache_limit rm (h u)
            then
              bindE (add_host_fib_route_from_pkt L R rm now m h) (\<lambda>(msgs1, h).
              let resolution_in_progress = dst_ip \<in> set (by_ipv (v_dyn_host_gws (h u)) (rm_ipv rm))
              in bindE (add_host_fib_route L R rm u dst_ip True h) (\<lambda>(msgs2, h).
                 let h = h(u := update_nexthop_cache rm now None None dst_ip (h u))
                 in if resolution_in_progress then Inr (msgs1 @ msgs2, h)
                    else
                      bindE (resolve_gateway_flows L P R rm now dst_ip (new_nexthop None None now) (h u)) (\<lambda>(msgs3, v).
                      Inr (msgs1 @ msgs2 @ msgs3, h(u := v)))))
            else Inr ([], h)
        | _ \<Rightarrow> Inr ([], h))))"

section \<open>IPv4\<close>

definition arp_of :: "pkt_meta \<Rightarrow> err + arp_opcode option" where
  "arp_of m =
     bindE (pm_headers m) (\<lambda>hs. Inr (map_option (\<lambda>h. case h of ArpH opcode _ _ _ _ \<Rightarrow> opcode | _ \<Rightarrow> ARP_REPLY)
       (find (\<lambda>h. case h of ArpH _ _ _ _ _ \<Rightarrow> True | _ \<Rightarrow> False) hs)))"

definition control_plane_arp_handler ::
    "lib \<Rightarrow> pktlib \<Rightarrow> routelib \<Rightarrow> route_mgr \<Rightarrow> int \<Rightarrow> pkt_meta \<Rightarrow> vlan_heap \<Rightarrow> err + ofmsg list \<times> vlan_heap" where
  "control_plane_arp_handler L P R rm now m h =
     (if pm_eth_type m \<noteq> ETH_TYPE_ARP (lib_ofp L) then Inr ([], h)
      else
        bindE (arp_of m) (\<lambda>opcode.
        case opcode of
          None \<Rightarrow> Inr ([], h)
        | Some ARP_REQUEST \<Rightarrow>
            bindE (pm_vid m) (\<lambda>vid.
            if pm_eth_dst m \<in> {BROADCAST_STR, v_faucet_mac (h vid)}
            then resolve_vip_response L P R rm now m (pm_l3_dst m) h else Inr ([], h))
        | Some ARP_REPLY \<Rightarrow>
            bindE (pm_vid m) (\<lambda>vid.
            if pm_eth_dst m = v_faucet_mac (h vid) then gw_advert L rm now m (pm_l3_src m) h else Inr ([], h))))"

definition icmp_of :: "pkt_meta \<Rightarrow> err + icmp_data option" where
  "icmp_of m =
     bindE (pm_headers m) (\<lambda>hs. Inr (case find (\<lambda>h. case h of IcmpH _ \<Rightarrow> True | _ \<Rightarrow> False) hs of
       Some (IcmpH d) \<Rightarrow> Some d | _ \<Rightarrow> None))"

text \<open>The handlers reparse the packet, so they return it too.\<close>

definition control_plane_icmp_handler ::
    "lib \<Rightarrow> pktlib \<Rightarrow> routelib \<Rightarrow> route_mgr \<Rightarrow> int \<Rightarrow> int \<Rightarrow> pkt_meta \<Rightarrow> vlan_heap \<Rightarrow>
     err + ofmsg list \<times> pkt_meta \<times> vlan_heap" where
  "control_plane_icmp_handler L P R rm now proto m h =
     (if proto \<noteq> IPPROTO_ICMP (lib_ofp L) then Inr ([], m, h)
      else
        bindE (pm_vid m) (\<lambda>vid.
        bindE (unicast_to_vip (h vid) m) (\<lambda>to_vip.
        if \<not> to_vip then Inr ([], m, h)
        else
          bindE (reparse_all (lib_ofp L) P m) (\<lambda>m.
          bindE (icmp_of m) (\<lambda>icmp.
          case (icmp, pm_l3_src m, pm_l3_dst m) of
            (Some (EchoRequest data), Some src_ip, Some dst_ip) \<Rightarrow>
              let reply = packet_to L m (h vid) (\<lambda>tag. pl_serialize P
                    (echo_reply (lib_ofp L) tag (v_faucet_mac (h vid)) (lib_mac_text L (pm_eth_src m)) dst_ip src_ip data))
              in bindE (if cached_nexthop_eth_dst rm (h vid) src_ip = None
                        then add_host_fib_route_from_pkt L R rm now m h else Inr ([], h)) (\<lambda>(msgs, h).
                 Inr (reply # msgs, m, h))
          | _ \<Rightarrow> Inr ([], m, h))))))"

definition time_exceeded_handler_v4 ::
    "lib \<Rightarrow> pktlib \<Rightarrow> pkt_meta \<Rightarrow> vlan_heap \<Rightarrow> err + ofmsg list \<times> pkt_meta" where
  "time_exceeded_handler_v4 L P m h =
     bindE (pm_vid m) (\<lambda>vid.
     bindE (ip_in_vip_subnet_opt (h vid) (pm_l3_src m)) (\<lambda>vip.
     case (vip, pm_l3_src m) of
       (Some faucet_vip, Some src_ip) \<Rightarrow>
         bindE (reparse_all (lib_ofp L) P m) (\<lambda>m.
         case l3_offset m of
           None \<Rightarrow> Inr ([], m)
         | Some l3 \<Rightarrow>
             let l4 = l3 + IPV4_HEADER_SIZE; data = drop l3 (take (l4 + 8) (pm_pkt_data m))
             in Inr ([packet_to L m (h vid) (\<lambda>tag. pl_serialize P
                   (time_exceeded (lib_ofp L) tag (v_faucet_mac (h vid)) (lib_mac_text L (pm_eth_src m))
                      (if_ip faucet_vip) src_ip data))], m))
     | _ \<Rightarrow> Inr ([], m)))"

definition control_plane_handler_v4 ::
    "lib \<Rightarrow> pktlib \<Rightarrow> routelib \<Rightarrow> route_mgr \<Rightarrow> int \<Rightarrow> pkt_meta \<Rightarrow> vlan_heap \<Rightarrow>
     err + ofmsg list \<times> pkt_meta \<times> vlan_heap" where
  "control_plane_handler_v4 L P R rm now m h =
     (let proactive = (\<lambda>m h. bindE (proactive_resolve_neighbor L P R rm now m h) (\<lambda>(msgs, h). Inr (msgs, m, h)))
      in if \<not> packet_complete m then proactive m h
         else
           bindE (control_plane_arp_handler L P R rm now m h) (\<lambda>(arp_replies, h).
           if arp_replies \<noteq> [] then Inr (arp_replies, m, h)
           else
             bindE (ip_pkt rm m) (\<lambda>pkt.
             case pkt of
               Some (Ipv4H _ _ proto) \<Rightarrow>
                 if pm_reason m = OFPR_INVALID_TTL (lib_ofp L)
                 then bindE (time_exceeded_handler_v4 L P m h) (\<lambda>(msgs, m). Inr (msgs, m, h))
                 else
                   bindE (control_plane_icmp_handler L P R rm now proto m h) (\<lambda>(icmp_replies, m, h).
                   if icmp_replies \<noteq> [] then Inr (icmp_replies, m, h) else proactive m h)
             | _ \<Rightarrow> Inr ([], m, h))))"

section \<open>IPv6\<close>

definition icmpv6_of :: "pkt_meta \<Rightarrow> err + icmpv6_data option" where
  "icmpv6_of m =
     bindE (pm_headers m) (\<lambda>hs. Inr (case find (\<lambda>h. case h of Icmpv6H _ \<Rightarrow> True | _ \<Rightarrow> False) hs of
       Some (Icmpv6H d) \<Rightarrow> Some d | _ \<Rightarrow> None))"

text \<open>The type of a message, \<open>None\<close> for the types the handlers do not know.\<close>

fun icmpv6_type :: "ofp \<Rightarrow> icmpv6_data \<Rightarrow> int option" where
  "icmpv6_type K (NeighborSolicit _ _) = Some (ND_NEIGHBOR_SOLICIT K)"
| "icmpv6_type K (NeighborAdvert _ _ _) = Some (ND_NEIGHBOR_ADVERT K)"
| "icmpv6_type K RouterSolicit = Some (ND_ROUTER_SOLICIT K)"
| "icmpv6_type K (EchoRequestV6 _ _ _) = Some (ICMPV6_ECHO_REQUEST K)"
| "icmpv6_type K (UnparsedV6 t) = Some t"
| "icmpv6_type K _ = None"

definition router_solicit_handler :: "lib \<Rightarrow> pktlib \<Rightarrow> route_mgr \<Rightarrow> pkt_meta \<Rightarrow> vlan \<Rightarrow> ofmsg list" where
  "router_solicit_handler L P rm m v =
     (let (link_local_vips, other_vips) = link_and_other_vips v (rm_ipv rm)
      in case pm_l3_src m of
           None \<Rightarrow> []
         | Some src_ip \<Rightarrow>
             (case find (\<lambda>vip. ip_in_net src_ip (if_network vip)) link_local_vips of
                None \<Rightarrow> []
              | Some vip \<Rightarrow>
                  [packet_to L m v (\<lambda>tag. pl_serialize P
                     (router_advert (lib_ofp L) tag (v_faucet_mac v) (lib_mac_text L (pm_eth_src m)) (if_ip vip) src_ip
                        other_vips 0x6))]))"

definition echo_request_handler_v6 ::
    "lib \<Rightarrow> pktlib \<Rightarrow> routelib \<Rightarrow> route_mgr \<Rightarrow> int \<Rightarrow> int option \<Rightarrow> icmpv6_data option \<Rightarrow> pkt_meta \<Rightarrow> int \<Rightarrow> vlan_heap \<Rightarrow>
     err + ofmsg list \<times> vlan_heap" where
  "echo_request_handler_v6 L P R rm now hop_limit icmp m vid h =
     bindE (unicast_to_vip (h vid) m) (\<lambda>to_vip.
     if \<not> to_vip then Inr ([], h)
     else
       case (icmp, pm_l3_src m, pm_l3_dst m) of
         (Some (EchoRequestV6 ident seq data), Some src_ip, Some dst_ip) \<Rightarrow>
           let reply = packet_to L m (h vid) (\<lambda>tag. pl_serialize P
                 (icmpv6_echo_reply (lib_ofp L) tag (v_faucet_mac (h vid)) (lib_mac_text L (pm_eth_src m)) dst_ip src_ip
                    (case hop_limit of None \<Rightarrow> 0 | Some n \<Rightarrow> n) ident seq data))
           in bindE (if cached_nexthop_eth_dst rm (h vid) src_ip = None
                     then add_host_fib_route_from_pkt L R rm now m h else Inr ([], h)) (\<lambda>(msgs, h).
              Inr (reply # msgs, h))
       | _ \<Rightarrow> Inl AttributeError)"

text \<open>\<open>_icmpv6_handlers\<close>: the handler of a message whose data is of the class it expects.\<close>

definition icmpv6_dispatch ::
    "lib \<Rightarrow> pktlib \<Rightarrow> routelib \<Rightarrow> route_mgr \<Rightarrow> int \<Rightarrow> int option \<Rightarrow> icmpv6_data \<Rightarrow> pkt_meta \<Rightarrow> int \<Rightarrow> vlan_heap \<Rightarrow>
     err + ofmsg list \<times> pkt_meta \<times> vlan_heap" where
  "icmpv6_dispatch L P R rm now hop_limit icmp m vid h =
     (case icmp of
        NeighborSolicit dst _ \<Rightarrow> bindE (resolve_vip_response L P R rm now m (Some dst) h) (\<lambda>(msgs, h). Inr (msgs, m, h))
      | NeighborAdvert dst _ _ \<Rightarrow> bindE (gw_advert L rm now m (Some dst) h) (\<lambda>(msgs, h). Inr (msgs, m, h))
      | EchoRequestV6 _ _ _ \<Rightarrow>
          bindE (reparse_ip (lib_ofp L) P 96 m) (\<lambda>m.
          bindE (icmpv6_of m) (\<lambda>icmp.
          bindE (echo_request_handler_v6 L P R rm now hop_limit icmp m vid h) (\<lambda>(msgs, h). Inr (msgs, m, h))))
      | _ \<Rightarrow> if icmpv6_type (lib_ofp L) icmp = Some (ND_ROUTER_SOLICIT (lib_ofp L))
             then Inr (router_solicit_handler L P rm m (h vid), m, h) else Inr ([], m, h))"

definition control_plane_icmpv6_handler ::
    "lib \<Rightarrow> pktlib \<Rightarrow> routelib \<Rightarrow> route_mgr \<Rightarrow> int \<Rightarrow> int \<Rightarrow> int option \<Rightarrow> int list \<Rightarrow> pkt_meta \<Rightarrow> vlan_heap \<Rightarrow>
     err + ofmsg list \<times> pkt_meta \<times> vlan_heap" where
  "control_plane_icmpv6_handler L P R rm now nxt hop_limit ext_hdrs m h =
     (if nxt \<noteq> IPPROTO_ICMPV6 (lib_ofp L) \<or> ext_hdrs \<noteq> [] then Inr ([], m, h)
      else
        bindE (pm_vid m) (\<lambda>vid.
        bindE (ip_in_vip_subnet_opt (h vid) (pm_l3_src m)) (\<lambda>connected.
        if connected = None then Inr ([], m, h)
        else
          bindE (reparse_ip (lib_ofp L) P 32 m) (\<lambda>m.
          bindE (icmpv6_of m) (\<lambda>icmp.
          case icmp of
            None \<Rightarrow> Inr ([], m, h)
          | Some icmp \<Rightarrow>
              if hop_limit \<noteq> Some IPV6_MAX_HOP_LIM \<and> icmpv6_type (lib_ofp L) icmp \<noteq> Some (ICMPV6_ECHO_REQUEST (lib_ofp L))
              then Inr ([], m, h)
              else icmpv6_dispatch L P R rm now hop_limit icmp m vid h)))))"

definition time_exceeded_handler_v6 ::
    "lib \<Rightarrow> pktlib \<Rightarrow> int list \<Rightarrow> pkt_meta \<Rightarrow> vlan_heap \<Rightarrow> err + ofmsg list \<times> pkt_meta" where
  "time_exceeded_handler_v6 L P ext_hdrs m h =
     (if ext_hdrs \<noteq> [] then Inr ([], m)
      else
        bindE (pm_vid m) (\<lambda>vid.
        bindE (ip_in_vip_subnet_opt (h vid) (pm_l3_src m)) (\<lambda>vip.
        case (vip, pm_l3_src m) of
          (Some faucet_vip, Some _) \<Rightarrow>
            bindE (reparse_ip (lib_ofp L) P 32 m) (\<lambda>m.
            case (l3_offset m, pm_l3_src m) of
              (Some l3, Some src_ip) \<Rightarrow>
                let l4 = l3 + IPV6_HEADER_SIZE
                in Inr ([packet_to L m (h vid) (\<lambda>tag. pl_serialize P
                     (icmpv6_time_exceeded (lib_ofp L) tag (v_faucet_mac (h vid)) (lib_mac_text L (pm_eth_src m))
                        (if_ip faucet_vip) src_ip (replicate 4 0 @ drop l3 (take (l4 + 512) (pm_pkt_data m)))))], m)
            | _ \<Rightarrow> Inr ([], m))
        | _ \<Rightarrow> Inr ([], m))))"

definition control_plane_handler_v6 ::
    "lib \<Rightarrow> pktlib \<Rightarrow> routelib \<Rightarrow> route_mgr \<Rightarrow> int \<Rightarrow> pkt_meta \<Rightarrow> vlan_heap \<Rightarrow>
     err + ofmsg list \<times> pkt_meta \<times> vlan_heap" where
  "control_plane_handler_v6 L P R rm now m h =
     (let proactive = (\<lambda>m h. bindE (proactive_resolve_neighbor L P R rm now m h) (\<lambda>(msgs, h). Inr (msgs, m, h)))
      in if \<not> packet_complete m then proactive m h
         else
           bindE (ip_pkt rm m) (\<lambda>pkt.
           case pkt of
             Some (Ipv6H _ _ nxt hop_limit ext_hdrs) \<Rightarrow>
               if pm_reason m = OFPR_INVALID_TTL (lib_ofp L)
               then bindE (time_exceeded_handler_v6 L P ext_hdrs m h) (\<lambda>(msgs, m). Inr (msgs, m, h))
               else
                 bindE (control_plane_icmpv6_handler L P R rm now nxt hop_limit ext_hdrs m h) (\<lambda>(icmp_replies, m, h).
                 if icmp_replies \<noteq> [] then Inr (icmp_replies, m, h) else proactive m h)
           | _ \<Rightarrow> Inr ([], m, h)))"

definition control_plane_handler ::
    "lib \<Rightarrow> pktlib \<Rightarrow> routelib \<Rightarrow> route_mgr \<Rightarrow> int \<Rightarrow> pkt_meta \<Rightarrow> vlan_heap \<Rightarrow>
     err + ofmsg list \<times> pkt_meta \<times> vlan_heap" where
  "control_plane_handler L P R rm now m h =
     (if rm_ipv rm = 4 then control_plane_handler_v4 L P R rm now m h else control_plane_handler_v6 L P R rm now m h)"

definition IPV6_ALL_NODES :: ipaddr where
  "IPV6_ALL_NODES = \<lparr>ip_version = 6, ip_value = 0xff020000000000000000000000000001\<rparr>"

definition advertise :: "lib \<Rightarrow> pktlib \<Rightarrow> route_mgr \<Rightarrow> vlan \<Rightarrow> err + ofmsg list" where
  "advertise L P rm v =
     (if rm_ipv rm = 4 then Inr []
      else
        let (link_local_vips, other_vips) = link_and_other_vips v (rm_ipv rm)
        in bindE (mapE (\<lambda>vip. flood_pkt (lib_shuffle L) (\<lambda>vid. pl_serialize P
                    (router_advert (lib_ofp L) vid (v_faucet_mac v) IPV6_ALL_NODES_MCAST (if_ip vip) IPV6_ALL_NODES
                       other_vips 0x6)) (rm_multi_out rm) v) link_local_vips) (\<lambda>ms. Inr (concat ms)))"

section \<open>In the Valve\<close>

text \<open>The route managers of a datapath, in order; one for each IP version whose FIB is in the pipeline.\<close>

definition manager_by_eth_type :: "lib \<Rightarrow> route_mgr list \<Rightarrow> int \<Rightarrow> route_mgr option" where
  "manager_by_eth_type L rms eth_type = find (\<lambda>rm. eth_type \<in> set (CONTROL_ETH_TYPES L rm)) rms"

definition manager_by_ipv :: "route_mgr list \<Rightarrow> int \<Rightarrow> err + route_mgr" where
  "manager_by_ipv rms ipv = (case find (\<lambda>rm. rm_ipv rm = ipv) rms of None \<Rightarrow> Inl KeyError | Some rm \<Rightarrow> Inr rm)"

definition valve_control_plane_handler ::
    "lib \<Rightarrow> pktlib \<Rightarrow> routelib \<Rightarrow> route_mgr \<Rightarrow> int \<Rightarrow> pkt_meta \<Rightarrow> vlan_heap \<Rightarrow>
     err + ofmsg list \<times> pkt_meta \<times> vlan_heap" where
  "valve_control_plane_handler L P R rm now m h =
     bindE (pm_vid m) (\<lambda>vid.
     if pm_eth_dst m = v_faucet_mac (h vid) \<or> \<not> mac_addr_is_unicast P (pm_eth_dst m) \<or>
        pm_reason m = OFPR_INVALID_TTL (lib_ofp L)
     then control_plane_handler L P R rm now m h
     else Inr ([], m, h))"

definition on_vlan :: "(vlan \<Rightarrow> err + ofmsg list \<times> vlan) \<Rightarrow> int \<Rightarrow> vlan_heap \<Rightarrow> err + ofmsg list \<times> vlan_heap" where
  "on_vlan f vid h = bindE (f (h vid)) (\<lambda>(msgs, v). Inr (msgs, h(vid := v)))"

definition router_rcv_packet ::
    "lib \<Rightarrow> pktlib \<Rightarrow> routelib \<Rightarrow> route_mgr list \<Rightarrow> int \<Rightarrow> pkt_meta \<Rightarrow> vlan_heap \<Rightarrow> err + ofmsg list \<times> vlan_heap" where
  "router_rcv_packet L P R rms now m h =
     bindE (pm_vid m) (\<lambda>vid.
     if v_faucet_vips (h vid) = [] then Inr ([], h)
     else case manager_by_eth_type L rms (pm_eth_type m) of
       None \<Rightarrow> Inr ([], h)
     | Some rm \<Rightarrow>
         if \<not> rm_active rm then Inr ([], h)
         else
           bindE (reparse_ip (lib_ofp L) P 0 m) (\<lambda>m.
           if pm_l3_pkt m = None then Inr ([], h)
           else
             bindE (valve_control_plane_handler L P R rm now m h) (\<lambda>(control_plane_ofmsgs, m, h).
             if control_plane_ofmsgs \<noteq> [] then Inr (control_plane_ofmsgs, h)
             else if pm_reason m = OFPR_ACTION (lib_ofp L) then
               bindE (add_host_fib_route_from_pkt L R rm now m h) (\<lambda>(msgs1, h).
               bindE (on_vlan (resolve_gateways L P R rm now False) vid h) (\<lambda>(msgs2, h).
               bindE (on_vlan (resolve_expire_hosts L P R rm now False) vid h) (\<lambda>(msgs3, h).
               Inr (msgs1 @ msgs2 @ msgs3, h))))
             else Inr ([], h))))"

definition valve_add_route ::
    "lib \<Rightarrow> routelib \<Rightarrow> route_mgr list \<Rightarrow> int \<Rightarrow> ipaddr \<Rightarrow> ipnet \<Rightarrow> vlan_heap \<Rightarrow> err + ofmsg list \<times> vlan_heap" where
  "valve_add_route L R rms vid ip_gw ip_dst h =
     bindE (manager_by_ipv rms (net_version ip_dst)) (\<lambda>rm. route_add_route L R rm vid ip_gw ip_dst h)"

definition valve_del_route ::
    "lib \<Rightarrow> route_mgr list \<Rightarrow> int \<Rightarrow> ipnet \<Rightarrow> vlan_heap \<Rightarrow> err + ofmsg list \<times> vlan_heap" where
  "valve_del_route L rms vid ip_dst h =
     bindE (manager_by_ipv rms (net_version ip_dst)) (\<lambda>rm. on_vlan (route_del_route L rm ip_dst) vid h)"

text \<open>The periodic run of the resolvers over all VLANs of the datapath.\<close>

definition valve_resolve_gateways ::
    "lib \<Rightarrow> pktlib \<Rightarrow> routelib \<Rightarrow> route_mgr list \<Rightarrow> int list \<Rightarrow> bool \<Rightarrow> int \<Rightarrow> vlan_heap \<Rightarrow> err + ofmsg list \<times> vlan_heap" where
  "valve_resolve_gateways L P R rms vids dyn_running now h =
     (if \<not> dyn_running then Inr ([], h)
      else foldE (\<lambda>(rm, vid) (ofmsgs, h).
             bindE (on_vlan (resolve_gateways L P R rm now True) vid h) (\<lambda>(msgs, h). Inr (ofmsgs @ msgs, h)))
           (concat (map (\<lambda>rm. map (\<lambda>vid. (rm, vid)) vids) rms)) ([], h))"

text \<open>\<open>advertise\<close>: the state is the time of the last advertisement.\<close>

definition valve_advertise ::
    "lib \<Rightarrow> pktlib \<Rightarrow> route_mgr list \<Rightarrow> int list \<Rightarrow> int \<Rightarrow> int \<Rightarrow> int \<Rightarrow> vlan_heap \<Rightarrow> err + ofmsg list \<times> int" where
  "valve_advertise L P rms vids advertise_interval now last_advertise_sec h =
     (if advertise_interval = 0 \<or> now - last_advertise_sec < advertise_interval then Inr ([], last_advertise_sec)
      else bindE (mapE (\<lambda>(rm, vid). advertise L P rm (h vid)) (concat (map (\<lambda>rm. map (\<lambda>vid. (rm, vid)) vids) rms))) (\<lambda>ms.
           Inr (concat ms, now)))"


end
