(* ===== verification/Fib.thy ===== *)
theory Fib imports Route Learning begin

text \<open>
  What the FIB of a datapath holds while the route manager runs, and what resolution and expiry do.
\<close>

lemma mapE_set: "mapE f xs = Inr ys \<Longrightarrow> y \<in> set ys \<Longrightarrow> \<exists>x \<in> set xs. f x = Inr y"
  by (induction xs arbitrary: ys) (auto simp: bindE_Inr)

section \<open>The keys of the FIB\<close>

text \<open>The constants of the protocol, as the OpenFlow and IEEE 802 documents fix them.\<close>

definition proto_ok :: "ofp \<Rightarrow> bool" where
  "proto_ok K \<longleftrightarrow> distinct [ETH_TYPE_IP K, ETH_TYPE_ARP K, ETH_TYPE_IPV6 K] \<and> OFPVID_NONE K = 0 \<and> OFPVID_PRESENT K = 4096"

definition fib_match :: "lib \<Rightarrow> route_mgr \<Rightarrow> int \<Rightarrow> string \<times> string \<Rightarrow> ofmatch" where
  "fib_match L rm vid am =
     [(''vlan_vid'', match_vlan_value (lib_ofp L) vid),
      (if rm_ipv rm = 4 then ''ipv4_dst'' else ''ipv6_dst'', MTextMask (fst am) (snd am)),
      (''eth_type'', MInt (ETH_TYPE L rm))]"

definition fib_key :: "lib \<Rightarrow> route_mgr \<Rightarrow> int \<Rightarrow> ipnet \<Rightarrow> int \<times> ofmatch" where
  "fib_key L rm vid d = (route_priority rm d, fib_match L rm vid (match_ip_masked (net_match d)))"

lemma route_match_dict:
  assumes "proto_ok (lib_ofp L)"
  shows "vt_match (lib_ofp L) (route_match L rm vid ip) = Inr (fib_match L rm vid (match_ip_masked ip))"
  using assms
  by (simp add: proto_ok_def vt_match_def build_match_dict_def route_match_def no_match_args_def set_if_def set_nw_dst_def
      ETH_TYPE_def fib_match_def dict_set_def split_beta)

lemma interface_net_match [simp]:
  "match_ip_masked (interface_match (host_ip_to_host_int a)) = match_ip_masked (net_match (host_net a))"
  by (cases a) (simp add: interface_match_def net_match_def host_ip_to_host_int_def host_net_def network_addr_def)

lemma tbl_flowmod_Inr:
  assumes "tbl_flowmod L t ma a = Inr m"
  shows "\<exists>mt fm. vt_match (lib_ofp L) ma = Inr mt \<and> m = FlowModMsg fm \<and> fm_match fm = mt \<and> fm_table_id fm = vt_table_id t \<and>
    fm_command fm = fa_command a \<and> fm_priority fm = (case fa_priority a of None \<Rightarrow> 0 | Some p \<Rightarrow> p)"
  using assms by (auto simp: tbl_flowmod_def vt_flowmod_def bindE_Inr Let_def flowmod_def split: option.splits)

lemma fib_flow:
  assumes "proto_ok (lib_ofp L)" and "tbl_flowmod L t (route_match L rm vid ip) a = Inr m" and "fa_priority a = Some p"
  shows "\<exists>fm. m = FlowModMsg fm \<and> fm_match fm = fib_match L rm vid (match_ip_masked ip) \<and> fm_table_id fm = vt_table_id t \<and>
    fm_command fm = fa_command a \<and> fm_priority fm = p"
  using tbl_flowmod_Inr [OF assms(2)] route_match_dict [OF assms(1)] assms(3) by auto

lemma vid_value_inj:
  assumes K: "proto_ok K" and v: "0 < v" "v < 4096" and w: "0 < w" "w < 4096"
    and eq: "match_vlan_value K v = match_vlan_value K w"
  shows "v = w"
proof -
  have t: "take_bit 12 (or x 4096) = x" if "0 < x" "x < 4096" for x :: int
    using that by (simp add: take_bit_or take_bit_int_eq_self)
  have "or v 4096 = or w 4096" using K v w eq by (simp add: proto_ok_def match_vlan_value_def vid_present_def)
  then show ?thesis using t [OF v] t [OF w] by simp
qed

lemma fib_match_vid:
  assumes "proto_ok (lib_ofp L)" and "0 < vid" "vid < 4096" "0 < u" "u < 4096"
    and "fib_match L rm vid am = fib_match L rm u bm"
  shows "vid = u" and "am = bm"
  using vid_value_inj [OF assms(1-5)] assms(6) by (auto simp: fib_match_def prod_eq_iff)

lemma fib_key_inj:
  assumes "proto_ok (lib_ofp L)" and "0 < vid" "vid < 4096" "0 < u" "u < 4096"
    and "net_ok d" "net_ok e" "net_version d = net_version e" and "fib_key L rm vid d = fib_key L rm u e"
  shows "vid = u" and "d = e"
proof -
  have m: "fib_match L rm vid (match_ip_masked (net_match d)) = fib_match L rm u (match_ip_masked (net_match e))"
    using assms(9) by (simp add: fib_key_def)
  show "vid = u" by (rule fib_match_vid(1) [OF assms(1-5) m])
  show "d = e" by (rule net_match_inj [OF assms(6-8) fib_match_vid(2) [OF assms(1-5) m]])
qed

section \<open>The FIB under messages\<close>

text \<open>
  A FIB maps priority and match to the flow. An addition binds the key of its flow and a strict
  delete removes it, as the switch does (\<open>Switch.flow_table_refines\<close>); the route manager composes no
  other message for the FIB in what follows.
\<close>

type_synonym fib = "int \<times> ofmatch \<Rightarrow> flow_mod option"

fun fib_msg :: "int \<Rightarrow> ofmsg \<Rightarrow> fib \<Rightarrow> fib" where
  "fib_msg t (FlowModMsg fm) f =
     (if fm_table_id fm \<noteq> t then f
      else if fm_command fm = OFPFC_ADD then f((fm_priority fm, fm_match fm) := Some fm)
      else if fm_command fm = OFPFC_DELETE_STRICT then f((fm_priority fm, fm_match fm) := None)
      else f)"
| "fib_msg t _ f = f"

definition fib_run :: "int \<Rightarrow> ofmsg list \<Rightarrow> fib \<Rightarrow> fib" where
  "fib_run t ms f = fold (fib_msg t) ms f"

lemma fib_run_simps [simp]:
  "fib_run t [] f = f"
  "fib_run t (m # ms) f = fib_run t ms (fib_msg t m f)"
  "fib_run t (ms @ ns) f = fib_run t ns (fib_run t ms f)"
  by (simp_all add: fib_run_def)

text \<open>The messages that change only flows of a set of keys.\<close>

definition writes :: "int \<Rightarrow> (int \<times> ofmatch) set \<Rightarrow> ofmsg list \<Rightarrow> bool" where
  "writes t ks ms \<longleftrightarrow>
     (\<forall>m \<in> set ms. case m of FlowModMsg fm \<Rightarrow> fm_table_id fm = t \<longrightarrow> (fm_priority fm, fm_match fm) \<in> ks | _ \<Rightarrow> True)"

lemma writes_simps [simp]:
  "writes t ks []"
  "writes t ks (ms @ ns) \<longleftrightarrow> writes t ks ms \<and> writes t ks ns"
  "writes t ks (concat mss) \<longleftrightarrow> (\<forall>ms \<in> set mss. writes t ks ms)"
  by (auto simp: writes_def)

lemma writes_mono: "writes t ks ms \<Longrightarrow> ks \<subseteq> ks' \<Longrightarrow> writes t ks' ms"
  by (auto simp: writes_def split: ofmsg.splits)

lemma fib_run_other: "writes t ks ms \<Longrightarrow> k \<notin> ks \<Longrightarrow> fib_run t ms f k = f k"
proof (induction ms arbitrary: f)
  case Nil
  then show ?case by simp
next
  case (Cons m ms)
  have "fib_msg t m f k = f k"
    using Cons.prems by (cases m) (auto simp: writes_def)
  moreover have "writes t ks ms" using Cons.prems(1) by (simp add: writes_def)
  ultimately show ?case using Cons.IH [of "fib_msg t m f"] Cons.prems(2) by simp
qed

text \<open>The keys of a VLAN.\<close>

definition vlan_keys :: "lib \<Rightarrow> route_mgr \<Rightarrow> int \<Rightarrow> (int \<times> ofmatch) set" where
  "vlan_keys L rm vid = {(p, fib_match L rm vid am) | p am. True}"

lemma fib_key_vlan [simp]: "fib_key L rm vid d \<in> vlan_keys L rm vid"
  unfolding fib_key_def vlan_keys_def by blast

lemma vlan_keys_disjoint:
  assumes "proto_ok (lib_ofp L)" "0 < vid" "vid < 4096" "0 < u" "u < 4096" "vid \<noteq> u" and "k \<in> vlan_keys L rm vid"
  shows "k \<notin> vlan_keys L rm u"
  using assms(7) fib_match_vid(1) [OF assms(1-5)] assms(6) by (auto simp: vlan_keys_def)

section \<open>Flows of routes\<close>

abbreviation fib_id :: "route_mgr \<Rightarrow> int" where "fib_id rm \<equiv> vt_table_id (rm_fib_table rm)"

definition route_flow :: "lib \<Rightarrow> route_mgr \<Rightarrow> vlan \<Rightarrow> int \<Rightarrow> ipnet \<Rightarrow> int \<Rightarrow> err + ofmsg" where
  "route_flow L rm v eth_dst d u =
     bindE (nexthop_actions L rm eth_dst v) (\<lambda>actions.
     tbl_flowmod L (rm_fib_table rm) (route_match L rm u (net_match d))
       (flow_defaults\<lparr>fa_priority := Some (route_priority rm d),
          fa_inst := accept_to_l2_forwarding (rm_pipeline rm) actions\<rparr>))"

text \<open>Packets of VLAN \<open>u\<close> to \<open>d\<close> are routed to the MAC address, on VLAN \<open>v\<close>.\<close>

definition routed_to :: "lib \<Rightarrow> route_mgr \<Rightarrow> vlan \<Rightarrow> int \<Rightarrow> ipnet \<Rightarrow> int \<Rightarrow> fib \<Rightarrow> bool" where
  "routed_to L rm v eth_dst d u f \<longleftrightarrow>
     (\<exists>fm. route_flow L rm v eth_dst d u = Inr (FlowModMsg fm) \<and> f (fib_key L rm u d) = Some fm)"

definition route_keys :: "lib \<Rightarrow> route_mgr \<Rightarrow> int \<Rightarrow> ipnet \<Rightarrow> (int \<times> ofmatch) set" where
  "route_keys L rm vid d = (\<lambda>u. fib_key L rm u d) ` set (routed_vlans rm vid)"

lemma route_flow_Inr:
  assumes "proto_ok (lib_ofp L)" and "route_flow L rm v mac d u = Inr m"
  shows "\<exists>fm. m = FlowModMsg fm \<and> (fm_priority fm, fm_match fm) = fib_key L rm u d \<and> fm_table_id fm = fib_id rm \<and>
    fm_command fm = OFPFC_ADD"
proof -
  from assms(2) obtain acts where "tbl_flowmod L (rm_fib_table rm) (route_match L rm u (net_match d))
      (flow_defaults\<lparr>fa_priority := Some (route_priority rm d), fa_inst := accept_to_l2_forwarding (rm_pipeline rm) acts\<rparr>) = Inr m"
    by (auto simp: route_flow_def bindE_Inr)
  from fib_flow [OF assms(1) this] show ?thesis by (auto simp: fib_key_def flow_defaults_def)
qed

lemma fib_flowdel_Inr:
  assumes "proto_ok (lib_ofp L)"
    and "fib_flowdel L rm (route_match L rm u (net_match d)) (Some (route_priority rm d)) True = Inr m"
  shows "\<exists>fm. m = FlowModMsg fm \<and> (fm_priority fm, fm_match fm) = fib_key L rm u d"
  using assms(2) route_match_dict [OF assms(1), of rm u "net_match d"]
  by (auto simp: fib_flowdel_def tbl_flowdel_def vt_flowdel_def vt_flowmod_def bindE_Inr Let_def flowmod_def fib_key_def)

lemma del_route_flows_writes:
  assumes "proto_ok (lib_ofp L)" and "del_route_flows L rm v d = Inr ms"
  shows "writes (fib_id rm) (route_keys L rm (v_vid v) d) ms"
  unfolding writes_def
proof
  fix m assume "m \<in> set ms"
  with assms(2) obtain u where "u \<in> set (routed_vlans rm (v_vid v))"
      and "fib_flowdel L rm (route_match L rm u (net_match d)) (Some (route_priority rm d)) True = Inr m"
    unfolding del_route_flows_def by (blast dest: mapE_set)
  with fib_flowdel_Inr [OF assms(1)]
  show "case m of FlowModMsg fm \<Rightarrow> fm_table_id fm = fib_id rm \<longrightarrow> (fm_priority fm, fm_match fm) \<in> route_keys L rm (v_vid v) d
      | _ \<Rightarrow> True"
    by (fastforce simp: route_keys_def)
qed

lemma add_resolved_route_Inr:
  "add_resolved_route L rm v mac upd d = Inr ms \<longleftrightarrow>
     (\<exists>dels acts adds. (if upd then del_route_flows L rm v d else Inr []) = Inr dels \<and> nexthop_actions L rm mac v = Inr acts \<and>
        mapE (route_flow L rm v mac d) (routed_vlans rm (v_vid v)) = Inr adds \<and> ms = dels @ adds)"
  unfolding add_resolved_route_def route_flow_def by (auto simp: bindE_Inr)

lemma fib_run_adds:
  assumes "proto_ok (lib_ofp L)" and "mapE (route_flow L rm v mac d) us = Inr ms" and "u \<in> set us"
    and "\<forall>w \<in> set us. fib_key L rm w d = fib_key L rm u d \<longrightarrow> w = u"
  shows "routed_to L rm v mac d u (fib_run (fib_id rm) ms f)"
  using assms(2-4)
proof (induction us arbitrary: ms f)
  case Nil
  then show ?case by simp
next
  case (Cons w us)
  from Cons.prems(1) obtain m ns where m: "route_flow L rm v mac d w = Inr m"
      and ns: "mapE (route_flow L rm v mac d) us = Inr ns" and ms: "ms = m # ns"
    by (auto simp: bindE_Inr)
  show ?case
  proof (cases "u \<in> set us")
    case True
    with Cons.IH [OF ns True, of "fib_msg (fib_id rm) m f"] Cons.prems(3) ms show ?thesis by simp
  next
    case False
    with Cons.prems(2) have wu: "w = u" by simp
    from route_flow_Inr [OF assms(1) m] obtain fm where fm: "m = FlowModMsg fm"
        "(fm_priority fm, fm_match fm) = fib_key L rm u d" "fm_table_id fm = fib_id rm" "fm_command fm = OFPFC_ADD"
      unfolding wu by blast
    have "writes (fib_id rm) ((\<lambda>w. fib_key L rm w d) ` set us) ns"
      unfolding writes_def using route_flow_Inr [OF assms(1)] mapE_set [OF ns] by fastforce
    moreover have "fib_key L rm u d \<notin> (\<lambda>w. fib_key L rm w d) ` set us" using Cons.prems(3) False by force
    ultimately have "fib_run (fib_id rm) ns (fib_msg (fib_id rm) m f) (fib_key L rm u d) = Some fm"
      using fm by (simp add: fib_run_other)
    with m fm(1) ms wu show ?thesis by (auto simp: routed_to_def)
  qed
qed

definition vids_ok :: "route_mgr \<Rightarrow> int \<Rightarrow> bool" where
  "vids_ok rm vid \<longleftrightarrow> (\<forall>u \<in> set (routed_vlans rm vid). 0 < u \<and> u < 4096)"

lemma add_resolved_route_writes:
  assumes K: "proto_ok (lib_ofp L)" and r: "add_resolved_route L rm v mac upd d = Inr ms"
  shows "writes (fib_id rm) (route_keys L rm (v_vid v) d) ms"
proof -
  from r obtain dels adds where dels: "(if upd then del_route_flows L rm v d else Inr []) = Inr dels"
      and adds: "mapE (route_flow L rm v mac d) (routed_vlans rm (v_vid v)) = Inr adds" and ms: "ms = dels @ adds"
    unfolding add_resolved_route_Inr by blast
  have "writes (fib_id rm) (route_keys L rm (v_vid v) d) dels"
    using dels del_route_flows_writes [OF K] by (auto split: if_splits)
  moreover have "writes (fib_id rm) (route_keys L rm (v_vid v) d) adds"
    unfolding writes_def route_keys_def using route_flow_Inr [OF K] mapE_set [OF adds] by fastforce
  ultimately show ?thesis using ms by simp
qed

lemma add_resolved_route_routes:
  assumes K: "proto_ok (lib_ofp L)" and vids: "vids_ok rm (v_vid v)" and "net_ok d"
    and r: "add_resolved_route L rm v mac upd d = Inr ms"
  shows "\<forall>u \<in> set (routed_vlans rm (v_vid v)). routed_to L rm v mac d u (fib_run (fib_id rm) ms f)"
proof -
  from r obtain dels adds where dels: "(if upd then del_route_flows L rm v d else Inr []) = Inr dels"
      and adds: "mapE (route_flow L rm v mac d) (routed_vlans rm (v_vid v)) = Inr adds" and ms: "ms = dels @ adds"
    unfolding add_resolved_route_Inr by blast
  show "\<forall>u \<in> set (routed_vlans rm (v_vid v)). routed_to L rm v mac d u (fib_run (fib_id rm) ms f)"
  proof
    fix u assume u: "u \<in> set (routed_vlans rm (v_vid v))"
    have "\<forall>w \<in> set (routed_vlans rm (v_vid v)). fib_key L rm w d = fib_key L rm u d \<longrightarrow> w = u"
      using fib_key_inj(1) [OF K _ _ _ _ \<open>net_ok d\<close> \<open>net_ok d\<close>] vids u by (auto simp: vids_ok_def)
    from fib_run_adds [OF K adds u this] ms show "routed_to L rm v mac d u (fib_run (fib_id rm) ms f)" by simp
  qed
qed

lemma routed_to_other:
  "writes (fib_id rm) ks ms \<Longrightarrow> fib_key L rm u d \<notin> ks \<Longrightarrow>
   routed_to L rm v mac d u (fib_run (fib_id rm) ms f) \<longleftrightarrow> routed_to L rm v mac d u f"
  by (simp add: routed_to_def fib_run_other)

lemma routed_to_cong:
  "v_vid v' = v_vid v \<Longrightarrow> v_faucet_mac v' = v_faucet_mac v \<Longrightarrow> routed_to L rm v' mac d u f = routed_to L rm v mac d u f"
  by (simp add: routed_to_def route_flow_def nexthop_actions_def)

lemma route_keys_disjoint:
  assumes "proto_ok (lib_ofp L)" "vids_ok rm vid" "net_ok d" "net_ok e" "net_version d = net_version e" "d \<noteq> e"
    and "u \<in> set (routed_vlans rm vid)"
  shows "fib_key L rm u d \<notin> route_keys L rm vid e"
  using fib_key_inj(2) [OF assms(1) _ _ _ _ assms(3-5)] assms(2,6,7) by (auto simp: route_keys_def vids_ok_def)

lemma add_resolved_routes:
  assumes K: "proto_ok (lib_ofp L)" and vids: "vids_ok rm (v_vid v)"
    and "mapE (add_resolved_route L rm v mac upd) ds = Inr mss" and "distinct ds"
    and "\<forall>d \<in> set ds. net_ok d \<and> net_version d = ipv"
  shows "writes (fib_id rm) (\<Union>d \<in> set ds. route_keys L rm (v_vid v) d) (concat mss) \<and>
    (\<forall>d \<in> set ds. \<forall>u \<in> set (routed_vlans rm (v_vid v)). routed_to L rm v mac d u (fib_run (fib_id rm) (concat mss) f))"
  using assms(3-5)
proof (induction ds arbitrary: mss f)
  case Nil
  then show ?case by simp
next
  case (Cons d ds)
  from Cons.prems(1) obtain ms nss where ms: "add_resolved_route L rm v mac upd d = Inr ms"
      and nss: "mapE (add_resolved_route L rm v mac upd) ds = Inr nss" and mss: "mss = ms # nss"
    by (auto simp: bindE_Inr)
  have d: "net_ok d" "net_version d = ipv" using Cons.prems(3) by simp_all
  note r = add_resolved_route_writes [OF K ms] add_resolved_route_routes [OF K vids d(1) ms]
  from Cons.IH [OF nss, of "fib_run (fib_id rm) ms f"] Cons.prems(2,3)
  have w: "writes (fib_id rm) (\<Union>d \<in> set ds. route_keys L rm (v_vid v) d) (concat nss)"
    and rest: "\<forall>d \<in> set ds. \<forall>u \<in> set (routed_vlans rm (v_vid v)).
      routed_to L rm v mac d u (fib_run (fib_id rm) (concat nss) (fib_run (fib_id rm) ms f))" by simp_all
  have here: "routed_to L rm v mac d u (fib_run (fib_id rm) (concat nss) (fib_run (fib_id rm) ms f))"
    if u: "u \<in> set (routed_vlans rm (v_vid v))" for u
  proof -
    have "fib_key L rm u d \<notin> route_keys L rm (v_vid v) e" if "e \<in> set ds" for e
    proof (rule route_keys_disjoint [OF K vids d(1) _ _ _ u])
      show "net_ok e" "net_version d = net_version e" "d \<noteq> e" using Cons.prems(2,3) d(2) that by auto
    qed
    then have "fib_key L rm u d \<notin> (\<Union>d \<in> set ds. route_keys L rm (v_vid v) d)" by blast
    from routed_to_other [OF w this] r(2) u show ?thesis by blast
  qed
  have "writes (fib_id rm) (\<Union>d \<in> set (d # ds). route_keys L rm (v_vid v) d) ms" by (rule writes_mono [OF r(1)]) auto
  moreover have "writes (fib_id rm) (\<Union>d \<in> set (d # ds). route_keys L rm (v_vid v) d) (concat nss)" by (rule writes_mono [OF w]) auto
  moreover have "\<forall>e \<in> set (d # ds). \<forall>u \<in> set (routed_vlans rm (v_vid v)).
      routed_to L rm v mac e u (fib_run (fib_id rm) (concat nss) (fib_run (fib_id rm) ms f))"
    using here rest by (simp only: list.set ball_simps) simp
  ultimately show ?case unfolding mss concat.simps fib_run_simps writes_simps(2) by (intro conjI)
qed

section \<open>The FIB agrees with the routes\<close>

text \<open>
  The routes whose gateway is resolved are in the FIB; \<open>E\<close> are gateways for which they need not be. A route
  to a single host has that host as its gateway.
\<close>

definition versions_ok :: "route_mgr \<Rightarrow> vlan \<Rightarrow> bool" where
  "versions_ok rm v \<longleftrightarrow>
     (\<forall>g. vlan_nexthop_cache_entry rm v g \<noteq> None \<longrightarrow> ip_version g = rm_ipv rm) \<and>
     (\<forall>g \<in> set (by_ipv (v_dyn_host_gws v) (rm_ipv rm)) \<union> set (by_ipv (v_dyn_route_gws v) (rm_ipv rm)). ip_version g = rm_ipv rm)"

definition fib_ok :: "lib \<Rightarrow> route_mgr \<Rightarrow> ipaddr set \<Rightarrow> vlan \<Rightarrow> fib \<Rightarrow> bool" where
  "fib_ok L rm E v f \<longleftrightarrow>
     routes_ok v \<and> gw_types_ok v \<and> versions_ok rm v \<and>
     (\<forall>d g. route_of v d = Some g \<longrightarrow> net_ok d \<and> (net_prefixlen d = max_prefixlen (net_version d) \<longrightarrow> d = host_net g)) \<and>
     (\<forall>d g mac. route_of v d = Some g \<longrightarrow> net_version d = rm_ipv rm \<longrightarrow> g \<notin> E \<longrightarrow> cached_nexthop_eth_dst rm v g = Some mac \<longrightarrow>
        (\<forall>u \<in> set (routed_vlans rm (v_vid v)). routed_to L rm v mac d u f))"

lemma fib_okD:
  "fib_ok L rm E v f \<Longrightarrow> routes_ok v \<and> gw_types_ok v"
  "fib_ok L rm E v f \<Longrightarrow> route_of v d = Some g \<Longrightarrow> net_ok d"
  "fib_ok L rm E v f \<Longrightarrow> route_of v d = Some g \<Longrightarrow> net_prefixlen d = max_prefixlen (net_version d) \<Longrightarrow> d = host_net g"
  "fib_ok L rm E v f \<Longrightarrow> route_of v d = Some g \<Longrightarrow> net_version d = rm_ipv rm \<Longrightarrow> g \<notin> E \<Longrightarrow>
     cached_nexthop_eth_dst rm v g = Some mac \<Longrightarrow> u \<in> set (routed_vlans rm (v_vid v)) \<Longrightarrow> routed_to L rm v mac d u f"
  "fib_ok L rm E v f \<Longrightarrow> versions_ok rm v"
  unfolding fib_ok_def by blast+

text \<open>What an operation on a VLAN promises: it keeps its identity, touches its own flows, and the FIB stays right.\<close>

definition keeps :: "lib \<Rightarrow> route_mgr \<Rightarrow> ipaddr set \<Rightarrow> vlan \<Rightarrow> ofmsg list \<Rightarrow> ipaddr set \<Rightarrow> vlan \<Rightarrow> bool" where
  "keeps L rm E v ms E' v' \<longleftrightarrow>
     v_vid v' = v_vid v \<and>
     (\<forall>f. fib_ok L rm E v f \<longrightarrow> writes (fib_id rm) (\<Union>u \<in> set (routed_vlans rm (v_vid v)). vlan_keys L rm u) ms \<and>
        fib_ok L rm E' v' (fib_run (fib_id rm) ms f))"

lemma keeps_refl [simp]: "keeps L rm E v [] E v"
  by (simp add: keeps_def)

lemma keeps_trans: "keeps L rm E v ms E' v' \<Longrightarrow> keeps L rm E' v' ns E'' v'' \<Longrightarrow> keeps L rm E v (ms @ ns) E'' v''"
  by (fastforce simp: keeps_def)

lemma route_keys_vlan: "route_keys L rm vid d \<subseteq> (\<Union>u \<in> set (routed_vlans rm vid). vlan_keys L rm u)"
  unfolding route_keys_def using fib_key_vlan by blast

text \<open>Changes of the cache that resolve nothing.\<close>

definition same_routes :: "vlan \<Rightarrow> vlan \<Rightarrow> bool" where
  "same_routes v v' \<longleftrightarrow> v_vid v' = v_vid v \<and> v_faucet_mac v' = v_faucet_mac v \<and> v_dyn_routes v' = v_dyn_routes v \<and>
     v_dyn_gws v' = v_dyn_gws v \<and> v_dyn_host_gws v' = v_dyn_host_gws v \<and> v_dyn_route_gws v' = v_dyn_route_gws v"

lemma same_routes_ok:
  assumes "same_routes v v'"
  shows "route_of v' = route_of v" "ip_dsts_for_ip_gw v' = ip_dsts_for_ip_gw v" "routes_ok v' = routes_ok v" "gw_types_ok v' = gw_types_ok v"
proof -
  show r: "route_of v' = route_of v" using assms by (auto simp: same_routes_def route_of_def routes_by_ipv_def)
  show d: "ip_dsts_for_ip_gw v' = ip_dsts_for_ip_gw v" using assms by (auto simp: same_routes_def ip_dsts_for_ip_gw_def)
  show "routes_ok v' = routes_ok v" using assms by (simp add: routes_ok_def r d same_routes_def)
  have "is_host_fib_route v' g = is_host_fib_route v g" for g by (simp add: is_host_fib_route_def d)
  then show "gw_types_ok v' = gw_types_ok v" using assms by (simp add: gw_types_ok_def d same_routes_def)
qed

lemma keeps_cache:
  assumes same: "same_routes v v'" and versions: "versions_ok rm v \<Longrightarrow> versions_ok rm v'" and w: "writes (fib_id rm) {} ms"
    and c: "\<And>g mac. g \<notin> E' \<Longrightarrow> cached_nexthop_eth_dst rm v' g = Some mac \<Longrightarrow> g \<notin> E \<and> cached_nexthop_eth_dst rm v g = Some mac"
  shows "keeps L rm E v ms E' v'"
proof -
  have [simp]: "v_vid v' = v_vid v" and cong: "routed_to L rm v' mac d u f = routed_to L rm v mac d u f" for mac d u f
    using same routed_to_cong [of v' v] by (auto simp: same_routes_def)
  have run: "fib_run (fib_id rm) ms f = f" for f using fib_run_other [OF w] by (intro ext) simp
  show ?thesis
    unfolding keeps_def run using writes_mono [OF w] c versions
    by (auto simp: fib_ok_def same_routes_ok [OF same] cong)
qed

lemma fib_ok_after:
  assumes K: "proto_ok (lib_ofp L)" and vids: "vids_ok rm (v_vid v)" and old: "fib_ok L rm E v f"
    and same: "v_vid v' = v_vid v" "v_faucet_mac v' = v_faucet_mac v"
    and ok: "routes_ok v'" "gw_types_ok v'" "versions_ok rm v'"
    and D: "\<forall>d \<in> D. net_ok d \<and> net_version d = rm_ipv rm"
    and w: "writes (fib_id rm) (\<Union>d \<in> D. route_keys L rm (v_vid v) d) ms"
    and wf: "\<And>d g. route_of v' d = Some g \<Longrightarrow>
      net_ok d \<and> (net_prefixlen d = max_prefixlen (net_version d) \<longrightarrow> d = host_net g)"
    and inst: "\<And>d g mac u. route_of v' d = Some g \<Longrightarrow> net_version d = rm_ipv rm \<Longrightarrow> g \<notin> E' \<Longrightarrow>
      cached_nexthop_eth_dst rm v' g = Some mac \<Longrightarrow> u \<in> set (routed_vlans rm (v_vid v)) \<Longrightarrow>
      d \<notin> D \<and> route_of v d = Some g \<and> g \<notin> E \<and> cached_nexthop_eth_dst rm v g = Some mac \<or>
      routed_to L rm v mac d u (fib_run (fib_id rm) ms f)"
  shows "fib_ok L rm E' v' (fib_run (fib_id rm) ms f)"
proof -
  have "routed_to L rm v' mac d u (fib_run (fib_id rm) ms f)"
    if d: "route_of v' d = Some g" and v: "net_version d = rm_ipv rm" and g: "g \<notin> E'"
      and c: "cached_nexthop_eth_dst rm v' g = Some mac" and u: "u \<in> set (routed_vlans rm (v_vid v'))" for d g mac u
  proof -
    have u': "u \<in> set (routed_vlans rm (v_vid v))" using u same(1) by simp
    have "routed_to L rm v mac d u (fib_run (fib_id rm) ms f)"
    proof (rule disjE [OF inst [OF d v g c u']])
      assume r: "d \<notin> D \<and> route_of v d = Some g \<and> g \<notin> E \<and> cached_nexthop_eth_dst rm v g = Some mac"
      have "fib_key L rm u d \<notin> route_keys L rm (v_vid v) e" if e: "e \<in> D" for e
        by (rule route_keys_disjoint [OF K vids conjunct1 [OF wf [OF d]] _ _ _ u']) (use e D r v in auto)
      then have "fib_key L rm u d \<notin> (\<Union>d \<in> D. route_keys L rm (v_vid v) d)" by blast
      from routed_to_other [OF w this] fib_okD(4) [OF old _ v _ _ u'] r show ?thesis by blast
    qed
    then show ?thesis using routed_to_cong [OF same] by simp
  qed
  with ok wf show ?thesis unfolding fib_ok_def by blast
qed

lemma writes_route_keys:
  "writes (fib_id rm) (\<Union>d \<in> D. route_keys L rm vid d) ms \<Longrightarrow>
   writes (fib_id rm) (\<Union>u \<in> set (routed_vlans rm vid). vlan_keys L rm u) ms"
  by (erule writes_mono) (use route_keys_vlan in blast)

section \<open>The operations keep the FIB right\<close>

lemma cached_update [simp]:
  "cached_nexthop_eth_dst rm (update_nexthop_cache rm now mac p g v) g' =
     (if g' = g then mac else cached_nexthop_eth_dst rm v g')"
  "v_vid (update_nexthop_cache rm now mac p g v) = v_vid v"
  "v_faucet_mac (update_nexthop_cache rm now mac p g v) = v_faucet_mac v"
  by (auto simp: cached_nexthop_eth_dst_def vlan_nexthop_cache_entry_def vlan_nexthop_cache_def neigh_cache_by_ipv_def
      update_nexthop_cache_def put_nexthop_def set_nexthop_cache_def new_nexthop_def)

lemma versions_put [simp]: "ip_version g = rm_ipv rm \<Longrightarrow> versions_ok rm v \<Longrightarrow> versions_ok rm (put_nexthop rm g nh v)"
  by (auto simp: versions_ok_def put_nexthop_def set_nexthop_cache_def vlan_nexthop_cache_entry_def vlan_nexthop_cache_def
      neigh_cache_by_ipv_def)

lemma versions_update [simp]:
  "ip_version g = rm_ipv rm \<Longrightarrow> versions_ok rm v \<Longrightarrow> versions_ok rm (update_nexthop_cache rm now mac p g v)"
  by (simp add: update_nexthop_cache_def)

lemma same_routes_cache [simp]:
  "same_routes v (set_nexthop_cache rm d v)" "same_routes v (update_nexthop_cache rm now mac p g v)"
  "same_routes v (put_nexthop rm g nh v)"
  by (simp_all add: same_routes_def set_nexthop_cache_def update_nexthop_cache_def put_nexthop_def)

lemma keeps_update_nexthop:
  assumes K: "proto_ok (lib_ofp L)" and vids: "vids_ok rm (v_vid v)" and g: "ip_version g = rm_ipv rm"
    and r: "update_nexthop L rm now p mac g v = Inr (ms, v')"
  shows "keeps L rm E v ms E v'"
proof -
  let ?old = "cached_nexthop_eth_dst rm v g" and ?ds = "ip_dsts_for_ip_gw v g"
  from r obtain mss where mss: "(if ?old \<noteq> Some mac then mapE (add_resolved_route L rm v mac (?old \<noteq> None)) ?ds else Inr []) = Inr mss"
      and ms: "ms = concat mss" and v': "v' = update_nexthop_cache rm now (Some mac) (Some p) g v"
    by (auto simp: update_nexthop_def Let_def bindE_Inr)
  note same = same_routes_ok [OF same_routes_cache(2) [of v rm now "Some mac" "Some p" g], folded v']
  define D where "D = (if ?old \<noteq> Some mac then set ?ds else {})"
  have w: "writes (fib_id rm) (\<Union>d \<in> D. route_keys L rm (v_vid v) d) ms"
  proof (cases "?old = Some mac")
    case True
    with mss ms show ?thesis by simp
  next
    case False
    have "\<exists>d \<in> D. writes (fib_id rm) (route_keys L rm (v_vid v) d) ns" if "ns \<in> set mss" for ns
      using mapE_set [of _ ?ds mss ns] mss False that add_resolved_route_writes [OF K] D_def by fastforce
    then show ?thesis unfolding ms writes_simps(3) using writes_mono by (metis UN_upper)
  qed
  have "fib_ok L rm E v' (fib_run (fib_id rm) ms f)" if f: "fib_ok L rm E v f" for f
  proof (rule fib_ok_after [OF K vids f _ _ _ _ _ _ w])
    have routes: "d \<in> set ?ds \<longleftrightarrow> route_of v d = Some g" for d using fib_okD(1) [OF f] by (simp add: routes_ok_def)
    have ds: "\<forall>d \<in> set ?ds. net_ok d \<and> net_version d = rm_ipv rm"
      using fib_okD(1,2) [OF f] g unfolding routes routes_ok_def by metis
    then show "\<forall>d \<in> D. net_ok d \<and> net_version d = rm_ipv rm" by (simp add: D_def)
    fix d g'
    show "net_ok d \<and> (net_prefixlen d = max_prefixlen (net_version d) \<longrightarrow> d = host_net g')" if "route_of v' d = Some g'"
      using fib_okD(2,3) [OF f] that same(1) by simp
    fix mac' u
    assume d: "route_of v' d = Some g'" and c: "g' \<notin> E" "cached_nexthop_eth_dst rm v' g' = Some mac'"
      and u: "u \<in> set (routed_vlans rm (v_vid v))"
    show "d \<notin> D \<and> route_of v d = Some g' \<and> g' \<notin> E \<and> cached_nexthop_eth_dst rm v g' = Some mac' \<or>
        routed_to L rm v mac' d u (fib_run (fib_id rm) ms f)"
    proof (cases "g' = g \<and> ?old \<noteq> Some mac")
      case False
      with d c same(1) routes show ?thesis by (auto simp: v' D_def split: if_splits)
    next
      case True
      have "distinct ?ds" using fib_okD(1) [OF f] by (simp add: routes_ok_def)
      moreover have "mapE (add_resolved_route L rm v mac (?old \<noteq> None)) ?ds = Inr mss" using mss True by simp
      ultimately have "\<forall>d \<in> set ?ds. \<forall>u \<in> set (routed_vlans rm (v_vid v)). routed_to L rm v mac d u (fib_run (fib_id rm) (concat mss) f)"
        using add_resolved_routes [OF K vids _ _ ds] by blast
      moreover have "mac' = mac" "d \<in> set ?ds" using True c d same(1) routes by (simp_all add: v')
      ultimately show ?thesis using u ms by blast
    qed
  qed (use fib_okD(1,5) [OF that] same g in \<open>simp_all add: v'\<close>)
  then show ?thesis using writes_route_keys [OF w] by (simp add: keeps_def v')
qed

lemma update_gw_types_config [simp]:
  "v_vid (update_gw_types g v) = v_vid v" "v_faucet_mac (update_gw_types g v) = v_faucet_mac v"
  "v_dyn_neigh_cache (update_gw_types g v) = v_dyn_neigh_cache v" "v_faucet_vips (update_gw_types g v) = v_faucet_vips v"
  by (simp_all add: update_gw_types_def Let_def)

lemma route_config [simp]:
  "v_vid (add_route d g v) = v_vid v" "v_faucet_mac (add_route d g v) = v_faucet_mac v"
  "v_dyn_neigh_cache (add_route d g v) = v_dyn_neigh_cache v" "v_faucet_vips (add_route d g v) = v_faucet_vips v"
  by (simp_all add: add_route_def Let_def)

lemma del_route_config:
  "del_route d v = Inr v' \<Longrightarrow> v_vid v' = v_vid v \<and> v_faucet_mac v' = v_faucet_mac v \<and> v_dyn_neigh_cache v' = v_dyn_neigh_cache v \<and>
     v_faucet_vips v' = v_faucet_vips v"
  by (auto simp: del_route_def Let_def bindE_Inr split: if_splits)

lemma versions_cong:
  "v_dyn_neigh_cache v' = v_dyn_neigh_cache v \<Longrightarrow> v_dyn_host_gws v' = v_dyn_host_gws v \<Longrightarrow> v_dyn_route_gws v' = v_dyn_route_gws v \<Longrightarrow>
   versions_ok rm v' = versions_ok rm v"
  by (simp add: versions_ok_def vlan_nexthop_cache_entry_def vlan_nexthop_cache_def neigh_cache_by_ipv_def)

lemma versions_gw_types [simp]:
  assumes "versions_ok rm v" shows "versions_ok rm (update_gw_types g v)"
proof -
  have c: "vlan_nexthop_cache_entry rm (update_gw_types g v) x = vlan_nexthop_cache_entry rm v x" for x
    by (simp add: vlan_nexthop_cache_entry_def vlan_nexthop_cache_def neigh_cache_by_ipv_def)
  show ?thesis
    unfolding versions_ok_def c
  proof (intro conjI ballI)
    fix x assume "x \<in> set (by_ipv (v_dyn_host_gws (update_gw_types g v)) (rm_ipv rm)) \<union>
        set (by_ipv (v_dyn_route_gws (update_gw_types g v)) (rm_ipv rm))"
    then have "x = g \<and> rm_ipv rm = ip_version g \<or>
        x \<in> set (by_ipv (v_dyn_host_gws v) (rm_ipv rm)) \<union> set (by_ipv (v_dyn_route_gws v) (rm_ipv rm))"
      by (simp add: gw_types_update split: if_splits)
    then show "ip_version x = rm_ipv rm"
    proof
      assume "x \<in> set (by_ipv (v_dyn_host_gws v) (rm_ipv rm)) \<union> set (by_ipv (v_dyn_route_gws v) (rm_ipv rm))"
      with assms show ?thesis unfolding versions_ok_def by blast
    qed simp
  qed (use assms in \<open>simp add: versions_ok_def\<close>)
qed

lemma versions_route [simp]: "versions_ok rm v \<Longrightarrow> versions_ok rm (add_route d g v)"
  unfolding add_route_def Let_def by (rule versions_gw_types, rule iffD2 [OF versions_cong [of _ v]]) simp_all

lemma versions_del_route:
  assumes "del_route d v = Inr v'" and "versions_ok rm v"
  shows "versions_ok rm v'"
proof -
  from assms(1) obtain g w where v': "v' = update_gw_types g w" and w: "v_dyn_neigh_cache w = v_dyn_neigh_cache v"
      "v_dyn_host_gws w = v_dyn_host_gws v" "v_dyn_route_gws w = v_dyn_route_gws v"
    by (fastforce simp: del_route_def Let_def bindE_Inr split: if_splits)
  show ?thesis unfolding v' using versions_cong [OF w] assms(2) by simp
qed

lemma cached_same_cache:
  "v_dyn_neigh_cache v' = v_dyn_neigh_cache v \<Longrightarrow> cached_nexthop_eth_dst rm v' g = cached_nexthop_eth_dst rm v g"
  by (simp add: cached_nexthop_eth_dst_def vlan_nexthop_cache_entry_def vlan_nexthop_cache_def neigh_cache_by_ipv_def)

lemma is_faucet_vip_net_False [simp]: "is_faucet_vip_net v n = False"
  by (simp add: is_faucet_vip_net_def net_in_net_def find_None_iff)

lemma keeps_del_route:
  assumes K: "proto_ok (lib_ofp L)" and vids: "vids_ok rm (v_vid v)" and d: "net_version d = rm_ipv rm"
    and r: "route_del_route L rm d v = Inr (ms, v')"
  shows "keeps L rm E v ms E v' \<and> v_dyn_neigh_cache v' = v_dyn_neigh_cache v \<and> v_faucet_vips v' = v_faucet_vips v"
proof (cases "dict_get (routes_by_ipv v (rm_ipv rm)) d = None")
  case True
  with r show ?thesis by (simp add: route_del_route_def)
next
  case False
  with r have v': "del_route d v = Inr v'" and ms: "del_route_flows L rm v' d = Inr ms"
    by (auto simp: route_del_route_def bindE_Inr)
  note config = del_route_config [OF v']
  from False d obtain g0 where g0: "route_of v d = Some g0" by (auto simp: route_of_def)
  have w: "writes (fib_id rm) (\<Union>d \<in> {d}. route_keys L rm (v_vid v) d) ms"
    using del_route_flows_writes [OF K ms] config by simp
  have "fib_ok L rm E v' (fib_run (fib_id rm) ms f)" if f: "fib_ok L rm E v f" for f
  proof (rule fib_ok_after [OF K vids f _ _ _ _ _ _ w])
    note ok = fib_okD(1) [OF f]
    from del_route_ok [OF conjunct1 [OF ok] conjunct2 [OF ok] g0] v'
    have del: "routes_ok v'" "gw_types_ok v'" "route_of v' = (route_of v)(d := None)" by simp_all
    then show "routes_ok v'" "gw_types_ok v'" by simp_all
    show "versions_ok rm v'" by (rule versions_del_route [OF v' fib_okD(5) [OF f]])
    show "\<forall>d \<in> {d}. net_ok d \<and> net_version d = rm_ipv rm" using fib_okD(2) [OF f g0] d by simp
    fix e g
    assume e: "route_of v' e = Some g"
    then have old: "e \<noteq> d" "route_of v e = Some g" using del(3) by (auto split: if_splits)
    show "net_ok e \<and> (net_prefixlen e = max_prefixlen (net_version e) \<longrightarrow> e = host_net g)"
      using fib_okD(2,3) [OF f old(2)] by simp
    fix mac u assume "g \<notin> E" "cached_nexthop_eth_dst rm v' g = Some mac"
    then show "e \<notin> {d} \<and> route_of v e = Some g \<and> g \<notin> E \<and> cached_nexthop_eth_dst rm v g = Some mac \<or>
        routed_to L rm v mac e u (fib_run (fib_id rm) ms f)"
      using old cached_same_cache [of v' v] config by simp
  qed (use config in simp_all)
  then show ?thesis using writes_route_keys [OF w] config by (simp add: keeps_def)
qed

text \<open>Deleting flows of routes whose gateway is not resolved.\<close>

lemma keeps_del_flows:
  assumes K: "proto_ok (lib_ofp L)" and vids: "vids_ok rm (v_vid v)" and g: "ip_version g = rm_ipv rm"
    and c: "cached_nexthop_eth_dst rm v g = None" and r: "mapE (del_route_flows L rm v) (ip_dsts_for_ip_gw v g) = Inr mss"
  shows "keeps L rm E v (concat mss) E v"
proof -
  let ?ds = "set (ip_dsts_for_ip_gw v g)"
  have w: "writes (fib_id rm) (\<Union>d \<in> ?ds. route_keys L rm (v_vid v) d) (concat mss)"
    unfolding writes_simps(3) using mapE_set [OF r] del_route_flows_writes [OF K] writes_mono by (metis UN_upper)
  have "fib_ok L rm E v (fib_run (fib_id rm) (concat mss) f)" if f: "fib_ok L rm E v f" for f
  proof (rule fib_ok_after [OF K vids f _ _ _ _ _ _ w])
    have routes: "d \<in> ?ds \<longleftrightarrow> route_of v d = Some g" for d using fib_okD(1) [OF f] by (simp add: routes_ok_def)
    show "\<forall>d \<in> ?ds. net_ok d \<and> net_version d = rm_ipv rm"
      using fib_okD(1,2) [OF f] g unfolding routes routes_ok_def by metis
    fix d g'
    assume d: "route_of v d = Some g'"
    show "net_ok d \<and> (net_prefixlen d = max_prefixlen (net_version d) \<longrightarrow> d = host_net g')" using fib_okD(2,3) [OF f d] by simp
    fix mac u assume "g' \<notin> E" "cached_nexthop_eth_dst rm v g' = Some mac"
    then show "d \<notin> ?ds \<and> route_of v d = Some g' \<and> g' \<notin> E \<and> cached_nexthop_eth_dst rm v g' = Some mac \<or>
        routed_to L rm v mac d u (fib_run (fib_id rm) (concat mss) f)"
      using d c unfolding routes by auto
  qed (use fib_okD(1,5) [OF that] in simp_all)
  then show ?thesis using writes_route_keys [OF w] by (simp add: keeps_def)
qed

lemma del_cache_entry:
  assumes "del_vlan_nexthop_cache_entry rm g v = Inr v'"
  shows "versions_ok rm v \<Longrightarrow> versions_ok rm v'" "same_routes v v'" "v_faucet_vips v' = v_faucet_vips v" "cached_nexthop_eth_dst rm v' g' = (if g' = g then None else cached_nexthop_eth_dst rm v g')"
proof -
  from assms have v': "v' = set_nexthop_cache rm (dict_del g (vlan_nexthop_cache rm v)) v"
    by (auto simp: del_vlan_nexthop_cache_entry_def bindE_Inr)
  show "same_routes v v'" "v_faucet_vips v' = v_faucet_vips v" unfolding v' by (simp_all add: same_routes_def set_nexthop_cache_def)
  have e: "vlan_nexthop_cache_entry rm v' x = (if x = g then None else vlan_nexthop_cache_entry rm v x)" for x
    by (simp add: v' vlan_nexthop_cache_entry_def vlan_nexthop_cache_def neigh_cache_by_ipv_def set_nexthop_cache_def)
  then show "cached_nexthop_eth_dst rm v' g' = (if g' = g then None else cached_nexthop_eth_dst rm v g')"
    by (simp add: cached_nexthop_eth_dst_def)
  show "versions_ok rm v'" if "versions_ok rm v"
    using that unfolding versions_ok_def e by (simp add: v' set_nexthop_cache_def)
qed

text \<open>Messages that only take flows away may be left out.\<close>

lemma keeps_silent:
  assumes k: "keeps L rm E v ms E v'" and mac: "v_faucet_mac v' = v_faucet_mac v"
    and r: "\<And>f d g. fib_ok L rm E v f \<Longrightarrow> route_of v' d = Some g \<Longrightarrow> route_of v d = Some g"
    and c: "\<And>g mac. cached_nexthop_eth_dst rm v' g = Some mac \<Longrightarrow> cached_nexthop_eth_dst rm v g = Some mac"
  shows "keeps L rm E v [] E v'"
proof -
  have vid: "v_vid v' = v_vid v" using k by (simp add: keeps_def)
  have "fib_ok L rm E v' f" if f: "fib_ok L rm E v f" for f
  proof -
    have f': "fib_ok L rm E v' (fib_run (fib_id rm) ms f)" using k f by (simp add: keeps_def)
    show ?thesis
      using fib_okD(1-3,5) [OF f'] fib_okD(4) [OF f] r [OF f] c routed_to_cong [OF vid mac] vid unfolding fib_ok_def by metis
  qed
  then show ?thesis using vid by (simp add: keeps_def)
qed

lemma keeps_expire_gateway:
  assumes K: "proto_ok (lib_ofp L)" and vids: "vids_ok rm (v_vid v)" and g: "ip_version g = rm_ipv rm"
    and r: "expire_gateway_flows L rm g nh v = Inr (ms, v')"
  shows "keeps L rm E v ms E v' \<and> v_faucet_vips v' = v_faucet_vips v"
proof -
  from r obtain v1 ms1 mss where v1: "del_vlan_nexthop_cache_entry rm g v = Inr v1"
      and host: "del_host_fib_route L rm g v1 = Inr (ms1, v')"
      and mss: "mapE (del_route_flows L rm v') (ip_dsts_for_ip_gw v' g) = Inr mss"
      and ms: "ms = (if nh_port nh = None then [] else ms1 @ concat mss)"
    by (auto simp: expire_gateway_flows_def bindE_Inr)
  have same: "v_vid v1 = v_vid v" "v_faucet_mac v1 = v_faucet_mac v" using del_cache_entry(2) [OF v1] by (simp_all add: same_routes_def)
  have k1: "keeps L rm E v [] E v1" by (rule keeps_cache) (use del_cache_entry [OF v1] in \<open>auto split: if_splits\<close>)
  have vids1: "vids_ok rm (v_vid v1)" using vids same by simp
  have hd: "net_version (host_net g) = rm_ipv rm" using g by (simp add: host_net_def)
  note k2 = keeps_del_route [OF K vids1 hd host [unfolded del_host_fib_route_def], of E]
  have vid': "v_vid v' = v_vid v1" using k2 by (simp add: keeps_def)
  have c: "cached_nexthop_eth_dst rm v' g = None"
    using k2 cached_same_cache [of v' v1] del_cache_entry(4) [OF v1, of g] by simp
  have k3: "keeps L rm E v' (concat mss) E v'"
    by (rule keeps_del_flows [OF K _ g c mss]) (use vids1 vid' in simp)
  have all: "keeps L rm E v (ms1 @ concat mss) E v'"
    using keeps_trans [OF k1 keeps_trans [OF conjunct1 [OF k2] k3]] by simp
  have "keeps L rm E v [] E v'"
  proof (rule keeps_silent [OF all])
    show "v_faucet_mac v' = v_faucet_mac v"
      using host same by (auto simp: del_host_fib_route_def route_del_route_def bindE_Inr dest: del_route_config split: if_splits)
    fix mac g' assume "cached_nexthop_eth_dst rm v' g' = Some mac"
    then show "cached_nexthop_eth_dst rm v g' = Some mac"
      using k2 cached_same_cache [of v' v1] del_cache_entry(4) [OF v1, of g'] by (simp split: if_splits)
  next
    fix f d g' assume f: "fib_ok L rm E v f" and d: "route_of v' d = Some g'"
    have f1: "fib_ok L rm E v1 f" using k1 f by (simp add: keeps_def)
    show "route_of v d = Some g'"
    proof (cases "v' = v1")
      case True
      with d show ?thesis using same_routes_ok(1) [OF del_cache_entry(2) [OF v1]] by simp
    next
      case False
      with host have del: "del_route (host_net g) v1 = Inr v'"
        by (auto simp: del_host_fib_route_def route_del_route_def bindE_Inr split: if_splits)
      from del_route_present [OF del] obtain g0 where "route_of v1 (host_net g) = Some g0" by blast
      from del_route_ok [OF conjunct1 [OF fib_okD(1) [OF f1]] conjunct2 [OF fib_okD(1) [OF f1]] this] del d
      have "route_of v1 d = Some g'" by (auto split: if_splits)
      then show ?thesis using same_routes_ok(1) [OF del_cache_entry(2) [OF v1]] by simp
    qed
  qed
  with all ms k2 del_cache_entry(3) [OF v1] show ?thesis by simp
qed

text \<open>A route to a new destination.\<close>

definition route_allowed :: "route_mgr \<Rightarrow> ipnet \<Rightarrow> ipaddr \<Rightarrow> bool" where
  "route_allowed rm d g \<longleftrightarrow> net_ok d \<and> net_version d = rm_ipv rm \<and> ip_version g = rm_ipv rm \<and>
     (net_prefixlen d = max_prefixlen (net_version d) \<longrightarrow> d = host_net g)"

lemma keeps_add_route:
  assumes K: "proto_ok (lib_ofp L)" and vids: "vids_ok rm (v_vid v)" and a: "route_allowed rm d g"
    and new: "route_of v d \<in> {None, Some g}" and r: "add_route_on_vlan L rm g d v = Inr (ms, v')"
  shows "keeps L rm E v ms E v'"
proof (cases "dict_get (routes_by_ipv v (rm_ipv rm)) d = Some g")
  case True
  with r show ?thesis by (simp add: add_route_on_vlan_def)
next
  case False
  let ?v = "add_route d g v"
  have v': "v' = ?v" using r False by (auto simp: add_route_on_vlan_def Let_def bindE_Inr split: option.splits)
  have c: "cached_nexthop_eth_dst rm ?v g' = cached_nexthop_eth_dst rm v g'" for g' by (rule cached_same_cache) simp
  have ms: "(case cached_nexthop_eth_dst rm v g of None \<Rightarrow> ms = []
      | Some mac \<Rightarrow> add_resolved_route L rm ?v mac False d = Inr ms)"
    using r False by (auto simp: add_route_on_vlan_def Let_def bindE_Inr c split: option.splits)
  have w: "writes (fib_id rm) (\<Union>d \<in> {d}. route_keys L rm (v_vid v) d) ms"
    using ms add_resolved_route_writes [OF K, of rm ?v] by (auto split: option.splits)
  have "fib_ok L rm E v' (fib_run (fib_id rm) ms f)" if f: "fib_ok L rm E v f" for f
  proof (rule fib_ok_after [OF K vids f _ _ _ _ _ _ w])
    note ok = fib_okD(1) [OF f]
    have "net_version d = ip_version g" using a by (simp add: route_allowed_def)
    note add = add_route_ok [OF conjunct1 [OF ok] conjunct2 [OF ok] this new]
    then show "routes_ok v'" "gw_types_ok v'" by (simp_all add: v')
    show "versions_ok rm v'" using fib_okD(5) [OF f] by (simp add: v')
    show "\<forall>d \<in> {d}. net_ok d \<and> net_version d = rm_ipv rm" using a by (simp add: route_allowed_def)
    fix e g'
    assume e: "route_of v' e = Some g'"
    then have old: "e = d \<and> g' = g \<or> e \<noteq> d \<and> route_of v e = Some g'" using add by (auto simp: v' split: if_splits)
    show "net_ok e \<and> (net_prefixlen e = max_prefixlen (net_version e) \<longrightarrow> e = host_net g')"
      using fib_okD(2,3) [OF f] old a by (auto simp: route_allowed_def)
    fix mac u assume E: "g' \<notin> E" "cached_nexthop_eth_dst rm v' g' = Some mac" and u: "u \<in> set (routed_vlans rm (v_vid v))"
    show "e \<notin> {d} \<and> route_of v e = Some g' \<and> g' \<notin> E \<and> cached_nexthop_eth_dst rm v g' = Some mac \<or>
        routed_to L rm v mac e u (fib_run (fib_id rm) ms f)"
    proof (cases "e = d")
      case False
      with old E c show ?thesis by (simp add: v')
    next
      case True
      with old E(2) c have "cached_nexthop_eth_dst rm v g = Some mac" by (simp add: v')
      with ms have m: "add_resolved_route L rm ?v mac False d = Inr ms" by simp
      have "net_ok d" using a by (simp add: route_allowed_def)
      from add_resolved_route_routes [OF K _ this m] vids u routed_to_cong [of ?v v] True show ?thesis by simp
    qed
  qed (simp_all add: v')
  then show ?thesis using writes_route_keys [OF w] by (simp add: keeps_def v')
qed

text \<open>A blackhole takes the place of the route to a host.\<close>

lemma keeps_blackhole:
  assumes K: "proto_ok (lib_ofp L)" and vids: "vids_ok rm (v_vid v)" and a: "ip_ok a" "ip_version a = rm_ipv rm"
    and r: "blackhole_flows L R rm (v_vid v) a = Inr ms"
  shows "keeps L rm E v ms (insert a E) v"
proof -
  have host: "net_ok (host_net a)" "net_version (host_net a) = rm_ipv rm" "net_prefixlen (host_net a) = max_prefixlen (net_version (host_net a))"
    using a by (simp_all add: net_ok_def host_net_def network_addr_def ip_ok_def)
  have w: "writes (fib_id rm) (\<Union>d \<in> {host_net a}. route_keys L rm (v_vid v) d) ms"
    unfolding writes_def
  proof
    fix m assume "m \<in> set ms"
    then obtain u where u: "u \<in> set (routed_vlans rm (v_vid v))" and m: "tbl_flowmod L (rm_fib_table rm)
        (route_match L rm u (interface_match (host_ip_to_host_int a)))
        (flow_defaults\<lparr>fa_priority := Some (route_priority rm (host_net a)),
           fa_hard_timeout := rm_max_resolve_backoff_time rm * rm_max_host_fib_retry_count rm +
             rl_randint R 0 (rm_max_resolve_backoff_time rm * 2)\<rparr>) = Inr m"
      using mapE_set [OF r [unfolded blackhole_flows_def Let_def]] by blast
    from fib_flow [OF K m] obtain fm where fm: "m = FlowModMsg fm" "(fm_priority fm, fm_match fm) = fib_key L rm u (host_net a)"
      by (auto simp: fib_key_def)
    then show "case m of FlowModMsg fm \<Rightarrow> fm_table_id fm = fib_id rm \<longrightarrow>
        (fm_priority fm, fm_match fm) \<in> (\<Union>d \<in> {host_net a}. route_keys L rm (v_vid v) d) | _ \<Rightarrow> True"
      using u by (auto simp: route_keys_def)
  qed
  have "fib_ok L rm (insert a E) v (fib_run (fib_id rm) ms f)" if f: "fib_ok L rm E v f" for f
  proof (rule fib_ok_after [OF K vids f _ _ _ _ _ _ w])
    show "\<forall>d \<in> {host_net a}. net_ok d \<and> net_version d = rm_ipv rm" using host by simp
    fix d g assume d: "route_of v d = Some g"
    show "net_ok d \<and> (net_prefixlen d = max_prefixlen (net_version d) \<longrightarrow> d = host_net g)" using fib_okD(2,3) [OF f d] by simp
    fix mac u assume g: "g \<notin> insert a E" "cached_nexthop_eth_dst rm v g = Some mac"
    have "d \<noteq> host_net a"
    proof
      assume "d = host_net a"
      with fib_okD(3) [OF f d] host(3) have "host_net g = host_net a" by simp
      then have "g = a" by (cases g; cases a) (simp add: host_net_def)
      with g show False by simp
    qed
    with d g show "d \<notin> {host_net a} \<and> route_of v d = Some g \<and> g \<notin> E \<and> cached_nexthop_eth_dst rm v g = Some mac \<or>
        routed_to L rm v mac d u (fib_run (fib_id rm) ms f)" by simp
  qed (use fib_okD(1,5) [OF that] in simp_all)
  then show ?thesis using writes_route_keys [OF w] by (simp add: keeps_def)
qed

section \<open>Resolution keeps the FIB right\<close>

lemma packetouts_write [simp]: "\<forall>m \<in> set ms. is_packetout m \<Longrightarrow> writes t ks ms"
  unfolding writes_def by (intro ballI) (auto split: ofmsg.splits)

lemma packetout_is [simp]: "is_packetout (packetout sh p pkt)" "is_packetout (packetouts sh ps pkt)"
  by (simp_all add: packetout_def packetouts_def)

lemma flood_pkt_packetouts: "flood_pkt sh builder multi_out v = Inr ms \<Longrightarrow> \<forall>m \<in> set ms. is_packetout m"
  by (auto simp: flood_pkt_def flood_pkt_ports_def bindE_Inr Let_def split: if_splits)

lemma resolve_gw_packetouts: "resolve_gw_on_vlan L P rm v vip g = Inr ms \<Longrightarrow> \<forall>m \<in> set ms. is_packetout m"
proof -
  assume "resolve_gw_on_vlan L P rm v vip g = Inr ms"
  then obtain ns where ns: "flood_pkt (lib_shuffle L) (\<lambda>vid. gw_resolve_pkt L P rm vid (v_faucet_mac v) BROADCAST_STR (if_ip vip) g)
        (rm_multi_out rm) v = Inr ns"
      and ms: "ms = flood_stack_links L rm (\<lambda>vid. gw_resolve_pkt L P rm vid (v_faucet_mac v) BROADCAST_STR (if_ip vip) g) v
        (rm_multi_out rm) @ ns"
    by (auto simp: resolve_gw_on_vlan_def bindE_Inr Let_def)
  have "\<forall>m \<in> set (flood_stack_links L rm b v mo). is_packetout m" for b mo
    by (auto simp: flood_stack_links_def Let_def split: option.splits)
  with flood_pkt_packetouts [OF ns] ms show ?thesis by auto
qed

lemma cached_put [simp]:
  "cached_nexthop_eth_dst rm (put_nexthop rm g nh v) g' = (if g' = g then nh_eth_src nh else cached_nexthop_eth_dst rm v g')"
  by (simp add: cached_nexthop_eth_dst_def vlan_nexthop_cache_entry_def vlan_nexthop_cache_def neigh_cache_by_ipv_def
      put_nexthop_def set_nexthop_cache_def)

lemma resolve_gateway_result:
  assumes "resolve_gateway_flows L P R rm now g nh v = Inr (ms, v')"
  shows "(v' = v \<and> ms = [] \<or> v' = put_nexthop rm g (next_retry (rl_randint R) nh now (rm_max_resolve_backoff_time rm)) v) \<and>
    (\<forall>m \<in> set ms. is_packetout m)"
  using assms
  by (auto simp: resolve_gateway_flows_def Let_def bindE_Inr resolve_gw_on_port_def pkt_out_port_def
      dest: resolve_gw_packetouts split: option.splits if_splits)

lemma keeps_resolve_gateway:
  assumes nh: "\<And>mac. g \<notin> E' \<Longrightarrow> nh_eth_src nh = Some mac \<Longrightarrow> g \<notin> E \<and> cached_nexthop_eth_dst rm v g = Some mac"
    and g: "ip_version g = rm_ipv rm" and E: "E \<subseteq> insert g E'"
    and r: "resolve_gateway_flows L P R rm now g nh v = Inr (ms, v')" and m: "v' = v \<Longrightarrow> E \<subseteq> E'"
  shows "keeps L rm E v ms E' v'"
proof (rule keeps_cache)
  note res = resolve_gateway_result [OF r]
  show "same_routes v v'" using res by (auto simp: same_routes_def put_nexthop_def set_nexthop_cache_def)
  show "versions_ok rm v \<Longrightarrow> versions_ok rm v'" using res g by auto
  show "writes (fib_id rm) {} ms" using res by simp
  fix g' mac assume "g' \<notin> E'" "cached_nexthop_eth_dst rm v' g' = Some mac"
  then show "g' \<notin> E \<and> cached_nexthop_eth_dst rm v g' = Some mac" using res nh E m by (auto split: if_splits)
qed

text \<open>
  What the loop over unresolved gateways relies on: its handler, called with what the cache holds for a
  gateway, keeps the FIB right.
\<close>

locale resolver =
  fixes L :: lib and rm :: route_mgr and handler :: resolve_handler
  assumes handler_keeps: "proto_ok (lib_ofp L) \<Longrightarrow> vids_ok rm (v_vid v) \<Longrightarrow> ip_version g = rm_ipv rm \<Longrightarrow>
      vlan_nexthop_cache_entry rm v g = Some nh \<Longrightarrow> handler g nh v = Inr (ms, v') \<Longrightarrow> keeps L rm {} v ms {} v'"
    and handler_vid: "handler g nh v = Inr (ms, v') \<Longrightarrow> v_vid v' = v_vid v"
begin

lemma loop_vid: "resolve_gateways_flows rm handler now gws n v = Inr (ms, v') \<Longrightarrow> v_vid v' = v_vid v"
proof (induction gws arbitrary: n v ms)
  case Nil
  then show ?case by simp
next
  case (Cons g gws)
  then show ?case by (auto simp: bindE_Inr split: if_splits option.splits dest: handler_vid)
qed

lemma loop_keeps:
  assumes K: "proto_ok (lib_ofp L)"
  shows "vids_ok rm (v_vid v) \<Longrightarrow> resolve_gateways_flows rm handler now gws n v = Inr (ms, v') \<Longrightarrow> keeps L rm {} v ms {} v'"
proof (induction gws arbitrary: n v ms)
  case Nil
  then show ?case by simp
next
  case (Cons g gws)
  show ?case
  proof (cases "n = 0")
    case True
    with Cons.prems show ?thesis by simp
  next
    case n: False
    show ?thesis
    proof (cases "case vlan_nexthop_cache_entry rm v g of None \<Rightarrow> False | Some nh \<Rightarrow> resolution_due nh now (rm_neighbor_timeout rm)")
      case False
      with n Cons.prems have "resolve_gateways_flows rm handler now gws n v = Inr (ms, v')" by (simp split: option.splits)
      from Cons.IH [OF Cons.prems(1) this] show ?thesis .
    next
      case True
      then obtain nh where nh: "vlan_nexthop_cache_entry rm v g = Some nh" "resolution_due nh now (rm_neighbor_timeout rm)"
        by (auto split: option.splits)
      with n Cons.prems(2) obtain fl v1 ns where h: "handler g nh v = Inr (fl, v1)"
          and rest: "resolve_gateways_flows rm handler now gws (if fl \<noteq> [] then n - 1 else n) v1 = Inr (ns, v')" and ms: "ms = fl @ ns"
        by (auto simp: bindE_Inr)
      show ?thesis
        unfolding keeps_def
      proof (intro conjI allI impI)
        have k: "ip_version g = rm_ipv rm \<Longrightarrow> keeps L rm {} v ms {} v'"
        proof -
          assume v: "ip_version g = rm_ipv rm"
          note k1 = handler_keeps [OF K Cons.prems(1) v nh(1) h]
          have "vids_ok rm (v_vid v1)" using k1 Cons.prems(1) by (simp add: keeps_def)
          from keeps_trans [OF k1 Cons.IH [OF this rest]] ms show ?thesis by simp
        qed
        show "v_vid v' = v_vid v" by (rule loop_vid [OF Cons.prems(2)])
        fix f assume "fib_ok L rm {} v f"
        with k show "writes (fib_id rm) (\<Union> (vlan_keys L rm ` set (routed_vlans rm (v_vid v)))) ms"
            "fib_ok L rm {} v' (fib_run (fib_id rm) ms f)"
          using nh(1) fib_okD(5) [of L rm "{}" v f] by (auto simp: versions_ok_def keeps_def)
      qed
    qed
  qed
qed

end

lemma put_nexthop_vid [simp]: "v_vid (put_nexthop rm g nh v) = v_vid v" "v_vid (set_nexthop_cache rm d v) = v_vid v"
  by (simp_all add: put_nexthop_def set_nexthop_cache_def)

lemma expire_gateway_vid: "expire_gateway_flows L rm g nh v = Inr (ms, v') \<Longrightarrow> v_vid v' = v_vid v"
  by (auto simp: expire_gateway_flows_def bindE_Inr del_vlan_nexthop_cache_entry_def del_host_fib_route_def route_del_route_def
      dest: del_route_config split: if_splits)

lemma cached_entry: "vlan_nexthop_cache_entry rm v g = Some nh \<Longrightarrow> cached_nexthop_eth_dst rm v g = nh_eth_src nh"
  by (simp add: cached_nexthop_eth_dst_def)

interpretation gateways: resolver L rm "resolve_gateway_flows L P R rm now" for L P R rm now
proof
  fix v v' g nh ms
  show "v_vid v' = v_vid v" if "resolve_gateway_flows L P R rm now g nh v = Inr (ms, v')"
    using resolve_gateway_result [OF that] by auto
  assume "ip_version g = rm_ipv rm" "vlan_nexthop_cache_entry rm v g = Some nh" "resolve_gateway_flows L P R rm now g nh v = Inr (ms, v')"
  then show "keeps L rm {} v ms {} v'" by (intro keeps_resolve_gateway [of g "{}" nh "{}"]) (simp_all add: cached_entry)
qed

interpretation hosts: resolver L rm "resolve_expire_gateway_flows L P R rm now" for L P R rm now
proof
  fix v v' g nh ms
  show "v_vid v' = v_vid v" if "resolve_expire_gateway_flows L P R rm now g nh v = Inr (ms, v')"
    using that expire_gateway_vid resolve_gateway_result by (fastforce simp: resolve_expire_gateway_flows_def split: if_splits)
  assume "proto_ok (lib_ofp L)" "vids_ok rm (v_vid v)" and a: "ip_version g = rm_ipv rm" "vlan_nexthop_cache_entry rm v g = Some nh"
      "resolve_expire_gateway_flows L P R rm now g nh v = Inr (ms, v')"
  then show "keeps L rm {} v ms {} v'"
    using keeps_expire_gateway [of L rm v g nh ms v' "{}"] gateways.handler_keeps [of L rm v g nh P R now ms v']
    by (auto simp: resolve_expire_gateway_flows_def split: if_splits)
qed

lemma same_routes_refl [simp]: "same_routes v v"
  by (simp add: same_routes_def)

lemma same_routes_trans: "same_routes v w \<Longrightarrow> same_routes w u \<Longrightarrow> same_routes v u"
  by (simp add: same_routes_def)

text \<open>Looking for the unresolved gateways only adds entries that are not resolved.\<close>

lemma group_unresolved_result:
  assumes "\<forall>(g, e) \<in> set xs. ip_version g = rm_ipv rm \<and> (e = None \<longrightarrow> cached_nexthop_eth_dst rm v g = None)"
    and "versions_ok rm v" and "group_unresolved rm now xs (d, v) = (d', v')"
  shows "same_routes v v' \<and> versions_ok rm v' \<and> cached_nexthop_eth_dst rm v' = cached_nexthop_eth_dst rm v"
  using assms
proof (induction xs arbitrary: d v)
  case Nil
  then show ?case by (simp add: group_unresolved_def same_routes_def)
next
  case (Cons x xs)
  obtain g e where x: "x = (g, e)" by (cases x)
  define w where "w = (case e of None \<Rightarrow> update_nexthop_cache rm now None None g v | Some nh \<Rightarrow> v)"
  have g: "ip_version g = rm_ipv rm" "e = None \<Longrightarrow> cached_nexthop_eth_dst rm v g = None" using Cons.prems(1) x by auto
  have w: "same_routes v w" "versions_ok rm w" "cached_nexthop_eth_dst rm w = cached_nexthop_eth_dst rm v"
    using g Cons.prems(2) by (cases e; simp add: w_def fun_eq_iff)+
  obtain d1 where "group_unresolved rm now xs (d1, w) = (d', v')"
    using Cons.prems(3) x by (cases e) (auto simp: group_unresolved_def w_def)
  from Cons.IH [OF _ w(2) this] Cons.prems(1) w(1,3) show ?case using same_routes_trans by auto
qed

lemma unresolved_result:
  assumes "vlan_unresolved_nexthops R rm now gws v = (q, v')" and "\<forall>g \<in> set gws. ip_version g = rm_ipv rm" and "versions_ok rm v"
  shows "same_routes v v' \<and> versions_ok rm v' \<and> cached_nexthop_eth_dst rm v' = cached_nexthop_eth_dst rm v"
proof -
  let ?xs = "filter (\<lambda>(_, entry). case entry of None \<Rightarrow> True | Some nh \<Rightarrow> resolution_due nh now (rm_neighbor_timeout rm))
      (map (\<lambda>ip_gw. (ip_gw, vlan_nexthop_cache_entry rm v ip_gw)) gws)"
  obtain d' where "group_unresolved rm now ?xs ([], v) = (d', v')"
    using assms(1) by (auto simp: vlan_unresolved_nexthops_def Let_def split: prod.splits)
  moreover have "\<forall>(g, e) \<in> set ?xs. ip_version g = rm_ipv rm \<and> (e = None \<longrightarrow> cached_nexthop_eth_dst rm v g = None)"
    using assms(2) by (auto simp: cached_nexthop_eth_dst_def)
  ultimately show ?thesis using group_unresolved_result assms(3) by blast
qed

text \<open>What happens before the loop: the queue is made, and the VLAN left to the loop.\<close>

definition queue_keeps :: "lib \<Rightarrow> route_mgr \<Rightarrow> vlan \<Rightarrow> vlan \<Rightarrow> bool" where
  "queue_keeps L rm v v' \<longleftrightarrow> v_vid v' = v_vid v \<and> (\<forall>f. fib_ok L rm {} v f \<longrightarrow> fib_ok L rm {} v' f)"

lemma queue_keeps_trans: "queue_keeps L rm v u \<Longrightarrow> queue_keeps L rm u w \<Longrightarrow> queue_keeps L rm v w"
  by (simp add: queue_keeps_def)

lemma queue_keeps_same:
  assumes "v_vid v' = v_vid v"
    and "versions_ok rm v \<Longrightarrow> same_routes v v' \<and> versions_ok rm v' \<and> cached_nexthop_eth_dst rm v' = cached_nexthop_eth_dst rm v"
  shows "queue_keeps L rm v v'"
proof -
  have "fib_ok L rm {} v' f" if f: "fib_ok L rm {} v f" for f
  proof -
    have s: "same_routes v v'" "versions_ok rm v'" "cached_nexthop_eth_dst rm v' = cached_nexthop_eth_dst rm v"
      using assms(2) fib_okD(5) [OF f] by blast+
    have "keeps L rm {} v [] {} v'" by (rule keeps_cache [OF s(1)]) (use s in simp_all)
    with f show ?thesis by (simp add: keeps_def)
  qed
  with assms(1) show ?thesis by (simp add: queue_keeps_def)
qed

lemma queue_keeps_queue [simp]:
  "queue_keeps L rm v v"
  "queue_keeps L rm v (v\<lparr>v_dyn_unresolved_route_ip_gws := x\<rparr>)" "queue_keeps L rm v (v\<lparr>v_dyn_unresolved_host_ip_gws := x\<rparr>)"
proof -
  have "queue_keeps L rm v u" if "same_routes v u" "v_dyn_neigh_cache u = v_dyn_neigh_cache v" for u
  proof (rule queue_keeps_same)
    show "v_vid u = v_vid v" using that(1) by (simp add: same_routes_def)
    show "same_routes v u \<and> versions_ok rm u \<and> cached_nexthop_eth_dst rm u = cached_nexthop_eth_dst rm v" if "versions_ok rm v"
      using \<open>same_routes v u\<close> that versions_cong [OF \<open>v_dyn_neigh_cache u = v_dyn_neigh_cache v\<close>]
        cached_same_cache [OF \<open>v_dyn_neigh_cache u = v_dyn_neigh_cache v\<close>] by (simp add: same_routes_def fun_eq_iff)
  qed
  then show "queue_keeps L rm v v" "queue_keeps L rm v (v\<lparr>v_dyn_unresolved_route_ip_gws := x\<rparr>)"
    "queue_keeps L rm v (v\<lparr>v_dyn_unresolved_host_ip_gws := x\<rparr>)" by (simp_all add: same_routes_def)
qed

lemma group_unresolved_vid: "group_unresolved rm now xs (d, v) = (d', v') \<Longrightarrow> v_vid v' = v_vid v"
proof (induction xs arbitrary: d v)
  case Nil
  then show ?case by (simp add: group_unresolved_def)
next
  case (Cons x xs)
  obtain g e where x: "x = (g, e)" by (cases x)
  from Cons.prems obtain d1 w where "group_unresolved rm now xs (d1, w) = (d', v')" and "v_vid w = v_vid v"
    unfolding x by (cases e) (auto simp: group_unresolved_def)
  with Cons.IH show ?case by metis
qed

lemma queue_keeps_unresolved:
  assumes q: "vlan_unresolved_nexthops R rm now gws v = (q, w)" and g: "versions_ok rm v \<Longrightarrow> \<forall>g \<in> set gws. ip_version g = rm_ipv rm"
  shows "queue_keeps L rm v w"
proof (rule queue_keeps_same)
  show "v_vid w = v_vid v"
    using q group_unresolved_vid by (auto simp: vlan_unresolved_nexthops_def Let_def split: prod.splits)
qed (use unresolved_result [OF q] g in blast)

lemma resolve_loop_keeps:
  assumes "queue_keeps L rm v u" and "vids_ok rm (v_vid u) \<Longrightarrow> keeps L rm {} u ms {} v'" and "vids_ok rm (v_vid v)"
  shows "keeps L rm {} v ms {} v'"
proof -
  have vid: "v_vid u = v_vid v" using assms(1) by (simp add: queue_keeps_def)
  with assms(2,3) have "keeps L rm {} u ms {} v'" by simp
  with assms(1) vid show ?thesis by (fastforce simp: keeps_def queue_keeps_def)
qed

lemma keeps_resolve_gateways:
  assumes K: "proto_ok (lib_ofp L)" and vids: "vids_ok rm (v_vid v)" and r: "resolve_gateways L P R rm now all v = Inr (ms, v')"
  shows "keeps L rm {} v ms {} v'"
proof -
  obtain q w where q: "vlan_unresolved_nexthops R rm now (by_ipv (v_dyn_route_gws v) (rm_ipv rm)) v = (q, w)" by fastforce
  have "queue_keeps L rm v w" by (rule queue_keeps_unresolved [OF q]) (simp add: versions_ok_def)
  then have w: "queue_keeps L rm v (w\<lparr>v_dyn_unresolved_route_ip_gws := x\<rparr>)" for x using queue_keeps_trans queue_keeps_queue(2) by blast
  obtain q u where u: "queue_keeps L rm v u"
      "resolve_gateways_flows rm (resolve_gateway_flows L P R rm now) now q (rm_max_hosts_per_resolve_cycle rm) u = Inr (ms, v')"
  proof (cases all)
    case True
    with r q show ?thesis by (intro that [OF w]) (simp add: resolve_gateways_def Let_def)
  next
    case False
    then show ?thesis
    proof (cases "by_ipv (v_dyn_unresolved_route_ip_gws v) (rm_ipv rm)")
      case Nil
      with r False show ?thesis by (intro that [where q = "[]" and u = v]) (simp_all add: resolve_gateways_def Let_def)
    next
      case (Cons g gs)
      with r False show ?thesis
        by (intro that [where q = "[g]", OF queue_keeps_queue(2) [of _ _ _ "dict_set (rm_ipv rm) gs (v_dyn_unresolved_route_ip_gws v)"]])
          (simp del: resolve_gateways_flows.simps add: resolve_gateways_def Let_def)
    qed
  qed
  show ?thesis by (rule resolve_loop_keeps [OF u(1) gateways.loop_keeps [OF K _ u(2)] vids])
qed

lemma keeps_resolve_hosts:
  assumes K: "proto_ok (lib_ofp L)" and vids: "vids_ok rm (v_vid v)" and r: "resolve_expire_hosts L P R rm now all v = Inr (ms, v')"
  shows "keeps L rm {} v ms {} v'"
proof -
  obtain q w where q: "vlan_unresolved_nexthops R rm now (by_ipv (v_dyn_host_gws v) (rm_ipv rm)) v = (q, w)" by fastforce
  have "queue_keeps L rm v w" by (rule queue_keeps_unresolved [OF q]) (simp add: versions_ok_def)
  then have w: "queue_keeps L rm v (w\<lparr>v_dyn_unresolved_host_ip_gws := x\<rparr>)" for x using queue_keeps_trans queue_keeps_queue(3) by blast
  obtain q u where u: "queue_keeps L rm v u"
      "resolve_gateways_flows rm (resolve_expire_gateway_flows L P R rm now) now q (rm_max_hosts_per_resolve_cycle rm) u = Inr (ms, v')"
  proof (cases all)
    case True
    with r q show ?thesis by (intro that [OF w]) (simp add: resolve_expire_hosts_def Let_def)
  next
    case False
    then show ?thesis
    proof (cases "by_ipv (v_dyn_unresolved_host_ip_gws v) (rm_ipv rm)")
      case Nil
      with r False show ?thesis by (intro that [where q = "[]" and u = v]) (simp_all add: resolve_expire_hosts_def Let_def)
    next
      case (Cons g gs)
      with r False show ?thesis
        by (intro that [where q = "[g]", OF queue_keeps_queue(3) [of _ _ _ "dict_set (rm_ipv rm) gs (v_dyn_unresolved_host_ip_gws v)"]])
          (simp del: resolve_gateways_flows.simps add: resolve_expire_hosts_def Let_def)
    qed
  qed
  show ?thesis by (rule resolve_loop_keeps [OF u(1) hosts.loop_keeps [OF K _ u(2)] vids])
qed

text \<open>Expiring many.\<close>

lemma keeps_expire_nexthops:
  assumes K: "proto_ok (lib_ofp L)" and vids: "vids_ok rm (v_vid v)" and g: "\<forall>(g, nh) \<in> set xs. ip_version g = rm_ipv rm"
    and r: "expire_nexthops L rm xs v = Inr (ms, v')"
  shows "keeps L rm {} v ms {} v'"
proof -
  have "keeps L rm {} v ms {} v'" if "keeps L rm {} v ms0 {} u" and "foldE (\<lambda>(ip_gw, nh) (ofmsgs, v).
      bindE (expire_gateway_flows L rm ip_gw nh v) (\<lambda>(msgs, v). Inr (ofmsgs @ msgs, v))) xs (ms0, u) = Inr (ms, v')" for ms0 u
    using that g
  proof (induction xs arbitrary: ms0 u)
    case Nil
    then show ?case by simp
  next
    case (Cons x xs)
    obtain ip nh where x: "x = (ip, nh)" by (cases x)
    with Cons.prems(2) obtain ms1 w where e: "expire_gateway_flows L rm ip nh u = Inr (ms1, w)" and rest: "foldE (\<lambda>(ip_gw, nh) (ofmsgs, v).
        bindE (expire_gateway_flows L rm ip_gw nh v) (\<lambda>(msgs, v). Inr (ofmsgs @ msgs, v))) xs (ms0 @ ms1, w) = Inr (ms, v')"
      by (auto simp: bindE_Inr)
    have "vids_ok rm (v_vid u)" using vids Cons.prems(1) by (simp add: keeps_def)
    then have "keeps L rm {} u ms1 {} w" using keeps_expire_gateway [OF K _ _ e, of "{}"] Cons.prems(3) x by simp
    from Cons.IH [OF keeps_trans [OF Cons.prems(1) this] rest] Cons.prems(3) show ?case by simp
  qed
  from this [OF keeps_refl] r show ?thesis by (simp add: expire_nexthops_def)
qed

lemma expire_nexthops_vid: "expire_nexthops L rm xs v = Inr (ms, v') \<Longrightarrow> v_vid v' = v_vid v"
  unfolding expire_nexthops_def
  by (drule foldE_invariant [where P = "\<lambda>(_, u). v_vid u = v_vid v"]) (fastforce simp: bindE_Inr dest: expire_gateway_vid)+

section \<open>A datapath without routers\<close>

text \<open>All VLANs of a datapath, each routed by itself.\<close>

definition heap_ok :: "lib \<Rightarrow> route_mgr \<Rightarrow> vlan_heap \<Rightarrow> fib \<Rightarrow> bool" where
  "heap_ok L rm h f \<longleftrightarrow> (\<forall>vid. v_vid (h vid) = vid \<and> (0 < vid \<and> vid < 4096 \<longrightarrow> fib_ok L rm {} (h vid) f))"

definition heap_keeps :: "lib \<Rightarrow> route_mgr \<Rightarrow> vlan_heap \<Rightarrow> ofmsg list \<Rightarrow> vlan_heap \<Rightarrow> bool" where
  "heap_keeps L rm h ms h' \<longleftrightarrow> (\<forall>f. heap_ok L rm h f \<longrightarrow> heap_ok L rm h' (fib_run (fib_id rm) ms f))"

definition unrouted :: "lib \<Rightarrow> route_mgr \<Rightarrow> int \<Rightarrow> bool" where
  "unrouted L rm vid \<longleftrightarrow> proto_ok (lib_ofp L) \<and> rm_routers rm = [] \<and> 0 < vid \<and> vid < 4096"

lemma unroutedD:
  assumes "unrouted L rm vid"
  shows "proto_ok (lib_ofp L)" "routed_vlans rm u = [u]" "vids_ok rm vid" "router_for_vlan rm u = None" "0 < vid" "vid < 4096"
  using assms by (simp_all add: unrouted_def routed_vlans_def global_routing_def router_for_vlan_def dict_values_def vids_ok_def)

lemma heap_keeps_refl [simp]: "heap_keeps L rm h [] h"
  by (simp add: heap_keeps_def)

lemma heap_keeps_trans: "heap_keeps L rm h ms h' \<Longrightarrow> heap_keeps L rm h' ns h'' \<Longrightarrow> heap_keeps L rm h (ms @ ns) h''"
  by (simp add: heap_keeps_def)

lemma heap_keeps_packetouts: "\<forall>m \<in> set ms. is_packetout m \<Longrightarrow> heap_keeps L rm h ms h"
proof -
  assume "\<forall>m \<in> set ms. is_packetout m"
  then have "fib_run t ms f = f" for t f using fib_run_other [of t "{}" ms] by (intro ext) simp
  then show ?thesis by (simp add: heap_keeps_def)
qed

lemma heap_keeps_vlan:
  assumes U: "unrouted L rm vid" and k: "\<And>f. heap_ok L rm h f \<Longrightarrow> keeps L rm {} (h vid) ms {} v'"
  shows "heap_keeps L rm h ms (h(vid := v'))"
  unfolding heap_keeps_def
proof (intro allI impI)
  fix f assume h: "heap_ok L rm h f"
  have vid: "v_vid (h vid) = vid" "fib_ok L rm {} (h vid) f" using h unroutedD(5,6) [OF U] by (simp_all add: heap_ok_def)
  with k [OF h] have v': "v_vid v' = vid" "fib_ok L rm {} v' (fib_run (fib_id rm) ms f)"
    and w: "writes (fib_id rm) (vlan_keys L rm vid) ms"
    using unroutedD(2) [OF U] by (simp_all add: keeps_def)
  have "fib_ok L rm {} (h u) (fib_run (fib_id rm) ms f)" if u: "0 < u" "u < 4096" "u \<noteq> vid" for u
  proof -
    have fu: "fib_ok L rm {} (h u) f" "v_vid (h u) = u" using h u by (simp_all add: heap_ok_def)
    have "fib_key L rm u d \<notin> vlan_keys L rm vid" for d
      by (rule vlan_keys_disjoint [OF unroutedD(1) [OF U] u(1,2) unroutedD(5,6) [OF U] u(3)]) simp
    then have "routed_to L rm (h u) mac d u (fib_run (fib_id rm) ms f) = routed_to L rm (h u) mac d u f" for mac d
      using routed_to_other [OF w] by blast
    with fu show ?thesis unfolding fib_ok_def unroutedD(2) [OF U] by simp
  qed
  with h v' show "heap_ok L rm (h(vid := v')) (fib_run (fib_id rm) ms f)" by (auto simp: heap_ok_def)
qed

lemma heap_ok_vid: "heap_ok L rm h f \<Longrightarrow> v_vid (h vid) = vid"
  by (simp add: heap_ok_def)

lemma vids_ok_heap: "unrouted L rm vid \<Longrightarrow> heap_ok L rm h f \<Longrightarrow> vids_ok rm (v_vid (h vid))"
  using unroutedD(3) heap_ok_vid by metis

lemma heap_update_nexthop:
  assumes U: "unrouted L rm vid" and g: "ip_version g = rm_ipv rm" and r: "update_nexthop L rm now p mac g (h vid) = Inr (ms, v')"
  shows "heap_keeps L rm h ms (h(vid := v'))"
proof (rule heap_keeps_vlan [OF U])
  fix f assume "heap_ok L rm h f"
  then have "vids_ok rm (v_vid (h vid))" by (rule vids_ok_heap [OF U])
  from keeps_update_nexthop [OF unroutedD(1) [OF U] this g r] show "keeps L rm {} (h vid) ms {} v'" .
qed

lemma heap_on_vlan:
  assumes U: "unrouted L rm vid" and r: "on_vlan op vid h = Inr (ms, h')"
    and k: "\<And>v v' ms. vids_ok rm (v_vid v) \<Longrightarrow> op v = Inr (ms, v') \<Longrightarrow> keeps L rm {} v ms {} v'"
  shows "heap_keeps L rm h ms h'"
proof -
  from r obtain v' where v': "op (h vid) = Inr (ms, v')" "h' = h(vid := v')" by (auto simp: on_vlan_def bindE_Inr)
  show ?thesis
    unfolding v'(2)
  proof (rule heap_keeps_vlan [OF U])
    fix f assume "heap_ok L rm h f"
    then have "vids_ok rm (v_vid (h vid))" by (rule vids_ok_heap [OF U])
    from k [OF this v'(1)] show "keeps L rm {} (h vid) ms {} v'" .
  qed
qed

text \<open>The route to a host.\<close>

definition host_ok :: "route_mgr \<Rightarrow> ipaddr \<Rightarrow> bool" where
  "host_ok rm a \<longleftrightarrow> ip_ok a \<and> ip_version a = rm_ipv rm"

lemma host_net_ok: "ip_ok a \<Longrightarrow> net_ok (host_net a)"
  by (cases a) (simp add: net_ok_def host_net_def network_addr_def)

lemma host_route_allowed:
  assumes "host_ok rm a" shows "route_allowed rm (host_net a) a"
  using host_net_ok [of a] assms by (simp add: host_ok_def route_allowed_def) (simp add: host_net_def)

lemma host_net_inj: "host_net a = host_net b \<Longrightarrow> a = b"
  by (cases a; cases b) (simp add: host_net_def)

lemma host_route_new: "fib_ok L rm E v f \<Longrightarrow> route_of v (host_net a) \<in> {None, Some a}"
proof (cases "route_of v (host_net a)")
  case (Some g)
  assume "fib_ok L rm E v f"
  from fib_okD(3) [OF this Some] have "host_net a = host_net g" by (simp add: host_net_def)
  then show ?thesis using Some host_net_inj by simp
qed simp

lemma unrouted_add_route:
  assumes U: "unrouted L rm vid" and r: "route_add_route L R rm vid g d h = Inr (ms, h')"
  shows "ms = [] \<and> h' = h \<or> (\<exists>v'. add_route_on_vlan L rm g d (h vid) = Inr (ms, v') \<and> h' = h(vid := v'))"
  using r unroutedD(4) [OF U]
  by (auto simp: route_add_route_def router_vlan_for_ip_gw_def bindE_Inr split: if_splits option.splits)

lemma keeps_weaken: "(\<And>f. fib_ok L rm E v f \<Longrightarrow> keeps L rm E v ms E' v') \<Longrightarrow> v_vid v' = v_vid v \<Longrightarrow> keeps L rm E v ms E' v'"
  by (fastforce simp: keeps_def)

lemma add_route_on_vlan_vid: "add_route_on_vlan L rm g d v = Inr (ms, v') \<Longrightarrow> v_vid v' = v_vid v"
  by (auto simp: add_route_on_vlan_def Let_def bindE_Inr split: option.splits if_splits)

lemma keeps_host_route:
  assumes K: "proto_ok (lib_ofp L)" "vids_ok rm (v_vid v)" and a: "host_ok rm a"
    and r: "add_route_on_vlan L rm a (host_net a) v = Inr (ms, v')"
  shows "keeps L rm E v ms E v'"
  by (rule keeps_weaken, rule keeps_add_route [OF K host_route_allowed [OF a] host_route_new r], assumption)
    (rule add_route_on_vlan_vid [OF r])

lemma heap_host_route:
  assumes U: "unrouted L rm vid" and a: "host_ok rm a" and r: "add_host_fib_route L R rm vid a False h = Inr (ms, h')"
  shows "heap_keeps L rm h ms h'"
proof -
  from r have "route_add_route L R rm vid a (host_net a) h = Inr (ms, h')" by (auto simp: add_host_fib_route_def bindE_Inr)
  from unrouted_add_route [OF U this] show ?thesis
  proof (elim disjE exE conjE)
    fix v' assume "add_route_on_vlan L rm a (host_net a) (h vid) = Inr (ms, v')" and h': "h' = h(vid := v')"
    note r = this(1)
    show ?thesis
      unfolding h'
    proof (rule heap_keeps_vlan [OF U])
      fix f assume "heap_ok L rm h f"
      then have "vids_ok rm (v_vid (h vid))" by (rule vids_ok_heap [OF U])
      from keeps_host_route [OF unroutedD(1) [OF U] this a r] show "keeps L rm {} (h vid) ms {} v'" .
    qed
  qed simp
qed

text \<open>Learning a host: its route, then its next hop.\<close>

lemma heap_learn_host:
  assumes U: "unrouted L rm vid" and a: "host_ok rm a" and r1: "add_host_fib_route L R rm vid a False h = Inr (ms1, h1)"
    and r2: "update_nexthop L rm now p mac a (h1 vid) = Inr (ms2, v')"
  shows "heap_keeps L rm h (ms1 @ ms2) (h1(vid := v'))"
proof (rule heap_keeps_trans [OF heap_host_route [OF U a r1]])
  show "heap_keeps L rm h1 ms2 (h1(vid := v'))"
    using heap_update_nexthop [OF U, of a now p mac h1 ms2 v'] r2 a by (simp add: host_ok_def)
qed

lemma heap_from_pkt:
  assumes U: "\<And>vid. pm_vid m = Inr vid \<Longrightarrow> unrouted L rm vid" and a: "\<And>a. pm_l3_src m = Some a \<Longrightarrow> host_ok rm a"
    and r: "add_host_fib_route_from_pkt L R rm now m h = Inr (ms, h')"
  shows "heap_keeps L rm h ms h'"
proof (cases "pm_l3_src m")
  case None
  with r show ?thesis by (simp add: add_host_fib_route_from_pkt_def)
next
  case (Some a)
  from r Some obtain vid where vid: "pm_vid m = Inr vid" by (auto simp: add_host_fib_route_from_pkt_def bindE_Inr)
  from r Some vid have "ms = [] \<and> h' = h \<or> (\<exists>ms1 h1 ms2 v'. add_host_fib_route L R rm vid a False h = Inr (ms1, h1) \<and>
      update_nexthop L rm now (pm_port m) (pm_eth_src m) a (h1 vid) = Inr (ms2, v') \<and> ms = ms1 @ ms2 \<and> h' = h1(vid := v'))"
    by (auto simp: add_host_fib_route_from_pkt_def bindE_Inr split: if_splits)
  then show ?thesis using heap_learn_host [OF U [OF vid] assms(2) [OF Some]] by auto
qed

section \<open>Packets to the controller\<close>

text \<open>
  What is relied on of a packet: it is on a VLAN of the datapath that no router takes part in, its addresses
  are of the manager's IP version, and the parser returns addresses of the version of their header.
\<close>

fun header_ok :: "header \<Rightarrow> bool" where
  "header_ok (Ipv4H dst src _) \<longleftrightarrow> ip_ok dst \<and> ip_version dst = 4 \<and> ip_ok src \<and> ip_version src = 4"
| "header_ok (ArpH _ _ src _ dst) \<longleftrightarrow> ip_ok dst \<and> ip_version dst = 4 \<and> ip_ok src \<and> ip_version src = 4"
| "header_ok (Ipv6H src dst _ _ _) \<longleftrightarrow> ip_ok dst \<and> ip_version dst = 6 \<and> ip_ok src \<and> ip_version src = 6"
| "header_ok (Icmpv6H (NeighborAdvert target _ _)) \<longleftrightarrow> ip_version target = 6"
| "header_ok _ \<longleftrightarrow> True"

definition parser_ok :: "pktlib \<Rightarrow> bool" where
  "parser_ok P \<longleftrightarrow> (\<forall>data hs. pl_parse P data = Inr hs \<longrightarrow> list_all header_ok hs)"

definition pkt_ok :: "lib \<Rightarrow> route_mgr \<Rightarrow> pkt_meta \<Rightarrow> bool" where
  "pkt_ok L rm m \<longleftrightarrow>
     (\<forall>v. pm_vlan m = Some v \<longrightarrow> unrouted L rm (v_vid v)) \<and> rm_ipv rm \<in> {4, 6} \<and> pm_eth_type m \<in> set (CONTROL_ETH_TYPES L rm) \<and>
     (\<forall>a. pm_l3_src m = Some a \<longrightarrow> host_ok rm a) \<and> (\<forall>a. pm_l3_dst m = Some a \<longrightarrow> host_ok rm a) \<and>
     (\<forall>hs. pm_pkt m = Some hs \<longrightarrow> list_all header_ok hs)"

lemma pkt_okD:
  assumes "pkt_ok L rm m"
  shows "pm_vid m = Inr vid \<Longrightarrow> unrouted L rm vid" "pm_l3_src m = Some a \<Longrightarrow> host_ok rm a" "pm_l3_dst m = Some a \<Longrightarrow> host_ok rm a"
    "pm_pkt m = Some hs \<Longrightarrow> h \<in> set hs \<Longrightarrow> header_ok h" "rm_ipv rm \<in> {4, 6}"
  using assms by (auto simp: pkt_ok_def pm_vid_def list_all_iff split: option.splits)

lemma parse_headers:
  assumes P: "parser_ok P" and r: "parse_packet_in_pkt K P data n e w = Inr r" and "pi_pkt r = Some hs"
  shows "list_all header_ok hs"
proof -
  define good where "good = (\<lambda>st :: parsed. \<forall>hs. pi_pkt st = Some hs \<longrightarrow> list_all header_ok hs)"
  have p: "pl_parse P d = Inr hs \<Longrightarrow> list_all header_ok hs" for d hs using P by (simp add: parser_ok_def)
  have eth: "good (snd (parse_eth_step P d st))" if "good st" for d st
    using that p by (auto simp: parse_eth_step_def good_def split: option.splits sum.splits)
  have vlan: "good (snd (parse_vlan_step K P d st))" if "good st" for d st
    using that p by (fastforce simp: parse_vlan_step_def good_def Let_def split: option.splits sum.splits list.splits)
  have rest: "good (snd (parse_rest_step P d st))" if "good st" for d st
    using that p by (auto simp: parse_rest_step_def good_def Let_def split: option.splits sum.splits header.splits)
  have step: "good (snd (then_step x f))" if "good (snd x)" "\<And>st. good st \<Longrightarrow> good (snd (f st))" for x f
    using that by (cases x) (auto simp: then_step_def split: option.splits)
  let ?d = "if n \<noteq> 0 then take n data else data"
  let ?st = "\<lparr>pi_pkt = None, pi_pkt_data = [], pi_eth_pkt = e, pi_eth_type = None, pi_vlan_pkt = w, pi_vlan_vid = None\<rparr>"
  define S where "S = (if w = None then then_step (parse_eth_step P ?d ?st) (parse_vlan_step K P ?d) else (None, ?st))"
  have st: "good ?st" by (simp add: good_def)
  have "good (snd (then_step (parse_eth_step P ?d ?st) (parse_vlan_step K P ?d)))" by (rule step [OF eth [OF st]]) (rule vlan)
  with st have "good (snd S)" unfolding S_def by (simp only: split: if_split) simp
  then have fin: "good (snd (then_step S (parse_rest_step P ?d)))" by (rule step) (rule rest)
  have "snd (then_step S (parse_rest_step P ?d)) = r"
    using r unfolding parse_packet_in_pkt_def Let_def S_def [symmetric]
    by (cases "then_step S (parse_rest_step P ?d)") (simp split: option.splits if_splits)
  with fin assms(3) show ?thesis by (simp add: good_def)
qed

lemma reparse_ok:
  assumes P: "parser_ok P" and m: "pkt_ok L rm m" and r: "reparse K P n m = Inr m'"
  shows "pkt_ok L rm m'"
proof -
  from r obtain res where res: "parse_packet_in_pkt K P (pm_data m) n (pm_eth_pkt m) (pm_vlan_pkt m) = Inr res"
    by (auto simp: reparse_def bindE_Inr)
  have "m' = m \<or> (\<exists>hs. pi_pkt res = Some hs \<and> pm_pkt m' = Some hs \<and> pm_vlan m' = pm_vlan m \<and> pm_eth_type m' = pm_eth_type m \<and>
      pm_l3_src m' = pm_l3_src m \<and> pm_l3_dst m' = pm_l3_dst m)"
    using r res by (auto simp: reparse_def Let_def split: option.splits)
  then show ?thesis using m parse_headers [OF P res] by (auto simp: pkt_ok_def)
qed

lemma reparse_ip_ok:
  assumes K: "proto_ok (lib_ofp L)" and P: "parser_ok P" and m: "pkt_ok L rm m" and r: "reparse_ip (lib_ofp L) P n m = Inr m'"
  shows "pkt_ok L rm m'"
proof (cases "m' = m")
  case False
  with r obtain ver is_l3 size m1 hs where t: "dict_get (ETH_TYPES_PARSERS (lib_ofp L)) (pm_eth_type m) = Some (ver, is_l3)"
      and m1: "reparse (lib_ofp L) P (size + n) m = Inr m1" and hs: "pm_pkt m1 = Some hs"
      and m': "m' = (case find is_l3 hs of None \<Rightarrow> m1\<lparr>pm_l3_pkt := None\<rparr>
        | Some h \<Rightarrow> m1\<lparr>pm_l3_pkt := Some h, pm_l3_src := map_option fst (l3_addresses h), pm_l3_dst := map_option snd (l3_addresses h)\<rparr>)"
    by (fastforce simp: reparse_ip_def bindE_Inr split: option.splits if_splits)
  have ok: "pkt_ok L rm m1" by (rule reparse_ok [OF P m m1])
  show ?thesis
  proof (cases "find is_l3 hs")
    case None
    with ok m' show ?thesis by (simp add: pkt_ok_def pm_vid_def)
  next
    case (Some h)
    then have h: "is_l3 h" "header_ok h"
      using pkt_okD(4) [OF ok hs] by (auto simp: find_Some_iff)
    have "pm_eth_type m \<in> set (CONTROL_ETH_TYPES L rm)" "rm_ipv rm = 4 \<or> rm_ipv rm = 6" using m by (auto simp: pkt_ok_def)
    with t h have "\<exists>a b. l3_addresses h = Some (a, b) \<and> host_ok rm a \<and> host_ok rm b"
      using K by (cases h) (auto simp: ETH_TYPES_PARSERS_def CONTROL_ETH_TYPES_def dict_get_Cons proto_ok_def host_ok_def split: if_splits)
    with ok m' Some show ?thesis by (auto simp: pkt_ok_def pm_vid_def)
  qed
qed (use m in simp)

lemma icmpv6_of_ok: "pkt_ok L rm m \<Longrightarrow> icmpv6_of m = Inr (Some (NeighborAdvert a x y)) \<Longrightarrow> ip_version a = 6"
proof -
  assume m: "pkt_ok L rm m" and i: "icmpv6_of m = Inr (Some (NeighborAdvert a x y))"
  from i obtain hs where hs: "pm_pkt m = Some hs" by (auto simp: icmpv6_of_def pm_headers_def needE_def bindE_Inr split: option.splits)
  let ?is = "\<lambda>h. case h of Icmpv6H _ \<Rightarrow> True | _ \<Rightarrow> False"
  from i hs obtain h where h: "find ?is hs = Some h" "(case h of Icmpv6H d \<Rightarrow> Some d | _ \<Rightarrow> None) = Some (NeighborAdvert a x y)"
    by (cases "find ?is hs") (simp_all add: icmpv6_of_def pm_headers_def needE_def)
  from h(1) have "h \<in> set hs" by (auto simp: find_Some_iff)
  then have "header_ok h" by (rule pkt_okD(4) [OF m hs])
  with h(2) show ?thesis by (cases h) auto
qed

section \<open>The handlers keep the FIB right\<close>

lemma keeps_from_pkt:
  "pkt_ok L rm m \<Longrightarrow> add_host_fib_route_from_pkt L R rm now m h = Inr (ms, h') \<Longrightarrow> heap_keeps L rm h ms h'"
  by (rule heap_from_pkt [of m L rm]) (simp_all add: pkt_okD)

lemma keeps_vip_response:
  assumes m: "pkt_ok L rm m" and r: "resolve_vip_response L P R rm now m a h = Inr (ms, h')"
  shows "heap_keeps L rm h ms h'"
proof -
  from r obtain vid where vid: "pm_vid m = Inr vid" by (auto simp: resolve_vip_response_def bindE_Inr)
  note U = pkt_okD(1) [OF m vid]
  from r vid have "ms = [] \<and> h' = h \<or> (\<exists>src x. pm_l3_src m = Some src \<and>
      (ms = [packet_to L m (h vid) x] \<and> h' = h \<or>
       (\<exists>ms1 h1 ms2 v'. add_host_fib_route L R rm vid src False h = Inr (ms1, h1) \<and>
         update_nexthop L rm now (pm_port m) (pm_eth_src m) src (h1 vid) = Inr (ms2, v') \<and>
         ms = (ms1 @ ms2) @ [packet_to L m v' x] \<and> h' = h1(vid := v'))))"
    by (auto simp: resolve_vip_response_def bindE_Inr split: option.splits if_splits)
  then show ?thesis
  proof (elim disjE exE conjE)
    fix src x ms1 h1 ms2 v'
    assume "pm_l3_src m = Some src" and r1: "add_host_fib_route L R rm vid src False h = Inr (ms1, h1)"
      and r2: "update_nexthop L rm now (pm_port m) (pm_eth_src m) src (h1 vid) = Inr (ms2, v')"
      and ms: "ms = (ms1 @ ms2) @ [packet_to L m v' x]" "h' = h1(vid := v')"
    show ?thesis
      unfolding ms
      by (rule heap_keeps_trans [OF heap_learn_host [OF U pkt_okD(2) [OF m \<open>pm_l3_src m = Some src\<close>] r1 r2]],
          rule heap_keeps_packetouts) (simp add: packet_to_def pkt_out_port_def)
  next
    fix src x assume "ms = [packet_to L m (h vid) x]" "h' = h"
    then show ?thesis by (simp add: heap_keeps_packetouts packet_to_def pkt_out_port_def)
  qed simp
qed

lemma keeps_gw_advert:
  assumes m: "pkt_ok L rm m" and a: "\<And>g. a = Some g \<Longrightarrow> ip_version g = rm_ipv rm" and r: "gw_advert L rm now m a h = Inr (ms, h')"
  shows "heap_keeps L rm h ms h'"
proof -
  from r obtain vid where vid: "pm_vid m = Inr vid" by (auto simp: gw_advert_def bindE_Inr)
  from r vid have "ms = [] \<and> h' = h \<or> (\<exists>g v'. a = Some g \<and>
      update_nexthop L rm now (pm_port m) (pm_eth_src m) g (h vid) = Inr (ms, v') \<and> h' = h(vid := v'))"
    by (auto simp: gw_advert_def bindE_Inr split: option.splits if_splits)
  then show ?thesis using heap_update_nexthop [OF pkt_okD(1) [OF m vid]] a by fastforce
qed

text \<open>A neighbour that a packet goes to: blackholed, then resolved.\<close>

lemma keeps_forget:
  assumes "ip_version a = rm_ipv rm"
  shows "keeps L rm {a} v [] {} (update_nexthop_cache rm now None None a v)"
  by (rule keeps_cache) (use assms in \<open>auto split: if_splits\<close>)

lemma heap_proactive_host:
  assumes U: "unrouted L rm vid" and a: "host_ok rm a" and r: "add_host_fib_route L R rm vid a True h = Inr (ms1, h1)"
    and k: "keeps L rm {} (update_nexthop_cache rm now None None a (h1 vid)) ms2 {} v'"
  shows "heap_keeps L rm h (ms1 @ ms2) (h1(vid := v'))"
proof -
  from r obtain bs rs where bs: "blackhole_flows L R rm vid a = Inr bs" and rs: "route_add_route L R rm vid a (host_net a) h = Inr (rs, h1)"
      and ms1: "ms1 = bs @ rs"
    by (auto simp: add_host_fib_route_def bindE_Inr)
  have h1: "\<exists>v1. h1 = h(vid := v1) \<and> (rs = [] \<and> v1 = h vid \<or> add_route_on_vlan L rm a (host_net a) (h vid) = Inr (rs, v1))"
    using unrouted_add_route [OF U rs] by (metis fun_upd_triv)
  then obtain v1 where v1: "h1 = h(vid := v1)" "rs = [] \<and> v1 = h vid \<or> add_route_on_vlan L rm a (host_net a) (h vid) = Inr (rs, v1)"
    by blast
  have "keeps L rm {} (h vid) (ms1 @ ms2) {} v'" if h: "heap_ok L rm h f" for f
  proof -
    have vids: "vids_ok rm (v_vid (h vid))" by (rule vids_ok_heap [OF U h])
    have "blackhole_flows L R rm (v_vid (h vid)) a = Inr bs" using bs heap_ok_vid [OF h] by simp
    with keeps_blackhole [OF unroutedD(1) [OF U] vids] a have k1: "keeps L rm {} (h vid) bs {a} (h vid)"
      by (simp add: host_ok_def)
    have k2: "keeps L rm {a} (h vid) rs {a} v1"
      using v1(2) keeps_host_route [OF unroutedD(1) [OF U] vids a] by auto
    have k3: "keeps L rm {a} v1 [] {} (update_nexthop_cache rm now None None a v1)"
      by (rule keeps_forget) (use a in \<open>simp add: host_ok_def\<close>)
    have k4: "keeps L rm {} (update_nexthop_cache rm now None None a v1) ms2 {} v'" using k v1(1) by simp
    from keeps_trans [OF keeps_trans [OF keeps_trans [OF k1 k2] k3] k4] ms1 show ?thesis by simp
  qed
  then have "heap_keeps L rm h (ms1 @ ms2) (h(vid := v'))" by (rule heap_keeps_vlan [OF U])
  with v1(1) show ?thesis by simp
qed

lemma keeps_proactive:
  assumes m: "pkt_ok L rm m" and r: "proactive_resolve_neighbor L P R rm now m h = Inr (ms, h')"
  shows "heap_keeps L rm h ms h'"
proof (cases "ms = [] \<and> h' = h")
  case False
  then have ne: "Inr ([], h) \<noteq> (Inr (ms, h') :: err + ofmsg list \<times> vlan_heap)" by auto
  with r obtain vid found where vid: "pm_vid m = Inr vid" and found: "neighbor_vip R rm h vid (pm_l3_dst m) = Inr found"
    by (auto simp: proactive_resolve_neighbor_def bindE_Inr split: if_splits)
  note U = pkt_okD(1) [OF m vid]
  from r ne vid found obtain u vip a where f: "found = Some (u, vip)" and dst: "pm_l3_dst m = Some a"
    by (auto simp: proactive_resolve_neighbor_def split: if_splits option.splits)
  from found f have u: "u = vid" by (auto simp: neighbor_vip_def unroutedD(4) [OF U] bindE_Inr)
  have "neighbor_vip R rm h vid (Some a) = Inr (Some (vid, vip))" using found f u dst by simp
  from r [unfolded proactive_resolve_neighbor_def vid dst this bindE_simps option.case prod.case] ne
  obtain ms1 h1 ms2 h2 where r1: "add_host_fib_route_from_pkt L R rm now m h = Inr (ms1, h1)"
      and r2: "add_host_fib_route L R rm vid a True h1 = Inr (ms2, h2)"
      and rest: "(let h = h2(vid := update_nexthop_cache rm now None None a (h2 vid))
        in if a \<in> set (by_ipv (v_dyn_host_gws (h1 vid)) (rm_ipv rm)) then Inr (ms1 @ ms2, h)
           else bindE (resolve_gateway_flows L P R rm now a (new_nexthop None None now) (h vid))
             (\<lambda>(msgs3, v). Inr (ms1 @ ms2 @ msgs3, h(vid := v)))) = Inr (ms, h')"
    by (force simp: bindE_Inr split: if_splits simp del: fun_upd_apply)
  have fin: "ms = ms1 @ ms2 \<and> h' = h2(vid := update_nexthop_cache rm now None None a (h2 vid)) \<or>
      (\<exists>ms3 v'. resolve_gateway_flows L P R rm now a (new_nexthop None None now) (update_nexthop_cache rm now None None a (h2 vid)) =
         Inr (ms3, v') \<and> ms = ms1 @ ms2 @ ms3 \<and> h' = h2(vid := v'))"
    using rest by (cases "a \<in> set (by_ipv (v_dyn_host_gws (h1 vid)) (rm_ipv rm))") (auto simp: Let_def bindE_Inr)
  note a = pkt_okD(3) [OF m dst]
  have "heap_keeps L rm h1 ns h'" if "ms = ms1 @ ns" for ns
    using fin that
  proof (elim disjE exE conjE)
    assume "ms = ms1 @ ms2" "h' = h2(vid := update_nexthop_cache rm now None None a (h2 vid))"
    with that heap_proactive_host [OF U a r2 keeps_refl, of now] show ?thesis by simp
  next
    fix ms3 v'
    assume r3: "resolve_gateway_flows L P R rm now a (new_nexthop None None now) (update_nexthop_cache rm now None None a (h2 vid)) = Inr (ms3, v')"
      and "ms = ms1 @ ms2 @ ms3" "h' = h2(vid := v')"
    have "keeps L rm {} (update_nexthop_cache rm now None None a (h2 vid)) ms3 {} v'"
      by (rule keeps_resolve_gateway [OF _ _ _ r3]) (use a in \<open>simp_all add: new_nexthop_def host_ok_def\<close>)
    from heap_proactive_host [OF U a r2 this] that \<open>ms = ms1 @ ms2 @ ms3\<close> \<open>h' = h2(vid := v')\<close> show ?thesis by simp
  qed
  moreover have "\<exists>ns. ms = ms1 @ ns" using fin by auto
  ultimately show ?thesis using heap_keeps_trans [OF keeps_from_pkt [OF m r1]] by blast
qed simp

definition handled :: "lib \<Rightarrow> route_mgr \<Rightarrow> vlan_heap \<Rightarrow> ofmsg list \<Rightarrow> pkt_meta \<Rightarrow> vlan_heap \<Rightarrow> bool" where
  "handled L rm h ms m h' \<longleftrightarrow> heap_keeps L rm h ms h' \<and> pkt_ok L rm m"

lemma handled_packet [simp]: "pkt_ok L rm m \<Longrightarrow> handled L rm h [packet_to L m' v b] m h"
  by (simp add: handled_def heap_keeps_packetouts packet_to_def pkt_out_port_def)

lemma handled_nothing [simp]: "pkt_ok L rm m \<Longrightarrow> handled L rm h [] m h"
  by (simp add: handled_def)

lemma keeps_arp_handler:
  assumes m: "pkt_ok L rm m" and r: "control_plane_arp_handler L P R rm now m h = Inr (ms, h')"
  shows "heap_keeps L rm h ms h'"
proof -
  have "ms = [] \<and> h' = h \<or> resolve_vip_response L P R rm now m (pm_l3_dst m) h = Inr (ms, h') \<or>
      gw_advert L rm now m (pm_l3_src m) h = Inr (ms, h')"
  proof (cases "pm_eth_type m = ETH_TYPE_ARP (lib_ofp L)")
    case True
    with r obtain opcode where "arp_of m = Inr opcode" by (auto simp: control_plane_arp_handler_def bindE_Inr)
    with r True show ?thesis
      by (cases "pm_vid m") (auto simp: control_plane_arp_handler_def split: if_split_asm option.split_asm arp_opcode.split_asm)
  qed (use r in \<open>simp add: control_plane_arp_handler_def\<close>)
  moreover have "pm_l3_src m = Some g \<Longrightarrow> ip_version g = rm_ipv rm" for g using pkt_okD(2) [OF m] by (simp add: host_ok_def)
  ultimately show ?thesis using keeps_vip_response [OF m] keeps_gw_advert [OF m] by (elim disjE) (simp, blast, blast)
qed

text \<open>A reply to a host, which is learned when it is not known.\<close>

lemma keeps_reply:
  assumes "pkt_ok L rm m"
    and "bindE (if c then add_host_fib_route_from_pkt L R rm now m h else Inr ([], h)) (\<lambda>(msgs, h). Inr (packet_to L m v b # msgs, h)) =
      Inr (ms, h')"
  shows "heap_keeps L rm h ms h'"
proof -
  obtain ns where ns: "ms = [packet_to L m v b] @ ns" and "ns = [] \<and> h' = h \<or> add_host_fib_route_from_pkt L R rm now m h = Inr (ns, h')"
    using assms(2) by (auto simp: bindE_Inr split: if_splits)
  then have "heap_keeps L rm h ns h'" using keeps_from_pkt [OF assms(1)] by auto
  moreover have "heap_keeps L rm h [packet_to L m v b] h" using handled_packet [OF assms(1)] by (simp add: handled_def)
  ultimately show ?thesis unfolding ns by (rule heap_keeps_trans [rotated])
qed

lemma keeps_icmp_handler:
  assumes P: "parser_ok P" and m: "pkt_ok L rm m" and r: "control_plane_icmp_handler L P R rm now proto m h = Inr (ms, m', h')"
  shows "handled L rm h ms m' h'"
proof (cases "m' = m \<and> ms = [] \<and> h' = h")
  case False
  with r obtain vid where vid: "pm_vid m = Inr vid" by (auto simp: control_plane_icmp_handler_def bindE_Inr split: if_split_asm)
  with r False obtain m1 icmp where m1: "reparse_all (lib_ofp L) P m = Inr m1" and icmp: "icmp_of m1 = Inr icmp"
      and fin: "(case (icmp, pm_l3_src m1, pm_l3_dst m1) of
        (Some (EchoRequest data), Some src_ip, Some dst_ip) \<Rightarrow>
          let reply = packet_to L m1 (h vid) (\<lambda>tag. pl_serialize P
                (echo_reply (lib_ofp L) tag (v_faucet_mac (h vid)) (lib_mac_text L (pm_eth_src m1)) dst_ip src_ip data))
          in bindE (if cached_nexthop_eth_dst rm (h vid) src_ip = None
                    then add_host_fib_route_from_pkt L R rm now m1 h else Inr ([], h)) (\<lambda>(msgs, h). Inr (reply # msgs, m1, h))
      | _ \<Rightarrow> Inr ([], m1, h)) = Inr (ms, m', h')"
    unfolding control_plane_icmp_handler_def by (force simp: bindE_Inr simp del: option.case split: if_split_asm)
  have "m1 = m' \<and> (ms = [] \<and> h' = h \<or> (\<exists>b c. bindE (if c then add_host_fib_route_from_pkt L R rm now m' h else Inr ([], h))
        (\<lambda>(msgs, h'). Inr (packet_to L m' (h vid) b # msgs, h')) = Inr (ms, h')))"
  proof (cases "\<exists>data s d. icmp = Some (EchoRequest data) \<and> pm_l3_src m1 = Some s \<and> pm_l3_dst m1 = Some d")
    case True
    then obtain data s d where "icmp = Some (EchoRequest data)" "pm_l3_src m1 = Some s" "pm_l3_dst m1 = Some d" by blast
    note e = fin [unfolded this Let_def option.case prod.case icmp_data.case]
    let ?f = "if cached_nexthop_eth_dst rm (h vid) s = None then add_host_fib_route_from_pkt L R rm now m1 h else Inr ([], h)"
    obtain b where "bindE ?f (\<lambda>(msgs, h'). Inr (packet_to L m1 (h vid) b # msgs, m1, h')) = Inr (ms, m', h')" using e by blast
    then have "m1 = m' \<and> bindE ?f (\<lambda>(msgs, h'). Inr (packet_to L m1 (h vid) b # msgs, h')) = Inr (ms, h')" by (auto simp: bindE_Inr)
    then show ?thesis by blast
  next
    case False
    with fin show ?thesis by (cases icmp; cases "the icmp"; cases "pm_l3_src m1"; cases "pm_l3_dst m1") auto
  qed
  then have m': "m1 = m'" and fin: "ms = [] \<and> h' = h \<or> (\<exists>b c. bindE (if c then add_host_fib_route_from_pkt L R rm now m' h else Inr ([], h))
        (\<lambda>(msgs, h'). Inr (packet_to L m' (h vid) b # msgs, h')) = Inr (ms, h'))" by blast+
  note m' = m1 [unfolded m']
  have ok: "pkt_ok L rm m'" by (rule reparse_ok [OF P m m' [unfolded reparse_all_def]])
  with fin show ?thesis using keeps_reply [OF ok] by (auto simp: handled_def)
qed (use m in \<open>auto simp: handled_def\<close>)

lemma keeps_time_exceeded_v4:
  assumes P: "parser_ok P" and m: "pkt_ok L rm m" and r: "time_exceeded_handler_v4 L P m h = Inr (ms, m')"
  shows "handled L rm h ms m' h"
proof (cases "m' = m \<and> ms = []")
  case False
  with r obtain vid vip where vid: "pm_vid m = Inr vid" and vip: "ip_in_vip_subnet_opt (h vid) (pm_l3_src m) = Inr vip"
    by (auto simp: time_exceeded_handler_v4_def bindE_Inr)
  from r False obtain m1 where m1: "reparse_all (lib_ofp L) P m = Inr m1"
    by (cases "reparse_all (lib_ofp L) P m") (auto simp: time_exceeded_handler_v4_def vid vip split: option.split_asm)
  with r False have m': "reparse_all (lib_ofp L) P m = Inr m'" and fin: "ms = [] \<or> (\<exists>v b. ms = [packet_to L m' v b])"
    by (auto simp: time_exceeded_handler_v4_def vid vip Let_def split: option.split_asm)
  have "pkt_ok L rm m'" by (rule reparse_ok [OF P m m' [unfolded reparse_all_def]])
  with fin show ?thesis by auto
qed (use m in simp)

lemma handled_proactive:
  assumes "pkt_ok L rm m" and "bindE (proactive_resolve_neighbor L P R rm now m h) (\<lambda>(msgs, h). Inr (msgs, m, h)) = Inr (ms, m', h')"
  shows "handled L rm h ms m' h'"
  using assms keeps_proactive [OF assms(1)] by (auto simp: handled_def bindE_Inr)

text \<open>When a handler sent nothing, the next one gets the packet.\<close>

lemma handled_then:
  assumes r: "bindE f (\<lambda>(replies, m, h). if replies \<noteq> [] then Inr (replies, m, h) else g m h) = Inr (ms, m', h')"
    and f: "\<And>ms m1 h1. f = Inr (ms, m1, h1) \<Longrightarrow> handled L rm h ms m1 h1"
    and g: "\<And>m1 h1. pkt_ok L rm m1 \<Longrightarrow> g m1 h1 = Inr (ms, m', h') \<Longrightarrow> handled L rm h1 ms m' h'"
  shows "handled L rm h ms m' h'"
proof -
  from r obtain rs m1 h1 where f1: "f = Inr (rs, m1, h1)" and "rs \<noteq> [] \<and> (ms, m', h') = (rs, m1, h1) \<or> rs = [] \<and> g m1 h1 = Inr (ms, m', h')"
    by (auto simp: bindE_Inr split: if_splits)
  then show ?thesis using f [OF f1] g [of m1 h1] heap_keeps_trans [of L rm h "[]" h1 ms h'] by (auto simp: handled_def)
qed

lemma keeps_handler_v4:
  assumes P: "parser_ok P" and m: "pkt_ok L rm m" and r: "control_plane_handler_v4 L P R rm now m h = Inr (ms, m', h')"
  shows "handled L rm h ms m' h'"
proof (cases "packet_complete m")
  case False
  with r handled_proactive [OF m] show ?thesis by (auto simp: control_plane_handler_v4_def)
next
  case True
  have rest: "handled L rm h1 ms m' h'"
    if "bindE (ip_pkt rm m) (\<lambda>pkt. case pkt of
         Some (Ipv4H _ _ proto) \<Rightarrow>
           if pm_reason m = OFPR_INVALID_TTL (lib_ofp L) then bindE (time_exceeded_handler_v4 L P m h1) (\<lambda>(msgs, m). Inr (msgs, m, h1))
           else bindE (control_plane_icmp_handler L P R rm now proto m h1) (\<lambda>(icmp_replies, m, h).
             if icmp_replies \<noteq> [] then Inr (icmp_replies, m, h)
             else bindE (proactive_resolve_neighbor L P R rm now m h) (\<lambda>(msgs, h). Inr (msgs, m, h)))
       | _ \<Rightarrow> Inr ([], m, h1)) = Inr (ms, m', h')" for h1
  proof -
    let ?icmp = "\<lambda>proto. bindE (control_plane_icmp_handler L P R rm now proto m h1) (\<lambda>(icmp_replies, m, h).
      if icmp_replies \<noteq> [] then Inr (icmp_replies, m, h)
      else bindE (proactive_resolve_neighbor L P R rm now m h) (\<lambda>(msgs, h). Inr (msgs, m, h)))"
    from that obtain pkt where pkt: "ip_pkt rm m = Inr pkt" by (auto simp: bindE_Inr)
    show ?thesis
    proof (cases "\<exists>d s proto. pkt = Some (Ipv4H d s proto)")
      case False
      then have "ms = [] \<and> m' = m \<and> h' = h1" using that [unfolded pkt bindE_simps] by (cases pkt; cases "the pkt") auto
      with m show ?thesis by simp
    next
      case True
      then obtain d s proto where pkt': "pkt = Some (Ipv4H d s proto)" by blast
      note that' = that [unfolded pkt bindE_simps pkt' option.case header.case]
      show ?thesis
      proof (cases "pm_reason m = OFPR_INVALID_TTL (lib_ofp L)")
        case True
        with that' keeps_time_exceeded_v4 [OF P m] show ?thesis by (auto simp: bindE_Inr)
      next
        case False
        with that' have "?icmp proto = Inr (ms, m', h')" by simp
        from handled_then [OF this keeps_icmp_handler [OF P m] handled_proactive] show ?thesis .
      qed
    qed
  qed
  from r True obtain ns h1 where a: "control_plane_arp_handler L P R rm now m h = Inr (ns, h1)"
    by (auto simp: control_plane_handler_v4_def bindE_Inr)
  note k = keeps_arp_handler [OF m a]
  show ?thesis
  proof (cases "ns = []")
    case False
    with r True a k m show ?thesis by (simp add: control_plane_handler_v4_def handled_def)
  next
    case True
    with r \<open>packet_complete m\<close> a have "handled L rm h1 ms m' h'" by (intro rest) (simp add: control_plane_handler_v4_def)
    with k True show ?thesis using heap_keeps_trans [of L rm h "[]" h1 ms h'] by (simp add: handled_def)
  qed
qed

lemma keeps_echo_v6:
  assumes m: "pkt_ok L rm m" and r: "echo_request_handler_v6 L P R rm now hl icmp m vid h = Inr (ms, h')"
  shows "heap_keeps L rm h ms h'"
proof (cases "ms = [] \<and> h' = h")
  case False
  with r obtain data where "unicast_to_vip (h vid) m = Inr True"
      and icmp: "\<exists>i s d a b. icmp = Some (EchoRequestV6 i s d) \<and> pm_l3_src m = Some a \<and> pm_l3_dst m = Some b"
    by (cases icmp; cases "the icmp"; cases "pm_l3_src m"; cases "pm_l3_dst m")
      (auto simp: echo_request_handler_v6_def bindE_Inr split: if_split_asm)
  then obtain i s d a b where e: "icmp = Some (EchoRequestV6 i s d)" "pm_l3_src m = Some a" "pm_l3_dst m = Some b" by blast
  note r = r [unfolded echo_request_handler_v6_def \<open>unicast_to_vip (h vid) m = Inr True\<close> bindE_simps e Let_def not_True_eq_False
      if_False option.case prod.case icmpv6_data.case]
  let ?f = "if cached_nexthop_eth_dst rm (h vid) a = None then add_host_fib_route_from_pkt L R rm now m h else Inr ([], h)"
  obtain x where "bindE ?f (\<lambda>(msgs, h'). Inr (packet_to L m (h vid) x # msgs, h')) = Inr (ms, h')" using r by blast
  then show ?thesis by (rule keeps_reply [OF m])
qed simp

lemma keeps_dispatch:
  assumes K: "proto_ok (lib_ofp L)" and P: "parser_ok P" and m: "pkt_ok L rm m" and six: "rm_ipv rm \<noteq> 4"
    and i: "icmpv6_of m = Inr (Some icmp)" and r: "icmpv6_dispatch L P R rm now hl icmp m vid h = Inr (ms, m', h')"
  shows "handled L rm h ms m' h'"
proof -
  have rs: "\<exists>v b. router_solicit_handler L P rm m (h vid) \<in> {[], [packet_to L m v b]}"
    by (auto simp: router_solicit_handler_def split: option.splits prod.splits)
  have others: "handled L rm h ms m' h'"
    if "(if icmpv6_type (lib_ofp L) icmp = Some (ND_ROUTER_SOLICIT (lib_ofp L))
        then Inr (router_solicit_handler L P rm m (h vid), m, h) else Inr ([], m, h)) = Inr (ms, m', h')"
  proof (cases "icmpv6_type (lib_ofp L) icmp = Some (ND_ROUTER_SOLICIT (lib_ofp L))")
    case True
    obtain v b where "router_solicit_handler L P rm m (h vid) \<in> {[], [packet_to L m v b]}" using rs by blast
    with that True m show ?thesis by auto
  qed (use that m in simp)
  show ?thesis
  proof (cases icmp)
    case (NeighborSolicit dst x)
    with r keeps_vip_response [OF m] m show ?thesis by (auto simp: icmpv6_dispatch_def bindE_Inr handled_def)
  next
    case (NeighborAdvert dst x y)
    with i have "ip_version dst = 6" using icmpv6_of_ok [OF m] by simp
    with pkt_okD(5) [OF m] six have v: "\<And>g. Some dst = Some g \<Longrightarrow> ip_version g = rm_ipv rm" by auto
    from r NeighborAdvert have "gw_advert L rm now m (Some dst) h = Inr (ms, h')" "m' = m" by (auto simp: icmpv6_dispatch_def bindE_Inr)
    then have "heap_keeps L rm h ms h'" using keeps_gw_advert [OF m v, of _ now h ms h'] by blast
    with m \<open>m' = m\<close> show ?thesis by (simp add: handled_def)
  next
    case (EchoRequestV6 a b c)
    with r obtain icmp' where m': "reparse_ip (lib_ofp L) P 96 m = Inr m'"
        and e: "echo_request_handler_v6 L P R rm now hl icmp' m' vid h = Inr (ms, h')"
      by (auto simp: icmpv6_dispatch_def bindE_Inr)
    have "pkt_ok L rm m'" by (rule reparse_ip_ok [OF K P m m'])
    with keeps_echo_v6 [OF this e] show ?thesis by (simp add: handled_def)
  next
    case RouterSolicit
    show ?thesis by (rule others) (use r RouterSolicit in \<open>auto simp: icmpv6_dispatch_def\<close>)
  qed (rule others, use r in \<open>simp add: icmpv6_dispatch_def\<close>)+
qed

lemma keeps_icmpv6_handler:
  assumes K: "proto_ok (lib_ofp L)" and P: "parser_ok P" and m: "pkt_ok L rm m" and six: "rm_ipv rm \<noteq> 4"
    and r: "control_plane_icmpv6_handler L P R rm now nxt hl eh m h = Inr (ms, m', h')"
  shows "handled L rm h ms m' h'"
proof (cases "m' = m \<and> ms = [] \<and> h' = h")
  case False
  with r obtain vid m1 icmp where "pm_vid m = Inr vid" and m1: "reparse_ip (lib_ofp L) P 32 m = Inr m1" and icmp: "icmpv6_of m1 = Inr icmp"
      and fin: "(case icmp of None \<Rightarrow> Inr ([], m1, h)
        | Some icmp \<Rightarrow>
            if hl \<noteq> Some IPV6_MAX_HOP_LIM \<and> icmpv6_type (lib_ofp L) icmp \<noteq> Some (ICMPV6_ECHO_REQUEST (lib_ofp L))
            then Inr ([], m1, h) else icmpv6_dispatch L P R rm now hl icmp m1 vid h) = Inr (ms, m', h')"
    unfolding control_plane_icmpv6_handler_def by (force simp: bindE_Inr simp del: option.case split: if_split_asm)
  have ok: "pkt_ok L rm m1" by (rule reparse_ip_ok [OF K P m m1])
  show ?thesis
  proof (cases "icmp = None \<or> m' = m1 \<and> ms = [] \<and> h' = h")
    case True
    with fin ok show ?thesis by auto
  next
    case False
    then obtain i where i: "icmp = Some i" by auto
    with fin False have "icmpv6_dispatch L P R rm now hl i m1 vid h = Inr (ms, m', h')" by (simp split: if_split_asm)
    from keeps_dispatch [OF K P ok six icmp [unfolded i] this] show ?thesis .
  qed
qed (use m in simp)

lemma keeps_time_exceeded_v6:
  assumes K: "proto_ok (lib_ofp L)" and P: "parser_ok P" and m: "pkt_ok L rm m" and r: "time_exceeded_handler_v6 L P eh m h = Inr (ms, m')"
  shows "handled L rm h ms m' h"
proof (cases "m' = m \<and> ms = []")
  case False
  with r obtain vid vip where vid: "pm_vid m = Inr vid" and vip: "ip_in_vip_subnet_opt (h vid) (pm_l3_src m) = Inr vip"
    by (auto simp: time_exceeded_handler_v6_def bindE_Inr split: if_split_asm)
  from r False obtain m1 where m1: "reparse_ip (lib_ofp L) P 32 m = Inr m1"
    by (cases "reparse_ip (lib_ofp L) P 32 m") (auto simp: time_exceeded_handler_v6_def vid vip split: option.split_asm if_split_asm)
  with r False have m': "reparse_ip (lib_ofp L) P 32 m = Inr m'" and fin: "ms = [] \<or> (\<exists>v b. ms = [packet_to L m' v b])"
    by (auto simp: time_exceeded_handler_v6_def vid vip Let_def split: option.split_asm if_split_asm)
  have "pkt_ok L rm m'" by (rule reparse_ip_ok [OF K P m m'])
  with fin show ?thesis by auto
qed (use m in simp)

lemma keeps_handler_v6:
  assumes K: "proto_ok (lib_ofp L)" and P: "parser_ok P" and m: "pkt_ok L rm m" and six: "rm_ipv rm \<noteq> 4"
    and r: "control_plane_handler_v6 L P R rm now m h = Inr (ms, m', h')"
  shows "handled L rm h ms m' h'"
proof (cases "packet_complete m")
  case False
  with r handled_proactive [OF m] show ?thesis by (auto simp: control_plane_handler_v6_def)
next
  case True
  with r obtain pkt where pkt: "ip_pkt rm m = Inr pkt" by (auto simp: control_plane_handler_v6_def bindE_Inr)
  note r = r [unfolded control_plane_handler_v6_def Let_def pkt bindE_simps]
  show ?thesis
  proof (cases "\<exists>s d nxt hl eh. pkt = Some (Ipv6H s d nxt hl eh)")
    case False
    then have "ms = [] \<and> m' = m \<and> h' = h" using r True by (cases pkt; cases "the pkt") auto
    with m show ?thesis by simp
  next
    case pkt6: True
    then obtain s d nxt hl eh where pkt': "pkt = Some (Ipv6H s d nxt hl eh)" by blast
    note r = r [unfolded pkt' option.case header.case]
    show ?thesis
    proof (cases "pm_reason m = OFPR_INVALID_TTL (lib_ofp L)")
      case True
      with r \<open>packet_complete m\<close> keeps_time_exceeded_v6 [OF K P m] show ?thesis by (auto simp: bindE_Inr)
    next
      case False
      with r True have "bindE (control_plane_icmpv6_handler L P R rm now nxt hl eh m h) (\<lambda>(icmp_replies, m, h).
          if icmp_replies \<noteq> [] then Inr (icmp_replies, m, h)
          else bindE (proactive_resolve_neighbor L P R rm now m h) (\<lambda>(msgs, h). Inr (msgs, m, h))) = Inr (ms, m', h')" by simp
      from handled_then [OF this keeps_icmpv6_handler [OF K P m six] handled_proactive] show ?thesis .
    qed
  qed
qed

lemma keeps_control_plane:
  assumes K: "proto_ok (lib_ofp L)" and P: "parser_ok P" and m: "pkt_ok L rm m"
    and r: "valve_control_plane_handler L P R rm now m h = Inr (ms, m', h')"
  shows "handled L rm h ms m' h'"
  using r m keeps_handler_v4 [OF P m, of R now h ms m' h'] keeps_handler_v6 [OF K P m, of R now h ms m' h']
  by (auto simp: valve_control_plane_handler_def control_plane_handler_def bindE_Inr split: if_split_asm)

lemma keeps_rcv_packet:
  assumes K: "proto_ok (lib_ofp L)" and P: "parser_ok P" and m: "pkt_ok L rm m" and rm: "manager_by_eth_type L rms (pm_eth_type m) = Some rm"
    and r: "router_rcv_packet L P R rms now m h = Inr (ms, h')"
  shows "heap_keeps L rm h ms h'"
proof (cases "ms = [] \<and> h' = h")
  case False
  with r rm obtain vid m1 where vid: "pm_vid m = Inr vid" and m1: "reparse_ip (lib_ofp L) P 0 m = Inr m1"
    by (auto simp: router_rcv_packet_def bindE_Inr split: if_split_asm)
  have ok: "pkt_ok L rm m1" by (rule reparse_ip_ok [OF K P m m1])
  note U = pkt_okD(1) [OF m vid]
  from r [unfolded router_rcv_packet_def vid bindE_simps rm option.case m1] False
  obtain ms0 m2 h1 where c: "valve_control_plane_handler L P R rm now m1 h = Inr (ms0, m2, h1)"
      and fin: "ms0 = ms \<and> h1 = h' \<or> ms0 = [] \<and> (\<exists>ms1 h2 ms2 h3 ms3. add_host_fib_route_from_pkt L R rm now m2 h1 = Inr (ms1, h2) \<and>
        on_vlan (resolve_gateways L P R rm now False) vid h2 = Inr (ms2, h3) \<and>
        on_vlan (resolve_expire_hosts L P R rm now False) vid h3 = Inr (ms3, h') \<and> ms = ms1 @ ms2 @ ms3)"
    by (force simp: bindE_Inr split: if_split_asm)
  note c = keeps_control_plane [OF K P ok c]
  from fin show ?thesis
  proof (elim disjE exE conjE)
    fix ms1 h2 ms2 h3 ms3
    assume e: "ms0 = []" "ms = ms1 @ ms2 @ ms3" and r1: "add_host_fib_route_from_pkt L R rm now m2 h1 = Inr (ms1, h2)"
      and r2: "on_vlan (resolve_gateways L P R rm now False) vid h2 = Inr (ms2, h3)"
      and r3: "on_vlan (resolve_expire_hosts L P R rm now False) vid h3 = Inr (ms3, h')"
    have k1: "heap_keeps L rm h1 ms1 h2" by (rule keeps_from_pkt [OF _ r1]) (use c in \<open>simp add: handled_def\<close>)
    have k2: "heap_keeps L rm h2 ms2 h3" by (rule heap_on_vlan [OF U r2 keeps_resolve_gateways [OF unroutedD(1) [OF U]]])
    have k3: "heap_keeps L rm h3 ms3 h'" by (rule heap_on_vlan [OF U r3 keeps_resolve_hosts [OF unroutedD(1) [OF U]]])
    have "heap_keeps L rm h ms0 h1" using c by (simp add: handled_def)
    from heap_keeps_trans [OF this heap_keeps_trans [OF heap_keeps_trans [OF k1 k2] k3]] e show ?thesis by simp
  qed (use c in \<open>simp add: handled_def\<close>)
qed simp

section \<open>Runs of a route manager\<close>

text \<open>
  What may happen to a manager none of whose VLANs is in a router, between any two packets: a packet that is
  for it, a run of a resolver, a port that goes down, and the addition and deletion of routes. A route
  is added to a destination that has none, or again. The state is the VLANs and the FIB of the switch.
\<close>

inductive routing_step ::
    "lib \<Rightarrow> pktlib \<Rightarrow> routelib \<Rightarrow> route_mgr list \<Rightarrow> route_mgr \<Rightarrow> vlan_heap \<times> fib \<Rightarrow> vlan_heap \<times> fib \<Rightarrow> bool"
  for L P R rms rm where
  packet: "pkt_ok L rm m \<Longrightarrow> manager_by_eth_type L rms (pm_eth_type m) = Some rm \<Longrightarrow>
    router_rcv_packet L P R rms now m h = Inr (ms, h') \<Longrightarrow>
    routing_step L P R rms rm (h, f) (h', fib_run (fib_id rm) ms f)"
| resolve: "unrouted L rm vid \<Longrightarrow> on_vlan (resolve_gateways L P R rm now True) vid h = Inr (ms, h') \<Longrightarrow>
    routing_step L P R rms rm (h, f) (h', fib_run (fib_id rm) ms f)"
| resolve_hosts: "unrouted L rm vid \<Longrightarrow> on_vlan (resolve_expire_hosts L P R rm now True) vid h = Inr (ms, h') \<Longrightarrow>
    routing_step L P R rms rm (h, f) (h', fib_run (fib_id rm) ms f)"
| port_down: "\<forall>vid \<in> set (port_vlans p). unrouted L rm vid \<Longrightarrow> expire_port_nexthops L rm p h = Inr (ms, h') \<Longrightarrow>
    routing_step L P R rms rm (h, f) (h', fib_run (fib_id rm) ms f)"
| route_added: "unrouted L rm vid \<Longrightarrow> route_allowed rm d g \<Longrightarrow> route_of (h vid) d \<in> {None, Some g} \<Longrightarrow>
    route_add_route L R rm vid g d h = Inr (ms, h') \<Longrightarrow>
    routing_step L P R rms rm (h, f) (h', fib_run (fib_id rm) ms f)"
| route_deleted: "unrouted L rm vid \<Longrightarrow> net_version d = rm_ipv rm \<Longrightarrow>
    on_vlan (route_del_route L rm d) vid h = Inr (ms, h') \<Longrightarrow>
    routing_step L P R rms rm (h, f) (h', fib_run (fib_id rm) ms f)"

lemma heap_expire_port:
  assumes U: "\<forall>vid \<in> set (port_vlans p). unrouted L rm vid" and r: "expire_port_nexthops L rm p h = Inr (ms, h')"
    and h: "heap_ok L rm h f"
  shows "heap_ok L rm h' (fib_run (fib_id rm) ms f)"
proof -
  let ?op = "\<lambda>vid (ofmsgs, h).
      let dead_nexthops = filter (\<lambda>(_, nh). case nh_port nh of None \<Rightarrow> False | Some q \<Rightarrow> p_number p = p_number q)
                            (vlan_nexthop_cache rm (h vid))
      in bindE (expire_nexthops L rm dead_nexthops (h vid)) (\<lambda>(msgs, v). Inr (ofmsgs @ msgs, h(vid := v)))"
  have "heap_ok L rm h' (fib_run (fib_id rm) ms f)"
    if "foldE ?op vids (ms0, h0) = Inr (ms, h')" and "heap_ok L rm h0 (fib_run (fib_id rm) ms0 f)"
      and "\<forall>vid \<in> set vids. unrouted L rm vid" for vids ms0 h0
    using that
  proof (induction vids arbitrary: ms0 h0)
    case Nil
    then show ?case by simp
  next
    case (Cons vid vids)
    let ?xs = "filter (\<lambda>(_, nh). case nh_port nh of None \<Rightarrow> False | Some q \<Rightarrow> p_number p = p_number q) (vlan_nexthop_cache rm (h0 vid))"
    from Cons.prems(1) obtain ns v where ns: "expire_nexthops L rm ?xs (h0 vid) = Inr (ns, v)"
        and rest: "foldE ?op vids (ms0 @ ns, h0(vid := v)) = Inr (ms, h')"
      by (auto simp: bindE_Inr Let_def simp del: fun_upd_apply)
    have U: "unrouted L rm vid" using Cons.prems(3) by simp
    have "heap_keeps L rm h0 ns (h0(vid := v))"
    proof (rule heap_keeps_vlan [OF U])
      fix f assume h: "heap_ok L rm h0 f"
      have "fib_ok L rm {} (h0 vid) f" using h unroutedD(5,6) [OF U] by (simp add: heap_ok_def)
      then have ver: "vlan_nexthop_cache_entry rm (h0 vid) g \<noteq> None \<Longrightarrow> ip_version g = rm_ipv rm" for g
        using fib_okD(5) by (auto simp: versions_ok_def)
      have "\<forall>(g, nh) \<in> set ?xs. ip_version g = rm_ipv rm"
      proof (intro ballI, clarify)
        fix g nh assume "(g, nh) \<in> set ?xs"
        then have "(g, nh) \<in> set (vlan_nexthop_cache rm (h0 vid))" by simp
        then have "g \<in> set (dict_keys (vlan_nexthop_cache rm (h0 vid)))" unfolding dict_keys_def by force
        then have "dict_get (vlan_nexthop_cache rm (h0 vid)) g \<noteq> None" by (simp add: dict_get_None)
        then show "ip_version g = rm_ipv rm" using ver by (simp add: vlan_nexthop_cache_entry_def)
      qed
      from keeps_expire_nexthops [OF unroutedD(1) [OF U] vids_ok_heap [OF U h] this ns]
      show "keeps L rm {} (h0 vid) ns {} v" .
    qed
    with Cons.prems(2) have "heap_ok L rm (h0(vid := v)) (fib_run (fib_id rm) (ms0 @ ns) f)" by (simp add: heap_keeps_def)
    from Cons.IH [OF rest this] Cons.prems(3) show ?case by simp
  qed
  from this [of "port_vlans p" "[]" h] r h U show ?thesis by (simp add: expire_port_nexthops_def)
qed

lemma routing_step_keeps:
  assumes "routing_step L P R rms rm s s'" and P: "parser_ok P" and "heap_ok L rm (fst s) (snd s)"
  shows "heap_ok L rm (fst s') (snd s')"
  using assms(1,3)
proof cases
  case (packet m now h ms h' f)
  note m = this
  show ?thesis
  proof (cases "ms = [] \<and> h' = h")
    case True
    with m assms(3) show ?thesis by simp
  next
    case False
    then obtain vid where "pm_vid m = Inr vid" using m(5) by (auto simp: router_rcv_packet_def bindE_Inr)
    then have "proto_ok (lib_ofp L)" using pkt_okD(1) [OF m(3)] unroutedD(1) by blast
    from keeps_rcv_packet [OF this P m(3-5)] m assms(3) show ?thesis by (simp add: heap_keeps_def)
  qed
next
  case (resolve vid now h ms h' f)
  with heap_on_vlan [OF resolve(3,4) keeps_resolve_gateways [OF unroutedD(1) [OF resolve(3)]]] assms(3) show ?thesis
    by (simp add: heap_keeps_def)
next
  case (resolve_hosts vid now h ms h' f)
  with heap_on_vlan [OF resolve_hosts(3,4) keeps_resolve_hosts [OF unroutedD(1) [OF resolve_hosts(3)]]] assms(3) show ?thesis
    by (simp add: heap_keeps_def)
next
  case (port_down p h ms h' f)
  with heap_expire_port [OF port_down(3,4)] assms(3) show ?thesis by simp
next
  case (route_added vid d g h ms h' f)
  note U = route_added(3)
  from unrouted_add_route [OF U route_added(6)] have "heap_keeps L rm h ms h'"
  proof (elim disjE exE conjE)
    fix v' assume v': "add_route_on_vlan L rm g d (h vid) = Inr (ms, v')" "h' = h(vid := v')"
    show ?thesis
      unfolding v'(2)
    proof (rule heap_keeps_vlan [OF U])
      fix f assume h: "heap_ok L rm h f"
      from keeps_add_route [OF unroutedD(1) [OF U] vids_ok_heap [OF U h] route_added(4,5) v'(1)]
      show "keeps L rm {} (h vid) ms {} v'" .
    qed
  qed simp
  with route_added assms(3) show ?thesis by (simp add: heap_keeps_def)
next
  case (route_deleted vid d h ms h' f)
  have "keeps L rm {} v ms {} v'" if "vids_ok rm (v_vid v)" "route_del_route L rm d v = Inr (ms, v')" for v v' ms
    using keeps_del_route [OF unroutedD(1) [OF route_deleted(3)] that(1) route_deleted(4) that(2)] by blast
  from heap_on_vlan [OF route_deleted(3,5) this] route_deleted assms(3) show ?thesis by (simp add: heap_keeps_def)
qed

text \<open>The VLANs before the first message: routes of the configuration, no next hop.\<close>

definition vlans_start :: "route_mgr \<Rightarrow> vlan_heap \<Rightarrow> bool" where
  "vlans_start rm h \<longleftrightarrow>
     (\<forall>vid. v_vid (h vid) = vid \<and> v_dyn_neigh_cache (h vid) = [] \<and> routes_ok (h vid) \<and> gw_types_ok (h vid) \<and>
        (\<forall>g \<in> set (by_ipv (v_dyn_host_gws (h vid)) (rm_ipv rm)) \<union> set (by_ipv (v_dyn_route_gws (h vid)) (rm_ipv rm)).
           ip_version g = rm_ipv rm) \<and>
        (\<forall>d g. route_of (h vid) d = Some g \<longrightarrow>
           net_ok d \<and> (net_prefixlen d = max_prefixlen (net_version d) \<longrightarrow> d = host_net g)))"

lemma vlans_start_ok: "vlans_start rm h \<Longrightarrow> heap_ok L rm h f"
  by (simp add: heap_ok_def vlans_start_def fib_ok_def versions_ok_def vlan_nexthop_cache_entry_def vlan_nexthop_cache_def
      neigh_cache_by_ipv_def cached_nexthop_eth_dst_def by_ipv_def)

lemma routing_run_keeps:
  assumes "(routing_step L P R rms rm)\<^sup>*\<^sup>* s s'" "parser_ok P" "heap_ok L rm (fst s) (snd s)"
  shows "heap_ok L rm (fst s') (snd s')"
  using assms by (induction rule: rtranclp_induct) (blast intro: routing_step_keeps)+


subsection \<open>Witness\<close>

definition ip4 :: "int \<Rightarrow> ipaddr" where
  "ip4 n = \<lparr>ip_version = 4, ip_value = 0x0a000000 + n\<rparr>"

definition example_route_vlan :: vlan where
  "example_route_vlan = edge_vlan\<lparr>v_faucet_vips := [\<lparr>if_ip = ip4 254, if_prefixlen = 24\<rparr>]\<rparr>"

definition example_heap :: vlan_heap where
  "example_heap vid = (if vid = 100 then example_route_vlan else new_vlan vid)"

definition example_rm :: route_mgr where
  "example_rm =
     \<lparr>rm_ipv = 4, rm_active = True, rm_global_vlan = 0, rm_neighbor_timeout = 30, rm_max_hosts_per_resolve_cycle = 5,
      rm_max_host_fib_retry_count = 10, rm_max_resolve_backoff_time = 64, rm_proactive_learn = True, rm_dec_ttl = False,
      rm_multi_out = True, rm_fib_table = example_table ''ipv4_fib'', rm_vip_table = example_table ''vip'',
      rm_pipeline = example_pipeline, rm_route_priority = 0x5000, rm_routers = [], rm_stack = None\<rparr>"

definition example_routelib :: routelib where
  "example_routelib = \<lparr>rl_randint = (\<lambda>a b. a), rl_shuffle = (\<lambda>xs. xs), rl_lpm = (\<lambda>d a. None)\<rparr>"

text \<open>The gateway 10.0.0.1, whose MAC address is 7, answers the ARP request of the VIP 10.0.0.254.\<close>

definition arp_answer :: "header list" where
  "arp_answer = [EthernetH ''0e:00:00:00:00:01'' ''00:00:00:00:00:07'' (ETH_TYPE_8021Q of13), VlanH 100 (ETH_TYPE_ARP of13),
     ArpH ARP_REPLY ''00:00:00:00:00:07'' (ip4 1) ''0e:00:00:00:00:01'' (ip4 254)]"

definition arp_parser :: pktlib where
  "arp_parser = example_pktlib\<lparr>pl_parse := (\<lambda>d. Inr (if length d \<le> 18 then take 2 arp_answer else arp_answer))\<rparr>"

definition arp_packet :: pkt_meta where
  "arp_packet = example_short_pkt\<lparr>pm_reason := OFPR_ACTION of13, pm_data := replicate 46 0, pm_orig_len := 46, pm_pkt := None,
     pm_pkt_data := [], pm_eth_pkt := Some (''00:00:00:00:00:07'', ''0e:00:00:00:00:01'', ETH_TYPE_8021Q of13),
     pm_vlan_pkt := Some (VlanH 100 (ETH_TYPE_ARP of13)), pm_port := edge_port 1, pm_vlan := Some example_route_vlan,
     pm_eth_src := 7, pm_eth_dst := ''0e:00:00:00:00:01'', pm_eth_type := ETH_TYPE_ARP of13,
     pm_l3_pkt := None, pm_l3_src := None, pm_l3_dst := None\<rparr>"

definition far_net :: ipnet where
  "far_net = \<lparr>net_version = 4, net_address = 0x0a010000, net_prefixlen = 16\<rparr>"

lemma example_start: "vlans_start example_rm example_heap"
proof -
  have e: "v_dyn_neigh_cache (example_heap vid) = []" "v_dyn_routes (example_heap vid) = []" "v_dyn_gws (example_heap vid) = []"
    "v_dyn_host_gws (example_heap vid) = []" "v_dyn_route_gws (example_heap vid) = []" "v_vid (example_heap vid) = vid" for vid
    by (simp_all add: example_heap_def example_route_vlan_def edge_vlan_def new_vlan_def)
  have r: "route_of (example_heap vid) d = None" "ip_dsts_for_ip_gw (example_heap vid) g = []" for vid d g
    by (simp_all add: route_of_def routes_by_ipv_def ip_dsts_for_ip_gw_def by_ipv_def e)
  show ?thesis by (simp add: vlans_start_def routes_ok_def gw_types_ok_def is_host_fib_route_def r e by_ipv_def)
qed


section \<open>The VIP's own flow\<close>

text \<open>
  The guard of \<open>add_route\<close> against a route to a VIP is given a network, so it never holds: a host that sends an
  ARP request from the address of the VIP is learned, and its route takes the place of the VIP's own flow.
\<close>

definition spoofed_request :: "header list" where
  "spoofed_request = [EthernetH BROADCAST_STR ''00:00:00:00:00:09'' (ETH_TYPE_8021Q of13), VlanH 100 (ETH_TYPE_ARP of13),
     ArpH ARP_REQUEST ''00:00:00:00:00:09'' (ip4 254) ''00:00:00:00:00:00'' (ip4 254)]"

definition spoofed_packet :: pkt_meta where
  "spoofed_packet = arp_packet\<lparr>pm_eth_pkt := Some (''00:00:00:00:00:09'', BROADCAST_STR, ETH_TYPE_8021Q of13),
     pm_eth_src := 9, pm_eth_dst := BROADCAST_STR\<rparr>"

definition spoof_parser :: pktlib where
  "spoof_parser = example_pktlib\<lparr>pl_parse := (\<lambda>d. Inr (if length d \<le> 18 then take 2 spoofed_request else spoofed_request)),
     pl_mac_bin := (\<lambda>mac. if mac = BROADCAST_STR then replicate 6 255 else [0, 0, 0, 0, 0, 9])\<rparr>"

definition vip_instructions :: "fib \<Rightarrow> instruction list option" where
  "vip_instructions f = map_option fm_instructions (f (fib_key example_lib example_rm 100 (host_net (ip4 254))))"

lemma vip_flow_overwritten:
  "bindE (route_add_vlan example_lib example_rm example_heap 100 True) (\<lambda>ms1.
   bindE (router_rcv_packet example_lib spoof_parser example_routelib [example_rm] 10 spoofed_packet example_heap) (\<lambda>(ms2, _).
   let f = fib_run (fib_id example_rm) ms1 (\<lambda>_. None)
   in Inr (vip_instructions f, vip_instructions (fib_run (fib_id example_rm) ms2 f)))) =
   bindE (goto_vip example_rm) (\<lambda>goto.
   bindE (nexthop_actions example_lib example_rm 9 example_route_vlan) (\<lambda>actions.
   Inr (Some [goto], Some (accept_to_l2_forwarding (rm_pipeline example_rm) actions))))"
  by code_simp

section \<open>The work of a resolve cycle\<close>

text \<open>
  The messages of a gateway in a cycle: those of its entry in the cache of the VLAN as the cycle finds it, which is due.
  The cycle itself changes the cache and the queue of the VLAN.
\<close>

definition asked :: "lib \<Rightarrow> pktlib \<Rightarrow> routelib \<Rightarrow> route_mgr \<Rightarrow> int \<Rightarrow> vlan \<Rightarrow> ipaddr \<Rightarrow> ofmsg list \<Rightarrow> bool" where
  "asked L P R rm now v g fl \<longleftrightarrow>
     (\<exists>nh c q v'. vlan_nexthop_cache_entry rm v g = Some nh \<and> resolution_due nh now (rm_neighbor_timeout rm) \<and>
        resolve_gateway_flows L P R rm now g nh (v\<lparr>v_dyn_neigh_cache := c, v_dyn_unresolved_route_ip_gws := q\<rparr>) = Inr (fl, v'))"

definition cycle_state :: "route_mgr \<Rightarrow> int \<Rightarrow> vlan \<Rightarrow> vlan \<Rightarrow> bool" where
  "cycle_state rm now v u \<longleftrightarrow>
     (\<exists>c q. u = v\<lparr>v_dyn_neigh_cache := c, v_dyn_unresolved_route_ip_gws := q\<rparr>) \<and>
     (\<forall>g nh. vlan_nexthop_cache_entry rm u g = Some nh \<and> resolution_due nh now (rm_neighbor_timeout rm) \<longrightarrow>
        vlan_nexthop_cache_entry rm v g = Some nh)"

lemma entry_put: "vlan_nexthop_cache_entry rm (put_nexthop rm g nh v) g' = (if g' = g then Some nh else vlan_nexthop_cache_entry rm v g')"
  by (simp add: vlan_nexthop_cache_entry_def vlan_nexthop_cache_def neigh_cache_by_ipv_def put_nexthop_def set_nexthop_cache_def)

lemma retried_not_due:
  assumes "randint_ok r" and "0 \<le> B"
  shows "\<not> resolution_due (next_retry r nh now B) now t"
proof -
  obtain w where w: "nh_next_retry_time (next_retry r nh now B) = Some w" "now + min (2 ^ (nh_resolve_retries nh + 1)) B \<le> w"
    using next_retry_time_bounds [OF assms(1), of nh now B] by blast
  have "(0 :: int) \<le> 2 ^ (nh_resolve_retries nh + 1)" by simp
  with w(2) assms(2) have "now \<le> w" by linarith
  then show ?thesis by (simp add: resolution_due_def w(1))
qed

lemma cycle_state_refl: "cycle_state rm now v v"
  by (auto simp: cycle_state_def intro!: exI [of _ "v_dyn_neigh_cache v"] exI [of _ "v_dyn_unresolved_route_ip_gws v"])

lemma cycle_state_put:
  assumes "cycle_state rm now v u" and "\<not> resolution_due nh now (rm_neighbor_timeout rm)"
  shows "cycle_state rm now v (put_nexthop rm g nh u)"
proof -
  from assms(1) obtain c q where u: "u = v\<lparr>v_dyn_neigh_cache := c, v_dyn_unresolved_route_ip_gws := q\<rparr>"
    and due: "\<And>g nh. vlan_nexthop_cache_entry rm u g = Some nh \<Longrightarrow> resolution_due nh now (rm_neighbor_timeout rm) \<Longrightarrow>
        vlan_nexthop_cache_entry rm v g = Some nh" by (auto simp: cycle_state_def)
  have "\<exists>c q. put_nexthop rm g nh u = v\<lparr>v_dyn_neigh_cache := c, v_dyn_unresolved_route_ip_gws := q\<rparr>"
    unfolding put_nexthop_def set_nexthop_cache_def u by (rule exI, rule exI [of _ q], rule vlan.equality) simp_all
  with due assms(2) show ?thesis unfolding cycle_state_def by (auto simp: entry_put split: if_splits)
qed

lemma cycle_state_queue:
  assumes "cycle_state rm now v u"
  shows "cycle_state rm now v (u\<lparr>v_dyn_unresolved_route_ip_gws := q\<rparr>)"
proof -
  have "vlan_nexthop_cache_entry rm (u\<lparr>v_dyn_unresolved_route_ip_gws := q\<rparr>) g = vlan_nexthop_cache_entry rm u g" for g
    by (simp add: vlan_nexthop_cache_entry_def vlan_nexthop_cache_def neigh_cache_by_ipv_def)
  moreover from assms obtain c p where "u = v\<lparr>v_dyn_neigh_cache := c, v_dyn_unresolved_route_ip_gws := p\<rparr>"
    by (auto simp: cycle_state_def)
  then have "u\<lparr>v_dyn_unresolved_route_ip_gws := q\<rparr> = v\<lparr>v_dyn_neigh_cache := c, v_dyn_unresolved_route_ip_gws := q\<rparr>" by simp
  ultimately show ?thesis using assms unfolding cycle_state_def by metis
qed

lemma cycle_state_grouped:
  "group_unresolved rm now xs (d, u) = (d', u') \<Longrightarrow> cycle_state rm now v u \<Longrightarrow> cycle_state rm now v u'"
proof (induction xs arbitrary: d u)
  case Nil
  then show ?case by (simp add: group_unresolved_def)
next
  case (Cons x xs)
  obtain g e where x: "x = (g, e)" by (cases x)
  define w where "w = (case e of None \<Rightarrow> update_nexthop_cache rm now None None g u | Some nh \<Rightarrow> u)"
  obtain d1 where "group_unresolved rm now xs (d1, w) = (d', u')"
    using Cons.prems(1) x by (cases e) (auto simp: group_unresolved_def w_def)
  moreover have "cycle_state rm now v w"
    using Cons.prems(2) cycle_state_put [of rm now v u "new_nexthop None None now" g]
    by (auto simp: w_def update_nexthop_cache_def new_nexthop_due split: option.splits)
  ultimately show ?case by (rule Cons.IH)
qed

lemma cycle_start:
  assumes "resolve_gateways L P R rm now all v = Inr (ms, v')"
  obtains gws u where "cycle_state rm now v u"
    and "resolve_gateways_flows rm (resolve_gateway_flows L P R rm now) now gws (rm_max_hosts_per_resolve_cycle rm) u = Inr (ms, v')"
proof -
  obtain q w where q: "vlan_unresolved_nexthops R rm now (by_ipv (v_dyn_route_gws v) (rm_ipv rm)) v = (q, w)" by fastforce
  then have w: "cycle_state rm now v w"
    by (auto simp: vlan_unresolved_nexthops_def Let_def split: prod.splits intro: cycle_state_grouped cycle_state_refl)
  show thesis
  proof (cases all)
    case True
    with assms q show ?thesis
      by (intro that [OF cycle_state_queue [OF w]]) (simp del: resolve_gateways_flows.simps add: resolve_gateways_def Let_def)
  next
    case False
    show ?thesis
    proof (cases "by_ipv (v_dyn_unresolved_route_ip_gws v) (rm_ipv rm)")
      case Nil
      with assms False show ?thesis by (intro that [OF cycle_state_refl, of "[]"]) (simp add: resolve_gateways_def Let_def)
    next
      case (Cons g gs)
      with assms False show ?thesis
        by (intro that [OF cycle_state_queue [OF cycle_state_refl, where q = "dict_set (rm_ipv rm) gs (v_dyn_unresolved_route_ip_gws v)"], of "[g]"])
          (simp del: resolve_gateways_flows.simps add: resolve_gateways_def Let_def)
    qed
  qed
qed

lemma cycle_loop:
  assumes R: "randint_ok (rl_randint R)" and B: "0 \<le> rm_max_resolve_backoff_time rm"
  shows "0 \<le> n \<Longrightarrow> cycle_state rm now v u \<Longrightarrow>
    resolve_gateways_flows rm (resolve_gateway_flows L P R rm now) now gws n u = Inr (ms, v') \<Longrightarrow>
    \<exists>gs fls. ms = concat fls \<and> int (length gs) \<le> n \<and> distinct gs \<and> list_all2 (asked L P R rm now v) gs fls \<and>
      (\<forall>g \<in> set gs. \<exists>nh. vlan_nexthop_cache_entry rm u g = Some nh \<and> resolution_due nh now (rm_neighbor_timeout rm))"
proof (induction gws arbitrary: n u ms)
  case Nil
  then show ?case by (intro exI [of _ "[]"]) simp
next
  case (Cons g gws)
  show ?case
  proof (cases "n = 0")
    case True
    with Cons.prems show ?thesis by (intro exI [of _ "[]"]) simp
  next
    case n: False
    show ?thesis
    proof (cases "case vlan_nexthop_cache_entry rm u g of None \<Rightarrow> False | Some nh \<Rightarrow> resolution_due nh now (rm_neighbor_timeout rm)")
      case False
      with n Cons.prems(3) have "resolve_gateways_flows rm (resolve_gateway_flows L P R rm now) now gws n u = Inr (ms, v')"
        by (simp split: option.splits)
      from Cons.IH [OF Cons.prems(1,2) this] show ?thesis .
    next
      case True
      then obtain nh where nh: "vlan_nexthop_cache_entry rm u g = Some nh" "resolution_due nh now (rm_neighbor_timeout rm)"
        by (auto split: option.splits)
      with n Cons.prems(3) obtain fl u1 ns where h: "resolve_gateway_flows L P R rm now g nh u = Inr (fl, u1)"
          and rest: "resolve_gateways_flows rm (resolve_gateway_flows L P R rm now) now gws (if fl \<noteq> [] then n - 1 else n) u1 = Inr (ns, v')"
          and ms: "ms = fl @ ns"
        by (auto simp: bindE_Inr)
      let ?nh = "next_retry (rl_randint R) nh now (rm_max_resolve_backoff_time rm)"
      note asleep = retried_not_due [OF R B, of nh now "rm_neighbor_timeout rm"]
      have u1: "u1 = u \<and> fl = [] \<or> u1 = put_nexthop rm g ?nh u" using resolve_gateway_result [OF h] by blast
      then have st: "cycle_state rm now v u1" using Cons.prems(2) cycle_state_put [OF Cons.prems(2) asleep] by auto
      have n0: "0 \<le> (if fl \<noteq> [] then n - 1 else n)" using n Cons.prems(1) by simp
      from Cons.IH [OF n0 st rest] obtain gs fls where i: "ns = concat fls" "int (length gs) \<le> (if fl \<noteq> [] then n - 1 else n)"
          "distinct gs" "list_all2 (asked L P R rm now v) gs fls"
          and due: "\<forall>g \<in> set gs. \<exists>nh. vlan_nexthop_cache_entry rm u1 g = Some nh \<and> resolution_due nh now (rm_neighbor_timeout rm)"
        by blast
      have due': "\<exists>nh. vlan_nexthop_cache_entry rm u g' = Some nh \<and> resolution_due nh now (rm_neighbor_timeout rm)" if "g' \<in> set gs" for g'
        using due that u1 asleep by (auto simp: entry_put split: if_splits)
      show ?thesis
      proof (cases "fl = []")
        case True
        with i ms due' show ?thesis by auto
      next
        case False
        with u1 have "u1 = put_nexthop rm g ?nh u" by simp
        with due asleep have g: "g \<notin> set gs" by (auto simp: entry_put)
        have "asked L P R rm now v g fl" using Cons.prems(2) nh h unfolding asked_def cycle_state_def by blast
        with i g due' nh ms False show ?thesis by (intro exI [of _ "g # gs"] exI [of _ "fl # fls"]) auto
      qed
    qed
  qed
qed

text \<open>A cycle of the gateway resolver asks for a bounded number of gateways.\<close>

text \<open>C32. A cycle of the gateway resolver sends the messages of at most the configured number of
  gateways, no gateway twice, each for the entry the cache of the VLAN had for it when the cycle
  began, which was due; the limits of the configuration are not negative.\<close>

lemma resolve_cycle_bound:
  assumes "0 \<le> rm_max_hosts_per_resolve_cycle rm" and "0 \<le> rm_max_resolve_backoff_time rm" and "randint_ok (rl_randint R)"
    and "resolve_gateways L P R rm now all v = Inr (ms, v')"
  shows "\<exists>gs fls. ms = concat fls \<and> int (length gs) \<le> rm_max_hosts_per_resolve_cycle rm \<and> distinct gs \<and>
    list_all2 (asked L P R rm now v) gs fls"
proof -
  from cycle_start [OF assms(4)] obtain gws u where "cycle_state rm now v u"
      "resolve_gateways_flows rm (resolve_gateway_flows L P R rm now) now gws (rm_max_hosts_per_resolve_cycle rm) u = Inr (ms, v')" .
  from cycle_loop [OF assms(3,2,1) this] show ?thesis by blast
qed

lemma resolve_cycle_bound_witness:
  "\<exists>ms gs fls v'. resolve_gateways example_lib arp_parser example_routelib example_rm 10 True
       (put_nexthop example_rm (ip4 1) (new_nexthop None None 0) (add_route far_net (ip4 1) example_route_vlan)) = Inr (ms, v') \<and>
     length ms = 1 \<and> ms = concat fls \<and> int (length gs) \<le> 5 \<and> distinct gs \<and>
     list_all2 (asked example_lib arp_parser example_routelib example_rm 10
       (put_nexthop example_rm (ip4 1) (new_nexthop None None 0) (add_route far_net (ip4 1) example_route_vlan))) gs fls"
proof -
  let ?v = "put_nexthop example_rm (ip4 1) (new_nexthop None None 0) (add_route far_net (ip4 1) example_route_vlan)"
  have "bindE (resolve_gateways example_lib arp_parser example_routelib example_rm 10 True ?v) (\<lambda>(ms, _). Inr (length ms)) = Inr 1"
    by code_simp
  then obtain ms v' where r: "resolve_gateways example_lib arp_parser example_routelib example_rm 10 True ?v = Inr (ms, v')" "length ms = 1"
    by (auto simp: bindE_Inr)
  have n: "rm_max_hosts_per_resolve_cycle example_rm = 5" "0 \<le> rm_max_resolve_backoff_time example_rm"
    by (simp_all add: example_rm_def)
  have R: "randint_ok (rl_randint example_routelib)" by (simp add: randint_ok_def example_routelib_def)
  from resolve_cycle_bound [OF _ n(2) R r(1)] n(1) r show ?thesis by auto
qed

end
