(* ===== verification/Conf.thy ===== *)
theory Conf imports Packet "HOL-Library.List_Lexorder" "HOL-Library.Char_ord" begin

text \<open>
  The base class of configuration objects, \<^verbatim>\<open>faucet/conf.py\<close>: the attributes a configuration may set, the check
  of their types, defaults, freezing, and comparison by hash.

  A configuration value is what YAML yields, or an object the program put in its place. Keys of dictionaries are
  texts; any other key is not in the tables of known fields and is refused as an unknown one. Texts have no quotes,
  backslashes or control characters, so that Python's \<^verbatim>\<open>repr\<close> of a text is the text in quotes. An object of a
  class is the dictionary of its attributes.
\<close>

section \<open>Values\<close>

datatype cval =
    CNone
  | CBool bool
  | CInt int
  | CStr string
  | CIp string
  | CConf string
  | COther string
  | CList "cval list"
  | CTuple "cval list"
  | CSet "cval list"
  | CFrozenset "cval list"
  | CDict "(string \<times> cval) list"

text \<open>The types of the tables of known fields; \<open>bool\<close> is a subclass of \<open>int\<close>.\<close>

datatype ctype = TyStr | TyInt | TyBool | TyList | TyDict

fun has_type :: "cval \<Rightarrow> ctype \<Rightarrow> bool" where
  "has_type (CBool _) t = (t = TyBool \<or> t = TyInt)"
| "has_type (CInt _) t = (t = TyInt)"
| "has_type (CStr _) t = (t = TyStr)"
| "has_type (CList _) t = (t = TyList)"
| "has_type (CDict _) t = (t = TyDict)"
| "has_type _ t = False"

definition isinstance :: "cval \<Rightarrow> ctype list \<Rightarrow> bool" where
  "isinstance v ts = (\<exists>t \<in> set ts. has_type v t)"

fun truthy :: "cval \<Rightarrow> bool" where
  "truthy CNone = False"
| "truthy (CBool b) = b"
| "truthy (CInt n) = (n \<noteq> 0)"
| "truthy (CStr s) = (s \<noteq> [])"
| "truthy (CList vs) = (vs \<noteq> [])"
| "truthy (CTuple vs) = (vs \<noteq> [])"
| "truthy (CSet vs) = (vs \<noteq> [])"
| "truthy (CFrozenset vs) = (vs \<noteq> [])"
| "truthy (CDict d) = (d \<noteq> [])"
| "truthy _ = True"

text \<open>Python's \<open>==\<close>: truth values are numbers, and a dictionary has no order.\<close>

fun int_of :: "cval \<Rightarrow> int option" where
  "int_of (CInt n) = Some n"
| "int_of (CBool b) = Some (if b then 1 else 0)"
| "int_of _ = None"

definition eq_items :: "(cval \<Rightarrow> bool) list \<Rightarrow> cval list \<Rightarrow> bool" where
  "eq_items ps ws \<longleftrightarrow> length ps = length ws \<and> list_all (\<lambda>(p, w). p w) (zip ps ws)"

definition eq_elements :: "(cval \<Rightarrow> bool) list \<Rightarrow> cval list \<Rightarrow> bool" where
  "eq_elements ps ws \<longleftrightarrow> length ps = length ws \<and> list_all (\<lambda>p. list_ex p ws) ps"

primrec py_eq :: "cval \<Rightarrow> cval \<Rightarrow> bool" where
  "py_eq CNone = (\<lambda>w. w = CNone)"
| "py_eq (CBool b) = (\<lambda>w. int_of w = Some (if b then 1 else 0))"
| "py_eq (CInt n) = (\<lambda>w. int_of w = Some n)"
| "py_eq (CStr s) = (\<lambda>w. w = CStr s)"
| "py_eq (CIp s) = (\<lambda>w. w = CIp s)"
| "py_eq (CConf s) = (\<lambda>w. w = CConf s)"
| "py_eq (COther s) = (\<lambda>w. w = COther s)"
| "py_eq (CList vs) = (\<lambda>w. case w of CList ws \<Rightarrow> eq_items (map py_eq vs) ws | _ \<Rightarrow> False)"
| "py_eq (CTuple vs) = (\<lambda>w. case w of CTuple ws \<Rightarrow> eq_items (map py_eq vs) ws | _ \<Rightarrow> False)"
| "py_eq (CSet vs) =
     (\<lambda>w. case w of CSet ws \<Rightarrow> eq_elements (map py_eq vs) ws | CFrozenset ws \<Rightarrow> eq_elements (map py_eq vs) ws | _ \<Rightarrow> False)"
| "py_eq (CFrozenset vs) =
     (\<lambda>w. case w of CSet ws \<Rightarrow> eq_elements (map py_eq vs) ws | CFrozenset ws \<Rightarrow> eq_elements (map py_eq vs) ws | _ \<Rightarrow> False)"
| "py_eq (CDict d) =
     (\<lambda>w. case w of
        CDict e \<Rightarrow> length d = length e \<and>
          list_all (\<lambda>(k, p). case dict_get e k of None \<Rightarrow> False | Some v \<Rightarrow> p v) (map (map_prod id py_eq) d)
      | _ \<Rightarrow> False)"

text \<open>What iterating over a value yields, and \<open>len\<close>.\<close>

fun iter_vals :: "cval \<Rightarrow> err + cval list" where
  "iter_vals (CList vs) = Inr vs"
| "iter_vals (CTuple vs) = Inr vs"
| "iter_vals (CSet vs) = Inr vs"
| "iter_vals (CFrozenset vs) = Inr vs"
| "iter_vals (CStr s) = Inr (map (\<lambda>c. CStr [c]) s)"
| "iter_vals (CDict d) = Inr (map CStr (dict_keys d))"
| "iter_vals _ = Inl TypeError"

definition len :: "cval \<Rightarrow> err + nat" where
  "len v = bindE (iter_vals v) (\<lambda>vs. Inr (length vs))"

text \<open>\<^verbatim>\<open>repr\<close>, which \<^verbatim>\<open>str\<close> of a pair or dictionary is made of.\<close>

definition quoted :: "string \<Rightarrow> string" where
  "quoted s = CHR 0x27 # s @ [CHR 0x27]"

definition comma_sep :: "string list \<Rightarrow> string" where
  "comma_sep ss = (case ss of [] \<Rightarrow> [] | s # rest \<Rightarrow> s @ concat (map (\<lambda>t. '', '' @ t) rest))"

definition tuple_text :: "string list \<Rightarrow> string" where
  "tuple_text ss = ''('' @ comma_sep ss @ (if length ss = 1 then '',)'' else '')'')"

primrec repr :: "cval \<Rightarrow> string" where
  "repr CNone = ''None''"
| "repr (CBool b) = (if b then ''True'' else ''False'')"
| "repr (CInt n) = decimal n"
| "repr (CStr s) = quoted s"
| "repr (CIp s) = s"
| "repr (CConf s) = s"
| "repr (COther s) = s"
| "repr (CList vs) = ''['' @ comma_sep (map repr vs) @ '']''"
| "repr (CTuple vs) = tuple_text (map repr vs)"
| "repr (CSet vs) = ''{'' @ comma_sep (map repr vs) @ ''}''"
| "repr (CFrozenset vs) = ''frozenset({'' @ comma_sep (map repr vs) @ ''})''"
| "repr (CDict d) = ''{'' @ comma_sep (map (\<lambda>(k, s). quoted k @ '': '' @ s) (map (map_prod id repr) d)) @ ''}''"

definition item_text :: "string \<times> cval \<Rightarrow> string" where
  "item_text kv = tuple_text [quoted (fst kv), repr (snd kv)]"

section \<open>Checks of types\<close>

text \<open>A class: its defaults, the types of its fields, and the attributes that stay mutable.\<close>

record conf_class =
  cc_defaults :: "(string, cval) dict"
  cc_types :: "(string, ctype list) dict"
  cc_mutable_attrs :: "string list"

definition check_unknown_conf :: "conf_class \<Rightarrow> (string, cval) dict \<Rightarrow> err + unit" where
  "check_unknown_conf cls conf = test_config_condition (\<exists>k \<in> set (dict_keys conf). k \<notin> set (dict_keys (cc_defaults cls)))"

definition check_conf_types :: "cval \<Rightarrow> (string, ctype list) dict \<Rightarrow> err + unit" where
  "check_conf_types conf conf_types =
     (case conf of
        CDict d \<Rightarrow>
          foldE (\<lambda>(conf_key, conf_value) _.
              case dict_get conf_types conf_key of
                None \<Rightarrow> Inl InvalidConfigError
              | Some conf_type \<Rightarrow> test_config_condition (conf_value \<noteq> CNone \<and> \<not> isinstance conf_value conf_type))
            d ()
      | _ \<Rightarrow> Inl InvalidConfigError)"

definition set_unknown_conf :: "(string, cval) dict \<Rightarrow> (string, ctype list) dict \<Rightarrow> (string, cval) dict" where
  "set_unknown_conf conf conf_types =
     foldl (\<lambda>conf (conf_key, conf_type).
         if dict_get conf conf_key = None then dict_set conf_key (if conf_type = [TyList] then CList [] else CNone) conf else conf)
       conf conf_types"

section \<open>Objects\<close>

record conf_obj =
  cf_id :: string
  cf_dict :: "(string, cval) dict"
  cf_orig_conf :: "(string, cval) dict"
  cf_dyn_finalized :: bool

definition starts_dyn :: "string \<Rightarrow> bool" where
  "starts_dyn name \<longleftrightarrow> take 3 name = ''dyn''"

definition conf_setattr :: "conf_class \<Rightarrow> string \<Rightarrow> cval \<Rightarrow> conf_obj \<Rightarrow> err + conf_obj" where
  "conf_setattr cls name val obj =
     (if \<not> cf_dyn_finalized obj \<or> starts_dyn name \<or> name \<in> set (cc_mutable_attrs cls)
      then Inr (obj\<lparr>cf_dict := dict_set name val (cf_dict obj)\<rparr>)
      else Inl ValueError)"

definition set_default :: "string \<Rightarrow> cval \<Rightarrow> (string, cval) dict \<Rightarrow> err + (string, cval) dict" where
  "set_default key val conf =
     (case dict_get conf key of
        None \<Rightarrow> Inl AssertionError
      | Some v \<Rightarrow> Inr (if v = CNone then dict_set key val conf else conf))"

definition set_conf_defaults :: "(string, cval) dict \<Rightarrow> (string, cval) dict \<Rightarrow> err + (string, cval) dict" where
  "set_conf_defaults defaults conf = foldE (\<lambda>(key, val) conf. set_default key val conf) defaults conf"

definition dict_update :: "('k, 'v) dict \<Rightarrow> ('k, 'v) dict \<Rightarrow> ('k, 'v) dict" where
  "dict_update d e = foldl (\<lambda>d (k, v). dict_set k v d) d e"

definition conf_update :: "conf_class \<Rightarrow> (string, cval) dict \<Rightarrow> (string, cval) dict \<Rightarrow> err + (string, cval) dict" where
  "conf_update cls conf attrs =
     (let attrs = dict_update attrs conf
      in bindE (check_unknown_conf cls conf) (\<lambda>_. bindE (check_conf_types (CDict conf) (cc_types cls)) (\<lambda>_. Inr attrs)))"

text \<open>
  The constructor: \<open>attrs\<close> are the attributes the subclass has set, \<open>check_config\<close> its check, which may change
  attributes. An attribute that is a configuration object is kept as it is in \<open>orig_conf\<close>.
\<close>

definition conf_init ::
    "conf_class \<Rightarrow> ((string, cval) dict \<Rightarrow> err + (string, cval) dict) \<Rightarrow> string \<Rightarrow> (string, cval) dict \<Rightarrow> cval \<Rightarrow> err + conf_obj" where
  "conf_init cls check_config cid attrs conf =
     bindE (assertE (set (dict_keys (cc_defaults cls)) = set (dict_keys (cc_types cls)))) (\<lambda>_.
     bindE (case (if conf = CNone then CDict [] else conf) of
              CDict d \<Rightarrow> bindE (conf_update cls d attrs) (set_conf_defaults (cc_defaults cls))
            | _ \<Rightarrow> Inr attrs) (\<lambda>attrs.
     bindE (check_config attrs) (\<lambda>attrs.
     bindE (mapE (\<lambda>k. bindE (dict_getE attrs k) (\<lambda>v. Inr (k, v))) (dict_keys (cc_defaults cls))) (\<lambda>orig.
     Inr \<lparr>cf_id = cid, cf_dict = attrs, cf_orig_conf = orig, cf_dyn_finalized = False\<rparr>))))"

definition merge_dyn :: "conf_obj \<Rightarrow> conf_obj \<Rightarrow> conf_obj" where
  "merge_dyn other obj =
     obj\<lparr>cf_dict := dict_update (cf_dict obj) (filter (\<lambda>(k, _). starts_dyn k) (cf_dict other)),
         cf_dyn_finalized := cf_dyn_finalized other\<rparr>"

text \<open>Freezing: lists become tuples, the items of dictionaries are sorted by their text.\<close>

primrec finalize_val :: "cval \<Rightarrow> cval" where
  "finalize_val CNone = CNone"
| "finalize_val (CBool b) = CBool b"
| "finalize_val (CInt n) = CInt n"
| "finalize_val (CStr s) = CStr s"
| "finalize_val (CIp s) = CIp s"
| "finalize_val (CConf s) = CConf s"
| "finalize_val (COther s) = COther s"
| "finalize_val (CList vs) = CTuple (map finalize_val vs)"
| "finalize_val (CTuple vs) = CTuple vs"
| "finalize_val (CSet vs) = CFrozenset (map finalize_val vs)"
| "finalize_val (CFrozenset vs) = CFrozenset vs"
| "finalize_val (CDict d) =
     CDict (map snd (sort_key fst (map (\<lambda>(kv, kv'). (item_text kv, kv')) (zip d (map (map_prod id finalize_val) d)))))"

definition conf_finalize :: "conf_obj \<Rightarrow> conf_obj" where
  "conf_finalize obj =
     obj\<lparr>cf_dict := map (\<lambda>(k, v). (k, if starts_dyn k then v else finalize_val v)) (cf_dict obj), cf_dyn_finalized := True\<rparr>"

section \<open>Comparison\<close>

primrec str_conf :: "cval \<Rightarrow> cval" where
  "str_conf CNone = CNone"
| "str_conf (CBool b) = CBool b"
| "str_conf (CInt n) = CInt n"
| "str_conf (CStr s) = CStr s"
| "str_conf (CIp s) = CStr s"
| "str_conf (CConf s) = CStr s"
| "str_conf (COther s) = CNone"
| "str_conf (CList vs) = CTuple (map snd (filter (\<lambda>(v, _). v \<noteq> CNone) (zip vs (map str_conf vs))))"
| "str_conf (CTuple vs) = CTuple (map snd (filter (\<lambda>(v, _). v \<noteq> CNone) (zip vs (map str_conf vs))))"
| "str_conf (CSet vs) = CNone"
| "str_conf (CFrozenset vs) = CTuple (map snd (filter (\<lambda>(v, _). v \<noteq> CNone) (zip vs (map str_conf vs))))"
| "str_conf (CDict d) = CDict (map snd (filter (\<lambda>(kv, _). snd kv \<noteq> CNone) (zip d (map (map_prod id str_conf) d))))"

text \<open>Whether a value is a subconfiguration; a set has no first element to look at.\<close>

fun is_conf :: "cval \<Rightarrow> bool" where
  "is_conf (CConf _) = True"
| "is_conf _ = False"

fun is_subconf :: "cval \<Rightarrow> err + bool" where
  "is_subconf (CConf _) = Inr True"
| "is_subconf (CList (v # _)) = Inr (is_conf v)"
| "is_subconf (CTuple (v # _)) = Inr (is_conf v)"
| "is_subconf (CSet (_ # _)) = Inl TypeError"
| "is_subconf _ = Inr False"

definition conf_keys :: "conf_class \<Rightarrow> bool \<Rightarrow> string list \<Rightarrow> conf_obj \<Rightarrow> err + (string \<times> cval) list" where
  "conf_keys cls subconf ignore_keys obj =
     bindE (mapE (\<lambda>(key, v).
         if key \<in> set ignore_keys then Inr []
         else bindE (if subconf then Inr False else is_subconf v) (\<lambda>skip. Inr (if skip then [] else [(key, str_conf v)])))
       (sort_key fst (filter (\<lambda>(key, _). key \<in> set (dict_keys (cc_defaults cls))) (cf_orig_conf obj))))
     (\<lambda>kvs. Inr (concat kvs))"

text \<open>\<open>hash\<close> is Python's hash of a frozenset of texts.\<close>

definition conf_hash :: "(string set \<Rightarrow> int) \<Rightarrow> conf_class \<Rightarrow> bool \<Rightarrow> string list \<Rightarrow> conf_obj \<Rightarrow> err + int" where
  "conf_hash hash cls subconf ignore_keys obj =
     bindE (conf_keys cls subconf ignore_keys obj) (\<lambda>kvs. Inr (hash (set (map item_text kvs))))"

definition ignore_subconf :: "(string set \<Rightarrow> int) \<Rightarrow> conf_class \<Rightarrow> string list \<Rightarrow> conf_obj \<Rightarrow> conf_obj \<Rightarrow> err + bool" where
  "ignore_subconf hash cls ignore_keys other obj =
     bindE (conf_hash hash cls False ignore_keys obj) (\<lambda>h1.
     bindE (conf_hash hash cls False ignore_keys other) (\<lambda>h2. Inr (h1 = h2)))"

definition conf_eq :: "(string set \<Rightarrow> int) \<Rightarrow> conf_class \<Rightarrow> conf_obj \<Rightarrow> conf_obj \<Rightarrow> err + bool" where
  "conf_eq hash cls other obj =
     bindE (conf_hash hash cls True [] obj) (\<lambda>h1. bindE (conf_hash hash cls True [] other) (\<lambda>h2. Inr (h1 = h2)))"

section \<open>Well-typed configurations\<close>

definition typed_as :: "(string, ctype list) dict \<Rightarrow> (string, cval) dict \<Rightarrow> bool" where
  "typed_as types d \<longleftrightarrow>
     (\<forall>k v ts. dict_get d k = Some v \<longrightarrow> dict_get types k = Some ts \<longrightarrow> v = CNone \<or> isinstance v ts)"

lemma check_conf_types_Inr:
  "check_conf_types conf types = Inr () \<longleftrightarrow>
     (\<exists>d. conf = CDict d \<and> (\<forall>(k, v) \<in> set d. \<exists>ts. dict_get types k = Some ts \<and> (v = CNone \<or> isinstance v ts)))"
proof -
  have "foldE (\<lambda>(conf_key, conf_value) _.
              case dict_get types conf_key of
                None \<Rightarrow> Inl InvalidConfigError
              | Some conf_type \<Rightarrow> test_config_condition (conf_value \<noteq> CNone \<and> \<not> isinstance conf_value conf_type)) d () = Inr () \<longleftrightarrow>
      (\<forall>(k, v) \<in> set d. \<exists>ts. dict_get types k = Some ts \<and> (v = CNone \<or> isinstance v ts))" for d
    by (induction d) (auto simp: bindE_Inr test_config_condition_def split: option.splits if_splits)
  then show ?thesis by (cases conf) (simp_all add: check_conf_types_def)
qed

lemma mapE_dom: "mapE f xs = Inr ys \<Longrightarrow> x \<in> set xs \<Longrightarrow> \<exists>y \<in> set ys. f x = Inr y"
  by (induction xs arbitrary: ys) (auto simp: bindE_Inr)

lemma typed_as_set: "typed_as types d \<Longrightarrow> (\<And>ts. dict_get types k = Some ts \<Longrightarrow> v = CNone \<or> isinstance v ts) \<Longrightarrow> typed_as types (dict_set k v d)"
  by (simp add: typed_as_def)

lemma typed_as_update:
  "typed_as types d \<Longrightarrow> \<forall>(k, v) \<in> set e. \<exists>ts. dict_get types k = Some ts \<and> (v = CNone \<or> isinstance v ts) \<Longrightarrow>
   typed_as types (dict_update d e)"
proof (induction e arbitrary: d)
  case Nil
  then show ?case by (simp add: dict_update_def)
next
  case (Cons kv e)
  obtain k v where kv: "kv = (k, v)" by (cases kv)
  have "typed_as types (dict_set k v d)" by (rule typed_as_set [OF Cons.prems(1)]) (use Cons.prems(2) kv in auto)
  from Cons.IH [OF this] Cons.prems(2) show ?case by (simp add: dict_update_def kv)
qed

lemma set_conf_defaults_typed:
  assumes "typed_as types d" and "\<forall>(k, v) \<in> set defaults. \<forall>ts. dict_get types k = Some ts \<longrightarrow> v = CNone \<or> isinstance v ts"
    and "set_conf_defaults defaults d = Inr d'"
  shows "typed_as types d'"
  using assms
proof (induction defaults arbitrary: d)
  case Nil
  then show ?case by (simp add: set_conf_defaults_def)
next
  case (Cons kv defaults)
  obtain k v where kv: "kv = (k, v)" by (cases kv)
  from Cons.prems(3) obtain d1 where d1: "set_default k v d = Inr d1" "set_conf_defaults defaults d1 = Inr d'"
    by (auto simp: set_conf_defaults_def kv bindE_Inr)
  have "typed_as types d1"
    using d1(1) Cons.prems(1,2) kv by (auto simp: set_default_def intro: typed_as_set split: option.splits if_splits)
  from Cons.IH [OF this _ d1(2)] Cons.prems(2) show ?case by simp
qed

text \<open>The defaults of a class have the types it declares.\<close>

definition class_ok :: "conf_class \<Rightarrow> bool" where
  "class_ok cls \<longleftrightarrow>
     (\<forall>(k, v) \<in> set (cc_defaults cls). \<forall>ts. dict_get (cc_types cls) k = Some ts \<longrightarrow> v = CNone \<or> isinstance v ts)"

text \<open>C10. After a configuration object is created, every attribute its class declares is there and is
  None or a value of the types the class declares for it, given a check_config that keeps types.\<close>

lemma conf_typed:
  assumes "conf_init cls check_config cid attrs conf = Inr obj" and "class_ok cls" and "typed_as (cc_types cls) attrs"
    and "\<forall>a a'. check_config a = Inr a' \<longrightarrow> typed_as (cc_types cls) a \<longrightarrow> typed_as (cc_types cls) a'"
    and "dict_get (cc_defaults cls) k \<noteq> None"
  shows "\<exists>v ts. dict_get (cf_dict obj) k = Some v \<and> dict_get (cc_types cls) k = Some ts \<and> (v = CNone \<or> isinstance v ts)"
proof -
  from assms(1) obtain a1 a2 orig where keys: "set (dict_keys (cc_defaults cls)) = set (dict_keys (cc_types cls))"
      and a1: "(case (if conf = CNone then CDict [] else conf) of
        CDict d \<Rightarrow> bindE (conf_update cls d attrs) (set_conf_defaults (cc_defaults cls)) | _ \<Rightarrow> Inr attrs) = Inr a1"
      and a2: "check_config a1 = Inr a2"
      and orig: "mapE (\<lambda>k. bindE (dict_getE a2 k) (\<lambda>v. Inr (k, v))) (dict_keys (cc_defaults cls)) = Inr orig"
      and obj: "cf_dict obj = a2"
    unfolding conf_init_def by (auto simp: bindE_Inr simp del: cval.case)
  have "typed_as (cc_types cls) a1"
  proof (cases "if conf = CNone then CDict [] else conf")
    case (CDict d)
    with a1 obtain u where u: "conf_update cls d attrs = Inr u" "set_conf_defaults (cc_defaults cls) u = Inr a1" by (auto simp: bindE_Inr)
    then have "typed_as (cc_types cls) u"
      using typed_as_update [OF assms(3)] by (auto simp: conf_update_def Let_def bindE_Inr check_conf_types_Inr)
    from set_conf_defaults_typed [OF this _ u(2)] assms(2) show ?thesis by (simp add: class_ok_def)
  qed (use a1 assms(3) in simp_all)
  with assms(4) a2 have t: "typed_as (cc_types cls) (cf_dict obj)" unfolding obj by blast
  have k: "k \<in> set (dict_keys (cc_defaults cls))" using assms(5) dict_get_None by metis
  then obtain ts where ts: "dict_get (cc_types cls) k = Some ts" using keys dict_get_None by fastforce
  have "\<exists>v. dict_get (cf_dict obj) k = Some v"
    using mapE_dom [OF orig k] by (auto simp: bindE_Inr dict_getE_def obj split: option.splits)
  with t ts show ?thesis by (auto simp: typed_as_def)
qed

text \<open>
  An operation of a frozen object keeps what is configured: only dynamic and mutable attributes change.
\<close>

lemma frozen_attrs_stay:
  assumes "conf_setattr cls name v (conf_finalize obj) = Inr obj'" and "\<not> starts_dyn k" and "k \<notin> set (cc_mutable_attrs cls)"
  shows "dict_get (cf_dict obj') k = dict_get (cf_dict (conf_finalize obj)) k"
  using assms by (auto simp: conf_setattr_def conf_finalize_def split: if_splits)

lemma conf_typed_witness:
  "\<exists>obj v ts. conf_init \<lparr>cc_defaults = [(''rules'', CNone), (''exact_match'', CBool False)],
       cc_types = [(''rules'', [TyList]), (''exact_match'', [TyBool])], cc_mutable_attrs = []\<rparr> Inr ''acl''
       [(''rules'', CList []), (''exact_match'', CNone)] (CDict [(''rules'', CList [CDict []])]) = Inr obj \<and>
     dict_get (cf_dict obj) ''exact_match'' = Some v \<and> ts = [TyBool] \<and> (v = CNone \<or> isinstance v ts)"
proof -
  let ?cls = "\<lparr>cc_defaults = [(''rules'', CNone), (''exact_match'', CBool False)],
    cc_types = [(''rules'', [TyList]), (''exact_match'', [TyBool])], cc_mutable_attrs = []\<rparr>"
  let ?attrs = "[(''rules'', CList []), (''exact_match'', CNone)]"
  let ?init = "conf_init ?cls Inr ''acl'' ?attrs (CDict [(''rules'', CList [CDict []])])"
  have "bindE ?init (\<lambda>obj. Inr (dict_get (cf_dict obj) ''exact_match'')) = Inr (Some (CBool False))" by code_simp
  then obtain obj where obj: "?init = Inr obj" by (auto simp: bindE_Inr)
  have "class_ok ?cls" "typed_as (cc_types ?cls) ?attrs" "dict_get (cc_defaults ?cls) ''exact_match'' \<noteq> None"
    "dict_get (cc_types ?cls) ''exact_match'' = Some [TyBool]"
    by (auto simp: class_ok_def typed_as_def dict_get_Cons isinstance_def split: if_splits)
  with conf_typed [OF obj, of "''exact_match''"] obj show ?thesis by auto
qed

text \<open>
  Two configurations that differ in the order of the keys of a nested dictionary are not equal, although Python's
  dictionaries are.
\<close>

lemma conf_order_matters:
  "repr (str_conf (CDict [(''eth_type'', CInt 2048), (''ip_proto'', CInt 6)])) \<noteq>
   repr (str_conf (CDict [(''ip_proto'', CInt 6), (''eth_type'', CInt 2048)]))"
  by code_simp

end
