(* ===== verification/Acl.thy ===== *)
theory Acl imports Output Conf begin

text \<open>
  ACLs: their configuration (\<^verbatim>\<open>faucet/acl.py\<close>) and the flows composed from it (\<^verbatim>\<open>faucet/valve_acl.py\<close>).

  A rule stays the dictionary of the configuration until its flow is composed, as in the source: \<open>rule\<close> is a list
  of fields and values, \<open>actions\<close> and \<open>output\<close> are nested values. After the ports are resolved, ports, tunnel and
  VLAN ids are numbers; elsewhere a value that is not a number raises where it is used as one (the library raises when it
  writes the message).
\<close>

section \<open>The libraries\<close>

text \<open>
  \<open>al_conv\<close> are the converters of match fields, here from configuration values; \<open>al_mod_meter\<close> makes the message of
  a meter of the configuration.
\<close>

record acl_lib =
  al_lib :: lib
  al_conv :: "string \<Rightarrow> cval \<Rightarrow> err + mval"
  al_mod_meter :: "cval \<Rightarrow> err + ofmsg"

abbreviation al_ofp :: "acl_lib \<Rightarrow> ofp" where "al_ofp A \<equiv> lib_ofp (al_lib A)"

fun as_int :: "cval \<Rightarrow> err + int" where
  "as_int (CInt n) = Inr n"
| "as_int (CBool b) = Inr (if b then 1 else 0)"
| "as_int _ = Inl TypeError"

fun as_dict :: "cval \<Rightarrow> err + (string, cval) dict" where
  "as_dict (CDict d) = Inr d"
| "as_dict _ = Inl TypeError"

fun as_list :: "cval \<Rightarrow> err + cval list" where
  "as_list (CList vs) = Inr vs"
| "as_list (CTuple vs) = Inr vs"
| "as_list _ = Inl TypeError"

text \<open>A value as the library keeps it in an action.\<close>

fun raw_mval :: "cval \<Rightarrow> err + mval" where
  "raw_mval (CStr s) = Inr (MText s)"
| "raw_mval v = bindE (as_int v) (\<lambda>n. Inr (MInt n))"

definition is_one :: "cval \<Rightarrow> bool" where
  "is_one v \<longleftrightarrow> v = CInt 1 \<or> v = CBool True"

definition acl_match_from_dict :: "acl_lib \<Rightarrow> (string, cval) dict \<Rightarrow> err + ofmatch" where
  "acl_match_from_dict A d = match_from_dict (al_conv A) (\<lambda>kw. kw) d"

definition acl_flowmod :: "acl_lib \<Rightarrow> valve_table \<Rightarrow> ofmatch \<Rightarrow> int \<Rightarrow> instruction list \<Rightarrow> int option \<Rightarrow> err + ofmsg" where
  "acl_flowmod A t mt priority inst cookie =
     vt_flowmod (al_ofp A) (lib_recirc (al_lib A)) t
       (flow_defaults\<lparr>fa_match := mt, fa_priority := Some priority, fa_inst := inst, fa_cookie := cookie\<rparr>)"

definition acl_flowdel :: "acl_lib \<Rightarrow> valve_table \<Rightarrow> ofmatch \<Rightarrow> int option \<Rightarrow> bool \<Rightarrow> err + ofmsg" where
  "acl_flowdel A t mt priority strict = vt_flowdel (al_ofp A) (lib_recirc (al_lib A)) t mt priority (OFPP_ANY (al_ofp A)) strict"

section \<open>Actions\<close>

text \<open>\<open>set_field\<close> with the keywords of a dictionary: the library takes one.\<close>

definition acl_set_field :: "acl_lib \<Rightarrow> cval \<Rightarrow> err + action" where
  "acl_set_field A kwds_conf =
     bindE (as_dict kwds_conf) (\<lambda>kwds.
     bindE (acl_match_from_dict A kwds) (\<lambda>_.
     case kwds of
       [(field, v)] \<Rightarrow> bindE (raw_mval v) (\<lambda>mv. Inr (set_field field mv))
     | _ \<Rightarrow> Inl AssertionError))"

definition acl_set_vlan_vid :: "acl_lib \<Rightarrow> cval \<Rightarrow> err + action" where
  "acl_set_vlan_vid A vid = bindE (as_int vid) (\<lambda>n. acl_set_field A (CDict [(''vlan_vid'', CInt (vid_present (al_ofp A) n))]))"

definition push_vlan_of_type :: "acl_lib \<Rightarrow> cval \<Rightarrow> int \<Rightarrow> err + action list" where
  "push_vlan_of_type A vid eth_type = bindE (acl_set_vlan_vid A vid) (\<lambda>a. Inr [APushVlan eth_type, a])"

definition push_vlan :: "acl_lib \<Rightarrow> cval \<Rightarrow> err + action list" where
  "push_vlan A vlan_vid =
     (case vlan_vid of
        CDict d \<Rightarrow>
          bindE (dict_getE d ''vid'') (\<lambda>vid.
          case dict_get d ''eth_type'' of
            None \<Rightarrow> push_vlan_of_type A vid (ETH_TYPE_8021Q (al_ofp A))
          | Some CNone \<Rightarrow> push_vlan_of_type A vid (ETH_TYPE_8021Q (al_ofp A))
          | Some t \<Rightarrow> bindE (as_int t) (push_vlan_of_type A vid))
      | vid \<Rightarrow> push_vlan_of_type A vid (ETH_TYPE_8021Q (al_ofp A)))"

definition acl_output_port :: "cval \<Rightarrow> err + action" where
  "acl_output_port port = bindE (as_int port) (\<lambda>n. Inr (output_port n))"

definition pop_vlans :: "cval \<Rightarrow> err + action list" where
  "pop_vlans n = bindE (as_int n) (\<lambda>n. Inr (replicate (nat n) pop_vlan))"

text \<open>A group that fails over between ports, and the messages that install it.\<close>

definition failover_bucket :: "acl_lib \<Rightarrow> cval \<Rightarrow> err + bucket" where
  "failover_bucket A port =
     bindE (as_int port) (\<lambda>n.
     Inr \<lparr>b_weight = 0, b_watch_port = n, b_watch_group = OFPG_ANY (al_ofp A), b_actions = [output_port n]\<rparr>)"

definition build_failover :: "acl_lib \<Rightarrow> cval \<Rightarrow> err + ofmsg list \<times> action" where
  "build_failover A failover =
     bindE (as_dict failover) (\<lambda>d.
     bindE (dict_getE d ''group_id'') (\<lambda>gid. bindE (as_int gid) (\<lambda>group_id.
     bindE (dict_getE d ''ports'') (\<lambda>ports. bindE (as_list ports) (\<lambda>ports.
     bindE (mapE (failover_bucket A) ports) (\<lambda>buckets.
     Inr (groupadd_ff group_id buckets, group_act group_id)))))))"

text \<open>
  What outputs are built to: the value of \<open>output_port\<close> (of a list of outputs it is the list of ports, so it is
  there), the actions, the messages and the instructions. \<open>tunnel\<close> builds the actions of a tunnel, if it is to.
\<close>

record built =
  bo_output_port :: "cval option"
  bo_actions :: "action list"
  bo_ofmsgs :: "ofmsg list"
  bo_inst :: "instruction list"

definition nothing_built :: "built" where
  "nothing_built = \<lparr>bo_output_port = None, bo_actions = [], bo_ofmsgs = [], bo_inst = []\<rparr>"

type_synonym tunnel_builder = "cval \<Rightarrow> err + built"

definition no_tunnel :: tunnel_builder where
  "no_tunnel tunnel = Inr nothing_built"

text \<open>One action of the ordered format.\<close>

definition ordered_output :: "acl_lib \<Rightarrow> tunnel_builder \<Rightarrow> string \<times> cval \<Rightarrow> err + built" where
  "ordered_output A tunnel kv =
     (let (key, v) = kv; acts = (\<lambda>as. nothing_built\<lparr>bo_actions := as\<rparr>)
      in if key = ''pop_vlans'' then bindE (pop_vlans v) (\<lambda>as. Inr (acts as))
         else if key = ''vlan_vid'' then bindE (push_vlan A v) (\<lambda>as. Inr (acts as))
         else if key = ''swap_vid'' then bindE (acl_set_vlan_vid A v) (\<lambda>a. Inr (acts [a]))
         else if key = ''vlan_vids''
         then bindE (as_list v) (\<lambda>vs. bindE (mapE (push_vlan A) vs) (\<lambda>as. Inr (acts (concat as))))
         else if key = ''set_fields''
         then bindE (as_list v) (\<lambda>vs. bindE (mapE (acl_set_field A) vs) (\<lambda>as. Inr (acts as)))
         else if key = ''port''
         then bindE (acl_output_port v) (\<lambda>a. Inr (nothing_built\<lparr>bo_output_port := Some (CList [v]), bo_actions := [a]\<rparr>))
         else if key = ''ports''
         then bindE (as_list v) (\<lambda>vs. bindE (mapE acl_output_port vs) (\<lambda>as.
              Inr (nothing_built\<lparr>bo_output_port := Some (CList vs), bo_actions := as\<rparr>)))
         else if key = ''failover''
         then bindE (build_failover A v) (\<lambda>(ms, a). Inr (nothing_built\<lparr>bo_actions := [a], bo_ofmsgs := ms\<rparr>))
         else if key = ''tunnel''
         then bindE (tunnel v) (\<lambda>b. Inr (b\<lparr>bo_output_port := None\<rparr>))
         else if key = ''goto''
         then bindE (as_int v) (\<lambda>n. Inr (nothing_built\<lparr>bo_inst := [goto_table_id n]\<rparr>))
         else Inr nothing_built)"

definition append_built :: "built \<Rightarrow> built \<Rightarrow> built" where
  "append_built b c =
     \<lparr>bo_output_port = (case (bo_output_port b, bo_output_port c) of
          (Some (CList ps), Some (CList qs)) \<Rightarrow> Some (CList (ps @ qs)) | (p, _) \<Rightarrow> p),
      bo_actions = bo_actions b @ bo_actions c, bo_ofmsgs = bo_ofmsgs b @ bo_ofmsgs c, bo_inst = bo_inst b @ bo_inst c\<rparr>"

definition build_ordered_output_actions :: "acl_lib \<Rightarrow> tunnel_builder \<Rightarrow> cval list \<Rightarrow> err + built" where
  "build_ordered_output_actions A tunnel output_list =
     foldE (\<lambda>action b.
         bindE (as_dict action) (\<lambda>d. foldE (\<lambda>kv b. bindE (ordered_output A tunnel kv) (\<lambda>c. Inr (append_built b c))) d b))
       output_list (nothing_built\<lparr>bo_output_port := Some (CList [])\<rparr>)"

definition rewrite_vlan :: "acl_lib \<Rightarrow> (string, cval) dict \<Rightarrow> err + action list" where
  "rewrite_vlan A d =
     bindE (case dict_get d ''pop_vlans'' of None \<Rightarrow> Inr [] | Some n \<Rightarrow> pop_vlans n) (\<lambda>pops.
     bindE (case dict_get d ''vlan_vid'' of
              Some v \<Rightarrow> push_vlan A v
            | None \<Rightarrow>
                (case dict_get d ''swap_vid'' of
                   Some v \<Rightarrow> bindE (acl_set_vlan_vid A v) (\<lambda>a. Inr [a])
                 | None \<Rightarrow>
                     (case dict_get d ''vlan_vids'' of
                        Some v \<Rightarrow> bindE (as_list v) (\<lambda>vs. bindE (mapE (push_vlan A) vs) (\<lambda>as. Inr (concat as)))
                      | None \<Rightarrow> Inr []))) (\<lambda>tags.
     Inr (pops @ tags)))"

text \<open>The messages of a tunnel are dropped: the source extends the wrong list.\<close>

definition opt_key :: "(string, cval) dict \<Rightarrow> string \<Rightarrow> (cval \<Rightarrow> err + 'b) \<Rightarrow> 'b \<Rightarrow> err + 'b" where
  "opt_key d key f z = (case dict_get d key of None \<Rightarrow> Inr z | Some v \<Rightarrow> f v)"

definition build_dict_output_actions :: "acl_lib \<Rightarrow> tunnel_builder \<Rightarrow> (string, cval) dict \<Rightarrow> err + built" where
  "build_dict_output_actions A tunnel d =
     bindE (rewrite_vlan A d) (\<lambda>vlan_actions.
     bindE (opt_key d ''set_fields'' (\<lambda>v. bindE (as_list v) (mapE (acl_set_field A))) []) (\<lambda>set_fields.
     bindE (opt_key d ''port'' (\<lambda>v. bindE (acl_output_port v) (\<lambda>a. Inr ([a], Some v))) ([], None)) (\<lambda>(port_acts, port).
     bindE (opt_key d ''ports'' (\<lambda>v. bindE (as_list v) (\<lambda>vs. bindE (mapE acl_output_port vs) (\<lambda>as.
              Inr (as, if vs = [] then port else Some (last vs))))) ([], port)) (\<lambda>(ports_acts, port).
     bindE (case dict_get d ''failover'' of
              None \<Rightarrow> Inr ([], [])
            | Some v \<Rightarrow> bindE (build_failover A v) (\<lambda>(ms, a). Inr (ms, [a]))) (\<lambda>(ofmsgs, group_acts).
     bindE (opt_key d ''tunnel'' tunnel nothing_built) (\<lambda>t.
     bindE (opt_key d ''goto'' (\<lambda>v. bindE (as_int v) (\<lambda>n. Inr [goto_table_id n])) []) (\<lambda>goto.
     Inr \<lparr>bo_output_port = port,
          bo_actions = vlan_actions @ set_fields @ port_acts @ ports_acts @ group_acts @ bo_actions t,
          bo_ofmsgs = ofmsgs, bo_inst = bo_inst t @ goto\<rparr>)))))))"

definition build_outputs :: "acl_lib \<Rightarrow> tunnel_builder \<Rightarrow> cval \<Rightarrow> err + built" where
  "build_outputs A tunnel v =
     (case v of
        CList vs \<Rightarrow> build_ordered_output_actions A tunnel vs
      | CTuple vs \<Rightarrow> build_ordered_output_actions A tunnel vs
      | _ \<Rightarrow> bindE (as_dict v) (build_dict_output_actions A tunnel))"

section \<open>ACLs\<close>

text \<open>
  A tunnel's destination and a source of its packets; the id of a source is the tuple of its items, so a source is its
  own id. The rules of a tunnel are a value for each tunnel id and source. \<open>acl_hash\<close> is the hash of the
  configuration, by which ACLs compare.
\<close>

record tunnel_dest =
  td_dst_dp :: string
  td_dst_port :: "int option"
  td_tunnel_id :: int
  td_type :: cval
  td_exit_instructions :: cval
  td_bi_directional :: bool
  td_maintain_encapsulation :: bool
  td_reverse :: bool

record tunnel_source =
  ts_dp :: string
  ts_port :: "int option"
  ts_reverse :: bool
  ts_bi_directional :: bool

type_synonym tunnel_rules = "(int, (tunnel_source, cval) dict) dict"

record acl =
  acl_id :: string
  acl_hash :: int
  acl_rules :: "(string, cval) dict list"
  acl_exact_match :: bool
  acl_dot1x_assigned :: bool
  acl_meter :: bool
  acl_matches :: "(string, bool) dict"
  acl_set_fields :: "string list"
  acl_ports_resolved :: bool
  acl_tunnel_dests :: "(int, tunnel_dest) dict"
  acl_tunnel_sources :: "tunnel_source list"
  acl_dyn_tunnel_rules :: tunnel_rules
  acl_dyn_reverse_tunnel_rules :: tunnel_rules

definition tunnel_of_source :: "acl_lib \<Rightarrow> tunnel_rules option \<Rightarrow> tunnel_source option \<Rightarrow> tunnel_builder" where
  "tunnel_of_source A rules source tunnel =
     (case (rules, source) of
        (Some (r # rs), Some src) \<Rightarrow>
          bindE (as_int tunnel) (\<lambda>tunnel_id.
          bindE (dict_getE (r # rs) tunnel_id) (\<lambda>by_source.
          bindE (dict_getE by_source src) (\<lambda>source_rule. build_outputs A no_tunnel source_rule)))
      | _ \<Rightarrow> Inr nothing_built)"

definition build_output_actions :: "acl_lib \<Rightarrow> tunnel_rules option \<Rightarrow> tunnel_source option \<Rightarrow> cval \<Rightarrow> err + built" where
  "build_output_actions A rules source v = build_outputs A (tunnel_of_source A rules source) v"

section \<open>Connection tracking\<close>

text \<open>Keywords of the library's actions; one that is \<open>None\<close> is left out.\<close>

definition ct_kwd :: "(string, cval) dict \<Rightarrow> string \<Rightarrow> string \<Rightarrow> cval \<Rightarrow> err + (string \<times> mval) list" where
  "ct_kwd d name key dflt =
     (let v = (case dict_get d key of None \<Rightarrow> dflt | Some v \<Rightarrow> v)
      in if v = CNone then Inr [] else bindE (raw_mval v) (\<lambda>m. Inr [(name, m)]))"

definition ct_kwds :: "(string, cval) dict \<Rightarrow> (string \<times> string \<times> cval) list \<Rightarrow> err + (string \<times> mval) list" where
  "ct_kwds d specs = bindE (mapE (\<lambda>(name, key, dflt). ct_kwd d name key dflt) specs) (\<lambda>kws. Inr (concat kws))"

definition build_ct_actions :: "(string, cval) dict \<Rightarrow> err + action" where
  "build_ct_actions d =
     (if (case dict_get d ''clear'' of None \<Rightarrow> False | Some v \<Rightarrow> truthy v) then Inr ct_clear
      else
        bindE (case dict_get d ''nat'' of
                 None \<Rightarrow> Inr []
               | Some nat_dict \<Rightarrow>
                   bindE (as_dict nat_dict) (\<lambda>n.
                   bindE (ct_kwds n
                     [(''flags'', ''flags'', CInt 0), (''range_ipv4_min'', ''range_ipv4_min'', CStr []),
                      (''range_ipv4_max'', ''range_ipv4_max'', CStr []), (''range_ipv6_min'', ''range_ipv6_min'', CStr []),
                      (''range_ipv6_max'', ''range_ipv6_max'', CStr []), (''range_proto_min'', ''range_proto_min'', CNone),
                      (''range_proto_max'', ''range_proto_max'', CNone)]) (\<lambda>kws. Inr [ct_nat kws]))) (\<lambda>nat_acts.
        bindE (case dict_get d ''mark'' of None \<Rightarrow> Inr [] | Some v \<Rightarrow> bindE (raw_mval v) (\<lambda>m. Inr [set_field ''ct_mark'' m])) (\<lambda>mark_acts.
        bindE (case dict_get d ''label'' of None \<Rightarrow> Inr [] | Some v \<Rightarrow> bindE (raw_mval v) (\<lambda>m. Inr [set_field ''ct_label'' m])) (\<lambda>label_acts.
        bindE (ct_kwds d
          [(''flags'', ''flags'', CInt 0), (''alg'', ''alg'', CInt 0), (''recirc_table'', ''table'', CNone),
           (''zone_ofs_nbits'', ''zone'', CNone), (''zone_src'', ''zone_src'', CNone)]) (\<lambda>kws.
        Inr (ct kws (nat_acts @ mark_acts @ label_acts)))))))"

section \<open>Flows of rules\<close>

text \<open>A meter of the configuration: its entry gets its id, and the library must be able to make a message of it.\<close>

record meter =
  mt_meter_id :: int
  mt_entry :: cval

definition meter_class :: conf_class where
  "meter_class = \<lparr>cc_defaults = [(''entry'', CNone), (''meter_id'', CNone)],
     cc_types = [(''entry'', [TyDict]), (''meter_id'', [TyInt])], cc_mutable_attrs = []\<rparr>"

definition meter_check_config :: "(string, cval) dict \<Rightarrow> err + (string, cval) dict" where
  "meter_check_config attrs =
     bindE (dict_getE attrs ''meter_id'') (\<lambda>v. bindE (as_int v) (\<lambda>meter_id.
     bindE (test_config_condition (meter_id < 0)) (\<lambda>_.
     bindE (test_config_condition (meter_id > 4294901760)) (\<lambda>_. Inr attrs))))"

definition new_meter :: "acl_lib \<Rightarrow> string \<Rightarrow> cval \<Rightarrow> err + meter" where
  "new_meter A mid conf =
     bindE (conf_init meter_class meter_check_config mid [] conf) (\<lambda>obj.
     bindE (as_dict conf) (\<lambda>d.
     bindE (dict_getE d ''entry'') (\<lambda>v. bindE (assertE (truthy v)) (\<lambda>_. bindE (as_dict v) (\<lambda>entry.
     bindE (dict_getE entry ''flags'') (\<lambda>flags. bindE (assertE (truthy flags)) (\<lambda>_.
     bindE (dict_getE entry ''bands'') (\<lambda>bands. bindE (assertE (truthy bands)) (\<lambda>_.
     bindE (dict_getE (cf_dict obj) ''meter_id'') (\<lambda>idv. bindE (as_int idv) (\<lambda>meter_id.
     let entry = CDict (dict_set ''meter_id'' idv entry)
     in bindE (al_mod_meter A entry) (\<lambda>_. Inr \<lparr>mt_meter_id = meter_id, mt_entry = entry\<rparr>))))))))))))"

text \<open>
  \<open>build_acl_entry\<close>: the loop over the fields of a rule keeps what it has built. \<open>meters\<close> maps names to meters; it
  is \<open>None\<close> where a caller passes a truth value for it, which has no items.
\<close>

record acl_entry =
  ae_inst :: "instruction list"
  ae_act :: "action list"
  ae_match_dict :: "(string, cval) dict"
  ae_ofmsgs :: "ofmsg list"
  ae_cookie :: "int option"
  ae_allow_inst :: "instruction list"

definition meter_id_of :: "(string, meter) dict option \<Rightarrow> cval \<Rightarrow> err + int" where
  "meter_id_of meters name =
     (case (meters, name) of
        (None, _) \<Rightarrow> Inl TypeError
      | (Some ms, CStr s) \<Rightarrow> bindE (dict_getE ms s) (\<lambda>m. Inr (mt_meter_id m))
      | (Some ms, CList _) \<Rightarrow> Inl TypeError
      | (Some ms, CDict _) \<Rightarrow> Inl TypeError
      | _ \<Rightarrow> Inl KeyError)"

text \<open>The actions of a rule, in the order they are applied; after an output to a port the packet leaves the pipeline.\<close>

definition rule_meter :: "(string, meter) dict option \<Rightarrow> (string, cval) dict \<Rightarrow> acl_entry \<Rightarrow> err + acl_entry" where
  "rule_meter meters d e =
     (case dict_get d ''meter'' of
        None \<Rightarrow> Inr e
      | Some name \<Rightarrow> bindE (meter_id_of meters name) (\<lambda>mid. Inr (e\<lparr>ae_inst := ae_inst e @ [apply_meter mid]\<rparr>)))"

definition rule_mirror :: "(string, cval) dict \<Rightarrow> bool \<Rightarrow> acl_entry \<Rightarrow> err + acl_entry \<times> bool" where
  "rule_mirror d allow e =
     (case dict_get d ''mirror'' of
        None \<Rightarrow> Inr (e, allow)
      | Some port_no \<Rightarrow>
          bindE (acl_output_port port_no) (\<lambda>a. Inr (e\<lparr>ae_act := ae_act e @ [a]\<rparr>, allow \<or> dict_get d ''allow'' = None)))"

definition rule_output ::
    "acl_lib \<Rightarrow> tunnel_rules option \<Rightarrow> tunnel_source option \<Rightarrow> (string, cval) dict \<Rightarrow> bool \<Rightarrow> acl_entry \<Rightarrow> err + acl_entry \<times> bool" where
  "rule_output A rules source d allow e =
     (case dict_get d ''output'' of
        None \<Rightarrow> Inr (e, False)
      | Some output \<Rightarrow>
          bindE (build_output_actions A rules source output) (\<lambda>b.
          Inr (e\<lparr>ae_act := ae_act e @ bo_actions b, ae_ofmsgs := ae_ofmsgs e @ bo_ofmsgs b,
                 ae_inst := ae_inst e @ bo_inst b\<rparr>, \<not> allow \<and> bo_output_port b \<noteq> None)))"

definition rule_continue :: "(string, cval) dict \<Rightarrow> bool \<Rightarrow> acl_entry \<Rightarrow> err + acl_entry" where
  "rule_continue d allow e =
     bindE (case dict_get d ''ct'' of
              None \<Rightarrow> Inr e
            | Some v \<Rightarrow> bindE (as_dict v) (\<lambda>c. bindE (build_ct_actions c) (\<lambda>a. Inr (e\<lparr>ae_act := ae_act e @ [a]\<rparr>)))) (\<lambda>e.
     Inr (if allow then e\<lparr>ae_inst := ae_inst e @ ae_allow_inst e\<rparr> else e))"

definition rule_flag :: "(string, cval) dict \<Rightarrow> string \<Rightarrow> bool" where
  "rule_flag d key = (case dict_get d key of None \<Rightarrow> False | Some v \<Rightarrow> is_one v)"

definition apply_rule_actions ::
    "acl_lib \<Rightarrow> (string, meter) dict option \<Rightarrow> instruction list \<Rightarrow> tunnel_rules option \<Rightarrow> tunnel_source option \<Rightarrow>
     (string, cval) dict \<Rightarrow> acl_entry \<Rightarrow> err + acl_entry" where
  "apply_rule_actions A meters force_inst rules source d e =
     (let e = (if rule_flag d ''force_port_vlan'' then e\<lparr>ae_allow_inst := force_inst\<rparr> else e)
      in bindE (rule_meter meters d e) (\<lambda>e.
         bindE (rule_mirror d (rule_flag d ''allow'') e) (\<lambda>(e, allow).
         bindE (rule_output A rules source d allow e) (\<lambda>(e, exit_pipeline).
         if exit_pipeline then Inr e else rule_continue d allow e))))"

definition apply_rule_field ::
    "acl_lib \<Rightarrow> (string, meter) dict option \<Rightarrow> instruction list \<Rightarrow> tunnel_rules option \<Rightarrow> tunnel_source option \<Rightarrow>
     string \<times> cval \<Rightarrow> acl_entry \<Rightarrow> err + acl_entry" where
  "apply_rule_field A meters force_inst rules source kv e =
     (let (attrib, v) = kv
      in if attrib = ''cookie''
         then (if v = CNone then Inr (e\<lparr>ae_cookie := None\<rparr>) else bindE (as_int v) (\<lambda>n. Inr (e\<lparr>ae_cookie := Some n\<rparr>)))
         else if attrib = ''description'' then Inr e
         else if attrib = ''actions'' then bindE (as_dict v) (\<lambda>d. apply_rule_actions A meters force_inst rules source d e)
         else Inr (e\<lparr>ae_match_dict := dict_set attrib v (ae_match_dict e)\<rparr>))"

definition match_or_config_error :: "acl_lib \<Rightarrow> (string, cval) dict \<Rightarrow> err + ofmatch" where
  "match_or_config_error A d = (case acl_match_from_dict A d of Inl TypeError \<Rightarrow> Inl InvalidConfigError | r \<Rightarrow> r)"

definition port_vlan_match :: "acl_lib \<Rightarrow> int option \<Rightarrow> int option \<Rightarrow> (string, cval) dict \<Rightarrow> (string, cval) dict" where
  "port_vlan_match A port_num vlan_vid d =
     (let d = (case port_num of None \<Rightarrow> d | Some n \<Rightarrow> dict_set ''in_port'' (CInt n) d)
      in case vlan_vid of None \<Rightarrow> d | Some vid \<Rightarrow> dict_set ''vlan_vid'' (CInt (vid_present (al_ofp A) vid)) d)"

definition build_acl_entry ::
    "acl_lib \<Rightarrow> (string, cval) dict \<Rightarrow> (string, meter) dict option \<Rightarrow> instruction list \<Rightarrow> instruction list \<Rightarrow> int option \<Rightarrow> int option \<Rightarrow>
     tunnel_rules option \<Rightarrow> tunnel_source option \<Rightarrow> err + ofmatch \<times> instruction list \<times> int option \<times> ofmsg list" where
  "build_acl_entry A rule_conf meters allow_inst force_inst port_num vlan_vid rules source =
     bindE (foldE (apply_rule_field A meters force_inst rules source) rule_conf
              \<lparr>ae_inst = [], ae_act = [], ae_match_dict = [], ae_ofmsgs = [], ae_cookie = None, ae_allow_inst = allow_inst\<rparr>) (\<lambda>e.
     bindE (match_or_config_error A (port_vlan_match A port_num vlan_vid (ae_match_dict e))) (\<lambda>mt.
     Inr (mt, ae_inst e @ (if ae_act e \<noteq> [] then [apply_actions (ae_act e)] else []), ae_cookie e, ae_ofmsgs e)))"

definition PCP_TUNNEL_FLAG :: int where "PCP_TUNNEL_FLAG = 3"
definition PCP_TUNNEL_REVERSE_DIRECTION_FLAG :: int where "PCP_TUNNEL_REVERSE_DIRECTION_FLAG = 4"

definition build_tunnel_ofmsgs ::
    "acl_lib \<Rightarrow> cval \<Rightarrow> valve_table \<Rightarrow> int \<Rightarrow> int option \<Rightarrow> int option \<Rightarrow> bool \<Rightarrow> bool \<Rightarrow> err + ofmsg list" where
  "build_tunnel_ofmsgs A rule_conf t priority port_num vlan_vid flowdel reverse =
     bindE (build_output_actions A None None rule_conf) (\<lambda>b.
     bindE (match_or_config_error A
              (dict_set ''vlan_pcp'' (CInt (if reverse then PCP_TUNNEL_REVERSE_DIRECTION_FLAG else PCP_TUNNEL_FLAG))
                (port_vlan_match A port_num vlan_vid []))) (\<lambda>mt.
     bindE (acl_flowmod A t mt priority (bo_inst b @ [apply_actions (bo_actions b)]) None) (\<lambda>fm.
     bindE (if flowdel then bindE (acl_flowdel A t mt (Some priority) False) (\<lambda>m. Inr [m]) else Inr []) (\<lambda>dels.
     Inr (bo_ofmsgs b @ dels @ [fm])))))"

text \<open>What all rules of a composition share.\<close>

record acl_args =
  aa_allow_inst :: "instruction list"
  aa_force_inst :: "instruction list"
  aa_highest_priority :: int
  aa_meters :: "(string, meter) dict option"
  aa_exact_match :: bool
  aa_port_num :: "int option"
  aa_vlan_vid :: "int option"
  aa_tunnel_rules :: "tunnel_rules option"
  aa_source :: "tunnel_source option"
  aa_flowdel :: bool

definition build_rule_ofmsgs ::
    "acl_lib \<Rightarrow> valve_table \<Rightarrow> acl_args \<Rightarrow> (string, cval) dict \<Rightarrow> int \<Rightarrow> err + ofmsg list" where
  "build_rule_ofmsgs A t a rule_conf acl_rule_priority =
     bindE (build_acl_entry A rule_conf (aa_meters a) (aa_allow_inst a) (aa_force_inst a) (aa_port_num a) (aa_vlan_vid a)
              (aa_tunnel_rules a) (aa_source a)) (\<lambda>(mt, inst, cookie, ofmsgs).
     let priority = (if aa_exact_match a then aa_highest_priority a else acl_rule_priority)
     in bindE (acl_flowmod A t mt priority inst cookie) (\<lambda>fm.
        bindE (if aa_flowdel a then bindE (acl_flowdel A t mt (Some priority) False) (\<lambda>m. Inr [m]) else Inr []) (\<lambda>dels.
        Inr (ofmsgs @ dels @ [fm]))))"

fun build_rules :: "acl_lib \<Rightarrow> valve_table \<Rightarrow> acl_args \<Rightarrow> (string, cval) dict list \<Rightarrow> int \<Rightarrow> err + ofmsg list" where
  "build_rules A t a [] priority = Inr []"
| "build_rules A t a (rule # rules) priority =
     bindE (build_rule_ofmsgs A t a rule priority) (\<lambda>ms. bindE (build_rules A t a rules (priority - 1)) (\<lambda>ns. Inr (ms @ ns)))"

definition build_acl_ofmsgs :: "acl_lib \<Rightarrow> acl list \<Rightarrow> valve_table \<Rightarrow> acl_args \<Rightarrow> err + ofmsg list" where
  "build_acl_ofmsgs A acls t a = build_rules A t a (concat (map acl_rules acls)) (aa_highest_priority a)"

section \<open>The messages of outputs are group messages\<close>

definition groups_only :: "ofmsg list \<Rightarrow> bool" where
  "groups_only ms \<longleftrightarrow> (\<forall>m \<in> set ms. msg_type_of m = TGroupMod)"

lemma groups_only_simps [simp]:
  "groups_only []" "groups_only (ms @ ns) = (groups_only ms \<and> groups_only ns)" "groups_only (groupadd_ff gid buckets)"
  by (auto simp: groups_only_def groupadd_ff_def groupadd_type_def groupdel_def)

lemma build_failover_groups: "build_failover A v = Inr (ms, a) \<Longrightarrow> groups_only ms"
  by (auto simp: build_failover_def bindE_Inr)

definition builds_groups :: "tunnel_builder \<Rightarrow> bool" where
  "builds_groups tunnel \<longleftrightarrow> (\<forall>v b. tunnel v = Inr b \<longrightarrow> groups_only (bo_ofmsgs b))"

lemma ordered_output_groups:
  assumes "builds_groups tunnel" and "ordered_output A tunnel kv = Inr b" shows "groups_only (bo_ofmsgs b)"
  using assms(2,1) unfolding ordered_output_def
  by (auto simp: bindE_Inr nothing_built_def builds_groups_def split: prod.splits if_splits dest!: build_failover_groups)

lemma build_ordered_groups:
  assumes "builds_groups tunnel" and "build_ordered_output_actions A tunnel vs = Inr b" shows "groups_only (bo_ofmsgs b)"
proof (rule foldE_invariant [OF assms(2) [unfolded build_ordered_output_actions_def]])
  show "groups_only (bo_ofmsgs (nothing_built\<lparr>bo_output_port := Some (CList [])\<rparr>))" by (simp add: nothing_built_def)
next
  fix action b b'
  assume b: "groups_only (bo_ofmsgs b)"
    and "bindE (as_dict action) (\<lambda>d. foldE (\<lambda>kv b. bindE (ordered_output A tunnel kv) (\<lambda>c. Inr (append_built b c))) d b) = Inr b'"
  then obtain d where d: "foldE (\<lambda>kv b. bindE (ordered_output A tunnel kv) (\<lambda>c. Inr (append_built b c))) d b = Inr b'"
    by (auto simp: bindE_Inr)
  show "groups_only (bo_ofmsgs b')"
  proof (rule foldE_invariant [where P = "\<lambda>b. groups_only (bo_ofmsgs b)", OF d b])
    fix kv b b' assume "groups_only (bo_ofmsgs b)" and "bindE (ordered_output A tunnel kv) (\<lambda>c. Inr (append_built b c)) = Inr b'"
    then obtain c where "ordered_output A tunnel kv = Inr c" "b' = append_built b c" by (auto simp: bindE_Inr)
    with \<open>groups_only (bo_ofmsgs b)\<close> ordered_output_groups [OF assms(1)] show "groups_only (bo_ofmsgs b')"
      by (simp add: append_built_def)
  qed
qed

lemma build_dict_groups:
  assumes "build_dict_output_actions A tunnel d = Inr b" shows "groups_only (bo_ofmsgs b)"
proof -
  from assms obtain ms gs where f: "(case dict_get d ''failover'' of None \<Rightarrow> Inr ([], [])
      | Some v \<Rightarrow> bindE (build_failover A v) (\<lambda>(ms, a). Inr (ms, [a]))) = Inr (ms, gs)" and b: "bo_ofmsgs b = ms"
    unfolding build_dict_output_actions_def by (auto simp: bindE_Inr simp del: option.case)
  then show ?thesis
    by (cases "dict_get d ''failover''") (auto simp: bindE_Inr dest: build_failover_groups)
qed

lemma build_outputs_groups:
  assumes "builds_groups tunnel" and "build_outputs A tunnel v = Inr b" shows "groups_only (bo_ofmsgs b)"
  using assms(2) build_ordered_groups [OF assms(1)] by (cases v) (auto simp: build_outputs_def dest: build_dict_groups)

lemma build_output_actions_groups: "build_output_actions A rules source v = Inr b \<Longrightarrow> groups_only (bo_ofmsgs b)"
proof -
  have none: "builds_groups no_tunnel" by (simp add: builds_groups_def no_tunnel_def nothing_built_def)
  have "builds_groups (tunnel_of_source A rules source)"
    unfolding builds_groups_def
  proof (intro allI impI)
    fix v b assume "tunnel_of_source A rules source v = Inr b"
    then show "groups_only (bo_ofmsgs b)"
      using build_outputs_groups [OF none]
      by (cases rules; cases source) (auto simp: tunnel_of_source_def bindE_Inr nothing_built_def split: list.splits)
  qed
  then show "build_output_actions A rules source v = Inr b \<Longrightarrow> groups_only (bo_ofmsgs b)"
    unfolding build_output_actions_def by (rule build_outputs_groups)
qed

lemma rule_stage_groups:
  "rule_meter meters d e = Inr e' \<Longrightarrow> ae_ofmsgs e' = ae_ofmsgs e"
  "rule_mirror d allow e = Inr (e', allow') \<Longrightarrow> ae_ofmsgs e' = ae_ofmsgs e"
  "rule_output A rules source d allow e = Inr (e', ex) \<Longrightarrow> groups_only (ae_ofmsgs e) \<Longrightarrow> groups_only (ae_ofmsgs e')"
  "rule_continue d allow e = Inr e' \<Longrightarrow> ae_ofmsgs e' = ae_ofmsgs e"
  by (auto simp: rule_meter_def rule_mirror_def rule_output_def rule_continue_def bindE_Inr
    dest: build_output_actions_groups split: option.splits if_splits)

lemma apply_rule_actions_groups:
  "apply_rule_actions A meters force_inst rules source d e = Inr e' \<Longrightarrow> groups_only (ae_ofmsgs e) \<Longrightarrow> groups_only (ae_ofmsgs e')"
  unfolding apply_rule_actions_def Let_def
  by (auto simp: bindE_Inr rule_stage_groups(1,2,4) dest!: rule_stage_groups split: if_splits)

lemma apply_rule_field_groups:
  assumes "apply_rule_field A meters force_inst rules source kv e = Inr e'" and "groups_only (ae_ofmsgs e)"
  shows "groups_only (ae_ofmsgs e')"
  using assms unfolding apply_rule_field_def Let_def
  by (auto simp: bindE_Inr dest: apply_rule_actions_groups split: prod.splits if_splits)

lemma build_acl_entry_groups:
  assumes "build_acl_entry A rule_conf meters allow_inst force_inst port_num vlan_vid rules source = Inr (mt, inst, cookie, ofmsgs)"
  shows "groups_only ofmsgs"
proof -
  from assms obtain e where e: "foldE (apply_rule_field A meters force_inst rules source) rule_conf
      \<lparr>ae_inst = [], ae_act = [], ae_match_dict = [], ae_ofmsgs = [], ae_cookie = None, ae_allow_inst = allow_inst\<rparr> = Inr e"
    and o: "ofmsgs = ae_ofmsgs e"
    by (auto simp: build_acl_entry_def bindE_Inr)
  show ?thesis unfolding o
    by (rule foldE_invariant [OF e]) (use apply_rule_field_groups in auto)
qed

end
