(* ===== verification/AclConf.thy ===== *)
theory AclConf imports Acl begin

text \<open>
  The configuration of ACLs, \<^verbatim>\<open>faucet/acl.py\<close>: reading and checking it, resolving its ports and tunnels,
  building it against all tables to learn the fields it uses, and the rules of its tunnels.

  \<open>acl_serialize\<close>, the library's writing of a message, is an argument of what uses it.
\<close>

section \<open>Types of fields\<close>

definition acl_class :: conf_class where
  "acl_class = \<lparr>cc_defaults = [(''rules'', CNone), (''exact_match'', CBool False), (''dot1x_assigned'', CBool False)],
     cc_types = [(''rules'', [TyList]), (''exact_match'', [TyBool]), (''dot1x_assigned'', [TyBool])],
     cc_mutable_attrs = [''tunnel_sources'']\<rparr>"

definition rule_types :: "(string, ctype list) dict" where
  "rule_types =
     dict_update [(''cookie'', [TyInt]), (''actions'', [TyDict]), (''description'', [TyStr])]
       (map (\<lambda>f. (f, [TyStr, TyInt])) (MATCH_FIELDS @ dict_keys OLD_MATCH_FIELDS))"

definition actions_types :: "(string, ctype list) dict" where
  "actions_types =
     [(''meter'', [TyStr]), (''mirror'', [TyStr, TyInt]), (''output'', [TyDict, TyList]), (''allow'', [TyInt]),
      (''force_port_vlan'', [TyInt]), (''ct'', [TyDict])]"

definition output_actions_types :: "(string, ctype list) dict" where
  "output_actions_types =
     [(''tunnel'', [TyDict]), (''port'', [TyStr, TyInt]), (''ports'', [TyList]), (''failover'', [TyDict]),
      (''set_fields'', [TyList]), (''pop_vlans'', [TyInt]), (''swap_vid'', [TyInt]), (''vlan_vid'', [TyInt]),
      (''vlan_vids'', [TyList])]"

definition ct_action_types :: "(string, ctype list) dict" where
  "ct_action_types =
     [(''flags'', [TyInt]), (''alg'', [TyInt]), (''table'', [TyInt]), (''zone'', [TyInt]), (''zone_src'', [TyInt]),
      (''clear'', [TyBool]), (''nat'', [TyDict]), (''mark'', [TyInt]), (''label'', [TyInt])]"

definition ct_action_nat_types :: "(string, ctype list) dict" where
  "ct_action_nat_types =
     [(''flags'', [TyInt]), (''range_ipv4_min'', [TyStr]), (''range_ipv4_max'', [TyStr]), (''range_ipv6_min'', [TyStr]),
      (''range_ipv6_max'', [TyStr]), (''range_proto_min'', [TyInt]), (''range_proto_max'', [TyInt])]"

section \<open>Reading a configuration\<close>

definition normalize_rule :: "cval \<Rightarrow> cval" where
  "normalize_rule rule =
     (case rule of
        CDict d \<Rightarrow>
          (case dict_get d ''rule'' of
             None \<Rightarrow> rule
           | Some CNone \<Rightarrow> CDict (filter (\<lambda>(k, v). v \<noteq> CNone) d)
           | Some r \<Rightarrow> r)
      | _ \<Rightarrow> rule)"

definition normalize_rules :: "cval list \<Rightarrow> err + cval list" where
  "normalize_rules rules =
     mapE (\<lambda>rule. case normalize_rule rule of CDict d \<Rightarrow> Inr (CDict d) | _ \<Rightarrow> Inl InvalidConfigError) rules"

definition acl_conf_dict :: "cval \<Rightarrow> err + (string, cval) dict" where
  "acl_conf_dict conf =
     bindE (case conf of
              CDict d \<Rightarrow> bindE (iter_vals (case dict_get d ''rules'' of None \<Rightarrow> CList [] | Some r \<Rightarrow> r)) (\<lambda>rules. Inr (rules, d))
            | CList rules \<Rightarrow> Inr (rules, [])
            | _ \<Rightarrow> Inl InvalidConfigError) (\<lambda>(rules, d).
     bindE (normalize_rules rules) (\<lambda>normalized. Inr (dict_set ''rules'' (CList normalized) d)))"

definition check_output_conf :: "cval \<Rightarrow> err + unit" where
  "check_output_conf action_conf =
     (let check = (\<lambda>subconf.
            bindE (len subconf) (\<lambda>n. bindE (test_config_condition (n > 1)) (\<lambda>_. check_conf_types subconf output_actions_types)))
      in case action_conf of
           CList subconfs \<Rightarrow> foldE (\<lambda>subconf _. check subconf) subconfs ()
         | CTuple subconfs \<Rightarrow> foldE (\<lambda>subconf _. check subconf) subconfs ()
         | _ \<Rightarrow> check_conf_types action_conf output_actions_types)"

definition check_ct_conf :: "cval \<Rightarrow> err + unit" where
  "check_ct_conf action_conf =
     bindE (check_conf_types action_conf ct_action_types) (\<lambda>_. bindE (as_dict action_conf) (\<lambda>d.
     bindE (if (case dict_get d ''clear'' of None \<Rightarrow> False | Some v \<Rightarrow> truthy v)
            then test_config_condition (length d \<noteq> 1)
            else bindE (test_config_condition (dict_get d ''table'' = None)) (\<lambda>_.
                 test_config_condition (dict_get d ''zone'' = None))) (\<lambda>_.
     case dict_get d ''nat'' of None \<Rightarrow> Inr () | Some nat_conf \<Rightarrow> check_conf_types nat_conf ct_action_nat_types)))"

definition check_actions_conf :: "cval \<Rightarrow> err + unit" where
  "check_actions_conf rule_conf =
     bindE (test_config_condition (\<not> truthy rule_conf)) (\<lambda>_.
     bindE (check_conf_types rule_conf actions_types) (\<lambda>_. bindE (as_dict rule_conf) (\<lambda>d.
     foldE (\<lambda>(action_name, action_conf) _.
         if action_name = ''output'' then check_output_conf action_conf
         else if action_name = ''ct'' then check_ct_conf action_conf
         else Inr ()) d ())))"

definition check_rule_conf :: "cval \<Rightarrow> err + unit" where
  "check_rule_conf rule =
     bindE (check_conf_types rule rule_types) (\<lambda>_. bindE (as_dict rule) (\<lambda>d.
     foldE (\<lambda>(rule_field, rule_conf) _.
         if rule_field = ''cookie''
         then bindE (as_int rule_conf) (\<lambda>cookie. test_config_condition (cookie < 0 \<or> cookie > 2 ^ 16))
         else if rule_field = ''actions'' then check_actions_conf rule_conf
         else Inr ()) d ()))"

definition acl_check_config :: "(string, cval) dict \<Rightarrow> err + (string, cval) dict" where
  "acl_check_config attrs =
     bindE (dict_getE attrs ''rules'') (\<lambda>rules.
     bindE (test_config_condition (\<not> truthy rules)) (\<lambda>_.
     bindE (as_list rules) (\<lambda>rules.
     bindE (foldE (\<lambda>rule _. check_rule_conf rule) rules ()) (\<lambda>_. Inr attrs))))"

text \<open>The constructor; \<open>hash\<close> is that of \<^verbatim>\<open>conf.py\<close>.\<close>

definition acl_of_obj :: "(string set \<Rightarrow> int) \<Rightarrow> conf_obj \<Rightarrow> err + acl" where
  "acl_of_obj hash obj =
     bindE (dict_getE (cf_dict obj) ''rules'') (\<lambda>rules. bindE (as_list rules) (\<lambda>rules. bindE (mapE as_dict rules) (\<lambda>rules.
     bindE (dict_getE (cf_dict obj) ''exact_match'') (\<lambda>exact_match.
     bindE (dict_getE (cf_dict obj) ''dot1x_assigned'') (\<lambda>dot1x_assigned.
     bindE (conf_hash hash acl_class True [] obj) (\<lambda>h.
     Inr \<lparr>acl_id = cf_id obj, acl_hash = h, acl_rules = rules, acl_exact_match = truthy exact_match,
          acl_dot1x_assigned = truthy dot1x_assigned, acl_meter = False, acl_matches = [], acl_set_fields = [],
          acl_ports_resolved = False, acl_tunnel_dests = [], acl_tunnel_sources = [], acl_dyn_tunnel_rules = [],
          acl_dyn_reverse_tunnel_rules = []\<rparr>))))))"

definition new_acl :: "(string set \<Rightarrow> int) \<Rightarrow> string \<Rightarrow> cval \<Rightarrow> err + acl" where
  "new_acl hash aid conf =
     bindE (acl_conf_dict conf) (\<lambda>d.
     bindE (conf_init acl_class acl_check_config aid
              [(''rules'', CList []), (''exact_match'', CNone), (''dot1x_assigned'', CNone)] (CDict d)) (acl_of_obj hash))"

text \<open>A cookie of null is no configuration error.\<close>

lemma null_cookie_raises: "check_rule_conf (CDict [(''cookie'', CNone)]) = Inl TypeError"
  by code_simp

section \<open>Building\<close>

text \<open>What a composed message says of the fields and meters an ACL uses.\<close>

definition learn_match :: "string \<times> mval \<Rightarrow> (string, bool) dict \<Rightarrow> (string, bool) dict" where
  "learn_match kv matches =
     (let has_mask = is_masked (snd kv)
      in if has_mask \<or> dict_get matches (fst kv) = None then dict_set (fst kv) has_mask matches else matches)"

fun inst_actions :: "instruction \<Rightarrow> action list" where
  "inst_actions (IApplyActions acts) = acts"
| "inst_actions _ = []"

definition add_to_set :: "'a list \<Rightarrow> 'a list \<Rightarrow> 'a list" where
  "add_to_set xs ys = foldl (\<lambda>xs y. if y \<in> set xs then xs else xs @ [y]) xs ys"

fun learn_message :: "ofmsg \<Rightarrow> acl \<Rightarrow> acl" where
  "learn_message (FlowModMsg fm) acl =
     acl\<lparr>acl_meter := acl_meter acl \<or> (\<exists>i \<in> set (fm_instructions fm). is_meter i),
         acl_set_fields := add_to_set (acl_set_fields acl) (set_field_keys (concat (map inst_actions (fm_instructions fm)))),
         acl_matches := foldl (\<lambda>ms kv. learn_match kv ms) (acl_matches acl) (fm_match fm)\<rparr>"
| "learn_message _ acl = acl"

text \<open>\<open>KeyError\<close> and \<open>ValueError\<close> of a composition or of the library's writing become configuration errors.\<close>

fun config_error :: "err \<Rightarrow> err" where
  "config_error KeyError = InvalidConfigError"
| "config_error ValueError = InvalidConfigError"
| "config_error e = e"

definition or_config_error :: "err + 'a \<Rightarrow> err + 'a" where
  "or_config_error r = (case r of Inl e \<Rightarrow> Inl (config_error e) | Inr x \<Rightarrow> Inr x)"

definition learn_messages :: "(ofmsg \<Rightarrow> err + unit) \<Rightarrow> ofmsg list \<Rightarrow> acl \<Rightarrow> err + acl" where
  "learn_messages serialize ofmsgs acl =
     bindE (test_config_condition (ofmsgs = [])) (\<lambda>_.
     foldE (\<lambda>ofmsg acl. bindE (or_config_error (serialize ofmsg)) (\<lambda>_. Inr (learn_message ofmsg acl))) ofmsgs acl)"

definition wildcard_args :: "acl_lib \<Rightarrow> (string, meter) dict \<Rightarrow> bool \<Rightarrow> int option \<Rightarrow> int option \<Rightarrow> acl_args" where
  "wildcard_args A meters exact_match vid port_num =
     \<lparr>aa_allow_inst = [goto_this (wildcard_table (al_ofp A))], aa_force_inst = [goto_this (wildcard_table (al_ofp A))],
      aa_highest_priority = 2 ^ 16 - 1, aa_meters = Some meters, aa_exact_match = exact_match, aa_port_num = port_num,
      aa_vlan_vid = vid, aa_tunnel_rules = None, aa_source = None, aa_flowdel = False\<rparr>"

definition acl_build ::
    "acl_lib \<Rightarrow> (ofmsg \<Rightarrow> err + unit) \<Rightarrow> (string, meter) dict \<Rightarrow> int option \<Rightarrow> int option \<Rightarrow> acl \<Rightarrow> err + acl" where
  "acl_build A serialize meters vid port_num acl =
     (let acl = acl\<lparr>acl_matches := [], acl_set_fields := [], acl_meter := False\<rparr>
      in bindE (if acl_rules acl \<noteq> [] then
                  bindE (or_config_error (build_acl_ofmsgs A [acl] (wildcard_table (al_ofp A))
                           (wildcard_args A meters (acl_exact_match acl) vid port_num)))
                    (\<lambda>ofmsgs. learn_messages serialize ofmsgs acl)
                else Inr acl) (\<lambda>acl.
         foldE (\<lambda>dest acl.
             bindE (or_config_error (build_tunnel_ofmsgs A (td_exit_instructions dest) (wildcard_table (al_ofp A)) 1 None None False False))
               (\<lambda>ofmsgs. learn_messages serialize ofmsgs acl))
           (dict_values (acl_tunnel_dests acl)) acl))"

text \<open>The meters and the mirrors of the rules.\<close>

definition rule_action :: "string \<Rightarrow> (string, cval) dict \<Rightarrow> cval option" where
  "rule_action name rule =
     (case dict_get rule ''actions'' of Some (CDict d) \<Rightarrow> dict_get d name | _ \<Rightarrow> None)"

definition get_meters :: "acl \<Rightarrow> cval list" where
  "get_meters acl = List.map_filter (rule_action ''meter'') (acl_rules acl)"

definition get_mirror_destinations :: "acl \<Rightarrow> cval list" where
  "get_mirror_destinations acl = List.map_filter (rule_action ''mirror'') (acl_rules acl)"

section \<open>Resolving ports and tunnels\<close>

text \<open>
  \<open>port_cb\<close> gives the number of a port by name or number; \<open>tunnel_cb\<close> the datapath, port and VLAN of a tunnel,
  which may change the state \<open>'s\<close> of the datapath.
\<close>

record 's resolving =
  rs_dests :: "(int, tunnel_dest) dict"
  rs_state :: 's

type_synonym 's tunnel_cb = "cval \<Rightarrow> cval \<Rightarrow> cval \<Rightarrow> 's \<Rightarrow> err + (string \<times> int option \<times> int) \<times> 's"

definition key_or :: "(string, cval) dict \<Rightarrow> string \<Rightarrow> cval \<Rightarrow> cval" where
  "key_or d key dflt = (case dict_get d key of None \<Rightarrow> dflt | Some v \<Rightarrow> v)"

definition resolve_tunnel :: "'s tunnel_cb \<Rightarrow> cval \<Rightarrow> 's resolving \<Rightarrow> err + int \<times> 's resolving" where
  "resolve_tunnel tunnel_cb tunnel r =
     bindE (as_dict tunnel) (\<lambda>t.
     bindE (test_config_condition (dict_get t ''dp'' = None)) (\<lambda>_.
     bindE (dict_getE t ''dp'') (\<lambda>tunnel_dp.
     let reverse = truthy (key_or t ''reverse'' (CBool False));
         bi_directional = truthy (key_or t ''bi_directional'' (CBool False))
     in bindE (test_config_condition (reverse \<and> bi_directional)) (\<lambda>_.
        bindE (tunnel_cb tunnel_dp (key_or t ''port'' CNone) (key_or t ''tunnel_id'' CNone) (rs_state r)) (\<lambda>((dst_dp, dst_port, tunnel_id), s).
        Inr (tunnel_id,
             r\<lparr>rs_state := s,
               rs_dests := dict_set tunnel_id
                 \<lparr>td_dst_dp = dst_dp, td_dst_port = dst_port, td_tunnel_id = tunnel_id, td_type = key_or t ''type'' (CStr ''vlan''),
                  td_exit_instructions = key_or t ''exit_instructions'' (CList []), td_bi_directional = bi_directional,
                  td_maintain_encapsulation = truthy (key_or t ''maintain_encapsulation'' (CBool False)),
                  td_reverse = reverse\<rparr> (rs_dests r)\<rparr>))))))"

definition resolve_port :: "(cval \<Rightarrow> int option) \<Rightarrow> cval \<Rightarrow> err + int" where
  "resolve_port port_cb name = (case port_cb name of None \<Rightarrow> Inl InvalidConfigError | Some n \<Rightarrow> Inr n)"

definition resolve_output_port :: "(cval \<Rightarrow> int option) \<Rightarrow> cval \<Rightarrow> err + cval" where
  "resolve_output_port port_cb name =
     bindE (resolve_port port_cb name) (\<lambda>n. bindE (test_config_condition (n = 0)) (\<lambda>_. Inr (CInt n)))"

definition resolve_port_list :: "(cval \<Rightarrow> int option) \<Rightarrow> cval \<Rightarrow> err + cval" where
  "resolve_port_list port_cb names =
     bindE (iter_vals names) (\<lambda>names. bindE (mapE (resolve_port port_cb) names) (\<lambda>ns. Inr (CList (map CInt ns))))"

definition resolve_failover :: "(cval \<Rightarrow> int option) \<Rightarrow> cval \<Rightarrow> err + cval" where
  "resolve_failover port_cb failover =
     (case failover of
        CDict d \<Rightarrow>
          bindE (mapE (\<lambda>(name, v).
              if name = ''ports'' then bindE (resolve_port_list port_cb v) (\<lambda>ports. Inr (name, ports)) else Inr (name, v)) d)
            (\<lambda>d'. Inr (CDict d'))
      | _ \<Rightarrow> Inl InvalidConfigError)"

text \<open>One output action, which both formats resolve alike; \<open>None\<close> when it is to be kept.\<close>

definition resolve_output_action ::
    "(cval \<Rightarrow> int option) \<Rightarrow> 's tunnel_cb \<Rightarrow> string \<times> cval \<Rightarrow> 's resolving \<Rightarrow> err + cval option \<times> 's resolving" where
  "resolve_output_action port_cb tunnel_cb kv r =
     (let (key, v) = kv
      in if key = ''tunnel'' then bindE (resolve_tunnel tunnel_cb v r) (\<lambda>(tunnel_id, r). Inr (Some (CInt tunnel_id), r))
         else if key = ''port'' then bindE (resolve_output_port port_cb v) (\<lambda>p. Inr (Some p, r))
         else if key = ''ports'' then bindE (resolve_port_list port_cb v) (\<lambda>ps. Inr (Some ps, r))
         else if key = ''failover'' then bindE (resolve_failover port_cb v) (\<lambda>f. Inr (Some f, r))
         else Inr (None, r))"

definition resolve_ordered_output_ports ::
    "(cval \<Rightarrow> int option) \<Rightarrow> 's tunnel_cb \<Rightarrow> cval list \<Rightarrow> 's resolving \<Rightarrow> err + cval \<times> 's resolving" where
  "resolve_ordered_output_ports port_cb tunnel_cb output_list r =
     bindE (foldE (\<lambda>action (result, r).
         bindE (as_dict action) (\<lambda>d.
         foldE (\<lambda>kv (result, r).
             bindE (resolve_output_action port_cb tunnel_cb kv r) (\<lambda>(v, r).
             Inr (result @ [case v of None \<Rightarrow> action | Some v \<Rightarrow> CDict [(fst kv, v)]], r))) d (result, r)))
       output_list ([], r)) (\<lambda>(result, r). Inr (CList result, r))"

definition resolve_output_ports ::
    "(cval \<Rightarrow> int option) \<Rightarrow> 's tunnel_cb \<Rightarrow> cval \<Rightarrow> 's resolving \<Rightarrow> err + cval \<times> 's resolving" where
  "resolve_output_ports port_cb tunnel_cb action_conf r =
     (case action_conf of
        CList vs \<Rightarrow> resolve_ordered_output_ports port_cb tunnel_cb vs r
      | CTuple vs \<Rightarrow> resolve_ordered_output_ports port_cb tunnel_cb vs r
      | _ \<Rightarrow>
          bindE (as_dict action_conf) (\<lambda>d.
          bindE (test_config_condition (dict_get d ''vlan_vid'' \<noteq> None \<and> dict_get d ''vlan_vids'' \<noteq> None)) (\<lambda>_.
          bindE (test_config_condition (dict_get d ''port'' \<noteq> None \<and> dict_get d ''ports'' \<noteq> None)) (\<lambda>_.
          bindE (foldE (\<lambda>(key, v) (result, r).
              bindE (resolve_output_action port_cb tunnel_cb (key, v) r) (\<lambda>(v', r).
              Inr (dict_set key (case v' of None \<Rightarrow> v | Some w \<Rightarrow> w) result, r))) d ([], r)) (\<lambda>(result, r).
          Inr (CDict result, r))))))"

definition resolve_rule ::
    "(cval \<Rightarrow> int option) \<Rightarrow> 's tunnel_cb \<Rightarrow> (string, cval) dict \<Rightarrow> 's resolving \<Rightarrow> err + (string, cval) dict \<times> 's resolving" where
  "resolve_rule port_cb tunnel_cb rule_conf r =
     (case dict_get rule_conf ''actions'' of
        None \<Rightarrow> Inr (rule_conf, r)
      | Some (CDict actions_conf) \<Rightarrow>
          bindE (foldE (\<lambda>(action_name, action_conf) (resolved, r).
              if action_name = ''mirror''
              then bindE (resolve_port port_cb action_conf) (\<lambda>n. Inr (dict_set action_name (CInt n) resolved, r))
              else if action_name = ''output''
              then bindE (resolve_output_ports port_cb tunnel_cb action_conf r) (\<lambda>(v, r). Inr (dict_set action_name v resolved, r))
              else Inr (dict_set action_name action_conf resolved, r)) actions_conf ([], r)) (\<lambda>(resolved, r).
          Inr (dict_set ''actions'' (CDict resolved) rule_conf, r))
      | Some _ \<Rightarrow> Inl InvalidConfigError)"

definition resolve_ports :: "(cval \<Rightarrow> int option) \<Rightarrow> 's tunnel_cb \<Rightarrow> acl \<Rightarrow> 's \<Rightarrow> err + acl \<times> 's" where
  "resolve_ports port_cb tunnel_cb acl s =
     (if acl_ports_resolved acl then Inr (acl, s)
      else
        bindE (foldE (\<lambda>rule_conf (rules, r).
            bindE (resolve_rule port_cb tunnel_cb rule_conf r) (\<lambda>(rule_conf, r). Inr (rules @ [rule_conf], r)))
          (acl_rules acl) ([], \<lparr>rs_dests = acl_tunnel_dests acl, rs_state = s\<rparr>)) (\<lambda>(rules, r).
        Inr (acl\<lparr>acl_rules := rules, acl_tunnel_dests := rs_dests r, acl_ports_resolved := True\<rparr>, rs_state r)))"

section \<open>Tunnels\<close>

text \<open>After the check of the configuration every output action is a dictionary.\<close>

fun has_key :: "cval \<Rightarrow> string \<Rightarrow> bool" where
  "has_key (CDict d) key = (dict_get d key \<noteq> None)"
| "has_key _ key = False"

definition does_rule_contain_tunnel :: "(string, cval) dict \<Rightarrow> bool" where
  "does_rule_contain_tunnel rule_conf =
     (case rule_action ''output'' rule_conf of
        None \<Rightarrow> False
      | Some (CList actions) \<Rightarrow> \<exists>a \<in> set actions. has_key a ''tunnel''
      | Some (CTuple actions) \<Rightarrow> \<exists>a \<in> set actions. has_key a ''tunnel''
      | Some output_conf \<Rightarrow> has_key output_conf ''tunnel'')"

definition rule_num_tunnels :: "(string, cval) dict \<Rightarrow> nat" where
  "rule_num_tunnels rule_conf =
     (if does_rule_contain_tunnel rule_conf then
        (case rule_action ''output'' rule_conf of
           Some (CList actions) \<Rightarrow> length (filter (\<lambda>a. has_key a ''tunnel'') actions)
         | Some (CDict d) \<Rightarrow> (if dict_get d ''tunnel'' \<noteq> None then 1 else 0)
         | _ \<Rightarrow> 0)
      else 0)"

definition get_num_tunnels :: "acl \<Rightarrow> nat" where
  "get_num_tunnels acl = sum_list (map rule_num_tunnels (acl_rules acl))"

definition uses_tunnel :: "int \<Rightarrow> cval \<Rightarrow> bool" where
  "uses_tunnel tunnel_id action =
     (case action of
        CDict d \<Rightarrow> (case dict_get d ''tunnel'' of None \<Rightarrow> False | Some v \<Rightarrow> int_of v = Some tunnel_id)
      | _ \<Rightarrow> False)"

text \<open>A rule is listed once for each of its ordered actions that uses the tunnel.\<close>

definition get_tunnel_rules :: "int \<Rightarrow> acl \<Rightarrow> (string, cval) dict list" where
  "get_tunnel_rules tunnel_id acl =
     concat (map (\<lambda>rule_conf.
         case rule_action ''output'' rule_conf of
           None \<Rightarrow> []
         | Some (CList actions) \<Rightarrow> map (\<lambda>_. rule_conf) (filter (uses_tunnel tunnel_id) actions)
         | Some (CTuple actions) \<Rightarrow> map (\<lambda>_. rule_conf) (filter (uses_tunnel tunnel_id) actions)
         | Some output_conf \<Rightarrow> (if uses_tunnel tunnel_id output_conf then [rule_conf] else []))
       (acl_rules acl))"

definition is_tunnel_acl :: "acl \<Rightarrow> bool" where
  "is_tunnel_acl acl \<longleftrightarrow> acl_tunnel_dests acl \<noteq> [] \<or> (\<exists>r \<in> set (acl_rules acl). does_rule_contain_tunnel r)"

definition requires_reverse_tunnel :: "int \<Rightarrow> acl \<Rightarrow> err + bool" where
  "requires_reverse_tunnel tunnel_id acl =
     bindE (dict_getE (acl_tunnel_dests acl) tunnel_id) (\<lambda>dest. Inr (td_bi_directional dest))"

definition set_default_rules :: "int list \<Rightarrow> tunnel_rules \<Rightarrow> tunnel_rules" where
  "set_default_rules ids rules = foldl (\<lambda>d i. if dict_get d i = None then dict_set i [] d else d) rules ids"

definition add_tunnel_source :: "string \<Rightarrow> int option \<Rightarrow> bool \<Rightarrow> bool \<Rightarrow> acl \<Rightarrow> acl" where
  "add_tunnel_source dp_name port reverse bi_directional acl =
     (let source = \<lparr>ts_dp = dp_name, ts_port = port, ts_reverse = reverse, ts_bi_directional = bi_directional\<rparr>;
          ids = dict_keys (acl_tunnel_dests acl)
      in acl\<lparr>acl_tunnel_sources := add_to_set (acl_tunnel_sources acl) [source],
             acl_dyn_tunnel_rules := set_default_rules ids (acl_dyn_tunnel_rules acl),
             acl_dyn_reverse_tunnel_rules := set_default_rules ids (acl_dyn_reverse_tunnel_rules acl)\<rparr>)"

definition verify_tunnel_rules :: "acl \<Rightarrow> acl" where
  "verify_tunnel_rules acl =
     acl\<lparr>acl_matches := foldl (\<lambda>ms f. if dict_get ms f = None then dict_set f False ms else ms) (acl_matches acl)
             [''eth_type'', ''in_port'', ''vlan_vid'', ''vlan_pcp''],
         acl_set_fields := add_to_set (acl_set_fields acl) [''vlan_vid'', ''vlan_pcp'']\<rparr>"

text \<open>An output to a port, or none to fall through into the output table.\<close>

definition opt_port :: "int option \<Rightarrow> cval" where
  "opt_port port = (case port of None \<Rightarrow> CNone | Some n \<Rightarrow> CInt n)"

definition out_action :: "int option \<Rightarrow> cval" where
  "out_action out_port = CDict [(''port'', opt_port out_port)]"

definition out_or_fall_through :: "int option \<Rightarrow> valve_table \<Rightarrow> cval" where
  "out_or_fall_through out_port output_table =
     (case out_port of None \<Rightarrow> CDict [(''goto'', CInt (vt_table_id output_table))] | Some _ \<Rightarrow> out_action out_port)"

definition push_tunnel :: "acl_lib \<Rightarrow> int \<Rightarrow> int \<Rightarrow> cval list" where
  "push_tunnel A tunnel_id pcp_flag =
     [CDict [(''vlan_vids'', CList [CDict [(''vid'', CInt tunnel_id), (''eth_type'', CInt (ETH_TYPE_8021Q (al_ofp A)))]])],
      CDict [(''set_fields'', CList [CDict [(''vlan_pcp'', CInt pcp_flag)]])]]"

definition pop_tunnel :: cval where
  "pop_tunnel = CDict [(''pop_vlans'', CInt 1)]"

definition find_source :: "acl \<Rightarrow> tunnel_source \<Rightarrow> err + tunnel_source" where
  "find_source acl source_id = (if source_id \<in> set (acl_tunnel_sources acl) then Inr source_id else Inl KeyError)"

text \<open>The rules are replaced if they differ from the ones before; the result is always True.\<close>

definition replace_rules :: "int \<Rightarrow> tunnel_source \<Rightarrow> cval list \<Rightarrow> tunnel_rules \<Rightarrow> err + tunnel_rules" where
  "replace_rules tunnel_id source_id new_list rules =
     bindE (dict_getE rules tunnel_id) (\<lambda>by_source.
     let prev_list = (case dict_get by_source source_id of None \<Rightarrow> CList [] | Some v \<Rightarrow> v)
     in Inr (if py_eq (CList new_list) prev_list then rules
             else dict_set tunnel_id (dict_set source_id (CList new_list) by_source) rules))"

definition update_reverse_tunnel_rules ::
    "string \<Rightarrow> tunnel_source \<Rightarrow> int \<Rightarrow> int option \<Rightarrow> valve_table \<Rightarrow> acl \<Rightarrow> err + bool \<times> acl" where
  "update_reverse_tunnel_rules curr_dp source_id tunnel_id out_port output_table acl =
     bindE (requires_reverse_tunnel tunnel_id acl) (\<lambda>required.
     if \<not> required then Inr (False, acl)
     else
       bindE (find_source acl source_id) (\<lambda>source.
       bindE (dict_getE (acl_tunnel_dests acl) tunnel_id) (\<lambda>dest.
       let dst_dp = ts_dp source; src_dp = td_dst_dp dest;
           new_list =
             (if curr_dp = src_dp \<and> curr_dp \<noteq> dst_dp then [out_action out_port]
              else if curr_dp = dst_dp \<and> curr_dp \<noteq> src_dp then [pop_tunnel, out_or_fall_through out_port output_table]
              else if curr_dp = src_dp \<and> curr_dp = dst_dp then [pop_tunnel, out_or_fall_through out_port output_table]
              else [out_action out_port])
       in bindE (replace_rules tunnel_id source_id new_list (acl_dyn_reverse_tunnel_rules acl)) (\<lambda>rules.
          Inr (True, acl\<lparr>acl_dyn_reverse_tunnel_rules := rules\<rparr>)))))"

definition source_tunnel_actions ::
    "acl_lib \<Rightarrow> string \<Rightarrow> tunnel_source \<Rightarrow> int \<Rightarrow> int option \<Rightarrow> valve_table \<Rightarrow> tunnel_dest \<Rightarrow> err + cval list" where
  "source_tunnel_actions A curr_dp source tunnel_id out_port output_table dest =
     (let src_dp = ts_dp source; dst_dp = td_dst_dp dest;
          pcp_flag = (if td_reverse dest then PCP_TUNNEL_REVERSE_DIRECTION_FLAG else PCP_TUNNEL_FLAG)
      in if curr_dp = src_dp \<and> curr_dp \<noteq> dst_dp
         then Inr (push_tunnel A tunnel_id pcp_flag @ [out_action out_port, pop_tunnel])
         else if curr_dp = dst_dp \<and> curr_dp \<noteq> src_dp
         then bindE (iter_vals (td_exit_instructions dest)) (\<lambda>exit_instructions.
              Inr ((if td_maintain_encapsulation dest then [] else [pop_tunnel]) @ exit_instructions @
                   [out_or_fall_through out_port output_table]))
         else if curr_dp = src_dp \<and> curr_dp = dst_dp
         then bindE (iter_vals (td_exit_instructions dest)) (\<lambda>exit_instructions.
              Inr (exit_instructions @ (if td_maintain_encapsulation dest then push_tunnel A tunnel_id pcp_flag else []) @
                   [out_or_fall_through out_port output_table]))
         else Inr [out_action out_port])"

definition update_source_tunnel_rules ::
    "acl_lib \<Rightarrow> string \<Rightarrow> tunnel_source \<Rightarrow> int \<Rightarrow> int option \<Rightarrow> valve_table \<Rightarrow> acl \<Rightarrow> err + bool \<times> acl" where
  "update_source_tunnel_rules A curr_dp source_id tunnel_id out_port output_table acl =
     bindE (find_source acl source_id) (\<lambda>source.
     bindE (dict_getE (acl_tunnel_dests acl) tunnel_id) (\<lambda>dest.
     bindE (dict_getE (acl_dyn_tunnel_rules acl) tunnel_id) (\<lambda>_.
     bindE (source_tunnel_actions A curr_dp source tunnel_id out_port output_table dest) (\<lambda>new_list.
     bindE (replace_rules tunnel_id source_id new_list (acl_dyn_tunnel_rules acl)) (\<lambda>rules.
     Inr (True, acl\<lparr>acl_dyn_tunnel_rules := rules\<rparr>))))))"

section \<open>The ACLs of 802.1X\<close>

text \<open>802.1X steals the port ACL table: the configurations of the two rules it installs.\<close>

definition PORT_ACL_8021X :: "ofp \<Rightarrow> cval" where
  "PORT_ACL_8021X K =
     CDict [(''rules'', CList [CDict [
       (''eth_type'', CInt 1), (''eth_src'', CStr ''01:02:03:04:05:06''),
       (''actions'', CDict [(''output'', CDict [
         (''port'', CInt (OFPP_LOCAL K)),
         (''set_fields'', CList [CDict [(''eth_src'', CStr ''01:02:03:04:05:06'')],
                                 CDict [(''eth_dst'', CStr ''01:02:03:04:05:06'')]])])])]])]"

definition MAB_ACL_8021X :: "ofp \<Rightarrow> cval" where
  "MAB_ACL_8021X K =
     CDict [(''rules'', CList [CDict [
       (''eth_type'', CInt (ETH_TYPE_IP K)), (''eth_src'', CStr ''01:02:03:04:05:06''),
       (''ip_proto'', CInt (IPPROTO_UDP K)), (''udp_src'', CInt 68), (''udp_dst'', CInt 67),
       (''actions'', CDict [(''output'', CDict [(''port'', CInt (OFPP_LOCAL K))])])]])]"

end
