(* ===== verification/AclManager.thy ===== *)
theory AclManager imports AclConf Switch begin

text \<open>
  The manager of the ACLs of a datapath, \<open>ValveAclManager\<close> of \<^verbatim>\<open>faucet/valve_acl.py\<close>: the flows of the ACLs of
  the datapath, of ports and VLANs, of hosts authenticated by 802.1X, and of tunnels.
\<close>

definition ETH_EAPOL :: int where "ETH_EAPOL = 0x888E"
definition EAPOL_ETH_DST :: string where "EAPOL_ETH_DST = ''01:80:c2:00:00:03''"

section \<open>ACLs of a port by message\<close>

text \<open>\<open>None\<close> when there are no rules. A meter's table is the truth value \<open>acl.meter\<close>.\<close>

definition build_acl_port_of_msgs ::
    "acl_lib \<Rightarrow> acl \<Rightarrow> int option \<Rightarrow> int \<Rightarrow> valve_table \<Rightarrow> valve_table \<Rightarrow> int \<Rightarrow> err + ofmsg list option" where
  "build_acl_port_of_msgs A acl vid port_num acl_table goto_tbl priority =
     (if acl_rules acl = [] then Inr None
      else
        bindE (build_acl_ofmsgs A [acl] acl_table
                 \<lparr>aa_allow_inst = [goto_this goto_tbl], aa_force_inst = [goto_this goto_tbl], aa_highest_priority = priority,
                  aa_meters = None, aa_exact_match = acl_exact_match acl, aa_port_num = Some port_num, aa_vlan_vid = vid,
                  aa_tunnel_rules = None, aa_source = None, aa_flowdel = False\<rparr>) (\<lambda>ms. Inr (Some ms)))"

definition add_mac_address_to_match :: "acl_lib \<Rightarrow> ofmatch \<Rightarrow> string option \<Rightarrow> err + ofmatch" where
  "add_mac_address_to_match A mt eth_src =
     (case eth_src of
        None \<Rightarrow> Inr mt
      | Some mac \<Rightarrow>
          if mac = [] then Inr mt
          else match_from_dict (lib_conv (al_lib A)) (\<lambda>kw. kw) (dict_set ''eth_src'' (MText mac) mt))"

section \<open>The manager\<close>

text \<open>No ACLs of the datapath are the empty list. The ACLs of a port or a VLAN are arguments of its operations.\<close>

record acl_manager =
  am_dp_acls :: "acl list"
  am_port_acl_table :: "valve_table option"
  am_vlan_acl_table :: "valve_table option"
  am_egress_acl_table :: "valve_table option"
  am_pipeline :: pipeline
  am_meters :: "(string, meter) dict"
  am_acl_priority :: int
  am_override_priority :: int
  am_auth_priority :: int
  am_low_priority :: int

definition new_acl_manager ::
    "valve_table option \<Rightarrow> valve_table option \<Rightarrow> valve_table option \<Rightarrow> pipeline \<Rightarrow> (string, meter) dict \<Rightarrow> acl list \<Rightarrow> acl_manager" where
  "new_acl_manager port_acl_table vlan_acl_table egress_acl_table pl meters dp_acls =
     \<lparr>am_dp_acls = dp_acls, am_port_acl_table = port_acl_table, am_vlan_acl_table = vlan_acl_table,
      am_egress_acl_table = egress_acl_table, am_pipeline = pl, am_meters = meters, am_acl_priority = FILTER_PRIORITY,
      am_override_priority = FILTER_PRIORITY + 1, am_auth_priority = HIGH_PRIORITY, am_low_priority = HIGH_PRIORITY - 1\<rparr>"

text \<open>A table that is not there has no methods.\<close>

definition need_table :: "valve_table option \<Rightarrow> (valve_table \<Rightarrow> err + 'a) \<Rightarrow> err + 'a" where
  "need_table t f = (case t of None \<Rightarrow> Inl AttributeError | Some t \<Rightarrow> f t)"

definition manager_args :: "acl_manager \<Rightarrow> instruction list \<Rightarrow> instruction list \<Rightarrow> bool \<Rightarrow> acl_args" where
  "manager_args m allow_inst force_inst exact_match =
     \<lparr>aa_allow_inst = allow_inst, aa_force_inst = force_inst, aa_highest_priority = am_acl_priority m,
      aa_meters = Some (am_meters m), aa_exact_match = exact_match, aa_port_num = None, aa_vlan_vid = None,
      aa_tunnel_rules = None, aa_source = None, aa_flowdel = False\<rparr>"

definition acl_initialise_tables :: "acl_lib \<Rightarrow> acl_manager \<Rightarrow> err + ofmsg list" where
  "acl_initialise_tables A m =
     (if am_dp_acls m = [] then Inr []
      else
        need_table (am_port_acl_table m) (\<lambda>t.
        build_acl_ofmsgs A (am_dp_acls m) t
          (manager_args m (accept_to_vlan (am_pipeline m) []) (accept_to_l2_forwarding (am_pipeline m) []) False)))"

definition port_acls_allowed :: "acl_manager \<Rightarrow> port \<Rightarrow> bool" where
  "port_acls_allowed m p \<longleftrightarrow> am_dp_acls m = [] \<and> \<not> p_output_only p \<and> am_port_acl_table m \<noteq> None"

definition acl_add_port :: "acl_lib \<Rightarrow> acl_manager \<Rightarrow> port \<Rightarrow> acl list \<Rightarrow> bool \<Rightarrow> err + ofmsg list" where
  "acl_add_port A m p acls_in dot1x =
     (if \<not> port_acls_allowed m p then Inr []
      else
        need_table (am_port_acl_table m) (\<lambda>t.
        let allow_inst = accept_to_vlan (am_pipeline m) []
        in case acls_in of
             acl # _ \<Rightarrow>
               build_acl_ofmsgs A acls_in t
                 ((manager_args m allow_inst (accept_to_l2_forwarding (am_pipeline m) []) (acl_exact_match acl))
                    \<lparr>aa_port_num := Some (p_number p)\<rparr>)
           | [] \<Rightarrow>
               if dot1x then Inr []
               else
                 bindE (tbl_flowmod (al_lib A) t (no_match\<lparr>ma_in_port := Some (p_number p)\<rparr>)
                          (flow_defaults\<lparr>fa_priority := Some (am_acl_priority m), fa_inst := allow_inst\<rparr>)) (\<lambda>fm. Inr [fm])))"

definition acl_del_port :: "acl_lib \<Rightarrow> acl_manager \<Rightarrow> port \<Rightarrow> err + ofmsg list" where
  "acl_del_port A m p =
     (if \<not> port_acls_allowed m p then Inr []
      else
        need_table (am_port_acl_table m) (\<lambda>t.
        bindE (tbl_flowdel (al_lib A) t (no_match\<lparr>ma_in_port := Some (p_number p)\<rparr>) None (OFPP_ANY (al_ofp A)) False)
          (\<lambda>fm. Inr [fm])))"

definition acl_cold_start_port :: "acl_lib \<Rightarrow> acl_manager \<Rightarrow> port \<Rightarrow> acl list \<Rightarrow> bool \<Rightarrow> err + ofmsg list" where
  "acl_cold_start_port A m p acls_in dot1x =
     bindE (acl_del_port A m p) (\<lambda>dels. bindE (acl_add_port A m p acls_in dot1x) (\<lambda>adds. Inr (dels @ adds)))"

definition acl_del_vlan :: "acl_lib \<Rightarrow> acl_manager \<Rightarrow> vlan \<Rightarrow> err + ofmsg list" where
  "acl_del_vlan A m v =
     bindE (mapE (\<lambda>t.
         case t of
           None \<Rightarrow> Inr []
         | Some t \<Rightarrow>
             bindE (tbl_flowdel (al_lib A) t (no_match\<lparr>ma_vlan := Some (v_vid v)\<rparr>) None (OFPP_ANY (al_ofp A)) False) (\<lambda>fm. Inr [fm]))
       [am_vlan_acl_table m, am_egress_acl_table m]) (\<lambda>mss. Inr (concat mss))"

definition acl_add_vlan :: "acl_lib \<Rightarrow> acl_manager \<Rightarrow> vlan \<Rightarrow> acl list \<Rightarrow> acl list \<Rightarrow> err + ofmsg list" where
  "acl_add_vlan A m v acls_in acls_out =
     bindE (case acls_in of
              [] \<Rightarrow> Inr []
            | acl # _ \<Rightarrow>
                need_table (am_vlan_acl_table m) (\<lambda>t.
                build_acl_ofmsgs A acls_in t
                  ((manager_args m (accept_to_classification (am_pipeline m) []) (accept_to_l2_forwarding (am_pipeline m) [])
                      (acl_exact_match acl))\<lparr>aa_vlan_vid := Some (v_vid v)\<rparr>))) (\<lambda>ingress.
     bindE (case am_egress_acl_table m of
              None \<Rightarrow> Inr []
            | Some t \<Rightarrow>
                bindE (accept_to_egress (am_pipeline m) []) (\<lambda>allow_inst.
                case acls_out of
                  acl # _ \<Rightarrow>
                    build_acl_ofmsgs A acls_out t
                      ((manager_args m allow_inst allow_inst (acl_exact_match acl))\<lparr>aa_vlan_vid := Some (v_vid v)\<rparr>)
                | [] \<Rightarrow>
                    bindE (tbl_flowmod (al_lib A) t (no_match\<lparr>ma_vlan := Some (v_vid v)\<rparr>)
                             (flow_defaults\<lparr>fa_priority := Some (am_acl_priority m), fa_inst := allow_inst\<rparr>)) (\<lambda>fm. Inr [fm]))) (\<lambda>egress.
     Inr (ingress @ egress)))"

section \<open>Authenticated hosts\<close>

definition add_authed_mac :: "acl_lib \<Rightarrow> acl_manager \<Rightarrow> int \<Rightarrow> string \<Rightarrow> err + ofmsg list" where
  "add_authed_mac A m port_num mac =
     need_table (am_port_acl_table m) (\<lambda>t.
     bindE (tbl_flowmod (al_lib A) t (no_match\<lparr>ma_in_port := Some port_num, ma_eth_src := Some mac\<rparr>)
              (flow_defaults\<lparr>fa_priority := Some (am_auth_priority m), fa_inst := accept_to_vlan (am_pipeline m) []\<rparr>)) (\<lambda>fm. Inr [fm]))"

definition del_authed_mac :: "acl_lib \<Rightarrow> acl_manager \<Rightarrow> int \<Rightarrow> string option \<Rightarrow> bool \<Rightarrow> err + ofmsg list" where
  "del_authed_mac A m port_num mac strict =
     need_table (am_port_acl_table m) (\<lambda>t.
     let src = (case mac of None \<Rightarrow> None | Some s \<Rightarrow> if s = [] then None else Some s)
     in bindE (tbl_flowdel (al_lib A) t (no_match\<lparr>ma_in_port := Some port_num, ma_eth_src := src\<rparr>)
                 (Some (am_auth_priority m)) (OFPP_ANY (al_ofp A)) strict) (\<lambda>fm. Inr [fm]))"

text \<open>Only flows have a match.\<close>

definition with_mac :: "acl_lib \<Rightarrow> string option \<Rightarrow> ofmsg \<Rightarrow> err + flow_mod" where
  "with_mac A mac msg =
     (case msg of
        FlowModMsg fm \<Rightarrow> bindE (add_mac_address_to_match A (fm_match fm) mac) (\<lambda>mt. Inr (fm\<lparr>fm_match := mt\<rparr>))
      | _ \<Rightarrow> Inl AttributeError)"

definition port_acl_flows :: "acl_lib \<Rightarrow> acl_manager \<Rightarrow> acl \<Rightarrow> int \<Rightarrow> string option \<Rightarrow> valve_table \<Rightarrow> err + flow_mod list" where
  "port_acl_flows A m acl port_num mac t =
     bindE (build_acl_port_of_msgs A acl None port_num t (pi_vlan_table (am_pipeline m)) (am_auth_priority m)) (\<lambda>ms.
     case ms of None \<Rightarrow> Inl TypeError | Some flowmods \<Rightarrow> mapE (with_mac A mac) flowmods)"

definition add_port_acl :: "acl_lib \<Rightarrow> acl_manager \<Rightarrow> acl \<Rightarrow> int \<Rightarrow> string option \<Rightarrow> err + ofmsg list" where
  "add_port_acl A m acl port_num mac =
     need_table (am_port_acl_table m) (\<lambda>t.
     bindE (port_acl_flows A m acl port_num mac t) (\<lambda>fms. Inr (map FlowModMsg fms)))"

definition convert_to_flow_del :: "acl_lib \<Rightarrow> valve_table \<Rightarrow> flow_mod list \<Rightarrow> err + ofmsg list" where
  "convert_to_flow_del A t ofp_flowmods = mapE (\<lambda>fm. acl_flowdel A t (fm_match fm) (Some (fm_priority fm)) False) ofp_flowmods"

definition del_port_acl :: "acl_lib \<Rightarrow> acl_manager \<Rightarrow> acl \<Rightarrow> int \<Rightarrow> string option \<Rightarrow> err + ofmsg list" where
  "del_port_acl A m acl port_num mac =
     need_table (am_port_acl_table m) (\<lambda>t.
     bindE (port_acl_flows A m acl port_num mac t) (\<lambda>fms. convert_to_flow_del A t fms))"

definition to_port_with :: "acl_lib \<Rightarrow> string \<Rightarrow> string \<Rightarrow> int \<Rightarrow> err + instruction list" where
  "to_port_with A field mac port =
     bindE (vt_set_field (lib_conv (al_lib A)) field (MText mac)) (\<lambda>a. Inr [apply_actions [a, output_port port]])"

definition eapol_match :: "int \<Rightarrow> string option \<Rightarrow> match_args" where
  "eapol_match port_num mac = no_match\<lparr>ma_in_port := Some port_num, ma_eth_type := Some ETH_EAPOL, ma_eth_src := mac\<rparr>"

definition create_dot1x_flow_pair :: "acl_lib \<Rightarrow> acl_manager \<Rightarrow> int \<Rightarrow> int \<Rightarrow> string \<Rightarrow> err + ofmsg list" where
  "create_dot1x_flow_pair A m port_num nfv_sw_port_num mac =
     need_table (am_port_acl_table m) (\<lambda>t.
     bindE (to_port_with A ''eth_dst'' mac nfv_sw_port_num) (\<lambda>inst1.
     bindE (tbl_flowmod (al_lib A) t (eapol_match port_num None)
              (flow_defaults\<lparr>fa_priority := Some (am_override_priority m), fa_inst := inst1\<rparr>)) (\<lambda>fm1.
     bindE (to_port_with A ''eth_src'' EAPOL_ETH_DST port_num) (\<lambda>inst2.
     bindE (tbl_flowmod (al_lib A) t (eapol_match nfv_sw_port_num (Some mac))
              (flow_defaults\<lparr>fa_priority := Some (am_override_priority m), fa_inst := inst2\<rparr>)) (\<lambda>fm2. Inr [fm1, fm2])))))"

definition del_dot1x_flow_pair :: "acl_lib \<Rightarrow> acl_manager \<Rightarrow> int \<Rightarrow> int \<Rightarrow> string \<Rightarrow> err + ofmsg list" where
  "del_dot1x_flow_pair A m port_num nfv_sw_port_num mac =
     need_table (am_port_acl_table m) (\<lambda>t.
     mapE (\<lambda>ma. tbl_flowdel (al_lib A) t ma (Some (am_override_priority m)) (OFPP_ANY (al_ofp A)) False)
       [eapol_match nfv_sw_port_num (Some mac), eapol_match port_num None])"

text \<open>MAC authentication bypass: DHCP requests go to the authenticator.\<close>

definition mab_match :: "ofp \<Rightarrow> int \<Rightarrow> match_args" where
  "mab_match K port_num =
     no_match\<lparr>ma_in_port := Some port_num, ma_eth_type := Some (ETH_TYPE_IP K), ma_nw_proto := Some (IPPROTO_UDP K),
       ma_udp_src := Some 68, ma_udp_dst := Some 67\<rparr>"

definition create_mab_flow :: "acl_lib \<Rightarrow> acl_manager \<Rightarrow> int \<Rightarrow> int \<Rightarrow> string \<Rightarrow> err + ofmsg" where
  "create_mab_flow A m port_num nfv_sw_port_num mac =
     need_table (am_port_acl_table m) (\<lambda>t.
     bindE (to_port_with A ''eth_dst'' mac nfv_sw_port_num) (\<lambda>inst.
     tbl_flowmod (al_lib A) t (mab_match (al_ofp A) port_num)
       (flow_defaults\<lparr>fa_priority := Some (am_low_priority m), fa_inst := inst\<rparr>)))"

definition del_mab_flow :: "acl_lib \<Rightarrow> acl_manager \<Rightarrow> int \<Rightarrow> err + ofmsg list" where
  "del_mab_flow A m port_num =
     need_table (am_port_acl_table m) (\<lambda>t.
     bindE (tbl_flowdel (al_lib A) t (mab_match (al_ofp A) port_num) (Some (am_low_priority m)) (OFPP_ANY (al_ofp A)) True)
       (\<lambda>fm. Inr [fm]))"

section \<open>Tunnels\<close>

definition tunnel_source_rule :: "tunnel_rules \<Rightarrow> int \<Rightarrow> tunnel_source \<Rightarrow> err + cval" where
  "tunnel_source_rule rules tunnel_id source_id =
     bindE (dict_getE rules tunnel_id) (\<lambda>by_source. dict_getE by_source source_id)"

definition build_tunnel_rules_ofmsgs :: "acl_lib \<Rightarrow> acl_manager \<Rightarrow> tunnel_source \<Rightarrow> int \<Rightarrow> acl \<Rightarrow> err + ofmsg list" where
  "build_tunnel_rules_ofmsgs A m source_id tunnel_id acl =
     bindE (dict_getE (acl_tunnel_dests acl) tunnel_id) (\<lambda>dest.
     bindE (tunnel_source_rule (acl_dyn_tunnel_rules acl) tunnel_id source_id) (\<lambda>rule.
     need_table (am_port_acl_table m) (\<lambda>t.
     build_tunnel_ofmsgs A rule t (am_override_priority m) None (Some tunnel_id) True (td_reverse dest))))"

definition build_reverse_tunnel_rules_ofmsgs :: "acl_lib \<Rightarrow> acl_manager \<Rightarrow> tunnel_source \<Rightarrow> int \<Rightarrow> acl \<Rightarrow> err + ofmsg list" where
  "build_reverse_tunnel_rules_ofmsgs A m source_id tunnel_id acl =
     bindE (requires_reverse_tunnel tunnel_id acl) (\<lambda>required.
     if \<not> required then Inr []
     else
       bindE (tunnel_source_rule (acl_dyn_reverse_tunnel_rules acl) tunnel_id source_id) (\<lambda>rule.
       need_table (am_port_acl_table m) (\<lambda>t.
       build_tunnel_ofmsgs A rule t (am_override_priority m) None (Some tunnel_id) True True)))"

definition rule_index :: "(string, cval) dict list \<Rightarrow> (string, cval) dict \<Rightarrow> nat" where
  "rule_index rules rule_conf = length (takeWhile (\<lambda>r. \<not> py_eq (CDict rule_conf) (CDict r)) rules)"

definition build_tunnel_acl_rule_ofmsgs :: "acl_lib \<Rightarrow> acl_manager \<Rightarrow> tunnel_source \<Rightarrow> int \<Rightarrow> acl \<Rightarrow> err + ofmsg list" where
  "build_tunnel_acl_rule_ofmsgs A m source_id tunnel_id acl =
     (let args = (\<lambda>exact_match.
            (manager_args m (accept_to_vlan (am_pipeline m) []) (accept_to_l2_forwarding (am_pipeline m) []) exact_match)
              \<lparr>aa_tunnel_rules := Some (acl_dyn_tunnel_rules acl), aa_source := Some source_id, aa_flowdel := True\<rparr>)
      in if \<exists>a \<in> set (am_dp_acls m). acl_hash a = acl_hash acl
         then need_table (am_port_acl_table m) (\<lambda>t. build_acl_ofmsgs A (am_dp_acls m) t (args False))
         else
           bindE (mapE (\<lambda>rule_conf.
               bindE (find_source acl source_id) (\<lambda>source.
               need_table (am_port_acl_table m) (\<lambda>t.
               build_rule_ofmsgs A t ((args (acl_exact_match acl))\<lparr>aa_port_num := ts_port source\<rparr>) rule_conf
                 (am_acl_priority m - int (rule_index (acl_rules acl) rule_conf)))))
             (get_tunnel_rules tunnel_id acl)) (\<lambda>mss. Inr (concat mss)))"

section \<open>Meters\<close>

definition meterdel :: "int \<Rightarrow> ofmsg" where
  "meterdel meter_id = MeterModMsg \<lparr>mm_command = OFPMC_DELETE, mm_flags = 0, mm_meter_id = meter_id, mm_rates = []\<rparr>"

definition add_meters :: "acl_lib \<Rightarrow> acl_manager \<Rightarrow> string list \<Rightarrow> err + ofmsg list" where
  "add_meters A m added_meters =
     mapE (\<lambda>added_meter.
       case dict_get (am_meters m) added_meter of None \<Rightarrow> Inl AttributeError | Some me \<Rightarrow> al_mod_meter A (mt_entry me)) added_meters"

definition del_meters :: "acl_manager \<Rightarrow> string list \<Rightarrow> err + ofmsg list" where
  "del_meters m deleted_meters =
     mapE (\<lambda>meter_key. bindE (dict_getE (am_meters m) meter_key) (\<lambda>me. Inr (meterdel (mt_meter_id me)))) deleted_meters"

section \<open>The first rule that matches\<close>

text \<open>The entry a flow table keeps for a rule: the match and the trimmed instructions of its composition.\<close>

definition rule_entry :: "acl_lib \<Rightarrow> valve_table \<Rightarrow> acl_args \<Rightarrow> addrconv \<Rightarrow> (string, cval) dict \<Rightarrow> fte \<Rightarrow> bool" where
  "rule_entry A t a conv rule e \<longleftrightarrow>
     (\<exists>mt inst cookie ofmsgs.
        build_acl_entry A rule (aa_meters a) (aa_allow_inst a) (aa_force_inst a) (aa_port_num a) (aa_vlan_vid a)
          (aa_tunnel_rules a) (aa_source a) = Inr (mt, inst, cookie, ofmsgs) \<and>
        match_bits conv mt = Inr (fte_match e) \<and>
        (if inst = [] then Inr [] else trim_inst (al_ofp A) (lib_recirc (al_lib A)) t inst) = Inr (fte_instructions e))"

lemma acl_flowmod_msg:
  assumes "acl_flowmod A t mt priority inst cookie = Inr m"
  shows "\<exists>fm. m = FlowModMsg fm \<and> fm_table_id fm = vt_table_id t \<and> fm_priority fm = priority \<and> fm_match fm = mt \<and>
    fm_command fm = OFPFC_ADD \<and>
    (if inst = [] then Inr [] else trim_inst (al_ofp A) (lib_recirc (al_lib A)) t inst) = Inr (fm_instructions fm)"
  using assms by (auto simp: acl_flowmod_def vt_flowmod_def flow_defaults_def flowmod_def Let_def bindE_Inr split: if_splits)

lemma groups_keep_tables:
  assumes "groups_only ms" and "apply_ofmsgs K conv False ms s = (None, s')"
  shows "sw_tables s' = sw_tables s"
proof (rule apply_ofmsgs_invariant [where P = "\<lambda>u. sw_tables u = sw_tables s", OF _ refl assms(2)])
  fix m u u' assume "m \<in> set ms" "sw_tables u = sw_tables s" "apply_ofmsg K conv m u = (None, u')"
  then show "sw_tables u' = sw_tables s"
    using apply_other_tables [of m K conv u] assms(1) by (simp add: groups_only_def)
qed

lemma apply_ofmsgs_keeps:
  "apply_ofmsgs K conv False ms s = (None, s') \<Longrightarrow> switch_ok s \<Longrightarrow> switch_ok s'"
  "apply_ofmsgs K conv False ms s = (None, s') \<Longrightarrow> switch_sorted s \<Longrightarrow> switch_sorted s'"
  by (rule apply_ofmsgs_invariant [where P = switch_ok], metis apply_ofmsg_ok snd_conv, assumption+)
    (rule apply_ofmsgs_invariant [where P = switch_sorted], metis apply_ofmsg_sorted fst_conv snd_conv, assumption+)

lemma build_rule_entry:
  assumes "build_rule_ofmsgs A t a rule priority = Inr ms" and "\<not> aa_exact_match a" and "\<not> aa_flowdel a"
    and "0 \<le> vt_table_id t" and "vt_table_id t \<noteq> OFPTT_ALL (al_ofp A)" and "switch_ok s"
    and "apply_ofmsgs (al_ofp A) conv False ms s = (None, s')"
  shows "\<exists>e. rule_entry A t a conv rule e \<and> fte_priority e = priority \<and>
    table_entry (sw_tables s' ! nat (vt_table_id t)) = (table_entry (sw_tables s ! nat (vt_table_id t)))(fte_key e \<mapsto> e)"
proof -
  from assms(1-3) obtain mt inst cookie ofmsgs m where
      entry: "build_acl_entry A rule (aa_meters a) (aa_allow_inst a) (aa_force_inst a) (aa_port_num a) (aa_vlan_vid a)
        (aa_tunnel_rules a) (aa_source a) = Inr (mt, inst, cookie, ofmsgs)"
      and m: "acl_flowmod A t mt priority inst cookie = Inr m" and ms: "ms = ofmsgs @ [m]"
    by (auto simp: build_rule_ofmsgs_def bindE_Inr)
  from acl_flowmod_msg [OF m] obtain fm where fm: "m = FlowModMsg fm" "fm_table_id fm = vt_table_id t"
      "fm_priority fm = priority" "fm_match fm = mt" "fm_command fm = OFPFC_ADD"
      "(if inst = [] then Inr [] else trim_inst (al_ofp A) (lib_recirc (al_lib A)) t inst) = Inr (fm_instructions fm)"
    by blast
  from assms(7) obtain u where u: "apply_ofmsgs (al_ofp A) conv False ofmsgs s = (None, u)"
      and s': "apply_ofmsg (al_ofp A) conv (FlowModMsg fm) u = (None, s')"
    unfolding ms fm(1) apply_ofmsgs_append apply_ofmsgs_Cons by auto
  have tables: "sw_tables u = sw_tables s" by (rule groups_keep_tables [OF build_acl_entry_groups [OF entry] u])
  then have "switch_ok u" using assms(6) by (simp add: switch_ok_def)
  from apply_flowmod_entries [OF this s'] obtain e "is" where e: "fte_of_flowmod (al_ofp A) conv fm = Inr e"
      and i: "addressed_tables (al_ofp A) (fm_table_id fm) u = Inr is"
      and entries: "\<And>i. i < length (sw_tables u) \<Longrightarrow> table_entry (sw_tables s' ! i) =
        (if i \<in> set is then abs_handler (al_ofp A) (fm_command fm) e (table_entry (sw_tables u ! i)) else table_entry (sw_tables u ! i))"
    by metis
  from i assms(4,5) have "is = [nat (vt_table_id t)]" and lt: "nat (vt_table_id t) < length (sw_tables u)"
    by (auto simp: addressed_tables_def fm(2) Let_def split: if_splits)
  with entries [OF lt] tables have "table_entry (sw_tables s' ! nat (vt_table_id t)) =
      (table_entry (sw_tables s ! nat (vt_table_id t)))(fte_key e \<mapsto> e)"
    by (simp add: fm(5))
  moreover have "fte_priority e = priority" "match_bits conv mt = Inr (fte_match e)" "fte_instructions e = fm_instructions fm"
    using e by (auto simp: fte_of_flowmod_def bindE_Inr fm(3,4))
  ultimately show ?thesis using entry fm(6) unfolding rule_entry_def by metis
qed

lemma build_rules_entries:
  assumes "build_rules A t a rules priority = Inr ms" and "\<not> aa_exact_match a" and "\<not> aa_flowdel a"
    and "0 \<le> vt_table_id t" and "vt_table_id t \<noteq> OFPTT_ALL (al_ofp A)" and "switch_ok s"
    and "apply_ofmsgs (al_ofp A) conv False ms s = (None, s')"
  shows "\<exists>es. list_all2 (rule_entry A t a conv) rules es \<and> sorted_wrt (\<lambda>e f. fte_priority f < fte_priority e) es \<and>
    (\<forall>e \<in> set es. fte_priority e \<le> priority) \<and>
    (\<forall>k. table_entry (sw_tables s' ! nat (vt_table_id t)) k =
      (case find (\<lambda>e. fte_key e = k) es of Some e \<Rightarrow> Some e | None \<Rightarrow> table_entry (sw_tables s ! nat (vt_table_id t)) k))"
  using assms(1,6,7)
proof (induction rules arbitrary: priority ms s)
  case Nil
  then show ?case by simp
next
  case (Cons rule rules)
  let ?i = "nat (vt_table_id t)"
  from Cons.prems(1) obtain xs ys where xs: "build_rule_ofmsgs A t a rule priority = Inr xs"
      and ys: "build_rules A t a rules (priority - 1) = Inr ys" and ms: "ms = xs @ ys" by (auto simp: bindE_Inr)
  from Cons.prems(3) obtain u where u: "apply_ofmsgs (al_ofp A) conv False xs s = (None, u)"
      "apply_ofmsgs (al_ofp A) conv False ys u = (None, s')" by (auto simp: ms apply_ofmsgs_append)
  from build_rule_entry [OF xs assms(2-5) Cons.prems(2) u(1)] obtain e where e: "rule_entry A t a conv rule e"
      "fte_priority e = priority" "table_entry (sw_tables u ! ?i) = (table_entry (sw_tables s ! ?i))(fte_key e \<mapsto> e)" by blast
  have "switch_ok u" by (rule apply_ofmsgs_keeps(1) [OF u(1) Cons.prems(2)])
  from Cons.IH [OF ys this u(2)] obtain es where es: "list_all2 (rule_entry A t a conv) rules es"
      "sorted_wrt (\<lambda>e f. fte_priority f < fte_priority e) es" "\<forall>e \<in> set es. fte_priority e \<le> priority - 1"
      and k: "\<And>k. table_entry (sw_tables s' ! ?i) k =
        (case find (\<lambda>e. fte_key e = k) es of Some e \<Rightarrow> Some e | None \<Rightarrow> table_entry (sw_tables u ! ?i) k)" by blast
  have "find (\<lambda>f. fte_key f = fte_key e) es = None"
    unfolding find_None_iff using es(3) e(2) by (fastforce simp: fte_key_def)
  with k e(3) have "table_entry (sw_tables s' ! ?i) k' =
      (case find (\<lambda>e. fte_key e = k') (e # es) of Some e \<Rightarrow> Some e | None \<Rightarrow> table_entry (sw_tables s ! ?i) k')" for k'
    by (auto split: option.splits)
  moreover have "\<forall>f \<in> set es. fte_priority f < fte_priority e" using es(3) e(2) by fastforce
  ultimately show ?case using e(1,2) es by (intro exI [of _ "e # es"]) fastforce
qed

text \<open>The first match in a list of descending priorities is the match of the highest priority.\<close>

lemma find_highest:
  assumes "sorted_wrt (\<lambda>e f. fte_priority f < fte_priority e) es" and "e \<in> set es" and "P e"
    and "\<forall>x \<in> set es. P x \<longrightarrow> fte_priority x \<le> fte_priority e"
  shows "find P es = Some e"
  using assms by (induction es) (auto simp: not_less)

text \<open>C4. After the flows of a list of ACLs are installed in a table of any well-formed switch (without
  exact match, none of the entries from before matching the packet), the look up of the packet gives
  the entry composed from the first rule, in the order of the configuration, whose match it
  satisfies, and nothing if no rule does.\<close>

lemma acl_first_match:
  assumes "build_acl_ofmsgs A acls t a = Inr ms" and "\<not> aa_exact_match a" and "\<not> aa_flowdel a"
    and "0 \<le> vt_table_id t" and "vt_table_id t \<noteq> OFPTT_ALL (al_ofp A)"
    and "switch_ok s" and "switch_sorted s" and "apply_ofmsgs (al_ofp A) conv False ms s = (None, s')"
    and "\<forall>e \<in> set (sw_tables s ! nat (vt_table_id t)). pkt_matches conv e pkt \<noteq> Inr True"
    and "single_table_lookup conv s' pkt (nat (vt_table_id t)) = Inr r"
  shows "\<exists>es. list_all2 (rule_entry A t a conv) (concat (map acl_rules acls)) es \<and>
    r = find (\<lambda>e. pkt_matches conv e pkt = Inr True) es"
proof -
  let ?i = "nat (vt_table_id t)" and ?P = "\<lambda>e. pkt_matches conv e pkt = Inr True"
  from build_rules_entries [OF assms(1) [unfolded build_acl_ofmsgs_def] assms(2-6,8)] obtain es where
      es: "list_all2 (rule_entry A t a conv) (concat (map acl_rules acls)) es"
      and sorted: "sorted_wrt (\<lambda>e f. fte_priority f < fte_priority e) es"
      and k: "\<And>k. table_entry (sw_tables s' ! ?i) k =
        (case find (\<lambda>e. fte_key e = k) es of Some e \<Rightarrow> Some e | None \<Rightarrow> table_entry (sw_tables s ! ?i) k)" by blast
  have ok': "switch_ok s'" by (rule apply_ofmsgs_keeps(1) [OF assms(8,6)])
  have sorted': "switch_sorted s'" by (rule apply_ofmsgs_keeps(2) [OF assms(8,7)])
  from assms(10) have lt: "?i < length (sw_tables s')" by (simp add: single_table_lookup_def split: if_splits)
  with apply_ofmsgs_length [OF assms(8)] ok' assms(6) have tok: "table_ok (sw_tables s' ! ?i)" "table_ok (sw_tables s ! ?i)"
    by (simp_all add: switch_ok_def)
  have in_es: "e \<in> set (sw_tables s' ! ?i)" if "e \<in> set es" for e
  proof -
    have "distinct (map fte_key es)" using sorted by (induction es) (auto simp: fte_key_def)
    then have "find (\<lambda>x. fte_key x = fte_key e) es = Some e"
      using that table_entry_Some [of es "fte_key e" e] by (simp add: table_ok_def table_entry_def)
    with k have "table_entry (sw_tables s' ! ?i) (fte_key e) = Some e" by simp
    then show ?thesis by (simp add: table_entry_Some [OF tok(1)])
  qed
  have from_es: "e \<in> set es" if "e \<in> set (sw_tables s' ! ?i)" "?P e" for e
  proof -
    from that(1) have here: "table_entry (sw_tables s' ! ?i) (fte_key e) = Some e" by (simp add: table_entry_Some [OF tok(1)])
    show ?thesis
    proof (cases "find (\<lambda>x. fte_key x = fte_key e) es")
      case None
      with here k have "table_entry (sw_tables s ! ?i) (fte_key e) = Some e" by simp
      then have "e \<in> set (sw_tables s ! ?i)" by (simp add: table_entry_Some [OF tok(2)])
      with that(2) assms(9) show ?thesis by simp
    next
      case (Some f)
      with here k have "f = e" by simp
      with Some show ?thesis using find_Some_iff [of _ es e] by (metis nth_mem)
    qed
  qed
  have "r = find ?P es"
  proof (cases r)
    case None
    then have miss: "table_lookup conv pkt (sw_tables s' ! ?i) = Inr None"
      using assms(10) lt by (simp add: single_table_lookup_def)
    have "pkt_matches conv e pkt = Inr False" if "e \<in> set es" for e by (rule table_lookup_miss [OF miss in_es [OF that]])
    then have "find ?P es = None" unfolding find_None_iff by fastforce
    with None show ?thesis by simp
  next
    case (Some e)
    from lookup_highest [OF sorted' lt assms(10) [unfolded Some]] have e: "e \<in> set (sw_tables s' ! ?i)" "?P e"
      and top: "\<forall>x \<in> set (sw_tables s' ! ?i). ?P x \<longrightarrow> fte_priority x \<le> fte_priority e" by auto
    have "find ?P es = Some e" by (rule find_highest [where P = ?P, OF sorted from_es [OF e] e(2)]) (use top in_es in blast)
    with Some show ?thesis by simp
  qed
  with es show ?thesis by blast
qed

section \<open>Deleting the ACL of a port\<close>

lemma acl_flowdel_msg:
  assumes "acl_flowdel A t mt priority strict = Inr m"
  shows "\<exists>fm. m = FlowModMsg fm \<and> fm_table_id fm = vt_table_id t \<and> fm_match fm = mt \<and>
    fm_command fm = (if strict then OFPFC_DELETE_STRICT else OFPFC_DELETE) \<and> fm_out_port fm = OFPP_ANY (al_ofp A)"
  using assms by (auto simp: acl_flowdel_def vt_flowdel_def vt_flowmod_def flow_defaults_def flowmod_def Let_def bindE_Inr)

text \<open>A delete with the match of an entry takes it out.\<close>

lemma delete_own_match:
  assumes "fte_of_flowmod K conv d = Inr f" and "fte_of_flowmod K conv fm = Inr e" and "fm_match d = fm_match fm"
    and "fm_out_port d = OFPP_ANY K" and "fte_key x = fte_key e"
  shows "fte_matches K f x False"
proof -
  from assms(1-3) have same: "fte_match f = fte_match e" by (auto simp: fte_of_flowmod_def bindE_Inr)
  have ok: "dict_ok (fte_match f)" and masked: "\<forall>(key, val, m) \<in> set (fte_match f). and val m = val"
    using fte_masked [OF assms(1)] by auto
  have "out_port_matches K f x" using assms(1,4) by (auto simp: out_port_matches_def fte_of_flowmod_def bindE_Inr)
  moreover have "case dict_get (fte_match x) key of None \<Rightarrow> False | Some (oval, _) \<Rightarrow> and oval m = val"
    if "(key, val, m) \<in> set (fte_match f)" for key val m
  proof -
    from that ok have "dict_get (fte_match f) key = Some (val, m)" by (simp add: dict_ok_in)
    moreover have "dict_get (fte_match x) = dict_get (fte_match f)" using assms(5) same by (simp add: fte_key_def)
    ultimately show ?thesis using masked that by auto
  qed
  ultimately show ?thesis by (auto simp: fte_matches_def)
qed

text \<open>A delete of a table takes the entries it matches out of that table.\<close>

definition deletes_from :: "ofp \<Rightarrow> int \<Rightarrow> flow_mod \<Rightarrow> bool" where
  "deletes_from K tid d \<longleftrightarrow> fm_table_id d = tid \<and> fm_command d = OFPFC_DELETE \<and> fm_out_port d = OFPP_ANY K"

lemma delete_step:
  assumes "0 \<le> tid" and "tid \<noteq> OFPTT_ALL K" and "switch_ok u" and "apply_ofmsg K conv (FlowModMsg d) u = (None, u')"
    and "deletes_from K tid d"
  shows "\<exists>f. fte_of_flowmod K conv d = Inr f \<and> nat tid < length (sw_tables u) \<and> switch_ok u' \<and>
    table_entry (sw_tables u' ! nat tid) = abs_handler K OFPFC_DELETE f (table_entry (sw_tables u ! nat tid))"
proof -
  from apply_flowmod_entries [OF assms(3,4)] obtain f "is" where f: "fte_of_flowmod K conv d = Inr f"
      and i: "addressed_tables K (fm_table_id d) u = Inr is"
      and entries: "\<And>i. i < length (sw_tables u) \<Longrightarrow> table_entry (sw_tables u' ! i) =
        (if i \<in> set is then abs_handler K (fm_command d) f (table_entry (sw_tables u ! i)) else table_entry (sw_tables u ! i))"
    by metis
  have d: "fm_table_id d = tid" "fm_command d = OFPFC_DELETE" using assms(5) by (simp_all add: deletes_from_def)
  from i assms(1,2) have "is = [nat tid]" and "nat tid < length (sw_tables u)"
    by (auto simp: addressed_tables_def d(1) Let_def split: if_splits)
  moreover have "switch_ok u'" using apply_ofmsg_ok [OF assms(3)] assms(4) by (metis snd_conv)
  ultimately show ?thesis using f entries d(2) by auto
qed

text \<open>The delete with the match of an entry takes it out of the table, and deletes that follow do not bring it back.\<close>

lemma own_delete_gone:
  assumes "0 \<le> tid" and "tid \<noteq> OFPTT_ALL K" and "switch_ok u" and "apply_ofmsg K conv (FlowModMsg d) u = (None, u')"
    and "deletes_from K tid d" and "fm_match d = fm_match fm" and "fte_of_flowmod K conv fm = Inr e"
  shows "switch_ok u' \<and> table_entry (sw_tables u' ! nat tid) (fte_key e) = None"
proof -
  from delete_step [OF assms(1-5)] obtain f where f: "fte_of_flowmod K conv d = Inr f" "nat tid < length (sw_tables u)" "switch_ok u'"
    "table_entry (sw_tables u' ! nat tid) = abs_handler K OFPFC_DELETE f (table_entry (sw_tables u ! nat tid))" by blast
  show ?thesis
  proof (cases "table_entry (sw_tables u ! nat tid) (fte_key e)")
    case None
    with f show ?thesis by simp
  next
    case (Some x)
    have "table_ok (sw_tables u ! nat tid)" using assms(3) f(2) by (simp add: switch_ok_def)
    from Some table_entry_Some [OF this] have "fte_key x = fte_key e" by blast
    moreover have "fm_out_port d = OFPP_ANY K" using assms(5) by (simp add: deletes_from_def)
    ultimately show ?thesis using delete_own_match [OF f(1) assms(7,6)] Some f(3,4) by simp
  qed
qed

lemma deletes_keep_gone:
  assumes "0 \<le> tid" and "tid \<noteq> OFPTT_ALL K" and "apply_ofmsgs K conv False ms u = (None, u')"
    and "\<And>m. m \<in> set ms \<Longrightarrow> \<exists>d. m = FlowModMsg d \<and> deletes_from K tid d"
    and "switch_ok u \<and> table_entry (sw_tables u ! nat tid) key = None"
  shows "switch_ok u' \<and> table_entry (sw_tables u' ! nat tid) key = None"
proof (rule apply_ofmsgs_invariant [where P = "\<lambda>u. switch_ok u \<and> table_entry (sw_tables u ! nat tid) key = None", OF _ assms(5,3)])
  fix m v v' assume m: "m \<in> set ms" and v: "switch_ok v \<and> table_entry (sw_tables v ! nat tid) key = None"
    and run: "apply_ofmsg K conv m v = (None, v')"
  from assms(4) [OF m] obtain d where d: "m = FlowModMsg d" "deletes_from K tid d" by blast
  from v have ok: "switch_ok v" by blast
  from delete_step [OF assms(1,2) ok run [unfolded d(1)] d(2)] v
  show "switch_ok v' \<and> table_entry (sw_tables v' ! nat tid) key = None" by auto
qed

text \<open>C8. After the messages that delete the ACL of a port have run on a well-formed switch, none of the
  flows that adding it composes has an entry in the port ACL table.\<close>

lemma del_port_acl_removes:
  assumes "add_port_acl A m acl port_num mac = Inr adds" and "del_port_acl A m acl port_num mac = Inr dels"
    and "am_port_acl_table m = Some t" and "0 \<le> vt_table_id t" and "vt_table_id t \<noteq> OFPTT_ALL (al_ofp A)"
    and "switch_ok s" and "apply_ofmsgs (al_ofp A) conv False dels s = (None, s')"
    and "FlowModMsg fm \<in> set adds" and "fte_of_flowmod (al_ofp A) conv fm = Inr e"
  shows "table_entry (sw_tables s' ! nat (vt_table_id t)) (fte_key e) = None"
proof -
  let ?K = "al_ofp A"
  from assms(1-3) obtain fms where fms: "port_acl_flows A m acl port_num mac t = Inr fms" and adds: "adds = map FlowModMsg fms"
      and dels: "convert_to_flow_del A t fms = Inr dels"
    by (auto simp: add_port_acl_def del_port_acl_def need_table_def bindE_Inr)
  have del: "j < length fms \<and> (\<exists>d. dels ! j = FlowModMsg d \<and> deletes_from ?K (vt_table_id t) d \<and> fm_match d = fm_match (fms ! j))"
    if "j < length dels" for j
  proof -
    from that dels have "acl_flowdel A t (fm_match (fms ! j)) (Some (fm_priority (fms ! j))) False = Inr (dels ! j)" "j < length fms"
      by (auto simp: convert_to_flow_del_def mapE_Inr_list_all2 list_all2_conv_all_nth)
    from acl_flowdel_msg [OF this(1)] this(2) show ?thesis by (auto simp: deletes_from_def)
  qed
  have len: "length dels = length fms" using dels by (auto simp: convert_to_flow_del_def dest: mapE_Inr_length)
  from assms(8) adds obtain j where j: "j < length fms" "fms ! j = fm" by (auto simp: in_set_conv_nth)
  with del len obtain d where d: "dels ! j = FlowModMsg d" "deletes_from ?K (vt_table_id t) d" "fm_match d = fm_match fm" by metis
  have split: "dels = take j dels @ FlowModMsg d # drop (Suc j) dels" using j(1) len d(1) by (metis id_take_nth_drop)
  obtain u u' where u: "apply_ofmsgs ?K conv False (take j dels) s = (None, u)"
      and u': "apply_ofmsg ?K conv (FlowModMsg d) u = (None, u')"
      and rest: "apply_ofmsgs ?K conv False (drop (Suc j) dels) u' = (None, s')"
    using assms(7) unfolding split [THEN arg_cong [where f = "\<lambda>ms. apply_ofmsgs ?K conv False ms s"]]
      apply_ofmsgs_append apply_ofmsgs_Cons by blast
  have oku: "switch_ok u" by (rule apply_ofmsgs_keeps(1) [OF u assms(6)])
  have "\<exists>d. x = FlowModMsg d \<and> deletes_from ?K (vt_table_id t) d" if "x \<in> set (drop (Suc j) dels)" for x
    using in_set_dropD [OF that] del by (metis in_set_conv_nth)
  from deletes_keep_gone [OF assms(4,5) rest this own_delete_gone [OF assms(4,5) oku u' d(2,3) assms(9)]]
  show ?thesis by blast
qed

section \<open>What fails\<close>

text \<open>An ACL given to a port by 802.1X cannot use a meter: its truth value is passed for the table of meters.\<close>

lemma port_acl_meter_raises:
  assumes "acl_rules acl = rule # rules" and "rule = (''actions'', CDict d) # others" and "dict_get d ''meter'' = Some name"
  shows "build_acl_port_of_msgs A acl vid port_num acl_table goto_tbl priority = Inl TypeError"
  using assms by (simp add: build_acl_port_of_msgs_def build_acl_ofmsgs_def build_rule_ofmsgs_def build_acl_entry_def
    apply_rule_field_def apply_rule_actions_def rule_meter_def meter_id_of_def Let_def)

text \<open>The old format of outputs loses the messages of a tunnel, the ordered format keeps them.\<close>

lemma tunnel_messages_dropped:
  "build_dict_output_actions A tunnel d = Inr b \<Longrightarrow> dict_get d ''failover'' = None \<Longrightarrow> bo_ofmsgs b = []"
  by (auto simp: build_dict_output_actions_def bindE_Inr)

lemma tunnel_messages_kept:
  "tunnel v = Inr t \<Longrightarrow> build_ordered_output_actions A tunnel [CDict [(''tunnel'', v)]] = Inr b \<Longrightarrow> bo_ofmsgs b = bo_ofmsgs t"
  by (auto simp: build_ordered_output_actions_def ordered_output_def append_built_def nothing_built_def)

text \<open>Ordered outputs always leave the pipeline: connection tracking after them is not reached.\<close>

lemma ordered_output_exits:
  assumes "dict_get d ''output'' = Some (CList outs)" and "rule_output A rules source d False e = Inr (e', ex)"
  shows "ex"
proof -
  from assms obtain b where b: "build_ordered_output_actions A (tunnel_of_source A rules source) outs = Inr b"
      and ex: "ex = (bo_output_port b \<noteq> None)"
    by (auto simp: rule_output_def build_output_actions_def build_outputs_def bindE_Inr)
  define there where "there = (\<lambda>b :: built. \<exists>ps. bo_output_port b = Some (CList ps))"
  have "there b"
  proof (rule foldE_invariant [where P = there, OF b [unfolded build_ordered_output_actions_def]])
    show "there (nothing_built\<lparr>bo_output_port := Some (CList [])\<rparr>)" by (simp add: there_def)
  next
    fix action x y assume x: "there x" and "bindE (as_dict action) (\<lambda>d. foldE (\<lambda>kv b.
      bindE (ordered_output A (tunnel_of_source A rules source) kv) (\<lambda>c. Inr (append_built b c))) d x) = Inr y"
    then obtain kvs where kvs: "foldE (\<lambda>kv b. bindE (ordered_output A (tunnel_of_source A rules source) kv)
      (\<lambda>c. Inr (append_built b c))) kvs x = Inr y" by (auto simp: bindE_Inr)
    show "there y"
    proof (rule foldE_invariant [where P = there, OF kvs x])
      fix kv u v assume "there u" and "bindE (ordered_output A (tunnel_of_source A rules source) kv) (\<lambda>c. Inr (append_built u c)) = Inr v"
      then obtain c where "v = append_built u c" by (auto simp: bindE_Inr)
      with \<open>there u\<close> show "there v"
        by (auto simp: there_def append_built_def split: option.splits cval.splits)
    qed
  qed
  then show ?thesis by (auto simp: ex there_def)
qed

subsection \<open>Witnesses\<close>

text \<open>An ACL that lets IPv4 through and drops anything else.\<close>

definition example_rule :: "int option \<Rightarrow> int \<Rightarrow> cval" where
  "example_rule eth_type allow =
     CDict ((case eth_type of None \<Rightarrow> [] | Some n \<Rightarrow> [(''eth_type'', CInt n)]) @ [(''actions'', CDict [(''allow'', CInt allow)])])"

definition example_acl :: acl where
  "example_acl =
     \<lparr>acl_id = ''acl'', acl_hash = 0,
      acl_rules = [[(''eth_type'', CInt 2048), (''actions'', CDict [(''allow'', CInt 1)])], [(''actions'', CDict [(''allow'', CInt 0)])]],
      acl_exact_match = False, acl_dot1x_assigned = False, acl_meter = False, acl_matches = [], acl_set_fields = [],
      acl_ports_resolved = False, acl_tunnel_dests = [], acl_tunnel_sources = [], acl_dyn_tunnel_rules = [],
      acl_dyn_reverse_tunnel_rules = []\<rparr>"

lemma example_new_acl:
  "new_acl (\<lambda>_. 0) ''acl'' (CList [CDict [(''rule'', example_rule (Some 2048) 1)], CDict [(''rule'', example_rule None 0)]]) = Inr example_acl"
  by code_simp

definition example_acl_lib :: acl_lib where
  "example_acl_lib = \<lparr>al_lib = example_lib, al_conv = (\<lambda>_ v. raw_mval v), al_mod_meter = (\<lambda>_. Inl TypeError)\<rparr>"

definition example_acl_table :: "int \<Rightarrow> valve_table" where
  "example_acl_table n = mk_valve_table ''port_acl''
     ((ValveTableConfig ''port_acl'' n)\<lparr>tc_match_types := Some [(''in_port'', False), (''eth_type'', False), (''eth_src'', False)],
        tc_set_fields := Some []\<rparr>) 0 False []"

definition example_acl_manager :: acl_manager where
  "example_acl_manager = new_acl_manager (Some (example_acl_table 0)) None None
     \<lparr>pi_vlan_table = example_acl_table 1, pi_classification_table = example_acl_table 1, pi_output_table = example_acl_table 2,
      pi_egress_table = None, pi_egress_acl_table = None, pi_dp_high_priority = 0, pi_drop_broadcast_source_address = False\<rparr> [] []"

definition example_acl_args :: acl_args where
  "example_acl_args = (manager_args example_acl_manager (accept_to_vlan (am_pipeline example_acl_manager) [])
     (accept_to_l2_forwarding (am_pipeline example_acl_manager) []) False)\<lparr>aa_port_num := Some 1\<rparr>"

definition example_acl_flow :: "int \<Rightarrow> (string \<times> mval) list \<Rightarrow> instruction list \<Rightarrow> flow_mod" where
  "example_acl_flow priority mt inst = flowmod 0 OFPFC_ADD 0 priority 0 0 mt inst 0 0 0"

definition example_acl_entry :: "int \<Rightarrow> (string \<times> int) list \<Rightarrow> instruction list \<Rightarrow> fte" where
  "example_acl_entry priority mt insts = (example_entry priority mt insts)\<lparr>fte_cookie := 0\<rparr>"

definition example_acl_switch :: switch where
  "example_acl_switch = (new_switch 1 False)\<lparr>sw_tables :=
     [[example_acl_entry 20480 [(''eth_type'', 2048), (''in_port'', 1)] [IGotoTable 1], example_acl_entry 20479 [(''in_port'', 1)] []]]\<rparr>"

lemma acl_first_match_witness:
  "\<exists>es. list_all2 (rule_entry example_acl_lib (example_acl_table 0) example_acl_args no_text) (acl_rules example_acl) es \<and>
     find (\<lambda>e. pkt_matches no_text e [(''in_port'', MInt 1), (''eth_type'', MInt 2054)] = Inr True) es =
       Some (example_acl_entry 20479 [(''in_port'', 1)] [])"
proof -
  let ?pkt = "[(''in_port'', MInt 1), (''eth_type'', MInt 2054)]"
  let ?ms = "[FlowModMsg (example_acl_flow 20480 [(''eth_type'', MInt 2048), (''in_port'', MInt 1)] [IGotoTable 1]),
    FlowModMsg (example_acl_flow 20479 [(''in_port'', MInt 1)] [])]"
  have build: "build_acl_ofmsgs example_acl_lib [example_acl] (example_acl_table 0) example_acl_args = Inr ?ms" by code_simp
  have run: "apply_ofmsgs (al_ofp example_acl_lib) no_text False ?ms (new_switch 1 False) = (None, example_acl_switch)" by code_simp
  have lookup: "single_table_lookup no_text example_acl_switch ?pkt (nat (vt_table_id (example_acl_table 0))) =
      Inr (Some (example_acl_entry 20479 [(''in_port'', 1)] []))" by code_simp
  have side: "\<not> aa_exact_match example_acl_args" "\<not> aa_flowdel example_acl_args" "0 \<le> vt_table_id (example_acl_table 0)"
    "vt_table_id (example_acl_table 0) \<noteq> OFPTT_ALL (al_ofp example_acl_lib)" by code_simp+
  have empty: "\<forall>e \<in> set (sw_tables (new_switch 1 False) ! nat (vt_table_id (example_acl_table 0))). pkt_matches no_text e ?pkt \<noteq> Inr True"
    by (simp add: new_switch_def example_acl_table_def mk_valve_table_def ValveTableConfig_def)
  have rules: "concat (map acl_rules [example_acl]) = acl_rules example_acl" by simp
  from acl_first_match [OF build side new_switch_ok run empty lookup] show ?thesis unfolding rules by fastforce
qed

lemma del_port_acl_removes_witness:
  "table_entry (sw_tables (new_switch 1 False) ! nat (vt_table_id (example_acl_table 0)))
     (fte_key (example_acl_entry 16384 [(''eth_type'', 2048), (''in_port'', 1)] [IGotoTable 1])) = None"
proof -
  let ?mt = "[(''eth_type'', MInt 2048), (''in_port'', MInt 1)]"
  let ?adds = "[FlowModMsg (example_acl_flow 16384 ?mt [IGotoTable 1]), FlowModMsg (example_acl_flow 16383 [(''in_port'', MInt 1)] [])]"
  let ?del = "\<lambda>priority mt. FlowModMsg (flowmod 0 OFPFC_DELETE 0 priority (OFPP_ANY of13) (OFPG_ANY of13) mt [] 0 0 0)"
  let ?dels = "[?del 16384 ?mt, ?del 16383 [(''in_port'', MInt 1)]]"
  have adds: "add_port_acl example_acl_lib example_acl_manager example_acl 1 None = Inr ?adds" by code_simp
  have dels: "del_port_acl example_acl_lib example_acl_manager example_acl 1 None = Inr ?dels" by code_simp
  have side: "am_port_acl_table example_acl_manager = Some (example_acl_table 0)" "0 \<le> vt_table_id (example_acl_table 0)"
    "vt_table_id (example_acl_table 0) \<noteq> OFPTT_ALL (al_ofp example_acl_lib)"
    by (simp add: example_acl_manager_def new_acl_manager_def, code_simp+)
  have run: "apply_ofmsgs (al_ofp example_acl_lib) no_text False ?dels (new_switch 1 False) = (None, new_switch 1 False)" by code_simp
  have e: "fte_of_flowmod (al_ofp example_acl_lib) no_text (example_acl_flow 16384 ?mt [IGotoTable 1]) =
      Inr (example_acl_entry 16384 [(''eth_type'', 2048), (''in_port'', 1)] [IGotoTable 1])" by code_simp
  show ?thesis by (rule del_port_acl_removes [OF adds dels side new_switch_ok(1) run _ e]) simp
qed

end
