(* ===== verification/Pipeline.thy ===== *)
theory Pipeline imports ValveTable "HOL-Library.List_Lexorder" "HOL-Library.Char_ord" begin

text \<open>
  How a datapath's configuration becomes the tables of its pipeline: \<open>_generate_acl_tables\<close> and
  \<open>_configure_tables\<close> of \<^verbatim>\<open>faucet/dp.py\<close>, with the hardware table of \<^verbatim>\<open>faucet/valve.py\<close>.

  A table's size is scaled with floating point factors; the rounded multiple
  \<open>int(scale_factor / min_wildcard_table_size) + 1\<close> of each table is the argument \<open>multiple\<close>.
\<close>

section \<open>ACL tables\<close>

record acl_conf =
  ac_matches :: "(string, bool) dict"
  ac_set_fields :: "string list"
  ac_meter :: bool
  ac_exact_match :: bool
  ac_dot1x_assigned :: bool

record dot1x_conf =
  dx_nfv_sw_port :: "int option"
  dx_auth_acl :: "string option"
  dx_noauth_acl :: "string option"

record vlan_acls =
  va_acls_in :: "acl_conf list"
  va_acls_out :: "acl_conf list"
  va_ipvs :: "int list"

record port_acls =
  pa_number :: int
  pa_acls_in :: "acl_conf list"
  pa_dot1x :: bool
  pa_output_only :: bool
  pa_coprocessor :: bool
  pa_restricted_bcast_arpnd :: bool

text \<open>What the two functions read of a datapath; \<open>dc_8021x_acls\<close> are the two 802.1X ACLs of \<open>acl.py\<close>.\<close>

record dp_conf =
  dc_hardware :: string
  dc_dot1x :: "dot1x_conf option"
  dc_8021x_acls :: "acl_conf list"
  dc_acls :: "(string, acl_conf) dict"
  dc_vlans :: "vlan_acls list"
  dc_dp_acls :: "acl_conf list"
  dc_ports :: "port_acls list"
  dc_tunnel_acls :: "acl_conf list"
  dc_egress_pipeline :: bool
  dc_hairpin_ports :: bool
  dc_use_classification :: bool
  dc_has_externals :: bool
  dc_table_sizes :: "(string, int) dict"
  dc_min_wildcard_table_size :: int
  dc_max_wildcard_table_size :: int
  dc_cookie :: int
  dc_use_idle_timeout :: bool

type_synonym acl_lists = "(string, acl_conf list) dict"

definition extend_acls :: "string \<Rightarrow> acl_conf list \<Rightarrow> acl_lists \<Rightarrow> acl_lists" where
  "extend_acls name acls d = dict_set name ((case dict_get d name of None \<Rightarrow> [] | Some xs \<Rightarrow> xs) @ acls) d"

definition named_acl :: "(string, acl_conf) dict \<Rightarrow> string option \<Rightarrow> acl_conf list" where
  "named_acl acls name =
     (case name of None \<Rightarrow> [] | Some n \<Rightarrow> (case dict_get acls n of None \<Rightarrow> [] | Some a \<Rightarrow> [a]))"

definition dot1x_acls :: "dp_conf \<Rightarrow> acl_lists \<Rightarrow> acl_lists" where
  "dot1x_acls dp d =
     (case dc_dot1x dp of
        None \<Rightarrow> d
      | Some dx \<Rightarrow>
          dict_set ''port_acl''
            (dc_8021x_acls dp @ named_acl (dc_acls dp) (dx_auth_acl dx) @ named_acl (dc_acls dp) (dx_noauth_acl dx) @
             filter ac_dot1x_assigned (dict_values (dc_acls dp))) d)"

definition add_vlan_acls :: "acl_lists \<Rightarrow> vlan_acls \<Rightarrow> acl_lists" where
  "add_vlan_acls d vlan =
     (let d = (if va_acls_in vlan \<noteq> [] then extend_acls ''vlan_acl'' (va_acls_in vlan) d else d)
      in if va_acls_out vlan \<noteq> [] then extend_acls ''egress_acl'' (va_acls_out vlan) d else d)"

definition add_port_acls :: "dp_conf \<Rightarrow> port_acls \<Rightarrow> acl_lists \<Rightarrow> err + acl_lists" where
  "add_port_acls dp port d =
     bindE (if pa_acls_in port \<noteq> [] then
              bindE (test_config_condition (pa_dot1x port)) (\<lambda>_. Inr (extend_acls ''port_acl'' (pa_acls_in port) d))
            else Inr d) (\<lambda>d.
     case dc_dot1x dp of
       None \<Rightarrow> Inr d
     | Some dx \<Rightarrow>
         (case dx_nfv_sw_port dx of
            None \<Rightarrow> Inl KeyError
          | Some nfv \<Rightarrow>
              if pa_number port = nfv then bindE (test_config_condition (\<not> pa_output_only port)) (\<lambda>_. Inr d) else Inr d))"

definition collect_acls :: "dp_conf \<Rightarrow> err + acl_lists" where
  "collect_acls dp =
     (let d = foldl add_vlan_acls (dot1x_acls dp []) (dc_vlans dp)
      in bindE (if dc_dp_acls dp \<noteq> [] then
                  bindE (test_config_condition (dc_dot1x dp \<noteq> None)) (\<lambda>_. Inr (extend_acls ''port_acl'' (dc_dp_acls dp) d))
                else foldE (add_port_acls dp) (dc_ports dp) d) (\<lambda>d.
         Inr (if dc_tunnel_acls dp \<noteq> [] then extend_acls ''port_acl'' (dc_tunnel_acls dp) d else d)))"

definition merge_matches :: "acl_conf list \<Rightarrow> (string, bool) dict" where
  "merge_matches acls =
     foldl (\<lambda>ms acl. foldl (\<lambda>ms (field, has_mask).
         if has_mask \<or> dict_get ms field = None then dict_set field has_mask ms else ms) ms (ac_matches acl)) [] acls"

definition acl_table_config :: "string \<Rightarrow> acl_conf list \<Rightarrow> table_config \<Rightarrow> table_config" where
  "acl_table_config table_name acls dflt =
     (ValveTableConfig table_name (tc_table_id dflt))
       \<lparr>tc_exact_match := (if acls = [] then False else ac_exact_match (last acls)),
        tc_meter := (\<exists>a \<in> set acls. ac_meter a),
        tc_output := True,
        tc_match_types := Some (sort_key fst (merge_matches acls)),
        tc_set_fields := Some (sort (remdups (concat (map ac_set_fields acls)))),
        tc_next_tables := tc_next_tables dflt\<rparr>"

definition generate_acl_tables :: "dp_conf \<Rightarrow> err + (string, table_config) dict \<times> bool" where
  "generate_acl_tables dp =
     bindE (collect_acls dp) (\<lambda>all_acls.
     bindE (mapE (\<lambda>(table_name, acls).
              bindE (dict_getE DEFAULT_CONFIGS table_name) (\<lambda>dflt.
              Inr (table_name, acl_table_config table_name acls dflt))) all_acls) (\<lambda>table_config.
     Inr (table_config, dc_egress_pipeline dp \<or> (\<exists>v \<in> set (dc_vlans dp). va_acls_out v \<noteq> []))))"

section \<open>The tables of a datapath\<close>

text \<open>\<open>SUPPORTED_HARDWARE\<close>: whether a driver has static table ids.\<close>

definition hardware_static_ids :: "(string, bool) dict" where
  "hardware_static_ids =
     [(''Generic'', False), (''GenericTFM'', False), (''Allied-Telesis'', False), (''Aruba'', False),
      (''CiscoC9K'', False), (''Lagopus'', False), (''Netronome'', False), (''NoviFlow'', True),
      (''Open vSwitch'', False), (''Open vSwitch TFM'', False), (''ZodiacFX'', False), (''ZodiacGX'', False)]"

definition fib_name :: "int \<Rightarrow> string" where
  "fib_name ipv = (if ipv = 4 then ''ipv4_fib'' else ''ipv6_fib'')"

definition included_tables :: "dp_conf \<Rightarrow> bool \<Rightarrow> (string, table_config) dict \<Rightarrow> bool \<Rightarrow> string set" where
  "included_tables dp static acl_tables egress_pipeline =
     MINIMUM_FAUCET_PIPELINE_TABLES \<union> set (dict_keys acl_tables) \<union>
     (\<Union>v \<in> set (dc_vlans dp). \<Union>ipv \<in> set (va_ipvs v). {fib_name ipv, ''vip''}) \<union>
     (if static then {''port_acl''} else {}) \<union>
     (if dc_hairpin_ports dp then {''eth_dst_hairpin''} else {}) \<union>
     (if dc_use_classification dp then {''classification''} else {}) \<union>
     (if egress_pipeline then {''egress''} else {}) \<union>
     (if \<exists>p \<in> set (dc_ports dp). pa_coprocessor p then {''copro''} else {})"

type_synonym table_configs = "(string, table_config) dict"

definition place_table ::
    "bool \<Rightarrow> bool \<Rightarrow> table_configs \<Rightarrow> nat \<times> table_config \<Rightarrow> string \<times> table_config" where
  "place_table static egress_pipeline acl_tables item =
     (case item of (relative_table_id, canonical) \<Rightarrow>
        let name = tc_name canonical;
            c = (case dict_get acl_tables name of None \<Rightarrow> canonical | Some t \<Rightarrow> t);
            c = (if egress_pipeline then c else c\<lparr>tc_metadata_write := 0, tc_metadata_match := 0\<rparr>);
            c = (if static then c else c\<lparr>tc_table_id := int relative_table_id\<rparr>)
        in (name, c))"

definition add_match_type :: "string \<Rightarrow> table_config \<Rightarrow> err + table_config" where
  "add_match_type field c =
     (case tc_match_types c of
        None \<Rightarrow> Inl TypeError
      | Some mts \<Rightarrow> Inr (c\<lparr>tc_match_types := Some (mts @ [(field, False)])\<rparr>))"

definition add_external_field :: "table_config \<Rightarrow> err + table_config" where
  "add_external_field c =
     bindE (add_match_type EXTERNAL_FORWARDING_FIELD c) (\<lambda>c.
     Inr (c\<lparr>tc_set_fields := Some ((case tc_set_fields c of None \<Rightarrow> [] | Some fs \<Rightarrow> fs) @ [EXTERNAL_FORWARDING_FIELD])\<rparr>))"

definition change_table :: "(table_config \<Rightarrow> err + table_config) \<Rightarrow> string \<Rightarrow> table_configs \<Rightarrow> err + table_configs" where
  "change_table f name d = bindE (dict_getE d name) (\<lambda>c. bindE (f c) (\<lambda>c'. Inr (dict_set name c' d)))"

definition adjust_tables :: "dp_conf \<Rightarrow> string set \<Rightarrow> table_configs \<Rightarrow> err + table_configs" where
  "adjust_tables dp included d =
     bindE (if dc_has_externals dp then foldE (change_table add_external_field) [''vlan'', ''eth_dst'', ''flood''] d
            else Inr d) (\<lambda>d.
     bindE (if \<exists>p \<in> set (dc_ports dp). pa_restricted_bcast_arpnd p
            then change_table (add_match_type ''eth_type'') ''flood'' d else Inr d) (\<lambda>d.
     if ''egress_acl'' \<in> included
     then change_table (\<lambda>c. Inr (c\<lparr>tc_miss_goto := Some ''egress_acl''\<rparr>)) ''eth_dst'' d else Inr d))"

definition table_size :: "dp_conf \<Rightarrow> (string \<Rightarrow> int) \<Rightarrow> table_config \<Rightarrow> string \<Rightarrow> int" where
  "table_size dp multiple c table_name =
     (let size = multiple table_name * dc_min_wildcard_table_size dp;
          size = (if tc_exact_match c then size
                  else min (max size (dc_min_wildcard_table_size dp)) (dc_max_wildcard_table_size dp))
      in case dict_get (dc_table_sizes dp) table_name of None \<Rightarrow> size | Some n \<Rightarrow> n)"

definition build_table ::
    "dp_conf \<Rightarrow> (string \<Rightarrow> int) \<Rightarrow> table_configs \<Rightarrow> string \<times> table_config \<Rightarrow> err + string \<times> valve_table" where
  "build_table dp multiple d item =
     (case item of (table_name, c) \<Rightarrow>
        bindE (test_config_condition (case tc_set_fields c of None \<Rightarrow> False | Some fs \<Rightarrow> \<not> set fs \<subseteq> set MATCH_FIELDS)) (\<lambda>_.
        bindE (test_config_condition (case tc_match_types c of None \<Rightarrow> False | Some mts \<Rightarrow> \<not> fst ` set mts \<subseteq> set MATCH_FIELDS)) (\<lambda>_.
        let nexts = filter (\<lambda>n. dict_get d n \<noteq> None) (tc_next_tables c);
            c' = c\<lparr>tc_size := Some (table_size dp multiple c table_name), tc_next_tables := nexts\<rparr>;
            next_ids = concat (map (\<lambda>n. case dict_get d n of None \<Rightarrow> [] | Some t \<Rightarrow> [tc_table_id t]) nexts)
        in Inr (table_name, mk_valve_table table_name c' (dc_cookie dp) (dc_use_idle_timeout dp) next_ids))))"

definition configure_tables :: "dp_conf \<Rightarrow> (string \<Rightarrow> int) \<Rightarrow> err + (string, valve_table) dict" where
  "configure_tables dp multiple =
     (case dict_get hardware_static_ids (dc_hardware dp) of
        None \<Rightarrow> Inl InvalidConfigError
      | Some static \<Rightarrow>
          bindE (generate_acl_tables dp) (\<lambda>(acl_tables, egress_pipeline).
          let included = included_tables dp static acl_tables egress_pipeline;
              canonical = filter (\<lambda>c. tc_name c \<in> included) FAUCET_PIPELINE;
              placed = map (place_table static egress_pipeline acl_tables) (enumerate 0 canonical)
          in bindE (adjust_tables dp included placed) (\<lambda>d. mapE (build_table dp multiple d) d)))"

text \<open>The tables a datapath looks up by name.\<close>

definition classification_table :: "dp_conf \<Rightarrow> (string, valve_table) dict \<Rightarrow> err + valve_table" where
  "classification_table dp tables =
     dict_getE tables (if dc_use_classification dp then ''classification'' else ''eth_src'')"

definition output_tables :: "dp_conf \<Rightarrow> (string, valve_table) dict \<Rightarrow> err + valve_table list" where
  "output_tables dp tables =
     mapE (dict_getE tables) (if dc_hairpin_ports dp then [''eth_dst_hairpin'', ''eth_dst''] else [''eth_dst''])"

definition match_tables :: "(string, valve_table) dict \<Rightarrow> string \<Rightarrow> valve_table list" where
  "match_tables tables match_type =
     filter (\<lambda>t. case vt_match_types t of None \<Rightarrow> True | Some mts \<Rightarrow> dict_get mts match_type \<noteq> None) (dict_values tables)"

definition table_by_id :: "(string, valve_table) dict \<Rightarrow> int \<Rightarrow> valve_table option" where
  "table_by_id tables table_id = find (\<lambda>t. vt_table_id t = table_id) (dict_values tables)"

section \<open>Gotos go forward\<close>

text \<open>The place of a table in the standard pipeline.\<close>

definition pos :: "string \<Rightarrow> nat" where
  "pos name = length (takeWhile (\<lambda>c. tc_name c \<noteq> name) FAUCET_PIPELINE)"

definition default_id :: "string \<Rightarrow> int" where
  "default_id name = (case find (\<lambda>c. tc_name c = name) FAUCET_PIPELINE of None \<Rightarrow> 0 | Some c \<Rightarrow> tc_table_id c)"

definition jumps :: "table_config \<Rightarrow> string list" where
  "jumps c = tc_next_tables c @ (case tc_miss_goto c of None \<Rightarrow> [] | Some m \<Rightarrow> [m])"

definition forward :: "string \<Rightarrow> string \<Rightarrow> bool" where
  "forward n m \<longleftrightarrow> pos n < pos m \<and> default_id n < default_id m"

text \<open>Facts about the standard pipeline, by evaluation.\<close>

lemma pipeline_forward: "\<forall>c \<in> set FAUCET_PIPELINE. \<forall>m \<in> set (jumps c). forward (tc_name c) m"
  by code_simp

lemma pipeline_sorted: "sorted_wrt (\<lambda>c d. pos (tc_name c) < pos (tc_name d)) FAUCET_PIPELINE"
  by code_simp

lemma pipeline_ids: "\<forall>c \<in> set FAUCET_PIPELINE. tc_table_id c = default_id (tc_name c)"
  by code_simp

lemma pipeline_miss: "\<forall>c \<in> set FAUCET_PIPELINE. case tc_miss_goto c of None \<Rightarrow> True
    | Some m \<Rightarrow> m \<in> {''vlan'', ''eth_src'', ''eth_dst'', ''flood''}"
  by code_simp

lemma default_pipeline: "\<forall>(n, c) \<in> set DEFAULT_CONFIGS. tc_name c = n \<and> c \<in> set FAUCET_PIPELINE"
  by code_simp

lemma eth_dst_egress: "forward ''eth_dst'' ''egress_acl''"
  by code_simp

lemma pipeline_names: "map tc_name FAUCET_PIPELINE =
  [''port_acl'', ''vlan'', ''copro'', ''vlan_acl'', ''classification'', ''eth_src'', ''ipv4_fib'', ''ipv6_fib'',
   ''vip'', ''eth_dst_hairpin'', ''eth_dst'', ''egress_acl'', ''egress'', ''flood'']"
  by code_simp

lemma pipeline_distinct: "c \<in> set FAUCET_PIPELINE \<Longrightarrow> d \<in> set FAUCET_PIPELINE \<Longrightarrow> tc_name c = tc_name d \<Longrightarrow> c = d"
proof -
  have "distinct (map tc_name FAUCET_PIPELINE)" unfolding pipeline_names by simp
  then show "c \<in> set FAUCET_PIPELINE \<Longrightarrow> d \<in> set FAUCET_PIPELINE \<Longrightarrow> tc_name c = tc_name d \<Longrightarrow> c = d"
    by (simp add: distinct_map inj_on_def)
qed

text \<open>An ACL table has the place and the next tables of its default.\<close>

lemma acl_tables_default:
  assumes "generate_acl_tables dp = Inr (acl_tables, egress)" and "dict_get acl_tables name = Some c"
  shows "\<exists>d \<in> set FAUCET_PIPELINE. tc_name d = name \<and> tc_table_id c = tc_table_id d \<and>
    tc_next_tables c = tc_next_tables d \<and> tc_miss_goto c = None"
proof -
  from assms(1) obtain all_acls where m: "mapE (\<lambda>(table_name, acls).
              bindE (dict_getE DEFAULT_CONFIGS table_name) (\<lambda>dflt.
              Inr (table_name, acl_table_config table_name acls dflt))) all_acls = Inr acl_tables"
    by (auto simp: generate_acl_tables_def bindE_Inr)
  have "(name, c) \<in> set acl_tables" using assms(2) by (rule dict_get_Some_in)
  then obtain i where "i < length acl_tables" "acl_tables ! i = (name, c)" by (auto simp: in_set_conv_nth)
  moreover obtain n acls where "all_acls ! i = (n, acls)" by (metis surj_pair)
  ultimately have "bindE (dict_getE DEFAULT_CONFIGS n) (\<lambda>dflt.
              Inr (n, acl_table_config n acls dflt)) = Inr (name, c)"
    using m unfolding mapE_Inr_list_all2 list_all2_conv_all_nth by fastforce
  then obtain d where d: "dict_get DEFAULT_CONFIGS name = Some d" and c: "c = acl_table_config name acls d"
    by (auto simp: bindE_Inr)
  have "tc_name d = name" "d \<in> set FAUCET_PIPELINE" using default_pipeline dict_get_Some_in [OF d] by auto
  then show ?thesis using c by (auto simp: acl_table_config_def ValveTableConfig_def)
qed

text \<open>
  The invariant of the table configurations while they are adjusted: the names are those of the
  included tables, every table has its id, and every jump leads forward.
\<close>

definition canonical_tables :: "string set \<Rightarrow> table_config list" where
  "canonical_tables included = filter (\<lambda>c. tc_name c \<in> included) FAUCET_PIPELINE"

definition table_rank :: "bool \<Rightarrow> string set \<Rightarrow> string \<Rightarrow> int" where
  "table_rank static included name =
     (if static then default_id name
      else int (length (takeWhile (\<lambda>c. tc_name c \<noteq> name) (canonical_tables included))))"

definition configs_ok :: "bool \<Rightarrow> string set \<Rightarrow> table_configs \<Rightarrow> bool" where
  "configs_ok static included d \<longleftrightarrow>
     dict_keys d = map tc_name (canonical_tables included) \<and>
     (\<forall>(name, c) \<in> set d. tc_table_id c = table_rank static included name \<and>
        (\<forall>m \<in> set (jumps c). forward name m) \<and>
        (case tc_miss_goto c of None \<Rightarrow> True | Some m \<Rightarrow> m \<in> set (dict_keys d)))"

lemma canonical_distinct: "distinct (map tc_name (canonical_tables included))"
proof -
  have "distinct (map tc_name FAUCET_PIPELINE)" unfolding pipeline_names by simp
  then show ?thesis unfolding canonical_tables_def by (rule distinct_map_filter)
qed

lemma nth_rank:
  assumes "distinct (map tc_name cs)" and "i < length cs"
  shows "length (takeWhile (\<lambda>c. tc_name c \<noteq> tc_name (cs ! i)) cs) = i"
  using assms
proof (induction cs arbitrary: i)
  case Nil
  then show ?case by simp
next
  case (Cons c cs)
  then show ?case using nth_mem [of "i - 1" cs] by (cases i) (auto simp: image_iff)
qed

lemma rank_forward:
  assumes "n \<in> set (map tc_name (canonical_tables included))" "m \<in> set (map tc_name (canonical_tables included))"
    and "forward n m"
  shows "table_rank static included n < table_rank static included m"
proof (cases static)
  case True
  then show ?thesis using assms(3) by (simp add: table_rank_def forward_def)
next
  case False
  let ?cs = "canonical_tables included"
  from assms(1,2) obtain i j where i: "i < length ?cs" "n = tc_name (?cs ! i)" and j: "j < length ?cs" "m = tc_name (?cs ! j)"
    by (auto simp: in_set_conv_nth)
  have sorted: "sorted_wrt (\<lambda>c d. pos (tc_name c) < pos (tc_name d)) ?cs"
    unfolding canonical_tables_def by (rule sorted_wrt_filter [OF pipeline_sorted])
  have "i < j"
  proof (rule ccontr)
    assume "\<not> i < j"
    then consider "j = i" | "j < i" by linarith
    then have "pos m \<le> pos n"
    proof cases
      case 1
      with i j show ?thesis by simp
    next
      case 2
      from sorted_wrt_nth_less [OF sorted 2 i(1)] i(2) j(2) show ?thesis by simp
    qed
    with assms(3) show False by (simp add: forward_def)
  qed
  moreover have "table_rank static included n = int i" "table_rank static included m = int j"
    using False i j nth_rank [OF canonical_distinct] by (simp_all add: table_rank_def)
  ultimately show ?thesis by simp
qed

lemma placed_ok:
  assumes "generate_acl_tables dp = Inr (acl_tables, egress)"
    and min: "MINIMUM_FAUCET_PIPELINE_TABLES \<subseteq> included"
  shows "configs_ok static included (map (place_table static egress acl_tables) (enumerate 0 (canonical_tables included)))"
    (is "configs_ok _ _ ?d")
proof -
  let ?cs = "canonical_tables included"
  have keys: "dict_keys ?d = map tc_name ?cs"
  proof -
    have "fst (place_table static egress acl_tables x) = tc_name (snd x)" for x
      by (simp add: place_table_def Let_def split: prod.splits)
    then have "dict_keys ?d = map (\<lambda>x. tc_name (snd x)) (enumerate 0 ?cs)" by (simp add: dict_keys_def)
    also have "\<dots> = map tc_name (map snd (enumerate 0 ?cs))" by (simp only: map_map comp_def)
    also have "\<dots> = map tc_name ?cs" by (simp only: map_snd_enumerate)
    finally show ?thesis .
  qed
  have "tc_table_id c = table_rank static included name \<and> (\<forall>m \<in> set (jumps c). forward name m) \<and>
      (case tc_miss_goto c of None \<Rightarrow> True | Some m \<Rightarrow> m \<in> set (dict_keys ?d))"
    if mem: "(name, c) \<in> set ?d" for name c
  proof -
    from mem obtain i where i: "i < length ?cs" and pl: "(name, c) = place_table static egress acl_tables (i, ?cs ! i)"
      by (auto simp: in_set_enumerate_eq)
    let ?o = "?cs ! i"
    have o: "?o \<in> set FAUCET_PIPELINE" using i nth_mem [OF i] by (simp add: canonical_tables_def)
    define b where "b = (case dict_get acl_tables (tc_name ?o) of None \<Rightarrow> ?o | Some t \<Rightarrow> t)"
    have name: "name = tc_name ?o" and c: "tc_next_tables c = tc_next_tables b" "tc_miss_goto c = tc_miss_goto b"
      and cid: "tc_table_id c = (if static then tc_table_id b else int i)"
      using pl by (simp_all add: place_table_def Let_def b_def)
    have "tc_next_tables b = tc_next_tables ?o \<and> tc_table_id b = tc_table_id ?o \<and>
        (tc_miss_goto b = None \<or> tc_miss_goto b = tc_miss_goto ?o)"
    proof (cases "dict_get acl_tables (tc_name ?o)")
      case None
      then show ?thesis by (simp add: b_def)
    next
      case (Some t)
      from acl_tables_default [OF assms(1) Some] obtain d where "d \<in> set FAUCET_PIPELINE" "tc_name d = tc_name ?o"
        "tc_table_id t = tc_table_id d" "tc_next_tables t = tc_next_tables d" "tc_miss_goto t = None" by blast
      then show ?thesis using pipeline_distinct [OF _ o, of d] Some by (simp add: b_def)
    qed
    then have b: "set (jumps c) \<subseteq> set (jumps ?o)" "tc_table_id b = default_id name" and
        miss: "tc_miss_goto c = None \<or> tc_miss_goto c = tc_miss_goto ?o"
      using c pipeline_ids o name by (auto simp: jumps_def)
    have "tc_table_id c = table_rank static included name"
      using cid b(2) name nth_rank [OF canonical_distinct i] by (simp add: table_rank_def)
    moreover have "\<forall>m \<in> set (jumps c). forward name m" using b(1) pipeline_forward o name by blast
    moreover have "case tc_miss_goto c of None \<Rightarrow> True | Some m \<Rightarrow> m \<in> set (dict_keys ?d)"
    proof (cases "tc_miss_goto c")
      case (Some m)
      with miss pipeline_miss o have "m \<in> {''vlan'', ''eth_src'', ''eth_dst'', ''flood''}" by fastforce
      then have "m \<in> included" "m \<in> set (map tc_name FAUCET_PIPELINE)"
        using min unfolding pipeline_names by (auto simp: MINIMUM_FAUCET_PIPELINE_TABLES_def)
      then have "m \<in> set (map tc_name ?cs)" by (auto simp: canonical_tables_def)
      with Some show ?thesis unfolding keys by simp
    qed simp
    ultimately show ?thesis by blast
  qed
  with keys show ?thesis unfolding configs_ok_def by blast
qed

lemma configs_ok_distinct: "configs_ok static included d \<Longrightarrow> dict_ok d"
  using canonical_distinct by (simp add: configs_ok_def dict_ok_def dict_keys_def)

lemma dict_keys_present: "k \<in> set (dict_keys d) \<Longrightarrow> dict_keys (dict_set k v d) = dict_keys d"
  by (induction d) (auto simp: dict_keys_def dict_set_def)

lemma change_table_ok:
  assumes "change_table f name d = Inr d'" and "configs_ok static included d"
    and f: "\<And>c c'. f c = Inr c' \<Longrightarrow> tc_table_id c' = tc_table_id c \<and> tc_next_tables c' = tc_next_tables c \<and>
      (tc_miss_goto c' = tc_miss_goto c \<or> (\<exists>m. tc_miss_goto c' = Some m \<and> m \<in> set (dict_keys d) \<and> forward name m))"
  shows "configs_ok static included d'"
proof -
  from assms(1) obtain c c' where c: "dict_get d name = Some c" and c': "f c = Inr c'" and d': "d' = dict_set name c' d"
    by (auto simp: change_table_def bindE_Inr)
  have mem: "name \<in> set (dict_keys d)" using c dict_keys_get by fast
  have keys: "dict_keys d' = dict_keys d" using dict_keys_present [OF mem] d' by simp
  have ok: "dict_ok d" "dict_ok d'" using configs_ok_distinct [OF assms(2)] d' by simp_all
  have old: "tc_table_id x = table_rank static included n \<and> (\<forall>m \<in> set (jumps x). forward n m) \<and>
        (case tc_miss_goto x of None \<Rightarrow> True | Some m \<Rightarrow> m \<in> set (dict_keys d))" if "dict_get d n = Some x" for n x
    using assms(2) dict_get_Some_in [OF that] unfolding configs_ok_def by blast
  have new: "tc_table_id x = table_rank static included n \<and> (\<forall>m \<in> set (jumps x). forward n m) \<and>
        (case tc_miss_goto x of None \<Rightarrow> True | Some m \<Rightarrow> m \<in> set (dict_keys d'))" if "(n, x) \<in> set d'" for n x
  proof -
    have g: "dict_get d' n = Some x" using that ok(2) by (simp add: dict_ok_in)
    show ?thesis
    proof (cases "n = name")
      case False
      with g d' have "dict_get d n = Some x" by simp
      from old [OF this] show ?thesis unfolding keys .
    next
      case True
      with g d' have "x = c'" by simp
      with True old [OF c] f [OF c'] keys d' show ?thesis by (auto simp: jumps_def split: option.splits)
    qed
  qed
  have "dict_keys d' = map tc_name (canonical_tables included)" using keys assms(2) unfolding configs_ok_def by (metis (no_types))
  then show ?thesis unfolding configs_ok_def using new by blast
qed

lemma add_match_type_keeps: "add_match_type field c = Inr c' \<Longrightarrow>
    tc_table_id c' = tc_table_id c \<and> tc_next_tables c' = tc_next_tables c \<and> tc_miss_goto c' = tc_miss_goto c"
  by (auto simp: add_match_type_def split: option.splits)

lemma add_external_field_keeps: "add_external_field c = Inr c' \<Longrightarrow>
    tc_table_id c' = tc_table_id c \<and> tc_next_tables c' = tc_next_tables c \<and> tc_miss_goto c' = tc_miss_goto c"
  by (auto simp: add_external_field_def bindE_Inr dest: add_match_type_keeps)

lemma adjust_tables_ok:
  assumes "adjust_tables dp included d = Inr d'" and "configs_ok static included d"
  shows "configs_ok static included d'"
proof -
  from assms(1) obtain u v where
    u: "(if dc_has_externals dp then foldE (change_table add_external_field) [''vlan'', ''eth_dst'', ''flood''] d
            else Inr d) = Inr u" and
    v: "(if \<exists>p \<in> set (dc_ports dp). pa_restricted_bcast_arpnd p
            then change_table (add_match_type ''eth_type'') ''flood'' u else Inr u) = Inr v" and
    d': "(if ''egress_acl'' \<in> included
     then change_table (\<lambda>c. Inr (c\<lparr>tc_miss_goto := Some ''egress_acl''\<rparr>)) ''eth_dst'' v else Inr v) = Inr d'"
    unfolding adjust_tables_def bindE_Inr by blast
  have "configs_ok static included u"
  proof (cases "dc_has_externals dp")
    case True
    with u have "foldE (change_table add_external_field) [''vlan'', ''eth_dst'', ''flood''] d = Inr u" by simp
    then show ?thesis
      by (rule foldE_invariant [where P = "configs_ok static included"])
        (use assms(2) in \<open>auto intro: change_table_ok dest: add_external_field_keeps\<close>)
  qed (use u assms(2) in simp)
  then have v_ok: "configs_ok static included v"
    using v by (auto split: if_splits intro: change_table_ok dest: add_match_type_keeps)
  show ?thesis
  proof (cases "''egress_acl'' \<in> included")
    case True
    have "dict_keys v = map tc_name (canonical_tables included)" using v_ok by (simp add: configs_ok_def)
    moreover have "''egress_acl'' \<in> set (map tc_name FAUCET_PIPELINE)" unfolding pipeline_names by simp
    ultimately have "''egress_acl'' \<in> set (dict_keys v)" using True by (auto simp: canonical_tables_def)
    with d' True show ?thesis by (auto intro: change_table_ok [OF _ v_ok] simp: eth_dst_egress)
  qed (use d' v_ok in simp)
qed

lemma build_table_result:
  assumes "build_table dp multiple d (name, c) = Inr (name', t)"
  shows "name' = name \<and> vt_name t = name \<and> vt_table_id t = tc_table_id c \<and>
    tc_miss_goto (vt_config t) = tc_miss_goto c \<and>
    tc_next_tables (vt_config t) = filter (\<lambda>n. dict_get d n \<noteq> None) (tc_next_tables c)"
  using assms by (auto simp: build_table_def bindE_Inr Let_def mk_valve_table_def)

lemma configure_tables_Inr:
  assumes "configure_tables dp multiple = Inr tables"
  obtains static included d where "dict_get hardware_static_ids (dc_hardware dp) = Some static"
    and "configs_ok static included d"
    and "dict_keys tables = dict_keys d"
    and "\<And>name t. (name, t) \<in> set tables \<Longrightarrow> \<exists>c. (name, c) \<in> set d \<and> build_table dp multiple d (name, c) = Inr (name, t)"
proof -
  from assms obtain static where static: "dict_get hardware_static_ids (dc_hardware dp) = Some static"
    by (auto simp: configure_tables_def split: option.splits)
  with assms obtain acl_tables egress d where acl: "generate_acl_tables dp = Inr (acl_tables, egress)"
    and adj: "adjust_tables dp (included_tables dp static acl_tables egress)
      (map (place_table static egress acl_tables) (enumerate 0 (canonical_tables (included_tables dp static acl_tables egress)))) = Inr d"
    and build: "mapE (build_table dp multiple d) d = Inr tables"
    by (auto simp: configure_tables_def bindE_Inr Let_def canonical_tables_def split: prod.splits)
  let ?included = "included_tables dp static acl_tables egress"
  have "MINIMUM_FAUCET_PIPELINE_TABLES \<subseteq> ?included" by (auto simp: included_tables_def)
  from adjust_tables_ok [OF adj placed_ok [OF acl this]] have ok: "configs_ok static ?included d" .
  have each: "\<exists>c. d ! i = (fst (tables ! i), c) \<and> build_table dp multiple d (d ! i) = Inr (tables ! i)" if "i < length tables" for i
  proof -
    have "build_table dp multiple d (d ! i) = Inr (tables ! i)"
      using build that by (auto simp: mapE_Inr_list_all2 list_all2_conv_all_nth)
    then show ?thesis using build_table_result [of dp multiple d "fst (d ! i)" "snd (d ! i)"]
      by (metis prod.collapse)
  qed
  have len: "length tables = length d" using mapE_Inr_length [OF build] .
  show thesis
  proof (rule that [OF static ok])
    have "fst (tables ! i) = fst (d ! i)" if "i < length tables" for i using each [OF that] by auto
    then show "dict_keys tables = dict_keys d" by (intro nth_equalityI) (simp_all add: dict_keys_def len)
    show "\<exists>c. (name, c) \<in> set d \<and> build_table dp multiple d (name, c) = Inr (name, t)" if "(name, t) \<in> set tables" for name t
      using that each len by (metis fst_conv in_set_conv_nth)
  qed
qed

text \<open>The tables of a datapath: every configured jump leads to a later table of the pipeline.\<close>

lemma configured_forward:
  assumes "configure_tables dp multiple = Inr tables" and "(name, t) \<in> set tables" and "m \<in> set (jumps (vt_config t))"
  shows "\<exists>t'. dict_get tables m = Some t' \<and> vt_name t' = m \<and> vt_table_id t < vt_table_id t'"
proof -
  obtain static included d where ok: "configs_ok static included d" and keys: "dict_keys tables = dict_keys d"
    and build: "\<And>name t. (name, t) \<in> set tables \<Longrightarrow> \<exists>c. (name, c) \<in> set d \<and> build_table dp multiple d (name, c) = Inr (name, t)"
    using configure_tables_Inr [OF assms(1)] by metis
  have id: "vt_table_id u = table_rank static included n" "vt_name u = n" if "(n, u) \<in> set tables" for n u
    using build [OF that] build_table_result ok unfolding configs_ok_def by fastforce+
  from build [OF assms(2)] obtain c where c: "(name, c) \<in> set d" and b: "build_table dp multiple d (name, c) = Inr (name, t)"
    by blast
  from ok c have c_ok: "\<forall>m \<in> set (jumps c). forward name m"
      "case tc_miss_goto c of None \<Rightarrow> True | Some m \<Rightarrow> m \<in> set (dict_keys d)"
    unfolding configs_ok_def by auto
  from build_table_result [OF b] assms(3) have m: "m \<in> set (jumps c)" "m \<in> set (dict_keys d)"
    using c_ok(2) by (auto simp: jumps_def dict_keys_get split: option.splits)
  have "name \<in> set (dict_keys d)" using c unfolding dict_keys_def by force
  then have names: "name \<in> set (map tc_name (canonical_tables included))" "m \<in> set (map tc_name (canonical_tables included))"
    using ok m(2) unfolding configs_ok_def by (simp_all only:)
  from m(2) keys obtain t' where t': "dict_get tables m = Some t'" using dict_keys_get by metis
  note mem = dict_get_Some_in [OF t']
  have "vt_table_id t < vt_table_id t'"
    using rank_forward [OF names] c_ok(1) m(1) id(1) [OF mem] id(1) [OF assms(2)] by simp
  with t' id(2) [OF mem] show ?thesis by blast
qed

lemma configured_ok: "configure_tables dp multiple = Inr tables \<Longrightarrow> dict_ok tables"
  using configure_tables_Inr [of dp multiple tables] configs_ok_distinct
  by (metis dict_keys_def dict_ok_def)

text \<open>C21. In every pipeline that configuration succeeds in building, each next table and each miss
  table of a table is itself in the pipeline, under its own name, with a greater table id.\<close>

lemma tables_forward:
  assumes "configure_tables dp multiple = Inr tables" and "(name, t) \<in> set tables" and "m \<in> set (jumps (vt_config t))"
  shows "\<exists>t'. dict_get tables m = Some t' \<and> vt_name t' = m \<and> vt_table_id t < vt_table_id t'"
  by (rule configured_forward [OF assms])

text \<open>A goto that one table of a pipeline composes to another always leads to a greater table id,
  as the switch requires.\<close>

lemma goto_forward:
  assumes "configure_tables dp multiple = Inr tables" and "(n, t) \<in> set tables" "(n', t') \<in> set tables"
    and "vt_goto t t' = Inr inst \<or> goto_miss t t' = Inr inst"
  shows "inst = IGotoTable (vt_table_id t') \<and> vt_table_id t < vt_table_id t'"
proof -
  have inst: "inst = IGotoTable (vt_table_id t')" and m: "vt_name t' \<in> set (jumps (vt_config t))"
    using assms(4) by (auto simp: vt_goto_def goto_miss_def goto_table_id_def bindE_Inr jumps_def split: option.splits)
  from configured_forward [OF assms(1,2) m] obtain u where u: "dict_get tables (vt_name t') = Some u" "vt_table_id t < vt_table_id u"
    by blast
  have "n' = vt_name t'"
    using configure_tables_Inr [OF assms(1)] build_table_result assms(3) by metis
  then have "dict_get tables (vt_name t') = Some t'"
    using assms(3) configured_ok [OF assms(1)] by (simp add: dict_ok_in)
  with u inst show ?thesis by simp
qed

section \<open>Table ids\<close>

lemma configured_ids:
  assumes "configure_tables dp multiple = Inr tables"
  obtains static included where "dict_get hardware_static_ids (dc_hardware dp) = Some static"
    and "dict_keys tables = map tc_name (canonical_tables included)"
    and "\<And>name t. (name, t) \<in> set tables \<Longrightarrow> vt_table_id t = table_rank static included name \<and> vt_name t = name"
proof -
  obtain static included d where s: "dict_get hardware_static_ids (dc_hardware dp) = Some static"
    and ok: "configs_ok static included d" and keys: "dict_keys tables = dict_keys d"
    and build: "\<And>name t. (name, t) \<in> set tables \<Longrightarrow> \<exists>c. (name, c) \<in> set d \<and> build_table dp multiple d (name, c) = Inr (name, t)"
    using configure_tables_Inr [OF assms] by metis
  have "vt_table_id t = table_rank static included name \<and> vt_name t = name" if "(name, t) \<in> set tables" for name t
    using build [OF that] build_table_result ok unfolding configs_ok_def by fastforce
  with that s keys ok show thesis unfolding configs_ok_def by metis
qed

lemma table_ids_dense:
  assumes "configure_tables dp multiple = Inr tables" and "dict_get hardware_static_ids (dc_hardware dp) = Some False"
  shows "map vt_table_id (dict_values tables) = map int [0..<length tables]"
proof -
  obtain static included where static: "dict_get hardware_static_ids (dc_hardware dp) = Some static"
    and keys: "dict_keys tables = map tc_name (canonical_tables included)"
    and ids: "\<And>name t. (name, t) \<in> set tables \<Longrightarrow> vt_table_id t = table_rank static included name \<and> vt_name t = name"
    using configured_ids [OF assms(1)] by metis
  show ?thesis
  proof (rule nth_equalityI)
    fix i assume "i < length (map vt_table_id (dict_values tables))"
    then have i: "i < length tables" by (simp add: dict_values_def)
    obtain name t where t: "tables ! i = (name, t)" by (metis surj_pair)
    have len: "i < length (canonical_tables included)" using i keys by (metis dict_keys_def length_map)
    have "name = tc_name (canonical_tables included ! i)"
      using arg_cong [OF keys, of "\<lambda>xs. xs ! i"] i len t by (simp add: dict_keys_def)
    moreover have "vt_table_id t = table_rank static included name" using ids nth_mem [OF i] t by simp
    ultimately have "vt_table_id t = int i"
      using static assms(2) nth_rank [OF canonical_distinct len] by (simp add: table_rank_def)
    then show "map vt_table_id (dict_values tables) ! i = map int [0..<length tables] ! i"
      using i t by (simp add: dict_values_def)
  qed (simp add: dict_values_def)
qed

text \<open>With static table ids, the coprocessor and the VLAN ACL table are the same table of the switch.\<close>

lemma static_tables_collide:
  assumes "configure_tables dp multiple = Inr tables" and "dc_hardware dp = ''NoviFlow''"
    and "dict_get tables ''copro'' = Some t" and "dict_get tables ''vlan_acl'' = Some t'"
  shows "vt_table_id t = vt_table_id t'"
proof -
  obtain static included where static: "dict_get hardware_static_ids (dc_hardware dp) = Some static"
    and ids: "\<And>name t. (name, t) \<in> set tables \<Longrightarrow> vt_table_id t = table_rank static included name \<and> vt_name t = name"
    using configured_ids [OF assms(1)] by metis
  have "static" using static unfolding assms(2) by (simp add: hardware_static_ids_def dict_get_Cons)
  moreover have "default_id ''copro'' = default_id ''vlan_acl''" by code_simp
  ultimately show ?thesis
    using ids [OF dict_get_Some_in [OF assms(3)]] ids [OF dict_get_Some_in [OF assms(4)]] by (simp add: table_rank_def)
qed

subsection \<open>Witnesses\<close>

definition example_vlan_acl :: acl_conf where
  "example_vlan_acl = \<lparr>ac_matches = [(''eth_type'', False), (''ipv4_dst'', True)], ac_set_fields = [], ac_meter = False,
     ac_exact_match = False, ac_dot1x_assigned = False\<rparr>"

definition example_dp :: "string \<Rightarrow> dp_conf" where
  "example_dp hardware = \<lparr>dc_hardware = hardware, dc_dot1x = None, dc_8021x_acls = [], dc_acls = [],
     dc_vlans = [\<lparr>va_acls_in = [example_vlan_acl], va_acls_out = [], va_ipvs = [4]\<rparr>], dc_dp_acls = [],
     dc_ports = [\<lparr>pa_number = 1, pa_acls_in = [], pa_dot1x = False, pa_output_only = False, pa_coprocessor = True,
       pa_restricted_bcast_arpnd = False\<rparr>],
     dc_tunnel_acls = [], dc_egress_pipeline = False, dc_hairpin_ports = False, dc_use_classification = False,
     dc_has_externals = False, dc_table_sizes = [], dc_min_wildcard_table_size = 32, dc_max_wildcard_table_size = 1280,
     dc_cookie = 1524372928, dc_use_idle_timeout = False\<rparr>"

text \<open>One evaluation per datapath.\<close>

fun table_view :: "string \<times> valve_table \<Rightarrow> string \<times> int \<times> string \<times> string list" where
  "table_view (n, t) = (n, vt_table_id t, vt_name t, tc_next_tables (vt_config t))"

definition tables_view :: "err + (string, valve_table) dict \<Rightarrow> (string \<times> int \<times> string \<times> string list) list" where
  "tables_view r = (case r of Inl _ \<Rightarrow> [] | Inr ts \<Rightarrow> map table_view ts)"

lemma example_ovs: "tables_view (configure_tables (example_dp ''Open vSwitch'') (\<lambda>_. 1)) =
  [(''vlan'', 0, ''vlan'', [''copro'', ''vlan_acl'', ''eth_src'']), (''copro'', 1, ''copro'', [''eth_dst'']),
   (''vlan_acl'', 2, ''vlan_acl'', [''eth_src'', ''eth_dst'', ''flood'']),
   (''eth_src'', 3, ''eth_src'', [''ipv4_fib'', ''vip'', ''eth_dst'', ''flood'']),
   (''ipv4_fib'', 4, ''ipv4_fib'', [''vip'', ''eth_dst'', ''flood'']), (''vip'', 5, ''vip'', [''eth_dst'', ''flood'']),
   (''eth_dst'', 6, ''eth_dst'', []), (''flood'', 7, ''flood'', [])]"
  by code_simp

lemma example_noviflow: "map (\<lambda>v. (fst v, fst (snd v))) (tables_view (configure_tables (example_dp ''NoviFlow'') (\<lambda>_. 1))) =
  [(''port_acl'', 0), (''vlan'', 1), (''copro'', 2), (''vlan_acl'', 2), (''eth_src'', 4), (''ipv4_fib'', 5), (''vip'', 7),
   (''eth_dst'', 9), (''flood'', 12)]"
  by code_simp

lemma example_configured:
  obtains tables t t' where "configure_tables (example_dp ''Open vSwitch'') (\<lambda>_. 1) = Inr tables"
    and "(''vlan'', t) \<in> set tables" "(''eth_src'', t') \<in> set tables" "''eth_src'' \<in> set (jumps (vt_config t))"
    and "vt_goto t t' = Inr (IGotoTable (vt_table_id t'))"
proof -
  from example_ovs obtain tables where r: "configure_tables (example_dp ''Open vSwitch'') (\<lambda>_. 1) = Inr tables"
    and v: "map table_view tables = tables_view (configure_tables (example_dp ''Open vSwitch'') (\<lambda>_. 1))"
    by (auto simp: tables_view_def split: sum.splits)
  from v have "(''vlan'', 0, ''vlan'', [''copro'', ''vlan_acl'', ''eth_src'']) \<in> table_view ` set tables"
    "(''eth_src'', 3, ''eth_src'', [''ipv4_fib'', ''vip'', ''eth_dst'', ''flood'']) \<in> table_view ` set tables"
    unfolding set_map [symmetric] v example_ovs by simp_all
  then obtain t t' where "(''vlan'', t) \<in> set tables" "tc_next_tables (vt_config t) = [''copro'', ''vlan_acl'', ''eth_src'']"
      "(''eth_src'', t') \<in> set tables" "vt_name t' = ''eth_src''" by auto
  with r show thesis by (intro that [of tables t t']) (simp_all add: jumps_def vt_goto_def goto_table_id_def)
qed

lemma tables_forward_witness:
  "\<exists>tables t t'. configure_tables (example_dp ''Open vSwitch'') (\<lambda>_. 1) = Inr tables \<and> (''vlan'', t) \<in> set tables \<and>
     dict_get tables ''eth_src'' = Some t' \<and> vt_table_id t < vt_table_id t'"
  using example_configured tables_forward by metis

lemma goto_forward_witness:
  "\<exists>tables t t'. configure_tables (example_dp ''Open vSwitch'') (\<lambda>_. 1) = Inr tables \<and> (''vlan'', t) \<in> set tables \<and>
     (''eth_src'', t') \<in> set tables \<and> vt_table_id t < vt_table_id t'"
  using example_configured goto_forward by metis

lemma table_ids_dense_witness:
  "\<exists>tables. configure_tables (example_dp ''Open vSwitch'') (\<lambda>_. 1) = Inr tables \<and>
     map vt_table_id (dict_values tables) = map int [0..<length tables]"
proof -
  have "dict_get hardware_static_ids (dc_hardware (example_dp ''Open vSwitch'')) = Some False" by code_simp
  then show ?thesis using example_configured table_ids_dense by metis
qed

lemma static_tables_collide_witness:
  "\<exists>tables t t'. configure_tables (example_dp ''NoviFlow'') (\<lambda>_. 1) = Inr tables \<and>
     dict_get tables ''copro'' = Some t \<and> dict_get tables ''vlan_acl'' = Some t' \<and> vt_table_id t = vt_table_id t'"
proof -
  from example_noviflow obtain tables where r: "configure_tables (example_dp ''NoviFlow'') (\<lambda>_. 1) = Inr tables"
    by (auto simp: tables_view_def split: sum.splits)
  have "dict_keys tables = map fst (map (\<lambda>v. (fst v, fst (snd v))) (tables_view (configure_tables (example_dp ''NoviFlow'') (\<lambda>_. 1))))"
    by (auto simp: r tables_view_def dict_keys_def)
  then have "''copro'' \<in> set (dict_keys tables)" "''vlan_acl'' \<in> set (dict_keys tables)" unfolding example_noviflow by simp_all
  with r obtain t t' where "configure_tables (example_dp ''NoviFlow'') (\<lambda>_. 1) = Inr tables"
      "dict_get tables ''copro'' = Some t" "dict_get tables ''vlan_acl'' = Some t'"
    by (auto simp: dict_keys_get)
  moreover from static_tables_collide [OF this(1) _ this(2,3)] have "vt_table_id t = vt_table_id t'"
    by (simp add: example_dp_def)
  ultimately show ?thesis by blast
qed

end
