(* ===== verification/AclFit.thy ===== *)
theory AclFit imports AclManager Pipeline begin

text \<open>
  The tables of the pipeline accept the flows of the ACLs they were generated from: what \<open>build\<close> of \<^verbatim>\<open>faucet/acl.py\<close>
  learns from composing an ACL against all tables is what \<open>_generate_acl_tables\<close> of \<^verbatim>\<open>faucet/dp.py\<close> gives
  the table, and is enough for the manager to compose the ACL for that table.
\<close>

section \<open>Composing for another table\<close>

text \<open>Two compositions differ in where their gotos go.\<close>

definition isim :: "instruction \<Rightarrow> instruction \<Rightarrow> bool" where
  "isim i j \<longleftrightarrow> i = j \<or> is_goto_table i \<and> is_goto_table j"

definition esim :: "acl_entry \<Rightarrow> acl_entry \<Rightarrow> bool" where
  "esim e e' \<longleftrightarrow> ae_act e = ae_act e' \<and> ae_match_dict e = ae_match_dict e' \<and> ae_ofmsgs e = ae_ofmsgs e' \<and>
     ae_cookie e = ae_cookie e' \<and> list_all2 isim (ae_inst e) (ae_inst e') \<and>
     list_all2 isim (ae_allow_inst e) (ae_allow_inst e')"

lemma isim_refl [simp]: "isim i i"
  by (simp add: isim_def)

lemma isims_refl [simp]: "list_all2 isim is is"
  by (simp add: list_all2_refl)

lemma rule_stage_sim:
  "rule_meter meters d e = Inr e1 \<Longrightarrow> esim e e' \<Longrightarrow> \<exists>e1'. rule_meter meters d e' = Inr e1' \<and> esim e1 e1'"
  "rule_mirror d allow e = Inr (e1, b) \<Longrightarrow> esim e e' \<Longrightarrow> \<exists>e1'. rule_mirror d allow e' = Inr (e1', b) \<and> esim e1 e1'"
  "rule_output A rules source d allow e = Inr (e1, b) \<Longrightarrow> esim e e' \<Longrightarrow>
     \<exists>e1'. rule_output A rules source d allow e' = Inr (e1', b) \<and> esim e1 e1'"
  "rule_continue d allow e = Inr e1 \<Longrightarrow> esim e e' \<Longrightarrow> \<exists>e1'. rule_continue d allow e' = Inr e1' \<and> esim e1 e1'"
  by (auto simp: rule_meter_def rule_mirror_def rule_output_def rule_continue_def bindE_Inr esim_def list_all2_appendI
      split: option.splits)

lemma apply_rule_actions_sim:
  assumes "apply_rule_actions A meters force_inst rules source d e = Inr e1" and "esim e e'" and "list_all2 isim force_inst force_inst'"
  shows "\<exists>e1'. apply_rule_actions A meters force_inst' rules source d e' = Inr e1' \<and> esim e1 e1'"
proof -
  define f where "f = rule_flag d ''force_port_vlan''"
  define e0 where "e0 = (if f then e\<lparr>ae_allow_inst := force_inst\<rparr> else e)"
  define e0' where "e0' = (if f then e'\<lparr>ae_allow_inst := force_inst'\<rparr> else e')"
  have s0: "esim e0 e0'" using assms(2,3) by (simp add: e0_def e0'_def esim_def)
  from assms(1) obtain e2 e3 allow e4 ex where
      stages: "rule_meter meters d e0 = Inr e2" "rule_mirror d (rule_flag d ''allow'') e2 = Inr (e3, allow)"
        "rule_output A rules source d allow e3 = Inr (e4, ex)"
      and last: "(if ex then Inr e4 else rule_continue d allow e4) = Inr e1"
    by (auto simp: apply_rule_actions_def Let_def bindE_Inr e0_def f_def)
  from rule_stage_sim(1) [OF stages(1) s0] obtain e2' where e2': "rule_meter meters d e0' = Inr e2'" "esim e2 e2'" by blast
  from rule_stage_sim(2) [OF stages(2) e2'(2)] obtain e3' where
      e3': "rule_mirror d (rule_flag d ''allow'') e2' = Inr (e3', allow)" "esim e3 e3'" by blast
  from rule_stage_sim(3) [OF stages(3) e3'(2)] obtain e4' where
      e4': "rule_output A rules source d allow e3' = Inr (e4', ex)" "esim e4 e4'" by blast
  have "\<exists>e1'. (if ex then Inr e4' else rule_continue d allow e4') = Inr e1' \<and> esim e1 e1'"
    using last rule_stage_sim(4) [OF _ e4'(2)] e4'(2) by (auto split: if_splits)
  with e2'(1) e3'(1) e4'(1) show ?thesis
    unfolding apply_rule_actions_def Let_def f_def [symmetric] e0'_def [symmetric] by simp
qed

lemma apply_rule_field_sim:
  assumes "apply_rule_field A meters force_inst rules source kv e = Inr e1" and "esim e e'" and "list_all2 isim force_inst force_inst'"
  shows "\<exists>e1'. apply_rule_field A meters force_inst' rules source kv e' = Inr e1' \<and> esim e1 e1'"
proof (cases "fst kv = ''actions''")
  case True
  with assms(1) obtain d where d: "as_dict (snd kv) = Inr d" "apply_rule_actions A meters force_inst rules source d e = Inr e1"
    by (cases kv) (auto simp: apply_rule_field_def bindE_Inr)
  from apply_rule_actions_sim [OF d(2) assms(2,3)] d(1) True show ?thesis
    by (cases kv) (simp add: apply_rule_field_def)
next
  case False
  with assms(1,2) show ?thesis
    by (cases kv) (auto simp: apply_rule_field_def esim_def bindE_Inr split: if_splits)
qed

lemma fold_fields_sim:
  assumes "foldE (apply_rule_field A meters force_inst rules source) kvs e = Inr e1" and "esim e e'"
    and "list_all2 isim force_inst force_inst'"
  shows "\<exists>e1'. foldE (apply_rule_field A meters force_inst' rules source) kvs e' = Inr e1' \<and> esim e1 e1'"
  using assms(1,2)
proof (induction kvs arbitrary: e e')
  case Nil
  then show ?case by simp
next
  case (Cons kv kvs)
  then obtain e2 where e2: "apply_rule_field A meters force_inst rules source kv e = Inr e2"
      "foldE (apply_rule_field A meters force_inst rules source) kvs e2 = Inr e1" by (auto simp: bindE_Inr)
  from apply_rule_field_sim [OF e2(1) Cons.prems(2) assms(3)] obtain e2' where
    e2': "apply_rule_field A meters force_inst' rules source kv e' = Inr e2'" "esim e2 e2'" by blast
  from Cons.IH [OF e2(2) e2'(2)] e2'(1) show ?case by simp
qed

lemma build_acl_entry_sim:
  assumes "build_acl_entry A rule meters allow_inst force_inst port_num vid rules source = Inr (mt, inst, cookie, ofmsgs)"
    and "list_all2 isim allow_inst allow_inst'" and "list_all2 isim force_inst force_inst'"
  shows "\<exists>inst'. build_acl_entry A rule meters allow_inst' force_inst' port_num vid rules source = Inr (mt, inst', cookie, ofmsgs) \<and>
    list_all2 isim inst inst'"
proof -
  let ?e = "\<lambda>allow. \<lparr>ae_inst = [], ae_act = [], ae_match_dict = [], ae_ofmsgs = [], ae_cookie = None, ae_allow_inst = allow\<rparr>"
  from assms(1) obtain e1 where
      e1: "foldE (apply_rule_field A meters force_inst rules source) rule (?e allow_inst) = Inr e1"
      and mt: "match_or_config_error A (port_vlan_match A port_num vid (ae_match_dict e1)) = Inr mt"
      and rest: "inst = ae_inst e1 @ (if ae_act e1 \<noteq> [] then [apply_actions (ae_act e1)] else [])" "cookie = ae_cookie e1"
        "ofmsgs = ae_ofmsgs e1"
    by (auto simp: build_acl_entry_def bindE_Inr)
  have "esim (?e allow_inst) (?e allow_inst')" using assms(2) by (simp add: esim_def)
  from fold_fields_sim [OF e1 this assms(3)] obtain e1' where
      e1': "foldE (apply_rule_field A meters force_inst' rules source) rule (?e allow_inst') = Inr e1'" and s: "esim e1 e1'" by blast
  have "list_all2 isim inst (ae_inst e1' @ (if ae_act e1' \<noteq> [] then [apply_actions (ae_act e1')] else []))"
    using s by (auto simp: rest(1) esim_def intro: list_all2_appendI)
  with s mt rest(2,3) e1' show ?thesis by (simp add: build_acl_entry_def esim_def)
qed

section \<open>Trimming for another table\<close>

lemma isim_cases: "isim (IApplyActions acts) j \<longleftrightarrow> j = IApplyActions acts" "isim i (IApplyActions acts) \<longleftrightarrow> i = IApplyActions acts"
  by (auto simp: isim_def)

lemma isims_ex: "list_all2 isim is js \<Longrightarrow> (\<exists>i \<in> set is. is_apply_actions i) = (\<exists>j \<in> set js. is_apply_actions j)"
    "list_all2 isim is js \<Longrightarrow> (\<exists>i \<in> set is. is_goto_table i) = (\<exists>j \<in> set js. is_goto_table j)"
proof -
  have "is_apply_actions i = is_apply_actions j \<and> is_goto_table i = is_goto_table j" if "isim i j" for i j
    using that by (cases i; cases j) (auto simp: isim_def)
  then show "list_all2 isim is js \<Longrightarrow> (\<exists>i \<in> set is. is_apply_actions i) = (\<exists>j \<in> set js. is_apply_actions j)"
    "list_all2 isim is js \<Longrightarrow> (\<exists>i \<in> set is. is_goto_table i) = (\<exists>j \<in> set js. is_goto_table j)"
    by (auto simp: list_all2_conv_all_nth in_set_conv_nth) (metis in_set_conv_nth)+
qed

definition inst_keys :: "instruction list \<Rightarrow> string list" where
  "inst_keys insts = set_field_keys (concat (map inst_actions insts))"

lemma inst_keys_Cons: "inst_keys (i # is) = set_field_keys (inst_actions i) @ inst_keys is"
  by (simp add: inst_keys_def set_field_keys_def)

lemma trim_loop_sim:
  assumes "trim_inst_loop K recirc w b is = Inr is1" and "vt_table_id w = OFPTT_ALL K"
    and "vt_set_fields t = Some allowed" and "set (inst_keys is1) \<subseteq> set allowed" and "list_all2 isim is js"
  shows "\<exists>js1. trim_inst_loop K recirc t b js = Inr js1"
  using assms(1,4,5)
proof (induction "is" arbitrary: is1 js)
  case Nil
  then show ?case by simp
next
  case (Cons i "is")
  from Cons.prems(3) obtain j js' where js: "js = j # js'" "isim i j" "list_all2 isim is js'" by (auto simp: list_all2_Cons1)
  show ?case
  proof (cases "is_apply_actions i")
    case True
    then obtain acts where i: "i = IApplyActions acts" by (cases i) auto
    with js(2) have j: "j = IApplyActions acts" by (simp add: isim_cases)
    let ?trims = "\<not> b \<and> \<not> (\<exists>a \<in> set acts. is_ct a \<and> recirc a)"
    from Cons.prems(1) i obtain acts' is2 where a: "(if ?trims then trim_actions K w acts else Inr acts) = Inr acts'"
        and is2: "trim_inst_loop K recirc w b is = Inr is2" and is1: "is1 = (if acts' = [] then is2 else IApplyActions acts' # is2)"
      by (auto simp: bindE_Inr simp del: if_split)
    from is1 Cons.prems(2) have keys: "set (inst_keys is2) \<subseteq> set allowed" "set (set_field_keys acts') \<subseteq> set allowed"
      by (auto simp: inst_keys_Cons set_field_keys_def split: if_splits)
    from Cons.IH [OF is2 keys(1) js(3)] obtain js2 where js2: "trim_inst_loop K recirc t b js' = Inr js2" by blast
    have "(if ?trims then trim_actions K t acts else Inr acts) = Inr acts'"
      using a keys(2) assms(2,3) by (auto simp: trim_actions_def Let_def split: if_splits)
    with js2 show ?thesis by (simp add: js(1) j)
  next
    case False
    with js(2) have "\<not> is_apply_actions j" by (cases i; cases j) (auto simp: isim_def)
    from False Cons.prems(1) obtain is2 where is2: "trim_inst_loop K recirc w b is = Inr is2" and is1: "is1 = i # is2"
      by (cases i) (auto simp: bindE_Inr)
    from Cons.prems(2) is1 have "set (inst_keys is2) \<subseteq> set allowed" by (simp add: inst_keys_Cons)
    from Cons.IH [OF is2 this js(3)] \<open>\<not> is_apply_actions j\<close> show ?thesis by (cases j) (auto simp: js(1))
  qed
qed

lemma trim_sim:
  assumes "(if is = [] then Inr [] else trim_inst K recirc w is) = Inr is1" and "vt_table_id w = OFPTT_ALL K"
    and "vt_set_fields t = Some allowed" and "set (inst_keys is1) \<subseteq> set allowed" and "list_all2 isim is js"
  shows "\<exists>js1. (if js = [] then Inr [] else trim_inst K recirc t js) = Inr js1"
proof (cases "is = [] \<or> \<not> (\<exists>i \<in> set is. is_apply_actions i)")
  case True
  then have "js = [] \<or> \<not> (\<exists>j \<in> set js. is_apply_actions j)" using isims_ex(1) [OF assms(5)] assms(5) by auto
  then show ?thesis by (auto simp: trim_inst_def)
next
  case False
  with assms(1) have "trim_inst_loop K recirc w (\<exists>i \<in> set is. is_goto_table i) is = Inr is1" by (simp add: trim_inst_def)
  from trim_loop_sim [OF this assms(2-5)] show ?thesis
    unfolding trim_inst_def isims_ex [OF assms(5), symmetric] by auto
qed

section \<open>What is learnt\<close>

text \<open>The fields a message uses are among those learnt; more is learnt with every message.\<close>

definition uses_learnt :: "(string, bool) dict \<Rightarrow> string list \<Rightarrow> flow_mod \<Rightarrow> bool" where
  "uses_learnt matches set_fields fm \<longleftrightarrow>
     (\<forall>(f, v) \<in> set (fm_match fm). \<exists>m. dict_get matches f = Some m \<and> (is_masked v \<longrightarrow> m)) \<and>
     set (inst_keys (fm_instructions fm)) \<subseteq> set set_fields"

definition matches_le :: "(string, bool) dict \<Rightarrow> (string, bool) dict \<Rightarrow> bool" where
  "matches_le ms ms' \<longleftrightarrow> (\<forall>f m. dict_get ms f = Some m \<longrightarrow> (\<exists>m'. dict_get ms' f = Some m' \<and> (m \<longrightarrow> m')))"

definition learnt_le :: "acl \<Rightarrow> acl \<Rightarrow> bool" where
  "learnt_le acl acl' \<longleftrightarrow> acl_rules acl' = acl_rules acl \<and> acl_exact_match acl' = acl_exact_match acl \<and>
     matches_le (acl_matches acl) (acl_matches acl') \<and> set (acl_set_fields acl) \<subseteq> set (acl_set_fields acl')"

lemma matches_le_refl [simp]: "matches_le ms ms"
  by (simp add: matches_le_def)

lemma matches_le_trans: "matches_le a b \<Longrightarrow> matches_le b c \<Longrightarrow> matches_le a c"
  unfolding matches_le_def by meson

lemma learnt_le_refl [simp]: "learnt_le acl acl"
  by (simp add: learnt_le_def)

lemma learnt_le_trans: "learnt_le a b \<Longrightarrow> learnt_le b c \<Longrightarrow> learnt_le a c"
  by (auto simp: learnt_le_def intro: matches_le_trans)

lemma uses_learnt_mono: "uses_learnt ms fs fm \<Longrightarrow> matches_le ms ms' \<Longrightarrow> set fs \<subseteq> set fs' \<Longrightarrow> uses_learnt ms' fs' fm"
  unfolding uses_learnt_def matches_le_def by (fastforce simp: split_beta)

lemma learn_match_le: "matches_le ms (learn_match kv ms)"
  by (auto simp: matches_le_def learn_match_def Let_def)

lemma learn_matches_le: "matches_le ms (foldl (\<lambda>ms kv. learn_match kv ms) ms kvs)"
proof (induction kvs arbitrary: ms)
  case Nil
  then show ?case by simp
next
  case (Cons kv kvs)
  have "matches_le ms (foldl (\<lambda>ms kv. learn_match kv ms) (learn_match kv ms) kvs)"
    by (rule matches_le_trans [OF learn_match_le Cons.IH])
  then show ?case by simp
qed

lemma learn_matches_learnt:
  "(f, v) \<in> set kvs \<Longrightarrow> \<exists>m. dict_get (foldl (\<lambda>ms kv. learn_match kv ms) ms kvs) f = Some m \<and> (is_masked v \<longrightarrow> m)"
proof (induction kvs arbitrary: ms)
  case Nil
  then show ?case by simp
next
  case (Cons kv kvs)
  show ?case
  proof (cases "kv = (f, v)")
    case True
    have "\<exists>m. dict_get (learn_match (f, v) ms) f = Some m \<and> (is_masked v \<longrightarrow> m)"
      by (auto simp: learn_match_def Let_def)
    with learn_matches_le [of "learn_match (f, v) ms" kvs] show ?thesis
      unfolding matches_le_def True by (metis foldl_Cons)
  next
    case False
    with Cons.prems have "(f, v) \<in> set kvs" by auto
    from Cons.IH [OF this, of "learn_match kv ms"] show ?thesis by simp
  qed
qed

lemma add_to_set_set: "set (add_to_set xs ys) = set xs \<union> set ys"
  unfolding add_to_set_def by (induction ys arbitrary: xs) auto

lemma learn_message_le: "learnt_le acl (learn_message msg acl)"
  by (cases msg) (auto simp: learnt_le_def add_to_set_set learn_matches_le)

lemma learn_message_uses:
  "acl_matches (learn_message (FlowModMsg fm) acl) = ms \<Longrightarrow> acl_set_fields (learn_message (FlowModMsg fm) acl) = fs \<Longrightarrow>
   uses_learnt ms fs fm"
  using learn_matches_learnt by (fastforce simp: uses_learnt_def inst_keys_def add_to_set_set)

lemma learn_fold:
  assumes "foldE (\<lambda>ofmsg acl. bindE (or_config_error (serialize ofmsg)) (\<lambda>_. Inr (learn_message ofmsg acl))) ms acl = Inr acl'"
  shows "learnt_le acl acl' \<and> (\<forall>fm. FlowModMsg fm \<in> set ms \<longrightarrow> uses_learnt (acl_matches acl') (acl_set_fields acl') fm)"
  using assms
proof (induction ms arbitrary: acl)
  case Nil
  then show ?case by simp
next
  case (Cons m ms)
  from Cons.prems have rest: "foldE (\<lambda>ofmsg acl. bindE (or_config_error (serialize ofmsg)) (\<lambda>_. Inr (learn_message ofmsg acl))) ms
      (learn_message m acl) = Inr acl'" by (auto simp: bindE_Inr)
  note IH = Cons.IH [OF rest]
  then have le: "learnt_le (learn_message m acl) acl'" by blast
  have "uses_learnt (acl_matches acl') (acl_set_fields acl') fm" if "m = FlowModMsg fm" for fm
    by (rule uses_learnt_mono [OF learn_message_uses [where acl = acl, OF refl refl]]) (use le that in \<open>simp_all add: learnt_le_def\<close>)
  with IH learnt_le_trans [OF learn_message_le le] show ?case by auto
qed

lemma learn_messages_learnt:
  assumes "learn_messages serialize ms acl = Inr acl'"
  shows "learnt_le acl acl' \<and> (\<forall>fm. FlowModMsg fm \<in> set ms \<longrightarrow> uses_learnt (acl_matches acl') (acl_set_fields acl') fm)"
  using assms by (auto simp: learn_messages_def bindE_Inr dest: learn_fold)

lemma acl_build_learnt:
  assumes "acl_build A serialize meters vid port_num acl = Inr acl'"
  shows "acl_rules acl' = acl_rules acl \<and> acl_exact_match acl' = acl_exact_match acl \<and>
    (acl_rules acl \<noteq> [] \<longrightarrow> (\<exists>ms. build_acl_ofmsgs A [acl] (wildcard_table (al_ofp A))
        (wildcard_args A meters (acl_exact_match acl) vid port_num) = Inr ms \<and>
      (\<forall>fm. FlowModMsg fm \<in> set ms \<longrightarrow> uses_learnt (acl_matches acl') (acl_set_fields acl') fm)))"
proof -
  define acl0 where "acl0 = acl\<lparr>acl_matches := [], acl_set_fields := [], acl_meter := False\<rparr>"
  define tunnels where "tunnels = (\<lambda>(dest :: tunnel_dest) acl.
             bindE (or_config_error (build_tunnel_ofmsgs A (td_exit_instructions dest) (wildcard_table (al_ofp A)) 1 None None False False))
               (\<lambda>ofmsgs. learn_messages serialize ofmsgs acl))"
  from assms obtain acl1 where
      acl1: "(if acl_rules acl0 \<noteq> [] then
                  bindE (or_config_error (build_acl_ofmsgs A [acl0] (wildcard_table (al_ofp A))
                           (wildcard_args A meters (acl_exact_match acl0) vid port_num)))
                    (\<lambda>ofmsgs. learn_messages serialize ofmsgs acl0)
                else Inr acl0) = Inr acl1"
      and acl': "foldE tunnels (dict_values (acl_tunnel_dests acl1)) acl1 = Inr acl'"
    unfolding acl_build_def Let_def acl0_def [symmetric] tunnels_def [symmetric] by (auto simp: bindE_Inr simp del: if_split)
  have same: "acl_rules acl0 = acl_rules acl" "acl_exact_match acl0 = acl_exact_match acl" by (simp_all add: acl0_def)
  have le': "learnt_le acl1 acl'"
  proof (rule foldE_invariant [where P = "learnt_le acl1", OF acl' learnt_le_refl])
    fix dest a b assume "learnt_le acl1 a" and "tunnels dest a = Inr b"
    from this(2) obtain ms where "learn_messages serialize ms a = Inr b" unfolding tunnels_def by (auto simp: bindE_Inr)
    with \<open>learnt_le acl1 a\<close> show "learnt_le acl1 b" by (meson learn_messages_learnt learnt_le_trans)
  qed
  show ?thesis
  proof (cases "acl_rules acl = []")
    case True
    with acl1 le' same show ?thesis by (simp add: learnt_le_def)
  next
    case False
    with acl1 same obtain ms where ms: "build_acl_ofmsgs A [acl0] (wildcard_table (al_ofp A))
        (wildcard_args A meters (acl_exact_match acl0) vid port_num) = Inr ms" and l: "learn_messages serialize ms acl0 = Inr acl1"
      by (auto simp: bindE_Inr or_config_error_def split: sum.splits)
    have "build_acl_ofmsgs A [acl] (wildcard_table (al_ofp A)) (wildcard_args A meters (acl_exact_match acl) vid port_num) = Inr ms"
      using ms by (simp add: build_acl_ofmsgs_def same)
    moreover have "uses_learnt (acl_matches acl') (acl_set_fields acl') fm" if "FlowModMsg fm \<in> set ms" for fm
      using learn_messages_learnt [OF l] that le' uses_learnt_mono unfolding learnt_le_def by blast
    ultimately show ?thesis using learn_messages_learnt [OF l] le' same by (auto simp: learnt_le_def)
  qed
qed

section \<open>Tables that cover an ACL\<close>

definition table_covers :: "valve_table \<Rightarrow> (string, bool) dict \<Rightarrow> string list \<Rightarrow> bool" where
  "table_covers t matches set_fields \<longleftrightarrow> \<not> vt_exact_match t \<and>
     (\<forall>f m. dict_get matches f = Some m \<longrightarrow>
        (\<exists>mts m'. vt_match_types t = Some mts \<and> dict_get mts f = Some m' \<and> (m \<longrightarrow> m'))) \<and>
     (\<exists>allowed. vt_set_fields t = Some allowed \<and> set set_fields \<subseteq> set allowed)"

lemma covered_flow_fits:
  assumes "table_covers t matches set_fields" and "uses_learnt matches set_fields fm" and "fm_match fm' = fm_match fm"
    and "fm_priority fm' \<noteq> 0"
  shows "fits_table K t fm'"
  unfolding fits_table_def
proof (intro conjI ballI)
  fix item assume "item \<in> set (fm_match fm')"
  then obtain m where m: "dict_get matches (fst item) = Some m" "is_masked (snd item) \<longrightarrow> m"
    using assms(2,3) by (auto simp: uses_learnt_def split_beta)
  with assms(1) obtain mts m' where "vt_match_types t = Some mts" "dict_get mts (fst item) = Some m'" "m \<longrightarrow> m'"
    unfolding table_covers_def by blast
  with m(2) assms(1) show "case item of (field, val) \<Rightarrow> \<exists>mts. vt_match_types t = Some mts \<and>
        (case dict_get mts field of None \<Rightarrow> False | Some has_mask \<Rightarrow> is_masked val \<longrightarrow> has_mask) \<and>
        (vt_exact_match t \<longrightarrow> length (fm_match fm') = length mts)"
    by (auto simp: table_covers_def split_beta)
qed (use assms(4) in simp)

lemma acl_flowmod_covered:
  assumes "acl_flowmod A w mt pw inst cookie = Inr (FlowModMsg fm)" and "vt_table_id w = OFPTT_ALL (al_ofp A)"
    and "list_all2 isim inst inst'" and "uses_learnt matches set_fields fm" and "table_covers t matches set_fields"
    and "vt_table_id t \<noteq> OFPTT_ALL (al_ofp A)" and "0 < priority"
  shows "\<exists>m. acl_flowmod A t mt priority inst' cookie = Inr m"
proof -
  from acl_flowmod_msg [OF assms(1)] have
      trim: "(if inst = [] then Inr [] else trim_inst (al_ofp A) (lib_recirc (al_lib A)) w inst) = Inr (fm_instructions fm)"
      and mt: "fm_match fm = mt" by auto
  from assms(5) obtain allowed where allowed: "vt_set_fields t = Some allowed" "set set_fields \<subseteq> set allowed"
    by (auto simp: table_covers_def)
  have "set (inst_keys (fm_instructions fm)) \<subseteq> set allowed" using assms(4) allowed(2) by (auto simp: uses_learnt_def)
  from trim_sim [OF trim assms(2) allowed(1) this assms(3)] obtain js where
      js: "(if inst' = [] then Inr [] else trim_inst (al_ofp A) (lib_recirc (al_lib A)) t inst') = Inr js" by blast
  define fm' where "fm' = flowmod (case cookie of None \<Rightarrow> vt_flow_cookie t | Some c \<Rightarrow> c) OFPFC_ADD (vt_table_id t) priority 0 0 mt js 0 0
    (if vt_notify_flow_removed t then OFPFF_SEND_FLOW_REM (al_ofp A) else 0)"
  have fm': "fm_match fm' = fm_match fm" "fm_priority fm' \<noteq> 0" "\<not> is_flowdel (FlowModMsg fm')"
    using assms(7) mt by (simp_all add: fm'_def flowmod_def)
  have "verify_flowmod (al_ofp A) t fm' = Inr ()"
    unfolding verify_flowmod_fits [OF fm'(3) assms(6)] by (rule covered_flow_fits [OF assms(5,4) fm'(1,2)])
  then have "acl_flowmod A t mt priority inst' cookie = Inr (FlowModMsg fm')"
    using js by (auto simp: acl_flowmod_def vt_flowmod_def flow_defaults_def fm'_def Let_def)
  then show ?thesis by blast
qed

text \<open>What is composed for a port is composed against all tables with other gotos and priorities.\<close>

definition args_sim :: "acl_args \<Rightarrow> acl_args \<Rightarrow> bool" where
  "args_sim w a \<longleftrightarrow> list_all2 isim (aa_allow_inst w) (aa_allow_inst a) \<and> list_all2 isim (aa_force_inst w) (aa_force_inst a) \<and>
     aa_meters a = aa_meters w \<and> aa_port_num a = aa_port_num w \<and> aa_vlan_vid a = aa_vlan_vid w \<and>
     aa_tunnel_rules a = aa_tunnel_rules w \<and> aa_source a = aa_source w \<and> \<not> aa_flowdel w \<and> \<not> aa_flowdel a"

lemma build_rule_covered:
  assumes "build_rule_ofmsgs A w wa rule pw = Inr ms" and "vt_table_id w = OFPTT_ALL (al_ofp A)" and "args_sim wa a"
    and "\<forall>fm. FlowModMsg fm \<in> set ms \<longrightarrow> uses_learnt matches set_fields fm" and "table_covers t matches set_fields"
    and "vt_table_id t \<noteq> OFPTT_ALL (al_ofp A)" and "0 < priority" and "0 < aa_highest_priority a"
  shows "\<exists>ms'. build_rule_ofmsgs A t a rule priority = Inr ms'"
proof -
  from assms(1,3) obtain mt inst cookie ofmsgs m where
      e: "build_acl_entry A rule (aa_meters wa) (aa_allow_inst wa) (aa_force_inst wa) (aa_port_num wa) (aa_vlan_vid wa)
        (aa_tunnel_rules wa) (aa_source wa) = Inr (mt, inst, cookie, ofmsgs)"
      and m: "acl_flowmod A w mt (if aa_exact_match wa then aa_highest_priority wa else pw) inst cookie = Inr m"
      and ms: "ms = ofmsgs @ [m]"
    by (auto simp: build_rule_ofmsgs_def bindE_Inr args_sim_def simp del: if_split split: if_splits)
  from acl_flowmod_msg [OF m] obtain fm where fm: "m = FlowModMsg fm" by blast
  have uses: "uses_learnt matches set_fields fm" using assms(4) ms fm by simp
  from build_acl_entry_sim [OF e, of "aa_allow_inst a" "aa_force_inst a"] assms(3) obtain inst' where
      e': "build_acl_entry A rule (aa_meters a) (aa_allow_inst a) (aa_force_inst a) (aa_port_num a) (aa_vlan_vid a)
        (aa_tunnel_rules a) (aa_source a) = Inr (mt, inst', cookie, ofmsgs)" and sim: "list_all2 isim inst inst'"
    by (auto simp: args_sim_def)
  have "0 < (if aa_exact_match a then aa_highest_priority a else priority)" using assms(7,8) by simp
  from acl_flowmod_covered [OF m [unfolded fm] assms(2) sim uses assms(5,6) this] e' assms(3) show ?thesis
    by (auto simp: build_rule_ofmsgs_def args_sim_def)
qed

lemma build_rules_covered:
  assumes "build_rules A w wa rules pw = Inr ms" and "vt_table_id w = OFPTT_ALL (al_ofp A)" and "args_sim wa a"
    and "\<forall>fm. FlowModMsg fm \<in> set ms \<longrightarrow> uses_learnt matches set_fields fm" and "table_covers t matches set_fields"
    and "vt_table_id t \<noteq> OFPTT_ALL (al_ofp A)" and "int (length rules) \<le> priority" and "0 < aa_highest_priority a"
  shows "\<exists>ms'. build_rules A t a rules priority = Inr ms'"
  using assms(1,4,7)
proof (induction rules arbitrary: pw priority ms)
  case Nil
  then show ?case by simp
next
  case (Cons rule rules)
  from Cons.prems(1) obtain xs ys where xs: "build_rule_ofmsgs A w wa rule pw = Inr xs"
      and ys: "build_rules A w wa rules (pw - 1) = Inr ys" and ms: "ms = xs @ ys" by (auto simp: bindE_Inr)
  have "\<exists>xs'. build_rule_ofmsgs A t a rule priority = Inr xs'"
    by (rule build_rule_covered [OF xs assms(2,3) _ assms(5,6) _ assms(8)]) (use Cons.prems(2,3) ms in auto)
  moreover have "\<exists>ys'. build_rules A t a rules (priority - 1) = Inr ys'"
    by (rule Cons.IH [OF ys]) (use Cons.prems(2,3) ms in auto)
  ultimately show ?case by auto
qed

lemma build_rules_append:
  "build_rules A t a (xs @ ys) priority =
     bindE (build_rules A t a xs priority) (\<lambda>ms. bindE (build_rules A t a ys (priority - int (length xs))) (\<lambda>ns. Inr (ms @ ns)))"
proof (induction xs arbitrary: priority)
  case Nil
  show ?case by (cases "build_rules A t a ys priority") simp_all
next
  case (Cons x xs)
  show ?case
  proof (cases "build_rule_ofmsgs A t a x priority")
    case (Inr ms)
    then show ?thesis
      by (cases "build_rules A t a xs (priority - 1)"; cases "build_rules A t a ys (priority - 1 - int (length xs))")
        (simp_all add: Cons.IH algebra_simps)
  qed simp
qed

lemma build_acls_covered:
  assumes "list_all2 (\<lambda>acl acl'. acl_build A serialize meters vid port_num acl = Inr acl') acls acls'"
    and "\<forall>acl \<in> set acls'. table_covers t (acl_matches acl) (acl_set_fields acl)"
    and "\<And>ex. args_sim (wildcard_args A meters ex vid port_num) a"
    and "vt_table_id t \<noteq> OFPTT_ALL (al_ofp A)" and "int (length (concat (map acl_rules acls'))) \<le> priority" and "0 < aa_highest_priority a"
  shows "\<exists>ms. build_rules A t a (concat (map acl_rules acls')) priority = Inr ms"
  using assms(1,2,5)
proof (induction arbitrary: priority rule: list_all2_induct)
  case Nil
  then show ?case by simp
next
  case (Cons acl acls acl' acls')
  have "\<exists>ms. build_rules A t a (acl_rules acl') priority = Inr ms"
  proof (cases "acl_rules acl = []")
    case True
    with acl_build_learnt [OF Cons.hyps(1)] show ?thesis by simp
  next
    case False
    let ?w = "wildcard_table (al_ofp A)" and ?wa = "wildcard_args A meters (acl_exact_match acl) vid port_num"
    from False acl_build_learnt [OF Cons.hyps(1)] obtain ms where
        ms: "build_rules A ?w ?wa (acl_rules acl') (aa_highest_priority ?wa) = Inr ms"
        and uses: "\<forall>fm. FlowModMsg fm \<in> set ms \<longrightarrow> uses_learnt (acl_matches acl') (acl_set_fields acl') fm"
      by (auto simp: build_acl_ofmsgs_def)
    show ?thesis
      by (rule build_rules_covered [OF ms _ assms(3) uses _ assms(4) _ assms(6)])
        (use Cons.prems in \<open>simp_all add: wildcard_table_def mk_valve_table_def ValveTableConfig_def\<close>)
  qed
  moreover have "\<exists>ns. build_rules A t a (concat (map acl_rules acls')) (priority - int (length (acl_rules acl'))) = Inr ns"
    by (rule Cons.IH) (use Cons.prems in simp_all)
  ultimately show ?case by (auto simp: build_rules_append)
qed

section \<open>The table generated for the ACLs\<close>

definition acl_conf_of :: "acl \<Rightarrow> acl_conf" where
  "acl_conf_of acl = \<lparr>ac_matches = acl_matches acl, ac_set_fields = acl_set_fields acl, ac_meter = acl_meter acl,
     ac_exact_match = acl_exact_match acl, ac_dot1x_assigned = acl_dot1x_assigned acl\<rparr>"

definition merge_acl :: "(string, bool) dict \<Rightarrow> acl_conf \<Rightarrow> (string, bool) dict" where
  "merge_acl ms acl = foldl (\<lambda>ms (field, has_mask). if has_mask \<or> dict_get ms field = None then dict_set field has_mask ms else ms)
     ms (ac_matches acl)"

lemma merge_matches_alt: "merge_matches acls = foldl merge_acl [] acls"
  by (simp add: merge_matches_def merge_acl_def [abs_def])

lemma merge_step_le: "matches_le ms (if b \<or> dict_get ms f = None then dict_set f b ms else ms)"
  by (auto simp: matches_le_def)

lemma merge_acl_le: "matches_le ms (merge_acl ms acl)"
proof -
  have "matches_le ms (foldl (\<lambda>ms (field, has_mask). if has_mask \<or> dict_get ms field = None then dict_set field has_mask ms else ms) ms kvs)" for kvs
  proof (induction kvs arbitrary: ms)
    case Nil
    then show ?case by simp
  next
    case (Cons kv kvs)
    show ?case
    proof (cases kv)
      case (Pair f b)
      show ?thesis unfolding Pair foldl_Cons prod.case by (rule matches_le_trans [OF merge_step_le Cons.IH])
    qed
  qed
  then show ?thesis by (simp add: merge_acl_def)
qed

lemma merge_acl_covers: "matches_le (ac_matches acl) (merge_acl ms acl)"
proof -
  have "matches_le kvs (foldl (\<lambda>ms (field, has_mask). if has_mask \<or> dict_get ms field = None then dict_set field has_mask ms else ms) ms kvs)" for kvs
  proof (induction kvs rule: rev_induct)
    case Nil
    then show ?case by (simp add: matches_le_def)
  next
    case (snoc kv kvs)
    let ?g = "foldl (\<lambda>ms (field, has_mask). if has_mask \<or> dict_get ms field = None then dict_set field has_mask ms else ms) ms kvs"
    obtain f b where kv: "kv = (f, b)" by (cases kv)
    have step: "foldl (\<lambda>ms (field, has_mask). if has_mask \<or> dict_get ms field = None then dict_set field has_mask ms else ms) ms (kvs @ [kv])
        = (if b \<or> dict_get ?g f = None then dict_set f b ?g else ?g)" by (simp add: kv)
    show ?case
      unfolding matches_le_def step
    proof (intro allI impI)
      fix f' m assume "dict_get (kvs @ [kv]) f' = Some m"
      then have "dict_get kvs f' = Some m \<or> f' = f \<and> m = b"
        by (auto simp: kv dict_get_def map_add_Some_iff split: if_splits)
      then show "\<exists>m'. dict_get (if b \<or> dict_get ?g f = None then dict_set f b ?g else ?g) f' = Some m' \<and> (m \<longrightarrow> m')"
      proof
        assume "dict_get kvs f' = Some m"
        with matches_le_trans [OF snoc.IH merge_step_le [of ?g b f]] show ?thesis unfolding matches_le_def by blast
      qed (cases "dict_get ?g f"; auto)
    qed
  qed
  then show ?thesis by (simp add: merge_acl_def)
qed

lemma merge_matches_covers: "acl \<in> set acls \<Longrightarrow> matches_le (ac_matches acl) (merge_matches acls)"
  unfolding merge_matches_alt
proof (induction acls rule: rev_induct)
  case Nil
  then show ?case by simp
next
  case (snoc x acls)
  show ?case
  proof (cases "acl = x")
    case True
    then show ?thesis by (simp add: merge_acl_covers)
  next
    case False
    with snoc have "matches_le (ac_matches acl) (foldl merge_acl [] acls)" by simp
    then show ?thesis using matches_le_trans [OF _ merge_acl_le] by simp
  qed
qed

text \<open>The list of match types is sorted by name; the table reads it back.\<close>

lemma table_match_types:
  "dict_ok d \<Longrightarrow> vt_match_types (mk_valve_table name c cookie notify nexts) = Some mts \<Longrightarrow>
     tc_match_types c = Some (sort_key fst d) \<Longrightarrow> dict_get mts f = dict_get d f"
proof -
  assume ok: "dict_ok d" and m: "vt_match_types (mk_valve_table name c cookie notify nexts) = Some mts"
    and c: "tc_match_types c = Some (sort_key fst d)"
  from m c have mts: "mts = foldl (\<lambda>d (field, has_mask). dict_set field has_mask d) [] (sort_key fst d)"
    by (auto simp: mk_valve_table_def split: if_splits)
  have fold: "dict_get (foldl (\<lambda>d (field, has_mask). dict_set field has_mask d) acc kvs) f =
      (case find (\<lambda>kv. fst kv = f) (rev kvs) of Some kv \<Rightarrow> Some (snd kv) | None \<Rightarrow> dict_get acc f)"
    for acc and kvs :: "(string, bool) dict" and f
    by (induction kvs rule: rev_induct) auto
  show "dict_get mts f = dict_get d f"
  proof (cases "find (\<lambda>kv. fst kv = f) (rev (sort_key fst d))")
    case None
    then have "f \<notin> set (dict_keys d)" by (auto simp: find_rev_None dict_keys_def)
    then have "dict_get d f = None" by (simp add: dict_get_None)
    with None show ?thesis by (simp add: mts fold)
  next
    case (Some kv)
    then obtain i where i: "i < length (rev (sort_key fst d))" "rev (sort_key fst d) ! i = kv" "fst kv = f"
      unfolding find_Some_iff by blast
    from nth_mem [OF i(1)] have "kv \<in> set d" unfolding i(2) set_rev set_sort .
    with i(3) ok have "dict_get d f = Some (snd kv)" by (metis dict_ok_in surjective_pairing)
    with Some show ?thesis by (simp add: mts fold)
  qed
qed

lemma merge_matches_ok: "dict_ok (merge_matches acls)"
proof -
  have "dict_ok ms \<Longrightarrow> dict_ok (foldl (\<lambda>ms (field, has_mask). if has_mask \<or> dict_get ms field = None then dict_set field has_mask ms else ms) ms kvs)"
    for ms :: "(string, bool) dict" and kvs
    by (induction kvs arbitrary: ms) auto
  then have step: "dict_ok ms \<Longrightarrow> dict_ok (merge_acl ms acl)" for ms acl by (simp add: merge_acl_def)
  show ?thesis unfolding merge_matches_alt by (induction acls rule: rev_induct) (auto intro: step)
qed

lemma generated_table_covers:
  assumes "acl_conf_of acl \<in> set confs" and "tc_match_types c = tc_match_types (acl_table_config name confs dflt)"
    and "tc_set_fields c = tc_set_fields (acl_table_config name confs dflt)" and "\<not> tc_exact_match c"
  shows "table_covers (mk_valve_table name' c cookie notify nexts) (acl_matches acl) (acl_set_fields acl)"
proof -
  let ?t = "mk_valve_table name' c cookie notify nexts"
  have c: "tc_match_types c = Some (sort_key fst (merge_matches confs))" using assms(2) by (simp add: acl_table_config_def)
  have le: "matches_le (acl_matches acl) (merge_matches confs)" using merge_matches_covers [OF assms(1)] by (simp add: acl_conf_of_def)
  have "\<exists>mts m'. vt_match_types ?t = Some mts \<and> dict_get mts f = Some m' \<and> (m \<longrightarrow> m')" if "dict_get (acl_matches acl) f = Some m" for f m
  proof -
    from le that obtain m' where m': "dict_get (merge_matches confs) f = Some m'" "m \<longrightarrow> m'" unfolding matches_le_def by blast
    then have "sort_key fst (merge_matches confs) \<noteq> []" by (metis dict_get_Nil length_0_conv length_sort option.distinct(1))
    then obtain mts where mts: "vt_match_types ?t = Some mts" using c by (simp add: mk_valve_table_def)
    with table_match_types [OF merge_matches_ok mts c] m' show ?thesis by auto
  qed
  moreover have "vt_set_fields ?t = Some (sort (remdups (concat (map ac_set_fields confs))))" "\<not> vt_exact_match ?t"
    using assms(3,4) by (simp_all add: mk_valve_table_def acl_table_config_def)
  moreover have "set (acl_set_fields acl) \<subseteq> set (concat (map ac_set_fields confs))"
    using assms(1) by (force simp: acl_conf_of_def)
  ultimately show ?thesis unfolding table_covers_def by auto
qed

text \<open>C6. For ACLs that were built successfully for a port, and a port ACL table with the match types
  and set fields the pipeline generates from a list of ACLs that has them all, the ACL manager
  composes the flows of the port without an error: the fields build learns are all the fields the
  flows use, whatever tables they go to. The table does not match exactly and is not the wildcard
  table, and there are at most as many rules as the priority of ACLs; with an exact match the
  composition can fail (valve_table.py:172).\<close>

lemma acl_flows_fit:
  assumes "list_all2 (\<lambda>acl acl'. acl_build A serialize (am_meters m) None (Some (p_number p)) acl = Inr acl') acls acls'"
    and "am_port_acl_table m = Some (mk_valve_table name c cookie notify nexts)"
    and "tc_match_types c = tc_match_types (acl_table_config ''port_acl'' confs dflt)"
    and "tc_set_fields c = tc_set_fields (acl_table_config ''port_acl'' confs dflt)"
    and "\<not> tc_exact_match c" and "tc_table_id c \<noteq> OFPTT_ALL (al_ofp A)" and "\<forall>acl \<in> set acls'. acl_conf_of acl \<in> set confs"
    and "acls' \<noteq> []" and "int (length (concat (map acl_rules acls'))) \<le> am_acl_priority m" and "0 < am_acl_priority m"
  shows "\<exists>ms. acl_add_port A m p acls' dot1x = Inr ms"
proof (cases "port_acls_allowed m p")
  case False
  then show ?thesis by (simp add: acl_add_port_def)
next
  case True
  let ?t = "mk_valve_table name c cookie notify nexts"
  from assms(8) obtain acl rest where acls': "acls' = acl # rest" by (cases acls') auto
  define a where "a = (manager_args m (accept_to_vlan (am_pipeline m) []) (accept_to_l2_forwarding (am_pipeline m) []) (acl_exact_match acl))
      \<lparr>aa_port_num := Some (p_number p)\<rparr>"
  have sim: "args_sim (wildcard_args A (am_meters m) ex None (Some (p_number p))) a" for ex
    by (simp add: args_sim_def wildcard_args_def a_def manager_args_def accept_to_vlan_def accept_to_l2_forwarding_def
      accept_to_table_def goto_this_def goto_table_id_def isim_def)
  have covers: "\<forall>acl \<in> set acls'. table_covers ?t (acl_matches acl) (acl_set_fields acl)"
    using generated_table_covers [OF _ assms(3,4,5)] assms(7) by blast
  have "vt_table_id ?t \<noteq> OFPTT_ALL (al_ofp A)" using assms(6) by (simp add: mk_valve_table_def)
  moreover have "0 < aa_highest_priority a" "aa_highest_priority a = am_acl_priority m"
    using assms(10) by (simp_all add: a_def manager_args_def)
  ultimately obtain ms where "build_rules A ?t a (concat (map acl_rules acls')) (aa_highest_priority a) = Inr ms"
    using build_acls_covered [OF assms(1) covers sim] assms(9) by metis
  then have "build_acl_ofmsgs A acls' ?t a = Inr ms" by (simp add: build_acl_ofmsgs_def)
  then show ?thesis using True assms(2) by (simp add: acl_add_port_def need_table_def acls' a_def)
qed

subsection \<open>Witness\<close>

definition example_built_acl :: acl where
  "example_built_acl = example_acl\<lparr>acl_matches := [(''eth_type'', False), (''in_port'', False)]\<rparr>"

definition example_generated :: table_config where
  "example_generated = acl_table_config ''port_acl'' [acl_conf_of example_built_acl] (ValveTableConfig ''port_acl'' 0)"

definition example_generated_manager :: acl_manager where
  "example_generated_manager =
     example_acl_manager\<lparr>am_port_acl_table := Some (mk_valve_table ''port_acl'' example_generated 0 False [])\<rparr>"

lemma acl_flows_fit_witness:
  "\<exists>ms. acl_add_port example_acl_lib example_generated_manager (default_port 1) [example_built_acl] False = Inr ms"
proof -
  have "acl_build example_acl_lib (\<lambda>_. Inr ()) (am_meters example_generated_manager) None (Some (p_number (default_port 1))) example_acl =
      Inr example_built_acl" by code_simp
  then have built: "list_all2 (\<lambda>acl acl'. acl_build example_acl_lib (\<lambda>_. Inr ()) (am_meters example_generated_manager) None
      (Some (p_number (default_port 1))) acl = Inr acl') [example_acl] [example_built_acl]" by simp
  have t: "am_port_acl_table example_generated_manager = Some (mk_valve_table ''port_acl'' example_generated 0 False [])"
    by (simp add: example_generated_manager_def)
  have "\<not> tc_exact_match example_generated" "tc_table_id example_generated \<noteq> OFPTT_ALL (al_ofp example_acl_lib)"
    "int (length (concat (map acl_rules [example_built_acl]))) \<le> am_acl_priority example_generated_manager"
    "0 < am_acl_priority example_generated_manager"
    by code_simp+
  then show ?thesis
    by (intro acl_flows_fit [OF built t, where confs = "[acl_conf_of example_built_acl]" and dflt = "ValveTableConfig ''port_acl'' 0"])
      (simp_all add: example_generated_def)
qed

text \<open>
  A table with exact match takes only flows that match all of its fields: an ACL with exact match whose rules use
  different fields is built, and fails when its flows are composed.
\<close>

definition exact_acl :: acl where
  "exact_acl = example_acl\<lparr>acl_exact_match := True\<rparr>"

definition exact_built_acl :: acl where
  "exact_built_acl = example_built_acl\<lparr>acl_exact_match := True\<rparr>"

definition exact_manager :: acl_manager where
  "exact_manager =
     example_acl_manager\<lparr>am_port_acl_table :=
       Some (mk_valve_table ''port_acl'' (acl_table_config ''port_acl'' [acl_conf_of exact_built_acl] (ValveTableConfig ''port_acl'' 0)) 0 False [])\<rparr>"

lemma exact_match_fails:
  "acl_build example_acl_lib (\<lambda>_. Inr ()) (am_meters exact_manager) None (Some 1) exact_acl = Inr exact_built_acl"
  "acl_add_port example_acl_lib exact_manager (default_port 1) [exact_built_acl] False = Inl AssertionError"
  by code_simp+

end
