(* ===== verification/StackGraph.thy ===== *)
theory StackGraph imports Port "HOL-Library.List_Lexorder" "HOL-Library.Char_ord" begin

text \<open>
  The graph of a stack. The graph library (a multigraph whose edges have keys, and its shortest paths) is
  a parameter: the record \<open>nx\<close> holds the operations \<^verbatim>\<open>faucet/stack.py\<close> calls, over a type of graphs
  \<open>'g\<close>, and the locale \<open>multigraph\<close> the documented behaviour the code relies on. It is interpreted on
  lists of nodes and edges, with a search by increasing length.
\<close>

section \<open>Walks\<close>

fun walk :: "('n \<Rightarrow> 'n \<Rightarrow> bool) \<Rightarrow> 'n list \<Rightarrow> bool" where
  "walk E [] = False"
| "walk E [x] = True"
| "walk E (x # y # p) = (E x y \<and> walk E (y # p))"

definition is_path :: "('n \<Rightarrow> 'n \<Rightarrow> bool) \<Rightarrow> 'n \<Rightarrow> 'n \<Rightarrow> 'n list \<Rightarrow> bool" where
  "is_path E s d p \<longleftrightarrow> walk E p \<and> hd p = s \<and> last p = d"

definition shortest :: "('n \<Rightarrow> 'n \<Rightarrow> bool) \<Rightarrow> 'n \<Rightarrow> 'n \<Rightarrow> 'n list \<Rightarrow> bool" where
  "shortest E s d p \<longleftrightarrow> is_path E s d p \<and> (\<forall>q. is_path E s d q \<longrightarrow> length p \<le> length q)"

lemma walk_Cons: "walk E (x # p) \<longleftrightarrow> p = [] \<or> (E x (hd p) \<and> walk E p)"
  by (cases p) auto

lemma walk_not_Nil: "walk E p \<Longrightarrow> p \<noteq> []"
  by auto

lemma is_path_not_Nil: "is_path E s d p \<Longrightarrow> p \<noteq> []"
  by (auto simp: is_path_def)

lemma is_path_one [simp]: "is_path E s d [x] \<longleftrightarrow> x = s \<and> x = d"
  by (auto simp: is_path_def)

lemma is_path_Cons2: "is_path E s d (x # y # p) \<longleftrightarrow> x = s \<and> E s y \<and> is_path E y d (y # p)"
  by (auto simp: is_path_def)

lemma is_path_Cons: "E s v \<Longrightarrow> is_path E v d p \<Longrightarrow> is_path E s d (s # p)"
  by (cases p) (auto simp: is_path_def)

lemma walk_append: "xs \<noteq> [] \<Longrightarrow> ys \<noteq> [] \<Longrightarrow> walk E (xs @ ys) \<longleftrightarrow> walk E xs \<and> E (last xs) (hd ys) \<and> walk E ys"
proof (induction xs)
  case Nil
  then show ?case by simp
next
  case (Cons x xs)
  then show ?case by (cases "xs = []") (auto simp: walk_Cons hd_append)
qed

lemma walk_rev: "walk E p \<Longrightarrow> walk (\<lambda>u v. E v u) (rev p)"
proof (induction p)
  case Nil
  then show ?case by simp
next
  case (Cons x p)
  then show ?case by (cases "p = []") (auto simp: walk_append walk_Cons last_rev)
qed

lemma is_path_rev: "is_path E s d p \<Longrightarrow> is_path (\<lambda>u v. E v u) d s (rev p)"
  by (auto simp: is_path_def walk_rev last_rev hd_rev dest: walk_not_Nil)

lemma walk_suffix: "walk E (xs @ y # ys) \<Longrightarrow> walk E (y # ys)"
  by (cases "xs = []") (auto simp: walk_append)

lemma walk_join: "walk E (xs @ [x]) \<Longrightarrow> walk E (x # ys) \<Longrightarrow> walk E (xs @ x # ys)"
  by (cases "xs = []") (auto simp: walk_append)

lemma walk_prefix: "walk E (xs @ x # ys) \<Longrightarrow> walk E (xs @ [x])"
  by (cases "xs = []") (auto simp: walk_append)

text \<open>A shortest path visits no node twice; its end is a shortest path of the next node.\<close>

lemma shortest_distinct:
  assumes "shortest E s d p"
  shows "distinct p"
proof (rule ccontr)
  assume "\<not> distinct p"
  then obtain xs ys zs a where p: "p = xs @ [a] @ ys @ [a] @ zs" using not_distinct_decomp by blast
  from assms have path: "is_path E s d p" by (simp add: shortest_def)
  from path have w: "walk E (xs @ a # (ys @ a # zs))" by (simp add: p is_path_def)
  from walk_suffix [OF w] walk_suffix [of E "a # ys" a zs] have "walk E (a # zs)" by simp
  with walk_prefix [OF w] have "walk E (xs @ a # zs)" by (rule walk_join)
  with path have "is_path E s d (xs @ a # zs)" by (auto simp: p is_path_def hd_append)
  with assms have "length p \<le> length (xs @ a # zs)" unfolding shortest_def by blast
  then show False by (simp add: p)
qed

lemma shortest_tl:
  assumes "shortest E s d (s # v # p)"
  shows "E s v" and "shortest E v d (v # p)"
proof -
  from assms have path: "is_path E s d (s # v # p)" by (simp add: shortest_def)
  then show "E s v" by (simp add: is_path_Cons2)
  from path have "is_path E v d (v # p)" by (simp add: is_path_Cons2)
  moreover have "length (v # p) \<le> length q" if "is_path E v d q" for q
  proof -
    from is_path_Cons [OF \<open>E s v\<close> that] assms have "length (s # v # p) \<le> length (s # q)"
      unfolding shortest_def by blast
    then show ?thesis by simp
  qed
  ultimately show "shortest E v d (v # p)" by (simp add: shortest_def)
qed

lemma shortest_same_length: "shortest E s d p \<Longrightarrow> shortest E s d q \<Longrightarrow> length p = length q"
  unfolding shortest_def by (meson le_antisym)

lemma shortest_step: "E s v \<Longrightarrow> shortest E s d p \<Longrightarrow> shortest E v d q \<Longrightarrow> length p \<le> Suc (length q)"
  unfolding shortest_def by (metis is_path_Cons length_Cons)

lemma shortest_ex:
  assumes "is_path E s d q"
  shows "\<exists>p. shortest E s d p"
proof -
  from assms have "\<exists>p. is_path E s d p \<and> (\<forall>r. is_path E s d r \<longrightarrow> length p \<le> length r)"
    by (rule ex_has_least_nat)
  then show ?thesis by (simp add: shortest_def)
qed

lemma shortest_self: "shortest E s s p \<longleftrightarrow> p = [s]"
proof
  assume p: "shortest E s s p"
  then have "length p \<le> length [s]" "is_path E s s p" unfolding shortest_def by (metis is_path_one, blast)
  then show "p = [s]" by (cases p) (auto simp: is_path_def)
next
  assume "p = [s]"
  then show "shortest E s s p" by (auto simp: shortest_def Suc_le_eq dest: is_path_not_Nil)
qed

section \<open>The library\<close>

text \<open>The attributes of an edge: its two ends, a datapath and a port each.\<close>

record edge_attr =
  ea_dp_a :: string
  ea_port_a :: int
  ea_dp_z :: string
  ea_port_z :: int

text \<open>
  \<open>nx_all_shortest_paths\<close> is the list of the generator's paths; it is empty when the library raises
  NetworkXNoPath or NodeNotFound. \<open>nx_has_edge\<close> is the test \<open>(u, v, key) in graph.edges\<close>.
\<close>

record 'g nx =
  nx_empty :: 'g
  nx_add_node :: "string \<Rightarrow> 'g \<Rightarrow> 'g"
  nx_add_edge :: "string \<Rightarrow> string \<Rightarrow> string \<Rightarrow> edge_attr \<Rightarrow> 'g \<Rightarrow> 'g"
  nx_remove_edge :: "string \<Rightarrow> string \<Rightarrow> string \<Rightarrow> 'g \<Rightarrow> 'g"
  nx_has_edge :: "'g \<Rightarrow> string \<Rightarrow> string \<Rightarrow> string \<Rightarrow> bool"
  nx_nodes :: "'g \<Rightarrow> string list"
  nx_size :: "'g \<Rightarrow> nat"
  nx_degree :: "'g \<Rightarrow> (string \<times> nat) list"
  nx_all_shortest_paths :: "'g \<Rightarrow> string \<Rightarrow> string \<Rightarrow> string list list"

definition nx_adj :: "'g nx \<Rightarrow> 'g \<Rightarrow> string \<Rightarrow> string \<Rightarrow> bool" where
  "nx_adj N g u v \<longleftrightarrow> (\<exists>k. nx_has_edge N g u v k)"

locale multigraph =
  fixes N :: "'g nx"
  assumes edge_sym: "nx_has_edge N g u v k \<Longrightarrow> nx_has_edge N g v u k"
    and edge_empty: "\<not> nx_has_edge N (nx_empty N) u v k"
    and edge_add_node: "nx_has_edge N (nx_add_node N n g) u v k \<longleftrightarrow> nx_has_edge N g u v k"
    and edge_add: "nx_has_edge N (nx_add_edge N a b j m g) u v k \<longleftrightarrow>
      nx_has_edge N g u v k \<or> (k = j \<and> (u = a \<and> v = b \<or> u = b \<and> v = a))"
    and edge_remove: "nx_has_edge N (nx_remove_edge N a b j g) u v k \<longleftrightarrow>
      nx_has_edge N g u v k \<and> \<not> (k = j \<and> (u = a \<and> v = b \<or> u = b \<and> v = a))"
    and edge_nodes: "nx_has_edge N g u v k \<Longrightarrow> u \<in> set (nx_nodes N g)"
    and nodes_empty: "nx_nodes N (nx_empty N) = []"
    and nodes_add_node: "set (nx_nodes N (nx_add_node N n g)) = insert n (set (nx_nodes N g))"
    and nodes_add: "set (nx_nodes N (nx_add_edge N a b j m g)) = {a, b} \<union> set (nx_nodes N g)"
    and nodes_remove: "nx_has_edge N g a b j \<Longrightarrow> set (nx_nodes N (nx_remove_edge N a b j g)) = set (nx_nodes N g)"
    and size_0: "nx_size N g = 0 \<longleftrightarrow> (\<forall>u v k. \<not> nx_has_edge N g u v k)"
    and paths: "set (nx_all_shortest_paths N g s d) =
      (if s \<in> set (nx_nodes N g) then {p. shortest (nx_adj N g) s d p} else {})"
begin

lemma adj_sym: "nx_adj N g u v \<Longrightarrow> nx_adj N g v u"
  by (auto simp: nx_adj_def intro: edge_sym)

lemma adj_nodes: "nx_adj N g u v \<Longrightarrow> u \<in> set (nx_nodes N g) \<and> v \<in> set (nx_nodes N g)"
  using edge_nodes edge_sym by (fastforce simp: nx_adj_def)

lemma path_rev: "is_path (nx_adj N g) s d p \<Longrightarrow> is_path (nx_adj N g) d s (rev p)"
proof -
  have "(\<lambda>u v. nx_adj N g v u) = nx_adj N g" using adj_sym by blast
  then show "is_path (nx_adj N g) s d p \<Longrightarrow> is_path (nx_adj N g) d s (rev p)" using is_path_rev [of "nx_adj N g"] by simp
qed

end

section \<open>Graphs as lists\<close>

text \<open>Nodes and edges in the order they were added; the nodes of an edge are nodes of the graph.\<close>

record list_graph =
  lg_nodes :: "string list"
  lg_edges :: "(string \<times> string \<times> string \<times> edge_attr) list"

definition lg_all_nodes :: "list_graph \<Rightarrow> string list" where
  "lg_all_nodes g = remdups (lg_nodes g @ concat (map (\<lambda>(u, v, _, _). [u, v]) (lg_edges g)))"

definition is_edge_key :: "string \<Rightarrow> string \<Rightarrow> string \<Rightarrow> string \<times> string \<times> string \<times> edge_attr \<Rightarrow> bool" where
  "is_edge_key u v k e = (case e of (a, b, j, _) \<Rightarrow> j = k \<and> (u = a \<and> v = b \<or> u = b \<and> v = a))"

definition lg_has_edge :: "list_graph \<Rightarrow> string \<Rightarrow> string \<Rightarrow> string \<Rightarrow> bool" where
  "lg_has_edge g u v k = list_ex (is_edge_key u v k) (lg_edges g)"

definition lg_remove :: "string \<Rightarrow> string \<Rightarrow> string \<Rightarrow> list_graph \<Rightarrow> list_graph" where
  "lg_remove u v k g = \<lparr>lg_nodes = lg_all_nodes g, lg_edges = filter (\<lambda>e. \<not> is_edge_key u v k e) (lg_edges g)\<rparr>"

definition lg_add :: "string \<Rightarrow> string \<Rightarrow> string \<Rightarrow> edge_attr \<Rightarrow> list_graph \<Rightarrow> list_graph" where
  "lg_add u v k m g = (let h = lg_remove u v k g in h\<lparr>lg_edges := lg_edges h @ [(u, v, k, m)]\<rparr>)"

definition lg_neighbours :: "list_graph \<Rightarrow> string \<Rightarrow> string list" where
  "lg_neighbours g x =
     remdups (concat (map (\<lambda>(u, v, _, _). (if u = x then [v] else []) @ (if v = x then [u] else [])) (lg_edges g)))"

definition lg_degree :: "list_graph \<Rightarrow> (string \<times> nat) list" where
  "lg_degree g =
     map (\<lambda>x. (x, sum_list (map (\<lambda>(u, v, _, _). (if u = x then 1 else 0) + (if v = x then 1 else 0)) (lg_edges g)))) (lg_all_nodes g)"

text \<open>The walks of a length, and those of the first length that has one.\<close>

fun walks :: "('n \<Rightarrow> 'n list) \<Rightarrow> nat \<Rightarrow> 'n \<Rightarrow> 'n \<Rightarrow> 'n list list" where
  "walks nb 0 s d = (if s = d then [[s]] else [])"
| "walks nb (Suc n) s d = concat (map (\<lambda>v. map ((#) s) (walks nb n v d)) (nb s))"

fun first_walks :: "('n \<Rightarrow> 'n list) \<Rightarrow> nat \<Rightarrow> nat \<Rightarrow> 'n \<Rightarrow> 'n \<Rightarrow> 'n list list" where
  "first_walks nb 0 n s d = []"
| "first_walks nb (Suc fuel) n s d =
     (let ps = walks nb n s d in if ps \<noteq> [] then ps else first_walks nb fuel (Suc n) s d)"

definition lg_paths :: "list_graph \<Rightarrow> string \<Rightarrow> string \<Rightarrow> string list list" where
  "lg_paths g s d =
     (let ns = lg_all_nodes g in if s \<in> set ns then first_walks (lg_neighbours g) (length ns) 0 s d else [])"

definition list_nx :: "list_graph nx" where
  "list_nx =
     \<lparr>nx_empty = \<lparr>lg_nodes = [], lg_edges = []\<rparr>, nx_add_node = (\<lambda>n g. g\<lparr>lg_nodes := lg_nodes g @ [n]\<rparr>),
      nx_add_edge = lg_add, nx_remove_edge = lg_remove, nx_has_edge = lg_has_edge, nx_nodes = lg_all_nodes,
      nx_size = (\<lambda>g. length (lg_edges g)), nx_degree = lg_degree, nx_all_shortest_paths = lg_paths\<rparr>"

lemma walks_iff: "p \<in> set (walks nb n s d) \<longleftrightarrow> is_path (\<lambda>u v. v \<in> set (nb u)) s d p \<and> length p = Suc n"
proof (induction n arbitrary: s p)
  case 0
  show ?case by (cases p) (auto simp: is_path_def)
next
  case (Suc n)
  show ?case
  proof
    assume "p \<in> set (walks nb (Suc n) s d)"
    then obtain v q where v: "v \<in> set (nb s)" "q \<in> set (walks nb n v d)" and p: "p = s # q" by auto
    then show "is_path (\<lambda>u v. v \<in> set (nb u)) s d p \<and> length p = Suc (Suc n)"
      unfolding Suc.IH p by (auto intro: is_path_Cons)
  next
    assume p: "is_path (\<lambda>u v. v \<in> set (nb u)) s d p \<and> length p = Suc (Suc n)"
    then obtain v q where "p = s # v # q" by (cases p; cases "tl p") (auto simp: is_path_def)
    with p have "v \<in> set (nb s)" "p = s # v # q" "v # q \<in> set (walks nb n v d)"
      by (simp_all add: is_path_Cons2 Suc.IH)
    then show "p \<in> set (walks nb (Suc n) s d)" by auto
  qed
qed

lemma first_walks_shortest:
  assumes "\<And>q. is_path (\<lambda>u v. v \<in> set (nb u)) s d q \<Longrightarrow> n < length q"
    and "\<And>q. shortest (\<lambda>u v. v \<in> set (nb u)) s d q \<Longrightarrow> length q \<le> n + fuel"
  shows "set (first_walks nb fuel n s d) = {p. shortest (\<lambda>u v. v \<in> set (nb u)) s d p}"
  using assms
proof (induction fuel arbitrary: n)
  case 0
  have "\<not> shortest (\<lambda>u v. v \<in> set (nb u)) s d p" for p
  proof
    assume p: "shortest (\<lambda>u v. v \<in> set (nb u)) s d p"
    then have "n < length p" using "0.prems"(1) by (simp add: shortest_def)
    with "0.prems"(2) [OF p] show False by simp
  qed
  then show ?case by simp
next
  case (Suc fuel)
  show ?case
  proof (cases "walks nb n s d = []")
    case True
    have "Suc n < length q" if q: "is_path (\<lambda>u v. v \<in> set (nb u)) s d q" for q
    proof -
      have "q \<notin> set (walks nb n s d)" using True by simp
      with q Suc.prems(1) [OF q] show ?thesis by (simp add: walks_iff)
    qed
    with True Suc.IH [of "Suc n"] Suc.prems(2) show ?thesis by simp
  next
    case False
    then have "hd (walks nb n s d) \<in> set (walks nb n s d)" by simp
    then obtain p where p: "p \<in> set (walks nb n s d)" by blast
    then have path: "is_path (\<lambda>u v. v \<in> set (nb u)) s d p" and len: "length p = Suc n" by (simp_all add: walks_iff)
    have "q \<in> set (walks nb n s d) \<longleftrightarrow> shortest (\<lambda>u v. v \<in> set (nb u)) s d q" for q
    proof
      assume "q \<in> set (walks nb n s d)"
      then show "shortest (\<lambda>u v. v \<in> set (nb u)) s d q"
        using Suc.prems(1) by (auto simp: walks_iff shortest_def Suc_le_eq)
    next
      assume q: "shortest (\<lambda>u v. v \<in> set (nb u)) s d q"
      then have "length q \<le> length p" "is_path (\<lambda>u v. v \<in> set (nb u)) s d q" using path unfolding shortest_def by blast+
      with len Suc.prems(1) [of q] show "q \<in> set (walks nb n s d)" by (simp add: walks_iff)
    qed
    with False show ?thesis by auto
  qed
qed

lemma lg_has_edge_iff:
  "lg_has_edge g u v k \<longleftrightarrow> (\<exists>m. (u, v, k, m) \<in> set (lg_edges g) \<or> (v, u, k, m) \<in> set (lg_edges g))"
proof
  assume "lg_has_edge g u v k"
  then obtain e where "e \<in> set (lg_edges g)" "is_edge_key u v k e" by (auto simp: lg_has_edge_def list_ex_iff)
  then show "\<exists>m. (u, v, k, m) \<in> set (lg_edges g) \<or> (v, u, k, m) \<in> set (lg_edges g)"
    by (cases e) (auto simp: is_edge_key_def)
next
  assume "\<exists>m. (u, v, k, m) \<in> set (lg_edges g) \<or> (v, u, k, m) \<in> set (lg_edges g)"
  then obtain e where "e \<in> set (lg_edges g)" "is_edge_key u v k e" by (auto simp: is_edge_key_def)
  then show "lg_has_edge g u v k" by (auto simp: lg_has_edge_def list_ex_iff)
qed

lemma lg_all_nodes_iff:
  "x \<in> set (lg_all_nodes g) \<longleftrightarrow>
     x \<in> set (lg_nodes g) \<or> (\<exists>y k m. (x, y, k, m) \<in> set (lg_edges g) \<or> (y, x, k, m) \<in> set (lg_edges g))"
  unfolding lg_all_nodes_def by (auto; force)

lemma lg_adj: "v \<in> set (lg_neighbours g u) \<longleftrightarrow> (\<exists>k. lg_has_edge g u v k)"
proof -
  have "v \<in> set (lg_neighbours g u) \<longleftrightarrow> (\<exists>e \<in> set (lg_edges g). case e of (a, b, k, m) \<Rightarrow> a = u \<and> b = v \<or> a = v \<and> b = u)"
    unfolding lg_neighbours_def by (auto split: prod.splits if_splits; blast)
  also have "\<dots> \<longleftrightarrow> (\<exists>k. lg_has_edge g u v k)" unfolding lg_has_edge_iff by (auto; blast)
  finally show ?thesis .
qed

lemma lg_edge_nodes: "lg_has_edge g u v k \<Longrightarrow> u \<in> set (lg_all_nodes g) \<and> v \<in> set (lg_all_nodes g)"
  by (auto simp: lg_all_nodes_iff lg_has_edge_iff)

lemma walk_nodes: "walk (\<lambda>u v. v \<in> set (lg_neighbours g u)) p \<Longrightarrow> hd p \<in> set (lg_all_nodes g) \<Longrightarrow> set p \<subseteq> set (lg_all_nodes g)"
proof (induction p)
  case Nil
  then show ?case by simp
next
  case (Cons x p)
  then show ?case by (cases p) (auto simp: lg_adj dest: lg_edge_nodes)
qed

lemma lg_paths_shortest:
  "set (lg_paths g s d) = (if s \<in> set (lg_all_nodes g) then {p. shortest (\<lambda>u v. v \<in> set (lg_neighbours g u)) s d p} else {})"
proof (cases "s \<in> set (lg_all_nodes g)")
  case False
  then show ?thesis by (simp add: lg_paths_def)
next
  case True
  have "length q \<le> 0 + length (lg_all_nodes g)" if q: "shortest (\<lambda>u v. v \<in> set (lg_neighbours g u)) s d q" for q
  proof -
    from q have "set q \<subseteq> set (lg_all_nodes g)" using walk_nodes [of g q] True by (simp add: shortest_def is_path_def)
    then have "card (set q) \<le> length (lg_all_nodes g)" by (meson List.finite_set card_length card_mono order_trans)
    then show ?thesis using distinct_card [OF shortest_distinct [OF q]] by simp
  qed
  moreover have "0 < length q" if "is_path (\<lambda>u v. v \<in> set (lg_neighbours g u)) s d q" for q
    using is_path_not_Nil [OF that] by simp
  ultimately show ?thesis using True first_walks_shortest [of "lg_neighbours g" s d 0 "length (lg_all_nodes g)"]
    by (simp add: lg_paths_def Let_def)
qed

lemma lg_edges_remove: "(u, v, k, m) \<in> set (lg_edges (lg_remove a b j g)) \<longleftrightarrow>
    (u, v, k, m) \<in> set (lg_edges g) \<and> \<not> (k = j \<and> (u = a \<and> v = b \<or> u = b \<and> v = a))"
  by (auto simp: lg_remove_def is_edge_key_def)

lemma lg_edges_add: "(u, v, k, m) \<in> set (lg_edges (lg_add a b j n g)) \<longleftrightarrow>
    (u, v, k, m) \<in> set (lg_edges (lg_remove a b j g)) \<or> (u, v, k, m) = (a, b, j, n)"
  by (auto simp: lg_add_def Let_def)

lemma lg_has_edge_remove: "lg_has_edge (lg_remove a b j g) u v k \<longleftrightarrow>
    lg_has_edge g u v k \<and> \<not> (k = j \<and> (u = a \<and> v = b \<or> u = b \<and> v = a))"
  unfolding lg_has_edge_iff lg_edges_remove by blast

lemma lg_has_edge_add: "lg_has_edge (lg_add a b j m g) u v k \<longleftrightarrow>
    lg_has_edge g u v k \<or> (k = j \<and> (u = a \<and> v = b \<or> u = b \<and> v = a))"
  unfolding lg_has_edge_iff lg_edges_add lg_edges_remove by auto

lemma lg_nodes_remove: "set (lg_all_nodes (lg_remove a b j g)) = set (lg_all_nodes g)"
proof -
  have "lg_nodes (lg_remove a b j g) = lg_all_nodes g" by (simp add: lg_remove_def)
  then have "x \<in> set (lg_all_nodes (lg_remove a b j g)) \<longleftrightarrow> x \<in> set (lg_all_nodes g)" for x
    unfolding lg_all_nodes_iff [of x "lg_remove a b j g"] lg_edges_remove by (auto simp: lg_all_nodes_iff)
  then show ?thesis by blast
qed

lemma lg_nodes_add: "set (lg_all_nodes (lg_add a b j m g)) = {a, b} \<union> set (lg_all_nodes g)"
proof -
  have "set (lg_all_nodes (lg_add a b j m g)) = {a, b} \<union> set (lg_all_nodes (lg_remove a b j g))"
    by (auto simp: lg_add_def Let_def lg_all_nodes_def)
  then show ?thesis by (simp add: lg_nodes_remove)
qed

lemma lg_size: "length (lg_edges g) = 0 \<longleftrightarrow> (\<forall>u v k. \<not> lg_has_edge g u v k)"
proof (cases "lg_edges g")
  case Nil
  then show ?thesis by (simp add: lg_has_edge_def)
next
  case (Cons e es)
  obtain u v k m where "e = (u, v, k, m)" by (cases e)
  with Cons have "lg_has_edge g u v k" by (auto simp: lg_has_edge_iff)
  with Cons show ?thesis by auto
qed

lemma lg_adj_fun: "nx_adj list_nx g = (\<lambda>u v. v \<in> set (lg_neighbours g u))"
  by (intro ext) (simp add: lg_adj nx_adj_def list_nx_def)

lemma list_nx_simps:
  "nx_empty list_nx = \<lparr>lg_nodes = [], lg_edges = []\<rparr>"
  "nx_add_node list_nx = (\<lambda>n g. g\<lparr>lg_nodes := lg_nodes g @ [n]\<rparr>)"
  "nx_add_edge list_nx = lg_add" "nx_remove_edge list_nx = lg_remove" "nx_has_edge list_nx = lg_has_edge"
  "nx_nodes list_nx = lg_all_nodes" "nx_size list_nx = (\<lambda>g. length (lg_edges g))"
  "nx_degree list_nx = lg_degree" "nx_all_shortest_paths list_nx = lg_paths"
  by (simp_all add: list_nx_def)

interpretation list_nx: multigraph list_nx
proof (unfold_locales, unfold list_nx_simps)
  show "lg_has_edge g u v k \<Longrightarrow> lg_has_edge g v u k" for g u v k by (auto simp: lg_has_edge_iff)
  show "set (lg_paths g s d) = (if s \<in> set (lg_all_nodes g) then {p. shortest (nx_adj list_nx g) s d p} else {})" for g s d
    unfolding lg_adj_fun by (rule lg_paths_shortest)
  show "set (lg_all_nodes (g\<lparr>lg_nodes := lg_nodes g @ [n]\<rparr>)) = insert n (set (lg_all_nodes g))" for n g
    by (auto simp: lg_all_nodes_def)
  show "(length (lg_edges g) = 0) = (\<forall>u v k. \<not> lg_has_edge g u v k)" for g by (rule lg_size)
qed (simp_all add: lg_has_edge_add lg_has_edge_remove lg_nodes_remove lg_nodes_add lg_edge_nodes,
  simp_all add: lg_has_edge_def lg_all_nodes_def)

end
