(* ===== verification/Stack.thy ===== *)
theory Stack imports StackGraph begin

text \<open>
  The stack of a datapath, \<^verbatim>\<open>faucet/stack.py\<close>: the graph of the stack, the health of its nodes, the
  nomination of its root and the shortest paths.

  The Python objects of several datapaths refer to each other. The record \<open>stack_net\<close> is the store they
  are in: the stack of a datapath by the datapath's name, a port by datapath and number. A port of a stack
  is its number with its \<open>stack\<close> dict (the peer's datapath and port). A set of ports is a list of these.

  The options are those a checked configuration has; a priority that is not set is 0 (the code takes both
  for false). Percentages are exact where the code has floats. The text of the reason for a state of health,
  which is only logged, is left out.
\<close>

section \<open>State\<close>

type_synonym stack_port = "int \<times> stack_peer"

record 'g stack =
  st_name :: string
  st_dp_id :: int
  st_priority :: int
  st_route_learning :: bool
  st_down_time_multiple :: int
  st_min_stack_health :: rat
  st_min_lacp_health :: rat
  st_ports :: "stack_port list"
  st_graph :: "'g option"
  st_root_name :: "string option"
  st_roots_names :: "string list option"
  st_root_flood_reflection :: bool
  st_dyn_healthy_info :: "bool \<times> rat \<times> rat"
  st_dyn_healthy :: bool

record 'g stack_net =
  nt_stack :: "string \<Rightarrow> 'g stack"
  nt_port :: "string \<Rightarrow> int \<Rightarrow> port"

text \<open>The constructor, with the defaults of the options; \<open>priority\<close> is the one option set in most stacks.\<close>

definition new_stack :: "string \<Rightarrow> int \<Rightarrow> int \<Rightarrow> 'g stack" where
  "new_stack name dp_id priority =
     \<lparr>st_name = name, st_dp_id = dp_id, st_priority = priority, st_route_learning = False, st_down_time_multiple = 3,
      st_min_stack_health = 1, st_min_lacp_health = 1, st_ports = [], st_graph = None, st_root_name = None,
      st_roots_names = None, st_root_flood_reflection = False, st_dyn_healthy_info = (False, 0, 0),
      st_dyn_healthy = False\<rparr>"

definition stack_add_port :: "stack_port \<Rightarrow> 'g stack \<Rightarrow> 'g stack" where
  "stack_add_port p s = s\<lparr>st_ports := st_ports s @ [p]\<rparr>"

definition peer_dp :: "stack_port \<Rightarrow> string" where "peer_dp p = sp_dp (snd p)"
definition peer_no :: "stack_port \<Rightarrow> int" where "peer_no p = sp_port (snd p)"

definition own_port :: "'g stack_net \<Rightarrow> 'g stack \<Rightarrow> stack_port \<Rightarrow> port" where
  "own_port net s p = nt_port net (st_name s) (fst p)"

definition peer_port :: "'g stack_net \<Rightarrow> stack_port \<Rightarrow> port" where
  "peer_port net p = nt_port net (peer_dp p) (peer_no p)"

section \<open>Topology\<close>

text \<open>
  The canonical edge of a link: its ends in the order of the names of their datapaths and ports. Two
  different ports with the same names are compared as objects: \<open>TypeError\<close>.
\<close>

definition canonical_edge :: "'g stack_net \<Rightarrow> string \<Rightarrow> stack_port \<Rightarrow> err + (string \<times> int) \<times> (string \<times> int)" where
  "canonical_edge net dp p =
     (let a = (dp, p_name (nt_port net dp (fst p))); z = (peer_dp p, p_name (peer_port net p))
      in if a = z \<and> fst p \<noteq> peer_no p then Inl TypeError
         else if a \<le> z then Inr ((dp, fst p), (peer_dp p, peer_no p))
         else Inr ((peer_dp p, peer_no p), (dp, fst p)))"

definition make_edge_name :: "'g stack_net \<Rightarrow> string \<times> int \<Rightarrow> string \<times> int \<Rightarrow> string" where
  "make_edge_name net a z =
     fst a @ '':'' @ p_name (nt_port net (fst a) (snd a)) @ ''-'' @ fst z @ '':'' @ p_name (nt_port net (fst z) (snd z))"

definition make_edge_attr :: "string \<times> int \<Rightarrow> string \<times> int \<Rightarrow> edge_attr" where
  "make_edge_attr a z = \<lparr>ea_dp_a = fst a, ea_port_a = snd a, ea_dp_z = fst z, ea_port_z = snd z\<rparr>"

definition modify_topology ::
    "'g nx \<Rightarrow> 'g stack_net \<Rightarrow> 'g \<Rightarrow> string \<Rightarrow> stack_port \<Rightarrow> bool \<Rightarrow> err + string \<times> 'g" where
  "modify_topology N net g dp p add =
     bindE (canonical_edge net dp p) (\<lambda>(a, z).
     let edge_name = make_edge_name net a z
     in Inr (edge_name,
          if add then nx_add_edge N (fst a) (fst z) edge_name (make_edge_attr a z) g
          else if nx_has_edge N g (fst a) (fst z) edge_name then nx_remove_edge N (fst a) (fst z) edge_name g
          else g))"

definition modify_link :: "'g nx \<Rightarrow> 'g stack_net \<Rightarrow> 'g stack \<Rightarrow> string \<Rightarrow> stack_port \<Rightarrow> bool \<Rightarrow> err + 'g stack" where
  "modify_link N net s dp p add =
     (case st_graph s of
        None \<Rightarrow> Inl AttributeError
      | Some g \<Rightarrow> bindE (modify_topology N net g dp p add) (\<lambda>(_, g). Inr (s\<lparr>st_graph := Some g\<rparr>)))"

text \<open>The tuple whose hash is the hash of the topology.\<close>

definition topology_hash :: "'g nx \<Rightarrow> 'g \<Rightarrow> (string \<times> nat) list" where
  "topology_hash N g = sort (nx_degree N g)"

definition link_up :: "'g stack_net \<Rightarrow> string \<Rightarrow> stack_port \<Rightarrow> bool" where
  "link_up net dp p =
     (let q = nt_port net dp (fst p) in is_stack_up q \<or> (is_stack_init q \<and> is_stack_up (peer_port net p)))"

text \<open>\<open>clone_dyn_state\<close>: \<open>dps\<close> are the datapaths, by name, that have stack ports.\<close>

definition stack_clone_dyn_state ::
    "'g nx \<Rightarrow> 'g stack_net \<Rightarrow> 'g stack option \<Rightarrow> string list \<Rightarrow> 'g stack \<Rightarrow> err + 'g stack" where
  "stack_clone_dyn_state N net prev dps s =
     (case prev of
        None \<Rightarrow> Inr s
      | Some q \<Rightarrow>
          foldE (\<lambda>dp. foldE (\<lambda>p s. modify_link N net s dp p (link_up net dp p)) (st_ports (nt_stack net dp))) dps
            (s\<lparr>st_dyn_healthy := st_dyn_healthy q, st_dyn_healthy_info := st_dyn_healthy_info q\<rparr>))"

section \<open>Ports\<close>

definition canonical_order :: "stack_port list \<Rightarrow> stack_port list" where
  "canonical_order ps = sort_key fst ps"

definition any_port_up :: "'g stack_net \<Rightarrow> 'g stack \<Rightarrow> bool" where
  "any_port_up net s = list_ex (\<lambda>p. is_stack_up (own_port net s p)) (st_ports s)"

definition down_ports :: "'g stack_net \<Rightarrow> 'g stack \<Rightarrow> stack_port list" where
  "down_ports net s = filter (\<lambda>p. \<not> is_stack_up (own_port net s p)) (st_ports s)"

definition canonical_up_ports :: "'g stack_net \<Rightarrow> 'g stack \<Rightarrow> stack_port list \<Rightarrow> stack_port list" where
  "canonical_up_ports net s ps = canonical_order (filter (\<lambda>p. is_stack_up (own_port net s p)) ps)"

definition peer_up_ports :: "'g stack_net \<Rightarrow> 'g stack \<Rightarrow> string \<Rightarrow> stack_port list" where
  "peer_up_ports net s dp = canonical_order (filter (\<lambda>p. running (own_port net s p) \<and> peer_dp p = dp) (st_ports s))"

section \<open>Paths\<close>

text \<open>The first of the shortest paths in the order of lists of names; no path is the empty list.\<close>

definition shortest_path :: "'g nx \<Rightarrow> 'g stack \<Rightarrow> string option \<Rightarrow> string \<Rightarrow> string list" where
  "shortest_path N s dest src =
     (case (st_graph s, dest) of
        (Some g, Some d) \<Rightarrow>
          if nx_nodes N g = [] then []
          else (case sort (nx_all_shortest_paths N g src d) of [] \<Rightarrow> [] | p # _ \<Rightarrow> p)
      | _ \<Rightarrow> [])"

definition shortest_path_to_root :: "'g nx \<Rightarrow> 'g stack \<Rightarrow> string \<Rightarrow> string list" where
  "shortest_path_to_root N s src = shortest_path N s (st_root_name s) src"

definition is_root :: "'g stack \<Rightarrow> bool" where
  "is_root s \<longleftrightarrow> st_root_name s = Some (st_name s)"

definition is_root_candidate :: "'g stack \<Rightarrow> err + bool" where
  "is_root_candidate s =
     (case st_roots_names s of None \<Rightarrow> Inl TypeError | Some names \<Rightarrow> Inr (st_name s \<in> set names))"

definition longest_path_to_root_len :: "'g nx \<Rightarrow> 'g stack \<Rightarrow> nat option" where
  "longest_path_to_root_len N s =
     (case st_graph s of
        None \<Rightarrow> None
      | Some g \<Rightarrow>
          if nx_nodes N g = [] \<or> st_root_name s \<in> {None, Some ''''} then None
          else Some (Max (set (map (\<lambda>dp. length (shortest_path_to_root N s dp)) (nx_nodes N g)))))"

definition is_edge :: "'g nx \<Rightarrow> 'g stack \<Rightarrow> bool" where
  "is_edge N s \<longleftrightarrow>
     \<not> is_root s \<and> longest_path_to_root_len N s = Some (length (shortest_path_to_root N s (st_name s)))"

definition is_in_path :: "'g nx \<Rightarrow> 'g stack \<Rightarrow> string \<Rightarrow> string option \<Rightarrow> bool" where
  "is_in_path N s src_dp dst_dp \<longleftrightarrow> st_name s \<in> set (shortest_path N s dst_dp src_dp)"

definition shortest_path_port :: "'g nx \<Rightarrow> 'g stack_net \<Rightarrow> 'g stack \<Rightarrow> string \<Rightarrow> stack_port option" where
  "shortest_path_port N net s dest =
     (case shortest_path N s (Some dest) (st_name s) of
        _ # dp # _ \<Rightarrow> (case peer_up_ports net s dp of [] \<Rightarrow> None | p # _ \<Rightarrow> Some p)
      | _ \<Rightarrow> None)"

text \<open>The ports of a peer towards this datapath, each with the port of ours it is the peer of.\<close>

definition peer_symmetric_up_ports :: "'g stack_net \<Rightarrow> 'g stack \<Rightarrow> string \<Rightarrow> int list" where
  "peer_symmetric_up_ports net s dp =
     sort (map peer_no (filter (\<lambda>p. running (own_port net s p) \<and> peer_dp p = dp) (st_ports s)))"

definition shortest_symmetric_path_port :: "'g nx \<Rightarrow> 'g stack_net \<Rightarrow> 'g stack \<Rightarrow> string \<Rightarrow> err + int option" where
  "shortest_symmetric_path_port N net s dp =
     (if length (shortest_path N s (Some (st_name s)) dp) = 2 then
        (case peer_symmetric_up_ports net s dp of
           [] \<Rightarrow> Inr None
         | n # _ \<Rightarrow> (case p_stack (nt_port net dp n) of None \<Rightarrow> Inl TypeError | Some q \<Rightarrow> Inr (Some (sp_port q))))
      else Inr None)"

section \<open>Health\<close>

definition live_timeout_healthy :: "'g stack \<Rightarrow> int \<Rightarrow> int \<Rightarrow> int \<Rightarrow> bool \<times> int" where
  "live_timeout_healthy s last_live_time now update_time =
     (let health_timeout = now - st_down_time_multiple s * update_time
      in (last_live_time \<ge> health_timeout, health_timeout))"

definition up_percentage :: "nat \<Rightarrow> nat \<Rightarrow> rat" where
  "up_percentage down all = 1 - of_nat down / of_nat all"

definition stack_port_healthy :: "'g stack_net \<Rightarrow> 'g stack \<Rightarrow> bool \<times> rat" where
  "stack_port_healthy net s =
     (if st_ports s = [] then (True, 1)
      else let percentage = up_percentage (length (down_ports net s)) (length (st_ports s))
           in (percentage \<ge> st_min_stack_health s, percentage))"

text \<open>\<open>lacp_ports\<close> are the LACP ports of the datapath.\<close>

definition lacp_port_healthy :: "port list \<Rightarrow> 'g stack \<Rightarrow> bool \<times> rat" where
  "lacp_port_healthy lacp_ports s =
     (if lacp_ports = [] then (True, 1)
      else let percentage = up_percentage (length (filter (\<lambda>p. \<not> is_actor_up p) lacp_ports)) (length lacp_ports)
           in (percentage \<ge> st_min_lacp_health s, percentage))"

definition update_health ::
    "'g stack_net \<Rightarrow> port list \<Rightarrow> int \<Rightarrow> (string, int) dict \<Rightarrow> int \<Rightarrow> 'g stack \<Rightarrow> 'g stack" where
  "update_health net lacp_ports now dp_last_live_time update_time s =
     (let last_live_time = (case dict_get dp_last_live_time (st_name s) of None \<Rightarrow> 0 | Some t \<Rightarrow> t);
          timeout_healthy = fst (live_timeout_healthy s last_live_time now update_time)
      in if \<not> timeout_healthy then s\<lparr>st_dyn_healthy_info := (False, 0, 0), st_dyn_healthy := False\<rparr>
         else
           let (stack_ports_healthy, stack_percentage) = stack_port_healthy net s;
               (lacp_ports_healthy, lacp_percentage) =
                 (if lacp_ports \<noteq> [] then lacp_port_healthy lacp_ports s else (True, 0))
           in s\<lparr>st_dyn_healthy_info := (timeout_healthy, stack_percentage, lacp_percentage),
                st_dyn_healthy := (timeout_healthy \<and> stack_ports_healthy \<and> lacp_ports_healthy)\<rparr>)"

section \<open>The root\<close>

definition health_priority :: "'g stack \<Rightarrow> bool \<times> rat \<times> rat \<times> int \<times> int" where
  "health_priority s =
     (\<not> st_dyn_healthy s, 1 - fst (snd (st_dyn_healthy_info s)), 1 - snd (snd (st_dyn_healthy_info s)),
      st_priority s, st_dp_id s)"

definition stack_nominate_root :: "'g stack list \<Rightarrow> err + string list \<times> string" where
  "stack_nominate_root stacks =
     (case map st_name (sort_key health_priority stacks) of
        [] \<Rightarrow> Inl IndexError
      | name # names \<Rightarrow> Inr (name # names, name))"

text \<open>
  \<open>resolve_topology\<close> reads of each datapath: its name, whether it has a stack, and for each of its VLANs
  whether it has VIPs. \<open>meta\<close> is the state of an earlier configuration, if any: the name of its root.
\<close>

record stack_dp =
  sd_name :: string
  sd_stack :: bool
  sd_vlan_vips :: "bool list"

definition dp_stack_ports :: "'g stack_net \<Rightarrow> stack_dp \<Rightarrow> stack_port list" where
  "dp_stack_ports net d = (if sd_stack d then st_ports (nt_stack net (sd_name d)) else [])"

definition count_edge :: "string \<Rightarrow> (string, nat) dict \<Rightarrow> (string, nat) dict" where
  "count_edge k d = dict_set k ((case dict_get d k of None \<Rightarrow> 0 | Some n \<Rightarrow> n) + 1) d"

definition resolve_stack_port :: "'g nx \<Rightarrow> 'g stack_net \<Rightarrow> string \<Rightarrow> stack_port \<Rightarrow> 'g \<times> (string, nat) dict \<Rightarrow>
    err + 'g \<times> (string, nat) dict" where
  "resolve_stack_port N net dp p st =
     bindE (modify_topology N net (fst st) dp p True) (\<lambda>(edge_name, g). Inr (g, count_edge edge_name (snd st)))"

definition resolve_graph :: "'g nx \<Rightarrow> 'g stack_net \<Rightarrow> stack_dp list \<Rightarrow> err + 'g \<times> (string, nat) dict" where
  "resolve_graph N net stack_port_dps =
     foldE (\<lambda>d st. foldE (resolve_stack_port N net (sd_name d)) (dp_stack_ports net d)
                     (nx_add_node N (sd_name d) (fst st), snd st)) stack_port_dps (nx_empty N, [])"

definition resolve_paths :: "'g nx \<Rightarrow> 'g \<Rightarrow> 'g stack \<Rightarrow> err + 'g stack" where
  "resolve_paths N g s =
     (if nx_size N g \<noteq> 0 \<and> st_name s \<in> set (nx_nodes N g) then
        let s = s\<lparr>st_graph := Some g\<rparr>
        in bindE (foldE (\<lambda>dp _. test_config_condition (shortest_path_to_root N s dp = [])) (nx_nodes N g) ()) (\<lambda>_.
           Inr (case longest_path_to_root_len N s of
                  None \<Rightarrow> s
                | Some root_len \<Rightarrow> if 2 < root_len then s\<lparr>st_root_flood_reflection := True\<rparr> else s))
      else Inr s)"

definition resolve_root :: "'g stack_net \<Rightarrow> stack_dp list \<Rightarrow> string option option \<Rightarrow> 'g stack \<Rightarrow> err + 'g stack" where
  "resolve_root net stack_priority_dps meta s =
     bindE (foldE (\<lambda>d _. test_config_condition (st_priority (nt_stack net (sd_name d)) \<le> 0)) stack_priority_dps ()) (\<lambda>_.
     bindE (stack_nominate_root (map (\<lambda>d. nt_stack net (sd_name d)) stack_priority_dps)) (\<lambda>(roots_names, root_name).
     Inr (s\<lparr>st_roots_names := Some roots_names,
            st_root_name := (case meta of
               Some (Some r) \<Rightarrow> if r \<in> set roots_names then Some r else Some root_name
             | _ \<Rightarrow> Some root_name)\<rparr>)))"

definition resolve_topology ::
    "'g nx \<Rightarrow> 'g stack_net \<Rightarrow> stack_dp list \<Rightarrow> string option option \<Rightarrow> 'g stack \<Rightarrow> err + 'g stack" where
  "resolve_topology N net dps meta s =
     (let stack_dps = filter sd_stack dps;
          stack_priority_dps = filter (\<lambda>d. st_priority (nt_stack net (sd_name d)) \<noteq> 0) stack_dps;
          stack_port_dps = filter (\<lambda>d. dp_stack_ports net d \<noteq> []) dps
      in if stack_priority_dps = [] then bindE (test_config_condition (stack_dps \<noteq> [])) (\<lambda>_. Inr s)
         else if st_ports s = [] then Inr s
         else
           bindE (resolve_root net stack_priority_dps meta s) (\<lambda>s.
           let s = (if list_ex (\<lambda>d. True \<in> set (sd_vlan_vips d)) stack_port_dps then s\<lparr>st_route_learning := True\<rparr> else s)
           in bindE (resolve_graph N net stack_port_dps) (\<lambda>(g, edge_count).
              bindE (foldE (\<lambda>count _. test_config_condition (count \<noteq> 2)) (dict_values edge_count) ()) (\<lambda>_.
              resolve_paths N g s))))"

section \<open>The two ends of a link share its edge\<close>

definition reverse_link :: "string \<Rightarrow> stack_port \<Rightarrow> int \<Rightarrow> stack_port" where
  "reverse_link dp p interval = (peer_no p, \<lparr>sp_dp = dp, sp_port = fst p, sp_send_interval = interval\<rparr>)"

lemma sorted_pair_swap:
  fixes a z :: "'a :: linorder"
  assumes "a = z \<Longrightarrow> m = n \<Longrightarrow> x = y"
  shows "(if a = z \<and> m \<noteq> n then Inl e else if a \<le> z then Inr (x, y) else Inr (y, x)) =
    (if z = a \<and> n \<noteq> m then Inl e else if z \<le> a then Inr (y, x) else Inr (x, y))"
  using assms by (cases a z rule: linorder_cases) simp_all

lemma canonical_edge_reverse: "canonical_edge net (peer_dp p) (reverse_link dp p i) = canonical_edge net dp p"
proof -
  have ends: "peer_dp (reverse_link dp p i) = dp" "peer_no (reverse_link dp p i) = fst p" "fst (reverse_link dp p i) = peer_no p"
    by (simp_all add: reverse_link_def peer_dp_def peer_no_def)
  show ?thesis unfolding canonical_edge_def Let_def peer_port_def ends
    by (rule sorted_pair_swap) simp
qed

lemma modify_topology_reverse:
  "modify_topology N net g (peer_dp p) (reverse_link dp p i) add = modify_topology N net g dp p add"
  by (simp add: modify_topology_def canonical_edge_reverse)

lemma canonical_edge_ends: "canonical_edge net dp p = Inr (a, z) \<Longrightarrow> {a, z} = {(dp, fst p), (peer_dp p, peer_no p)}"
  by (auto simp: canonical_edge_def Let_def split: if_splits)

lemma modify_topology_split:
  assumes "modify_topology N net g dp p add = Inr (k, h)"
  obtains a z where "canonical_edge net dp p = Inr (a, z)" and "k = make_edge_name net a z"
    and "h = (if add then nx_add_edge N (fst a) (fst z) k (make_edge_attr a z) g
              else if nx_has_edge N g (fst a) (fst z) k then nx_remove_edge N (fst a) (fst z) k g else g)"
  using assms by (auto simp: modify_topology_def bindE_Inr Let_def)

context multigraph begin

lemma modify_edges:
  assumes "modify_topology N net g dp p add = Inr (k, h)"
  shows "nx_has_edge N h u v j \<longleftrightarrow>
    (if j = k \<and> (u = dp \<and> v = peer_dp p \<or> u = peer_dp p \<and> v = dp) then add else nx_has_edge N g u v j)"
proof -
  from assms obtain a z where c: "canonical_edge net dp p = Inr (a, z)"
    and h: "h = (if add then nx_add_edge N (fst a) (fst z) k (make_edge_attr a z) g
              else if nx_has_edge N g (fst a) (fst z) k then nx_remove_edge N (fst a) (fst z) k g else g)"
    by (rule modify_topology_split)
  from canonical_edge_ends [OF c] have "u = fst a \<and> v = fst z \<or> u = fst z \<and> v = fst a \<longleftrightarrow>
      u = dp \<and> v = peer_dp p \<or> u = peer_dp p \<and> v = dp"
    by (auto simp: doubleton_eq_iff)
  then show ?thesis unfolding h by (auto simp: edge_add edge_remove dest: edge_sym)
qed

lemma modify_nodes:
  assumes "modify_topology N net g dp p True = Inr (k, h)"
  shows "set (nx_nodes N h) = {dp, peer_dp p} \<union> set (nx_nodes N g)"
proof -
  from assms obtain a z where c: "canonical_edge net dp p = Inr (a, z)"
    and h: "h = nx_add_edge N (fst a) (fst z) k (make_edge_attr a z) g"
    by (rule modify_topology_split) simp
  from canonical_edge_ends [OF c] have "{fst a, fst z} = {dp, peer_dp p}" by (auto simp: doubleton_eq_iff)
  then show ?thesis by (simp add: h nodes_add)
qed

lemma shortest_pathD:
  assumes "shortest_path N s dest src \<noteq> []"
  obtains g d where "st_graph s = Some g" and "dest = Some d" and "src \<in> set (nx_nodes N g)"
    and "shortest (nx_adj N g) src d (shortest_path N s dest src)"
proof -
  from assms obtain g d where g: "st_graph s = Some g" "dest = Some d"
    by (auto simp: shortest_path_def split: option.splits)
  from assms g obtain p ps where p: "sort (nx_all_shortest_paths N g src d) = p # ps" "shortest_path N s dest src = p"
    by (auto simp: shortest_path_def split: list.splits if_splits)
  then have "p \<in> set (nx_all_shortest_paths N g src d)" by (metis list.set_intros(1) set_sort)
  then have "src \<in> set (nx_nodes N g)" "shortest (nx_adj N g) src d p" by (auto simp: paths split: if_splits)
  with g p that show thesis by blast
qed

lemma shortest_path_exists:
  assumes "st_graph s = Some g" and "src \<in> set (nx_nodes N g)" and "is_path (nx_adj N g) src d p"
  shows "shortest (nx_adj N g) src d (shortest_path N s (Some d) src)"
proof -
  from shortest_ex [OF assms(3)] assms(2) have "set (nx_all_shortest_paths N g src d) \<noteq> {}" by (simp add: paths)
  then obtain q qs where "sort (nx_all_shortest_paths N g src d) = q # qs"
    by (metis list.exhaust set_empty set_sort)
  then have q: "sort (nx_all_shortest_paths N g src d) = q # qs" .
  then have "q \<in> set (nx_all_shortest_paths N g src d)" by (metis list.set_intros(1) set_sort)
  then have "q \<noteq> []" by (auto simp: paths shortest_def is_path_def split: if_splits)
  moreover have "nx_nodes N g \<noteq> []" using assms(2) by auto
  ultimately have "shortest_path N s (Some d) src \<noteq> []" using assms(1) q by (simp add: shortest_path_def)
  then show ?thesis using assms(1) by (auto elim: shortest_pathD)
qed

lemma shortest_path_self: "st_graph s = Some g \<Longrightarrow> src \<in> set (nx_nodes N g) \<Longrightarrow> shortest_path N s (Some src) src = [src]"
  using shortest_path_exists [of s g src src "[src]"] by (simp add: shortest_self)

end
section \<open>A resolved stack is connected\<close>

definition configured_link :: "'g stack_net \<Rightarrow> stack_dp list \<Rightarrow> string \<Rightarrow> string \<Rightarrow> bool" where
  "configured_link net dps u v \<longleftrightarrow>
     (\<exists>d \<in> set dps. \<exists>p \<in> set (dp_stack_ports net d).
        u = sd_name d \<and> v = peer_dp p \<or> u = peer_dp p \<and> v = sd_name d)"

lemma resolve_root_keeps:
  "resolve_root net prio meta s = Inr s' \<Longrightarrow> st_graph s' = st_graph s \<and> st_name s' = st_name s \<and> st_ports s' = st_ports s"
  by (auto simp: resolve_root_def bindE_Inr split: prod.splits)

lemma resolve_root_nominates:
  assumes "resolve_root net prio meta s = Inr s'"
  obtains r where "st_root_name s' = Some r" and "\<exists>d \<in> set prio. st_name (nt_stack net (sd_name d)) = r"
    and "st_roots_names s' \<noteq> None" and "r \<in> set (the (st_roots_names s'))"
proof -
  let ?stacks = "map (\<lambda>d. nt_stack net (sd_name d)) prio"
  from assms obtain names root where nom: "stack_nominate_root ?stacks = Inr (names, root)"
    and s': "s' = s\<lparr>st_roots_names := Some names,
            st_root_name := (case meta of
               Some (Some r) \<Rightarrow> if r \<in> set names then Some r else Some root
             | _ \<Rightarrow> Some root)\<rparr>"
    by (auto simp: resolve_root_def bindE_Inr)
  from nom have names: "names = map st_name (sort_key health_priority ?stacks)" and root: "root \<in> set names"
    by (auto simp: stack_nominate_root_def split: list.splits)
  from names have "set names = st_name ` set ?stacks" by simp
  moreover have "\<exists>r. st_root_name s' = Some r \<and> r \<in> set names" using root by (auto simp: s' split: option.splits)
  ultimately show thesis using s' that by auto
qed

lemma foldE_tests: "foldE (\<lambda>x _. test_config_condition (P x)) xs () = Inr u \<Longrightarrow> \<forall>x \<in> set xs. \<not> P x"
  by (induction xs) (auto simp: bindE_Inr)

lemma resolve_root_priorities:
  "resolve_root net prio meta s = Inr s' \<Longrightarrow> \<forall>d \<in> set prio. 0 < st_priority (nt_stack net (sd_name d))"
  by (force simp: resolve_root_def bindE_Inr dest: foldE_tests)

context multigraph begin

lemma resolve_ports_edges:
  assumes "foldE (resolve_stack_port N net dp) ps (g, c) = Inr (h, c')"
  shows "nx_adj N h u v \<longleftrightarrow> nx_adj N g u v \<or> (\<exists>p \<in> set ps. u = dp \<and> v = peer_dp p \<or> u = peer_dp p \<and> v = dp)"
    and "set (nx_nodes N h) = set (nx_nodes N g) \<union> (if ps = [] then {} else insert dp (peer_dp ` set ps))"
  using assms
proof (induction ps arbitrary: g c)
  case Nil
  {
    case 1
    then show ?case by simp
  next
    case 2
    then show ?case by simp
  }
next
  case (Cons p ps)
  have split: "\<exists>k g1 c1. modify_topology N net g dp p True = Inr (k, g1) \<and> foldE (resolve_stack_port N net dp) ps (g1, c1) = Inr (h, c')"
    if "foldE (resolve_stack_port N net dp) (p # ps) (g, c) = Inr (h, c')" for g c
    using that by (fastforce simp: resolve_stack_port_def bindE_Inr)
  {
    case 1
    from split [OF 1] obtain k g1 c1 where m: "modify_topology N net g dp p True = Inr (k, g1)"
      and r: "foldE (resolve_stack_port N net dp) ps (g1, c1) = Inr (h, c')" by blast
    have "nx_adj N g1 u v \<longleftrightarrow> nx_adj N g u v \<or> u = dp \<and> v = peer_dp p \<or> u = peer_dp p \<and> v = dp"
      using modify_edges [OF m, of u v] by (auto simp: nx_adj_def)
    then show ?case using Cons.IH(1) [OF r] by auto
  next
    case 2
    from split [OF 2] obtain k g1 c1 where m: "modify_topology N net g dp p True = Inr (k, g1)"
      and r: "foldE (resolve_stack_port N net dp) ps (g1, c1) = Inr (h, c')" by blast
    show ?case using Cons.IH(2) [OF r] modify_nodes [OF m] by auto
  }
qed

lemma resolve_graph_loop:
  assumes "foldE (\<lambda>d st. foldE (resolve_stack_port N net (sd_name d)) (dp_stack_ports net d)
      (nx_add_node N (sd_name d) (fst st), snd st)) ds st = Inr (h, c')"
  shows "(nx_adj N h u v \<longleftrightarrow> nx_adj N (fst st) u v \<or> configured_link net ds u v) \<and>
    set (nx_nodes N (fst st)) \<union> sd_name ` set ds \<subseteq> set (nx_nodes N h)"
  using assms
proof (induction ds arbitrary: st)
  case Nil
  then show ?case by (simp add: configured_link_def)
next
  case (Cons d ds)
  from Cons.prems obtain st1 where
      r1: "foldE (resolve_stack_port N net (sd_name d)) (dp_stack_ports net d) (nx_add_node N (sd_name d) (fst st), snd st) = Inr st1"
    and r2: "foldE (\<lambda>d st. foldE (resolve_stack_port N net (sd_name d)) (dp_stack_ports net d)
      (nx_add_node N (sd_name d) (fst st), snd st)) ds st1 = Inr (h, c')"
    by (auto simp: bindE_Inr)
  obtain g1 c1 where st1: "st1 = (g1, c1)" by (cases st1)
  note e = resolve_ports_edges [OF r1 [unfolded st1]]
  have "nx_adj N (nx_add_node N (sd_name d) (fst st)) u v \<longleftrightarrow> nx_adj N (fst st) u v"
    by (simp add: nx_adj_def edge_add_node)
  then have "nx_adj N g1 u v \<longleftrightarrow> nx_adj N (fst st) u v \<or> configured_link net [d] u v"
    using e(1) [of u v] by (simp add: configured_link_def)
  moreover have "configured_link net (d # ds) u v \<longleftrightarrow> configured_link net [d] u v \<or> configured_link net ds u v"
    by (auto simp: configured_link_def)
  moreover have "insert (sd_name d) (set (nx_nodes N (fst st))) \<subseteq> set (nx_nodes N g1)"
    unfolding e(2) by (auto simp: nodes_add_node)
  ultimately show ?case using Cons.IH [OF r2] by (auto simp: st1)
qed

lemma resolve_graph_edges:
  assumes "resolve_graph N net ds = Inr (h, c)"
  shows "nx_adj N h u v \<longleftrightarrow> configured_link net ds u v" and "sd_name ` set ds \<subseteq> set (nx_nodes N h)"
  using resolve_graph_loop [OF assms [unfolded resolve_graph_def], of u v]
  by (auto simp: nx_adj_def edge_empty)

lemma resolve_paths_connected:
  assumes "resolve_paths N g s = Inr s'" and "st_graph s = None" and "st_graph s' \<noteq> None"
  shows "st_graph s' = Some g" and "st_root_name s' = st_root_name s" and "st_name s' \<in> set (nx_nodes N g)"
    and "\<forall>dp \<in> set (nx_nodes N g). shortest_path_to_root N s' dp \<noteq> []"
proof -
  let ?s = "s\<lparr>st_graph := Some g\<rparr>"
  from assms have size: "nx_size N g \<noteq> 0 \<and> st_name s \<in> set (nx_nodes N g)" by (auto simp: resolve_paths_def split: if_splits)
  with assms(1) have loop: "foldE (\<lambda>dp _. test_config_condition (shortest_path_to_root N ?s dp = [])) (nx_nodes N g) () = Inr ()"
    and s': "s' = ?s \<or> s' = ?s\<lparr>st_root_flood_reflection := True\<rparr>"
    by (auto simp: resolve_paths_def bindE_Inr Let_def split: option.splits if_splits)
  from s' have same: "shortest_path_to_root N s' dp = shortest_path_to_root N ?s dp" for dp
    by (auto simp: shortest_path_to_root_def shortest_path_def)
  from foldE_tests [OF loop] show "\<forall>dp \<in> set (nx_nodes N g). shortest_path_to_root N s' dp \<noteq> []" by (simp add: same)
  from s' size show "st_graph s' = Some g" "st_root_name s' = st_root_name s" "st_name s' \<in> set (nx_nodes N g)" by auto
qed

end

text \<open>C12. A stack whose topology resolves is connected: in its graph two datapaths are adjacent exactly
  when a link between them is configured, its root is one of the candidates, and every datapath with
  stack ports has a shortest path to the root.\<close>

lemma resolved_stack_connected:
  assumes "multigraph N" and "resolve_topology N net dps meta s = Inr s'"
    and "st_graph s = None" and "st_graph s' = Some g"
  shows "(\<forall>u v. nx_adj N g u v \<longleftrightarrow> configured_link net dps u v) \<and>
    (\<exists>r. st_root_name s' = Some r \<and>
       (\<exists>d \<in> set dps. sd_stack d \<and> 0 < st_priority (nt_stack net (sd_name d)) \<and> st_name (nt_stack net (sd_name d)) = r) \<and>
       (\<forall>d \<in> set dps. dp_stack_ports net d \<noteq> [] \<longrightarrow>
          shortest (nx_adj N g) (sd_name d) r (shortest_path_to_root N s' (sd_name d))))"
proof -
  let ?prio = "filter (\<lambda>d. st_priority (nt_stack net (sd_name d)) \<noteq> 0) (filter sd_stack dps)"
  let ?ports = "filter (\<lambda>d. dp_stack_ports net d \<noteq> []) dps"
  have "?prio \<noteq> [] \<and> st_ports s \<noteq> []"
    using assms(2,3,4) by (auto simp: resolve_topology_def Let_def bindE_Inr split: if_splits)
  with assms(2) obtain s1 s2 h c where root: "resolve_root net ?prio meta s = Inr s1"
    and s2: "s2 = (if list_ex (\<lambda>d. True \<in> set (sd_vlan_vips d)) ?ports then s1\<lparr>st_route_learning := True\<rparr> else s1)"
    and graph: "resolve_graph N net ?ports = Inr (h, c)" and paths: "resolve_paths N h s2 = Inr s'"
    by (auto simp: resolve_topology_def Let_def bindE_Inr split: prod.splits)
  have none: "st_graph s2 = None" using resolve_root_keeps [OF root] assms(3) by (simp add: s2)
  note con = multigraph.resolve_paths_connected [OF assms(1) paths none]
  have h: "h = g" using con(1) assms(4) by simp
  have adj: "nx_adj N g u v \<longleftrightarrow> configured_link net dps u v" for u v
    using multigraph.resolve_graph_edges(1) [OF assms(1) graph, of u v] by (auto simp: h configured_link_def; force)
  obtain r where r: "st_root_name s1 = Some r" "\<exists>d \<in> set ?prio. st_name (nt_stack net (sd_name d)) = r"
    by (rule resolve_root_nominates [OF root]) blast
  have name: "st_root_name s' = Some r" using con(2) r(1) assms(4) by (simp add: s2 split: if_splits)
  have "shortest (nx_adj N g) (sd_name d) r (shortest_path_to_root N s' (sd_name d))"
    if "d \<in> set dps" "dp_stack_ports net d \<noteq> []" for d
  proof -
    have "sd_name d \<in> set (nx_nodes N h)" using multigraph.resolve_graph_edges(2) [OF assms(1) graph] that by auto
    with con(4) assms(4) have "shortest_path_to_root N s' (sd_name d) \<noteq> []" by simp
    then show ?thesis using assms(1,4) name multigraph.shortest_pathD [of N s' "st_root_name s'" "sd_name d"]
      by (auto simp: shortest_path_to_root_def)
  qed
  moreover have "\<exists>d \<in> set dps. sd_stack d \<and> 0 < st_priority (nt_stack net (sd_name d)) \<and> st_name (nt_stack net (sd_name d)) = r"
    using r(2) resolve_root_priorities [OF root] by auto
  ultimately show ?thesis using adj name by blast
qed

section \<open>The nominated root\<close>

text \<open>The nominated stack is the least in the order of health; a healthy one if there is one.\<close>

lemma stack_nominate_least:
  assumes "stack_nominate_root stacks = Inr (names, r)"
  obtains s where "s \<in> set stacks" and "st_name s = r" and "\<forall>t \<in> set stacks. health_priority s \<le> health_priority t"
proof -
  from assms obtain s rest where s: "sort_key health_priority stacks = s # rest" and r: "st_name s = r"
    by (auto simp: stack_nominate_root_def split: list.splits)
  have "sorted (map health_priority (s # rest))" by (metis s sorted_sort_key)
  moreover have "set (s # rest) = set stacks" by (metis s set_sort)
  ultimately have "\<forall>t \<in> set stacks. health_priority s \<le> health_priority t" "s \<in> set stacks" by (metis order_refl set_ConsD sorted_simps(2) list.simps(9) image_eqI list.set_map, auto)
  with r that show thesis by blast
qed

lemma stack_nominate_total: "stacks \<noteq> [] \<Longrightarrow> \<exists>names r. stack_nominate_root stacks = Inr (names, r)"
  by (cases "sort_key health_priority stacks") (auto simp: stack_nominate_root_def dest!: arg_cong [of _ _ set])

lemma health_priority_healthy: "health_priority s \<le> health_priority t \<Longrightarrow> st_dyn_healthy t \<Longrightarrow> st_dyn_healthy s"
  by (auto simp: health_priority_def less_eq_prod_def)

text \<open>
  A node without LACP ports is meant to count as all of them up; its LACP percentage is 0, so it is ranked
  behind every healthy node that has LACP ports, whatever their priorities.
\<close>

lemma no_lacp_ports_rank_last:
  assumes "s' = update_health net [] now live update_time s" and "t' = update_health net lacp_ports now live update_time t"
    and "lacp_ports \<noteq> []" and "st_dyn_healthy s'" and "st_dyn_healthy t'" and "0 < st_min_lacp_health t"
    and "fst (snd (st_dyn_healthy_info s')) = fst (snd (st_dyn_healthy_info t'))"
  shows "health_priority t' < health_priority s'"
proof -
  have lacp: "snd (snd (st_dyn_healthy_info s')) = 0"
    using assms(1,4) by (auto simp: update_health_def Let_def split: prod.splits if_splits)
  have "st_min_lacp_health t \<le> snd (snd (st_dyn_healthy_info t'))"
    using assms(2,3,5) by (auto simp: update_health_def lacp_port_healthy_def Let_def split: prod.splits if_splits)
  with lacp assms(4-7) show ?thesis by (simp add: health_priority_def less_prod_def)
qed

text \<open>Two topologies that connect four datapaths in different rings have the same hash.\<close>

definition ring :: "string list \<Rightarrow> list_graph" where
  "ring ns = \<lparr>lg_nodes = sort ns,
     lg_edges = map (\<lambda>(u, v). (u, v, u @ v, \<lparr>ea_dp_a = u, ea_port_a = 1, ea_dp_z = v, ea_port_z = 2\<rparr>)) (zip ns (rotate1 ns))\<rparr>"

lemma topology_hash_misses_rewiring:
  "topology_hash list_nx (ring [''a'', ''b'', ''c'', ''d'']) = topology_hash list_nx (ring [''a'', ''c'', ''b'', ''d''])"
  "''c'' \<in> set (lg_neighbours (ring [''a'', ''c'', ''b'', ''d'']) ''a'')"
  "''c'' \<notin> set (lg_neighbours (ring [''a'', ''b'', ''c'', ''d'']) ''a'')"
  by code_simp+

text \<open>A link has one edge, whichever of its ends changes: what the update of one end adds, the
  update of the other end removes, and nothing else.\<close>

lemma link_update_roundtrip:
  assumes "multigraph N" and "modify_topology N net g dp p True = Inr (k, h)" and "\<not> nx_has_edge N g dp (peer_dp p) k"
    and "modify_topology N net h (peer_dp p) (reverse_link dp p i) False = Inr (j, g')"
  shows "j = k \<and> nx_has_edge N h dp (peer_dp p) k \<and> nx_has_edge N g' u v e = nx_has_edge N g u v e"
proof -
  have rem: "modify_topology N net h dp p False = Inr (j, g')" using assms(4) by (simp add: modify_topology_reverse)
  have "j = k" using assms(2) rem by (auto simp: modify_topology_def bindE_Inr Let_def)
  have no_edge: "\<not> nx_has_edge N g u v k" if "u = dp \<and> v = peer_dp p \<or> u = peer_dp p \<and> v = dp" for u v
    using that assms(3) multigraph.edge_sym [OF assms(1)] by blast
  show ?thesis
    using multigraph.modify_edges [OF assms(1,2)] multigraph.modify_edges [OF assms(1) rem] no_edge \<open>j = k\<close> by auto
qed

subsection \<open>Witnesses\<close>

text \<open>Three datapaths in a line; the first two have two links.\<close>

definition example_link :: "string \<Rightarrow> int \<Rightarrow> stack_peer" where
  "example_link dp n = \<lparr>sp_dp = dp, sp_port = n, sp_send_interval = 5\<rparr>"

definition example_ports :: "string \<Rightarrow> stack_port list" where
  "example_ports dp =
     (if dp = ''sw1'' then [(1, example_link ''sw2'' 1), (2, example_link ''sw2'' 2)]
      else if dp = ''sw2'' then [(1, example_link ''sw1'' 1), (2, example_link ''sw1'' 2), (3, example_link ''sw3'' 1)]
      else if dp = ''sw3'' then [(1, example_link ''sw2'' 3)] else [])"

definition example_stack :: "string \<Rightarrow> list_graph stack" where
  "example_stack dp = (new_stack dp (if dp = ''sw1'' then 1 else 2) (if dp = ''sw1'' then 1 else 0))\<lparr>st_ports := example_ports dp\<rparr>"

definition example_port :: "string \<Rightarrow> int \<Rightarrow> port" where
  "example_port dp n =
     (default_port n)\<lparr>p_stack := dict_get (example_ports dp) n, p_dyn_phys_up := True,
        p_dyn_stack_current_state := (if dict_get (example_ports dp) n = None then STACK_STATE_NONE else STACK_STATE_UP)\<rparr>"

definition example_net :: "list_graph stack_net" where
  "example_net = \<lparr>nt_stack = example_stack, nt_port = example_port\<rparr>"

definition example_dps :: "stack_dp list" where
  "example_dps = map (\<lambda>dp. \<lparr>sd_name = dp, sd_stack = True, sd_vlan_vips = [False]\<rparr>) [''sw1'', ''sw2'', ''sw3'']"

definition example_resolved :: "string \<Rightarrow> list_graph stack" where
  "example_resolved dp =
     (case resolve_topology list_nx example_net example_dps None (example_stack dp) of Inr s \<Rightarrow> s | Inl _ \<Rightarrow> example_stack dp)"

lemma example_resolves: "resolve_topology list_nx example_net example_dps None (example_stack ''sw3'') = Inr (example_resolved ''sw3'')"
  by code_simp

lemma example_graph: "\<exists>g. st_graph (example_resolved ''sw3'') = Some g"
proof -
  have "st_graph (example_resolved ''sw3'') \<noteq> None" by code_simp
  then show ?thesis by simp
qed

lemma resolved_stack_connected_witness:
  "\<exists>g. st_graph (example_resolved ''sw3'') = Some g \<and> nx_adj list_nx g ''sw1'' ''sw2'' \<and>
     shortest (nx_adj list_nx g) ''sw3'' ''sw1'' [''sw3'', ''sw2'', ''sw1'']"
proof -
  obtain g where g: "st_graph (example_resolved ''sw3'') = Some g" using example_graph by blast
  have none: "st_graph (example_stack ''sw3'') = None" by code_simp
  note c = resolved_stack_connected [OF list_nx.multigraph_axioms example_resolves none g]
  have d: "\<lparr>sd_name = ''sw3'', sd_stack = True, sd_vlan_vips = [False]\<rparr> \<in> set example_dps"
    "\<lparr>sd_name = ''sw1'', sd_stack = True, sd_vlan_vips = [False]\<rparr> \<in> set example_dps"
    by (simp_all add: example_dps_def)
  have p: "dp_stack_ports example_net \<lparr>sd_name = ''sw3'', sd_stack = True, sd_vlan_vips = [False]\<rparr> \<noteq> []"
    "(1, example_link ''sw2'' 1) \<in> set (dp_stack_ports example_net \<lparr>sd_name = ''sw1'', sd_stack = True, sd_vlan_vips = [False]\<rparr>)"
    by code_simp+
  have r: "st_root_name (example_resolved ''sw3'') = Some ''sw1''"
    "shortest_path_to_root list_nx (example_resolved ''sw3'') ''sw3'' = [''sw3'', ''sw2'', ''sw1'']" by code_simp+
  have "configured_link example_net example_dps ''sw1'' ''sw2''"
    unfolding configured_link_def
    by (intro bexI [OF _ d(2)] bexI [OF _ p(2)]) (simp add: peer_dp_def example_link_def)
  moreover have "shortest (nx_adj list_nx g) ''sw3'' ''sw1'' [''sw3'', ''sw2'', ''sw1'']"
    using c r d(1) p(1) by force
  ultimately show ?thesis using c g by blast
qed

definition example_added :: list_graph where
  "example_added = (case modify_topology list_nx example_net \<lparr>lg_nodes = [], lg_edges = []\<rparr> ''sw1'' (1, example_link ''sw2'' 1) True
     of Inr (_, h) \<Rightarrow> h | Inl _ \<Rightarrow> \<lparr>lg_nodes = [], lg_edges = []\<rparr>)"

definition example_removed :: list_graph where
  "example_removed = (case modify_topology list_nx example_net example_added ''sw2'' (1, example_link ''sw1'' 1) False
     of Inr (_, h) \<Rightarrow> h | Inl _ \<Rightarrow> example_added)"

lemma link_update_roundtrip_witness:
  "nx_has_edge list_nx example_added ''sw1'' ''sw2'' ''sw1:1-sw2:1'' \<and>
   \<not> nx_has_edge list_nx example_removed ''sw1'' ''sw2'' ''sw1:1-sw2:1''"
proof -
  let ?g = "\<lparr>lg_nodes = [], lg_edges = []\<rparr> :: list_graph" and ?p = "(1, example_link ''sw2'' 1) :: stack_port"
  have h: "modify_topology list_nx example_net ?g ''sw1'' ?p True = Inr (''sw1:1-sw2:1'', example_added)"
    and g': "modify_topology list_nx example_net example_added ''sw2'' (1, example_link ''sw1'' 1) False = Inr (''sw1:1-sw2:1'', example_removed)"
    by code_simp+
  have rev: "(1, example_link ''sw1'' 1) = reverse_link ''sw1'' ?p 5" and peer: "peer_dp ?p = ''sw2''"
    by (simp_all add: reverse_link_def example_link_def peer_dp_def peer_no_def)
  have new: "\<not> nx_has_edge list_nx ?g ''sw1'' ''sw2'' ''sw1:1-sw2:1''" by code_simp
  show ?thesis
    using link_update_roundtrip [OF list_nx.multigraph_axioms h, unfolded peer, OF new g' [unfolded rev],
      of "''sw1''" "''sw2''" "''sw1:1-sw2:1''"] new by simp
qed

end
