(* ===== verification/StackManager.thy ===== *)
theory StackManager imports Stack Vlan begin

text \<open>
  The manager of a stack, \<^verbatim>\<open>faucet/valve_stack.py\<close>: which ports lead towards the root and away from it, which
  are pruned, the ports towards a datapath and the choice of a new root. The tunnels of its ACLs are in a
  theory of their own.

  The sets of the Python code are lists of ports; a port is in a set when its number is. The order of a set,
  which Python leaves open, is the order of the list.
\<close>

section \<open>The distances of the peers\<close>

record distances =
  ds_towards_root_ports :: "stack_port list"
  ds_chosen_towards_ports :: "stack_port list"
  ds_chosen_towards_port :: "stack_port option"
  ds_away_ports :: "stack_port list"
  ds_inactive_away_ports :: "stack_port list"
  ds_pruned_away_ports :: "int list"

definition has_port :: "int \<Rightarrow> stack_port list \<Rightarrow> bool" where
  "has_port n ps \<longleftrightarrow> n \<in> fst ` set ps"

definition peer_distance :: "'g nx \<Rightarrow> 'g stack_net \<Rightarrow> stack_port \<Rightarrow> nat" where
  "peer_distance N net p = (let s = nt_stack net (peer_dp p) in length (shortest_path_to_root N s (st_name s)))"

definition shortest_distance :: "nat list \<Rightarrow> nat option" where
  "shortest_distance ds = foldl (\<lambda>m d. case m of None \<Rightarrow> Some d | Some m \<Rightarrow> Some (min m d)) None ds"

definition all_peer_ports :: "'g stack_net \<Rightarrow> 'g stack \<Rightarrow> stack_port list" where
  "all_peer_ports net s = canonical_up_ports net s (st_ports s)"

definition towards_ports :: "'g nx \<Rightarrow> 'g stack_net \<Rightarrow> 'g stack \<Rightarrow> stack_port list" where
  "towards_ports N net s =
     (let ps = all_peer_ports net s; shortest_peer_distance = shortest_distance (map (peer_distance N net) ps)
      in if is_root s then [] else filter (\<lambda>p. Some (peer_distance N net p) = shortest_peer_distance) ps)"

definition first_peer_dp :: "'g nx \<Rightarrow> 'g stack \<Rightarrow> stack_port list \<Rightarrow> string" where
  "first_peer_dp N s towards =
     (case shortest_path_to_root N s (st_name s) of
        _ # dp # _ \<Rightarrow> dp
      | _ \<Rightarrow> peer_dp (hd (canonical_order towards)))"

definition chosen_ports :: "'g nx \<Rightarrow> 'g stack_net \<Rightarrow> 'g stack \<Rightarrow> stack_port list" where
  "chosen_ports N net s =
     (let towards = towards_ports N net s
      in if towards = [] then [] else filter (\<lambda>p. peer_dp p = first_peer_dp N s towards) towards)"

definition chosen_port :: "'g stack_net \<Rightarrow> 'g stack \<Rightarrow> stack_port list \<Rightarrow> err + stack_port option" where
  "chosen_port net s chosen =
     (if chosen = [] then Inr None
      else case canonical_up_ports net s chosen of [] \<Rightarrow> Inl IndexError | p # _ \<Rightarrow> Inr (Some p))"

definition away_ports :: "'g nx \<Rightarrow> 'g stack_net \<Rightarrow> 'g stack \<Rightarrow> stack_port list" where
  "away_ports N net s = filter (\<lambda>p. \<not> has_port (fst p) (towards_ports N net s)) (all_peer_ports net s)"

definition inactive_ports :: "'g nx \<Rightarrow> 'g stack_net \<Rightarrow> 'g stack \<Rightarrow> stack_port list" where
  "inactive_ports N net s = filter (\<lambda>p. \<not> is_in_path N s (peer_dp p) (st_root_name s)) (away_ports N net s)"

text \<open>Of the links to one datapath all are pruned but the first in the order of the ports of its other end.\<close>

definition peer_of_port :: "'g stack_net \<Rightarrow> string \<Rightarrow> int \<Rightarrow> err + int" where
  "peer_of_port net dp n = (case p_stack (nt_port net dp n) of None \<Rightarrow> Inl TypeError | Some q \<Rightarrow> Inr (sp_port q))"

definition remote_up :: "'g stack_net \<Rightarrow> string \<Rightarrow> stack_port list \<Rightarrow> int list" where
  "remote_up net dp ports = sort (filter (\<lambda>n. is_stack_up (nt_port net dp n)) (map peer_no ports))"

definition pruned_of_dp :: "'g stack_net \<Rightarrow> string \<times> stack_port list \<Rightarrow> err + int list" where
  "pruned_of_dp net dp_ports =
     (case dp_ports of (dp, ports) \<Rightarrow>
        let remote = remote_up net dp ports in mapE (peer_of_port net dp) (filter (\<lambda>n. n \<noteq> hd remote) remote))"

definition pruned_ports :: "'g stack_net \<Rightarrow> stack_port list \<Rightarrow> err + int list" where
  "pruned_ports net away =
     bindE (mapE (pruned_of_dp net) (foldl (\<lambda>d p. dict_append (peer_dp p) p d) [] away)) (\<lambda>pss. Inr (concat pss))"

definition reset_peer_distances :: "'g nx \<Rightarrow> 'g stack_net \<Rightarrow> 'g stack \<Rightarrow> err + distances" where
  "reset_peer_distances N net s =
     (let chosen = chosen_ports N net s; away = away_ports N net s
      in bindE (chosen_port net s chosen) (\<lambda>port.
         bindE (pruned_ports net away) (\<lambda>pruned.
         Inr \<lparr>ds_towards_root_ports = towards_ports N net s, ds_chosen_towards_ports = chosen,
              ds_chosen_towards_port = port, ds_away_ports = away,
              ds_inactive_away_ports = inactive_ports N net s, ds_pruned_away_ports = pruned\<rparr>)))"

text \<open>A link of the datapath \<open>dp\<close> goes up or down: the stack of the datapath \<open>d\<close> and its distances.\<close>

definition update_stack_topo ::
    "'g nx \<Rightarrow> string \<Rightarrow> bool \<Rightarrow> string \<Rightarrow> stack_port \<Rightarrow> 'g stack_net \<Rightarrow> err + 'g stack_net \<times> distances" where
  "update_stack_topo N d event dp p net =
     bindE (modify_link N net (nt_stack net d) dp p event) (\<lambda>s.
     let net = net\<lparr>nt_stack := (nt_stack net)(d := s)\<rparr>
     in bindE (reset_peer_distances N net s) (\<lambda>ds. Inr (net, ds)))"

section \<open>Ports\<close>

definition is_away :: "distances \<Rightarrow> int \<Rightarrow> bool" where "is_away ds n \<longleftrightarrow> has_port n (ds_away_ports ds)"
definition is_towards_root :: "distances \<Rightarrow> int \<Rightarrow> bool" where "is_towards_root ds n \<longleftrightarrow> has_port n (ds_towards_root_ports ds)"

definition is_selected_towards_root_port :: "distances \<Rightarrow> int \<Rightarrow> bool" where
  "is_selected_towards_root_port ds n \<longleftrightarrow> map_option fst (ds_chosen_towards_port ds) = Some n"

definition is_pruned_port :: "distances \<Rightarrow> int \<Rightarrow> bool" where
  "is_pruned_port ds n \<longleftrightarrow>
     (if is_towards_root ds n then \<not> is_selected_towards_root_port ds n
      else if is_away ds n then (if ds_pruned_away_ports ds \<noteq> [] then n \<in> set (ds_pruned_away_ports ds) else False)
      else True)"

definition adjacent_stack_ports :: "'g stack \<Rightarrow> string \<Rightarrow> stack_port list" where
  "adjacent_stack_ports s dp = filter (\<lambda>p. peer_dp p = dp) (st_ports s)"

definition default_port_towards :: "'g nx \<Rightarrow> 'g stack_net \<Rightarrow> 'g stack \<Rightarrow> string \<Rightarrow> stack_port option" where
  "default_port_towards N net s dp_name = shortest_path_port N net s dp_name"

definition list_index :: "'a \<Rightarrow> 'a list \<Rightarrow> nat" where
  "list_index x xs = length (takeWhile (\<lambda>y. y \<noteq> x) xs)"

definition before :: "'a \<Rightarrow> 'a list \<Rightarrow> 'a" where
  "before x xs = (if list_index x xs = 0 then last xs else xs ! (list_index x xs - 1))"

definition relative_port_towards ::
    "'g nx \<Rightarrow> 'g stack_net \<Rightarrow> 'g stack \<Rightarrow> distances \<Rightarrow> string \<Rightarrow> stack_port option" where
  "relative_port_towards N net s ds dp_name =
     (if shortest_path_to_root N s (st_name s) = [] then default_port_towards N net s dp_name
      else if st_name s = dp_name then default_port_towards N net s dp_name
      else
        let path_to_root = shortest_path_to_root N s dp_name
        in if path_to_root \<noteq> [] \<and> st_name s \<in> set path_to_root
           then find (\<lambda>p. peer_dp p = before (st_name s) path_to_root \<and> \<not> is_pruned_port ds (fst p)) (ds_away_ports ds)
           else ds_chosen_towards_port ds)"

definition edge_learn_port_towards ::
    "'g nx \<Rightarrow> 'g stack_net \<Rightarrow> 'g stack \<Rightarrow> distances \<Rightarrow> vlan \<Rightarrow> string \<Rightarrow> stack_port option" where
  "edge_learn_port_towards N net s ds v edge_dp =
     (if v_edge_learn_stack_root v then relative_port_towards N net s ds edge_dp else default_port_towards N net s edge_dp)"

definition tunnel_outport :: "'g nx \<Rightarrow> 'g stack_net \<Rightarrow> 'g stack \<Rightarrow> string \<Rightarrow> string \<Rightarrow> int option \<Rightarrow> int option" where
  "tunnel_outport N net s src_dp dst_dp dst_port =
     (if \<not> is_in_path N s src_dp (Some dst_dp) then None
      else if st_name s = dst_dp then dst_port
      else map_option fst (default_port_towards N net s dst_dp))"

section \<open>The root\<close>

text \<open>
  A valve is the name of its datapath; \<open>root_valve\<close> has a stack, \<open>other_valves\<close> say whether they have one,
  \<open>lacp_ports\<close> are the LACP ports of a datapath. The loop over the candidates updates their health in the store.
\<close>

definition candidate_health ::
    "(string \<Rightarrow> port list) \<Rightarrow> int \<Rightarrow> (string, int) dict \<Rightarrow> int \<Rightarrow> string \<Rightarrow>
     'g stack_net \<times> string list \<times> string list \<Rightarrow> err + 'g stack_net \<times> string list \<times> string list" where
  "candidate_health lacp_ports now last_live_times update_time d st =
     (case st of (net, healthy, unhealthy) \<Rightarrow>
        bindE (is_root_candidate (nt_stack net d)) (\<lambda>candidate.
        if \<not> candidate then Inr st
        else
          let s = update_health net (lacp_ports d) now last_live_times update_time (nt_stack net d);
              net = net\<lparr>nt_stack := (nt_stack net)(d := s)\<rparr>
          in Inr (if st_dyn_healthy s then (net, healthy @ [d], unhealthy)
                  else if fst (st_dyn_healthy_info s) then (net, healthy, unhealthy @ [d])
                  else (net, healthy, unhealthy))))"

definition choose_root :: "'g stack_net \<Rightarrow> string option \<Rightarrow> string list \<Rightarrow> err + string" where
  "choose_root net root_valve valves =
     (case root_valve of
        Some r \<Rightarrow> if r \<in> set valves then Inr r else bindE (stack_nominate_root (map (nt_stack net) valves)) (\<lambda>(_, name). Inr name)
      | None \<Rightarrow> bindE (stack_nominate_root (map (nt_stack net) valves)) (\<lambda>(_, name). Inr name))"

definition nominate_stack_root ::
    "(string \<Rightarrow> port list) \<Rightarrow> string option \<Rightarrow> (string \<times> bool) list \<Rightarrow> int \<Rightarrow> (string, int) dict \<Rightarrow> int \<Rightarrow>
     'g stack_net \<Rightarrow> err + string option \<times> 'g stack_net" where
  "nominate_stack_root lacp_ports root_valve other_valves now last_live_times update_time net =
     (let others = map fst (filter snd other_valves);
          stack_valves = (case root_valve of None \<Rightarrow> others | Some r \<Rightarrow> List.insert r others)
      in bindE (foldE (candidate_health lacp_ports now last_live_times update_time) stack_valves (net, [], []))
           (\<lambda>(net, healthy, unhealthy).
         if healthy = [] \<and> unhealthy = [] then Inr (None, net)
         else bindE (choose_root net root_valve (if healthy \<noteq> [] then healthy else unhealthy)) (\<lambda>name. Inr (Some name, net))))"

definition stacked_valves :: "'g stack_net \<Rightarrow> (string \<times> bool) list \<Rightarrow> string list" where
  "stacked_valves net valves =
     filter (\<lambda>d. st_root_name (nt_stack net d) \<notin> {None, Some ''''}) (map fst (filter snd valves))"

definition consistent_roots :: "'g stack_net \<Rightarrow> string \<Rightarrow> string \<Rightarrow> (string \<times> bool) list \<Rightarrow> bool" where
  "consistent_roots net expected_root_name valve other_valves =
     list_all (\<lambda>d. st_root_name (nt_stack net d) = Some expected_root_name)
       (List.insert valve (stacked_valves net other_valves))"

section \<open>A consistent stack\<close>

text \<open>
  The stacks of the datapaths \<open>D\<close> agree on their graph and root, their links have two ends in the same
  state, and the graph has the links that are up.
\<close>

definition stack_consistent :: "'g nx \<Rightarrow> 'g stack_net \<Rightarrow> string set \<Rightarrow> 'g \<Rightarrow> string \<Rightarrow> bool" where
  "stack_consistent N net D g rt \<longleftrightarrow>
     rt \<in> D \<and>
     (\<forall>d \<in> D. st_name (nt_stack net d) = d \<and> st_graph (nt_stack net d) = Some g \<and> st_root_name (nt_stack net d) = Some rt \<and>
        d \<in> set (nx_nodes N g) \<and> distinct (map fst (st_ports (nt_stack net d)))) \<and>
     (\<forall>d \<in> D. \<forall>p \<in> set (st_ports (nt_stack net d)).
        peer_dp p \<in> D \<and> peer_dp p \<noteq> d \<and>
        (\<exists>q \<in> set (st_ports (nt_stack net (peer_dp p))). fst q = peer_no p \<and> peer_dp q = d \<and> peer_no q = fst p \<and>
           p_stack (peer_port net p) = Some (snd q)) \<and>
        (is_stack_up (nt_port net d (fst p)) \<longleftrightarrow> is_stack_up (peer_port net p))) \<and>
     (\<forall>u v. nx_adj N g u v \<longleftrightarrow>
        u \<in> D \<and> (\<exists>p \<in> set (st_ports (nt_stack net u)). peer_dp p = v \<and> is_stack_up (nt_port net u (fst p))))"

definition dp_path :: "'g nx \<Rightarrow> 'g stack_net \<Rightarrow> string \<Rightarrow> string list" where
  "dp_path N net d = shortest_path_to_root N (nt_stack net d) d"

text \<open>The next datapath on the path of a datapath to the root.\<close>

definition dp_parent :: "'g nx \<Rightarrow> 'g stack_net \<Rightarrow> string \<Rightarrow> string option" where
  "dp_parent N net d = (case dp_path N net d of _ # u # _ \<Rightarrow> Some u | _ \<Rightarrow> None)"

lemma mapE_total_set:
  "(\<And>x. x \<in> set xs \<Longrightarrow> \<exists>y. f x = Inr y) \<Longrightarrow> \<exists>ys. mapE f xs = Inr ys \<and> set ys = {y. \<exists>x \<in> set xs. f x = Inr y}"
proof (induction xs)
  case Nil
  then show ?case by simp
next
  case (Cons x xs)
  from Cons.IH Cons.prems obtain ys where ys: "mapE f xs = Inr ys" "set ys = {y. \<exists>x \<in> set xs. f x = Inr y}" by auto
  from Cons.prems [of x] obtain y where y: "f x = Inr y" by auto
  from ys y have "mapE f (x # xs) = Inr (y # ys)" by simp
  moreover have "set (y # ys) = {z. \<exists>w \<in> set (x # xs). f w = Inr z}" using ys(2) y by auto
  ultimately show ?case by blast
qed

lemma hd_sort_least:
  fixes xs :: "int list"
  assumes "n \<in> set xs"
  shows "n \<noteq> hd (sort xs) \<longleftrightarrow> (\<exists>m \<in> set xs. m < n)"
proof -
  from assms obtain h t where h: "sort xs = h # t" by (metis list.exhaust set_empty2 set_sort empty_iff list.set(1))
  have set: "set (h # t) = set xs" by (metis h set_sort)
  have "sorted (h # t)" by (metis h sorted_sort)
  then have "\<forall>m \<in> set xs. h \<le> m" using set by auto
  moreover have "h \<in> set xs" using set by auto
  ultimately show ?thesis using assms h by (metis list.sel(1) linorder_not_less order_le_imp_less_or_eq)
qed

lemma shortest_distance_Min: "ds \<noteq> [] \<Longrightarrow> shortest_distance ds = Some (Min (set ds))"
proof (induction ds rule: rev_induct)
  case Nil
  then show ?case by simp
next
  case (snoc d ds)
  show ?case
  proof (cases "ds = []")
    case True
    then show ?thesis by (simp add: shortest_distance_def)
  next
    case False
    with snoc.IH have "shortest_distance (ds @ [d]) = Some (min (Min (set ds)) d)" by (simp add: shortest_distance_def)
    also have "min (Min (set ds)) d = Min (set (ds @ [d]))" using False by (simp add: Min_insert min.commute)
    finally show ?thesis .
  qed
qed

text \<open>Of the ports to one datapath those with a lower port at the other end prune it.\<close>

lemma pruned_of_group:
  assumes "\<And>p. p \<in> set ports \<Longrightarrow> peer_dp p = dp \<and> is_stack_up (peer_port net p) \<and>
      (\<exists>q. p_stack (peer_port net p) = Some q \<and> sp_port q = fst p)"
    and "inj_on fst (set ports)"
  shows "\<exists>ns. pruned_of_dp net (dp, ports) = Inr ns \<and>
    set ns = {fst p |p. p \<in> set ports \<and> (\<exists>q \<in> set ports. peer_no q < peer_no p)}"
proof -
  have up: "is_stack_up (nt_port net dp n)" if "n \<in> set (map peer_no ports)" for n
    using that assms(1) by (auto simp: peer_port_def)
  have remote: "remote_up net dp ports = sort (map peer_no ports)"
    using up by (simp add: remote_up_def filter_id_conv)
  have rev_port: "peer_of_port net dp (peer_no p) = Inr (fst p)" if "p \<in> set ports" for p
    using assms(1) [OF that] by (auto simp: peer_of_port_def peer_port_def)
  let ?rest = "filter (\<lambda>n. n \<noteq> hd (remote_up net dp ports)) (remote_up net dp ports)"
  have rest: "n \<in> set ?rest \<longleftrightarrow> (\<exists>p \<in> set ports. n = peer_no p \<and> (\<exists>q \<in> set ports. peer_no q < peer_no p))" for n
    using hd_sort_least [of n "map peer_no ports"] by (auto simp: remote)
  have "\<exists>y. peer_of_port net dp x = Inr y" if "x \<in> set ?rest" for x
    using that unfolding rest using rev_port by blast
  then obtain ns where "mapE (peer_of_port net dp) ?rest = Inr ns" and "set ns = {y. \<exists>x \<in> set ?rest. peer_of_port net dp x = Inr y}"
    using mapE_total_set [of ?rest "peer_of_port net dp"] by blast
  moreover have "y \<in> {y. \<exists>x \<in> set ?rest. peer_of_port net dp x = Inr y} \<longleftrightarrow>
      y \<in> {fst p |p. p \<in> set ports \<and> (\<exists>q \<in> set ports. peer_no q < peer_no p)}" for y
  proof
    assume "y \<in> {y. \<exists>x \<in> set ?rest. peer_of_port net dp x = Inr y}"
    then obtain x where "x \<in> set ?rest" "peer_of_port net dp x = Inr y" by blast
    then obtain p where "p \<in> set ports" "x = peer_no p" "\<exists>q \<in> set ports. peer_no q < peer_no p" unfolding rest by blast
    moreover from this(1,2) have "y = fst p" using rev_port \<open>peer_of_port net dp x = Inr y\<close> by simp
    ultimately show "y \<in> {fst p |p. p \<in> set ports \<and> (\<exists>q \<in> set ports. peer_no q < peer_no p)}" by blast
  next
    assume "y \<in> {fst p |p. p \<in> set ports \<and> (\<exists>q \<in> set ports. peer_no q < peer_no p)}"
    then obtain p where "p \<in> set ports" "\<exists>q \<in> set ports. peer_no q < peer_no p" "y = fst p" by blast
    then have "peer_no p \<in> set ?rest" "peer_of_port net dp (peer_no p) = Inr y" unfolding rest using rev_port by (blast, simp)
    then show "y \<in> {y. \<exists>x \<in> set ?rest. peer_of_port net dp x = Inr y}" by blast
  qed
  ultimately show ?thesis by (auto simp: pruned_of_dp_def Let_def set_eq_iff)
qed

lemma pruned_iff:
  assumes "\<And>p. p \<in> set away \<Longrightarrow> is_stack_up (peer_port net p) \<and> (\<exists>q. p_stack (peer_port net p) = Some q \<and> sp_port q = fst p)"
    and "inj_on fst (set away)"
  shows "\<exists>ns. pruned_ports net away = Inr ns \<and>
    set ns = {fst p |p. p \<in> set away \<and> (\<exists>q \<in> set away. peer_dp q = peer_dp p \<and> peer_no q < peer_no p)}"
proof -
  let ?groups = "foldl (\<lambda>d p. dict_append (peer_dp p) p d) [] away"
  have item: "ports = filter (\<lambda>p. peer_dp p = dp) away" if "(dp, ports) \<in> set ?groups" for dp ports
    using group_item(1) [OF that] .
  have one: "\<exists>ns. pruned_of_dp net (dp, ports) = Inr ns \<and>
      set ns = {fst p |p. p \<in> set ports \<and> (\<exists>q \<in> set ports. peer_no q < peer_no p)}" if "(dp, ports) \<in> set ?groups" for dp ports
    using assms by (intro pruned_of_group) (auto simp: item [OF that] intro: inj_on_subset)
  then have "\<exists>y. pruned_of_dp net x = Inr y" if "x \<in> set ?groups" for x using that by (cases x) blast
  then obtain nss where nss: "mapE (pruned_of_dp net) ?groups = Inr nss"
    and set: "set nss = {y. \<exists>x \<in> set ?groups. pruned_of_dp net x = Inr y}" using mapE_total_set [of ?groups] by blast
  have "n \<in> set (concat nss) \<longleftrightarrow> n \<in> {fst p |p. p \<in> set away \<and> (\<exists>q \<in> set away. peer_dp q = peer_dp p \<and> peer_no q < peer_no p)}" for n
  proof
    assume "n \<in> set (concat nss)"
    then obtain dp ports ns where g: "(dp, ports) \<in> set ?groups" "pruned_of_dp net (dp, ports) = Inr ns" "n \<in> set ns"
      unfolding set_concat set by fastforce
    from one [OF g(1)] g(2,3) have "n \<in> {fst p |p. p \<in> set ports \<and> (\<exists>q \<in> set ports. peer_no q < peer_no p)}" by auto
    with item [OF g(1)] show "n \<in> {fst p |p. p \<in> set away \<and> (\<exists>q \<in> set away. peer_dp q = peer_dp p \<and> peer_no q < peer_no p)}"
      by fastforce
  next
    assume "n \<in> {fst p |p. p \<in> set away \<and> (\<exists>q \<in> set away. peer_dp q = peer_dp p \<and> peer_no q < peer_no p)}"
    then obtain p q where p: "n = fst p" "p \<in> set away" and q: "q \<in> set away" "peer_dp q = peer_dp p" "peer_no q < peer_no p" by blast
    from p have "filter (\<lambda>x. peer_dp x = peer_dp p) away \<noteq> []" by (auto simp: filter_empty_conv)
    then have "dict_get ?groups (peer_dp p) = Some (filter (\<lambda>x. peer_dp x = peer_dp p) away)" by (simp add: group_get)
    then have g: "(peer_dp p, filter (\<lambda>x. peer_dp x = peer_dp p) away) \<in> set ?groups" by (rule dict_get_Some_in)
    let ?ports = "filter (\<lambda>x. peer_dp x = peer_dp p) away"
    have "n \<in> {fst p |p. p \<in> set ?ports \<and> (\<exists>q \<in> set ?ports. peer_no q < peer_no p)}"
      using p q by (intro CollectI exI [of _ p] conjI bexI [of _ q]) simp_all
    with one [OF g] obtain ns where ns: "pruned_of_dp net (peer_dp p, ?ports) = Inr ns" "n \<in> set ns" by blast
    then have "ns \<in> set nss" unfolding set using g by blast
    with ns show "n \<in> set (concat nss)" by auto
  qed
  then have "set (concat nss) = {fst p |p. p \<in> set away \<and> (\<exists>q \<in> set away. peer_dp q = peer_dp p \<and> peer_no q < peer_no p)}"
    by (intro set_eqI)
  with nss show ?thesis by (intro exI [of _ "concat nss"]) (simp add: pruned_ports_def)
qed

lemma stack_consistentD:
  assumes "stack_consistent N net D g r" and "d \<in> D"
  shows "st_name (nt_stack net d) = d" and "st_graph (nt_stack net d) = Some g" and "st_root_name (nt_stack net d) = Some r"
    and "d \<in> set (nx_nodes N g)" and "inj_on fst (set (st_ports (nt_stack net d)))"
  using assms unfolding stack_consistent_def distinct_map by blast+

lemma stack_consistent_port:
  assumes "stack_consistent N net D g r" and "d \<in> D" and "p \<in> set (st_ports (nt_stack net d))"
  shows "peer_dp p \<in> D" and "peer_dp p \<noteq> d"
    and "\<exists>q \<in> set (st_ports (nt_stack net (peer_dp p))). fst q = peer_no p \<and> peer_dp q = d \<and> peer_no q = fst p \<and>
      p_stack (peer_port net p) = Some (snd q)"
    and "is_stack_up (peer_port net p) \<longleftrightarrow> is_stack_up (nt_port net d (fst p))"
  using assms unfolding stack_consistent_def by blast+

lemma stack_consistent_adj:
  assumes "stack_consistent N net D g r"
  shows "nx_adj N g u v \<longleftrightarrow>
    u \<in> D \<and> (\<exists>p \<in> set (st_ports (nt_stack net u)). peer_dp p = v \<and> is_stack_up (nt_port net u (fst p)))"
  using assms unfolding stack_consistent_def by blast

lemma path_any_stack:
  assumes "stack_consistent N net D g r" and "d \<in> D" and "e \<in> D"
  shows "shortest_path N (nt_stack net d) dest src = shortest_path N (nt_stack net e) dest src"
    and "shortest_path_to_root N (nt_stack net d) src = shortest_path_to_root N (nt_stack net e) src"
  using stack_consistentD(2,3) [OF assms(1,2)] stack_consistentD(2,3) [OF assms(1,3)]
  by (simp_all add: shortest_path_to_root_def shortest_path_def)

lemma set_all_peer_ports:
  "set (all_peer_ports net s) = {p \<in> set (st_ports s). is_stack_up (nt_port net (st_name s) (fst p))}"
  by (auto simp: all_peer_ports_def canonical_up_ports_def canonical_order_def own_port_def)

context multigraph begin

lemma dp_path_shortest:
  assumes "stack_consistent N net D g r" and "d \<in> D" and "dp_path N net d \<noteq> []"
  shows "shortest (nx_adj N g) d r (dp_path N net d)"
  using shortest_pathD [of "nt_stack net d" "Some r" d] assms(3) stack_consistentD(2,3) [OF assms(1,2)]
  by (auto simp: dp_path_def shortest_path_to_root_def)

lemma dp_path_ex:
  assumes "stack_consistent N net D g r" and "d \<in> D" and "is_path (nx_adj N g) d r p"
  shows "dp_path N net d \<noteq> []" and "length (dp_path N net d) \<le> length p"
proof -
  have s: "shortest (nx_adj N g) d r (dp_path N net d)"
    using shortest_path_exists [OF stack_consistentD(2,4) [OF assms(1,2)] assms(3)] stack_consistentD(3) [OF assms(1,2)]
    by (simp add: dp_path_def shortest_path_to_root_def)
  then show "length (dp_path N net d) \<le> length p" using assms(3) unfolding shortest_def by blast
  from s show "dp_path N net d \<noteq> []" by (auto simp: shortest_def is_path_def)
qed

text \<open>Neighbours are both connected to the root, at distances that differ by at most one.\<close>

lemma dp_path_neighbour:
  assumes "stack_consistent N net D g r" and "nx_adj N g u v" and "dp_path N net u \<noteq> []"
  shows "u \<in> D" and "v \<in> D" and "dp_path N net v \<noteq> []" and "length (dp_path N net v) \<le> Suc (length (dp_path N net u))"
proof -
  from assms(1,2) show u: "u \<in> D" by (simp add: stack_consistent_adj)
  have vu: "nx_adj N g v u" using assms(2) by (rule adj_sym)
  with assms(1) show v: "v \<in> D" by (simp add: stack_consistent_adj)
  from dp_path_shortest [OF assms(1) u assms(3)] have "is_path (nx_adj N g) u r (dp_path N net u)" by (simp add: shortest_def)
  note p = is_path_Cons [OF vu this]
  from dp_path_ex [OF assms(1) v p] show "dp_path N net v \<noteq> []"
    "length (dp_path N net v) \<le> Suc (length (dp_path N net u))" by simp_all
qed

lemma dp_path_hd:
  assumes "stack_consistent N net D g r" and "d \<in> D" and "dp_path N net d \<noteq> []"
  shows "hd (dp_path N net d) = d" and "last (dp_path N net d) = r" and "distinct (dp_path N net d)"
  using dp_path_shortest [OF assms] shortest_distinct [of "nx_adj N g" d r "dp_path N net d"]
  by (simp_all add: shortest_def is_path_def)

lemma dp_path_root:
  assumes "stack_consistent N net D g r"
  shows "dp_path N net r = [r]"
proof -
  have r: "r \<in> D" using assms unfolding stack_consistent_def by blast
  have "is_path (nx_adj N g) r r [r]" by simp
  from dp_path_shortest [OF assms r dp_path_ex(1) [OF assms r this]] show ?thesis by (simp add: shortest_self)
qed

lemma dp_path_step:
  assumes "stack_consistent N net D g r" and "y \<in> D" and "dp_path N net y \<noteq> []" and "y \<noteq> r"
  obtains u q where "dp_path N net y = y # u # q" and "nx_adj N g y u" and "u \<in> D" and "dp_path N net u \<noteq> []"
    and "length (dp_path N net y) = Suc (length (dp_path N net u))" and "dp_parent N net y = Some u"
proof -
  note s = dp_path_shortest [OF assms(1-3)]
  from assms(3,4) dp_path_hd(1,2) [OF assms(1-3)] obtain u q where y: "dp_path N net y = y # u # q"
    by (cases "dp_path N net y"; cases "tl (dp_path N net y)") auto
  note t = shortest_tl [OF s [unfolded y]]
  note nb = dp_path_neighbour [OF assms(1) t(1) assms(3)]
  have "length (dp_path N net u) = length (u # q)"
    by (rule shortest_same_length [OF dp_path_shortest [OF assms(1) nb(2,3)] t(2)])
  with y t(1) nb show thesis by (intro that [of u q]) (simp_all add: dp_parent_def)
qed

text \<open>A neighbour whose path to the root goes through a datapath has that datapath as its parent.\<close>

lemma parent_iff_in_path:
  assumes "stack_consistent N net D g r" and "nx_adj N g u y" and "dp_path N net u \<noteq> []"
  shows "u \<in> set (dp_path N net y) \<longleftrightarrow> dp_parent N net y = Some u"
proof
  note nb = dp_path_neighbour [OF assms]
  have ne: "u \<noteq> y" using assms(2) stack_consistent_port(2) [OF assms(1)] unfolding stack_consistent_adj [OF assms(1)] by blast
  assume "u \<in> set (dp_path N net y)"
  then obtain xs ys where p: "dp_path N net y = xs @ u # ys" by (auto simp: in_set_conv_decomp)
  note s = dp_path_shortest [OF assms(1) nb(2,3)]
  from s have "is_path (nx_adj N g) y r (xs @ u # ys)" by (simp add: shortest_def p)
  then have "is_path (nx_adj N g) u r (u # ys)" using walk_suffix by (auto simp: is_path_def)
  from is_path_Cons [OF adj_sym [OF assms(2)] this] s have "length (xs @ u # ys) \<le> length (y # u # ys)"
    unfolding shortest_def p by blast
  moreover have "xs \<noteq> []" using ne dp_path_hd(1) [OF assms(1) nb(2,3)] by (auto simp: p)
  ultimately obtain x where "xs = [x]" by (cases xs; cases "tl xs") auto
  then show "dp_parent N net y = Some u" by (simp add: dp_parent_def p)
next
  assume "dp_parent N net y = Some u"
  then show "u \<in> set (dp_path N net y)" by (auto simp: dp_parent_def split: list.splits)
qed

lemma parent_step:
  assumes "stack_consistent N net D g r" and "y \<in> D" and "dp_parent N net y = Some u"
  shows "dp_path N net y \<noteq> []" and "y \<noteq> r" and "u \<in> D" and "dp_path N net u \<noteq> []" and "nx_adj N g y u"
    and "length (dp_path N net y) = Suc (length (dp_path N net u))"
proof -
  from assms(3) obtain x q where p: "dp_path N net y = x # u # q" by (auto simp: dp_parent_def split: list.splits)
  then show ne: "dp_path N net y \<noteq> []" by simp
  show "y \<noteq> r" using p dp_path_root [OF assms(1)] by auto
  from dp_path_step [OF assms(1,2) ne this] p
  show "u \<in> D" "dp_path N net u \<noteq> []" "nx_adj N g y u" "length (dp_path N net y) = Suc (length (dp_path N net u))"
    by auto
qed

end

section \<open>The distances of a consistent stack\<close>

lemma chosen_port_least:
  assumes "chosen \<noteq> []" and "\<And>p. p \<in> set chosen \<Longrightarrow> is_stack_up (own_port net s p)"
  shows "\<exists>p. chosen_port net s chosen = Inr (Some p) \<and> p \<in> set chosen \<and> (\<forall>q \<in> set chosen. fst p \<le> fst q)"
proof -
  have up: "canonical_up_ports net s chosen = sort_key fst chosen"
    using assms(2) by (simp add: canonical_up_ports_def canonical_order_def filter_id_conv)
  obtain p ps where p: "sort_key fst chosen = p # ps" using assms(1) by (metis list.exhaust set_empty set_sort)
  have set: "set (p # ps) = set chosen" by (metis p set_sort)
  have "sorted (map fst (p # ps))" by (metis p sorted_sort_key)
  then have "\<forall>q \<in> set (p # ps). fst p \<le> fst q" by simp
  then have "p \<in> set chosen" "\<forall>q \<in> set chosen. fst p \<le> fst q" unfolding set [symmetric] by simp_all
  with assms(1) p show ?thesis by (simp add: chosen_port_def up)
qed

context multigraph begin

lemma up_port_adj:
  assumes "stack_consistent N net D g r" and "u \<in> D" and "p \<in> set (all_peer_ports net (nt_stack net u))"
  shows "nx_adj N g u (peer_dp p)" and "peer_distance N net p = length (dp_path N net (peer_dp p))" and "p \<in> set (st_ports (nt_stack net u))"
    and "is_stack_up (nt_port net u (fst p))"
proof -
  from assms(3) show p: "p \<in> set (st_ports (nt_stack net u))" and up: "is_stack_up (nt_port net u (fst p))"
    using stack_consistentD(1) [OF assms(1,2)] by (auto simp: set_all_peer_ports)
  with assms(2) show "nx_adj N g u (peer_dp p)" unfolding stack_consistent_adj [OF assms(1)] by blast
  have "st_name (nt_stack net (peer_dp p)) = peer_dp p"
    using stack_consistentD(1) [OF assms(1)] stack_consistent_port(1) [OF assms(1,2) p] by blast
  then show "peer_distance N net p = length (dp_path N net (peer_dp p))" by (simp add: peer_distance_def dp_path_def Let_def)
qed

lemma adj_up_port:
  assumes "stack_consistent N net D g r" and "nx_adj N g u v"
  obtains p where "u \<in> D" and "p \<in> set (all_peer_ports net (nt_stack net u))" and "peer_dp p = v"
proof -
  from assms(2) obtain p where "u \<in> D" "p \<in> set (st_ports (nt_stack net u))" "peer_dp p = v" "is_stack_up (nt_port net u (fst p))"
    unfolding stack_consistent_adj [OF assms(1)] by blast
  moreover from this(1) have "st_name (nt_stack net u) = u" by (rule stack_consistentD(1) [OF assms(1)])
  ultimately show thesis using that by (simp add: set_all_peer_ports)
qed

lemma towards_iff:
  assumes "stack_consistent N net D g r" and "u \<in> D" and "dp_path N net u \<noteq> []"
  shows "p \<in> set (towards_ports N net (nt_stack net u)) \<longleftrightarrow>
    p \<in> set (all_peer_ports net (nt_stack net u)) \<and> Suc (length (dp_path N net (peer_dp p))) = length (dp_path N net u)"
proof (cases "u = r")
  case True
  have "is_root (nt_stack net u)" using stack_consistentD(1,3) [OF assms(1,2)] True by (simp add: is_root_def)
  moreover have "dp_path N net (peer_dp p) \<noteq> []" if "p \<in> set (all_peer_ports net (nt_stack net u))"
    by (rule dp_path_neighbour(3) [OF assms(1) up_port_adj(1) [OF assms(1,2) that] assms(3)])
  ultimately show ?thesis using True dp_path_root [OF assms(1)] by (auto simp: towards_ports_def)
next
  case False
  let ?ps = "all_peer_ports net (nt_stack net u)"
  have nroot: "\<not> is_root (nt_stack net u)" using stack_consistentD(1,3) [OF assms(1,2)] False by (simp add: is_root_def)
  obtain v where v: "nx_adj N g u v" "length (dp_path N net u) = Suc (length (dp_path N net v))"
    by (rule dp_path_step [OF assms(1-3) False])
  obtain q where q: "q \<in> set ?ps" "peer_dp q = v" by (rule adj_up_port [OF assms(1) v(1)])
  have min: "length (dp_path N net v) \<le> peer_distance N net p" if p: "p \<in> set ?ps" for p
  proof -
    note a = up_port_adj [OF assms(1,2) p]
    note nb = dp_path_neighbour(3) [OF assms(1) a(1) assms(3)]
    from dp_path_neighbour(4) [OF assms(1) adj_sym [OF a(1)] nb] v(2) show ?thesis by (simp add: a(2))
  qed
  have "peer_distance N net q = length (dp_path N net v)" using up_port_adj(2) [OF assms(1,2) q(1)] by (simp add: q(2))
  then have "Min (set (map (peer_distance N net) ?ps)) = length (dp_path N net v)"
    using min q(1) by (intro Min_eqI) (auto, metis image_eqI)
  moreover have "map (peer_distance N net) ?ps \<noteq> []" using q(1) by auto
  ultimately have "shortest_distance (map (peer_distance N net) ?ps) = Some (length (dp_path N net v))"
    using shortest_distance_Min by metis
  then show ?thesis using nroot v(2) up_port_adj(2) [OF assms(1,2), of p]
    by (cases "p \<in> set ?ps") (simp_all add: towards_ports_def Let_def)
qed

lemma chosen_iff:
  assumes "stack_consistent N net D g r" and "u \<in> D" and "dp_path N net u \<noteq> []"
  shows "p \<in> set (chosen_ports N net (nt_stack net u)) \<longleftrightarrow>
    p \<in> set (all_peer_ports net (nt_stack net u)) \<and> dp_parent N net u = Some (peer_dp p)"
proof (cases "u = r")
  case True
  have "towards_ports N net (nt_stack net u) = []"
    using stack_consistentD(1,3) [OF assms(1,2)] True by (simp add: towards_ports_def is_root_def)
  then show ?thesis using True dp_path_root [OF assms(1)] by (simp add: chosen_ports_def dp_parent_def)
next
  case False
  obtain v q where v: "dp_path N net u = u # v # q" "nx_adj N g u v" "dp_parent N net u = Some v"
    "length (dp_path N net u) = Suc (length (dp_path N net v))"
    by (rule dp_path_step [OF assms(1-3) False])
  obtain w where w: "w \<in> set (all_peer_ports net (nt_stack net u))" "peer_dp w = v" by (rule adj_up_port [OF assms(1) v(2)])
  then have "w \<in> set (towards_ports N net (nt_stack net u))" using v(4) towards_iff [OF assms] by simp
  then have ne: "towards_ports N net (nt_stack net u) \<noteq> []" by auto
  have "first_peer_dp N (nt_stack net u) ts = v" for ts
    using v(1) stack_consistentD(1) [OF assms(1,2)] by (simp add: first_peer_dp_def dp_path_def)
  then have "p \<in> set (chosen_ports N net (nt_stack net u)) \<longleftrightarrow>
      p \<in> set (towards_ports N net (nt_stack net u)) \<and> peer_dp p = v"
    using ne by (simp add: chosen_ports_def)
  then show ?thesis using v(3,4) towards_iff [OF assms] by auto
qed

lemma away_iff:
  assumes "stack_consistent N net D g r" and "u \<in> D" and "dp_path N net u \<noteq> []"
  shows "p \<in> set (away_ports N net (nt_stack net u)) \<longleftrightarrow>
    p \<in> set (all_peer_ports net (nt_stack net u)) \<and> Suc (length (dp_path N net (peer_dp p))) \<noteq> length (dp_path N net u)"
proof -
  have "has_port (fst p) (towards_ports N net (nt_stack net u)) \<longleftrightarrow> p \<in> set (towards_ports N net (nt_stack net u))"
    if "p \<in> set (all_peer_ports net (nt_stack net u))"
  proof
    assume "has_port (fst p) (towards_ports N net (nt_stack net u))"
    then obtain q where q: "q \<in> set (towards_ports N net (nt_stack net u))" "fst q = fst p" by (auto simp: has_port_def)
    from q(1) have "q \<in> set (all_peer_ports net (nt_stack net u))" using towards_iff [OF assms] by blast
    then have "q = p" using q(2) that inj_onD [OF stack_consistentD(5) [OF assms(1,2)]] up_port_adj(3) [OF assms(1,2)] by metis
    with q(1) show "p \<in> set (towards_ports N net (nt_stack net u))" by simp
  qed (auto simp: has_port_def)
  then show ?thesis using towards_iff [OF assms] by (auto simp: away_ports_def)
qed

end

definition distances_of :: "'g nx \<Rightarrow> 'g stack_net \<Rightarrow> string \<Rightarrow> distances \<Rightarrow> bool" where
  "distances_of N net u ds \<longleftrightarrow> reset_peer_distances N net (nt_stack net u) = Inr ds"

lemma distances_of_fields:
  assumes "distances_of N net u ds"
  shows "ds_towards_root_ports ds = towards_ports N net (nt_stack net u)"
    and "ds_chosen_towards_ports ds = chosen_ports N net (nt_stack net u)"
    and "ds_away_ports ds = away_ports N net (nt_stack net u)"
    and "ds_inactive_away_ports ds = inactive_ports N net (nt_stack net u)"
    and "pruned_ports net (away_ports N net (nt_stack net u)) = Inr (ds_pruned_away_ports ds)"
    and "chosen_port net (nt_stack net u) (chosen_ports N net (nt_stack net u)) = Inr (ds_chosen_towards_port ds)"
  using assms by (auto simp: distances_of_def reset_peer_distances_def bindE_Inr Let_def)

context multigraph begin

lemma same_port:
  assumes "stack_consistent N net D g r" and "u \<in> D"
    and "p \<in> set (all_peer_ports net (nt_stack net u))" and "q \<in> set (all_peer_ports net (nt_stack net u))" and "fst q = fst p"
  shows "q = p"
  using assms(5) inj_onD [OF stack_consistentD(5) [OF assms(1,2)]] up_port_adj(3) [OF assms(1,2,3)] up_port_adj(3) [OF assms(1,2,4)]
  by metis

lemma pruned_away:
  assumes "stack_consistent N net D g r" and "u \<in> D" and "dp_path N net u \<noteq> []"
  shows "\<exists>ns. pruned_ports net (away_ports N net (nt_stack net u)) = Inr ns \<and>
    (\<forall>p \<in> set (away_ports N net (nt_stack net u)). fst p \<in> set ns \<longleftrightarrow>
      (\<exists>q \<in> set (all_peer_ports net (nt_stack net u)). peer_dp q = peer_dp p \<and> peer_no q < peer_no p))"
proof -
  let ?away = "away_ports N net (nt_stack net u)" and ?all = "all_peer_ports net (nt_stack net u)"
  have sub: "p \<in> set ?all" if "p \<in> set ?away" for p using that away_iff [OF assms] by blast
  have ends: "is_stack_up (peer_port net p) \<and> (\<exists>q. p_stack (peer_port net p) = Some q \<and> sp_port q = fst p)"
    if "p \<in> set ?away" for p
  proof -
    note a = up_port_adj(3,4) [OF assms(1,2) sub [OF that]]
    obtain q where q: "peer_no q = fst p" "p_stack (peer_port net p) = Some (snd q)"
      using stack_consistent_port(3) [OF assms(1,2) a(1)] by blast
    have "is_stack_up (peer_port net p)" using stack_consistent_port(4) [OF assms(1,2) a(1)] a(2) by simp
    with q show ?thesis by (simp add: peer_no_def)
  qed
  have "inj_on fst (set ?away)"
    using stack_consistentD(5) [OF assms(1,2)] by (rule inj_on_subset) (auto dest: sub up_port_adj(3) [OF assms(1,2)])
  from pruned_iff [where away = ?away, OF ends this] obtain ns where ns: "pruned_ports net ?away = Inr ns"
    "set ns = {fst p |p. p \<in> set ?away \<and> (\<exists>q \<in> set ?away. peer_dp q = peer_dp p \<and> peer_no q < peer_no p)}" by blast
  have "fst p \<in> set ns \<longleftrightarrow> (\<exists>q \<in> set ?all. peer_dp q = peer_dp p \<and> peer_no q < peer_no p)" if p: "p \<in> set ?away" for p
  proof
    assume "fst p \<in> set ns"
    then obtain p' q where "fst p' = fst p" "p' \<in> set ?away" "q \<in> set ?away" "peer_dp q = peer_dp p'" "peer_no q < peer_no p'"
      unfolding ns(2) by auto
    moreover from this(1,2) p have "p' = p" using same_port [OF assms(1,2)] sub by blast
    ultimately show "\<exists>q \<in> set ?all. peer_dp q = peer_dp p \<and> peer_no q < peer_no p" using sub by blast
  next
    assume "\<exists>q \<in> set ?all. peer_dp q = peer_dp p \<and> peer_no q < peer_no p"
    then obtain q where q: "q \<in> set ?all" "peer_dp q = peer_dp p" "peer_no q < peer_no p" by blast
    from q(1,2) p have "q \<in> set ?away" using away_iff [OF assms] by simp
    with q p show "fst p \<in> set ns" unfolding ns(2) by blast
  qed
  with ns(1) show ?thesis by blast
qed

lemma chosen_least:
  assumes "stack_consistent N net D g r" and "u \<in> D" and "dp_path N net u \<noteq> []"
  shows "\<exists>port. chosen_port net (nt_stack net u) (chosen_ports N net (nt_stack net u)) = Inr port \<and>
    (case port of None \<Rightarrow> chosen_ports N net (nt_stack net u) = []
     | Some p \<Rightarrow> p \<in> set (chosen_ports N net (nt_stack net u)) \<and> (\<forall>q \<in> set (chosen_ports N net (nt_stack net u)). fst p \<le> fst q))"
proof (cases "chosen_ports N net (nt_stack net u) = []")
  case True
  then show ?thesis by (auto simp: chosen_port_def)
next
  case False
  have "is_stack_up (own_port net (nt_stack net u) p)" if "p \<in> set (chosen_ports N net (nt_stack net u))" for p
    using that chosen_iff [OF assms] up_port_adj(4) [OF assms(1,2)] stack_consistentD(1) [OF assms(1,2)]
    by (simp add: own_port_def)
  from chosen_port_least [OF False this] show ?thesis by fastforce
qed

lemma distances_ex:
  assumes "stack_consistent N net D g r" and "u \<in> D" and "dp_path N net u \<noteq> []"
  shows "\<exists>ds. distances_of N net u ds"
  using pruned_away [OF assms] chosen_least [OF assms]
  by (auto simp: distances_of_def reset_peer_distances_def Let_def)

lemma pruned_iff_least:
  assumes "stack_consistent N net D g r" and "u \<in> D" and "dp_path N net u \<noteq> []" and "distances_of N net u ds"
    and "p \<in> set (away_ports N net (nt_stack net u))"
  shows "is_pruned_port ds (fst p) \<longleftrightarrow>
    (\<exists>q \<in> set (all_peer_ports net (nt_stack net u)). peer_dp q = peer_dp p \<and> peer_no q < peer_no p)"
proof -
  note f = distances_of_fields [OF assms(4)]
  have "\<not> is_towards_root ds (fst p)" using assms(5) by (simp add: is_towards_root_def f(1) away_ports_def)
  moreover have "is_away ds (fst p)" using assms(5) by (simp add: is_away_def f(3) has_port_def)
  ultimately have "is_pruned_port ds (fst p) \<longleftrightarrow> fst p \<in> set (ds_pruned_away_ports ds)"
    by (auto simp: is_pruned_port_def)
  with pruned_away [OF assms(1-3)] assms(5) f(5) show ?thesis by auto
qed

lemma pruned_iff_chosen:
  assumes "stack_consistent N net D g r" and "u \<in> D" and "dp_path N net u \<noteq> []" and "distances_of N net u ds"
    and "p \<in> set (chosen_ports N net (nt_stack net u))"
  shows "is_pruned_port ds (fst p) \<longleftrightarrow> (\<exists>q \<in> set (chosen_ports N net (nt_stack net u)). fst q < fst p)"
proof -
  note f = distances_of_fields [OF assms(4)]
  let ?c = "chosen_ports N net (nt_stack net u)"
  have sub: "?c \<noteq> []" using assms(5) by (cases ?c) simp_all
  from chosen_least [OF assms(1-3)] sub f(6) obtain w where w: "ds_chosen_towards_port ds = Some w" "w \<in> set ?c"
    "\<forall>q \<in> set ?c. fst w \<le> fst q" by (auto split: option.splits)
  have "is_towards_root ds (fst p)"
    using assms(5) by (auto simp: is_towards_root_def f(1) chosen_ports_def Let_def has_port_def split: if_splits)
  then have "is_pruned_port ds (fst p) \<longleftrightarrow> fst p \<noteq> fst w"
    by (auto simp: is_pruned_port_def is_selected_towards_root_port_def w(1))
  also have "\<dots> \<longleftrightarrow> (\<exists>q \<in> set ?c. fst q < fst p)"
    using w(2,3) assms(5) by (metis leD order_le_imp_less_or_eq)
  finally show ?thesis .
qed

lemma active_away_iff:
  assumes "stack_consistent N net D g r" and "u \<in> D" and "dp_path N net u \<noteq> []" and "distances_of N net u ds"
    and "p \<in> set (all_peer_ports net (nt_stack net u))"
  shows "p \<in> set (ds_away_ports ds) \<and> \<not> has_port (fst p) (ds_inactive_away_ports ds) \<longleftrightarrow> dp_parent N net (peer_dp p) = Some u"
proof -
  note f = distances_of_fields [OF assms(4)]
  note a = up_port_adj [OF assms(1,2,5)]
  note nb = dp_path_neighbour [OF assms(1) a(1) assms(3)]
  have in_path: "is_in_path N (nt_stack net u) (peer_dp p) (st_root_name (nt_stack net u)) \<longleftrightarrow> dp_parent N net (peer_dp p) = Some u"
  proof -
    have "shortest_path N (nt_stack net u) (st_root_name (nt_stack net u)) (peer_dp p) = dp_path N net (peer_dp p)"
      using path_any_stack(2) [OF assms(1) nb(1,2)] by (simp add: dp_path_def shortest_path_to_root_def)
    then show ?thesis using parent_iff_in_path [OF assms(1) a(1) assms(3)] stack_consistentD(1) [OF assms(1,2)]
      by (simp add: is_in_path_def)
  qed
  have inactive: "has_port (fst p) (ds_inactive_away_ports ds) \<longleftrightarrow> p \<in> set (inactive_ports N net (nt_stack net u))"
  proof
    assume "has_port (fst p) (ds_inactive_away_ports ds)"
    then obtain q where "q \<in> set (inactive_ports N net (nt_stack net u))" "fst q = fst p" by (auto simp: has_port_def f(4))
    moreover from this(1) have "q \<in> set (all_peer_ports net (nt_stack net u))"
      using away_iff [OF assms(1-3)] by (simp add: inactive_ports_def)
    ultimately show "p \<in> set (inactive_ports N net (nt_stack net u))" using same_port [OF assms(1,2,5)] by metis
  qed (auto simp: has_port_def f(4))
  have "p \<in> set (away_ports N net (nt_stack net u))" if "dp_parent N net (peer_dp p) = Some u"
    using parent_step(6) [OF assms(1) nb(2) that] away_iff [OF assms(1-3)] assms(5) by simp
  then show ?thesis unfolding inactive f(3) using in_path by (auto simp: inactive_ports_def)
qed

end

section \<open>The links of the tree\<close>

text \<open>The links from one datapath to another, by their ports at the first.\<close>

definition links_to :: "'g stack_net \<Rightarrow> string \<Rightarrow> string \<Rightarrow> stack_port set" where
  "links_to net u y = {p \<in> set (all_peer_ports net (nt_stack net u)). peer_dp p = y}"

lemma link_other_end:
  assumes "multigraph N" and "stack_consistent N net D g r" and "u \<in> D" and "y \<in> D" and "p \<in> links_to net u y"
  shows "\<exists>q \<in> links_to net y u. fst q = peer_no p \<and> peer_no q = fst p"
proof -
  from assms(5) have p1: "p \<in> set (all_peer_ports net (nt_stack net u))" and p2: "peer_dp p = y" by (simp_all add: links_to_def)
  note a = multigraph.up_port_adj(3,4) [OF assms(1-3) p1]
  from stack_consistent_port(3) [OF assms(2,3) a(1)] p2 obtain q where
    q: "q \<in> set (st_ports (nt_stack net y))" "fst q = peer_no p" "peer_dp q = u" "peer_no q = fst p" by blast
  have "is_stack_up (nt_port net y (fst q))"
    using stack_consistent_port(4) [OF assms(2,3) a(1)] a(2) p2 by (simp add: peer_port_def q(2))
  with q(1) stack_consistentD(1) [OF assms(2,4)] have "q \<in> set (all_peer_ports net (nt_stack net y))"
    by (simp add: set_all_peer_ports)
  with q have "q \<in> links_to net y u" by (simp add: links_to_def)
  with q show ?thesis by blast
qed

lemma chosen_links:
  assumes "multigraph N" and "stack_consistent N net D g r" and "y \<in> D" and "dp_parent N net y = Some u"
  shows "set (chosen_ports N net (nt_stack net y)) = links_to net y u"
  using multigraph.chosen_iff [OF assms(1-3) multigraph.parent_step(1) [OF assms]] assms(4) by (auto simp: links_to_def)

lemma parent_prunes:
  assumes "multigraph N" and "stack_consistent N net D g r" and "y \<in> D" and "dp_parent N net y = Some u"
    and "distances_of N net u du" and "p \<in> links_to net u y"
  shows "is_pruned_port du (fst p) \<longleftrightarrow> (\<exists>q \<in> links_to net u y. peer_no q < peer_no p)"
proof -
  note s = multigraph.parent_step [OF assms(1-4)]
  have "p \<in> set (away_ports N net (nt_stack net u))"
    using assms(6) multigraph.away_iff [OF assms(1,2) s(3,4)] s(6) by (simp add: links_to_def)
  from multigraph.pruned_iff_least [OF assms(1,2) s(3,4) assms(5) this] assms(6) show ?thesis
    by (auto simp: links_to_def)
qed

lemma child_prunes:
  assumes "multigraph N" and "stack_consistent N net D g r" and "y \<in> D" and "dp_parent N net y = Some u"
    and "distances_of N net y dy" and "p \<in> links_to net u y"
  shows "is_pruned_port dy (peer_no p) \<longleftrightarrow> (\<exists>q \<in> links_to net u y. peer_no q < peer_no p)"
proof -
  note s = multigraph.parent_step [OF assms(1-4)]
  note ch = chosen_links [OF assms(1-4)]
  note down = link_other_end [OF assms(1,2) s(3) assms(3)] and up = link_other_end [OF assms(1,2,3) s(3)]
  from down [OF assms(6)] obtain q where q: "q \<in> links_to net y u" "fst q = peer_no p" by blast
  have "is_pruned_port dy (fst q) \<longleftrightarrow> (\<exists>w \<in> links_to net y u. fst w < fst q)"
    using multigraph.pruned_iff_chosen [OF assms(1-3) s(1) assms(5)] q(1) unfolding ch by blast
  also have "\<dots> \<longleftrightarrow> (\<exists>w \<in> links_to net u y. peer_no w < fst q)" using down up by metis
  finally show ?thesis by (simp add: q(2))
qed

lemma one_least_link:
  assumes "multigraph N" and "stack_consistent N net D g r" and "u \<in> D" and "y \<in> D" and "links_to net u y \<noteq> {}"
  shows "\<exists>p0 \<in> links_to net u y. \<forall>p \<in> links_to net u y. (\<exists>q \<in> links_to net u y. peer_no q < peer_no p) \<longleftrightarrow> p \<noteq> p0"
proof -
  let ?links = "links_to net u y"
  have inj: "p = p'" if p: "p \<in> ?links" and p': "p' \<in> ?links" and eq: "peer_no p = peer_no p'" for p p'
  proof -
    from link_other_end [OF assms(1-4) p] link_other_end [OF assms(1-4) p'] obtain q q' where
      q: "q \<in> links_to net y u" "q' \<in> links_to net y u" "fst q = fst q'" "peer_no q = fst p" "peer_no q' = fst p'"
      using eq by metis
    then have "q = q'" using multigraph.same_port [OF assms(1,2,4)] by (auto simp: links_to_def)
    with q(4,5) have "fst p = fst p'" by simp
    then show ?thesis using p p' multigraph.same_port [OF assms(1-3)] by (auto simp: links_to_def)
  qed
  have fin: "finite (peer_no ` ?links)" by (simp add: links_to_def)
  have "Min (peer_no ` ?links) \<in> peer_no ` ?links" using assms(5) by (intro Min_in [OF fin]) blast
  then obtain p0 where p0: "p0 \<in> ?links" "peer_no p0 = Min (peer_no ` ?links)" by force
  then have least: "\<forall>q \<in> ?links. peer_no p0 \<le> peer_no q" using Min_le [OF fin] by simp
  have "(\<exists>q \<in> ?links. peer_no q < peer_no p) \<longleftrightarrow> p \<noteq> p0" if "p \<in> ?links" for p
    using least inj [OF that p0(1)] p0(1) that by (metis less_le not_less)
  with p0(1) show ?thesis by blast
qed

text \<open>C23. Of the parallel links between a datapath and its parent in a consistent stack exactly one is
  left unpruned, and it is the same at both ends.\<close>

lemma stack_links_agree:
  assumes "multigraph N" and "stack_consistent N net D g r" and "y \<in> D" and "dp_parent N net y = Some u"
  shows "\<exists>du dy p0. distances_of N net u du \<and> distances_of N net y dy \<and>
    p0 \<in> set (all_peer_ports net (nt_stack net u)) \<and> peer_dp p0 = y \<and>
    (\<forall>p \<in> set (all_peer_ports net (nt_stack net u)). peer_dp p = y \<longrightarrow>
       (is_pruned_port du (fst p) \<longleftrightarrow> p \<noteq> p0) \<and> (is_pruned_port dy (peer_no p) \<longleftrightarrow> p \<noteq> p0))"
proof -
  note s = multigraph.parent_step [OF assms]
  obtain du where du: "distances_of N net u du" using multigraph.distances_ex [OF assms(1,2) s(3,4)] by blast
  obtain dy where dy: "distances_of N net y dy" using multigraph.distances_ex [OF assms(1-3) s(1)] by blast
  have "links_to net u y \<noteq> {}"
    by (rule multigraph.adj_up_port [OF assms(1,2) multigraph.adj_sym [OF assms(1) s(5)]]) (auto simp: links_to_def)
  from one_least_link [OF assms(1,2) s(3) assms(3) this] obtain p0 where p0: "p0 \<in> links_to net u y"
    "\<forall>p \<in> links_to net u y. (\<exists>q \<in> links_to net u y. peer_no q < peer_no p) \<longleftrightarrow> p \<noteq> p0" by blast
  have "(is_pruned_port du (fst p) \<longleftrightarrow> p \<noteq> p0) \<and> (is_pruned_port dy (peer_no p) \<longleftrightarrow> p \<noteq> p0)" if "p \<in> links_to net u y" for p
    using parent_prunes [OF assms du that] child_prunes [OF assms dy that] p0(2) that by blast
  then have all: "\<forall>p \<in> set (all_peer_ports net (nt_stack net u)). peer_dp p = y \<longrightarrow>
      (is_pruned_port du (fst p) \<longleftrightarrow> p \<noteq> p0) \<and> (is_pruned_port dy (peer_no p) \<longleftrightarrow> p \<noteq> p0)" by (auto simp: links_to_def)
  have m: "p0 \<in> set (all_peer_ports net (nt_stack net u))" "peer_dp p0 = y" using p0(1) by (simp_all add: links_to_def)
  show ?thesis by (rule exI [of _ du], rule exI [of _ dy], rule exI [of _ p0]) (intro conjI du dy m all)
qed

section \<open>Hosts learned through the stack are reached\<close>

text \<open>The datapath the relative port leads to, and the datapath reached after a number of hops.\<close>

definition next_dp :: "'g nx \<Rightarrow> 'g stack_net \<Rightarrow> string \<Rightarrow> string \<Rightarrow> string option" where
  "next_dp N net dest u =
     (case reset_peer_distances N net (nt_stack net u) of
        Inl _ \<Rightarrow> None
      | Inr ds \<Rightarrow> map_option peer_dp (relative_port_towards N net (nt_stack net u) ds dest))"

fun follow :: "nat \<Rightarrow> ('n \<Rightarrow> 'n option) \<Rightarrow> 'n \<Rightarrow> 'n option" where
  "follow 0 f u = Some u"
| "follow (Suc n) f u = (case f u of None \<Rightarrow> None | Some v \<Rightarrow> follow n f v)"

lemma shortest_suffix: "shortest E s d (xs @ y # ys) \<Longrightarrow> shortest E y d (y # ys)"
proof (induction xs arbitrary: s)
  case Nil
  then have "s = y" by (simp add: shortest_def is_path_def)
  with Nil show ?case by simp
next
  case (Cons x xs)
  then have "s = x" by (simp add: shortest_def is_path_def)
  obtain v p where v: "xs @ y # ys = v # p" by (cases xs) simp_all
  from Cons.prems v have "shortest E s d (s # v # p)" by (simp add: \<open>s = x\<close>)
  from shortest_tl(2) [OF this] v have "shortest E v d (xs @ y # ys)" by simp
  then show ?case by (rule Cons.IH)
qed

lemma before_split:
  assumes "x \<in> set xs" and "x \<noteq> hd xs"
  obtains ys w zs where "xs = ys @ w # x # zs" and "before x xs = w" and "list_index x xs = Suc (length ys)"
proof -
  from assms(1) obtain as zs where xs: "xs = as @ x # zs" and new: "x \<notin> set as" by (meson split_list_first)
  from assms(2) xs have "as \<noteq> []" by auto
  then obtain ys w where as: "as = ys @ [w]" by (metis rev_exhaust)
  have "takeWhile (\<lambda>y. y \<noteq> x) xs = as" unfolding xs using new by (subst takeWhile_append2) auto
  then have i: "list_index x xs = Suc (length ys)" by (simp add: list_index_def as)
  have "before x xs = xs ! length ys" unfolding before_def i by simp
  then have "before x xs = w" by (simp add: xs as nth_append)
  with xs as i that show thesis by simp
qed

lemma list_index_split: "distinct (ys @ w # zs) \<Longrightarrow> list_index w (ys @ w # zs) = length ys"
proof -
  assume "distinct (ys @ w # zs)"
  then have "takeWhile (\<lambda>y. y \<noteq> w) (ys @ w # zs) = ys" by (subst takeWhile_append2) auto
  then show ?thesis by (simp add: list_index_def)
qed

context multigraph begin

lemma unpruned_away:
  assumes "stack_consistent N net D g r" and "u \<in> D" and "dp_path N net u \<noteq> []" and "distances_of N net u ds"
    and "nx_adj N g u w" and "Suc (length (dp_path N net w)) \<noteq> length (dp_path N net u)"
  shows "\<exists>p \<in> set (ds_away_ports ds). peer_dp p = w \<and> \<not> is_pruned_port ds (fst p)"
proof -
  let ?links = "{p \<in> set (all_peer_ports net (nt_stack net u)). peer_dp p = w}"
  obtain p1 where "p1 \<in> ?links" by (rule adj_up_port [OF assms(1,5)]) blast
  then have ne: "peer_no ` ?links \<noteq> {}" by blast
  have fin: "finite (peer_no ` ?links)" by simp
  from Min_in [OF fin ne] have "Min (peer_no ` ?links) \<in> peer_no ` ?links" .
  then obtain p where p: "p \<in> ?links" "peer_no p = Min (peer_no ` ?links)" by force
  have "peer_no p \<le> peer_no q" if "q \<in> ?links" for q unfolding p(2) using that by (intro Min_le [OF fin]) blast
  moreover have away: "p \<in> set (away_ports N net (nt_stack net u))" using p(1) assms(6) away_iff [OF assms(1-3)] by simp
  ultimately have "\<not> is_pruned_port ds (fst p)"
    unfolding pruned_iff_least [OF assms(1-4) away] using p(1) by force
  with p(1) away distances_of_fields(3) [OF assms(4)] show ?thesis by auto
qed

lemma next_dp_cases:
  assumes "stack_consistent N net D g r" and "u \<in> D" and "dp_path N net u \<noteq> []" and "dest \<in> D" and "dp_path N net dest \<noteq> []"
    and "u \<noteq> dest"
  shows "u \<in> set (dp_path N net dest) \<Longrightarrow> next_dp N net dest u = Some (before u (dp_path N net dest))"
    and "u \<notin> set (dp_path N net dest) \<Longrightarrow> next_dp N net dest u = dp_parent N net u"
proof -
  obtain ds where ds: "distances_of N net u ds" using distances_ex [OF assms(1-3)] by blast
  note f = distances_of_fields [OF ds]
  have name: "st_name (nt_stack net u) = u" by (rule stack_consistentD(1) [OF assms(1,2)])
  have path: "shortest_path_to_root N (nt_stack net u) x = dp_path N net x" if "x \<in> D" for x
    using path_any_stack(2) [OF assms(1,2) that] by (simp add: dp_path_def)
  have rel: "relative_port_towards N net (nt_stack net u) ds dest =
      (if u \<in> set (dp_path N net dest)
       then find (\<lambda>p. peer_dp p = before u (dp_path N net dest) \<and> \<not> is_pruned_port ds (fst p)) (ds_away_ports ds)
       else ds_chosen_towards_port ds)"
    using assms(3,5,6) by (simp add: relative_port_towards_def name path assms(2,4) Let_def)
  have next': "next_dp N net dest u = map_option peer_dp (relative_port_towards N net (nt_stack net u) ds dest)"
    using ds by (simp add: next_dp_def distances_of_def)
  show "next_dp N net dest u = Some (before u (dp_path N net dest))" if u: "u \<in> set (dp_path N net dest)"
  proof -
    have "u \<noteq> hd (dp_path N net dest)" using dp_path_hd(1) [OF assms(1,4,5)] assms(6) by simp
    from before_split [OF u this] obtain ys w zs where p: "dp_path N net dest = ys @ w # u # zs" "before u (dp_path N net dest) = w" .
    note s = dp_path_shortest [OF assms(1,4,5)]
    have su: "shortest (nx_adj N g) u r (u # zs)" and sw: "shortest (nx_adj N g) w r (w # u # zs)"
      using s shortest_suffix [of "nx_adj N g" dest r "ys @ [w]" u zs] shortest_suffix [of "nx_adj N g" dest r ys w "u # zs"]
      by (simp_all add: p(1))
    note wu = shortest_tl(1) [OF sw]
    note uw = adj_sym [OF wu]
    note nb = dp_path_neighbour [OF assms(1) uw assms(3)]
    have "length (dp_path N net u) = length (u # zs)" "length (dp_path N net w) = length (w # u # zs)"
      using shortest_same_length [OF dp_path_shortest [OF assms(1-3)] su]
        shortest_same_length [OF dp_path_shortest [OF assms(1) nb(2,3)] sw] by simp_all
    then have "Suc (length (dp_path N net w)) \<noteq> length (dp_path N net u)" by simp
    from unpruned_away [OF assms(1-3) ds uw this]
    have "find (\<lambda>p. peer_dp p = w \<and> \<not> is_pruned_port ds (fst p)) (ds_away_ports ds) \<noteq> None"
      unfolding find_None_iff by blast
    then obtain q where "find (\<lambda>p. peer_dp p = w \<and> \<not> is_pruned_port ds (fst p)) (ds_away_ports ds) = Some q" by blast
    moreover from this have "peer_dp q = w" by (auto simp: find_Some_iff)
    ultimately show ?thesis using u by (simp add: next' rel p(2))
  qed
  show "next_dp N net dest u = dp_parent N net u" if u: "u \<notin> set (dp_path N net dest)"
  proof -
    have "u \<noteq> r" using u dp_path_hd(2) [OF assms(1,4,5)] assms(5) by (metis last_in_set)
    from dp_path_step [OF assms(1-3) this] obtain v where v: "nx_adj N g u v" "dp_parent N net u = Some v" .
    obtain q where "q \<in> set (all_peer_ports net (nt_stack net u))" "peer_dp q = v" by (rule adj_up_port [OF assms(1) v(1)])
    then have "q \<in> set (chosen_ports N net (nt_stack net u))" using chosen_iff [OF assms(1-3)] v(2) by simp
    then have ne: "chosen_ports N net (nt_stack net u) \<noteq> []" by (cases "chosen_ports N net (nt_stack net u)") simp_all
    with chosen_least [OF assms(1-3)] f(6) obtain c where "ds_chosen_towards_port ds = Some c"
      "c \<in> set (chosen_ports N net (nt_stack net u))" by (auto split: option.splits)
    moreover from this(2) have "dp_parent N net u = Some (peer_dp c)" using chosen_iff [OF assms(1-3)] by blast
    ultimately show ?thesis using u by (simp add: next' rel)
  qed
qed

lemma relative_route:
  assumes "stack_consistent N net D g r" and "u \<in> D" and "dp_path N net u \<noteq> []" and "dest \<in> D" and "dp_path N net dest \<noteq> []"
  shows "\<exists>n \<le> (length (dp_path N net u) - 1) + (length (dp_path N net dest) - 1). follow n (next_dp N net dest) u = Some dest"
proof -
  let ?P = "dp_path N net dest"
  define m where "m u = (if u \<in> set ?P then list_index u ?P else length ?P + length (dp_path N net u) - 2)" for u
  have index: "list_index x ?P < length ?P" if "x \<in> set ?P" for x
    using that split_list [OF that] list_index_split dp_path_hd(3) [OF assms(1,4,5)] by fastforce
  have "\<exists>n \<le> m u. follow n (next_dp N net dest) u = Some dest" if "u \<in> D" "dp_path N net u \<noteq> []" for u
    using that
  proof (induction "m u" arbitrary: u rule: less_induct)
    case less
    show ?case
    proof (cases "u = dest")
      case True
      then show ?thesis by (intro exI [of _ 0]) simp
    next
      case False
      note next' = next_dp_cases [OF assms(1) less.prems assms(4,5) False]
      have "\<exists>v. next_dp N net dest u = Some v \<and> v \<in> D \<and> dp_path N net v \<noteq> [] \<and> m v < m u"
      proof (cases "u \<in> set ?P")
        case True
        have "u \<noteq> hd ?P" using dp_path_hd(1) [OF assms(1,4,5)] False by simp
        from before_split [OF True this] obtain ys w zs where p: "?P = ys @ w # u # zs" "before u ?P = w" "list_index u ?P = Suc (length ys)" .
        have "walk (nx_adj N g) (w # u # zs)"
          using dp_path_shortest [OF assms(1,4,5)] walk_suffix [of "nx_adj N g" ys w "u # zs"] by (simp add: shortest_def is_path_def p(1))
        then have "nx_adj N g u w" by (simp add: adj_sym)
        note nb = dp_path_neighbour [OF assms(1) this less.prems(2)]
        have "list_index w ?P = length ys" using list_index_split [of ys w "u # zs"] dp_path_hd(3) [OF assms(1,4,5)] by (simp add: p(1))
        then have "m w < m u" using True p by (simp add: m_def)
        with next'(1) [OF True] nb show ?thesis by (simp add: p(2))
      next
        case out: False
        have "u \<noteq> r" using out dp_path_hd(2) [OF assms(1,4,5)] assms(5) by (metis last_in_set)
        from dp_path_step [OF assms(1) less.prems this] obtain v where v: "v \<in> D" "dp_path N net v \<noteq> []"
          "length (dp_path N net u) = Suc (length (dp_path N net v))" "dp_parent N net u = Some v" .
        have "length (dp_path N net v) > 0" "length ?P > 0" using v(2) assms(5) by simp_all
        then obtain a b where "length (dp_path N net v) = Suc a" "length ?P = Suc b" by (metis gr0_implies_Suc)
        then have "m v < m u" using out v(3) index [of v] by (auto simp: m_def)
        with next'(2) [OF out] v show ?thesis by simp
      qed
      then obtain v where v: "next_dp N net dest u = Some v" "v \<in> D" "dp_path N net v \<noteq> []" "m v < m u" by blast
      from less.hyps [OF v(4,2,3)] obtain n where "n \<le> m v" "follow n (next_dp N net dest) v = Some dest" by blast
      with v(1,4) show ?thesis by (intro exI [of _ "Suc n"]) simp
    qed
  qed
  from this [OF assms(2,3)] obtain n where n: "n \<le> m u" "follow n (next_dp N net dest) u = Some dest" by blast
  moreover have "m u \<le> (length (dp_path N net u) - 1) + (length ?P - 1)"
  proof -
    have "length (dp_path N net u) > 0" "length ?P > 0" using assms(3,5) by simp_all
    then show ?thesis using index [of u] by (auto simp: m_def)
  qed
  ultimately show ?thesis using order_trans by blast
qed

end

text \<open>C15. In a consistent stack, a host that every datapath learns on its relative port towards the
  datapath that heard it is reached from every datapath: the hops the ports make, from any datapath
  connected to the root, come to that datapath after at most as many hops as the distances of the
  two from the root add up to.\<close>

lemma relative_route_reaches:
  assumes "multigraph N" and "stack_consistent N net D g r" and "u \<in> D" and "dp_path N net u \<noteq> []"
    and "dest \<in> D" and "dp_path N net dest \<noteq> []"
  shows "\<exists>n \<le> (length (dp_path N net u) - 1) + (length (dp_path N net dest) - 1). follow n (next_dp N net dest) u = Some dest"
  by (rule multigraph.relative_route [OF assms])

text \<open>The hops of the ports on the shortest paths.\<close>

definition next_default :: "'g nx \<Rightarrow> 'g stack_net \<Rightarrow> string \<Rightarrow> string \<Rightarrow> string option" where
  "next_default N net dest u = map_option peer_dp (default_port_towards N net (nt_stack net u) dest)"

context multigraph begin

lemma next_default_step:
  assumes "stack_consistent N net D g r" and "u \<in> D"
    and "\<And>p. p \<in> set (st_ports (nt_stack net u)) \<Longrightarrow> running (nt_port net u (fst p)) \<longleftrightarrow> is_stack_up (nt_port net u (fst p))"
    and "shortest_path N (nt_stack net u) (Some dest) u = u # v # q"
  shows "next_default N net dest u = Some v" and "v \<in> D" and "shortest (nx_adj N g) v dest (v # q)"
proof -
  note s = stack_consistentD [OF assms(1,2)]
  have "shortest (nx_adj N g) u dest (u # v # q)"
  proof -
    have "shortest_path N (nt_stack net u) (Some dest) u \<noteq> []" by (simp add: assms(4))
    from shortest_pathD [OF this] obtain h d where "st_graph (nt_stack net u) = Some h" "Some dest = Some d"
      "shortest (nx_adj N h) u d (shortest_path N (nt_stack net u) (Some dest) u)" .
    then show ?thesis using s(2) unfolding assms(4) by simp
  qed
  note t = shortest_tl [OF this]
  show "shortest (nx_adj N g) v dest (v # q)" by (rule t(2))
  obtain p where p: "p \<in> set (st_ports (nt_stack net u))" "peer_dp p = v" "is_stack_up (nt_port net u (fst p))"
    using t(1) unfolding stack_consistent_adj [OF assms(1)] by blast
  show "v \<in> D" using stack_consistent_port(1) [OF assms(1,2) p(1)] p(2) by simp
  have ports: "set (peer_up_ports net (nt_stack net u) v) =
      {x \<in> set (st_ports (nt_stack net u)). is_stack_up (nt_port net u (fst x)) \<and> peer_dp x = v}"
    using assms(3) by (auto simp: peer_up_ports_def canonical_order_def own_port_def s(1))
  have "p \<in> set (peer_up_ports net (nt_stack net u) v)" unfolding ports using p by simp
  then obtain x xs where x: "peer_up_ports net (nt_stack net u) v = x # xs"
    by (cases "peer_up_ports net (nt_stack net u) v") simp_all
  then have "x \<in> set (peer_up_ports net (nt_stack net u) v)" by simp
  then have "peer_dp x = v" unfolding ports by simp
  with x show "next_default N net dest u = Some v"
    by (simp add: next_default_def default_port_towards_def shortest_path_port_def s(1) assms(4))
qed

lemma default_route:
  assumes "stack_consistent N net D g r" and "u \<in> D"
    and "\<And>d p. d \<in> D \<Longrightarrow> p \<in> set (st_ports (nt_stack net d)) \<Longrightarrow>
      running (nt_port net d (fst p)) \<longleftrightarrow> is_stack_up (nt_port net d (fst p))"
    and "is_path (nx_adj N g) u dest p"
  shows "follow (length (shortest_path N (nt_stack net u) (Some dest) u) - 1) (next_default N net dest) u = Some dest"
proof -
  have "follow n (next_default N net dest) u = Some dest" if "u \<in> D" "shortest (nx_adj N g) u dest p" "length p = Suc n" for n u p
    using that
  proof (induction n arbitrary: u p)
    case 0
    then show ?case by (cases p) (auto simp: shortest_def is_path_def)
  next
    case (Suc n)
    note s = stack_consistentD [OF assms(1) Suc.prems(1)]
    have "is_path (nx_adj N g) u dest p" using Suc.prems(2) by (simp add: shortest_def)
    note sp = shortest_path_exists [OF s(2,4) this]
    have len: "length (shortest_path N (nt_stack net u) (Some dest) u) = Suc (Suc n)"
      using shortest_same_length [OF sp Suc.prems(2)] Suc.prems(3) by simp
    moreover have "hd (shortest_path N (nt_stack net u) (Some dest) u) = u" using sp by (simp add: shortest_def is_path_def)
    ultimately obtain v q where q: "shortest_path N (nt_stack net u) (Some dest) u = u # v # q"
      by (cases "shortest_path N (nt_stack net u) (Some dest) u"; cases "tl (shortest_path N (nt_stack net u) (Some dest) u)") auto
    note step = next_default_step [OF assms(1) Suc.prems(1) assms(3) [OF Suc.prems(1)] q]
    have "length (v # q) = Suc n" using len q by simp
    from Suc.IH [OF step(2,3) this] step(1) show ?case by simp
  qed
  moreover have sp: "shortest (nx_adj N g) u dest (shortest_path N (nt_stack net u) (Some dest) u)"
    by (rule shortest_path_exists [OF stack_consistentD(2,4) [OF assms(1,2)] assms(4)])
  moreover from sp have "shortest_path N (nt_stack net u) (Some dest) u \<noteq> []" by (auto simp: shortest_def is_path_def)
  then have "length (shortest_path N (nt_stack net u) (Some dest) u) =
      Suc (length (shortest_path N (nt_stack net u) (Some dest) u) - 1)" by simp
  ultimately show ?thesis using assms(2) by blast
qed

end

section \<open>The nominated root\<close>

lemma update_health_ports:
  "nt_port net = nt_port net' \<Longrightarrow> update_health net ps now live t s = update_health net' ps now live t s"
proof -
  assume "nt_port net = nt_port net'"
  then have "stack_port_healthy net s = stack_port_healthy net' s"
    by (simp add: stack_port_healthy_def down_ports_def own_port_def)
  then show ?thesis by (simp only: update_health_def)
qed

lemma update_health_keeps [simp]:
  "st_name (update_health net ps now live t s) = st_name s"
  "st_roots_names (update_health net ps now live t s) = st_roots_names s"
  "st_priority (update_health net ps now live t s) = st_priority s"
  "st_root_name (update_health net ps now live t s) = st_root_name s"
  by (simp_all add: update_health_def Let_def split: prod.splits)

lemma update_health_info: "st_dyn_healthy (update_health net ps now live t s) \<Longrightarrow> fst (st_dyn_healthy_info (update_health net ps now live t s))"
  by (auto simp: update_health_def Let_def split: prod.splits if_splits)

definition is_candidate :: "'g stack \<Rightarrow> bool" where
  "is_candidate s \<longleftrightarrow> is_root_candidate s = Inr True"

lemma is_candidate_update [simp]: "is_candidate (update_health net ps now live t s) = is_candidate s"
  by (simp add: is_candidate_def is_root_candidate_def split: option.split)

lemma candidate_loop:
  assumes "foldE (candidate_health lacp_ports now live t) ds (net, h, u) = Inr (net', h', u')" and "distinct ds"
  shows "(\<forall>d. nt_stack net' d =
      (if d \<in> set ds \<and> is_candidate (nt_stack net d) then update_health net (lacp_ports d) now live t (nt_stack net d) else nt_stack net d)) \<and>
    set h' = set h \<union> {d \<in> set ds. is_candidate (nt_stack net d) \<and> st_dyn_healthy (nt_stack net' d)} \<and>
    set u' = set u \<union> {d \<in> set ds. is_candidate (nt_stack net d) \<and> \<not> st_dyn_healthy (nt_stack net' d) \<and> fst (st_dyn_healthy_info (nt_stack net' d))}"
  using assms
proof (induction ds arbitrary: net h u)
  case Nil
  then show ?case by simp
next
  case (Cons d ds)
  from Cons.prems(1) obtain c where c: "is_root_candidate (nt_stack net d) = Inr c"
    by (cases "is_root_candidate (nt_stack net d)") (simp_all add: candidate_health_def)
  let ?s = "update_health net (lacp_ports d) now live t (nt_stack net d)"
  let ?net = "if c then net\<lparr>nt_stack := (nt_stack net)(d := ?s)\<rparr> else net"
  let ?h = "if c \<and> st_dyn_healthy ?s then h @ [d] else h"
  let ?u = "if c \<and> \<not> st_dyn_healthy ?s \<and> fst (st_dyn_healthy_info ?s) then u @ [d] else u"
  have "candidate_health lacp_ports now live t d (net, h, u) = Inr (?net, ?h, ?u)"
    by (simp add: candidate_health_def c Let_def)
  with Cons.prems(1) have "foldE (candidate_health lacp_ports now live t) ds (?net, ?h, ?u) = Inr (net', h', u')" by simp
  note IH = Cons.IH [OF this]
  have ports: "nt_port ?net = nt_port net" by simp
  have cand: "is_candidate (nt_stack net d) = c" using c by (simp add: is_candidate_def)
  have new: "d \<notin> set ds" "distinct ds" using Cons.prems(2) by simp_all
  have other: "nt_stack ?net e = nt_stack net e" if "e \<noteq> d" for e using that by simp
  have d: "nt_stack net' d = (if c then ?s else nt_stack net d)" using IH new by simp
  have rest: "nt_stack net' e = (if e \<in> set ds \<and> is_candidate (nt_stack net e)
      then update_health net (lacp_ports e) now live t (nt_stack net e) else nt_stack net e)" if "e \<noteq> d" for e
    using IH new(2) other [OF that] update_health_ports [OF ports] by simp
  have same: "is_candidate (nt_stack ?net e) = is_candidate (nt_stack net e)" if "e \<in> set ds" for e
  proof -
    have "e \<noteq> d" using new(1) that by blast
    from other [OF this] show ?thesis by (rule arg_cong)
  qed
  have 1: "nt_stack net' e = (if e \<in> set (d # ds) \<and> is_candidate (nt_stack net e)
      then update_health net (lacp_ports e) now live t (nt_stack net e) else nt_stack net e)" for e
    using d cand rest [of e] by (cases "e = d") simp_all
  have cands: "{e \<in> set ds. is_candidate (nt_stack ?net e) \<and> P e} = {e \<in> set ds. is_candidate (nt_stack net e) \<and> P e}" for P
    by (rule Collect_cong) (use same in blast)
  note I = IH [OF new(2), unfolded cands]
  from I have "set h' = set ?h \<union> {e \<in> set ds. is_candidate (nt_stack net e) \<and> st_dyn_healthy (nt_stack net' e)}" by blast
  then have 2: "set h' = set h \<union> {e \<in> set (d # ds). is_candidate (nt_stack net e) \<and> st_dyn_healthy (nt_stack net' e)}"
    using cand d by auto
  from I have "set u' = set ?u \<union> {e \<in> set ds. is_candidate (nt_stack net e) \<and> \<not> st_dyn_healthy (nt_stack net' e) \<and>
      fst (st_dyn_healthy_info (nt_stack net' e))}" by blast
  then have 3: "set u' = set u \<union> {e \<in> set (d # ds). is_candidate (nt_stack net e) \<and> \<not> st_dyn_healthy (nt_stack net' e) \<and>
      fst (st_dyn_healthy_info (nt_stack net' e))}"
    using cand d by auto
  show ?case using 1 2 3 by blast
qed

text \<open>The valves a root is nominated from, and the candidates among them it is chosen from.\<close>

definition root_valves :: "string option \<Rightarrow> (string \<times> bool) list \<Rightarrow> string set" where
  "root_valves root_valve other_valves = set_option root_valve \<union> fst ` set (filter snd other_valves)"

definition root_pool :: "'g stack_net \<Rightarrow> string set \<Rightarrow> string set" where
  "root_pool net V =
     (let healthy = {d \<in> V. is_candidate (nt_stack net d) \<and> st_dyn_healthy (nt_stack net d)}
      in if healthy \<noteq> {} then healthy
         else {d \<in> V. is_candidate (nt_stack net d) \<and> fst (st_dyn_healthy_info (nt_stack net d))})"

lemma choose_root_spec:
  assumes "choose_root net root_valve ds = Inr name" and "\<And>d. d \<in> set ds \<Longrightarrow> st_name (nt_stack net d) = d"
  shows "name \<in> set ds" and "root_valve = Some x \<Longrightarrow> x \<in> set ds \<Longrightarrow> name = x"
    and "set_option root_valve \<inter> set ds = {} \<Longrightarrow> e \<in> set ds \<Longrightarrow>
      health_priority (nt_stack net name) \<le> health_priority (nt_stack net e)"
proof -
  have nom: "name \<in> set ds \<and> (\<forall>e \<in> set ds. health_priority (nt_stack net name) \<le> health_priority (nt_stack net e))"
    if "bindE (stack_nominate_root (map (nt_stack net) ds)) (\<lambda>(_, name). Inr name) = Inr name"
  proof -
    from that obtain names where "stack_nominate_root (map (nt_stack net) ds) = Inr (names, name)" by (auto simp: bindE_Inr)
    from stack_nominate_least [OF this] obtain s where "s \<in> nt_stack net ` set ds" "st_name s = name"
      "\<forall>t \<in> nt_stack net ` set ds. health_priority s \<le> health_priority t" by auto
    then show ?thesis using assms(2) by auto
  qed
  have cases: "(\<exists>x. root_valve = Some x \<and> x \<in> set ds \<and> name = x) \<or> set_option root_valve \<inter> set ds = {} \<and>
      name \<in> set ds \<and> (\<forall>e \<in> set ds. health_priority (nt_stack net name) \<le> health_priority (nt_stack net e))"
  proof (cases "\<exists>x. root_valve = Some x \<and> x \<in> set ds")
    case True
    with assms(1) show ?thesis by (auto simp: choose_root_def)
  next
    case False
    then have "choose_root net root_valve ds = bindE (stack_nominate_root (map (nt_stack net) ds)) (\<lambda>(_, name). Inr name)"
      by (simp add: choose_root_def split: option.split)
    with assms(1) nom have "name \<in> set ds \<and> (\<forall>e \<in> set ds. health_priority (nt_stack net name) \<le> health_priority (nt_stack net e))"
      by simp
    moreover have "set_option root_valve \<inter> set ds = {}" using False by (cases root_valve) simp_all
    ultimately show ?thesis by blast
  qed
  then show "name \<in> set ds" by blast
  show "root_valve = Some x \<Longrightarrow> x \<in> set ds \<Longrightarrow> name = x" using cases by auto
  show "set_option root_valve \<inter> set ds = {} \<Longrightarrow> e \<in> set ds \<Longrightarrow>
      health_priority (nt_stack net name) \<le> health_priority (nt_stack net e)" using cases by auto
qed

text \<open>C24. The nominated root is a candidate, healthy when any candidate is and otherwise one that has
  been running; the old root stays when it is among these, and else the new one is the best of them
  in the order of health, priority and datapath id. No root is nominated exactly when there are
  none.\<close>

lemma root_nomination:
  assumes "nominate_stack_root lacp_ports root_valve other_valves now live update_time net = Inr (res, net')"
    and "distinct (map fst other_valves)"
    and "\<forall>d \<in> root_valves root_valve other_valves. st_name (nt_stack net d) = d"
  shows "(case res of
      None \<Rightarrow> root_pool net' (root_valves root_valve other_valves) = {}
    | Some name \<Rightarrow> name \<in> root_pool net' (root_valves root_valve other_valves) \<and>
        (\<forall>x \<in> set_option root_valve. x \<in> root_pool net' (root_valves root_valve other_valves) \<longrightarrow> name = x) \<and>
        (set_option root_valve \<inter> root_pool net' (root_valves root_valve other_valves) = {} \<longrightarrow>
           (\<forall>e \<in> root_pool net' (root_valves root_valve other_valves).
              health_priority (nt_stack net' name) \<le> health_priority (nt_stack net' e))))"
proof -
  let ?others = "map fst (filter snd other_valves)"
  let ?vs = "case root_valve of None \<Rightarrow> ?others | Some x \<Rightarrow> List.insert x ?others"
  let ?V = "root_valves root_valve other_valves"
  have vs: "set ?vs = ?V" by (auto simp: root_valves_def split: option.splits)
  have dist: "distinct ?vs" using assms(2) by (auto simp: distinct_map_filter split: option.splits)
  from assms(1) obtain h u where loop: "foldE (candidate_health lacp_ports now live update_time) ?vs (net, [], []) = Inr (net', h, u)"
    and res: "res = None \<longleftrightarrow> h = [] \<and> u = []"
      "\<And>name. res = Some name \<Longrightarrow> choose_root net' root_valve (if h \<noteq> [] then h else u) = Inr name"
    by (auto simp: nominate_stack_root_def Let_def bindE_Inr split: if_splits)
  note l = candidate_loop [OF loop dist]
  have cand: "is_candidate (nt_stack net' d) = is_candidate (nt_stack net d)" and name: "st_name (nt_stack net' d) = st_name (nt_stack net d)" for d
    using l [THEN conjunct1, rule_format, of d] by simp_all
  have h: "set h = {d \<in> ?V. is_candidate (nt_stack net' d) \<and> st_dyn_healthy (nt_stack net' d)}"
    and u: "set u = {d \<in> ?V. is_candidate (nt_stack net' d) \<and> \<not> st_dyn_healthy (nt_stack net' d) \<and> fst (st_dyn_healthy_info (nt_stack net' d))}"
    using l vs by (simp_all add: cand)
  have pool: "set (if h \<noteq> [] then h else u) = root_pool net' ?V"
  proof (cases "h = []")
    case True
    then have "{d \<in> ?V. is_candidate (nt_stack net' d) \<and> st_dyn_healthy (nt_stack net' d)} = {}" using h by simp
    then show ?thesis using True u by (auto simp: root_pool_def Let_def)
  next
    case False
    then have "{d \<in> ?V. is_candidate (nt_stack net' d) \<and> st_dyn_healthy (nt_stack net' d)} \<noteq> {}" using h by (metis set_empty)
    then show ?thesis using False h by (simp add: root_pool_def Let_def)
  qed
  show ?thesis
  proof (cases res)
    case None
    then show ?thesis using res(1) pool by simp
  next
    case (Some nm)
    have "st_name (nt_stack net' d) = d" if "d \<in> set (if h \<noteq> [] then h else u)" for d
      using that pool assms(3) name by (auto simp: root_pool_def Let_def split: if_splits)
    note c = choose_root_spec [OF res(2) [OF Some] this, unfolded pool]
    show ?thesis using Some c by (auto split: option.splits)
  qed
qed

section \<open>The loop over the valves of a stack\<close>

text \<open>A link of \<open>dp\<close> changes: every stacked valve updates its graph and its distances, one after the other.\<close>

definition update_stack_topos ::
    "'g nx \<Rightarrow> bool \<Rightarrow> string \<Rightarrow> stack_port \<Rightarrow> string list \<Rightarrow> 'g stack_net \<times> (string, distances) dict \<Rightarrow>
     err + 'g stack_net \<times> (string, distances) dict" where
  "update_stack_topos N event dp p valves st =
     foldE (\<lambda>d st. bindE (update_stack_topo N d event dp p (fst st)) (\<lambda>(net, ds). Inr (net, dict_set d ds (snd st)))) valves st"

text \<open>
  The distance of a peer is read from the peer's own graph, which a later turn of the loop updates. In a ring of four
  the second datapath loses its link to the root; the third, whose turn is first, still takes it for a way to
  the root and prunes the port to it, though the second datapath has no other link left.
\<close>

definition ring_ports :: "string \<Rightarrow> stack_port list" where
  "ring_ports dp =
     (if dp = ''sw1'' then [(1, example_link ''sw2'' 1), (2, example_link ''sw4'' 2)]
      else if dp = ''sw2'' then [(1, example_link ''sw1'' 1), (2, example_link ''sw3'' 1)]
      else if dp = ''sw3'' then [(1, example_link ''sw2'' 2), (2, example_link ''sw4'' 1)]
      else if dp = ''sw4'' then [(1, example_link ''sw3'' 2), (2, example_link ''sw1'' 2)] else [])"

definition ring_port :: "string \<Rightarrow> int \<Rightarrow> port" where
  "ring_port dp n =
     (default_port n)\<lparr>p_stack := dict_get (ring_ports dp) n, p_dyn_phys_up := True,
        p_dyn_stack_current_state := (if dp = ''sw2'' \<and> n = 1 then STACK_STATE_GONE else STACK_STATE_UP)\<rparr>"

definition ring_net :: "list_graph stack_net" where
  "ring_net =
     \<lparr>nt_stack = (\<lambda>dp. (new_stack dp 1 1)\<lparr>st_ports := ring_ports dp, st_root_name := Some ''sw1'',
        st_graph := Some (lg_add ''sw1'' ''sw2'' ''sw1:1-sw2:1'' \<lparr>ea_dp_a = ''sw1'', ea_port_a = 1, ea_dp_z = ''sw2'', ea_port_z = 1\<rparr>
          (lg_add ''sw2'' ''sw3'' ''sw2:2-sw3:1'' \<lparr>ea_dp_a = ''sw2'', ea_port_a = 2, ea_dp_z = ''sw3'', ea_port_z = 1\<rparr>
          (lg_add ''sw3'' ''sw4'' ''sw3:2-sw4:1'' \<lparr>ea_dp_a = ''sw3'', ea_port_a = 2, ea_dp_z = ''sw4'', ea_port_z = 1\<rparr>
          (lg_add ''sw1'' ''sw4'' ''sw1:2-sw4:2'' \<lparr>ea_dp_a = ''sw1'', ea_port_a = 2, ea_dp_z = ''sw4'', ea_port_z = 2\<rparr>
            \<lparr>lg_nodes = [''sw1'', ''sw2'', ''sw3'', ''sw4''], lg_edges = []\<rparr>))))\<rparr>),
      nt_port = ring_port\<rparr>"

lemma stale_peer_distances:
  "case update_stack_topos list_nx False ''sw2'' (1, example_link ''sw1'' 1) [''sw3'', ''sw2'', ''sw4'', ''sw1''] (ring_net, []) of
     Inl _ \<Rightarrow> False
   | Inr (net, mgrs) \<Rightarrow>
       (case (dict_get mgrs ''sw3'', reset_peer_distances list_nx net (nt_stack net ''sw3'')) of
          (Some ds, Inr fresh) \<Rightarrow> is_towards_root ds 1 \<and> is_pruned_port ds 1 \<and> is_away fresh 1 \<and> \<not> is_pruned_port fresh 1
        | _ \<Rightarrow> False)"
  by code_simp

text \<open>
  The port on a shortest path is one that is physically up: a port whose link is found to be miscabled is
  still chosen, although another link to the same datapath is up.
\<close>

definition miscabled_net :: "list_graph stack_net" where
  "miscabled_net =
     \<lparr>nt_stack = (\<lambda>dp. if dp = ''sw1'' then (case modify_link list_nx example_net (example_resolved dp) ''sw1'' (1, example_link ''sw2'' 1) False of
         Inr s \<Rightarrow> s | Inl _ \<Rightarrow> example_stack dp) else example_resolved dp),
      nt_port = (\<lambda>dp n. if dp = ''sw1'' \<and> n = 1 then set_stack STACK_STATE_BAD (example_port dp n) else example_port dp n)\<rparr>"

lemma bad_port_chosen:
  "default_port_towards list_nx miscabled_net (nt_stack miscabled_net ''sw1'') ''sw2'' = Some (1, example_link ''sw2'' 1)"
  "is_stack_bad (nt_port miscabled_net ''sw1'' 1) \<and> is_stack_up (nt_port miscabled_net ''sw1'' 2)"
  "all_peer_ports miscabled_net (nt_stack miscabled_net ''sw1'') = [(2, example_link ''sw2'' 2)]"
  by code_simp+

subsection \<open>Witnesses\<close>

definition example_edge :: "string \<Rightarrow> int \<Rightarrow> string \<Rightarrow> int \<Rightarrow> string \<times> string \<times> string \<times> edge_attr" where
  "example_edge a n z m = (a, z, a @ '':'' @ int_str n @ ''-'' @ z @ '':'' @ int_str m,
     \<lparr>ea_dp_a = a, ea_port_a = n, ea_dp_z = z, ea_port_z = m\<rparr>)"

definition resolved_graph :: list_graph where
  "resolved_graph = \<lparr>lg_nodes = [''sw1'', ''sw2'', ''sw3''],
     lg_edges = [example_edge ''sw1'' 1 ''sw2'' 1, example_edge ''sw1'' 2 ''sw2'' 2, example_edge ''sw2'' 3 ''sw3'' 1]\<rparr>"

definition resolved_net :: "list_graph stack_net" where
  "resolved_net = \<lparr>nt_stack = (\<lambda>dp. (example_stack dp)\<lparr>st_graph := Some resolved_graph, st_root_name := Some ''sw1'',
     st_roots_names := Some [''sw1'']\<rparr>), nt_port = example_port\<rparr>"

abbreviation example_names :: "string list" where "example_names \<equiv> [''sw1'', ''sw2'', ''sw3'']"

lemma resolved_edges:
  "map (\<lambda>(u, v, k, _). (u, v, k)) (lg_edges resolved_graph) =
     [(''sw1'', ''sw2'', ''sw1:1-sw2:1''), (''sw1'', ''sw2'', ''sw1:2-sw2:2''), (''sw2'', ''sw3'', ''sw2:3-sw3:1'')]"
  by code_simp

lemma resolved_adj:
  "nx_adj list_nx resolved_graph u v \<longleftrightarrow>
     (u, v) \<in> {(''sw1'', ''sw2''), (''sw2'', ''sw1''), (''sw2'', ''sw3''), (''sw3'', ''sw2'')}"
proof -
  have "(\<exists>m. (u, v, k, m) \<in> set (lg_edges resolved_graph)) \<longleftrightarrow>
      (u, v, k) \<in> set (map (\<lambda>(u, v, k, _). (u, v, k)) (lg_edges resolved_graph))" for u v k
    by force
  then have "lg_has_edge resolved_graph u v k \<longleftrightarrow>
      (u, v, k) \<in> set [(''sw1'', ''sw2'', ''sw1:1-sw2:1''), (''sw1'', ''sw2'', ''sw1:2-sw2:2''), (''sw2'', ''sw3'', ''sw2:3-sw3:1'')] \<or>
      (v, u, k) \<in> set [(''sw1'', ''sw2'', ''sw1:1-sw2:1''), (''sw1'', ''sw2'', ''sw1:2-sw2:2''), (''sw2'', ''sw3'', ''sw2:3-sw3:1'')]" for u v k
    unfolding lg_has_edge_iff ex_disj_distrib resolved_edges by simp
  then show ?thesis by (auto simp: nx_adj_def list_nx_simps)
qed

lemma resolved_consistent: "stack_consistent list_nx resolved_net (set example_names) resolved_graph ''sw1''"
proof -
  have state: "st_name (nt_stack resolved_net d) = d \<and> st_graph (nt_stack resolved_net d) = Some resolved_graph \<and>
      st_root_name (nt_stack resolved_net d) = Some ''sw1''" for d
    by (simp add: resolved_net_def example_stack_def new_stack_def)
  have fields: "\<forall>d \<in> set example_names. d \<in> set (nx_nodes list_nx resolved_graph) \<and>
      distinct (map fst (st_ports (nt_stack resolved_net d)))" by code_simp
  have ends: "\<forall>d \<in> set example_names. \<forall>p \<in> set (st_ports (nt_stack resolved_net d)).
      peer_dp p \<in> set example_names \<and> peer_dp p \<noteq> d \<and>
      (\<exists>q \<in> set (st_ports (nt_stack resolved_net (peer_dp p))). fst q = peer_no p \<and> peer_dp q = d \<and> peer_no q = fst p \<and>
         p_stack (peer_port resolved_net p) = Some (snd q)) \<and>
      (is_stack_up (nt_port resolved_net d (fst p)) \<longleftrightarrow> is_stack_up (peer_port resolved_net p))" by code_simp
  define peers where "peers u = map peer_dp (st_ports (nt_stack resolved_net u))" for u
  have peers: "peers ''sw1'' = [''sw2'', ''sw2'']" "peers ''sw2'' = [''sw1'', ''sw1'', ''sw3'']" "peers ''sw3'' = [''sw2'']"
    unfolding peers_def by code_simp+
  have up: "\<forall>d \<in> set example_names. \<forall>p \<in> set (st_ports (nt_stack resolved_net d)). is_stack_up (nt_port resolved_net d (fst p))"
    by code_simp
  have ex: "(\<exists>p \<in> set (st_ports (nt_stack resolved_net u)). peer_dp p = v \<and> is_stack_up (nt_port resolved_net u (fst p))) \<longleftrightarrow>
      v \<in> set (peers u)" if "u \<in> set example_names" for u v
    using up that unfolding peers_def by force
  have "nx_adj list_nx resolved_graph u v \<longleftrightarrow> u \<in> set example_names \<and> v \<in> set (peers u)" for u v
    unfolding resolved_adj using peers by auto
  then have adj: "nx_adj list_nx resolved_graph u v \<longleftrightarrow>
      u \<in> set example_names \<and> (\<exists>p \<in> set (st_ports (nt_stack resolved_net u)). peer_dp p = v \<and> is_stack_up (nt_port resolved_net u (fst p)))" for u v
    using ex by blast
  have "\<forall>d \<in> set example_names. st_name (nt_stack resolved_net d) = d \<and> st_graph (nt_stack resolved_net d) = Some resolved_graph \<and>
      st_root_name (nt_stack resolved_net d) = Some ''sw1'' \<and> d \<in> set (nx_nodes list_nx resolved_graph) \<and>
      distinct (map fst (st_ports (nt_stack resolved_net d)))" using state fields by blast
  then show ?thesis unfolding stack_consistent_def by (intro conjI ends allI adj) (assumption | simp)+
qed

lemma stack_links_agree_witness:
  "\<exists>du dy. distances_of list_nx resolved_net ''sw1'' du \<and> distances_of list_nx resolved_net ''sw2'' dy \<and>
     is_pruned_port du 2 = is_pruned_port dy 2"
proof -
  have a: "dp_parent list_nx resolved_net ''sw2'' = Some ''sw1''"
    "(2, example_link ''sw2'' 2) \<in> set (all_peer_ports resolved_net (nt_stack resolved_net ''sw1''))" by code_simp+
  have "peer_dp (2, example_link ''sw2'' 2) = ''sw2''" "peer_no (2, example_link ''sw2'' 2) = 2"
    by (simp_all add: peer_dp_def peer_no_def example_link_def)
  with stack_links_agree [OF list_nx.multigraph_axioms resolved_consistent _ a(1)] a(2) show ?thesis by fastforce
qed

lemma relative_route_reaches_witness:
  "\<exists>n \<le> 2. follow n (next_dp list_nx resolved_net ''sw3'') ''sw1'' = Some ''sw3''"
proof -
  have a: "dp_path list_nx resolved_net ''sw1'' \<noteq> []" "dp_path list_nx resolved_net ''sw3'' \<noteq> []"
    "(length (dp_path list_nx resolved_net ''sw1'') - 1) + (length (dp_path list_nx resolved_net ''sw3'') - 1) = 2" by code_simp+
  from relative_route_reaches [OF list_nx.multigraph_axioms resolved_consistent _ a(1) _ a(2)] show ?thesis unfolding a(3) by simp
qed

definition example_others :: "(string \<times> bool) list" where
  "example_others = [(''sw2'', True), (''sw3'', True)]"

definition candidates_net :: "list_graph stack_net" where
  "candidates_net = resolved_net\<lparr>nt_stack := (\<lambda>dp. (nt_stack resolved_net dp)\<lparr>st_roots_names := Some [''sw1'', ''sw2'']\<rparr>)\<rparr>"

definition example_nomination :: "string option \<times> list_graph stack_net" where
  "example_nomination =
     (case nominate_stack_root (\<lambda>_. []) (Some ''sw1'') example_others 100 [(''sw2'', 95)] 10 candidates_net of
        Inr x \<Rightarrow> x | Inl _ \<Rightarrow> (None, candidates_net))"

lemma root_nomination_witness:
  "fst example_nomination = Some ''sw2'' \<and>
   ''sw2'' \<in> root_pool (snd example_nomination) (root_valves (Some ''sw1'') example_others)"
proof -
  have "isl (nominate_stack_root (\<lambda>_. []) (Some ''sw1'') example_others 100 [(''sw2'', 95)] 10 candidates_net) = False"
    and fst: "fst example_nomination = Some ''sw2''" by code_simp+
  then have nom: "nominate_stack_root (\<lambda>_. []) (Some ''sw1'') example_others 100 [(''sw2'', 95)] 10 candidates_net =
      Inr (fst example_nomination, snd example_nomination)"
    by (auto simp: example_nomination_def split: sum.splits)
  have "distinct (map fst example_others)" by code_simp
  moreover have "\<forall>d \<in> set [''sw1'', ''sw2'', ''sw3'']. st_name (nt_stack candidates_net d) = d" by code_simp
  then have "\<forall>d \<in> root_valves (Some ''sw1'') example_others. st_name (nt_stack candidates_net d) = d"
    by (simp add: root_valves_def example_others_def)
  ultimately show ?thesis using root_nomination [OF nom] fst by simp
qed

end
