(* ===== verification/StackTunnel.thy ===== *)
theory StackTunnel imports StackManager AclManager begin

text \<open>
  The tunnels of a stack: the part of \<^verbatim>\<open>faucet/valve_stack.py\<close> that keeps the rules of tunnel ACLs in step with
  the paths of the stack. Then that the output ports of a tunnel lead from its source to its destination.
\<close>

section \<open>Updating the tunnels of an ACL\<close>

text \<open>
  What the loop over the tunnels of an ACL threads: the ACL, the messages and, by source, the tunnels whose
  whole ACL is rebuilt; and what the loop over the sources of one tunnel does: the sources to rebuild.
\<close>

record tunnel_update =
  tu_acl :: acl
  tu_source_vids :: "(tunnel_source, int list) dict"
  tu_sources :: "tunnel_source list"
  tu_reverse_sources :: "tunnel_source list"

definition update_forward ::
    "acl_lib \<Rightarrow> 'g nx \<Rightarrow> 'g stack_net \<Rightarrow> 'g stack \<Rightarrow> valve_table \<Rightarrow> int \<Rightarrow> tunnel_dest \<Rightarrow> tunnel_source \<Rightarrow> acl \<Rightarrow>
     err + bool \<times> acl" where
  "update_forward A N net s output_table tunnel_id dest source acl =
     (let out_port = tunnel_outport N net s (ts_dp source) (td_dst_dp dest) (td_dst_port dest)
      in if out_port = None \<and> td_dst_port dest = None \<and> td_dst_dp dest = st_name s \<or> out_port \<notin> {None, Some 0}
         then update_source_tunnel_rules A (st_name s) source tunnel_id out_port output_table acl
         else Inr (False, acl))"

definition update_reverse ::
    "'g nx \<Rightarrow> 'g stack_net \<Rightarrow> 'g stack \<Rightarrow> valve_table \<Rightarrow> int \<Rightarrow> tunnel_dest \<Rightarrow> tunnel_source \<Rightarrow> acl \<Rightarrow> err + bool \<times> acl" where
  "update_reverse N net s output_table tunnel_id dest source acl =
     (let in_port = tunnel_outport N net s (td_dst_dp dest) (ts_dp source) (ts_port source)
      in if ts_port source = None \<and> in_port = None \<and> ts_dp source = st_name s \<or> in_port \<notin> {None, Some 0}
         then update_reverse_tunnel_rules (st_name s) source tunnel_id in_port output_table acl
         else Inr (False, acl))"

definition update_tunnel_source ::
    "acl_lib \<Rightarrow> 'g nx \<Rightarrow> 'g stack_net \<Rightarrow> 'g stack \<Rightarrow> valve_table \<Rightarrow> int \<Rightarrow> tunnel_dest \<Rightarrow> tunnel_source \<Rightarrow> tunnel_update \<Rightarrow>
     err + tunnel_update" where
  "update_tunnel_source A N net s output_table tunnel_id dest source st =
     bindE (update_forward A N net s output_table tunnel_id dest source (tu_acl st)) (\<lambda>(updated, acl).
     let st = (if updated then
                 if st_name s = ts_dp source then st\<lparr>tu_source_vids := dict_append source tunnel_id (tu_source_vids st)\<rparr>
                 else st\<lparr>tu_sources := tu_sources st @ [source]\<rparr>
               else st)
     in bindE (update_reverse N net s output_table tunnel_id dest source acl) (\<lambda>(reverse_updated, acl).
        bindE (if reverse_updated then requires_reverse_tunnel tunnel_id acl else Inr False) (\<lambda>rebuild.
        Inr (st\<lparr>tu_acl := acl,
                tu_reverse_sources := tu_reverse_sources st @ (if rebuild then [source] else [])\<rparr>))))"

definition update_one_tunnel ::
    "acl_lib \<Rightarrow> 'g nx \<Rightarrow> acl_manager \<Rightarrow> 'g stack_net \<Rightarrow> 'g stack \<Rightarrow> valve_table \<Rightarrow> int \<times> tunnel_dest \<Rightarrow>
     acl \<times> (tunnel_source, int list) dict \<times> ofmsg list \<Rightarrow> err + acl \<times> (tunnel_source, int list) dict \<times> ofmsg list" where
  "update_one_tunnel A N m net s output_table tunnel st =
     (case (tunnel, st) of ((tunnel_id, dest), (acl, vids, ofmsgs)) \<Rightarrow>
        bindE (foldE (update_tunnel_source A N net s output_table tunnel_id dest) (acl_tunnel_sources acl)
                 \<lparr>tu_acl = acl, tu_source_vids = vids, tu_sources = [], tu_reverse_sources = []\<rparr>) (\<lambda>u.
        bindE (mapE (\<lambda>source. build_tunnel_rules_ofmsgs A m source tunnel_id (tu_acl u)) (tu_sources u)) (\<lambda>mss1.
        bindE (mapE (\<lambda>source. build_reverse_tunnel_rules_ofmsgs A m source tunnel_id (tu_acl u)) (tu_reverse_sources u)) (\<lambda>mss2.
        Inr (tu_acl u, tu_source_vids u, ofmsgs @ concat mss1 @ concat mss2)))))"

definition acl_update_tunnel ::
    "acl_lib \<Rightarrow> 'g nx \<Rightarrow> acl_manager \<Rightarrow> 'g stack_net \<Rightarrow> 'g stack \<Rightarrow> valve_table \<Rightarrow> acl \<Rightarrow> err + ofmsg list \<times> acl" where
  "acl_update_tunnel A N m net s output_table acl =
     bindE (foldE (update_one_tunnel A N m net s output_table) (acl_tunnel_dests acl) (acl, [], [])) (\<lambda>(acl, vids, ofmsgs).
     bindE (mapE (\<lambda>(source, vids). bindE (mapE (\<lambda>vid. build_tunnel_acl_rule_ofmsgs A m source vid acl) vids) (\<lambda>mss. Inr (concat mss)))
              vids) (\<lambda>mss.
     Inr (ofmsgs @ concat mss, acl)))"

text \<open>\<open>tunnel_acls\<close> are the tunnel ACLs of the datapath; they are returned with their new rules.\<close>

definition add_tunnel_acls ::
    "acl_lib \<Rightarrow> 'g nx \<Rightarrow> acl_manager \<Rightarrow> 'g stack_net \<Rightarrow> 'g stack \<Rightarrow> valve_table \<Rightarrow> acl list \<Rightarrow> err + ofmsg list \<times> acl list" where
  "add_tunnel_acls A N m net s output_table tunnel_acls =
     bindE (mapE (acl_update_tunnel A N m net s output_table) tunnel_acls) (\<lambda>rs. Inr (concat (map fst rs), map snd rs))"

text \<open>\<open>port_tunnel_acls\<close> are the tunnel ACLs among the ACLs of the port.\<close>

definition stack_manager_add_port ::
    "acl_lib \<Rightarrow> 'g nx \<Rightarrow> acl_manager \<Rightarrow> 'g stack_net \<Rightarrow> 'g stack \<Rightarrow> valve_table \<Rightarrow> port \<Rightarrow> acl list \<Rightarrow> acl list \<Rightarrow>
     err + ofmsg list \<times> acl list" where
  "stack_manager_add_port A N m net s output_table p port_tunnel_acls tunnel_acls =
     (if p_stack p = None \<and> port_tunnel_acls \<noteq> [] then add_tunnel_acls A N m net s output_table tunnel_acls
      else Inr ([], tunnel_acls))"

section \<open>A tunnel reaches its destination\<close>

text \<open>The datapath the output port of a tunnel leads to.\<close>

definition tunnel_hop :: "'g nx \<Rightarrow> 'g stack_net \<Rightarrow> string \<Rightarrow> string \<Rightarrow> string \<Rightarrow> string option" where
  "tunnel_hop N net src dst u =
     (let s = nt_stack net u
      in case tunnel_outport N net s src dst None of None \<Rightarrow> None | Some n \<Rightarrow> map_option sp_dp (dict_get (st_ports s) n))"

lemma append_less_iff: "(xs @ p < xs @ q) = (p < q)" for xs p q :: "('a :: linorder) list"
  by (induction xs) auto

context multigraph begin

lemma shortest_path_least:
  assumes "st_graph s = Some g" and "shortest (nx_adj N g) src d q" and "src \<in> set (nx_nodes N g)"
  shows "shortest_path N s (Some d) src \<le> q"
proof -
  have q: "q \<in> set (nx_all_shortest_paths N g src d)" using assms(2,3) by (simp add: paths)
  then obtain p ps where p: "sort (nx_all_shortest_paths N g src d) = p # ps"
    by (metis empty_iff list.exhaust list.set(1) set_sort)
  then have "sorted (p # ps)" "set (p # ps) = set (nx_all_shortest_paths N g src d)" by (metis sorted_sort, metis set_sort)
  then have "p \<le> q" using q by auto
  moreover have "nx_nodes N g \<noteq> []" using assms(3) by auto
  ultimately show ?thesis using assms(1) by (simp add: shortest_path_def p)
qed

text \<open>The end of the first shortest path is the first shortest path of its first datapath.\<close>

lemma shortest_path_suffix:
  assumes "st_graph s = Some g" and "shortest_path N s (Some d) src = xs @ u # ys"
  shows "shortest_path N s (Some d) u = u # ys"
proof -
  have "shortest_path N s (Some d) src \<noteq> []" by (simp add: assms(2))
  then obtain h e where "st_graph s = Some h" "Some d = Some e" "src \<in> set (nx_nodes N h)"
    "shortest (nx_adj N h) src e (shortest_path N s (Some d) src)" by (rule shortest_pathD)
  then have src: "src \<in> set (nx_nodes N g)" and sp: "shortest (nx_adj N g) src d (xs @ u # ys)"
    using assms by auto
  note su = shortest_suffix [OF sp]
  have u: "u \<in> set (nx_nodes N g)"
  proof (cases "xs = []")
    case True
    with sp have "src = u" by (simp add: shortest_def is_path_def)
    with src show ?thesis by simp
  next
    case False
    from sp have "walk (nx_adj N g) (xs @ u # ys)" by (simp add: shortest_def is_path_def)
    with False have "nx_adj N g (last xs) u" by (auto simp: walk_append)
    then show ?thesis using adj_nodes by blast
  qed
  have path: "is_path (nx_adj N g) u d (u # ys)" using su by (simp add: shortest_def)
  let ?q = "shortest_path N s (Some d) u"
  have sq: "shortest (nx_adj N g) u d ?q" by (rule shortest_path_exists [OF assms(1) u path])
  have le: "?q \<le> u # ys" by (rule shortest_path_least [OF assms(1) su u])
  have q: "hd ?q = u" "?q \<noteq> []" "last ?q = d" "walk (nx_adj N g) ?q"
    using sq by (auto simp: shortest_def is_path_def)
  then obtain t where t: "?q = u # t" by (cases ?q) auto
  have "walk (nx_adj N g) (xs @ u # ys)" using sp by (simp add: shortest_def is_path_def)
  then have "walk (nx_adj N g) (xs @ [u])" by (rule walk_prefix)
  from walk_join [OF this q(4) [unfolded t]] have w: "walk (nx_adj N g) (xs @ ?q)" by (simp add: t)
  have "hd (xs @ u # ys) = src" using sp by (simp add: shortest_def is_path_def)
  then have hd: "hd (xs @ ?q) = src" unfolding t by (cases xs) simp_all
  have len: "length ?q = length (u # ys)" by (rule shortest_same_length [OF sq su])
  have "shortest (nx_adj N g) src d (xs @ ?q)"
    using w hd q(2,3) len sp by (simp add: shortest_def is_path_def)
  from shortest_path_least [OF assms(1) this src] have "xs @ u # ys \<le> xs @ ?q" by (simp add: assms(2))
  then have "\<not> ?q < u # ys" by (simp add: append_less_iff flip: not_less)
  with le show ?thesis by auto
qed

end

text \<open>From any datapath on the way, the tunnel goes on to its destination.\<close>

lemma tunnel_follow:
  assumes "multigraph N" and "stack_consistent N net D g r" and "src \<in> D"
    and "\<And>d p. d \<in> D \<Longrightarrow> p \<in> set (st_ports (nt_stack net d)) \<Longrightarrow>
      running (nt_port net d (fst p)) \<longleftrightarrow> is_stack_up (nt_port net d (fst p))"
    and "P = shortest_path N (nt_stack net src) (Some dst) src" and "last P = dst" and "distinct P"
    and "u \<in> D" and "P = xs @ u # ys"
  shows "follow (length ys) (tunnel_hop N net src dst) u = Some dst"
  using assms(8,9)
proof (induction ys arbitrary: xs u)
  case Nil
  then show ?case using assms(6) by simp
next
  case (Cons v ys)
  note con = assms(1,2)
  note su = stack_consistentD [OF assms(2) Cons.prems(1)]
  note P = assms(5) [symmetric]
  have any: "shortest_path N (nt_stack net u) (Some dst) x = shortest_path N (nt_stack net src) (Some dst) x" for x
    by (rule path_any_stack(1) [OF assms(2) Cons.prems(1) assms(3)])
  have path: "shortest_path N (nt_stack net u) (Some dst) u = u # v # ys"
    using multigraph.shortest_path_suffix [OF assms(1) stack_consistentD(2) [OF assms(2,3)] P [unfolded Cons.prems(2)]] any by simp
  have "u \<noteq> dst" using assms(6,7) Cons.prems(2) by (auto split: if_splits)
  note step = multigraph.next_default_step [OF con Cons.prems(1) assms(4) [OF Cons.prems(1)] path]
  from step(1) obtain p where p: "default_port_towards N net (nt_stack net u) dst = Some p" "peer_dp p = v"
    by (auto simp: next_default_def)
  have "u \<in> set P" by (simp add: Cons.prems(2))
  then have out: "tunnel_outport N net (nt_stack net u) src dst None = Some (fst p)"
    using \<open>u \<noteq> dst\<close> p(1) any by (simp add: tunnel_outport_def is_in_path_def su(1) P)
  have "p \<in> set (st_ports (nt_stack net u))"
    using p(1) by (auto simp: default_port_towards_def shortest_path_port_def peer_up_ports_def canonical_order_def
        split: list.splits dest!: arg_cong [of _ _ set])
  moreover have "dict_ok (st_ports (nt_stack net u))"
    using assms(2) Cons.prems(1) unfolding stack_consistent_def dict_ok_def by blast
  ultimately have "dict_get (st_ports (nt_stack net u)) (fst p) = Some (snd p)"
    using dict_ok_in [of "st_ports (nt_stack net u)" "fst p" "snd p"] by simp
  then have "tunnel_hop N net src dst u = Some v" using p(2) by (simp add: tunnel_hop_def out peer_dp_def)
  moreover have "P = (xs @ [u]) @ v # ys" using Cons.prems(2) by simp
  from Cons.IH [OF step(2) this] have "follow (length ys) (tunnel_hop N net src dst) v = Some dst" .
  ultimately show ?case by simp
qed

text \<open>C25. The rules of a tunnel make a path: in a consistent stack whose stack ports are up when they
  are running, the output port every datapath on the path computes for the tunnel leads on, hop by
  hop, from its source to its destination, which outputs to the destination port; no datapath on the
  way is left without one.\<close>

lemma tunnel_reaches:
  assumes "multigraph N" and "stack_consistent N net D g r" and "src \<in> D" and "is_path (nx_adj N g) src dst q"
    and "\<And>d p. d \<in> D \<Longrightarrow> p \<in> set (st_ports (nt_stack net d)) \<Longrightarrow>
      running (nt_port net d (fst p)) \<longleftrightarrow> is_stack_up (nt_port net d (fst p))"
  shows "follow (length (shortest_path N (nt_stack net src) (Some dst) src) - 1) (tunnel_hop N net src dst) src = Some dst \<and>
    tunnel_outport N net (nt_stack net dst) src dst port = port"
proof -
  note s = stack_consistentD [OF assms(2,3)]
  let ?P = "shortest_path N (nt_stack net src) (Some dst) src"
  have sp: "shortest (nx_adj N g) src dst ?P" by (rule multigraph.shortest_path_exists [OF assms(1) s(2,4) assms(4)])
  then have P: "?P \<noteq> []" "hd ?P = src" "last ?P = dst" "walk (nx_adj N g) ?P" "distinct ?P"
    using shortest_distinct [OF sp] by (auto simp: shortest_def is_path_def)
  obtain t where t: "?P = [] @ src # t" using P(1,2) by (cases ?P) auto
  from tunnel_follow [OF assms(1-3,5) refl P(3,5) assms(3) t] t
  have 1: "follow (length ?P - 1) (tunnel_hop N net src dst) src = Some dst" by simp
  have dst: "dst \<in> D"
  proof (cases "butlast ?P = []")
    case True
    then show ?thesis using P assms(3) by (cases ?P) (auto split: if_splits)
  next
    case False
    have "?P = butlast ?P @ [dst]" using P(1,3) by (metis append_butlast_last_id)
    then have "nx_adj N g (last (butlast ?P)) dst" using P(4) False walk_append [of "butlast ?P" "[dst]" "nx_adj N g"] by simp
    then have "nx_adj N g dst (last (butlast ?P))" by (rule multigraph.adj_sym [OF assms(1)])
    then show ?thesis using stack_consistent_adj [OF assms(2)] by blast
  qed
  have "dst \<in> set ?P" using P(1,3) by (metis last_in_set)
  then have "tunnel_outport N net (nt_stack net dst) src dst port = port"
    using path_any_stack(1) [OF assms(2) dst assms(3)] stack_consistentD(1) [OF assms(2) dst] by (simp add: tunnel_outport_def is_in_path_def)
  with 1 show ?thesis by blast
qed

lemma tunnel_reaches_witness: "follow 2 (tunnel_hop list_nx resolved_net ''sw1'' ''sw3'') ''sw1'' = Some ''sw3''"
proof -
  have run: "\<forall>d \<in> set example_names. \<forall>p \<in> set (st_ports (nt_stack resolved_net d)).
      running (nt_port resolved_net d (fst p)) \<longleftrightarrow> is_stack_up (nt_port resolved_net d (fst p))" by code_simp
  have path: "is_path (nx_adj list_nx resolved_graph) ''sw1'' ''sw3'' [''sw1'', ''sw2'', ''sw3'']"
    by (simp add: is_path_def resolved_adj)
  have "length (shortest_path list_nx (nt_stack resolved_net ''sw1'') (Some ''sw3'') ''sw1'') - 1 = 2" by code_simp
  with tunnel_reaches [OF list_nx.multigraph_axioms resolved_consistent _ path] run show ?thesis by simp
qed

end
