(* ===== verification/StackLag.thy ===== *)
theory StackLag imports Lacp begin

text \<open>
  Which datapath of a stack carries a LAG: \<open>get_lacp_dpid_nomination\<close> of the switch manager of a stack,
  \<^verbatim>\<open>faucet/valve_switch_stack.py\<close>, and the ports it counts, of \<^verbatim>\<open>faucet/dp.py\<close>. Sets of
  valves, which Python iterates in no particular order, are lists; the nomination does not depend on the order.
\<close>

section \<open>The datapath of a LAG\<close>

record lag_dp =
  ld_dp_id :: int
  ld_ports :: "port list"
  ld_is_root :: bool

definition lacp_ports :: "lag_dp \<Rightarrow> port list" where "lacp_ports d = filter (\<lambda>p. p_lacp p \<noteq> 0) (ld_ports d)"

definition lags_up :: "lag_dp \<Rightarrow> (int, port list) dict" where
  "lags_up d = foldl (\<lambda>m p. dict_append (p_lacp p) p m) [] (filter is_actor_up (lacp_ports d))"

definition lags_nosync :: "lag_dp \<Rightarrow> (int, port list) dict" where
  "lags_nosync d = foldl (\<lambda>m p. dict_append (p_lacp p) p m) [] (filter is_actor_nosync (lacp_ports d))"

text \<open>The numbers of ports up, and of ports without sync, by datapath.\<close>

definition count_lag_ports :: "int \<Rightarrow> (int, nat) dict \<times> (int, nat) dict \<Rightarrow> lag_dp \<Rightarrow> (int, nat) dict \<times> (int, nat) dict" where
  "count_lag_ports lacp_id counts d =
     (case counts of (ports, no_sync_ports) \<Rightarrow>
        let up = dict_get (lags_up d) lacp_id;
            ports = (case up of None \<Rightarrow> ports | Some ps \<Rightarrow> dict_set (ld_dp_id d) (length ps) ports)
        in foldl (\<lambda>(ports, no_sync_ports) (_, ps).
             (if dict_get ports (ld_dp_id d) = None then dict_set (ld_dp_id d) 0 ports else ports,
              dict_set (ld_dp_id d) (length ps) no_sync_ports)) (ports, no_sync_ports) (lags_nosync d))"

definition count_of :: "(int, nat) dict \<Rightarrow> int \<Rightarrow> nat" where
  "count_of d k = (case dict_get d k of None \<Rightarrow> 0 | Some n \<Rightarrow> n)"

definition stack_lacp_dpid_nomination :: "int \<Rightarrow> lag_dp \<Rightarrow> (lag_dp \<times> bool) list \<Rightarrow> nominee \<times> string" where
  "stack_lacp_dpid_nomination lacp_id valve other_valves =
     (if other_valves = [] then (NoDpid, '''')
      else
        let all_stacked_valves = List.insert valve (map fst (filter snd other_valves));
            (ports, no_sync_ports) = foldl (count_lag_ports lacp_id) ([], []) all_stacked_valves;
            root_dpid = foldl (\<lambda>r d. if ld_is_root d then Some (ld_dp_id d) else r) None all_stacked_valves;
            port_order = sort_key (\<lambda>k. (- int (count_of ports k), - int (count_of no_sync_ports k))) (dict_keys ports)
        in case port_order of
             [] \<Rightarrow> (NoDpid, '''')
           | most_ports_dpid # _ \<Rightarrow>
               let most_ports_dpids = map fst (filter (\<lambda>(_, num). num = count_of ports most_ports_dpid) ports)
               in if 1 < length most_ports_dpids then
                    (if root_dpid \<in> Some ` set most_ports_dpids then (Dpid (the root_dpid), ''root dp'')
                     else (Dpids (sort most_ports_dpids), ''lowest dpid''))
                  else (Dpid most_ports_dpid, ''most LAG ports''))"

section \<open>What is counted\<close>

definition members_up :: "int \<Rightarrow> lag_dp \<Rightarrow> nat" where
  "members_up lacp_id d = (case dict_get (lags_up d) lacp_id of None \<Rightarrow> 0 | Some ps \<Rightarrow> length ps)"

definition counted :: "int \<Rightarrow> lag_dp \<Rightarrow> bool" where
  "counted lacp_id d \<longleftrightarrow> dict_get (lags_up d) lacp_id \<noteq> None \<or> lags_nosync d \<noteq> []"

definition most_ports :: "int \<Rightarrow> lag_dp set \<Rightarrow> int set" where
  "most_ports lacp_id D =
     {k. \<exists>d \<in> D. ld_dp_id d = k \<and> counted lacp_id d \<and> (\<forall>e \<in> D. counted lacp_id e \<longrightarrow> members_up lacp_id e \<le> members_up lacp_id d)}"

definition nominate :: "int set \<Rightarrow> int set \<Rightarrow> nominee \<times> string" where
  "nominate most roots =
     (case sorted_list_of_set most of
        [] \<Rightarrow> (NoDpid, '''')
      | [k] \<Rightarrow> (Dpid k, ''most LAG ports'')
      | ks \<Rightarrow> (case sorted_list_of_set (most \<inter> roots) of
           r # _ \<Rightarrow> (Dpid r, ''root dp'')
         | [] \<Rightarrow> (Dpids ks, ''lowest dpid'')))"

lemma count_nosync:
  "foldl (\<lambda>(ports, no_sync_ports) (_, ps).
      (if dict_get ports k = None then dict_set k 0 ports else ports, dict_set k (length ps) no_sync_ports)) (ports, ns) ls =
    (if ls = [] then (ports, ns)
     else (if dict_get ports k = None then dict_set k 0 ports else ports, dict_set k (length (snd (last ls))) ns))"
proof (induction ls arbitrary: ports ns)
  case (Cons l ls)
  have "dict_set k a (dict_set k b ns) = dict_set k a ns" for a b by (simp add: dict_set_def)
  then show ?case by (cases l, cases "ls = []") (simp_all add: Cons.IH)
qed simp

lemma count_get:
  "dict_get (fst (count_lag_ports lacp_id (ports, ns) d)) k =
    (if k = ld_dp_id d \<and> dict_get (lags_up d) lacp_id \<noteq> None then Some (members_up lacp_id d)
     else if k = ld_dp_id d \<and> counted lacp_id d \<and> dict_get ports k = None then Some 0 else dict_get ports k)"
  by (simp add: count_lag_ports_def count_nosync counted_def members_up_def Let_def split: option.splits)

lemma count_ok: "dict_ok ports \<Longrightarrow> dict_ok (fst (count_lag_ports lacp_id (ports, ns) d))"
  by (simp add: count_lag_ports_def count_nosync Let_def split: option.splits)

lemma counts_get:
  assumes "distinct (map ld_dp_id ds)" and "\<forall>d \<in> set ds. dict_get (fst counts) (ld_dp_id d) = None"
  shows "dict_get (fst (foldl (count_lag_ports lacp_id) counts ds)) k =
    (case find (\<lambda>d. ld_dp_id d = k \<and> counted lacp_id d) ds of Some d \<Rightarrow> Some (members_up lacp_id d) | None \<Rightarrow> dict_get (fst counts) k)"
  using assms
proof (induction ds arbitrary: counts)
  case (Cons d ds)
  obtain ports ns where c: "counts = (ports, ns)" by fastforce
  have get: "dict_get (fst (count_lag_ports lacp_id counts d)) k =
      (if k = ld_dp_id d \<and> counted lacp_id d then Some (members_up lacp_id d) else dict_get (fst counts) k)" for k
    using Cons.prems(2) by (auto simp: c count_get counted_def members_up_def split: option.splits)
  from Cons.prems have "\<forall>e \<in> set ds. dict_get (fst (count_lag_ports lacp_id counts d)) (ld_dp_id e) = None"
    unfolding get by (auto simp: image_iff)
  from Cons.IH [OF _ this] Cons.prems(1) have IH: "dict_get (fst (foldl (count_lag_ports lacp_id) counts (d # ds))) k =
      (case find (\<lambda>d. ld_dp_id d = k \<and> counted lacp_id d) ds of Some d \<Rightarrow> Some (members_up lacp_id d)
       | None \<Rightarrow> if k = ld_dp_id d \<and> counted lacp_id d then Some (members_up lacp_id d) else dict_get (fst counts) k)"
    unfolding get by simp
  have "find (\<lambda>d. ld_dp_id d = k \<and> counted lacp_id d) ds = None" if "ld_dp_id d = k"
    using Cons.prems(1) that unfolding find_None_iff by (auto simp: rev_image_eqI)
  then show ?case unfolding IH by auto
qed simp

lemma counts_ok: "dict_ok (fst counts) \<Longrightarrow> dict_ok (fst (foldl (count_lag_ports lacp_id) counts ds))"
proof (induction ds arbitrary: counts)
  case (Cons d ds)
  then show ?case using count_ok [of "fst counts" lacp_id "snd counts" d] by simp
qed simp

lemma counts_Some:
  assumes "distinct (map ld_dp_id ds)"
  shows "dict_get (fst (foldl (count_lag_ports lacp_id) ([], []) ds)) k = Some n \<longleftrightarrow>
    (\<exists>d \<in> set ds. ld_dp_id d = k \<and> counted lacp_id d \<and> members_up lacp_id d = n)"
proof -
  have *: "dict_get (fst (foldl (count_lag_ports lacp_id) ([], []) ds)) k =
      map_option (members_up lacp_id) (find (\<lambda>d. ld_dp_id d = k \<and> counted lacp_id d) ds)"
    by (subst counts_get [OF assms]) (simp_all split: option.splits)
  show ?thesis
  proof (cases "find (\<lambda>d. ld_dp_id d = k \<and> counted lacp_id d) ds")
    case None
    then have "\<nexists>d. d \<in> set ds \<and> ld_dp_id d = k \<and> counted lacp_id d" unfolding find_None_iff .
    then show ?thesis unfolding * None by auto
  next
    case (Some d)
    from this have d: "d \<in> set ds" "ld_dp_id d = k" "counted lacp_id d" unfolding find_Some_iff by auto
    have "e = d" if "e \<in> set ds" "ld_dp_id e = k" for e
      using inj_onD [of ld_dp_id "set ds" e d] assms d(1,2) that by (simp add: distinct_map)
    with d show ?thesis unfolding * Some option.map(2) option.inject by blast
  qed
qed

section \<open>The nomination\<close>

lemma sort_key_most:
  fixes f :: "'k \<Rightarrow> nat"
  assumes "sort_key (\<lambda>k. (- int (f k), g k)) ks = k # rest"
  shows "k \<in> set ks" and "\<forall>j \<in> set ks. f j \<le> f k"
proof -
  have s: "set (sort_key (\<lambda>k. (- int (f k), g k)) ks) = set ks" by simp
  then show "k \<in> set ks" unfolding assms by auto
  have "sorted (map (\<lambda>k. (- int (f k), g k)) (k # rest))" unfolding assms [symmetric] by (rule sorted_sort_key)
  then have "\<forall>j \<in> set rest. (- int (f k), g k) \<le> (- int (f j), g j)" by simp
  then have "\<forall>j \<in> set (k # rest). f j \<le> f k" by (auto simp: less_eq_prod_def)
  then show "\<forall>j \<in> set ks. f j \<le> f k" using s assms by auto
qed

lemma root_found:
  fixes ds :: "lag_dp list"
  defines "r \<equiv> foldl (\<lambda>r d. if ld_is_root d then Some (ld_dp_id d) else r) None ds"
  shows "r = None \<Longrightarrow> \<forall>d \<in> set ds. \<not> ld_is_root d" and "r = Some k \<Longrightarrow> \<exists>d \<in> set ds. ld_is_root d \<and> ld_dp_id d = k"
  unfolding r_def by (induction ds rule: rev_induct) (auto split: if_splits)

lemma most_counted:
  assumes "distinct (map ld_dp_id ds)" and c: "foldl (count_lag_ports lacp_id) ([], []) ds = (ports, ns)"
    and order: "sort_key (\<lambda>k. (- int (count_of ports k), - int (count_of ns k))) (dict_keys ports) = k # rest"
  shows "most_ports lacp_id (set ds) = set (map fst (filter (\<lambda>(_, num). num = count_of ports k) ports))"
    and "k \<in> most_ports lacp_id (set ds)" and "distinct (map fst (filter (\<lambda>(_, num). num = count_of ports k) ports))"
proof -
  note get = counts_Some [OF assms(1), of lacp_id, unfolded c fst_conv]
  have ok: "dict_ok ports" using counts_ok [of "([], [])" lacp_id ds] by (simp add: c)
  note most = sort_key_most [OF order]
  from most(1) obtain n where n: "dict_get ports k = Some n" unfolding dict_keys_get by blast
  then have cn: "count_of ports k = n" by (simp add: count_of_def)
  have max: "m \<le> n" if "dict_get ports j = Some m" for j m
    using most(2) that dict_keys_get [of j ports] by (force simp: cn [symmetric] count_of_def)
  have iff: "j \<in> most_ports lacp_id (set ds) \<longleftrightarrow> dict_get ports j = Some n" for j
  proof
    assume "j \<in> most_ports lacp_id (set ds)"
    then obtain d where d: "d \<in> set ds" "ld_dp_id d = j" "counted lacp_id d"
      "\<forall>e \<in> set ds. counted lacp_id e \<longrightarrow> members_up lacp_id e \<le> members_up lacp_id d" by (auto simp: most_ports_def)
    from n [unfolded get] d(4) have "n \<le> members_up lacp_id d" by blast
    moreover have j: "dict_get ports j = Some (members_up lacp_id d)" unfolding get using d(1-3) by blast
    ultimately show "dict_get ports j = Some n" using max [OF j] by simp
  next
    assume j: "dict_get ports j = Some n"
    then obtain d where "d \<in> set ds" "ld_dp_id d = j" "counted lacp_id d" "members_up lacp_id d = n" unfolding get by blast
    moreover have "members_up lacp_id e \<le> n" if "e \<in> set ds" "counted lacp_id e" for e
      using max [of "ld_dp_id e"] that unfolding get by blast
    ultimately show "j \<in> most_ports lacp_id (set ds)" by (auto simp: most_ports_def)
  qed
  show "k \<in> most_ports lacp_id (set ds)" unfolding iff by (rule n)
  show "most_ports lacp_id (set ds) = set (map fst (filter (\<lambda>(_, num). num = count_of ports k) ports))"
    using iff by (force simp: cn dict_ok_in [OF ok])
  show "distinct (map fst (filter (\<lambda>(_, num). num = count_of ports k) ports))"
    using ok by (simp add: dict_ok_def distinct_map_filter)
qed

definition lag_valves :: "lag_dp \<Rightarrow> (lag_dp \<times> bool) list \<Rightarrow> lag_dp set" where
  "lag_valves valve other_valves = insert valve {d. (d, True) \<in> set other_valves}"

text \<open>The nomination is a function of the set of the datapaths.\<close>

lemma nomination_value:
  assumes "other_valves \<noteq> []" and "distinct (map fst other_valves)" and "inj_on ld_dp_id (lag_valves valve other_valves)"
    and "\<forall>d \<in> lag_valves valve other_valves. \<forall>e \<in> lag_valves valve other_valves. ld_is_root d \<longrightarrow> ld_is_root e \<longrightarrow> d = e"
  shows "stack_lacp_dpid_nomination lacp_id valve other_valves =
    nominate (most_ports lacp_id (lag_valves valve other_valves)) (ld_dp_id ` {d \<in> lag_valves valve other_valves. ld_is_root d})"
proof -
  define ds where "ds = List.insert valve (map fst (filter snd other_valves))"
  have set: "set ds = lag_valves valve other_valves" by (force simp: ds_def lag_valves_def)
  have "distinct ds" using assms(2) by (simp add: ds_def distinct_map_filter)
  with assms(3) have dist: "distinct (map ld_dp_id ds)" by (simp add: distinct_map set)
  obtain ports ns where c: "foldl (count_lag_ports lacp_id) ([], []) ds = (ports, ns)" by fastforce
  define r where "r = foldl (\<lambda>r d. if ld_is_root d then Some (ld_dp_id d) else r) None ds"
  have roots: "ld_dp_id ` {d \<in> set ds. ld_is_root d} = set_option r"
  proof (cases r)
    case None
    with root_found(1) [of ds] show ?thesis by (auto simp: r_def)
  next
    case (Some k)
    with root_found(2) [of ds k] obtain d where "d \<in> set ds" "ld_is_root d" "ld_dp_id d = k" by (auto simp: r_def)
    with assms(4) Some show ?thesis unfolding set by fastforce
  qed
  show ?thesis
  proof (cases "sort_key (\<lambda>k. (- int (count_of ports k), - int (count_of ns k))) (dict_keys ports)")
    case Nil
    then have "dict_keys ports = []" by (metis length_0_conv length_sort)
    then have "\<not> counted lacp_id d" if "d \<in> set ds" for d
      using counts_Some [OF dist, of lacp_id "ld_dp_id d" "members_up lacp_id d"] that by (auto simp: c dict_keys_def)
    then have "most_ports lacp_id (set ds) = {}" by (auto simp: most_ports_def)
    with Nil c assms(1) show ?thesis
      by (simp add: stack_lacp_dpid_nomination_def ds_def [symmetric] nominate_def set [symmetric])
  next
    case (Cons k rest)
    let ?ks = "map fst (filter (\<lambda>(_, num). num = count_of ports k) ports)"
    note m = most_counted [OF dist c Cons]
    have len: "length ?ks = card (most_ports lacp_id (set ds))" using m(1,3) by (metis distinct_card)
    have sorted: "sorted_list_of_set (most_ports lacp_id (set ds)) = sort ?ks"
      unfolding m(1) using m(3) by (metis distinct_remdups_id sorted_list_of_set_sort_remdups)
    have fin: "finite (most_ports lacp_id (set ds))" unfolding m(1) by simp
    have code: "stack_lacp_dpid_nomination lacp_id valve other_valves =
        (if 1 < length ?ks then (if r \<in> Some ` set ?ks then (Dpid (the r), ''root dp'') else (Dpids (sort ?ks), ''lowest dpid''))
         else (Dpid k, ''most LAG ports''))"
      using assms(1) c Cons by (simp add: stack_lacp_dpid_nomination_def ds_def [symmetric] r_def [symmetric])
    show ?thesis
    proof (cases "1 < length ?ks")
      case False
      with m(2) len fin have "card (most_ports lacp_id (set ds)) = 1" by (metis One_nat_def card_0_eq empty_iff less_one linorder_neqE_nat)
      then have "most_ports lacp_id (set ds) = {k}" using m(2) by (metis card_1_singletonE singletonD)
      with False show ?thesis by (simp add: code nominate_def set [symmetric])
    next
      case True
      then have "1 < length (sort ?ks)" by simp
      then obtain a b ks where ks: "sort ?ks = a # b # ks" by (cases "sort ?ks"; cases "tl (sort ?ks)") auto
      have "r \<in> Some ` set ?ks \<longleftrightarrow> most_ports lacp_id (set ds) \<inter> set_option r \<noteq> {}" unfolding m(1) by (cases r) auto
      moreover have "most_ports lacp_id (set ds) \<inter> set_option r = {the r}" if "most_ports lacp_id (set ds) \<inter> set_option r \<noteq> {}"
        using that by (cases r) auto
      ultimately show ?thesis using True ks unfolding code nominate_def set [symmetric] roots sorted
        by (cases "most_ports lacp_id (set ds) \<inter> set_option r = {}") auto
    qed
  qed
qed

text \<open>One datapath of a LAG, when it alone has the most ports or the root is among those that have.\<close>

text \<open>C18. The nomination of the datapath of a LAG, when one datapath alone has the most ports of the
  LAG up or the root is one of several that have, is the same whichever datapath of the stack asks
  and in whatever order: the one with the most, and of several the root. Only on that datapath is a
  port of the LAG selected, if its configuration does not force it to be or not to be. (Of several
  without the root the code returns a list, valve_switch_stack.py:469.)\<close>

lemma nomination_of_stack:
  assumes "other_valves \<noteq> []" and "distinct (map fst other_valves)" and D: "lag_valves valve other_valves = D" and "inj_on ld_dp_id D"
    and root: "\<forall>d \<in> D. \<forall>e \<in> D. ld_is_root d \<longrightarrow> ld_is_root e \<longrightarrow> d = e"
    and k: "k \<in> most_ports lacp_id D" and one: "most_ports lacp_id D = {k} \<or> (\<exists>d \<in> D. ld_is_root d \<and> ld_dp_id d = k)"
  shows "fst (stack_lacp_dpid_nomination lacp_id valve other_valves) = Dpid k \<and>
    (\<forall>dp_id p. is_port_selected (snd (lacp_update_port_selection_state
         (stack_lacp_dpid_nomination lacp_id valve other_valves) dp_id False p)) \<longleftrightarrow>
       p_lacp_selected p \<or> (\<not> p_lacp_unselected p \<and> dp_id = k))"
proof -
  have "{d. (d, True) \<in> set other_valves} \<subseteq> fst ` set other_valves" by force
  then have fin: "finite D" using D by (auto simp: lag_valves_def intro: finite_subset)
  then have finm: "finite (most_ports lacp_id D)" by (rule finite_subset [rotated, OF finite_imageI [of D ld_dp_id]]) (auto simp: most_ports_def)
  have v: "stack_lacp_dpid_nomination lacp_id valve other_valves =
      nominate (most_ports lacp_id D) (ld_dp_id ` {d \<in> D. ld_is_root d})"
    using nomination_value [OF assms(1,2), of valve lacp_id] assms(4) root by (simp add: D)
  have n: "fst (nominate (most_ports lacp_id D) (ld_dp_id ` {d \<in> D. ld_is_root d})) = Dpid k"
  proof (cases "most_ports lacp_id D = {k}")
    case True
    then show ?thesis by (simp add: nominate_def)
  next
    case False
    with one obtain d where d: "d \<in> D" "ld_is_root d" "ld_dp_id d = k" by blast
    with root have "{d \<in> D. ld_is_root d} = {d}" by blast
    with d(3) k have inter: "most_ports lacp_id D \<inter> ld_dp_id ` {d \<in> D. ld_is_root d} = {k}" by auto
    have "card (most_ports lacp_id D) \<noteq> 0" "card (most_ports lacp_id D) \<noteq> 1" using k False finm by (auto simp: card_1_singleton_iff)
    then have len: "length (sorted_list_of_set (most_ports lacp_id D)) \<noteq> 0" "length (sorted_list_of_set (most_ports lacp_id D)) \<noteq> 1"
      by simp_all
    show ?thesis
    proof (cases "sorted_list_of_set (most_ports lacp_id D)")
      case Nil
      with len show ?thesis by simp
    next
      case (Cons a as)
      with len obtain b bs where "as = b # bs" by (cases as) auto
      with Cons inter show ?thesis by (simp add: nominate_def)
    qed
  qed
  then have dp: "fst (stack_lacp_dpid_nomination lacp_id valve other_valves) = Dpid k" by (simp add: v)
  have "is_port_selected (lacp_port_update selected False p) \<longleftrightarrow> p_lacp_selected p \<or> (\<not> p_lacp_unselected p \<and> selected)" for selected p
    by (auto simp: lacp_port_update_def is_port_selected_def set_role_def)
  then show ?thesis by (auto simp: dp lacp_update_port_selection_state_def Let_def)
qed

text \<open>The list is not an id, and so no datapath selects its ports.\<close>

lemma tie_selects_none:
  assumes "stack_lacp_dpid_nomination lacp_id valve other_valves = (Dpids ks, reason)"
    and "\<not> p_lacp_selected p"
  shows "\<not> is_port_selected (snd (lacp_update_port_selection_state (stack_lacp_dpid_nomination lacp_id valve other_valves) dp_id False p))"
  using assms by (simp add: lacp_update_port_selection_state_def lacp_port_update_def is_port_selected_def set_role_def Let_def)

section \<open>An example\<close>

text \<open>Three datapaths; the root has no port of the LAG up, the others one each.\<close>

definition lag_member :: "int \<Rightarrow> bool \<Rightarrow> lag_dp" where
  "lag_member n up =
     \<lparr>ld_dp_id = n, ld_ports = [(default_port 1)\<lparr>p_lacp := 5, p_dyn_lacp_actor_state := (if up then LACP_ACTOR_UP else LACP_ACTOR_NONE)\<rparr>],
      ld_is_root = (n = 1)\<rparr>"

lemma lag_member_simps [simp]: "ld_dp_id (lag_member n up) = n" "ld_is_root (lag_member n up) \<longleftrightarrow> n = 1"
  by (simp_all add: lag_member_def)

lemma lag_member_eq: "lag_member n up = lag_member m up' \<Longrightarrow> n = m"
  by (metis lag_member_simps(1))

lemma nomination_of_stack_witness:
  "fst (stack_lacp_dpid_nomination 5 (lag_member 2 True) [(lag_member 1 True, True), (lag_member 3 False, True)]) = Dpid 1 \<and>
   fst (stack_lacp_dpid_nomination 5 (lag_member 3 False) [(lag_member 2 True, True), (lag_member 1 True, True)]) = Dpid 1"
proof -
  let ?D = "{lag_member 2 True, lag_member 1 True, lag_member 3 False}"
  let ?o2 = "[(lag_member 1 True, True), (lag_member 3 False, True)]" and ?o3 = "[(lag_member 2 True, True), (lag_member 1 True, True)]"
  have n: "lag_member 1 True \<noteq> lag_member 3 False" "lag_member 2 True \<noteq> lag_member 1 True"
    using lag_member_eq [of 1 True 3 False] lag_member_eq [of 2 True 1 True] by auto
  have o2: "?o2 \<noteq> []" "distinct (map fst ?o2)" "lag_valves (lag_member 2 True) ?o2 = ?D"
    and o3: "?o3 \<noteq> []" "distinct (map fst ?o3)" "lag_valves (lag_member 3 False) ?o3 = ?D"
    using n by (auto simp: lag_valves_def)
  have inj: "inj_on ld_dp_id ?D" by (simp add: inj_on_def)
  have root: "\<forall>d \<in> ?D. \<forall>e \<in> ?D. ld_is_root d \<longrightarrow> ld_is_root e \<longrightarrow> d = e" by simp
  have "members_up 5 (lag_member 1 True) = 1" "members_up 5 (lag_member 2 True) = 1" "members_up 5 (lag_member 3 False) = 0"
    "counted 5 (lag_member 1 True)" by code_simp+
  then have k: "1 \<in> most_ports 5 ?D" by (auto simp: most_ports_def)
  have "most_ports 5 ?D = {1} \<or> (\<exists>d \<in> ?D. ld_is_root d \<and> ld_dp_id d = 1)" by simp
  from nomination_of_stack [OF o2 inj root k this] nomination_of_stack [OF o3 inj root k this] show ?thesis by simp
qed

lemma tie_selects_none_witness:
  "\<not> is_port_selected (snd (lacp_update_port_selection_state
     (stack_lacp_dpid_nomination 5 (lag_member 2 True) [(lag_member 1 False, True), (lag_member 3 True, True)]) 2 False (default_port 1)))"
proof -
  have "stack_lacp_dpid_nomination 5 (lag_member 2 True) [(lag_member 1 False, True), (lag_member 3 True, True)] =
    (Dpids [2, 3], ''lowest dpid'')" by code_simp
  from tie_selects_none [OF this, of "default_port 1" 2] show ?thesis by (simp add: default_port_def)
qed

end
