(* ===== verification/StackSwitch.thy ===== *)
theory StackSwitch imports StackManager Lacp begin

text \<open>
  The switch manager of a datapath in a stack, \<^verbatim>\<open>faucet/valve_switch_stack.py\<close>: flooding along the
  stack, with or without reflection off the root, the filters of pruned ports, and where a host that was heard on
  another datapath is learned. (The nomination of the datapath that carries a LAG is in \<open>StackLag\<close>.)

  A \<open>stack_node\<close> is what the manager reads of its stack manager, \<open>stack_switch\<close> the attributes it adds to those
  of its base class. Which of the two subclasses a manager is, is the argument \<open>reflection\<close>. Sets of valves,
  which Python iterates in no particular order, are lists.
\<close>

section \<open>The manager\<close>

record stack_switch =
  ss_set_ext_port_flag :: "action list"
  ss_set_nonext_port_flag :: "action list"
  ss_external_root_only :: bool

definition new_stack_switch :: "lib \<Rightarrow> switch_mgr \<Rightarrow> 'g stack \<Rightarrow> err + stack_switch" where
  "new_stack_switch L sm s =
     (if \<not> sm_has_externals sm
      then Inr \<lparr>ss_set_ext_port_flag = [], ss_set_nonext_port_flag = [], ss_external_root_only = False\<rparr>
      else
        bindE (set_external L True) (\<lambda>ext.
        bindE (set_external L False) (\<lambda>nonext.
        bindE (if is_root s then Inr False else is_root_candidate s) (\<lambda>root_only.
        Inr \<lparr>ss_set_ext_port_flag = [ext], ss_set_nonext_port_flag = [nonext], ss_external_root_only = root_only\<rparr>))))"

record 'g stack_node =
  sn_net :: "'g stack_net"
  sn_stack :: "'g stack"
  sn_distances :: distances

definition node_ports :: "'g stack_node \<Rightarrow> stack_port list \<Rightarrow> port list" where
  "node_ports n ps = map (own_port (sn_net n) (sn_stack n)) ps"

section \<open>Flooding\<close>

definition stack_external_forwarding :: "switch_mgr \<Rightarrow> port \<Rightarrow> bool option" where
  "stack_external_forwarding sm p =
     (if \<not> sm_has_externals sm then None
      else if p_tagged_vlans p \<noteq> [] \<and> p_loop_protect_external p then Some False
      else if p_stack p = None then Some True
      else None)"

definition stack_port_acts :: "rule_actions \<Rightarrow> lib \<Rightarrow> stack_switch \<Rightarrow> port_acts" where
  "stack_port_acts rule_actions L ss v exclude_unicast p exclude_all_external exclude_restricted_bcast_arpnd =
     build_flood_acts_for_port rule_actions L v exclude_unicast p (ss_external_root_only ss \<or> exclude_all_external)
       exclude_restricted_bcast_arpnd"

text \<open>What a subclass makes of the actions that flood away from the root, towards it, and to the VLAN's own ports.\<close>

type_synonym flood_actions = "port option \<Rightarrow> port list \<Rightarrow> action list \<Rightarrow> action list \<Rightarrow> action list \<Rightarrow> action list"

definition no_reflection_flood_actions :: "stack_switch \<Rightarrow> flood_actions" where
  "no_reflection_flood_actions ss in_port external_ports away toward local_acts =
     (let flood_prefix =
        (case in_port of
           None \<Rightarrow> []
         | Some p \<Rightarrow> if p_stack p \<noteq> None then []
             else if external_ports \<noteq> [] then ss_set_nonext_port_flag ss else ss_set_ext_port_flag ss)
      in flood_prefix @ toward @ away @ local_acts)"

definition root_flood_actions :: "ofp \<Rightarrow> stack_switch \<Rightarrow> distances \<Rightarrow> flood_actions" where
  "root_flood_actions K ss ds in_port external_ports away toward local_acts =
     (if external_ports \<noteq> [] then ss_set_nonext_port_flag ss else ss_set_ext_port_flag ss) @
     (if (case in_port of None \<Rightarrow> False | Some p \<Rightarrow> is_away ds (p_number p))
      then away @ [output_in_port K] @ local_acts else away @ local_acts)"

definition nonroot_flood_actions :: "stack_switch \<Rightarrow> distances \<Rightarrow> flood_actions" where
  "nonroot_flood_actions ss ds in_port external_ports away toward local_acts =
     (case in_port of
        None \<Rightarrow> (if external_ports \<noteq> [] then ss_set_nonext_port_flag ss else ss_set_ext_port_flag ss) @ toward
      | Some p \<Rightarrow>
          if is_away ds (p_number p) then toward
          else if is_towards_root ds (p_number p) then
            (if external_ports \<noteq> [] then ss_set_nonext_port_flag ss @ away @ local_acts
             else away @ ss_set_nonext_port_flag ss @ local_acts)
          else if p_loop_protect_external p then ss_set_nonext_port_flag ss @ toward
          else ss_set_ext_port_flag ss @ toward)"

definition reflection_flood_actions :: "ofp \<Rightarrow> stack_switch \<Rightarrow> 'g stack_node \<Rightarrow> flood_actions" where
  "reflection_flood_actions K ss n =
     (if is_root (sn_stack n) then root_flood_actions K ss (sn_distances n) else nonroot_flood_actions ss (sn_distances n))"

definition stack_flood_actions :: "bool \<Rightarrow> ofp \<Rightarrow> stack_switch \<Rightarrow> 'g stack_node \<Rightarrow> flood_actions" where
  "stack_flood_actions reflection K ss n =
     (if reflection then reflection_flood_actions K ss n else no_reflection_flood_actions ss)"

definition stack_exclude_ports :: "'g stack_node \<Rightarrow> port option \<Rightarrow> stack_port list" where
  "stack_exclude_ports n in_port =
     ds_inactive_away_ports (sn_distances n) @
     (case in_port of
        None \<Rightarrow> []
      | Some p \<Rightarrow> (case p_stack p of None \<Rightarrow> [] | Some peer \<Rightarrow> adjacent_stack_ports (sn_stack n) (sp_dp peer)))"

definition stack_flood_rule_actions :: "bool \<Rightarrow> lib \<Rightarrow> stack_switch \<Rightarrow> 'g stack_node \<Rightarrow> rule_actions" where
  "stack_flood_rule_actions reflection L ss n v exclude_unicast in_port exclude_all_external exclude_restricted =
     (let K = lib_ofp L; ds = sn_distances n
      in bindE (build_flood_local_rule_actions L v exclude_unicast in_port exclude_all_external exclude_restricted) (\<lambda>local_acts.
         bindE (flood_tagged_port_outputs K (node_ports n (ds_away_ports ds)) in_port
                  (node_ports n (stack_exclude_ports n in_port))) (\<lambda>away.
         bindE (flood_tagged_port_outputs K (node_ports n (ds_chosen_towards_ports ds)) in_port []) (\<lambda>toward.
         Inr (stack_flood_actions reflection K ss n in_port (loop_protect_external_ports v) away toward local_acts)))))"

section \<open>The rules of a mask\<close>

definition classification_offset :: int where "classification_offset = 0x100"

definition filter_match :: "port \<Rightarrow> vlan \<Rightarrow> string option \<Rightarrow> string option \<Rightarrow> match_args" where
  "filter_match p v eth_dst eth_dst_mask =
     (let ma = no_match\<lparr>ma_in_port := Some (p_number p), ma_vlan := Some (v_vid v)\<rparr>
      in if eth_dst = None then ma else ma\<lparr>ma_eth_dst := eth_dst, ma_eth_dst_mask := eth_dst_mask\<rparr>)"

definition mask_filters ::
    "bool \<Rightarrow> lib \<Rightarrow> 'g nx \<Rightarrow> switch_mgr \<Rightarrow> pipeline \<Rightarrow> 'g stack_node \<Rightarrow> port \<Rightarrow> vlan \<Rightarrow> string option \<Rightarrow> string option \<Rightarrow>
     bool \<Rightarrow> err + ofmsg list" where
  "mask_filters reflection L N sm pl n p v eth_dst eth_dst_mask prune =
     (let ma = filter_match p v eth_dst eth_dst_mask;
          replace_priority_offset = classification_offset - (FILTER_PRIORITY - HIGH_PRIORITY);
          priority_offset = (if eth_dst = None then replace_priority_offset - 1 else replace_priority_offset)
      in if prune then filter_packets L pl ma priority_offset
         else
           bindE (remove_filter L pl ma True priority_offset) (\<lambda>ms1.
           bindE (if \<not> is_root (sn_stack n) \<and> eth_dst \<noteq> None \<and> reflection \<and>
                     (is_edge N (sn_stack n) \<or> is_towards_root (sn_distances n) (p_number p))
                  then select_packets L pl (sm_flood_table sm) ma None classification_offset else Inr []) (\<lambda>ms2.
           Inr (ms1 @ ms2))))"

text \<open>The rule of a stack port; with external ports one for each value of the flag of packets that may be flooded to them.\<close>

definition stack_port_rule ::
    "lib \<Rightarrow> switch_mgr \<Rightarrow> vlan \<Rightarrow> int option \<Rightarrow> string option \<Rightarrow> string option \<Rightarrow> flow_command \<Rightarrow> port \<Rightarrow> action list \<Rightarrow>
     int option \<Rightarrow> err + ofmsg" where
  "stack_port_rule L sm v eth_type eth_dst eth_dst_mask command p flood_acts ext_port_flag =
     build_flood_rule L sm ((port_flood_match p v eth_type eth_dst eth_dst_mask)\<lparr>ma_vlan_pcp := ext_port_flag\<rparr>) command flood_acts
       (vlan_flood_priority L eth_type eth_dst_mask + 1)"

definition mask_flood_acts ::
    "port_acts \<Rightarrow> lib \<Rightarrow> switch_mgr \<Rightarrow> vlan \<Rightarrow> int option \<Rightarrow> string option \<Rightarrow> string option \<Rightarrow> bool \<Rightarrow> bool \<Rightarrow> flow_command \<Rightarrow>
     bool \<Rightarrow> port \<Rightarrow> err + ofmsg list" where
  "mask_flood_acts port_acts L sm v eth_type eth_dst eth_dst_mask exclude_unicast exclude_restricted command prune p =
     mapE (\<lambda>(ext_port_flag, exclude_all_external).
         bindE (if prune then Inr []
                else bindE (port_acts v exclude_unicast p exclude_all_external exclude_restricted) (\<lambda>(acts, _, _). Inr acts))
           (\<lambda>flood_acts. stack_port_rule L sm v eth_type eth_dst eth_dst_mask command p flood_acts ext_port_flag))
       (if sm_has_externals sm then [(Some PCP_NONEXT_PORT_FLAG, True), (Some PCP_EXT_PORT_FLAG, False)] else [(None, False)])"

definition stack_port_mask_rules ::
    "bool \<Rightarrow> port_acts \<Rightarrow> lib \<Rightarrow> 'g nx \<Rightarrow> switch_mgr \<Rightarrow> pipeline \<Rightarrow> 'g stack_node \<Rightarrow> vlan \<Rightarrow> int option \<Rightarrow> string option \<Rightarrow>
     string option \<Rightarrow> bool \<Rightarrow> bool \<Rightarrow> flow_command \<Rightarrow> stack_port \<Rightarrow> err + ofmsg list" where
  "stack_port_mask_rules reflection port_acts L N sm pl n v eth_type eth_dst eth_dst_mask exclude_unicast exclude_restricted
       command sp =
     (let p = own_port (sn_net n) (sn_stack n) sp;
          prune = (eth_dst \<noteq> None \<and> is_pruned_port (sn_distances n) (fst sp))
      in bindE (mask_filters reflection L N sm pl n p v eth_dst eth_dst_mask prune) (\<lambda>filters.
         bindE (mask_flood_acts port_acts L sm v eth_type eth_dst eth_dst_mask exclude_unicast exclude_restricted command prune p)
           (\<lambda>floods. Inr (filters @ floods))))"

definition stack_mask_flood_rules ::
    "bool \<Rightarrow> rule_actions \<Rightarrow> port_acts \<Rightarrow> lib \<Rightarrow> 'g nx \<Rightarrow> switch_mgr \<Rightarrow> pipeline \<Rightarrow> 'g stack_node \<Rightarrow> mask_rules" where
  "stack_mask_flood_rules reflection rule_actions port_acts L N sm pl n v eth_type eth_dst eth_dst_mask exclude_unicast
       exclude_restricted command cold_start =
     bindE (build_mask_flood_rules rule_actions port_acts L sm v eth_type eth_dst eth_dst_mask exclude_unicast exclude_restricted
              command cold_start) (\<lambda>ms.
     bindE (mapE (stack_port_mask_rules reflection port_acts L N sm pl n v eth_type eth_dst eth_dst_mask exclude_unicast
              exclude_restricted command) (st_ports (sn_stack n))) (\<lambda>mss.
     Inr (ms @ concat mss)))"

text \<open>The methods of the two subclasses, for the functions of the base class.\<close>

definition stack_flooding ::
    "bool \<Rightarrow> lib \<Rightarrow> 'g nx \<Rightarrow> switch_mgr \<Rightarrow> pipeline \<Rightarrow> stack_switch \<Rightarrow> 'g stack_node \<Rightarrow> flood_class" where
  "stack_flooding reflection L N sm pl ss n =
     (let rule_actions = stack_flood_rule_actions reflection L ss n; port_acts = stack_port_acts rule_actions L ss
      in \<lparr>fc_rule_actions = rule_actions, fc_port_acts = port_acts,
          fc_mask_rules = stack_mask_flood_rules reflection rule_actions port_acts L N sm pl n\<rparr>)"

section \<open>VLANs and ports\<close>

definition stack_drop_spoofed_rules :: "lib \<Rightarrow> switch_mgr \<Rightarrow> pipeline \<Rightarrow> vlan \<Rightarrow> err + ofmsg list" where
  "stack_drop_spoofed_rules L sm pl v =
     (if sm_drop_spoofed_faucet_mac sm
      then bindE (mapE (\<lambda>p. filter_packets L pl
                    (no_match\<lparr>ma_eth_src := Some (v_faucet_mac v), ma_in_port := Some (p_number p)\<rparr>) 0)
                  (filter (\<lambda>p. p_stack p = None) (dict_values (sm_ports sm)))) (\<lambda>mss. Inr (concat mss))
      else Inr [])"

definition stack_add_vlan ::
    "bool \<Rightarrow> lib \<Rightarrow> 'g nx \<Rightarrow> switch_mgr \<Rightarrow> pipeline \<Rightarrow> stack_switch \<Rightarrow> 'g stack_node \<Rightarrow> vlan \<Rightarrow> bool \<Rightarrow> group_table \<Rightarrow>
     err + ofmsg list \<times> group_table" where
  "stack_add_vlan reflection L N sm pl ss n v cold_start groups =
     switch_add_vlan (stack_flooding reflection L N sm pl ss n) (stack_drop_spoofed_rules L sm pl) L sm v cold_start groups"

text \<open>A stack port takes packets of all VLANs, and none without a VLAN.\<close>

definition stack_switch_add_port :: "lib \<Rightarrow> pktlib \<Rightarrow> switch_mgr \<Rightarrow> pipeline \<Rightarrow> port \<Rightarrow> err + ofmsg list" where
  "stack_switch_add_port L P sm pl p =
     bindE (switch_add_port L P sm p) (\<lambda>ms.
     if p_stack p = None then Inr ms
     else
       bindE (tbl_flowdrop L (sm_vlan_table sm) (untagged_match L p) (LOW_PRIORITY + 1) 0) (\<lambda>m1.
       bindE (tbl_flowmod L (sm_vlan_table sm) (no_match\<lparr>ma_in_port := Some (p_number p)\<rparr>)
                (flow_defaults\<lparr>fa_priority := Some LOW_PRIORITY, fa_inst := accept_to_classification pl []\<rparr>)) (\<lambda>m2.
       Inr (ms @ [m1, m2]))))"

definition stack_switch_del_port :: "lib \<Rightarrow> switch_mgr \<Rightarrow> port \<Rightarrow> err + ofmsg list \<times> switch_mgr" where
  "stack_switch_del_port L sm p =
     bindE (switch_del_port L sm p) (\<lambda>ms.
     if p_stack p = None then Inr (ms, sm)
     else
       bindE (mapE (\<lambda>(vid, v). bindE (clear_cache_hosts_on_port p v) (\<lambda>v. Inr (vid, v))) (sm_vlans sm)) (\<lambda>vlans.
       bindE (del_host_flows L sm p) (\<lambda>hosts.
       Inr (ms @ hosts, sm\<lparr>sm_vlans := vlans\<rparr>))))"

section \<open>Where a host is learned\<close>

text \<open>
  A datapath that has learned the host itself, not from the stack: one with the host on a port of its own before
  one with the host on an external port, which counts only if this datapath has not learned it. The entry of a
  cache names its port; the state of the port is that of the datapath's ports.
\<close>

definition entry_port :: "switch_mgr \<Rightarrow> host_entry \<Rightarrow> port" where
  "entry_port sm entry =
     (case dict_get (sm_ports sm) (p_number (he_port entry)) of None \<Rightarrow> he_port entry | Some p \<Rightarrow> p)"

definition learned_port :: "int \<Rightarrow> int \<Rightarrow> switch_mgr \<Rightarrow> port option" where
  "learned_port vid eth_src sm =
     (case dict_get (sm_vlans sm) vid of
        None \<Rightarrow> None
      | Some v \<Rightarrow>
          (case cached_host eth_src v of
             None \<Rightarrow> None
           | Some entry \<Rightarrow> let p = entry_port sm entry in if non_stack_forwarding p then Some p else None))"

definition learned_as :: "bool \<Rightarrow> int \<Rightarrow> int \<Rightarrow> string \<times> switch_mgr \<Rightarrow> bool" where
  "learned_as external vid eth_src dp =
     (case learned_port vid eth_src (snd dp) of None \<Rightarrow> False | Some p \<Rightarrow> p_loop_protect_external p = external)"

definition non_stack_learned :: "(string \<times> switch_mgr) list \<Rightarrow> int \<Rightarrow> vlan \<Rightarrow> string option" where
  "non_stack_learned others eth_src v =
     (case filter (learned_as False (v_vid v) eth_src) others of
        d # _ \<Rightarrow> Some (fst d)
      | [] \<Rightarrow>
          (case filter (learned_as True (v_vid v) eth_src) others of
             d # _ \<Rightarrow> if cached_host eth_src v = None then Some (fst d) else None
           | [] \<Rightarrow> None))"

text \<open>\<open>running\<close> tells which datapaths are connected to this controller.\<close>

definition edge_dp_for_host ::
    "bool \<Rightarrow> 'g nx \<Rightarrow> 'g stack_net \<Rightarrow> (string \<Rightarrow> bool) \<Rightarrow> (string \<times> switch_mgr) list \<Rightarrow> int \<Rightarrow> vlan \<Rightarrow> string \<Rightarrow> string option" where
  "edge_dp_for_host reflection N net dp_running others eth_src v peer =
     (if dp_running peer then non_stack_learned others eth_src v
      else if \<not> reflection \<or> is_edge N (nt_stack net peer) \<or> is_root (nt_stack net peer) then Some peer
      else None)"

definition edge_learn_port ::
    "bool \<Rightarrow> 'g nx \<Rightarrow> 'g stack_node \<Rightarrow> (string \<Rightarrow> bool) \<Rightarrow> (string \<times> switch_mgr) list \<Rightarrow> int \<Rightarrow> vlan \<Rightarrow> port \<Rightarrow> int option" where
  "edge_learn_port reflection N n dp_running others eth_src v p =
     (let towards = (\<lambda>edge_dp. map_option fst (edge_learn_port_towards N (sn_net n) (sn_stack n) (sn_distances n) v edge_dp))
      in case p_stack p of
           Some peer \<Rightarrow>
             (case edge_dp_for_host reflection N (sn_net n) dp_running others eth_src v (sp_dp peer) of
                Some edge_dp \<Rightarrow> towards edge_dp
              | None \<Rightarrow> None)
         | None \<Rightarrow>
             if p_loop_protect_external p then
               (case non_stack_learned others eth_src v of
                  Some edge_dp \<Rightarrow> towards edge_dp
                | None \<Rightarrow> Some (p_number p))
             else Some (p_number p))"

text \<open>With reflection, the copy of a packet that comes back from the root does not move a host that was just learned on a port of its own.\<close>

definition reflection_cache_check :: "switch_mgr \<Rightarrow> learn_func" where
  "reflection_cache_check sm env s =
     (let s = s\<lparr>ls_update_cache := True\<rparr>
      in case le_entry env of
           None \<Rightarrow> Inr (False, s)
         | Some entry \<Rightarrow>
             let p = ls_port s;
                 cache_port = he_port entry;
                 same_lag = (p_lacp p \<noteq> 0 \<and> p_lacp p = p_lacp cache_port);
                 local_stack_learn = (p_stack p \<noteq> None \<and> p_stack cache_port = None);
                 port_cache_valid =
                   (case p_dyn_update_time p of None \<Rightarrow> False | Some t \<Rightarrow> t \<le> he_cache_time entry);
                 guard_time = (if same_lag \<or> local_stack_learn then 2 else sm_cache_update_guard_time sm)
             in if \<not> (port_eq cache_port p \<or> same_lag \<or> local_stack_learn) then Inr (False, s)
                else if le_now env - he_cache_time entry < guard_time \<and> port_cache_valid
                then Inr (True, s\<lparr>ls_update_cache := False\<rparr>)
                else if port_eq cache_port p \<or> same_lag
                then Inr (False, s\<lparr>ls_delete_existing := False,
                            ls_refresh_rules := (if port_cache_valid then True else ls_refresh_rules s)\<rparr>)
                else Inr (False, s))"

definition stack_learning :: "bool \<Rightarrow> switch_mgr \<Rightarrow> learn_class" where
  "stack_learning reflection sm =
     \<lparr>lc_cache_check = (if reflection then reflection_cache_check sm else learn_cache_check sm),
      lc_external = stack_external_forwarding sm\<rparr>"

section \<open>The datapaths of a stack learn a host\<close>

text \<open>
  A valve as the other valves see it, with the time its datapath was last cold started, and all valves by the name of
  their datapath. \<open>router_rcv\<close> is \<open>Valve.router_rcv_packet\<close> (\<open>Route\<close>), for the valve that got the packet. The
  packet: the number of the port, the VLAN, its addresses and why the datapath sent it.
\<close>

record stack_valve =
  kv_switch :: switch_mgr
  kv_pipeline :: pipeline
  kv_distances :: distances
  kv_running :: bool
  kv_coldstart :: "int option"
  kv_faucet_dp_mac :: string

type_synonym stack_valves = "(string, stack_valve) dict"

record stack_pkt =
  kp_port :: int
  kp_vid :: int
  kp_eth_src :: int
  kp_eth_dst :: int
  kp_reason :: int

record 'g stack_env =
  se_lib :: lib
  se_nx :: "'g nx"
  se_net :: "'g stack_net"
  se_reflection :: bool
  se_timeouts :: timeouts
  se_router_rcv :: "string \<Rightarrow> stack_pkt \<Rightarrow> stack_valves \<Rightarrow> err + ofmsg list \<times> stack_valves"

text \<open>The stacks of all datapaths with the ports the valves hold.\<close>

definition valves_net :: "'g stack_net \<Rightarrow> stack_valves \<Rightarrow> 'g stack_net" where
  "valves_net net vs =
     net\<lparr>nt_port := (\<lambda>dp n.
       case dict_get vs dp of
         None \<Rightarrow> nt_port net dp n
       | Some k \<Rightarrow> (case dict_get (sm_ports (kv_switch k)) n of None \<Rightarrow> nt_port net dp n | Some p \<Rightarrow> p))\<rparr>"

definition valve_node :: "'g stack_env \<Rightarrow> stack_valves \<Rightarrow> string \<Rightarrow> stack_valve \<Rightarrow> 'g stack_node" where
  "valve_node E vs name k =
     \<lparr>sn_net = valves_net (se_net E) vs, sn_stack = nt_stack (se_net E) name, sn_distances = kv_distances k\<rparr>"

definition valve_running :: "stack_valves \<Rightarrow> string \<Rightarrow> bool" where
  "valve_running vs name = (case dict_get vs name of None \<Rightarrow> False | Some k \<Rightarrow> kv_running k)"

definition other_switches :: "stack_valves \<Rightarrow> string list \<Rightarrow> (string \<times> switch_mgr) list" where
  "other_switches vs names = map (\<lambda>(name, k). (name, kv_switch k)) (filter (\<lambda>(name, _). name \<in> set names) vs)"

text \<open>\<open>Valve.learn_host\<close> of a valve with a stack manager.\<close>

definition stack_learn_host ::
    "'g stack_env \<Rightarrow> int \<Rightarrow> string \<Rightarrow> stack_pkt \<Rightarrow> string list \<Rightarrow> stack_valves \<Rightarrow> err + ofmsg list \<times> stack_valves" where
  "stack_learn_host E now name pkt others vs =
     bindE (dict_getE vs name) (\<lambda>k.
     let sm = kv_switch k; eth_src = kp_eth_src pkt; vid = kp_vid pkt
     in bindE (dict_getE (sm_ports sm) (kp_port pkt)) (\<lambda>p.
        bindE (dict_getE (sm_vlans sm) vid) (\<lambda>v.
        case edge_learn_port (se_reflection E) (se_nx E) (valve_node E vs name k) (valve_running vs)
               (other_switches vs others) eth_src v p of
          None \<Rightarrow> Inr ([], vs)
        | Some learn_port \<Rightarrow>
            bindE (dict_getE (sm_ports sm) learn_port) (\<lambda>p.
            bindE (learn_host_on_vlan_ports (stack_learning (se_reflection E) sm) (se_lib E) (se_timeouts E) sm (kv_pipeline k)
                     now p v eth_src True (kv_coldstart k)) (\<lambda>(ms, _, update_cache, p).
            bindE (if update_cache then add_cache_host eth_src p now v else Inr v) (\<lambda>v.
            let sm = sm\<lparr>sm_ports := dict_set learn_port p (sm_ports sm), sm_vlans := dict_set vid v (sm_vlans sm)\<rparr>
            in Inr (ms, dict_set name (k\<lparr>kv_switch := sm\<rparr>) vs)))))))"

definition intervlan_routing_flows ::
    "lib \<Rightarrow> timeouts \<Rightarrow> switch_mgr \<Rightarrow> port \<Rightarrow> vlan \<Rightarrow> int \<Rightarrow> int \<Rightarrow> err + ofmsg list" where
  "intervlan_routing_flows L timeouts sm p v eth_src eth_dst =
     bindE (timeouts sm p eth_src) (\<lambda>(src_idle, src_hard, _).
     bindE (vt_goto (sm_eth_src_table sm) (sm_output_table sm)) (\<lambda>goto.
     bindE (tbl_flowmod L (sm_eth_src_table sm)
              (no_match\<lparr>ma_vlan := Some (v_vid v), ma_eth_src := mac_text_match L eth_src, ma_eth_dst := mac_text_match L eth_dst\<rparr>)
              (flow_defaults\<lparr>fa_priority := Some (MATCH_PRIORITY - 1), fa_inst := [goto],
                 fa_hard_timeout := src_hard, fa_idle_timeout := src_idle\<rparr>)) (\<lambda>m.
     Inr [m])))"

text \<open>
  \<open>self\<close> is the valve whose switch manager learns for the valve \<open>name\<close>: its own tables, and whether it is the root
  itself, determine the flows of inter-VLAN routing.
\<close>

definition valve_learn_host_from_pkt ::
    "'g stack_env \<Rightarrow> string \<Rightarrow> int \<Rightarrow> string \<Rightarrow> stack_pkt \<Rightarrow> string list \<Rightarrow> stack_valves \<Rightarrow> err + ofmsg list \<times> stack_valves" where
  "valve_learn_host_from_pkt E self now name pkt others vs =
     bindE (if kp_reason pkt = OFPR_ACTION (lib_ofp (se_lib E)) then stack_learn_host E now name pkt others vs else Inr ([], vs))
       (\<lambda>(ms1, vs).
     bindE (se_router_rcv E name pkt vs) (\<lambda>(ms2, vs).
     bindE (dict_getE vs self) (\<lambda>k.
     bindE (dict_getE vs name) (\<lambda>k'.
     bindE (dict_getE (sm_ports (kv_switch k')) (kp_port pkt)) (\<lambda>p.
     bindE (dict_getE (sm_vlans (kv_switch k')) (kp_vid pkt)) (\<lambda>v.
     let L = se_lib E; s = nt_stack (se_net E) self;
         flows = (\<lambda>eth_src eth_dst. intervlan_routing_flows L (se_timeouts E) (kv_switch k) p v eth_src eth_dst)
     in bindE (if st_route_learning s \<and> \<not> is_root s then
                 (if lib_mac_text L (kp_eth_src pkt) = v_faucet_mac v then flows (kp_eth_src pkt) (kp_eth_dst pkt)
                  else if lib_mac_text L (kp_eth_dst pkt) = v_faucet_mac v then flows (kp_eth_dst pkt) (kp_eth_src pkt)
                  else Inr [])
               else Inr []) (\<lambda>ms3.
        Inr (ms1 @ ms2 @ ms3, vs))))))))"

text \<open>The other datapaths of the stack learn first, on their port towards this one.\<close>

definition learn_on_other ::
    "'g stack_env \<Rightarrow> string \<Rightarrow> int \<Rightarrow> stack_pkt \<Rightarrow> string list \<Rightarrow> string \<Rightarrow> (string, ofmsg list) dict \<times> stack_valves \<Rightarrow>
     err + (string, ofmsg list) dict \<times> stack_valves" where
  "learn_on_other E self now pkt all_valves name st =
     (case st of (by_valve, vs) \<Rightarrow>
        bindE (dict_getE vs name) (\<lambda>k.
        let n = valve_node E vs name k;
            stack_port = relative_port_towards (se_nx E) (sn_net n) (sn_stack n) (sn_distances n) (st_name (nt_stack (se_net E) self))
        in case stack_port of
             Some sp \<Rightarrow>
               if dict_get (sm_vlans (kv_switch k)) (kp_vid pkt) = None then Inr st
               else
                 bindE (valve_learn_host_from_pkt E self now name (pkt\<lparr>kp_port := fst sp\<rparr>)
                          (filter (\<lambda>d. d \<noteq> name) all_valves) vs) (\<lambda>(ms, vs).
                 Inr (dict_set name ms by_valve, vs))
           | None \<Rightarrow> Inr st))"

definition stack_learn_host_from_pkt ::
    "'g stack_env \<Rightarrow> string \<Rightarrow> int \<Rightarrow> stack_pkt \<Rightarrow> (string \<times> bool) list \<Rightarrow> stack_valves \<Rightarrow>
     err + (string, ofmsg list) dict \<times> stack_valves" where
  "stack_learn_host_from_pkt E self now pkt other_valves vs =
     bindE (dict_getE vs self) (\<lambda>k.
     bindE (dict_getE (sm_ports (kv_switch k)) (kp_port pkt)) (\<lambda>p.
     bindE (dict_getE (sm_vlans (kv_switch k)) (kp_vid pkt)) (\<lambda>v.
     let route_learning = st_route_learning (nt_stack (se_net E) self);
         others = stacked_valves (se_net E) other_valves;
         all_valves = List.insert self others;
         faucet_macs = v_faucet_mac v # map (\<lambda>d. case dict_get vs d of None \<Rightarrow> [] | Some k \<Rightarrow> kv_faucet_dp_mac k) all_valves;
         left_to_neighbour =
           (case p_stack p of
              None \<Rightarrow> False
            | Some peer \<Rightarrow> valve_running vs (sp_dp peer) \<and> lib_mac_text (se_lib E) (kp_eth_src pkt) \<notin> set faucet_macs)
     in if route_learning \<and> left_to_neighbour then Inr ([], vs)
        else
          bindE (if route_learning then foldE (learn_on_other E self now pkt all_valves) others ([], vs) else Inr ([], vs))
            (\<lambda>(by_valve, vs).
          bindE (valve_learn_host_from_pkt E self now self pkt others vs) (\<lambda>(ms, vs).
          Inr (dict_set self ms by_valve, vs))))))"

end
