(* ===== verification/StackFlood.thy ===== *)
theory StackFlood imports StackSwitch begin

text \<open>
  Where the broadcasts of a stack with reflection go. The copies of a packet are steps of a relation; what the
  argument needs of that relation is the locale \<open>reflected_flood\<close>, which the flood rules of \<open>StackSwitch\<close> and
  the pruning of \<open>StackManager\<close> satisfy.
\<close>

section \<open>Flooding up to the root and down a tree\<close>

text \<open>
  A state is a copy of a packet at a node. A copy that has not come down from the root goes on to the parent of its
  node; from the root, and from a copy that came down, there is one copy for each child.
\<close>

locale reflected_flood =
  fixes hop :: "'s \<Rightarrow> 's \<Rightarrow> bool" and node :: "'s \<Rightarrow> 'n" and parent :: "'n \<Rightarrow> 'n option" and rt :: 'n
    and ok :: "'s \<Rightarrow> bool" and down :: "'s \<Rightarrow> bool"
  assumes up_hop: "ok x \<Longrightarrow> \<not> down x \<Longrightarrow> node x \<noteq> rt \<Longrightarrow> \<exists>!y. hop x y"
    and up_step: "ok x \<Longrightarrow> \<not> down x \<Longrightarrow> node x \<noteq> rt \<Longrightarrow> hop x y \<Longrightarrow> ok y \<and> \<not> down y \<and> parent (node x) = Some (node y)"
    and down_step: "ok x \<Longrightarrow> down x \<or> node x = rt \<Longrightarrow> hop x y \<Longrightarrow> ok y \<and> down y \<and> node y \<noteq> rt \<and> parent (node y) = Some (node x)"
    and down_hop: "ok x \<Longrightarrow> down x \<or> node x = rt \<Longrightarrow> parent v = Some (node x) \<Longrightarrow> \<exists>!y. hop x y \<and> node y = v"
begin

lemma stays_down:
  assumes "walk hop (x # q)" and "ok x" and "down x \<or> node x = rt" and "y \<in> set q"
  shows "ok y \<and> down y \<and> node y \<noteq> rt"
  using assms
proof (induction q arbitrary: x)
  case Nil
  then show ?case by simp
next
  case (Cons z q)
  from Cons.prems(1) have h: "hop x z" and w: "walk hop (z # q)" by simp_all
  note z = down_step [OF Cons.prems(2,3) h]
  show ?case
  proof (cases "y = z")
    case True
    with z show ?thesis by simp
  next
    case False
    with Cons.prems(4) have "y \<in> set q" by simp
    then show ?thesis using Cons.IH [OF w] z by blast
  qed
qed

lemma all_ok:
  assumes "walk hop (x # q)" and "ok x" and "y \<in> set (x # q)"
  shows "ok y"
  using assms
proof (induction q arbitrary: x)
  case Nil
  then show ?case by simp
next
  case (Cons z q)
  from Cons.prems(1) have h: "hop x z" and w: "walk hop (z # q)" by simp_all
  have "ok z" using up_step [OF Cons.prems(2) _ _ h] down_step [OF Cons.prems(2) _ h] by blast
  with Cons.IH [OF w] Cons.prems(2,3) show ?case by auto
qed

text \<open>The way up.\<close>

lemma up_run:
  assumes "is_path (\<lambda>u v. parent u = Some v) (node x) rt p" and "ok x" and "\<not> down x"
  shows "\<exists>q. walk hop (x # q) \<and> node (last (x # q)) = rt"
  using assms
proof (induction p arbitrary: x)
  case Nil
  then show ?case by (simp add: is_path_def)
next
  case (Cons u p)
  show ?case
  proof (cases "node x = rt")
    case True
    then show ?thesis by (intro exI [of _ "[]"]) simp
  next
    case False
    with Cons.prems(1) obtain v p' where p: "p = v # p'" and v: "parent (node x) = Some v"
      and path: "is_path (\<lambda>u v. parent u = Some v) v rt p"
      by (cases p) (auto simp: is_path_def)
    from up_hop [OF Cons.prems(2,3) False] obtain y where y: "hop x y" by blast
    note s = up_step [OF Cons.prems(2,3) False y]
    with v have "node y = v" by simp
    with Cons.IH [of y] path s obtain q where "walk hop (y # q)" "node (last (y # q)) = rt" by auto
    with y show ?thesis by (intro exI [of _ "y # q"]) simp
  qed
qed

lemma up_unique:
  assumes "walk hop (x # q)" and "walk hop (x # q')" and "ok x" and "\<not> down x"
    and "node (last (x # q)) = rt" and "node (last (x # q')) = rt"
  shows "q = q'"
  using assms
proof (induction q arbitrary: x q')
  case Nil
  then have rt: "node x = rt" by simp
  show ?case
  proof (rule ccontr)
    assume "[] \<noteq> q'"
    then have l: "last (x # q') = last q'" "last q' \<in> set q'" by auto
    from stays_down [OF Nil.prems(2,3) disjI2 [OF rt] l(2)] Nil.prems(6) l(1) show False by simp
  qed
next
  case (Cons y q)
  have n: "node x \<noteq> rt"
  proof
    assume rt: "node x = rt"
    have "last (x # y # q) \<in> set (y # q)" by simp
    from stays_down [OF Cons.prems(1,3) disjI2 [OF rt] this] Cons.prems(5) show False by simp
  qed
  then have "q' \<noteq> []" using Cons.prems(6) by auto
  then obtain y' r where q': "q' = y' # r" by (cases q') auto
  have h: "hop x y" "hop x y'" using Cons.prems(1,2) q' by simp_all
  with up_hop [OF Cons.prems(3,4) n] have y: "y' = y" by blast
  note s = up_step [OF Cons.prems(3,4) n h(1)]
  have "q = r" by (rule Cons.IH [of y]) (use Cons.prems s q' y in simp_all)
  with q' y show ?case by simp
qed

text \<open>The way down.\<close>

lemma down_run:
  assumes "is_path (\<lambda>u v. parent v = Some u) (node x) d p" and "ok x" and "down x \<or> node x = rt"
  shows "\<exists>q. walk hop (x # q) \<and> node (last (x # q)) = d"
  using assms
proof (induction p arbitrary: x)
  case Nil
  then show ?case by (simp add: is_path_def)
next
  case (Cons u p)
  show ?case
  proof (cases p)
    case Nil
    with Cons.prems(1) have "node x = d" by auto
    then show ?thesis by (intro exI [of _ "[]"]) simp
  next
    case (Cons v p')
    with Cons.prems(1) have v: "parent v = Some (node x)" and path: "is_path (\<lambda>u v. parent v = Some u) v d p"
      by (auto simp: is_path_def)
    from down_hop [OF Cons.prems(2,3) v] obtain y where y: "hop x y" "node y = v" by blast
    note s = down_step [OF Cons.prems(2,3) y(1)]
    with Cons.IH [of y] path y(2) obtain q where "walk hop (y # q)" "node (last (y # q)) = d" by auto
    with y show ?thesis by (intro exI [of _ "y # q"]) simp
  qed
qed

lemma down_unique:
  assumes "ok x" and "\<not> down x" and "walk hop (x # q)" and "down (last (x # q))"
    and "walk hop (x # q')" and "down (last (x # q'))" and "node (last (x # q)) = node (last (x # q'))"
  shows "q = q'"
  using assms(3-7)
proof (induction q arbitrary: q' rule: rev_induct)
  case Nil
  then show ?case using assms(2) by simp
next
  case (snoc y q)
  from snoc.prems(4) assms(2) have "q' \<noteq> []" by auto
  then obtain r y' where q': "q' = r @ [y']" by (metis append_butlast_last_id)
  let ?z = "last (x # q)" and ?z' = "last (x # r)"
  have w: "walk hop (x # q)" "hop ?z y" "walk hop (x # r)" "hop ?z' y'"
    using snoc.prems(1,3) q' walk_append [of "x # q" "[y]" hop] walk_append [of "x # r" "[y']" hop] by simp_all
  have okz: "ok ?z" "ok ?z'" using all_ok [OF w(1) assms(1)] all_ok [OF w(3) assms(1)] last_in_set by blast+
  have dz: "down ?z \<or> node ?z = rt" using up_step [OF okz(1) _ _ w(2)] snoc.prems(2) by (metis append_Cons last_snoc)
  have dz': "down ?z' \<or> node ?z' = rt" using up_step [OF okz(2) _ _ w(4)] snoc.prems(4) q' by (metis append_Cons last_snoc)
  have n: "node ?z = node ?z'"
    using down_step [OF okz(1) dz w(2)] down_step [OF okz(2) dz' w(4)] snoc.prems(5) q' by simp
  have "q = r"
  proof (cases "node ?z = rt")
    case True
    then show ?thesis using up_unique [OF w(1,3) assms(1,2)] n by simp
  next
    case False
    then show ?thesis using snoc.IH [OF w(1) _ w(3)] dz dz' n by simp
  qed
  moreover have "y = y'"
    using down_hop [OF okz(1) dz, of "node y"] down_step [OF okz(1) dz w(2)] w(2,4) snoc.prems(5) q' \<open>q = r\<close> by auto
  ultimately show ?case using q' by simp
qed

text \<open>The root gets one copy, and every other node one from above.\<close>

lemma one_from_above:
  assumes "ok x" and "\<not> down x" and "walk hop (x # q)" and "node (last (x # q)) = rt"
    and "is_path (\<lambda>u v. parent v = Some u) rt d p" and "d \<noteq> rt"
  shows "\<exists>!q. walk hop (x # q) \<and> node (last (x # q)) = d \<and> down (last (x # q))"
proof -
  let ?y = "last (x # q)"
  have y: "ok ?y" using all_ok [OF assms(3,1)] last_in_set by blast
  from down_run [of ?y d p] assms(4,5) y obtain r where r: "walk hop (?y # r)" "node (last (?y # r)) = d" by auto
  have "r \<noteq> []" using r(2) assms(4,6) by auto
  then have "last (?y # r) \<in> set r" by simp
  from stays_down [OF r(1) y disjI2 [OF assms(4)] this] have "down (last (?y # r))" by blast
  moreover have "walk hop (x # q @ r)"
  proof -
    have "hop ?y (hd r)" "walk hop r" using r(1) \<open>r \<noteq> []\<close> by (cases r; simp)+
    with assms(3) \<open>r \<noteq> []\<close> show ?thesis using walk_append [of "x # q" r hop] by simp
  qed
  moreover have "last (x # q @ r) = last (?y # r)" using \<open>r \<noteq> []\<close> by simp
  ultimately have ex: "walk hop (x # q @ r) \<and> node (last (x # q @ r)) = d \<and> down (last (x # q @ r))" using r(2) by simp
  show ?thesis
  proof (intro ex1I)
    show "walk hop (x # q @ r) \<and> node (last (x # q @ r)) = d \<and> down (last (x # q @ r))" by (rule ex)
    fix q' assume "walk hop (x # q') \<and> node (last (x # q')) = d \<and> down (last (x # q'))"
    with ex show "q' = q @ r" by (intro down_unique [OF assms(1,2)]) simp_all
  qed
qed

lemma one_copy:
  assumes "ok x" and "\<not> down x" and "is_path (\<lambda>u v. parent u = Some v) (node x) rt p"
    and "is_path (\<lambda>u v. parent v = Some u) rt d p'"
  shows "\<exists>!q. walk hop (x # q) \<and> node (last (x # q)) = d \<and> (down (last (x # q)) \<or> node (last (x # q)) = rt)"
proof -
  from up_run [OF assms(3,1,2)] obtain q where q: "walk hop (x # q)" "node (last (x # q)) = rt" by blast
  show ?thesis
  proof (cases "d = rt")
    case True
    with q have "walk hop (x # q) \<and> node (last (x # q)) = d \<and> (down (last (x # q)) \<or> node (last (x # q)) = rt)" by simp
    then show ?thesis by (rule ex1I) (use up_unique [OF _ q(1) assms(1,2) _ q(2)] True in blast)
  next
    case False
    with one_from_above [OF assms(1,2) q assms(4)] show ?thesis by (metis (mono_tags, lifting))
  qed
qed

end

section \<open>The copies of a broadcast in a stack\<close>

text \<open>
  A stack, its VLAN on every datapath, the datapath and the port a packet comes in on, and the options of the flood
  rule. A copy of the packet is at a datapath, on the port it came in on there: none for the port of the host.
\<close>

record 'g stack_flood =
  sf_nx :: "'g nx"
  sf_net :: "'g stack_net"
  sf_dps :: "string set"
  sf_graph :: 'g
  sf_root :: string
  sf_lib :: lib
  sf_switch :: "string \<Rightarrow> switch_mgr"
  sf_flags :: "string \<Rightarrow> stack_switch"
  sf_distances :: "string \<Rightarrow> distances"
  sf_vlan :: "string \<Rightarrow> vlan"
  sf_source :: string
  sf_host :: "port option"
  sf_unicast :: bool
  sf_external :: bool
  sf_restricted :: bool

type_synonym copy = "string \<times> int option"

definition stack_nums :: "'g stack_flood \<Rightarrow> string \<Rightarrow> int set" where
  "stack_nums F d = fst ` set (st_ports (nt_stack (sf_net F) d))"

definition sf_node :: "'g stack_flood \<Rightarrow> string \<Rightarrow> 'g stack_node" where
  "sf_node F d = \<lparr>sn_net = sf_net F, sn_stack = nt_stack (sf_net F) d, sn_distances = sf_distances F d\<rparr>"

definition sf_arrival :: "'g stack_flood \<Rightarrow> copy \<Rightarrow> port option" where
  "sf_arrival F x = (case snd x of None \<Rightarrow> sf_host F | Some n \<Rightarrow> Some (nt_port (sf_net F) (fst x) n))"

definition arrived_on :: "(int \<Rightarrow> bool) \<Rightarrow> port option \<Rightarrow> bool" where
  "arrived_on P in_port \<longleftrightarrow> (case in_port of None \<Rightarrow> False | Some p \<Rightarrow> P (p_number p))"

definition sf_acts :: "'g stack_flood \<Rightarrow> copy \<Rightarrow> err + action list" where
  "sf_acts F x =
     stack_flood_rule_actions True (sf_lib F) (sf_flags F (fst x)) (sf_node F (fst x)) (sf_vlan F (fst x)) (sf_unicast F)
       (sf_arrival F x) (sf_external F) (sf_restricted F)"

text \<open>A copy goes out on a stack port when the actions say so; it is taken at the other end unless that port is pruned.\<close>

definition sf_sends :: "'g stack_flood \<Rightarrow> copy \<Rightarrow> stack_port \<Rightarrow> bool" where
  "sf_sends F x p \<longleftrightarrow>
     p \<in> set (st_ports (nt_stack (sf_net F) (fst x))) \<and>
     (\<exists>acts. sf_acts F x = Inr acts \<and>
        (output_port (fst p) \<in> set acts \<or> snd x = Some (fst p) \<and> output_in_port (lib_ofp (sf_lib F)) \<in> set acts))"

definition sf_hop :: "'g stack_flood \<Rightarrow> copy \<Rightarrow> copy \<Rightarrow> bool" where
  "sf_hop F x y \<longleftrightarrow>
     (\<exists>p. sf_sends F x p \<and> \<not> is_pruned_port (sf_distances F (peer_dp p)) (peer_no p) \<and> y = (peer_dp p, Some (peer_no p)))"

definition sf_down :: "'g stack_flood \<Rightarrow> copy \<Rightarrow> bool" where
  "sf_down F x \<longleftrightarrow> (\<exists>n. snd x = Some n \<and> is_towards_root (sf_distances F (fst x)) n)"

text \<open>
  The stack is consistent and connected, its ports are used for nothing else, and the rules of the VLAN can be composed.
\<close>

definition plain_stack_port :: "'g stack_flood \<Rightarrow> string \<Rightarrow> int \<Rightarrow> bool" where
  "plain_stack_port F d n \<longleftrightarrow>
     p_number (nt_port (sf_net F) d n) = n \<and> p_mirror (nt_port (sf_net F) d n) = None \<and>
     \<not> p_hairpin (nt_port (sf_net F) d n) \<and> n \<noteq> OFPP_IN_PORT (lib_ofp (sf_lib F))"

definition vlan_apart :: "'g stack_flood \<Rightarrow> string \<Rightarrow> bool" where
  "vlan_apart F d \<longleftrightarrow>
     (let special = insert (OFPP_IN_PORT (lib_ofp (sf_lib F))) (stack_nums F d)
      in \<forall>p \<in> set (get_ports (sf_vlan F d)). p_number p \<notin> special \<and> mirrors p \<inter> special = {})"

definition flood_ready :: "'g stack_flood \<Rightarrow> bool" where
  "flood_ready F \<longleftrightarrow>
     multigraph (sf_nx F) \<and> stack_consistent (sf_nx F) (sf_net F) (sf_dps F) (sf_graph F) (sf_root F) \<and>
     (\<forall>d \<in> sf_dps F.
        dp_path (sf_nx F) (sf_net F) d \<noteq> [] \<and> distances_of (sf_nx F) (sf_net F) d (sf_distances F d) \<and>
        (\<forall>n \<in> stack_nums F d. plain_stack_port F d n) \<and> vlan_apart F d \<and> distinct (map p_number (get_ports (sf_vlan F d))) \<and>
        new_stack_switch (sf_lib F) (sf_switch F d) (nt_stack (sf_net F) d) = Inr (sf_flags F d)) \<and>
     sf_source F \<in> sf_dps F \<and> (\<forall>p. sf_host F = Some p \<longrightarrow> p_stack p = None \<and> p_number p \<notin> stack_nums F (sf_source F))"

definition sf_ok :: "'g stack_flood \<Rightarrow> copy \<Rightarrow> bool" where
  "sf_ok F x \<longleftrightarrow>
     flood_ready F \<and> fst x \<in> sf_dps F \<and>
     (case snd x of
        None \<Rightarrow> fst x = sf_source F
      | Some n \<Rightarrow> n \<in> stack_nums F (fst x) \<and> \<not> is_pruned_port (sf_distances F (fst x)) n)"

lemma flood_readyD:
  assumes "flood_ready F"
  shows "multigraph (sf_nx F)" and "stack_consistent (sf_nx F) (sf_net F) (sf_dps F) (sf_graph F) (sf_root F)"
    and "d \<in> sf_dps F \<Longrightarrow> dp_path (sf_nx F) (sf_net F) d \<noteq> []"
    and "d \<in> sf_dps F \<Longrightarrow> distances_of (sf_nx F) (sf_net F) d (sf_distances F d)"
    and "d \<in> sf_dps F \<Longrightarrow> n \<in> stack_nums F d \<Longrightarrow> plain_stack_port F d n"
    and "d \<in> sf_dps F \<Longrightarrow> vlan_apart F d" and "d \<in> sf_dps F \<Longrightarrow> distinct (map p_number (get_ports (sf_vlan F d)))"
    and "d \<in> sf_dps F \<Longrightarrow> new_stack_switch (sf_lib F) (sf_switch F d) (nt_stack (sf_net F) d) = Inr (sf_flags F d)"
    and "sf_source F \<in> sf_dps F" and "sf_host F = Some p \<Longrightarrow> p_stack p = None"
    and "sf_host F = Some p \<Longrightarrow> p_number p \<notin> stack_nums F (sf_source F)"
  using assms unfolding flood_ready_def by blast+

text \<open>The port a copy came in on, as the code sees it.\<close>

lemma stack_port_peer:
  assumes "stack_consistent N net D g r" and "d \<in> D" and "p \<in> set (st_ports (nt_stack net d))"
  shows "p_stack (nt_port net d (fst p)) = Some (snd p)"
proof -
  from stack_consistent_port(1,3) [OF assms] obtain q where q: "q \<in> set (st_ports (nt_stack net (peer_dp p)))"
    "fst q = peer_no p" "peer_dp q = d" "peer_no q = fst p" and D: "peer_dp p \<in> D" by blast
  from stack_consistent_port(3) [OF assms(1) D q(1)] obtain p' where p': "p' \<in> set (st_ports (nt_stack net d))" "fst p' = fst p"
    "p_stack (peer_port net q) = Some (snd p')" by (auto simp: q)
  then have "p' = p" using inj_onD [OF stack_consistentD(5) [OF assms(1,2)]] assms(3) by metis
  with p'(3) show ?thesis by (simp add: peer_port_def q)
qed

lemma arrival_number:
  assumes "sf_ok F x"
  shows "n \<in> stack_nums F (fst x) \<Longrightarrow> map_option p_number (sf_arrival F x) = Some n \<longleftrightarrow> snd x = Some n"
    and "snd x = Some n \<Longrightarrow> n \<in> stack_nums F (fst x)"
    and "sf_arrival F x = Some p \<Longrightarrow> p_number p \<in> stack_nums F (fst x) \<Longrightarrow> \<not> p_hairpin p \<and> snd x = Some (p_number p)"
proof -
  from assms have r: "flood_ready F" and d: "fst x \<in> sf_dps F" by (simp_all add: sf_ok_def)
  have plain: "plain_stack_port F (fst x) n" if "snd x = Some n" for n
    using flood_readyD(5) [OF r d] assms that by (simp add: sf_ok_def)
  show 1: "snd x = Some n \<Longrightarrow> n \<in> stack_nums F (fst x)" using assms by (simp add: sf_ok_def)
  show 2: "sf_arrival F x = Some p \<Longrightarrow> p_number p \<in> stack_nums F (fst x) \<Longrightarrow> \<not> p_hairpin p \<and> snd x = Some (p_number p)" for p
    using assms plain flood_readyD(11) [OF r] by (cases "snd x") (auto simp: sf_ok_def sf_arrival_def plain_stack_port_def)
  show "n \<in> stack_nums F (fst x) \<Longrightarrow> map_option p_number (sf_arrival F x) = Some n \<longleftrightarrow> snd x = Some n"
    using plain [of n] 2 by (auto simp: sf_arrival_def plain_stack_port_def)
qed

subsection \<open>What the actions output\<close>

lemma finite_flood_targets: "finite (flood_targets K in_port ex p)"
proof -
  have "finite (mirrors p)" unfolding mirrors_def by (rule finite_set)
  then show ?thesis by (cases in_port) (simp_all add: flood_targets_def)
qed

lemma output_in_tagged:
  assumes "flood_tagged_port_outputs K ports in_port ex = Inr acts"
  shows "output_port n \<in> set acts \<longleftrightarrow> (\<exists>p \<in> set ports. n \<in> flood_targets K in_port ex p)"
proof -
  have fin: "finite (\<Union>p \<in> set ports. flood_targets K in_port ex p)" using finite_flood_targets by blast
  from assms have "acts = outputs_to (sorted_list_of_set (\<Union>p \<in> set ports. flood_targets K in_port ex p))"
    by (simp add: flood_tagged_result)
  with fin show ?thesis by simp
qed

text \<open>Among the ports of a stack: those that are not left out, and not the one the packet came in on.\<close>

lemma output_to_stack_ports:
  assumes "\<forall>p \<in> set ps \<union> set ex. plain_stack_port F d (fst p)"
    and "\<And>i. in_port = Some i \<Longrightarrow> p_number i \<in> fst ` set ps \<Longrightarrow> \<not> p_hairpin i"
    and "st_name (nt_stack (sf_net F) d) = d"
    and "flood_tagged_port_outputs (lib_ofp (sf_lib F)) (node_ports (sf_node F d) ps) in_port (node_ports (sf_node F d) ex) = Inr acts"
  shows "output_port m \<in> set acts \<longleftrightarrow> m \<in> fst ` set ps \<and> map_option p_number in_port \<noteq> Some m \<and> m \<notin> fst ` set ex"
proof -
  let ?own = "own_port (sf_net F) (nt_stack (sf_net F) d)"
  have num: "p_number (?own p) = fst p" "mirrors (?own p) = {}" if "p \<in> set ps \<union> set ex" for p
    using assms(1,3) that by (simp_all add: own_port_def plain_stack_port_def mirrors_def)
  have ex: "port_in (?own p) (node_ports (sf_node F d) ex) \<longleftrightarrow> fst p \<in> fst ` set ex" if "p \<in> set ps" for p
    using num that by (auto simp: port_in_def port_eq_def node_ports_def sf_node_def list_ex_iff image_iff)
  have "m \<in> flood_targets (lib_ofp (sf_lib F)) in_port (node_ports (sf_node F d) ex) (?own p) \<longleftrightarrow>
      m = fst p \<and> map_option p_number in_port \<noteq> Some m \<and> m \<notin> fst ` set ex" if p: "p \<in> set ps" for p
  proof (cases "map_option p_number in_port = Some (fst p)")
    case True
    then obtain i where i: "in_port = Some i" "p_number i = fst p" by auto
    then have "\<not> p_hairpin i" using assms(2) p by (metis image_eqI)
    with i num(1) [of p] p show ?thesis by (auto simp: flood_targets_def port_eq_def)
  next
    case False
    then have "in_port = Some i \<Longrightarrow> fst p \<noteq> p_number i" for i by auto
    then have "flood_targets (lib_ofp (sf_lib F)) in_port (node_ports (sf_node F d) ex) (?own p) =
        (if fst p \<in> fst ` set ex then {} else {fst p})"
      unfolding flood_targets_def port_eq_def ex [OF p] num [OF UnI1 [OF p]] by (simp split: option.split)
    with False show ?thesis by (metis empty_iff singleton_iff)
  qed
  then show ?thesis unfolding output_in_tagged [OF assms(4)] by (auto simp: node_ports_def sf_node_def)
qed

text \<open>The actions for the VLAN's own ports do not output to the stack, nor back to it.\<close>

lemma local_acts_apart:
  assumes "vlan_apart F d" and "OFPP_IN_PORT (lib_ofp (sf_lib F)) \<notin> stack_nums F d"
    and "build_flood_local_rule_actions (sf_lib F) (sf_vlan F d) u in_port e r = Inr acts"
  shows "m \<in> stack_nums F d \<Longrightarrow> output_port m \<notin> set acts"
    and "in_port = Some i \<Longrightarrow> p_number i \<in> stack_nums F d \<Longrightarrow> output_in_port (lib_ofp (sf_lib F)) \<notin> set acts"
proof -
  let ?K = "lib_ofp (sf_lib F)" and ?v = "sf_vlan F d"
  from assms(3) obtain ex where
    out: "flood_port_outputs ?K (tagged_flood_ports u ?v) (untagged_flood_ports u ?v) in_port ex = Inr acts"
    by (auto simp: build_flood_local_rule_actions_def bindE_Inr)
  have ports: "set (tagged_flood_ports u ?v @ untagged_flood_ports u ?v) \<subseteq> set (get_ports ?v)"
    by (auto simp: tagged_flood_ports_def untagged_flood_ports_def flood_ports_def get_ports_def)
  have apart: "p_number p \<noteq> m \<and> m \<notin> mirrors p" if "p \<in> set (get_ports ?v)" "m \<in> insert (OFPP_IN_PORT ?K) (stack_nums F d)" for p m
    using assms(1) that by (auto simp: vlan_apart_def Let_def)
  show "output_port m \<notin> set acts" if m: "m \<in> stack_nums F d"
    using output_in_flood [OF out, of m] ports apart [of _ m] m assms(2) by (force simp: flood_targets_def split: if_splits option.splits)
  show "output_in_port ?K \<notin> set acts" if i: "in_port = Some i" "p_number i \<in> stack_nums F d"
    using output_in_flood [OF out, of "OFPP_IN_PORT ?K"] ports apart [of _ "OFPP_IN_PORT ?K"] apart [of _ "p_number i"] i
    unfolding output_in_port_def by (force simp: flood_targets_def port_eq_def split: if_splits)
qed

lemma local_acts_total:
  assumes "distinct (map p_number (get_ports v))"
  shows "\<exists>acts. build_flood_local_rule_actions L v u in_port e r = Inr acts"
proof -
  from excluded_lag_total [OF assms] obtain ex where "excluded_lag_ports in_port v = Inr ex" by blast
  with flood_port_outputs_result show ?thesis by (fastforce simp: build_flood_local_rule_actions_def flood_exclude_ports_def Let_def)
qed

lemma flags_no_output:
  assumes "new_stack_switch L sm s = Inr ss"
  shows "output_port n \<notin> set (ss_set_ext_port_flag ss)" and "output_port n \<notin> set (ss_set_nonext_port_flag ss)"
  using assms by (auto simp: new_stack_switch_def bindE_Inr set_external_def set_external_forwarding_requested_def
      set_no_external_forwarding_requested_def vt_set_field_def set_field_def output_port_def output_port_len_def split: if_splits)

subsection \<open>Where a copy goes out\<close>

lemma root_actions:
  "root_flood_actions K ss ds in_port external_ports away toward local_acts =
    (if external_ports \<noteq> [] then ss_set_nonext_port_flag ss else ss_set_ext_port_flag ss) @
    (if arrived_on (is_away ds) in_port then away @ [output_in_port K] @ local_acts else away @ local_acts)"
  by (cases in_port) (simp_all add: root_flood_actions_def arrived_on_def)

lemma nonroot_actions_up:
  assumes "\<not> arrived_on (is_towards_root ds) in_port"
  shows "\<exists>prefix \<in> {[], ss_set_ext_port_flag ss, ss_set_nonext_port_flag ss}.
    nonroot_flood_actions ss ds in_port external_ports away toward local_acts = prefix @ toward"
  using assms by (cases in_port) (auto simp: nonroot_flood_actions_def arrived_on_def)

lemma nonroot_actions_down:
  assumes "arrived_on (is_towards_root ds) in_port" and "\<not> arrived_on (is_away ds) in_port"
  shows "nonroot_flood_actions ss ds in_port external_ports away toward local_acts =
    (if external_ports \<noteq> [] then ss_set_nonext_port_flag ss @ away @ local_acts
     else away @ ss_set_nonext_port_flag ss @ local_acts)"
  using assms by (cases in_port) (auto simp: nonroot_flood_actions_def arrived_on_def)

lemma distance_ports:
  assumes "stack_consistent N net D g r" and "d \<in> D" and "distances_of N net d ds"
  shows "set (ds_away_ports ds) \<subseteq> set (st_ports (nt_stack net d))" and "set (ds_chosen_towards_ports ds) \<subseteq> set (st_ports (nt_stack net d))"
    and "set (ds_inactive_away_ports ds) \<subseteq> set (st_ports (nt_stack net d))"
    and "is_away ds n \<Longrightarrow> \<not> is_towards_root ds n"
  using distances_of_fields [OF assms(3)] stack_consistentD(1) [OF assms(1,2)]
  by (auto simp: away_ports_def chosen_ports_def towards_ports_def inactive_ports_def set_all_peer_ports Let_def is_away_def
      is_towards_root_def has_port_def split: if_splits)

lemma excluded_ports:
  assumes "flood_ready F" and "d \<in> sf_dps F"
  shows "set (stack_exclude_ports (sf_node F d) in_port) \<subseteq> set (st_ports (nt_stack (sf_net F) d))"
  using distance_ports(3) [OF flood_readyD(2) [OF assms(1)] assms(2) flood_readyD(4) [OF assms]]
  by (auto simp: stack_exclude_ports_def sf_node_def adjacent_stack_ports_def split: option.splits)

lemma copy_acts:
  assumes "sf_ok F x"
  obtains away toward local_acts where
    "sf_acts F x = Inr (reflection_flood_actions (lib_ofp (sf_lib F)) (sf_flags F (fst x)) (sf_node F (fst x)) (sf_arrival F x)
       (loop_protect_external_ports (sf_vlan F (fst x))) away toward local_acts)"
    and "\<And>m. output_port m \<in> set away \<longleftrightarrow> m \<in> fst ` set (ds_away_ports (sf_distances F (fst x))) \<and> Some m \<noteq> snd x \<and>
       m \<notin> fst ` set (stack_exclude_ports (sf_node F (fst x)) (sf_arrival F x))"
    and "\<And>m. output_port m \<in> set toward \<longleftrightarrow> m \<in> fst ` set (ds_chosen_towards_ports (sf_distances F (fst x))) \<and> Some m \<noteq> snd x"
    and "\<And>m. m \<in> stack_nums F (fst x) \<Longrightarrow> output_port m \<notin> set local_acts"
    and "snd x \<noteq> None \<Longrightarrow> output_in_port (lib_ofp (sf_lib F)) \<notin> set local_acts"
    and "build_flood_local_rule_actions (sf_lib F) (sf_vlan F (fst x)) (sf_unicast F) (sf_arrival F x) (sf_external F) (sf_restricted F) =
      Inr local_acts"
proof -
  let ?d = "fst x" and ?K = "lib_ofp (sf_lib F)" and ?i = "sf_arrival F x"
  let ?ds = "sf_distances F ?d" and ?n = "sf_node F ?d"
  from assms have r: "flood_ready F" and d: "?d \<in> sf_dps F" by (simp_all add: sf_ok_def)
  note con = flood_readyD(2) [OF r]
  note sub = distance_ports [OF con d flood_readyD(4) [OF r d]]
  have plain: "plain_stack_port F ?d (fst p)" if "p \<in> set (st_ports (nt_stack (sf_net F) ?d))" for p
    using flood_readyD(5) [OF r d] that by (simp add: stack_nums_def)
  note name = stack_consistentD(1) [OF con d]
  note num = arrival_number [OF assms]
  have hair: "\<not> p_hairpin i" if "set ps \<subseteq> set (st_ports (nt_stack (sf_net F) ?d))" "?i = Some i" "p_number i \<in> fst ` set ps" for ps i
    using num(3) [OF that(2)] that(1,3) image_mono unfolding stack_nums_def by blast
  have not_in: "map_option p_number ?i \<noteq> Some m \<longleftrightarrow> Some m \<noteq> snd x"
    if "m \<in> fst ` set ps" "set ps \<subseteq> set (st_ports (nt_stack (sf_net F) ?d))" for m ps
  proof -
    have "m \<in> stack_nums F ?d" using that image_mono unfolding stack_nums_def by blast
    then show ?thesis using num(1) by auto
  qed
  from local_acts_total [OF flood_readyD(7) [OF r d]] obtain local_acts where
    l: "build_flood_local_rule_actions (sf_lib F) (sf_vlan F ?d) (sf_unicast F) ?i (sf_external F) (sf_restricted F) = Inr local_acts"
    by blast
  obtain away where a: "flood_tagged_port_outputs ?K (node_ports ?n (ds_away_ports ?ds)) ?i
      (node_ports ?n (stack_exclude_ports ?n ?i)) = Inr away" by (simp add: flood_tagged_result)
  obtain toward where t: "flood_tagged_port_outputs ?K (node_ports ?n (ds_chosen_towards_ports ?ds)) ?i (node_ports ?n []) = Inr toward"
    by (simp add: flood_tagged_result)
  show thesis
  proof (rule that [OF _ _ _ _ _ l])
    show "sf_acts F x = Inr (reflection_flood_actions ?K (sf_flags F ?d) ?n ?i (loop_protect_external_ports (sf_vlan F ?d))
        away toward local_acts)"
      using l a t by (simp add: sf_acts_def stack_flood_rule_actions_def Let_def stack_flood_actions_def sf_node_def node_ports_def)
    have pl: "\<forall>p \<in> set (ds_away_ports ?ds) \<union> set (stack_exclude_ports ?n ?i). plain_stack_port F ?d (fst p)"
      using sub(1) excluded_ports [OF r d] plain by blast
    show "output_port m \<in> set away \<longleftrightarrow> m \<in> fst ` set (ds_away_ports ?ds) \<and> Some m \<noteq> snd x \<and>
        m \<notin> fst ` set (stack_exclude_ports ?n ?i)" for m
      using output_to_stack_ports [OF pl hair [OF sub(1)] name a, of m] not_in [OF _ sub(1)] by blast
    have pl: "\<forall>p \<in> set (ds_chosen_towards_ports ?ds) \<union> set []. plain_stack_port F ?d (fst p)" using sub(2) plain by auto
    show "output_port m \<in> set toward \<longleftrightarrow> m \<in> fst ` set (ds_chosen_towards_ports ?ds) \<and> Some m \<noteq> snd x" for m
      using output_to_stack_ports [OF pl hair [OF sub(2)] name t, of m] not_in [OF _ sub(2), of m] by auto
    have "OFPP_IN_PORT ?K \<notin> stack_nums F ?d" using flood_readyD(5) [OF r d] by (auto simp: plain_stack_port_def)
    note la = local_acts_apart [OF flood_readyD(6) [OF r d] this l]
    show "m \<in> stack_nums F ?d \<Longrightarrow> output_port m \<notin> set local_acts" for m by (rule la(1))
    show "snd x \<noteq> None \<Longrightarrow> output_in_port ?K \<notin> set local_acts"
      using la(2) num(1,2) by (metis map_option_eq_Some not_None_eq)
  qed
qed

lemma arrival_iff:
  assumes "sf_ok F x" and "\<And>m. P m \<Longrightarrow> m \<in> stack_nums F (fst x)"
  shows "arrived_on P (sf_arrival F x) \<longleftrightarrow> (\<exists>n. snd x = Some n \<and> P n)"
proof
  assume "arrived_on P (sf_arrival F x)"
  then obtain p where p: "sf_arrival F x = Some p" "P (p_number p)" by (auto simp: arrived_on_def split: option.splits)
  then show "\<exists>n. snd x = Some n \<and> P n" using arrival_number(3) [OF assms(1) p(1) assms(2)] by blast
next
  assume "\<exists>n. snd x = Some n \<and> P n"
  then obtain n where n: "snd x = Some n" "P n" by blast
  with arrival_number(1) [OF assms(1) assms(2)] have "map_option p_number (sf_arrival F x) = Some n" by blast
  with n(2) show "arrived_on P (sf_arrival F x)" by (auto simp: arrived_on_def)
qed

lemma copy_state:
  assumes "sf_ok F x"
  shows "arrived_on (is_away (sf_distances F (fst x))) (sf_arrival F x) \<longleftrightarrow> (\<exists>n. snd x = Some n \<and> is_away (sf_distances F (fst x)) n)"
    and "arrived_on (is_towards_root (sf_distances F (fst x))) (sf_arrival F x) \<longleftrightarrow> sf_down F x"
    and "snd x = Some n \<Longrightarrow> \<not> sf_down F x \<Longrightarrow> is_away (sf_distances F (fst x)) n"
proof -
  from assms have r: "flood_ready F" and d: "fst x \<in> sf_dps F" by (simp_all add: sf_ok_def)
  note f = distances_of_fields [OF flood_readyD(4) [OF r d]]
  have sub: "is_away (sf_distances F (fst x)) m \<or> is_towards_root (sf_distances F (fst x)) m \<Longrightarrow> m \<in> stack_nums F (fst x)" for m
    using f stack_consistentD(1) [OF flood_readyD(2) [OF r] d]
    by (auto simp: is_away_def is_towards_root_def has_port_def stack_nums_def away_ports_def towards_ports_def set_all_peer_ports
        Let_def split: if_splits)
  show "arrived_on (is_away (sf_distances F (fst x))) (sf_arrival F x) \<longleftrightarrow> (\<exists>n. snd x = Some n \<and> is_away (sf_distances F (fst x)) n)"
    "arrived_on (is_towards_root (sf_distances F (fst x))) (sf_arrival F x) \<longleftrightarrow> sf_down F x"
    unfolding sf_down_def by (rule arrival_iff [OF assms], rule sub, simp)+
  show "snd x = Some n \<Longrightarrow> \<not> sf_down F x \<Longrightarrow> is_away (sf_distances F (fst x)) n"
    using assms by (auto simp: sf_ok_def sf_down_def is_pruned_port_def split: if_splits)
qed

text \<open>A port given by its number.\<close>

lemma port_by_number:
  assumes "stack_consistent N net D g r" and "d \<in> D" and "set ps \<subseteq> set (st_ports (nt_stack net d))"
    and "p \<in> set (st_ports (nt_stack net d))"
  shows "fst p \<in> fst ` set ps \<longleftrightarrow> p \<in> set ps"
  using inj_onD [OF stack_consistentD(5) [OF assms(1,2)]] assms(3,4) by (metis (no_types, lifting) image_iff subsetD)

lemma sends_acts:
  assumes "sf_acts F x = Inr acts" and "p \<in> set (st_ports (nt_stack (sf_net F) (fst x)))"
  shows "sf_sends F x p \<longleftrightarrow>
    output_port (fst p) \<in> set acts \<or> (snd x = Some (fst p) \<and> output_in_port (lib_ofp (sf_lib F)) \<in> set acts)"
  using assms by (simp add: sf_sends_def)

lemma away_sent:
  assumes "sf_ok F x" and "sf_down F x \<or> fst x = sf_root F" and "p \<in> set (st_ports (nt_stack (sf_net F) (fst x)))"
  shows "sf_sends F x p \<longleftrightarrow>
    (p \<in> set (ds_away_ports (sf_distances F (fst x))) \<and> Some (fst p) \<noteq> snd x \<and>
       p \<notin> set (stack_exclude_ports (sf_node F (fst x)) (sf_arrival F x))) \<or>
    (fst x = sf_root F \<and> snd x = Some (fst p) \<and> is_away (sf_distances F (fst x)) (fst p))"
proof -
  let ?K = "lib_ofp (sf_lib F)"
  from assms(1) have r: "flood_ready F" and d: "fst x \<in> sf_dps F" by (simp_all add: sf_ok_def)
  note con = flood_readyD(2) [OF r]
  note sub = distance_ports [OF con d flood_readyD(4) [OF r d]]
  note st = copy_state [OF assms(1)]
  note flags = flags_no_output [OF flood_readyD(8) [OF r d]]
  obtain away toward local_acts where acts: "sf_acts F x = Inr (reflection_flood_actions ?K (sf_flags F (fst x))
      (sf_node F (fst x)) (sf_arrival F x) (loop_protect_external_ports (sf_vlan F (fst x))) away toward local_acts)"
    and out: "\<And>m. output_port m \<in> set away \<longleftrightarrow> m \<in> fst ` set (ds_away_ports (sf_distances F (fst x))) \<and> Some m \<noteq> snd x \<and>
       m \<notin> fst ` set (stack_exclude_ports (sf_node F (fst x)) (sf_arrival F x))"
    and loc: "\<And>m. m \<in> stack_nums F (fst x) \<Longrightarrow> output_port m \<notin> set local_acts"
      "snd x \<noteq> None \<Longrightarrow> output_in_port ?K \<notin> set local_acts"
    by (rule copy_acts [OF assms(1)]) blast
  have p: "fst p \<in> stack_nums F (fst x)" using assms(3) by (simp add: stack_nums_def)
  have in_ne: "OFPP_IN_PORT ?K \<notin> stack_nums F (fst x)" using flood_readyD(5) [OF r d] by (auto simp: plain_stack_port_def)
  have "OFPP_IN_PORT ?K \<notin> fst ` set (ds_away_ports (sf_distances F (fst x)))"
    using in_ne image_mono [OF sub(1), of fst] by (auto simp: stack_nums_def)
  then have in_away: "output_in_port ?K \<notin> set away" using out by (simp add: output_in_port_def)
  have in_flags: "output_in_port ?K \<notin> set (ss_set_ext_port_flag (sf_flags F (fst x)))"
    "output_in_port ?K \<notin> set (ss_set_nonext_port_flag (sf_flags F (fst x)))" using flags by (simp_all add: output_in_port_def)
  have num: "output_port (fst p) \<in> set away \<longleftrightarrow> p \<in> set (ds_away_ports (sf_distances F (fst x))) \<and> Some (fst p) \<noteq> snd x \<and>
       p \<notin> set (stack_exclude_ports (sf_node F (fst x)) (sf_arrival F x))"
    unfolding out port_by_number [OF con d sub(1) assms(3)] port_by_number [OF con d excluded_ports [OF r d] assms(3)] ..
  let ?prefix = "if loop_protect_external_ports (sf_vlan F (fst x)) \<noteq> [] then ss_set_nonext_port_flag (sf_flags F (fst x))
    else ss_set_ext_port_flag (sf_flags F (fst x))"
  have ne: "output_port (fst p) \<noteq> output_in_port ?K"
    using p in_ne by (auto simp: output_in_port_def output_port_def output_port_len_def)
  show ?thesis
  proof (cases "fst x = sf_root F")
    case True
    then have "is_root (sn_stack (sf_node F (fst x)))"
      using stack_consistentD(1,3) [OF con d] by (simp add: sf_node_def is_root_def)
    then have e: "sf_acts F x = Inr (?prefix @ (if arrived_on (is_away (sf_distances F (fst x))) (sf_arrival F x)
        then away @ [output_in_port ?K] @ local_acts else away @ local_acts))" (is "_ = Inr ?acts")
      by (simp add: acts reflection_flood_actions_def root_actions sf_node_def)
    have o: "output_port (fst p) \<in> set ?acts \<longleftrightarrow> output_port (fst p) \<in> set away"
      using flags ne loc(1) [OF p] by simp
    have i: "output_in_port ?K \<in> set ?acts \<longleftrightarrow> is_away (sf_distances F (fst x)) (fst p)" if "snd x = Some (fst p)"
      using that in_flags in_away loc(2) st(1) by simp
    show ?thesis unfolding sends_acts [OF e assms(3)] o num using i True by blast
  next
    case False
    then have "\<not> is_root (sn_stack (sf_node F (fst x)))"
      using stack_consistentD(1,3) [OF con d] by (simp add: sf_node_def is_root_def)
    moreover from False assms(2) have "sf_down F x" by simp
    moreover from this have "\<not> arrived_on (is_away (sf_distances F (fst x))) (sf_arrival F x)"
      using sub(4) st(1) by (auto simp: sf_down_def)
    ultimately have e: "sf_acts F x = Inr (if loop_protect_external_ports (sf_vlan F (fst x)) \<noteq> []
        then ss_set_nonext_port_flag (sf_flags F (fst x)) @ away @ local_acts
        else away @ ss_set_nonext_port_flag (sf_flags F (fst x)) @ local_acts)" (is "_ = Inr ?acts")
      using st(2) by (simp add: acts reflection_flood_actions_def nonroot_actions_down sf_node_def)
    have o: "output_port (fst p) \<in> set ?acts \<longleftrightarrow> output_port (fst p) \<in> set away"
      using flags loc(1) [OF p] by simp
    have i: "output_in_port ?K \<notin> set ?acts" if "snd x = Some (fst p)" using that in_flags in_away loc(2) by simp
    show ?thesis unfolding sends_acts [OF e assms(3)] o num using i False by blast
  qed
qed

lemma toward_sent:
  assumes "sf_ok F x" and "\<not> sf_down F x" and "fst x \<noteq> sf_root F" and "p \<in> set (st_ports (nt_stack (sf_net F) (fst x)))"
  shows "sf_sends F x p \<longleftrightarrow> p \<in> set (ds_chosen_towards_ports (sf_distances F (fst x)))"
proof -
  let ?K = "lib_ofp (sf_lib F)"
  from assms(1) have r: "flood_ready F" and d: "fst x \<in> sf_dps F" by (simp_all add: sf_ok_def)
  note con = flood_readyD(2) [OF r]
  note sub = distance_ports [OF con d flood_readyD(4) [OF r d]]
  note st = copy_state [OF assms(1)]
  note flags = flags_no_output [OF flood_readyD(8) [OF r d]]
  obtain away toward local_acts where acts: "sf_acts F x = Inr (reflection_flood_actions ?K (sf_flags F (fst x))
      (sf_node F (fst x)) (sf_arrival F x) (loop_protect_external_ports (sf_vlan F (fst x))) away toward local_acts)"
    and out: "\<And>m. output_port m \<in> set toward \<longleftrightarrow> m \<in> fst ` set (ds_chosen_towards_ports (sf_distances F (fst x))) \<and> Some m \<noteq> snd x"
    by (rule copy_acts [OF assms(1)]) blast
  have "OFPP_IN_PORT ?K \<notin> stack_nums F (fst x)" using flood_readyD(5) [OF r d] by (auto simp: plain_stack_port_def)
  then have "OFPP_IN_PORT ?K \<notin> fst ` set (ds_chosen_towards_ports (sf_distances F (fst x)))"
    using image_mono [OF sub(2), of fst] by (auto simp: stack_nums_def)
  then have in_toward: "output_in_port ?K \<notin> set toward" using out by (simp add: output_in_port_def)
  have in_flags: "output_in_port ?K \<notin> set (ss_set_ext_port_flag (sf_flags F (fst x)))"
    "output_in_port ?K \<notin> set (ss_set_nonext_port_flag (sf_flags F (fst x)))" using flags by (simp_all add: output_in_port_def)
  have not_in: "Some (fst p) \<noteq> snd x" if "p \<in> set (ds_chosen_towards_ports (sf_distances F (fst x)))"
  proof
    assume "Some (fst p) = snd x"
    then have "is_away (sf_distances F (fst x)) (fst p)" using st(3) assms(2) by simp
    moreover have "is_towards_root (sf_distances F (fst x)) (fst p)"
      using that distances_of_fields(1,2) [OF flood_readyD(4) [OF r d]]
      by (auto simp: is_towards_root_def has_port_def chosen_ports_def Let_def split: if_splits)
    ultimately show False using sub(4) by blast
  qed
  have num: "output_port (fst p) \<in> set toward \<longleftrightarrow> p \<in> set (ds_chosen_towards_ports (sf_distances F (fst x)))"
    unfolding out port_by_number [OF con d sub(2) assms(4)] using not_in by blast
  have "\<not> is_root (sn_stack (sf_node F (fst x)))"
    using assms(3) stack_consistentD(1,3) [OF con d] by (simp add: sf_node_def is_root_def)
  moreover have "\<not> arrived_on (is_towards_root (sf_distances F (fst x))) (sf_arrival F x)" using st(2) assms(2) by simp
  moreover from this obtain prefix where
    prefix: "prefix \<in> {[], ss_set_ext_port_flag (sf_flags F (fst x)), ss_set_nonext_port_flag (sf_flags F (fst x))}"
    and "nonroot_flood_actions (sf_flags F (fst x)) (sf_distances F (fst x)) (sf_arrival F x)
      (loop_protect_external_ports (sf_vlan F (fst x))) away toward local_acts = prefix @ toward"
    using nonroot_actions_up by meson
  ultimately have e: "sf_acts F x = Inr (prefix @ toward)" by (simp add: acts reflection_flood_actions_def sf_node_def)
  have "output_port n \<notin> set prefix" for n using prefix flags by auto
  then show ?thesis unfolding sf_sends_def e using num assms(4) in_toward by (auto simp: output_in_port_def)
qed

subsection \<open>The tree the copies follow\<close>

definition sf_parent :: "'g stack_flood \<Rightarrow> string \<Rightarrow> string option" where
  "sf_parent F v = (if v \<in> sf_dps F then dp_parent (sf_nx F) (sf_net F) v else None)"

definition sf_links :: "'g stack_flood \<Rightarrow> string \<Rightarrow> string \<Rightarrow> stack_port set" where
  "sf_links F u v = links_to (sf_net F) u v"

lemma sf_parentD:
  assumes "flood_ready F" and "sf_parent F v = Some u"
  shows "v \<in> sf_dps F" and "u \<in> sf_dps F" and "v \<noteq> sf_root F" and "dp_parent (sf_nx F) (sf_net F) v = Some u"
    and "length (dp_path (sf_nx F) (sf_net F) v) = Suc (length (dp_path (sf_nx F) (sf_net F) u))"
proof -
  from assms(2) show v: "v \<in> sf_dps F" and p: "dp_parent (sf_nx F) (sf_net F) v = Some u"
    by (auto simp: sf_parent_def split: if_splits)
  note s = multigraph.parent_step [OF flood_readyD(1,2) [OF assms(1)] v p]
  show "u \<in> sf_dps F" "v \<noteq> sf_root F"
    "length (dp_path (sf_nx F) (sf_net F) v) = Suc (length (dp_path (sf_nx F) (sf_net F) u))" using s(2,3,6) by simp_all
qed

lemma unpruned_link:
  assumes "flood_ready F" and "sf_parent F v = Some u"
  shows "\<exists>p0 \<in> sf_links F u v. \<forall>p \<in> sf_links F u v.
    (is_pruned_port (sf_distances F u) (fst p) \<longleftrightarrow> p \<noteq> p0) \<and> (is_pruned_port (sf_distances F v) (peer_no p) \<longleftrightarrow> p \<noteq> p0)"
proof -
  note s = sf_parentD [OF assms]
  note m = flood_readyD(1,2) [OF assms(1)]
  note st = multigraph.parent_step [OF m s(1,4)]
  have "links_to (sf_net F) u v \<noteq> {}"
    by (rule multigraph.adj_up_port [OF m multigraph.adj_sym [OF m(1) st(5)]]) (auto simp: links_to_def)
  from one_least_link [OF m s(2,1) this] parent_prunes [OF m s(1,4) flood_readyD(4) [OF assms(1) s(2)]]
    child_prunes [OF m s(1,4) flood_readyD(4) [OF assms(1) s(1)]]
  show ?thesis unfolding sf_links_def by metis
qed

lemma link_ends:
  assumes "flood_ready F" and "u \<in> sf_dps F" and "v \<in> sf_dps F" and "p \<in> sf_links F u v"
  shows "p \<in> set (st_ports (nt_stack (sf_net F) u))" and "peer_dp p = v"
    and "\<exists>q \<in> sf_links F v u. fst q = peer_no p \<and> peer_no q = fst p"
  using multigraph.up_port_adj(3) [OF flood_readyD(1,2) [OF assms(1)] assms(2)] assms(4)
    link_other_end [OF flood_readyD(1,2) [OF assms(1)] assms(2,3)] by (auto simp: sf_links_def links_to_def)

text \<open>The port of an accepted copy from the parent is the chosen one; the root has no such copy.\<close>

lemma down_arrival:
  assumes "sf_ok F x" and "sf_down F x"
  shows "fst x \<noteq> sf_root F" and "\<exists>q. snd x = Some (fst q) \<and> q \<in> set (ds_chosen_towards_ports (sf_distances F (fst x)))"
proof -
  from assms(1) have r: "flood_ready F" and d: "fst x \<in> sf_dps F" by (simp_all add: sf_ok_def)
  note con = flood_readyD(2) [OF r]
  note f = distances_of_fields [OF flood_readyD(4) [OF r d]]
  from assms(2) obtain n where n: "snd x = Some n" "is_towards_root (sf_distances F (fst x)) n" by (auto simp: sf_down_def)
  show "fst x \<noteq> sf_root F"
    using n(2) stack_consistentD(1,3) [OF con d] by (auto simp: is_towards_root_def f(1) towards_ports_def is_root_def has_port_def Let_def)
  from assms(1) n have "is_selected_towards_root_port (sf_distances F (fst x)) n" by (auto simp: sf_ok_def is_pruned_port_def)
  then obtain q where q: "ds_chosen_towards_port (sf_distances F (fst x)) = Some q" "fst q = n"
    by (auto simp: is_selected_towards_root_port_def)
  with multigraph.chosen_least [OF flood_readyD(1,2) [OF r] d flood_readyD(3) [OF r d]] f(2,6)
  have "q \<in> set (ds_chosen_towards_ports (sf_distances F (fst x)))" by (auto split: option.splits if_splits)
  with n(1) q(2) show "\<exists>q. snd x = Some (fst q) \<and> q \<in> set (ds_chosen_towards_ports (sf_distances F (fst x)))" by blast
qed

text \<open>Downwards a copy goes out on links to children only.\<close>

lemma down_sends:
  assumes "sf_ok F x" and "sf_down F x \<or> fst x = sf_root F" and "sf_sends F x p"
  shows "sf_parent F (peer_dp p) = Some (fst x)" and "p \<in> sf_links F (fst x) (peer_dp p)"
proof -
  let ?N = "sf_nx F" and ?net = "sf_net F" and ?ds = "sf_distances F (fst x)"
  from assms(1) have r: "flood_ready F" and d: "fst x \<in> sf_dps F" by (simp_all add: sf_ok_def)
  note m = flood_readyD(1,2) [OF r] and path = flood_readyD(3) [OF r d] and dist = flood_readyD(4) [OF r d]
  note f = distances_of_fields [OF dist]
  note sub = distance_ports [OF m(2) d dist]
  from assms(3) have p: "p \<in> set (st_ports (nt_stack ?net (fst x)))" by (simp add: sf_sends_def)
  note sent = assms(3) [unfolded away_sent [OF assms(1,2) p]]
  then have away: "p \<in> set (ds_away_ports ?ds)"
    using port_by_number [OF m(2) d sub(1) p] by (auto simp: is_away_def has_port_def)
  then have up: "p \<in> set (all_peer_ports ?net (nt_stack ?net (fst x)))" by (simp add: f(3) away_ports_def)
  note a = multigraph.up_port_adj [OF m d up]
  have peer: "peer_dp p \<in> sf_dps F" by (rule multigraph.dp_path_neighbour(2) [OF m a(1) path])
  have "dp_parent ?N ?net (peer_dp p) = Some (fst x)"
  proof (cases "fst x = sf_root F")
    case True
    have "fst x \<in> set (dp_path ?N ?net (peer_dp p))"
      using multigraph.dp_path_hd(2) [OF m peer flood_readyD(3) [OF r peer]] flood_readyD(3) [OF r peer] True
      by (metis last_in_set)
    then show ?thesis using multigraph.parent_iff_in_path [OF m a(1) path] by blast
  next
    case False
    with sent have "p \<notin> set (ds_inactive_away_ports ?ds)" by (auto simp: stack_exclude_ports_def sf_node_def)
    then have "\<not> has_port (fst p) (ds_inactive_away_ports ?ds)"
      using port_by_number [OF m(2) d sub(3) p] by (auto simp: has_port_def)
    with away show ?thesis using multigraph.active_away_iff [OF m d path dist up] by blast
  qed
  with peer show "sf_parent F (peer_dp p) = Some (fst x)" by (simp add: sf_parent_def)
  show "p \<in> sf_links F (fst x) (peer_dp p)" using up by (simp add: sf_links_def links_to_def)
qed

lemma adjacent_excluded:
  assumes "sf_ok F x" and "snd x = Some (fst q)" and "q \<in> set (st_ports (nt_stack (sf_net F) (fst x)))"
  shows "p \<in> set (stack_exclude_ports (sf_node F (fst x)) (sf_arrival F x)) \<longleftrightarrow>
    p \<in> set (ds_inactive_away_ports (sf_distances F (fst x))) \<or>
    (p \<in> set (st_ports (nt_stack (sf_net F) (fst x))) \<and> peer_dp p = peer_dp q)"
proof -
  from assms(1) have r: "flood_ready F" and d: "fst x \<in> sf_dps F" by (simp_all add: sf_ok_def)
  have "sf_arrival F x = Some (nt_port (sf_net F) (fst x) (fst q))" and "p_stack (nt_port (sf_net F) (fst x) (fst q)) = Some (snd q)"
    using stack_port_peer [OF flood_readyD(2) [OF r] d assms(3)] assms(2) by (simp_all add: sf_arrival_def)
  then show ?thesis by (auto simp: stack_exclude_ports_def sf_node_def adjacent_stack_ports_def peer_dp_def)
qed

lemma down_sends_link:
  assumes "sf_ok F x" and "sf_down F x \<or> fst x = sf_root F" and v: "sf_parent F v = Some (fst x)"
    and p: "p \<in> sf_links F (fst x) v" and "\<not> is_pruned_port (sf_distances F (fst x)) (fst p)"
  shows "sf_sends F x p"
proof -
  let ?ds = "sf_distances F (fst x)" and ?net = "sf_net F"
  from assms(1) have r: "flood_ready F" and d: "fst x \<in> sf_dps F" by (simp_all add: sf_ok_def)
  note m = flood_readyD(1,2) [OF r] and path = flood_readyD(3) [OF r d] and dist = flood_readyD(4) [OF r d]
  note f = distances_of_fields [OF dist] and ends = link_ends [OF r d sf_parentD(1) [OF r v] p] and pv = sf_parentD [OF r v]
  have up: "p \<in> set (all_peer_ports ?net (nt_stack ?net (fst x)))" using p by (simp add: sf_links_def links_to_def)
  have away: "p \<in> set (ds_away_ports ?ds)" unfolding f multigraph.away_iff [OF m d path] using up pv(5) ends(2) by simp
  have "\<not> has_port (fst p) (ds_inactive_away_ports ?ds)"
    using multigraph.active_away_iff [OF m d path dist up] pv(4) ends(2) by simp
  then have active: "p \<notin> set (ds_inactive_away_ports ?ds)" by (auto simp: has_port_def)
  show ?thesis
  proof (cases "snd x")
    case None
    then have "p \<notin> set (stack_exclude_ports (sf_node F (fst x)) (sf_arrival F x))"
      using active flood_readyD(10) [OF r] by (cases "sf_host F") (simp_all add: stack_exclude_ports_def sf_node_def sf_arrival_def)
    then show ?thesis unfolding away_sent [OF assms(1,2) ends(1)] using away None by simp
  next
    case (Some n)
    then obtain q where q: "fst q = n" "q \<in> set (st_ports (nt_stack ?net (fst x)))"
      using assms(1) by (auto simp: sf_ok_def stack_nums_def)
    note ex = adjacent_excluded [OF assms(1) _ q(2)]
    show ?thesis
    proof (cases "peer_dp q = v")
      case False
      then have "p \<notin> set (stack_exclude_ports (sf_node F (fst x)) (sf_arrival F x))"
        using ex [of p] active ends(2) Some q(1) by simp
      moreover have "fst p \<noteq> n" using False ends(2) port_by_number [OF m(2) d, of "[q]" p] q ends(1) by auto
      ultimately show ?thesis unfolding away_sent [OF assms(1,2) ends(1)] using away Some by simp
    next
      case True
      have nd: "\<not> sf_down F x"
      proof
        assume "sf_down F x"
        from down_arrival(2) [OF assms(1) this] obtain q' where q': "fst q' = n" "q' \<in> set (chosen_ports (sf_nx F) ?net (nt_stack ?net (fst x)))"
          using Some f(2) by auto
        then have "q' \<in> set (st_ports (nt_stack ?net (fst x)))" using distance_ports(2) [OF m(2) d dist] f(2) by auto
        then have "q' = q" using port_by_number [OF m(2) d, of "[q]" q'] q q'(1) by simp
        with q'(2) True have "dp_parent (sf_nx F) ?net (fst x) = Some v" by (simp add: multigraph.chosen_iff [OF m d path])
        from multigraph.parent_step(6) [OF m d this] pv(5) show False by simp
      qed
      then have aw: "is_away ?ds n" using copy_state(3) [OF assms(1) Some] by simp
      then have "q \<in> set (ds_away_ports ?ds)"
        using port_by_number [OF m(2) d distance_ports(1) [OF m(2) d dist] q(2)] q(1) by (auto simp: is_away_def has_port_def)
      then have "q \<in> sf_links F (fst x) v" using True f(3) by (simp add: sf_links_def links_to_def away_ports_def)
      moreover have "\<not> is_pruned_port ?ds (fst q)" using assms(1) Some q(1) by (simp add: sf_ok_def)
      ultimately have "q = p" using unpruned_link [OF r v] p assms(5) by metis
      then show ?thesis unfolding away_sent [OF assms(1,2) ends(1)] using aw Some q(1) nd assms(2) by simp
    qed
  qed
qed

text \<open>Upwards a copy goes out on the links to the parent.\<close>

lemma up_sends:
  assumes "sf_ok F x" and "\<not> sf_down F x" and "fst x \<noteq> sf_root F"
  shows "\<exists>u. sf_parent F (fst x) = Some u \<and> {p. sf_sends F x p} = sf_links F (fst x) u"
proof -
  from assms(1) have r: "flood_ready F" and d: "fst x \<in> sf_dps F" by (simp_all add: sf_ok_def)
  note m = flood_readyD(1,2) [OF r] and path = flood_readyD(3) [OF r d] and dist = flood_readyD(4) [OF r d]
  obtain u where u: "dp_parent (sf_nx F) (sf_net F) (fst x) = Some u"
    by (rule multigraph.dp_path_step [OF m d path assms(3)])
  have "sf_sends F x p \<longleftrightarrow> p \<in> sf_links F (fst x) u" for p
  proof -
    have "p \<in> sf_links F (fst x) u \<longleftrightarrow> p \<in> set (ds_chosen_towards_ports (sf_distances F (fst x)))"
      using chosen_links [OF m d u] distances_of_fields(2) [OF dist] by (simp add: sf_links_def)
    moreover from this have "p \<in> set (st_ports (nt_stack (sf_net F) (fst x)))" if "p \<in> sf_links F (fst x) u"
      using that distance_ports(2) [OF m(2) d dist] by blast
    moreover have "p \<in> set (st_ports (nt_stack (sf_net F) (fst x)))" if "sf_sends F x p" using that by (simp add: sf_sends_def)
    ultimately show ?thesis using toward_sent [OF assms] by blast
  qed
  with u d show ?thesis by (auto simp: sf_parent_def)
qed

subsection \<open>Hops\<close>

text \<open>The port that the other end of a link takes copies on.\<close>

lemma hop_iff:
  "sf_hop F x y \<longleftrightarrow>
    (\<exists>p. sf_sends F x p \<and> \<not> is_pruned_port (sf_distances F (peer_dp p)) (peer_no p) \<and> y = (peer_dp p, Some (peer_no p)))"
  by (simp add: sf_hop_def)

lemma child_port:
  assumes "flood_ready F" and "sf_parent F v = Some u" and "p \<in> sf_links F v u"
  shows "\<not> is_towards_root (sf_distances F u) (peer_no p)" and "is_towards_root (sf_distances F v) (fst p)"
    and "peer_no p \<in> stack_nums F u" and "fst p \<in> stack_nums F v"
proof -
  note pv = sf_parentD [OF assms(1,2)] and m = flood_readyD(1,2) [OF assms(1)]
  have dist: "\<And>d. d \<in> sf_dps F \<Longrightarrow> distances_of (sf_nx F) (sf_net F) d (sf_distances F d)" using flood_readyD(4) [OF assms(1)] .
  note ends = link_ends [OF assms(1) pv(1,2) assms(3)]
  from ends(3) obtain q where q: "q \<in> sf_links F u v" "fst q = peer_no p" by blast
  note qe = link_ends [OF assms(1) pv(2,1) q(1)]
  have "q \<in> set (ds_away_ports (sf_distances F u))"
    unfolding distances_of_fields(3) [OF dist [OF pv(2)]] multigraph.away_iff [OF m pv(2) flood_readyD(3) [OF assms(1) pv(2)]]
    using q(1) pv(5) by (simp add: sf_links_def links_to_def)
  then have "is_away (sf_distances F u) (peer_no p)" using q(2) by (simp add: is_away_def has_port_def) (metis imageI)
  then show "\<not> is_towards_root (sf_distances F u) (peer_no p)" by (rule distance_ports(4) [OF m(2) pv(2) dist [OF pv(2)]])
  have "p \<in> set (ds_towards_root_ports (sf_distances F v))"
    unfolding distances_of_fields(1) [OF dist [OF pv(1)]] multigraph.towards_iff [OF m pv(1) flood_readyD(3) [OF assms(1) pv(1)]]
    using assms(3) pv(5) by (simp add: sf_links_def links_to_def)
  then show "is_towards_root (sf_distances F v) (fst p)" by (auto simp: is_towards_root_def has_port_def)
  show "fst p \<in> stack_nums F v" "peer_no p \<in> stack_nums F u"
    using ends(1) qe(1) q(2) [symmetric] by (simp_all add: stack_nums_def)
qed

lemma up_hops:
  assumes "sf_ok F x" and "\<not> sf_down F x" and "fst x \<noteq> sf_root F"
  shows "\<exists>u p0. sf_parent F (fst x) = Some u \<and> (\<forall>y. sf_hop F x y \<longleftrightarrow> y = (u, Some (peer_no p0))) \<and>
    p0 \<in> sf_links F (fst x) u \<and> \<not> is_pruned_port (sf_distances F u) (peer_no p0)"
proof -
  from assms(1) have r: "flood_ready F" and d: "fst x \<in> sf_dps F" by (simp_all add: sf_ok_def)
  from up_sends [OF assms] obtain u where u: "sf_parent F (fst x) = Some u" and sends: "{p. sf_sends F x p} = sf_links F (fst x) u" by blast
  note pv = sf_parentD [OF r u]
  from unpruned_link [OF r u] obtain q0 where q0: "q0 \<in> sf_links F u (fst x)"
    and pr: "\<And>q. q \<in> sf_links F u (fst x) \<Longrightarrow> is_pruned_port (sf_distances F u) (fst q) \<longleftrightarrow> q \<noteq> q0" by blast
  from link_ends(3) [OF r pv(2) d q0] obtain p0 where p0: "p0 \<in> sf_links F (fst x) u" "peer_no p0 = fst q0"
    by (metis link_ends(3) [OF r d pv(2)] link_ends(3) [OF r pv(2) d])
  have "sf_hop F x y \<longleftrightarrow> y = (u, Some (peer_no p0))" for y
  proof
    assume "sf_hop F x y"
    then obtain p where "p \<in> sf_links F (fst x) u" and y: "y = (peer_dp p, Some (peer_no p))"
      and np: "\<not> is_pruned_port (sf_distances F (peer_dp p)) (peer_no p)" unfolding hop_iff using sends by blast
    note e = link_ends [OF r d pv(2) this(1)]
    from e(3) obtain q where q: "q \<in> sf_links F u (fst x)" "fst q = peer_no p" by blast
    with np e(2) pr have "q = q0" by metis
    with y e(2) q(2) p0(2) show "y = (u, Some (peer_no p0))" by simp
  next
    assume y: "y = (u, Some (peer_no p0))"
    have "sf_sends F x p0" using sends p0(1) by blast
    moreover have "peer_dp p0 = u" by (rule link_ends(2) [OF r d pv(2) p0(1)])
    moreover have "\<not> is_pruned_port (sf_distances F u) (peer_no p0)" using pr [OF q0] p0(2) by simp
    ultimately show "sf_hop F x y" unfolding hop_iff using y by blast
  qed
  moreover have "\<not> is_pruned_port (sf_distances F u) (peer_no p0)" using pr [OF q0] p0(2) by simp
  ultimately show ?thesis using u p0(1) by blast
qed

lemma down_hops:
  assumes "sf_ok F x" and "sf_down F x \<or> fst x = sf_root F" and "sf_hop F x y"
  shows "sf_ok F y \<and> sf_down F y \<and> fst y \<noteq> sf_root F \<and> sf_parent F (fst y) = Some (fst x)"
proof -
  from assms(1) have r: "flood_ready F" and d: "fst x \<in> sf_dps F" by (simp_all add: sf_ok_def)
  from assms(3) obtain p where p: "sf_sends F x p" and np: "\<not> is_pruned_port (sf_distances F (peer_dp p)) (peer_no p)"
    and y: "y = (peer_dp p, Some (peer_no p))" unfolding hop_iff by blast
  note s = down_sends [OF assms(1,2) p]
  note pv = sf_parentD [OF r s(1)]
  from link_ends(3) [OF r d pv(1) s(2)] obtain q where q: "q \<in> sf_links F (peer_dp p) (fst x)" "fst q = peer_no p" by blast
  note c = child_port [OF r s(1) q(1)]
  show ?thesis using r s(1) pv(1,3) c(2,4) np q(2) by (simp add: y sf_ok_def sf_down_def)
qed

lemma one_down_hop:
  assumes "sf_ok F x" and "sf_down F x \<or> fst x = sf_root F" and v: "sf_parent F v = Some (fst x)"
  shows "\<exists>!y. sf_hop F x y \<and> fst y = v"
proof -
  from assms(1) have r: "flood_ready F" and d: "fst x \<in> sf_dps F" by (simp_all add: sf_ok_def)
  note pv = sf_parentD [OF r v]
  from unpruned_link [OF r v] obtain p0 where p0: "p0 \<in> sf_links F (fst x) v"
    and pr: "\<And>p. p \<in> sf_links F (fst x) v \<Longrightarrow> is_pruned_port (sf_distances F (fst x)) (fst p) \<longleftrightarrow> p \<noteq> p0"
      "\<And>p. p \<in> sf_links F (fst x) v \<Longrightarrow> is_pruned_port (sf_distances F v) (peer_no p) \<longleftrightarrow> p \<noteq> p0" by blast
  note e = link_ends(2) [OF r d pv(1) p0]
  have "sf_sends F x p0" by (rule down_sends_link [OF assms p0]) (use pr(1) [OF p0] in simp)
  then have "sf_hop F x (v, Some (peer_no p0))" unfolding hop_iff using e pr(2) [OF p0] by blast
  moreover have "y = (v, Some (peer_no p0))" if y: "sf_hop F x y" "fst y = v" for y
  proof -
    from y obtain p where p: "sf_sends F x p" "\<not> is_pruned_port (sf_distances F (peer_dp p)) (peer_no p)"
      "y = (peer_dp p, Some (peer_no p))" unfolding hop_iff by blast
    with y(2) have peer: "peer_dp p = v" by simp
    with down_sends(2) [OF assms(1,2) p(1)] have "p \<in> sf_links F (fst x) v" by simp
    from pr(2) [OF this] p(2) peer have "p = p0" by simp
    with p(3) peer show ?thesis by simp
  qed
  ultimately show ?thesis by (metis fst_conv)
qed

interpretation rf: reflected_flood "sf_hop F" fst "sf_parent F" "sf_root F" "sf_ok F" "sf_down F" for F
proof
  fix x assume x: "sf_ok F x" "\<not> sf_down F x" "fst x \<noteq> sf_root F"
  from up_hops [OF this] obtain u p0 where u: "sf_parent F (fst x) = Some u" and h: "\<And>y. sf_hop F x y \<longleftrightarrow> y = (u, Some (peer_no p0))"
    and p0: "p0 \<in> sf_links F (fst x) u" and np: "\<not> is_pruned_port (sf_distances F u) (peer_no p0)" by blast
  show "\<exists>!y. sf_hop F x y" using h by auto
  fix y assume "sf_hop F x y"
  then have y: "y = (u, Some (peer_no p0))" by (simp add: h)
  have r: "flood_ready F" using x(1) by (simp add: sf_ok_def)
  show "sf_ok F y \<and> \<not> sf_down F y \<and> sf_parent F (fst x) = Some (fst y)"
    using r u np child_port(1,3) [OF r u p0] sf_parentD(2) [OF r u] by (simp add: y sf_ok_def sf_down_def)
next
  fix x y assume "sf_ok F x" "sf_down F x \<or> fst x = sf_root F" "sf_hop F x y"
  then show "sf_ok F y \<and> sf_down F y \<and> fst y \<noteq> sf_root F \<and> sf_parent F (fst y) = Some (fst x)" by (rule down_hops)
next
  fix x v assume "sf_ok F x" "sf_down F x \<or> fst x = sf_root F" "sf_parent F v = Some (fst x)"
  then show "\<exists>!y. sf_hop F x y \<and> fst y = v" by (rule one_down_hop)
qed

text \<open>The parents lead to the root.\<close>

lemma parents_to_root:
  assumes "flood_ready F" and "d \<in> sf_dps F"
  shows "\<exists>p. is_path (\<lambda>u v. sf_parent F u = Some v) d (sf_root F) p"
  using assms(2)
proof (induction "length (dp_path (sf_nx F) (sf_net F) d)" arbitrary: d rule: less_induct)
  case less
  note m = flood_readyD(1,2) [OF assms(1)] and path = flood_readyD(3) [OF assms(1) less.prems]
  show ?case
  proof (cases "d = sf_root F")
    case True
    then have "is_path (\<lambda>u v. sf_parent F u = Some v) d (sf_root F) [d]" by simp
    then show ?thesis by blast
  next
    case False
    obtain u where u: "u \<in> sf_dps F" "length (dp_path (sf_nx F) (sf_net F) d) = Suc (length (dp_path (sf_nx F) (sf_net F) u))"
        "dp_parent (sf_nx F) (sf_net F) d = Some u"
      by (rule multigraph.dp_path_step [OF m less.prems path False])
    from less.hyps [OF _ u(1)] u(2) obtain p where "is_path (\<lambda>u v. sf_parent F u = Some v) u (sf_root F) p" by auto
    with less.prems u(3) have "is_path (\<lambda>u v. sf_parent F u = Some v) d (sf_root F) (d # p)"
      by (intro is_path_Cons) (simp add: sf_parent_def)
    then show ?thesis by blast
  qed
qed

lemma source_ok:
  assumes "flood_ready F"
  shows "sf_ok F (sf_source F, None)" and "\<not> sf_down F (sf_source F, None)"
  using assms flood_readyD(9) [OF assms] by (simp_all add: sf_ok_def sf_down_def)

text \<open>C16. In a consistent connected stack with reflection, whichever datapath and port a broadcast
  comes in on, every datapath gets exactly one copy that it floods to the ports of the VLAN: the
  root the one that goes up to it, every other datapath the one that comes down from the root.\<close>

lemma reflected_flood_once:
  assumes "flood_ready F" and "d \<in> sf_dps F"
  shows "\<exists>!q. walk (sf_hop F) ((sf_source F, None) # q) \<and> fst (last ((sf_source F, None) # q)) = d \<and>
    (sf_down F (last ((sf_source F, None) # q)) \<or> fst (last ((sf_source F, None) # q)) = sf_root F)"
proof -
  from parents_to_root [OF assms(1) flood_readyD(9) [OF assms(1)]] obtain p where
    p: "is_path (\<lambda>u v. sf_parent F u = Some v) (fst (sf_source F, None :: int option)) (sf_root F) p" by auto
  from parents_to_root [OF assms] obtain p' where
    p': "is_path (\<lambda>u v. sf_parent F v = Some u) (sf_root F) d (rev p')" using is_path_rev by fastforce
  show ?thesis by (rule rf.one_copy [OF source_ok [OF assms(1)] p p'])
qed

text \<open>C17. With reflection, a datapath outputs a broadcast to a port of the VLAN that is not a stack
  port just when the rule for its own ports does and the packet is at the root or came down from it.\<close>

lemma reflected_flood_local:
  assumes "sf_ok F x" and "sf_acts F x = Inr acts" and "m \<notin> stack_nums F (fst x)" and "m \<noteq> OFPP_IN_PORT (lib_ofp (sf_lib F))"
    and "build_flood_local_rule_actions (sf_lib F) (sf_vlan F (fst x)) (sf_unicast F) (sf_arrival F x) (sf_external F) (sf_restricted F) =
      Inr local_acts"
  shows "output_port m \<in> set acts \<longleftrightarrow> output_port m \<in> set local_acts \<and> (sf_down F x \<or> fst x = sf_root F)"
proof -
  from assms(1) have r: "flood_ready F" and d: "fst x \<in> sf_dps F" by (simp_all add: sf_ok_def)
  note con = flood_readyD(2) [OF r] and st = copy_state [OF assms(1)] and flags = flags_no_output [OF flood_readyD(8) [OF r d]]
  note sub = distance_ports [OF con d flood_readyD(4) [OF r d]]
  obtain away toward where a: "acts = reflection_flood_actions (lib_ofp (sf_lib F)) (sf_flags F (fst x)) (sf_node F (fst x))
      (sf_arrival F x) (loop_protect_external_ports (sf_vlan F (fst x))) away toward local_acts"
    and "output_port m \<in> set away \<Longrightarrow> m \<in> fst ` set (ds_away_ports (sf_distances F (fst x)))"
      "output_port m \<in> set toward \<Longrightarrow> m \<in> fst ` set (ds_chosen_towards_ports (sf_distances F (fst x)))"
  proof (rule copy_acts [OF assms(1)])
    fix away toward local_acts'
    assume "sf_acts F x = Inr (reflection_flood_actions (lib_ofp (sf_lib F)) (sf_flags F (fst x)) (sf_node F (fst x))
        (sf_arrival F x) (loop_protect_external_ports (sf_vlan F (fst x))) away toward local_acts')"
      and "\<And>m. output_port m \<in> set away \<longleftrightarrow> m \<in> fst ` set (ds_away_ports (sf_distances F (fst x))) \<and> Some m \<noteq> snd x \<and>
         m \<notin> fst ` set (stack_exclude_ports (sf_node F (fst x)) (sf_arrival F x))"
      and "\<And>m. output_port m \<in> set toward \<longleftrightarrow> m \<in> fst ` set (ds_chosen_towards_ports (sf_distances F (fst x))) \<and> Some m \<noteq> snd x"
      and "build_flood_local_rule_actions (sf_lib F) (sf_vlan F (fst x)) (sf_unicast F) (sf_arrival F x) (sf_external F) (sf_restricted F) =
        Inr local_acts'"
    with assms(2,5) show thesis by (intro that [of away toward]) simp_all
  qed
  then have stack: "output_port m \<notin> set away" "output_port m \<notin> set toward"
    using assms(3) sub(1,2) image_mono unfolding stack_nums_def by blast+
  have root: "is_root (sn_stack (sf_node F (fst x))) \<longleftrightarrow> fst x = sf_root F"
    using stack_consistentD(1,3) [OF con d] by (auto simp: sf_node_def is_root_def)
  have ds: "sn_distances (sf_node F (fst x)) = sf_distances F (fst x)" by (simp add: sf_node_def)
  have ne: "output_port m \<noteq> output_in_port (lib_ofp (sf_lib F))"
    using assms(4) by (simp add: output_in_port_def output_port_def output_port_len_def)
  show ?thesis
  proof (cases "fst x = sf_root F")
    case True
    then have "is_root (sn_stack (sf_node F (fst x)))" using root by blast
    with True show ?thesis unfolding a reflection_flood_actions_def if_P [OF \<open>is_root _\<close>] root_actions using stack flags ne by simp
  next
    case False
    show ?thesis
    proof (cases "sf_down F x")
      case True
      then have "\<not> arrived_on (is_away (sf_distances F (fst x))) (sf_arrival F x)" using sub(4) st(1) by (auto simp: sf_down_def)
      with True False show ?thesis
        using stack flags st(2) by (simp add: a reflection_flood_actions_def root ds nonroot_actions_down)
    next
      case down: False
      then have "\<not> arrived_on (is_towards_root (sf_distances F (fst x))) (sf_arrival F x)" using st(2) by simp
      from bexE [OF nonroot_actions_up [OF this]] obtain prefix where
        prefix: "prefix \<in> {[], ss_set_ext_port_flag (sf_flags F (fst x)), ss_set_nonext_port_flag (sf_flags F (fst x))}"
        and e: "nonroot_flood_actions (sf_flags F (fst x)) (sf_distances F (fst x)) (sf_arrival F x)
          (loop_protect_external_ports (sf_vlan F (fst x))) away toward local_acts = prefix @ toward" .
      have "output_port m \<notin> set prefix" using prefix flags by auto
      moreover have "acts = prefix @ toward" using False by (simp add: a reflection_flood_actions_def root ds e)
      ultimately show ?thesis using stack False down by simp
    qed
  qed
qed

text \<open>With reflection, broadcasts are sent on the links of the tree of shortest paths alone.\<close>

text \<open>C14. With reflection in a consistent connected stack, a datapath sends a broadcast on the links of
  the tree of shortest paths alone: where the packet is at the root or came down from it, to
  children only, and each child is sent it on the link that is unpruned at the child; anywhere else
  on exactly the links to the parent.\<close>

lemma reflected_flood_tree:
  assumes "sf_ok F x"
  shows "if sf_down F x \<or> fst x = sf_root F
    then (\<forall>p. sf_sends F x p \<longrightarrow> sf_parent F (peer_dp p) = Some (fst x)) \<and>
      (\<forall>v. sf_parent F v = Some (fst x) \<longrightarrow>
         (\<exists>p \<in> sf_links F (fst x) v. sf_sends F x p \<and> \<not> is_pruned_port (sf_distances F v) (peer_no p)))
    else (\<exists>u. sf_parent F (fst x) = Some u \<and> {p. sf_sends F x p} = sf_links F (fst x) u)"
proof (cases "sf_down F x \<or> fst x = sf_root F")
  case True
  have "\<exists>p \<in> sf_links F (fst x) v. sf_sends F x p \<and> \<not> is_pruned_port (sf_distances F v) (peer_no p)"
    if v: "sf_parent F v = Some (fst x)" for v
  proof -
    have "flood_ready F" using assms by (simp add: sf_ok_def)
    from unpruned_link [OF this v] obtain p where p: "p \<in> sf_links F (fst x) v"
      "\<not> is_pruned_port (sf_distances F (fst x)) (fst p)" "\<not> is_pruned_port (sf_distances F v) (peer_no p)" by blast
    with down_sends_link [OF assms True v p(1,2)] show ?thesis by blast
  qed
  with True down_sends(1) [OF assms True] show ?thesis by simp
next
  case False
  with up_sends [OF assms] show ?thesis by simp
qed

section \<open>An example\<close>

definition example_flood :: "list_graph stack_flood" where
  "example_flood =
     \<lparr>sf_nx = list_nx, sf_net = resolved_net, sf_dps = set example_names, sf_graph = resolved_graph, sf_root = ''sw1'',
      sf_lib = example_lib, sf_switch = (\<lambda>_. example_mgr\<lparr>sm_has_externals := False\<rparr>),
      sf_flags = (\<lambda>_. \<lparr>ss_set_ext_port_flag = [], ss_set_nonext_port_flag = [], ss_external_root_only = False\<rparr>),
      sf_distances = (\<lambda>d. case reset_peer_distances list_nx resolved_net (nt_stack resolved_net d) of
        Inr ds \<Rightarrow> ds
      | Inl _ \<Rightarrow> \<lparr>ds_towards_root_ports = [], ds_chosen_towards_ports = [], ds_chosen_towards_port = None, ds_away_ports = [],
          ds_inactive_away_ports = [], ds_pruned_away_ports = []\<rparr>),
      sf_vlan = (\<lambda>_. (new_vlan 100)\<lparr>v_untagged := [default_port 10, default_port 11]\<rparr>), sf_source = ''sw3'',
      sf_host = Some (default_port 10), sf_unicast = False, sf_external = False, sf_restricted = False\<rparr>"

lemma example_ready: "flood_ready example_flood"
proof -
  let ?F = example_flood
  have paths: "\<forall>d \<in> set example_names. dp_path list_nx resolved_net d \<noteq> []" by code_simp
  have dist: "distances_of list_nx resolved_net d (sf_distances ?F d)" if d: "d \<in> set example_names" for d
  proof -
    from list_nx.distances_ex [OF resolved_consistent d] paths d obtain ds where "distances_of list_nx resolved_net d ds" by blast
    then show ?thesis by (simp add: distances_of_def example_flood_def)
  qed
  have nums: "stack_nums ?F d \<subseteq> {1, 2, 3}" for d
    by (auto simp: stack_nums_def example_flood_def resolved_net_def example_stack_def new_stack_def example_ports_def)
  have ports: "get_ports (sf_vlan ?F d) = [default_port 10, default_port 11]" for d
    by (simp add: example_flood_def get_ports_def new_vlan_def)
  have plain: "plain_stack_port ?F d n" if "n \<in> {1, 2, 3}" for d n
    using that by (auto simp: plain_stack_port_def example_flood_def resolved_net_def example_port_def default_port_def example_lib_def of13_def)
  have apart: "vlan_apart ?F d" for d
    using nums [of d] unfolding vlan_apart_def ports
    by (auto simp: default_port_def mirrors_def example_flood_def example_lib_def of13_def)
  have flags: "new_stack_switch (sf_lib ?F) (sf_switch ?F d) s = Inr (sf_flags ?F d)" for d s
    by (simp add: new_stack_switch_def example_flood_def)
  have host: "sf_host ?F = Some p \<longrightarrow> p_stack p = None \<and> p_number p \<notin> stack_nums ?F ''sw3''" for p
    using nums [of "''sw3''"] by (auto simp: example_flood_def default_port_def)
  have con: "stack_consistent (sf_nx ?F) (sf_net ?F) (sf_dps ?F) (sf_graph ?F) (sf_root ?F)"
    and m: "multigraph (sf_nx ?F)"
    using resolved_consistent list_nx.multigraph_axioms by (simp_all add: example_flood_def)
  have dps: "sf_dps ?F = set example_names" "sf_nx ?F = list_nx" "sf_net ?F = resolved_net" "sf_source ?F = ''sw3''"
    by (simp_all add: example_flood_def)
  have num: "distinct (map p_number (get_ports (sf_vlan ?F d)))" for d unfolding ports by (simp add: default_port_def)
  show ?thesis unfolding flood_ready_def
  proof (intro conjI ballI allI con m apart flags num host [unfolded dps [symmetric]])
    show "dp_path (sf_nx ?F) (sf_net ?F) d \<noteq> []" "distances_of (sf_nx ?F) (sf_net ?F) d (sf_distances ?F d)" if "d \<in> sf_dps ?F" for d
      using paths dist that unfolding dps by blast+
    show "plain_stack_port ?F d n" if "n \<in> stack_nums ?F d" for d n using plain nums that by blast
    show "sf_source ?F \<in> sf_dps ?F" by (simp add: dps)
  qed
qed

lemma reflected_flood_once_witness:
  "\<exists>!q. walk (sf_hop example_flood) ((''sw3'', None) # q) \<and> fst (last ((''sw3'', None) # q)) = ''sw2'' \<and>
    (sf_down example_flood (last ((''sw3'', None) # q)) \<or> fst (last ((''sw3'', None) # q)) = ''sw1'')"
proof -
  have "''sw2'' \<in> sf_dps example_flood" "sf_source example_flood = ''sw3''" "sf_root example_flood = ''sw1''"
    by (simp_all add: example_flood_def)
  with reflected_flood_once [OF example_ready, of "''sw2''"] show ?thesis by simp
qed

lemma reflected_flood_local_witness:
  "\<exists>acts. sf_acts example_flood (''sw3'', None) = Inr acts \<and> output_port 11 \<notin> set acts"
proof -
  let ?F = example_flood
  have x: "(''sw3'', None) = (sf_source ?F, None :: int option)" by (simp add: example_flood_def)
  have ok: "sf_ok ?F (''sw3'', None)" "\<not> sf_down ?F (''sw3'', None)" unfolding x by (rule source_ok [OF example_ready])+
  have d: "''sw3'' \<in> sf_dps ?F" and root: "sf_root ?F = ''sw1''" by (simp_all add: example_flood_def)
  have m: "11 \<notin> stack_nums ?F ''sw3''" "11 \<noteq> OFPP_IN_PORT (lib_ofp (sf_lib ?F))"
    by (simp_all add: stack_nums_def example_flood_def resolved_net_def example_stack_def new_stack_def example_ports_def
        example_lib_def of13_def)
  from local_acts_total [OF flood_readyD(7) [OF example_ready d]] obtain l where
    l: "build_flood_local_rule_actions (sf_lib ?F) (sf_vlan ?F ''sw3'') (sf_unicast ?F) (sf_arrival ?F (''sw3'', None)) (sf_external ?F)
      (sf_restricted ?F) = Inr l" by blast
  obtain acts where acts: "sf_acts ?F (''sw3'', None) = Inr acts" by (rule copy_acts [OF ok(1)]) blast
  from reflected_flood_local [OF ok(1) acts _ m(2), of l] m(1) l ok(2) root acts show ?thesis by simp
qed

lemma reflected_flood_tree_witness:
  "sf_sends example_flood (''sw3'', None) (1, example_link ''sw2'' 3) \<and>
   \<not> (\<exists>p. sf_sends example_flood (''sw3'', None) p \<and> p \<noteq> (1, example_link ''sw2'' 3))"
proof -
  let ?F = example_flood
  have x: "(''sw3'', None) = (sf_source ?F, None :: int option)" by (simp add: example_flood_def)
  have ok: "sf_ok ?F (''sw3'', None)" "\<not> sf_down ?F (''sw3'', None)" unfolding x by (rule source_ok [OF example_ready])+
  have root: "sf_root ?F = ''sw1''" by (simp add: example_flood_def)
  have parent: "sf_parent ?F ''sw3'' = Some ''sw2''" unfolding sf_parent_def example_flood_def by code_simp
  have links: "sf_links ?F ''sw3'' ''sw2'' = {(1, example_link ''sw2'' 3)}"
  proof -
    have "filter (\<lambda>p. peer_dp p = ''sw2'') (all_peer_ports resolved_net (nt_stack resolved_net ''sw3'')) = [(1, example_link ''sw2'' 3)]"
      by code_simp
    then have "set (filter (\<lambda>p. peer_dp p = ''sw2'') (all_peer_ports resolved_net (nt_stack resolved_net ''sw3''))) =
        {(1, example_link ''sw2'' 3)}" by simp
    then show ?thesis by (auto simp: sf_links_def links_to_def example_flood_def)
  qed
  from reflected_flood_tree [OF ok(1)] ok(2) root parent links
  have "{p. sf_sends ?F (''sw3'', None) p} = {(1, example_link ''sw2'' 3)}" by simp
  then show ?thesis by blast
qed

end
