(* ===== verification/Valve.thy ===== *)
theory Valve imports Fib AclManager Lacp FlowReorder begin

text \<open>
  The valve of a datapath without a stack, \<^verbatim>\<open>faucet/valve.py\<close>: its managers in the order they are called,
  ports and VLANs coming and going, the handlers of port status, cold start, expiry of state, and the
  small managers \<^verbatim>\<open>valve_lldp.py\<close> (flows), \<^verbatim>\<open>valve_coprocessor.py\<close> and \<^verbatim>\<open>valve_outonly.py\<close>.

  The record \<open>valve\<close> holds the managers and, in \<open>va_switch\<close>, the ports and VLANs of the datapath, which the code's
  managers share. Managers of 802.1X and of stacks are left out; metrics, notifications and logging too.
  A set of port numbers or VLAN ids is a list in the order \<open>lib_shuffle\<close> gives it.
\<close>

unbundle bit_operations_syntax

section \<open>The valve\<close>

text \<open>Of the configuration of a port, what only the managers of this theory read.\<close>

record beacon_conf =
  bc_enable :: bool
  bc_org_tlvs :: "org_tlv list"
  bc_system_name :: "string option"
  bc_port_descr :: "string option"

record port_conf =
  pc_receive_lldp :: bool
  pc_lldp_beacon :: beacon_conf
  pc_coprocessor :: "int option"
  pc_opstatus_reconf :: bool
  pc_acls_in :: "acl list"
  pc_dot1x :: bool

text \<open>The beacons of a datapath: interval, number per interval and name; those of a port, when sent and received.\<close>

record dp_beacon =
  db_send_interval :: int
  db_max_per_interval :: int
  db_system_name :: string

record beacon_dyn =
  bd_last_beacon_time :: "int option"
  bd_recv_time :: "int option"
  bd_recv_state :: "int option"

record valve =
  va_dp_id :: int
  va_switch :: switch_mgr
  va_pipeline :: pipeline
  va_acl :: "acl_manager option"
  va_routes :: "route_mgr list"
  va_copro_table :: "valve_table option"
  va_tables :: "(string, valve_table) dict"
  va_port_confs :: "int \<Rightarrow> port_conf"
  va_vlan_acls :: "int \<Rightarrow> acl list \<times> acl list"
  va_vlan_name :: "int \<Rightarrow> string"
  va_reserved_vlans :: "int list"
  va_groups :: group_table
  va_meters :: "(string, meter) dict"
  va_all_meters :: bool
  va_packetin_pps :: int
  va_slowpath_pps :: int
  va_lowest_priority :: int
  va_low_priority :: int
  va_use_idle_timeout :: bool
  va_lacp_timeout :: int
  va_ignore_learn_ins :: int
  va_global_vlan :: int
  va_cookie :: int
  va_strict_packet_in_cookie :: bool
  va_advertise_interval :: int
  va_fast_advertise_interval :: int
  va_lldp_beacon :: "dp_beacon option"
  va_beacons :: "int \<Rightarrow> beacon_dyn"
  va_up_port_nos :: "int list"
  va_running :: bool
  va_coldstart :: "int option"
  va_packet_in_count_sec :: int
  va_last_packet_in_sec :: int
  va_last_advertise_sec :: int
  va_last_fast_advertise_sec :: int
  va_last_lldp_advertise_sec :: int

record valve_env =
  ve_lib :: lib
  ve_pkt :: pktlib
  ve_route :: routelib
  ve_acl :: acl_lib
  ve_lacp_str :: "lacp_fields \<Rightarrow> string"
  ve_timeouts :: timeouts
  ve_OFPMF_PKTPS :: int
  ve_OFPM_CONTROLLER :: int
  ve_OFPM_SLOWPATH :: int

datatype manager = PipelineManager | SwitchManager | AclManager acl_manager | LldpManager | RouteManager route_mgr
  | CoprocessorManager valve_table | OutputOnlyManager

definition managers :: "valve \<Rightarrow> manager list" where
  "managers va =
     [PipelineManager, SwitchManager] @ (case va_acl va of None \<Rightarrow> [] | Some am \<Rightarrow> [AclManager am]) @ [LldpManager] @
     map RouteManager (va_routes va) @ (case va_copro_table va of None \<Rightarrow> [] | Some t \<Rightarrow> [CoprocessorManager t]) @
     [OutputOnlyManager]"

text \<open>Ports and VLANs. A port is shared by the VLANs it is on.\<close>

definition share_port :: "port \<Rightarrow> vlan \<Rightarrow> vlan" where
  "share_port p v =
     (let upd = map (\<lambda>q. if port_eq q p then p else q)
      in v\<lparr>v_tagged := upd (v_tagged v), v_untagged := upd (v_untagged v), v_dot1x_untagged := upd (v_dot1x_untagged v)\<rparr>)"

definition va_put_port :: "port \<Rightarrow> valve \<Rightarrow> valve" where
  "va_put_port p va =
     (let sm = va_switch va
      in va\<lparr>va_switch := sm\<lparr>sm_ports := dict_set (p_number p) p (sm_ports sm),
                           sm_vlans := map (\<lambda>(vid, v). (vid, share_port p v)) (sm_vlans sm)\<rparr>\<rparr>)"

definition va_port :: "valve \<Rightarrow> int \<Rightarrow> err + port" where
  "va_port va n = dict_getE (sm_ports (va_switch va)) n"

definition va_vlan :: "valve \<Rightarrow> int \<Rightarrow> err + vlan" where
  "va_vlan va vid = dict_getE (sm_vlans (va_switch va)) vid"

definition va_put_vlan :: "int \<Rightarrow> vlan \<Rightarrow> valve \<Rightarrow> valve" where
  "va_put_vlan vid v va = va\<lparr>va_switch := (va_switch va)\<lparr>sm_vlans := dict_set vid v (sm_vlans (va_switch va))\<rparr>\<rparr>"

definition va_vids :: "valve \<Rightarrow> int list" where "va_vids va = dict_keys (sm_vlans (va_switch va))"

definition va_heap :: "valve \<Rightarrow> vlan_heap" where
  "va_heap va = (\<lambda>vid. case dict_get (sm_vlans (va_switch va)) vid of None \<Rightarrow> new_vlan vid | Some v \<Rightarrow> v)"

definition va_put_heap :: "vlan_heap \<Rightarrow> valve \<Rightarrow> valve" where
  "va_put_heap h va =
     va\<lparr>va_switch := (va_switch va)\<lparr>sm_vlans := map (\<lambda>(vid, _). (vid, h vid)) (sm_vlans (va_switch va))\<rparr>\<rparr>"

text \<open>Calls that collect messages.\<close>

type_synonym 'a va_run = "ofmsg list \<times> 'a"

definition collect :: "('x \<Rightarrow> 's \<Rightarrow> err + ofmsg list \<times> 's) \<Rightarrow> 'x list \<Rightarrow> 's \<Rightarrow> err + ofmsg list \<times> 's" where
  "collect f xs s = foldE (\<lambda>x (ms, s). bindE (f x s) (\<lambda>(ms', s). Inr (ms @ ms', s))) xs ([], s)"

definition silent :: "'s \<Rightarrow> err + ofmsg list \<Rightarrow> err + ofmsg list \<times> 's" where
  "silent s r = bindE r (\<lambda>ms. Inr (ms, s))"

section \<open>The small managers\<close>

definition in_port_match :: "port \<Rightarrow> match_args" where
  "in_port_match p = no_match\<lparr>ma_in_port := Some (p_number p)\<rparr>"

definition lldp_match :: "lib \<Rightarrow> port \<Rightarrow> match_args" where
  "lldp_match L p =
     (in_port_match p)\<lparr>ma_eth_dst := Some LLDP_MAC_NEAREST_BRIDGE, ma_eth_dst_mask := Some BRIDGE_GROUP_MASK,
       ma_eth_type := Some (ETH_TYPE_LLDP (lib_ofp L))\<rparr>"

definition lldp_add_port :: "lib \<Rightarrow> valve \<Rightarrow> port \<Rightarrow> err + ofmsg list" where
  "lldp_add_port L va p =
     (let sm = va_switch va
      in if pc_receive_lldp (va_port_confs va (p_number p))
         then bindE (tbl_flowcontroller L (sm_vlan_table sm) (lldp_match L p) (sm_dp_highest_priority sm) [] 128) (\<lambda>m. Inr [m])
         else Inr [])"

definition lldp_del_port :: "lib \<Rightarrow> valve \<Rightarrow> port \<Rightarrow> err + ofmsg list" where
  "lldp_del_port L va p =
     (let sm = va_switch va
      in if pc_receive_lldp (va_port_confs va (p_number p))
         then bindE (tbl_flowdel L (sm_vlan_table sm) (lldp_match L p) (Some (sm_dp_highest_priority sm)) (OFPP_ANY (lib_ofp L)) False)
                (\<lambda>m. Inr [m])
         else Inr [])"

definition output_only_add_port :: "lib \<Rightarrow> valve \<Rightarrow> port \<Rightarrow> err + ofmsg list" where
  "output_only_add_port L va p =
     (let sm = va_switch va
      in if p_output_only p
         then bindE (tbl_flowdrop L (sm_vlan_table sm) (in_port_match p) (sm_dp_highest_priority sm) 0) (\<lambda>m. Inr [m])
         else Inr [])"

definition output_only_del_port :: "lib \<Rightarrow> valve \<Rightarrow> port \<Rightarrow> err + ofmsg list" where
  "output_only_del_port L va p =
     (let sm = va_switch va
      in if p_output_only p
         then bindE (tbl_flowdel L (sm_vlan_table sm) (in_port_match p) (Some (sm_dp_highest_priority sm)) (OFPP_ANY (lib_ofp L)) False)
                (\<lambda>m. Inr [m])
         else Inr [])"

text \<open>The coprocessor outputs a packet to the port whose number the VLAN id of the packet encodes.\<close>

definition copro_output :: "lib \<Rightarrow> valve \<Rightarrow> valve_table \<Rightarrow> int \<Rightarrow> int \<Rightarrow> err + ofmsg" where
  "copro_output L va t vlan_vid_base port_number =
     tbl_flowmod L t (no_match\<lparr>ma_vlan := Some (vlan_vid_base + port_number)\<rparr>)
       (flow_defaults\<lparr>fa_priority := Some (sm_dp_high_priority (va_switch va)),
          fa_inst := [apply_actions [pop_vlan, output_port port_number]]\<rparr>)"

definition copro_add_port :: "lib \<Rightarrow> valve \<Rightarrow> valve_table \<Rightarrow> port \<Rightarrow> err + ofmsg list" where
  "copro_add_port L va t p =
     (let sm = va_switch va
      in case pc_coprocessor (va_port_confs va (p_number p)) of
           None \<Rightarrow> Inr []
         | Some vlan_vid_base \<Rightarrow>
             bindE (vt_goto (sm_vlan_table sm) t) (\<lambda>goto_copro.
             bindE (tbl_flowmod L (sm_vlan_table sm) (in_port_match p)
                      (flow_defaults\<lparr>fa_priority := Some (va_low_priority va), fa_inst := [goto_copro]\<rparr>)) (\<lambda>m1.
             bindE (vt_goto (sm_eth_src_table sm) (sm_output_table sm)) (\<lambda>goto_output.
             bindE (tbl_flowmod L (sm_eth_src_table sm) (in_port_match p)
                      (flow_defaults\<lparr>fa_priority := Some (sm_dp_high_priority sm), fa_inst := [goto_output]\<rparr>)) (\<lambda>m2.
             bindE (mapE (copro_output L va t vlan_vid_base) (dict_keys (sm_ports sm))) (\<lambda>ms.
             Inr (m1 # m2 # ms)))))))"

section \<open>What the managers do\<close>

definition manager_initialise_tables :: "valve_env \<Rightarrow> valve \<Rightarrow> manager \<Rightarrow> err + ofmsg list" where
  "manager_initialise_tables E va m =
     (case m of
        PipelineManager \<Rightarrow> pipeline_initialise_tables (ve_lib E) (va_pipeline va)
      | SwitchManager \<Rightarrow> initialise_flood_table (ve_lib E) (va_switch va)
      | AclManager am \<Rightarrow> acl_initialise_tables (ve_acl E) am
      | _ \<Rightarrow> Inr [])"

definition manager_add_port :: "valve_env \<Rightarrow> valve \<Rightarrow> port \<Rightarrow> manager \<Rightarrow> err + ofmsg list" where
  "manager_add_port E va p m =
     (case m of
        PipelineManager \<Rightarrow> pipeline_add_port (ve_lib E) (va_pipeline va) p
      | SwitchManager \<Rightarrow> switch_add_port (ve_lib E) (ve_pkt E) (va_switch va) p
      | AclManager am \<Rightarrow>
          (let c = va_port_confs va (p_number p) in acl_add_port (ve_acl E) am p (pc_acls_in c) (pc_dot1x c))
      | LldpManager \<Rightarrow> lldp_add_port (ve_lib E) va p
      | RouteManager _ \<Rightarrow> Inr []
      | CoprocessorManager t \<Rightarrow> copro_add_port (ve_lib E) va t p
      | OutputOnlyManager \<Rightarrow> output_only_add_port (ve_lib E) va p)"

definition manager_del_port :: "valve_env \<Rightarrow> valve \<Rightarrow> port \<Rightarrow> manager \<Rightarrow> err + ofmsg list" where
  "manager_del_port E va p m =
     (case m of
        PipelineManager \<Rightarrow> pipeline_del_port (ve_lib E) (va_pipeline va) p
      | SwitchManager \<Rightarrow> switch_del_port (ve_lib E) (va_switch va) p
      | AclManager am \<Rightarrow> acl_del_port (ve_acl E) am p
      | LldpManager \<Rightarrow> lldp_del_port (ve_lib E) va p
      | OutputOnlyManager \<Rightarrow> output_only_del_port (ve_lib E) va p
      | _ \<Rightarrow> Inr [])"

definition manager_add_vlan :: "valve_env \<Rightarrow> bool \<Rightarrow> int \<Rightarrow> manager \<Rightarrow> valve \<Rightarrow> err + ofmsg list \<times> valve" where
  "manager_add_vlan E cold_start vid m va =
     bindE (va_vlan va vid) (\<lambda>v.
     let L = ve_lib E; sm = va_switch va
     in case m of
          SwitchManager \<Rightarrow>
            bindE (switch_add_vlan (standalone L sm) (add_drop_spoofed_faucet_mac_rules L sm (va_pipeline va)) L sm v cold_start
                     (va_groups va)) (\<lambda>(ms, groups). Inr (ms, va\<lparr>va_groups := groups\<rparr>))
        | AclManager am \<Rightarrow> silent va (acl_add_vlan (ve_acl E) am v (fst (va_vlan_acls va vid)) (snd (va_vlan_acls va vid)))
        | RouteManager rm \<Rightarrow> silent va (route_add_vlan L rm (va_heap va) vid cold_start)
        | _ \<Rightarrow> Inr ([], va))"

definition manager_del_vlan :: "valve_env \<Rightarrow> vlan list \<Rightarrow> int \<Rightarrow> manager \<Rightarrow> valve \<Rightarrow> err + ofmsg list \<times> valve" where
  "manager_del_vlan E dp_vlans vid m va =
     bindE (va_vlan va vid) (\<lambda>v.
     let L = ve_lib E
     in case m of
          SwitchManager \<Rightarrow> silent va (switch_del_vlan L (va_switch va) (va_pipeline va) v dp_vlans)
        | AclManager am \<Rightarrow> silent va (acl_del_vlan (ve_acl E) am v)
        | RouteManager rm \<Rightarrow>
            bindE (route_del_vlan L rm (va_heap va) dp_vlans v) (\<lambda>(ms, v). Inr (ms, va_put_vlan vid v va))
        | _ \<Rightarrow> Inr ([], va))"

section \<open>VLANs\<close>

definition valve_add_vlan :: "valve_env \<Rightarrow> bool \<Rightarrow> int \<Rightarrow> valve \<Rightarrow> err + ofmsg list \<times> valve" where
  "valve_add_vlan E cold_start vid va =
     (if vid \<in> set (va_reserved_vlans va) then Inr ([], va)
      else collect (manager_add_vlan E cold_start vid) (managers va) va)"

definition valve_add_vlans :: "valve_env \<Rightarrow> bool \<Rightarrow> int list \<Rightarrow> valve \<Rightarrow> err + ofmsg list \<times> valve" where
  "valve_add_vlans E cold_start vids va = collect (valve_add_vlan E cold_start) vids va"

text \<open>The VLANs of the new configuration, which lose their caches.\<close>

definition valve_del_vlan ::
    "valve_env \<Rightarrow> int \<Rightarrow> (int, vlan) dict \<times> valve \<Rightarrow> err + ofmsg list \<times> (int, vlan) dict \<times> valve" where
  "valve_del_vlan E vid st =
     (case st of (new_vlans, va) \<Rightarrow>
        bindE (collect (manager_del_vlan E (dict_values new_vlans) vid) (managers va) va) (\<lambda>(ms, va).
        Inr (ms, (case dict_get new_vlans vid of None \<Rightarrow> new_vlans | Some v \<Rightarrow> dict_set vid (reset_caches v) new_vlans), va)))"

definition valve_del_vlans ::
    "valve_env \<Rightarrow> int list \<Rightarrow> (int, vlan) dict \<times> valve \<Rightarrow> err + ofmsg list \<times> (int, vlan) dict \<times> valve" where
  "valve_del_vlans E vids st = collect (valve_del_vlan E) vids st"

section \<open>LACP\<close>

definition va_lacp_flows :: "valve_env \<Rightarrow> bool \<Rightarrow> port \<Rightarrow> valve \<Rightarrow> err + ofmsg list \<times> valve" where
  "va_lacp_flows E cold_start p va =
     (let L = ve_lib E; sm = va_switch va
      in if is_port_selected p \<and> is_actor_up p
         then
           bindE (enable_forwarding L sm p) (\<lambda>ms1.
           bindE (valve_add_vlans E False (port_vlans p) va) (\<lambda>(ms2, va). Inr (ms1 @ ms2, va)))
         else
           bindE (disable_forwarding L sm p) (\<lambda>ms1.
           if cold_start then Inr (ms1, va)
           else
             bindE (switch_del_port L sm p) (\<lambda>ms2.
             bindE (switch_add_port L (ve_pkt E) sm p) (\<lambda>ms3.
             bindE (valve_add_vlans E False (port_vlans p) va) (\<lambda>(ms4, va). Inr (ms1 @ ms2 @ ms3 @ ms4, va))))))"

definition valve_lacp_update ::
    "valve_env \<Rightarrow> bool \<Rightarrow> int option \<Rightarrow> lacp_pkt option \<Rightarrow> bool \<Rightarrow> port \<Rightarrow> valve \<Rightarrow> err + ofmsg list \<times> valve" where
  "valve_lacp_update E lacp_up now lacp cold_start p va =
     (let (updated, p) = lacp_states (get_lacp_dpid_nomination (va_dp_id va)) (va_dp_id va) lacp_up now lacp cold_start p;
          va = va_put_port p va
      in if updated then va_lacp_flows E cold_start p va else Inr ([], va))"

section \<open>Ports\<close>

definition va_port_valid :: "valve_env \<Rightarrow> valve \<Rightarrow> int \<Rightarrow> bool" where
  "va_port_valid E va n \<longleftrightarrow> \<not> ignore_port (lib_ofp (ve_lib E)) n \<and> dict_get (sm_ports (va_switch va)) n \<noteq> None"

text \<open>The ports one after the other, with the VLANs they are on.\<close>

definition valve_port_up ::
    "valve_env \<Rightarrow> bool \<Rightarrow> int \<Rightarrow> int list \<times> valve \<Rightarrow> err + ofmsg list \<times> int list \<times> valve" where
  "valve_port_up E cold_start port_num st =
     (case st of (vids, va) \<Rightarrow>
        if \<not> va_port_valid E va port_num then Inr ([], vids, va)
        else
          bindE (va_port va port_num) (\<lambda>p.
          let p = p\<lparr>p_dyn_phys_up := True\<rparr>; va = va_put_port p va
          in if \<not> running p then Inr ([], vids, va)
             else
               bindE (mapE (manager_add_port E va p) (managers va)) (\<lambda>mss.
               bindE (if p_lacp p \<noteq> 0 then valve_lacp_update E False None None cold_start p va else Inr ([], va)) (\<lambda>(ms, va).
               Inr (concat mss @ ms, remdups (vids @ port_vlans p), va)))))"

definition ports_add :: "valve_env \<Rightarrow> bool \<Rightarrow> int list \<Rightarrow> valve \<Rightarrow> err + ofmsg list \<times> valve" where
  "ports_add E cold_start port_nums va =
     bindE (collect (valve_port_up E cold_start) port_nums ([], va)) (\<lambda>(ms1, vids, va).
     if cold_start then Inr (ms1, va)
     else bindE (valve_add_vlans E False (lib_shuffle (ve_lib E) vids) va) (\<lambda>(ms2, va). Inr (ms1 @ ms2, va)))"

definition valve_port_add :: "valve_env \<Rightarrow> int \<Rightarrow> valve \<Rightarrow> err + ofmsg list \<times> valve" where
  "valve_port_add E port_num va = ports_add E False [port_num] va"

definition set_port_status :: "int \<Rightarrow> bool \<Rightarrow> int \<Rightarrow> valve \<Rightarrow> valve" where
  "set_port_status port_no port_status now va =
     (let va = va\<lparr>va_up_port_nos := (if port_status then List.insert port_no (va_up_port_nos va)
                                    else filter (\<lambda>n. n \<noteq> port_no) (va_up_port_nos va))\<rparr>
      in case dict_get (sm_ports (va_switch va)) port_no of
           None \<Rightarrow> va
         | Some p \<Rightarrow> va_put_port (p\<lparr>p_dyn_update_time := Some now\<rparr>) va)"

definition port_delete_flows_state :: "valve_env \<Rightarrow> bool \<Rightarrow> port \<Rightarrow> valve \<Rightarrow> err + ofmsg list \<times> valve" where
  "port_delete_flows_state E keep_cache p va =
     bindE (collect (\<lambda>rm va. bindE (expire_port_nexthops (ve_lib E) rm p (va_heap va)) (\<lambda>(ms, h). Inr (ms, va_put_heap h va)))
              (va_routes va) va) (\<lambda>(ms1, va).
     bindE (mapE (manager_del_port E va p) (managers va)) (\<lambda>mss.
     bindE (if keep_cache then Inr va
            else foldE (\<lambda>vid va. bindE (va_vlan va vid) (\<lambda>v. bindE (clear_cache_hosts_on_port p v) (\<lambda>v. Inr (va_put_vlan vid v va))))
                   (port_vlans p) va) (\<lambda>va.
     Inr (ms1 @ concat mss, va))))"

text \<open>\<open>now\<close> is given when the datapath disconnects.\<close>

definition valve_port_down ::
    "valve_env \<Rightarrow> bool \<Rightarrow> int option \<Rightarrow> int \<Rightarrow> int list \<times> valve \<Rightarrow> err + ofmsg list \<times> int list \<times> valve" where
  "valve_port_down E keep_cache now port_num st =
     (case st of (vids, va) \<Rightarrow>
        if \<not> va_port_valid E va port_num then Inr ([], vids, va)
        else
          bindE (va_port va port_num) (\<lambda>p.
          let va = va_put_port (p\<lparr>p_dyn_phys_up := False\<rparr>) va;
              va = (case now of None \<Rightarrow> va | Some t \<Rightarrow> if t = 0 then va else set_port_status port_num False t va)
          in bindE (va_port va port_num) (\<lambda>p.
             bindE (if p_lacp p \<noteq> 0 then valve_lacp_update E False None None False p va
                    else port_delete_flows_state E keep_cache p va) (\<lambda>(ms, va).
             Inr (ms, remdups (vids @ port_vlans p), va)))))"

definition valve_update_vlan :: "valve_env \<Rightarrow> int \<Rightarrow> valve \<Rightarrow> err + ofmsg list \<times> valve" where
  "valve_update_vlan E vid va =
     bindE (va_vlan va vid) (\<lambda>v.
     bindE (switch_update_vlan (standalone (ve_lib E) (va_switch va)) (ve_lib E) (va_switch va) v (va_groups va)) (\<lambda>(ms, groups).
     Inr (ms, va\<lparr>va_groups := groups\<rparr>)))"

definition ports_delete :: "valve_env \<Rightarrow> bool \<Rightarrow> int option \<Rightarrow> int list \<Rightarrow> valve \<Rightarrow> err + ofmsg list \<times> valve" where
  "ports_delete E keep_cache now port_nums va =
     bindE (collect (valve_port_down E keep_cache now) port_nums ([], va)) (\<lambda>(ms1, vids, va).
     bindE (collect (valve_update_vlan E) (lib_shuffle (ve_lib E) vids) va) (\<lambda>(ms2, va).
     Inr (ms1 @ ms2, va)))"

definition valve_port_delete :: "valve_env \<Rightarrow> bool \<Rightarrow> int \<Rightarrow> valve \<Rightarrow> err + ofmsg list \<times> valve" where
  "valve_port_delete E keep_cache port_num va = ports_delete E keep_cache None [port_num] va"

section \<open>Port status\<close>

definition port_status_from_state :: "ofp \<Rightarrow> int \<Rightarrow> bool" where
  "port_status_from_state K state \<longleftrightarrow> state AND OFPPS_LINK_DOWN K = 0"

definition port_status_codes :: "ofp \<Rightarrow> (int, string) dict" where
  "port_status_codes K = [(OFPPR_ADD K, ''ADD''), (OFPPR_DELETE K, ''DELETE''), (OFPPR_MODIFY K, ''MODIFY'')]"

text \<open>A result \<open>None\<close> is the empty dict of messages by valve.\<close>

definition port_status_handler ::
    "valve_env \<Rightarrow> int \<Rightarrow> int \<Rightarrow> int \<Rightarrow> int \<Rightarrow> valve \<Rightarrow> err + ofmsg list option \<times> valve" where
  "port_status_handler E port_no reason state now va =
     (let K = lib_ofp (ve_lib E);
          port_status = port_status_from_state K state;
          va = set_port_status port_no port_status now va
      in if \<not> va_port_valid E va port_no then Inr (None, va)
         else
           bindE (va_port va port_no) (\<lambda>p.
           if \<not> pc_opstatus_reconf (va_port_confs va port_no) then Inr (None, va)
           else if dict_get (port_status_codes K) reason = None then Inr (None, va)
           else
             let new_port_status = (reason = OFPPR_ADD K \<or> reason = OFPPR_MODIFY K \<and> port_status);
                 blocked_down_state = (state AND OFPPS_BLOCKED K \<noteq> 0 \<or> state AND OFPPS_LINK_DOWN K \<noteq> 0)
             in bindE (if new_port_status \<noteq> p_dyn_phys_up p
                       then if new_port_status then valve_port_add E port_no va else valve_port_delete E True port_no va
                       else if new_port_status \<and> blocked_down_state then valve_port_delete E True port_no va
                       else Inr ([], va)) (\<lambda>(ms, va).
                Inr (Some ms, va))))"

definition fabricate ::
    "valve_env \<Rightarrow> int \<Rightarrow> int \<times> int \<times> bool \<Rightarrow> valve \<Rightarrow> err + ofmsg list \<times> valve" where
  "fabricate E now event va =
     (case event of (port_no, reason, status) \<Rightarrow>
        bindE (port_status_handler E port_no reason (if status then 0 else OFPPS_LINK_DOWN (lib_ofp (ve_lib E))) now va) (\<lambda>(r, va).
        Inr (case r of None \<Rightarrow> [] | Some ms \<Rightarrow> ms, va)))"

text \<open>The events a description of the ports gives rise to: of a port without, and with configuration.\<close>

definition no_conf_event :: "ofp \<Rightarrow> int list \<Rightarrow> int list \<Rightarrow> int \<Rightarrow> (int \<times> int \<times> bool) list" where
  "no_conf_event K prev_up_nos curr_up_nos port_no =
     (let prev_up = (port_no \<in> set prev_up_nos); curr_up = (port_no \<in> set curr_up_nos)
      in if prev_up \<noteq> curr_up then [(port_no, OFPPR_MODIFY K, curr_up)] else [])"

definition conf_event :: "ofp \<Rightarrow> int list \<Rightarrow> int list \<Rightarrow> int list \<Rightarrow> int \<Rightarrow> (int \<times> int \<times> bool) list" where
  "conf_event K dyn_port_nos prev_up_nos curr_up_nos port_no =
     (let prev_up = (port_no \<in> set prev_up_nos); curr_up = (port_no \<in> set curr_up_nos)
      in if prev_up = curr_up then []
         else if port_no \<in> set dyn_port_nos
         then if \<not> prev_up then [(port_no, OFPPR_ADD K, True)] else [(port_no, OFPPR_MODIFY K, curr_up)]
         else [(port_no, OFPPR_DELETE K, False)])"

definition port_desc_events :: "lib \<Rightarrow> (int \<times> int) list \<Rightarrow> valve \<Rightarrow> (int \<times> int \<times> bool) list" where
  "port_desc_events L port_desc_stats va =
     (let K = lib_ofp L;
          curr_dyn_port_nos = filter (\<lambda>n. n \<noteq> OFPP_LOCAL K) (remdups (map fst port_desc_stats));
          prev_up_nos = va_up_port_nos va;
          curr_up_nos = map fst (filter (\<lambda>(_, state). port_status_from_state K state) port_desc_stats);
          conf_port_nos = dict_keys (sm_ports (va_switch va));
          no_conf_port_nos = filter (\<lambda>n. n \<notin> set conf_port_nos) curr_dyn_port_nos
      in concat (map (no_conf_event K prev_up_nos curr_up_nos) (lib_shuffle L no_conf_port_nos)) @
         concat (map (conf_event K curr_dyn_port_nos prev_up_nos curr_up_nos) (lib_shuffle L conf_port_nos)))"

definition port_desc_stats_reply_handler ::
    "valve_env \<Rightarrow> (int \<times> int) list \<Rightarrow> int \<Rightarrow> valve \<Rightarrow> err + ofmsg list \<times> valve" where
  "port_desc_stats_reply_handler E port_desc_stats now va =
     collect (fabricate E now) (port_desc_events (ve_lib E) port_desc_stats va) va"

section \<open>Connecting\<close>

definition faucet_config :: ofmsg where "faucet_config = SetConfigMsg"

definition faucet_async :: "bool \<Rightarrow> bool \<Rightarrow> bool \<Rightarrow> ofmsg" where
  "faucet_async notify_flow_removed packet_in port_status = SetAsyncMsg packet_in port_status notify_flow_removed"

definition desc_stats_request :: ofmsg where "desc_stats_request = DescStatsMsg"

definition delete_all_valve_flows :: "valve_env \<Rightarrow> valve \<Rightarrow> err + ofmsg list \<times> valve" where
  "delete_all_valve_flows E va =
     (let L = ve_lib E; K = lib_ofp L
      in bindE (vt_flowdel K (lib_recirc L) (wildcard_table K) [] None (OFPP_ANY K) False) (\<lambda>m.
         let ms = m # (if va_all_meters va \<or> va_packetin_pps va \<noteq> 0 \<or> va_slowpath_pps va \<noteq> 0 then [meterdel (OFPM_ALL K)] else [])
         in if sm_use_group_table (va_switch va)
            then let (dels, groups) = delete_all_groups K in Inr (ms @ [dels], va\<lparr>va_groups := groups\<rparr>)
            else Inr (ms, va)))"

definition switch_features :: "valve_env \<Rightarrow> valve \<Rightarrow> err + ofmsg list \<times> valve" where
  "switch_features E va =
     bindE (delete_all_valve_flows E va) (\<lambda>(ms, va).
     Inr ([faucet_config, faucet_async False False False, desc_stats_request] @ ms, va))"

definition default_drop_flow :: "valve_env \<Rightarrow> valve \<Rightarrow> valve_table \<Rightarrow> err + ofmsg" where
  "default_drop_flow E va t =
     (case tc_miss_goto (vt_config t) of
        Some miss_table_name \<Rightarrow>
          bindE (dict_getE (va_tables va) miss_table_name) (\<lambda>miss_table.
          bindE (goto_miss t miss_table) (\<lambda>inst.
          tbl_flowmod (ve_lib E) t no_match (flow_defaults\<lparr>fa_priority := Some (va_lowest_priority va), fa_inst := [inst]\<rparr>)))
      | None \<Rightarrow> tbl_flowdrop (ve_lib E) t no_match (va_lowest_priority va) 0)"

definition add_default_drop_flows :: "valve_env \<Rightarrow> valve \<Rightarrow> err + ofmsg list" where
  "add_default_drop_flows E va = mapE (default_drop_flow E va) (dict_values (va_tables va))"

definition pps_meteradd :: "valve_env \<Rightarrow> int \<Rightarrow> int \<Rightarrow> ofmsg" where
  "pps_meteradd E meter_id pps =
     MeterModMsg \<lparr>mm_command = OFPMC_ADD, mm_flags = ve_OFPMF_PKTPS E, mm_meter_id = meter_id, mm_rates = [pps]\<rparr>"

definition add_packetin_meter :: "valve_env \<Rightarrow> valve \<Rightarrow> ofmsg list" where
  "add_packetin_meter E va = (if va_packetin_pps va \<noteq> 0 then [pps_meteradd E (ve_OFPM_CONTROLLER E) (va_packetin_pps va)] else [])"

definition add_slowpath_meter :: "valve_env \<Rightarrow> valve \<Rightarrow> ofmsg list" where
  "add_slowpath_meter E va = (if va_slowpath_pps va \<noteq> 0 then [pps_meteradd E (ve_OFPM_SLOWPATH E) (va_slowpath_pps va)] else [])"

definition add_default_flows :: "valve_env \<Rightarrow> valve \<Rightarrow> err + ofmsg list \<times> valve" where
  "add_default_flows E va =
     bindE (delete_all_valve_flows E va) (\<lambda>(dels, va).
     bindE (mapE (\<lambda>meter. al_mod_meter (ve_acl E) (mt_entry meter)) (dict_values (va_meters va))) (\<lambda>meters.
     bindE (add_default_drop_flows E va) (\<lambda>drops.
     Inr (dels @ add_packetin_meter E va @ add_slowpath_meter E va @ meters @ drops, va))))"

text \<open>Ports that are configured for something: output only, coprocessors, and the ports of VLANs.\<close>

definition all_configured_port_nos :: "valve \<Rightarrow> int list" where
  "all_configured_port_nos va =
     (let ports = dict_values (sm_ports (va_switch va));
          non_vlan_ports = filter p_output_only ports @ filter (\<lambda>p. pc_coprocessor (va_port_confs va (p_number p)) \<noteq> None) ports
      in remdups (map p_number (non_vlan_ports @ concat (map get_ports (dict_values (sm_vlans (va_switch va)))))))"

definition get_ports_status :: "int list \<Rightarrow> int list \<Rightarrow> (int \<times> bool) list \<times> int list" where
  "get_ports_status discovered_up_port_nos configured_port_nos =
     (let port_status = map (\<lambda>n. (n, n \<in> set discovered_up_port_nos)) configured_port_nos
      in (port_status, map fst (filter snd port_status)))"

definition cold_start_ports_and_vlans :: "valve_env \<Rightarrow> int \<Rightarrow> int list \<Rightarrow> valve \<Rightarrow> err + ofmsg list \<times> valve" where
  "cold_start_ports_and_vlans E now discovered_up_port_nos va =
     (let L = ve_lib E;
          always_up_port_nos = map p_number (filter (\<lambda>p. \<not> pc_opstatus_reconf (va_port_confs va (p_number p)))
            (dict_values (sm_ports (va_switch va))));
          (port_status, all_up_port_nos) =
            get_ports_status (discovered_up_port_nos @ always_up_port_nos) (lib_shuffle L (all_configured_port_nos va));
          va = foldl (\<lambda>va (port_no, status). set_port_status port_no status now va) va port_status
      in bindE (add_default_flows E va) (\<lambda>(ms1, va).
         bindE (mapE (manager_initialise_tables E va) (managers va)) (\<lambda>mss.
         bindE (ports_add E True (lib_shuffle L all_up_port_nos) va) (\<lambda>(ms3, va).
         bindE (valve_add_vlans E True (va_vids va) va) (\<lambda>(ms4, va).
         Inr (ms1 @ concat mss @ [faucet_async (va_use_idle_timeout va) True True] @ ms3 @ ms4, va))))))"

definition dp_cold_start :: "int \<Rightarrow> valve \<Rightarrow> valve" where
  "dp_cold_start now va =
     va\<lparr>va_coldstart := Some now, va_running := True,
        va_switch := (va_switch va)\<lparr>sm_vlans := map (\<lambda>(vid, v). (vid, reset_caches v)) (sm_vlans (va_switch va))\<rparr>\<rparr>"

definition datapath_connect :: "valve_env \<Rightarrow> int \<Rightarrow> int list \<Rightarrow> valve \<Rightarrow> err + ofmsg list \<times> valve" where
  "datapath_connect E now discovered_up_ports va =
     bindE (cold_start_ports_and_vlans E now discovered_up_ports va) (\<lambda>(ms, va). Inr (ms, dp_cold_start now va))"

text \<open>The messages for the ports are not sent.\<close>

definition datapath_disconnect :: "valve_env \<Rightarrow> int \<Rightarrow> valve \<Rightarrow> err + valve" where
  "datapath_disconnect E now va =
     (let va = va\<lparr>va_running := False\<rparr>
      in bindE (ports_delete E False (Some now) (dict_keys (sm_ports (va_switch va))) va) (\<lambda>(_, va). Inr va))"

section \<open>LLDP\<close>

definition STACK_DISPLAY_DICT :: "(int, string) dict" where
  "STACK_DISPLAY_DICT = map (\<lambda>s. (stack_state_num s, stack_state_name s))
     [STACK_STATE_ADMIN_DOWN, STACK_STATE_INIT, STACK_STATE_BAD, STACK_STATE_UP, STACK_STATE_GONE, STACK_STATE_NONE]"

text \<open>
  The text of the log of a new remote state can raise: the name of a state is looked up, and \<open>%u\<close> takes no
  \<open>None\<close>. What is logged when nothing raises is left out.
\<close>

definition log_remote_state :: "int option \<Rightarrow> int option \<Rightarrow> err + unit" where
  "log_remote_state remote_port_id remote_port_state =
     (case remote_port_state of
        None \<Rightarrow> Inr ()
      | Some state \<Rightarrow>
          if state = 0 then Inr ()
          else bindE (dict_getE STACK_DISPLAY_DICT state) (\<lambda>_.
               case remote_port_id of None \<Rightarrow> Inl TypeError | Some _ \<Rightarrow> Inr ()))"

definition put_beacon :: "int \<Rightarrow> beacon_dyn \<Rightarrow> valve \<Rightarrow> valve" where
  "put_beacon n b va = va\<lparr>va_beacons := (va_beacons va)(n := b)\<rparr>"

definition lldp_received :: "int \<Rightarrow> int option \<Rightarrow> int option \<Rightarrow> beacon_dyn \<Rightarrow> err + beacon_dyn" where
  "lldp_received now remote_port_id remote_port_state b =
     (let b = b\<lparr>bd_recv_time := Some now\<rparr>
      in if bd_recv_state b = remote_port_state then Inr b
         else bindE (log_remote_state remote_port_id remote_port_state) (\<lambda>_. Inr (b\<lparr>bd_recv_state := remote_port_state\<rparr>)))"

text \<open>On a datapath without stack ports nothing is verified, and no messages result.\<close>

definition lldp_handler :: "valve_env \<Rightarrow> int \<Rightarrow> pkt_meta \<Rightarrow> valve \<Rightarrow> err + valve" where
  "lldp_handler E now m va =
     (let K = lib_ofp (ve_lib E); P = ve_pkt E; n = p_number (pm_port m)
      in if pm_eth_type m \<noteq> ETH_TYPE_LLDP K then Inr va
         else
           bindE (reparse_all K P m) (\<lambda>m.
           case pm_pkt m of
             None \<Rightarrow> Inl AttributeError
           | Some pkt \<Rightarrow>
               (case parse_lldp pkt of
                  None \<Rightarrow> Inr va
                | Some lldp_pkt \<Rightarrow>
                    bindE (parse_faucet_lldp P lldp_pkt (sm_faucet_dp_mac (va_switch va))) (\<lambda>(_, _, remote_port_id, remote_port_state).
                    bindE (lldp_received now remote_port_id remote_port_state (va_beacons va n)) (\<lambda>b.
                    Inr (put_beacon n b va))))))"

text \<open>Beacons are sent on the ports that have them enabled, so many in an interval.\<close>

definition lldp_beacon_ports :: "valve \<Rightarrow> port list" where
  "lldp_beacon_ports va =
     filter (\<lambda>p. bc_enable (pc_lldp_beacon (va_port_confs va (p_number p)))) (dict_values (sm_ports (va_switch va)))"

text \<open>The slice \<open>xs[:n]\<close>.\<close>

definition py_take :: "int \<Rightarrow> 'a list \<Rightarrow> 'a list" where
  "py_take n xs = take (nat (if n < 0 then int (length xs) + n else n)) xs"

definition shuffle_ports :: "lib \<Rightarrow> port list \<Rightarrow> port list" where
  "shuffle_ports L ps = concat (map (\<lambda>n. filter (\<lambda>p. p_number p = n) ps) (lib_shuffle L (map p_number ps)))"

definition lldp_beacon_send_ports :: "valve_env \<Rightarrow> int \<Rightarrow> valve \<Rightarrow> port list" where
  "lldp_beacon_send_ports E now va =
     (case va_lldp_beacon va of
        None \<Rightarrow> []
      | Some b \<Rightarrow>
          let cutoff_beacon_time = now - db_send_interval b;
              nonpriority_ports = filter (\<lambda>p. running p \<and>
                (case bd_last_beacon_time (va_beacons va (p_number p)) of None \<Rightarrow> True | Some t \<Rightarrow> t < cutoff_beacon_time))
                (lldp_beacon_ports va)
              in py_take (db_max_per_interval b) (shuffle_ports (ve_lib E) nonpriority_ports))"

definition send_lldp_beacon_on_port :: "valve_env \<Rightarrow> int \<Rightarrow> dp_beacon \<Rightarrow> port \<Rightarrow> valve \<Rightarrow> ofmsg \<times> valve" where
  "send_lldp_beacon_on_port E now b p va =
     (let P = ve_pkt E; L = ve_lib E; n = p_number p; mac = sm_faucet_dp_mac (va_switch va);
          c = pc_lldp_beacon (va_port_confs va n);
          ttl = min (db_send_interval b * 3) (2 ^ 16 - 1);
          org_tlvs = bc_org_tlvs c @ faucet_lldp_tlvs P mac (va_dp_id va) @ faucet_lldp_stack_state_tlvs P mac p;
          system_name = (case bc_system_name c of None \<Rightarrow> db_system_name b | Some s \<Rightarrow> if s = [] then db_system_name b else s);
          pkt = lldp_beacon (lib_ofp L) P mac mac n ttl (Some org_tlvs) (Some system_name) (bc_port_descr c)
      in (packetout (lib_shuffle L) n (pl_serialize P pkt),
          put_beacon n ((va_beacons va n)\<lparr>bd_last_beacon_time := Some now\<rparr>) va))"

definition fast_advertise :: "valve_env \<Rightarrow> int \<Rightarrow> valve \<Rightarrow> err + ofmsg list \<times> valve" where
  "fast_advertise E now va =
     (if va_fast_advertise_interval va = 0 \<or> now - va_last_fast_advertise_sec va < va_fast_advertise_interval va
      then Inr ([], va)
      else
        let va = va\<lparr>va_last_fast_advertise_sec := now\<rparr>; sm = va_switch va;
            lacp_active_ports = filter (\<lambda>p. p_lacp p \<noteq> 0 \<and> p_lacp_active p) (dict_values (sm_ports sm))
        in bindE (mapE (lacp_advertise (ve_lib E) (ve_pkt E) sm) lacp_active_ports) (\<lambda>mss.
           case va_lldp_beacon va of
             None \<Rightarrow> Inr (concat mss, va\<lparr>va_last_lldp_advertise_sec := now\<rparr>)
           | Some b \<Rightarrow>
               if now - va_last_lldp_advertise_sec va < db_send_interval b then Inr (concat mss, va)
               else
                 let (ms, va) = foldl (\<lambda>(ms, va) p. let (m, va) = send_lldp_beacon_on_port E now b p va in (ms @ [m], va))
                                  ([], va) (lldp_beacon_send_ports E now va)
                 in Inr (concat mss @ ms, va\<lparr>va_last_lldp_advertise_sec := now\<rparr>)))"

definition fast_state_expire :: "int \<Rightarrow> valve \<Rightarrow> err + valve" where
  "fast_state_expire now va =
     (case va_lldp_beacon va of
        None \<Rightarrow> Inr va
      | Some b \<Rightarrow>
          foldE (\<lambda>p va.
            let d = va_beacons va (p_number p)
            in if bd_recv_state d \<in> {None, Some 0} then Inr va
               else case bd_recv_time d of
                 None \<Rightarrow> Inl TypeError
               | Some t \<Rightarrow>
                   if now - t > db_send_interval b * p_max_lldp_lost p then Inr (put_beacon (p_number p) (d\<lparr>bd_recv_state := None\<rparr>) va)
                   else Inr va)
            (dict_values (sm_ports (va_switch va))) va)"

section \<open>Packets\<close>

definition valve_lacp_handler :: "valve_env \<Rightarrow> int \<Rightarrow> pkt_meta \<Rightarrow> valve \<Rightarrow> err + ofmsg list option \<times> valve" where
  "valve_lacp_handler E now m va =
     (let L = ve_lib E; P = ve_pkt E
      in bindE (va_port va (p_number (pm_port m))) (\<lambda>p.
         if pm_eth_dst m = SLOW_PROTOCOL_MULTICAST \<and> pm_eth_type m = ETH_TYPE_SLOW (lib_ofp L) \<and> p_lacp p \<noteq> 0
         then
           bindE (reparse_all (lib_ofp L) P (m\<lparr>pm_data := take (nat LACP_SIZE) (pm_data m)\<rparr>)) (\<lambda>m.
           case pm_pkt m of
             None \<Rightarrow> Inl AttributeError
           | Some pkt \<Rightarrow>
               (case parse_lacp_pkt pkt of
                  None \<Rightarrow> Inr (None, va)
                | Some l \<Rightarrow>
                    let lacp = lacp_of_fields (ve_lacp_str E) l
                    in bindE (lacp_answer L P (va_switch va) now lacp p) (\<lambda>(ms1, p).
                       bindE (valve_lacp_update E (lp_actor_state_synchronization lacp) (Some now) (Some lacp) False p (va_put_port p va))
                         (\<lambda>(ms2, va).
                       Inr (Some (ms1 @ ms2), va)))))
         else Inr (None, va)))"

definition non_vlan_rcv_packet :: "valve_env \<Rightarrow> int \<Rightarrow> pkt_meta \<Rightarrow> valve \<Rightarrow> err + ofmsg list \<times> valve" where
  "non_vlan_rcv_packet E now m va =
     bindE (va_port va (p_number (pm_port m))) (\<lambda>p.
     bindE (if p_lacp p \<noteq> 0 then valve_lacp_handler E now m va else Inr (None, va)) (\<lambda>(r, va).
     case r of
       Some ms \<Rightarrow> Inr (ms, va)
     | None \<Rightarrow> bindE (lldp_handler E now m va) (\<lambda>va. Inr ([], va))))"

text \<open>The ban rules, learning of \<open>Learning\<close>, and the router.\<close>

definition va_learn :: "valve_env \<Rightarrow> int \<Rightarrow> int \<Rightarrow> int \<Rightarrow> int \<Rightarrow> valve \<Rightarrow> err + ofmsg list \<times> valve" where
  "va_learn E now port_no vid eth_src va =
     bindE (learn_host (ve_lib E) (ve_timeouts E) (va_pipeline va) (va_coldstart va) now port_no vid eth_src (va_switch va)) (\<lambda>(ms, sm).
     let va = va\<lparr>va_switch := sm\<rparr>
     in bindE (va_port va port_no) (\<lambda>p. Inr (ms, va_put_port p va)))"

definition vlan_packet :: "valve_env \<Rightarrow> int \<Rightarrow> pkt_meta \<Rightarrow> int \<Rightarrow> valve \<Rightarrow> err + ofmsg list \<times> valve" where
  "vlan_packet E now m vid va =
     (let L = ve_lib E; n = p_number (pm_port m); eth_src = pm_eth_src m
      in bindE (va_port va n) (\<lambda>p.
         bindE (va_vlan va vid) (\<lambda>v.
         bindE (ban_rules L (va_switch va) eth_src p v) (\<lambda>(bans, p, v).
         let va = va_put_port p (va_put_vlan vid v va)
         in if bans \<noteq> [] then Inr (bans, va)
            else
              bindE (if pm_reason m = OFPR_ACTION (lib_ofp L) then va_learn E now n vid eth_src va else Inr ([], va)) (\<lambda>(ms1, va).
              bindE (router_rcv_packet L (ve_pkt E) (ve_route E) (va_routes va) now m (va_heap va)) (\<lambda>(ms2, h).
              Inr (ms1 @ ms2, va_put_heap h va)))))))"

definition rcv_packet :: "valve_env \<Rightarrow> int \<Rightarrow> pkt_meta \<Rightarrow> valve \<Rightarrow> err + ofmsg list \<times> valve" where
  "rcv_packet E now m va =
     (case pm_vlan m of None \<Rightarrow> non_vlan_rcv_packet E now m va | Some v \<Rightarrow> vlan_packet E now m (v_vid v) va)"

definition rate_limit_packet_ins :: "int \<Rightarrow> valve \<Rightarrow> bool \<times> valve" where
  "rate_limit_packet_ins now va =
     (let va = (if va_last_packet_in_sec va \<noteq> now then va\<lparr>va_last_packet_in_sec := now, va_packet_in_count_sec := 0\<rparr> else va);
          va = va\<lparr>va_packet_in_count_sec := va_packet_in_count_sec va + 1\<rparr>
      in (va_ignore_learn_ins va \<noteq> 0 \<and> va_packet_in_count_sec va mod va_ignore_learn_ins va = 0, va))"

text \<open>A message of a packet received.\<close>

record packet_in =
  pkin_cookie :: int
  pkin_reason :: int
  pkin_match :: "(string, int) dict option"
  pkin_data :: "int list"
  pkin_total_len :: nat

definition mac_number :: "pktlib \<Rightarrow> string \<Rightarrow> int" where
  "mac_number P mac = unpacked (pl_mac_bin P mac)"

definition parse_rcv_packet :: "valve_env \<Rightarrow> packet_in \<Rightarrow> port \<Rightarrow> int list \<Rightarrow> string \<times> string \<times> int \<Rightarrow> parsed \<Rightarrow> valve \<Rightarrow> err + pkt_meta" where
  "parse_rcv_packet E msg p data eth r va =
     (case eth of (eth_dst, eth_src, ethertype) \<Rightarrow>
        let vlans = sm_vlans (va_switch va);
            vlan = (case pi_vlan_vid r of None \<Rightarrow> None | Some vid \<Rightarrow> dict_get vlans vid);
            m = \<lparr>pm_reason = pkin_reason msg, pm_data = data, pm_orig_len = pkin_total_len msg, pm_pkt = pi_pkt r,
                 pm_pkt_data = pi_pkt_data r, pm_eth_pkt = Some (eth_dst, eth_src, ethertype), pm_vlan_pkt = pi_vlan_pkt r, pm_port = p, pm_vlan = vlan,
                 pm_eth_src = mac_number (ve_pkt E) eth_src, pm_eth_dst = eth_dst,
                 pm_eth_type = (case pi_eth_type r of None \<Rightarrow> ethertype | Some t \<Rightarrow> t), pm_l3_pkt = None, pm_l3_src = None, pm_l3_dst = None\<rparr>
        in if pi_vlan_vid r = Some (va_global_vlan va)
           then bindE (int_from_mac eth_dst) (\<lambda>vid.
                case dict_get vlans vid of
                  None \<Rightarrow> Inr (m\<lparr>pm_vlan := None\<rparr>)
                | Some v \<Rightarrow> Inr (m\<lparr>pm_vlan := Some v, pm_eth_dst := v_faucet_mac v\<rparr>))
           else Inr m)"

definition parse_pkt_meta :: "valve_env \<Rightarrow> packet_in \<Rightarrow> valve \<Rightarrow> err + pkt_meta option" where
  "parse_pkt_meta E msg va =
     (let K = lib_ofp (ve_lib E); P = ve_pkt E
      in if \<not> va_running va then Inr None
         else if va_strict_packet_in_cookie va \<and> va_cookie va \<noteq> pkin_cookie msg then Inr None
         else if pkin_reason msg \<notin> {OFPR_ACTION K, OFPR_INVALID_TTL K} then Inr None
         else case pkin_match msg of
           None \<Rightarrow> Inr None
         | Some match \<Rightarrow>
             bindE (dict_getE match ''in_port'') (\<lambda>in_port.
             if in_port = 0 \<or> \<not> va_port_valid E va in_port then Inr None
             else if pkin_data msg = [] then Inr None
             else
               let data = take (nat MAX_PACKET_IN_BYTES) (pkin_data msg)
               in bindE (parse_packet_in_pkt K P data ETH_VLAN_HEADER_SIZE None None) (\<lambda>r.
                  case (pi_pkt r, pi_eth_pkt r) of
                    (Some _, Some (eth_dst, eth_src, ethertype)) \<Rightarrow>
                      let known = (case pi_vlan_vid r of None \<Rightarrow> True
                                   | Some vid \<Rightarrow> dict_get (sm_vlans (va_switch va)) vid \<noteq> None \<or> vid = va_global_vlan va)
                      in if \<not> known then Inr None
                         else
                           bindE (va_port va in_port) (\<lambda>p.
                           bindE (parse_rcv_packet E msg p data (eth_dst, eth_src, ethertype) r va) (\<lambda>m.
                           if \<not> mac_addr_is_unicast P eth_src then Inr None
                           else if mac_addr_all_zeros P eth_src then Inr None
                           else Inr (Some m)))
                  | _ \<Rightarrow> Inr None)))"

section \<open>Timers\<close>

text \<open>The ports are those up when the call begins.\<close>

definition lacp_state_expire :: "valve_env \<Rightarrow> int \<Rightarrow> valve \<Rightarrow> err + ofmsg list \<times> valve" where
  "lacp_state_expire E now va =
     (let up_ports = filter (\<lambda>p. p_lacp p \<noteq> 0 \<and> is_actor_up p) (dict_values (sm_ports (va_switch va)));
          lags_up = foldl (\<lambda>d p. dict_append (p_lacp p) (p_number p) d) [] up_ports
      in collect (\<lambda>n va.
           bindE (va_port va n) (\<lambda>p.
           case p_dyn_lacp_updated_time p of
             None \<Rightarrow> Inl TypeError
           | Some t \<Rightarrow> if now - t > va_lacp_timeout va then valve_lacp_update E False (Some now) None False p va else Inr ([], va)))
         (concat (dict_values lags_up)) va)"

definition vlan_state_expire :: "valve_env \<Rightarrow> int \<Rightarrow> int \<Rightarrow> valve \<Rightarrow> err + ofmsg list \<times> valve" where
  "vlan_state_expire E now vid va =
     bindE (expire_vlan (ve_lib E) now vid (va_switch va)) (\<lambda>(ms1, sm).
     let va = va\<lparr>va_switch := sm\<rparr>
     in bindE (collect (\<lambda>rm h. on_vlan (resolve_expire_hosts (ve_lib E) (ve_pkt E) (ve_route E) rm now True) vid h) (va_routes va) (va_heap va))
          (\<lambda>(ms2, h).
        Inr (ms1 @ ms2, va_put_heap h va)))"

definition state_expire :: "valve_env \<Rightarrow> int \<Rightarrow> valve \<Rightarrow> err + ofmsg list \<times> valve" where
  "state_expire E now va =
     (if \<not> va_running va then Inr ([], va)
      else
        bindE (lacp_state_expire E now va) (\<lambda>(ms1, va).
        bindE (collect (vlan_state_expire E now) (va_vids va) va) (\<lambda>(ms2, va).
        Inr (ms1 @ ms2, va))))"

definition valve_advertise_all :: "valve_env \<Rightarrow> int \<Rightarrow> valve \<Rightarrow> err + ofmsg list \<times> valve" where
  "valve_advertise_all E now va =
     bindE (valve_advertise (ve_lib E) (ve_pkt E) (va_routes va) (va_vids va) (va_advertise_interval va) now
              (va_last_advertise_sec va) (va_heap va)) (\<lambda>(ms, t).
     Inr (ms, va\<lparr>va_last_advertise_sec := t\<rparr>))"

section \<open>Native VLANs of 802.1X\<close>

text \<open>A VLAN that is left, entered or configured gets its ports again, and new flood rules.\<close>

definition warm_reconfig_port_native_vlans :: "valve_env \<Rightarrow> int \<Rightarrow> int option \<Rightarrow> valve \<Rightarrow> err + ofmsg list \<times> valve" where
  "warm_reconfig_port_native_vlans E n new_dyn_dot1x_native_vlan va =
     bindE (va_port va n) (\<lambda>old.
     bindE (switch_del_port (ve_lib E) (va_switch va) old) (\<lambda>ms1.
     let p = old\<lparr>p_dyn_dot1x_native_vlan := new_dyn_dot1x_native_vlan\<rparr>; va = va_put_port p va;
         vids = remdups (List.map_filter id [p_dyn_dot1x_native_vlan old, p_dyn_dot1x_native_vlan p, p_native_vlan p])
     in bindE (collect (\<lambda>vid va.
              bindE (va_vlan va vid) (\<lambda>v.
              valve_update_vlan E vid (va_put_vlan vid (reset_ports (dict_values (sm_ports (va_switch va))) v) va)))
            (lib_shuffle (ve_lib E) vids) va) (\<lambda>(ms2, va).
        bindE (switch_add_port (ve_lib E) (ve_pkt E) (va_switch va) p) (\<lambda>ms3.
        Inr (ms1 @ ms2 @ ms3, va)))))"

definition add_dot1x_native_vlan :: "valve_env \<Rightarrow> int \<Rightarrow> string \<Rightarrow> valve \<Rightarrow> err + ofmsg list \<times> valve" where
  "add_dot1x_native_vlan E n vlan_name va =
     bindE (va_port va n) (\<lambda>_.
     case filter (\<lambda>vid. va_vlan_name va vid = vlan_name) (va_vids va) of
       [] \<Rightarrow> Inr ([], va)
     | vid # _ \<Rightarrow> warm_reconfig_port_native_vlans E n (Some vid) va)"

definition del_dot1x_native_vlan :: "valve_env \<Rightarrow> int \<Rightarrow> valve \<Rightarrow> err + ofmsg list \<times> valve" where
  "del_dot1x_native_vlan E n va =
     bindE (va_port va n) (\<lambda>p.
     if p_dyn_dot1x_native_vlan p \<noteq> None then warm_reconfig_port_native_vlans E n None va else Inr ([], va))"

text \<open>A valve that sends: what \<open>None\<close> stands for closes the session.\<close>

definition prepare_send_flows :: "ofp \<Rightarrow> (ofmsg \<Rightarrow> string) \<Rightarrow> (ofmsg list \<Rightarrow> ofmsg list) \<Rightarrow> bool \<Rightarrow> ofmsg list option \<Rightarrow> err + ofmsg list option" where
  "prepare_send_flows K str_of shuffle use_barriers flow_msgs =
     (case flow_msgs of
        None \<Rightarrow> Inr None
      | Some ms \<Rightarrow> bindE (valve_flowreorder K str_of shuffle use_barriers ms) (\<lambda>out. Inr (Some out)))"

section \<open>What stays\<close>

lemma collect_rel:
  assumes run: "collect f xs s = Inr (ms, t)" and refl: "R s s" and trans: "\<And>u w. R s u \<Longrightarrow> R u w \<Longrightarrow> R s w"
    and step: "\<And>x u ms w. x \<in> set xs \<Longrightarrow> f x u = Inr (ms, w) \<Longrightarrow> R u w"
  shows "R s t"
proof -
  let ?F = "\<lambda>x (ms, s). bindE (f x s) (\<lambda>(ms', s). Inr (ms @ ms', s))"
  have "foldE ?F ys (ns, u) = Inr (ms, w) \<Longrightarrow> R s u \<Longrightarrow> set ys \<subseteq> set xs \<Longrightarrow> R s w" for ys ns u ms w
  proof (induction ys arbitrary: ns u)
    case Nil
    then show ?case by simp
  next
    case (Cons y ys)
    from Cons.prems(1) obtain ms1 u1 where f: "f y u = Inr (ms1, u1)" and rest: "foldE ?F ys (ns @ ms1, u1) = Inr (ms, w)"
      by (auto simp: bindE_Inr)
    have "R s u1" using trans [OF Cons.prems(2) step [OF _ f]] Cons.prems(3) by simp
    from Cons.IH [OF rest this] Cons.prems(3) show ?case by simp
  qed
  with run refl show ?thesis unfolding collect_def by blast
qed

lemma add_vlan_groups: "manager_add_vlan E cold_start vid m va = Inr (ms, va') \<Longrightarrow> \<exists>g. va' = va\<lparr>va_groups := g\<rparr>"
proof -
  assume r: "manager_add_vlan E cold_start vid m va = Inr (ms, va')"
  have same: "\<exists>g. va = va\<lparr>va_groups := g\<rparr>" by (rule exI [of _ "va_groups va"]) simp
  show ?thesis
    using r same by (cases m) (auto simp: manager_add_vlan_def silent_def bindE_Inr Let_def)
qed

definition same_but_groups :: "valve \<Rightarrow> valve \<Rightarrow> bool" where
  "same_but_groups va va' \<longleftrightarrow> (\<exists>g. va' = va\<lparr>va_groups := g\<rparr>)"

lemma same_but_groups_refl [simp]: "same_but_groups va va"
  unfolding same_but_groups_def by (rule exI [of _ "va_groups va"]) simp

lemma same_but_groups_trans: "same_but_groups va va' \<Longrightarrow> same_but_groups va' va'' \<Longrightarrow> same_but_groups va va''"
  by (auto simp: same_but_groups_def)

lemma valve_add_vlan_groups: "valve_add_vlan E cold_start vid va = Inr (ms, va') \<Longrightarrow> same_but_groups va va'"
  unfolding valve_add_vlan_def
  by (auto split: if_splits elim!: collect_rel [where R = same_but_groups] intro: same_but_groups_trans)
    (auto simp: same_but_groups_def dest: add_vlan_groups)

lemma valve_add_vlans_groups: "valve_add_vlans E cold_start vids va = Inr (ms, va') \<Longrightarrow> same_but_groups va va'"
  unfolding valve_add_vlans_def
  by (erule collect_rel) (auto intro: same_but_groups_trans dest: valve_add_vlan_groups)

lemma valve_update_vlan_groups: "valve_update_vlan E vid va = Inr (ms, va') \<Longrightarrow> same_but_groups va va'"
  by (auto simp: valve_update_vlan_def bindE_Inr same_but_groups_def)

lemma lacp_flows_groups: "va_lacp_flows E cold_start p va = Inr (ms, va') \<Longrightarrow> same_but_groups va va'"
  by (auto simp: va_lacp_flows_def Let_def bindE_Inr split: if_splits dest: valve_add_vlans_groups)

lemma valve_lacp_update_result:
  assumes "valve_lacp_update E lacp_up now lacp cold_start p va = Inr (ms, va')"
  shows "\<exists>q. q = snd (lacp_states (get_lacp_dpid_nomination (va_dp_id va)) (va_dp_id va) lacp_up now lacp cold_start p) \<and>
    same_but_groups (va_put_port q va) va'"
  using assms by (auto simp: valve_lacp_update_def Let_def split: prod.splits if_splits dest: lacp_flows_groups)

definition same_place :: "port \<Rightarrow> port \<Rightarrow> bool" where
  "same_place p q \<longleftrightarrow> p_number q = p_number p \<and> p_native_vlan q = p_native_vlan p \<and>
     p_dyn_dot1x_native_vlan q = p_dyn_dot1x_native_vlan p \<and> p_tagged_vlans q = p_tagged_vlans p \<and> p_lacp q = p_lacp p \<and>
     p_dyn_phys_up q = p_dyn_phys_up p"

lemma same_place_trans: "same_place p q \<Longrightarrow> same_place q r \<Longrightarrow> same_place p r"
  by (simp add: same_place_def)

lemma same_placeD:
  "same_place p q \<Longrightarrow> p_number q = p_number p" "same_place p q \<Longrightarrow> p_lacp q = p_lacp p"
  "same_place p q \<Longrightarrow> port_vlans q = port_vlans p" "same_place p q \<Longrightarrow> p_dyn_phys_up q = p_dyn_phys_up p"
  by (auto simp: same_place_def port_vlans_def split: option.splits)

lemma lacp_states_keep: "same_place p (snd (lacp_states nom dp_id lacp_up now lacp cold_start p))"
proof -
  have a: "same_place r (lacp_actor_update u n l c r)" for u n l c r
    by (simp add: lacp_actor_update_def set_actor_def Let_def same_place_def)
  have b: "same_place r (lacp_port_update s c r)" for s c r
    by (simp add: lacp_port_update_def set_role_def same_place_def)
  have ab: "same_place r (lacp_port_update s c (lacp_actor_update u n l c' r))" for s c u n l c' r
    by (rule same_place_trans [OF a b])
  show ?thesis
    using ab same_place_trans [OF ab ab]
    by (simp add: lacp_states_def lacp_update_actor_state_def lacp_update_port_selection_state_def Let_def)
qed

text \<open>A port is stored under its number.\<close>

definition ports_ok :: "valve \<Rightarrow> bool" where
  "ports_ok va \<longleftrightarrow> (\<forall>n p. dict_get (sm_ports (va_switch va)) n = Some p \<longrightarrow> p_number p = n)"

lemma ports_okD: "ports_ok va \<Longrightarrow> va_port va n = Inr p \<Longrightarrow> p_number p = n"
  by (simp add: ports_ok_def va_port_def)

lemma put_port_simps [simp]:
  "sm_ports (va_switch (va_put_port p va)) = dict_set (p_number p) p (sm_ports (va_switch va))"
  "va_up_port_nos (va_put_port p va) = va_up_port_nos va"
  "sm_vlans (va_switch (va_put_port p va)) = map (\<lambda>(vid, v). (vid, share_port p v)) (sm_vlans (va_switch va))"
  by (simp_all add: va_put_port_def Let_def)

text \<open>Which ports are up by their status, and which ports there are.\<close>

definition steady :: "valve \<Rightarrow> valve \<Rightarrow> bool" where
  "steady va va' \<longleftrightarrow> va_up_port_nos va' = va_up_port_nos va \<and>
     (ports_ok va \<longrightarrow> ports_ok va' \<and> set (dict_keys (sm_ports (va_switch va'))) = set (dict_keys (sm_ports (va_switch va))))"

lemma steady_refl [simp]: "steady va va"
  by (simp add: steady_def)

lemma steady_trans: "steady va va' \<Longrightarrow> steady va' va'' \<Longrightarrow> steady va va''"
  by (simp add: steady_def)

lemma groups_steady: "same_but_groups va va' \<Longrightarrow> steady va va'"
  by (auto simp: same_but_groups_def steady_def ports_ok_def)

lemma put_port_steady: "va_port va n = Inr p \<Longrightarrow> p_number q = p_number p \<Longrightarrow> steady va (va_put_port q va)"
  by (auto simp: steady_def ports_ok_def va_port_def dict_keys_set dict_keys_get)

lemma put_vlan_steady [simp]: "steady va (va_put_vlan vid v va)" "steady va (va_put_heap h va)"
  by (simp_all add: steady_def va_put_vlan_def va_put_heap_def ports_ok_def)

lemma lacp_update_steady:
  assumes "va_port va n = Inr p" and "p_number r = p_number p"
    and "valve_lacp_update E lacp_up now lacp cold_start r va = Inr (ms, va')"
  shows "steady va va'"
proof -
  from valve_lacp_update_result [OF assms(3)] obtain q where
      q: "q = snd (lacp_states (get_lacp_dpid_nomination (va_dp_id va)) (va_dp_id va) lacp_up now lacp cold_start r)"
      and s: "same_but_groups (va_put_port q va) va'" by blast
  have "p_number q = p_number p" using same_placeD(1) [OF lacp_states_keep] q assms(2) by metis
  from steady_trans [OF put_port_steady [OF assms(1) this] groups_steady [OF s]] show ?thesis .
qed

lemma flows_state_steady:
  assumes "port_delete_flows_state E keep_cache p va = Inr (ms, va')"
  shows "steady va va'"
proof -
  from assms obtain ms1 va1 where
      c: "collect (\<lambda>rm va. bindE (expire_port_nexthops (ve_lib E) rm p (va_heap va)) (\<lambda>(ms, h). Inr (ms, va_put_heap h va)))
            (va_routes va) va = Inr (ms1, va1)"
    and f: "(if keep_cache then Inr va1
        else foldE (\<lambda>vid va. bindE (va_vlan va vid) (\<lambda>v. bindE (clear_cache_hosts_on_port p v) (\<lambda>v. Inr (va_put_vlan vid v va))))
               (port_vlans p) va1) = Inr va'"
    by (auto simp: port_delete_flows_state_def bindE_Inr)
  have a: "steady va va1" using c by (rule collect_rel) (auto intro: steady_trans simp: bindE_Inr)
  have "foldE (\<lambda>vid va. bindE (va_vlan va vid) (\<lambda>v. bindE (clear_cache_hosts_on_port p v) (\<lambda>v. Inr (va_put_vlan vid v va)))) vids u = Inr w
      \<Longrightarrow> steady u w" for vids u w
  proof (induction vids arbitrary: u)
    case Nil
    then show ?case by simp
  next
    case (Cons vid vids)
    then obtain v where "foldE (\<lambda>vid va. bindE (va_vlan va vid) (\<lambda>v. bindE (clear_cache_hosts_on_port p v) (\<lambda>v. Inr (va_put_vlan vid v va))))
        vids (va_put_vlan vid v u) = Inr w"
      by (auto simp: bindE_Inr)
    from steady_trans [OF put_vlan_steady(1) Cons.IH [OF this]] show ?case .
  qed
  with f have "steady va1 va'" by (auto split: if_splits)
  with a show ?thesis by (rule steady_trans)
qed

lemma port_up_steady:
  assumes "valve_port_up E cold_start n (vids, va) = Inr (ms, vids', va')"
  shows "steady va va'"
proof (cases "va_port_valid E va n")
  case False
  with assms show ?thesis by (simp add: valve_port_up_def)
next
  case True
  let ?up = "\<lambda>p. p\<lparr>p_dyn_phys_up := True\<rparr>"
  from True assms obtain p where p: "va_port va n = Inr p" by (auto simp: valve_port_up_def bindE_Inr)
  have a: "steady va (va_put_port (?up p) va)" by (rule put_port_steady [OF p]) simp
  have "va_port (va_put_port (?up p) va) (p_number p) = Inr (?up p)" by (simp add: va_port_def)
  from lacp_update_steady [OF this refl] have
    l: "valve_lacp_update E u t l c (?up p) (va_put_port (?up p) va) = Inr (ms, va') \<Longrightarrow> steady (va_put_port (?up p) va) va'" for u t l c ms .
  from True assms p have "va' = va_put_port (?up p) va \<or>
      (\<exists>ms. valve_lacp_update E False None None cold_start (?up p) (va_put_port (?up p) va) = Inr (ms, va'))"
    by (auto simp: valve_port_up_def bindE_Inr Let_def split: if_splits)
  with a l show ?thesis by (auto intro: steady_trans)
qed

lemma ports_add_steady:
  assumes "ports_add E cold_start ns va = Inr (ms, va')"
  shows "steady va va'"
proof -
  from assms obtain ms1 vids va1 where
      c: "collect (valve_port_up E cold_start) ns ([], va) = Inr (ms1, vids, va1)"
    and r: "va' = va1 \<or> (\<exists>ms. valve_add_vlans E False (lib_shuffle (ve_lib E) vids) va1 = Inr (ms, va'))"
    by (cases cold_start) (force simp: ports_add_def bindE_Inr)+
  have "steady (snd ([] :: int list, va)) (snd (vids, va1))"
    using c by (rule collect_rel [where R = "\<lambda>s t. steady (snd s) (snd t)"]) (auto intro: steady_trans port_up_steady)
  with r show ?thesis by (auto intro: steady_trans dest: valve_add_vlans_groups [THEN groups_steady])
qed

lemma port_down_steady:
  assumes "valve_port_down E keep_cache None n (vids, va) = Inr (ms, vids', va')"
  shows "steady va va'"
proof (cases "va_port_valid E va n")
  case False
  with assms show ?thesis by (simp add: valve_port_down_def)
next
  case True
  let ?down = "\<lambda>p. p\<lparr>p_dyn_phys_up := False\<rparr>"
  from True assms obtain p where p: "va_port va n = Inr p" by (auto simp: valve_port_down_def bindE_Inr)
  let ?va = "va_put_port (?down p) va"
  have a: "steady va ?va" by (rule put_port_steady [OF p]) simp
  from True assms p obtain q where q: "va_port ?va n = Inr q"
    and r: "(\<exists>ms. valve_lacp_update E False None None False q ?va = Inr (ms, va')) \<or>
        (\<exists>ms. port_delete_flows_state E keep_cache q ?va = Inr (ms, va'))"
    by (auto simp: valve_port_down_def bindE_Inr Let_def split: if_splits)
  from r lacp_update_steady [OF q refl] flows_state_steady have "steady ?va va'" by blast
  with a show ?thesis by (rule steady_trans)
qed

lemma ports_delete_steady:
  assumes "ports_delete E keep_cache None ns va = Inr (ms, va')"
  shows "steady va va'"
proof -
  from assms obtain ms1 vids va1 ms2 where
      c: "collect (valve_port_down E keep_cache None) ns ([], va) = Inr (ms1, vids, va1)"
    and r: "collect (valve_update_vlan E) (lib_shuffle (ve_lib E) vids) va1 = Inr (ms2, va')"
    by (auto simp: ports_delete_def bindE_Inr)
  have "steady (snd ([] :: int list, va)) (snd (vids, va1))"
    using c by (rule collect_rel [where R = "\<lambda>s t. steady (snd s) (snd t)"]) (auto intro: steady_trans port_down_steady)
  moreover have "steady va1 va'"
    using r by (rule collect_rel) (auto intro: steady_trans dest: valve_update_vlan_groups [THEN groups_steady])
  ultimately show ?thesis by (auto intro: steady_trans)
qed

section \<open>The ports follow their description\<close>

definition with_status :: "int \<Rightarrow> bool \<Rightarrow> int list \<Rightarrow> int list" where
  "with_status n up ns = (if up then List.insert n ns else filter (\<lambda>m. m \<noteq> n) ns)"

lemma in_with_status: "m \<in> set (with_status n up ns) \<longleftrightarrow> (if m = n then up else m \<in> set ns)"
  by (auto simp: with_status_def)

lemma set_port_status_nos [simp]: "va_up_port_nos (set_port_status n up now va) = with_status n up (va_up_port_nos va)"
  by (simp add: set_port_status_def with_status_def Let_def split: option.splits)

lemma set_port_status_ports:
  "ports_ok va \<Longrightarrow> ports_ok (set_port_status n up now va) \<and>
     set (dict_keys (sm_ports (va_switch (set_port_status n up now va)))) = set (dict_keys (sm_ports (va_switch va)))"
  by (auto simp: ports_ok_def set_port_status_def Let_def dict_keys_set dict_keys_get split: option.splits)

lemma port_status_result:
  assumes "port_status_handler E n reason state now va = Inr (r, va')"
  shows "steady (set_port_status n (port_status_from_state (lib_ofp (ve_lib E)) state) now va) va'"
  using assms ports_add_steady ports_delete_steady
  by (auto simp: port_status_handler_def valve_port_add_def valve_port_delete_def bindE_Inr Let_def split: if_splits)

lemma fabricate_result:
  assumes "fabricate E now (n, reason, up) va = Inr (ms, va')" and "OFPPS_LINK_DOWN (lib_ofp (ve_lib E)) \<noteq> 0"
  shows "va_up_port_nos va' = with_status n up (va_up_port_nos va) \<and>
    (ports_ok va \<longrightarrow> ports_ok va' \<and> set (dict_keys (sm_ports (va_switch va'))) = set (dict_keys (sm_ports (va_switch va))))"
proof -
  let ?K = "lib_ofp (ve_lib E)"
  have up: "port_status_from_state ?K (if up then 0 else OFPPS_LINK_DOWN ?K) = up"
    using assms(2) by (simp add: port_status_from_state_def)
  from assms(1) obtain r where "port_status_handler E n reason (if up then 0 else OFPPS_LINK_DOWN ?K) now va = Inr (r, va')"
    by (auto simp: fabricate_def bindE_Inr)
  from port_status_result [OF this] set_port_status_ports [of va n up now] show ?thesis
    unfolding up by (simp add: steady_def)
qed

lemma fabricates_result:
  assumes "collect (fabricate E now) evs va = Inr (ms, va')" and "OFPPS_LINK_DOWN (lib_ofp (ve_lib E)) \<noteq> 0"
  shows "(\<forall>(n, _, up) \<in> set evs. up = c n) \<longrightarrow>
      (\<forall>n. n \<in> set (va_up_port_nos va') \<longleftrightarrow> (if n \<in> fst ` set evs then c n else n \<in> set (va_up_port_nos va)))"
    and "ports_ok va \<longrightarrow> ports_ok va' \<and> set (dict_keys (sm_ports (va_switch va'))) = set (dict_keys (sm_ports (va_switch va)))"
proof -
  let ?F = "\<lambda>x (ms, s). bindE (fabricate E now x s) (\<lambda>(ms', s). Inr (ms @ ms', s))"
  have *: "((\<forall>(n, _, up) \<in> set evs. up = c n) \<longrightarrow>
      (\<forall>n. n \<in> set (va_up_port_nos va') \<longleftrightarrow> (if n \<in> fst ` set evs then c n else n \<in> set (va_up_port_nos va)))) \<and>
     (ports_ok va \<longrightarrow> ports_ok va' \<and> set (dict_keys (sm_ports (va_switch va'))) = set (dict_keys (sm_ports (va_switch va))))"
    if "foldE ?F evs (ns, va) = Inr (ms, va')" for ns ms evs va
    using that
  proof (induction evs arbitrary: ns va)
    case Nil
    then show ?case by simp
  next
    case (Cons ev evs)
    obtain n reason up where ev: "ev = (n, reason, up)" by (cases ev)
    from Cons.prems obtain ms1 va1 where f: "fabricate E now (n, reason, up) va = Inr (ms1, va1)"
      and rest: "foldE ?F evs (ns @ ms1, va1) = Inr (ms, va')"
      by (auto simp: bindE_Inr ev)
    from Cons.IH [OF rest] fabricate_result [OF f assms(2)] show ?case
      by (auto simp: ev in_with_status)
  qed
  from * [of evs "[]" va ms] assms(1)
  show "(\<forall>(n, _, up) \<in> set evs. up = c n) \<longrightarrow>
      (\<forall>n. n \<in> set (va_up_port_nos va') \<longleftrightarrow> (if n \<in> fst ` set evs then c n else n \<in> set (va_up_port_nos va)))"
    and "ports_ok va \<longrightarrow> ports_ok va' \<and> set (dict_keys (sm_ports (va_switch va'))) = set (dict_keys (sm_ports (va_switch va)))"
    unfolding collect_def by blast+
qed

definition reported_up :: "ofp \<Rightarrow> (int \<times> int) list \<Rightarrow> int \<Rightarrow> bool" where
  "reported_up K stats n \<longleftrightarrow> (\<exists>(m, state) \<in> set stats. m = n \<and> port_status_from_state K state)"

definition shuffles_nos :: "lib \<Rightarrow> bool" where
  "shuffles_nos L \<longleftrightarrow> (\<forall>ns. set (lib_shuffle L ns) = set ns)"

lemma port_desc_events_up:
  assumes "shuffles_nos L" and "OFPP_LOCAL (lib_ofp L) \<notin> set (dict_keys (sm_ports (va_switch va)))"
    and "(n, reason, up) \<in> set (port_desc_events L stats va)"
  shows "up = reported_up (lib_ofp L) stats n"
  using assms
  by (auto simp: port_desc_events_def Let_def no_conf_event_def conf_event_def reported_up_def shuffles_nos_def split: if_splits)
    force+

lemma port_desc_events_nos:
  assumes "shuffles_nos L" and "n \<noteq> OFPP_LOCAL (lib_ofp L)"
  shows "n \<in> fst ` set (port_desc_events L stats va) \<longleftrightarrow>
    n \<in> fst ` set stats \<union> set (dict_keys (sm_ports (va_switch va))) \<and>
    reported_up (lib_ofp L) stats n \<noteq> (n \<in> set (va_up_port_nos va))"
proof -
  let ?K = "lib_ofp L" and ?conf = "dict_keys (sm_ports (va_switch va))"
  let ?up = "map fst (filter (\<lambda>(_, state). port_status_from_state ?K state) stats)"
  let ?dyn = "filter (\<lambda>n. n \<noteq> OFPP_LOCAL ?K) (remdups (map fst stats))"
  have up: "n \<in> set ?up \<longleftrightarrow> reported_up ?K stats n" for n by (force simp: reported_up_def)
  have no_conf: "n \<in> fst ` set (no_conf_event ?K prev ?up m) \<longleftrightarrow> m = n \<and> reported_up ?K stats n \<noteq> (n \<in> set prev)" for m prev
    using up [of m] by (auto simp: no_conf_event_def Let_def simp del: set_map)
  have conf: "n \<in> fst ` set (conf_event ?K ?dyn prev ?up m) \<longleftrightarrow> m = n \<and> reported_up ?K stats n \<noteq> (n \<in> set prev)" for m prev
    using up [of m] by (auto simp: conf_event_def Let_def simp del: set_map)
  have "fst ` set (port_desc_events L stats va) =
      (\<Union>m \<in> set (filter (\<lambda>n. n \<notin> set ?conf) ?dyn). fst ` set (no_conf_event ?K (va_up_port_nos va) ?up m)) \<union>
      (\<Union>m \<in> set ?conf. fst ` set (conf_event ?K ?dyn (va_up_port_nos va) ?up m))"
    using assms(1) by (simp add: port_desc_events_def Let_def shuffles_nos_def image_Un image_UN del: filter_filter)
  then have "n \<in> fst ` set (port_desc_events L stats va) \<longleftrightarrow>
      (\<exists>m \<in> set (filter (\<lambda>n. n \<notin> set ?conf) ?dyn). n \<in> fst ` set (no_conf_event ?K (va_up_port_nos va) ?up m)) \<or>
      (\<exists>m \<in> set ?conf. n \<in> fst ` set (conf_event ?K ?dyn (va_up_port_nos va) ?up m))"
    by blast
  also have "\<dots> \<longleftrightarrow> (n \<in> set (filter (\<lambda>n. n \<notin> set ?conf) ?dyn) \<or> n \<in> set ?conf) \<and> reported_up ?K stats n \<noteq> (n \<in> set (va_up_port_nos va))"
    unfolding no_conf conf by blast
  finally show ?thesis using assms(2) by auto
qed

text \<open>C7. After the datapath has described its ports the valve is in step with it: of the ports
  described or configured, but for the local port of the switch, those it has as up are exactly
  those described as up; and the same description again makes it send nothing and change nothing.
  The local port is not configured as a port (a configured one stays down, valve.py:594).\<close>

lemma port_desc_follows:
  assumes "port_desc_stats_reply_handler E stats now va = Inr (ms, va')" and "shuffles_nos (ve_lib E)"
    and "OFPPS_LINK_DOWN (lib_ofp (ve_lib E)) \<noteq> 0" and "ports_ok va"
    and local: "OFPP_LOCAL (lib_ofp (ve_lib E)) \<notin> set (dict_keys (sm_ports (va_switch va)))"
  shows "(\<forall>n \<in> fst ` set stats \<union> set (dict_keys (sm_ports (va_switch va))) - {OFPP_LOCAL (lib_ofp (ve_lib E))}.
      n \<in> set (va_up_port_nos va') \<longleftrightarrow> reported_up (lib_ofp (ve_lib E)) stats n) \<and>
    port_desc_stats_reply_handler E stats now2 va' = Inr ([], va')"
proof -
  let ?L = "ve_lib E"
  note run = assms(1) [unfolded port_desc_stats_reply_handler_def]
  have evs: "\<forall>(n, _, up) \<in> set (port_desc_events ?L stats va). up = reported_up (lib_ofp ?L) stats n"
    using port_desc_events_up [OF assms(2) local] by blast
  from fabricates_result(1) [OF run assms(3), of "reported_up (lib_ofp ?L) stats"] evs
  have up: "n \<in> set (va_up_port_nos va') \<longleftrightarrow>
      (if n \<in> fst ` set (port_desc_events ?L stats va) then reported_up (lib_ofp ?L) stats n else n \<in> set (va_up_port_nos va))" for n
    by blast
  from fabricates_result(2) [OF run assms(3)] assms(4)
  have keys: "set (dict_keys (sm_ports (va_switch va'))) = set (dict_keys (sm_ports (va_switch va)))" by blast
  have a: "n \<in> set (va_up_port_nos va') \<longleftrightarrow> reported_up (lib_ofp ?L) stats n"
    if "n \<in> fst ` set stats \<union> set (dict_keys (sm_ports (va_switch va)))" "n \<noteq> OFPP_LOCAL (lib_ofp ?L)" for n
    using up [of n] port_desc_events_nos [OF assms(2) that(2), of stats va] that(1) by auto
  have "n \<notin> fst ` set (port_desc_events ?L stats va')" for n
  proof (cases "n = OFPP_LOCAL (lib_ofp ?L)")
    case True
    then show ?thesis
      using assms(2) local keys
      by (auto simp: port_desc_events_def Let_def no_conf_event_def conf_event_def shuffles_nos_def split: if_splits)
  next
    case False
    then show ?thesis using port_desc_events_nos [OF assms(2) False, of stats va'] a [of n] keys by auto
  qed
  then have "port_desc_events ?L stats va' = []" by (cases "port_desc_events ?L stats va'") (metis image_eqI list.set_intros(1))+
  with a show ?thesis by (auto simp: port_desc_stats_reply_handler_def collect_def)
qed

section \<open>Ports that go down are forgotten\<close>

lemma collect_split:
  assumes run: "collect f xs s = Inr (ms, t)" and x: "x \<in> set xs" and refl: "\<And>s. R s s"
    and trans: "\<And>s u w. R s u \<Longrightarrow> R u w \<Longrightarrow> R s w" and step: "\<And>x u ms w. f x u = Inr (ms, w) \<Longrightarrow> R u w"
  shows "\<exists>u ms' w. R s u \<and> f x u = Inr (ms', w) \<and> R w t"
proof -
  let ?F = "\<lambda>x (ms, s). bindE (f x s) (\<lambda>(ms', s). Inr (ms @ ms', s))"
  have tail: "foldE ?F ys (ns, u) = Inr (ms, w) \<Longrightarrow> R u w" for ys ns u ms w
  proof (induction ys arbitrary: ns u)
    case Nil
    then show ?case using refl by simp
  next
    case (Cons y ys)
    then show ?case by (auto simp: bindE_Inr intro: trans [OF step])
  qed
  have "foldE ?F ys (ns, s) = Inr (ms, t) \<Longrightarrow> x \<in> set ys \<Longrightarrow> \<exists>u ms' w. R s u \<and> f x u = Inr (ms', w) \<and> R w t" for ys ns s
  proof (induction ys arbitrary: ns s)
    case Nil
    then show ?case by simp
  next
    case (Cons y ys)
    from Cons.prems(1) obtain ms1 s1 where f: "f y s = Inr (ms1, s1)" and rest: "foldE ?F ys (ns @ ms1, s1) = Inr (ms, t)"
      by (auto simp: bindE_Inr)
    show ?case
    proof (cases "x = y")
      case True
      with f tail [OF rest] refl show ?thesis by blast
    next
      case False
      with Cons.IH [OF rest] Cons.prems(2) obtain u ms' w where "R s1 u" "f x u = Inr (ms', w)" "R w t" by auto
      with trans [OF step [OF f]] show ?thesis by blast
    qed
  qed
  with run x show ?thesis unfolding collect_def by blast
qed

definition same_hosts :: "vlan \<Rightarrow> vlan \<Rightarrow> bool" where
  "same_hosts v v' \<longleftrightarrow> v_dyn_host_cache v' = v_dyn_host_cache v \<and> v_dyn_host_cache_by_port v' = v_dyn_host_cache_by_port v"

lemma same_hosts_refl [simp]: "same_hosts v v"
  by (simp add: same_hosts_def)

lemma same_hosts_trans: "same_hosts u v \<Longrightarrow> same_hosts v w \<Longrightarrow> same_hosts u w"
  by (simp add: same_hosts_def)

lemma del_route_hosts: "del_route d v = Inr v' \<Longrightarrow> same_hosts v v'"
  by (auto simp: del_route_def update_gw_types_def same_hosts_def bindE_Inr Let_def split: if_splits)

lemma expire_gateway_hosts: "expire_gateway_flows L rm g nh v = Inr (ms, v') \<Longrightarrow> same_hosts v v'"
  by (auto simp: expire_gateway_flows_def del_vlan_nexthop_cache_entry_def set_nexthop_cache_def del_host_fib_route_def
      route_del_route_def bindE_Inr same_hosts_def split: if_splits dest!: del_route_hosts)

lemma expire_nexthops_hosts:
  assumes "expire_nexthops L rm gone v = Inr (ms, v')"
  shows "same_hosts v v'"
proof -
  have "foldE (\<lambda>(ip_gw, nh) (ofmsgs, v). bindE (expire_gateway_flows L rm ip_gw nh v) (\<lambda>(msgs, v). Inr (ofmsgs @ msgs, v)))
      gone (ns, v) = Inr (ms, v') \<Longrightarrow> same_hosts v v'" for ns gone v
  proof (induction gone arbitrary: ns v)
    case Nil
    then show ?case by simp
  next
    case (Cons d gone)
    then show ?case by (auto simp: bindE_Inr split: prod.splits intro: same_hosts_trans [OF expire_gateway_hosts])
  qed
  from this [OF assms [unfolded expire_nexthops_def]] show ?thesis .
qed

lemma expire_port_hosts:
  assumes "expire_port_nexthops L rm p h = Inr (ms, h')"
  shows "same_hosts (h vid) (h' vid)"
proof -
  let ?F = "\<lambda>vid (ofmsgs, h).
         let dead_nexthops = filter (\<lambda>(_, nh). case nh_port nh of None \<Rightarrow> False | Some q \<Rightarrow> p_number p = p_number q)
                               (vlan_nexthop_cache rm (h vid))
         in bindE (expire_nexthops L rm dead_nexthops (h vid)) (\<lambda>(msgs, v). Inr (ofmsgs @ msgs, h(vid := v)))"
  have "foldE ?F vids (ns, h) = Inr (ms, h') \<Longrightarrow> same_hosts (h vid) (h' vid)" for ns vids h
  proof (induction vids arbitrary: ns h)
    case Nil
    then show ?case by simp
  next
    case (Cons u vids)
    from Cons.prems obtain ms1 dead v where e: "expire_nexthops L rm dead (h u) = Inr (ms1, v)"
      and r: "foldE ?F vids (ns @ ms1, h(u := v)) = Inr (ms, h')"
      by (auto simp: bindE_Inr Let_def simp del: fun_upd_apply)
    from expire_nexthops_hosts [OF e] Cons.IH [OF r] show ?case by (auto simp: same_hosts_def split: if_splits)
  qed
  from this [OF assms [unfolded expire_port_nexthops_def]] show ?thesis .
qed

lemma dict_get_map: "dict_get (map (\<lambda>(k, v). (k, f k v)) d) k = map_option (f k) (dict_get d k)"
  by (induction d) (auto simp: dict_get_Cons)

lemma port_vlans_dyn [simp]:
  "port_vlans (p\<lparr>p_dyn_phys_up := b\<rparr>) = port_vlans p" "port_vlans (p\<lparr>p_dyn_update_time := t\<rparr>) = port_vlans p"
  by (auto simp: port_vlans_def split: option.splits)

text \<open>Hosts are forgotten only, ports go down only.\<close>

definition hosts_fade :: "vlan \<Rightarrow> vlan \<Rightarrow> bool" where
  "hosts_fade v v' \<longleftrightarrow> (hosts_ok v \<longrightarrow> hosts_ok v' \<and> (\<forall>m e. cached_host m v' = Some e \<longrightarrow> cached_host m v = Some e))"

definition port_fade :: "port \<Rightarrow> port \<Rightarrow> bool" where
  "port_fade p p' \<longleftrightarrow> (p_dyn_phys_up p' \<longrightarrow> p_dyn_phys_up p) \<and> p_number p' = p_number p \<and> port_vlans p' = port_vlans p \<and>
     p_lacp p' = p_lacp p"

definition fades :: "valve \<Rightarrow> valve \<Rightarrow> bool" where
  "fades va va' \<longleftrightarrow>
     (ports_ok va \<longrightarrow> ports_ok va' \<and>
       (\<forall>n. rel_option port_fade (dict_get (sm_ports (va_switch va)) n) (dict_get (sm_ports (va_switch va')) n))) \<and>
     (\<forall>vid. rel_option hosts_fade (dict_get (sm_vlans (va_switch va)) vid) (dict_get (sm_vlans (va_switch va')) vid))"

lemma rel_option_trans:
  "rel_option P a b \<Longrightarrow> rel_option P b c \<Longrightarrow> (\<And>x y z. P x y \<Longrightarrow> P y z \<Longrightarrow> P x z) \<Longrightarrow> rel_option P a c"
  by (cases a; cases b; cases c) auto

lemma rel_option_same: "(\<And>x. P x x) \<Longrightarrow> rel_option P a a"
  by (cases a) auto

lemma fade_refl [simp]: "hosts_fade v v" "port_fade p p"
  by (simp_all add: hosts_fade_def port_fade_def)

lemma hosts_fade_trans: "hosts_fade u v \<Longrightarrow> hosts_fade v w \<Longrightarrow> hosts_fade u w"
  by (simp add: hosts_fade_def)

lemma port_fade_trans: "port_fade p q \<Longrightarrow> port_fade q r \<Longrightarrow> port_fade p r"
  by (simp add: port_fade_def)

lemma fades_refl [simp]: "fades va va"
  by (simp add: fades_def rel_option_same)

lemma fades_trans: "fades va va' \<Longrightarrow> fades va' va'' \<Longrightarrow> fades va va''"
proof -
  have "rel_option hosts_fade a b \<Longrightarrow> rel_option hosts_fade b c \<Longrightarrow> rel_option hosts_fade a c" for a b c
    by (erule rel_option_trans) (auto intro: hosts_fade_trans)
  moreover have "rel_option port_fade a b \<Longrightarrow> rel_option port_fade b c \<Longrightarrow> rel_option port_fade a c" for a b c
    by (erule rel_option_trans) (auto intro: port_fade_trans)
  moreover assume "fades va va'" "fades va' va''"
  ultimately show ?thesis unfolding fades_def by blast
qed

lemma groups_fades: "same_but_groups va va' \<Longrightarrow> fades va va'"
  by (auto simp: same_but_groups_def fades_def ports_ok_def rel_option_same)

lemma put_port_fades:
  assumes "va_port va n = Inr p" and "port_fade p q"
  shows "fades va (va_put_port q va)"
proof -
  have h: "hosts_fade v (share_port q v)" for v
    by (simp add: hosts_fade_def share_port_def Let_def hosts_ok_def cached_host_def)
  have "rel_option hosts_fade (dict_get vs vid) (dict_get (map (\<lambda>(vid, v). (vid, share_port q v)) vs) vid)" for vid and vs :: "(int, vlan) dict"
    using h dict_get_map [of "\<lambda>_. share_port q" vs vid] by (cases "dict_get vs vid") auto
  moreover have "ports_ok (va_put_port q va)" if "ports_ok va"
    using that by (auto simp: ports_ok_def)
  moreover have "rel_option port_fade (dict_get (sm_ports (va_switch va)) m) (dict_get (dict_set (p_number q) q (sm_ports (va_switch va))) m)"
    if "ports_ok va" for m
    using that ports_okD [OF that assms(1)] assms by (auto simp: rel_option_same va_port_def port_fade_def)
  ultimately show ?thesis unfolding fades_def put_port_simps by blast
qed

lemma put_vlan_fades:
  assumes "va_vlan va vid = Inr v" and "hosts_fade v v'"
  shows "fades va (va_put_vlan vid v' va)"
  using assms by (auto simp: fades_def va_put_vlan_def va_vlan_def ports_ok_def rel_option_same)

lemma put_heap_fades:
  assumes "\<And>vid. same_hosts (va_heap va vid) (h vid)"
  shows "fades va (va_put_heap h va)"
proof -
  have "rel_option hosts_fade (dict_get vs vid) (dict_get (map (\<lambda>(vid, _). (vid, h vid)) vs) vid)"
    if "vs = sm_vlans (va_switch va)" for vid vs
    using assms [of vid] that dict_get_map [of "\<lambda>vid _. h vid" vs vid]
    by (cases "dict_get vs vid") (auto simp: va_heap_def same_hosts_def hosts_fade_def hosts_ok_def cached_host_def)
  then show ?thesis by (simp add: fades_def va_put_heap_def ports_ok_def rel_option_same)
qed

lemma set_port_status_fades:
  assumes "ports_ok va" shows "fades va (set_port_status n up t va)"
proof -
  let ?nos = "if up then List.insert n (va_up_port_nos va) else filter (\<lambda>m. m \<noteq> n) (va_up_port_nos va)"
  let ?va = "va\<lparr>va_up_port_nos := ?nos\<rparr>"
  have a: "fades va ?va" by (simp add: fades_def ports_ok_def rel_option_same)
  show ?thesis
  proof (cases "dict_get (sm_ports (va_switch va)) n")
    case None
    with a show ?thesis by (simp add: set_port_status_def)
  next
    case (Some p)
    have "fades ?va (va_put_port (p\<lparr>p_dyn_update_time := Some t\<rparr>) ?va)"
      by (rule put_port_fades [of _ n p]) (use Some in \<open>simp_all add: va_port_def port_fade_def\<close>)
    from fades_trans [OF a this] Some show ?thesis by (simp add: set_port_status_def Let_def)
  qed
qed

text \<open>The hosts of a port, on its VLANs.\<close>

definition no_hosts :: "int \<Rightarrow> int list \<Rightarrow> valve \<Rightarrow> bool" where
  "no_hosts n vids va \<longleftrightarrow>
     (\<forall>vid \<in> set vids. \<forall>v m e. dict_get (sm_vlans (va_switch va)) vid = Some v \<longrightarrow> cached_host m v = Some e \<longrightarrow> p_number (he_port e) \<noteq> n)"

definition caches_ok :: "valve \<Rightarrow> bool" where
  "caches_ok va \<longleftrightarrow> (\<forall>vid v. dict_get (sm_vlans (va_switch va)) vid = Some v \<longrightarrow> hosts_ok v)"

lemma fades_caches:
  assumes "fades va va'" and "caches_ok va"
  shows "caches_ok va'" and "no_hosts n vids va \<Longrightarrow> no_hosts n vids va'"
proof -
  have *: "\<exists>v. dict_get (sm_vlans (va_switch va)) vid = Some v \<and> hosts_ok v' \<and>
      (\<forall>m e. cached_host m v' = Some e \<longrightarrow> cached_host m v = Some e)" if "dict_get (sm_vlans (va_switch va')) vid = Some v'" for vid v'
  proof -
    have "rel_option hosts_fade (dict_get (sm_vlans (va_switch va)) vid) (Some v')" using assms(1) that unfolding fades_def by metis
    then show ?thesis using assms(2) by (cases "dict_get (sm_vlans (va_switch va)) vid") (auto simp: caches_ok_def hosts_fade_def)
  qed
  then show "caches_ok va'" unfolding caches_ok_def by blast
  show "no_hosts n vids va'" if "no_hosts n vids va" using that * unfolding no_hosts_def by blast
qed

lemma clear_hosts_fade:
  assumes "clear_cache_hosts_on_port p v = Inr v'"
  shows "hosts_fade v v'" and "hosts_ok v \<Longrightarrow> cached_host m v' = Some e \<Longrightarrow> p_number (he_port e) \<noteq> p_number p"
proof -
  have *: "hosts_ok v' \<and> (\<forall>m. cached_host m v' = (case cached_host m v of None \<Rightarrow> None | Some e \<Rightarrow> if port_eq p (he_port e) then None else Some e))"
    if "hosts_ok v" using clear_hosts_result [OF that, of p] assms by auto
  show "hosts_fade v v'" unfolding hosts_fade_def using * by (auto split: option.splits if_splits)
  show "p_number (he_port e) \<noteq> p_number p" if "hosts_ok v" "cached_host m v' = Some e"
    using * [OF that(1)] that(2) by (auto simp: port_eq_def split: option.splits if_splits)
qed

lemma clear_vlans_fades:
  assumes "foldE (\<lambda>vid va. bindE (va_vlan va vid) (\<lambda>v. bindE (clear_cache_hosts_on_port p v) (\<lambda>v. Inr (va_put_vlan vid v va)))) vids va = Inr va'"
  shows "fades va va' \<and> (caches_ok va \<longrightarrow> no_hosts (p_number p) vids va')"
  using assms
proof (induction vids arbitrary: va)
  case Nil
  then show ?case by (simp add: no_hosts_def)
next
  case (Cons vid vids)
  from Cons.prems obtain v v1 where v: "va_vlan va vid = Inr v" "clear_cache_hosts_on_port p v = Inr v1"
    and rest: "foldE (\<lambda>vid va. bindE (va_vlan va vid) (\<lambda>v. bindE (clear_cache_hosts_on_port p v) (\<lambda>v. Inr (va_put_vlan vid v va))))
      vids (va_put_vlan vid v1 va) = Inr va'"
    by (auto simp: bindE_Inr)
  note f = put_vlan_fades [OF v(1) clear_hosts_fade(1) [OF v(2)]] and IH = Cons.IH [OF rest]
  show ?case
  proof (intro conjI impI)
    show "fades va va'" using fades_trans [OF f] IH by blast
    assume c: "caches_ok va"
    have c1: "caches_ok (va_put_vlan vid v1 va)" by (rule fades_caches(1) [OF f c])
    have "hosts_ok v" using c v(1) by (auto simp: caches_ok_def va_vlan_def)
    then have "no_hosts (p_number p) [vid] (va_put_vlan vid v1 va)"
      using clear_hosts_fade(2) [OF v(2)] by (auto simp: no_hosts_def va_put_vlan_def)
    with fades_caches(2) [OF conjunct1 [OF IH] c1] have "no_hosts (p_number p) [vid] va'" by blast
    moreover have "no_hosts (p_number p) vids va'" using IH c1 by blast
    ultimately show "no_hosts (p_number p) (vid # vids) va'" by (simp add: no_hosts_def)
  qed
qed

lemma flows_state_fades:
  assumes "port_delete_flows_state E keep_cache p va = Inr (ms, va')"
  shows "fades va va' \<and> (caches_ok va \<longrightarrow> \<not> keep_cache \<longrightarrow> no_hosts (p_number p) (port_vlans p) va')"
proof -
  from assms obtain ms1 va1 where
      c: "collect (\<lambda>rm va. bindE (expire_port_nexthops (ve_lib E) rm p (va_heap va)) (\<lambda>(ms, h). Inr (ms, va_put_heap h va)))
            (va_routes va) va = Inr (ms1, va1)"
    and f: "(if keep_cache then Inr va1
        else foldE (\<lambda>vid va. bindE (va_vlan va vid) (\<lambda>v. bindE (clear_cache_hosts_on_port p v) (\<lambda>v. Inr (va_put_vlan vid v va))))
               (port_vlans p) va1) = Inr va'"
    by (auto simp: port_delete_flows_state_def bindE_Inr)
  have a: "fades va va1"
    using c by (rule collect_rel) (auto intro: fades_trans put_heap_fades expire_port_hosts simp: bindE_Inr)
  show ?thesis
  proof (cases keep_cache)
    case True
    with f a show ?thesis by simp
  next
    case False
    with f clear_vlans_fades [of p "port_vlans p" va1 va'] have b: "fades va1 va'"
      "caches_ok va1 \<longrightarrow> no_hosts (p_number p) (port_vlans p) va'" by auto
    from fades_trans [OF a b(1)] b(2) fades_caches(1) [OF a] show ?thesis by blast
  qed
qed

lemma port_down_fades:
  assumes r: "valve_port_down E keep_cache now n (vids, va) = Inr (ms, vids', va')" and ok: "ports_ok va"
  shows "fades va va'"
    and "va_port_valid E va n \<Longrightarrow> va_port va n = Inr p \<Longrightarrow> (\<exists>p'. va_port va' n = Inr p' \<and> \<not> p_dyn_phys_up p') \<and>
      (p_lacp p = 0 \<longrightarrow> \<not> keep_cache \<longrightarrow> caches_ok va \<longrightarrow> no_hosts n (port_vlans p) va')"
proof -
  have *: "fades va va' \<and> (va_port va n = Inr p \<longrightarrow> (\<exists>p'. va_port va' n = Inr p' \<and> \<not> p_dyn_phys_up p') \<and>
      (p_lacp p = 0 \<longrightarrow> \<not> keep_cache \<longrightarrow> caches_ok va \<longrightarrow> no_hosts n (port_vlans p) va'))" if valid: "va_port_valid E va n" for p
  proof -
    let ?down = "\<lambda>p. p\<lparr>p_dyn_phys_up := False\<rparr>"
    from valid r obtain p1 where p1: "va_port va n = Inr p1" by (auto simp: valve_port_down_def bindE_Inr)
    let ?u = "va_put_port (?down p1) va"
    define w where "w = (case now of None \<Rightarrow> ?u | Some t \<Rightarrow> if t = 0 then ?u else set_port_status n False t ?u)"
    from valid r p1 obtain q where q: "va_port w n = Inr q"
      and after: "if p_lacp q \<noteq> 0 then \<exists>ms. valve_lacp_update E False None None False q w = Inr (ms, va')
        else \<exists>ms. port_delete_flows_state E keep_cache q w = Inr (ms, va')"
      by (auto simp: valve_port_down_def w_def bindE_Inr Let_def split: if_splits)
    have u: "fades va ?u" by (rule put_port_fades [OF p1]) (simp add: port_fade_def)
    have oku: "ports_ok ?u" using u ok by (simp add: fades_def)
    have uw: "fades ?u w" using set_port_status_fades [OF oku] by (auto simp: w_def split: option.splits)
    have okw: "ports_ok w" using uw oku by (simp add: fades_def)
    have nq: "p_number q = n" by (rule ports_okD [OF okw q])
    have "dict_get (sm_ports (va_switch ?u)) n = Some (?down p1)" using ports_okD [OF ok p1] by simp
    then have qp: "port_fade (?down p1) q" using uw oku q unfolding fades_def va_port_def by (metis dict_getE_Inr option.rel_inject(2))
    have wv: "fades w va'"
    proof (cases "p_lacp q = 0")
      case True
      with after flows_state_fades show ?thesis by auto
    next
      case False
      with after obtain ms' where "valve_lacp_update E False None None False q w = Inr (ms', va')" by auto
      from valve_lacp_update_result [OF this] obtain q' where q': "q' = snd (lacp_states (get_lacp_dpid_nomination (va_dp_id w)) (va_dp_id w) False None None False q)"
          and s: "same_but_groups (va_put_port q' w) va'" by blast
      have "port_fade q q'" unfolding q' using same_placeD [OF lacp_states_keep] by (simp add: port_fade_def)
      from fades_trans [OF put_port_fades [OF q this] groups_fades [OF s]] show ?thesis .
    qed
    have all: "fades va va'" by (rule fades_trans [OF fades_trans [OF u uw] wv])
    have "rel_option port_fade (Some q) (dict_get (sm_ports (va_switch va')) n)" using wv okw q unfolding fades_def va_port_def by (metis dict_getE_Inr)
    then obtain p' where p': "va_port va' n = Inr p'" "port_fade q p'" by (auto simp: va_port_def option_rel_Some1)
    have down: "\<not> p_dyn_phys_up p'" using p'(2) qp by (simp add: port_fade_def)
    have vl: "p_lacp q = p_lacp p1" "port_vlans q = port_vlans p1" using qp by (simp_all add: port_fade_def)
    have "no_hosts n (port_vlans p1) va'" if "p_lacp p1 = 0" "\<not> keep_cache" "caches_ok va"
    proof -
      have "caches_ok w" using fades_caches(1) [OF fades_trans [OF u uw] that(3)] .
      with after that vl flows_state_fades [of E keep_cache q w] nq show ?thesis by auto
    qed
    with all p'(1) down p1 show ?thesis by auto
  qed
  show "fades va va'"
  proof (cases "va_port_valid E va n")
    case True
    with * show ?thesis by blast
  next
    case False
    with r show ?thesis by (simp add: valve_port_down_def)
  qed
  show "va_port_valid E va n \<Longrightarrow> va_port va n = Inr p \<Longrightarrow> (\<exists>p'. va_port va' n = Inr p' \<and> \<not> p_dyn_phys_up p') \<and>
      (p_lacp p = 0 \<longrightarrow> \<not> keep_cache \<longrightarrow> caches_ok va \<longrightarrow> no_hosts n (port_vlans p) va')" using * by blast
qed

lemma ports_delete_forgets:
  assumes r: "ports_delete E keep_cache now ns va = Inr (ms, va')" and ok: "ports_ok va" "caches_ok va"
    and n: "n \<in> set ns" "va_port_valid E va n" "va_port va n = Inr p"
  shows "(\<exists>p'. va_port va' n = Inr p' \<and> \<not> p_dyn_phys_up p') \<and>
    (p_lacp p = 0 \<longrightarrow> \<not> keep_cache \<longrightarrow> no_hosts n (port_vlans p) va') \<and> caches_ok va' \<and> ports_ok va'"
proof -
  from r obtain ms1 vids va1 ms2 where
      c: "collect (valve_port_down E keep_cache now) ns ([], va) = Inr (ms1, vids, va1)"
    and r: "collect (valve_update_vlan E) (lib_shuffle (ve_lib E) vids) va1 = Inr (ms2, va')"
    by (auto simp: ports_delete_def bindE_Inr)
  let ?R = "\<lambda>s t. ports_ok (snd s) \<longrightarrow> fades (snd s) (snd t)"
  have fok: "fades a b \<Longrightarrow> ports_ok a \<Longrightarrow> ports_ok b" for a b by (simp add: fades_def)
  have "\<exists>u ms' w. ?R ([] :: int list, va) u \<and> valve_port_down E keep_cache now n u = Inr (ms', w) \<and> ?R w (vids, va1)"
  proof (rule collect_split [OF c n(1)])
    fix s u w :: "int list \<times> valve"
    assume "?R s u" "?R u w"
    then show "?R s w" using fok fades_trans by blast
  next
    fix x and u w :: "int list \<times> valve" and ms
    assume "valve_port_down E keep_cache now x u = Inr (ms, w)"
    then show "?R u w" using port_down_fades(1) by (cases u; cases w) auto
  qed simp
  then obtain vids0 u ms' vids1 w where u: "fades va u"
      and d: "valve_port_down E keep_cache now n (vids0, u) = Inr (ms', vids1, w)" and w: "ports_ok w \<longrightarrow> fades w va1"
    using ok(1) by auto
  have uok: "ports_ok u" by (rule fok [OF u ok(1)])
  have uw: "fades u w" by (rule port_down_fades(1) [OF d uok])
  have w1: "fades w va1" using w fok [OF uw uok] by blast
  have "fades va1 va'"
    using r by (rule collect_rel) (auto intro: fades_trans dest: valve_update_vlan_groups [THEN groups_fades])
  with w1 have wv: "fades w va'" by (rule fades_trans)
  have uc: "caches_ok u" and wc: "caches_ok w" using fades_caches(1) [OF u ok(2)] fades_caches(1) [OF uw] by blast+
  from u ok(1) n(3) obtain q where q: "va_port u n = Inr q" "port_fade p q"
    unfolding fades_def va_port_def by (metis dict_getE_Inr option_rel_Some1)
  have "va_port_valid E u n" using n(2) q(1) by (auto simp: va_port_valid_def va_port_def)
  from port_down_fades(2) [OF d uok this q(1)] uc obtain p1 where p1: "va_port w n = Inr p1" "\<not> p_dyn_phys_up p1"
    and hosts: "p_lacp q = 0 \<longrightarrow> \<not> keep_cache \<longrightarrow> no_hosts n (port_vlans q) w" by blast
  have "rel_option port_fade (dict_get (sm_ports (va_switch w)) n) (dict_get (sm_ports (va_switch va')) n)"
    using wv fok [OF uw uok] by (simp add: fades_def)
  with p1 have "\<exists>p'. va_port va' n = Inr p' \<and> \<not> p_dyn_phys_up p'"
    by (auto simp: va_port_def option_rel_Some1 port_fade_def)
  moreover have "p_lacp p = 0 \<longrightarrow> \<not> keep_cache \<longrightarrow> no_hosts n (port_vlans p) va'"
    using hosts q(2) fades_caches(2) [OF wv wc] by (simp add: port_fade_def)
  ultimately show ?thesis using fades_caches(1) [OF wv wc] fok [OF wv fok [OF uw uok]] by blast
qed

text \<open>C11. When a datapath disconnects, each of its ports goes down and, unless it is a port of a LAG,
  no VLAN it is on has a host cached on it any more.\<close>

lemma disconnect_forgets:
  assumes "datapath_disconnect E now va = Inr va'" and "ports_ok va" "caches_ok va" and "va_port_valid E va n" "va_port va n = Inr p"
  shows "(\<exists>p'. va_port va' n = Inr p' \<and> \<not> p_dyn_phys_up p') \<and> (p_lacp p = 0 \<longrightarrow> no_hosts n (port_vlans p) va')"
proof -
  let ?va = "va\<lparr>va_running := False\<rparr>"
  from assms(1) obtain ms where r: "ports_delete E False (Some now) (dict_keys (sm_ports (va_switch va))) ?va = Inr (ms, va')"
    by (auto simp: datapath_disconnect_def Let_def bindE_Inr)
  have "n \<in> set (dict_keys (sm_ports (va_switch va)))" using assms(5) by (auto simp: va_port_def dict_keys_get)
  moreover have "ports_ok ?va" "caches_ok ?va" "va_port_valid E ?va n" "va_port ?va n = Inr p"
    using assms(2-5) by (simp_all add: ports_ok_def caches_ok_def va_port_valid_def va_port_def)
  ultimately show ?thesis using ports_delete_forgets [OF r] by blast
qed

section \<open>What an LLDP packet can do\<close>

lemma display_states: "dict_getE STACK_DISPLAY_DICT s = Inl KeyError \<longleftrightarrow> s \<notin> {- 1, 0, 1, 2, 3, 4}"
  "s \<in> {- 1, 0, 1, 2, 3, 4} \<Longrightarrow> \<exists>t. dict_getE STACK_DISPLAY_DICT s = Inr t"
  by (auto simp: STACK_DISPLAY_DICT_def dict_getE_def dict_get_Cons)

lemma log_remote_state_result:
  "log_remote_state port_id state =
     (if state \<in> {None, Some 0} then Inr ()
      else if the state \<notin> {- 1, 1, 2, 3, 4} then Inl KeyError
      else if port_id = None then Inl TypeError else Inr ())"
proof (cases "state \<in> {None, Some 0}")
  case True
  then show ?thesis by (auto simp: log_remote_state_def)
next
  case False
  then obtain s where s: "state = Some s" "s \<noteq> 0" by auto
  show ?thesis
  proof (cases "s \<in> {- 1, 0, 1, 2, 3, 4}")
    case True
    with display_states(2) obtain t where "dict_getE STACK_DISPLAY_DICT s = Inr t" by blast
    then have "log_remote_state port_id state = (if port_id = None then Inl TypeError else Inr ())"
      using s by (cases port_id) (simp_all add: log_remote_state_def dict_getE_def)
    with s True show ?thesis by auto
  next
    case unknown: False
    with display_states(1) have "dict_getE STACK_DISPLAY_DICT s = Inl KeyError" by blast
    then have "log_remote_state port_id state = Inl KeyError" using s by (simp add: log_remote_state_def)
    with s unknown show ?thesis by auto
  qed
qed

text \<open>C35. What an LLDP packet does, on every branch: the time and the stack state it carries are noted
  for its port, unless the state is new and either unknown, which raises KeyError, or comes without
  a port number, which raises TypeError.\<close>

lemma lldp_handler_errors:
  assumes "pm_eth_type m = ETH_TYPE_LLDP (lib_ofp (ve_lib E))" and "reparse_all (lib_ofp (ve_lib E)) (ve_pkt E) m = Inr m'"
    and "pm_pkt m' = Some pkt" and "parse_lldp pkt = Some tlvs"
    and "parse_faucet_lldp (ve_pkt E) tlvs (sm_faucet_dp_mac (va_switch va)) = Inr (dp_id, dp_name, port_id, state)"
    and "n = p_number (pm_port m)"
  shows "lldp_handler E now m va =
    (if state \<in> {None, Some 0, bd_recv_state (va_beacons va n)} then
       Inr (put_beacon n ((va_beacons va n)\<lparr>bd_recv_time := Some now, bd_recv_state := state\<rparr>) va)
     else if the state \<notin> {- 1, 1, 2, 3, 4} then Inl KeyError
     else if port_id = None then Inl TypeError
     else Inr (put_beacon n ((va_beacons va n)\<lparr>bd_recv_time := Some now, bd_recv_state := state\<rparr>) va))"
proof -
  have same: "bd_recv_state (va_beacons va n) = s \<Longrightarrow> b = (va_beacons va n)\<lparr>bd_recv_time := Some now\<rparr> \<Longrightarrow> b\<lparr>bd_recv_state := s\<rparr> = b" for s b
    by auto
  have "lldp_handler E now m va = bindE (lldp_received now port_id state (va_beacons va n)) (\<lambda>b. Inr (put_beacon n b va))"
    using assms by (simp add: lldp_handler_def Let_def)
  moreover have "lldp_received now port_id state (va_beacons va n) =
     (if state \<in> {None, Some 0, bd_recv_state (va_beacons va n)} then
       Inr ((va_beacons va n)\<lparr>bd_recv_time := Some now, bd_recv_state := state\<rparr>)
     else if the state \<notin> {- 1, 1, 2, 3, 4} then Inl KeyError
     else if port_id = None then Inl TypeError
     else Inr ((va_beacons va n)\<lparr>bd_recv_time := Some now, bd_recv_state := state\<rparr>))"
    unfolding lldp_received_def log_remote_state_result Let_def by (auto intro: same [symmetric])
  ultimately show ?thesis by simp
qed

section \<open>Connecting\<close>

text \<open>Ports stay up.\<close>

definition rises :: "valve \<Rightarrow> valve \<Rightarrow> bool" where
  "rises va va' \<longleftrightarrow> (ports_ok va \<longrightarrow> ports_ok va' \<and>
     (\<forall>n. rel_option (\<lambda>p q. p_dyn_phys_up p \<longrightarrow> p_dyn_phys_up q)
        (dict_get (sm_ports (va_switch va)) n) (dict_get (sm_ports (va_switch va')) n)))"

lemma rises_refl [simp]: "rises va va"
  by (simp add: rises_def rel_option_same)

lemma rises_trans: "rises va va' \<Longrightarrow> rises va' va'' \<Longrightarrow> rises va va''"
proof -
  have "rel_option (\<lambda>p q. p_dyn_phys_up p \<longrightarrow> p_dyn_phys_up q) a b \<Longrightarrow> rel_option (\<lambda>p q. p_dyn_phys_up p \<longrightarrow> p_dyn_phys_up q) b c \<Longrightarrow>
      rel_option (\<lambda>p q. p_dyn_phys_up p \<longrightarrow> p_dyn_phys_up q) a c" for a b c
    by (cases a; cases b; cases c) auto
  moreover assume "rises va va'" "rises va' va''"
  ultimately show ?thesis unfolding rises_def by blast
qed

lemma groups_rises: "same_but_groups va va' \<Longrightarrow> rises va va'"
  by (auto simp: same_but_groups_def rises_def ports_ok_def rel_option_same)

lemma put_port_rises:
  assumes "va_port va n = Inr p" and "p_number q = p_number p" and "p_dyn_phys_up p \<longrightarrow> p_dyn_phys_up q"
  shows "rises va (va_put_port q va)"
proof -
  have "p_number p = n" if "ports_ok va" using ports_okD [OF that assms(1)] .
  then show ?thesis
    using assms by (auto simp: rises_def ports_ok_def rel_option_same va_port_def)
qed

lemma port_up_rises:
  assumes "valve_port_up E cold_start n (vids, va) = Inr (ms, vids', va')" and ok: "ports_ok va"
  shows "rises va va'" and "va_port_valid E va n \<Longrightarrow> \<exists>p. va_port va' n = Inr p \<and> p_dyn_phys_up p"
proof -
  have *: "rises va va' \<and> (\<exists>p. va_port va' n = Inr p \<and> p_dyn_phys_up p)" if valid: "va_port_valid E va n"
  proof -
    let ?up = "\<lambda>p. p\<lparr>p_dyn_phys_up := True\<rparr>"
    from valid assms obtain p where p: "va_port va n = Inr p" by (auto simp: valve_port_up_def bindE_Inr)
    let ?u = "va_put_port (?up p) va"
    have a: "rises va ?u" by (rule put_port_rises [OF p]) simp_all
    have n: "p_number p = n" by (rule ports_okD [OF ok p])
    have pu: "va_port ?u n = Inr (?up p)" using n by (simp add: va_port_def)
    have l: "rises ?u va'" if "valve_lacp_update E False None None cold_start (?up p) ?u = Inr (ms', va')" for ms'
    proof -
      from valve_lacp_update_result [OF that] obtain q where
          q: "q = snd (lacp_states (get_lacp_dpid_nomination (va_dp_id ?u)) (va_dp_id ?u) False None None cold_start (?up p))"
          and s: "same_but_groups (va_put_port q ?u) va'" by blast
      have k: "same_place (?up p) q" unfolding q by (rule lacp_states_keep)
      have "rises ?u (va_put_port q ?u)"
        by (rule put_port_rises [OF pu]) (use same_placeD(1,4) [OF k] in auto)
      from rises_trans [OF this groups_rises [OF s]] show ?thesis .
    qed
    from valid assms p have "va' = ?u \<or> (\<exists>ms. valve_lacp_update E False None None cold_start (?up p) ?u = Inr (ms, va'))"
      by (auto simp: valve_port_up_def bindE_Inr Let_def split: if_splits)
    with l have b: "rises ?u va'" by auto
    have "ports_ok ?u" using a ok by (simp add: rises_def)
    with b pu have "rel_option (\<lambda>p q. p_dyn_phys_up p \<longrightarrow> p_dyn_phys_up q) (Some (?up p)) (dict_get (sm_ports (va_switch va')) n)"
      unfolding rises_def va_port_def by (metis dict_getE_Inr)
    with rises_trans [OF a b] show ?thesis by (auto simp: va_port_def option_rel_Some1)
  qed
  show "rises va va'"
  proof (cases "va_port_valid E va n")
    case True
    with * show ?thesis by blast
  next
    case False
    with assms show ?thesis by (simp add: valve_port_up_def)
  qed
  show "va_port_valid E va n \<Longrightarrow> \<exists>p. va_port va' n = Inr p \<and> p_dyn_phys_up p" using * by blast
qed

lemma ports_up_rises:
  assumes c: "collect (valve_port_up E cold_start) ns (vids0, va) = Inr (ms1, vids, va1)" and ok: "ports_ok va"
    and n: "n \<in> set ns" "va_port_valid E va n"
  shows "\<exists>p. va_port va1 n = Inr p \<and> p_dyn_phys_up p"
proof -
  let ?R = "\<lambda>s t. ports_ok (snd s) \<longrightarrow> rises (snd s) (snd t)"
  have rok: "rises a b \<Longrightarrow> ports_ok a \<Longrightarrow> ports_ok b" for a b by (simp add: rises_def)
  have "\<exists>u ms' w. ?R (vids0, va) u \<and> valve_port_up E cold_start n u = Inr (ms', w) \<and> ?R w (vids, va1)"
  proof (rule collect_split [OF c n(1)])
    fix s u w :: "int list \<times> valve"
    assume "?R s u" "?R u w"
    then show "?R s w" using rok rises_trans by blast
  next
    fix x and u w :: "int list \<times> valve" and ms
    assume "valve_port_up E cold_start x u = Inr (ms, w)"
    then show "?R u w" using port_up_rises(1) by (cases u; cases w) auto
  qed simp
  then obtain vids0 u ms' vids1 w where u: "rises va u"
      and d: "valve_port_up E cold_start n (vids0, u) = Inr (ms', vids1, w)" and w: "ports_ok w \<longrightarrow> rises w va1"
    using ok by auto
  have uok: "ports_ok u" by (rule rok [OF u ok])
  have wok: "ports_ok w" by (rule rok [OF port_up_rises(1) [OF d uok] uok])
  have "rel_option (\<lambda>p q. p_dyn_phys_up p \<longrightarrow> p_dyn_phys_up q) (dict_get (sm_ports (va_switch va)) n) (dict_get (sm_ports (va_switch u)) n)"
    using u ok by (simp add: rises_def)
  then have "va_port_valid E u n" using n(2) by (auto simp: va_port_valid_def option_rel_Some1)
  from port_up_rises(2) [OF d uok this] obtain p where p: "va_port w n = Inr p" "p_dyn_phys_up p" by blast
  have "rel_option (\<lambda>p q. p_dyn_phys_up p \<longrightarrow> p_dyn_phys_up q) (dict_get (sm_ports (va_switch w)) n) (dict_get (sm_ports (va_switch va1)) n)"
    using w wok by (simp add: rises_def)
  with p show ?thesis by (auto simp: va_port_def option_rel_Some1)
qed

lemma set_port_status_rises: "ports_ok va \<Longrightarrow> rises va (set_port_status n up t va)"
proof -
  assume "ports_ok va"
  let ?nos = "if up then List.insert n (va_up_port_nos va) else filter (\<lambda>m. m \<noteq> n) (va_up_port_nos va)"
  let ?va = "va\<lparr>va_up_port_nos := ?nos\<rparr>"
  have a: "rises va ?va" by (simp add: rises_def ports_ok_def rel_option_same)
  show "rises va (set_port_status n up t va)"
  proof (cases "dict_get (sm_ports (va_switch va)) n")
    case None
    with a show ?thesis by (simp add: set_port_status_def)
  next
    case (Some p)
    have "rises ?va (va_put_port (p\<lparr>p_dyn_update_time := Some t\<rparr>) ?va)"
      by (rule put_port_rises [of _ n p]) (use Some in \<open>simp_all add: va_port_def\<close>)
    from rises_trans [OF a this] Some show ?thesis by (simp add: set_port_status_def Let_def)
  qed
qed

lemma set_ports_status:
  assumes "ports_ok va"
  shows "rises va (foldl (\<lambda>va (n, up). set_port_status n up t va) va (map (\<lambda>n. (n, P n)) ns)) \<and>
    (\<forall>n. n \<in> set (va_up_port_nos (foldl (\<lambda>va (n, up). set_port_status n up t va) va (map (\<lambda>n. (n, P n)) ns))) \<longleftrightarrow>
      (if n \<in> set ns then P n else n \<in> set (va_up_port_nos va)))"
  using assms
proof (induction ns arbitrary: va)
  case Nil
  then show ?case by simp
next
  case (Cons n ns)
  note a = set_port_status_rises [OF Cons.prems, of n "P n" t]
  then have ok: "ports_ok (set_port_status n (P n) t va)" using Cons.prems by (simp add: rises_def)
  from Cons.IH [OF ok] rises_trans [OF a] show ?case by (auto simp: in_with_status)
qed

lemma default_flows_groups: "add_default_flows E va = Inr (ms, va') \<Longrightarrow> same_but_groups va va'"
proof -
  have "delete_all_valve_flows E va = Inr (ms, va') \<Longrightarrow> same_but_groups va va'" for ms va'
    by (auto simp: delete_all_valve_flows_def Let_def bindE_Inr delete_all_groups_def split: if_splits)
      (auto simp: same_but_groups_def)
  then show "add_default_flows E va = Inr (ms, va') \<Longrightarrow> same_but_groups va va'"
    by (auto simp: add_default_flows_def bindE_Inr)
qed

definition comes_up :: "valve \<Rightarrow> int list \<Rightarrow> int \<Rightarrow> bool" where
  "comes_up va discovered n \<longleftrightarrow>
     n \<in> set discovered \<or> (\<exists>p \<in> set (dict_values (sm_ports (va_switch va))). p_number p = n \<and> \<not> pc_opstatus_reconf (va_port_confs va n))"

text \<open>C9. A datapath that connects is running, started at that time, with no host cached on any VLAN; of
  its configured ports exactly those that were discovered or do not follow their operational status
  are in the set of up ports, and each of these is noted as up in the port itself.\<close>

lemma connect_state:
  assumes run: "datapath_connect E now discovered va = Inr (ms, va')" and sh: "shuffles_nos (ve_lib E)" and ok: "ports_ok va"
  shows "va_running va' \<and> va_coldstart va' = Some now \<and>
    (\<forall>vid v m. va_vlan va' vid = Inr v \<longrightarrow> cached_host m v = None) \<and>
    (\<forall>n \<in> set (all_configured_port_nos va).
       (n \<in> set (va_up_port_nos va') \<longleftrightarrow> comes_up va discovered n) \<and>
       (comes_up va discovered n \<longrightarrow> va_port_valid E va n \<longrightarrow> (\<exists>p. va_port va' n = Inr p \<and> p_dyn_phys_up p)))"
proof -
  let ?L = "ve_lib E"
  let ?always = "map p_number (filter (\<lambda>p. \<not> pc_opstatus_reconf (va_port_confs va (p_number p))) (dict_values (sm_ports (va_switch va))))"
  let ?P = "\<lambda>n. n \<in> set (discovered @ ?always)" and ?nos = "lib_shuffle ?L (all_configured_port_nos va)"
  let ?status = "map (\<lambda>n. (n, ?P n)) ?nos"
  let ?va1 = "foldl (\<lambda>va (n, up). set_port_status n up now va) va ?status"
  let ?ups = "map fst (filter snd ?status)"
  have P: "?P n \<longleftrightarrow> comes_up va discovered n" for n by (auto simp: comes_up_def)
  have nos: "set ?nos = set (all_configured_port_nos va)" and ups: "set (lib_shuffle ?L ?ups) = {n \<in> set (all_configured_port_nos va). ?P n}"
    using sh by (auto simp: shuffles_nos_def image_iff simp del: set_append)
  from run obtain ms' u where cold: "cold_start_ports_and_vlans E now discovered va = Inr (ms', u)" and va': "va' = dp_cold_start now u"
    by (auto simp: datapath_connect_def bindE_Inr)
  from cold obtain ms1 va2 ms3 va3 ms4 where a2: "add_default_flows E ?va1 = Inr (ms1, va2)"
      and a3: "ports_add E True (lib_shuffle ?L ?ups) va2 = Inr (ms3, va3)"
      and a4: "valve_add_vlans E True (va_vids va3) va3 = Inr (ms4, u)"
    unfolding cold_start_ports_and_vlans_def get_ports_status_def Let_def prod.case by (auto simp: bindE_Inr simp del: set_append)
  note s1 = set_ports_status [OF ok, of now ?P ?nos]
  have ok1: "ports_ok ?va1" using s1 ok unfolding rises_def by blast
  note g2 = default_flows_groups [OF a2] and g4 = valve_add_vlans_groups [OF a4]
  have ok2: "ports_ok va2" using groups_rises [OF g2] ok1 by (simp add: rises_def)
  from a3 obtain vids where c3: "collect (valve_port_up E True) (lib_shuffle ?L ?ups) ([], va2) = Inr (ms3, vids, va3)"
    by (auto simp: ports_add_def bindE_Inr)
  have nos_u: "va_up_port_nos u = va_up_port_nos ?va1"
    using g2 ports_add_steady [OF a3] g4 by (auto simp: same_but_groups_def steady_def)
  have up: "\<exists>p. va_port u n = Inr p \<and> p_dyn_phys_up p"
    if n: "n \<in> set (all_configured_port_nos va)" "?P n" "va_port_valid E va n" for n
  proof -
    have "rel_option (\<lambda>p q. p_dyn_phys_up p \<longrightarrow> p_dyn_phys_up q) (dict_get (sm_ports (va_switch va)) n) (dict_get (sm_ports (va_switch ?va1)) n)"
      using s1 ok unfolding rises_def by blast
    then have "dict_get (sm_ports (va_switch ?va1)) n \<noteq> None" using n(3) by (auto simp: va_port_valid_def option_rel_Some1)
    then have "va_port_valid E va2 n" using g2 n(3) by (auto simp: same_but_groups_def va_port_valid_def)
    from ports_up_rises [OF c3 ok2 _ this] ups n(1,2) obtain p where "va_port va3 n = Inr p" "p_dyn_phys_up p" by blast
    with g4 show ?thesis by (auto simp: same_but_groups_def va_port_def)
  qed
  have "va_running va'" "va_coldstart va' = Some now" "va_up_port_nos va' = va_up_port_nos u" "va_port va' n = va_port u n" for n
    by (simp_all add: va' dp_cold_start_def va_port_def)
  moreover have "cached_host m v = None" if "va_vlan va' vid = Inr v" for vid v m
  proof -
    have "\<exists>w. v = reset_caches w"
      using that dict_get_map [of "\<lambda>_. reset_caches" "sm_vlans (va_switch u)" vid]
      by (auto simp: va' dp_cold_start_def va_vlan_def)
    then show ?thesis by (auto simp: cached_host_def reset_caches_def)
  qed
  moreover have "n \<in> set (va_up_port_nos u) \<longleftrightarrow> comes_up va discovered n" if "n \<in> set (all_configured_port_nos va)" for n
    using conjunct2 [OF s1, rule_format, of n] nos that P [of n] unfolding nos_u by simp
  ultimately show ?thesis using up P by auto
qed

subsection \<open>Witnesses\<close>

definition plain_conf :: port_conf where
  "plain_conf = \<lparr>pc_receive_lldp = True,
     pc_lldp_beacon = \<lparr>bc_enable = False, bc_org_tlvs = [], bc_system_name = None, bc_port_descr = None\<rparr>,
     pc_coprocessor = None, pc_opstatus_reconf = True, pc_acls_in = [], pc_dot1x = False\<rparr>"

definition example_valve :: valve where
  "example_valve =
     \<lparr>va_dp_id = 1, va_switch = lag_mgr, va_pipeline = example_pipeline, va_acl = None, va_routes = [], va_copro_table = None,
      va_tables = [(''vlan'', sm_vlan_table lag_mgr)], va_port_confs = (\<lambda>_. plain_conf), va_vlan_acls = (\<lambda>_. ([], [])),
      va_vlan_name = int_str, va_reserved_vlans = [], va_groups = [], va_meters = [], va_all_meters = False, va_packetin_pps = 0,
      va_slowpath_pps = 0, va_lowest_priority = 0, va_low_priority = LOW_PRIORITY, va_use_idle_timeout = False, va_lacp_timeout = 30,
      va_ignore_learn_ins = 10, va_global_vlan = 0, va_cookie = 0, va_strict_packet_in_cookie = True, va_advertise_interval = 30,
      va_fast_advertise_interval = 5, va_lldp_beacon = None,
      va_beacons = (\<lambda>_. \<lparr>bd_last_beacon_time = None, bd_recv_time = None, bd_recv_state = None\<rparr>), va_up_port_nos = [1, 2],
      va_running = True, va_coldstart = None, va_packet_in_count_sec = 0, va_last_packet_in_sec = 0, va_last_advertise_sec = 0,
      va_last_fast_advertise_sec = 0, va_last_lldp_advertise_sec = 0\<rparr>"

definition example_env :: valve_env where
  "example_env =
     \<lparr>ve_lib = example_lib, ve_pkt = example_pktlib, ve_route = example_routelib, ve_acl = example_acl_lib, ve_lacp_str = (\<lambda>_. []),
      ve_timeouts = example_timeouts, ve_OFPMF_PKTPS = 2, ve_OFPM_CONTROLLER = 0xfffffffe, ve_OFPM_SLOWPATH = 0xfffffffd\<rparr>"

lemma example_ports_ok: "ports_ok example_valve"
  by (auto simp: ports_ok_def example_valve_def lag_mgr_def example_mgr_def dict_get_Cons edge_port_def default_port_def split: if_splits)

lemma example_shuffles: "shuffles_nos (ve_lib example_env)"
  by (simp add: shuffles_nos_def example_env_def example_lib_def)

lemma example_local: "OFPP_LOCAL (lib_ofp (ve_lib example_env)) \<notin> set (dict_keys (sm_ports (va_switch example_valve)))"
  by (simp add: example_env_def example_lib_def example_valve_def lag_mgr_def example_mgr_def dict_keys_def)

lemma port_desc_follows_witness:
  "\<exists>ms va'. port_desc_stats_reply_handler example_env [(1, 0), (2, 1), (7, 4)] 10 example_valve = Inr (ms, va') \<and>
     1 \<in> set (va_up_port_nos va') \<and> 2 \<notin> set (va_up_port_nos va') \<and> 7 \<in> set (va_up_port_nos va')"
proof -
  let ?run = "port_desc_stats_reply_handler example_env [(1, 0), (2, 1), (7, 4)] 10 example_valve"
  have "case ?run of Inl _ \<Rightarrow> False | Inr _ \<Rightarrow> True" by code_simp
  from is_Inr [OF this] obtain ms va' where r: "?run = Inr (ms, va')" by (cases ?run) auto
  have K: "OFPPS_LINK_DOWN (lib_ofp (ve_lib example_env)) \<noteq> 0" "OFPP_LOCAL (lib_ofp (ve_lib example_env)) = 4294967294"
    by (simp_all add: example_env_def example_lib_def)
  have up: "reported_up (lib_ofp (ve_lib example_env)) [(1, 0), (2, 1), (7, 4)] n \<longleftrightarrow> n \<in> {1, 7}" for n
    by (auto simp: reported_up_def port_status_from_state_def example_env_def example_lib_def)
  from conjunct1 [OF port_desc_follows [OF r example_shuffles K(1) example_ports_ok example_local]]
  show ?thesis using r unfolding up K(2) by auto
qed

text \<open>A port that the switch reports, but not as up. When \<open>OFPP_LOCAL\<close> is configured and comes up, it is taken for gone.\<close>

definition local_valve :: valve where
  "local_valve =
     (let n = OFPP_LOCAL of13; sm = va_switch example_valve
      in example_valve\<lparr>va_switch := sm\<lparr>sm_ports := dict_set n ((default_port 1)\<lparr>p_number := n, p_tagged_vlans := [100]\<rparr>) (sm_ports sm)\<rparr>\<rparr>)"

lemma local_port_stays_down:
  "case port_desc_stats_reply_handler example_env [(1, 0), (2, 0), (OFPP_LOCAL of13, 4)] 10 local_valve of
     Inl _ \<Rightarrow> False
   | Inr (_, va) \<Rightarrow> OFPP_LOCAL of13 \<notin> set (va_up_port_nos va) \<and>
       (case va_port va (OFPP_LOCAL of13) of Inl _ \<Rightarrow> False | Inr p \<Rightarrow> \<not> p_dyn_phys_up p)"
  by code_simp

lemma disconnect_forgets_witness:
  "\<exists>va'. datapath_disconnect example_env 10 example_valve = Inr va' \<and> no_hosts 1 [100] va' \<and>
     (\<exists>p. va_port va' 1 = Inr p \<and> \<not> p_dyn_phys_up p)"
proof -
  let ?run = "datapath_disconnect example_env 10 example_valve"
  have "case ?run of Inl _ \<Rightarrow> False | Inr _ \<Rightarrow> True" by code_simp
  then obtain va' where r: "?run = Inr va'" by (cases ?run) auto
  have c: "caches_ok example_valve"
    by (auto simp: caches_ok_def example_valve_def lag_mgr_def example_mgr_def dict_get_Cons edge_vlan_def new_vlan_def hosts_ok_def
        dict_ok_Nil split: if_splits)
  have v: "va_port_valid example_env example_valve 1" by code_simp
  have p: "va_port example_valve 1 = Inr (edge_port 1)"
    by (simp add: va_port_def example_valve_def lag_mgr_def example_mgr_def dict_get_Cons)
  have "p_lacp (edge_port 1) = 0" "port_vlans (edge_port 1) = [100]" by (simp_all add: edge_port_def default_port_def port_vlans_def)
  with disconnect_forgets [OF r example_ports_ok c v p] r show ?thesis by auto
qed

lemma connect_state_witness:
  "\<exists>ms va'. datapath_connect example_env 10 [2] example_valve = Inr (ms, va') \<and> 2 \<in> set (va_up_port_nos va') \<and>
     1 \<notin> set (va_up_port_nos va') \<and> va_running va'"
proof -
  let ?run = "datapath_connect example_env 10 [2] example_valve"
  have "case ?run of Inl _ \<Rightarrow> False | Inr _ \<Rightarrow> True" by code_simp
  from is_Inr [OF this] obtain ms va' where r: "?run = Inr (ms, va')" by (cases ?run) auto
  have "set (all_configured_port_nos example_valve) = {1, 2}" by code_simp
  moreover have "comes_up example_valve [2] 2" "\<not> comes_up example_valve [2] 1" by code_simp+
  ultimately show ?thesis using connect_state [OF r example_shuffles example_ports_ok] r by auto
qed

text \<open>An LLDP packet with the identifier of FAUCET and a state that does not exist stops the handler.\<close>

definition bad_lldp :: pkt_meta where
  "bad_lldp =
     \<lparr>pm_reason = 1, pm_data = replicate 60 0, pm_orig_len = 60, pm_pkt = None, pm_pkt_data = [], pm_eth_pkt = None, pm_vlan_pkt = None,
      pm_port = edge_port 1, pm_vlan = None, pm_eth_src = 9, pm_eth_dst = LLDP_MAC_NEAREST_BRIDGE, pm_eth_type = 35020,
      pm_l3_pkt = None, pm_l3_src = None, pm_l3_dst = None\<rparr>"

definition bad_tlvs :: "lldp_tlv list" where
  "bad_tlvs = [PortIDName (bytes_of ''1''), OrgSpecific [14, 0, 0] LLDP_FAUCET_STACK_STATE (bytes_of ''99'')]"

definition bad_env :: valve_env where
  "bad_env = example_env\<lparr>ve_pkt := example_pktlib
     \<lparr>pl_parse := (\<lambda>_. Inr [EthernetH LLDP_MAC_NEAREST_BRIDGE ''0e:00:00:00:00:09'' 35020, LldpH bad_tlvs])\<rparr>\<rparr>"

lemma lldp_handler_errors_witness: "lldp_handler bad_env 10 bad_lldp example_valve = Inl KeyError"
proof -
  let ?K = "lib_ofp (ve_lib bad_env)" and ?P = "ve_pkt bad_env"
  let ?pkt = "[EthernetH LLDP_MAC_NEAREST_BRIDGE ''0e:00:00:00:00:09'' 35020, LldpH bad_tlvs]"
  have t: "pm_eth_type bad_lldp = ETH_TYPE_LLDP ?K" by (simp add: bad_lldp_def bad_env_def example_env_def example_lib_def)
  have "case reparse_all ?K ?P bad_lldp of Inl _ \<Rightarrow> False | Inr m \<Rightarrow> pm_pkt m = Some ?pkt" by code_simp
  then obtain m where m: "reparse_all ?K ?P bad_lldp = Inr m" "pm_pkt m = Some ?pkt"
    by (cases "reparse_all ?K ?P bad_lldp") auto
  have l: "parse_lldp ?pkt = Some bad_tlvs" by simp
  have p: "parse_faucet_lldp ?P bad_tlvs (sm_faucet_dp_mac (va_switch example_valve)) = Inr (None, None, Some 1, Some 99)" by code_simp
  have "bd_recv_state (va_beacons example_valve (p_number (pm_port bad_lldp))) = None" by (simp add: example_valve_def)
  with lldp_handler_errors [OF t m l p refl, of 10] show ?thesis by simp
qed

text \<open>A port that leaves its LAG: its drop rule stays when the port comes up as one of no LAG.\<close>

definition lag_valve :: valve where
  "lag_valve =
     (let sm = va_switch example_valve; p = lag_edge\<lparr>p_dyn_lacp_actor_state := LACP_ACTOR_UP, p_dyn_lacp_port_selected := LACP_PORT_SELECTED\<rparr>
      in example_valve\<lparr>va_switch := sm\<lparr>sm_ports := dict_set 1 p (sm_ports sm)\<rparr>\<rparr>)"

lemma left_lag_blocked:
  "case ports_delete example_env False None [1] lag_valve of
     Inl _ \<Rightarrow> False
   | Inr (dels, _) \<Rightarrow>
       (case ports_add example_env False [1] example_valve of
          Inl _ \<Rightarrow> False
        | Inr (adds, _) \<Rightarrow> blocked_after example_lib lag_mgr 1 (dels @ adds) False)"
  by code_simp

text \<open>The flows of a coprocessor have no deletes.\<close>

definition copro_valve :: valve where
  "copro_valve = example_valve\<lparr>va_copro_table := Some (sm_eth_dst_table lag_mgr),
     va_port_confs := (\<lambda>_. plain_conf\<lparr>pc_coprocessor := Some 0, pc_receive_lldp := False\<rparr>)\<rparr>"

lemma copro_flows_stay:
  "mapE (manager_del_port example_env copro_valve (default_port 3)) (managers copro_valve) = Inr [[], [], [], [], []]"
  by code_simp
end
