(* ===== verification/Reconf.thy ===== *)
theory Reconf imports Valve begin

text \<open>
  A new configuration: what has changed (\<^verbatim>\<open>DP.get_config_changes\<close> of \<^verbatim>\<open>faucet/dp.py\<close>), and a valve that takes the new
  configuration over while it runs (\<^verbatim>\<open>Valve._apply_config_changes\<close>, \<^verbatim>\<open>reload_config\<close> of \<^verbatim>\<open>faucet/valve.py\<close>).

  The record \<open>dp_view\<close> is what the comparison reads of a datapath: its own configuration object, and those of its
  ports, VLANs, ACLs and meters, with what they were resolved to; \<open>dw_stack\<close> is the name of the root and the sorted
  degrees of the graph, which the code compares by their hash: on the running datapath those of the links that are up, on
  one just configured those of all links. A set of the code is a list without repetition.
\<close>

section \<open>Configurations that differ\<close>

record port_view =
  pw_conf :: conf_obj
  pw_vids :: "int list"
  pw_stack :: bool
  pw_mirror :: "int list option"
  pw_acls_in :: "string list"

record vlan_view =
  vw_conf :: conf_obj
  vw_acls_in :: "string list"
  vw_acls_out :: "string list"
  vw_ports :: "int list"

record dp_view =
  dw_conf :: conf_obj
  dw_stack :: "(string \<times> (string \<times> nat) list) option"
  dw_routers :: "(string, conf_obj) dict"
  dw_acls :: "(string, conf_obj) dict"
  dw_meters :: "(string, conf_obj) dict"
  dw_vlans :: "(int, vlan_view) dict"
  dw_ports :: "(int, port_view) dict"

text \<open>The classes of the objects, and the hash of Python.\<close>

record conf_classes =
  ck_hash :: "string set \<Rightarrow> int"
  ck_dp :: conf_class
  ck_port :: conf_class
  ck_vlan :: conf_class
  ck_acl :: conf_class
  ck_meter :: conf_class
  ck_router :: conf_class

definition map_dict :: "('v \<Rightarrow> 'w) \<Rightarrow> ('k, 'v) dict \<Rightarrow> ('k, 'w) dict" where
  "map_dict f d = map (\<lambda>(k, v). (k, f v)) d"

definition minus_list :: "'a list \<Rightarrow> 'a list \<Rightarrow> 'a list" where
  "minus_list xs ys = filter (\<lambda>x. x \<notin> set ys) xs"

definition union_list :: "'a list \<Rightarrow> 'a list \<Rightarrow> 'a list" where
  "union_list xs ys = remdups (xs @ ys)"

datatype conf_change = Added | Same | DescriptionOnly | Changed

definition conf_change_of ::
    "(string set \<Rightarrow> int) \<Rightarrow> conf_class \<Rightarrow> string list \<Rightarrow> ('k, conf_obj) dict \<Rightarrow> 'k \<times> conf_obj \<Rightarrow> err + 'k \<times> conf_change" where
  "conf_change_of hash cls ignore_keys subconf new =
     (case new of (conf_id, new_conf) \<Rightarrow>
        (case dict_get subconf conf_id of
           None \<Rightarrow> Inr (conf_id, Added)
         | Some old_conf \<Rightarrow>
             bindE (ignore_subconf hash cls ignore_keys new_conf old_conf) (\<lambda>same.
             if same then Inr (conf_id, Same)
             else
               bindE (ignore_subconf hash cls (''description'' # ignore_keys) new_conf old_conf) (\<lambda>same.
               Inr (conf_id, if same then DescriptionOnly else Changed)))))"

record 'k conf_changes =
  cc_deleted :: "'k list"
  cc_added :: "'k list"
  cc_changed :: "'k list"
  cc_same :: "'k list"
  cc_description_only :: "'k list"

definition get_conf_changes ::
    "(string set \<Rightarrow> int) \<Rightarrow> conf_class \<Rightarrow> string list \<Rightarrow> ('k, conf_obj) dict \<Rightarrow> ('k, conf_obj) dict \<Rightarrow> err + 'k conf_changes" where
  "get_conf_changes hash cls ignore_keys subconf new_subconf =
     bindE (mapE (conf_change_of hash cls ignore_keys subconf) new_subconf) (\<lambda>changes.
     let having = (\<lambda>ks. map fst (filter (\<lambda>(_, c). c \<in> set ks) changes))
     in Inr \<lparr>cc_deleted = minus_list (dict_keys subconf) (dict_keys new_subconf), cc_added = having [Added],
             cc_changed = having [Changed], cc_same = having [Same, DescriptionOnly], cc_description_only = having [DescriptionOnly]\<rparr>)"

definition any_changes :: "'k conf_changes \<Rightarrow> bool" where
  "any_changes c \<longleftrightarrow> cc_deleted c \<noteq> [] \<or> cc_added c \<noteq> [] \<or> cc_changed c \<noteq> []"

section \<open>ACLs, VLANs, meters\<close>

definition get_acl_config_changes :: "conf_classes \<Rightarrow> dp_view \<Rightarrow> dp_view \<Rightarrow> err + string list" where
  "get_acl_config_changes C dp new_dp =
     bindE (get_conf_changes (ck_hash C) (ck_acl C) [] (dw_acls dp) (dw_acls new_dp)) (\<lambda>c.
     Inr (union_list (cc_added c) (cc_changed c)))"

definition acl_ref_changes :: "string list \<Rightarrow> string list \<Rightarrow> string list \<Rightarrow> bool" where
  "acl_ref_changes changed_acls old_acl_ids new_acl_ids \<longleftrightarrow>
     (\<exists>a \<in> set new_acl_ids. a \<in> set changed_acls) \<or> old_acl_ids \<noteq> new_acl_ids"

definition vlan_acl_changed :: "dp_view \<Rightarrow> dp_view \<Rightarrow> string list \<Rightarrow> int \<Rightarrow> err + bool" where
  "vlan_acl_changed dp new_dp changed_acls vid =
     bindE (dict_getE (dw_vlans dp) vid) (\<lambda>old_vlan.
     bindE (dict_getE (dw_vlans new_dp) vid) (\<lambda>new_vlan.
     Inr (acl_ref_changes changed_acls (vw_acls_in old_vlan) (vw_acls_in new_vlan))))"

record vlan_changes =
  vc_added :: "int list"
  vc_deleted :: "int list"
  vc_changed :: "int list"
  vc_changed_acl :: "int list"

definition filterE :: "('a \<Rightarrow> err + bool) \<Rightarrow> 'a list \<Rightarrow> err + 'a list" where
  "filterE p xs = bindE (mapE (\<lambda>x. bindE (p x) (\<lambda>b. Inr (if b then [x] else []))) xs) (\<lambda>xss. Inr (concat xss))"

definition get_vlan_config_changes :: "conf_classes \<Rightarrow> dp_view \<Rightarrow> dp_view \<Rightarrow> string list \<Rightarrow> err + vlan_changes" where
  "get_vlan_config_changes C dp new_dp changed_acls =
     bindE (get_conf_changes (ck_hash C) (ck_vlan C) [''acls_in''] (map_dict vw_conf (dw_vlans dp)) (map_dict vw_conf (dw_vlans new_dp))) (\<lambda>c.
     bindE (filterE (vlan_acl_changed dp new_dp changed_acls) (cc_same c)) (\<lambda>changed_acl_vlans.
     Inr \<lparr>vc_added = cc_added c, vc_deleted = cc_deleted c, vc_changed = cc_changed c, vc_changed_acl = changed_acl_vlans\<rparr>))"

section \<open>Ports\<close>

text \<open>The VLANs of two ports are compared as objects.\<close>

definition vlan_objects :: "dp_view \<Rightarrow> int list \<Rightarrow> err + conf_obj list" where
  "vlan_objects dp vids = mapE (\<lambda>vid. bindE (dict_getE (dw_vlans dp) vid) (\<lambda>v. Inr (vw_conf v))) vids"

definition same_objects :: "conf_classes \<Rightarrow> conf_obj list \<Rightarrow> conf_obj list \<Rightarrow> err + bool" where
  "same_objects C xs ys =
     (if length xs \<noteq> length ys then Inr False
      else foldE (\<lambda>(x, y) same. if same then conf_eq (ck_hash C) (ck_vlan C) y x else Inr False) (zip xs ys) True)"

definition changed_port_vlans :: "conf_classes \<Rightarrow> dp_view \<Rightarrow> dp_view \<Rightarrow> int \<Rightarrow> err + int list" where
  "changed_port_vlans C dp new_dp port_no =
     (case dict_get (dw_ports dp) port_no of
        None \<Rightarrow> Inr []
      | Some old_port \<Rightarrow>
          bindE (dict_getE (dw_ports new_dp) port_no) (\<lambda>new_port.
          let old_vids = pw_vids old_port; new_vids = pw_vids new_port
          in bindE (vlan_objects dp old_vids) (\<lambda>old_vlans.
             bindE (vlan_objects new_dp new_vids) (\<lambda>new_vlans.
             bindE (same_objects C old_vlans new_vlans) (\<lambda>same.
             Inr ((if same then [] else minus_list old_vids new_vids @ minus_list new_vids old_vids) @
                  (if pw_stack old_port \<noteq> pw_stack new_port then dict_keys (dw_vlans new_dp) else [])))))))"

definition whole_port_vlans :: "dp_view \<Rightarrow> int \<Rightarrow> err + int list" where
  "whole_port_vlans port_dp port_no =
     bindE (dict_getE (dw_ports port_dp) port_no) (\<lambda>p.
     Inr (pw_vids p @ (if pw_stack p then dict_keys (dw_vlans port_dp) else [])))"

definition mirror_changed :: "dp_view \<Rightarrow> dp_view \<Rightarrow> int \<Rightarrow> err + bool" where
  "mirror_changed dp new_dp port_no =
     bindE (dict_getE (dw_ports dp) port_no) (\<lambda>old_port.
     bindE (dict_getE (dw_ports new_dp) port_no) (\<lambda>new_port. Inr (pw_mirror old_port \<noteq> pw_mirror new_port)))"

definition port_acl_changed :: "dp_view \<Rightarrow> dp_view \<Rightarrow> string list \<Rightarrow> int \<Rightarrow> err + bool" where
  "port_acl_changed dp new_dp changed_acls port_no =
     bindE (dict_getE (dw_ports dp) port_no) (\<lambda>old_port.
     bindE (dict_getE (dw_ports new_dp) port_no) (\<lambda>new_port.
     Inr (acl_ref_changes changed_acls (pw_acls_in old_port) (pw_acls_in new_port))))"

definition ports_of_vlans :: "dp_view \<Rightarrow> int list \<Rightarrow> int list" where
  "ports_of_vlans dp vids = concat (map (\<lambda>(vid, v). if vid \<in> set vids then vw_ports v else []) (dw_vlans dp))"

record port_changes =
  pch_all :: bool
  pch_deleted :: "int list"
  pch_changed :: "int list"
  pch_added :: "int list"
  pch_changed_acl :: "int list"
  pch_changed_vlans :: "int list"

definition stack_ports_restarted :: "dp_view \<Rightarrow> dp_view \<Rightarrow> int conf_changes \<Rightarrow> err + int list" where
  "stack_ports_restarted dp new_dp c =
     (case dw_stack dp of
        None \<Rightarrow> Inr []
      | Some (_, topology) \<Rightarrow>
          (case dw_stack new_dp of
             None \<Rightarrow> Inl AttributeError
           | Some (_, new_topology) \<Rightarrow>
               Inr (if topology \<noteq> new_topology
                    then filter (\<lambda>n. n \<notin> set (cc_deleted c) \<and> n \<notin> set (cc_added c))
                           (map fst (filter (\<lambda>(_, p). pw_stack p) (dw_ports new_dp)))
                    else [])))"

definition get_port_config_changes ::
    "conf_classes \<Rightarrow> dp_view \<Rightarrow> dp_view \<Rightarrow> vlan_changes \<Rightarrow> string list \<Rightarrow> err + port_changes" where
  "get_port_config_changes C dp new_dp vc changed_acls =
     bindE (get_conf_changes (ck_hash C) (ck_port C) [''acls_in''] (map_dict pw_conf (dw_ports dp)) (map_dict pw_conf (dw_ports new_dp))) (\<lambda>c.
     bindE (stack_ports_restarted dp new_dp c) (\<lambda>stack_ports.
     let changed = union_list (cc_changed c) stack_ports;
         same = minus_list (cc_same c) stack_ports;
         finish = (\<lambda>all changed acl vlans.
           Inr \<lparr>pch_all = all, pch_deleted = cc_deleted c, pch_changed = changed, pch_added = cc_added c, pch_changed_acl = acl,
                pch_changed_vlans = minus_list (minus_list vlans (vc_added vc)) (vc_deleted vc)\<rparr>)
     in if same = [] \<or> set changed = set (dict_keys (dw_ports new_dp)) then finish True changed [] (vc_changed vc)
        else
          let changed_vlan_ports = ports_of_vlans new_dp (vc_added vc @ vc_changed vc);
              changed = union_list changed (ports_of_vlans new_dp (vc_changed_acl vc))
          in bindE (mapE (changed_port_vlans C dp new_dp) changed) (\<lambda>vids1.
             bindE (mapE (whole_port_vlans dp) (cc_deleted c)) (\<lambda>vids2.
             bindE (mapE (whole_port_vlans new_dp) (cc_added c)) (\<lambda>vids3.
             bindE (filterE (mirror_changed dp new_dp) same) (\<lambda>mirrored.
             bindE (filterE (port_acl_changed dp new_dp changed_acls) same) (\<lambda>changed_acl_ports.
             finish False (union_list (union_list changed mirrored) changed_vlan_ports) changed_acl_ports
               (union_list (vc_changed vc) (concat (vids1 @ vids2 @ vids3))))))))))"

section \<open>All changes\<close>

record config_changes =
  ch_deleted_ports :: "int list"
  ch_changed_ports :: "int list"
  ch_added_ports :: "int list"
  ch_changed_acl_ports :: "int list"
  ch_added_vids :: "int list"
  ch_deleted_vids :: "int list"
  ch_changed_vids :: "int list"
  ch_changed_acl_vlans :: "int list"
  ch_all_ports_changed :: bool
  ch_all_meters_changed :: bool
  ch_deleted_meters :: "string list"
  ch_added_meters :: "string list"
  ch_changed_meters :: "string list"

definition no_changes :: config_changes where
  "no_changes =
     \<lparr>ch_deleted_ports = [], ch_changed_ports = [], ch_added_ports = [], ch_changed_acl_ports = [], ch_added_vids = [],
      ch_deleted_vids = [], ch_changed_vids = [], ch_changed_acl_vlans = [], ch_all_ports_changed = False,
      ch_all_meters_changed = False, ch_deleted_meters = [], ch_added_meters = [], ch_changed_meters = []\<rparr>"

definition cold_changes :: config_changes where
  "cold_changes = no_changes\<lparr>ch_all_ports_changed := True, ch_all_meters_changed := True\<rparr>"

definition routers_equal :: "conf_classes \<Rightarrow> (string, conf_obj) dict \<Rightarrow> (string, conf_obj) dict \<Rightarrow> err + bool" where
  "routers_equal C d e =
     (if set (dict_keys d) \<noteq> set (dict_keys e) then Inr False
      else foldE (\<lambda>(k, x) same. if \<not> same then Inr False
             else bindE (dict_getE e k) (\<lambda>y. conf_eq (ck_hash C) (ck_router C) y x)) d True)"

definition root_changed :: "dp_view \<Rightarrow> dp_view \<Rightarrow> bool" where
  "root_changed dp new_dp \<longleftrightarrow>
     (case (dw_stack new_dp, dw_stack dp) of (Some (new_root, _), Some (old_root, _)) \<Rightarrow> new_root \<noteq> old_root | _ \<Rightarrow> False)"

definition get_warm_changes :: "conf_classes \<Rightarrow> dp_view \<Rightarrow> dp_view \<Rightarrow> err + config_changes" where
  "get_warm_changes C dp new_dp =
     bindE (get_acl_config_changes C dp new_dp) (\<lambda>changed_acls.
     bindE (get_vlan_config_changes C dp new_dp changed_acls) (\<lambda>vc.
     bindE (get_conf_changes (ck_hash C) (ck_meter C) [] (dw_meters dp) (dw_meters new_dp)) (\<lambda>mc.
     bindE (get_port_config_changes C dp new_dp vc changed_acls) (\<lambda>pc.
     Inr \<lparr>ch_deleted_ports = pch_deleted pc, ch_changed_ports = pch_changed pc, ch_added_ports = pch_added pc,
          ch_changed_acl_ports = pch_changed_acl pc, ch_added_vids = vc_added vc, ch_deleted_vids = vc_deleted vc,
          ch_changed_vids = pch_changed_vlans pc, ch_changed_acl_vlans = vc_changed_acl vc, ch_all_ports_changed = pch_all pc,
          ch_all_meters_changed = any_changes mc, ch_deleted_meters = cc_deleted mc, ch_added_meters = cc_added mc,
          ch_changed_meters = cc_changed mc\<rparr>))))"

definition get_config_changes :: "conf_classes \<Rightarrow> dp_view \<Rightarrow> dp_view \<Rightarrow> err + config_changes" where
  "get_config_changes C dp new_dp =
     (if root_changed dp new_dp then Inr cold_changes
      else
        bindE (routers_equal C (dw_routers new_dp) (dw_routers dp)) (\<lambda>same_routers.
        if \<not> same_routers then Inr cold_changes
        else
          bindE (ignore_subconf (ck_hash C) (ck_dp C) [''interfaces'', ''interface_ranges'', ''routers''] (dw_conf new_dp) (dw_conf dp)) (\<lambda>same.
          if \<not> same then Inr cold_changes else get_warm_changes C dp new_dp)))"

section \<open>Taking the new configuration over\<close>

text \<open>
  A configuration that stays keeps its dynamic attributes (\<open>merge_dyn\<close>); of the other ports those that
  \<open>clone_dyn_state\<close> copies.
\<close>

definition merge_vlan_dyn :: "vlan \<Rightarrow> vlan \<Rightarrow> vlan" where
  "merge_vlan_dyn old v =
     v\<lparr>v_dyn_last_time_hosts_expired := v_dyn_last_time_hosts_expired old, v_dyn_host_cache := v_dyn_host_cache old,
       v_dyn_host_cache_by_port := v_dyn_host_cache_by_port old, v_dyn_host_cache_stats_stale := v_dyn_host_cache_stats_stale old,
       v_dyn_oldest_host_time := v_dyn_oldest_host_time old, v_dyn_learn_ban_count := v_dyn_learn_ban_count old,
       v_dyn_routes := v_dyn_routes old, v_dyn_gws := v_dyn_gws old, v_dyn_host_gws := v_dyn_host_gws old,
       v_dyn_route_gws := v_dyn_route_gws old, v_dyn_neigh_cache := v_dyn_neigh_cache old,
       v_dyn_unresolved_route_ip_gws := v_dyn_unresolved_route_ip_gws old,
       v_dyn_unresolved_host_ip_gws := v_dyn_unresolved_host_ip_gws old\<rparr>"

definition merge_port_dyn :: "port \<Rightarrow> port \<Rightarrow> port" where
  "merge_port_dyn old p =
     p\<lparr>p_dyn_dot1x_native_vlan := p_dyn_dot1x_native_vlan old, p_dyn_lacp_up := p_dyn_lacp_up old,
       p_dyn_lacp_updated_time := p_dyn_lacp_updated_time old, p_dyn_lacp_last_resp_time := p_dyn_lacp_last_resp_time old,
       p_dyn_last_lacp_pkt := p_dyn_last_lacp_pkt old, p_dyn_last_ban_time := p_dyn_last_ban_time old,
       p_dyn_learn_ban_count := p_dyn_learn_ban_count old, p_dyn_phys_up := p_dyn_phys_up old,
       p_dyn_update_time := p_dyn_update_time old, p_dyn_stack_current_state := p_dyn_stack_current_state old,
       p_dyn_lacp_port_selected := p_dyn_lacp_port_selected old, p_dyn_lacp_actor_state := p_dyn_lacp_actor_state old,
       p_dyn_last_seen_lldp_time := p_dyn_last_seen_lldp_time old, p_dyn_stack_correct := p_dyn_stack_correct old\<rparr>"

definition clone_port_dyn :: "port \<Rightarrow> port \<Rightarrow> port" where
  "clone_port_dyn old p =
     p\<lparr>p_dyn_stack_current_state := p_dyn_stack_current_state old, p_dyn_phys_up := p_dyn_phys_up old,
       p_dyn_update_time := p_dyn_update_time old, p_dyn_last_seen_lldp_time := p_dyn_last_seen_lldp_time old,
       p_dyn_stack_correct := p_dyn_stack_correct old\<rparr>"

definition over_ports :: "(port \<Rightarrow> port \<Rightarrow> port) \<Rightarrow> int list \<Rightarrow> valve \<Rightarrow> valve \<Rightarrow> valve" where
  "over_ports f ns old_va va =
     foldl (\<lambda>va n. case (dict_get (sm_ports (va_switch old_va)) n, dict_get (sm_ports (va_switch va)) n) of
              (Some old, Some p) \<Rightarrow> va_put_port (f old p) va
            | _ \<Rightarrow> va) va ns"

definition merge_same :: "int list \<Rightarrow> int list \<Rightarrow> valve \<Rightarrow> valve \<Rightarrow> valve" where
  "merge_same same_ports same_vids va new_va =
     (let merged = foldl (\<lambda>nva vid. case (dict_get (sm_vlans (va_switch va)) vid, dict_get (sm_vlans (va_switch nva)) vid) of
                             (Some old, Some v) \<Rightarrow> va_put_vlan vid (merge_vlan_dyn old v) nva
                           | _ \<Rightarrow> nva) new_va same_vids
      in over_ports merge_port_dyn same_ports va merged)"

text \<open>\<open>dp_init\<close>: the new datapath in the place of the old one, with new managers; \<open>new_va\<close> has them.\<close>

definition dp_init :: "valve \<Rightarrow> valve \<Rightarrow> valve" where
  "dp_init va new_va =
     (let nva = new_va\<lparr>va_running := va_running va, va_up_port_nos := va_up_port_nos va, va_coldstart := va_coldstart va,
                va_packet_in_count_sec := 0, va_last_packet_in_sec := 0, va_last_advertise_sec := 0, va_last_fast_advertise_sec := 0,
                va_last_lldp_advertise_sec := 0,
                va_beacons := (\<lambda>n. if dict_get (sm_ports (va_switch va)) n = None then va_beacons new_va n else va_beacons va n)\<rparr>
      in over_ports clone_port_dyn (dict_keys (sm_ports (va_switch nva))) va nva)"

datatype restart_type = Cold | Warm

definition pipeline_change :: "string \<Rightarrow> string \<Rightarrow> valve \<Rightarrow> valve \<Rightarrow> bool" where
  "pipeline_change hardware new_hardware va new_va \<longleftrightarrow>
     hardware \<noteq> new_hardware \<or>
     set (map vt_table_id (dict_values (va_tables va))) \<noteq> set (map vt_table_id (dict_values (va_tables new_va)))"

definition is_warm :: "config_changes \<Rightarrow> bool" where
  "is_warm ch \<longleftrightarrow> ch \<noteq> no_changes"

definition restarted_meters :: "config_changes \<Rightarrow> valve \<Rightarrow> valve \<Rightarrow> string list" where
  "restarted_meters ch va new_va =
     filter (\<lambda>k. dict_get (va_meters va) k \<noteq> None \<and> dict_get (va_meters new_va) k \<noteq> None) (ch_changed_meters ch)"

definition with_acls :: "valve \<Rightarrow> (acl_manager \<Rightarrow> err + ofmsg list) \<Rightarrow> err + ofmsg list" where
  "with_acls va f = (case va_acl va of None \<Rightarrow> Inr [] | Some am \<Rightarrow> f am)"

definition acl_changes :: "valve_env \<Rightarrow> config_changes \<Rightarrow> valve \<Rightarrow> err + ofmsg list" where
  "acl_changes E ch va =
     with_acls va (\<lambda>am.
       bindE (mapE (\<lambda>n. bindE (va_port va n) (\<lambda>p.
                let c = va_port_confs va n in acl_cold_start_port (ve_acl E) am p (pc_acls_in c) (pc_dot1x c)))
              (lib_shuffle (ve_lib E) (ch_changed_acl_ports ch))) (\<lambda>ports.
       bindE (mapE (\<lambda>vid. bindE (va_vlan va vid) (\<lambda>v.
                bindE (acl_del_vlan (ve_acl E) am v) (\<lambda>dels.
                bindE (acl_add_vlan (ve_acl E) am v (fst (va_vlan_acls va vid)) (snd (va_vlan_acls va vid))) (\<lambda>adds.
                Inr (dels @ adds)))))
              (lib_shuffle (ve_lib E) (ch_changed_acl_vlans ch))) (\<lambda>vlans.
       Inr (concat ports @ concat vlans))))"

text \<open>The next hops of the VLANs that share a router with a VLAN that changed.\<close>

definition router_mates :: "valve \<Rightarrow> int list \<Rightarrow> int list" where
  "router_mates va changed_vids =
     (let routers = (case va_routes va of [] \<Rightarrow> [] | rm # _ \<Rightarrow> dict_values (rm_routers rm));
          routed = filter (\<lambda>vid. v_faucet_vips (va_heap va vid) \<noteq> []) changed_vids;
          vids = concat (map (\<lambda>vid. concat (map rt_vlans (filter (\<lambda>r. vid \<in> set (rt_vlans r)) routers))) routed)
      in remdups (minus_list vids changed_vids))"

definition expire_router_mates :: "valve_env \<Rightarrow> int list \<Rightarrow> valve \<Rightarrow> err + ofmsg list \<times> valve" where
  "expire_router_mates E changed_vids va =
     collect (\<lambda>vid va.
       bindE (collect (\<lambda>rm h. on_vlan (expire_vlan_nexthops (ve_lib E) rm) vid h) (va_routes va) (va_heap va)) (\<lambda>(ms, h).
       Inr (ms, va_put_heap h va)))
     (lib_shuffle (ve_lib E) (router_mates va changed_vids)) va"

definition start_changed :: "valve_env \<Rightarrow> config_changes \<Rightarrow> string list \<Rightarrow> valve \<Rightarrow> err + ofmsg list \<times> valve" where
  "start_changed E ch added_meters va =
     (let sh = lib_shuffle (ve_lib E); up = (\<lambda>ns. sh (filter (\<lambda>n. n \<in> set (va_up_port_nos va)) ns))
      in bindE (with_acls va (\<lambda>am. add_meters (ve_acl E) am added_meters)) (\<lambda>ms1.
         bindE (ports_add E False (up (ch_added_ports ch)) va) (\<lambda>(ms2, va).
         bindE (ports_add E False (up (ch_changed_ports ch)) va) (\<lambda>(ms3, va).
         bindE (acl_changes E ch va) (\<lambda>ms4.
         bindE (valve_add_vlans E True (sh (ch_added_vids ch)) va) (\<lambda>(ms5, va).
         bindE (valve_add_vlans E False (sh (ch_changed_vids ch)) va) (\<lambda>(ms6, va).
         bindE (expire_router_mates E (ch_changed_vids ch) va) (\<lambda>(ms7, va).
         Inr (ms1 @ ms2 @ ms3 @ ms4 @ ms5 @ ms6 @ ms7, va)))))))))"

definition stop_changed :: "valve_env \<Rightarrow> config_changes \<Rightarrow> string list \<Rightarrow> valve \<Rightarrow> valve \<Rightarrow> err + ofmsg list \<times> valve \<times> valve" where
  "stop_changed E ch deleted_meters va new_va =
     (let sh = lib_shuffle (ve_lib E);
          put = (\<lambda>vlans. new_va\<lparr>va_switch := (va_switch new_va)\<lparr>sm_vlans := vlans\<rparr>\<rparr>)
      in bindE (ports_delete E False None (sh (ch_deleted_ports ch)) va) (\<lambda>(ms1, va).
         bindE (ports_delete E False None (sh (ch_changed_ports ch)) va) (\<lambda>(ms2, va).
         bindE (valve_del_vlans E (sh (ch_deleted_vids ch)) (sm_vlans (va_switch new_va), va)) (\<lambda>(ms3, vlans, va).
         bindE (with_acls va (\<lambda>am. del_meters am deleted_meters)) (\<lambda>ms4.
         bindE (valve_del_vlans E (sh (ch_changed_vids ch)) (vlans, va)) (\<lambda>(ms5, vlans, va).
         Inr (ms1 @ ms2 @ ms3 @ ms4 @ ms5, va, put vlans)))))))"

text \<open>\<open>new_va\<close> is the new valve after \<open>get_config_changes\<close> has merged what stays.\<close>

definition apply_config_changes ::
    "valve_env \<Rightarrow> bool \<Rightarrow> config_changes \<Rightarrow> valve \<Rightarrow> valve \<Rightarrow> err + restart_type option \<times> ofmsg list \<times> valve" where
  "apply_config_changes E pipeline_changed ch va new_va =
     (if pipeline_changed \<or> ch_all_ports_changed ch then Inr (Some Cold, [], dp_init va new_va)
      else if \<not> is_warm ch then Inr (None, [], dp_init va new_va)
      else
        let meters = restarted_meters ch va new_va
        in bindE (stop_changed E ch (union_list (ch_deleted_meters ch) meters) va new_va) (\<lambda>(ms1, va, new_va).
           bindE (start_changed E ch (union_list (ch_added_meters ch) meters) (dp_init va new_va)) (\<lambda>(ms2, va).
           Inr (Some Warm, ms1 @ ms2, va))))"

text \<open>The result \<open>None\<close> asks for a new connection.\<close>

definition reload_config ::
    "valve_env \<Rightarrow> bool \<Rightarrow> config_changes \<Rightarrow> valve \<Rightarrow> valve \<Rightarrow> err + ofmsg list option \<times> valve" where
  "reload_config E pipeline_changed ch va new_va =
     bindE (apply_config_changes E pipeline_changed ch va new_va) (\<lambda>(restart, ms, va).
     Inr (case restart of
            Some Cold \<Rightarrow> None
          | Some Warm \<Rightarrow> Some (if va_running va then ms else [])
          | None \<Rightarrow> Some ms, va))"

section \<open>What the comparison finds\<close>

text \<open>Configurations that are the same but for ignored keys, and perhaps the description.\<close>

definition unchanged :: "(string set \<Rightarrow> int) \<Rightarrow> conf_class \<Rightarrow> string list \<Rightarrow> conf_obj \<Rightarrow> conf_obj \<Rightarrow> bool" where
  "unchanged hash cls ignore_keys new_conf old_conf \<longleftrightarrow>
     ignore_subconf hash cls ignore_keys new_conf old_conf = Inr True \<or>
     ignore_subconf hash cls (''description'' # ignore_keys) new_conf old_conf = Inr True"

definition kept :: "(string set \<Rightarrow> int) \<Rightarrow> conf_class \<Rightarrow> string list \<Rightarrow> ('k, conf_obj) dict \<Rightarrow> ('k, conf_obj) dict \<Rightarrow> 'k \<Rightarrow> bool" where
  "kept hash cls ignore_keys subconf new_subconf k \<longleftrightarrow>
     (\<exists>x y. dict_get subconf k = Some x \<and> dict_get new_subconf k = Some y \<and> unchanged hash cls ignore_keys y x)"

lemma conf_change_fst: "conf_change_of hash cls ig sub kv = Inr r \<Longrightarrow> fst r = fst kv"
  by (auto simp: conf_change_of_def bindE_Inr split: option.splits if_splits prod.splits)

lemma conf_change_kept:
  assumes "conf_change_of hash cls ig sub (k, y) = Inr (k', c)" and "c \<noteq> Added" and "c \<noteq> Changed"
  shows "\<exists>x. dict_get sub k = Some x \<and> unchanged hash cls ig y x"
  using assms by (auto simp: conf_change_of_def bindE_Inr unchanged_def split: option.splits if_splits)

lemma conf_changes_kept:
  assumes "get_conf_changes hash cls ig sub new = Inr c" and "dict_get new k = Some y"
    and "k \<notin> set (cc_added c)" and "k \<notin> set (cc_changed c)"
  shows "kept hash cls ig sub new k \<and> k \<in> set (cc_same c)"
proof -
  from assms(1) obtain chs where chs: "mapE (conf_change_of hash cls ig sub) new = Inr chs"
    and c: "cc_added c = map fst (filter (\<lambda>(_, c). c \<in> set [Added]) chs)"
      "cc_changed c = map fst (filter (\<lambda>(_, c). c \<in> set [Changed]) chs)"
      "cc_same c = map fst (filter (\<lambda>(_, c). c \<in> set [Same, DescriptionOnly]) chs)"
    by (auto simp: get_conf_changes_def bindE_Inr Let_def)
  from mapE_dom [OF chs dict_get_Some_in [OF assms(2)]] obtain k' ch
    where r: "(k', ch) \<in> set chs" "conf_change_of hash cls ig sub (k, y) = Inr (k', ch)" by auto
  from conf_change_fst [OF r(2)] have [simp]: "k' = k" by simp
  have na: "ch \<noteq> Added" and nc: "ch \<noteq> Changed" using assms(3,4) r(1) c by force+
  have "k \<in> set (cc_same c)" using r(1) na nc c by (cases ch) force+
  with conf_change_kept [OF r(2) na nc] assms(2) show ?thesis by (auto simp: kept_def)
qed

lemma filterE_iff:
  assumes "filterE p xs = Inr ys"
  shows "x \<in> set ys \<longleftrightarrow> x \<in> set xs \<and> p x = Inr True"
proof -
  from assms obtain yss where y: "mapE (\<lambda>x. bindE (p x) (\<lambda>b. Inr (if b then [x] else []))) xs = Inr yss" "ys = concat yss"
    by (auto simp: filterE_def bindE_Inr)
  from y(1) have "x \<in> set (concat yss) \<longleftrightarrow> x \<in> set xs \<and> p x = Inr True"
  proof (induction xs arbitrary: yss)
    case Nil
    then show ?case by simp
  next
    case (Cons a xs)
    then show ?case by (auto simp: bindE_Inr split: if_splits)
  qed
  with y(2) show ?thesis by simp
qed

lemma filterE_not: "filterE p xs = Inr ys \<Longrightarrow> x \<in> set xs \<Longrightarrow> x \<notin> set ys \<Longrightarrow> p x = Inr False"
proof (induction xs arbitrary: ys)
  case Nil
  then show ?case by simp
next
  case (Cons a xs)
  then obtain b zs where b: "p a = Inr b" and zs: "filterE p xs = Inr zs" and ys: "ys = (if b then [a] else []) @ zs"
    by (auto simp: filterE_def bindE_Inr)
  show ?case
  proof (cases "x = a")
    case True
    with b ys Cons.prems(3) show ?thesis by (auto split: if_splits)
  next
    case False
    with Cons.IH [OF zs] Cons.prems ys show ?thesis by (auto split: if_splits)
  qed
qed

lemma acl_changes_spec:
  assumes "get_acl_config_changes C dp new_dp = Inr changed_acls" and "a \<notin> set changed_acls" and "dict_get (dw_acls new_dp) a = Some y"
  shows "kept (ck_hash C) (ck_acl C) [] (dw_acls dp) (dw_acls new_dp) a"
proof -
  from assms(1) obtain c where c: "get_conf_changes (ck_hash C) (ck_acl C) [] (dw_acls dp) (dw_acls new_dp) = Inr c"
    and "changed_acls = union_list (cc_added c) (cc_changed c)"
    by (auto simp: get_acl_config_changes_def bindE_Inr)
  with assms(2) conf_changes_kept [OF c assms(3)] show ?thesis by (auto simp: union_list_def)
qed

text \<open>The references of an object to ACLs: the same, to ACLs that stay.\<close>

definition same_acls :: "conf_classes \<Rightarrow> dp_view \<Rightarrow> dp_view \<Rightarrow> string list \<Rightarrow> string list \<Rightarrow> bool" where
  "same_acls C dp new_dp old_acls new_acls \<longleftrightarrow>
     new_acls = old_acls \<and>
     (\<forall>a \<in> set new_acls. dict_get (dw_acls new_dp) a \<noteq> None \<longrightarrow> kept (ck_hash C) (ck_acl C) [] (dw_acls dp) (dw_acls new_dp) a)"

lemma no_ref_changes:
  assumes "get_acl_config_changes C dp new_dp = Inr changed_acls" and "\<not> acl_ref_changes changed_acls old new"
  shows "same_acls C dp new_dp old new"
  using assms acl_changes_spec [OF assms(1)] by (fastforce simp: acl_ref_changes_def same_acls_def)

definition same_vlan :: "conf_classes \<Rightarrow> dp_view \<Rightarrow> dp_view \<Rightarrow> int \<Rightarrow> bool" where
  "same_vlan C dp new_dp vid \<longleftrightarrow>
     (\<exists>v w. dict_get (dw_vlans dp) vid = Some v \<and> dict_get (dw_vlans new_dp) vid = Some w \<and>
        unchanged (ck_hash C) (ck_vlan C) [''acls_in''] (vw_conf w) (vw_conf v) \<and>
        same_acls C dp new_dp (vw_acls_in v) (vw_acls_in w))"

definition same_port :: "conf_classes \<Rightarrow> dp_view \<Rightarrow> dp_view \<Rightarrow> int \<Rightarrow> bool" where
  "same_port C dp new_dp n \<longleftrightarrow>
     (\<exists>p q. dict_get (dw_ports dp) n = Some p \<and> dict_get (dw_ports new_dp) n = Some q \<and>
        unchanged (ck_hash C) (ck_port C) [''acls_in''] (pw_conf q) (pw_conf p) \<and>
        pw_mirror q = pw_mirror p \<and> same_acls C dp new_dp (pw_acls_in p) (pw_acls_in q))"

lemma dict_get_map_dict [simp]: "dict_get (map_dict f d) k = map_option f (dict_get d k)"
  by (induction d) (auto simp: map_dict_def dict_get_def)

lemma vlan_changes_spec:
  assumes acls: "get_acl_config_changes C dp new_dp = Inr changed_acls"
    and vc: "get_vlan_config_changes C dp new_dp changed_acls = Inr vc"
    and v: "dict_get (dw_vlans new_dp) vid = Some w"
    and "vid \<notin> set (vc_added vc)" and "vid \<notin> set (vc_changed vc)" and "vid \<notin> set (vc_changed_acl vc)"
  shows "same_vlan C dp new_dp vid"
proof -
  from vc obtain c where c: "get_conf_changes (ck_hash C) (ck_vlan C) [''acls_in''] (map_dict vw_conf (dw_vlans dp)) (map_dict vw_conf (dw_vlans new_dp)) = Inr c"
    and a: "filterE (vlan_acl_changed dp new_dp changed_acls) (cc_same c) = Inr (vc_changed_acl vc)"
    and f: "vc_added vc = cc_added c" "vc_changed vc = cc_changed c"
    by (auto simp: get_vlan_config_changes_def bindE_Inr)
  have k: "kept (ck_hash C) (ck_vlan C) [''acls_in''] (map_dict vw_conf (dw_vlans dp)) (map_dict vw_conf (dw_vlans new_dp)) vid"
    and s: "vid \<in> set (cc_same c)"
    using conf_changes_kept [OF c, of vid "vw_conf w"] v assms(4,5) f by auto
  from filterE_not [OF a s assms(6)] k v show ?thesis
    by (fastforce simp: vlan_acl_changed_def bindE_Inr kept_def same_vlan_def intro: no_ref_changes [OF acls])
qed

lemma ports_of_vlans_in:
  "dict_get (dw_vlans dp) vid = Some v \<Longrightarrow> vid \<in> set vids \<Longrightarrow> n \<in> set (vw_ports v) \<Longrightarrow> n \<in> set (ports_of_vlans dp vids)"
  by (force simp: ports_of_vlans_def dest: dict_get_Some_in)

lemma warm_port_changes:
  assumes "get_port_config_changes C dp new_dp vc changed_acls = Inr pc" and "\<not> pch_all pc"
  obtains c sp mirrored vids where
    "get_conf_changes (ck_hash C) (ck_port C) [''acls_in''] (map_dict pw_conf (dw_ports dp)) (map_dict pw_conf (dw_ports new_dp)) = Inr c"
    "stack_ports_restarted dp new_dp c = Inr sp"
    "filterE (mirror_changed dp new_dp) (minus_list (cc_same c) sp) = Inr mirrored"
    "filterE (port_acl_changed dp new_dp changed_acls) (minus_list (cc_same c) sp) = Inr (pch_changed_acl pc)"
    "pch_added pc = cc_added c" "pch_deleted pc = cc_deleted c"
    "set (pch_changed pc) = set (cc_changed c) \<union> set sp \<union> set (ports_of_vlans new_dp (vc_changed_acl vc)) \<union> set mirrored \<union>
       set (ports_of_vlans new_dp (vc_added vc @ vc_changed vc))"
proof -
  from assms(1) obtain c sp where c: "get_conf_changes (ck_hash C) (ck_port C) [''acls_in''] (map_dict pw_conf (dw_ports dp)) (map_dict pw_conf (dw_ports new_dp)) = Inr c"
    and sp: "stack_ports_restarted dp new_dp c = Inr sp"
    by (auto simp: get_port_config_changes_def bindE_Inr)
  let ?warm = "\<not> (minus_list (cc_same c) sp = [] \<or> set (union_list (cc_changed c) sp) = set (dict_keys (dw_ports new_dp)))"
  from assms have warm: ?warm by (auto simp: get_port_config_changes_def c sp Let_def split: if_splits)
  from assms(1) obtain mirrored where m: "filterE (mirror_changed dp new_dp) (minus_list (cc_same c) sp) = Inr mirrored"
    and "filterE (port_acl_changed dp new_dp changed_acls) (minus_list (cc_same c) sp) = Inr (pch_changed_acl pc)"
    and "pch_added pc = cc_added c" "pch_deleted pc = cc_deleted c"
    and "set (pch_changed pc) = set (cc_changed c) \<union> set sp \<union> set (ports_of_vlans new_dp (vc_changed_acl vc)) \<union> set mirrored \<union>
       set (ports_of_vlans new_dp (vc_added vc @ vc_changed vc))"
    unfolding get_port_config_changes_def c sp bindE_simps Let_def if_not_P [OF warm]
    by (auto simp: bindE_Inr union_list_def)
  with that c sp show thesis by blast
qed

lemma untouched_port:
  assumes acls: "get_acl_config_changes C dp new_dp = Inr changed_acls"
    and vc: "get_vlan_config_changes C dp new_dp changed_acls = Inr vc"
    and pc: "get_port_config_changes C dp new_dp vc changed_acls = Inr pc" and warm: "\<not> pch_all pc"
    and q: "dict_get (dw_ports new_dp) n = Some q"
    and n: "n \<notin> set (pch_added pc)" "n \<notin> set (pch_changed pc)" "n \<notin> set (pch_changed_acl pc)"
  shows "same_port C dp new_dp n"
    and "dict_get (dw_vlans new_dp) vid = Some w \<Longrightarrow> n \<in> set (vw_ports w) \<Longrightarrow> same_vlan C dp new_dp vid"
    and "pw_stack q \<Longrightarrow> dw_stack dp = Some (r, t) \<Longrightarrow> \<exists>r'. dw_stack new_dp = Some (r', t)"
proof -
  obtain c sp mirrored where
    c: "get_conf_changes (ck_hash C) (ck_port C) [''acls_in''] (map_dict pw_conf (dw_ports dp)) (map_dict pw_conf (dw_ports new_dp)) = Inr c"
    and sp: "stack_ports_restarted dp new_dp c = Inr sp"
    and mirrored: "filterE (mirror_changed dp new_dp) (minus_list (cc_same c) sp) = Inr mirrored"
    and acl: "filterE (port_acl_changed dp new_dp changed_acls) (minus_list (cc_same c) sp) = Inr (pch_changed_acl pc)"
    and added: "pch_added pc = cc_added c" "pch_deleted pc = cc_deleted c"
    and changed: "set (pch_changed pc) = set (cc_changed c) \<union> set sp \<union> set (ports_of_vlans new_dp (vc_changed_acl vc)) \<union> set mirrored \<union>
       set (ports_of_vlans new_dp (vc_added vc @ vc_changed vc))"
    by (rule warm_port_changes [OF pc warm])
  have k: "kept (ck_hash C) (ck_port C) [''acls_in''] (map_dict pw_conf (dw_ports dp)) (map_dict pw_conf (dw_ports new_dp)) n"
    and s: "n \<in> set (cc_same c)"
    using conf_changes_kept [OF c, of n "pw_conf q"] q n added changed by auto
  have s': "n \<in> set (minus_list (cc_same c) sp)" using s n(2) changed by (simp add: minus_list_def)
  have m: "mirror_changed dp new_dp n = Inr False" using filterE_not [OF mirrored s'] n(2) changed by simp
  show "same_port C dp new_dp n"
    using k q m filterE_not [OF acl s' n(3)]
    by (fastforce simp: port_acl_changed_def mirror_changed_def bindE_Inr kept_def same_port_def intro: no_ref_changes [OF acls])
  show "same_vlan C dp new_dp vid" if "dict_get (dw_vlans new_dp) vid = Some w" "n \<in> set (vw_ports w)"
    by (rule vlan_changes_spec [OF acls vc that(1)]) (use n(2) changed ports_of_vlans_in [OF that(1) _ that(2)] in auto)
  show "\<exists>r'. dw_stack new_dp = Some (r', t)" if "pw_stack q" "dw_stack dp = Some (r, t)"
  proof (rule ccontr)
    assume no: "\<nexists>r'. dw_stack new_dp = Some (r', t)"
    with sp that(2) obtain r' t' where st: "dw_stack new_dp = Some (r', t')" "t \<noteq> t'"
      by (auto simp: stack_ports_restarted_def split: option.splits)
    from c have "cc_deleted c = minus_list (dict_keys (map_dict pw_conf (dw_ports dp))) (dict_keys (map_dict pw_conf (dw_ports new_dp)))"
      by (auto simp: get_conf_changes_def bindE_Inr Let_def)
    with q have "n \<notin> set (cc_deleted c)" by (force simp: minus_list_def dict_keys_def map_dict_def dest: dict_get_Some_in)
    moreover from q that(1) have "n \<in> set (map fst (filter (\<lambda>(_, p). pw_stack p) (dw_ports new_dp)))"
      by (auto simp: image_iff dest!: dict_get_Some_in intro!: bexI [of _ "(n, q)"])
    ultimately have "n \<in> set sp" using sp st that(2) n(1) added by (force simp: stack_ports_restarted_def)
    with n(2) changed show False by simp
  qed
qed

text \<open>A port that a warm restart leaves alone, all it depends on included, is as it was.\<close>

lemma get_warm:
  assumes "get_config_changes C dp new_dp = Inr ch" and "\<not> ch_all_ports_changed ch"
  obtains "get_warm_changes C dp new_dp = Inr ch" and "\<not> root_changed dp new_dp"
    and "routers_equal C (dw_routers new_dp) (dw_routers dp) = Inr True"
    and "ignore_subconf (ck_hash C) (ck_dp C) [''interfaces'', ''interface_ranges'', ''routers''] (dw_conf new_dp) (dw_conf dp) = Inr True"
  using assms by (auto simp: get_config_changes_def bindE_Inr cold_changes_def split: if_splits)

lemma warm_changes:
  assumes "get_warm_changes C dp new_dp = Inr ch"
  obtains changed_acls vc pc where "get_acl_config_changes C dp new_dp = Inr changed_acls"
    "get_vlan_config_changes C dp new_dp changed_acls = Inr vc" "get_port_config_changes C dp new_dp vc changed_acls = Inr pc"
    "ch_all_ports_changed ch = pch_all pc" "ch_added_ports ch = pch_added pc" "ch_changed_ports ch = pch_changed pc"
    "ch_changed_acl_ports ch = pch_changed_acl pc" "ch_deleted_ports ch = pch_deleted pc"
    "ch_added_vids ch = vc_added vc" "ch_deleted_vids ch = vc_deleted vc" "ch_changed_acl_vlans ch = vc_changed_acl vc"
    "ch_changed_vids ch = pch_changed_vlans pc"
  using assms by (auto simp: get_warm_changes_def bindE_Inr)

text \<open>C5. A warm restart touches the ports it compares: a port that is not among the added and changed
  ports, nor among those whose ACLs changed, was there before with the same configuration (but for
  its description), the same mirrors and the same ingress ACLs, those ACLs unchanged; each VLAN it
  is on was there before, unchanged and with the same unchanged ingress ACLs; and if it is a stack
  port, the root and the number of links of every datapath of the stack are the same. What the code
  does not compare, the contents of egress ACLs and which links there are, may have changed.\<close>

lemma untouched_port_unchanged:
  assumes "get_config_changes C dp new_dp = Inr ch" and "\<not> ch_all_ports_changed ch"
    and "dict_get (dw_ports new_dp) n = Some q"
    and "n \<notin> set (ch_added_ports ch)" and "n \<notin> set (ch_changed_ports ch)" and "n \<notin> set (ch_changed_acl_ports ch)"
  shows "same_port C dp new_dp n \<and>
    (\<forall>vid w. dict_get (dw_vlans new_dp) vid = Some w \<and> n \<in> set (vw_ports w) \<longrightarrow> same_vlan C dp new_dp vid) \<and>
    (pw_stack q \<and> dw_stack dp \<noteq> None \<longrightarrow> dw_stack new_dp = dw_stack dp)"
proof -
  have root: "\<not> root_changed dp new_dp" by (rule get_warm [OF assms(1,2)])
  obtain changed_acls vc pc where w: "get_acl_config_changes C dp new_dp = Inr changed_acls"
    "get_vlan_config_changes C dp new_dp changed_acls = Inr vc" "get_port_config_changes C dp new_dp vc changed_acls = Inr pc"
    "\<not> pch_all pc" "n \<notin> set (pch_added pc)" "n \<notin> set (pch_changed pc)" "n \<notin> set (pch_changed_acl pc)"
    by (rule get_warm [OF assms(1,2)], erule warm_changes) (use assms in auto)
  note u = untouched_port [OF w(1-4) assms(3) w(5-7)]
  show ?thesis using u root by (fastforce simp: root_changed_def)
qed

section \<open>The same configuration again\<close>

lemma ignore_refl: "ignore_subconf hash cls ig x x = Inr b \<Longrightarrow> b"
  by (auto simp: ignore_subconf_def bindE_Inr)

lemma conf_changes_refl:
  assumes "get_conf_changes hash cls ig d d = Inr c" and "dict_ok d"
  shows "cc_added c = []" and "cc_changed c = []" and "cc_deleted c = []" and "cc_same c = dict_keys d"
proof -
  from assms(1) obtain chs where chs: "mapE (conf_change_of hash cls ig d) d = Inr chs"
    and c: "cc_added c = map fst (filter (\<lambda>(_, c). c \<in> set [Added]) chs)"
      "cc_changed c = map fst (filter (\<lambda>(_, c). c \<in> set [Changed]) chs)"
      "cc_same c = map fst (filter (\<lambda>(_, c). c \<in> set [Same, DescriptionOnly]) chs)"
      "cc_deleted c = minus_list (dict_keys d) (dict_keys d)"
    by (auto simp: get_conf_changes_def bindE_Inr Let_def)
  have one: "r = (fst kv, Same)" if "kv \<in> set d" "conf_change_of hash cls ig d kv = Inr r" for kv r
  proof -
    obtain k x where kv: "kv = (k, x)" by (cases kv)
    with that(1) assms(2) have "dict_get d k = Some x" by (simp add: dict_ok_in)
    with that(2) show ?thesis by (auto simp: conf_change_of_def kv bindE_Inr dest: ignore_refl)
  qed
  have "mapE f xs = Inr ys \<Longrightarrow> set xs \<subseteq> set d \<Longrightarrow> (\<And>kv r. kv \<in> set d \<Longrightarrow> f kv = Inr r \<Longrightarrow> r = (fst kv, Same)) \<Longrightarrow>
      ys = map (\<lambda>kv. (fst kv, Same)) xs" for f :: "'a \<times> conf_obj \<Rightarrow> err + 'a \<times> conf_change" and xs ys
    by (induction xs arbitrary: ys) (auto simp: bindE_Inr)
  from this [OF chs subset_refl one] have "chs = map (\<lambda>kv. (fst kv, Same)) d" by simp
  with c show "cc_added c = []" and "cc_changed c = []" and "cc_deleted c = []" and "cc_same c = dict_keys d"
    by (simp_all add: minus_list_def dict_keys_def filter_map comp_def case_prod_beta)
qed

definition view_ok :: "dp_view \<Rightarrow> bool" where
  "view_ok dp \<longleftrightarrow> dict_ok (dw_routers dp) \<and> dict_ok (dw_acls dp) \<and> dict_ok (dw_meters dp) \<and> dict_ok (dw_vlans dp) \<and> dict_ok (dw_ports dp)"

lemma dict_ok_map [simp]: "dict_ok (map_dict f d) = dict_ok d"
  by (simp add: dict_ok_def map_dict_def comp_def case_prod_beta dict_keys_def)

lemma filterE_none:
  assumes "filterE p xs = Inr ys" and "\<And>x b. p x = Inr b \<Longrightarrow> \<not> b"
  shows "ys = []"
proof -
  have "x \<notin> set ys" for x using filterE_iff [OF assms(1), of x] assms(2) by auto
  then show ?thesis by (cases ys) auto
qed

lemma routers_refl: "dict_ok d \<Longrightarrow> routers_equal C d d = Inr b \<Longrightarrow> b"
proof -
  have "foldE (\<lambda>(k, x) same. if \<not> same then Inr False else bindE (dict_getE d k) (\<lambda>y. conf_eq (ck_hash C) (ck_router C) y x)) es True = Inr b \<Longrightarrow>
      set es \<subseteq> set d \<Longrightarrow> b" if "dict_ok d" for es b
  proof (induction es)
    case Nil
    then show ?case by simp
  next
    case (Cons e es)
    obtain k x where e: "e = (k, x)" by (cases e)
    with Cons.prems(2) that have "dict_get d k = Some x" by (auto simp: dict_ok_in)
    with Cons show ?case by (auto simp: e bindE_Inr conf_eq_def)
  qed
  then show "dict_ok d \<Longrightarrow> routers_equal C d d = Inr b \<Longrightarrow> b" by (auto simp: routers_equal_def)
qed

text \<open>
  The configuration that runs, read again: the objects are the same, but the stack of the new datapath is fresh, with
  the root the configuration nominates and with every configured link in its graph.
\<close>

abbreviation reread :: "dp_view \<Rightarrow> (string \<times> (string \<times> nat) list) option \<Rightarrow> dp_view" where
  "reread dp st \<equiv> dp\<lparr>dw_stack := st\<rparr>"

definition restarted_by_stack :: "dp_view \<Rightarrow> (string \<times> (string \<times> nat) list) option \<Rightarrow> int list" where
  "restarted_by_stack dp st =
     (case (dw_stack dp, st) of
        (Some (_, t), Some (_, t')) \<Rightarrow> if t \<noteq> t' then map fst (filter (\<lambda>(_, p). pw_stack p) (dw_ports dp)) else []
      | _ \<Rightarrow> [])"

lemma same_objects_refl: "same_objects C xs xs = Inr b \<Longrightarrow> b"
proof -
  have "foldE (\<lambda>(x, y) same. if same then conf_eq (ck_hash C) (ck_vlan C) y x else Inr False) (zip xs xs) True = Inr b \<Longrightarrow> b" for xs b
    by (induction xs) (auto simp: bindE_Inr conf_eq_def)
  then show "same_objects C xs xs = Inr b \<Longrightarrow> b" by (simp add: same_objects_def)
qed

lemma changed_port_vlans_refl: "changed_port_vlans C dp (reread dp st) n = Inr vids \<Longrightarrow> vids = []"
  by (auto simp: changed_port_vlans_def vlan_objects_def dict_getE_def bindE_Inr Let_def dest: same_objects_refl split: option.splits if_splits)

lemma stack_ports_reread:
  assumes "stack_ports_restarted dp (reread dp st) c = Inr sp" and "cc_deleted c = []" and "cc_added c = []"
  shows "sp = restarted_by_stack dp st"
  using assms by (auto simp: stack_ports_restarted_def restarted_by_stack_def split: option.splits)

lemma restarted_subset: "set (restarted_by_stack dp st) \<subseteq> set (dict_keys (dw_ports dp))"
  by (auto simp: restarted_by_stack_def dict_keys_def split: option.splits)

lemma restarted_distinct: "dict_ok (dw_ports dp) \<Longrightarrow> distinct (restarted_by_stack dp st)"
  by (auto simp: restarted_by_stack_def dict_ok_def dict_keys_def distinct_map intro: inj_on_subset split: option.splits)

lemma mapE_nil:
  assumes "mapE f xs = Inr yss" and "\<And>x ys. f x = Inr ys \<Longrightarrow> ys = []"
  shows "concat yss = []"
  using assms(1) by (induction xs arbitrary: yss) (auto simp: bindE_Inr dest: assms(2))

lemma port_changes_reread:
  assumes "get_port_config_changes C dp (reread dp st) vc [] = Inr pc" and "dict_ok (dw_ports dp)" and "dw_ports dp \<noteq> []"
    and "vc_added vc = []" and "vc_changed vc = []" and "vc_changed_acl vc = []"
  shows "pc = \<lparr>pch_all = (set (restarted_by_stack dp st) = set (dict_keys (dw_ports dp))), pch_deleted = [],
    pch_changed = restarted_by_stack dp st, pch_added = [], pch_changed_acl = [], pch_changed_vlans = []\<rparr>"
proof -
  let ?sp = "restarted_by_stack dp st"
  from assms(1) obtain c sp where c: "get_conf_changes (ck_hash C) (ck_port C) [''acls_in''] (map_dict pw_conf (dw_ports dp)) (map_dict pw_conf (dw_ports dp)) = Inr c"
    and sp: "stack_ports_restarted dp (reread dp st) c = Inr sp"
    by (auto simp: get_port_config_changes_def bindE_Inr)
  note r = conf_changes_refl [OF c, unfolded dict_ok_map, OF assms(2)]
  have sp_eq: "sp = ?sp" by (rule stack_ports_reread [OF sp r(3,1)])
  have keys: "dict_keys (map_dict pw_conf (dw_ports dp)) = dict_keys (dw_ports dp)"
    by (simp add: dict_keys_def map_dict_def comp_def case_prod_beta)
  have ne: "dict_keys (dw_ports dp) \<noteq> []" using assms(3) by (simp add: dict_keys_def)
  have all: "minus_list (dict_keys (dw_ports dp)) ?sp = [] \<or> set ?sp = set (dict_keys (dw_ports dp)) \<longleftrightarrow>
      set ?sp = set (dict_keys (dw_ports dp))"
    using restarted_subset [of dp st] by (auto simp: minus_list_def filter_empty_conv)
  have changed: "union_list [] ?sp = ?sp" using restarted_distinct [OF assms(2), of st] by (simp add: union_list_def distinct_remdups_id)
  then have again: "union_list ?sp [] = ?sp" by (simp add: union_list_def)
  have mirror: "filterE (mirror_changed dp (reread dp st)) ns = Inr ms \<Longrightarrow> ms = []" for ns ms
    by (erule filterE_none) (auto simp: mirror_changed_def bindE_Inr)
  have acl: "filterE (port_acl_changed dp (reread dp st) []) ns = Inr ms \<Longrightarrow> ms = []" for ns ms
    by (erule filterE_none) (auto simp: port_acl_changed_def acl_ref_changes_def bindE_Inr)
  have pv: "ports_of_vlans (reread dp st) [] = []" by (auto simp: ports_of_vlans_def concat_eq_Nil_conv)
  have vids: "mapE (changed_port_vlans C dp (reread dp st)) ns = Inr yss \<Longrightarrow> concat yss = []" for ns yss
    by (erule mapE_nil) (rule changed_port_vlans_refl)
  show ?thesis
  proof (cases "set ?sp = set (dict_keys (dw_ports dp))")
    case True
    then show ?thesis
      using assms(1) by (simp add: get_port_config_changes_def c sp sp_eq r keys all changed assms(4-6) Let_def minus_list_def)
  next
    case False
    have e: "dw_ports (reread dp st) = dw_ports dp" by simp
    have w: "\<not> (minus_list (dict_keys (dw_ports dp)) ?sp = [] \<or> set ?sp = set (dict_keys (dw_ports dp)))" using False all by blast
    from assms(1) obtain yss ms ms' where y: "mapE (changed_port_vlans C dp (reread dp st)) ?sp = Inr yss"
      and m: "filterE (mirror_changed dp (reread dp st)) (minus_list (dict_keys (dw_ports dp)) ?sp) = Inr ms"
      and m': "filterE (port_acl_changed dp (reread dp st) []) (minus_list (dict_keys (dw_ports dp)) ?sp) = Inr ms'"
      and pc: "pc = \<lparr>pch_all = False, pch_deleted = [], pch_changed = union_list (union_list ?sp ms) [], pch_added = [],
        pch_changed_acl = ms', pch_changed_vlans = minus_list (minus_list (union_list [] (concat yss)) []) (vc_deleted vc)\<rparr>"
      unfolding get_port_config_changes_def e c sp sp_eq bindE_simps Let_def r keys assms(4-6) changed append_Nil pv again if_not_P [OF w]
      by (auto simp: bindE_Inr)
    have "ms = []" and "ms' = []" by (rule mirror [OF m], rule acl [OF m'])
    then show ?thesis
      using False by (simp add: pc again vids [OF y] minus_list_def union_list_def distinct_remdups_id restarted_distinct assms(2))
  qed
qed

lemma config_changes_reread:
  assumes "get_config_changes C dp (reread dp st) = Inr ch" and ok: "view_ok dp" and "dw_ports dp \<noteq> []"
    and root: "\<not> root_changed dp (reread dp st)"
  shows "ch = no_changes\<lparr>ch_changed_ports := restarted_by_stack dp st,
    ch_all_ports_changed := (set (restarted_by_stack dp st) = set (dict_keys (dw_ports dp)))\<rparr>"
proof -
  let ?new = "reread dp st"
  have "get_warm_changes C dp ?new = Inr ch"
    using assms(1) routers_refl [of "dw_routers dp" C] ok
    by (auto simp: get_config_changes_def root view_ok_def bindE_Inr dest!: ignore_refl split: if_splits)
  then obtain acls vc mc pc where acls: "get_acl_config_changes C dp ?new = Inr acls"
    and vc: "get_vlan_config_changes C dp ?new acls = Inr vc"
    and mc: "get_conf_changes (ck_hash C) (ck_meter C) [] (dw_meters dp) (dw_meters dp) = Inr mc"
    and pc: "get_port_config_changes C dp ?new vc acls = Inr pc"
    and ch: "ch = \<lparr>ch_deleted_ports = pch_deleted pc, ch_changed_ports = pch_changed pc, ch_added_ports = pch_added pc,
          ch_changed_acl_ports = pch_changed_acl pc, ch_added_vids = vc_added vc, ch_deleted_vids = vc_deleted vc,
          ch_changed_vids = pch_changed_vlans pc, ch_changed_acl_vlans = vc_changed_acl vc, ch_all_ports_changed = pch_all pc,
          ch_all_meters_changed = any_changes mc, ch_deleted_meters = cc_deleted mc, ch_added_meters = cc_added mc,
          ch_changed_meters = cc_changed mc\<rparr>"
    by (auto simp: get_warm_changes_def bindE_Inr)
  from ok have oks: "dict_ok (dw_acls dp)" "dict_ok (dw_meters dp)" "dict_ok (dw_vlans dp)" "dict_ok (dw_ports dp)"
    by (simp_all add: view_ok_def)
  from acls obtain ac where "get_conf_changes (ck_hash C) (ck_acl C) [] (dw_acls dp) (dw_acls dp) = Inr ac" "acls = union_list (cc_added ac) (cc_changed ac)"
    by (auto simp: get_acl_config_changes_def bindE_Inr)
  with conf_changes_refl [OF this(1) oks(1)] have a: "acls = []" by (simp add: union_list_def)
  from vc obtain c where c: "get_conf_changes (ck_hash C) (ck_vlan C) [''acls_in''] (map_dict vw_conf (dw_vlans dp)) (map_dict vw_conf (dw_vlans dp)) = Inr c"
    and fa: "filterE (vlan_acl_changed dp ?new []) (cc_same c) = Inr (vc_changed_acl vc)"
    and f: "vc_added vc = cc_added c" "vc_changed vc = cc_changed c" "vc_deleted vc = cc_deleted c"
    by (auto simp: get_vlan_config_changes_def bindE_Inr a)
  note v = conf_changes_refl [OF c, unfolded dict_ok_map, OF oks(3)]
  have va: "vc_changed_acl vc = []"
    by (rule filterE_none [OF fa]) (auto simp: vlan_acl_changed_def acl_ref_changes_def bindE_Inr)
  note m = conf_changes_refl [OF mc oks(2)]
  have "vc_added vc = []" and "vc_changed vc = []" using v f by simp_all
  note p = port_changes_reread [OF pc [unfolded a] oks(4) assms(3) this va]
  show ?thesis using v va m f by (simp add: ch p no_changes_def any_changes_def)
qed

definition example_classes :: conf_classes where
  "example_classes =
     (let cls = \<lparr>cc_defaults = [(''name'', CNone), (''native_vlan'', CNone), (''mirror'', CNone)], cc_types = [], cc_mutable_attrs = []\<rparr>
      in \<lparr>ck_hash = (\<lambda>s. int (card s)), ck_dp = cls, ck_port = cls, ck_vlan = cls, ck_acl = cls, ck_meter = cls, ck_router = cls\<rparr>)"

definition example_conf :: "string list \<Rightarrow> conf_obj" where
  "example_conf ks = \<lparr>cf_id = ''x'', cf_dict = [], cf_orig_conf = map (\<lambda>k. (k, CStr k)) ks, cf_dyn_finalized = True\<rparr>"

definition example_view :: "string list \<Rightarrow> dp_view" where
  "example_view ks =
     \<lparr>dw_conf = example_conf [], dw_stack = None, dw_routers = [], dw_acls = [(''a'', example_conf [])], dw_meters = [],
      dw_vlans = [(10, \<lparr>vw_conf = example_conf [], vw_acls_in = [''a''], vw_acls_out = [], vw_ports = [1]\<rparr>),
                  (20, \<lparr>vw_conf = example_conf [], vw_acls_in = [], vw_acls_out = [], vw_ports = [2]\<rparr>)],
      dw_ports = [(1, \<lparr>pw_conf = example_conf [], pw_vids = [10], pw_stack = False, pw_mirror = None, pw_acls_in = [''a'']\<rparr>),
                  (2, \<lparr>pw_conf = example_conf ks, pw_vids = [20], pw_stack = False, pw_mirror = None, pw_acls_in = []\<rparr>)]\<rparr>"

definition example_changes :: config_changes where
  "example_changes = no_changes\<lparr>ch_changed_ports := [2]\<rparr>"

lemma example_changed: "get_config_changes example_classes (example_view []) (example_view [''name'']) = Inr example_changes"
  by code_simp

lemma untouched_port_unchanged_witness:
  "same_port example_classes (example_view []) (example_view [''name'']) 1 \<and> same_vlan example_classes (example_view []) (example_view [''name'']) 10"
proof -
  have q: "dict_get (dw_ports (example_view [''name''])) 1 =
      Some \<lparr>pw_conf = example_conf [], pw_vids = [10], pw_stack = False, pw_mirror = None, pw_acls_in = [''a'']\<rparr>"
    and v: "dict_get (dw_vlans (example_view [''name''])) 10 = Some \<lparr>vw_conf = example_conf [], vw_acls_in = [''a''], vw_acls_out = [], vw_ports = [1]\<rparr>"
    by (simp_all add: example_view_def dict_simps)
  have "\<not> ch_all_ports_changed example_changes" "1 \<notin> set (ch_added_ports example_changes)"
    "1 \<notin> set (ch_changed_ports example_changes)" "1 \<notin> set (ch_changed_acl_ports example_changes)"
    by (simp_all add: example_changes_def no_changes_def)
  from untouched_port_unchanged [OF example_changed this(1) q this(2-4)] v show ?thesis by fastforce
qed

text \<open>C13. Reloading the configuration a datapath runs with, when the new datapath has the same objects,
  the same tables and a fresh stack: if the configured root is not the running one, or every port is
  a stack port and the degrees of the running graph differ from the configured ones, it restarts
  cold; otherwise the changes are the stack ports when the degrees differ, as they do while a link
  is down, and nothing else, and with no such port it sends nothing and does not restart.\<close>

lemma reload_same_config:
  assumes ch: "get_config_changes C dp (dp\<lparr>dw_stack := st\<rparr>) = Inr ch" and ok: "view_ok dp" "dw_ports dp \<noteq> []"
    and tables: "set (map vt_table_id (dict_values (va_tables va))) = set (map vt_table_id (dict_values (va_tables new_va)))"
  shows "if root_changed dp (dp\<lparr>dw_stack := st\<rparr>) \<or>
        set (restarted_by_stack dp st) = set (dict_keys (dw_ports dp))
      then reload_config E (pipeline_change hardware hardware va new_va) ch va new_va = Inr (None, dp_init va new_va)
      else ch = no_changes\<lparr>ch_changed_ports := restarted_by_stack dp st\<rparr> \<and>
        (restarted_by_stack dp st = [] \<longrightarrow>
          reload_config E (pipeline_change hardware hardware va new_va) ch va new_va = Inr (Some [], dp_init va new_va))"
proof -
  have p: "\<not> pipeline_change hardware hardware va new_va" unfolding pipeline_change_def tables by simp
  show ?thesis
  proof (cases "root_changed dp (dp\<lparr>dw_stack := st\<rparr>)")
    case True
    with ch have "ch = cold_changes" by (simp add: get_config_changes_def)
    with True show ?thesis by (simp add: reload_config_def apply_config_changes_def cold_changes_def)
  next
    case False
    from config_changes_reread [OF ch ok False] False p show ?thesis
      by (simp add: reload_config_def apply_config_changes_def is_warm_def no_changes_def)
  qed
qed

text \<open>A stack link that is down is missing in the running graph alone: the same configuration restarts the stack ports.\<close>

definition example_stack_view :: "(string \<times> nat) list \<Rightarrow> dp_view" where
  "example_stack_view degrees =
     (example_view [])\<lparr>dw_stack := Some (''s1'', degrees),
       dw_ports := dw_ports (example_view []) @
         [(3, \<lparr>pw_conf = example_conf [], pw_vids = [], pw_stack = True, pw_mirror = None, pw_acls_in = []\<rparr>)]\<rparr>"

definition example_degrees :: "(string \<times> nat) list" where
  "example_degrees = [(''s1'', 1), (''s2'', 1)]"

lemma link_down_restarts:
  "get_config_changes example_classes (example_stack_view []) ((example_stack_view [])\<lparr>dw_stack := Some (''s1'', example_degrees)\<rparr>) =
     Inr (no_changes\<lparr>ch_changed_ports := [3]\<rparr>)"
  by code_simp

lemma link_up_same:
  "get_config_changes example_classes (example_stack_view example_degrees)
     ((example_stack_view example_degrees)\<lparr>dw_stack := Some (''s1'', example_degrees)\<rparr>) = Inr no_changes"
  by code_simp

lemma reload_same_config_witness:
  "reload_config example_env (pipeline_change ''Open vSwitch'' ''Open vSwitch'' example_valve example_valve) no_changes
     example_valve example_valve = Inr (Some [], dp_init example_valve example_valve)"
proof -
  let ?dp = "example_stack_view example_degrees"
  have "view_ok ?dp" and "dw_ports ?dp \<noteq> []"
    by (simp_all add: view_ok_def example_stack_view_def example_view_def dict_ok_def dict_keys_def)
  note r = reload_same_config [OF link_up_same this refl, of example_env "''Open vSwitch''" example_valve]
  have "\<not> root_changed ?dp (?dp\<lparr>dw_stack := Some (''s1'', example_degrees)\<rparr>)"
    and "restarted_by_stack ?dp (Some (''s1'', example_degrees)) = []"
    and "dict_keys (dw_ports ?dp) \<noteq> []"
    by (simp_all add: root_changed_def restarted_by_stack_def example_stack_view_def example_view_def dict_keys_def)
  with r show ?thesis by (simp split: if_splits)
qed

text \<open>The ACLs of the egress of a VLAN are not compared: a rule that changes in one goes unnoticed.\<close>

definition egress_view :: "string list \<Rightarrow> dp_view" where
  "egress_view rules =
     (example_view [])\<lparr>dw_acls := [(''a'', example_conf []), (''b'', example_conf rules)],
       dw_vlans := [(10, \<lparr>vw_conf = example_conf [], vw_acls_in = [''a''], vw_acls_out = [''b''], vw_ports = [1]\<rparr>),
                    (20, \<lparr>vw_conf = example_conf [], vw_acls_in = [], vw_acls_out = [], vw_ports = [2]\<rparr>)]\<rparr>"

lemma egress_acl_change_unnoticed:
  "get_acl_config_changes example_classes (egress_view []) (egress_view [''name'']) = Inr [''b''] \<and>
   get_config_changes example_classes (egress_view []) (egress_view [''name'']) = Inr no_changes"
  by code_simp

end
