(* ===== verification/TableFeatures.thy ===== *)
theory TableFeatures imports Valve Pipeline begin

text \<open>
  The table features message, by which a switch is told what its tables hold (\<^verbatim>\<open>faucet/tfm_pipeline.py\<close>), and the kinds of
  switches (the classes at the end of \<^verbatim>\<open>faucet/valve.py\<close>).

  The record \<open>table_stats\<close> extends the features the switch of the tests reads (\<open>tfm_body\<close>) by the others. A set of kinds of
  instructions or actions is a list without repetition; table ids that are not used come in ascending order.
\<close>

section \<open>Features of tables\<close>

datatype prop_type =
    PInstructions | PInstructionsMiss | PNextTables | PNextTablesMiss
  | PWriteActions | PWriteActionsMiss | PApplyActions | PApplyActionsMiss
  | PMatch | PWildcards
  | PWriteSetfield | PWriteSetfieldMiss | PApplySetfield | PApplySetfieldMiss

datatype inst_kind = ITApplyActions | ITGotoTable | ITMeter | ITWriteMetadata

datatype act_kind = ATOutput | ATGroup | ATSetField | ATPushVlan | ATPopVlan | ATDecNwTtl

datatype features_prop =
    OxmProp prop_type "(string \<times> bool) list"
  | NextTablesProp prop_type "int list"
  | InstructionsProp prop_type "inst_kind list"
  | ActionsProp prop_type "act_kind list"

fun prop_type_of :: "features_prop \<Rightarrow> prop_type" where
  "prop_type_of (OxmProp p _) = p"
| "prop_type_of (NextTablesProp p _) = p"
| "prop_type_of (InstructionsProp p _) = p"
| "prop_type_of (ActionsProp p _) = p"

record table_stats = tfm_body +
  ts_metadata_match :: int
  ts_metadata_write :: int
  ts_properties :: "features_prop list"

definition REQUIRED_PROPERTIES :: "prop_type list" where
  "REQUIRED_PROPERTIES =
     [PWriteActions, PWriteActionsMiss, PApplyActions, PApplyActionsMiss, PWriteSetfield, PWriteSetfieldMiss, PMatch, PWildcards,
      PApplySetfieldMiss, PApplySetfield, PNextTables, PNextTablesMiss, PInstructions, PInstructionsMiss]"

definition fill_required_properties :: "table_stats \<Rightarrow> table_stats" where
  "fill_required_properties new_table =
     (let configured_props = map prop_type_of (ts_properties new_table);
          missing_props = filter (\<lambda>p. p \<notin> set configured_props) REQUIRED_PROPERTIES
      in new_table\<lparr>ts_properties := ts_properties new_table @ map (\<lambda>p. OxmProp p []) missing_props\<rparr>)"

definition init_table :: "int \<Rightarrow> string \<Rightarrow> int \<Rightarrow> int \<Rightarrow> int \<Rightarrow> table_stats" where
  "init_table table_id name max_entries metadata_match metadata_write =
     \<lparr>tfm_table_id = table_id, tfm_name = name, tfm_max_entries = max_entries, ts_metadata_match = metadata_match,
      ts_metadata_write = metadata_write, ts_properties = []\<rparr>"

section \<open>Kinds of switches\<close>

text \<open>The parameters of the message, and the attributes of the classes.\<close>

record tfm_params =
  tp_max_table_id :: int
  tp_min_max_flows :: int
  tp_use_oxm_ids :: bool
  tp_fill_req :: bool

record valve_class =
  hw_dec_ttl :: bool
  hw_use_barriers :: bool
  hw_static_table_ids :: bool
  hw_groups :: bool
  hw_tfm :: "tfm_params option"

definition Valve_cl :: valve_class where
  "Valve_cl = \<lparr>hw_dec_ttl = True, hw_use_barriers = True, hw_static_table_ids = False, hw_groups = True, hw_tfm = None\<rparr>"

definition TfmValve :: valve_class where
  "TfmValve = Valve_cl\<lparr>hw_tfm := Some \<lparr>tp_max_table_id = 0, tp_min_max_flows = 0, tp_use_oxm_ids = True, tp_fill_req = True\<rparr>\<rparr>"

definition OVSValve :: valve_class where "OVSValve = Valve_cl\<lparr>hw_use_barriers := True\<rparr>"

definition OVSTfmValve :: valve_class where
  "OVSTfmValve =
     TfmValve\<lparr>hw_use_barriers := True,
       hw_tfm := Some \<lparr>tp_max_table_id = 253, tp_min_max_flows = 1000000, tp_use_oxm_ids = False, tp_fill_req = True\<rparr>\<rparr>"

definition ArubaValve :: valve_class where
  "ArubaValve =
     TfmValve\<lparr>hw_dec_ttl := False,
       hw_tfm := Some \<lparr>tp_max_table_id = 0, tp_min_max_flows = 0, tp_use_oxm_ids = True, tp_fill_req = False\<rparr>\<rparr>"

definition CiscoC9KValve :: valve_class where "CiscoC9KValve = TfmValve"

definition AlliedTelesis :: valve_class where "AlliedTelesis = OVSValve\<lparr>hw_dec_ttl := False\<rparr>"

definition NoviFlowValve :: valve_class where "NoviFlowValve = Valve_cl\<lparr>hw_static_table_ids := True, hw_use_barriers := True\<rparr>"

definition SUPPORTED_HARDWARE :: "(string, valve_class) dict" where
  "SUPPORTED_HARDWARE =
     [(''Generic'', Valve_cl), (''GenericTFM'', TfmValve), (''Allied-Telesis'', AlliedTelesis), (''Aruba'', ArubaValve),
      (''CiscoC9K'', CiscoC9KValve), (''Lagopus'', OVSValve), (''Netronome'', OVSValve), (''NoviFlow'', NoviFlowValve),
      (''Open vSwitch'', OVSValve), (''Open vSwitch TFM'', OVSTfmValve), (''ZodiacFX'', OVSValve), (''ZodiacGX'', OVSValve)]"

definition valve_factory :: "string \<Rightarrow> valve_class option" where
  "valve_factory hardware = dict_get SUPPORTED_HARDWARE hardware"

section \<open>The message\<close>

text \<open>The properties of one table, in the order they are added.\<close>

definition or_empty :: "'a list option \<Rightarrow> 'a list" where
  "or_empty o1 = (case o1 of None \<Rightarrow> [] | Some xs \<Rightarrow> xs)"

definition match_props :: "tfm_params \<Rightarrow> valve_table \<Rightarrow> features_prop list" where
  "match_props tp t =
     (let match_types = or_empty (vt_match_types t); oxm_ids = (if tp_use_oxm_ids tp then match_types else [])
      in if match_types = [] then []
         else OxmProp PMatch oxm_ids # (if vt_exact_match t then [] else [OxmProp PWildcards oxm_ids]))"

definition instruction_props :: "valve_table \<Rightarrow> features_prop list" where
  "instruction_props t =
     (if vt_next_tables t \<noteq> [] then [NextTablesProp PNextTables (vt_next_tables t)] else []) @
     [InstructionsProp PInstructions
        ([ITApplyActions] @ (if vt_next_tables t \<noteq> [] then [ITGotoTable] else []) @
         (if tc_meter (vt_config t) then [ITMeter] else []))]"

definition action_props :: "valve_class \<Rightarrow> tfm_params \<Rightarrow> valve_table \<Rightarrow> features_prop list" where
  "action_props valve_cl tp t =
     (let set_fields = or_empty (vt_set_fields t);
          oxm_ids = (if tp_use_oxm_ids tp then map (\<lambda>field. (field, False)) set_fields else []);
          apply_actions =
            (if tc_dec_ttl (vt_config t) \<and> hw_dec_ttl valve_cl then [ATDecNwTtl] else []) @
            (if set_fields \<noteq> [] then ATSetField # (if ''vlan_vid'' \<in> set set_fields then [ATPushVlan] else []) else []) @
            (if tc_output (vt_config t) then [ATOutput, ATPopVlan] @ (if hw_groups valve_cl then [ATGroup] else []) else [])
      in (if set_fields \<noteq> [] then [OxmProp PApplySetfield oxm_ids] else []) @
         (if apply_actions \<noteq> [] then [ActionsProp PApplyActions apply_actions] else []))"

definition miss_props :: "(string, valve_table) dict \<Rightarrow> valve_table \<Rightarrow> err + features_prop list" where
  "miss_props tables t =
     (case tc_miss_goto (vt_config t) of
        None \<Rightarrow> Inr []
      | Some miss_goto \<Rightarrow>
          if miss_goto = [] then Inr []
          else
            bindE (dict_getE tables miss_goto) (\<lambda>miss_table.
            Inr [NextTablesProp PNextTablesMiss [vt_table_id miss_table], InstructionsProp PInstructionsMiss [ITGotoTable]]))"

definition fill :: "tfm_params \<Rightarrow> table_stats \<Rightarrow> table_stats" where
  "fill tp new_table = (if tp_fill_req tp then fill_required_properties new_table else new_table)"

definition load_table :: "(string, valve_table) dict \<Rightarrow> valve_class \<Rightarrow> tfm_params \<Rightarrow> int \<Rightarrow> err + table_stats" where
  "load_table tables valve_cl tp table_id =
     (case table_by_id tables table_id of
        None \<Rightarrow> Inl AttributeError
      | Some t \<Rightarrow>
          (case tc_size (vt_config t) of
             None \<Rightarrow> Inl TypeError
           | Some sz \<Rightarrow>
               bindE (miss_props tables t) (\<lambda>miss.
               Inr (fill tp ((init_table table_id (vt_name t) (max (tp_min_max_flows tp) sz) (vt_metadata_match t) (vt_metadata_write t))
                      \<lparr>ts_properties := match_props tp t @ instruction_props t @ action_props valve_cl tp t @ miss\<rparr>)))))"

definition missing_table :: "tfm_params \<Rightarrow> int \<Rightarrow> table_stats" where
  "missing_table tp table_id = fill tp (init_table table_id (int_str table_id) (tp_min_max_flows tp) 0 0)"

definition load_tables :: "(string, valve_table) dict \<Rightarrow> valve_class \<Rightarrow> tfm_params \<Rightarrow> err + table_stats list" where
  "load_tables tables valve_cl tp =
     (let active_table_ids = sort (map vt_table_id (dict_values tables))
      in bindE (mapE (load_table tables valve_cl tp) active_table_ids) (\<lambda>table_array.
         let tfm_table_ids = map tfm_table_id table_array;
             missing_table_ids = filter (\<lambda>table_id. table_id \<notin> set tfm_table_ids) [0..tp_max_table_id tp]
         in Inr (table_array @ map (missing_table tp) missing_table_ids)))"

definition table_features :: "table_stats list \<Rightarrow> ofmsg" where
  "table_features body = TableFeaturesMsg (map tfm_body.truncate body)"

definition pipeline_flows :: "valve_class \<Rightarrow> valve \<Rightarrow> err + ofmsg list" where
  "pipeline_flows valve_cl va =
     (case hw_tfm valve_cl of
        None \<Rightarrow> Inr []
      | Some tp \<Rightarrow> bindE (load_tables (va_tables va) valve_cl tp) (\<lambda>body. Inr [table_features body]))"

definition tfm_add_default_flows :: "valve_env \<Rightarrow> valve_class \<Rightarrow> valve \<Rightarrow> err + ofmsg list \<times> valve" where
  "tfm_add_default_flows E valve_cl va =
     bindE (pipeline_flows valve_cl va) (\<lambda>ms1.
     bindE (add_default_flows E va) (\<lambda>(ms2, va).
     Inr (ms1 @ ms2, va)))"

definition aruba_delete_all_valve_flows :: "valve_env \<Rightarrow> valve \<Rightarrow> err + ofmsg list \<times> valve" where
  "aruba_delete_all_valve_flows E va =
     bindE (delete_all_valve_flows E va) (\<lambda>(ms, va).
     let (m, groups) = delete_all_groups (lib_ofp (ve_lib E))
     in Inr (ms @ [m], va\<lparr>va_groups := groups\<rparr>))"

section \<open>Every table is described\<close>

text \<open>The kinds of switches with static table ids are those the choice of the tables goes by.\<close>

lemma static_hardware: "map (\<lambda>(n, c). (n, hw_static_table_ids c)) SUPPORTED_HARDWARE = hardware_static_ids"
  by code_simp

lemma tfm_hardware_dynamic:
  "valve_factory h = Some c \<Longrightarrow> hw_tfm c \<noteq> None \<Longrightarrow> dict_get hardware_static_ids h = Some False"
proof -
  have "\<forall>(n, c) \<in> set SUPPORTED_HARDWARE. hw_tfm c \<noteq> None \<longrightarrow> dict_get hardware_static_ids n = Some False" by code_simp
  then show "valve_factory h = Some c \<Longrightarrow> hw_tfm c \<noteq> None \<Longrightarrow> dict_get hardware_static_ids h = Some False"
    unfolding valve_factory_def using dict_get_Some_in by fast
qed
lemma load_tables_Inr:
  assumes "load_tables tables cl tp = Inr body"
  obtains loaded where "mapE (load_table tables cl tp) (sort (map vt_table_id (dict_values tables))) = Inr loaded"
    and "body = loaded @ map (missing_table tp) (filter (\<lambda>i. i \<notin> set (map tfm_table_id loaded)) [0..tp_max_table_id tp])"
  using assms by (auto simp: load_tables_def Let_def bindE_Inr)

lemma fill_simps [simp]:
  "tfm_table_id (fill tp b) = tfm_table_id b" "tfm_max_entries (fill tp b) = tfm_max_entries b" "tfm_name (fill tp b) = tfm_name b"
  by (simp_all add: fill_def fill_required_properties_def Let_def)

lemma fill_properties:
  "p \<in> set (ts_properties (fill tp b)) \<longleftrightarrow> p \<in> set (ts_properties b) \<or>
     (tp_fill_req tp \<and> (\<exists>k \<in> set REQUIRED_PROPERTIES. p = OxmProp k [] \<and> k \<notin> prop_type_of ` set (ts_properties b)))"
  by (auto simp: fill_def fill_required_properties_def Let_def)

lemma fill_complete: "tp_fill_req tp \<Longrightarrow> k \<in> set REQUIRED_PROPERTIES \<Longrightarrow> \<exists>p \<in> set (ts_properties (fill tp b)). prop_type_of p = k"
  by (cases "k \<in> prop_type_of ` set (ts_properties b)") (force simp: fill_properties)+

lemma load_table_Inr:
  assumes "load_table tables cl tp i = Inr b"
  obtains t sz miss where "table_by_id tables i = Some t" and "tc_size (vt_config t) = Some sz" and "miss_props tables t = Inr miss"
    and "b = fill tp ((init_table i (vt_name t) (max (tp_min_max_flows tp) sz) (vt_metadata_match t) (vt_metadata_write t))
                      \<lparr>ts_properties := match_props tp t @ instruction_props t @ action_props cl tp t @ miss\<rparr>)"
  using assms by (auto simp: load_table_def bindE_Inr split: option.splits)

lemma load_table_id: "load_table tables cl tp i = Inr b \<Longrightarrow> tfm_table_id b = i"
  by (erule load_table_Inr) (simp add: init_table_def)

lemma loaded_ids: "mapE (load_table tables cl tp) ids = Inr loaded \<Longrightarrow> map tfm_table_id loaded = ids"
  by (induction ids arbitrary: loaded) (auto simp: bindE_Inr dest: load_table_id)

lemma missing_id [simp]: "tfm_table_id (missing_table tp i) = i"
  by (simp add: missing_table_def init_table_def)

lemma load_tables_ids:
  assumes "load_tables tables cl tp = Inr body" and "distinct (map vt_table_id (dict_values tables))"
  shows "distinct (map tfm_table_id body)"
    and "set (map tfm_table_id body) = vt_table_id ` set (dict_values tables) \<union> {0..tp_max_table_id tp}"
proof -
  from load_tables_Inr [OF assms(1)] obtain loaded where
      l: "mapE (load_table tables cl tp) (sort (map vt_table_id (dict_values tables))) = Inr loaded"
    and b: "body = loaded @ map (missing_table tp) (filter (\<lambda>i. i \<notin> set (map tfm_table_id loaded)) [0..tp_max_table_id tp])" .
  let ?missing = "filter (\<lambda>i. i \<notin> set (map tfm_table_id loaded)) [0..tp_max_table_id tp]"
  have ids: "map tfm_table_id body = sort (map vt_table_id (dict_values tables)) @ ?missing"
    unfolding b loaded_ids [OF l] by (simp add: comp_def loaded_ids [OF l])
  show "distinct (map tfm_table_id body)" unfolding ids using assms(2) by (auto simp: loaded_ids [OF l])
  show "set (map tfm_table_id body) = vt_table_id ` set (dict_values tables) \<union> {0..tp_max_table_id tp}"
    unfolding ids by (auto simp: loaded_ids [OF l])
qed

text \<open>The ids of the next tables a configured table has.\<close>

lemma configured_table:
  assumes "configure_tables dp multiple = Inr tables" and "(name, t) \<in> set tables"
  shows "tc_size (vt_config t) \<noteq> None"
    and "i \<in> set (vt_next_tables t) \<Longrightarrow> vt_table_id t < i \<and> i \<in> vt_table_id ` set (dict_values tables)"
proof -
  obtain static included d where ok: "configs_ok static included d" and keys: "dict_keys tables = dict_keys d"
    and build: "\<And>name t. (name, t) \<in> set tables \<Longrightarrow> \<exists>c. (name, c) \<in> set d \<and> build_table dp multiple d (name, c) = Inr (name, t)"
    using configure_tables_Inr [OF assms(1)] by metis
  from build [OF assms(2)] obtain c where b: "build_table dp multiple d (name, c) = Inr (name, t)" by blast
  then show "tc_size (vt_config t) \<noteq> None" by (auto simp: build_table_def bindE_Inr Let_def mk_valve_table_def)
  assume "i \<in> set (vt_next_tables t)"
  with b obtain m c' where m: "m \<in> set (tc_next_tables (vt_config t))" "dict_get d m = Some c'" "i = tc_table_id c'"
    by (auto simp: build_table_def bindE_Inr Let_def mk_valve_table_def split: option.splits)
  from configured_forward [OF assms, of m] m(1) obtain t' where t': "dict_get tables m = Some t'" "vt_table_id t < vt_table_id t'"
    by (auto simp: jumps_def)
  from build [OF dict_get_Some_in [OF t'(1)]] obtain c'' where c'': "(m, c'') \<in> set d" "build_table dp multiple d (m, c'') = Inr (m, t')"
    by blast
  from c''(1) m(2) configs_ok_distinct [OF ok] have "c'' = c'" by (simp add: dict_ok_in)
  with build_table_result [OF c''(2)] m(3) have "i = vt_table_id t'" by simp
  moreover have "t' \<in> set (dict_values tables)" using dict_get_Some_in [OF t'(1)] by (force simp: dict_values_def)
  ultimately show "vt_table_id t < i \<and> i \<in> vt_table_id ` set (dict_values tables)" using t'(2) by blast
qed

lemma tfm_ids_distinct:
  assumes "configure_tables dp multiple = Inr tables" and "valve_factory (dc_hardware dp) = Some cl" and "hw_tfm cl = Some tp"
  shows "distinct (map vt_table_id (dict_values tables))"
  using table_ids_dense [OF assms(1)] tfm_hardware_dynamic [OF assms(2)] assms(3) by (simp add: distinct_map)

lemma load_table_total:
  assumes "configure_tables dp multiple = Inr tables" and "i \<in> vt_table_id ` set (dict_values tables)"
  shows "\<exists>b. load_table tables cl tp i = Inr b"
proof -
  from assms(2) have "table_by_id tables i \<noteq> None" by (auto simp: table_by_id_def find_None_iff)
  then obtain t where t: "table_by_id tables i = Some t" by blast
  then have "t \<in> set (dict_values tables)" by (auto simp: table_by_id_def find_Some_iff)
  then obtain name where n: "(name, t) \<in> set tables" by (auto simp: dict_values_def)
  from configured_table(1) [OF assms(1) n] obtain sz where sz: "tc_size (vt_config t) = Some sz" by blast
  have "\<exists>miss. miss_props tables t = Inr miss"
  proof (cases "tc_miss_goto (vt_config t)")
    case None
    then show ?thesis by (simp add: miss_props_def)
  next
    case (Some m)
    with configured_forward [OF assms(1) n, of m] show ?thesis by (auto simp: miss_props_def jumps_def dict_getE_def)
  qed
  with t sz show ?thesis by (auto simp: load_table_def)
qed

lemma mapE_ran: "mapE f xs = Inr ys \<Longrightarrow> y \<in> set ys \<Longrightarrow> \<exists>x \<in> set xs. f x = Inr y"
  by (induction xs arbitrary: ys) (auto simp: bindE_Inr)

lemma mapE_total: "(\<And>x. x \<in> set xs \<Longrightarrow> \<exists>y. f x = Inr y) \<Longrightarrow> \<exists>ys. mapE f xs = Inr ys"
  by (induction xs) (auto, metis bindE_simps(2))
lemma load_tables_total:
  assumes "configure_tables dp multiple = Inr tables"
  shows "\<exists>body. load_tables tables cl tp = Inr body"
proof -
  have "\<exists>loaded. mapE (load_table tables cl tp) (sort (map vt_table_id (dict_values tables))) = Inr loaded"
    by (rule mapE_total) (use load_table_total [OF assms] in auto)
  then show ?thesis by (auto simp: load_tables_def Let_def)
qed

text \<open>The message a configured pipeline is announced with is there, and describes every table once.\<close>

text \<open>C40. For every pipeline that configuration succeeds in building for a kind of switch that is sent
  table features, the message can be composed, and describes every table of the pipeline and every
  number up to the last one of that kind of switch exactly once; each next table and miss table it
  names is a later table of the pipeline; and every entry has all the required properties, where
  that kind asks for them.\<close>

lemma features_describe_tables:
  assumes cfg: "configure_tables dp multiple = Inr tables" and hw: "valve_factory (dc_hardware dp) = Some cl" "hw_tfm cl = Some tp"
  shows "\<exists>body. load_tables tables cl tp = Inr body \<and> distinct (map tfm_table_id body) \<and>
    set (map tfm_table_id body) = vt_table_id ` set (dict_values tables) \<union> {0..tp_max_table_id tp} \<and>
    (\<forall>b \<in> set body. \<forall>k ids. NextTablesProp k ids \<in> set (ts_properties b) \<longrightarrow>
       (\<forall>i \<in> set ids. tfm_table_id b < i \<and> i \<in> vt_table_id ` set (dict_values tables))) \<and>
    (tp_fill_req tp \<longrightarrow> (\<forall>b \<in> set body. set REQUIRED_PROPERTIES \<subseteq> prop_type_of ` set (ts_properties b)))"
proof -
  from load_tables_total [OF cfg] obtain body where body: "load_tables tables cl tp = Inr body" by blast
  let ?ids = "sort (map vt_table_id (dict_values tables))"
  from load_tables_Inr [OF body] obtain loaded where l: "mapE (load_table tables cl tp) ?ids = Inr loaded"
    and bodydef: "body = loaded @ map (missing_table tp) (filter (\<lambda>i. i \<notin> set (map tfm_table_id loaded)) [0..tp_max_table_id tp])" .
  have each: "(\<exists>i. i \<in> set ?ids \<and> load_table tables cl tp i = Inr b) \<or> (\<exists>i. b = missing_table tp i)" if "b \<in> set body" for b
    using that mapE_ran [OF l, of b] by (auto simp: bodydef)
  have nexts: "tfm_table_id b < i \<and> i \<in> vt_table_id ` set (dict_values tables)"
    if b: "b \<in> set body" and p: "NextTablesProp k ids \<in> set (ts_properties b)" and i: "i \<in> set ids" for b k ids i
    using each [OF b]
  proof (elim disjE exE conjE)
    fix j assume "b = missing_table tp j"
    with p show ?thesis by (auto simp: missing_table_def fill_properties init_table_def)
  next
    fix j assume lt: "load_table tables cl tp j = Inr b"
    from load_table_Inr [OF lt] obtain t sz miss where t: "table_by_id tables j = Some t" and m: "miss_props tables t = Inr miss"
      and b: "b = fill tp ((init_table j (vt_name t) (max (tp_min_max_flows tp) sz) (vt_metadata_match t) (vt_metadata_write t))
                      \<lparr>ts_properties := match_props tp t @ instruction_props t @ action_props cl tp t @ miss\<rparr>)" .
    from t have "t \<in> set (dict_values tables)" and j: "vt_table_id t = j" by (auto simp: table_by_id_def find_Some_iff)
    then obtain name where n: "(name, t) \<in> set tables" by (auto simp: dict_values_def)
    from p have "NextTablesProp k ids \<in> set (instruction_props t) \<or> NextTablesProp k ids \<in> set miss"
      by (auto simp: b fill_properties match_props_def action_props_def Let_def split: if_splits)
    then consider "ids = vt_next_tables t" | m' where "tc_miss_goto (vt_config t) = Some m'"
        "\<exists>t'. dict_get tables m' = Some t' \<and> ids = [vt_table_id t']"
      using m by (auto simp: instruction_props_def miss_props_def bindE_Inr split: if_splits option.splits)
    then show ?thesis
    proof cases
      case 1
      then show ?thesis using configured_table(2) [OF cfg n] i load_table_id [OF lt] j by simp
    next
      case (2 m')
      then obtain t' where t': "dict_get tables m' = Some t'" "ids = [vt_table_id t']" by blast
      from configured_forward [OF cfg n, of m'] 2(1) t' i have "vt_table_id t < i" by (simp add: jumps_def)
      moreover have "t' \<in> set (dict_values tables)" using dict_get_Some_in [OF t'(1)] by (force simp: dict_values_def)
      ultimately show ?thesis using t'(2) i load_table_id [OF lt] j by simp
    qed
  qed
  have "set REQUIRED_PROPERTIES \<subseteq> prop_type_of ` set (ts_properties b)" if "tp_fill_req tp" "b \<in> set body" for b
  proof -
    have "\<exists>b'. b = fill tp b'" using each [OF that(2)] by (auto simp: missing_table_def elim!: load_table_Inr)
    then show ?thesis using fill_complete [OF that(1)] by (force simp: image_iff)
  qed
  with body nexts load_tables_ids [OF body tfm_ids_distinct [OF cfg hw]] show ?thesis by blast
qed

section \<open>The switch takes the flows\<close>

text \<open>After the message, a switch that asks for it takes the flows of the tables: their fields are announced.\<close>

lemma tfm_get:
  assumes "b \<in> set body"
  shows "dict_get (sw_tfm (apply_tfm (map tfm_body.truncate body) s)) (tfm_table_id b) \<noteq> None"
proof -
  have "dict_get (foldl (\<lambda>d b. dict_set (tfm_table_id b) b d) d bs) k \<noteq> None \<longleftrightarrow> dict_get d k \<noteq> None \<or> k \<in> tfm_table_id ` set bs"
    for d :: "(int, tfm_body) dict" and bs k
    by (induction bs arbitrary: d) auto
  moreover have "tfm_table_id b \<in> tfm_table_id ` set (map tfm_body.truncate body)"
    using assms by (force simp: tfm_body.defs)
  ultimately show ?thesis by (simp add: apply_tfm_def)
qed

lemma features_admit_flows:
  assumes cfg: "configure_tables dp multiple = Inr tables" and hw: "valve_factory (dc_hardware dp) = Some cl" "hw_tfm cl = Some tp"
    and body: "load_tables tables cl tp = Inr body" and t: "(name, t) \<in> set tables"
    and flow: "vt_flowmod K recirc t a = Inr m" and "vt_table_id t \<noteq> OFPTT_ALL K"
    and "fa_command a \<noteq> OFPFC_DELETE" "fa_command a \<noteq> OFPFC_DELETE_STRICT"
  shows "\<exists>fm b. m = FlowModMsg fm \<and> b \<in> set body \<and> tfm_table_id b = fm_table_id fm \<and>
    validate_flowmod_tfm K (snd (apply_ofmsg K conv (table_features body) s)) fm = Inr () \<and>
    (tp_use_oxm_ids tp \<longrightarrow> (\<forall>(field, val) \<in> set (fm_match fm). \<exists>oxm_ids has_mask.
       OxmProp PMatch oxm_ids \<in> set (ts_properties b) \<and> (field, has_mask) \<in> set oxm_ids \<and> (is_masked val \<longrightarrow> has_mask)))"
proof -
  from vt_flowmod_Inr [OF flow] obtain fm where fm: "m = FlowModMsg fm" "verify_flowmod K t fm = Inr ()"
      "fm_table_id fm = vt_table_id t" "fm_command fm = fa_command a"
    by metis
  then have "\<not> is_flowdel (FlowModMsg fm)" using assms(8,9) by simp
  with fm(2) have fits: "fits_table K t fm" using verify_flowmod_fits assms(7) by blast
  from load_tables_Inr [OF body] obtain loaded where
      l: "mapE (load_table tables cl tp) (sort (map vt_table_id (dict_values tables))) = Inr loaded" and sub: "set loaded \<subseteq> set body"
    by (metis le_sup_iff order_refl set_append)
  have tv: "t \<in> set (dict_values tables)" using t by (force simp: dict_values_def)
  then have "vt_table_id t \<in> set (sort (map vt_table_id (dict_values tables)))" by simp
  from mapE_dom [OF l this] obtain b where b: "b \<in> set loaded" "load_table tables cl tp (vt_table_id t) = Inr b" by auto
  from load_table_Inr [OF b(2)] obtain u sz miss where u: "table_by_id tables (vt_table_id t) = Some u"
      and bdef: "b = fill tp ((init_table (vt_table_id t) (vt_name u) (max (tp_min_max_flows tp) sz) (vt_metadata_match u) (vt_metadata_write u))
                      \<lparr>ts_properties := match_props tp u @ instruction_props u @ action_props cl tp u @ miss\<rparr>)" .
  have "u = t"
  proof -
    from u have "u \<in> set (dict_values tables)" "vt_table_id u = vt_table_id t" by (auto simp: table_by_id_def find_Some_iff)
    with tv tfm_ids_distinct [OF cfg hw] show ?thesis by (simp add: distinct_map inj_on_def)
  qed
  have "\<exists>oxm_ids has_mask. OxmProp PMatch oxm_ids \<in> set (ts_properties b) \<and> (field, has_mask) \<in> set oxm_ids \<and> (is_masked val \<longrightarrow> has_mask)"
    if "tp_use_oxm_ids tp" and "(field, val) \<in> set (fm_match fm)" for field val
  proof -
    from fits that(2) obtain mts has_mask where mts: "vt_match_types t = Some mts" "dict_get mts field = Some has_mask" "is_masked val \<longrightarrow> has_mask"
      by (fastforce simp: fits_table_def split: option.splits)
    note mem = dict_get_Some_in [OF mts(2)]
    then have "OxmProp PMatch mts \<in> set (match_props tp u)" using mts(1) that(1) \<open>u = t\<close> by (auto simp: match_props_def or_empty_def Let_def)
    with mem mts(3) show ?thesis by (auto simp: bdef fill_properties)
  qed
  moreover have "validate_flowmod_tfm K (snd (apply_ofmsg K conv (table_features body) s)) fm = Inr ()"
    using tfm_get [of b body s] b(1) sub load_table_id [OF b(2)] fm(3) assms(7)
    by (auto simp: validate_flowmod_tfm_def table_features_def apply_ofmsg_def)
  moreover have "tfm_table_id b = fm_table_id fm" using load_table_id [OF b(2)] fm(3) by simp
  ultimately show ?thesis using fm(1) b(1) sub by blast
qed

text \<open>
  No table announces that its flows write metadata, though in a pipeline with egress the flows that output do.
\<close>

lemma write_metadata_undeclared:
  assumes "load_tables tables cl tp = Inr body" and "b \<in> set body" and "InstructionsProp k kinds \<in> set (ts_properties b)"
  shows "ITWriteMetadata \<notin> set kinds"
proof -
  from load_tables_Inr [OF assms(1)] obtain loaded where
      l: "mapE (load_table tables cl tp) (sort (map vt_table_id (dict_values tables))) = Inr loaded"
    and b: "body = loaded @ map (missing_table tp) (filter (\<lambda>i. i \<notin> set (map tfm_table_id loaded)) [0..tp_max_table_id tp])" .
  consider i where "load_table tables cl tp i = Inr b" | i where "b = missing_table tp i"
    using assms(2) mapE_ran [OF l, of b] b by auto
  then show ?thesis
  proof cases
    case 1
    from load_table_Inr [OF 1] obtain t sz miss where m: "miss_props tables t = Inr miss"
      and bdef: "b = fill tp ((init_table i (vt_name t) (max (tp_min_max_flows tp) sz) (vt_metadata_match t) (vt_metadata_write t))
                      \<lparr>ts_properties := match_props tp t @ instruction_props t @ action_props cl tp t @ miss\<rparr>)" .
    have "InstructionsProp k kinds \<notin> set (match_props tp t)" and "InstructionsProp k kinds \<notin> set (action_props cl tp t)"
      by (simp_all add: match_props_def action_props_def Let_def)
    with assms(3) consider "InstructionsProp k kinds \<in> set (instruction_props t)" | "InstructionsProp k kinds \<in> set miss"
      unfolding bdef fill_properties by auto
    then show ?thesis
    proof cases
      case 1
      then show ?thesis by (auto simp: instruction_props_def split: if_splits)
    next
      case 2
      then show ?thesis using m by (auto simp: miss_props_def bindE_Inr split: if_splits option.splits)
    qed
  next
    case 2
    with assms(3) show ?thesis by (auto simp: missing_table_def fill_properties init_table_def)
  qed
qed

subsection \<open>Witnesses\<close>

definition generic_tables :: "err + (string, valve_table) dict" where
  "generic_tables = configure_tables (example_dp ''GenericTFM'') (\<lambda>_. 1)"

definition generic_params :: tfm_params where
  "generic_params = \<lparr>tp_max_table_id = 0, tp_min_max_flows = 0, tp_use_oxm_ids = True, tp_fill_req = True\<rparr>"

definition eth_dst_view :: "(string, valve_table) dict \<Rightarrow> (int \<times> bool \<times> (string, bool) dict option) option" where
  "eth_dst_view tables = map_option (\<lambda>t. (vt_table_id t, vt_exact_match t, vt_match_types t)) (dict_get tables ''eth_dst'')"

lemma generic_views:
  "(case generic_tables of Inl _ \<Rightarrow> None | Inr ts \<Rightarrow> Some (map vt_table_id (dict_values ts), eth_dst_view ts)) =
     Some ([0, 1, 2, 3, 4, 5, 6, 7], Some (6, True, Some [(''eth_dst'', False), (''vlan_vid'', False)]))"
  by code_simp

lemma generic_configured:
  obtains tables t where "configure_tables (example_dp ''GenericTFM'') (\<lambda>_. 1) = Inr tables"
    and "map vt_table_id (dict_values tables) = [0, 1, 2, 3, 4, 5, 6, 7]"
    and "(''eth_dst'', t) \<in> set tables" "vt_table_id t = 6" "vt_exact_match t"
      "vt_match_types t = Some [(''eth_dst'', False), (''vlan_vid'', False)]"
proof -
  obtain tables where r: "generic_tables = Inr tables"
    and v: "map vt_table_id (dict_values tables) = [0, 1, 2, 3, 4, 5, 6, 7]"
      "eth_dst_view tables = Some (6, True, Some [(''eth_dst'', False), (''vlan_vid'', False)])"
    using generic_views by (auto split: sum.splits)
  from v(2) obtain t where t: "dict_get tables ''eth_dst'' = Some t" "vt_table_id t = 6" "vt_exact_match t"
      "vt_match_types t = Some [(''eth_dst'', False), (''vlan_vid'', False)]" by (auto simp: eth_dst_view_def)
  with r v(1) dict_get_Some_in [OF t(1)] show thesis by (intro that) (simp_all add: generic_tables_def)
qed

lemma generic_hardware: "valve_factory (dc_hardware (example_dp ''GenericTFM'')) = Some TfmValve" "hw_tfm TfmValve = Some generic_params"
  by (simp_all add: valve_factory_def SUPPORTED_HARDWARE_def example_dp_def dict_simps TfmValve_def generic_params_def)

lemma features_describe_tables_witness:
  "\<exists>tables body. configure_tables (example_dp ''GenericTFM'') (\<lambda>_. 1) = Inr tables \<and>
     load_tables tables TfmValve generic_params = Inr body \<and> set (map tfm_table_id body) = {0, 1, 2, 3, 4, 5, 6, 7}"
proof (rule generic_configured)
  fix tables t
  assume c: "configure_tables (example_dp ''GenericTFM'') (\<lambda>_. 1) = Inr tables"
    and ids: "map vt_table_id (dict_values tables) = [0, 1, 2, 3, 4, 5, 6, 7]"
  have "vt_table_id ` set (dict_values tables) = {0, 1, 2, 3, 4, 5, 6, 7}" using arg_cong [OF ids, of set] by simp
  moreover have "tp_max_table_id generic_params = 0" by (simp add: generic_params_def)
  ultimately show ?thesis using features_describe_tables [OF c generic_hardware] c by fastforce
qed

definition generic_flow :: flow_args where
  "generic_flow = flow_defaults\<lparr>fa_match := [(''eth_dst'', MText ''0e:00:00:00:00:01''), (''vlan_vid'', MInt 4196)],
     fa_priority := Some 9000, fa_inst := [IApplyActions [output_port 1]]\<rparr>"

lemma features_admit_flows_witness:
  "\<exists>t fm (b :: table_stats). vt_flowmod of13 (\<lambda>_. False) t generic_flow = Inr (FlowModMsg fm) \<and> tfm_table_id b = 6 \<and>
     (\<exists>oxm_ids has_mask. OxmProp PMatch oxm_ids \<in> set (ts_properties b) \<and> (''vlan_vid'', has_mask) \<in> set oxm_ids)"
proof (rule generic_configured)
  fix tables t
  assume c: "configure_tables (example_dp ''GenericTFM'') (\<lambda>_. 1) = Inr tables"
    and t: "(''eth_dst'', t) \<in> set tables" "vt_table_id t = 6" "vt_exact_match t"
      "vt_match_types t = Some [(''eth_dst'', False), (''vlan_vid'', False)]"
  from load_tables_total [OF c] obtain body where body: "load_tables tables TfmValve generic_params = Inr body" by blast
  have a: "fa_command generic_flow \<noteq> OFPFC_DELETE" "fa_command generic_flow \<noteq> OFPFC_DELETE_STRICT" "vt_table_id t \<noteq> OFPTT_ALL of13"
    using t(2) by (simp_all add: generic_flow_def flow_defaults_def of13_def)
  obtain fm where fm: "vt_flowmod of13 (\<lambda>_. False) t generic_flow = Inr (FlowModMsg fm)" "fm_match fm = fa_match generic_flow"
    using t(2-4) by (simp add: generic_flow_def flow_defaults_def vt_flowmod_def trim_inst_def trim_actions_def output_port_def output_port_len_def
      set_field_keys_def verify_flowmod_def flowmod_def verify_add_field_def dict_simps of13_def Let_def)
  have oxm: "tp_use_oxm_ids generic_params" by (simp add: generic_params_def)
  from features_admit_flows [OF c generic_hardware body t(1) fm(1) a(3,1,2)] obtain b where b: "b \<in> set body" "tfm_table_id b = fm_table_id fm"
    and m: "\<forall>(field, val) \<in> set (fm_match fm). \<exists>oxm_ids has_mask. OxmProp PMatch oxm_ids \<in> set (ts_properties b) \<and>
       (field, has_mask) \<in> set oxm_ids \<and> (is_masked val \<longrightarrow> has_mask)"
    using oxm by blast
  from m have "\<exists>oxm_ids has_mask. OxmProp PMatch oxm_ids \<in> set (ts_properties b) \<and> (''vlan_vid'', has_mask) \<in> set oxm_ids"
    unfolding fm(2) by (simp add: generic_flow_def flow_defaults_def)
  moreover obtain fm' where "FlowModMsg fm = FlowModMsg fm'" "fm_table_id fm' = vt_table_id t" by (rule vt_flowmod_Inr [OF fm(1)]) simp
  then have "tfm_table_id b = 6" using b(2) t(2) by simp
  ultimately show ?thesis using fm(1) by (intro exI [of _ t] exI [of _ fm] exI [of _ b]) simp
qed

end
