(* ===== verification/Spec2Isabelle.thy ===== *)
theory Spec2Isabelle imports Update Lacp Fib AclFit StackTunnel StackLag StackFlood Valve Reconf TableFeatures begin

text \<open>
  A verification library of FAUCET, an OpenFlow 1.3 controller for multi table switches
  (\<^verbatim>\<open>src/faucet\<close>), and of the model of a switch its tests run flows on (\<^verbatim>\<open>src/clib/fakeoftable.py\<close>).

  \<^bold>\<open>The program.\<close> FAUCET keeps, for every datapath (switch), a \<^verbatim>\<open>Valve\<close>. A \<^verbatim>\<open>Valve\<close> reacts to events of
  its datapath (packets, port changes, removed flows, timers, a new configuration) with lists of OpenFlow
  messages, which it reorders and sends. The flows lie in the tables of a pipeline the
  configuration determines: port ACL, VLAN, VLAN ACL, classification, source learning, routing (FIB and
  VIP), destination, flood, egress. Managers compose the flows of a feature: switching (learning, flooding,
  LACP), routing, ACLs; each goes through a wrapper of its tables that checks a flow against the table's
  configuration.

  \<^bold>\<open>The theories, in the order they build on each other.\<close>

  \<^item> \<open>Prelude\<close>: what raises returns \<open>err + 'a\<close>; \<open>bindE\<close>, \<open>foldE\<close>, \<open>mapE\<close> are sequencing and loops that
    may raise; a Python dict is an association list in insertion order, under the contract \<open>dict_store\<close>.
  \<^item> \<open>OFMsg\<close>: messages, matches, actions and instructions, and the functions of \<^verbatim>\<open>valve_of.py\<close> that build and
    classify them. The classes and constants of the OpenFlow library are datatypes and the record \<open>ofp\<close>;
    \<open>lib\<close> gathers what comes from libraries.
  \<^item> \<open>FlowReorder\<close>: \<open>valve_flowreorder\<close> of \<^verbatim>\<open>valve_of.py\<close>: the order of the messages of an update, removal of
    overlapped deletes and repeats, barriers.
  \<^item> \<open>Switch\<close>: \<^verbatim>\<open>fakeoftable.py\<close>: flow tables, groups, lookup, and the run of a packet through the
    pipeline. The state \<open>switch\<close> is the attributes of \<^verbatim>\<open>FakeOFTable\<close>.
  \<^item> \<open>Update\<close>: the composition of the two: the messages of an update, reordered, run on the switch.
  \<^item> \<open>TableConfig\<close> (\<^verbatim>\<open>faucet_pipeline.py\<close>, \<^verbatim>\<open>faucet_metadata.py\<close>), \<open>ValveTable\<close> (\<^verbatim>\<open>valve_table.py\<close>) and
    \<open>Pipeline\<close> (\<^verbatim>\<open>DP._configure_tables\<close> of \<^verbatim>\<open>dp.py\<close>): the tables a pipeline may have, the wrapper that
    composes their flows, and the choice and numbering of the tables of a datapath.
  \<^item> \<open>Port\<close> (\<^verbatim>\<open>port.py\<close>) and \<open>Vlan\<close> (\<^verbatim>\<open>vlan.py\<close>): a port with its LACP and stack state machines; a VLAN with
    its host cache, its routes, its LAGs and the ports it floods to.
  \<^item> \<open>Packet\<close> (\<^verbatim>\<open>valve_packet.py\<close>): building and parsing packets; \<open>pkt_meta\<close> is \<^verbatim>\<open>PacketMeta\<close>.
  \<^item> \<open>Output\<close> (\<^verbatim>\<open>valve_pipeline.py\<close>), \<open>Flood\<close>, \<open>Learning\<close> and \<open>Lacp\<close> (\<^verbatim>\<open>valve_switch_standalone.py\<close>, with
    the parts of \<^verbatim>\<open>valve.py\<close> that call it): the pipeline manager and the switch manager. The record
    \<open>switch_mgr\<close> is the manager's attributes, \<open>pipeline\<close> the pipeline manager's.

  \<^item> \<open>NextHop\<close>, \<open>IPText\<close>, \<open>Route\<close> and \<open>Fib\<close> (\<^verbatim>\<open>valve_route.py\<close>, \<^verbatim>\<open>router.py\<close> and the calls of \<^verbatim>\<open>valve.py\<close>): the
    entry of a next hop, the text of addresses as the matches hold it, the route manager of one IP version, and what its
    messages leave in the FIB. The record \<open>route_mgr\<close> is the manager's attributes; the VLANs it changes are a
    \<open>vlan_heap\<close>, a map from VLAN id to VLAN.

  \<^item> \<open>Conf\<close> (\<^verbatim>\<open>conf.py\<close>): the base class of configuration objects, over the values YAML yields.
  \<^item> \<open>Acl\<close> and \<open>AclManager\<close> (\<^verbatim>\<open>valve_acl.py\<close>), \<open>AclConf\<close> (\<^verbatim>\<open>acl.py\<close>, \<^verbatim>\<open>meter.py\<close>) and \<open>AclFit\<close>: the flows of ACLs, the
    manager of the ACLs of a datapath, the configuration of ACLs and their tunnels, and the composition of the three with
    \<open>Pipeline\<close>. The record \<open>acl\<close> is the attributes of \<^verbatim>\<open>ACL\<close>, \<open>acl_manager\<close> those of \<^verbatim>\<open>ValveAclManager\<close>.

  \<^item> \<open>StackGraph\<close>, \<open>Stack\<close> (\<^verbatim>\<open>stack.py\<close>), \<open>StackManager\<close> and \<open>StackTunnel\<close> (\<^verbatim>\<open>valve_stack.py\<close>): what the code uses of
    the graph library, as the locale \<open>multigraph\<close> with lists of nodes and edges as an instance; the graph of a
    stack, its resolution, the health of its nodes; the ports of a datapath towards and away from the root, the
    nomination of the root; the tunnels. \<open>StackSwitch\<close> and \<open>StackLag\<close> (\<^verbatim>\<open>valve_switch_stack.py\<close>): the switch
    managers of a stack, which put their methods in the place of those of \<open>Flood\<close> and \<open>Learning\<close>. \<open>StackFlood\<close>: the
    composition of their flood rules with the pruning of the stack managers. The record \<open>stack\<close> is the attributes of \<^verbatim>\<open>Stack\<close>, \<open>distances\<close> those of
    \<^verbatim>\<open>ValveStackManager\<close>; a \<open>stack_net\<close> holds the stacks and ports of all datapaths, by name, as each stack object
    refers to those of its peers.

  \<^item> \<open>Valve\<close> (\<^verbatim>\<open>valve.py\<close>, the flows of \<^verbatim>\<open>valve_lldp.py\<close>, \<^verbatim>\<open>valve_coprocessor.py\<close>, \<^verbatim>\<open>valve_outonly.py\<close>): the valve of a datapath
    without a stack, which composes the managers above: the record \<open>valve\<close> holds them and the ports and VLANs they share. Its
    handlers: connecting, port status and description, packets, LLDP beacons, expiry. \<open>Reconf\<close> (\<^verbatim>\<open>DP.get_config_changes\<close> of
    \<^verbatim>\<open>dp.py\<close>, \<^verbatim>\<open>Valve._apply_config_changes\<close>): what differs between two configurations, and a valve that takes the new one over.

  \<^item> \<open>TableFeatures\<close> (\<^verbatim>\<open>tfm_pipeline.py\<close>, the subclasses of \<^verbatim>\<open>Valve\<close> in \<^verbatim>\<open>valve.py\<close>): the message that tells a switch
    what its tables hold, and the kinds of switches as a table of their attributes.

  Functions keep the names of the source, with a prefix where a name is taken. An object the code
  mutates is a record that is passed and returned; an operation that sends messages returns them.
  Times are integers (the source has floats and only compares, adds and subtracts them).

  \<^bold>\<open>What the lemmas show.\<close>

  \<^item> Updates: the messages come out in the order of their kinds, separated by barriers, no flow is lost
    but a repeat or an overlapped delete, and on the switch the last addition of each flow is what the
    tables hold afterwards (\<open>FlowReorder\<close>, \<open>Update\<close>). A flow table refines a map from priority and match
    to entries, a lookup gives an entry of highest priority, and the switch stays well-formed (\<open>Switch\<close>).
  \<^item> Pipelines: every goto of a configured pipeline goes forward to a table of the pipeline, so each packet
    visits each table at most once, as the switch runs it (\<open>pipeline_tables\<close> in \<open>Switch\<close>: the loop over the tables
    ends by itself; only the nesting of groups, which the interpreter's recursion limit bounds, has fuel). Composed flows fit
    the table, and trimming keeps the outputs. The table features message describes every table of a configured pipeline once,
    and announces the fields of all its flows (\<open>TableFeatures\<close>).
  \<^item> Ports and VLANs: the state machine of a stack port only takes the transitions it means to; the two indexes of the host cache agree and nothing raises; expiry removes what has timed
    out; the routes of a VLAN and the index by gateway agree, while no destination changes its gateway.
  \<^item> Flooding: the flood rules reach the ports that flooding allows and no other, and groups flood as
    actions do.
  \<^item> Learning: the limit of a VLAN holds under every interleaving of packets and expiry, a host follows its
    packets unless it is pinned, timeouts are within their bounds.
  \<^item> LACP: the block of a port is installed exactly when the port may not forward.
  \<^item> Routing: while packets, resolution, expiry, ports that go down and changes of routes interleave, the FIB
    of the switch holds every route whose gateway is resolved, with the MAC address last heard from it (\<open>fib_ok\<close>,
    which each operation \<open>keeps\<close>; for a manager without routers, one IP version at a time, and routes that are not given
    another gateway while they are there); a cycle of the resolver asks for no more
    gateways than its limit, each once and each due; the waits between tries are within their bounds.
  \<^item> Configuration: the attributes of an object that has been read have the types its class declares, and a frozen
    object changes only in its dynamic attributes.
  \<^item> ACLs: a packet gets what the first rule that matches it says; deleting the ACL of a port takes out what adding it
    installed; the table that is generated for the ACLs accepts the flows the manager composes from them.
  \<^item> Stacking: a topology that resolves is connected; when the datapaths agree on the graph and the states of
    the links (\<open>stack_consistent\<close>), they agree on the one link of each pair of neighbours that is
    not pruned, and the ports by which hosts and tunnels are forwarded lead to their destination. With reflection, the
    copies of a broadcast go up to the root and down the tree of shortest paths, on no other link, and every datapath floods exactly one of them to its
    own ports. What happens when
    they do not agree is in the findings.
  \<^item> Valve: after a description of the ports, the ports a valve has as up are those described as up, and the same description
    changes nothing more; connecting starts with no host cached and the right ports up, disconnecting forgets the hosts of
    the ports (\<open>Valve\<close>). A port that a warm restart leaves alone has not changed, nor its ingress ACLs and VLANs; reloading
    the same configuration changes nothing, but for the stack ports while a link of the stack is down (\<open>Reconf\<close>).
  \<^item> Packets: what FAUCET writes into LLDP and MAC addresses it reads back.

  \<^bold>\<open>Interfaces.\<close> \<open>dict_store\<close> (dicts), \<open>deduper\<close> (the deduplication functions of the reordering),
  \<open>flow_store\<close> (the flow table of the switch), \<open>host_store\<close> (the host cache), \<open>learning_timeouts\<close> (the two ways hosts time out),
  \<open>vlan_installer\<close> (the rules the LACP handler relies on), \<open>resolver\<close> (what the loop over unresolved gateways relies on),
  \<open>multigraph\<close> (the graph library) and \<open>reflected_flood\<close> (what the way of a broadcast relies on) are locales, each
  interpreted on the definitions of the model that provide it.

  \<^bold>\<open>Not modelled.\<close> The libraries (OpenFlow classes, packet parsing and serialising, \<^verbatim>\<open>random\<close>, \<^verbatim>\<open>hashlib\<close>)
  are parameters. Of the program: the resolution of the names in the configuration of datapaths, ports and VLANs
  (\<^verbatim>\<open>finalize_config\<close>), which is checks of what YAML yields; \<^verbatim>\<open>valves_manager.py\<close>, the loop over the valves, and with it the
  verification of stack ports over LLDP; the branches of \<^verbatim>\<open>valve.py\<close> for stacks (what they call is modelled on its own); the comparison of pipelines by their
  text in \<^verbatim>\<open>TfmValve._pipeline_change\<close>. 802.1X, BGP, Gauge, the Ryu application, the command
  line tools and the test infrastructure other than the switch are input and output around the core and are left
  out. Logging and metrics are left out throughout, but where building a log message can raise.
\<close>

end
